(* ===== verification/Go_Prelude.thy ===== *)
theory Go_Prelude
  imports Main "HOL-Library.Char_ord" "HOL-Library.List_Lexorder"
    "HOL-Library.Product_Lexorder" "HOL-Library.Option_ord"
begin

text \<open>
  Shared vocabulary of the development: results that are an error or a value, the SQL
  \<open>UPDATE\<close>/\<open>SELECT\<close> shapes every store uses (a table is the list of its rows), the
  transaction wrapper of the store package, reachable states of a step relation, and the
  generic facts about them.  A Go string is a \<open>string\<close> (a list of bytes, since a \<open>char\<close> is
  an 8-bit value); its order is the bytewise order of Go and of SQLite's BINARY collation.
\<close>

section \<open>Collections of facts\<close>

named_theorems go_defs \<open>definitions of small predicates that proofs unfold together\<close>
named_theorems table_simps \<open>equations about table updates\<close>

section \<open>Results\<close>

text \<open>A Go call that returns \<open>(value, error)\<close> is a value of \<open>'e + 'a\<close>, \<open>Inl\<close> for the error.\<close>

definition bind_res :: "('e + 'a) \<Rightarrow> ('a \<Rightarrow> 'e + 'b) \<Rightarrow> 'e + 'b" where
  "bind_res m f = (case m of Inl e \<Rightarrow> Inl e | Inr x \<Rightarrow> f x)"

lemma bind_res_simps [simp]:
  "bind_res (Inl e) f = Inl e"
  "bind_res (Inr x) f = f x"
  by (simp_all add: bind_res_def)

lemma bind_res_Inr_conv: "bind_res m f = Inr y \<longleftrightarrow> (\<exists>x. m = Inr x \<and> f x = Inr y)"
  by (simp add: bind_res_def split: sum.split)

definition check :: "bool \<Rightarrow> 'e \<Rightarrow> 'e + unit" where
  "check b e = (if b then Inr () else Inl e)"

lemma check_simps [simp]:
  "check True e = Inr ()"
  "check False e = Inl e"
  "check b e = Inr u \<longleftrightarrow> b"
  "check b e = Inl e' \<longleftrightarrow> \<not> b \<and> e' = e"
  by (auto simp: check_def)

text \<open>A list processed left to right, stopping at the first error.\<close>

fun map_res :: "('a \<Rightarrow> 'e + 'b) \<Rightarrow> 'a list \<Rightarrow> 'e + 'b list" where
  "map_res f [] = Inr []"
| "map_res f (x # xs) =
     bind_res (f x) (\<lambda>y. bind_res (map_res f xs) (\<lambda>ys. Inr (y # ys)))"

lemma map_res_Inr_length: "map_res f xs = Inr ys \<Longrightarrow> length ys = length xs"
  by (induction xs arbitrary: ys) (auto simp: bind_res_Inr_conv)

lemma map_res_Inr_nth:
  "map_res f xs = Inr ys \<Longrightarrow> i < length xs \<Longrightarrow> f (xs ! i) = Inr (ys ! i)"
  by (induction xs arbitrary: ys i) (auto simp: bind_res_Inr_conv nth_Cons split: nat.split)

lemma map_res_Inr_set:
  assumes "map_res f xs = Inr ys" and "y \<in> set ys"
  shows "\<exists>x \<in> set xs. f x = Inr y"
  using assms by (induction xs arbitrary: ys) (auto simp: bind_res_Inr_conv)

text \<open>Early returns: \<open>if bad { return err }\<close> in front of the rest, and a loop of them.\<close>

lemma if_Inl_eq_Inr [simp]: "(if b then Inl e else x) = Inr y \<longleftrightarrow> \<not> b \<and> x = Inr y"
  by simp

fun check_all :: "('a \<Rightarrow> 'e + unit) \<Rightarrow> 'a list \<Rightarrow> 'e + unit" where
  "check_all f [] = Inr ()"
| "check_all f (x # xs) = bind_res (f x) (\<lambda>_. check_all f xs)"

lemma check_all_Inr: "check_all f xs = Inr u \<longleftrightarrow> (\<forall>x \<in> set xs. f x = Inr ())"
  by (induction xs) (auto simp: bind_res_Inr_conv)

lemma map_res_Inr_map:
  assumes "map_res f xs = Inr ys" and "\<And>x y. x \<in> set xs \<Longrightarrow> f x = Inr y \<Longrightarrow> g y = h x"
  shows "map g ys = map h xs"
  using assms by (induction xs arbitrary: ys) (auto simp: bind_res_Inr_conv)

lemmas res_simps = bind_res_Inr_conv check_all_Inr

section \<open>Tables\<close>

text \<open>\<open>UPDATE t SET .. WHERE P\<close> and the number of rows it affects.\<close>

definition update_where :: "('r \<Rightarrow> bool) \<Rightarrow> ('r \<Rightarrow> 'r) \<Rightarrow> 'r list \<Rightarrow> 'r list" where
  "update_where P f rows = map (\<lambda>r. if P r then f r else r) rows"

definition count_where :: "('r \<Rightarrow> bool) \<Rightarrow> 'r list \<Rightarrow> nat" where
  "count_where P rows = length (filter P rows)"

lemma update_where_Nil [table_simps]: "update_where P f [] = []"
  by (simp add: update_where_def)

lemma update_where_Cons [table_simps]:
  "update_where P f (r # rs) = (if P r then f r else r) # update_where P f rs"
  by (simp add: update_where_def)

lemma length_update_where [simp]: "length (update_where P f rows) = length rows"
  by (simp add: update_where_def)

lemma set_update_where: "set (update_where P f rows) = (\<lambda>r. if P r then f r else r) ` set rows"
  by (simp add: update_where_def)

lemma update_where_none: "\<forall>r \<in> set rows. \<not> P r \<Longrightarrow> update_where P f rows = rows"
  by (simp add: update_where_def map_idI)

lemma map_update_where_key:
  assumes "\<And>r. r \<in> set rows \<Longrightarrow> P r \<Longrightarrow> k (f r) = k r"
  shows "map k (update_where P f rows) = map k rows"
  using assms by (simp add: update_where_def)

lemma count_where_0: "count_where P rows = 0 \<longleftrightarrow> (\<forall>r \<in> set rows. \<not> P r)"
  by (auto simp: count_where_def filter_empty_conv)

lemma count_where_distinct_key:
  assumes "distinct (map k rows)" and "\<And>r. P r \<Longrightarrow> k r = v"
  shows "count_where P rows \<le> 1"
  using assms
proof (induction rows)
  case Nil
  then show ?case by (simp add: count_where_def)
next
  case (Cons r rs)
  show ?case
  proof (cases "P r")
    case True
    with Cons.prems have "k r = v" by blast
    with Cons.prems(1) have "\<forall>x \<in> set rs. k x \<noteq> v" by (auto simp: image_iff)
    then have "\<forall>x \<in> set rs. \<not> P x" using Cons.prems(2) by blast
    then have "count_where P rs = 0" by (simp add: count_where_0)
    with True show ?thesis by (simp add: count_where_def)
  next
    case False
    with Cons show ?thesis by (simp add: count_where_def)
  qed
qed

text \<open>\<open>SELECT .. WHERE key = v\<close> on a unique key: the first row with that key.\<close>

definition find_by :: "('r \<Rightarrow> 'k) \<Rightarrow> 'k \<Rightarrow> 'r list \<Rightarrow> 'r option" where
  "find_by k v rows = find (\<lambda>r. k r = v) rows"

lemma find_by_Some: "find_by k v rows = Some r \<Longrightarrow> r \<in> set rows \<and> k r = v"
  by (auto simp: find_by_def find_Some_iff)

lemma find_by_None: "find_by k v rows = None \<longleftrightarrow> (\<forall>r \<in> set rows. k r \<noteq> v)"
  by (auto simp: find_by_def find_None_iff)

lemma find_by_unique:
  assumes "distinct (map k rows)" and "r \<in> set rows"
  shows "find_by k (k r) rows = Some r"
proof (cases "find_by k (k r) rows")
  case None
  with assms(2) show ?thesis by (auto simp: find_by_None)
next
  case (Some r')
  then have "r' \<in> set rows" "k r' = k r" by (auto dest: find_by_Some)
  with assms have "r' = r" by (metis distinct_map inj_onD)
  with Some show ?thesis by simp
qed

lemma find_by_append:
  "find_by k v (xs @ ys) = (case find_by k v xs of None \<Rightarrow> find_by k v ys | Some r \<Rightarrow> Some r)"
  by (induction xs) (auto simp: find_by_def)

lemma find_by_update_where:
  assumes "\<And>r. k (f r) = k r"
  shows "find_by k v (update_where P f rows) =
    map_option (\<lambda>r. if P r then f r else r) (find_by k v rows)"
  using assms by (induction rows) (auto simp: find_by_def update_where_def)

section \<open>Transactions\<close>

text \<open>
  \<open>(*DB).WithTransaction\<close> of internal/store/db.go: the body sees and changes the database;
  an error of the body rolls every change back, a normal return commits.
\<close>

definition with_transaction :: "('s \<Rightarrow> ('e + 'a) \<times> 's) \<Rightarrow> 's \<Rightarrow> ('e + 'a) \<times> 's" where
  "with_transaction body s =
     (case body s of (Inl e, s') \<Rightarrow> (Inl e, s) | (Inr x, s') \<Rightarrow> (Inr x, s'))"

lemma with_transaction_Inl: "with_transaction body s = (Inl e, s') \<Longrightarrow> s' = s"
  by (auto simp: with_transaction_def split: prod.splits sum.splits)

lemma with_transaction_Inr:
  "with_transaction body s = (Inr x, s') \<longleftrightarrow> body s = (Inr x, s')"
  by (auto simp: with_transaction_def split: prod.splits sum.splits)

lemma with_transaction_inv:
  assumes "P s" and "\<And>r s'. body s = (r, s') \<Longrightarrow> P s'"
  shows "P (snd (with_transaction body s))"
  using assms by (auto simp: with_transaction_def split: prod.splits sum.splits)

section \<open>Reachable states\<close>

inductive reach :: "('s \<Rightarrow> bool) \<Rightarrow> ('s \<Rightarrow> 's \<Rightarrow> bool) \<Rightarrow> 's \<Rightarrow> bool"
  for init :: "'s \<Rightarrow> bool" and step :: "'s \<Rightarrow> 's \<Rightarrow> bool" where
  reach_init: "init s \<Longrightarrow> reach init step s"
| reach_step: "reach init step s \<Longrightarrow> step s t \<Longrightarrow> reach init step t"

text \<open>The contract of a state machine with an invariant.\<close>

locale invariant_system =
  fixes init :: "'s \<Rightarrow> bool" and step :: "'s \<Rightarrow> 's \<Rightarrow> bool" and inv :: "'s \<Rightarrow> bool"
  assumes inv_init: "init s \<Longrightarrow> inv s"
    and inv_step: "inv s \<Longrightarrow> step s t \<Longrightarrow> inv t"
begin

lemma reach_inv: "reach init step s \<Longrightarrow> inv s"
  by (induction rule: reach.induct) (auto intro: inv_init inv_step)

lemma steps_inv: "step\<^sup>*\<^sup>* s t \<Longrightarrow> inv s \<Longrightarrow> inv t"
  by (induction rule: rtranclp_induct) (auto intro: inv_step)

lemma steps_keep:
  assumes "step\<^sup>*\<^sup>* s t" and "inv s" and "P s"
    and "\<And>u v. inv u \<Longrightarrow> step u v \<Longrightarrow> P u \<Longrightarrow> P v"
  shows "P t"
  using assms(1-3)
proof (induction rule: rtranclp_induct)
  case base
  then show ?case by simp
next
  case (step u v)
  then show ?case using assms(4) steps_inv by blast
qed

end

end
