(* ===== verification/Go_Text.thy ===== *)
theory Go_Text
  imports Go_Prelude
begin

text \<open>
  What the program uses of Go's \<open>unicode/utf8\<close>, \<open>unicode\<close> and \<open>strings\<close> packages, on Go strings
  as byte lists: decoding one rune at either end, the runes a \<open>range\<close> loop sees, validity,
  white space and trimming, prefix, search and split.  The tables behind \<open>unicode.IsLetter\<close>,
  \<open>IsNumber\<close>, \<open>IsUpper\<close> and \<open>IsMark\<close> are data of a Unicode version and are a parameter
  (\<open>unicode_tables\<close>) of the definitions that read them.
\<close>

section \<open>Bytes and runes\<close>

definition byte :: "char \<Rightarrow> nat" where
  "byte c = of_char c"

lemma byte_less: "byte c < 256"
  by (simp add: byte_def)

lemma byte_inj: "byte c = byte d \<longleftrightarrow> c = d"
  by (simp add: byte_def)

definition rune_error :: nat where
  "rune_error = 0xFFFD"

definition is_cont :: "char \<Rightarrow> bool" where
  "is_cont c \<longleftrightarrow> 0x80 \<le> byte c \<and> byte c \<le> 0xBF"

text \<open>
  \<open>utf8.DecodeRuneInString\<close>: the rune and its width; \<open>(RuneError, 1)\<close> for an encoding error.
  \<open>lead_info\<close> is the package's table for a leading byte from 0x80 on: the length of the
  encoding and the accepted range of its second byte.
\<close>

definition lead_info :: "nat \<Rightarrow> (nat \<times> nat \<times> nat) option" where
  "lead_info b =
     (if b < 0xC2 \<or> 0xF4 < b then None
      else if b < 0xE0 then Some (2, 0x80, 0xBF)
      else if b = 0xE0 then Some (3, 0xA0, 0xBF)
      else if b = 0xED then Some (3, 0x80, 0x9F)
      else if b < 0xF0 then Some (3, 0x80, 0xBF)
      else if b = 0xF0 then Some (4, 0x90, 0xBF)
      else if b = 0xF4 then Some (4, 0x80, 0x8F)
      else Some (4, 0x80, 0xBF))"

definition cont_bits :: "char \<Rightarrow> nat" where
  "cont_bits c = byte c mod 64"

definition decode_rune :: "string \<Rightarrow> nat \<times> nat" where
  "decode_rune s =
    (if s = [] then (rune_error, 0)
     else let b = byte (s ! 0) in
       if b < 0x80 then (b, 1)
       else (case lead_info b of
           None \<Rightarrow> (rune_error, 1)
         | Some (sz, lo, hi) \<Rightarrow>
             if length s < sz then (rune_error, 1)
             else if byte (s ! 1) < lo \<or> hi < byte (s ! 1) then (rune_error, 1)
             else if sz \<le> 2 then ((b mod 32) * 64 + cont_bits (s ! 1), 2)
             else if \<not> is_cont (s ! 2) then (rune_error, 1)
             else if sz \<le> 3 then
               ((b mod 16) * 4096 + cont_bits (s ! 1) * 64 + cont_bits (s ! 2), 3)
             else if \<not> is_cont (s ! 3) then (rune_error, 1)
             else ((b mod 8) * 262144 + cont_bits (s ! 1) * 4096
                   + cont_bits (s ! 2) * 64 + cont_bits (s ! 3), 4)))"

lemma lead_info_size: "lead_info b = Some (sz, lo, hi) \<Longrightarrow> sz = 2 \<or> sz = 3 \<or> sz = 4"
  by (auto simp: lead_info_def split: if_splits)

lemma decode_rune_Nil [simp]: "decode_rune [] = (rune_error, 0)"
  by (simp add: decode_rune_def)

lemma decode_rune_ascii [simp]: "byte c < 0x80 \<Longrightarrow> decode_rune (c # t) = (byte c, 1)"
  by (simp add: decode_rune_def)

abbreviation rune_of :: "string \<Rightarrow> nat" where
  "rune_of s \<equiv> fst (decode_rune s)"

abbreviation rune_size :: "string \<Rightarrow> nat" where
  "rune_size s \<equiv> snd (decode_rune s)"

lemma rune_size_pos: "s \<noteq> [] \<Longrightarrow> 0 < rune_size s"
  by (auto simp: decode_rune_def Let_def split: option.split prod.split)

lemma rune_size_le: "rune_size s \<le> length s"
proof (cases "s = []")
  case True
  then show ?thesis by simp
next
  case False
  then have "1 \<le> length s" by (cases s) simp_all
  moreover have "sz = 2 \<or> sz = 3 \<or> sz = 4"
    if "lead_info (byte (s ! 0)) = Some (sz, lo, hi)" for sz lo hi
    using lead_info_size[OF that] .
  ultimately show ?thesis
    using False by (cases "lead_info (byte (s ! 0))") (force simp: decode_rune_def Let_def)+
qed

lemma rune_size_le4: "rune_size s \<le> 4"
  by (auto simp: decode_rune_def Let_def split: option.split prod.split)

text \<open>Decoding looks at the bytes of the rune only, unless it fails.\<close>

definition bad_rune :: "string \<Rightarrow> bool" where
  "bad_rune s \<longleftrightarrow> decode_rune s = (rune_error, 1)"

lemma bad_rune_one: "bad_rune s \<Longrightarrow> rune_size s = 1"
  by (simp add: bad_rune_def)

lemma decode_rune_agree:
  assumes "\<not> bad_rune s" and "s \<noteq> []" and "take (rune_size s) t = take (rune_size s) s"
  shows "decode_rune t = decode_rune s"
proof -
  let ?n = "rune_size s"
  have pos: "0 < ?n" using assms(2) by (rule rune_size_pos)
  have len: "?n \<le> length t"
    using assms(3) rune_size_le[of s] by (metis length_take min.absorb_iff2 min.absorb_iff1 min_def)
  have nth: "t ! i = s ! i" if "i < ?n" for i
    using assms(3) that by (metis nth_take)
  have nn: "t \<noteq> []" using len pos by auto
  have z: "t ! 0 = s ! 0" by (rule nth[OF pos])
  show ?thesis
  proof (cases "byte (s ! 0) < 0x80")
    case True
    then show ?thesis using assms(2) nn z by (simp add: decode_rune_def)
  next
    case False
    show ?thesis
    proof (cases "lead_info (byte (s ! 0))")
      case None
      then show ?thesis using assms(1,2) False by (simp add: bad_rune_def decode_rune_def)
    next
      case (Some li)
      obtain sz lo hi where li: "li = (sz, lo, hi)" by (cases li)
      have n: "?n = sz"
        using assms(1,2) False Some li lead_info_size[of "byte (s ! 0)" sz lo hi]
        by (auto simp: bad_rune_def decode_rune_def Let_def split: if_splits)
      have sz: "sz = 2 \<or> sz = 3 \<or> sz = 4" using Some li lead_info_size by blast
      have "length s \<ge> sz" using n rune_size_le[of s] by simp
      moreover have "length t \<ge> sz" using n len by simp
      moreover have "t ! 1 = s ! 1" using nth n sz by auto
      moreover have "sz \<ge> 3 \<Longrightarrow> t ! 2 = s ! 2" using nth n by auto
      moreover have "sz \<ge> 4 \<Longrightarrow> t ! 3 = s ! 3" using nth n by auto
      ultimately show ?thesis
        using assms(2) nn z False Some li sz by (auto simp: decode_rune_def Let_def)
    qed
  qed
qed

lemma decode_rune_prefix:
  assumes "\<not> bad_rune s" and "s \<noteq> []" and "rune_size s \<le> m"
  shows "decode_rune (take m s) = decode_rune s"
  by (rule decode_rune_agree[OF assms(1,2)]) (use assms(3) in \<open>simp add: min_absorb1\<close>)

lemma decode_rune_append:
  assumes "\<not> bad_rune s" and "s \<noteq> []"
  shows "decode_rune (s @ t) = decode_rune s"
  by (rule decode_rune_agree[OF assms]) (simp add: rune_size_le)

text \<open>A rune that fails to decode is not repaired by cutting the string: it fails there too.\<close>

lemma bad_rune_take:
  assumes "bad_rune s" and "s \<noteq> []" and "0 < m"
  shows "bad_rune (take m s)"
proof (rule ccontr)
  assume nb: "\<not> bad_rune (take m s)"
  have ne: "take m s \<noteq> []" using assms by simp
  have "decode_rune (take m s @ drop m s) = decode_rune (take m s)"
    by (rule decode_rune_append[OF nb ne])
  with nb assms(1) show False by (simp add: bad_rune_def)
qed

section \<open>The runes of a string\<close>

text \<open>
  \<open>chunks s\<close>: what \<open>for i, r := range s\<close> and \<open>[]rune(s)\<close> see, each rune with the bytes it was
  decoded from (one byte for each encoding error).
\<close>

function chunks :: "string \<Rightarrow> (nat \<times> string) list" where
  "chunks s =
     (if s = [] then []
      else (rune_of s, take (rune_size s) s) # chunks (drop (rune_size s) s))"
  by pat_completeness auto
termination
  by (relation "measure length") (auto simp: rune_size_pos)

declare chunks.simps [simp del]

lemma chunks_Nil [simp]: "chunks [] = []"
  by (simp add: chunks.simps)

lemma chunks_nonempty:
  "s \<noteq> [] \<Longrightarrow> chunks s = (rune_of s, take (rune_size s) s) # chunks (drop (rune_size s) s)"
  by (simp add: chunks.simps[of s])

lemma chunks_eq_Nil [simp]: "chunks s = [] \<longleftrightarrow> s = []"
  by (auto simp: chunks.simps[of s])

definition runes :: "string \<Rightarrow> nat list" where
  "runes s = map fst (chunks s)"

abbreviation bytes_of :: "(nat \<times> string) list \<Rightarrow> string" where
  "bytes_of cs \<equiv> concat (map snd cs)"

lemma bytes_of_chunks [simp]: "bytes_of (chunks s) = s"
proof (induction s rule: chunks.induct)
  case (1 s)
  show ?case
    by (cases "s = []") (simp_all add: 1 chunks_nonempty)
qed

text \<open>\<open>utf8.ValidString\<close>.\<close>

function valid_utf8 :: "string \<Rightarrow> bool" where
  "valid_utf8 s =
     (if s = [] then True else if bad_rune s then False else valid_utf8 (drop (rune_size s) s))"
  by pat_completeness auto
termination
  by (relation "measure length") (auto simp: rune_size_pos)

declare valid_utf8.simps [simp del]

text \<open>A chunk: the bytes of exactly one correctly encoded rune.\<close>

definition good_chunk :: "nat \<times> string \<Rightarrow> bool" where
  "good_chunk c \<longleftrightarrow> snd c \<noteq> [] \<and> \<not> bad_rune (snd c) \<and> decode_rune (snd c) = (fst c, length (snd c))"

lemma good_chunk_append:
  "good_chunk (r, w) \<Longrightarrow> decode_rune (w @ t) = (r, length w)"
  by (simp add: good_chunk_def decode_rune_append)

lemma good_chunk_head:
  assumes "s \<noteq> []" and "\<not> bad_rune s"
  shows "good_chunk (rune_of s, take (rune_size s) s)"
proof -
  have d: "decode_rune (take (rune_size s) s) = (rune_of s, rune_size s)"
    using decode_rune_prefix[OF assms(2,1)] by simp
  moreover have "length (take (rune_size s) s) = rune_size s"
    using rune_size_le[of s] by simp
  moreover have "take (rune_size s) s \<noteq> []"
    using rune_size_pos[OF assms(1)] assms(1) by simp
  moreover have "\<not> bad_rune (take (rune_size s) s)"
    using d assms(2) by (cases "decode_rune s") (simp add: bad_rune_def)
  ultimately show ?thesis by (simp add: good_chunk_def)
qed

lemma valid_chunks: "valid_utf8 s \<longleftrightarrow> (\<forall>c \<in> set (chunks s). good_chunk c)"
proof (induction s rule: chunks.induct)
  case (1 s)
  show ?case
  proof (cases "s = []")
    case True
    then show ?thesis by (simp add: valid_utf8.simps)
  next
    case False
    have "good_chunk (rune_of s, take (rune_size s) s) \<longleftrightarrow> \<not> bad_rune s"
    proof
      assume "\<not> bad_rune s"
      then show "good_chunk (rune_of s, take (rune_size s) s)" by (rule good_chunk_head[OF False])
    next
      assume g: "good_chunk (rune_of s, take (rune_size s) s)"
      show "\<not> bad_rune s"
      proof
        assume b: "bad_rune s"
        then have "rune_size s = 1" by (rule bad_rune_one)
        with bad_rune_take[OF b False, of 1] g show False by (simp add: good_chunk_def)
      qed
    qed
    with False 1 show ?thesis
      by (simp add: valid_utf8.simps[of s] chunks_nonempty)
  qed
qed

lemma chunks_of_good:
  assumes "\<forall>c \<in> set cs. good_chunk c"
  shows "chunks (bytes_of cs @ t) = cs @ chunks t"
  using assms
proof (induction cs)
  case Nil
  then show ?case by simp
next
  case (Cons c cs)
  obtain r w where c: "c = (r, w)" by (cases c)
  with Cons.prems have g: "good_chunk (r, w)" by simp
  then have w: "w \<noteq> []" by (simp add: good_chunk_def)
  have "decode_rune (w @ bytes_of cs @ t) = (r, length w)"
    by (rule good_chunk_append[OF g])
  with w have "chunks (w @ bytes_of cs @ t) = (r, w) # chunks (bytes_of cs @ t)"
    by (simp add: chunks_nonempty)
  with Cons c show ?case by simp
qed

lemma chunks_of_good0:
  "\<forall>c \<in> set cs. good_chunk c \<Longrightarrow> chunks (bytes_of cs) = cs"
  using chunks_of_good[of cs "[]"] by simp

lemma valid_bytes_of: "\<forall>c \<in> set cs. good_chunk c \<Longrightarrow> valid_utf8 (bytes_of cs)"
  by (simp add: valid_chunks chunks_of_good0)

lemma valid_append: "valid_utf8 s \<Longrightarrow> valid_utf8 t \<Longrightarrow> valid_utf8 (s @ t)"
  using valid_bytes_of[of "chunks s @ chunks t"] by (auto simp: valid_chunks)

lemma chunks_append: "valid_utf8 s \<Longrightarrow> chunks (s @ t) = chunks s @ chunks t"
  using chunks_of_good[of "chunks s" t] by (simp add: valid_chunks)

lemma ascii_chunk: "byte c < 0x80 \<Longrightarrow> chunks (c # t) = (byte c, [c]) # chunks t"
  by (simp add: chunks_nonempty)

lemma ascii_good_chunk: "byte c < 0x80 \<Longrightarrow> good_chunk (byte c, [c])"
  by (simp add: good_chunk_def bad_rune_def rune_error_def)

text \<open>The bytes of a chunk: one ASCII byte, or a leading byte followed by continuation bytes.\<close>

lemma lead_info_range:
  "lead_info b = Some (sz, lo, hi) \<Longrightarrow> 0xC2 \<le> b \<and> b \<le> 0xF4 \<and> 0x80 \<le> lo \<and> hi \<le> 0xBF"
  by (auto simp: lead_info_def split: if_splits)

lemma good_chunk_cases:
  assumes "good_chunk (r, w)"
  obtains (ascii) c where "w = [c]" "byte c < 0x80" "r = byte c"
  | (multi) "2 \<le> length w" "length w \<le> 4" "0xC2 \<le> byte (w ! 0)"
      "\<And>i. 1 \<le> i \<Longrightarrow> i < length w \<Longrightarrow> is_cont (w ! i)"
proof -
  have w: "w \<noteq> []" and nb: "\<not> bad_rune w" and d: "decode_rune w = (r, length w)"
    using assms by (auto simp: good_chunk_def)
  show thesis
  proof (cases "byte (w ! 0) < 0x80")
    case True
    with w d have "length w = 1" "r = byte (w ! 0)" by (simp_all add: decode_rune_def)
    then have "w = [w ! 0]" by (cases w) auto
    with True \<open>r = byte (w ! 0)\<close> show thesis by (intro ascii[of "w ! 0"]) auto
  next
    case False
    with w nb obtain sz lo hi where li: "lead_info (byte (w ! 0)) = Some (sz, lo, hi)"
      by (cases "lead_info (byte (w ! 0))") (auto simp: bad_rune_def decode_rune_def)
    have sz: "sz = 2 \<or> sz = 3 \<or> sz = 4" by (rule lead_info_size[OF li])
    have n: "length w = sz" and c1: "lo \<le> byte (w ! 1)" "byte (w ! 1) \<le> hi"
      and c2: "3 \<le> sz \<Longrightarrow> is_cont (w ! 2)" and c3: "4 \<le> sz \<Longrightarrow> is_cont (w ! 3)"
      using w nb d False li sz
      by (auto simp: bad_rune_def decode_rune_def Let_def split: if_splits)
    have "is_cont (w ! 1)"
      using c1 lead_info_range[OF li] by (simp add: is_cont_def)
    then have "is_cont (w ! i)" if "1 \<le> i" "i < length w" for i
      using that n sz c2 c3 by (cases "i = 1"; cases "i = 2"; cases "i = 3") auto
    with n sz lead_info_range[OF li] show thesis by (intro multi) auto
  qed
qed

lemma good_chunk_length: "good_chunk c \<Longrightarrow> 1 \<le> length (snd c) \<and> length (snd c) \<le> 4"
  by (cases c) (auto elim: good_chunk_cases)

lemma not_cont_lead: "0xC2 \<le> byte c \<Longrightarrow> \<not> is_cont c"
  by (simp add: is_cont_def)

lemma good_chunk_first: "good_chunk (r, w) \<Longrightarrow> \<not> is_cont (w ! 0)"
  by (erule good_chunk_cases) (auto simp: is_cont_def)

section \<open>Decoding from the right\<close>

text \<open>
  \<open>utf8.DecodeLastRuneInString\<close>: at most three bytes back to a byte that can start a rune.
\<close>

definition decode_last_rune :: "string \<Rightarrow> nat \<times> nat" where
  "decode_last_rune s =
    (if s = [] then (rune_error, 0)
     else let e = length s in
       if byte (s ! (e - 1)) < 0x80 then (byte (s ! (e - 1)), 1)
       else let lim = e - 4;
                start = (case find (\<lambda>i. \<not> is_cont (s ! i)) (rev [lim..<e - 1]) of
                           Some i \<Rightarrow> i | None \<Rightarrow> lim - 1);
                (r, n) = decode_rune (drop start s)
            in if start + n \<noteq> e then (rune_error, 1) else (r, n))"

lemma find_rev_first:
  assumes "P k" and "lo \<le> k" and "k < hi" and "\<And>i. k < i \<Longrightarrow> i < hi \<Longrightarrow> \<not> P i"
  shows "find P (rev [lo..<hi]) = Some k"
  using assms(3,4)
proof (induction "hi - Suc k" arbitrary: hi)
  case 0
  then have "hi = Suc k" by simp
  with assms(1,2) show ?case by simp
next
  case (Suc n)
  then obtain h where h: "hi = Suc h" "k < h" by (cases hi) auto
  with Suc have "find P (rev [lo..<h]) = Some k" by simp
  moreover have "\<not> P h" using Suc.prems(2)[of h] h by simp
  ultimately show ?case using h assms(2) by simp
qed

lemma decode_last_rune_good:
  assumes g: "good_chunk (r, w)"
  shows "decode_last_rune (p @ w) = (r, length w)"
  using g
proof (cases rule: good_chunk_cases)
  case (ascii c)
  then show ?thesis by (simp add: decode_last_rune_def nth_append)
next
  case multi
  let ?s = "p @ w" and ?k = "length p"
  have last: "is_cont (?s ! (length ?s - 1))"
  proof -
    have "length ?s - 1 = ?k + (length w - 1)" using multi(1) by simp
    moreover have "?s ! (?k + (length w - 1)) = w ! (length w - 1)"
      by (rule nth_append_length_plus)
    ultimately show ?thesis using multi(1) multi(4)[of "length w - 1"] by simp
  qed
  have "find (\<lambda>i. \<not> is_cont (?s ! i)) (rev [length ?s - 4..<length ?s - 1]) = Some ?k"
  proof (rule find_rev_first)
    show "\<not> is_cont (?s ! ?k)" using multi(1) not_cont_lead[OF multi(3)] by (simp add: nth_append)
    show "\<not> \<not> is_cont (?s ! i)" if "?k < i" "i < length ?s - 1" for i
      using that multi(4)[of "i - ?k"] by (simp add: nth_append)
  qed (use multi(1,2) in auto)
  moreover have "\<not> byte (?s ! (length ?s - 1)) < 0x80"
    using last by (simp add: is_cont_def)
  moreover have "decode_rune w = (r, length w)" using g by (simp add: good_chunk_def)
  ultimately show ?thesis
    using multi(1) by (auto simp: decode_last_rune_def Let_def)
qed

lemma decode_last_rune_valid:
  assumes "valid_utf8 s" and "s \<noteq> []"
  shows "decode_last_rune s = (fst (last (chunks s)), length (snd (last (chunks s))))"
proof -
  let ?cs = "chunks s"
  have ne: "?cs \<noteq> []" using assms(2) by simp
  then have "good_chunk (last ?cs)" using assms(1) by (simp add: valid_chunks)
  then have "good_chunk (fst (last ?cs), snd (last ?cs))" by simp
  then have "decode_last_rune (bytes_of (butlast ?cs) @ snd (last ?cs)) =
      (fst (last ?cs), length (snd (last ?cs)))"
    by (rule decode_last_rune_good)
  moreover have "bytes_of (butlast ?cs) @ snd (last ?cs) = s"
  proof -
    have "bytes_of (butlast ?cs @ [last ?cs]) = s" using ne by (simp del: append_butlast_last_id add: append_butlast_last_id[OF ne])
    then show ?thesis by simp
  qed
  ultimately show ?thesis by simp
qed

lemma decode_last_rune_pos:
  assumes "s \<noteq> []"
  shows "0 < snd (decode_last_rune s)"
proof -
  let ?e = "length s"
  define start where "start = (case find (\<lambda>i. \<not> is_cont (s ! i)) (rev [?e - 4..<?e - 1]) of
      Some i \<Rightarrow> i | None \<Rightarrow> ?e - 4 - 1)"
  have "start < ?e"
    using assms by (auto simp: start_def find_Some_iff rev_nth split: option.split)
  then have "0 < rune_size (drop start s)" by (intro rune_size_pos) simp
  then show ?thesis
    using assms unfolding decode_last_rune_def Let_def start_def[symmetric]
    by (cases "decode_rune (drop start s)") simp
qed

section \<open>White space and trimming\<close>

text \<open>\<open>unicode.IsSpace\<close> and \<open>unicode.IsControl\<close>, whose tables are short.\<close>

definition is_space :: "nat \<Rightarrow> bool" where
  "is_space r \<longleftrightarrow> (9 \<le> r \<and> r \<le> 13) \<or> r = 0x20 \<or> r = 0x85 \<or> r = 0xA0 \<or> r = 0x1680
     \<or> (0x2000 \<le> r \<and> r \<le> 0x200A) \<or> r = 0x2028 \<or> r = 0x2029 \<or> r = 0x202F
     \<or> r = 0x205F \<or> r = 0x3000"

definition is_control :: "nat \<Rightarrow> bool" where
  "is_control r \<longleftrightarrow> r < 0x20 \<or> (0x7F \<le> r \<and> r < 0xA0)"

text \<open>\<open>strings.TrimSpace\<close>.\<close>

function trim_left :: "string \<Rightarrow> string" where
  "trim_left s = (if s \<noteq> [] \<and> is_space (rune_of s) then trim_left (drop (rune_size s) s) else s)"
  by pat_completeness auto
termination
  by (relation "measure length") (auto simp: rune_size_pos)

function trim_right :: "string \<Rightarrow> string" where
  "trim_right s =
     (if s \<noteq> [] \<and> is_space (fst (decode_last_rune s))
      then trim_right (take (length s - snd (decode_last_rune s)) s) else s)"
  by pat_completeness auto
termination
  by (relation "measure length") (auto simp: decode_last_rune_pos)

declare trim_left.simps [simp del] trim_right.simps [simp del]

definition trim_space :: "string \<Rightarrow> string" where
  "trim_space s = trim_right (trim_left s)"

definition blank :: "string \<Rightarrow> bool" where
  "blank s \<longleftrightarrow> trim_space s = []"

abbreviation space_chunk :: "nat \<times> string \<Rightarrow> bool" where
  "space_chunk c \<equiv> is_space (fst c)"

lemma chunks_trim_left: "chunks (trim_left s) = dropWhile space_chunk (chunks s)"
proof (induction s rule: trim_left.induct)
  case (1 s)
  show ?case
  proof (cases "s \<noteq> [] \<and> is_space (rune_of s)")
    case True
    with 1 show ?thesis by (simp add: trim_left.simps[of s] chunks_nonempty)
  next
    case False
    then show ?thesis
      by (cases "s = []") (auto simp: trim_left.simps[of s] trim_left.simps[of "[]"] chunks_nonempty)
  qed
qed

lemma valid_trim_left: "valid_utf8 s \<Longrightarrow> valid_utf8 (trim_left s)"
  by (auto simp: valid_chunks chunks_trim_left dest: set_dropWhileD)

lemma chunks_trim_right:
  "valid_utf8 s \<Longrightarrow> chunks (trim_right s) = rev (dropWhile space_chunk (rev (chunks s)))"
proof (induction s rule: trim_right.induct)
  case (1 s)
  show ?case
  proof (cases "s = []")
    case True
    then show ?thesis by (simp add: trim_right.simps)
  next
    case False
    let ?cs = "chunks s"
    have ne: "?cs \<noteq> []" using False by simp
    have cs: "?cs = butlast ?cs @ [last ?cs]" using ne by simp
    have d: "decode_last_rune s = (fst (last ?cs), length (snd (last ?cs)))"
      by (rule decode_last_rune_valid[OF "1.prems" False])
    have good: "\<forall>c \<in> set (butlast ?cs). good_chunk c"
      using "1.prems" by (auto simp: valid_chunks dest: in_set_butlastD)
    have "s = bytes_of (butlast ?cs) @ snd (last ?cs)"
      using arg_cong[OF cs, of bytes_of] by simp
    then have tk: "take (length s - length (snd (last ?cs))) s = bytes_of (butlast ?cs)"
      by (metis append_eq_conv_conj diff_add_inverse2 length_append)
    show ?thesis
    proof (cases "is_space (fst (last ?cs))")
      case True
      have "trim_right s = trim_right (bytes_of (butlast ?cs))"
        using True False d tk by (simp add: trim_right.simps[of s])
      moreover have "chunks (trim_right (bytes_of (butlast ?cs))) =
          rev (dropWhile space_chunk (rev (butlast ?cs)))"
        using "1.IH" True False d tk valid_bytes_of[OF good] chunks_of_good0[OF good] by simp
      moreover have "rev (dropWhile space_chunk (rev ?cs)) =
          rev (dropWhile space_chunk (rev (butlast ?cs)))"
        by (subst cs) (simp add: True)
      ultimately show ?thesis by simp
    next
      case nosp: False
      have "trim_right s = s" using nosp False d by (simp add: trim_right.simps[of s])
      moreover have "rev (dropWhile space_chunk (rev ?cs)) = ?cs"
        by (subst (1 2) cs) (simp add: nosp)
      ultimately show ?thesis by simp
    qed
  qed
qed

lemma valid_trim_right: "valid_utf8 s \<Longrightarrow> valid_utf8 (trim_right s)"
  by (auto simp: valid_chunks chunks_trim_right dest: set_dropWhileD)

lemma valid_trim_space: "valid_utf8 s \<Longrightarrow> valid_utf8 (trim_space s)"
  by (simp add: trim_space_def valid_trim_left valid_trim_right)

lemma dropWhile_all: "(\<forall>x \<in> set (dropWhile P xs). P x) \<longleftrightarrow> (\<forall>x \<in> set xs. P x)"
  by (induction xs) auto

lemma blank_valid: "valid_utf8 s \<Longrightarrow> blank s \<longleftrightarrow> (\<forall>r \<in> set (runes s). is_space r)"
proof -
  assume v: "valid_utf8 s"
  have "blank s \<longleftrightarrow> chunks (trim_space s) = []" by (simp add: blank_def)
  also have "\<dots> \<longleftrightarrow> (\<forall>c \<in> set (dropWhile space_chunk (chunks s)). space_chunk c)"
    by (simp add: trim_space_def chunks_trim_right valid_trim_left v chunks_trim_left
        dropWhile_eq_Nil_conv flip: chunks_eq_Nil)
  also have "\<dots> \<longleftrightarrow> (\<forall>c \<in> set (chunks s). space_chunk c)"
    by (rule dropWhile_all)
  finally show ?thesis by (simp add: runes_def)
qed

lemma blank_Nil [simp]: "blank []"
  by (simp add: blank_def trim_space_def trim_left.simps trim_right.simps)

text \<open>A rune below 0x80 is a single byte.\<close>

lemma mod_window:
  fixes b m q :: nat
  assumes "m * q \<le> b" and "b < m * q + m"
  shows "b mod m = b - m * q"
proof -
  have "b mod m = (b - m * q + m * q) mod m" using assms(1) by simp
  also have "\<dots> = (b - m * q) mod m" by (simp only: mod_mult_self2)
  finally show ?thesis using assms by simp
qed

lemma decode_low:
  assumes "s \<noteq> []" and "rune_of s < 0x80"
  shows "byte (s ! 0) < 0x80"
proof (rule ccontr)
  assume n: "\<not> byte (s ! 0) < 0x80"
  let ?b = "byte (s ! 0)"
  show False
  proof (cases "lead_info ?b")
    case None
    then show False using assms n by (simp add: decode_rune_def rune_error_def)
  next
    case (Some p)
    obtain sz lo hi where p: "p = (sz, lo, hi)" by (cases p)
    have d: "sz = 2 \<and> 0xC2 \<le> ?b \<and> ?b < 0xE0 \<or> sz = 3 \<and> ?b = 0xE0 \<and> lo = 0xA0 \<and> hi = 0xBF
        \<or> sz = 3 \<and> 0xE1 \<le> ?b \<and> ?b < 0xF0 \<or> sz = 4 \<and> ?b = 0xF0 \<and> lo = 0x90 \<and> hi = 0xBF
        \<or> sz = 4 \<and> 0xF1 \<le> ?b \<and> ?b < 0xF5"
      using Some p by (auto simp: lead_info_def split: if_splits)
    define x where "x = ?b mod 32"
    define y where "y = ?b mod 16"
    define z where "z = ?b mod 8"
    define k where "k = cont_bits (s ! 1)"
    have k: "32 \<le> k" if "0xA0 \<le> byte (s ! 1)" "byte (s ! 1) \<le> 0xBF"
      using that mod_window[of 64 2 "byte (s ! 1)"] by (simp add: k_def cont_bits_def)
    have k': "16 \<le> k" if "0x90 \<le> byte (s ! 1)" "byte (s ! 1) \<le> 0xBF"
      using that mod_window[of 64 2 "byte (s ! 1)"] by (simp add: k_def cont_bits_def)
    have x: "2 \<le> x" if "0xC2 \<le> ?b" "?b < 0xE0" using that mod_window[of 32 6 ?b] by (simp add: x_def)
    have y: "1 \<le> y" if "0xE1 \<le> ?b" "?b < 0xF0" using that mod_window[of 16 14 ?b] by (simp add: y_def)
    have z: "1 \<le> z" if "0xF1 \<le> ?b" "?b < 0xF5" using that mod_window[of 8 30 ?b] by (simp add: z_def)
    have r: "decode_rune s = (rune_error, 1) \<or>
        lo \<le> byte (s ! 1) \<and> byte (s ! 1) \<le> hi \<and>
        (sz = 2 \<and> rune_of s = x * 64 + k \<or>
         sz = 3 \<and> rune_of s = y * 4096 + k * 64 + cont_bits (s ! 2) \<or>
         sz = 4 \<and> rune_of s = z * 262144 + k * 4096 + cont_bits (s ! 2) * 64 + cont_bits (s ! 3))"
      using assms(1) n Some p lead_info_size[of ?b sz lo hi]
      unfolding decode_rune_def Let_def x_def[symmetric] y_def[symmetric] z_def[symmetric] k_def[symmetric]
      by (simp split del: if_split split: if_splits) (auto simp: not_less)
    from r show False
    proof (elim disjE conjE)
      assume "decode_rune s = (rune_error, 1)"
      then show False using assms(2) by (simp add: rune_error_def)
    qed (use assms(2) d x y z k k' in \<open>linarith+\<close>)
  qed
qed

lemma low_runes_ascii: "\<forall>r \<in> set (runes s). r < 0x80 \<Longrightarrow> \<forall>c \<in> set s. byte c < 0x80"
proof (induction s rule: chunks.induct)
  case (1 s)
  show ?case
  proof (cases "s = []")
    case True
    then show ?thesis by simp
  next
    case False
    then have "runes s = rune_of s # runes (drop (rune_size s) s)"
      by (simp add: runes_def chunks_nonempty[of s])
    with 1(2) have low: "rune_of s < 0x80" and tl: "\<forall>r \<in> set (runes (drop (rune_size s) s)). r < 0x80"
      by simp_all
    obtain c t where s: "s = c # t" using False by (cases s) simp_all
    have c: "byte c < 0x80" using decode_low[OF False low] s by simp
    then have "drop (rune_size s) s = t" using s by simp
    with 1(1)[OF False] tl c s show ?thesis by simp
  qed
qed
text \<open>ASCII text, which the examples use: one rune per byte.\<close>

lemma ascii_chunks: "\<forall>c \<in> set s. byte c < 0x80 \<Longrightarrow> chunks s = map (\<lambda>c. (byte c, [c])) s"
  by (induction s) (simp_all add: ascii_chunk)

lemma ascii_valid: "\<forall>c \<in> set s. byte c < 0x80 \<Longrightarrow> valid_utf8 s"
  by (auto simp: valid_chunks ascii_chunks ascii_good_chunk)

lemma ascii_runes: "\<forall>c \<in> set s. byte c < 0x80 \<Longrightarrow> runes s = map byte s"
  by (simp add: runes_def ascii_chunks)

lemma ascii_blank: "\<forall>c \<in> set s. byte c < 0x80 \<Longrightarrow> blank s \<longleftrightarrow> (\<forall>c \<in> set s. is_space (byte c))"
  by (simp add: blank_valid ascii_valid ascii_runes)

lemma chunks_inj: "chunks s = chunks t \<Longrightarrow> s = t"
  by (metis bytes_of_chunks)

lemma trim_space_chunks:
  "valid_utf8 s \<Longrightarrow> chunks (trim_space s) =
     rev (dropWhile space_chunk (rev (dropWhile space_chunk (chunks s))))"
  by (simp add: trim_space_def chunks_trim_right valid_trim_left chunks_trim_left)

text \<open>Trimming leaves ASCII text without white space alone.\<close>

lemma trim_space_plain:
  assumes "\<forall>c \<in> set s. byte c < 0x80 \<and> \<not> is_space (byte c)"
  shows "trim_space s = s"
proof -
  have a: "\<forall>c \<in> set s. byte c < 0x80" using assms by blast
  have tag: "r < 0x80 \<and> \<not> is_space r" if "r \<in> set (runes s)" for r
    using assms that a by (auto simp: ascii_runes)
  from a have v: "valid_utf8 s" by (rule ascii_valid)
  have sp: "\<forall>c \<in> set (chunks s). \<not> space_chunk c" using tag by (auto simp: runes_def)
  have fixed: "dropWhile space_chunk cs = cs" if "set cs \<subseteq> set (chunks s)" for cs
    using that sp by (cases cs) auto
  have n: "dropWhile space_chunk (chunks s) = chunks s"
      "dropWhile space_chunk (rev (chunks s)) = rev (chunks s)"
    by (rule fixed, simp)+
  show ?thesis
    by (rule chunks_inj) (simp only: trim_space_chunks[OF v] n rev_rev_ident)
qed

section \<open>Searching and splitting\<close>

text \<open>\<open>strings.HasPrefix\<close>, \<open>strings.Index\<close>, and \<open>strings.SplitN(s, sep, 2)\<close> for one-byte separators.\<close>

definition has_prefix :: "string \<Rightarrow> string \<Rightarrow> bool" where
  "has_prefix p s \<longleftrightarrow> take (length p) s = p"

fun index_of :: "string \<Rightarrow> string \<Rightarrow> nat option" where
  "index_of p [] = (if p = [] then Some 0 else None)"
| "index_of p (c # t) =
     (if has_prefix p (c # t) then Some 0 else map_option Suc (index_of p t))"

fun split_first :: "char \<Rightarrow> string \<Rightarrow> string list" where
  "split_first c s =
     (case dropWhile (\<lambda>d. d \<noteq> c) s of
        [] \<Rightarrow> [s]
      | _ # t \<Rightarrow> [takeWhile (\<lambda>d. d \<noteq> c) s, t])"

lemma index_of_Some:
  "index_of p s = Some i \<Longrightarrow> i \<le> length s \<and> take (length p) (drop i s) = p"
  by (induction p s arbitrary: i rule: index_of.induct)
    (auto simp: has_prefix_def split: if_splits)

lemma index_of_least:
  "index_of p s = Some i \<Longrightarrow> j < i \<Longrightarrow> take (length p) (drop j s) \<noteq> p"
proof (induction p s arbitrary: i j rule: index_of.induct)
  case (1 p)
  then show ?case by (auto split: if_splits)
next
  case (2 p c t)
  then show ?case by (cases j) (auto simp: has_prefix_def split: if_splits)
qed

declare split_first.simps [simp del]

lemma split_first_hit:
  "c \<notin> set a \<Longrightarrow> split_first c (a @ c # b) = [a, b]"
  by (simp add: split_first.simps dropWhile_append takeWhile_append)

lemma split_first_miss:
  assumes "c \<notin> set a"
  shows "split_first c a = [a]"
proof -
  have "dropWhile (\<lambda>d. d \<noteq> c) a = []" using assms by (auto simp: dropWhile_eq_Nil_conv)
  then show ?thesis by (simp add: split_first.simps del: dropWhile_eq_Nil_conv)
qed

section \<open>Unicode tables\<close>

text \<open>The tables the program reads that are data of a Unicode version.\<close>

record unicode_tables =
  is_letter :: "nat \<Rightarrow> bool"
  is_number :: "nat \<Rightarrow> bool"
  is_upper :: "nat \<Rightarrow> bool"
  is_mark :: "nat \<Rightarrow> bool"

text \<open>Their ASCII part, for evaluating examples.\<close>

definition ascii_tables :: unicode_tables where
  "ascii_tables = \<lparr>is_letter = (\<lambda>r. (65 \<le> r \<and> r \<le> 90) \<or> (97 \<le> r \<and> r \<le> 122)),
     is_number = (\<lambda>r. 48 \<le> r \<and> r \<le> 57), is_upper = (\<lambda>r. 65 \<le> r \<and> r \<le> 90),
     is_mark = (\<lambda>r. False)\<rparr>"

section \<open>Numbers in text and in bytes\<close>

text \<open>\<open>fmt\<close>'s \<open>%d\<close> of a number that is not negative, and its inverse.\<close>

definition digit :: "nat \<Rightarrow> char" where
  "digit d = char_of (48 + d)"

fun decimal :: "nat \<Rightarrow> string" where
  "decimal n = (if n < 10 then [digit n] else decimal (n div 10) @ [digit (n mod 10)])"

declare decimal.simps [simp del]

definition decimal_value :: "string \<Rightarrow> nat" where
  "decimal_value s = foldl (\<lambda>a c. 10 * a + (byte c - 48)) 0 s"

lemma byte_digit: "d < 10 \<Longrightarrow> byte (digit d) = 48 + d"
  by (simp add: byte_def digit_def)

lemma decimal_value_decimal [simp]: "decimal_value (decimal n) = n"
proof (induction n rule: decimal.induct)
  case (1 n)
  show ?case
  proof (cases "n < 10")
    case True
    then show ?thesis by (simp add: decimal.simps[of n] decimal_value_def byte_digit)
  next
    case False
    with 1 have "foldl (\<lambda>a c. 10 * a + (byte c - 48)) 0 (decimal (n div 10)) = n div 10"
      by (simp add: decimal_value_def)
    with False show ?thesis by (simp add: decimal.simps[of n] decimal_value_def byte_digit)
  qed
qed

lemma decimal_inj [simp]: "decimal m = decimal n \<longleftrightarrow> m = n"
  by (metis decimal_value_decimal)

lemma decimal_digits: "c \<in> set (decimal n) \<Longrightarrow> 48 \<le> byte c \<and> byte c \<le> 57"
proof (induction n rule: decimal.induct)
  case (1 n)
  have "n mod 10 < 10" by simp
  with 1 show ?case
    by (cases "n < 10") (auto simp: decimal.simps[of n] byte_digit)
qed

lemma decimal_nonempty [simp]: "decimal n \<noteq> []"
  by (simp add: decimal.simps[of n])

text \<open>\<open>binary.BigEndian.PutUint64\<close>: eight bytes, most significant first.\<close>

fun big_endian :: "nat \<Rightarrow> nat \<Rightarrow> string" where
  "big_endian 0 n = []"
| "big_endian (Suc k) n = big_endian k (n div 256) @ [char_of (n mod 256)]"

definition put_uint64 :: "nat \<Rightarrow> string" where
  "put_uint64 n = big_endian 8 n"

definition big_endian_value :: "string \<Rightarrow> nat" where
  "big_endian_value s = foldl (\<lambda>a c. 256 * a + byte c) 0 s"

lemma length_big_endian [simp]: "length (big_endian k n) = k"
  by (induction k arbitrary: n) simp_all

lemma big_endian_value: "big_endian_value (big_endian k n) = n mod 256 ^ k"
proof (induction k arbitrary: n)
  case 0
  then show ?case by (simp add: big_endian_value_def)
next
  case (Suc k)
  have "big_endian_value (big_endian (Suc k) n) = 256 * (n div 256 mod 256 ^ k) + n mod 256"
    using Suc[of "n div 256"] by (simp add: big_endian_value_def byte_def)
  also have "\<dots> = n mod 256 ^ Suc k"
    by (simp add: mod_mult2_eq)
  finally show ?case .
qed

lemma length_put_uint64 [simp]: "length (put_uint64 n) = 8"
  by (simp add: put_uint64_def)

lemma put_uint64_value: "n < 2 ^ 64 \<Longrightarrow> big_endian_value (put_uint64 n) = n"
  by (simp add: put_uint64_def big_endian_value)

lemma put_uint64_inj: "m < 2 ^ 64 \<Longrightarrow> n < 2 ^ 64 \<Longrightarrow> put_uint64 m = put_uint64 n \<longleftrightarrow> m = n"
  by (metis put_uint64_value)

text \<open>\<open>utf8.RuneLen\<close> of a rune that a string was decoded to.\<close>

definition rune_len :: "nat \<Rightarrow> nat" where
  "rune_len r = (if r < 0x80 then 1 else if r < 0x800 then 2 else if r < 0x10000 then 3 else 4)"

end
