(* ===== verification/Go_Json.thy ===== *)
theory Go_Json
  imports Go_Text
begin

text \<open>
  What the program uses of encoding/json.  A JSON text is read into a tree that keeps the text of every number and
  the text between the quotes of every string, so that a \<open>RawMessage\<close> is its tree (up to blank space) and
  \<open>json.Marshal\<close> of a value is the compact text of its tree.  \<open>parse_value\<close> reads one value off the front of a
  text as \<open>Decoder.Decode\<close> does and returns what is behind it; its first argument is fuel, and one more
  than twice the length of the text is always enough (\<open>parse_fuel\<close>).  Numbers stay text: integers are read by
  \<open>json_int\<close>, and the float64 formatting that one caller needs is a parameter there.
\<close>

section \<open>Trees and tokens\<close>

datatype json =
    JNull | JBool bool | JNum string | JStr string | JArr "json list" | JObj "(string \<times> json) list"

definition json_space :: "char \<Rightarrow> bool" where
  "json_space c \<longleftrightarrow> byte c = 0x20 \<or> byte c = 0x09 \<or> byte c = 0x0A \<or> byte c = 0x0D"

definition skip_ws :: "string \<Rightarrow> string" where
  "skip_ws s = dropWhile json_space s"

definition is_digit :: "char \<Rightarrow> bool" where
  "is_digit c \<longleftrightarrow> 48 \<le> byte c \<and> byte c \<le> 57"

definition is_hex :: "char \<Rightarrow> bool" where
  "is_hex c \<longleftrightarrow> is_digit c \<or> (97 \<le> byte c \<and> byte c \<le> 102) \<or> (65 \<le> byte c \<and> byte c \<le> 70)"

text \<open>The scanner's states inside a string: plain, behind a backslash, and with hexadecimal digits still to come.\<close>

datatype str_state = InStr | InEsc | InHex nat

definition quote_char :: char where "quote_char = CHR 0x22"
definition backslash :: char where "backslash = CHR 0x5C"

definition str_next :: "str_state \<Rightarrow> char \<Rightarrow> str_state option" where
  "str_next st c =
     (case st of
        InStr \<Rightarrow> if c = backslash then Some InEsc else if byte c < 0x20 then None else Some InStr
      | InEsc \<Rightarrow> if c \<in> {CHR ''b'', CHR ''f'', CHR ''n'', CHR ''r'', CHR ''t'', backslash, CHR ''/'', quote_char} then Some InStr
          else if c = CHR ''u'' then Some (InHex 4) else None
      | InHex n \<Rightarrow> if is_hex c then Some (if n \<le> 1 then InStr else InHex (n - 1)) else None)"

text \<open>The rest of a string token behind its opening quote: the text up to the closing one, and what follows.\<close>

fun scan_string :: "str_state \<Rightarrow> string \<Rightarrow> (string \<times> string) option" where
  "scan_string st [] = None"
| "scan_string st (c # s) =
     (if st = InStr \<and> c = quote_char then Some ([], s)
      else case str_next st c of
             None \<Rightarrow> None
           | Some st' \<Rightarrow> map_option (\<lambda>(b, r). (c # b, r)) (scan_string st' s))"

text \<open>A number: sign, integer part without leading zeros, fraction, exponent.\<close>

definition digits :: "string \<Rightarrow> (string \<times> string) option" where
  "digits s = (if takeWhile is_digit s = [] then None else Some (takeWhile is_digit s, dropWhile is_digit s))"

definition scan_frac :: "string \<Rightarrow> (string \<times> string) option" where
  "scan_frac s =
     (case s of c # t \<Rightarrow> if c = CHR ''.'' then map_option (\<lambda>(d, r). (c # d, r)) (digits t) else Some ([], s) | [] \<Rightarrow> Some ([], s))"

definition scan_exp :: "string \<Rightarrow> (string \<times> string) option" where
  "scan_exp s =
     (case s of [] \<Rightarrow> Some ([], s)
      | c # t \<Rightarrow>
          if c \<noteq> CHR ''e'' \<and> c \<noteq> CHR ''E'' then Some ([], s)
          else (case t of
                  x # u \<Rightarrow> if x = CHR ''+'' \<or> x = CHR ''-'' then map_option (\<lambda>(d, r). (c # x # d, r)) (digits u)
                    else map_option (\<lambda>(d, r). (c # d, r)) (digits t)
                | [] \<Rightarrow> None))"

definition scan_int :: "string \<Rightarrow> (string \<times> string) option" where
  "scan_int s =
     (case s of [] \<Rightarrow> None
      | c # t \<Rightarrow> if c = CHR ''0'' then Some ([c], t) else digits s)"

definition scan_sign :: "string \<Rightarrow> string \<times> string" where
  "scan_sign s = (case s of c # t \<Rightarrow> if c = CHR ''-'' then ([c], t) else ([], s) | [] \<Rightarrow> ([], s))"

definition scan_number :: "string \<Rightarrow> (string \<times> string) option" where
  "scan_number s =
     (case scan_sign s of (sg, s1) \<Rightarrow>
      case scan_int s1 of None \<Rightarrow> None | Some (i, s2) \<Rightarrow>
      case scan_frac s2 of None \<Rightarrow> None | Some (f, s3) \<Rightarrow>
      case scan_exp s3 of None \<Rightarrow> None | Some (e, s4) \<Rightarrow> Some (sg @ i @ f @ e, s4))"

section \<open>Reading a value\<close>

definition max_depth :: nat where "max_depth = 10000"

text \<open>A certain character behind blank space, and what may follow a member: a comma or the closing bracket.\<close>

definition expect :: "char \<Rightarrow> string \<Rightarrow> string option" where
  "expect c s = (case skip_ws s of [] \<Rightarrow> None | x # t \<Rightarrow> if x = c then Some t else None)"

definition next_sep :: "char \<Rightarrow> string \<Rightarrow> (bool \<times> string) option" where
  "next_sep c s =
     (case skip_ws s of [] \<Rightarrow> None
      | x # t \<Rightarrow> if x = CHR '','' then Some (True, t) else if x = c then Some (False, t) else None)"

definition parse_scalar :: "string \<Rightarrow> (json \<times> string) option" where
  "parse_scalar s =
     (if has_prefix [quote_char] s then map_option (\<lambda>(b, r). (JStr b, r)) (scan_string InStr (tl s))
      else if has_prefix ''null'' s then Some (JNull, drop 4 s)
      else if has_prefix ''true'' s then Some (JBool True, drop 4 s)
      else if has_prefix ''false'' s then Some (JBool False, drop 5 s)
      else map_option (\<lambda>(n, r). (JNum n, r)) (scan_number s))"

fun parse_value :: "nat \<Rightarrow> nat \<Rightarrow> string \<Rightarrow> (json \<times> string) option"
  and parse_elems :: "nat \<Rightarrow> nat \<Rightarrow> string \<Rightarrow> (json list \<times> string) option"
  and parse_members :: "nat \<Rightarrow> nat \<Rightarrow> string \<Rightarrow> ((string \<times> json) list \<times> string) option" where
  "parse_value 0 d s = None"
| "parse_value (Suc f) d s =
     (case expect CHR ''{'' s of
        Some t \<Rightarrow>
          if max_depth \<le> d then None
          else (case expect CHR ''}'' t of Some r \<Rightarrow> Some (JObj [], r)
                | None \<Rightarrow> map_option (\<lambda>(ms, r). (JObj ms, r)) (parse_members f (Suc d) t))
      | None \<Rightarrow>
     (case expect CHR ''['' s of
        Some t \<Rightarrow>
          if max_depth \<le> d then None
          else (case expect CHR '']'' t of Some r \<Rightarrow> Some (JArr [], r)
                | None \<Rightarrow> map_option (\<lambda>(js, r). (JArr js, r)) (parse_elems f (Suc d) t))
      | None \<Rightarrow> parse_scalar (skip_ws s)))"
| "parse_elems 0 d s = None"
| "parse_elems (Suc f) d s =
     Option.bind (parse_value f d s) (\<lambda>(j, r).
     Option.bind (next_sep CHR '']'' r) (\<lambda>(more, t).
       if more then map_option (\<lambda>(js, r'). (j # js, r')) (parse_elems f d t) else Some ([j], t)))"
| "parse_members 0 d s = None"
| "parse_members (Suc f) d s =
     Option.bind (expect quote_char s) (\<lambda>t1.
     Option.bind (scan_string InStr t1) (\<lambda>(k, t2).
     Option.bind (expect CHR '':'' t2) (\<lambda>t3.
     Option.bind (parse_value f d t3) (\<lambda>(j, r).
     Option.bind (next_sep CHR ''}'' r) (\<lambda>(more, t).
       if more then map_option (\<lambda>(ms, r'). ((k, j) # ms, r')) (parse_members f d t) else Some ([(k, j)], t))))))"

declare parse_value.simps [simp del] parse_elems.simps [simp del] parse_members.simps [simp del]

text \<open>\<open>Decoder.Decode\<close> on a text, and \<open>json.Valid\<close>/\<open>json.Unmarshal\<close>: one value with blank space around it.\<close>

definition json_read :: "string \<Rightarrow> (json \<times> string) option" where
  "json_read s = parse_value (2 * length s + 1) 0 s"

definition json_parse :: "string \<Rightarrow> json option" where
  "json_parse s = (case json_read s of None \<Rightarrow> None | Some (j, r) \<Rightarrow> if skip_ws r = [] then Some j else None)"

text \<open>A strict reader asks the decoder for another value behind the first and wants \<open>io.EOF\<close>: that is \<open>json_parse\<close>.  A lax one
  is content with any error of the second call.\<close>

definition json_read_error :: "string \<Rightarrow> json option" where
  "json_read_error s = (case json_read s of None \<Rightarrow> None | Some (j, r) \<Rightarrow> if json_read r = None then Some j else None)"

section \<open>The text of strings\<close>

definition hex_value :: "char \<Rightarrow> nat" where
  "hex_value c = (if is_digit c then byte c - 48 else if 97 \<le> byte c then byte c - 87 else byte c - 55)"

definition hex4 :: "string \<Rightarrow> nat" where
  "hex4 s = foldl (\<lambda>a c. 16 * a + hex_value c) 0 (take 4 s)"

text \<open>\<open>utf8.AppendRune\<close>; surrogates and values out of range become the replacement character.\<close>

definition replacement :: string where
  "replacement = [CHR 0xEF, CHR 0xBF, CHR 0xBD]"

definition encode_rune :: "nat \<Rightarrow> string" where
  "encode_rune r =
     (if r < 0x80 then [char_of r]
      else if r < 0x800 then [char_of (0xC0 + r div 64), char_of (0x80 + r mod 64)]
      else if r > 0x10FFFF \<or> (0xD800 \<le> r \<and> r \<le> 0xDFFF) then replacement
      else if r < 0x10000 then [char_of (0xE0 + r div 4096), char_of (0x80 + r div 64 mod 64), char_of (0x80 + r mod 64)]
      else [char_of (0xF0 + r div 262144), char_of (0x80 + r div 4096 mod 64), char_of (0x80 + r div 64 mod 64),
        char_of (0x80 + r mod 64)])"

definition utf16_pair :: "nat \<Rightarrow> nat \<Rightarrow> nat option" where
  "utf16_pair a b =
     (if 0xD800 \<le> a \<and> a < 0xDC00 \<and> 0xDC00 \<le> b \<and> b < 0xE000
      then Some ((a - 0xD800) * 1024 + (b - 0xDC00) + 0x10000) else None)"

text \<open>What a one-letter escape stands for; the scanner lets no other letter through.\<close>

definition escape_char :: "char \<Rightarrow> string" where
  "escape_char e =
     (if e = CHR ''b'' then [CHR 0x08] else if e = CHR ''f'' then [CHR 0x0C] else if e = CHR ''n'' then [CHR 0x0A]
      else if e = CHR ''r'' then [CHR 0x0D] else if e = CHR ''t'' then [CHR 0x09]
      else if e = quote_char \<or> e = backslash \<or> e = CHR ''/'' then [e] else [])"

definition pair_behind :: "nat \<Rightarrow> string \<Rightarrow> nat option" where
  "pair_behind a s = (if take 2 s = [backslash, CHR ''u''] \<and> 6 \<le> length s then utf16_pair a (hex4 (drop 2 s)) else None)"

text \<open>The value of the text between the quotes (\<open>unquoteBytes\<close>): escapes are resolved, bytes that are no UTF-8 replaced.\<close>

function unquote :: "string \<Rightarrow> string" where
  "unquote [] = []"
| "unquote (c # s) =
     (if c = backslash then
        (case s of
           [] \<Rightarrow> []
         | e # t \<Rightarrow>
             if e = CHR ''u'' then
               (case pair_behind (hex4 t) (drop 4 t) of
                  Some r \<Rightarrow> encode_rune r @ unquote (drop 10 t)
                | None \<Rightarrow> encode_rune (hex4 t) @ unquote (drop 4 t))
             else escape_char e @ unquote t)
      else if bad_rune (c # s) then replacement @ unquote s
      else take (snd (decode_rune (c # s))) (c # s) @ unquote (drop (snd (decode_rune (c # s)) - 1) s))"
  by pat_completeness auto
termination by (relation "measure length") auto

declare unquote.simps(2) [simp del]

text \<open>What \<open>Marshal\<close> writes between the quotes (\<open>appendString\<close> with HTML escaping).\<close>

definition hex_digit :: "nat \<Rightarrow> char" where
  "hex_digit n = (if n < 10 then char_of (48 + n) else char_of (87 + n))"

definition esc_chunk :: "nat \<times> string \<Rightarrow> string" where
  "esc_chunk c =
     (case c of (r, w) \<Rightarrow>
        if r = byte quote_char \<or> r = byte backslash then [backslash, char_of r]
        else if r = 0x08 then [backslash, CHR ''b''] else if r = 0x0C then [backslash, CHR ''f'']
        else if r = 0x0A then [backslash, CHR ''n''] else if r = 0x0D then [backslash, CHR ''r'']
        else if r = 0x09 then [backslash, CHR ''t'']
        else if r < 0x20 \<or> r = byte CHR ''<'' \<or> r = byte CHR ''>'' \<or> r = byte CHR ''&'' then
          [backslash, CHR ''u'', CHR ''0'', CHR ''0'', hex_digit (r div 16), hex_digit (r mod 16)]
        else if r = rune_error \<and> length w = 1 then backslash # ''ufffd''
        else if r = 0x2028 \<or> r = 0x2029 then backslash # ''u202'' @ [hex_digit (r mod 16)]
        else w)"

definition escape :: "string \<Rightarrow> string" where
  "escape s = concat (map esc_chunk (chunks s))"

definition json_str :: "string \<Rightarrow> json" where
  "json_str s = JStr (escape s)"

section \<open>The compact text of a tree\<close>

fun commas :: "string list \<Rightarrow> string" where
  "commas [] = []"
| "commas [s] = s"
| "commas (s # t # ss) = s @ CHR '','' # commas (t # ss)"

fun json_text :: "json \<Rightarrow> string" where
  "json_text JNull = ''null''"
| "json_text (JBool b) = (if b then ''true'' else ''false'')"
| "json_text (JNum n) = n"
| "json_text (JStr b) = quote_char # b @ [quote_char]"
| "json_text (JArr js) = CHR ''['' # commas (map json_text js) @ '']''"
| "json_text (JObj ms) = CHR ''{'' # commas (map (\<lambda>(k, j). quote_char # k @ [quote_char, CHR '':''] @ json_text j) ms) @ ''}''"

text \<open>\<open>compact\<close> of a raw message escapes the HTML characters inside its strings as well.\<close>

definition esc_html :: "string \<Rightarrow> string" where
  "esc_html s = concat (map (\<lambda>(r, w).
     if r = byte CHR ''<'' \<or> r = byte CHR ''>'' \<or> r = byte CHR ''&'' then
          [backslash, CHR ''u'', CHR ''0'', CHR ''0'', hex_digit (r div 16), hex_digit (r mod 16)]
     else if r = 0x2028 \<or> r = 0x2029 then backslash # ''u202'' @ [hex_digit (r mod 16)] else w) (chunks s))"

fun json_compact :: "json \<Rightarrow> json" where
  "json_compact (JStr b) = JStr (esc_html b)"
| "json_compact (JArr js) = JArr (map json_compact js)"
| "json_compact (JObj ms) = JObj (map (\<lambda>(k, j). (esc_html k, json_compact j)) ms)"
| "json_compact j = j"

section \<open>Numbers\<close>

text \<open>\<open>strconv.ParseInt\<close> with 64 bits on the text of a number: no fraction, no exponent, in range.\<close>

definition json_int :: "string \<Rightarrow> int option" where
  "json_int n =
     (case scan_sign n of (sg, t) \<Rightarrow>
        if t = [] \<or> \<not> list_all is_digit t then None
        else let v = (if sg = [] then int (decimal_value t) else - int (decimal_value t))
             in if v < - (2 ^ 63) \<or> 2 ^ 63 \<le> v then None else Some v)"

definition json_of_int :: "int \<Rightarrow> json" where
  "json_of_int i = JNum (if i < 0 then CHR ''-'' # decimal (nat (- i)) else decimal (nat i))"

end
