(* ===== verification/Go_Json_Facts.thy ===== *)
theory Go_Json_Facts
  imports Go_Json
begin

text \<open>
  Facts about the JSON model: enough fuel gives the result, the text of a tree reads back as that tree, and a
  string survives escaping and unquoting.
\<close>

section \<open>Consumption and fuel\<close>

lemma skip_ws_length: "length (skip_ws s) \<le> length s"
  by (simp add: skip_ws_def length_dropWhile_le)

lemma skip_ws_Cons: "skip_ws s = c # t \<Longrightarrow> length t < length s"
  using skip_ws_length[of s] by simp

lemma scan_string_length: "scan_string st s = Some (b, r) \<Longrightarrow> length r < length s"
  by (induction st s arbitrary: b r rule: scan_string.induct) (fastforce split: if_splits option.splits)+

lemma digits_length:
  assumes "digits s = Some (d, r)"
  shows "length r < length s"
proof -
  have p: "takeWhile is_digit s \<noteq> []" "r = dropWhile is_digit s" using assms by (auto simp: digits_def split: if_splits)
  have "length (takeWhile is_digit s) + length (dropWhile is_digit s) = length s"
    by (metis length_append takeWhile_dropWhile_id)
  moreover have "0 < length (takeWhile is_digit s)" using p(1) by (rule length_greater_0_conv[THEN iffD2])
  ultimately show ?thesis unfolding p(2) by linarith
qed

lemma scan_parts_length:
  "scan_int s = Some (d, r) \<Longrightarrow> length r < length s"
  "scan_frac s = Some (d, r) \<Longrightarrow> length r \<le> length s"
  "scan_exp s = Some (d, r) \<Longrightarrow> length r \<le> length s"
  by (fastforce simp: scan_int_def scan_frac_def scan_exp_def split: list.splits if_splits dest: digits_length)+

lemma scan_number_length: "scan_number s = Some (n, r) \<Longrightarrow> length r < length s"
  using scan_parts_length by (fastforce simp: scan_number_def scan_sign_def split: option.splits list.splits if_splits prod.splits)

lemma expect_length: "expect c s = Some t \<Longrightarrow> length t < length s"
  by (auto simp: expect_def split: list.splits if_splits dest: skip_ws_Cons)

lemma next_sep_length: "next_sep c s = Some (m, t) \<Longrightarrow> length t < length s"
  by (auto simp: next_sep_def split: list.splits if_splits dest: skip_ws_Cons)

lemma parse_scalar_length:
  assumes "parse_scalar s = Some (j, r)"
  shows "length r < length s"
proof (cases s)
  case Nil
  then show ?thesis using assms by (simp add: parse_scalar_def has_prefix_def scan_number_def scan_sign_def scan_int_def)
next
  case (Cons c t)
  have "length r < length s" if "has_prefix [quote_char] s" "scan_string InStr (tl s) = Some (b, r)" for b
    using scan_string_length[OF that(2)] Cons by simp
  then show ?thesis using assms Cons
    by (auto simp: parse_scalar_def split: if_splits dest: scan_number_length scan_string_length)
qed

lemmas parse_simps = parse_value.simps parse_elems.simps parse_members.simps

lemma parse_length:
  "parse_value f d s = Some (j, r) \<Longrightarrow> length r < length s"
  "parse_elems f d s = Some (js, r) \<Longrightarrow> length r < length s"
  "parse_members f d s = Some (ms, r) \<Longrightarrow> length r < length s"
proof (induction f d s and f d s and f d s arbitrary: j r and js r and ms r
    rule: parse_value_parse_elems_parse_members.induct)
  case (2 f d s)
  show ?case
  proof (cases "expect CHR ''{'' s")
    case (Some t)
    then show ?thesis using 2(2)[OF Some] 2(3) expect_length[OF Some]
      by (fastforce simp: parse_value.simps(2) split: option.splits if_splits dest: expect_length)
  next
    case no_brace: None
    show ?thesis
    proof (cases "expect CHR ''['' s")
      case (Some t)
      then show ?thesis using 2(1)[OF no_brace Some] 2(3) expect_length[OF Some] no_brace
        by (fastforce simp: parse_value.simps(2) split: option.splits if_splits dest: expect_length)
    next
      case None
      then show ?thesis using 2(3) no_brace skip_ws_length[of s]
        by (fastforce simp: parse_value.simps(2) dest: parse_scalar_length)
    qed
  qed
next
  case (4 f d s)
  from 4(3) obtain j r' more t where p: "parse_value f d s = Some (j, r')" "next_sep CHR '']'' r' = Some (more, t)"
    "(if more then map_option (\<lambda>(js, r'). (j # js, r')) (parse_elems f d t) else Some ([j], t)) = Some (js, r)"
    by (auto simp: parse_elems.simps(2) bind_eq_Some_conv)
  have "length t < length s" using 4(1)[OF p(1)] next_sep_length[OF p(2)] by simp
  moreover have "length r \<le> length t"
    using p(3) 4(2)[OF p(1) refl p(2) refl] by (auto split: if_splits intro: less_imp_le)
  ultimately show ?case by simp
next
  case (6 f d s)
  from 6(3) obtain t1 k t2 t3 j r' more t where p: "expect quote_char s = Some t1" "scan_string InStr t1 = Some (k, t2)"
    "expect CHR '':'' t2 = Some t3" "parse_value f d t3 = Some (j, r')" "next_sep CHR ''}'' r' = Some (more, t)"
    "(if more then map_option (\<lambda>(ms, r'). ((k, j) # ms, r')) (parse_members f d t) else Some ([(k, j)], t)) = Some (ms, r)"
    by (auto simp: parse_members.simps(2) bind_eq_Some_conv)
  have "length t < length s"
    using expect_length[OF p(1)] scan_string_length[OF p(2)] expect_length[OF p(3)] 6(1)[OF p(1,2) refl p(3,4)]
      next_sep_length[OF p(5)] by simp
  moreover have "length r \<le> length t"
    using p(6) 6(2)[OF p(1,2) refl p(3,4) refl p(5) refl] by (auto split: if_splits intro: less_imp_le)
  ultimately show ?case by simp
qed (simp_all add: parse_value.simps(1) parse_elems.simps(1) parse_members.simps(1))

text \<open>With more fuel than bytes the result does not depend on the fuel.\<close>

lemma parse_fuel:
  "2 * length s < f \<Longrightarrow> 2 * length s < g \<Longrightarrow> parse_value f d s = parse_value g d s"
  "2 * length s + 1 < f \<Longrightarrow> 2 * length s + 1 < g \<Longrightarrow> parse_elems f d s = parse_elems g d s"
  "2 * length s + 1 < f \<Longrightarrow> 2 * length s + 1 < g \<Longrightarrow> parse_members f d s = parse_members g d s"
proof (induction f d s and f d s and f d s arbitrary: g and g and g rule: parse_value_parse_elems_parse_members.induct)
  case (2 f d s)
  obtain g' where g: "g = Suc g'" using 2(4) by (cases g) simp_all
  show ?case
  proof (cases "expect CHR ''{'' s")
    case (Some t)
    then show ?thesis using 2(2)[OF Some, of g'] 2(3,4) expect_length[OF Some]
      by (simp add: g parse_value.simps(2) split: option.splits)
  next
    case no_brace: None
    show ?thesis
    proof (cases "expect CHR ''['' s")
      case (Some t)
      then show ?thesis using 2(1)[OF no_brace Some, of g'] 2(3,4) expect_length[OF Some] no_brace
        by (simp add: g parse_value.simps(2) split: option.splits)
    next
      case None
      then show ?thesis using no_brace by (simp add: g parse_value.simps(2))
    qed
  qed
next
  case (4 f d s)
  obtain g' where g: "g = Suc g'" using 4(4) by (cases g) simp_all
  have v: "parse_value f d s = parse_value g' d s" using 4(1)[of g'] 4(3,4) g by simp
  have e: "parse_elems f d t = parse_elems g' d t"
    if p: "parse_value f d s = Some (j, r)" "next_sep CHR '']'' r = Some (more, t)" and m: "more" for j r more t
    using 4(2)[OF p(1) refl p(2) refl m, of g'] parse_length(1)[OF p(1)] next_sep_length[OF p(2)] 4(3,4) g by simp
  show ?case
    unfolding g parse_elems.simps(2) v[symmetric]
    by (auto simp: e split: prod.splits intro!: Option.bind_cong)
next
  case (6 f d s)
  obtain g' where g: "g = Suc g'" using 6(4) by (cases g) simp_all
  have v: "parse_value f d t3 = parse_value g' d t3"
    if p: "expect quote_char s = Some t1" "scan_string InStr t1 = Some (k, t2)" "expect CHR '':'' t2 = Some t3" for t1 k t2 t3
    using 6(1)[OF p(1,2) refl p(3), of g'] expect_length[OF p(1)] scan_string_length[OF p(2)] expect_length[OF p(3)] 6(3,4) g
    by simp
  have e: "parse_members f d t = parse_members g' d t"
    if p: "expect quote_char s = Some t1" "scan_string InStr t1 = Some (k, t2)" "expect CHR '':'' t2 = Some t3"
      "parse_value f d t3 = Some (j, r)" "next_sep CHR ''}'' r = Some (more, t)" and m: "more" for t1 k t2 t3 j r more t
    using 6(2)[OF p(1,2) refl p(3,4) refl p(5) refl m, of g'] expect_length[OF p(1)] scan_string_length[OF p(2)]
      expect_length[OF p(3)] parse_length(1)[OF p(4)] next_sep_length[OF p(5)] 6(3,4) g by simp
  show ?case
    unfolding g parse_members.simps(2)
    by (auto simp: v e split: prod.splits intro!: Option.bind_cong)
qed simp_all

section \<open>Runes\<close>

lemma byte_char [simp]: "n < 256 \<Longrightarrow> byte (char_of n) = n"
  by (simp add: byte_def)

lemma char_byte [simp]: "char_of (byte c) = c"
  by (simp add: byte_def)

lemma cont_char:
  assumes "is_cont c"
  shows "char_of (0x80 + byte c mod 64) = c"
proof -
  have b: "128 \<le> byte c" "byte c < 192" using assms by (simp_all add: is_cont_def)
  have "byte c mod 64 = byte c - 64 * 2" using mod_window[of 64 2 "byte c"] b by simp
  then have "0x80 + byte c mod 64 = byte c" using b by simp
  then show ?thesis by simp
qed

lemma good_multi_rune: "good_chunk (r, w) \<Longrightarrow> 2 \<le> length w \<Longrightarrow> 0x80 \<le> r"
proof -
  assume g: "good_chunk (r, w)" and l: "2 \<le> length w"
  show ?thesis
  proof (rule ccontr)
    assume "\<not> 0x80 \<le> r"
    then have "decode_rune w = (byte (w ! 0), 1)"
      using g decode_low[of w] by (auto simp: good_chunk_def decode_rune_def)
    then show False using g l by (simp add: good_chunk_def)
  qed
qed

lemma base64_digits:
  fixes x k :: nat
  assumes "k < 64"
  shows "(x * 64 + k) div 64 = x" and "(x * 64 + k) mod 64 = k"
  using assms by simp_all

lemma base64_digits3:
  fixes x k l :: nat
  assumes "k < 64" and "l < 64"
  shows "(x * 4096 + k * 64 + l) div 4096 = x" and "(x * 4096 + k * 64 + l) div 64 mod 64 = k"
    and "(x * 4096 + k * 64 + l) mod 64 = l"
proof -
  have e: "x * 4096 + k * 64 + l = (x * 64 + k) * 64 + l" by simp
  note d = base64_digits[OF assms(2), of "x * 64 + k"] base64_digits[OF assms(1), of x]
  have "(x * 4096 + k * 64 + l) div 4096 = (x * 4096 + k * 64 + l) div 64 div 64" by (simp add: div_mult2_eq[symmetric])
  then show "(x * 4096 + k * 64 + l) div 4096 = x" unfolding e d .
  show "(x * 4096 + k * 64 + l) div 64 mod 64 = k" "(x * 4096 + k * 64 + l) mod 64 = l" unfolding e d by (rule refl)+
qed

text \<open>A chunk of several bytes, and the ranges that exclude overlong forms and surrogates.\<close>

lemma encode_rune_good:
  assumes "good_chunk (r, w)"
  shows "encode_rune r = w"
  using assms
proof (cases rule: good_chunk_cases)
  case (ascii c)
  then show ?thesis by (simp add: encode_rune_def)
next
  case multi
  have d: "decode_rune w = (r, length w)" and nb: "\<not> bad_rune w" using assms by (auto simp: good_chunk_def)
  define b k1 k2 k3 where "b = byte (w ! 0)" and "k1 = byte (w ! 1) mod 64" and "k2 = byte (w ! 2) mod 64"
    and "k3 = byte (w ! 3) mod 64"
  note ks = b_def k1_def k2_def k3_def
  have k: "k1 < 64" "k2 < 64" "k3 < 64" by (simp_all add: ks)
  have hi: "\<not> b < 128" using multi(3) by (simp add: b_def)
  have w0: "char_of b = w ! 0" by (simp add: b_def)
  have wn: "w \<noteq> []" using multi(1) by auto
  obtain sz lo h where li: "lead_info b = Some (sz, lo, h)" using nb hi wn unfolding b_def
    by (cases "lead_info (byte (w ! 0))") (auto simp: bad_rune_def decode_rune_def)
  have second: "lo \<le> byte (w ! 1)" "byte (w ! 1) \<le> h" and sz: "sz = length w"
    using d nb li hi wn lead_info_size[OF li] unfolding b_def
    by (auto simp: decode_rune_def bad_rune_def Let_def split: if_splits)
  have win: "32 \<le> k1" if "0xA0 \<le> byte (w ! 1)" "byte (w ! 1) \<le> 0xBF"
    using that mod_window[of 64 2 "byte (w ! 1)"] by (simp add: k1_def)
  have win2: "16 \<le> k1" if "0x90 \<le> byte (w ! 1)" "byte (w ! 1) \<le> 0xBF"
    using that mod_window[of 64 2 "byte (w ! 1)"] by (simp add: k1_def)
  have win3: "k1 < 32" if "0x80 \<le> byte (w ! 1)" "byte (w ! 1) \<le> 0x9F"
    using that mod_window[of 64 2 "byte (w ! 1)"] by (simp add: k1_def)
  have win4: "k1 < 16" if "0x80 \<le> byte (w ! 1)" "byte (w ! 1) \<le> 0x8F"
    using that mod_window[of 64 2 "byte (w ! 1)"] by (simp add: k1_def)
  from multi(1,2) consider "length w = 2" | "length w = 3" | "length w = 4" by linarith
  then show ?thesis
  proof cases
    case 1
    then have w: "w = [w ! 0, w ! 1]" by (auto simp: length_Suc_conv numeral_2_eq_2)
    have c: "char_of (0x80 + k1) = w ! 1" unfolding k1_def by (rule cont_char, rule multi(4)) (use 1 in simp_all)
    have b: "194 \<le> b" "b < 224" using li sz 1 by (auto simp: lead_info_def split: if_splits)
    have r: "r = (b mod 32) * 64 + k1"
      using d li hi wn 1 sz second unfolding ks by (auto simp: decode_rune_def cont_bits_def Let_def split: if_splits)
    have m: "b mod 32 = b - 192" using mod_window[of 32 6 b] b by simp
    have dv: "r div 64 = b - 192" "r mod 64 = k1" using r k m by simp_all
    have "\<not> r < 128" "r < 2048" using r b k m by simp_all
    then have "encode_rune r = [char_of b, char_of (0x80 + k1)]" using b unfolding encode_rune_def dv by simp
    then show ?thesis using w c w0 by simp
  next
    case 2
    then have w: "w = [w ! 0, w ! 1, w ! 2]" by (auto simp: length_Suc_conv numeral_3_eq_3)
    have c: "char_of (0x80 + k1) = w ! 1" "char_of (0x80 + k2) = w ! 2"
      unfolding ks by (rule cont_char, rule multi(4); use 2 in simp)+
    have b: "224 \<le> b" "b < 240" using li sz 2 by (auto simp: lead_info_def split: if_splits)
    have r: "r = (b mod 16) * 4096 + k1 * 64 + k2"
      using d nb li hi wn 2 sz second unfolding ks by (auto simp: decode_rune_def bad_rune_def cont_bits_def Let_def split: if_splits)
    have m: "b mod 16 = b - 224" using mod_window[of 16 14 b] b by simp
    have dv: "r div 4096 = b - 224" "r div 64 mod 64 = k1" "r mod 64 = k2"
      unfolding r m by (rule base64_digits3, rule k, rule k)+
    have lo: "2048 \<le> r" using li second b sz 2 win r m by (cases "b = 224") (auto simp: lead_info_def split: if_splits)
    have su: "\<not> (0xD800 \<le> r \<and> r \<le> 0xDFFF)"
    proof (cases "b = 237")
      case True
      then have "k1 < 32" using li second win3 by (auto simp: lead_info_def)
      then show ?thesis using True r k m by simp
    next
      case False
      then have "b - 224 \<le> 12 \<or> 14 \<le> b - 224" using b by linarith
      then show ?thesis using r k m by auto
    qed
    have "r < 0x10000" using r k m b by simp
    then have "encode_rune r = [char_of b, char_of (0x80 + k1), char_of (0x80 + k2)]"
      using lo su b unfolding encode_rune_def dv by auto
    then show ?thesis using w c w0 by simp
  next
    case 3
    then have w: "w = [w ! 0, w ! 1, w ! 2, w ! 3]" by (auto simp: length_Suc_conv numeral_eq_Suc)
    have c: "char_of (0x80 + k1) = w ! 1" "char_of (0x80 + k2) = w ! 2" "char_of (0x80 + k3) = w ! 3"
      unfolding ks by (rule cont_char, rule multi(4); use 3 in simp)+
    have b: "240 \<le> b" "b < 245" using li sz 3 by (auto simp: lead_info_def split: if_splits)
    have r: "r = (b mod 8) * 262144 + k1 * 4096 + k2 * 64 + k3"
      using d nb li hi wn 3 sz second unfolding ks by (auto simp: decode_rune_def bad_rune_def cont_bits_def Let_def split: if_splits)
    have m: "b mod 8 = b - 240" using mod_window[of 8 30 b] b by simp
    have dv: "r div 262144 = b - 240" "r div 4096 mod 64 = k1" "r div 64 mod 64 = k2" "r mod 64 = k3"
    proof -
      have e: "r = ((b - 240) * 64 + k1) * 4096 + k2 * 64 + k3" using r m by simp
      note t = base64_digits3[OF k(2,3), of "(b - 240) * 64 + k1", folded e]
      show "r div 64 mod 64 = k2" "r mod 64 = k3" by (rule t)+
      show "r div 4096 mod 64 = k1" unfolding t by (rule base64_digits[OF k(1)])
      have "r div 262144 = r div 4096 div 64" by (simp add: div_mult2_eq[symmetric])
      then show "r div 262144 = b - 240" unfolding t base64_digits[OF k(1)] .
    qed
    have lo: "65536 \<le> r" using li second b sz 3 win2 r m by (cases "b = 240") (auto simp: lead_info_def split: if_splits)
    have up: "r \<le> 0x10FFFF"
    proof (cases "b = 244")
      case True
      then have "k1 < 16" using li second win4 by (auto simp: lead_info_def)
      then show ?thesis using True r k m by simp
    next
      case False
      then have "b - 240 \<le> 3" using b by linarith
      then show ?thesis using r k m by simp
    qed
    have "encode_rune r = [char_of b, char_of (0x80 + k1), char_of (0x80 + k2), char_of (0x80 + k3)]"
      using lo up b unfolding encode_rune_def dv by simp
    then show ?thesis using w c w0 by simp
  qed
qed

section \<open>Strings\<close>

lemma quote_bytes [simp]: "byte quote_char = 34" "byte backslash = 92"
  by (simp_all add: quote_char_def backslash_def byte_def)

lemma html_bytes [simp]: "byte CHR ''<'' = 60" "byte CHR ''>'' = 62" "byte CHR ''&'' = 38"
  "byte CHR 0x08 = 8" "byte CHR 0x0C = 12" "byte CHR 0x0A = 10" "byte CHR 0x0D = 13" "byte CHR 0x09 = 9"
  by (simp_all add: byte_def)

lemma quote_neq [simp]: "quote_char \<noteq> backslash" "backslash \<noteq> quote_char"
  by (simp_all add: quote_char_def backslash_def)

declare scan_string.simps(2) [simp del]

lemma scan_quote [simp]: "scan_string InStr (quote_char # t) = Some ([], t)"
  by (simp add: scan_string.simps(2))

definition plain_char :: "char \<Rightarrow> bool" where
  "plain_char c \<longleftrightarrow> 0x20 \<le> byte c \<and> c \<noteq> quote_char \<and> c \<noteq> backslash"

definition prepend :: "string \<Rightarrow> (string \<times> string) option \<Rightarrow> (string \<times> string) option" where
  "prepend w x = map_option (\<lambda>(b, r). (w @ b, r)) x"

lemma prepend_simps [simp]: "prepend w (Some (b, r)) = Some (w @ b, r)" "prepend w None = None"
  by (simp_all add: prepend_def)

lemma prepend_prepend [simp]: "prepend a (prepend b x) = prepend (a @ b) x"
  by (cases x) auto

lemma prepend_Nil [simp]: "prepend [] x = x"
  by (cases x) auto

lemma scan_step:
  "str_next st c = Some st' \<Longrightarrow> st \<noteq> InStr \<or> c \<noteq> quote_char \<Longrightarrow>
   scan_string st (c # t) = prepend [c] (scan_string st' t)"
  by (auto simp: split_def prepend_def scan_string.simps(2))

lemma scan_plain: "list_all plain_char w \<Longrightarrow> scan_string InStr (w @ t) = prepend w (scan_string InStr t)"
proof (induction w)
  case Nil
  then show ?case by simp
next
  case (Cons c w)
  then have "str_next InStr c = Some InStr" "c \<noteq> quote_char" by (auto simp: plain_char_def str_next_def)
  then show ?case using Cons scan_step[of InStr c InStr "w @ t"] by simp
qed

lemma is_hex_digit: "n < 16 \<Longrightarrow> is_hex (hex_digit n)"
  by (auto simp: is_hex_def is_digit_def hex_digit_def)

lemma hex_value_digit: "n < 16 \<Longrightarrow> hex_value (hex_digit n) = n"
  by (auto simp: hex_value_def is_digit_def hex_digit_def)

lemma multi_high:
  assumes "good_chunk (r, w)" and "2 \<le> length w" and "c \<in> set w"
  shows "0x80 \<le> byte c"
proof -
  from assms(3) obtain i where i: "i < length w" "c = w ! i" by (auto simp: in_set_conv_nth)
  from assms(1) show ?thesis
  proof (cases rule: good_chunk_cases)
    case (ascii d)
    then show ?thesis using assms(2) by simp
  next
    case multi
    then show ?thesis using i by (cases "i = 0") (auto simp: is_cont_def)
  qed
qed

text \<open>Every chunk of a text is well encoded or a single wrong byte.\<close>

definition text_chunk :: "nat \<times> string \<Rightarrow> bool" where
  "text_chunk c \<longleftrightarrow> good_chunk c \<or> (fst c = rune_error \<and> length (snd c) = 1)"

lemma chunks_text: "c \<in> set (chunks s) \<Longrightarrow> text_chunk c"
proof (induction s rule: chunks.induct)
  case (1 s)
  show ?case
  proof (cases "s = []")
    case True
    then show ?thesis using 1(2) by simp
  next
    case False
    have "text_chunk (rune_of s, take (rune_size s) s)"
    proof (cases "bad_rune s")
      case True
      then show ?thesis using False by (cases s) (auto simp: text_chunk_def bad_rune_def)
    next
      case ok: False
      show ?thesis using good_chunk_head[OF False ok] by (simp add: text_chunk_def)
    qed
    then show ?thesis using 1 False by (auto simp: chunks_nonempty[of s])
  qed
qed

lemma scan_backslash: "scan_string InStr (backslash # t) = prepend [backslash] (scan_string InEsc t)"
  by (rule scan_step) (simp_all add: str_next_def)

lemma scan_short:
  "e \<in> {CHR ''b'', CHR ''f'', CHR ''n'', CHR ''r'', CHR ''t'', backslash, quote_char} \<Longrightarrow>
   scan_string InStr (backslash # e # t) = prepend [backslash, e] (scan_string InStr t)"
  by (subst scan_backslash, subst scan_step[where st' = InStr]) (auto simp: str_next_def)

lemma scan_u: "scan_string InStr (backslash # CHR ''u'' # t) = prepend [backslash, CHR ''u''] (scan_string (InHex 4) t)"
  by (subst scan_backslash, subst scan_step[where st' = "InHex 4"])
    (simp_all add: str_next_def quote_char_def backslash_def)

lemma scan_hex4:
  assumes "is_hex a" and "is_hex b" and "is_hex c" and "is_hex d"
  shows "scan_string (InHex 4) (a # b # c # d # t) = prepend [a, b, c, d] (scan_string InStr t)"
proof -
  have "scan_string (InHex 4) (a # b # c # d # t) = prepend [a] (scan_string (InHex 3) (b # c # d # t))"
    "scan_string (InHex 3) (b # c # d # t) = prepend [b] (scan_string (InHex 2) (c # d # t))"
    "scan_string (InHex 2) (c # d # t) = prepend [c] (scan_string (InHex 1) (d # t))"
    "scan_string (InHex 1) (d # t) = prepend [d] (scan_string InStr t)"
    by (rule scan_step, simp add: str_next_def assms, simp)+
  then show ?thesis by simp
qed

lemma scan_escape4:
  assumes "is_hex a" and "is_hex b" and "is_hex c" and "is_hex d"
  shows "scan_string InStr (backslash # CHR ''u'' # a # b # c # d # t) =
    prepend [backslash, CHR ''u'', a, b, c, d] (scan_string InStr t)"
  by (simp add: scan_u scan_hex4[OF assms])

lemma hex_letters: "is_hex CHR ''0''" "is_hex CHR ''2''" "is_hex CHR ''f''" "is_hex CHR ''d''"
  by (simp_all add: is_hex_def is_digit_def byte_def)

text \<open>The cases of \<open>esc_chunk\<close>: a two-byte escape, a four-digit escape, or the bytes themselves.\<close>

lemma esc_chunk_cases:
  assumes "text_chunk (r, w)"
  obtains (short) e where "e \<in> {CHR ''b'', CHR ''f'', CHR ''n'', CHR ''r'', CHR ''t'', backslash, quote_char}"
      "esc_chunk (r, w) = [backslash, e]" "w = escape_char e"
  | (low) "r < 0x80" "w = [char_of r]"
      "esc_chunk (r, w) = [backslash, CHR ''u'', CHR ''0'', CHR ''0'', hex_digit (r div 16), hex_digit (r mod 16)]"
  | (bad) "\<not> good_chunk (r, w)" "esc_chunk (r, w) = backslash # ''ufffd''"
  | (sep) "good_chunk (r, w)" "r = 0x2028 \<or> r = 0x2029" "esc_chunk (r, w) = backslash # ''u202'' @ [hex_digit (r mod 16)]"
  | (plain) "good_chunk (r, w)" "esc_chunk (r, w) = w" "list_all plain_char w" "r \<noteq> byte backslash"
      "r \<notin> {60, 62, 38, 0x2028, 0x2029}"
proof (cases "good_chunk (r, w)")
  case False
  then have "r = rune_error" "length w = 1" using assms by (simp_all add: text_chunk_def)
  then have "esc_chunk (r, w) = backslash # ''ufffd''" by (simp add: esc_chunk_def rune_error_def)
  with False show thesis by (rule bad)
next
  case good: True
  from good show thesis
  proof (cases rule: good_chunk_cases)
    case (ascii c)
    have c: "w = [c]" "c = char_of r" "r < 0x80" using ascii by simp_all
    consider (q) "r = 34 \<or> r = 92" | (ctl) e where "(r, e) \<in> {(8, CHR ''b''), (12, CHR ''f''), (10, CHR ''n''), (13, CHR ''r''), (9, CHR ''t'')}"
      | (hex) "r \<notin> {34, 92, 8, 12, 10, 13, 9}" "r < 0x20 \<or> r = byte CHR ''<'' \<or> r = byte CHR ''>'' \<or> r = byte CHR ''&''"
      | (other) "r \<notin> {34, 92, 8, 12, 10, 13, 9}" "\<not> (r < 0x20 \<or> r = byte CHR ''<'' \<or> r = byte CHR ''>'' \<or> r = byte CHR ''&'')"
      by blast
    then show thesis
    proof cases
      case q
      then have "c \<in> {backslash, quote_char}" using ascii(3) byte_inj[of c quote_char] byte_inj[of c backslash] by auto
      moreover have "esc_chunk (r, w) = [backslash, c]" using q c by (auto simp: esc_chunk_def)
      ultimately show thesis using c(1) by (intro short[of c]) (auto simp: escape_char_def backslash_def quote_char_def)
    next
      case ctl
      then have "esc_chunk (r, w) = [backslash, e]" by (auto simp: esc_chunk_def)
      moreover have "byte c = byte (hd (escape_char e))" "escape_char e = [hd (escape_char e)]"
        using ctl ascii(3) by (auto simp: escape_char_def quote_char_def backslash_def)
      then have "w = escape_char e" unfolding byte_inj using c(1) by simp
      ultimately show thesis using ctl by (intro short[of e]) auto
    next
      case hex
      then show thesis using c by (intro low) (auto simp: esc_chunk_def)
    next
      case other
      then have "esc_chunk (r, w) = w" using c by (auto simp: esc_chunk_def rune_error_def)
      moreover have "plain_char c" using other ascii(3) by (auto simp: plain_char_def)
      ultimately show thesis using good c(1,3) other by (intro plain) auto
    qed
  next
    case multi
    have r: "0x80 \<le> r" by (rule good_multi_rune[OF good multi(1)])
    show thesis
    proof (cases "r = 0x2028 \<or> r = 0x2029")
      case True
      then have "esc_chunk (r, w) = backslash # ''u202'' @ [hex_digit (r mod 16)]"
        by (auto simp: esc_chunk_def rune_error_def)
      then show thesis using good True by (intro sep)
    next
      case False
      then have "esc_chunk (r, w) = w" using r multi(1) by (auto simp: esc_chunk_def)
      moreover have "plain_char x" if "x \<in> set w" for x
        using multi_high[OF good multi(1) that] by (auto simp: plain_char_def)
      then have "list_all plain_char w" by (simp add: list_all_iff)
      ultimately show thesis using good r False by (intro plain) simp_all
    qed
  qed
qed

lemma scan_esc_chunk:
  assumes "text_chunk (r, w)"
  shows "scan_string InStr (esc_chunk (r, w) @ t) = prepend (esc_chunk (r, w)) (scan_string InStr t)"
  using assms
proof (cases rule: esc_chunk_cases)
  case (short e)
  then show ?thesis using scan_short[of e t] by simp
next
  case low
  then show ?thesis by (simp add: scan_escape4 hex_letters is_hex_digit)
next
  case bad
  then show ?thesis by (simp add: scan_escape4 hex_letters)
next
  case sep
  then show ?thesis by (simp add: scan_escape4 hex_letters is_hex_digit)
next
  case plain
  then show ?thesis by (simp add: scan_plain)
qed

lemma scan_escape: "scan_string InStr (escape s @ quote_char # r) = Some (escape s, r)"
proof -
  have "scan_string InStr (concat (map esc_chunk cs) @ quote_char # r) = Some (concat (map esc_chunk cs), r)"
    if "\<forall>c \<in> set cs. text_chunk c" for cs
    using that
  proof (induction cs)
    case Nil
    then show ?case by simp
  next
    case (Cons c cs)
    then show ?case by (cases c) (simp add: scan_esc_chunk)
  qed
  then show ?thesis using chunks_text unfolding escape_def by blast
qed

lemma unquote_chunk:
  assumes "good_chunk (r, w)" and "r \<noteq> byte backslash"
  shows "unquote (w @ t) = w @ unquote t"
proof -
  have w: "w \<noteq> []" and nb: "\<not> bad_rune w" and d: "decode_rune w = (r, length w)"
    using assms(1) by (auto simp: good_chunk_def)
  then obtain c u where cu: "w = c # u" by (cases w) auto
  have c: "c \<noteq> backslash"
  proof
    assume "c = backslash"
    then have "decode_rune w = (byte backslash, 1)" using cu by simp
    then show False using d assms(2) by simp
  qed
  have dec: "decode_rune (c # u @ t) = (r, length w)" using good_chunk_append[OF assms(1), of t] cu by simp
  have "\<not> bad_rune (c # u @ t)" using dec nb d by (simp add: bad_rune_def)
  then show ?thesis using c dec cu by (simp add: unquote.simps(2))
qed

lemma unquote_u:
  assumes "hex4 (take 4 t) < 0xD800" and "4 \<le> length t"
  shows "unquote (backslash # CHR ''u'' # t) = encode_rune (hex4 t) @ unquote (drop 4 t)"
proof -
  have h: "hex4 t < 0xD800" using assms(1) by (simp add: hex4_def)
  then show ?thesis by (simp add: unquote.simps(2) pair_behind_def utf16_pair_def)
qed

lemma unquote_short:
  "e \<noteq> CHR ''u'' \<Longrightarrow> unquote (backslash # e # t) = escape_char e @ unquote t"
  by (simp add: unquote.simps(2))

lemma unquote_esc_chunk:
  assumes "good_chunk (r, w)"
  shows "unquote (esc_chunk (r, w) @ t) = w @ unquote t"
proof -
  have "text_chunk (r, w)" using assms by (simp add: text_chunk_def)
  then show ?thesis
  proof (cases rule: esc_chunk_cases)
    case (short e)
    then have "e \<noteq> CHR ''u''" by (auto simp: quote_char_def backslash_def)
    then show ?thesis using short unquote_short[of e t] by simp
  next
    case low
    have d: "r div 16 < 16" "r mod 16 < 16" using low(1) by simp_all
    have "hex_value CHR ''0'' = 0" by (simp add: hex_value_def is_digit_def byte_def)
    then have h: "hex4 (CHR ''0'' # CHR ''0'' # hex_digit (r div 16) # hex_digit (r mod 16) # u) = r" for u
      using d by (simp add: hex4_def hex_value_digit)
    have "encode_rune r = w" using low by (simp add: encode_rune_def)
    then show ?thesis using low unquote_u[of "CHR ''0'' # CHR ''0'' # hex_digit (r div 16) # hex_digit (r mod 16) # t"]
      by (simp add: h)
  next
    case bad
    then show ?thesis using assms by simp
  next
    case sep
    have v: "hex_value CHR ''0'' = 0" "hex_value CHR ''2'' = 2" by (simp_all add: hex_value_def is_digit_def byte_def)
    have m: "r mod 16 < 16" by simp
    have h: "hex4 (CHR ''2'' # CHR ''0'' # CHR ''2'' # hex_digit (r mod 16) # u) = r" for u
      using sep(2) by (auto simp: hex4_def v hex_value_digit)
    show ?thesis using sep unquote_u[of "CHR ''2'' # CHR ''0'' # CHR ''2'' # hex_digit (r mod 16) # t"] encode_rune_good[OF assms]
      by (auto simp: h)
  next
    case plain
    then show ?thesis using unquote_chunk[OF assms] by simp
  qed
qed

lemma unquote_escape:
  assumes "valid_utf8 s"
  shows "unquote (escape s) = s"
proof -
  have "unquote (concat (map esc_chunk cs)) = bytes_of cs" if "\<forall>c \<in> set cs. good_chunk c" for cs
    using that
  proof (induction cs)
    case Nil
    then show ?case by simp
  next
    case (Cons c cs)
    then show ?case by (cases c) (simp add: unquote_esc_chunk)
  qed
  then show ?thesis using assms unfolding escape_def valid_chunks by simp
qed

section \<open>Numbers\<close>

definition num_stop :: "string \<Rightarrow> bool" where
  "num_stop t \<longleftrightarrow> (case t of [] \<Rightarrow> True | c # u \<Rightarrow> \<not> is_digit c \<and> c \<noteq> CHR ''.'' \<and> c \<noteq> CHR ''e'' \<and> c \<noteq> CHR ''E'')"

lemma digits_append:
  assumes "digits s = Some (d, r)" and "num_stop t"
  shows "digits (s @ t) = Some (d, r @ t)"
proof -
  have d: "takeWhile is_digit s = d" "dropWhile is_digit s = r" "d \<noteq> []" using assms(1) by (auto simp: digits_def split: if_splits)
  have t: "takeWhile is_digit t = []" "dropWhile is_digit t = t" using assms(2) by (auto simp: num_stop_def split: list.splits)
  have "takeWhile is_digit (s @ t) = d \<and> dropWhile is_digit (s @ t) = r @ t"
  proof (cases "r = []")
    case True
    then have "\<forall>x \<in> set s. is_digit x" using d(2) by simp
    moreover have "d = s" using d(1,2) True by (metis append_Nil2 takeWhile_dropWhile_id)
    ultimately show ?thesis using True t by (simp add: takeWhile_append dropWhile_append)
  next
    case False
    then have "\<not> (\<forall>x \<in> set s. is_digit x)" using d(2) by auto
    then show ?thesis using d by (auto simp: takeWhile_append dropWhile_append)
  qed
  then show ?thesis using d(3) by (simp add: digits_def)
qed

lemma scan_int_append: "scan_int s = Some (d, r) \<Longrightarrow> num_stop t \<Longrightarrow> scan_int (s @ t) = Some (d, r @ t)"
  using digits_append[of s d r t] by (auto simp: scan_int_def split: list.splits if_splits)

lemma scan_frac_append: "scan_frac s = Some (d, r) \<Longrightarrow> num_stop t \<Longrightarrow> scan_frac (s @ t) = Some (d, r @ t)"
  by (cases s) (auto simp: scan_frac_def num_stop_def digits_append split: list.splits if_splits)

lemma scan_exp_append:
  assumes "scan_exp s = Some (d, r)" and "num_stop t"
  shows "scan_exp (s @ t) = Some (d, r @ t)"
proof (cases s)
  case Nil
  then show ?thesis using assms by (auto simp: scan_exp_def num_stop_def split: list.splits)
next
  case (Cons c u)
  show ?thesis
  proof (cases u)
    case Nil
    then show ?thesis using assms Cons by (auto simp: scan_exp_def digits_def split: if_splits)
  next
    case (Cons x v)
    then show ?thesis using assms \<open>s = c # u\<close> digits_append[of v _ r t] digits_append[of u _ r t]
      by (auto simp: scan_exp_def split: if_splits)
  qed
qed

definition num_ok :: "string \<Rightarrow> bool" where
  "num_ok n \<longleftrightarrow> scan_number n = Some (n, [])"

lemma scan_number_append:
  assumes "scan_number s = Some (n, r)" and "num_stop t"
  shows "scan_number (s @ t) = Some (n, r @ t)"
proof -
  obtain sg s1 where 1: "scan_sign s = (sg, s1)" by (cases "scan_sign s")
  from assms(1) 1 obtain i s2 f s3 e where p: "scan_int s1 = Some (i, s2)" "scan_frac s2 = Some (f, s3)" "scan_exp s3 = Some (e, r)"
    "n = sg @ i @ f @ e" by (auto simp: scan_number_def split: option.splits)
  have "s1 \<noteq> []" using p(1) by (auto simp: scan_int_def)
  then have "scan_sign (s @ t) = (sg, s1 @ t)" using 1 by (auto simp: scan_sign_def split: list.splits if_splits)
  then show ?thesis
    using p(4) scan_int_append[OF p(1) assms(2)] scan_frac_append[OF p(2) assms(2)] scan_exp_append[OF p(3) assms(2)]
    by (simp add: scan_number_def)
qed

lemma num_ok_first: "num_ok n \<Longrightarrow> \<exists>c u. n = c # u \<and> (c = CHR ''-'' \<or> is_digit c)"
proof -
  assume "num_ok n"
  then obtain i s2 sg s1 where s: "scan_sign n = (sg, s1)" and i: "scan_int s1 = Some (i, s2)"
    by (auto simp: num_ok_def scan_number_def split: option.splits prod.splits)
  have "s1 \<noteq> [] \<and> is_digit (hd s1)"
    using i by (auto simp: scan_int_def digits_def is_digit_def byte_def split: list.splits if_splits)
  then show ?thesis using s by (cases n) (auto simp: scan_sign_def split: if_splits)
qed

lemma scan_number_ok: "num_ok n \<Longrightarrow> num_stop t \<Longrightarrow> scan_number (n @ t) = Some (n, t)"
  using scan_number_append[of n n "[]" t] by (simp add: num_ok_def)

lemma decimal_all_digits: "list_all is_digit (decimal n)"
  using decimal_digits by (auto simp: list_all_iff is_digit_def)

lemma decimal_lead: "0 < n \<Longrightarrow> \<exists>c t. decimal n = c # t \<and> c \<noteq> CHR ''0''"
proof (induction n rule: decimal.induct)
  case (1 n)
  show ?case
  proof (cases "n < 10")
    case True
    have "digit n \<noteq> CHR ''0''"
    proof
      assume "digit n = CHR ''0''"
      then have "byte (digit n) = 48" by (simp add: byte_def)
      then show False using byte_digit[OF True] 1(2) by simp
    qed
    then show ?thesis using True by (simp add: decimal.simps[of n])
  next
    case False
    then have "0 < n div 10" by (simp add: div_greater_zero_iff)
    from 1(1)[OF False this] False show ?thesis by (auto simp: decimal.simps[of n])
  qed
qed

lemma digits_all: "list_all is_digit s \<Longrightarrow> s \<noteq> [] \<Longrightarrow> digits s = Some (s, [])"
proof -
  assume a: "list_all is_digit s" "s \<noteq> []"
  then have "takeWhile is_digit s = s" "dropWhile is_digit s = []" by (simp_all add: list_all_iff)
  then show ?thesis using a(2) by (simp only: digits_def) simp
qed

lemma scan_int_decimal: "scan_int (decimal n) = Some (decimal n, [])"
proof (cases "n = 0")
  case True
  have "digit 0 = CHR ''0''" by (simp add: byte_inj[symmetric] byte_digit) (simp add: byte_def)
  then have "decimal n = [CHR ''0'']" using True by (simp add: decimal.simps)
  then show ?thesis by (simp add: scan_int_def)
next
  case False
  then obtain c t where "decimal n = c # t" "c \<noteq> CHR ''0''" using decimal_lead by blast
  then show ?thesis using digits_all[OF decimal_all_digits[of n]] by (simp add: scan_int_def)
qed

lemma decimal_no_minus: "decimal n \<noteq> CHR ''-'' # t"
  using decimal_all_digits[of n] by (auto simp: is_digit_def byte_def)

lemma scan_sign_decimal: "scan_sign (decimal n) = ([], decimal n)"
  using decimal_no_minus[of n] by (auto simp: scan_sign_def split: list.splits)

definition int_text :: "int \<Rightarrow> string" where
  "int_text i = (if i < 0 then CHR ''-'' # decimal (nat (- i)) else decimal (nat i))"

lemma json_of_int_text: "json_of_int i = JNum (int_text i)"
  by (simp add: json_of_int_def int_text_def)

lemma int_text_ok: "num_ok (int_text i)"
proof -
  have e: "scan_frac [] = Some ([], [])" "scan_exp [] = Some ([], [])" by (simp_all add: scan_frac_def scan_exp_def)
  have "scan_sign (CHR ''-'' # t) = (''-'', t)" for t by (simp add: scan_sign_def)
  then show ?thesis by (simp add: num_ok_def int_text_def scan_number_def scan_sign_decimal scan_int_decimal e)
qed

lemma json_int_text: "- (2 ^ 63) \<le> i \<Longrightarrow> i < 2 ^ 63 \<Longrightarrow> json_int (int_text i) = Some i"
  by (simp add: json_int_def int_text_def scan_sign_decimal decimal_all_digits Let_def)
    (simp add: scan_sign_def decimal_all_digits)

section \<open>A tree's text reads back\<close>

definition body_ok :: "string \<Rightarrow> bool" where
  "body_ok b \<longleftrightarrow> scan_string InStr (b @ [quote_char]) = Some (b, [])"

lemma scan_string_append: "scan_string st s = Some (b, r) \<Longrightarrow> scan_string st (s @ t) = Some (b, r @ t)"
  by (induction st s arbitrary: b r rule: scan_string.induct)
    (fastforce simp: scan_string.simps(2) split: if_splits option.splits)+

lemma scan_body: "body_ok b \<Longrightarrow> scan_string InStr (b @ quote_char # t) = Some (b, t)"
  using scan_string_append[of InStr "b @ [quote_char]" b "[]" t] by (simp add: body_ok_def)

lemma body_ok_escape [simp]: "body_ok (escape s)"
  by (simp add: body_ok_def scan_escape)

fun json_ok :: "nat \<Rightarrow> json \<Rightarrow> bool" where
  "json_ok d (JNum n) = num_ok n"
| "json_ok d (JStr b) = body_ok b"
| "json_ok d (JArr js) = (d < max_depth \<and> (\<forall>j \<in> set js. json_ok (Suc d) j))"
| "json_ok d (JObj ms) = (d < max_depth \<and> (\<forall>m \<in> set ms. body_ok (fst m) \<and> json_ok (Suc d) (snd m)))"
| "json_ok d j = True"

text \<open>The first byte of a text decides the kind of the value.\<close>

lemma skip_ws_stay: "\<not> json_space c \<Longrightarrow> skip_ws (c # t) = c # t"
  by (simp add: skip_ws_def)

lemma expect_char: "\<not> json_space x \<Longrightarrow> expect c (x # t) = (if x = c then Some t else None)"
  by (simp add: expect_def skip_ws_stay)

lemma not_space [simp]: "\<not> json_space CHR ''{''" "\<not> json_space CHR ''}''" "\<not> json_space CHR ''[''" "\<not> json_space CHR '']''"
  "\<not> json_space CHR '',''" "\<not> json_space CHR '':''" "\<not> json_space CHR ''-''" "\<not> json_space quote_char"
  "\<not> json_space CHR ''n''" "\<not> json_space CHR ''t''" "\<not> json_space CHR ''f''"
  by (simp_all add: json_space_def byte_def quote_char_def)

lemma digit_not_space: "is_digit c \<Longrightarrow> \<not> json_space c"
  by (auto simp: is_digit_def json_space_def)

lemma json_text_first:
  assumes "json_ok d j"
  obtains c u where "json_text j = c # u" "\<not> json_space c" "c \<noteq> CHR ''}''" "c \<noteq> CHR '']''"
proof -
  have "\<exists>c u. json_text j = c # u \<and> \<not> json_space c \<and> c \<noteq> CHR ''}'' \<and> c \<noteq> CHR '']''"
  proof (cases j)
    case (JNum n)
    then obtain c u where n: "n = c # u" "c = CHR ''-'' \<or> is_digit c" using assms num_ok_first[of n] by auto
    then have "\<not> json_space c \<and> c \<noteq> CHR ''}'' \<and> c \<noteq> CHR '']''" using digit_not_space by (auto simp: is_digit_def byte_def)
    then show ?thesis using JNum n(1) by simp
  next
    case (JStr b)
    then show ?thesis by simp (simp add: quote_char_def)
  qed simp_all
  then show thesis using that by blast
qed

lemma parse_scalar_text:
  assumes "json_ok d j" and "num_stop t" and "\<not> (\<exists>js. j = JArr js)" and "\<not> (\<exists>ms. j = JObj ms)"
  shows "expect CHR ''{'' (json_text j @ t) = None" and "expect CHR ''['' (json_text j @ t) = None"
    and "parse_scalar (skip_ws (json_text j @ t)) = Some (j, t)"
proof -
  have "expect CHR ''{'' (json_text j @ t) = None \<and> expect CHR ''['' (json_text j @ t) = None \<and>
    parse_scalar (skip_ws (json_text j @ t)) = Some (j, t)"
  proof (cases j)
    case (JNum n)
    then have ok: "num_ok n" using assms(1) by simp
    from num_ok_first[OF this] obtain c u where n: "n = c # u" "c = CHR ''-'' \<or> is_digit c" by blast
    have "\<not> json_space c" "c \<noteq> CHR ''{''" "c \<noteq> CHR ''[''" "c \<noteq> quote_char" "c \<noteq> CHR ''n''" "c \<noteq> CHR ''t''" "c \<noteq> CHR ''f''"
      using n(2) digit_not_space by (auto simp: is_digit_def byte_def quote_char_def)
    then show ?thesis using n(1) JNum scan_number_ok[OF ok assms(2)]
      by (simp add: expect_char skip_ws_stay parse_scalar_def has_prefix_def)
  next
    case (JStr b)
    then have "scan_string InStr (b @ quote_char # t) = Some (b, t)" using assms(1) by (simp add: scan_body)
    then show ?thesis using JStr by (simp add: expect_char skip_ws_stay parse_scalar_def has_prefix_def) (simp add: quote_char_def)
  qed (use assms(3,4) in \<open>auto simp: expect_char skip_ws_stay parse_scalar_def has_prefix_def quote_char_def\<close>)
  then show "expect CHR ''{'' (json_text j @ t) = None" "expect CHR ''['' (json_text j @ t) = None"
    "parse_scalar (skip_ws (json_text j @ t)) = Some (j, t)" by blast+
qed

lemma num_stop_simps [simp]: "num_stop []" "num_stop (CHR '','' # t)" "num_stop (CHR '']'' # t)" "num_stop (CHR ''}'' # t)"
  by (simp_all add: num_stop_def is_digit_def byte_def)

lemma next_sep_simps [simp]:
  "next_sep c (CHR '','' # t) = Some (True, t)" "c \<noteq> CHR '','' \<Longrightarrow> \<not> json_space c \<Longrightarrow> next_sep c (c # t) = Some (False, t)"
  by (simp_all add: next_sep_def skip_ws_stay)

lemma commas_Cons: "commas (s # ss) = (if ss = [] then s else s @ CHR '','' # commas ss)"
  by (cases ss) simp_all

definition reads_back :: "json \<Rightarrow> bool" where
  "reads_back j \<longleftrightarrow> (\<forall>d t f. json_ok d j \<longrightarrow> num_stop t \<longrightarrow> 2 * length (json_text j @ t) < f \<longrightarrow>
     parse_value f d (json_text j @ t) = Some (j, t))"

lemma parse_elems_text:
  assumes "\<forall>j \<in> set js. json_ok d j \<and> reads_back j" and "js \<noteq> []"
    and "2 * length (commas (map json_text js) @ CHR '']'' # t) + 1 < f"
  shows "parse_elems f d (commas (map json_text js) @ CHR '']'' # t) = Some (js, t)"
  using assms
proof (induction js arbitrary: f)
  case Nil
  then show ?case by simp
next
  case (Cons j js)
  obtain g where f: "f = Suc g" using Cons.prems(3) by (cases f) simp_all
  show ?case
  proof (cases "js = []")
    case True
    then have "parse_value g d (json_text j @ CHR '']'' # t) = Some (j, CHR '']'' # t)"
      using Cons.prems f unfolding reads_back_def by simp
    then show ?thesis using True by (simp add: f parse_elems.simps(2))
  next
    case False
    let ?rest = "commas (map json_text js) @ CHR '']'' # t"
    have "parse_value g d (json_text j @ CHR '','' # ?rest) = Some (j, CHR '','' # ?rest)"
      using Cons.prems f False unfolding reads_back_def by (simp add: commas_Cons)
    moreover have "parse_elems g d ?rest = Some (js, t)"
      using Cons.prems f False by (intro Cons.IH) (simp_all add: commas_Cons)
    ultimately show ?thesis using False by (simp add: f parse_elems.simps(2) commas_Cons)
  qed
qed

abbreviation member_text :: "string \<times> json \<Rightarrow> string" where
  "member_text m \<equiv> (case m of (k, j) \<Rightarrow> quote_char # k @ [quote_char, CHR '':''] @ json_text j)"

lemma parse_members_text:
  assumes "\<forall>m \<in> set ms. body_ok (fst m) \<and> json_ok d (snd m) \<and> reads_back (snd m)" and "ms \<noteq> []"
    and "2 * length (commas (map member_text ms) @ CHR ''}'' # t) + 1 < f"
  shows "parse_members f d (commas (map member_text ms) @ CHR ''}'' # t) = Some (ms, t)"
  using assms
proof (induction ms arbitrary: f)
  case Nil
  then show ?case by simp
next
  case (Cons m ms)
  obtain g where f: "f = Suc g" using Cons.prems(3) by (cases f) simp_all
  obtain k j where m: "m = (k, j)" by (cases m)
  have b: "body_ok k" using Cons.prems(1) m by simp
  show ?case
  proof (cases "ms = []")
    case True
    then have "parse_value g d (json_text j @ CHR ''}'' # t) = Some (j, CHR ''}'' # t)"
      using Cons.prems f m unfolding reads_back_def by simp
    then show ?thesis using True m b by (simp add: f parse_members.simps(2) expect_char scan_body)
  next
    case False
    let ?rest = "commas (map member_text ms) @ CHR ''}'' # t"
    have "parse_value g d (json_text j @ CHR '','' # ?rest) = Some (j, CHR '','' # ?rest)"
      using Cons.prems f False m unfolding reads_back_def by (simp add: commas_Cons)
    moreover have "parse_members g d ?rest = Some (ms, t)"
      using Cons.prems f False m by (intro Cons.IH) (simp_all add: commas_Cons)
    ultimately show ?thesis using False m b by (simp add: f parse_members.simps(2) commas_Cons expect_char scan_body)
  qed
qed

lemma parse_value_scalar:
  assumes "json_ok d j" and "num_stop t" and "2 * length (json_text j @ t) < f"
    and "\<not> (\<exists>js. j = JArr js)" and "\<not> (\<exists>ms. j = JObj ms)"
  shows "parse_value f d (json_text j @ t) = Some (j, t)"
proof -
  obtain g where f: "f = Suc g" using assms(3) by (cases f) simp_all
  show ?thesis unfolding f parse_value.simps(2) parse_scalar_text(1,2)[OF assms(1,2,4,5)] option.case
    by (rule parse_scalar_text(3)[OF assms(1,2,4,5)])
qed

lemma json_reads_back: "reads_back j"
proof (induction j)
  case (JArr js)
  show ?case unfolding reads_back_def
  proof (intro allI impI)
    fix d t f assume ok: "json_ok d (JArr js)" and n: "num_stop t" and f: "2 * length (json_text (JArr js) @ t) < f"
    then obtain g where g: "f = Suc g" by (cases f) simp_all
    show "parse_value f d (json_text (JArr js) @ t) = Some (JArr js, t)"
    proof (cases js)
      case Nil
      then show ?thesis using ok by (simp add: g parse_value.simps(2) expect_char)
    next
      case (Cons j0 rest)
      let ?s = "commas (map json_text js) @ CHR '']'' # t"
      have e: "\<forall>j \<in> set js. json_ok (Suc d) j \<and> reads_back j" using ok JArr by simp
      have p: "parse_elems g (Suc d) ?s = Some (js, t)"
        using f g Cons by (intro parse_elems_text[OF e]) simp_all
      obtain c u where c: "json_text j0 = c # u" "\<not> json_space c" "c \<noteq> CHR '']''"
        using e Cons by (auto elim: json_text_first)
      have "expect CHR '']'' ?s = None" using Cons c by (simp add: commas_Cons expect_char)
      then show ?thesis using ok p by (simp add: g parse_value.simps(2) expect_char)
    qed
  qed
next
  case (JObj ms)
  show ?case unfolding reads_back_def
  proof (intro allI impI)
    fix d t f assume ok: "json_ok d (JObj ms)" and n: "num_stop t" and f: "2 * length (json_text (JObj ms) @ t) < f"
    then obtain g where g: "f = Suc g" by (cases f) simp_all
    show "parse_value f d (json_text (JObj ms) @ t) = Some (JObj ms, t)"
    proof (cases ms)
      case Nil
      then show ?thesis using ok by (simp add: g parse_value.simps(2) expect_char)
    next
      case (Cons m rest)
      let ?s = "commas (map member_text ms) @ CHR ''}'' # t"
      have e: "\<forall>m \<in> set ms. body_ok (fst m) \<and> json_ok (Suc d) (snd m) \<and> reads_back (snd m)"
        using ok JObj by (auto intro: snds.intros)
      have p: "parse_members g (Suc d) ?s = Some (ms, t)"
        using f g Cons by (intro parse_members_text[OF e]) simp_all
      have "expect CHR ''}'' ?s = None" using Cons by (cases m) (simp add: commas_Cons expect_char, simp add: quote_char_def)
      then show ?thesis using ok p by (simp add: g parse_value.simps(2) expect_char)
    qed
  qed
qed (simp_all only: reads_back_def, (blast intro: parse_value_scalar)+)

lemma json_text_read:
  assumes "json_ok 0 j" and "num_stop t"
  shows "json_read (json_text j @ t) = Some (j, t)"
  using json_reads_back[of j] assms unfolding reads_back_def json_read_def by simp

lemma json_text_parse:
  assumes "json_ok 0 j"
  shows "json_parse (json_text j) = Some j"
  using json_text_read[OF assms, of "[]"] unfolding json_parse_def by (simp add: skip_ws_def)

end
