(* ===== verification/Go_Json_Struct.thy ===== *)
theory Go_Json_Struct
  imports Go_Json_Facts
begin

text \<open>
  Decoding of JSON trees into Go values as encoding/json does it.  A decoder takes the present value of its target:
  \<open>null\<close> leaves it alone, the members of an object are stored one after the other, a later one over an earlier one,
  and a field is found by its exact name first and then without regard to case.  \<open>None\<close> is a decoding error.
\<close>

type_synonym 'a decoder = "'a \<Rightarrow> json \<Rightarrow> 'a option"

definition dec_string :: "string decoder" where
  "dec_string old j = (case j of JStr b \<Rightarrow> Some (unquote b) | JNull \<Rightarrow> Some old | _ \<Rightarrow> None)"

definition dec_int :: "int decoder" where
  "dec_int old j = (case j of JNum n \<Rightarrow> json_int n | JNull \<Rightarrow> Some old | _ \<Rightarrow> None)"

definition dec_bool :: "bool decoder" where
  "dec_bool old j = (case j of JBool b \<Rightarrow> Some b | JNull \<Rightarrow> Some old | _ \<Rightarrow> None)"

text \<open>A \<open>json.RawMessage\<close> keeps the bytes of the value, here without the blank space between its tokens.\<close>

definition dec_raw :: "string decoder" where
  "dec_raw old j = Some (json_text j)"

text \<open>A pointer: \<open>null\<close> makes it nil, another value is decoded into what it points to or into a new zero value.\<close>

definition dec_pointer :: "'a \<Rightarrow> 'a decoder \<Rightarrow> 'a option decoder" where
  "dec_pointer zero dec old j =
     (if j = JNull then Some None else map_option Some (dec (case old of None \<Rightarrow> zero | Some x \<Rightarrow> x) j))"

text \<open>A slice, \<open>None\<close> for nil: elements already there are decoded into, further ones start from the zero value.\<close>

fun dec_elems :: "'a \<Rightarrow> 'a decoder \<Rightarrow> 'a list \<Rightarrow> json list \<Rightarrow> 'a list option" where
  "dec_elems zero dec old [] = Some []"
| "dec_elems zero dec old (j # js) =
     Option.bind (dec (case old of [] \<Rightarrow> zero | x # _ \<Rightarrow> x) j) (\<lambda>x.
       map_option ((#) x) (dec_elems zero dec (case old of [] \<Rightarrow> [] | _ # t \<Rightarrow> t) js))"

definition dec_slice :: "'a \<Rightarrow> 'a decoder \<Rightarrow> 'a list option decoder" where
  "dec_slice zero dec old j =
     (case j of JArr js \<Rightarrow> map_option Some (dec_elems zero dec (case old of None \<Rightarrow> [] | Some xs \<Rightarrow> xs) js)
      | JNull \<Rightarrow> Some None | _ \<Rightarrow> None)"

text \<open>Field names: \<open>foldName\<close> maps each rune to the smallest one of its case orbit; for ASCII names only these matter.\<close>

definition fold_rune :: "nat \<Rightarrow> nat" where
  "fold_rune r = (if 97 \<le> r \<and> r \<le> 122 then r - 32 else if r = 0x212A then 75 else if r = 0x17F then 83 else r)"

definition fold_name :: "string \<Rightarrow> nat list" where
  "fold_name s = map fold_rune (runes s)"

type_synonym 'r field = "string \<times> 'r decoder"

definition find_field :: "'r field list \<Rightarrow> string \<Rightarrow> 'r field option" where
  "find_field fs k =
     (case find (\<lambda>f. fst f = k) fs of Some f \<Rightarrow> Some f | None \<Rightarrow> find (\<lambda>f. fold_name (fst f) = fold_name k) fs)"

definition field :: "string \<Rightarrow> ('r \<Rightarrow> 'a) \<Rightarrow> ('a \<Rightarrow> 'r \<Rightarrow> 'r) \<Rightarrow> 'a decoder \<Rightarrow> 'r field" where
  "field name get put dec = (name, \<lambda>r j. map_option (\<lambda>v. put v r) (dec (get r) j))"

fun dec_members :: "bool \<Rightarrow> 'r field list \<Rightarrow> 'r \<Rightarrow> (string \<times> json) list \<Rightarrow> 'r option" where
  "dec_members strict fs r [] = Some r"
| "dec_members strict fs r ((k, j) # ms) =
     (case find_field fs (unquote k) of
        Some f \<Rightarrow> Option.bind (snd f r j) (\<lambda>r'. dec_members strict fs r' ms)
      | None \<Rightarrow> if strict then None else dec_members strict fs r ms)"

definition dec_struct :: "bool \<Rightarrow> 'r field list \<Rightarrow> 'r decoder" where
  "dec_struct strict fs r j =
     (case j of JObj ms \<Rightarrow> dec_members strict fs r ms | JNull \<Rightarrow> Some r | _ \<Rightarrow> None)"

text \<open>A \<open>map[string]V\<close>: the last member of a name counts; as an association list, the newest entry first.\<close>

fun dec_map_members :: "(json \<Rightarrow> 'v option) \<Rightarrow> (string \<times> 'v) list \<Rightarrow> (string \<times> json) list \<Rightarrow> (string \<times> 'v) list option" where
  "dec_map_members dec m [] = Some m"
| "dec_map_members dec m ((k, j) # ms) =
     Option.bind (dec j) (\<lambda>v. dec_map_members dec ((unquote k, v) # filter (\<lambda>e. fst e \<noteq> unquote k) m) ms)"

definition dec_map :: "(json \<Rightarrow> 'v option) \<Rightarrow> (string \<times> 'v) list decoder" where
  "dec_map dec m j = (case j of JObj ms \<Rightarrow> dec_map_members dec m ms | JNull \<Rightarrow> Some [] | _ \<Rightarrow> None)"

text \<open>\<open>Marshal\<close> of a struct writes its fields in order, of a map its members sorted by key.\<close>

definition obj :: "(string \<times> json) list \<Rightarrow> json" where
  "obj ms = JObj (map (\<lambda>(k, j). (escape k, j)) ms)"

definition obj_sorted :: "(string \<times> json) list \<Rightarrow> json" where
  "obj_sorted m = obj (sort_key fst m)"

section \<open>Decoding what was encoded\<close>

lemma dec_string_str [simp]: "valid_utf8 s \<Longrightarrow> dec_string old (json_str s) = Some s"
  by (simp add: dec_string_def json_str_def unquote_escape)

lemma dec_int_of_int [simp]: "- (2 ^ 63) \<le> i \<Longrightarrow> i < 2 ^ 63 \<Longrightarrow> dec_int old (json_of_int i) = Some i"
  by (simp add: dec_int_def json_of_int_text json_int_text)

lemma dec_bool_of [simp]: "dec_bool old (JBool b) = Some b"
  by (simp add: dec_bool_def)

lemma json_ok_simps [simp]: "json_ok d (json_str s)" "json_ok d (json_of_int i)"
  by (simp_all add: json_str_def json_of_int_text int_text_ok)

lemma json_ok_obj: "json_ok d (obj ms) \<longleftrightarrow> d < max_depth \<and> (\<forall>m \<in> set ms. json_ok (Suc d) (snd m))"
  by (auto simp: obj_def)

lemma max_depth_less [simp]: "n < 100 \<Longrightarrow> n < max_depth"
  by (simp add: max_depth_def)

lemma find_field_exact:
  assumes "find (\<lambda>f. fst f = k) fs = Some f"
  shows "find_field fs k = Some f"
  using assms by (simp add: find_field_def)

lemma dec_members_exact:
  assumes "valid_utf8 k" and "find (\<lambda>f. fst f = k) fs = Some f"
  shows "dec_members strict fs r ((escape k, j) # ms) = Option.bind (snd f r j) (\<lambda>r'. dec_members strict fs r' ms)"
  using assms by (simp add: find_field_exact unquote_escape)

lemma snd_field [simp]: "snd (field n g p d) r j = map_option (\<lambda>v. p v r) (d (g r) j)"
  by (simp add: field_def)

lemma fst_field [simp]: "fst (field n g p d) = n"
  by (simp add: field_def)

text \<open>What a decoded string can be: its bytes are UTF-8 whatever the input was.\<close>

lemma cont_mod: "b < 64 \<Longrightarrow> (128 + b) mod 64 = (b :: nat)"
  using mod_window[of 64 2 "128 + b"] by simp

lemma good_two:
  assumes "2 \<le> a" and "a < 32" and "b < 64"
  shows "good_chunk (a * 64 + b, [char_of (0xC0 + a), char_of (0x80 + b)])"
proof -
  have m: "(192 + a) mod 32 = a" using mod_window[of 32 6 "192 + a"] assms by simp
  have li: "lead_info (192 + a) = Some (2, 0x80, 0xBF)" using assms by (simp add: lead_info_def)
  have "decode_rune [char_of (0xC0 + a), char_of (0x80 + b)] = (a * 64 + b, 2)"
    using assms by (simp add: decode_rune_def li m cont_bits_def cont_mod)
  then show ?thesis by (simp add: good_chunk_def bad_rune_def)
qed

lemma good_three:
  assumes "a < 16" and "b < 64" and "c < 64" and "a = 0 \<Longrightarrow> 32 \<le> b" and "a = 13 \<Longrightarrow> b < 32"
  shows "good_chunk (a * 4096 + b * 64 + c, [char_of (0xE0 + a), char_of (0x80 + b), char_of (0x80 + c)])"
proof -
  have m: "(224 + a) mod 16 = a" using mod_window[of 16 14 "224 + a"] assms by simp
  obtain lo hi where li: "lead_info (224 + a) = Some (3, lo, hi)" "lo \<le> 128 + b" "128 + b \<le> hi"
    using assms by (cases "a = 0"; cases "a = 13") (auto simp: lead_info_def)
  have "decode_rune [char_of (0xE0 + a), char_of (0x80 + b), char_of (0x80 + c)] = (a * 4096 + b * 64 + c, 3)"
    using assms li by (simp add: decode_rune_def m cont_bits_def cont_mod is_cont_def)
  then show ?thesis by (simp add: good_chunk_def bad_rune_def)
qed

lemma good_four:
  assumes "a < 5" and "b < 64" and "c < 64" and "d < 64" and "a = 0 \<Longrightarrow> 16 \<le> b" and "a = 4 \<Longrightarrow> b < 16"
  shows "good_chunk (a * 262144 + b * 4096 + c * 64 + d,
    [char_of (0xF0 + a), char_of (0x80 + b), char_of (0x80 + c), char_of (0x80 + d)])"
proof -
  have m: "(240 + a) mod 8 = a" using mod_window[of 8 30 "240 + a"] assms by simp
  obtain lo hi where li: "lead_info (240 + a) = Some (4, lo, hi)" "lo \<le> 128 + b" "128 + b \<le> hi"
    using assms by (cases "a = 0"; cases "a = 4") (auto simp: lead_info_def)
  have "decode_rune [char_of (0xF0 + a), char_of (0x80 + b), char_of (0x80 + c), char_of (0x80 + d)] =
      (a * 262144 + b * 4096 + c * 64 + d, 4)"
    using assms li by (simp add: decode_rune_def m cont_bits_def cont_mod is_cont_def)
  then show ?thesis by (simp add: good_chunk_def bad_rune_def)
qed

lemma good_replacement: "good_chunk (rune_error, replacement)"
proof -
  have "replacement = [char_of (0xE0 + (15::nat)), char_of (0x80 + (63::nat)), char_of (0x80 + (61::nat))]"
    by (simp add: replacement_def byte_inj[symmetric] byte_def)
  then show ?thesis using good_three[of 15 63 61] by (simp add: rune_error_def)
qed

lemma good_encode: "\<exists>r'. good_chunk (r', encode_rune r)"
proof -
  consider "r < 0x80" | "0x80 \<le> r" "r < 0x800" | "r > 0x10FFFF \<or> (0xD800 \<le> r \<and> r \<le> 0xDFFF)"
    | "0x800 \<le> r" "r < 0x10000" "\<not> (0xD800 \<le> r \<and> r \<le> 0xDFFF)" | "0x10000 \<le> r" "r \<le> 0x10FFFF" by linarith
  then show ?thesis
  proof cases
    case 1
    then show ?thesis using ascii_good_chunk[of "char_of r"] by (auto simp: encode_rune_def)
  next
    case 2
    have "2 \<le> r div 64" "r div 64 < 32" using 2 by linarith+
    then show ?thesis using 2 good_two[of "r div 64" "r mod 64"] by (auto simp: encode_rune_def)
  next
    case 3
    then show ?thesis using good_replacement by (auto simp: encode_rune_def)
  next
    case 4
    define x where "x = r div 64"
    have x: "32 \<le> x" "x < 1024" "x < 864 \<or> 896 \<le> x" using 4 unfolding x_def by linarith+
    have d: "r div 4096 = x div 64" unfolding x_def by (simp add: div_mult2_eq[symmetric])
    have "x div 64 = 0 \<Longrightarrow> 32 \<le> x mod 64" using x by simp
    moreover have "x mod 64 < 32" if "x div 64 = 13"
    proof -
      have "832 \<le> x" "x < 896" using that by linarith+
      then show ?thesis using mod_window[of 64 13 x] x(3) by simp
    qed
    moreover have "x div 64 < 16" using x by linarith
    ultimately have "good_chunk (x div 64 * 4096 + x mod 64 * 64 + r mod 64,
      [char_of (0xE0 + x div 64), char_of (0x80 + x mod 64), char_of (0x80 + r mod 64)])" by (intro good_three) simp_all
    then show ?thesis using 4 d unfolding encode_rune_def x_def by auto
  next
    case 5
    define x where "x = r div 4096"
    have x: "16 \<le> x" "x < 272" using 5 unfolding x_def by linarith+
    have d: "r div 262144 = x div 64" unfolding x_def by (simp add: div_mult2_eq[symmetric])
    have "x div 64 = 0 \<Longrightarrow> 16 \<le> x mod 64" using x by simp
    moreover have "x mod 64 < 16" if "x div 64 = 4"
    proof -
      have "256 \<le> x" using that by linarith
      then show ?thesis using mod_window[of 64 4 x] x(2) by simp
    qed
    moreover have "x div 64 < 5" using x by linarith
    ultimately have "good_chunk (x div 64 * 262144 + x mod 64 * 4096 + r div 64 mod 64 * 64 + r mod 64,
      [char_of (0xF0 + x div 64), char_of (0x80 + x mod 64), char_of (0x80 + r div 64 mod 64), char_of (0x80 + r mod 64)])"
      by (intro good_four) simp_all
    then show ?thesis using 5 d unfolding encode_rune_def x_def by auto
  qed
qed

lemma valid_good: "good_chunk (r, w) \<Longrightarrow> valid_utf8 w"
  using valid_bytes_of[of "[(r, w)]"] by simp

lemma valid_utf8_Nil [simp]: "valid_utf8 []"
  by (simp add: valid_utf8.simps)

lemma valid_encode: "valid_utf8 (encode_rune r)"
  using good_encode valid_good by blast

lemma valid_escape_char: "valid_utf8 (escape_char e)"
  by (rule ascii_valid) (simp add: escape_char_def, simp add: byte_def)

lemma valid_unquote: "valid_utf8 (unquote b)"
proof (induction b rule: unquote.induct)
  case 1
  then show ?case by simp
next
  case (2 c s)
  show ?case
  proof (cases "c = backslash")
    case True
    show ?thesis
    proof (cases s)
      case Nil
      then show ?thesis using True by (simp add: unquote.simps(2))
    next
      case (Cons e t)
      show ?thesis
      proof (cases "e = CHR ''u''")
        case u: True
        show ?thesis
        proof (cases "pair_behind (hex4 t) (drop 4 t)")
          case None
          then show ?thesis using True Cons u 2(1)[OF True Cons u None]
            by (simp add: unquote.simps(2) valid_append valid_encode)
        next
          case (Some r)
          then show ?thesis using True Cons u 2(2)[OF True Cons u Some]
            by (simp add: unquote.simps(2) valid_append valid_encode)
        qed
      next
        case False
        then show ?thesis using True Cons 2(3)[OF True Cons False]
          by (simp add: unquote.simps(2) valid_append valid_escape_char)
      qed
    qed
  next
    case False
    show ?thesis
    proof (cases "bad_rune (c # s)")
      case True
      then show ?thesis using False 2(4)[OF False True] valid_good[OF good_replacement]
        by (simp add: unquote.simps(2) valid_append)
    next
      case ok: False
      from good_chunk_head[OF _ ok] have "valid_utf8 (take (rune_size (c # s)) (c # s))" by (rule valid_good) simp
      then show ?thesis using False ok 2(5)[OF False ok] by (simp add: unquote.simps(2) valid_append)
    qed
  qed
qed

lemma dec_string_valid: "dec_string old j = Some s \<Longrightarrow> valid_utf8 old \<Longrightarrow> valid_utf8 s"
  by (auto simp: dec_string_def valid_unquote split: json.splits)

end
