(* ===== verification/Jobs.thy ===== *)
theory Jobs
  imports Go_Text
begin

text \<open>
  The durable scheduler, internal/jobs/jobs.go: the \<open>job\<close> and \<open>job_dependency\<close> tables, the
  enqueue, claim, heartbeat, completion, failure, cancellation and recovery operations, each as
  a function on the database with the code's guards in the code's order.

  A timestamp column holds the empty string (\<open>None\<close>) or a millisecond UTC time of fixed width,
  whose string order is the order of the times (\<open>Some ms\<close>).  Every reading of the clock is a
  parameter of the operation.  The SHA-256 of a lease token is the parameter \<open>hash\<close>; random
  tokens and fresh ULIDs are arguments; whether a payload is JSON is the parameter \<open>json_ok\<close>.
  Failures of the SQL driver itself (I/O, locked database) are not modelled.
\<close>

section \<open>Data\<close>

definition AnalysisJobType :: string where "AnalysisJobType = ''reader.analysis.v2''"
definition AVSpeechJobType :: string where "AVSpeechJobType = ''tts.avspeech.v1''"
definition ChatterboxJobType :: string where "ChatterboxJobType = ''tts.chatterbox.v3''"
definition LLMRelayJobType :: string where "LLMRelayJobType = ''llm.relay.v1''"
definition DictionaryJobType :: string where "DictionaryJobType = ''reader.dictionary.v1''"
definition SentenceTranslationJobType :: string where
  "SentenceTranslationJobType = ''reader.sentence_translation.v1''"

definition job_types :: "string list" where
  "job_types = [AnalysisJobType, AVSpeechJobType, ChatterboxJobType, LLMRelayJobType,
     DictionaryJobType, SentenceTranslationJobType]"

definition TargetServer :: string where "TargetServer = ''server''"
definition TargetMacOS :: string where "TargetMacOS = ''macos''"

definition LeaseExpiredErrorCode :: string where
  "LeaseExpiredErrorCode = ''v1.job_lease_expired''"

definition DependencyFailedErrorCode :: string where
  "DependencyFailedErrorCode = ''v1.job_dependency_failed''"

datatype job_state = Queued | Leased | Running | Succeeded | Failed | Canceled

type_synonym timestamp = "nat option"

record job =
  job_id :: string
  job_type :: string
  execution_target :: string
  owner_type :: string
  owner_id :: string
  idempotency_key :: string
  input_hash :: string
  payload_json :: string
  job_state :: job_state
  priority :: int
  attempt_count :: int
  max_attempts :: int
  available_at :: timestamp
  lease_owner :: string
  lease_token_hash :: string
  lease_expires_at :: timestamp
  progress_percent :: int
  error_code :: string
  created_at :: timestamp
  updated_at :: timestamp
  started_at :: timestamp
  completed_at :: timestamp
  ailocals_result_sha256 :: string

record job_spec =
  spec_id :: string
  spec_job_type :: string
  spec_target :: string
  spec_owner_type :: string
  spec_owner_id :: string
  spec_key :: string
  spec_input_hash :: string
  spec_payload :: string
  spec_priority :: int
  spec_max_attempts :: int
  spec_available_at :: timestamp

record lease =
  lease_job :: job
  lease_token :: string

record heartbeat_result =
  cancel_requested :: bool
  heartbeat_job :: job

text \<open>The package's error values; \<open>JobError op kind cause\<close> is the \<open>Error\<close> struct.\<close>

datatype job_error =
    ErrNoWork | ErrLeaseLost | ErrLeaseExpired | ErrCycle | ErrInvalidJob
  | ErrNoRows | ErrConstraint
  | UnsupportedJobType | UnsupportedTarget | RequiredFieldMissing | PayloadNotJSON | MaxAttemptsRange
  | JobError string string job_error

text \<open>The two tables, rows in insertion order.\<close>

record jobs_db =
  job_table :: "job list"
  job_deps :: "(string \<times> string) list"

section \<open>Times, tokens, codes\<close>

definition lease_duration :: nat where "lease_duration = 90 * 1000"
definition retry_backoff :: "nat list" where "retry_backoff = [5 * 1000, 30 * 1000, 2 * 60 * 1000]"

definition ts_le_now :: "timestamp \<Rightarrow> nat \<Rightarrow> bool" where
  "ts_le_now t now = (case t of None \<Rightarrow> True | Some x \<Rightarrow> x \<le> now)"

definition backoffForAttempt :: "int \<Rightarrow> nat" where
  "backoffForAttempt attempt =
     (if attempt \<le> 0 then retry_backoff ! 0
      else if attempt > int (length retry_backoff) then retry_backoff ! (length retry_backoff - 1)
      else retry_backoff ! nat (attempt - 1))"

definition jobLeaseLive :: "job \<Rightarrow> nat \<Rightarrow> bool" where
  "jobLeaseLive j clk = (case lease_expires_at j of None \<Rightarrow> False | Some e \<Rightarrow> clk < e)"

definition constantTokenMatch :: "(string \<Rightarrow> string) \<Rightarrow> string \<Rightarrow> string \<Rightarrow> bool" where
  "constantTokenMatch hash token expected \<longleftrightarrow>
     token \<noteq> [] \<and> expected \<noteq> [] \<and> length (hash token) = length expected \<and> hash token = expected"

definition validErrorCode :: "string \<Rightarrow> bool" where
  "validErrorCode code \<longleftrightarrow>
     length code \<noteq> 0 \<and> length code \<le> 120 \<and> has_prefix ''v1.'' code \<and>
     (\<forall>r \<in> set (runes code). r = byte CHR ''.'' \<or> r = byte CHR ''_'' \<or> r = byte CHR ''-''
        \<or> (byte CHR ''a'' \<le> r \<and> r \<le> byte CHR ''z'') \<or> (byte CHR ''0'' \<le> r \<and> r \<le> byte CHR ''9''))"

definition zeroULID :: string where "zeroULID = ''00000000000000000000000000''"

definition ulid_string :: "string \<Rightarrow> string" where
  "ulid_string u = (if u = [] then zeroULID else u)"

definition ulid_is_zero :: "string \<Rightarrow> bool" where
  "ulid_is_zero u \<longleftrightarrow> u = [] \<or> u = zeroULID"

section \<open>Enqueue and lookup\<close>

definition validateSpec :: "(string \<Rightarrow> bool) \<Rightarrow> job_spec \<Rightarrow> job_error + job_spec" where
  "validateSpec json_ok spec =
     (if spec_job_type spec \<notin> set job_types then Inl UnsupportedJobType
      else if spec_target spec \<noteq> TargetServer \<and> spec_target spec \<noteq> TargetMacOS then Inl UnsupportedTarget
      else if blank (spec_owner_type spec) \<or> blank (spec_owner_id spec) \<or> blank (spec_key spec)
           \<or> blank (spec_input_hash spec) \<or> blank (spec_payload spec) then Inl RequiredFieldMissing
      else if \<not> json_ok (spec_payload spec) then Inl PayloadNotJSON
      else if spec_max_attempts spec < 0 \<or> spec_max_attempts spec > 3 then Inl MaxAttemptsRange
      else Inr (if spec_max_attempts spec = 0 then spec\<lparr>spec_max_attempts := 3\<rparr> else spec))"

definition row_of_spec :: "job_spec \<Rightarrow> nat \<Rightarrow> nat \<Rightarrow> job" where
  "row_of_spec spec t_created t_updated =
     \<lparr>job_id = ulid_string (spec_id spec), job_type = spec_job_type spec,
      execution_target = spec_target spec, owner_type = spec_owner_type spec,
      owner_id = spec_owner_id spec, idempotency_key = spec_key spec,
      input_hash = spec_input_hash spec, payload_json = spec_payload spec,
      job_state = Queued, priority = spec_priority spec, attempt_count = 0,
      max_attempts = spec_max_attempts spec, available_at = spec_available_at spec,
      lease_owner = [], lease_token_hash = [], lease_expires_at = None, progress_percent = 0,
      error_code = [], created_at = Some t_created, updated_at = Some t_updated,
      started_at = None, completed_at = None, ailocals_result_sha256 = []\<rparr>"

text \<open>
  \<open>INSERT .. ON CONFLICT(idempotency_key) DO NOTHING\<close>: an existing key inserts nothing, an
  existing primary key is a constraint error.
\<close>

definition insert_job :: "job \<Rightarrow> jobs_db \<Rightarrow> job_error + jobs_db" where
  "insert_job row db =
     (if idempotency_key row \<in> idempotency_key ` set (job_table db) then Inr db
      else if job_id row \<in> job_id ` set (job_table db) then Inl ErrConstraint
      else Inr (db\<lparr>job_table := job_table db @ [row]\<rparr>))"

definition getTx :: "string \<Rightarrow> jobs_db \<Rightarrow> job_error + job" where
  "getTx key db = (case find_by idempotency_key key (job_table db) of
     None \<Rightarrow> Inl ErrNoRows | Some j \<Rightarrow> Inr j)"

definition enqueueTx :: "string \<Rightarrow> nat \<times> nat \<times> nat \<Rightarrow> job_spec \<Rightarrow> jobs_db \<Rightarrow> (job_error + job) \<times> jobs_db" where
  "enqueueTx fresh clocks spec db =
     (let (t_avail, t_created, t_updated) = clocks;
          spec = (if ulid_is_zero (spec_id spec) then spec\<lparr>spec_id := fresh\<rparr> else spec);
          spec = (if spec_available_at spec = None then spec\<lparr>spec_available_at := Some t_avail\<rparr> else spec);
          spec = (if spec_max_attempts spec = 0 then spec\<lparr>spec_max_attempts := 3\<rparr> else spec)
      in case insert_job (row_of_spec spec t_created t_updated) db of
           Inl e \<Rightarrow> (Inl e, db)
         | Inr db' \<Rightarrow> (getTx (spec_key spec) db', db'))"

definition EnqueueTx :: "(string \<Rightarrow> bool) \<Rightarrow> string \<Rightarrow> nat \<times> nat \<times> nat \<Rightarrow> job_spec \<Rightarrow> jobs_db \<Rightarrow> (job_error + job) \<times> jobs_db" where
  "EnqueueTx json_ok fresh clocks spec db =
     (case validateSpec json_ok spec of
        Inl e \<Rightarrow> (Inl (JobError ''enqueue'' ''validation'' e), db)
      | Inr spec' \<Rightarrow> enqueueTx fresh clocks spec' db)"

definition Enqueue :: "(string \<Rightarrow> bool) \<Rightarrow> string \<Rightarrow> nat \<times> nat \<times> nat \<Rightarrow> job_spec \<Rightarrow> jobs_db \<Rightarrow> (job_error + job) \<times> jobs_db" where
  "Enqueue json_ok fresh clocks spec db =
     (case validateSpec json_ok spec of
        Inl e \<Rightarrow> (Inl (JobError ''enqueue'' ''validation'' e), db)
      | Inr spec' \<Rightarrow> with_transaction (enqueueTx fresh clocks spec') db)"

definition Get :: "string \<Rightarrow> jobs_db \<Rightarrow> job_error + job" where
  "Get jid db = (case find_by job_id (ulid_string jid) (job_table db) of
     None \<Rightarrow> Inl (JobError ''get'' ''not_found'' ErrNoRows) | Some j \<Rightarrow> Inr j)"

definition GetByIdempotencyKey :: "string \<Rightarrow> jobs_db \<Rightarrow> job_error + job" where
  "GetByIdempotencyKey key db = (case find_by idempotency_key key (job_table db) of
     None \<Rightarrow> Inl (JobError ''get'' ''not_found'' ErrNoRows) | Some j \<Rightarrow> Inr j)"

definition GetByIdempotencyKeyTx :: "string \<Rightarrow> jobs_db \<Rightarrow> job_error + job" where
  "GetByIdempotencyKeyTx key db =
     (if blank key then Inl (JobError ''get'' ''validation'' ErrInvalidJob) else getTx key db)"

definition active :: "job \<Rightarrow> bool" where
  "active j \<longleftrightarrow> job_state j = Leased \<or> job_state j = Running"

definition GetActiveOwnerJobTx :: "string \<Rightarrow> string \<Rightarrow> string \<Rightarrow> jobs_db \<Rightarrow> job_error + job" where
  "GetActiveOwnerJobTx otype oid jtype db =
     (if blank otype \<or> blank oid \<or> blank jtype
      then Inl (JobError ''get active owner job'' ''validation'' ErrInvalidJob)
      else (case rev (sort_key (\<lambda>j. (created_at j, job_id j))
                    (filter (\<lambda>j. owner_type j = otype \<and> owner_id j = oid \<and> job_type j = jtype
                        \<and> (job_state j = Queued \<or> active j)) (job_table db))) of
              [] \<Rightarrow> Inl ErrNoRows | j # _ \<Rightarrow> Inr j))"

section \<open>Dependencies\<close>

text \<open>
  The recursive query of \<open>AddDependency\<close>: \<open>ancestors(id)\<close> starts with the dependencies of one job
  and \<open>UNION\<close> adds the dependencies of what is already in it, until nothing is new.
\<close>

definition deps_of :: "(string \<times> string) list \<Rightarrow> string set \<Rightarrow> string list" where
  "deps_of E S = remdups (map snd (filter (\<lambda>e. fst e \<in> S) E))"

function ancestors_from :: "(string \<times> string) list \<Rightarrow> string list \<Rightarrow> string list" where
  "ancestors_from E S =
     (let new = filter (\<lambda>d. d \<notin> set S) (deps_of E (set S))
      in if new = [] then S else ancestors_from E (S @ new))"
  by pat_completeness auto
termination
proof (relation "measure (\<lambda>(E, S). card (snd ` set E - set S))", goal_cases)
  case 1
  then show ?case by simp
next
  case (2 E S new)
  then obtain d where "d \<in> set new" using last_in_set by blast
  moreover have "set new \<subseteq> snd ` set E - set S" using 2 by (auto simp: deps_of_def)
  ultimately have "snd ` set E - set (S @ new) \<subset> snd ` set E - set S" by auto
  then show ?case by (simp add: psubset_card_mono)
qed

declare ancestors_from.simps [simp del]

definition ancestors :: "(string \<times> string) list \<Rightarrow> string \<Rightarrow> string list" where
  "ancestors E x = ancestors_from E (deps_of E {x})"

definition addDependencyBody :: "string \<Rightarrow> string \<Rightarrow> jobs_db \<Rightarrow> (job_error + unit) \<times> jobs_db" where
  "addDependencyBody jid did db =
     (if count_where (\<lambda>j. job_id j = ulid_string jid \<or> job_id j = ulid_string did) (job_table db) \<noteq> 2
      then (Inl (JobError ''add dependency'' ''not_found'' ErrNoRows), db)
      else if ulid_string jid \<in> set (ancestors (job_deps db) (ulid_string did))
      then (Inl (JobError ''add dependency'' ''conflict'' ErrCycle), db)
      else (Inr (), db\<lparr>job_deps := List.insert (ulid_string jid, ulid_string did) (job_deps db)\<rparr>))"

definition AddDependency :: "string \<Rightarrow> string \<Rightarrow> jobs_db \<Rightarrow> (job_error + unit) \<times> jobs_db" where
  "AddDependency jid did db =
     (if ulid_is_zero jid \<or> ulid_is_zero did \<or> jid = did
      then (Inl (JobError ''add dependency'' ''validation'' ErrCycle), db)
      else with_transaction (addDependencyBody jid did) db)"

text \<open>The two \<open>EXISTS\<close> conditions on a job's dependencies.\<close>

definition dep_in_state :: "jobs_db \<Rightarrow> job \<Rightarrow> (job_state \<Rightarrow> bool) \<Rightarrow> bool" where
  "dep_in_state db j P \<longleftrightarrow>
     (\<exists>e \<in> set (job_deps db). fst e = job_id j \<and>
        (\<exists>d \<in> set (job_table db). job_id d = snd e \<and> P (job_state d)))"

definition deps_satisfied :: "jobs_db \<Rightarrow> job \<Rightarrow> bool" where
  "deps_satisfied db j \<longleftrightarrow> \<not> dep_in_state db j (\<lambda>s. s \<noteq> Succeeded)"

definition dep_failed :: "jobs_db \<Rightarrow> job \<Rightarrow> bool" where
  "dep_failed db j \<longleftrightarrow>
     job_state j = Queued \<and> dep_in_state db j (\<lambda>s. s = Failed \<or> s = Canceled)"

definition fail_dependency :: "nat \<Rightarrow> job \<Rightarrow> job" where
  "fail_dependency now j =
     j\<lparr>job_state := Failed, error_code := DependencyFailedErrorCode,
       completed_at := Some now, updated_at := Some now\<rparr>"

text \<open>
  \<open>reconcileDependencyFailuresTx\<close>: repeat the update until it affects no row.  Each pass takes
  rows out of the queued state, so the loop ends.
\<close>

definition reconcile_pass :: "nat \<Rightarrow> jobs_db \<Rightarrow> jobs_db" where
  "reconcile_pass now db =
     db\<lparr>job_table := update_where (dep_failed db) (fail_dependency now) (job_table db)\<rparr>"

definition queued_count :: "jobs_db \<Rightarrow> nat" where
  "queued_count db = count_where (\<lambda>j. job_state j = Queued) (job_table db)"

lemma queued_count_pass:
  assumes "count_where (dep_failed db) (job_table db) \<noteq> 0"
  shows "queued_count (reconcile_pass now db) < queued_count db"
proof -
  have le: "count_where (\<lambda>j. job_state j = Queued) (update_where (dep_failed db) (fail_dependency now) rows)
      + count_where (dep_failed db) rows = count_where (\<lambda>j. job_state j = Queued) rows" for rows
    by (induction rows)
      (auto simp: count_where_def update_where_def fail_dependency_def dep_failed_def)
  show ?thesis
    using le[of "job_table db"] assms by (simp add: queued_count_def reconcile_pass_def)
qed

function reconcileDependencyFailuresTx :: "nat \<Rightarrow> jobs_db \<Rightarrow> jobs_db" where
  "reconcileDependencyFailuresTx now db =
     (if count_where (dep_failed db) (job_table db) = 0 then db
      else reconcileDependencyFailuresTx now (reconcile_pass now db))"
  by pat_completeness auto
termination
  by (relation "measure (\<lambda>(now, db). queued_count db)") (auto simp: queued_count_pass)

declare reconcileDependencyFailuresTx.simps [simp del]

section \<open>Claiming\<close>

definition claimable :: "jobs_db \<Rightarrow> string \<Rightarrow> nat \<Rightarrow> job \<Rightarrow> bool" where
  "claimable db target now j \<longleftrightarrow>
     execution_target j = target \<and> job_state j = Queued \<and> ts_le_now (available_at j) now \<and>
     attempt_count j < max_attempts j \<and> deps_satisfied db j"

text \<open>\<open>ORDER BY priority DESC, created_at ASC, id ASC\<close>.\<close>

definition claim_key :: "job \<Rightarrow> int \<times> timestamp \<times> string" where
  "claim_key j = (- priority j, created_at j, job_id j)"

definition claim_order :: "job list \<Rightarrow> job list" where
  "claim_order js = sort_key claim_key js"

definition lease_row :: "string \<Rightarrow> string \<Rightarrow> nat \<Rightarrow> nat \<Rightarrow> job \<Rightarrow> job" where
  "lease_row owner thash now expires j =
     j\<lparr>job_state := Leased, attempt_count := attempt_count j + 1, lease_owner := owner,
       lease_token_hash := thash, lease_expires_at := Some expires, progress_percent := 0,
       started_at := (if started_at j = None then Some now else started_at j),
       updated_at := Some now\<rparr>"

text \<open>The conditional update of the chosen row and the re-read that builds the lease.\<close>

definition take_lease ::
  "(job \<Rightarrow> bool) \<Rightarrow> string \<Rightarrow> string \<Rightarrow> string \<Rightarrow> nat \<Rightarrow> nat \<Rightarrow> string \<Rightarrow> jobs_db
     \<Rightarrow> (job_error + lease option) \<times> jobs_db" where
  "take_lease guard owner token thash now expires jid db =
     (let hit = (\<lambda>j. job_id j = jid \<and> guard j);
          db' = db\<lparr>job_table := update_where hit (lease_row owner thash now expires) (job_table db)\<rparr>
      in if count_where hit (job_table db) \<noteq> 1 then (Inr None, db')
         else (case find_by job_id jid (job_table db') of
                 None \<Rightarrow> (Inl ErrNoRows, db')
               | Some j \<Rightarrow> (Inr (Some \<lparr>lease_job = j, lease_token = token\<rparr>), db')))"

definition claim_result :: "(job_error + lease option) \<times> jobs_db \<Rightarrow> (job_error + lease) \<times> jobs_db" where
  "claim_result r = (case r of
       (Inl e, db) \<Rightarrow> (Inl e, db)
     | (Inr None, db) \<Rightarrow> (Inl ErrNoWork, db)
     | (Inr (Some l), db) \<Rightarrow> (Inr l, db))"

definition claimMatchingBody ::
  "(string \<Rightarrow> string) \<Rightarrow> (job \<Rightarrow> bool) option \<Rightarrow> string \<Rightarrow> string \<Rightarrow> string \<Rightarrow> nat \<Rightarrow> nat \<Rightarrow> jobs_db
     \<Rightarrow> (job_error + lease option) \<times> jobs_db" where
  "claimMatchingBody hash matches target owner token now clk db0 =
     (let db = reconcileDependencyFailuresTx now db0;
          rows = claim_order (filter (claimable db target now) (job_table db))
      in case find (case matches of None \<Rightarrow> (\<lambda>_. True) | Some m \<Rightarrow> m) rows of
           None \<Rightarrow> (Inr None, db)
         | Some c \<Rightarrow> take_lease (claimable db target now) owner token (hash token) now
                       (clk + lease_duration) (ulid_string (job_id c)) db)"

definition ClaimMatching ::
  "(string \<Rightarrow> string) \<Rightarrow> (job \<Rightarrow> bool) option \<Rightarrow> string \<Rightarrow> string \<Rightarrow> string \<Rightarrow> nat \<Rightarrow> nat \<Rightarrow> jobs_db
     \<Rightarrow> (job_error + lease) \<times> jobs_db" where
  "ClaimMatching hash matches target owner token now clk db =
     (if (target \<noteq> TargetServer \<and> target \<noteq> TargetMacOS) \<or> blank owner
      then (Inl (JobError ''claim'' ''validation'' ErrInvalidJob), db)
      else claim_result
             (with_transaction (claimMatchingBody hash matches target owner token now clk) db))"

definition Claim ::
  "(string \<Rightarrow> string) \<Rightarrow> string \<Rightarrow> string \<Rightarrow> string \<Rightarrow> nat \<Rightarrow> nat \<Rightarrow> jobs_db
     \<Rightarrow> (job_error + lease) \<times> jobs_db" where
  "Claim hash target owner token now clk db = ClaimMatching hash None target owner token now clk db"

definition owner_busy :: "jobs_db \<Rightarrow> string \<Rightarrow> string \<Rightarrow> bool" where
  "owner_busy db owner jtype \<longleftrightarrow>
     (\<exists>a \<in> set (job_table db). lease_owner a = owner \<and> job_type a = jtype \<and> active a)"

text \<open>The update of the capability claim re-checks the active lease, not the dependencies.\<close>

definition capability_guard :: "jobs_db \<Rightarrow> string \<Rightarrow> string \<Rightarrow> string \<Rightarrow> nat \<Rightarrow> string \<Rightarrow> job \<Rightarrow> bool" where
  "capability_guard db target owner jtype now jid j \<longleftrightarrow>
     execution_target j = target \<and> job_state j = Queued \<and> job_type j = jtype \<and>
     ts_le_now (available_at j) now \<and> attempt_count j < max_attempts j \<and>
     \<not> (\<exists>a \<in> set (job_table db). lease_owner a = owner \<and> job_type a = jtype \<and> active a \<and> job_id a \<noteq> jid)"

definition claimCapabilityBody ::
  "(string \<Rightarrow> string) \<Rightarrow> string \<Rightarrow> string \<Rightarrow> string \<Rightarrow> string \<Rightarrow> nat \<Rightarrow> nat \<Rightarrow> jobs_db
     \<Rightarrow> (job_error + lease option) \<times> jobs_db" where
  "claimCapabilityBody hash target owner jtype token now clk db0 =
     (let db = reconcileDependencyFailuresTx now db0;
          rows = claim_order (filter (\<lambda>j. claimable db target now j \<and> job_type j = jtype
                    \<and> \<not> owner_busy db owner jtype) (job_table db))
      in case rows of
           [] \<Rightarrow> (Inr None, db)
         | c # _ \<Rightarrow>
             (let jid = ulid_string (job_id c)
              in take_lease (capability_guard db target owner jtype now jid) owner token (hash token)
                   now (clk + lease_duration) jid db))"

definition ClaimMatchingCapability ::
  "(string \<Rightarrow> string) \<Rightarrow> string \<Rightarrow> string \<Rightarrow> string \<Rightarrow> string \<Rightarrow> nat \<Rightarrow> nat \<Rightarrow> jobs_db
     \<Rightarrow> (job_error + lease) \<times> jobs_db" where
  "ClaimMatchingCapability hash target owner jtype token now clk db =
     (if (target \<noteq> TargetServer \<and> target \<noteq> TargetMacOS) \<or> blank owner
      then (Inl (JobError ''claim'' ''validation'' ErrInvalidJob), db)
      else claim_result
             (with_transaction (claimCapabilityBody hash target owner jtype token now clk) db))"

section \<open>Working on a lease\<close>

text \<open>\<open>VerifyLease\<close> reads only; \<open>clk\<close> is the clock it compares the expiry with.\<close>

definition VerifyLease ::
  "(string \<Rightarrow> string) \<Rightarrow> string \<Rightarrow> int \<Rightarrow> string \<Rightarrow> string \<Rightarrow> nat \<Rightarrow> jobs_db \<Rightarrow> job_error + job" where
  "VerifyLease hash jid attempt token owner clk db =
     (if ulid_is_zero jid \<or> attempt \<le> 0 \<or> token = [] \<or> blank owner then Inl ErrLeaseLost
      else case Get jid db of
        Inl e \<Rightarrow> Inl e
      | Inr j \<Rightarrow>
          if attempt_count j \<noteq> attempt \<or> \<not> constantTokenMatch hash token (lease_token_hash j)
          then Inl ErrLeaseLost
          else if \<not> active j then
            (if job_state j = Succeeded \<or> (lease_owner j = owner \<and>
                (job_state j = Canceled \<or> job_state j = Failed \<or> job_state j = Queued))
             then Inr j else Inl ErrLeaseLost)
          else if lease_owner j \<noteq> owner then Inl ErrLeaseLost
          else (case lease_expires_at j of
                  None \<Rightarrow> Inl ErrLeaseExpired
                | Some e \<Rightarrow> if clk < e then Inr j else Inl ErrLeaseExpired))"

text \<open>The \<open>WHERE\<close> clause of the updates of a live attempt.\<close>

definition attempt_row :: "(string \<Rightarrow> string) \<Rightarrow> string \<Rightarrow> int \<Rightarrow> string \<Rightarrow> job \<Rightarrow> bool" where
  "attempt_row hash jid attempt token j \<longleftrightarrow>
     job_id j = ulid_string jid \<and> attempt_count j = attempt \<and> lease_token_hash j = hash token \<and> active j"

definition heartbeatBody ::
  "(string \<Rightarrow> string) \<Rightarrow> string \<Rightarrow> int \<Rightarrow> string \<Rightarrow> int \<Rightarrow> nat \<Rightarrow> nat \<Rightarrow> nat \<Rightarrow> jobs_db
     \<Rightarrow> (job_error + heartbeat_result) \<times> jobs_db" where
  "heartbeatBody hash jid attempt token progress now expires live_clk db =
     (case find_by job_id (ulid_string jid) (job_table db) of
        None \<Rightarrow> (Inl (JobError ''heartbeat'' ''not_found'' ErrNoRows), db)
      | Some j \<Rightarrow>
          if attempt_count j \<noteq> attempt \<or> \<not> constantTokenMatch hash token (lease_token_hash j)
          then (Inl ErrLeaseLost, db)
          else if job_state j = Succeeded
          then (Inr \<lparr>cancel_requested = False, heartbeat_job = j\<rparr>, db)
          else if job_state j = Canceled \<or> job_state j = Failed
          then (Inr \<lparr>cancel_requested = True, heartbeat_job = j\<rparr>, db)
          else if \<not> active j then (Inl ErrLeaseLost, db)
          else if \<not> jobLeaseLive j live_clk then (Inl ErrLeaseExpired, db)
          else
            (let db' = db\<lparr>job_table := update_where (attempt_row hash jid attempt token)
                  (\<lambda>r. r\<lparr>job_state := Running, lease_expires_at := Some expires,
                         progress_percent := progress, updated_at := Some now\<rparr>) (job_table db)\<rparr>
             in case find_by job_id (ulid_string jid) (job_table db') of
                  None \<Rightarrow> (Inl ErrNoRows, db')
                | Some u \<Rightarrow> (Inr \<lparr>cancel_requested = False, heartbeat_job = u\<rparr>, db')))"

definition Heartbeat ::
  "(string \<Rightarrow> string) \<Rightarrow> string \<Rightarrow> int \<Rightarrow> string \<Rightarrow> int \<Rightarrow> nat \<Rightarrow> nat \<Rightarrow> nat \<Rightarrow> jobs_db
     \<Rightarrow> (job_error + heartbeat_result) \<times> jobs_db" where
  "Heartbeat hash jid attempt token progress now clk live_clk db =
     (if progress < 0 \<or> progress > 100 \<or> token = []
      then (Inl (JobError ''heartbeat'' ''validation'' ErrInvalidJob), db)
      else with_transaction
             (heartbeatBody hash jid attempt token progress now (clk + lease_duration) live_clk) db)"

section \<open>Finishing\<close>

definition succeed_row :: "nat \<Rightarrow> job \<Rightarrow> job" where
  "succeed_row now j =
     j\<lparr>job_state := Succeeded, progress_percent := 100, error_code := [], lease_expires_at := None,
       completed_at := Some now, updated_at := Some now\<rparr>"

definition fail_row :: "job_state \<Rightarrow> nat \<Rightarrow> string \<Rightarrow> nat \<Rightarrow> job \<Rightarrow> job" where
  "fail_row state available code now j =
     j\<lparr>job_state := state, available_at := Some available, error_code := code,
       lease_expires_at := None, updated_at := Some now,
       completed_at := (if state = Failed then Some now else completed_at j)\<rparr>"

text \<open>
  \<open>finishTx\<close>: \<open>live_clk\<close> is read by \<open>jobLeaseLive\<close>, \<open>retry_clk\<close> when a retry is scheduled.  The
  failure argument is the code, a NUL and the printed retry flag.
\<close>

definition finishTx ::
  "(string \<Rightarrow> string) \<Rightarrow> string \<Rightarrow> int \<Rightarrow> string \<Rightarrow> bool \<Rightarrow> string \<Rightarrow> nat \<Rightarrow> nat \<Rightarrow> nat \<Rightarrow> jobs_db
     \<Rightarrow> (job_error + unit) \<times> jobs_db" where
  "finishTx hash jid attempt token success failure now live_clk retry_clk db =
     (if token = [] then (Inl ErrLeaseLost, db)
      else case find_by job_id (ulid_string jid) (job_table db) of
        None \<Rightarrow> (Inl (JobError ''finish'' ''not_found'' ErrNoRows), db)
      | Some j \<Rightarrow>
          if attempt_count j \<noteq> attempt \<or> \<not> constantTokenMatch hash token (lease_token_hash j)
          then (Inl ErrLeaseLost, db)
          else if success \<and> job_state j = Succeeded then (Inr (), db)
          else if \<not> success \<and> (job_state j = Failed \<or> job_state j = Canceled \<or> job_state j = Queued)
          then (Inr (), db)
          else if success then
            (if \<not> active j then (Inl ErrLeaseLost, db)
             else if \<not> jobLeaseLive j live_clk then (Inl ErrLeaseExpired, db)
             else (Inr (), db\<lparr>job_table := update_where (attempt_row hash jid attempt token)
                                 (succeed_row now) (job_table db)\<rparr>))
          else
            (let parts = split_first (CHR 0x00) failure;
                 retry = (length parts = 2 \<and> parts ! 1 = ''true'');
                 again = (retry \<and> attempt < max_attempts j);
                 state = (if again then Queued else Failed);
                 available = (if again then retry_clk + backoffForAttempt attempt else now)
             in (Inr (), db\<lparr>job_table := update_where (attempt_row hash jid attempt token)
                               (fail_row state available (parts ! 0) now) (job_table db)\<rparr>)))"

definition finish ::
  "(string \<Rightarrow> string) \<Rightarrow> string \<Rightarrow> int \<Rightarrow> string \<Rightarrow> bool \<Rightarrow> string \<Rightarrow> nat \<Rightarrow> nat \<Rightarrow> nat \<Rightarrow> jobs_db
     \<Rightarrow> (job_error + unit) \<times> jobs_db" where
  "finish hash jid attempt token success failure now live_clk retry_clk db =
     (if token = [] then (Inl ErrLeaseLost, db)
      else with_transaction
             (finishTx hash jid attempt token success failure now live_clk retry_clk) db)"

definition Complete ::
  "(string \<Rightarrow> string) \<Rightarrow> string \<Rightarrow> int \<Rightarrow> string \<Rightarrow> nat \<Rightarrow> nat \<Rightarrow> nat \<Rightarrow> jobs_db
     \<Rightarrow> (job_error + unit) \<times> jobs_db" where
  "Complete hash jid attempt token now live_clk retry_clk db =
     finish hash jid attempt token True [] now live_clk retry_clk db"

definition CompleteTx ::
  "(string \<Rightarrow> string) \<Rightarrow> string \<Rightarrow> int \<Rightarrow> string \<Rightarrow> nat \<Rightarrow> nat \<Rightarrow> nat \<Rightarrow> jobs_db
     \<Rightarrow> (job_error + unit) \<times> jobs_db" where
  "CompleteTx hash jid attempt token now live_clk retry_clk db =
     finishTx hash jid attempt token True [] now live_clk retry_clk db"

definition Fail ::
  "(string \<Rightarrow> string) \<Rightarrow> string \<Rightarrow> int \<Rightarrow> string \<Rightarrow> string \<Rightarrow> bool \<Rightarrow> nat \<Rightarrow> nat \<Rightarrow> nat \<Rightarrow> jobs_db
     \<Rightarrow> (job_error + unit) \<times> jobs_db" where
  "Fail hash jid attempt token code retry now live_clk retry_clk db =
     (if \<not> validErrorCode code then (Inl (JobError ''fail'' ''validation'' ErrInvalidJob), db)
      else finish hash jid attempt token False
             (code @ CHR 0x00 # (if retry then ''true'' else ''false'')) now live_clk retry_clk db)"

section \<open>Cancelling\<close>

definition cancel_queued_row :: "string \<Rightarrow> nat \<Rightarrow> job \<Rightarrow> job" where
  "cancel_queued_row code now j =
     j\<lparr>job_state := Canceled, error_code := code, lease_owner := [], lease_token_hash := [],
       lease_expires_at := None, updated_at := Some now, completed_at := Some now\<rparr>"

definition cancel_active_row :: "string \<Rightarrow> nat \<Rightarrow> job \<Rightarrow> job" where
  "cancel_active_row code now j =
     j\<lparr>job_state := Canceled, error_code := code, updated_at := Some now, completed_at := Some now\<rparr>"

definition CancelTx :: "string \<Rightarrow> string \<Rightarrow> nat \<Rightarrow> jobs_db \<Rightarrow> (job_error + unit) \<times> jobs_db" where
  "CancelTx jid code now db =
     (if ulid_is_zero jid \<or> \<not> validErrorCode code
      then (Inl (JobError ''cancel'' ''validation'' ErrInvalidJob), db)
      else
        (let q = (\<lambda>j. job_id j = ulid_string jid \<and> job_state j = Queued);
             db1 = db\<lparr>job_table := update_where q (cancel_queued_row code now) (job_table db)\<rparr>
         in if count_where q (job_table db) = 1 then (Inr (), db1)
            else
              (let a = (\<lambda>j. job_id j = ulid_string jid \<and> active j);
                   db2 = db1\<lparr>job_table := update_where a (cancel_active_row code now) (job_table db1)\<rparr>
               in if count_where a (job_table db1) = 1 then (Inr (), db2)
                  else (case find_by job_id (ulid_string jid) (job_table db2) of
                          None \<Rightarrow> (Inl ErrNoRows, db2)
                        | Some j \<Rightarrow> (if job_state j = Canceled then Inr () else Inl ErrLeaseLost, db2)))))"

definition Cancel :: "string \<Rightarrow> string \<Rightarrow> nat \<Rightarrow> jobs_db \<Rightarrow> (job_error + unit) \<times> jobs_db" where
  "Cancel jid code now db =
     (if \<not> validErrorCode code then (Inl (JobError ''cancel'' ''validation'' ErrInvalidJob), db)
      else with_transaction (CancelTx jid code now) db)"

definition CancelOwnerJobsTx ::
  "string \<Rightarrow> string \<Rightarrow> string \<Rightarrow> string \<Rightarrow> nat \<Rightarrow> jobs_db \<Rightarrow> (job_error + nat) \<times> jobs_db" where
  "CancelOwnerJobsTx otype oid jtype code now db =
     (if blank otype \<or> blank oid \<or> blank jtype \<or> \<not> validErrorCode code
      then (Inl (JobError ''cancel owner jobs'' ''validation'' ErrInvalidJob), db)
      else
        (let mine = (\<lambda>j. owner_type j = otype \<and> owner_id j = oid \<and> job_type j = jtype);
             q = (\<lambda>j. mine j \<and> job_state j = Queued);
             a = (\<lambda>j. mine j \<and> active j);
             db1 = db\<lparr>job_table := update_where q (cancel_queued_row code now) (job_table db)\<rparr>;
             db2 = db1\<lparr>job_table := update_where a (cancel_active_row code now) (job_table db1)\<rparr>
         in (Inr (count_where q (job_table db) + count_where a (job_table db1)), db2)))"

definition CancelOwnerJobs ::
  "string \<Rightarrow> string \<Rightarrow> string \<Rightarrow> string \<Rightarrow> nat \<Rightarrow> jobs_db \<Rightarrow> (job_error + nat) \<times> jobs_db" where
  "CancelOwnerJobs otype oid jtype code now db =
     (if \<not> validErrorCode code
      then (Inl (JobError ''cancel owner jobs'' ''validation'' ErrInvalidJob), db)
      else with_transaction (CancelOwnerJobsTx otype oid jtype code now) db)"

section \<open>Recovering expired leases\<close>

text \<open>
  The terminal-recovery callback changes tables of another package in the same transaction: it
  is a parameter \<open>cb\<close> on the state \<open>'d\<close> of that package, absent (\<open>None\<close>) when none is installed.
  It receives a \<open>Job\<close> with only the fields the code fills in; \<open>recovery_job\<close> is that value.
  \<open>clk jid\<close> is the clock read when the retry of job \<open>jid\<close> is scheduled.
\<close>

type_synonym 'd recovery = "(job \<Rightarrow> 'd \<Rightarrow> job_error + 'd) option"

definition empty_job :: job where
  "empty_job = \<lparr>job_id = [], job_type = [], execution_target = [], owner_type = [], owner_id = [],
     idempotency_key = [], input_hash = [], payload_json = [], job_state = Queued, priority = 0,
     attempt_count = 0, max_attempts = 0, available_at = None, lease_owner = [],
     lease_token_hash = [], lease_expires_at = None, progress_percent = 0, error_code = [],
     created_at = None, updated_at = None, started_at = None, completed_at = None,
     ailocals_result_sha256 = []\<rparr>"

definition recovery_job :: "job \<Rightarrow> job" where
  "recovery_job j =
     empty_job\<lparr>job_id := job_id j, job_type := job_type j, owner_type := owner_type j,
       owner_id := owner_id j, job_state := Failed, attempt_count := attempt_count j,
       max_attempts := max_attempts j, error_code := LeaseExpiredErrorCode\<rparr>"

definition expired_lease :: "nat \<Rightarrow> job \<Rightarrow> bool" where
  "expired_lease now j \<longleftrightarrow>
     active j \<and> lease_expires_at j \<noteq> None \<and> ts_le_now (lease_expires_at j) now"

definition expire_row :: "job_state \<Rightarrow> nat \<Rightarrow> nat \<Rightarrow> job \<Rightarrow> job" where
  "expire_row state available now j =
     j\<lparr>job_state := state, available_at := Some available, error_code := LeaseExpiredErrorCode,
       lease_owner := [], lease_token_hash := [], lease_expires_at := None, updated_at := Some now,
       completed_at := (if state = Failed then Some now else completed_at j)\<rparr>"

text \<open>One item of the loop: the conditional update and, for a terminal failure, the callback.\<close>

definition recover_item ::
  "'d recovery \<Rightarrow> (string \<Rightarrow> nat) \<Rightarrow> nat \<Rightarrow> job \<Rightarrow> jobs_db \<times> 'd \<Rightarrow> job_error + nat \<times> (jobs_db \<times> 'd)" where
  "recover_item cb clk now item s =
     (let (db, d) = s;
          again = (attempt_count item < max_attempts item);
          state = (if again then Queued else Failed);
          available = (if again then clk (job_id item) + backoffForAttempt (attempt_count item) else now);
          hit = (\<lambda>j. job_id j = job_id item \<and> active j \<and> ts_le_now (lease_expires_at j) now);
          n = count_where hit (job_table db);
          db' = db\<lparr>job_table := update_where hit (expire_row state available now) (job_table db)\<rparr>
      in case cb of
           Some f \<Rightarrow>
             if n = 1 \<and> state = Failed
             then bind_res (f (recovery_job item) d) (\<lambda>d'. Inr (n, (db', d')))
             else Inr (n, (db', d))
         | None \<Rightarrow> Inr (n, (db', d)))"

fun recover_items ::
  "'d recovery \<Rightarrow> (string \<Rightarrow> nat) \<Rightarrow> nat \<Rightarrow> job list \<Rightarrow> jobs_db \<times> 'd \<Rightarrow> job_error + nat \<times> (jobs_db \<times> 'd)" where
  "recover_items cb clk now [] s = Inr (0, s)"
| "recover_items cb clk now (item # items) s =
     bind_res (recover_item cb clk now item s) (\<lambda>(n, s').
       bind_res (recover_items cb clk now items s') (\<lambda>(m, s''). Inr (n + m, s'')))"

definition recoverExpiredBody ::
  "'d recovery \<Rightarrow> (string \<Rightarrow> nat) \<Rightarrow> nat \<Rightarrow> jobs_db \<times> 'd \<Rightarrow> (job_error + nat) \<times> (jobs_db \<times> 'd)" where
  "recoverExpiredBody cb clk now s =
     (case recover_items cb clk now (filter (expired_lease now) (job_table (fst s))) s of
        Inl e \<Rightarrow> (Inl e, s)
      | Inr (n, (db, d)) \<Rightarrow> (Inr n, (reconcileDependencyFailuresTx now db, d)))"

definition RecoverExpired ::
  "'d recovery \<Rightarrow> (string \<Rightarrow> nat) \<Rightarrow> nat \<Rightarrow> jobs_db \<times> 'd \<Rightarrow> (job_error + nat) \<times> (jobs_db \<times> 'd)" where
  "RecoverExpired cb clk now s = with_transaction (recoverExpiredBody cb clk now) s"

definition recoverExpiredJobBody ::
  "'d recovery \<Rightarrow> (string \<Rightarrow> nat) \<Rightarrow> nat \<Rightarrow> string \<Rightarrow> jobs_db \<times> 'd \<Rightarrow> (job_error + bool) \<times> (jobs_db \<times> 'd)" where
  "recoverExpiredJobBody cb clk now jid s =
     (case find_by job_id (ulid_string jid) (job_table (fst s)) of
        None \<Rightarrow> (Inr False, s)
      | Some j \<Rightarrow>
          if \<not> active j then (Inr False, s)
          else if lease_expires_at j = None \<or> \<not> ts_le_now (lease_expires_at j) now then (Inr False, s)
          else (case recover_item cb clk now j s of
                  Inl e \<Rightarrow> (Inl e, s)
                | Inr (n, (db, d)) \<Rightarrow>
                    if n \<noteq> 1 then (Inr False, (db, d))
                    else (Inr True, (reconcileDependencyFailuresTx now db, d))))"

definition RecoverExpiredJob ::
  "'d recovery \<Rightarrow> (string \<Rightarrow> nat) \<Rightarrow> nat \<Rightarrow> string \<Rightarrow> jobs_db \<times> 'd \<Rightarrow> (job_error + bool) \<times> (jobs_db \<times> 'd)" where
  "RecoverExpiredJob cb clk now jid s =
     (if ulid_is_zero jid then (Inl (JobError ''recover expired job'' ''validation'' ErrInvalidJob), s)
      else with_transaction (recoverExpiredJobBody cb clk now jid) s)"

end
