(* ===== verification/LLM_Codec.thy ===== *)
theory LLM_Codec
  imports Go_Json_Struct Jobs
begin

text \<open>
  The wire contract of the Mac relay, internal/llmrelay/llmrelay.go and the payload functions of service.go: requests,
  results, their strict decoding and every bound, the canonical encodings, the request hash, the capability and failure
  rules.  \<open>sha\<close> is the hexadecimal SHA-256 and \<open>float_text\<close> reads the text of a JSON number as a float64 and prints it
  as \<open>Marshal\<close> does, \<open>None\<close> when it is out of range; both are parameters.  Error texts are shortened.
\<close>

record relay_env =
  sha :: "string \<Rightarrow> string"
  float_text :: "string \<Rightarrow> string option"

definition ProtocolVersion :: string where "ProtocolVersion = ''speech-worker.v1''"
definition OwnerType :: string where "OwnerType = ''llm_relay''"
definition OperationChatCompletion :: string where "OperationChatCompletion = ''chat_completion''"
definition OperationListModels :: string where "OperationListModels = ''list_models''"
definition PayloadLimitBytes :: nat where "PayloadLimitBytes = 2 * 2 ^ 20"
definition ResultLimitBytes :: int where "ResultLimitBytes = 2 * 2 ^ 20"
definition ContentLimitBytes :: nat where "ContentLimitBytes = 2 ^ 20"
definition MaxCompletionBytes :: int where "MaxCompletionBytes = 2 * 2 ^ 20"
definition MaxIdentifierBytes :: nat where "MaxIdentifierBytes = 256"
definition MaxMessages :: nat where "MaxMessages = 16"
definition MaxModels :: nat where "MaxModels = 4096"
definition MaxStructuredBytes :: nat where "MaxStructuredBytes = 64 * 2 ^ 10"
definition ResponseSchemaName :: string where "ResponseSchemaName = ''doublangu_stage_artifact''"
definition RequestHashDomain :: string where "RequestHashDomain = ''doublangu.llm-relay-request.v1''"
definition RelayCapabilityBytes :: int where "RelayCapabilityBytes = 2 * 2 ^ 20"

definition CodeUnreachable :: string where "CodeUnreachable = ''v1.relay_unreachable''"
definition CodeAuth :: string where "CodeAuth = ''v1.relay_auth''"
definition CodeInvalidResponse :: string where "CodeInvalidResponse = ''v1.relay_invalid_response''"
definition CodeModelUnknown :: string where "CodeModelUnknown = ''v1.relay_model_unknown''"
definition CodeCanceled :: string where "CodeCanceled = ''v1.relay_canceled''"
definition CodeParentCanceled :: string where "CodeParentCanceled = ''v1.relay_parent_canceled''"
definition CodeNondeterministic :: string where "CodeNondeterministic = ''v1.relay_nondeterministic_result''"
definition CodeUnavailable :: string where "CodeUnavailable = ''v1.relay_unavailable''"

definition knownTimingKeys :: "string list" where
  "knownTimingKeys = [''model_load_duration'', ''time_to_first_token'', ''prompt_eval_duration'', ''generation_duration'',
     ''total_time'']"

section \<open>Data\<close>

record Message =
  msg_role :: string
  msg_content :: string

record ResponseFormat =
  rf_type :: string
  rf_name :: string
  rf_strict :: bool
  rf_schema :: string

record Options =
  op_temperature :: int
  op_max_tokens :: int

record Limits =
  lim_bytes :: int

record ChatCompletionRequest =
  cc_version :: string
  cc_operation :: string
  cc_request :: string
  cc_model :: string
  cc_messages :: "Message list"
  cc_format :: ResponseFormat
  cc_options :: Options
  cc_limits :: Limits

record ListModelsRequest =
  lm_version :: string
  lm_operation :: string
  lm_request :: string
  lm_limits :: Limits

record Usage =
  us_prompt :: int
  us_completion :: int
  us_total :: int

text \<open>The struct a chat result is decoded into; \<open>Timing\<close> is a map of any JSON values.\<close>

record raw_chat =
  rw_request :: string
  rw_content :: string
  rw_model :: string
  rw_provider :: string
  rw_finish :: string
  rw_usage :: Usage
  rw_timing :: "(string \<times> json) list"

record ChatResult =
  cr_request :: string
  cr_content :: string
  cr_model :: string
  cr_provider :: string
  cr_finish :: string
  cr_usage :: Usage
  cr_usage_json :: string
  cr_timing_json :: string

record ListModelsResult =
  mr_request :: string
  mr_models :: "string list"

record raw_models =
  rm_request :: string
  rm_models :: "string list option"

record RelayCapability =
  rc_bytes :: int

record RelayPayload =
  rp_operation :: string
  rp_request :: string
  rp_limits :: Limits

type_synonym relay_error = string

section \<open>Hashes and identifiers\<close>

definition HashRequest :: "relay_env \<Rightarrow> string \<Rightarrow> string" where
  "HashRequest E payload = sha E (RequestHashDomain @ [CHR 0x00] @ payload)"

definition IdempotencyKey :: "string \<Rightarrow> string" where
  "IdempotencyKey h = ''llm.relay:'' @ h"

definition validIdentifier :: "string \<Rightarrow> bool" where
  "validIdentifier v \<longleftrightarrow> v \<noteq> [] \<and> valid_utf8 v \<and> length v \<le> MaxIdentifierBytes"

section \<open>Requests\<close>

definition Limits_Validate :: "Limits \<Rightarrow> relay_error + unit" where
  "Limits_Validate l =
     (if lim_bytes l \<le> 0 \<or> lim_bytes l > MaxCompletionBytes then Inl ''max_completion_bytes'' else Inr ())"

definition validate_message :: "Message \<Rightarrow> relay_error + unit" where
  "validate_message m =
     (if msg_role m \<noteq> ''user'' \<and> msg_role m \<noteq> ''assistant'' then Inl ''message role''
      else if blank (msg_content m) \<or> \<not> valid_utf8 (msg_content m) then Inl ''message content''
      else Inr ())"

text \<open>\<open>bytes.TrimSpace\<close>, first byte and \<open>json.Valid\<close>: the schema is the text of a JSON object.\<close>

definition schema_object :: "string \<Rightarrow> bool" where
  "schema_object s \<longleftrightarrow>
     (let t = trim_space s in t \<noteq> [] \<and> hd t = CHR ''{'' \<and> json_parse t \<noteq> None)"

definition Validate :: "ChatCompletionRequest \<Rightarrow> relay_error + unit" where
  "Validate r =
     (if cc_version r \<noteq> ProtocolVersion then Inl ''unsupported protocol''
      else if cc_operation r \<noteq> OperationChatCompletion then Inl ''unsupported operation''
      else if \<not> validIdentifier (cc_request r) then Inl ''request_id''
      else if \<not> validIdentifier (cc_model r) then Inl ''model''
      else if length (cc_messages r) < 1 \<or> length (cc_messages r) > MaxMessages then Inl ''messages''
      else bind_res (check_all validate_message (cc_messages r)) (\<lambda>_.
      if rf_type (cc_format r) \<noteq> ''json_schema'' then Inl ''response_format type''
      else if rf_name (cc_format r) \<noteq> ResponseSchemaName \<or> \<not> rf_strict (cc_format r) then Inl ''response_format name''
      else if \<not> schema_object (rf_schema (cc_format r)) then Inl ''response_format schema''
      else if op_temperature (cc_options r) < 0 \<or> op_temperature (cc_options r) > 2000 then Inl ''temperature_milli''
      else if op_max_tokens (cc_options r) < 1024 \<or> op_max_tokens (cc_options r) > 65536 then Inl ''max_output_tokens''
      else Limits_Validate (cc_limits r)))"

definition message_fields :: "Message field list" where
  "message_fields = [field ''role'' msg_role (\<lambda>v r. r\<lparr>msg_role := v\<rparr>) dec_string,
     field ''content'' msg_content (\<lambda>v r. r\<lparr>msg_content := v\<rparr>) dec_string]"

definition schema_fields :: "ResponseFormat field list" where
  "schema_fields = [field ''name'' rf_name (\<lambda>v r. r\<lparr>rf_name := v\<rparr>) dec_string,
     field ''strict'' rf_strict (\<lambda>v r. r\<lparr>rf_strict := v\<rparr>) dec_bool,
     field ''schema'' rf_schema (\<lambda>v r. r\<lparr>rf_schema := v\<rparr>) dec_raw]"

text \<open>The nested anonymous struct lives inside the same record: its decoder changes the three fields it has.\<close>

definition format_fields :: "ResponseFormat field list" where
  "format_fields = [field ''type'' rf_type (\<lambda>v r. r\<lparr>rf_type := v\<rparr>) dec_string,
     field ''json_schema'' (\<lambda>r. r) (\<lambda>v r. v) (dec_struct True schema_fields)]"

definition option_fields :: "Options field list" where
  "option_fields = [field ''temperature_milli'' op_temperature (\<lambda>v r. r\<lparr>op_temperature := v\<rparr>) dec_int,
     field ''max_output_tokens'' op_max_tokens (\<lambda>v r. r\<lparr>op_max_tokens := v\<rparr>) dec_int]"

definition limit_fields :: "Limits field list" where
  "limit_fields = [field ''max_completion_bytes'' lim_bytes (\<lambda>v r. r\<lparr>lim_bytes := v\<rparr>) dec_int]"

definition zero_message :: Message where "zero_message = \<lparr>msg_role = [], msg_content = []\<rparr>"
definition zero_format :: ResponseFormat where "zero_format = \<lparr>rf_type = [], rf_name = [], rf_strict = False, rf_schema = []\<rparr>"
definition zero_options :: Options where "zero_options = \<lparr>op_temperature = 0, op_max_tokens = 0\<rparr>"
definition zero_limits :: Limits where "zero_limits = \<lparr>lim_bytes = 0\<rparr>"

definition zero_chat :: ChatCompletionRequest where
  "zero_chat = \<lparr>cc_version = [], cc_operation = [], cc_request = [], cc_model = [], cc_messages = [], cc_format = zero_format,
     cc_options = zero_options, cc_limits = zero_limits\<rparr>"

text \<open>A slice whose nil value makes no difference to the code.\<close>

definition dec_list :: "'a \<Rightarrow> 'a decoder \<Rightarrow> 'a list decoder" where
  "dec_list zero dec old j = map_option (\<lambda>v. case v of None \<Rightarrow> [] | Some xs \<Rightarrow> xs) (dec_slice zero dec (Some old) j)"

definition chat_fields :: "ChatCompletionRequest field list" where
  "chat_fields = [field ''protocol_version'' cc_version (\<lambda>v r. r\<lparr>cc_version := v\<rparr>) dec_string,
     field ''operation'' cc_operation (\<lambda>v r. r\<lparr>cc_operation := v\<rparr>) dec_string,
     field ''request_id'' cc_request (\<lambda>v r. r\<lparr>cc_request := v\<rparr>) dec_string,
     field ''model'' cc_model (\<lambda>v r. r\<lparr>cc_model := v\<rparr>) dec_string,
     field ''messages'' cc_messages (\<lambda>v r. r\<lparr>cc_messages := v\<rparr>) (dec_list zero_message (dec_struct True message_fields)),
     field ''response_format'' cc_format (\<lambda>v r. r\<lparr>cc_format := v\<rparr>) (dec_struct True format_fields),
     field ''options'' cc_options (\<lambda>v r. r\<lparr>cc_options := v\<rparr>) (dec_struct True option_fields),
     field ''limits'' cc_limits (\<lambda>v r. r\<lparr>cc_limits := v\<rparr>) (dec_struct True limit_fields)]"

text \<open>\<open>decodeStrict\<close>: unknown fields and anything behind the value are errors.\<close>

definition decodeStrict :: "'r decoder \<Rightarrow> 'r \<Rightarrow> string \<Rightarrow> relay_error + 'r" where
  "decodeStrict dec zero data =
     (case Option.bind (json_parse data) (dec zero) of None \<Rightarrow> Inl ''decode'' | Some r \<Rightarrow> Inr r)"

definition DecodeChatCompletionRequest :: "string \<Rightarrow> relay_error + ChatCompletionRequest" where
  "DecodeChatCompletionRequest data =
     bind_res (decodeStrict (dec_struct True chat_fields) zero_chat data) (\<lambda>r.
     bind_res (Validate r) (\<lambda>_. Inr r))"

definition zero_list_models :: ListModelsRequest where
  "zero_list_models = \<lparr>lm_version = [], lm_operation = [], lm_request = [], lm_limits = zero_limits\<rparr>"

definition list_fields :: "ListModelsRequest field list" where
  "list_fields = [field ''protocol_version'' lm_version (\<lambda>v r. r\<lparr>lm_version := v\<rparr>) dec_string,
     field ''operation'' lm_operation (\<lambda>v r. r\<lparr>lm_operation := v\<rparr>) dec_string,
     field ''request_id'' lm_request (\<lambda>v r. r\<lparr>lm_request := v\<rparr>) dec_string,
     field ''limits'' lm_limits (\<lambda>v r. r\<lparr>lm_limits := v\<rparr>) (dec_struct True limit_fields)]"

text \<open>First a map of raw members, then its encoding (members sorted, strings compacted) is decoded strictly.\<close>

definition DecodeListModelsRequest :: "string \<Rightarrow> relay_error + ListModelsRequest" where
  "DecodeListModelsRequest data =
     bind_res (decodeStrict (dec_map Some) [] data) (\<lambda>raw.
     if \<exists>k \<in> {''model'', ''messages'', ''response_format'', ''options''}. k \<in> fst ` set raw then Inl ''list_models forbids''
     else bind_res (decodeStrict (dec_struct True list_fields) zero_list_models
              (json_text (obj_sorted (map (\<lambda>(k, j). (k, json_compact j)) raw)))) (\<lambda>r.
       if lm_version r \<noteq> ProtocolVersion then Inl ''unsupported protocol''
       else if lm_operation r \<noteq> OperationListModels then Inl ''unsupported operation''
       else if \<not> validIdentifier (lm_request r) then Inl ''request_id''
       else bind_res (Limits_Validate (lm_limits r)) (\<lambda>_. Inr r)))"

section \<open>Building requests\<close>

definition message_json :: "Message \<Rightarrow> json" where
  "message_json m = obj [(''role'', json_str (msg_role m)), (''content'', json_str (msg_content m))]"

definition limits_json :: "Limits \<Rightarrow> json" where
  "limits_json l = obj [(''max_completion_bytes'', json_of_int (lim_bytes l))]"

text \<open>\<open>json.Marshal\<close> of the request; the schema is compacted, and a schema that is no JSON is an error.\<close>

definition chat_json :: "ChatCompletionRequest \<Rightarrow> json option" where
  "chat_json r =
     map_option (\<lambda>schema. obj
       [(''protocol_version'', json_str (cc_version r)), (''operation'', json_str (cc_operation r)),
        (''request_id'', json_str (cc_request r)), (''model'', json_str (cc_model r)),
        (''messages'', JArr (map message_json (cc_messages r))),
        (''response_format'', obj [(''type'', json_str (rf_type (cc_format r))),
           (''json_schema'', obj [(''name'', json_str (rf_name (cc_format r))), (''strict'', JBool (rf_strict (cc_format r))),
              (''schema'', json_compact schema)])]),
        (''options'', obj [(''temperature_milli'', json_of_int (op_temperature (cc_options r))),
           (''max_output_tokens'', json_of_int (op_max_tokens (cc_options r)))]),
        (''limits'', limits_json (cc_limits r))]) (json_parse (rf_schema (cc_format r)))"

definition list_json :: "ListModelsRequest \<Rightarrow> json" where
  "list_json r = obj [(''protocol_version'', json_str (lm_version r)), (''operation'', json_str (lm_operation r)),
     (''request_id'', json_str (lm_request r)), (''limits'', limits_json (lm_limits r))]"

definition build_request :: "string \<Rightarrow> string \<Rightarrow> Message list \<Rightarrow> string \<Rightarrow> int \<Rightarrow> int \<Rightarrow> ChatCompletionRequest" where
  "build_request request model messages schema temperature tokens =
     \<lparr>cc_version = ProtocolVersion, cc_operation = OperationChatCompletion, cc_request = ulid_string request, cc_model = model,
      cc_messages = messages,
      cc_format = \<lparr>rf_type = ''json_schema'', rf_name = ResponseSchemaName, rf_strict = True, rf_schema = trim_space schema\<rparr>,
      cc_options = \<lparr>op_temperature = temperature, op_max_tokens = tokens\<rparr>, cc_limits = \<lparr>lim_bytes = MaxCompletionBytes\<rparr>\<rparr>"

definition BuildChatCompletion ::
  "relay_env \<Rightarrow> string \<Rightarrow> string \<Rightarrow> Message list \<Rightarrow> string \<Rightarrow> int \<Rightarrow> int \<Rightarrow> relay_error + string \<times> string" where
  "BuildChatCompletion E request model messages schema temperature tokens =
     (if ulid_is_zero request then Inl ''request id is required''
      else let r = build_request request model messages schema temperature tokens
           in bind_res (Validate r) (\<lambda>_.
              case chat_json r of
                None \<Rightarrow> Inl ''marshal''
              | Some j \<Rightarrow>
                  if length (json_text j) > PayloadLimitBytes then Inl ''payload exceeds the limit''
                  else Inr (json_text j, HashRequest E (json_text j))))"

definition BuildListModels :: "relay_env \<Rightarrow> string \<Rightarrow> relay_error + string \<times> string" where
  "BuildListModels E request =
     (if ulid_is_zero request then Inl ''request id is required''
      else let payload = json_text (list_json \<lparr>lm_version = ProtocolVersion, lm_operation = OperationListModels,
              lm_request = ulid_string request, lm_limits = \<lparr>lim_bytes = MaxCompletionBytes\<rparr>\<rparr>)
           in if length payload > PayloadLimitBytes then Inl ''payload exceeds the limit''
              else Inr (payload, HashRequest E payload))"

text \<open>The lenient probe reads the operation; the operation's own decoder reads the rest.\<close>

record relay_probe =
  pb_version :: string
  pb_operation :: string

definition probe_fields :: "relay_probe field list" where
  "probe_fields = [field ''protocol_version'' pb_version (\<lambda>v r. r\<lparr>pb_version := v\<rparr>) dec_string,
     field ''operation'' pb_operation (\<lambda>v r. r\<lparr>pb_operation := v\<rparr>) dec_string]"

definition DecodeRelayPayload :: "string \<Rightarrow> relay_error + RelayPayload" where
  "DecodeRelayPayload data =
     (case Option.bind (json_parse data) (dec_struct False probe_fields \<lparr>pb_version = [], pb_operation = []\<rparr>) of
        None \<Rightarrow> Inl ''decode payload''
      | Some probe \<Rightarrow>
          if pb_operation probe = OperationChatCompletion then
            bind_res (DecodeChatCompletionRequest data) (\<lambda>r.
              Inr \<lparr>rp_operation = cc_operation r, rp_request = cc_request r, rp_limits = cc_limits r\<rparr>)
          else if pb_operation probe = OperationListModels then
            bind_res (DecodeListModelsRequest data) (\<lambda>r.
              Inr \<lparr>rp_operation = lm_operation r, rp_request = lm_request r, rp_limits = lm_limits r\<rparr>)
          else Inl ''unsupported operation'')"

section \<open>Results\<close>

definition usage_fields :: "Usage field list" where
  "usage_fields = [field ''prompt_tokens'' us_prompt (\<lambda>v r. r\<lparr>us_prompt := v\<rparr>) dec_int,
     field ''completion_tokens'' us_completion (\<lambda>v r. r\<lparr>us_completion := v\<rparr>) dec_int,
     field ''total_tokens'' us_total (\<lambda>v r. r\<lparr>us_total := v\<rparr>) dec_int]"

definition zero_raw :: raw_chat where
  "zero_raw = \<lparr>rw_request = [], rw_content = [], rw_model = [], rw_provider = [], rw_finish = [],
     rw_usage = \<lparr>us_prompt = 0, us_completion = 0, us_total = 0\<rparr>, rw_timing = []\<rparr>"

definition raw_fields :: "raw_chat field list" where
  "raw_fields = [field ''request_id'' rw_request (\<lambda>v r. r\<lparr>rw_request := v\<rparr>) dec_string,
     field ''content'' rw_content (\<lambda>v r. r\<lparr>rw_content := v\<rparr>) dec_string,
     field ''reported_model'' rw_model (\<lambda>v r. r\<lparr>rw_model := v\<rparr>) dec_string,
     field ''provider_request_id'' rw_provider (\<lambda>v r. r\<lparr>rw_provider := v\<rparr>) dec_string,
     field ''finish_reason'' rw_finish (\<lambda>v r. r\<lparr>rw_finish := v\<rparr>) dec_string,
     field ''usage'' rw_usage (\<lambda>v r. r\<lparr>rw_usage := v\<rparr>) (dec_struct True usage_fields),
     field ''timing'' rw_timing (\<lambda>v r. r\<lparr>rw_timing := v\<rparr>) (dec_map Some)]"

definition usage_json :: "Usage \<Rightarrow> json" where
  "usage_json u = obj [(''prompt_tokens'', json_of_int (us_prompt u)), (''completion_tokens'', json_of_int (us_completion u)),
     (''total_tokens'', json_of_int (us_total u))]"

text \<open>One entry of the timing map: a known key with a number that a float64 can hold (such a number is finite).\<close>

definition timing_entry :: "relay_env \<Rightarrow> string \<times> json \<Rightarrow> relay_error + string \<times> json" where
  "timing_entry E e =
     (if fst e \<notin> set knownTimingKeys then Inl ''unknown timing key''
      else case snd e of
             JNum n \<Rightarrow> (case float_text E n of None \<Rightarrow> Inl ''timing number'' | Some t \<Rightarrow> Inr (fst e, JNum t))
           | _ \<Rightarrow> Inl ''timing must be a number'')"

definition DecodeChatResult :: "relay_env \<Rightarrow> string \<Rightarrow> string \<Rightarrow> int \<Rightarrow> relay_error + ChatResult" where
  "DecodeChatResult E data request maxBytes =
     (if int (length data) > maxBytes then Inl ''result exceeds the job bound''
      else bind_res (decodeStrict (dec_struct True raw_fields) zero_raw data) (\<lambda>raw.
      if rw_request raw \<noteq> request then Inl ''request_id does not match''
      else if rw_content raw = [] \<or> length (rw_content raw) > ContentLimitBytes then Inl ''content''
      else if length (rw_model raw) > MaxIdentifierBytes \<or> length (rw_provider raw) > MaxIdentifierBytes then Inl ''reported model''
      else if \<not> valid_utf8 (rw_model raw) \<or> \<not> valid_utf8 (rw_provider raw) then Inl ''reported model''
      else if rw_finish raw \<noteq> ''stop'' \<and> rw_finish raw \<noteq> [] then Inl ''finish_reason''
      else if us_prompt (rw_usage raw) < 0 \<or> us_completion (rw_usage raw) < 0 \<or> us_total (rw_usage raw) < 0 then Inl ''usage''
      else bind_res (map_res (timing_entry E) (rw_timing raw)) (\<lambda>timing.
        let usage = json_text (usage_json (rw_usage raw));
            timings = (if timing = [] then [] else json_text (obj_sorted timing))
        in if length usage > MaxStructuredBytes \<or> length timings > MaxStructuredBytes then Inl ''usage/timing size''
           else Inr \<lparr>cr_request = rw_request raw, cr_content = rw_content raw, cr_model = rw_model raw,
             cr_provider = rw_provider raw, cr_finish = rw_finish raw, cr_usage = rw_usage raw, cr_usage_json = usage,
             cr_timing_json = timings\<rparr>)))"

definition raw_or :: "string \<Rightarrow> json \<Rightarrow> relay_error + json" where
  "raw_or s d = (if s = [] then Inr d else case json_parse s of None \<Rightarrow> Inl ''invalid JSON'' | Some j \<Rightarrow> Inr (json_compact j))"

definition CanonicalChatResult :: "ChatResult \<Rightarrow> relay_error + string" where
  "CanonicalChatResult r =
     bind_res (raw_or (cr_timing_json r) (JObj [])) (\<lambda>timing.
     bind_res (raw_or (cr_usage_json r) (usage_json (cr_usage r))) (\<lambda>usage.
     Inr (json_text (obj [(''request_id'', json_str (cr_request r)), (''content'', json_str (cr_content r)),
       (''reported_model'', json_str (cr_model r)), (''provider_request_id'', json_str (cr_provider r)),
       (''finish_reason'', json_str (cr_finish r)), (''usage'', usage), (''timing'', timing)]))))"

definition CanonicalListModelsResult :: "ListModelsResult \<Rightarrow> string" where
  "CanonicalListModelsResult r =
     json_text (obj [(''request_id'', json_str (mr_request r)), (''models'', JArr (map json_str (mr_models r)))])"

definition models_fields :: "raw_models field list" where
  "models_fields = [field ''request_id'' rm_request (\<lambda>v r. r\<lparr>rm_request := v\<rparr>) dec_string,
     field ''models'' rm_models (\<lambda>v r. r\<lparr>rm_models := v\<rparr>) (dec_slice [] dec_string)]"

fun check_models :: "string list \<Rightarrow> string list \<Rightarrow> relay_error + unit" where
  "check_models seen [] = Inr ()"
| "check_models seen (m # ms) =
     (if \<not> validIdentifier m then Inl ''model name'' else if m \<in> set seen then Inl ''duplicate model''
      else check_models (m # seen) ms)"

definition DecodeListModelsResult :: "string \<Rightarrow> string \<Rightarrow> int \<Rightarrow> relay_error + ListModelsResult" where
  "DecodeListModelsResult data request maxBytes =
     (if int (length data) > maxBytes then Inl ''result exceeds the job bound''
      else bind_res (decodeStrict (dec_struct True models_fields) \<lparr>rm_request = [], rm_models = None\<rparr> data) (\<lambda>raw.
      if rm_request raw \<noteq> request then Inl ''request_id does not match''
      else case rm_models raw of
        None \<Rightarrow> Inl ''models must be an array''
      | Some models \<Rightarrow>
          if length models > MaxModels then Inl ''too many models''
          else bind_res (check_models [] models) (\<lambda>_. Inr \<lparr>mr_request = rm_request raw, mr_models = models\<rparr>)))"

section \<open>Capabilities and failures\<close>

definition capability_fields :: "RelayCapability field list" where
  "capability_fields = [field ''max_completion_bytes'' rc_bytes (\<lambda>v r. r\<lparr>rc_bytes := v\<rparr>) dec_int]"

definition DecodeRelayCapabilities :: "string \<Rightarrow> relay_error + RelayCapability list" where
  "DecodeRelayCapabilities data =
     (if blank data then Inr []
      else bind_res (decodeStrict (dec_list \<lparr>rc_bytes = 0\<rparr> (dec_struct True capability_fields)) [] data) (\<lambda>cs.
      if length cs > 1 then Inl ''at most one relay capability''
      else if \<exists>c \<in> set cs. rc_bytes c \<noteq> RelayCapabilityBytes then Inl ''max_completion_bytes''
      else Inr cs))"

definition RelayCapabilitySubset :: "RelayCapability list \<Rightarrow> RelayCapability list \<Rightarrow> bool" where
  "RelayCapabilitySubset requested enrolled \<longleftrightarrow>
     (\<forall>want \<in> set requested. \<exists>have \<in> set enrolled. 0 < rc_bytes want \<and> rc_bytes want \<le> rc_bytes have)"

definition ValidateFailure :: "string \<Rightarrow> bool \<Rightarrow> relay_error + unit" where
  "ValidateFailure code retry =
     (if code = CodeUnreachable then Inr ()
      else if code \<in> {CodeAuth, CodeInvalidResponse, CodeModelUnknown, CodeCanceled} then
        (if retry then Inl ''must not request retry'' else Inr ())
      else Inl ''unknown failure code'')"

end
