(* ===== verification/Auth_Limiter.thy ===== *)
theory Auth_Limiter
  imports Complex_Main Go_Prelude
begin

text \<open>
  The token-bucket limiter of login attempts, internal/auth/ratelimit.go.  A time is the number of
  nanoseconds since Go's zero time (a \<open>time.Time\<close> left at its zero value is 0), a duration a 64-bit
  number of nanoseconds; the difference of two times saturates, as \<open>Time.Sub\<close> does.  The float64 token
  count is an exact rational here: rounding is not modelled.  Calls are atomic (the method holds the
  mutex) and happen in the order of their times.
\<close>

section \<open>The limiter\<close>

record bucket =
  bk_tokens :: rat
  bk_seen :: int

record limiter =
  rl_buckets :: "string \<rightharpoonup> bucket"
  rl_rate :: int
  rl_interval :: int
  rl_cleanup :: int

definition max_duration :: int where "max_duration = 2 ^ 63 - 1"

definition time_sub :: "int \<Rightarrow> int \<Rightarrow> int" where
  "time_sub a b = max (- max_duration - 1) (min max_duration (a - b))"

definition seconds :: "int \<Rightarrow> rat" where
  "seconds d = of_int d / 10 ^ 9"

definition minute :: int where "minute = 60 * 10 ^ 9"

definition NewRateLimiter :: "int \<Rightarrow> int \<Rightarrow> int \<Rightarrow> limiter" where
  "NewRateLimiter rate interval now =
     \<lparr>rl_buckets = Map.empty, rl_rate = (if rate \<le> 0 then 1 else rate), rl_interval = interval, rl_cleanup = now\<rparr>"

definition LoginRateLimiter :: "int \<Rightarrow> limiter" where
  "LoginRateLimiter now = NewRateLimiter 5 minute now"

text \<open>The sweep over stale buckets, at most every ten minutes.\<close>

definition sweep :: "limiter \<Rightarrow> int \<Rightarrow> limiter" where
  "sweep rl now =
     (if time_sub now (rl_cleanup rl) > 10 * minute
      then rl\<lparr>rl_buckets := (\<lambda>k. case rl_buckets rl k of None \<Rightarrow> None
                | Some b \<Rightarrow> if time_sub now (bk_seen b) > rl_interval rl * 2 then None else Some b),
              rl_cleanup := now\<rparr>
      else rl)"

definition new_bucket :: "int \<Rightarrow> bucket" where
  "new_bucket rate = \<lparr>bk_tokens = of_int rate, bk_seen = 0\<rparr>"

definition refill :: "int \<Rightarrow> int \<Rightarrow> bucket \<Rightarrow> int \<Rightarrow> rat" where
  "refill rate interval b now =
     (let t = bk_tokens b + seconds (time_sub now (bk_seen b)) * (of_int rate / seconds interval)
      in if t > of_int rate then of_int rate else t)"

definition allowAt :: "limiter \<Rightarrow> string \<Rightarrow> int \<Rightarrow> bool \<times> limiter" where
  "allowAt rl key now =
     (let swept = sweep rl now;
          b = (case rl_buckets swept key of None \<Rightarrow> new_bucket (rl_rate rl) | Some b \<Rightarrow> b);
          t = refill (rl_rate rl) (rl_interval rl) b now;
          allowed = \<not> t < 1
      in (allowed, swept\<lparr>rl_buckets := (rl_buckets swept)
            (key \<mapsto> \<lparr>bk_tokens = (if allowed then t - 1 else t), bk_seen = now\<rparr>)\<rparr>))"

text \<open>A run of calls and its answers.\<close>

fun answers :: "limiter \<Rightarrow> (string \<times> int) list \<Rightarrow> bool list" where
  "answers rl [] = []"
| "answers rl ((key, now) # calls) = (let (ok, rl') = allowAt rl key now in ok # answers rl' calls)"

section \<open>A limiter without buckets to forget\<close>

text \<open>The reference keeps one bucket for every key for ever.\<close>

definition ref_allow :: "int \<Rightarrow> int \<Rightarrow> (string \<Rightarrow> bucket) \<Rightarrow> string \<Rightarrow> int \<Rightarrow> bool \<times> (string \<Rightarrow> bucket)" where
  "ref_allow rate interval f key now =
     (let t = refill rate interval (f key) now; allowed = 1 \<le> t
      in (allowed, f(key := \<lparr>bk_tokens = (if allowed then t - 1 else t), bk_seen = now\<rparr>)))"

fun ref_answers :: "int \<Rightarrow> int \<Rightarrow> (string \<Rightarrow> bucket) \<Rightarrow> (string \<times> int) list \<Rightarrow> bool list" where
  "ref_answers rate interval f [] = []"
| "ref_answers rate interval f ((key, now) # calls) =
     (let (ok, f') = ref_allow rate interval f key now in ok # ref_answers rate interval f' calls)"

text \<open>A bucket that is full again at every time from now on.\<close>

definition full_from :: "int \<Rightarrow> int \<Rightarrow> bucket \<Rightarrow> int \<Rightarrow> bool" where
  "full_from rate interval b now \<longleftrightarrow> (\<forall>t \<ge> now. refill rate interval b t = of_int rate)"

lemma time_sub_mono: "a \<le> a' \<Longrightarrow> time_sub a b \<le> time_sub a' b"
  by (simp add: time_sub_def)

lemma refill_full:
  assumes "0 < rate" and "0 < interval" and "0 \<le> bk_tokens b" and "interval \<le> time_sub now (bk_seen b)"
  shows "full_from rate interval b now"
  unfolding full_from_def
proof (intro allI impI)
  fix t assume t: "now \<le> t"
  have "seconds interval \<le> seconds (time_sub t (bk_seen b))"
    using assms(4) time_sub_mono[OF t, of "bk_seen b"] by (simp add: seconds_def divide_le_cancel)
  moreover have "0 < seconds interval" using assms(2) by (simp add: seconds_def)
  ultimately have "of_int rate \<le> seconds (time_sub t (bk_seen b)) * (of_int rate / seconds interval)"
    using assms(1) by (simp add: field_simps)
  then show "refill rate interval b t = of_int rate" using assms(3) by (simp add: refill_def Let_def)
qed

lemma refill_nonneg:
  assumes "0 < rate" and "0 < interval" and "0 \<le> bk_tokens b" and "bk_seen b \<le> now"
  shows "0 \<le> refill rate interval b now"
proof -
  have "0 \<le> time_sub now (bk_seen b)" using assms(4) by (simp add: time_sub_def max_duration_def)
  then have "0 \<le> seconds (time_sub now (bk_seen b)) * (of_int rate / seconds interval)"
    using assms(1,2) by (simp add: seconds_def)
  then show ?thesis using assms(1,3) by (simp add: refill_def Let_def)
qed

lemma refill_new: "0 < rate \<Longrightarrow> 0 < interval \<Longrightarrow> 0 \<le> now \<Longrightarrow> refill rate interval (new_bucket rate) now = of_int rate"
proof -
  assume r: "0 < rate" "0 < interval" "0 \<le> now"
  then have "0 \<le> time_sub now 0" by (simp add: time_sub_def max_duration_def)
  then have "0 \<le> seconds (time_sub now 0) * (of_int rate / seconds interval)" using r by (simp add: seconds_def)
  then show ?thesis by (simp add: refill_def new_bucket_def Let_def)
qed

text \<open>The two agree on every bucket that is there; a bucket that is gone is full in the reference.\<close>

definition agree :: "limiter \<Rightarrow> (string \<Rightarrow> bucket) \<Rightarrow> int \<Rightarrow> bool" where
  "agree rl f now \<longleftrightarrow> (\<forall>k. 0 \<le> bk_tokens (f k) \<and> bk_seen (f k) \<le> now \<and>
     (case rl_buckets rl k of Some b \<Rightarrow> f k = b | None \<Rightarrow> full_from (rl_rate rl) (rl_interval rl) (f k) now))"

lemma full_from_later: "full_from r i b now \<Longrightarrow> now \<le> t \<Longrightarrow> full_from r i b t"
  by (simp add: full_from_def)

lemma sweep_simps [simp]: "rl_rate (sweep rl now) = rl_rate rl" "rl_interval (sweep rl now) = rl_interval rl"
  by (simp_all add: sweep_def)

lemma agree_sweep:
  assumes "agree rl f now" and "now \<le> t" and "0 < rl_rate rl" and "0 < rl_interval rl"
  shows "agree (sweep rl t) f t"
  unfolding agree_def
proof (rule allI, intro conjI)
  fix k
  from assms(1) have k: "0 \<le> bk_tokens (f k)" "bk_seen (f k) \<le> now"
    "case rl_buckets rl k of Some b \<Rightarrow> f k = b | None \<Rightarrow> full_from (rl_rate rl) (rl_interval rl) (f k) now"
    by (auto simp: agree_def)
  show "0 \<le> bk_tokens (f k)" "bk_seen (f k) \<le> t" using k assms(2) by auto
  have full: "full_from (rl_rate rl) (rl_interval rl) (f k) t" if "rl_interval rl * 2 < time_sub t (bk_seen (f k))"
    by (rule refill_full[OF assms(3,4) k(1)]) (use that assms(4) in simp)
  show "case rl_buckets (sweep rl t) k of
      Some b \<Rightarrow> f k = b | None \<Rightarrow> full_from (rl_rate (sweep rl t)) (rl_interval (sweep rl t)) (f k) t"
    using k(3) full full_from_later[OF _ assms(2)]
    by (auto simp: sweep_def split: option.splits)
qed

lemma agree_upd:
  "agree rl f now \<Longrightarrow> 0 \<le> x \<Longrightarrow>
   agree (rl\<lparr>rl_buckets := (rl_buckets rl)(k \<mapsto> \<lparr>bk_tokens = x, bk_seen = now\<rparr>)\<rparr>) (f(k := \<lparr>bk_tokens = x, bk_seen = now\<rparr>)) now"
  unfolding agree_def
proof (rule allI)
  fix j
  assume a: "\<forall>k. 0 \<le> bk_tokens (f k) \<and> bk_seen (f k) \<le> now \<and>
     (case rl_buckets rl k of Some b \<Rightarrow> f k = b | None \<Rightarrow> full_from (rl_rate rl) (rl_interval rl) (f k) now)" and x: "0 \<le> x"
  let ?b = "\<lparr>bk_tokens = x, bk_seen = now\<rparr>" and ?rl = "rl\<lparr>rl_buckets := (rl_buckets rl)(k \<mapsto> \<lparr>bk_tokens = x, bk_seen = now\<rparr>)\<rparr>"
  show "0 \<le> bk_tokens ((f(k := ?b)) j) \<and> bk_seen ((f(k := ?b)) j) \<le> now \<and>
     (case rl_buckets ?rl j of Some b \<Rightarrow> (f(k := ?b)) j = b | None \<Rightarrow> full_from (rl_rate ?rl) (rl_interval ?rl) ((f(k := ?b)) j) now)"
    using a[rule_format, of j] x by (cases "j = k"; cases "rl_buckets rl j") auto
qed

lemma allow_agree:
  assumes "agree rl f now" and "now \<le> t" and "0 \<le> t" and "0 < rl_rate rl" and "0 < rl_interval rl"
  shows "fst (allowAt rl k t) = fst (ref_allow (rl_rate rl) (rl_interval rl) f k t) \<and>
    agree (snd (allowAt rl k t)) (snd (ref_allow (rl_rate rl) (rl_interval rl) f k t)) t"
proof -
  let ?b = "case rl_buckets (sweep rl t) k of None \<Rightarrow> new_bucket (rl_rate rl) | Some b \<Rightarrow> b"
  note sw = agree_sweep[OF assms(1,2,4,5)]
  have eq: "refill (rl_rate rl) (rl_interval rl) ?b t = refill (rl_rate rl) (rl_interval rl) (f k) t"
  proof (cases "rl_buckets (sweep rl t) k")
    case None
    then have "full_from (rl_rate rl) (rl_interval rl) (f k) t" using sw by (auto simp: agree_def dest: spec[of _ k])
    then show ?thesis using None refill_new[OF assms(4,5,3)] by (simp add: full_from_def)
  next
    case (Some b)
    then show ?thesis using sw by (auto simp: agree_def dest: spec[of _ k])
  qed
  have f: "0 \<le> bk_tokens (f k)" "bk_seen (f k) \<le> t" using sw by (auto simp: agree_def)
  have "0 \<le> refill (rl_rate rl) (rl_interval rl) (f k) t" by (rule refill_nonneg[OF assms(4,5) f])
  then have x: "0 \<le> (if 1 \<le> refill (rl_rate rl) (rl_interval rl) (f k) t then refill (rl_rate rl) (rl_interval rl) (f k) t - 1
      else refill (rl_rate rl) (rl_interval rl) (f k) t)" by simp
  show ?thesis
    using agree_upd[OF sw x, of k]
    by (cases "1 \<le> refill (rl_rate rl) (rl_interval rl) (f k) t") (simp_all add: allowAt_def ref_allow_def Let_def eq not_less)
qed

lemma allowAt_simps [simp]: "rl_rate (snd (allowAt rl k t)) = rl_rate rl" "rl_interval (snd (allowAt rl k t)) = rl_interval rl"
  by (simp_all add: allowAt_def Let_def)

lemma answers_ref:
  assumes "agree rl f now" and "0 < rl_rate rl" and "0 < rl_interval rl"
    and "sorted (map snd calls)" and "\<forall>c \<in> set calls. now \<le> snd c \<and> 0 \<le> snd c"
  shows "answers rl calls = ref_answers (rl_rate rl) (rl_interval rl) f calls"
  using assms
proof (induction calls arbitrary: rl f now)
  case Nil
  then show ?case by simp
next
  case (Cons c calls)
  obtain k t where c: "c = (k, t)" by (cases c)
  with Cons.prems have t: "now \<le> t" "0 \<le> t" by auto
  note step = allow_agree[OF Cons.prems(1) t Cons.prems(2,3), of k]
  have "answers (snd (allowAt rl k t)) calls =
      ref_answers (rl_rate rl) (rl_interval rl) (snd (ref_allow (rl_rate rl) (rl_interval rl) f k t)) calls"
    using Cons.IH[OF step[THEN conjunct2]] Cons.prems c by simp
  then show ?case using step by (simp add: c split_def Let_def)
qed

lemma agree_new:
  assumes "0 < interval" and "0 \<le> now"
  shows "agree (NewRateLimiter rate interval t0) (\<lambda>k. new_bucket (if rate \<le> 0 then 1 else rate)) now"
  using refill_new[OF _ assms(1), of "if rate \<le> 0 then 1 else rate"] assms
  by (auto simp: agree_def NewRateLimiter_def full_from_def new_bucket_def[THEN arg_cong, of bk_tokens]
      new_bucket_def[THEN arg_cong, of bk_seen])

text \<open>Forgetting idle clients changes no answer.  Whatever the sweeps delete, every sequence of calls in the order of
  their times is answered exactly as by the limiter that keeps every bucket for ever.\<close>
theorem sweep_invisible:
  assumes "0 < interval" and "sorted (map snd calls)" and "\<forall>c \<in> set calls. 0 \<le> snd c"
  shows "answers (NewRateLimiter rate interval t0) calls =
    ref_answers (if rate \<le> 0 then 1 else rate) interval (\<lambda>k. new_bucket (if rate \<le> 0 then 1 else rate)) calls"
  using answers_ref[OF agree_new[OF assms(1), of 0], of rate t0 calls] assms by (simp add: NewRateLimiter_def)

theorem sweep_invisible_witness:
  "answers (LoginRateLimiter 0) (map (\<lambda>i. (''a'', int i)) [0..<6] @ [(''b'', 11 * minute), (''a'', 11 * minute)]) =
   ref_answers 5 minute (\<lambda>k. new_bucket 5) (map (\<lambda>i. (''a'', int i)) [0..<6] @ [(''b'', 11 * minute), (''a'', 11 * minute)])"
proof -
  have "sorted (map snd (map (\<lambda>i. (''a'', int i)) [0..<6] @ [(''b'', 11 * minute), (''a'', 11 * minute)]))"
    by (simp add: minute_def upt_rec)
  then show ?thesis
    unfolding LoginRateLimiter_def by (subst sweep_invisible) (auto simp: minute_def)
qed

section \<open>How many calls are allowed\<close>

text \<open>What a bucket can still give until \<open>e\<close>, seen from a window that starts at \<open>s\<close>.\<close>

definition potential :: "int \<Rightarrow> int \<Rightarrow> int \<Rightarrow> int \<Rightarrow> bucket \<Rightarrow> rat" where
  "potential rate interval s e b =
     (if s \<le> bk_seen b then bk_tokens b + seconds (e - bk_seen b) * (of_int rate / seconds interval)
      else of_int rate + seconds (e - s) * (of_int rate / seconds interval))"

fun allowed_count :: "string \<Rightarrow> (string \<times> int) list \<Rightarrow> bool list \<Rightarrow> nat" where
  "allowed_count k ((key, now) # calls) (ok # oks) = (if ok \<and> key = k then 1 else 0) + allowed_count k calls oks"
| "allowed_count k calls oks = 0"

lemma refill_potential:
  assumes "0 < rate" and "0 < interval" and "s \<le> t" and "t \<le> e" and "bk_seen b \<le> t"
  shows "refill rate interval b t + seconds (e - t) * (of_int rate / seconds interval) \<le> potential rate interval s e b"
proof -
  let ?r = "of_int rate / seconds interval :: rat"
  have r: "0 \<le> ?r" using assms(1,2) by (simp add: seconds_def)
  show ?thesis
  proof (cases "s \<le> bk_seen b")
    case True
    have "time_sub t (bk_seen b) \<le> t - bk_seen b" using assms(5) by (simp add: time_sub_def max_duration_def)
    then have "seconds (time_sub t (bk_seen b)) \<le> seconds (t - bk_seen b)" by (simp add: seconds_def divide_le_cancel)
    then have "seconds (time_sub t (bk_seen b)) * ?r \<le> seconds (t - bk_seen b) * ?r" by (rule mult_right_mono[OF _ r])
    moreover have "seconds (t - bk_seen b) * ?r + seconds (e - t) * ?r = seconds (e - bk_seen b) * ?r"
      unfolding distrib_right[symmetric] by (simp add: seconds_def add_divide_distrib[symmetric])
    moreover have "refill rate interval b t \<le> bk_tokens b + seconds (time_sub t (bk_seen b)) * ?r"
      by (simp add: refill_def Let_def)
    ultimately show ?thesis using True by (simp add: potential_def)
  next
    case False
    have "seconds (e - t) \<le> seconds (e - s)" using assms(3) by (simp add: seconds_def divide_le_cancel)
    then have "seconds (e - t) * ?r \<le> seconds (e - s) * ?r" by (rule mult_right_mono[OF _ r])
    moreover have "refill rate interval b t \<le> of_int rate" by (simp add: refill_def Let_def)
    ultimately show ?thesis using False by (simp add: potential_def)
  qed
qed

lemma allowed_count_potential:
  assumes "0 < rate" and "0 < interval" and "sorted (map snd calls)"
    and "\<forall>c \<in> set calls. now \<le> snd c \<and> s \<le> snd c \<and> snd c \<le> e" and "\<forall>j. 0 \<le> bk_tokens (f j) \<and> bk_seen (f j) \<le> now" and "s \<le> e"
    and "now \<le> e"
  shows "of_nat (allowed_count k calls (ref_answers rate interval f calls)) \<le> potential rate interval s e (f k)"
  using assms(3-7)
proof (induction calls arbitrary: f now)
  case Nil
  have r: "0 \<le> (of_int rate / seconds interval :: rat)" using assms(1,2) by (simp add: seconds_def)
  have "0 \<le> seconds (e - bk_seen (f k))" "0 \<le> seconds (e - s)" using Nil.prems(3-5) by (auto simp: seconds_def dest: spec[of _ k])
  from this[THEN mult_nonneg_nonneg[OF _ r]] have
    "0 \<le> seconds (e - bk_seen (f k)) * (of_int rate / seconds interval)" "0 \<le> seconds (e - s) * (of_int rate / seconds interval)"
    by simp_all
  moreover have "0 \<le> bk_tokens (f k)" "(0 :: rat) \<le> of_int rate" using Nil.prems(3) assms(1) by simp_all
  ultimately show ?case unfolding potential_def by (simp del: times_divide_eq_right)
next
  case (Cons c calls)
  obtain key t where c: "c = (key, t)" by (cases c)
  with Cons.prems have t: "now \<le> t" "s \<le> t" "t \<le> e" by auto
  let ?f = "snd (ref_allow rate interval f key t)" and ?ok = "fst (ref_allow rate interval f key t)"
  let ?t = "refill rate interval (f key) t"
  have seen: "bk_seen (f j) \<le> t" "0 \<le> bk_tokens (f j)" for j using Cons.prems(3) t(1) by (auto dest: spec[of _ j])
  have nn: "0 \<le> ?t" by (rule refill_nonneg[OF assms(1,2) seen(2,1)])
  have f: "\<forall>j. 0 \<le> bk_tokens (?f j) \<and> bk_seen (?f j) \<le> t" using seen nn by (simp add: ref_allow_def Let_def)
  have later: "sorted (map snd calls)" "\<forall>c \<in> set calls. t \<le> snd c \<and> s \<le> snd c \<and> snd c \<le> e" using Cons.prems c by auto
  note IH = Cons.IH[OF later f Cons.prems(4) t(3)]
  have drop: "potential rate interval s e (?f k) + of_nat (if ?ok \<and> key = k then 1 else 0) \<le> potential rate interval s e (f k)"
    using refill_potential[OF assms(1,2) t(2,3) seen(1), of key] t(2)
    by (auto simp: ref_allow_def Let_def potential_def[of rate interval s e "\<lparr>bk_tokens = _, bk_seen = t\<rparr>"])
  show ?case using IH drop by (simp add: c split_def Let_def)
qed

fun ref_state :: "int \<Rightarrow> int \<Rightarrow> (string \<Rightarrow> bucket) \<Rightarrow> (string \<times> int) list \<Rightarrow> string \<Rightarrow> bucket" where
  "ref_state rate interval f [] = f"
| "ref_state rate interval f ((key, now) # calls) = ref_state rate interval (snd (ref_allow rate interval f key now)) calls"

lemma ref_answers_append:
  "ref_answers rate interval f (xs @ ys) = ref_answers rate interval f xs @ ref_answers rate interval (ref_state rate interval f xs) ys"
  by (induction xs arbitrary: f) (auto simp: Let_def split_def)

lemma length_ref_answers [simp]: "length (ref_answers rate interval f xs) = length xs"
  by (induction xs arbitrary: f) (auto simp: Let_def split_def)

lemma ref_state_ok:
  assumes "0 < rate" and "0 < interval" and "sorted (map snd xs)" and "\<forall>c \<in> set xs. now \<le> snd c \<and> snd c \<le> t"
    and "\<forall>j. 0 \<le> bk_tokens (f j) \<and> bk_tokens (f j) \<le> of_int rate \<and> bk_seen (f j) \<le> now" and "now \<le> t"
  shows "\<forall>j. 0 \<le> bk_tokens (ref_state rate interval f xs j) \<and> bk_tokens (ref_state rate interval f xs j) \<le> of_int rate \<and> bk_seen (ref_state rate interval f xs j) \<le> t"
  using assms(3-6)
proof (induction xs arbitrary: f now)
  case Nil
  then show ?case by (auto intro: order_trans)
next
  case (Cons c xs)
  obtain key u where c: "c = (key, u)" by (cases c)
  have seen: "bk_seen (f j) \<le> u" "0 \<le> bk_tokens (f j)" "bk_tokens (f j) \<le> of_int rate" for j using Cons.prems(2,3) c by (auto intro: order_trans)
  have nn: "0 \<le> refill rate interval (f key) u" by (rule refill_nonneg[OF assms(1,2) seen(2,1)])
  have "refill rate interval (f key) u \<le> of_int rate" by (simp add: refill_def Let_def)
  then have "\<forall>j. 0 \<le> bk_tokens (snd (ref_allow rate interval f key u) j) \<and>
      bk_tokens (snd (ref_allow rate interval f key u) j) \<le> of_int rate \<and> bk_seen (snd (ref_allow rate interval f key u) j) \<le> u"
    using seen nn by (simp add: ref_allow_def Let_def)
  from Cons.IH[OF _ _ this] Cons.prems c show ?case by simp
qed

lemma ref_bound:
  assumes "0 < rate" and "0 < interval" and "sorted (map snd (before @ window))" and "\<forall>c \<in> set (before @ window). 0 \<le> snd c"
    and "\<forall>c \<in> set window. s \<le> snd c \<and> snd c \<le> e" and "s \<le> e" and "window \<noteq> []"
  shows "of_nat (allowed_count k window (ref_answers rate interval (ref_state rate interval (\<lambda>k. new_bucket rate) before) window)) \<le>
    of_int rate + of_int rate * (of_int (e - s) / of_int interval :: rat)"
proof -
  let ?f = "ref_state rate interval (\<lambda>k. new_bucket rate) before"
  define t where "t = snd (hd window)"
  have t: "s \<le> t" "t \<le> e" "0 \<le> t" using assms(4,5,7) hd_in_set[OF assms(7)] by (auto simp: t_def)
  have w: "\<forall>c \<in> set window. t \<le> snd c" using assms(3,7) by (cases window) (auto simp: t_def sorted_append)
  have b: "\<forall>c \<in> set before. snd c \<le> t" using assms(3) hd_in_set[OF assms(7)] by (auto simp: t_def sorted_append)
  have st: "\<forall>j. 0 \<le> bk_tokens (?f j) \<and> bk_tokens (?f j) \<le> of_int rate \<and> bk_seen (?f j) \<le> t"
    by (rule ref_state_ok[where now = 0]) (use assms(1-4) b t in \<open>auto simp: sorted_append new_bucket_def\<close>)
  then have "\<forall>j. 0 \<le> bk_tokens (?f j) \<and> bk_seen (?f j) \<le> t" by blast
  from allowed_count_potential[OF assms(1,2) _ _ this assms(6) t(2), of window k] assms(3,5) w
  have "of_nat (allowed_count k window (ref_answers rate interval ?f window)) \<le> potential rate interval s e (?f k)"
    by (auto simp: sorted_append)
  also have "\<dots> \<le> of_int rate + seconds (e - s) * (of_int rate / seconds interval)"
  proof (cases "s \<le> bk_seen (?f k)")
    case True
    have r: "0 \<le> (of_int rate / seconds interval :: rat)" using assms(1,2) by (simp add: seconds_def)
    have "seconds (e - bk_seen (?f k)) \<le> seconds (e - s)" using True by (simp add: seconds_def divide_le_cancel)
    then have "seconds (e - bk_seen (?f k)) * (of_int rate / seconds interval) \<le> seconds (e - s) * (of_int rate / seconds interval)"
      by (rule mult_right_mono[OF _ r])
    with True st show ?thesis by (simp add: potential_def add_mono del: times_divide_eq_right)
  qed (simp add: potential_def)
  also have "\<dots> = of_int rate + of_int rate * (of_int (e - s) / of_int interval)"
    by (simp add: seconds_def)
  finally show ?thesis .
qed

lemma window_bound:
  assumes "0 < interval" and "calls = before @ window" and "sorted (map snd calls)" and "\<forall>c \<in> set calls. 0 \<le> snd c"
    and "\<forall>c \<in> set window. s \<le> snd c \<and> snd c \<le> e" and "s \<le> e" and "0 < rate"
  shows "of_nat (allowed_count k window (drop (length before) (answers (NewRateLimiter rate interval t0) calls))) \<le>
    of_int rate + of_int rate * (of_int (e - s) / of_int interval :: rat)"
proof (cases "window = []")
  case True
  then show ?thesis using assms(1,6,7) by simp
next
  case False
  have "answers (NewRateLimiter rate interval t0) calls = ref_answers rate interval (\<lambda>k. new_bucket rate) calls"
    using answers_ref[OF agree_new[OF assms(1), of 0], of rate t0 calls] assms(1,3,4,7) by (simp add: NewRateLimiter_def)
  then have "drop (length before) (answers (NewRateLimiter rate interval t0) calls) =
      ref_answers rate interval (ref_state rate interval (\<lambda>k. new_bucket rate) before) window"
    by (simp add: assms(2) ref_answers_append)
  then show ?thesis using ref_bound[OF assms(7,1) _ _ assms(5,6) False, of before] assms(2-4) by simp
qed

text \<open>C40: the bound the limiter gives.  However many calls a client makes, between two times at most \<open>rate\<close> of them plus
  what flows in between the times, \<open>rate\<close> per interval, are allowed; calls before the window and of other clients,
  and the sweeps, do not change that.\<close>
theorem allow_bound:
  assumes "0 < interval" and "calls = before @ window" and "sorted (map snd calls)" and "\<forall>c \<in> set calls. 0 \<le> snd c"
    and "\<forall>c \<in> set window. s \<le> snd c \<and> snd c \<le> e" and "s \<le> e" and "0 < rate"
  shows "of_nat (allowed_count k window (drop (length before) (answers (NewRateLimiter rate interval t0) calls))) \<le>
    of_int rate + of_int rate * (of_int (e - s) / of_int interval :: rat)"
  by (rule window_bound[OF assms])

text \<open>The answers to one client follow from its bucket.\<close>

fun bucket_answers :: "int \<Rightarrow> int \<Rightarrow> bucket \<Rightarrow> int list \<Rightarrow> bool list" where
  "bucket_answers rate interval b [] = []"
| "bucket_answers rate interval b (t # ts) =
     (let x = refill rate interval b t
      in (1 \<le> x) # bucket_answers rate interval \<lparr>bk_tokens = (if 1 \<le> x then x - 1 else x), bk_seen = t\<rparr> ts)"

lemma ref_answers_bucket: "ref_answers rate interval f (map (Pair k) ts) = bucket_answers rate interval (f k) ts"
  by (induction ts arbitrary: f) (simp_all add: ref_allow_def Let_def)

lemma allowed_count_one: "length oks = length ts \<Longrightarrow> allowed_count k (map (Pair k) ts) oks = length (filter (\<lambda>b. b) oks)"
  by (induction oks ts rule: list_induct2) simp_all

text \<open>The documentation of the limiter speaks of \<open>rate\<close> actions per interval; a full bucket and its refill allow twice
  as many login attempts within one minute.\<close>
theorem allow_bound_witness:
  "allowed_count ''a'' (map (\<lambda>t. (''a'', t * 10 ^ 9)) ([0, 0, 0, 0, 0] @ [12, 24, 36, 48, 60]))
     (answers (LoginRateLimiter 0) (map (\<lambda>t. (''a'', t * 10 ^ 9)) ([0, 0, 0, 0, 0] @ [12, 24, 36, 48, 60]))) = 10"
proof -
  let ?c = "map (\<lambda>t. (''a'', t * 10 ^ 9)) ([0, 0, 0, 0, 0] @ [12, 24, 36, 48, 60 :: int])"
  have "of_nat (allowed_count ''a'' ?c (drop (length ([] :: (string \<times> int) list)) (answers (NewRateLimiter 5 minute 0) ?c))) \<le>
      of_int 5 + of_int 5 * (of_int (minute - 0) / of_int minute :: rat)"
    by (rule allow_bound[where before = "[]"]) (auto simp: minute_def)
  moreover have "10 \<le> allowed_count ''a'' ?c (answers (LoginRateLimiter 0) ?c)"
  proof -
    let ?ts = "[0, 0, 0, 0, 0, 12 * 10 ^ 9, 24 * 10 ^ 9, 36 * 10 ^ 9, 48 * 10 ^ 9, 60 * 10 ^ 9 :: int]"
    have c: "?c = map (Pair ''a'') ?ts" by simp
    have "answers (LoginRateLimiter 0) ?c = ref_answers 5 minute (\<lambda>k. new_bucket 5) ?c"
      using answers_ref[OF agree_new[of minute 0], of 5 0 ?c] by (simp add: LoginRateLimiter_def NewRateLimiter_def minute_def)
    then have "answers (LoginRateLimiter 0) ?c = bucket_answers 5 minute (new_bucket 5) ?ts"
      unfolding c ref_answers_bucket .
    also have "\<dots> = [True, True, True, True, True, True, True, True, True, True]"
    proof -
      have step: "bucket_answers 5 minute \<lparr>bk_tokens = x, bk_seen = u\<rparr> (t # ts) =
          True # bucket_answers 5 minute \<lparr>bk_tokens = y - 1, bk_seen = t\<rparr> ts"
        if "refill 5 minute \<lparr>bk_tokens = x, bk_seen = u\<rparr> t = y" "1 \<le> y" for x y u t ts
        using that by simp
      have same: "refill 5 minute \<lparr>bk_tokens = x, bk_seen = 0\<rparr> 0 = x" if "x \<le> 5" for x
        using that by (simp add: refill_def time_sub_def max_duration_def seconds_def Let_def)
      have flow: "refill 5 minute \<lparr>bk_tokens = 0, bk_seen = u\<rparr> t = 1" if "t - u = 12 * 10 ^ 9" for u t
        using that by (simp add: refill_def time_sub_def max_duration_def seconds_def minute_def Let_def)
      show ?thesis
        by (simp add: new_bucket_def step[OF same] step[OF flow] del: bucket_answers.simps(2))
    qed
    finally show ?thesis unfolding c by (subst allowed_count_one) simp_all
  qed
  ultimately show ?thesis by (simp add: LoginRateLimiter_def minute_def)
qed

end
