(* ===== verification/Auth_Sessions.thy ===== *)
theory Auth_Sessions
  imports Go_Prelude
begin

text \<open>
  The session store, internal/auth/session.go.  The table holds token, expiry and user agent; a time is
  in nanoseconds since the epoch, and a stored expiry in milliseconds, since its text format cuts the rest off
  (the format has fixed width, so SQLite's comparison of the texts is the comparison of the numbers).  The random
  token is an argument.  A failing database is not modelled except for the primary key.
\<close>

section \<open>The store\<close>

record session_row =
  sn_token :: string
  sn_expires :: int
  sn_agent :: string

type_synonym sessions = "session_row list"

definition millis :: "int \<Rightarrow> int" where
  "millis t = t div 10 ^ 6"

datatype session_error = TokenTaken

definition insert_session :: "sessions \<Rightarrow> session_row \<Rightarrow> session_error + sessions" where
  "insert_session ss row = (if sn_token row \<in> set (map sn_token ss) then Inl TokenTaken else Inr (ss @ [row]))"

definition create_session :: "sessions \<Rightarrow> string \<Rightarrow> int \<Rightarrow> int \<Rightarrow> string \<Rightarrow> session_error + sessions" where
  "create_session ss token now maxAge agent =
     insert_session ss \<lparr>sn_token = token, sn_expires = millis (now + maxAge), sn_agent = agent\<rparr>"

text \<open>\<open>Rotate\<close>: the two deletes and the insert are one transaction, which fails as a whole.\<close>

definition Rotate :: "sessions \<Rightarrow> string \<Rightarrow> string \<Rightarrow> int \<Rightarrow> int \<Rightarrow> int \<Rightarrow> string \<Rightarrow> session_error + sessions" where
  "Rotate ss presented token now1 now2 maxAge agent =
     (let expired = (if presented \<noteq> [] then filter (\<lambda>r. \<not> (sn_token r = presented \<and> sn_expires r \<le> millis now2)) ss else ss);
          dropped = (if presented \<noteq> [] then filter (\<lambda>r. sn_token r \<noteq> presented) expired else expired)
      in insert_session dropped \<lparr>sn_token = token, sn_expires = millis (now1 + maxAge), sn_agent = agent\<rparr>)"

definition Delete :: "sessions \<Rightarrow> string \<Rightarrow> sessions" where
  "Delete ss token = filter (\<lambda>r. sn_token r \<noteq> token) ss"

definition Validate :: "sessions \<Rightarrow> string \<Rightarrow> int \<Rightarrow> bool \<times> sessions" where
  "Validate ss token now =
     (if token = [] then (False, ss)
      else case find (\<lambda>r. sn_token r = token) ss of
        None \<Rightarrow> (False, ss)
      | Some r \<Rightarrow> if now > sn_expires r * 10 ^ 6 then (False, Delete ss token) else (True, ss))"

definition DeleteAll :: "sessions \<Rightarrow> sessions" where
  "DeleteAll ss = []"

definition CleanupExpired :: "sessions \<Rightarrow> int \<Rightarrow> nat \<times> sessions" where
  "CleanupExpired ss now =
     (count_where (\<lambda>r. sn_expires r < millis now) ss, filter (\<lambda>r. \<not> sn_expires r < millis now) ss)"

section \<open>The contract\<close>

text \<open>The calls of the store, with their arguments.\<close>

datatype session_call =
    CallCreate string int int string
  | CallRotate string string int int int string
  | CallDelete string
  | CallDeleteAll
  | CallValidate string int
  | CallCleanup int

text \<open>One call on the table; an insert that fails has no result.\<close>

definition session_step :: "session_call \<Rightarrow> sessions \<Rightarrow> sessions option" where
  "session_step e ss =
     (case e of
        CallCreate t n m a \<Rightarrow> (case create_session ss t n m a of Inl _ \<Rightarrow> None | Inr ss' \<Rightarrow> Some ss')
      | CallRotate p t n l m a \<Rightarrow> (case Rotate ss p t n l m a of Inl _ \<Rightarrow> None | Inr ss' \<Rightarrow> Some ss')
      | CallDelete t \<Rightarrow> Some (Delete ss t)
      | CallDeleteAll \<Rightarrow> Some (DeleteAll ss)
      | CallValidate t n \<Rightarrow> Some (snd (Validate ss t n))
      | CallCleanup n \<Rightarrow> Some (snd (CleanupExpired ss n)))"

text \<open>A run of calls, the last one first in the list; it has a result when no insert failed.\<close>

fun session_run :: "('c \<Rightarrow> 's \<Rightarrow> 's option) \<Rightarrow> 's \<Rightarrow> 'c list \<Rightarrow> 's option" where
  "session_run step start [] = Some start"
| "session_run step start (c # cs) = (case session_run step start cs of None \<Rightarrow> None | Some s \<Rightarrow> step c s)"

text \<open>
  The specification of a token's life by the calls, latest first: a token is alive if it was issued with an expiry
  that is not over and nothing revoked it since; checks and sweeps do not count.
\<close>

definition unexpired :: "int \<Rightarrow> int \<Rightarrow> int \<Rightarrow> bool" where
  "unexpired issued maxAge t \<longleftrightarrow> t \<le> millis (issued + maxAge) * 10 ^ 6"

fun alive :: "session_call list \<Rightarrow> string \<Rightarrow> int \<Rightarrow> bool" where
  "alive [] x t \<longleftrightarrow> False"
| "alive (CallCreate tk n m a # cs) x t \<longleftrightarrow> (if x = tk then unexpired n m t else alive cs x t)"
| "alive (CallRotate p tk n l m a # cs) x t \<longleftrightarrow> (if x = tk then unexpired n m t else x \<noteq> p \<and> alive cs x t)"
| "alive (CallDelete tk # cs) x t \<longleftrightarrow> x \<noteq> tk \<and> alive cs x t"
| "alive (CallDeleteAll # cs) x t \<longleftrightarrow> False"
| "alive (CallValidate tk c # cs) x t \<longleftrightarrow> alive cs x t"
| "alive (CallCleanup c # cs) x t \<longleftrightarrow> alive cs x t"

section \<open>The contract\<close>

text \<open>What the guards of the server rely on, for any store; \<open>x\<close> is a token that is not empty.\<close>

locale session_contract =
  fixes start :: 's
    and step :: "session_call \<Rightarrow> 's \<Rightarrow> 's option"
    and valid :: "'s \<Rightarrow> string \<Rightarrow> int \<Rightarrow> bool"
    and ok :: "'s \<Rightarrow> bool"
  assumes start_ok: "ok start" and start_none: "\<not> valid start x t"
    and step_ok: "ok s \<Longrightarrow> step call s = Some s' \<Longrightarrow> ok s'"
    and created: "ok s \<Longrightarrow> x \<noteq> [] \<Longrightarrow> step (CallCreate tk n m a) s = Some s' \<Longrightarrow>
      valid s' x t \<longleftrightarrow> (if x = tk then unexpired n m t else valid s x t)"
    and rotated: "ok s \<Longrightarrow> x \<noteq> [] \<Longrightarrow> step (CallRotate p tk n l m a) s = Some s' \<Longrightarrow>
      valid s' x t \<longleftrightarrow> (if x = tk then unexpired n m t else x \<noteq> p \<and> valid s x t)"
    and deleted: "ok s \<Longrightarrow> step (CallDelete tk) s = Some s' \<Longrightarrow> valid s' x t \<longleftrightarrow> x \<noteq> tk \<and> valid s x t"
    and deleted_all: "step CallDeleteAll s = Some s' \<Longrightarrow> \<not> valid s' x t"
    and checked: "ok s \<Longrightarrow> step (CallValidate tk c) s = Some s' \<Longrightarrow> c \<le> t \<Longrightarrow> valid s' x t \<longleftrightarrow> valid s x t"
    and swept: "ok s \<Longrightarrow> step (CallCleanup c) s = Some s' \<Longrightarrow> c \<le> t \<Longrightarrow> valid s' x t \<longleftrightarrow> valid s x t"
begin

lemma run_ok: "session_run step start cs = Some s \<Longrightarrow> ok s"
  by (induction cs arbitrary: s) (auto simp: start_ok intro: step_ok split: option.splits)

lemma valid_iff_alive:
  assumes "x \<noteq> []" and "\<forall>tk c. CallValidate tk c \<in> set cs \<or> CallCleanup c \<in> set cs \<longrightarrow> c \<le> t"
    and "session_run step start cs = Some s"
  shows "valid s x t \<longleftrightarrow> alive cs x t"
  using assms(2,3)
proof (induction cs arbitrary: s)
  case Nil
  then show ?case using start_none by simp
next
  case (Cons e cs)
  from Cons.prems(2) obtain s' where s': "session_run step start cs = Some s'" "step e s' = Some s"
    by (auto split: option.splits)
  have IH: "valid s' x t \<longleftrightarrow> alive cs x t" using Cons s'(1) by auto
  note k = run_ok[OF s'(1)]
  show ?case
  proof (cases e)
    case (CallCreate tk n m a)
    then show ?thesis using created[OF k assms(1), of tk n m a s t] s'(2) IH by simp
  next
    case (CallRotate p tk n l m a)
    then show ?thesis using rotated[OF k assms(1), of p tk n l m a s t] s'(2) IH by simp
  next
    case (CallDelete tk)
    then show ?thesis using deleted[OF k, of tk s x t] s'(2) IH by simp
  next
    case CallDeleteAll
    then show ?thesis using deleted_all s'(2) by simp
  next
    case (CallValidate tk c)
    then show ?thesis using checked[OF k, of tk c s t x] s'(2) IH Cons.prems(1) by auto
  next
    case (CallCleanup c)
    then show ?thesis using swept[OF k, of c s t x] s'(2) IH Cons.prems(1) by auto
  qed
qed

end

section \<open>The store keeps the contract\<close>

definition valid_now :: "sessions \<Rightarrow> string \<Rightarrow> int \<Rightarrow> bool" where
  "valid_now ss x t = fst (Validate ss x t)"

definition keyed :: "sessions \<Rightarrow> bool" where
  "keyed ss \<longleftrightarrow> distinct (map sn_token ss)"

text \<open>With the primary key, a token is accepted iff a row of it has not expired.\<close>

lemma valid_row:
  assumes "keyed ss"
  shows "valid_now ss x t \<longleftrightarrow> x \<noteq> [] \<and> (\<exists>r \<in> set ss. sn_token r = x \<and> t \<le> sn_expires r * 10 ^ 6)"
proof (cases "find (\<lambda>r. sn_token r = x) ss")
  case None
  then have "\<not> (\<exists>r \<in> set ss. sn_token r = x)" by (auto simp: find_None_iff)
  with None show ?thesis by (auto simp: valid_now_def Validate_def)
next
  case (Some r)
  then have r: "r \<in> set ss" "sn_token r = x" by (auto simp: find_Some_iff)
  have "q = r" if "q \<in> set ss" "sn_token q = x" for q
    using assms r that by (auto simp: keyed_def distinct_map inj_on_def)
  then have "(\<exists>q \<in> set ss. sn_token q = x \<and> t \<le> sn_expires q * 10 ^ 6) \<longleftrightarrow> t \<le> sn_expires r * 10 ^ 6" using r by blast
  with Some show ?thesis by (simp add: valid_now_def Validate_def not_less)
qed

lemma keyed_filter [simp]: "keyed ss \<Longrightarrow> keyed (filter P ss)"
  by (simp add: keyed_def distinct_map_filter)

lemma valid_delete: "keyed ss \<Longrightarrow> valid_now (Delete ss p) x t \<longleftrightarrow> x \<noteq> p \<and> valid_now ss x t"
  by (auto simp: Delete_def valid_row)

text \<open>The two deletes of \<open>Rotate\<close> are one.\<close>

lemma Rotate_delete:
  "Rotate ss p tk n l m a =
     insert_session (if p \<noteq> [] then Delete ss p else ss) \<lparr>sn_token = tk, sn_expires = millis (n + m), sn_agent = a\<rparr>"
proof -
  have "filter (\<lambda>r. sn_token r \<noteq> p) (filter (\<lambda>r. \<not> (sn_token r = p \<and> sn_expires r \<le> millis l)) ss) = Delete ss p"
    unfolding filter_filter Delete_def by (rule filter_cong) auto
  then show ?thesis by (simp only: Rotate_def Let_def split: if_split) simp
qed

lemma keyed_insert: "keyed ss \<Longrightarrow> insert_session ss row = Inr ss' \<Longrightarrow> keyed ss' \<and> ss' = ss @ [row]"
  by (auto simp: insert_session_def keyed_def split: if_splits)

lemma keyed_step: "keyed ss \<Longrightarrow> session_step c ss = Some ss' \<Longrightarrow> keyed ss'"
proof (cases c)
  case CallDeleteAll
  then show "session_step c ss = Some ss' \<Longrightarrow> keyed ss'" by (auto simp: session_step_def DeleteAll_def keyed_def)
qed (auto simp: session_step_def create_session_def Rotate_delete Delete_def Validate_def CleanupExpired_def
      dest: keyed_insert[rotated] split: sum.splits option.splits if_splits)

lemma valid_insert:
  assumes "keyed ss" and "insert_session ss \<lparr>sn_token = tk, sn_expires = millis (n + m), sn_agent = a\<rparr> = Inr ss'" and "x \<noteq> []"
  shows "valid_now ss' x t \<longleftrightarrow> (if x = tk then unexpired n m t else valid_now ss x t)"
proof -
  have "tk \<notin> sn_token ` set ss" using assms(2) by (auto simp: insert_session_def split: if_splits)
  then show ?thesis
    using keyed_insert[OF assms(1,2)] assms(1,3) by (auto simp: valid_row unexpired_def)
qed

interpretation store: session_contract "[]" session_step valid_now keyed
proof unfold_locales
  show "keyed []" by (simp add: keyed_def)
  then show "\<not> valid_now [] x t" for x t by (simp add: valid_row)
  show "keyed ss'" if "keyed ss" "session_step c ss = Some ss'" for ss c ss' using keyed_step that by blast
  show "valid_now ss' x t \<longleftrightarrow> (if x = tk then unexpired n m t else valid_now ss x t)"
    if "keyed ss" "x \<noteq> []" "session_step (CallCreate tk n m a) ss = Some ss'" for ss x tk n m a ss' t
  proof -
    have "create_session ss tk n m a = Inr ss'" using that(3) by (simp add: session_step_def split: sum.splits)
    then show ?thesis unfolding create_session_def by (rule valid_insert[OF that(1) _ that(2)])
  qed
  show "valid_now ss' x t \<longleftrightarrow> (if x = tk then unexpired n m t else x \<noteq> p \<and> valid_now ss x t)"
    if "keyed ss" "x \<noteq> []" "session_step (CallRotate p tk n l m a) ss = Some ss'" for ss x p tk n l m a ss' t
  proof -
    let ?d = "if p \<noteq> [] then Delete ss p else ss"
    have "insert_session ?d \<lparr>sn_token = tk, sn_expires = millis (n + m), sn_agent = a\<rparr> = Inr ss'"
      using that(3) unfolding session_step_def Rotate_delete session_call.case by (simp only: split: sum.splits) auto
    moreover have "keyed ?d" using that(1) by (simp add: Delete_def)
    moreover have "valid_now ?d x t \<longleftrightarrow> x \<noteq> p \<and> valid_now ss x t" using that(1,2) by (auto simp: valid_delete)
    ultimately show ?thesis using valid_insert[of ?d tk n m a ss' x t] that(2) by auto
  qed
  show "valid_now ss' x t \<longleftrightarrow> x \<noteq> tk \<and> valid_now ss x t"
    if "keyed ss" "session_step (CallDelete tk) ss = Some ss'" for ss tk ss' x t
    using that by (auto simp: session_step_def valid_delete)
  show "\<not> valid_now ss' x t" if "session_step CallDeleteAll ss = Some ss'" for ss ss' x t
    using that by (simp add: session_step_def DeleteAll_def valid_now_def Validate_def)
  show "valid_now ss' x t \<longleftrightarrow> valid_now ss x t"
    if k: "keyed ss" and s: "session_step (CallValidate tk c) ss = Some ss'" and c: "c \<le> t" for ss tk c ss' t x
  proof (cases "ss' = ss")
    case False
    then obtain r where r: "find (\<lambda>r. sn_token r = tk) ss = Some r" "sn_expires r * 10 ^ 6 < c" "ss' = Delete ss tk"
      using s by (auto simp: session_step_def Validate_def split: option.splits if_splits)
    from r(1) have "r \<in> set ss" "sn_token r = tk" by (auto simp: find_Some_iff)
    then have "q = r" if "q \<in> set ss" "sn_token q = tk" for q
      using k that by (auto simp: keyed_def distinct_map inj_on_def)
    then show ?thesis using k r(2) c unfolding r(3) by (fastforce simp: Delete_def valid_row)
  qed simp
  show "valid_now ss' x t \<longleftrightarrow> valid_now ss x t"
    if k: "keyed ss" and s: "session_step (CallCleanup c) ss = Some ss'" and c: "c \<le> t" for ss c ss' t x
  proof -
    have e: "t > e * 10 ^ 6" if "e < millis c" for e
    proof -
      have "(e + 1) * 10 ^ 6 \<le> millis c * 10 ^ 6" using that by simp
      also have "\<dots> \<le> c" by (simp add: millis_def)
      finally show ?thesis using c by simp
    qed
    show ?thesis
      using s k by (fastforce simp: session_step_def CleanupExpired_def valid_row dest: e)
  qed
qed

text \<open>C33: the session table keeps exactly the sessions it should.  After any sequence of calls on an empty store, in which no
  insert met a token that was there, a token passes \<open>Validate\<close> at a time iff it was issued, by a login that is not yet
  over at that time, and since then was not presented to another login, logged out, or revoked with all
  sessions; the rows that checks and cleanups delete on the way never matter, if these ran before that time.\<close>
theorem sessions_exact:
  assumes "session_run session_step [] calls = Some ss" and "x \<noteq> []"
    and "\<forall>tk c. CallValidate tk c \<in> set calls \<or> CallCleanup c \<in> set calls \<longrightarrow> c \<le> t"
  shows "fst (Validate ss x t) \<longleftrightarrow> alive calls x t"
  using store.valid_iff_alive[OF assms(2,3,1)] by (simp add: valid_now_def)

theorem sessions_exact_witness:
  "let calls = [CallCleanup 50, CallRotate ''a'' ''b'' 10 10 3600000000000 ''ua'', CallCreate ''a'' 0 3600000000000 ''ua''];
       ss = the (session_run session_step [] calls)
   in fst (Validate ss ''b'' 60) \<and> \<not> fst (Validate ss ''a'' 60) \<and> \<not> fst (Validate ss ''b'' 3600000000011)"
proof -
  let ?calls = "[CallCleanup 50, CallRotate ''a'' ''b'' 10 10 3600000000000 ''ua'', CallCreate ''a'' 0 3600000000000 ''ua'']"
  have r: "session_run session_step [] ?calls = Some [\<lparr>sn_token = ''b'', sn_expires = 3600000, sn_agent = ''ua''\<rparr>]"
    by (simp add: session_step_def create_session_def Rotate_def insert_session_def CleanupExpired_def millis_def Let_def image_def)
  show ?thesis
    using sessions_exact[OF r, of "''b''" 60] sessions_exact[OF r, of "''a''" 60] sessions_exact[OF r, of "''b''" 3600000000011] r
    by (simp add: unexpired_def millis_def)
qed

end
