(* ===== verification/Auth_Handlers.thy ===== *)
theory Auth_Handlers
  imports Auth_Limiter Auth_Sessions Go_Text
begin

text \<open>
  CSRF tokens (internal/auth/csrf.go), the owner record and the handlers of internal/auth/handler.go.  HMAC-SHA-256
  under the server's secret and the bcrypt comparison are parameters; the random bytes, the tokens and the new
  password hash are arguments.  A request is what the handlers read of it: its JSON body is given decoded.
\<close>

section \<open>base64url without padding\<close>

definition b64_char :: "nat \<Rightarrow> char" where
  "b64_char n =
     char_of (if n < 26 then 65 + n else if n < 52 then 97 + (n - 26) else if n < 62 then 48 + (n - 52)
              else if n = 62 then 45 else 95)"

definition b64_value :: "char \<Rightarrow> nat option" where
  "b64_value c =
     (let b = byte c in
      if 65 \<le> b \<and> b \<le> 90 then Some (b - 65) else if 97 \<le> b \<and> b \<le> 122 then Some (b - 97 + 26)
      else if 48 \<le> b \<and> b \<le> 57 then Some (b - 48 + 52) else if b = 45 then Some 62 else if b = 95 then Some 63 else None)"

fun b64_encode :: "string \<Rightarrow> string" where
  "b64_encode [] = []"
| "b64_encode [x] = [b64_char (byte x div 4), b64_char (byte x mod 4 * 16)]"
| "b64_encode [x, y] = [b64_char (byte x div 4), b64_char (byte x mod 4 * 16 + byte y div 16), b64_char (byte y mod 16 * 4)]"
| "b64_encode (x # y # z # r) =
     [b64_char (byte x div 4), b64_char (byte x mod 4 * 16 + byte y div 16),
      b64_char (byte y mod 16 * 4 + byte z div 64), b64_char (byte z mod 64)] @ b64_encode r"

text \<open>The decoder skips line breaks and does not look at the unused bits of the last group.\<close>

fun b64_groups :: "nat list \<Rightarrow> string option" where
  "b64_groups [] = Some []"
| "b64_groups [x] = None"
| "b64_groups [x, y] = Some [char_of (x * 4 + y div 16)]"
| "b64_groups [x, y, z] = Some [char_of (x * 4 + y div 16), char_of (y mod 16 * 16 + z div 4)]"
| "b64_groups (x # y # z # w # r) =
     map_option (\<lambda>t. char_of (x * 4 + y div 16) # char_of (y mod 16 * 16 + z div 4) # char_of (z mod 4 * 64 + w) # t)
       (b64_groups r)"

fun b64_values :: "string \<Rightarrow> nat list option" where
  "b64_values [] = Some []"
| "b64_values (c # s) = (case b64_value c of None \<Rightarrow> None | Some v \<Rightarrow> map_option ((#) v) (b64_values s))"

definition b64_decode :: "string \<Rightarrow> string option" where
  "b64_decode s = Option.bind (b64_values (filter (\<lambda>c. byte c \<noteq> 10 \<and> byte c \<noteq> 13) s)) b64_groups"

lemma byte_b64_char:
  assumes "n < 64"
  shows "byte (b64_char n) = (if n < 26 then 65 + n else if n < 52 then 97 + (n - 26) else if n < 62 then 48 + (n - 52)
              else if n = 62 then 45 else 95)"
  using assms by (simp add: b64_char_def byte_def)

lemma b64_value_char [simp]: "n < 64 \<Longrightarrow> b64_value (b64_char n) = Some n"
  by (auto simp: b64_value_def byte_b64_char Let_def)

lemma b64_char_kept [simp]: "n < 64 \<Longrightarrow> byte (b64_char n) \<noteq> 10 \<and> byte (b64_char n) \<noteq> 13"
  by (auto simp: byte_b64_char)

lemma byte_bounds [simp]:
  "byte x div 4 < 64" "byte x mod 4 * 16 < 64" "byte x mod 4 * 16 + byte y div 16 < 64" "byte x mod 16 * 4 < 64"
  "byte x mod 16 * 4 + byte y div 64 < 64"
proof -
  have x: "byte x < 256" "byte y < 256" by (rule byte_less)+
  have d: "byte x div 4 < 64" "byte y div 16 < 16" "byte y div 64 < 4" using x by (simp_all add: less_mult_imp_div_less)
  show "byte x div 4 < 64" by (rule d)
  have m: "byte x mod 4 < 4" "byte x mod 16 < 16" by simp_all
  show "byte x mod 4 * 16 < 64" "byte x mod 16 * 4 < 64" using m by linarith+
  show "byte x mod 4 * 16 + byte y div 16 < 64" "byte x mod 16 * 4 + byte y div 64 < 64" using m d by linarith+
qed

lemma b64_encode_kept: "filter (\<lambda>c. byte c \<noteq> 10 \<and> byte c \<noteq> 13) (b64_encode s) = b64_encode s"
  by (induction s rule: b64_encode.induct) simp_all

lemma char_of_byte [simp]: "char_of (byte c) = c"
  by (simp add: byte_def)

lemma byte_parts [simp]:
  "byte x div 16 div 16 = 0" "byte x div 16 mod 16 = byte x div 16" "byte x div 64 div 4 = 0" "byte x div 64 mod 4 = byte x div 64"
proof -
  have "byte x < 256" by (rule byte_less)
  then have d: "byte x div 16 < 16" "byte x div 64 < 4" by (simp_all add: less_mult_imp_div_less)
  show "byte x div 16 div 16 = 0" "byte x div 16 mod 16 = byte x div 16" "byte x div 64 div 4 = 0" "byte x div 64 mod 4 = byte x div 64"
    using d by (simp_all del: div_mult2_eq)
qed

lemma b64_roundtrip: "b64_decode (b64_encode s) = Some s"
proof -
  have "\<exists>vs. b64_values (b64_encode s) = Some vs \<and> b64_groups vs = Some s"
    by (induction s rule: b64_encode.induct) auto
  then show ?thesis by (auto simp: b64_decode_def b64_encode_kept)
qed

section \<open>CSRF tokens\<close>

text \<open>What the handlers use from elsewhere: the MAC, the password check on a stored hash, the host part of a peer address.\<close>

record auth_env =
  token_mac :: "string \<Rightarrow> string"
  check_hash :: "string \<Rightarrow> string \<Rightarrow> bool"
  split_host :: "string \<Rightarrow> string option"
  session_max_age :: int

text \<open>A request: the cookies in order, the value of the CSRF header (\<open>[]\<close> when it is missing), and the password of the
  decoded body (\<open>None\<close> when decoding failed).\<close>

record request =
  rq_method :: string
  rq_cookies :: "(string \<times> string) list"
  rq_csrf :: string
  rq_peer :: string
  rq_agent :: string
  rq_password :: "string option"

definition CSRFTokenBytes :: nat where "CSRFTokenBytes = 32"
definition CSRFCookie :: string where "CSRFCookie = ''csrf_token''"
definition SessionCookie :: string where "SessionCookie = ''doublangu_session''"
definition mac_size :: nat where "mac_size = 32"

definition GenerateToken :: "auth_env \<Rightarrow> string \<Rightarrow> string" where
  "GenerateToken E raw = b64_encode (raw @ token_mac E raw)"

definition ValidateToken :: "auth_env \<Rightarrow> string \<Rightarrow> bool" where
  "ValidateToken E tok =
     (if tok = [] then False
      else case b64_decode tok of
        None \<Rightarrow> False
      | Some d \<Rightarrow> \<not> length d < CSRFTokenBytes + mac_size \<and> drop CSRFTokenBytes d = token_mac E (take CSRFTokenBytes d))"

datatype csrf_error = MissingCookie | MissingHeader | InvalidCookie | InvalidHeader | TokenMismatch

definition VerifyRequest :: "auth_env \<Rightarrow> request \<Rightarrow> csrf_error + unit" where
  "VerifyRequest E r =
     (if rq_method r = ''GET'' \<or> rq_method r = ''HEAD'' \<or> rq_method r = ''OPTIONS'' then Inr ()
      else case map_of (rq_cookies r) CSRFCookie of
        None \<Rightarrow> Inl MissingCookie
      | Some cookie \<Rightarrow>
          (let header = trim_space (rq_csrf r) in
           if header = [] then Inl MissingHeader
           else if \<not> ValidateToken E cookie then Inl InvalidCookie
           else if \<not> ValidateToken E header then Inl InvalidHeader
           else if cookie \<noteq> header then Inl TokenMismatch
           else Inr ()))"

text \<open>A valid token carries 32 random bytes and their MAC; a generated one is valid.\<close>

definition signed :: "auth_env \<Rightarrow> string \<Rightarrow> string \<Rightarrow> bool" where
  "signed E tok raw \<longleftrightarrow> length raw = CSRFTokenBytes \<and> b64_decode tok = Some (raw @ token_mac E raw)"

lemma ValidateToken_signed:
  assumes "\<And>raw. length (token_mac E raw) = mac_size"
  shows "ValidateToken E tok \<longleftrightarrow> (\<exists>raw. signed E tok raw)"
proof
  assume v: "ValidateToken E tok"
  then obtain d where d: "b64_decode tok = Some d" "CSRFTokenBytes + mac_size \<le> length d"
    "drop CSRFTokenBytes d = token_mac E (take CSRFTokenBytes d)"
    by (auto simp: ValidateToken_def not_less split: if_splits option.splits)
  then have "signed E tok (take CSRFTokenBytes d)"
    using append_take_drop_id[of CSRFTokenBytes d] by (auto simp: signed_def)
  then show "\<exists>raw. signed E tok raw" ..
next
  assume "\<exists>raw. signed E tok raw"
  then obtain raw where raw: "length raw = CSRFTokenBytes" "b64_decode tok = Some (raw @ token_mac E raw)"
    by (auto simp: signed_def)
  have "tok \<noteq> []"
    using raw by (auto simp: b64_decode_def CSRFTokenBytes_def)
  then show "ValidateToken E tok" using raw assms by (simp add: ValidateToken_def)
qed

lemma GenerateToken_signed: "length raw = CSRFTokenBytes \<Longrightarrow> signed E (GenerateToken E raw) raw"
  by (simp add: signed_def GenerateToken_def b64_roundtrip)

section \<open>The owner\<close>

record auth_state =
  au_sessions :: sessions
  au_owner :: "string option"
  au_limiter :: limiter

datatype owner_error = PasswordEmpty | PasswordShort | HashFailed | OwnerExists | NoOwner | WrongPassword

text \<open>\<open>hashed\<close> is the result of \<open>HashPassword\<close>.\<close>

definition CreateOwner :: "auth_state \<Rightarrow> string \<Rightarrow> string option \<Rightarrow> bool \<Rightarrow> owner_error + auth_state" where
  "CreateOwner st password hashed force =
     (if password = [] then Inl PasswordEmpty
      else if length password < 8 then Inl PasswordShort
      else case hashed of
        None \<Rightarrow> Inl HashFailed
      | Some h \<Rightarrow>
          if au_owner st \<noteq> None \<and> \<not> force then Inl OwnerExists
          else if au_owner st = None then Inr (st\<lparr>au_owner := Some h\<rparr>)
          else Inr (st\<lparr>au_owner := Some h, au_sessions := DeleteAll (au_sessions st)\<rparr>))"

definition VerifyPassword :: "auth_env \<Rightarrow> string \<Rightarrow> string \<Rightarrow> owner_error + unit" where
  "VerifyPassword E h password =
     (if password = [] then Inl PasswordEmpty
      else if h = [] then Inl HashFailed
      else if \<not> check_hash E h password then Inl WrongPassword else Inr ())"

definition VerifyOwnerPassword :: "auth_env \<Rightarrow> auth_state \<Rightarrow> string \<Rightarrow> owner_error + unit" where
  "VerifyOwnerPassword E st password =
     (case au_owner st of None \<Rightarrow> Inl NoOwner | Some h \<Rightarrow> VerifyPassword E h password)"

section \<open>The handlers\<close>

text \<open>A reply: the status, the error code (\<open>[]\<close> for none), the cookies that are set with their maximal age in seconds, and
  the \<open>authenticated\<close> field where there is one.\<close>

record reply =
  rp_status :: nat
  rp_code :: string
  rp_cookies :: "(string \<times> string \<times> int) list"
  rp_authenticated :: "bool option"

definition WriteError :: "nat \<Rightarrow> string \<Rightarrow> reply" where
  "WriteError status code = \<lparr>rp_status = status, rp_code = code, rp_cookies = [], rp_authenticated = None\<rparr>"

definition WriteOK :: "(string \<times> string \<times> int) list \<Rightarrow> bool option \<Rightarrow> reply" where
  "WriteOK cookies authenticated = \<lparr>rp_status = 200, rp_code = [], rp_cookies = cookies, rp_authenticated = authenticated\<rparr>"

definition ErrCodeValidation :: string where "ErrCodeValidation = ''v1.validation_error''"
definition ErrCodeAuth :: string where "ErrCodeAuth = ''v1.authentication_error''"
definition ErrCodeCSRF :: string where "ErrCodeCSRF = ''v1.csrf_error''"
definition ErrCodeRateLimit :: string where "ErrCodeRateLimit = ''v1.rate_limit_error''"
definition ErrCodeMethodNotAllow :: string where "ErrCodeMethodNotAllow = ''v1.method_not_allowed''"
definition ErrCodeInternal :: string where "ErrCodeInternal = ''v1.internal_error''"

definition clientIP :: "auth_env \<Rightarrow> request \<Rightarrow> string" where
  "clientIP E r = (case split_host E (rq_peer r) of None \<Rightarrow> rq_peer r | Some host \<Rightarrow> host)"

definition csrf_cookie :: "string \<Rightarrow> string \<times> string \<times> int" where
  "csrf_cookie tok = (CSRFCookie, tok, 12 * 3600)"

definition session_cookie :: "auth_env \<Rightarrow> string \<Rightarrow> string \<times> string \<times> int" where
  "session_cookie E tok = (SessionCookie, tok, session_max_age E div 10 ^ 9)"

definition clear_cookie :: "string \<times> string \<times> int" where
  "clear_cookie = (SessionCookie, [], - 1)"

definition presented_session :: "request \<Rightarrow> string" where
  "presented_session r = (case map_of (rq_cookies r) SessionCookie of None \<Rightarrow> [] | Some v \<Rightarrow> v)"

definition ServeCSRF :: "auth_env \<Rightarrow> string \<Rightarrow> request \<Rightarrow> reply" where
  "ServeCSRF E raw r =
     (if rq_method r \<noteq> ''GET'' then WriteError 405 ErrCodeMethodNotAllow
      else WriteOK [csrf_cookie (GenerateToken E raw)] None)"

definition ServeLogin :: "auth_env \<Rightarrow> int \<Rightarrow> string \<Rightarrow> string \<Rightarrow> request \<Rightarrow> auth_state \<Rightarrow> reply \<times> auth_state" where
  "ServeLogin E now raw token r st =
     (if rq_method r \<noteq> ''POST'' then (WriteError 405 ErrCodeMethodNotAllow, st)
      else case VerifyRequest E r of
        Inl e \<Rightarrow> (WriteError 403 ErrCodeCSRF, st)
      | Inr _ \<Rightarrow>
          (case allowAt (au_limiter st) (clientIP E r) now of (allowed, limiter) \<Rightarrow>
            let st1 = st\<lparr>au_limiter := limiter\<rparr> in
            if \<not> allowed then (WriteError 429 ErrCodeRateLimit, st1)
            else case rq_password r of
              None \<Rightarrow> (WriteError 400 ErrCodeValidation, st1)
            | Some password \<Rightarrow>
                if password = [] then (WriteError 400 ErrCodeValidation, st1)
                else case VerifyOwnerPassword E st1 password of
                  Inl e \<Rightarrow> (WriteError 401 ErrCodeAuth, st1)
                | Inr _ \<Rightarrow>
                    (case Rotate (au_sessions st1) (presented_session r) token now now (session_max_age E) (rq_agent r) of
                       Inl e \<Rightarrow> (WriteError 500 ErrCodeInternal, st1)
                     | Inr ss \<Rightarrow> (WriteOK [session_cookie E token, csrf_cookie (GenerateToken E raw)] None,
                                  st1\<lparr>au_sessions := ss\<rparr>))))"

definition ServeLogout :: "auth_env \<Rightarrow> request \<Rightarrow> auth_state \<Rightarrow> reply \<times> auth_state" where
  "ServeLogout E r st =
     (if rq_method r \<noteq> ''POST'' then (WriteError 405 ErrCodeMethodNotAllow, st)
      else case VerifyRequest E r of
        Inl e \<Rightarrow> (WriteError 403 ErrCodeCSRF, st)
      | Inr _ \<Rightarrow>
          (WriteOK [clear_cookie] None,
           if presented_session r \<noteq> [] then st\<lparr>au_sessions := Delete (au_sessions st) (presented_session r)\<rparr> else st))"

definition ServeSessionCheck :: "int \<Rightarrow> request \<Rightarrow> auth_state \<Rightarrow> reply \<times> auth_state" where
  "ServeSessionCheck now r st =
     (if rq_method r \<noteq> ''GET'' then (WriteError 405 ErrCodeMethodNotAllow, st)
      else if presented_session r = [] then (WriteOK [] (Some False), st)
      else case Validate (au_sessions st) (presented_session r) now of (valid, ss) \<Rightarrow>
        (WriteOK [] (Some valid), st\<lparr>au_sessions := ss\<rparr>))"

text \<open>\<open>RequireAuth\<close>: 401, or the request is passed on (\<open>None\<close>); \<open>AuthorizeFunc\<close> is its test alone.\<close>

definition RequireAuth :: "int \<Rightarrow> request \<Rightarrow> auth_state \<Rightarrow> reply option \<times> auth_state" where
  "RequireAuth now r st =
     (if presented_session r = [] then (Some (WriteError 401 ErrCodeAuth), st)
      else case Validate (au_sessions st) (presented_session r) now of (valid, ss) \<Rightarrow>
        (if valid then None else Some (WriteError 401 ErrCodeAuth), st\<lparr>au_sessions := ss\<rparr>))"

definition AuthorizeFunc :: "int \<Rightarrow> request \<Rightarrow> auth_state \<Rightarrow> bool \<times> auth_state" where
  "AuthorizeFunc now r st =
     (if presented_session r = [] then (False, st)
      else case Validate (au_sessions st) (presented_session r) now of (valid, ss) \<Rightarrow> (valid, st\<lparr>au_sessions := ss\<rparr>))"

section \<open>What the handlers promise\<close>

text \<open>The CSRF check is exactly the signed double submit.  A request passes iff its method is safe, or the cookie and the
  trimmed header are the same token and that token encodes 32 bytes with their MAC under the server's secret.\<close>
theorem VerifyRequest_iff:
  assumes "\<And>raw. length (token_mac E raw) = mac_size"
  shows "VerifyRequest E r = Inr () \<longleftrightarrow> rq_method r \<in> {''GET'', ''HEAD'', ''OPTIONS''} \<or>
    (\<exists>tok raw. map_of (rq_cookies r) CSRFCookie = Some tok \<and> trim_space (rq_csrf r) = tok \<and> signed E tok raw)"
proof -
  note sg = ValidateToken_signed[OF assms]
  have "\<not> ValidateToken E []" by (simp add: ValidateToken_def)
  then have none: "\<not> signed E [] raw" for raw unfolding sg by blast
  show ?thesis
    by (auto simp: VerifyRequest_def Let_def sg none split: option.splits)
qed

lemma ServeLogin_exact_all:
  assumes "ServeLogin E now raw token r st = (rep, st')"
  defines "kept \<equiv> if presented_session r \<noteq> [] then Delete (au_sessions st) (presented_session r) else au_sessions st"
  shows "rp_status rep = 200 \<longleftrightarrow> rq_method r = ''POST'' \<and> VerifyRequest E r = Inr () \<and>
      fst (allowAt (au_limiter st) (clientIP E r) now) \<and>
      (\<exists>p h. rq_password r = Some p \<and> p \<noteq> [] \<and> au_owner st = Some h \<and> h \<noteq> [] \<and> check_hash E h p) \<and>
      token \<notin> sn_token ` set kept"
    and "rp_status rep = 200 \<Longrightarrow> au_sessions st' = kept @
      [\<lparr>sn_token = token, sn_expires = millis (now + session_max_age E), sn_agent = rq_agent r\<rparr>] \<and>
      map_of (map (\<lambda>(n, v, a). (n, v)) (rp_cookies rep)) SessionCookie = Some token"
    and "rp_status rep \<noteq> 200 \<Longrightarrow> au_sessions st' = au_sessions st" and "au_owner st' = au_owner st"
    and "VerifyRequest E r \<noteq> Inr () \<Longrightarrow> st' = st"
  using assms(1) unfolding kept_def
  by (auto simp: ServeLogin_def Let_def Rotate_delete insert_session_def VerifyOwnerPassword_def VerifyPassword_def WriteError_def WriteOK_def
      session_cookie_def split: if_splits sum.splits option.splits prod.splits)

text \<open>C23: a session is created by a correct login only.  The login handler answers 200 exactly for a POST request that passes
  the CSRF check and the limiter and carries the owner's password, when the new token is not in the table; then
  the presented session is replaced by one with the new token and everything else stays.  In every other case
  the sessions are untouched, and a request without a CSRF token does not even reach the limiter.\<close>
theorem ServeLogin_exact:
  assumes "ServeLogin E now raw token r st = (rep, st')"
  defines "kept \<equiv> if presented_session r \<noteq> [] then Delete (au_sessions st) (presented_session r) else au_sessions st"
  shows "(rp_status rep = 200 \<longleftrightarrow> rq_method r = ''POST'' \<and> VerifyRequest E r = Inr () \<and>
      fst (allowAt (au_limiter st) (clientIP E r) now) \<and>
      (\<exists>p h. rq_password r = Some p \<and> p \<noteq> [] \<and> au_owner st = Some h \<and> h \<noteq> [] \<and> check_hash E h p) \<and>
      token \<notin> sn_token ` set kept) \<and>
    (rp_status rep = 200 \<longrightarrow> au_sessions st' = kept @
      [\<lparr>sn_token = token, sn_expires = millis (now + session_max_age E), sn_agent = rq_agent r\<rparr>] \<and>
      map_of (map (\<lambda>(n, v, a). (n, v)) (rp_cookies rep)) SessionCookie = Some token) \<and>
    (rp_status rep \<noteq> 200 \<longrightarrow> au_sessions st' = au_sessions st) \<and> au_owner st' = au_owner st \<and>
    (VerifyRequest E r \<noteq> Inr () \<longrightarrow> st' = st)"
  unfolding kept_def by (intro conjI impI ServeLogin_exact_all[OF assms(1)])

section \<open>Guessing the password\<close>

text \<open>A run of login requests, each with its time and random values, and the replies.\<close>

type_synonym login = "int \<times> string \<times> string \<times> request"

fun logins :: "auth_env \<Rightarrow> auth_state \<Rightarrow> login list \<Rightarrow> reply list" where
  "logins E st [] = []"
| "logins E st ((now, raw, token, r) # ls) = (case ServeLogin E now raw token r st of (rep, st') \<Rightarrow> rep # logins E st' ls)"

text \<open>A reply for which the password was compared: accepted, refused, or the insert failed behind it.\<close>

definition compared :: "reply \<Rightarrow> bool" where
  "compared rep \<longleftrightarrow> rp_status rep \<in> {200, 401, 500}"

fun comparisons :: "auth_env \<Rightarrow> string \<Rightarrow> login list \<Rightarrow> reply list \<Rightarrow> nat" where
  "comparisons E ip ((now, raw, token, r) # ls) (rep # reps) =
     (if compared rep \<and> clientIP E r = ip then 1 else 0) + comparisons E ip ls reps"
| "comparisons E ip ls reps = 0"

text \<open>The calls of the limiter that a run makes.\<close>

definition limiter_calls :: "auth_env \<Rightarrow> login list \<Rightarrow> (string \<times> int) list" where
  "limiter_calls E ls = map (\<lambda>(now, raw, token, r). (clientIP E r, now))
     (filter (\<lambda>(now, raw, token, r). rq_method r = ''POST'' \<and> VerifyRequest E r = Inr ()) ls)"

fun login_state :: "auth_env \<Rightarrow> auth_state \<Rightarrow> login list \<Rightarrow> auth_state" where
  "login_state E st [] = st"
| "login_state E st ((now, raw, token, r) # ls) = login_state E (snd (ServeLogin E now raw token r st)) ls"

fun limiter_after :: "limiter \<Rightarrow> (string \<times> int) list \<Rightarrow> limiter" where
  "limiter_after rl [] = rl"
| "limiter_after rl ((key, now) # calls) = limiter_after (snd (allowAt rl key now)) calls"

lemma ServeLogin_limiter:
  "au_limiter (snd (ServeLogin E now raw token r st)) =
     (if rq_method r = ''POST'' \<and> VerifyRequest E r = Inr () then snd (allowAt (au_limiter st) (clientIP E r) now) else au_limiter st)"
  by (auto simp: ServeLogin_def Let_def split: sum.splits option.splits prod.splits)

lemma ServeLogin_compared:
  "compared (fst (ServeLogin E now raw token r st)) \<Longrightarrow>
     rq_method r = ''POST'' \<and> VerifyRequest E r = Inr () \<and> fst (allowAt (au_limiter st) (clientIP E r) now)"
  by (auto simp: ServeLogin_def Let_def compared_def WriteError_def WriteOK_def split: sum.splits option.splits prod.splits if_splits)

lemma login_state_limiter: "au_limiter (login_state E st ls) = limiter_after (au_limiter st) (limiter_calls E ls)"
  by (induction E st ls rule: login_state.induct) (auto simp: limiter_calls_def ServeLogin_limiter)

lemma logins_append: "logins E st (xs @ ys) = logins E st xs @ logins E (login_state E st xs) ys"
  by (induction xs arbitrary: st) (auto split: prod.split)

lemma answers_append: "answers rl (xs @ ys) = answers rl xs @ answers (limiter_after rl xs) ys"
  by (induction xs arbitrary: rl) (auto simp: split_def Let_def)

lemma length_logins [simp]: "length (logins E st ls) = length ls"
  by (induction E st ls rule: logins.induct) (auto split: prod.split)

lemma length_answers [simp]: "length (answers rl calls) = length calls"
  by (induction calls arbitrary: rl) (auto simp: split_def Let_def)

lemma comparisons_allowed:
  "comparisons E ip ls (logins E st ls) \<le>
     allowed_count ip (limiter_calls E ls) (answers (au_limiter st) (limiter_calls E ls))"
proof (induction ls arbitrary: st)
  case Nil
  then show ?case by (simp add: limiter_calls_def)
next
  case (Cons l ls)
  obtain now raw token r where l: "l = (now, raw, token, r)" by (cases l)
  obtain rep st' where sl: "ServeLogin E now raw token r st = (rep, st')" by (cases "ServeLogin E now raw token r st")
  note IH = Cons.IH[of st']
  have cmp: "compared rep \<Longrightarrow> rq_method r = ''POST'' \<and> VerifyRequest E r = Inr () \<and> fst (allowAt (au_limiter st) (clientIP E r) now)"
    using ServeLogin_compared[of E now raw token r st] sl by simp
  have lim: "au_limiter st' =
     (if rq_method r = ''POST'' \<and> VerifyRequest E r = Inr () then snd (allowAt (au_limiter st) (clientIP E r) now) else au_limiter st)"
    using ServeLogin_limiter[of E now raw token r st] sl by simp
  show ?case
  proof (cases "rq_method r = ''POST'' \<and> VerifyRequest E r = Inr ()")
    case True
    then have calls: "limiter_calls E (l # ls) = (clientIP E r, now) # limiter_calls E ls" by (simp add: l limiter_calls_def)
    show ?thesis using True IH cmp lim unfolding calls by (auto simp: l sl split_def Let_def intro: le_SucI)
  next
    case False
    then have "limiter_calls E (l # ls) = limiter_calls E ls" by (auto simp: l limiter_calls_def)
    then show ?thesis using IH cmp lim False by (auto simp: l sl)
  qed
qed

text \<open>How fast a password can be guessed.  In a server that has just started, whatever requests came before and whatever
  other clients do, the requests of one client address with times in a window of length \<open>d\<close> have the password compared
  at most \<open>5 + 5 d / minute\<close> times.\<close>
theorem guesses_bounded:
  assumes "au_limiter st = LoginRateLimiter t0" and "sorted (map fst (before @ window))" and "\<forall>l \<in> set (before @ window). 0 \<le> fst l"
    and "\<forall>l \<in> set window. s \<le> fst l \<and> fst l \<le> s + d" and "0 \<le> d"
  shows "of_nat (comparisons E ip window (drop (length before) (logins E st (before @ window)))) \<le>
    (5 + 5 * of_int d / of_int minute :: rat)"
proof -
  let ?b = "limiter_calls E before" and ?w = "limiter_calls E window"
  have calls: "limiter_calls E (before @ window) = ?b @ ?w" by (simp add: limiter_calls_def)
  have sub: "set (limiter_calls E ls) \<subseteq> (\<lambda>l. (clientIP E (snd (snd (snd l))), fst l)) ` set ls" for ls
    by (force simp: limiter_calls_def)
  have srt: "sorted (map snd (limiter_calls E ls))" if "sorted (map fst ls)" for ls
  proof -
    have "map snd (limiter_calls E ls) = map fst (filter (\<lambda>(now, raw, token, r). rq_method r = ''POST'' \<and> VerifyRequest E r = Inr ()) ls)"
      by (simp add: limiter_calls_def split_def comp_def)
    then show ?thesis using sorted_filter[OF that] by simp
  qed
  have "of_nat (allowed_count ip ?w (drop (length ?b) (answers (NewRateLimiter 5 minute t0) (?b @ ?w)))) \<le>
      of_int 5 + of_int 5 * (of_int (s + d - s) / of_int minute :: rat)"
  proof (rule window_bound)
    show "sorted (map snd (?b @ ?w))" using srt[OF assms(2)] calls by simp
    show "\<forall>c \<in> set (?b @ ?w). 0 \<le> snd c" using sub[of "before @ window"] assms(3) unfolding calls by fastforce
    show "\<forall>c \<in> set ?w. s \<le> snd c \<and> snd c \<le> s + d" using sub[of window] assms(4) by fastforce
  qed (use assms(5) in \<open>simp_all add: minute_def\<close>)
  moreover have "comparisons E ip window (drop (length before) (logins E st (before @ window))) \<le>
      allowed_count ip ?w (drop (length ?b) (answers (NewRateLimiter 5 minute t0) (?b @ ?w)))"
    using comparisons_allowed[of E ip window "login_state E st before"] assms(1)
    by (simp add: logins_append answers_append login_state_limiter LoginRateLimiter_def)
  ultimately show ?thesis by (simp add: order_trans[OF of_nat_mono])
qed

section \<open>Examples\<close>

text \<open>A server with one owner; the MAC, the hash and the address parser are concrete functions.\<close>

definition demo_env :: auth_env where
  "demo_env = \<lparr>token_mac = (\<lambda>raw. replicate 32 CHR ''m''), check_hash = (\<lambda>h p. h = ''#'' @ p), split_host = (\<lambda>s. None),
     session_max_age = 3600 * 10 ^ 9\<rparr>"

definition demo_raw :: string where "demo_raw = replicate 32 CHR ''r''"

definition demo_request :: "string \<Rightarrow> request" where
  "demo_request p = \<lparr>rq_method = ''POST'', rq_cookies = [(CSRFCookie, GenerateToken demo_env demo_raw)],
     rq_csrf = GenerateToken demo_env demo_raw, rq_peer = ''peer'', rq_agent = ''ua'', rq_password = Some p\<rparr>"

definition demo_state :: auth_state where
  "demo_state = \<lparr>au_sessions = [], au_owner = Some ''#secret99'', au_limiter = LoginRateLimiter 0\<rparr>"

lemma b64_plain: "c \<in> set (b64_encode s) \<Longrightarrow> c \<in> b64_char ` {n. n < 64}"
proof (induction s rule: b64_encode.induct)
  case (4 x y z r)
  have "byte z mod 64 < 64" by simp
  with 4 show ?case by (auto simp del: byte_parts)
qed auto

lemma trim_space_token: "trim_space (b64_encode s) = b64_encode s"
proof (rule trim_space_plain, rule ballI)
  fix c assume "c \<in> set (b64_encode s)"
  then obtain n where "n < 64" "c = b64_char n" using b64_plain by blast
  then show "byte c < 0x80 \<and> \<not> is_space (byte c)" by (auto simp: byte_b64_char is_space_def)
qed

lemma demo_csrf: "VerifyRequest demo_env (demo_request p) = Inr ()"
proof -
  have "length (token_mac demo_env raw) = mac_size" for raw by (simp add: demo_env_def mac_size_def)
  then have "ValidateToken demo_env (GenerateToken demo_env demo_raw)"
    using GenerateToken_signed[of demo_raw demo_env] ValidateToken_signed[of demo_env] by (auto simp: demo_raw_def CSRFTokenBytes_def)
  moreover have "GenerateToken demo_env demo_raw \<noteq> []" using calculation by (auto simp: ValidateToken_def)
  moreover have "trim_space (GenerateToken demo_env demo_raw) = GenerateToken demo_env demo_raw"
    by (simp add: GenerateToken_def trim_space_token)
  ultimately show ?thesis by (simp add: VerifyRequest_def demo_request_def)
qed

theorem VerifyRequest_iff_witness:
  "\<exists>tok raw. map_of (rq_cookies (demo_request ''secret99'')) CSRFCookie = Some tok \<and> signed demo_env tok raw"
proof -
  have "length (token_mac demo_env raw) = mac_size" for raw by (simp add: demo_env_def mac_size_def)
  from VerifyRequest_iff[of demo_env, OF this, of "demo_request ''secret99''"] demo_csrf[of "''secret99''"]
  show ?thesis by (auto simp: demo_request_def)
qed

lemma demo_allowed: "fst (allowAt (LoginRateLimiter 0) ''peer'' 7)"
  by (simp add: allowAt_def LoginRateLimiter_def NewRateLimiter_def sweep_def time_sub_def max_duration_def minute_def refill_def
      new_bucket_def seconds_def Let_def)

theorem ServeLogin_exact_witness:
  "let (rep, st') = ServeLogin demo_env 7 demo_raw ''t'' (demo_request ''secret99'') demo_state
   in rp_status rep = 200 \<and> map sn_token (au_sessions st') = [''t'']"
proof -
  obtain rep st' where l: "ServeLogin demo_env 7 demo_raw ''t'' (demo_request ''secret99'') demo_state = (rep, st')"
    by (cases "ServeLogin demo_env 7 demo_raw ''t'' (demo_request ''secret99'') demo_state")
  have p: "presented_session (demo_request ''secret99'') = []"
    by (simp add: presented_session_def demo_request_def CSRFCookie_def SessionCookie_def)
  have "rp_status rep = 200"
    unfolding ServeLogin_exact[OF l, THEN conjunct1]
    using demo_csrf demo_allowed by (simp add: p) (simp add: demo_request_def demo_state_def demo_env_def clientIP_def)
  then show ?thesis using ServeLogin_exact[OF l, THEN conjunct2, THEN conjunct1] l p by (simp add: demo_state_def)
qed

theorem guesses_bounded_witness:
  "of_nat (comparisons demo_env ''peer'' [(7, demo_raw, ''t'', demo_request ''guess'')]
     (logins demo_env demo_state [(7, demo_raw, ''t'', demo_request ''guess'')])) \<le> (5 + 5 * of_int 1 / of_int minute :: rat)"
  using guesses_bounded[of demo_state 0 "[]" "[(7, demo_raw, ''t'', demo_request ''guess'')]" 7 1 demo_env "''peer''"]
  by (simp add: demo_state_def)

text \<open>The password is compared and the session inserted by two calls on the database.  A reset of the owner between the two
  revokes every session there is, but not the one that the old password is about to create.\<close>

lemma reset_races_login:
  "\<exists>st st1 ss. VerifyOwnerPassword demo_env st ''secret99'' = Inr () \<and>
     CreateOwner st ''renewed99'' (Some ''#renewed99'') True = Inr st1 \<and>
     VerifyOwnerPassword demo_env st1 ''secret99'' = Inl WrongPassword \<and>
     Rotate (au_sessions st1) [] ''t'' 7 7 (session_max_age demo_env) ''ua'' = Inr ss \<and> valid_now ss ''t'' 8"
  by (rule exI[of _ demo_state])
    (simp add: demo_state_def VerifyOwnerPassword_def VerifyPassword_def demo_env_def CreateOwner_def Rotate_delete
      insert_session_def DeleteAll_def valid_now_def Validate_def millis_def)

end
