(* ===== verification/Reader_Text.thy ===== *)
theory Reader_Text
  imports Go_Text
begin

text \<open>
  Text of the reader, internal/reader/normalize.go: conversion between byte offsets of a Go
  string and the UTF-16 offsets of the browser, paragraphs, and learning keys.  Unicode
  normalization (\<open>norm.NFC\<close>) and case folding (\<open>cases.Fold\<close>) come from another module and are the
  parameters \<open>nfc\<close> and \<open>foldcase\<close>.
\<close>

datatype text_error =
    ErrNoArticleBlocks | NotRuneBoundary | NegativeOffset | SplitsSurrogatePair | OffsetBeyondEnd
  | EmptySpan | NotUTF8 | ControlCharacter | EmptyKey

section \<open>UTF-16 offsets\<close>

definition rune_units :: "nat \<Rightarrow> nat" where
  "rune_units r = (if r > 0xFFFF then 2 else 1)"

definition UTF16Len :: "string \<Rightarrow> nat" where
  "UTF16Len s = sum_list (map rune_units (runes s))"

definition isRuneBoundary :: "string \<Rightarrow> nat \<Rightarrow> bool" where
  "isRuneBoundary s i = (if i = 0 \<or> i = length s then True else \<not> is_cont (s ! i))"

definition UTF16Offset :: "string \<Rightarrow> int \<Rightarrow> text_error + nat" where
  "UTF16Offset s i =
     (if i < 0 \<or> i > int (length s) \<or> \<not> isRuneBoundary s (nat i) then Inl NotRuneBoundary
      else Inr (UTF16Len (take (nat i) s)))"

text \<open>The loop over the runes of the text; \<open>pos\<close> and \<open>units\<close> are the loop's two counters.\<close>

fun scan_units :: "(nat \<times> string) list \<Rightarrow> nat \<Rightarrow> int \<Rightarrow> int \<Rightarrow> text_error + nat" where
  "scan_units [] pos units offset = (if units = offset then Inr pos else Inl OffsetBeyondEnd)"
| "scan_units ((r, w) # cs) pos units offset =
     (if units = offset then Inr pos
      else if units + int (rune_units r) > offset then Inl SplitsSurrogatePair
      else scan_units cs (pos + length w) (units + int (rune_units r)) offset)"

definition ByteOffsetFromUTF16 :: "string \<Rightarrow> int \<Rightarrow> text_error + nat" where
  "ByteOffsetFromUTF16 s offset =
     (if offset < 0 then Inl NegativeOffset else scan_units (chunks s) 0 0 offset)"

text \<open>The Go slice \<open>s[i:j]\<close>.\<close>

definition slice :: "string \<Rightarrow> nat \<Rightarrow> nat \<Rightarrow> string" where
  "slice s i j = drop i (take j s)"

definition TextForUTF16Span :: "string \<Rightarrow> int \<Rightarrow> int \<Rightarrow> text_error + string" where
  "TextForUTF16Span s a b =
     (if b \<le> a then Inl EmptySpan
      else bind_res (ByteOffsetFromUTF16 s a) (\<lambda>i.
           bind_res (ByteOffsetFromUTF16 s b) (\<lambda>j. Inr (slice s i j))))"

section \<open>Rune boundaries of valid text\<close>

definition rune_cut :: "string \<Rightarrow> nat \<Rightarrow> bool" where
  "rune_cut s i \<longleftrightarrow> i \<le> length s \<and> valid_utf8 (take i s) \<and> valid_utf8 (drop i s)"

lemma valid_Nil [simp]: "valid_utf8 []"
  by (simp add: valid_chunks)

lemma valid_append_iff: "valid_utf8 a \<Longrightarrow> valid_utf8 (a @ b) \<longleftrightarrow> valid_utf8 b"
  by (auto simp: valid_append) (simp add: valid_chunks chunks_append)

lemma cut_0: "valid_utf8 s \<Longrightarrow> rune_cut s 0"
  by (simp add: rune_cut_def)

lemma cut_length: "valid_utf8 s \<Longrightarrow> rune_cut s (length s)"
  by (simp add: rune_cut_def)

lemma cut_valid: "rune_cut s i \<Longrightarrow> valid_utf8 s"
  using valid_append[of "take i s" "drop i s"] by (simp add: rune_cut_def)

lemma cut_append: "valid_utf8 (a @ b) \<Longrightarrow> valid_utf8 a \<Longrightarrow> rune_cut (a @ b) (length a)"
  by (simp add: rune_cut_def valid_append_iff)

lemma valid_head:
  assumes "valid_utf8 s" and "s \<noteq> []"
  shows "good_chunk (rune_of s, take (rune_size s) s)" and "valid_utf8 (take (rune_size s) s)"
proof -
  show g: "good_chunk (rune_of s, take (rune_size s) s)"
    using assms by (simp add: valid_chunks chunks_nonempty)
  show "valid_utf8 (take (rune_size s) s)"
    using valid_bytes_of[of "[(rune_of s, take (rune_size s) s)]"] g by simp
qed

lemma cut_next:
  assumes "rune_cut s i" and "i < length s"
  shows "rune_cut s (i + rune_size (drop i s))"
proof -
  let ?d = "drop i s"
  have d: "valid_utf8 ?d" "?d \<noteq> []" using assms by (auto simp: rune_cut_def)
  have "take (i + rune_size ?d) s = take i s @ take (rune_size ?d) ?d" by (rule take_add)
  then have v: "valid_utf8 (take (i + rune_size ?d) s)"
    using assms(1) valid_head(2)[OF d] by (simp add: rune_cut_def valid_append)
  moreover have "i + rune_size ?d \<le> length s" using rune_size_le[of ?d] assms(2) by simp
  ultimately show ?thesis
    using cut_valid[OF assms(1)] valid_append_iff[OF v, of "drop (i + rune_size ?d) s"]
    by (simp add: rune_cut_def)
qed

lemma slice_length: "i \<le> j \<Longrightarrow> j \<le> length s \<Longrightarrow> length (slice s i j) = j - i"
  by (simp add: slice_def)

lemma take_slice: "i \<le> j \<Longrightarrow> take j s = take i s @ slice s i j"
  by (metis append_take_drop_id min.absorb1 slice_def take_take)

lemma slice_drop: "i \<le> j \<Longrightarrow> drop i s = slice s i j @ drop j s"
  by (metis append_take_drop_id drop_drop le_add_diff_inverse2 slice_def take_drop drop_take add.commute)

lemma slice_join:
  assumes "i \<le> j" and "j \<le> k"
  shows "slice s i k = slice s i j @ slice s j k"
proof -
  have "take i s @ slice s i k = take k s" using assms by (intro take_slice[symmetric]) simp
  also have "\<dots> = take i s @ slice s i j @ slice s j k"
    using take_slice[OF assms(2), of s] take_slice[OF assms(1), of s] by simp
  finally show ?thesis by simp
qed

lemma cut_slice:
  assumes "rune_cut s i" and "rune_cut s j" and "i \<le> j"
  shows "valid_utf8 (slice s i j)"
  using assms take_slice[OF assms(3), of s] valid_append_iff[of "take i s" "slice s i j"]
  by (simp add: rune_cut_def)

lemma rune_units_pos: "0 < rune_units r"
  by (simp add: rune_units_def)

lemma UTF16Len_append: "valid_utf8 a \<Longrightarrow> UTF16Len (a @ b) = UTF16Len a + UTF16Len b"
  by (simp add: UTF16Len_def runes_def chunks_append)

lemma UTF16Len_pos: "s \<noteq> [] \<Longrightarrow> 0 < UTF16Len s"
  using rune_units_pos by (simp add: UTF16Len_def runes_def chunks_nonempty)

lemma UTF16Len_Nil [simp]: "UTF16Len [] = 0"
  by (simp add: UTF16Len_def runes_def)

lemma scan_units_here: "scan_units cs pos u u = Inr pos"
  by (cases cs) auto

lemma scan_units_skip:
  "scan_units (as @ bs) pos u (u + int (sum_list (map (rune_units \<circ> fst) as))) = Inr (pos + length (bytes_of as))"
proof (induction as arbitrary: pos u)
  case Nil
  then show ?case by (simp add: scan_units_here)
next
  case (Cons a as)
  obtain r w where a: "a = (r, w)" by (cases a)
  show ?case
    using Cons[of "pos + length w" "u + int (rune_units r)"] rune_units_pos[of r]
    by (simp add: a algebra_simps)
qed

lemma scan_units_Inr:
  "scan_units cs pos u off = Inr p \<Longrightarrow>
   \<exists>as bs. cs = as @ bs \<and> p = pos + length (bytes_of as) \<and> off = u + int (sum_list (map (rune_units \<circ> fst) as))"
proof (induction cs pos u off rule: scan_units.induct)
  case (1 pos u off)
  then have "u = off" "p = pos" by (auto split: if_splits)
  then show ?case by simp
next
  case (2 r w cs pos u off)
  show ?case
  proof (cases "u = off")
    case True
    with 2(2) show ?thesis by - (rule exI[of _ "[]"], rule exI[of _ "(r, w) # cs"], simp)
  next
    case False
    then have n: "\<not> off < u + int (rune_units r)" using 2(2) by (auto split: if_splits)
    with False 2(2) have "scan_units cs (pos + length w) (u + int (rune_units r)) off = Inr p" by simp
    with 2(1)[OF False n] obtain as bs where "cs = as @ bs" "p = pos + length w + length (bytes_of as)"
      "off = u + int (rune_units r) + int (sum_list (map (rune_units \<circ> fst) as))"
      by blast
    then show ?thesis by - (rule exI[of _ "(r, w) # as"], rule exI[of _ bs], simp add: o_def)
  qed
qed

lemma of_units_cut:
  assumes "valid_utf8 s" and "rune_cut s i"
  shows "ByteOffsetFromUTF16 s (int (UTF16Len (take i s))) = Inr i"
proof -
  have v: "valid_utf8 (take i s)" and le: "i \<le> length s" using assms(2) by (auto simp: rune_cut_def)
  have c: "chunks s = chunks (take i s) @ chunks (drop i s)"
    using chunks_append[OF v, of "drop i s"] by simp
  show ?thesis
    using scan_units_skip[of "chunks (take i s)" "chunks (drop i s)" 0 0] le
    unfolding ByteOffsetFromUTF16_def c UTF16Len_def runes_def by (simp add: map_map)
qed

lemma of_units_Inr:
  assumes "valid_utf8 s" and "ByteOffsetFromUTF16 s u = Inr i"
  shows "rune_cut s i \<and> int (UTF16Len (take i s)) = u"
proof -
  obtain as bs where cs: "chunks s = as @ bs" and i: "i = length (bytes_of as)"
    and u: "u = int (sum_list (map (rune_units \<circ> fst) as))"
    using scan_units_Inr[of "chunks s" 0 0 u i] assms(2)
    by (auto simp: ByteOffsetFromUTF16_def split: if_splits)
  have g: "\<forall>c \<in> set as. good_chunk c" "\<forall>c \<in> set bs. good_chunk c"
    using assms(1) cs by (auto simp: valid_chunks)
  have s: "s = bytes_of as @ bytes_of bs" using bytes_of_chunks[of s] cs by simp
  have "rune_cut s i"
    using s i g by (simp add: rune_cut_def valid_bytes_of)
  moreover have "UTF16Len (take i s) = sum_list (map (rune_units \<circ> fst) as)"
    using s i g(1) by (simp add: UTF16Len_def runes_def chunks_of_good0)
  ultimately show ?thesis using u by simp
qed

lemma isRuneBoundary_cut:
  assumes "valid_utf8 s" and "i \<le> length s"
  shows "isRuneBoundary s i \<longleftrightarrow> rune_cut s i"
proof
  assume c: "rune_cut s i"
  show "isRuneBoundary s i"
  proof (cases "i = length s")
    case False
    then have d: "valid_utf8 (drop i s)" "drop i s \<noteq> []" using c by (auto simp: rune_cut_def)
    then have "\<not> is_cont (take (rune_size (drop i s)) (drop i s) ! 0)"
      using good_chunk_first[OF valid_head(1)] by blast
    moreover have "take (rune_size (drop i s)) (drop i s) ! 0 = s ! i"
      using rune_size_pos[OF d(2)] d(2) by simp
    ultimately show ?thesis by (simp add: isRuneBoundary_def)
  qed (simp add: isRuneBoundary_def)
next
  have main: "rune_cut (bytes_of cs) i"
    if "\<forall>c \<in> set cs. good_chunk c" "i \<le> length (bytes_of cs)" "isRuneBoundary (bytes_of cs) i" for cs
    using that
  proof (induction cs arbitrary: i)
    case Nil
    then show ?case by (simp add: rune_cut_def)
  next
    case (Cons c cs)
    obtain r w where c: "c = (r, w)" by (cases c)
    with Cons.prems have g: "good_chunk (r, w)" by simp
    have vw: "valid_utf8 w" using valid_bytes_of[of "[(r, w)]"] g by simp
    have vc: "valid_utf8 (bytes_of cs)" using Cons.prems(1) by (simp add: valid_bytes_of)
    consider "i = 0" | "0 < i" "i < length w" | "length w \<le> i" by linarith
    then show ?case
    proof cases
      case 1
      then show ?thesis using vw vc c by (simp add: rune_cut_def valid_append)
    next
      case 2
      from g have "is_cont (w ! i)"
        by (cases rule: good_chunk_cases) (use 2 in auto)
      with 2 Cons.prems(3) c show ?thesis by (simp add: isRuneBoundary_def nth_append split: if_splits)
    next
      case 3
      then have "isRuneBoundary (bytes_of cs) (i - length w)"
        using Cons.prems(3) c by (auto simp: isRuneBoundary_def nth_append split: if_splits)
      then have "rune_cut (bytes_of cs) (i - length w)"
        using Cons.IH Cons.prems(1,2) c 3 by simp
      with 3 vw c Cons.prems(2) show ?thesis by (simp add: rune_cut_def valid_append)
    qed
  qed
  show "isRuneBoundary s i \<Longrightarrow> rune_cut s i"
    using main[of "chunks s"] assms by (simp add: valid_chunks)
qed

section \<open>The offset codec\<close>

text \<open>What the segmentation and annotation code relies on: offsets of rune boundaries are
  converted to browser offsets and back without loss.\<close>

locale offset_codec =
  fixes to_units :: "string \<Rightarrow> int \<Rightarrow> text_error + nat"
    and of_units :: "string \<Rightarrow> int \<Rightarrow> text_error + nat"
    and boundary :: "string \<Rightarrow> nat \<Rightarrow> bool"
  assumes to_of: "valid_utf8 s \<Longrightarrow> to_units s (int i) = Inr u \<Longrightarrow> of_units s (int u) = Inr i"
    and of_to: "valid_utf8 s \<Longrightarrow> of_units s v = Inr i \<Longrightarrow> to_units s (int i) = Inr (nat v) \<and> 0 \<le> v"
    and to_iff: "valid_utf8 s \<Longrightarrow> (\<exists>u. to_units s (int i) = Inr u) \<longleftrightarrow> boundary s i"
begin

lemma to_units_inj:
  assumes "valid_utf8 s" and "to_units s (int i) = Inr u" and "to_units s (int j) = Inr u"
  shows "i = j"
  using to_of[OF assms(1,2)] to_of[OF assms(1,3)] by simp

lemma of_units_boundary:
  "valid_utf8 s \<Longrightarrow> of_units s v = Inr i \<Longrightarrow> boundary s i"
  using of_to to_iff by blast

lemma of_units_range:
  "valid_utf8 s \<Longrightarrow> boundary s i \<Longrightarrow> \<exists>u. of_units s (int u) = Inr i"
  using to_iff to_of by blast

end

lemma UTF16Offset_cut:
  assumes "valid_utf8 s"
  shows "UTF16Offset s (int i) = Inr u \<longleftrightarrow> rune_cut s i \<and> u = UTF16Len (take i s)"
proof (cases "i \<le> length s")
  case True
  then show ?thesis
    using isRuneBoundary_cut[OF assms True] by (auto simp: UTF16Offset_def)
next
  case False
  then show ?thesis by (simp add: UTF16Offset_def rune_cut_def)
qed

interpretation utf16: offset_codec UTF16Offset ByteOffsetFromUTF16 rune_cut
proof unfold_locales
  show "ByteOffsetFromUTF16 s (int u) = Inr i" if "valid_utf8 s" "UTF16Offset s (int i) = Inr u" for s i u
    using of_units_cut[OF that(1), of i] UTF16Offset_cut[OF that(1), of i u] that(2) by simp
  show "UTF16Offset s (int i) = Inr (nat u) \<and> 0 \<le> u"
    if "valid_utf8 s" "ByteOffsetFromUTF16 s u = Inr i" for s u i
  proof -
    have c: "rune_cut s i" "int (UTF16Len (take i s)) = u" using of_units_Inr[OF that] by auto
    have "UTF16Offset s (int i) = Inr (UTF16Len (take i s))" using c(1) UTF16Offset_cut[OF that(1)] by simp
    with c(2) show ?thesis by auto
  qed
  show "(\<exists>u. UTF16Offset s (int i) = Inr u) \<longleftrightarrow> rune_cut s i" if "valid_utf8 s" for s i
    using UTF16Offset_cut[OF that] by blast
qed

text \<open>C37: byte offsets and browser offsets of a valid text convert into each other without loss: a byte
  offset has the UTF-16 offset u exactly when u converts back to it.  An integer is accepted as a byte offset
  exactly when it is not negative and cuts the text between two runes, and its UTF-16 offset is the number of
  units before it; an integer is accepted as a UTF-16 offset exactly when it is the number of units before such
  a cut.  Every other integer, negative, inside a rune or a surrogate pair, or beyond the end, is an error.\<close>
theorem utf16_roundtrip:
  assumes "valid_utf8 s"
  shows "(UTF16Offset s (int i) = Inr u \<longleftrightarrow> ByteOffsetFromUTF16 s (int u) = Inr i) \<and>
    (\<forall>x v. UTF16Offset s x = Inr v \<longleftrightarrow> 0 \<le> x \<and> rune_cut s (nat x) \<and> v = UTF16Len (take (nat x) s)) \<and>
    (\<forall>y j. ByteOffsetFromUTF16 s y = Inr j \<longleftrightarrow> rune_cut s j \<and> y = int (UTF16Len (take j s)))"
proof (intro conjI allI)
  show "UTF16Offset s (int i) = Inr u \<longleftrightarrow> ByteOffsetFromUTF16 s (int u) = Inr i"
    using utf16.to_of[OF assms, of i u] utf16.of_to[OF assms, of "int u" i] by auto
  show "UTF16Offset s x = Inr v \<longleftrightarrow> 0 \<le> x \<and> rune_cut s (nat x) \<and> v = UTF16Len (take (nat x) s)" for x v
  proof (cases "0 \<le> x")
    case True
    then show ?thesis using UTF16Offset_cut[OF assms, of "nat x" v] by simp
  next
    case False
    then show ?thesis by (simp add: UTF16Offset_def)
  qed
  show "ByteOffsetFromUTF16 s y = Inr j \<longleftrightarrow> rune_cut s j \<and> y = int (UTF16Len (take j s))" for y j
    using of_units_Inr[OF assms, of y j] of_units_cut[OF assms, of j] by auto
qed

text \<open>An emoji of four bytes and two units, and a letter: byte 4 is unit 2, and -1 is no offset.\<close>

theorem utf16_roundtrip_witness:
  "ByteOffsetFromUTF16 [CHR 0xF0, CHR 0x9F, CHR 0x98, CHR 0x80, CHR ''a''] 2 = Inr 4 \<and>
   \<not> (\<exists>v. UTF16Offset [CHR 0xF0, CHR 0x9F, CHR 0x98, CHR 0x80, CHR ''a''] (- 1) = Inr v)"
proof -
  let ?s = "[CHR 0xF0, CHR 0x9F, CHR 0x98, CHR 0x80, CHR ''a'']"
  have d: "decode_rune ?s = (0x1F600, 4)"
    by (simp add: decode_rune_def lead_info_def byte_def cont_bits_def is_cont_def)
  have d': "decode_rune (take 4 ?s) = (0x1F600, 4)"
    by (simp add: decode_rune_def lead_info_def byte_def cont_bits_def is_cont_def)
  have v: "valid_utf8 ?s"
    using d by (simp add: valid_utf8.simps[of ?s] bad_rune_def rune_error_def ascii_valid byte_def)
  have "runes (take 4 ?s) = [0x1F600]"
    using d' by (simp add: runes_def chunks_nonempty)
  then have "UTF16Offset ?s (int 4) = Inr 2"
    by (simp add: UTF16Offset_def isRuneBoundary_def is_cont_def byte_def UTF16Len_def rune_units_def)
  then show ?thesis using utf16_roundtrip[OF v(1), of 4 2] by (auto simp del: not_ex)
qed

lemma TextForUTF16Span_slice:
  assumes "valid_utf8 s" and "rune_cut s i" and "rune_cut s j" and "i < j"
  shows "TextForUTF16Span s (int (UTF16Len (take i s))) (int (UTF16Len (take j s))) = Inr (slice s i j)"
proof -
  have le: "j \<le> length s" using assms(3) by (simp add: rune_cut_def)
  have "slice s i j \<noteq> []" using assms(4) le slice_length[of i j s] by auto
  then have "UTF16Len (take i s) < UTF16Len (take j s)"
    using take_slice[of i j s] assms(2,4) UTF16Len_pos[of "slice s i j"]
    by (simp add: rune_cut_def UTF16Len_append)
  then show ?thesis
    by (simp add: TextForUTF16Span_def of_units_cut[OF assms(1)] assms(2,3))
qed

section \<open>Text kept in pieces\<close>

text \<open>\<open>kept t ps\<close>: the text is the pieces in order, with only white space around and between them.\<close>

definition kept :: "string \<Rightarrow> string list \<Rightarrow> bool" where
  "kept t ps \<longleftrightarrow> (\<exists>gaps tail. length gaps = length ps \<and> t = concat (map2 (@) gaps ps) @ tail \<and>
     (\<forall>g \<in> set (tail # gaps). valid_utf8 g \<and> blank g))"

lemma runes_append: "valid_utf8 a \<Longrightarrow> runes (a @ b) = runes a @ runes b"
  by (simp add: runes_def chunks_append)

lemma blank_append:
  assumes "valid_utf8 a" and "valid_utf8 b"
  shows "blank (a @ b) \<longleftrightarrow> blank a \<and> blank b"
  using assms by (auto simp: blank_valid valid_append runes_append)

lemma kept_Nil [simp]: "kept [] []"
  unfolding kept_def by (rule exI[of _ "[]"], rule exI[of _ "[]"]) simp

lemma kept_gap:
  assumes "kept t ps" and "valid_utf8 g" and "blank g"
  shows "kept (t @ g) ps"
proof -
  obtain gaps tail where k: "length gaps = length ps" "t = concat (map2 (@) gaps ps) @ tail"
    "\<forall>g \<in> set (tail # gaps). valid_utf8 g \<and> blank g"
    using assms(1) by (auto simp: kept_def)
  with assms(2,3) have "\<forall>x \<in> set ((tail @ g) # gaps). valid_utf8 x \<and> blank x"
    by (auto simp: valid_append blank_append)
  then show ?thesis
    unfolding kept_def by - (rule exI[of _ gaps], rule exI[of _ "tail @ g"], use k in simp)
qed

lemma kept_piece:
  assumes "kept t ps"
  shows "kept (t @ p) (ps @ [p])"
proof -
  obtain gaps tail where k: "length gaps = length ps" "t = concat (map2 (@) gaps ps) @ tail"
    "\<forall>g \<in> set (tail # gaps). valid_utf8 g \<and> blank g"
    using assms(1) by (auto simp: kept_def)
  then show ?thesis
    unfolding kept_def by - (rule exI[of _ "gaps @ [tail]"], rule exI[of _ "[]"], auto)
qed

section \<open>Paragraphs\<close>

function lineBounds :: "string \<Rightarrow> nat \<Rightarrow> nat \<times> nat" where
  "lineBounds s index =
     (if length s \<le> index then (length s, length s)
      else if s ! index = CHR 0x0A then (index, index + 1)
      else if s ! index = CHR 0x0D then
        (if index + 1 < length s \<and> s ! (index + 1) = CHR 0x0A then (index, index + 2) else (index, index + 1))
      else lineBounds s (index + 1))"
  by pat_completeness auto
termination
  by (relation "measure (\<lambda>(s, index). length s - index)") auto

declare lineBounds.simps [simp del]

lemma lineBounds_le:
  "i < length s \<Longrightarrow> i \<le> fst (lineBounds s i) \<and> fst (lineBounds s i) \<le> snd (lineBounds s i)
     \<and> i < snd (lineBounds s i) \<and> snd (lineBounds s i) \<le> length s"
proof (induction s i rule: lineBounds.induct)
  case (1 s i)
  show ?case
  proof (cases "i + 1 < length s")
    case True
    with 1 show ?thesis by (auto simp: lineBounds.simps[of s i])
  next
    case False
    with 1(2) have "lineBounds s (i + 1) = (length s, length s)" by (simp add: lineBounds.simps)
    with 1(2) False show ?thesis by (auto simp: lineBounds.simps[of s i])
  qed
qed

text \<open>
  The loop of \<open>ParseParagraphs\<close>.  \<open>open\<close> is the pair \<open>(blockStart, lastContentEnd)\<close> while a
  paragraph is open; the code keeps the two in variables that are both -1 otherwise.
\<close>

function paragraph_loop :: "string \<Rightarrow> nat \<Rightarrow> (nat \<times> nat) option \<Rightarrow> string list \<Rightarrow> string list" where
  "paragraph_loop s lineStart open_block blocks =
     (if lineStart < length s then
        (let (lineEnd, next_line) = lineBounds s lineStart in
         if blank (slice s lineStart lineEnd) then
           (case open_block of
              None \<Rightarrow> paragraph_loop s next_line None blocks
            | Some (a, b) \<Rightarrow> paragraph_loop s next_line None (blocks @ [slice s a b]))
         else
           (case open_block of
              None \<Rightarrow> paragraph_loop s next_line (Some (lineStart, lineEnd)) blocks
            | Some (a, b) \<Rightarrow> paragraph_loop s next_line (Some (a, lineEnd)) blocks))
      else (case open_block of None \<Rightarrow> blocks | Some (a, b) \<Rightarrow> blocks @ [slice s a b]))"
  by pat_completeness auto
termination
proof (relation "measure (\<lambda>(s, lineStart, _, _). length s - lineStart)", goal_cases)
  case 1
  then show ?case by simp
qed (use lineBounds_le in \<open>(simp, metis diff_less_mono2 snd_conv)+\<close>)

declare paragraph_loop.simps [simp del]

definition ParseParagraphs :: "string \<Rightarrow> text_error + string list" where
  "ParseParagraphs body =
     (if body = [] then Inl ErrNoArticleBlocks
      else case paragraph_loop body 0 None [] of
             [] \<Rightarrow> Inl ErrNoArticleBlocks | b # bs \<Rightarrow> Inr (b # bs))"

text \<open>The lines of a text, each with its terminator.\<close>

function lines_from :: "string \<Rightarrow> nat \<Rightarrow> (string \<times> string) list" where
  "lines_from s i =
     (if i < length s then
        (slice s i (fst (lineBounds s i)), slice s (fst (lineBounds s i)) (snd (lineBounds s i)))
          # lines_from s (snd (lineBounds s i))
      else [])"
  by pat_completeness auto
termination
  by (relation "measure (\<lambda>(s, i). length s - i)") (use lineBounds_le in \<open>auto intro: diff_less_mono2\<close>)

declare lines_from.simps [simp del]

abbreviation blank_line :: "string \<times> string \<Rightarrow> bool" where
  "blank_line l \<equiv> blank (fst l)"

fun join_lines :: "(string \<times> string) list \<Rightarrow> string" where
  "join_lines [] = []"
| "join_lines [l] = fst l"
| "join_lines (l # ls) = fst l @ snd l @ join_lines ls"

text \<open>The reference: maximal runs of lines that are not blank, joined.\<close>

function paragraphs :: "(string \<times> string) list \<Rightarrow> string list" where
  "paragraphs ls =
     (let rest = dropWhile blank_line ls in
      if rest = [] then []
      else join_lines (takeWhile (\<lambda>l. \<not> blank_line l) rest)
             # paragraphs (dropWhile (\<lambda>l. \<not> blank_line l) rest))"
  by pat_completeness auto
termination
proof (relation "measure length", goal_cases)
  case (2 ls rest)
  then obtain l r where lr: "rest = l # r" by (meson neq_Nil_conv)
  have "dropWhile blank_line ls = l # r" using 2(1) lr by simp
  then have "\<not> blank_line l" by (simp add: dropWhile_eq_Cons_conv)
  then have "length (dropWhile (\<lambda>l. \<not> blank_line l) rest) \<le> length r"
    using lr length_dropWhile_le by simp
  also have "length r < length rest" using lr by simp
  also have "length rest \<le> length ls" using 2 length_dropWhile_le by simp
  finally show ?case by simp
qed simp

declare paragraphs.simps [simp del]

lemma paragraphs_blank: "blank_line l \<Longrightarrow> paragraphs (l # ls) = paragraphs ls"
  by (simp add: paragraphs.simps[of "l # ls"] paragraphs.simps[of ls])

lemma paragraphs_run:
  "\<not> blank_line l \<Longrightarrow> paragraphs (l # ls) =
     join_lines (l # takeWhile (\<lambda>l. \<not> blank_line l) ls) # paragraphs (dropWhile (\<lambda>l. \<not> blank_line l) ls)"
  by (simp add: paragraphs.simps[of "l # ls"])

lemma paragraphs_Nil [simp]: "paragraphs [] = []"
  by (simp add: paragraphs.simps)

text \<open>What is still to come when a paragraph is open, as a suffix of its text.\<close>

fun open_tail :: "(string \<times> string) list \<Rightarrow> string \<Rightarrow> string" where
  "open_tail [] term_text = []"
| "open_tail ls term_text = term_text @ join_lines ls"

lemma paragraph_loop_spec:
  assumes "case open_block of None \<Rightarrow> True | Some (a, b) \<Rightarrow> a \<le> b \<and> b \<le> i"
  shows "paragraph_loop s i open_block blocks =
    (case open_block of
       None \<Rightarrow> blocks @ paragraphs (lines_from s i)
     | Some (a, b) \<Rightarrow> blocks @ [slice s a b @
           open_tail (takeWhile (\<lambda>l. \<not> blank_line l) (lines_from s i)) (slice s b i)]
         @ paragraphs (dropWhile (\<lambda>l. \<not> blank_line l) (lines_from s i)))"
  using assms
proof (induction s i open_block blocks rule: paragraph_loop.induct)
  case (1 s i ob blocks)
  show ?case
  proof (cases "i < length s")
    case False
    then show ?thesis
      by (simp add: paragraph_loop.simps[of s i] lines_from.simps[of s i] split: option.split)
  next
    case True
    define e where "e = fst (lineBounds s i)"
    define n where "n = snd (lineBounds s i)"
    have en: "lineBounds s i = (e, n)" by (simp add: e_def n_def)
    have le: "i \<le> e" "e \<le> n" using lineBounds_le[OF True] by (simp_all add: e_def n_def)
    have ls: "lines_from s i = (slice s i e, slice s e n) # lines_from s n"
      using True by (simp add: lines_from.simps[of s i] en)
    note IH = 1(1-4)[OF True en[symmetric] refl]
    show ?thesis
    proof (cases "blank (slice s i e)")
      case b: True
      show ?thesis
      proof (cases ob)
        case None
        then show ?thesis
          using True b en IH(1)[OF b None] by (simp add: paragraph_loop.simps[of s i] ls paragraphs_blank)
      next
        case (Some p)
        obtain x y where p: "p = (x, y)" by (cases p)
        then show ?thesis
          using True b en IH(2)[OF b Some p[symmetric]] Some
          by (simp add: paragraph_loop.simps[of s i] ls paragraphs_blank)
      qed
    next
      case b: False
      show ?thesis
      proof (cases ob)
        case None
        then have "paragraph_loop s i ob blocks = paragraph_loop s n (Some (i, e)) blocks"
          using True b en by (simp add: paragraph_loop.simps[of s i])
        also have "\<dots> = blocks @ [slice s i e @
            open_tail (takeWhile (\<lambda>l. \<not> blank_line l) (lines_from s n)) (slice s e n)]
            @ paragraphs (dropWhile (\<lambda>l. \<not> blank_line l) (lines_from s n))"
          using IH(3)[OF b None] le by simp
        finally show ?thesis
          using b None by (simp add: ls paragraphs_run)
            (cases "takeWhile (\<lambda>l. \<not> blank_line l) (lines_from s n)"; simp)
      next
        case (Some p)
        obtain x y where p: "p = (x, y)" by (cases p)
        have xy: "x \<le> y" "y \<le> i" using 1(5) Some p by auto
        have "paragraph_loop s i ob blocks = paragraph_loop s n (Some (x, e)) blocks"
          using True b en Some p by (simp add: paragraph_loop.simps[of s i])
        also have "\<dots> = blocks @ [slice s x e @
            open_tail (takeWhile (\<lambda>l. \<not> blank_line l) (lines_from s n)) (slice s e n)]
            @ paragraphs (dropWhile (\<lambda>l. \<not> blank_line l) (lines_from s n))"
          using IH(4)[OF b Some p[symmetric]] le xy by simp
        also have "slice s x e = slice s x y @ slice s y i @ slice s i e"
          using slice_join[of x y e s] slice_join[of y i e s] xy le by simp
        finally show ?thesis
          using b Some p by (simp add: ls)
            (cases "takeWhile (\<lambda>l. \<not> blank_line l) (lines_from s n)"; simp)
      qed
    qed
  qed
qed

text \<open>Paragraphs are the maximal runs of consecutive lines that are not blank, each kept byte for byte
  with its inner line endings; a body without such a line is rejected.\<close>
theorem ParseParagraphs_spec:
  "ParseParagraphs body =
     (if paragraphs (lines_from body 0) = [] then Inl ErrNoArticleBlocks
      else Inr (paragraphs (lines_from body 0)))"
proof (cases "body = []")
  case True
  then show ?thesis by (simp add: ParseParagraphs_def lines_from.simps)
next
  case False
  then show ?thesis
    by (simp add: ParseParagraphs_def paragraph_loop_spec split: list.split)
qed

lemma cut_ascii:
  assumes "valid_utf8 s" and "i < length s" and "byte (s ! i) < 0x80"
  shows "rune_cut s i" and "rune_cut s (Suc i)"
proof -
  show c: "rune_cut s i"
    using isRuneBoundary_cut[OF assms(1), of i] assms(2,3)
    by (auto simp: isRuneBoundary_def is_cont_def split: if_splits)
  have "rune_size (drop i s) = 1"
    using assms(2,3) by (simp add: Cons_nth_drop_Suc[symmetric])
  then show "rune_cut s (Suc i)" using cut_next[OF c assms(2)] by simp
qed

lemma line_end_bytes: "byte (CHR 0x0A) = 10" "byte (CHR 0x0D) = 13" "is_space 10" "is_space 13"
  by (simp_all add: byte_def is_space_def)

lemma blank_newline: "blank [CHR 0x0A]" "blank [CHR 0x0D]" "blank [CHR 0x0D, CHR 0x0A]"
  by (simp_all add: ascii_blank line_end_bytes)

lemma slice_one: "i < length s \<Longrightarrow> slice s i (Suc i) = [s ! i]"
  by (simp add: slice_def take_Suc_conv_app_nth)

lemma slice_two: "Suc i < length s \<Longrightarrow> slice s i (Suc (Suc i)) = [s ! i, s ! Suc i]"
  using slice_join[of i "Suc i" "Suc (Suc i)" s] by (simp add: slice_one)

lemma lineBounds_cut:
  assumes "valid_utf8 s" and "i < length s"
  shows "rune_cut s (fst (lineBounds s i)) \<and> rune_cut s (snd (lineBounds s i))
    \<and> blank (slice s (fst (lineBounds s i)) (snd (lineBounds s i)))"
  using assms
proof (induction s i rule: lineBounds.induct)
  case (1 s i)
  consider "s ! i = CHR 0x0A" | "s ! i = CHR 0x0D" | "s ! i \<noteq> CHR 0x0A" "s ! i \<noteq> CHR 0x0D" by blast
  then show ?case
  proof cases
    case 1
    then show ?thesis
      using cut_ascii[OF "1.prems"] "1.prems"(2)
      by (simp add: lineBounds.simps[of s i] line_end_bytes slice_one blank_newline)
  next
    case 2
    show ?thesis
    proof (cases "Suc i < length s \<and> s ! Suc i = CHR 0x0A")
      case True
      then show ?thesis
        using 2 cut_ascii[OF "1.prems"] cut_ascii[OF "1.prems"(1), of "Suc i"] "1.prems"(2)
        by (simp add: lineBounds.simps[of s i] line_end_bytes slice_two blank_newline)
    next
      case False
      then show ?thesis
        using 2 cut_ascii[OF "1.prems"] "1.prems"(2)
        by (auto simp: lineBounds.simps[of s i] line_end_bytes slice_one blank_newline)
    qed
  next
    case 3
    show ?thesis
    proof (cases "Suc i < length s")
      case True
      with 3 1 show ?thesis by (simp add: lineBounds.simps[of s i])
    next
      case False
      then have "lineBounds s (Suc i) = (length s, length s)" by (simp add: lineBounds.simps)
      with 3 "1.prems" show ?thesis
        by (simp add: lineBounds.simps[of s i] cut_length slice_def)
    qed
  qed
qed

lemma paragraph_loop_kept:
  assumes "valid_utf8 s" and "rune_cut s i" and "\<forall>b \<in> set blocks. \<not> blank b \<and> valid_utf8 b"
    and "case open_block of None \<Rightarrow> kept (take i s) blocks
      | Some (a, b) \<Rightarrow> a \<le> b \<and> b \<le> i \<and> rune_cut s a \<and> rune_cut s b \<and> kept (take a s) blocks \<and>
          \<not> blank (slice s a b) \<and> blank (slice s b i)"
  shows "kept s (paragraph_loop s i open_block blocks) \<and>
    (\<forall>b \<in> set (paragraph_loop s i open_block blocks). \<not> blank b \<and> valid_utf8 b)"
  using assms
proof (induction s i open_block blocks rule: paragraph_loop.induct)
  case (1 s i ob blocks)
  have close: "kept (take i s) (blocks @ [slice s a b])" if ob: "ob = Some (a, b)" for a b
  proof -
    have o: "a \<le> b" "b \<le> i" "rune_cut s a" "rune_cut s b" "kept (take a s) blocks" "blank (slice s b i)"
      using "1.prems"(4) ob by auto
    have "kept (take b s) (blocks @ [slice s a b])"
      using kept_piece[OF o(5)] take_slice[OF o(1), of s] by simp
    then show ?thesis
      using kept_gap[OF _ cut_slice[OF o(4) "1.prems"(2) o(2)] o(6)] take_slice[OF o(2), of s] by simp
  qed
  show ?case
  proof (cases "i < length s")
    case False
    then have "take i s = s" by simp
    show ?thesis
    proof (cases ob)
      case None
      then show ?thesis
        using False "1.prems"(3,4) \<open>take i s = s\<close> by (simp add: paragraph_loop.simps[of s i])
    next
      case (Some p)
      obtain x y where p: "p = (x, y)" by (cases p)
      then have "\<not> blank (slice s x y)" "valid_utf8 (slice s x y)"
        using "1.prems"(4) Some cut_slice[of s x y] by auto
      then show ?thesis
        using False "1.prems"(3) close Some p \<open>take i s = s\<close> by (simp add: paragraph_loop.simps[of s i])
    qed
  next
    case True
    define e where "e = fst (lineBounds s i)"
    define n where "n = snd (lineBounds s i)"
    have en: "lineBounds s i = (e, n)" by (simp add: e_def n_def)
    have le: "i \<le> e" "e \<le> n" using lineBounds_le[OF True] by (simp_all add: e_def n_def)
    have c: "rune_cut s e" "rune_cut s n" "blank (slice s e n)"
      using lineBounds_cut[OF "1.prems"(1) True] by (simp_all add: e_def n_def)
    have v: "valid_utf8 (slice s i e)" "valid_utf8 (slice s e n)" "valid_utf8 (slice s i n)"
      using cut_slice "1.prems"(2) c le by auto
    note IH = 1(1-4)[OF True en[symmetric] refl]
    show ?thesis
    proof (cases "blank (slice s i e)")
      case b: True
      have bn: "blank (slice s i n)" using slice_join[OF le] b c(3) v by (simp add: blank_append)
      have t: "take n s = take i s @ slice s i n" using take_slice le by (metis le_trans)
      show ?thesis
      proof (cases ob)
        case None
        then have "kept (take i s) blocks" using "1.prems"(4) by simp
        then have k: "kept (take n s) blocks" using kept_gap[OF _ v(3) bn] t by simp
        have loop: "paragraph_loop s i ob blocks = paragraph_loop s n None blocks"
          using True b en None by (simp add: paragraph_loop.simps[of s i])
        show ?thesis
          unfolding loop by (rule IH(1)[OF b None "1.prems"(1) c(2) "1.prems"(3)]) (simp add: k)
      next
        case (Some p)
        obtain x y where p: "p = (x, y)" by (cases p)
        have k: "kept (take n s) (blocks @ [slice s x y])"
          using kept_gap[OF close v(3) bn] Some p t by simp
        have nb: "\<forall>b \<in> set (blocks @ [slice s x y]). \<not> blank b \<and> valid_utf8 b"
          using "1.prems"(3,4) Some p cut_slice[of s x y] by simp
        have loop: "paragraph_loop s i ob blocks = paragraph_loop s n None (blocks @ [slice s x y])"
          using True b en Some p by (simp add: paragraph_loop.simps[of s i])
        show ?thesis
          unfolding loop by (rule IH(2)[OF b Some p[symmetric] "1.prems"(1) c(2) nb]) (simp add: k)
      qed
    next
      case b: False
      show ?thesis
      proof (cases ob)
        case None
        have loop: "paragraph_loop s i ob blocks = paragraph_loop s n (Some (i, e)) blocks"
          using True b en None by (simp add: paragraph_loop.simps[of s i])
        show ?thesis
          unfolding loop
          by (rule IH(3)[OF b None "1.prems"(1) c(2) "1.prems"(3)])
            (use "1.prems"(2,4) None b c le in simp)
      next
        case (Some p)
        obtain x y where p: "p = (x, y)" by (cases p)
        have o: "x \<le> y" "y \<le> i" "rune_cut s x" "rune_cut s y" "\<not> blank (slice s x y)"
          using "1.prems"(4) Some p by auto
        have "slice s x e = slice s x y @ slice s y e" using o(2) le(1) by (intro slice_join o(1)) simp
        then have "\<not> blank (slice s x e)"
          using cut_slice[OF o(3,4,1)] cut_slice[OF o(4) c(1)] o(2,5) le(1) by (simp add: blank_append)
        moreover have "kept (take x s) blocks" using "1.prems"(4) Some p by simp
        moreover have loop: "paragraph_loop s i ob blocks = paragraph_loop s n (Some (x, e)) blocks"
          using True b en Some p by (simp add: paragraph_loop.simps[of s i])
        ultimately show ?thesis
          unfolding loop
          by (intro IH(4)[OF b Some p[symmetric] "1.prems"(1) c(2) "1.prems"(3)])
            (use c le o in simp)
      qed
    qed
  qed
qed

lemma ParseParagraphs_cases:
  assumes "valid_utf8 body"
  shows "case ParseParagraphs body of
      Inl e \<Rightarrow> e = ErrNoArticleBlocks \<and> blank body
    | Inr ps \<Rightarrow> ps \<noteq> [] \<and> kept body ps \<and> (\<forall>p \<in> set ps. \<not> blank p \<and> valid_utf8 p)"
proof -
  have k: "kept body (paragraph_loop body 0 None [])"
    "\<forall>b \<in> set (paragraph_loop body 0 None []). \<not> blank b \<and> valid_utf8 b"
    using paragraph_loop_kept[OF assms cut_0[OF assms], of "[]" None] by auto
  show ?thesis
  proof (cases "paragraph_loop body 0 None []")
    case Nil
    then have "blank body" using k(1) by (auto simp: kept_def)
    with Nil show ?thesis by (auto simp: ParseParagraphs_def)
  next
    case (Cons b bs)
    then have "body \<noteq> []" by (auto simp: paragraph_loop.simps[of "[]"])
    with Cons k show ?thesis by (simp add: ParseParagraphs_def)
  qed
qed

lemma ParseParagraphs_kept_body:
  assumes "valid_utf8 body" and "ParseParagraphs body = Inr ps"
  shows "ps \<noteq> [] \<and> kept body ps \<and> (\<forall>p \<in> set ps. \<not> blank p \<and> valid_utf8 p)"
  using ParseParagraphs_cases[OF assms(1)] assms(2) by simp

text \<open>Parsing a valid body loses nothing but white space: the paragraphs, none of them blank, occur
  in the body in order with only white space around and between them, and the call fails exactly when the
  body is all white space.\<close>
theorem ParseParagraphs_kept:
  assumes "valid_utf8 body"
  shows "case ParseParagraphs body of
      Inl e \<Rightarrow> e = ErrNoArticleBlocks \<and> blank body
    | Inr ps \<Rightarrow> ps \<noteq> [] \<and> kept body ps \<and> (\<forall>p \<in> set ps. \<not> blank p \<and> valid_utf8 p)"
  by (rule ParseParagraphs_cases[OF assms])

theorem ParseParagraphs_kept_witness:
  "ParseParagraphs [CHR ''a'', CHR 0x0A, CHR 0x0A, CHR ''b''] = Inr [''a'', ''b'']
   \<and> kept [CHR ''a'', CHR 0x0A, CHR 0x0A, CHR ''b''] [''a'', ''b'']"
proof -
  let ?s = "[CHR ''a'', CHR 0x0A, CHR 0x0A, CHR ''b'']"
  have v: "valid_utf8 ?s" by (simp add: ascii_valid byte_def)
  have "ParseParagraphs ?s = Inr [''a'', ''b'']"
    by (simp add: ParseParagraphs_def paragraph_loop.simps lineBounds.simps slice_def ascii_blank
        byte_def is_space_def)
  then show ?thesis using ParseParagraphs_kept[OF v] by simp
qed

section \<open>Learning keys\<close>

text \<open>
  \<open>builder.WriteRune(r)\<close> for a rune of the loop: a rune decoded from valid bytes is written as
  these bytes again, an encoding error as the three bytes of the replacement character.
\<close>

definition write_rune :: "nat \<times> string \<Rightarrow> string" where
  "write_rune c = (if fst c = rune_error then [CHR 0xEF, CHR 0xBF, CHR 0xBD] else snd c)"

fun key_loop :: "(nat \<times> string) list \<Rightarrow> string \<Rightarrow> bool \<Rightarrow> text_error + string" where
  "key_loop [] b pending = Inr b"
| "key_loop (c # cs) b pending =
     (if is_space (fst c) then key_loop cs b (pending \<or> length b > 0)
      else if is_control (fst c) then Inl ControlCharacter
      else key_loop cs ((if pending then b @ '' '' else b) @ write_rune c) False)"

definition NormalizeLearningKey ::
  "(string \<Rightarrow> string) \<Rightarrow> (string \<Rightarrow> string) \<Rightarrow> string \<Rightarrow> text_error + string" where
  "NormalizeLearningKey nfc foldcase input =
     (if \<not> valid_utf8 input then Inl NotUTF8
      else bind_res (key_loop (chunks (nfc (foldcase (nfc input)))) [] False) (\<lambda>result.
        if result = [] then Inl EmptyKey else Inr result))"

text \<open>Canonical keys: words without white space or control characters, joined by single spaces.\<close>

definition key_rune :: "nat \<Rightarrow> bool" where
  "key_rune r \<longleftrightarrow> \<not> is_space r \<and> \<not> is_control r"

fun join_words :: "string list \<Rightarrow> string" where
  "join_words [] = []"
| "join_words [w] = w"
| "join_words (w # ws) = w @ '' '' @ join_words ws"

definition key_word :: "string \<Rightarrow> bool" where
  "key_word w \<longleftrightarrow> w \<noteq> [] \<and> valid_utf8 w \<and> (\<forall>r \<in> set (runes w). key_rune r)"

lemma chunks_good_or_error: "c \<in> set (chunks s) \<Longrightarrow> good_chunk c \<or> fst c = rune_error"
proof (induction s rule: chunks.induct)
  case (1 s)
  show ?case
  proof (cases "s = []")
    case True
    with 1(2) show ?thesis by simp
  next
    case False
    have "good_chunk (rune_of s, take (rune_size s) s) \<or> rune_of s = rune_error"
      using good_chunk_head[OF False] by (cases "bad_rune s") (auto simp: bad_rune_def)
    with 1(1)[OF False] 1(2) False show ?thesis by (auto simp: chunks_nonempty)
  qed
qed

lemma replacement_good: "good_chunk (rune_error, [CHR 0xEF, CHR 0xBF, CHR 0xBD])"
  by (simp add: good_chunk_def bad_rune_def rune_error_def decode_rune_def lead_info_def byte_def
      cont_bits_def is_cont_def)

lemma write_rune_word:
  assumes "good_chunk c \<or> fst c = rune_error" and "key_rune (fst c)"
  shows "key_word (write_rune c)"
proof -
  have "good_chunk (fst c, write_rune c)"
    using assms(1) replacement_good by (cases c) (auto simp: write_rune_def)
  then show ?thesis
    using assms(2) valid_bytes_of[of "[(fst c, write_rune c)]"] chunks_of_good0[of "[(fst c, write_rune c)]"]
    by (auto simp: key_word_def runes_def good_chunk_def)
qed

lemma key_word_append: "key_word a \<Longrightarrow> key_word b \<Longrightarrow> key_word (a @ b)"
  by (auto simp: key_word_def valid_append runes_append)

lemma join_words_snoc: "ws \<noteq> [] \<Longrightarrow> join_words (ws @ [w]) = join_words ws @ '' '' @ w"
  by (induction ws rule: join_words.induct) auto

lemma join_words_extend: "ws \<noteq> [] \<Longrightarrow> join_words (butlast ws @ [last ws @ w]) = join_words ws @ w"
  by (induction ws rule: join_words.induct) (auto simp: join_words_snoc neq_Nil_conv)

lemma key_loop_words:
  assumes "key_loop cs b pending = Inr out" and "\<forall>c \<in> set cs. good_chunk c \<or> fst c = rune_error"
    and "b = join_words ws" and "\<forall>w \<in> set ws. key_word w" and "pending \<longrightarrow> ws \<noteq> []"
  shows "\<exists>ws. out = join_words ws \<and> (\<forall>w \<in> set ws. key_word w)"
  using assms
proof (induction cs b pending arbitrary: ws rule: key_loop.induct)
  case (1 b pending)
  then show ?case by auto
next
  case (2 c cs b pending)
  show ?case
  proof (cases "is_space (fst c)")
    case True
    then have "key_loop cs b (pending \<or> length b > 0) = Inr out" using "2.prems"(1) by simp
    moreover have "pending \<or> length b > 0 \<longrightarrow> ws \<noteq> []" using "2.prems"(3,5) by auto
    ultimately show ?thesis using "2.IH"(1)[OF True] "2.prems" by simp
  next
    case False
    then have nc: "\<not> is_control (fst c)"
      and k: "key_loop cs ((if pending then b @ '' '' else b) @ write_rune c) False = Inr out"
      using "2.prems"(1) by (auto split: if_splits)
    have w: "key_word (write_rune c)"
      using write_rune_word[of c] "2.prems"(2) False nc by (simp add: key_rune_def)
    define ws' where "ws' = (if pending \<or> ws = [] then ws @ [write_rune c]
      else butlast ws @ [last ws @ write_rune c])"
    have "(if pending then b @ '' '' else b) @ write_rune c = join_words ws'"
      using "2.prems"(3,5) join_words_snoc[of ws] join_words_extend[of ws] by (auto simp: ws'_def)
    moreover have "\<forall>w \<in> set ws'. key_word w"
      using "2.prems"(4) w key_word_append by (auto simp: ws'_def dest: in_set_butlastD)
    ultimately show ?thesis
      using "2.IH"(2)[OF False nc k, of ws'] "2.prems"(2) by simp
  qed
qed

text \<open>Whatever the Unicode normalization and folding produce, a learning key that is returned is
  not empty and consists of words free of white space and control characters, separated by single
  spaces, in valid UTF-8.\<close>
theorem NormalizeLearningKey_canonical:
  assumes "NormalizeLearningKey nfc foldcase input = Inr key"
  shows "\<exists>ws. ws \<noteq> [] \<and> key = join_words ws \<and> (\<forall>w \<in> set ws. key_word w)"
proof -
  have k: "key_loop (chunks (nfc (foldcase (nfc input)))) [] False = Inr key" and ne: "key \<noteq> []"
    using assms by (auto simp: NormalizeLearningKey_def bind_res_Inr_conv split: if_splits)
  have "\<forall>c \<in> set (chunks (nfc (foldcase (nfc input)))). good_chunk c \<or> fst c = rune_error"
    using chunks_good_or_error by blast
  then obtain ws where "key = join_words ws" "\<forall>w \<in> set ws. key_word w"
    using key_loop_words[OF k, of "[]"] by auto
  with ne show ?thesis by (intro exI[of _ ws]) auto
qed

theorem NormalizeLearningKey_canonical_witness:
  "NormalizeLearningKey (\<lambda>s. s) (\<lambda>s. s) ''  op  de '' = Inr ''op de'' \<and>
   (\<exists>ws. ws \<noteq> [] \<and> ''op de'' = join_words ws \<and> (\<forall>w \<in> set ws. key_word w))"
proof -
  have k: "NormalizeLearningKey (\<lambda>s. s) (\<lambda>s. s) ''  op  de '' = Inr ''op de''"
    by (simp add: NormalizeLearningKey_def ascii_valid ascii_chunks byte_def is_space_def is_control_def
        write_rune_def rune_error_def)
  with NormalizeLearningKey_canonical[OF k] show ?thesis by simp
qed

end
