(* ===== verification/Reader_Article.thy ===== *)
theory Reader_Article
  imports Reader_Text
begin

text \<open>
  Record identities and language tags, internal/library/ulid.go and language.go, and the article
  model of internal/reader/types.go that rests on them.  The ULID parser of oklog/ulid
  (\<open>parse_strict\<close>, the canonical string of an accepted input) and the BCP-47 parser of
  golang.org/x/text (\<open>parse_tag\<close>, whether there is no error and the string of the returned tag, and
  \<open>is_root\<close>) belong to other modules and are parameters; fresh ULIDs are the parameter \<open>fresh\<close>, one per call.
\<close>

section \<open>Identities\<close>

datatype identity_error =
    PaddedULID | ULIDLength | ULIDNotUppercase | ULIDMalformed
  | EmptyTag | PaddedTag | TagTooShort | TagCharacter | TagMalformed | RootTag | UnstableTag

text \<open>\<open>s != strings.ToUpper(s)\<close> for the ASCII inputs that can still be accepted.\<close>

definition has_lowercase :: "string \<Rightarrow> bool" where
  "has_lowercase s \<longleftrightarrow> (\<exists>c \<in> set s. byte CHR ''a'' \<le> byte c \<and> byte c \<le> byte CHR ''z'')"

definition ParseULID :: "(string \<Rightarrow> string option) \<Rightarrow> string \<Rightarrow> identity_error + string" where
  "ParseULID parse_strict s =
     (if trim_space s \<noteq> s then Inl PaddedULID
      else if length s \<noteq> 26 then Inl ULIDLength
      else if has_lowercase s then Inl ULIDNotUppercase
      else case parse_strict s of None \<Rightarrow> Inl ULIDMalformed | Some u \<Rightarrow> Inr u)"

definition zero_ulid :: string where
  "zero_ulid = replicate 26 CHR ''0''"

definition ULID_String :: "string \<Rightarrow> string" where
  "ULID_String u = (if u = [] then zero_ulid else u)"

definition ULID_IsZero :: "string \<Rightarrow> bool" where
  "ULID_IsZero u \<longleftrightarrow> u = [] \<or> u = zero_ulid"

section \<open>Language tags\<close>

definition ascii_letter :: "nat \<Rightarrow> bool" where
  "ascii_letter r \<longleftrightarrow> (byte CHR ''a'' \<le> r \<and> r \<le> byte CHR ''z'')
     \<or> (byte CHR ''A'' \<le> r \<and> r \<le> byte CHR ''Z'')"

definition ascii_digit :: "nat \<Rightarrow> bool" where
  "ascii_digit r \<longleftrightarrow> byte CHR ''0'' \<le> r \<and> r \<le> byte CHR ''9''"

definition tag_characters :: "string \<Rightarrow> bool" where
  "tag_characters s \<longleftrightarrow> (case runes s of
       [] \<Rightarrow> True
     | r # rs \<Rightarrow> ascii_letter r \<and>
         (\<forall>q \<in> set rs. ascii_letter q \<or> ascii_digit q \<or> q = byte CHR ''-''))"

definition ParseBCP47 ::
  "(string \<Rightarrow> bool \<times> string) \<Rightarrow> (string \<Rightarrow> bool) \<Rightarrow> string \<Rightarrow> identity_error + string" where
  "ParseBCP47 parse_tag is_root input =
     (let trimmed = trim_space input in
      if trimmed = [] then Inl EmptyTag
      else if trimmed \<noteq> input then Inl PaddedTag
      else if length trimmed < 2 then Inl TagTooShort
      else if \<not> tag_characters trimmed then Inl TagCharacter
      else
        (let (accepted, canonical) = parse_tag trimmed in
         if \<not> accepted then Inl TagMalformed
         else if is_root trimmed then Inl RootTag
         else if snd (parse_tag canonical) \<noteq> canonical then Inl UnstableTag
         else Inr canonical))"

section \<open>Articles\<close>

definition MaxArticleBodyBytes :: nat where "MaxArticleBodyBytes = 100000"
definition MaxEnrichmentBodyBytes :: nat where "MaxEnrichmentBodyBytes = 20000"
definition MaxArticleTitleScalars :: nat where "MaxArticleTitleScalars = 200"
definition MaxAnnotationsPer150Words :: nat where "MaxAnnotationsPer150Words = 16"
definition MaxShadowsPer150Words :: nat where "MaxShadowsPer150Words = 8"

definition enrichment_statuses :: "string list" where
  "enrichment_statuses = [''draft'', ''processing'', ''ready'', ''failed'']"

text \<open>The fields of \<open>ArticleBlock\<close> and \<open>Article\<close> that the constructors and validators use.\<close>

record article_block =
  block_id :: string
  block_article :: string
  block_index :: int
  block_kind :: string
  block_text :: string

record article =
  article_id :: string
  title :: string
  source_language :: string
  target_language :: string
  enrichment_status :: string
  analysis_status :: string
  narration_status :: string
  blocks :: "article_block list"

record input_block =
  input_index :: int
  input_text :: string

record article_input =
  input_title :: string
  input_source :: string
  input_target :: string
  input_blocks :: "input_block list"

datatype article_error =
    TitleRequired | BodyNotUTF8 | TitleLength | TitleNotUTF8 | ArticleBodyTooLarge
  | EnrichmentBodyTooLarge | BodyError text_error | LanguageError identity_error | BadArticleID
  | BadEnrichmentStatus | NoBlocks | BadBlock nat | BadBlockID nat | WrongArticle nat | BlockNotUTF8 nat

definition scalarCount :: "string \<Rightarrow> nat" where
  "scalarCount s = length (runes s)"

text \<open>The two parsers from other modules, bundled.\<close>

record parsers =
  parse_strict :: "string \<Rightarrow> string option"
  parse_tag :: "string \<Rightarrow> bool \<times> string"
  is_root :: "string \<Rightarrow> bool"

definition language_of :: "parsers \<Rightarrow> string \<Rightarrow> article_error + string" where
  "language_of Z s = (case ParseBCP47 (parse_tag Z) (is_root Z) s of
     Inl e \<Rightarrow> Inl (LanguageError e) | Inr l \<Rightarrow> Inr l)"

definition new_block :: "(nat \<Rightarrow> string) \<Rightarrow> nat \<times> string \<Rightarrow> article_block" where
  "new_block fresh p = \<lparr>block_id = fresh (Suc (fst p)), block_article = fresh 0, block_index = int (fst p),
     block_kind = ''paragraph'', block_text = snd p\<rparr>"

definition NewArticle ::
  "parsers \<Rightarrow> (nat \<Rightarrow> string) \<Rightarrow> string \<Rightarrow> string \<Rightarrow> string \<Rightarrow> string \<Rightarrow> article_error + article" where
  "NewArticle Z fresh title0 body source target =
     (let t = trim_space title0 in
      if \<not> valid_utf8 t \<or> t = [] then Inl TitleRequired
      else if \<not> valid_utf8 body then Inl BodyNotUTF8
      else if scalarCount t > MaxArticleTitleScalars then Inl TitleLength
      else if length body > MaxArticleBodyBytes then Inl ArticleBodyTooLarge
      else case ParseParagraphs body of
        Inl e \<Rightarrow> Inl (BodyError e)
      | Inr texts \<Rightarrow>
          bind_res (language_of Z source) (\<lambda>src.
          bind_res (language_of Z target) (\<lambda>tgt.
            Inr \<lparr>article_id = fresh 0, title = t, source_language = src, target_language = tgt,
                 enrichment_status = ''draft'', analysis_status = ''needs_analysis'',
                 narration_status = ''not_requested'',
                 blocks = map (new_block fresh) (enumerate 0 texts)\<rparr>)))"

text \<open>\<open>Validate\<close> returns the article with the identities and fields it canonicalizes.  \<open>bytes\<close> is
  \<open>totalBodyBytes\<close>, \<open>i\<close> the index of the loop.\<close>

fun validate_blocks ::
  "parsers \<Rightarrow> string \<Rightarrow> nat \<Rightarrow> nat \<Rightarrow> article_block list \<Rightarrow> article_error + article_block list" where
  "validate_blocks Z aid i bytes [] = Inr []"
| "validate_blocks Z aid i bytes (b # bs) =
     (if block_index b \<noteq> int i \<or> block_kind b \<noteq> ''paragraph'' \<or> blank (block_text b) then Inl (BadBlock i)
      else case ParseULID (parse_strict Z) (ULID_String (block_id b)) of
        Inl e \<Rightarrow> Inl (BadBlockID i)
      | Inr u \<Rightarrow>
          if ULID_IsZero u then Inl (BadBlockID i)
          else if block_article b \<noteq> aid then Inl (WrongArticle i)
          else if \<not> valid_utf8 (block_text b) then Inl (BlockNotUTF8 i)
          else if bytes + length (block_text b) > MaxArticleBodyBytes then Inl ArticleBodyTooLarge
          else bind_res (validate_blocks Z aid (Suc i) (bytes + length (block_text b)) bs) (\<lambda>rest.
                 Inr (b\<lparr>block_id := u\<rparr> # rest)))"

definition Validate :: "parsers \<Rightarrow> article \<Rightarrow> article_error + article" where
  "Validate Z a =
     (case ParseULID (parse_strict Z) (ULID_String (article_id a)) of
        Inl e \<Rightarrow> Inl BadArticleID
      | Inr u \<Rightarrow>
          if ULID_IsZero u then Inl BadArticleID
          else (let t = trim_space (title a) in
            if t = [] \<or> scalarCount t > MaxArticleTitleScalars then Inl TitleLength
            else if \<not> valid_utf8 t then Inl TitleNotUTF8
            else if enrichment_status a \<notin> set enrichment_statuses then Inl BadEnrichmentStatus
            else bind_res (language_of Z (source_language a)) (\<lambda>src.
                 bind_res (language_of Z (target_language a)) (\<lambda>tgt.
                   if blocks a = [] then Inl NoBlocks
                   else bind_res (validate_blocks Z u 0 0 (blocks a)) (\<lambda>bs.
                     Inr (a\<lparr>article_id := u, title := t, source_language := src,
                            target_language := tgt, blocks := bs\<rparr>))))))"

fun input_loop :: "nat \<Rightarrow> article_block list \<Rightarrow> article_error + input_block list" where
  "input_loop bytes [] = Inr []"
| "input_loop bytes (b # bs) =
     (if bytes + length (block_text b) > MaxEnrichmentBodyBytes then Inl EnrichmentBodyTooLarge
      else bind_res (input_loop (bytes + length (block_text b)) bs) (\<lambda>rest.
             Inr (\<lparr>input_index = block_index b, input_text = block_text b\<rparr> # rest)))"

definition AnnotatorInput :: "parsers \<Rightarrow> article \<Rightarrow> article_error + article_input" where
  "AnnotatorInput Z a0 =
     bind_res (Validate Z a0) (\<lambda>a.
     bind_res (input_loop 0 (blocks a)) (\<lambda>bs.
       Inr \<lparr>input_title = title a, input_source = source_language a,
            input_target = target_language a, input_blocks = bs\<rparr>))"

section \<open>New articles are valid\<close>

text \<open>Documented behaviour of the other modules: a fresh ULID is canonical and not zero; the string
  of an accepted tag is a tag of letters, digits and hyphens that parses to itself.\<close>

definition ulid_supply :: "parsers \<Rightarrow> (nat \<Rightarrow> string) \<Rightarrow> bool" where
  "ulid_supply Z fresh \<longleftrightarrow>
     (\<forall>i. ParseULID (parse_strict Z) (fresh i) = Inr (fresh i) \<and> \<not> ULID_IsZero (fresh i))"

definition canonical_tags :: "parsers \<Rightarrow> bool" where
  "canonical_tags Z \<longleftrightarrow> (\<forall>s c. parse_tag Z s = (True, c) \<and> \<not> is_root Z s \<longrightarrow>
     parse_tag Z c = (True, c) \<and> \<not> is_root Z c \<and> 2 \<le> length c \<and> tag_characters c)"

lemma trim_left_first: "trim_left s = [] \<or> \<not> is_space (rune_of (trim_left s))"
proof (induction s rule: trim_left.induct)
  case (1 s)
  then show ?case by (cases "s \<noteq> [] \<and> is_space (rune_of s)") (auto simp: trim_left.simps[of s])
qed

lemma trim_right_twice: "trim_right (trim_right s) = trim_right s"
proof (induction s rule: trim_right.induct)
  case (1 s)
  then show ?case
    by (cases "s \<noteq> [] \<and> is_space (fst (decode_last_rune s))") (auto simp: trim_right.simps[of s])
qed

lemma trim_right_prefix: "\<exists>v. s = trim_right s @ v"
proof (induction s rule: trim_right.induct)
  case (1 s)
  show ?case
  proof (cases "s \<noteq> [] \<and> is_space (fst (decode_last_rune s))")
    case True
    then obtain v where "take (length s - snd (decode_last_rune s)) s = trim_right s @ v"
      using 1 by (auto simp: trim_right.simps[of s])
    then have "s = trim_right s @ v @ drop (length s - snd (decode_last_rune s)) s"
      by (metis append_assoc append_take_drop_id)
    then show ?thesis ..
  next
    case False
    then have "trim_right s = s" by (auto simp: trim_right.simps[of s])
    then show ?thesis by simp
  qed
qed

lemma trim_space_stable:
  assumes "valid_utf8 (trim_space s)" and "trim_space s \<noteq> []"
  shows "trim_space (trim_space s) = trim_space s"
proof -
  let ?t = "trim_space s"
  obtain v where v: "trim_left s = ?t @ v" using trim_right_prefix by (auto simp: trim_space_def)
  have "\<not> bad_rune ?t" using assms by (auto simp: valid_utf8.simps[of ?t] split: if_splits)
  then have "rune_of (trim_left s) = rune_of ?t" unfolding v by (simp add: decode_rune_append assms(2))
  then have "\<not> is_space (rune_of ?t)" using trim_left_first[of s] v assms(2) by auto
  then have "trim_left ?t = ?t" by (simp add: trim_left.simps[of ?t])
  then show ?thesis by (simp add: trim_space_def trim_right_twice)
qed

lemma trim_space_tag:
  assumes "tag_characters s"
  shows "trim_space s = s"
proof -
  have tag: "r < 0x80 \<and> \<not> is_space r" if "r \<in> set (runes s)" for r
    using assms that
    by (auto simp: tag_characters_def ascii_letter_def ascii_digit_def byte_def is_space_def split: list.splits)
  then have "\<forall>c \<in> set s. byte c < 0x80" by (intro low_runes_ascii) auto
  with tag show ?thesis by (intro trim_space_plain) (auto simp: ascii_runes)
qed

lemma language_of_stable:
  assumes "canonical_tags Z" and "language_of Z s = Inr c"
  shows "language_of Z c = Inr c"
proof -
  have "parse_tag Z s = (True, c)" "\<not> is_root Z s"
    using assms(2) by (auto simp: language_of_def ParseBCP47_def Let_def split: sum.splits if_splits prod.splits)
  then have "parse_tag Z c = (True, c) \<and> \<not> is_root Z c \<and> 2 \<le> length c \<and> tag_characters c"
    using assms(1) unfolding canonical_tags_def by blast
  then have c: "parse_tag Z c = (True, c)" "\<not> is_root Z c" "2 \<le> length c" "tag_characters c"
    by blast+
  have "c \<noteq> []" using c(3) by auto
  then show ?thesis using c by (simp add: language_of_def ParseBCP47_def trim_space_tag Let_def)
qed

lemma kept_length: "kept t ps \<Longrightarrow> sum_list (map length ps) \<le> length t"
proof -
  have "length gaps = length ps \<Longrightarrow> sum_list (map length ps) \<le> length (concat (map2 (@) gaps ps))" for gaps
    by (induction gaps ps rule: list_induct2) auto
  then show "kept t ps \<Longrightarrow> sum_list (map length ps) \<le> length t"
    by (auto simp: kept_def trans_le_add1)
qed

lemma validate_blocks_new:
  assumes "ulid_supply Z fresh" and "\<forall>p \<in> set texts. \<not> blank p \<and> valid_utf8 p"
    and "bytes + sum_list (map length texts) \<le> MaxArticleBodyBytes"
  shows "validate_blocks Z (fresh 0) i bytes (map (new_block fresh) (enumerate i texts)) =
    Inr (map (new_block fresh) (enumerate i texts))"
  using assms(2,3)
proof (induction texts arbitrary: i bytes)
  case Nil
  then show ?case by simp
next
  case (Cons p ps)
  have f: "ParseULID (parse_strict Z) (fresh k) = Inr (fresh k)" "\<not> ULID_IsZero (fresh k)"
      "fresh k \<noteq> []" for k
    using assms(1) by (auto simp: ulid_supply_def ULID_IsZero_def)
  show ?case
    using Cons.prems Cons.IH[of "bytes + length p" "Suc i"]
    by (simp add: new_block_def ULID_String_def f)
qed

text \<open>C38: every article that the constructor returns is one that validation accepts and leaves unchanged,
  and its blocks are the paragraphs of the pasted body: in order, without a lost or changed byte other
  than white space around them.\<close>
theorem NewArticle_valid:
  assumes "ulid_supply Z fresh" and "canonical_tags Z"
    and "NewArticle Z fresh title0 body source target = Inr a"
  shows "Validate Z a = Inr a \<and> title a = trim_space title0 \<and> kept body (map block_text (blocks a))"
proof -
  define t where "t = trim_space title0"
  obtain texts src tgt where v: "valid_utf8 t" "t \<noteq> []" "valid_utf8 body" "scalarCount t \<le> MaxArticleTitleScalars"
    "length body \<le> MaxArticleBodyBytes"
    and P: "ParseParagraphs body = Inr texts"
    and L: "language_of Z source = Inr src" "language_of Z target = Inr tgt"
    and a: "a = \<lparr>article_id = fresh 0, title = t, source_language = src, target_language = tgt,
                 enrichment_status = ''draft'', analysis_status = ''needs_analysis'',
                 narration_status = ''not_requested'',
                 blocks = map (new_block fresh) (enumerate 0 texts)\<rparr>"
    using assms(3)
    by (auto simp: NewArticle_def Let_def bind_res_Inr_conv not_less simp flip: t_def
        split: if_splits sum.splits)
  have k: "texts \<noteq> []" "kept body texts" "\<forall>p \<in> set texts. \<not> blank p \<and> valid_utf8 p"
    using ParseParagraphs_kept_body[OF v(3) P] by auto
  have lang: "language_of Z src = Inr src" "language_of Z tgt = Inr tgt"
    using language_of_stable[OF assms(2)] L by auto
  have tt: "trim_space t = t" using trim_space_stable v(1,2) by (simp add: t_def)
  have id: "ParseULID (parse_strict Z) (fresh 0) = Inr (fresh 0)" "\<not> ULID_IsZero (fresh 0)" "fresh 0 \<noteq> []"
    using assms(1) by (auto simp: ulid_supply_def ULID_IsZero_def)
  have b: "validate_blocks Z (fresh 0) 0 0 (blocks a) = Inr (blocks a)"
    using validate_blocks_new[OF assms(1) k(3), of 0 0] kept_length[OF k(2)] v(5) by (simp add: a)
  have "enumerate 0 texts \<noteq> []" using k(1) by (simp add: enumerate_eq_zip)
  then have "Validate Z a = Inr a"
    using id tt v lang b by (simp add: Validate_def a ULID_String_def Let_def enrichment_statuses_def)
  moreover have "map block_text (blocks a) = texts"
    by (simp add: a new_block_def o_def)
  ultimately show ?thesis using k(2) by (simp add: a t_def)
qed

text \<open>Parsers that accept the identities and tags of the example.\<close>

definition sample_parsers :: parsers where
  "sample_parsers = \<lparr>parse_strict = Some, parse_tag = (\<lambda>s. (s = ''nl'' \<or> s = ''en'', s)), is_root = (\<lambda>_. False)\<rparr>"

definition sample_fresh :: "nat \<Rightarrow> string" where
  "sample_fresh i = replicate 26 CHR ''1''"

lemma tag_characters_letters:
  assumes "\<forall>c \<in> set s. ascii_letter (byte c)"
  shows "tag_characters s"
proof -
  have "\<forall>c \<in> set s. byte c < 0x80" using assms by (auto simp: ascii_letter_def byte_def)
  with assms show ?thesis by (auto simp: tag_characters_def ascii_runes split: list.split)
qed

lemma sample_parsers_ok: "ulid_supply sample_parsers sample_fresh" "canonical_tags sample_parsers"
proof -
  have c: "set (sample_fresh i) = {CHR ''1''}" for i by (simp add: sample_fresh_def)
  have one: "\<forall>c \<in> set (sample_fresh i). byte c < 0x80 \<and> \<not> is_space (byte c)" for i
    unfolding c by (simp add: byte_def is_space_def)
  have v: "valid_utf8 (sample_fresh i)" for i using one by (intro ascii_valid) auto
  have "trim_space (sample_fresh i) = sample_fresh i" for i
  proof (rule chunks_inj)
    have sp: "\<forall>c \<in> set (chunks (sample_fresh i)). \<not> space_chunk c"
      using one by (auto simp: ascii_chunks)
    have fixed: "dropWhile space_chunk cs = cs" if "set cs \<subseteq> set (chunks (sample_fresh i))" for cs
      using that sp by (cases cs) auto
    have n: "dropWhile space_chunk (chunks (sample_fresh i)) = chunks (sample_fresh i)"
      "dropWhile space_chunk (rev (chunks (sample_fresh i))) = rev (chunks (sample_fresh i))"
      by (rule fixed, simp)+
    show "chunks (trim_space (sample_fresh i)) = chunks (sample_fresh i)"
      by (simp only: trim_space_chunks[OF v] n rev_rev_ident)
  qed
  moreover have "\<not> has_lowercase (sample_fresh i)" for i
    unfolding has_lowercase_def c by (simp add: byte_def)
  ultimately show "ulid_supply sample_parsers sample_fresh"
    by (simp add: ulid_supply_def ParseULID_def sample_parsers_def ULID_IsZero_def zero_ulid_def)
      (simp add: sample_fresh_def)
  show "canonical_tags sample_parsers"
    by (auto simp: canonical_tags_def sample_parsers_def ascii_letter_def byte_def
        intro!: tag_characters_letters)
qed

lemma sample_article:
  "\<exists>a. NewArticle sample_parsers sample_fresh ''Dag'' ''Ja'' ''nl'' ''en'' = Inr a"
proof -
  have tag: "tag_characters ''Dag''" "tag_characters ''nl''" "tag_characters ''en''"
    by (rule tag_characters_letters, simp add: ascii_letter_def byte_def)+
  have t: "trim_space ''Dag'' = ''Dag''" "trim_space ''nl'' = ''nl''" "trim_space ''en'' = ''en''"
    by (rule trim_space_tag, rule tag)+
  have "ParseParagraphs ''Ja'' = Inr [''Ja'']"
    by (simp add: ParseParagraphs_def paragraph_loop.simps lineBounds.simps slice_def ascii_blank
        byte_def is_space_def)
  then show ?thesis
    by (simp add: NewArticle_def t ascii_valid byte_def scalarCount_def ascii_runes MaxArticleTitleScalars_def
        MaxArticleBodyBytes_def language_of_def ParseBCP47_def sample_parsers_def tag Let_def)
qed

theorem NewArticle_valid_witness:
  "\<exists>a. Validate sample_parsers a = Inr a \<and> kept ''Ja'' (map block_text (blocks a))"
proof -
  obtain a where a: "NewArticle sample_parsers sample_fresh ''Dag'' ''Ja'' ''nl'' ''en'' = Inr a"
    using sample_article by blast
  from NewArticle_valid[OF sample_parsers_ok a] show ?thesis by blast
qed

end
