(* ===== verification/Semantics_Types.thy ===== *)
theory Semantics_Types
  imports Reader_Article
begin

text \<open>
  The data of the semantic compiler and its deterministic preparation, internal/semantics/types.go:
  normalization, tokens, the content hash and prepared articles, resolution of provider spans, and
  the checks on single provider values.  A Go string is a byte list, a Go int an \<open>int\<close>, a Go map built
  from a list a map in which a later entry wins.  Unicode data and the two normalizations are bundled
  in \<open>text_env\<close>; SHA-256 in hexadecimal is the parameter \<open>hash\<close>.  
\<close>

section \<open>Data\<close>

record text_env =
  tables :: unicode_tables
  nfc :: "string \<Rightarrow> string"
  foldCase :: "string \<Rightarrow> string"

definition AnalysisContractVersion :: string where "AnalysisContractVersion = ''reader.analysis.v3''"
definition MaxAlternatives :: nat where "MaxAlternatives = 3"
definition MaxShadowScalars :: nat where "MaxShadowScalars = 160"
definition MaxPronunciationScalars :: nat where "MaxPronunciationScalars = 640"
definition MaxNoteScalars :: nat where "MaxNoteScalars = 1000"

definition SemKindWord :: string where "SemKindWord = ''word''"

definition kind_valid :: "string \<Rightarrow> bool" where
  "kind_valid k \<longleftrightarrow> k \<in> set [SemKindWord, ''phrase'', ''idiom'', ''expression'', ''proverb'']"

record Block =
  blk_index :: int
  blk_text :: string

record Token =
  tok_id :: string
  tok_block :: int
  tok_index :: int
  tok_start :: int
  tok_end :: int
  tok_text :: string
  tok_form :: string
  tok_lemma :: string

record SenseCandidate =
  cd_id :: string
  cd_item :: string
  cd_source_lang :: string
  cd_target_lang :: string
  cd_kind :: string
  cd_canonical :: string
  cd_form :: string
  cd_lemma :: string
  cd_pos :: string
  cd_primary :: string
  cd_discriminator :: string

record ResolvedSpan =
  sp_block :: int
  sp_start :: int
  sp_end :: int
  sp_text :: string

record ResolvedSentence =
  st_index :: int
  st_span :: ResolvedSpan

record PreparedArticle =
  pa_title :: string
  pa_source_lang :: string
  pa_target_lang :: string
  pa_hash :: string
  pa_blocks :: "Block list"
  pa_tokens :: "Token list"
  pa_candidates :: "SenseCandidate list"
  pa_sentences :: "ResolvedSentence list"

record TokenResult =
  tr_token :: string
  tr_class :: string
  tr_kind :: string
  tr_sense :: string
  tr_new :: string
  tr_shadow :: string
  tr_pron :: string
  tr_context :: string
  tr_confidence :: int

record NewSense =
  ns_ref :: string
  ns_kind :: string
  ns_canonical :: string
  ns_form :: string
  ns_lemma :: string
  ns_pos :: string
  ns_discriminator :: string
  ns_primary :: string
  ns_alternatives :: "string list"
  ns_literal :: string
  ns_meaning :: string
  ns_usage :: string
  ns_parts :: string
  ns_pron :: string

record SpanRef =
  sr_block :: int
  sr_text :: string
  sr_occurrence :: int

record Construction =
  cn_kind :: string
  cn_role :: string
  cn_sense :: string
  cn_new :: string
  cn_shadow :: string
  cn_pron :: string
  cn_context :: string
  cn_confidence :: int
  cn_tokens :: "string list"
  cn_spans :: "SpanRef list"

record Response =
  rs_version :: string
  rs_tokens :: "TokenResult list"
  rs_senses :: "NewSense list"
  rs_constructions :: "Construction list"

record ResolvedToken =
  rt_token :: Token
  rt_result :: TokenResult

record ResolvedConstruction =
  rc_construction :: Construction
  rc_spans :: "ResolvedSpan list"

record ValidatedResponse =
  vr_response :: Response
  vr_sentences :: "ResolvedSentence list"
  vr_tokens :: "ResolvedToken list"
  vr_constructions :: "ResolvedConstruction list"

text \<open>An error is its message, without the parts that name the offending value.\<close>

type_synonym sem_error = string

definition text_message :: "text_error \<Rightarrow> sem_error" where
  "text_message e = (case e of
       ControlCharacter \<Rightarrow> ''text contains a control character''
     | EmptyKey \<Rightarrow> ''text must not be empty''
     | NotUTF8 \<Rightarrow> ''text must be valid UTF-8''
     | NegativeOffset \<Rightarrow> ''UTF-16 offset is negative''
     | SplitsSurrogatePair \<Rightarrow> ''UTF-16 offset splits a surrogate pair''
     | OffsetBeyondEnd \<Rightarrow> ''UTF-16 offset exceeds text length''
     | EmptySpan \<Rightarrow> ''UTF-16 span must have positive length''
     | _ \<Rightarrow> ''text'')"

section \<open>Normalization\<close>

definition NormalizeForm :: "text_env \<Rightarrow> string \<Rightarrow> sem_error + string" where
  "NormalizeForm E input =
     (if \<not> valid_utf8 input then Inl (text_message NotUTF8)
      else case key_loop (chunks (nfc E (foldCase E (nfc E input)))) [] False of
          Inl e \<Rightarrow> Inl (text_message e)
        | Inr b \<Rightarrow> if b = [] then Inl (text_message EmptyKey) else Inr (nfc E b))"

section \<open>Tokens\<close>

definition isWordRune :: "unicode_tables \<Rightarrow> nat \<Rightarrow> bool" where
  "isWordRune U r \<longleftrightarrow> is_letter U r \<or> is_number U r"

definition isJoiner :: "nat \<Rightarrow> bool" where
  "isJoiner r \<longleftrightarrow> r = 0x27 \<or> r = 0x2019 \<or> r = 0x2D \<or> r = 0x2010"

definition hasWordAfter :: "unicode_tables \<Rightarrow> string \<Rightarrow> nat \<Rightarrow> bool" where
  "hasWordAfter U s i = (if i \<ge> length s then False else isWordRune U (rune_of (drop i s)))"

text \<open>
  The loop of \<open>tokenize\<close> over the runes of the text: \<open>pos\<close> is the byte index, \<open>cur\<close> the open token
  (\<open>start\<close> and \<open>lastWordEnd\<close>), \<open>None\<close> for \<open>start = -1\<close>.  The result lists the token boundaries.
\<close>

fun token_loop ::
  "unicode_tables \<Rightarrow> string \<Rightarrow> (nat \<times> string) list \<Rightarrow> nat \<Rightarrow> (nat \<times> nat) option \<Rightarrow> (nat \<times> nat) list" where
  "token_loop U s [] pos cur = (case cur of None \<Rightarrow> [] | Some sl \<Rightarrow> [sl])"
| "token_loop U s ((r, w) # cs) pos None =
     (if isWordRune U r then token_loop U s cs (pos + length w) (Some (pos, pos + rune_len r))
      else token_loop U s cs (pos + length w) None)"
| "token_loop U s ((r, w) # cs) pos (Some (start, stop)) =
     (if isWordRune U r \<or> is_mark U r
      then token_loop U s cs (pos + length w) (Some (start, pos + rune_len r))
      else if isJoiner r \<and> hasWordAfter U s (pos + rune_len r)
      then token_loop U s cs (pos + length w) (Some (start, stop))
      else (start, stop) #
        (if isWordRune U r then token_loop U s cs (pos + length w) (Some (pos, pos + rune_len r))
         else token_loop U s cs (pos + length w) None))"

text \<open>\<open>utf16Len\<close> encodes the runes and counts the units.\<close>

definition utf16Len :: "string \<Rightarrow> int" where
  "utf16Len s = int (UTF16Len s)"

definition makeToken :: "text_env \<Rightarrow> int \<Rightarrow> string \<Rightarrow> nat \<times> nat \<Rightarrow> Token" where
  "makeToken E bi s p =
     (let value = slice s (fst p) (snd p);
          normalized = (case NormalizeForm E value of Inl _ \<Rightarrow> [] | Inr v \<Rightarrow> v);
          start = utf16Len (take (fst p) s)
      in \<lparr>tok_id = [], tok_block = bi, tok_index = 0, tok_start = start, tok_end = start + utf16Len value,
          tok_text = value, tok_form = normalized, tok_lemma = []\<rparr>)"

definition tokenize :: "text_env \<Rightarrow> int \<Rightarrow> string \<Rightarrow> Token list" where
  "tokenize E bi s = map (makeToken E bi s) (token_loop (tables E) s (chunks s) 0 None)"

section \<open>Content identity\<close>

text \<open>\<open>uint64\<close> of an int, and a value preceded by its length.\<close>

definition put_int :: "int \<Rightarrow> string" where
  "put_int i = put_uint64 (nat (i mod 2 ^ 64))"

definition writePart :: "string \<Rightarrow> string" where
  "writePart value = put_uint64 (length value) @ value"

definition content_bytes :: "string \<Rightarrow> string \<Rightarrow> string \<Rightarrow> Block list \<Rightarrow> string" where
  "content_bytes ttl source target bs =
     writePart ''doublangu.article-content.v1'' @ writePart ttl @ writePart source @ writePart target @
     concat (map (\<lambda>b. put_int (blk_index b) @ writePart (blk_text b)) bs)"

definition ContentHash :: "(string \<Rightarrow> string) \<Rightarrow> string \<Rightarrow> string \<Rightarrow> string \<Rightarrow> Block list \<Rightarrow> string" where
  "ContentHash hash ttl source target bs = hash (content_bytes ttl source target bs)"

section \<open>Preparing an article\<close>

definition token_name :: "nat \<Rightarrow> nat \<Rightarrow> string" where
  "token_name b t = ''b'' @ decimal b @ '':t'' @ decimal t"

text \<open>The tokens of one block, numbered from \<open>n\<close> on.\<close>

definition number_tokens :: "nat \<Rightarrow> nat \<Rightarrow> Token list \<Rightarrow> Token list" where
  "number_tokens b n ts = map (\<lambda>(i, t). t\<lparr>tok_index := int i, tok_id := token_name b i\<rparr>) (enumerate n ts)"

fun prepare_blocks :: "text_env \<Rightarrow> nat \<Rightarrow> nat \<Rightarrow> Block list \<Rightarrow> sem_error + Token list" where
  "prepare_blocks E i n [] = Inr []"
| "prepare_blocks E i n (b # bs) =
     (if blk_index b \<noteq> int i \<or> blk_text b = [] \<or> \<not> valid_utf8 (blk_text b) then Inl ''invalid source block''
      else let ts = number_tokens i n (tokenize E (int i) (blk_text b))
           in bind_res (prepare_blocks E (Suc i) (n + length ts) bs) (\<lambda>rest. Inr (ts @ rest)))"

definition Prepare ::
  "text_env \<Rightarrow> parsers \<Rightarrow> (string \<Rightarrow> string) \<Rightarrow> string \<Rightarrow> string \<Rightarrow> string \<Rightarrow> Block list \<Rightarrow> SenseCandidate list
   \<Rightarrow> sem_error + PreparedArticle" where
  "Prepare E Z hash ttl source target bs candidates =
     (if blank ttl \<or> \<not> valid_utf8 ttl then Inl ''title is required and must be valid UTF-8''
      else case ParseBCP47 (parse_tag Z) (is_root Z) source of
        Inl e \<Rightarrow> Inl ''source language''
      | Inr source' \<Rightarrow>
          (case ParseBCP47 (parse_tag Z) (is_root Z) target of
             Inl e \<Rightarrow> Inl ''target language''
           | Inr target' \<Rightarrow>
               if bs = [] then Inl ''at least one source block is required''
               else bind_res (prepare_blocks E 0 0 bs) (\<lambda>ts.
                 Inr \<lparr>pa_title = ttl, pa_source_lang = source', pa_target_lang = target',
                      pa_hash = ContentHash hash ttl source' target' bs, pa_blocks = bs,
                      pa_tokens = ts, pa_candidates = candidates, pa_sentences = []\<rparr>)))"

section \<open>Spans\<close>

text \<open>
  \<open>ResolveSpan\<close>: the loop searches the rest of the text behind the previous hit; \<open>n\<close> counts the
  occurrences still to pass, so it ends.
\<close>

function find_occurrence :: "string \<Rightarrow> string \<Rightarrow> nat \<Rightarrow> nat \<Rightarrow> nat option" where
  "find_occurrence s needle start n =
     (case index_of needle (drop start s) of
        None \<Rightarrow> None
      | Some relative \<Rightarrow>
          (if n = 0 then Some (start + relative)
           else find_occurrence s needle (start + relative + length needle) (n - 1)))"
  by pat_completeness auto
termination
  by (relation "measure (\<lambda>(s, needle, start, n). n)") auto

declare find_occurrence.simps [simp del]

definition ResolveSpan :: "Block \<Rightarrow> string \<Rightarrow> int \<Rightarrow> sem_error + ResolvedSpan" where
  "ResolveSpan block source occurrence =
     (if occurrence < 0 \<or> source = [] then Inl ''span source and occurrence are invalid''
      else case find_occurrence (blk_text block) source 0 (nat occurrence) of
          None \<Rightarrow> Inl ''source occurrence was not found''
        | Some found \<Rightarrow>
            Inr \<lparr>sp_block = blk_index block, sp_start = utf16Len (take found (blk_text block)),
                 sp_end = utf16Len (take (found + length source) (blk_text block)), sp_text = source\<rparr>)"

definition spanOverlap :: "ResolvedSpan \<Rightarrow> ResolvedSpan \<Rightarrow> bool" where
  "spanOverlap a b \<longleftrightarrow> sp_block a = sp_block b \<and> sp_start a < sp_end b \<and> sp_start b < sp_end a"

definition SortSpans :: "ResolvedSpan list \<Rightarrow> ResolvedSpan list" where
  "SortSpans spans = sort_key (\<lambda>s. (sp_block s, sp_start s, sp_end s)) spans"

text \<open>\<open>byteOffsetForUTF16\<close> and \<open>sliceForUTF16\<close> repeat the conversion of the reader package.\<close>

definition byteOffsetForUTF16 :: "string \<Rightarrow> int \<Rightarrow> sem_error + nat" where
  "byteOffsetForUTF16 value offset =
     (if offset < 0 then Inl (text_message NegativeOffset)
      else case scan_units (chunks value) 0 0 offset of Inl e \<Rightarrow> Inl (text_message e) | Inr i \<Rightarrow> Inr i)"

definition sliceForUTF16 :: "string \<Rightarrow> int \<Rightarrow> int \<Rightarrow> sem_error + string" where
  "sliceForUTF16 value a b =
     bind_res (byteOffsetForUTF16 value a) (\<lambda>i. bind_res (byteOffsetForUTF16 value b) (\<lambda>j.
       if j \<le> i then Inl (text_message EmptySpan) else Inr (slice value i j)))"

section \<open>Checks of single values\<close>

definition safeProviderText :: "string \<Rightarrow> nat \<Rightarrow> sem_error + unit" where
  "safeProviderText value max_scalars =
     (if \<not> valid_utf8 value then Inl ''must be valid UTF-8''
      else if CHR ''<'' \<in> set value \<or> CHR ''>'' \<in> set value then Inl ''must not contain markup delimiters''
      else if \<exists>r \<in> set (runes value). is_control r \<and> r \<noteq> 10 \<and> r \<noteq> 13 \<and> r \<noteq> 9 then Inl ''contains a control character''
      else if max_scalars > 0 \<and> length (runes value) > max_scalars then Inl ''is too long''
      else Inr ())"

definition sameSpellingSense :: "text_env \<Rightarrow> string \<Rightarrow> string \<Rightarrow> bool" where
  "sameSpellingSense E senseTranslation normalizedSource \<longleftrightarrow> NormalizeForm E senseTranslation = Inr normalizedSource"

definition validateSenseReference ::
  "string \<Rightarrow> string \<Rightarrow> string \<Rightarrow> string \<Rightarrow> string \<Rightarrow> (string \<rightharpoonup> SenseCandidate) \<Rightarrow> (string \<rightharpoonup> NewSense)
   \<Rightarrow> sem_error + unit" where
  "validateSenseReference sid ref kind source target candidates senses =
     (if sid = [] \<and> ref = [] then Inr ()
      else if sid \<noteq> [] then
        (case candidates sid of
           None \<Rightarrow> Inl ''semantic sense was not supplied as a candidate''
         | Some c \<Rightarrow> if cd_kind c \<noteq> kind then Inl ''semantic sense has another kind''
             else if cd_source_lang c \<noteq> source \<or> cd_target_lang c \<noteq> target then Inl ''semantic sense does not match article language''
             else Inr ())
      else (case senses ref of
           None \<Rightarrow> Inl ''new sense ref is not defined''
         | Some s \<Rightarrow> if ns_kind s \<noteq> kind then Inl ''new sense ref has another kind'' else Inr ()))"

text \<open>\<open>strings.TrimSpace\<close> of the alternatives: present and all different.\<close>

fun check_alternatives :: "string list \<Rightarrow> string list \<Rightarrow> sem_error + unit" where
  "check_alternatives seen [] = Inr ()"
| "check_alternatives seen (a # as) =
     bind_res (safeProviderText a MaxNoteScalars) (\<lambda>_.
       if trim_space a = [] then Inl ''alternative is empty''
       else if trim_space a \<in> set seen then Inl ''alternative is duplicated''
       else check_alternatives (trim_space a # seen) as)"

text \<open>
  The loop over the named fields.  Go visits them in an unspecified order, so which field is reported
  is not determined; every field error is the one message here.
\<close>

definition sense_fields :: "NewSense \<Rightarrow> (bool \<times> nat \<times> string) list" where
  "sense_fields s =
     [(True, MaxNoteScalars, ns_canonical s), (True, MaxNoteScalars, ns_form s),
      (True, MaxNoteScalars, ns_discriminator s), (True, MaxNoteScalars, ns_primary s),
      (False, MaxNoteScalars, ns_literal s), (False, MaxNoteScalars, ns_meaning s),
      (False, MaxNoteScalars, ns_usage s), (False, MaxNoteScalars, ns_parts s),
      (False, MaxPronunciationScalars, ns_pron s)]"

definition field_ok :: "bool \<times> nat \<times> string \<Rightarrow> bool" where
  "field_ok f = (case f of (required, limit, value) \<Rightarrow>
     \<not> (required \<and> blank value) \<and> safeProviderText value limit = Inr ())"

text \<open>The two normalized forms agree.\<close>

definition check_forms :: "text_env \<Rightarrow> string \<Rightarrow> string \<Rightarrow> sem_error + unit" where
  "check_forms E canonical form =
     bind_res (NormalizeForm E canonical) (\<lambda>c. bind_res (NormalizeForm E form) (\<lambda>f.
       if f \<noteq> c then Inl ''normalized_form must equal the normalization of canonical_form'' else Inr ()))"

definition validateSense :: "text_env \<Rightarrow> NewSense \<Rightarrow> sem_error + unit" where
  "validateSense E s =
     (if \<not> kind_valid (ns_kind s) then Inl ''invalid kind''
      else if \<not> list_all field_ok (sense_fields s) then Inl ''invalid sense field''
      else bind_res (check_forms E (ns_canonical s) (ns_form s)) (\<lambda>_.
        if length (ns_alternatives s) > MaxAlternatives then Inl ''too many alternatives''
        else check_alternatives [] (ns_alternatives s)))"

definition special_class :: "string \<Rightarrow> bool" where
  "special_class c \<longleftrightarrow> c = ''proper_name'' \<or> c = ''number'' \<or> c = ''acronym''"

text \<open>The English translation of the sense that a result refers to.\<close>

definition referenced_translation ::
  "TokenResult \<Rightarrow> (string \<rightharpoonup> SenseCandidate) \<Rightarrow> (string \<rightharpoonup> NewSense) \<Rightarrow> string" where
  "referenced_translation result candidates senses =
     (if tr_sense result \<noteq> [] then (case candidates (tr_sense result) of None \<Rightarrow> [] | Some c \<Rightarrow> cd_primary c)
      else if tr_new result \<noteq> [] then (case senses (tr_new result) of None \<Rightarrow> [] | Some s \<Rightarrow> ns_primary s)
      else [])"

text \<open>The subtitle's normalization, \<open>''''\<close> for a blank subtitle.\<close>

definition normalized_shadow :: "text_env \<Rightarrow> string \<Rightarrow> sem_error + string" where
  "normalized_shadow E shadow = (if \<not> blank shadow then NormalizeForm E shadow else Inr [])"

definition validateTokenResult ::
  "text_env \<Rightarrow> TokenResult \<Rightarrow> Token \<Rightarrow> string \<Rightarrow> string \<Rightarrow> (string \<rightharpoonup> SenseCandidate) \<Rightarrow> (string \<rightharpoonup> NewSense)
   \<Rightarrow> sem_error + unit" where
  "validateTokenResult E result token source target candidates senses =
     (if tr_class result = [] then Inl ''classification is required''
      else bind_res (safeProviderText (tr_class result) MaxNoteScalars) (\<lambda>_.
      if \<not> kind_valid (tr_kind result) then Inl ''invalid kind''
      else if tr_confidence result < 0 \<or> tr_confidence result > 1000 then Inl ''confidence is outside 0..1000''
      else bind_res (safeProviderText (tr_shadow result) MaxShadowScalars) (\<lambda>_.
      bind_res (safeProviderText (tr_pron result) MaxPronunciationScalars) (\<lambda>_.
      bind_res (safeProviderText (tr_context result) MaxPronunciationScalars) (\<lambda>_.
      if tr_sense result \<noteq> [] \<and> tr_new result \<noteq> [] then Inl ''semantic_sense_id and new_sense_ref are mutually exclusive''
      else if tr_class result = ''unchanged'' then Inl ''unchanged is not accepted for a word''
      else if tr_sense result = [] \<and> tr_new result = [] \<and> \<not> special_class (tr_class result) then Inl ''a semantic sense reference is required''
      else if \<not> special_class (tr_class result) \<and> blank (tr_shadow result) then Inl ''shadow_text is required for a translated token''
      else let source_form = NormalizeForm E (tok_text token);
               shadow_form = normalized_shadow E (tr_shadow result)
           in bind_res (if special_class (tr_class result) then bind_res shadow_form (\<lambda>_. Inr ())
                else (case shadow_form of
                        Inl e \<Rightarrow> Inl ''shadow_text is required for a translated token''
                      | Inr sh \<Rightarrow>
                          if sh = [] then Inl ''shadow_text is required for a translated token''
                          else if source_form = Inr sh
                            \<and> \<not> sameSpellingSense E (referenced_translation result candidates senses) sh
                          then Inl ''shadow_text copies the Dutch source text'' else Inr ())) (\<lambda>_.
              validateSenseReference (tr_sense result) (tr_new result) (tr_kind result) source target candidates senses))))))"

end
