(* ===== verification/Semantics_Validate.thy ===== *)
theory Semantics_Validate
  imports Semantics_Types
begin

text \<open>
  Validation of a provider response against a prepared article, the functions of
  internal/semantics/types.go from \<open>validateResponse\<close> on.  The checks run in the order of the code and the
  first failure is the result.
\<close>

section \<open>Maps built from lists\<close>

text \<open>A Go map filled in list order: the last entry with a key counts.\<close>

definition last_by :: "('x \<Rightarrow> string) \<Rightarrow> 'x list \<Rightarrow> string \<rightharpoonup> 'x" where
  "last_by key xs = map_of (rev (map (\<lambda>x. (key x, x)) xs))"

definition token_map :: "Token list \<Rightarrow> string \<rightharpoonup> Token" where
  "token_map ts = last_by tok_id ts"

definition candidate_map :: "SenseCandidate list \<Rightarrow> string \<rightharpoonup> SenseCandidate" where
  "candidate_map cs = last_by cd_id (filter (\<lambda>c. cd_id c \<noteq> []) cs)"

text \<open>
  The loops that fill \<open>newByRef\<close>, over the prior senses and over those of the response: a reference that is
  there, safe and new, and a valid sense.  The linguistic validator runs the same loop with other checks.
\<close>

fun fill_refs ::
  "('x \<Rightarrow> string) \<Rightarrow> ('x \<Rightarrow> sem_error + unit) \<Rightarrow> ('x \<Rightarrow> 'y) \<Rightarrow> 'x list \<Rightarrow> (string \<rightharpoonup> 'y)
   \<Rightarrow> sem_error + (string \<rightharpoonup> 'y)" where
  "fill_refs ref valid entry [] m = Inr m"
| "fill_refs ref valid entry (s # ss) m =
     (if ref s = [] then Inl ''sense has no ref''
      else bind_res (safeProviderText (ref s) 120) (\<lambda>_.
        if m (ref s) \<noteq> None then Inl ''sense ref is duplicated''
        else bind_res (valid s) (\<lambda>_. fill_refs ref valid entry ss (m(ref s \<mapsto> entry s)))))"

definition collect_senses :: "text_env \<Rightarrow> NewSense list \<Rightarrow> (string \<rightharpoonup> NewSense) \<Rightarrow> sem_error + (string \<rightharpoonup> NewSense)" where
  "collect_senses E = fill_refs ns_ref (validateSense E) (\<lambda>s. s)"

text \<open>The loop over the token results, with the identifiers seen so far.\<close>

fun validate_tokens ::
  "text_env \<Rightarrow> string \<Rightarrow> string \<Rightarrow> (string \<rightharpoonup> Token) \<Rightarrow> (string \<rightharpoonup> SenseCandidate) \<Rightarrow> (string \<rightharpoonup> NewSense)
   \<Rightarrow> string list \<Rightarrow> TokenResult list \<Rightarrow> sem_error + ResolvedToken list" where
  "validate_tokens E source target tokens candidates senses seen [] = Inr []"
| "validate_tokens E source target tokens candidates senses seen (r # rs) =
     (case tokens (tr_token r) of
        None \<Rightarrow> Inl ''unknown token''
      | Some t \<Rightarrow>
          if tr_token r \<in> set seen then Inl ''token appears more than once''
          else bind_res (validateTokenResult E r t source target candidates senses) (\<lambda>_.
            bind_res (validate_tokens E source target tokens candidates senses (tr_token r # seen) rs) (\<lambda>rest.
              Inr (\<lparr>rt_token = t, rt_result = r\<rparr> # rest))))"

section \<open>Sentence anchors\<close>

definition block_at :: "Block list \<Rightarrow> int \<Rightarrow> Block option" where
  "block_at bs i = (if i < 0 \<or> i \<ge> int (length bs) then None else Some (bs ! nat i))"

text \<open>The checks of one anchor, given the anchors of its block accepted before it.\<close>

definition check_anchor :: "Block list \<Rightarrow> ResolvedSentence list \<Rightarrow> ResolvedSentence \<Rightarrow> sem_error + unit" where
  "check_anchor bs earlier sentence =
     (case block_at bs (sp_block (st_span sentence)) of
        None \<Rightarrow> Inl ''sentence anchor references invalid block''
      | Some b \<Rightarrow>
          if sp_start (st_span sentence) < 0 \<or> sp_end (st_span sentence) \<le> sp_start (st_span sentence)
          then Inl ''sentence anchor has an invalid UTF-16 span''
          else bind_res (sliceForUTF16 (blk_text b) (sp_start (st_span sentence)) (sp_end (st_span sentence))) (\<lambda>t.
            if t \<noteq> sp_text (st_span sentence) then Inl ''sentence anchor does not match block source text''
            else if st_index sentence \<noteq> int (length earlier) then Inl ''sentence anchor indexes are not sequential''
            else if sp_start (st_span sentence) < (if earlier = [] then 0 else sp_end (st_span (List.last earlier)))
            then Inl ''sentence anchors overlap or are out of order''
            else Inr ()))"

text \<open>\<open>byBlock\<close> maps a block to its anchors in order.\<close>

fun anchors_loop ::
  "Block list \<Rightarrow> (int \<Rightarrow> ResolvedSentence list) \<Rightarrow> ResolvedSentence list
   \<Rightarrow> sem_error + (int \<Rightarrow> ResolvedSentence list)" where
  "anchors_loop bs byBlock [] = Inr byBlock"
| "anchors_loop bs byBlock (s # ss) =
     bind_res (check_anchor bs (byBlock (sp_block (st_span s))) s) (\<lambda>_.
       anchors_loop bs (byBlock(sp_block (st_span s) := byBlock (sp_block (st_span s)) @ [s])) ss)"

definition validateSourceSentenceAnchors :: "PreparedArticle \<Rightarrow> sem_error + ResolvedSentence list" where
  "validateSourceSentenceAnchors input =
     bind_res (anchors_loop (pa_blocks input) (\<lambda>_. []) (pa_sentences input)) (\<lambda>byBlock.
       Inr (concat (map (\<lambda>i. byBlock (int i)) [0..<length (pa_blocks input)])))"

definition in_span :: "ResolvedSpan \<Rightarrow> Token \<Rightarrow> bool" where
  "in_span s t \<longleftrightarrow> sp_block s = tok_block t \<and> tok_start t \<ge> sp_start s \<and> tok_end t \<le> sp_end s"

definition sentenceForToken :: "ResolvedSentence list \<Rightarrow> Token \<Rightarrow> int" where
  "sentenceForToken anchors t =
     (case find (\<lambda>a. in_span (st_span a) t) anchors of None \<Rightarrow> - 1 | Some a \<Rightarrow> st_index a)"

section \<open>Constructions\<close>

text \<open>The spans of a construction, resolved and in order; \<open>prev\<close> is the span before.\<close>

fun resolve_spans :: "Block list \<Rightarrow> ResolvedSpan option \<Rightarrow> SpanRef list \<Rightarrow> sem_error + ResolvedSpan list" where
  "resolve_spans bs prev [] = Inr []"
| "resolve_spans bs prev (r # rs) =
     (case block_at bs (sr_block r) of
        None \<Rightarrow> Inl ''span has invalid block index''
      | Some b \<Rightarrow>
          bind_res (ResolveSpan b (sr_text r) (sr_occurrence r)) (\<lambda>s.
            if (case prev of None \<Rightarrow> False | Some p \<Rightarrow> sp_block s \<noteq> sp_block p \<or> sp_start s < sp_end p)
            then Inl ''spans are not ordered and non-overlapping''
            else bind_res (resolve_spans bs (Some s) rs) (\<lambda>rest. Inr (s # rest))))"

text \<open>
  The members: known, not repeated, in source order, inside the spans and in one sentence.  \<open>prev\<close> is the
  member before (\<open>lastBlock\<close>, \<open>lastStart\<close>), \<open>owner\<close> the sentence of the first (\<open>-1\<close> before it).
\<close>

fun resolve_members ::
  "(string \<rightharpoonup> Token) \<Rightarrow> ResolvedSentence list \<Rightarrow> ResolvedSpan list \<Rightarrow> string list \<Rightarrow> Token option \<Rightarrow> int
   \<Rightarrow> string list \<Rightarrow> sem_error + Token list" where
  "resolve_members tokens anchors spans seen prev owner [] = Inr []"
| "resolve_members tokens anchors spans seen prev owner (tid # tids) =
     (case tokens tid of
        None \<Rightarrow> Inl ''construction references unknown token''
      | Some t \<Rightarrow>
          if tid \<in> set seen then Inl ''construction repeats token''
          else if (case prev of None \<Rightarrow> False
                   | Some p \<Rightarrow> tok_block p \<ge> 0 \<and> (tok_block t \<noteq> tok_block p \<or> tok_start t \<le> tok_start p))
          then Inl ''member tokens are not in source order''
          else if \<not> list_ex (\<lambda>s. in_span s t) spans then Inl ''token is outside its spans''
          else if sentenceForToken anchors t < 0 then Inl ''token is outside the sentence coverage''
          else if owner \<ge> 0 \<and> sentenceForToken anchors t \<noteq> owner then Inl ''construction crosses a source sentence boundary''
          else bind_res (resolve_members tokens anchors spans (tid # seen) (Some t) (sentenceForToken anchors t) tids)
            (\<lambda>rest. Inr (t # rest)))"

text \<open>\<open>memberRunCount\<close>: the maximal runs of tokens with consecutive indexes in one block.\<close>

fun run_count :: "Token option \<Rightarrow> Token list \<Rightarrow> nat" where
  "run_count prev [] = 0"
| "run_count prev (t # ts) =
     (case prev of
        None \<Rightarrow> Suc (run_count (Some t) ts)
      | Some p \<Rightarrow> (if tok_block t \<noteq> tok_block p \<or> tok_index t \<noteq> tok_index p + 1 then 1 else 0) + run_count (Some t) ts)"

definition memberRunCount :: "Token list \<Rightarrow> nat" where
  "memberRunCount ts = run_count None ts"

definition contiguous :: string where "contiguous = ''contiguous_construction''"
definition discontinuous :: string where "discontinuous = ''discontinuous_construction''"

text \<open>The part on spans and members that both validators of the package share word for word.\<close>

definition validate_shape ::
  "PreparedArticle \<Rightarrow> ResolvedSentence list \<Rightarrow> string \<Rightarrow> string list \<Rightarrow> SpanRef list
   \<Rightarrow> sem_error + ResolvedSpan list \<times> Token list" where
  "validate_shape input anchors role tids refs =
     (if length refs < (if role = discontinuous then 2 else 1) then Inl ''construction requires more spans''
      else if tids = [] then Inl ''construction must reference at least one token''
      else if role = contiguous \<and> length refs \<noteq> 1 then Inl ''construction must have exactly one span''
      else bind_res (resolve_spans (pa_blocks input) None refs) (\<lambda>spans.
        bind_res (resolve_members (token_map (pa_tokens input)) anchors spans [] None (- 1) tids) (\<lambda>members.
          if memberRunCount members \<noteq> 1 \<and> role = contiguous then Inl ''contiguous members do not form exactly one run''
          else if memberRunCount members < 2 \<and> role = discontinuous then Inl ''discontinuous members form fewer than two runs''
          else if role = contiguous \<and> list_ex (\<lambda>t. in_span (hd spans) t \<and> tok_id t \<notin> set tids) (pa_tokens input)
          then Inl ''construction omits component token''
          else Inr (spans, members))))"

text \<open>\<open>strings.Join(parts, sep)\<close> with one space.\<close>

fun join_spaces :: "string list \<Rightarrow> string" where
  "join_spaces [] = []"
| "join_spaces [p] = p"
| "join_spaces (p # ps) = p @ '' '' @ join_spaces ps"

definition constructionSubtitleForbids ::
  "Construction \<Rightarrow> string list \<Rightarrow> ResolvedSpan list \<Rightarrow> (string \<rightharpoonup> SenseCandidate) \<Rightarrow> (string \<rightharpoonup> NewSense) \<Rightarrow> string list" where
  "constructionSubtitleForbids c memberParts spans candidates senses =
     (if memberParts \<noteq> [] then [join_spaces memberParts] else []) @ map sp_text spans @
     (if cn_sense c \<noteq> [] then (case candidates (cn_sense c) of None \<Rightarrow> [] | Some d \<Rightarrow> [cd_canonical d]) else []) @
     (if cn_new c \<noteq> [] then (case senses (cn_new c) of None \<Rightarrow> [] | Some s \<Rightarrow> [ns_canonical s]) else [])"

definition validateConstructionSubtitle :: "text_env \<Rightarrow> string \<Rightarrow> string list \<Rightarrow> sem_error + unit" where
  "validateConstructionSubtitle E shadow forbids =
     bind_res (NormalizeForm E shadow) (\<lambda>sh.
       if list_ex (\<lambda>f. case NormalizeForm E f of Inl _ \<Rightarrow> False | Inr n \<Rightarrow> n \<noteq> [] \<and> n = sh) forbids
       then Inl ''shadow_text copies Dutch source text'' else Inr ())"

definition validate_construction ::
  "text_env \<Rightarrow> PreparedArticle \<Rightarrow> ResolvedSentence list \<Rightarrow> (string \<rightharpoonup> NewSense) \<Rightarrow> Construction
   \<Rightarrow> sem_error + ResolvedConstruction" where
  "validate_construction E input anchors senses c =
     (let candidates = candidate_map (pa_candidates input) in
      if cn_role c \<noteq> contiguous \<and> cn_role c \<noteq> discontinuous then Inl ''construction has invalid role''
      else if \<not> kind_valid (cn_kind c) \<or> cn_kind c = SemKindWord then Inl ''construction has invalid kind''
      else if cn_sense c \<noteq> [] \<and> cn_new c \<noteq> [] then Inl ''construction has two sense references''
      else bind_res (validateSenseReference (cn_sense c) (cn_new c) (cn_kind c) (pa_source_lang input) (pa_target_lang input)
                       candidates senses) (\<lambda>_.
      bind_res (safeProviderText (cn_shadow c) MaxShadowScalars) (\<lambda>_.
      if blank (cn_shadow c) then Inl ''shadow_text is required''
      else bind_res (safeProviderText (cn_pron c) MaxPronunciationScalars) (\<lambda>_.
      bind_res (safeProviderText (cn_context c) MaxPronunciationScalars) (\<lambda>_.
      if cn_confidence c < 0 \<or> cn_confidence c > 1000 then Inl ''confidence is outside 0..1000''
      else bind_res (validate_shape input anchors (cn_role c) (cn_tokens c) (cn_spans c)) (\<lambda>(spans, members).
      bind_res (validateConstructionSubtitle E (cn_shadow c)
                  (constructionSubtitleForbids c (map tok_text members) spans candidates senses)) (\<lambda>_.
      Inr \<lparr>rc_construction = c, rc_spans = spans\<rparr>)))))))"

text \<open>The double loop over the contiguous constructions.\<close>

fun overlap_free :: "ResolvedConstruction list \<Rightarrow> bool" where
  "overlap_free [] = True"
| "overlap_free (c # cs) \<longleftrightarrow>
     (cn_role (rc_construction c) = contiguous \<and> length (rc_spans c) = 1 \<longrightarrow>
       list_all (\<lambda>d. cn_role (rc_construction d) = contiguous \<and> length (rc_spans d) = 1 \<longrightarrow>
         \<not> spanOverlap (hd (rc_spans c)) (hd (rc_spans d))) cs) \<and> overlap_free cs"

section \<open>A response\<close>

definition validateResponse ::
  "text_env \<Rightarrow> PreparedArticle \<Rightarrow> Response \<Rightarrow> NewSense list \<Rightarrow> sem_error + ValidatedResponse" where
  "validateResponse E input response prior =
     (if rs_version response \<noteq> AnalysisContractVersion then Inl ''unsupported analysis response version''
      else if length (rs_tokens response) \<noteq> length (pa_tokens input) then Inl ''token coverage''
      else bind_res (collect_senses E prior Map.empty) (\<lambda>known.
      bind_res (collect_senses E (rs_senses response) known) (\<lambda>senses.
      bind_res (validate_tokens E (pa_source_lang input) (pa_target_lang input) (token_map (pa_tokens input))
                  (candidate_map (pa_candidates input)) senses [] (rs_tokens response)) (\<lambda>tokens.
      if \<not> list_all (\<lambda>t. tok_id t \<in> set (map tr_token (rs_tokens response))) (pa_tokens input)
      then Inl ''token is missing from response''
      else bind_res (validateSourceSentenceAnchors input) (\<lambda>anchors.
      if list_ex (\<lambda>t. sentenceForToken anchors t < 0) (pa_tokens input)
      then Inl ''token is outside the supplied source sentence anchors''
      else bind_res (map_res (validate_construction E input anchors senses) (rs_constructions response)) (\<lambda>constructions.
      if \<not> overlap_free constructions then Inl ''contiguous constructions overlap''
      else Inr \<lparr>vr_response = response, vr_sentences = anchors, vr_tokens = tokens,
                vr_constructions = constructions\<rparr>))))))"

definition ValidateResponse :: "text_env \<Rightarrow> PreparedArticle \<Rightarrow> Response \<Rightarrow> sem_error + ValidatedResponse" where
  "ValidateResponse E input response = validateResponse E input response []"

definition ValidateResponseWithPrior ::
  "text_env \<Rightarrow> PreparedArticle \<Rightarrow> Response \<Rightarrow> NewSense list \<Rightarrow> sem_error + ValidatedResponse" where
  "ValidateResponseWithPrior E input response prior = validateResponse E input response prior"

end
