(* ===== verification/Semantics_Chunks.thy ===== *)
theory Semantics_Chunks
  imports Semantics_Validate
begin

text \<open>
  Paragraph chunks, internal/semantics/chunks.go: what one paragraph turn is given, the identities of
  inputs, validation and namespacing of one paragraph's response, and the merge of all paragraphs.
\<close>

section \<open>Identities\<close>

definition put_token :: "Token \<Rightarrow> string" where
  "put_token t = writePart (tok_id t) @ put_int (tok_block t) @ put_int (tok_index t) @ put_int (tok_start t) @
     put_int (tok_end t) @ writePart (tok_text t) @ writePart (tok_form t) @ writePart (tok_lemma t)"

definition writeResolvedSentenceHash :: "ResolvedSentence \<Rightarrow> string" where
  "writeResolvedSentenceHash s = put_int (sp_block (st_span s)) @ put_int (st_index s) @ put_int (sp_start (st_span s)) @
     put_int (sp_end (st_span s)) @ writePart (sp_text (st_span s))"

definition writeCandidateHash :: "SenseCandidate \<Rightarrow> string" where
  "writeCandidateHash c = concat (map writePart
     [cd_id c, cd_item c, cd_source_lang c, cd_target_lang c, cd_kind c, cd_canonical c, cd_form c, cd_lemma c,
      cd_pos c, cd_primary c, cd_discriminator c])"

definition writeSenseHash :: "NewSense \<Rightarrow> string" where
  "writeSenseHash s = concat (map writePart
     ([ns_ref s, ns_kind s, ns_canonical s, ns_form s, ns_lemma s, ns_pos s, ns_discriminator s, ns_primary s] @
      ns_alternatives s @ [ns_literal s, ns_meaning s, ns_usage s, ns_parts s, ns_pron s]))"

definition put_block :: "Block \<Rightarrow> string" where
  "put_block b = put_int (blk_index b) @ writePart (blk_text b)"

definition prepared_bytes :: "PreparedArticle \<Rightarrow> string" where
  "prepared_bytes a = writePart ''doublangu.prepared-input.v1'' @ writePart (pa_title a) @ writePart (pa_source_lang a) @
     writePart (pa_target_lang a) @ writePart (pa_hash a) @ concat (map put_block (pa_blocks a)) @
     concat (map put_token (pa_tokens a)) @ concat (map writeResolvedSentenceHash (pa_sentences a)) @
     concat (map writeCandidateHash (pa_candidates a))"

definition PreparedInputHash :: "(string \<Rightarrow> string) \<Rightarrow> PreparedArticle \<Rightarrow> string" where
  "PreparedInputHash hash a = hash (prepared_bytes a)"

definition BlockHash :: "(string \<Rightarrow> string) \<Rightarrow> Block \<Rightarrow> string" where
  "BlockHash hash b = hash (writePart ''doublangu.analysis-block.v1'' @ put_block b)"

definition carry_bytes :: "NewSense list \<Rightarrow> string" where
  "carry_bytes ss = writePart ''doublangu.analysis-carry.v1'' @ concat (map writeSenseHash ss)"

definition CarryHash :: "(string \<Rightarrow> string) \<Rightarrow> NewSense list \<Rightarrow> string" where
  "CarryHash hash ss = hash (carry_bytes ss)"

record PreparedChunk =
  pc_title :: string
  pc_source_lang :: string
  pc_target_lang :: string
  pc_hash :: string
  pc_block :: Block
  pc_tokens :: "Token list"
  pc_candidates :: "SenseCandidate list"
  pc_prior :: "NewSense list"
  pc_sentences :: "ResolvedSentence list"
  pc_input_hash :: string

definition chunk_bytes :: "PreparedChunk \<Rightarrow> string" where
  "chunk_bytes c = writePart ''doublangu.chunk-input.v1'' @ writePart (pc_title c) @ writePart (pc_source_lang c) @
     writePart (pc_target_lang c) @ writePart (pc_hash c) @ put_block (pc_block c) @
     concat (map put_token (pc_tokens c)) @ concat (map writeResolvedSentenceHash (pc_sentences c)) @
     concat (map writeCandidateHash (pc_candidates c)) @ concat (map writeSenseHash (pc_prior c))"

definition chunkInputHash :: "(string \<Rightarrow> string) \<Rightarrow> PreparedChunk \<Rightarrow> string" where
  "chunkInputHash hash c = hash (chunk_bytes c)"

section \<open>Relevance and preparation\<close>

definition normalizedForRelevance :: "text_env \<Rightarrow> string \<Rightarrow> string" where
  "normalizedForRelevance E value = (case NormalizeForm E value of Inl _ \<Rightarrow> [] | Inr n \<Rightarrow> n)"

definition relevantToTokens :: "string \<Rightarrow> string \<Rightarrow> Token list \<Rightarrow> bool" where
  "relevantToTokens form lem ts \<longleftrightarrow>
     (\<exists>t \<in> set ts. \<exists>k \<in> set [form, lem]. k \<noteq> [] \<and> (k = tok_form t \<or> k = tok_lemma t))"

definition relevantCanonical :: "text_env \<Rightarrow> string \<Rightarrow> string \<Rightarrow> bool" where
  "relevantCanonical E canonical paragraphText \<longleftrightarrow>
     (let n = normalizedForRelevance E canonical in n \<noteq> [] \<and> paragraphText \<noteq> [] \<and> index_of n paragraphText \<noteq> None)"

definition PrepareChunk ::
  "text_env \<Rightarrow> (string \<Rightarrow> string) \<Rightarrow> PreparedArticle \<Rightarrow> int \<Rightarrow> NewSense list \<Rightarrow> sem_error + PreparedChunk" where
  "PrepareChunk E hash input i prior =
     (case block_at (pa_blocks input) i of
        None \<Rightarrow> Inl ''invalid chunk block index''
      | Some b \<Rightarrow>
          (let ts = filter (\<lambda>t. tok_block t = i) (pa_tokens input);
               paragraphText = normalizedForRelevance E (blk_text b);
               c = \<lparr>pc_title = pa_title input, pc_source_lang = pa_source_lang input, pc_target_lang = pa_target_lang input,
                    pc_hash = pa_hash input, pc_block = b, pc_tokens = ts,
                    pc_candidates = filter (\<lambda>c. relevantToTokens (cd_form c) (cd_lemma c) ts
                       \<or> relevantCanonical E (cd_canonical c) paragraphText) (pa_candidates input),
                    pc_prior = filter (\<lambda>s. relevantToTokens (ns_form s) (ns_lemma s) ts
                       \<or> relevantCanonical E (ns_canonical s) paragraphText) prior,
                    pc_sentences = filter (\<lambda>s. sp_block (st_span s) = i) (pa_sentences input),
                    pc_input_hash = []\<rparr>
           in Inr (c\<lparr>pc_input_hash := chunkInputHash hash c\<rparr>)))"

definition PrepareChunks :: "text_env \<Rightarrow> (string \<Rightarrow> string) \<Rightarrow> PreparedArticle \<Rightarrow> sem_error + PreparedChunk list" where
  "PrepareChunks E hash input = map_res (\<lambda>i. PrepareChunk E hash input (int i) []) [0..<length (pa_blocks input)]"

section \<open>Validation of one paragraph\<close>

text \<open>
  The one-paragraph article: the block at its own index, zero blocks before it.  \<open>PrepareChunk\<close> makes no chunk with a negative
  index; on one the Go slice access would panic, while here the list has no zero blocks.
\<close>

definition zero_block :: Block where "zero_block = \<lparr>blk_index = 0, blk_text = []\<rparr>"

definition chunkAsPrepared :: "PreparedChunk \<Rightarrow> PreparedArticle" where
  "chunkAsPrepared c =
     \<lparr>pa_title = pc_title c, pa_source_lang = pc_source_lang c, pa_target_lang = pc_target_lang c, pa_hash = pc_hash c,
      pa_blocks = replicate (nat (blk_index (pc_block c))) zero_block @ [pc_block c], pa_tokens = pc_tokens c,
      pa_candidates = pc_candidates c, pa_sentences = pc_sentences c\<rparr>"

definition crosses_block :: "PreparedChunk \<Rightarrow> ResolvedConstruction \<Rightarrow> bool" where
  "crosses_block c rc \<longleftrightarrow>
     list_ex (\<lambda>s. sp_block s \<noteq> blk_index (pc_block c)) (rc_spans rc) \<or>
     list_ex (\<lambda>tid. list_ex (\<lambda>t. tok_id t = tid \<and> tok_block t \<noteq> blk_index (pc_block c)) (pc_tokens c))
       (cn_tokens (rc_construction rc))"

definition ValidateChunkResponse ::
  "text_env \<Rightarrow> (string \<Rightarrow> string) \<Rightarrow> PreparedChunk \<Rightarrow> Response \<Rightarrow> sem_error + ValidatedResponse" where
  "ValidateChunkResponse E hash c response =
     (if blk_index (pc_block c) < 0 then Inl ''chunk has an invalid block index''
      else if pc_input_hash c \<noteq> [] \<and> pc_input_hash c \<noteq> chunkInputHash hash c
      then Inl ''chunk input hash does not match its fields''
      else bind_res (ValidateResponseWithPrior E (chunkAsPrepared c) response (pc_prior c)) (\<lambda>v.
        if list_ex (\<lambda>s. sp_block (st_span s) \<noteq> blk_index (pc_block c)) (vr_sentences v)
        then Inl ''sentence crosses the chunk block boundary''
        else if list_ex (crosses_block c) (vr_constructions v) then Inl ''construction crosses the chunk block boundary''
        else if list_ex (\<lambda>s. length (runes (ns_ref s)) > 96) (rs_senses response) then Inl ''new sense ref is too long''
        else Inr v))"

section \<open>Namespaces\<close>

definition namespaced :: "int \<Rightarrow> string \<Rightarrow> string" where
  "namespaced i local = ''b'' @ (if i < 0 then CHR ''-'' # decimal (nat (- i)) else decimal (nat i)) @ '':'' @ local"

text \<open>
  The loop over the new senses.  \<open>rewrite\<close> maps a local reference to its namespaced form; two different
  locals have different forms, so the inner search finds a repeated local.
\<close>

fun namespace_senses ::
  "int \<Rightarrow> string set \<Rightarrow> (string \<times> string) list \<Rightarrow> NewSense list \<Rightarrow> sem_error + (string \<times> string) list \<times> NewSense list" where
  "namespace_senses i priorRefs rewrite [] = Inr (rewrite, [])"
| "namespace_senses i priorRefs rewrite (s # ss) =
     (let local = ns_ref s; full = namespaced i local in
      if local \<in> priorRefs then Inl ''new sense ref collides with a prior validated sense''
      else if local = [] then Inl ''new sense has an empty ref''
      else if length (runes full) > 120 then Inl ''new sense ref exceeds the namespaced limit''
      else if full \<in> priorRefs then Inl ''namespaced new sense ref collides with a prior validated sense''
      else if full \<in> set (map snd rewrite) then Inl ''new sense refs produce the same namespaced ref''
      else bind_res (namespace_senses i priorRefs ((local, full) # rewrite) ss) (\<lambda>(rw, rest).
        Inr (rw, s\<lparr>ns_ref := full\<rparr> # rest)))"

definition rewriteRef :: "(string \<times> string) list \<Rightarrow> string \<Rightarrow> string" where
  "rewriteRef rewrite ref = (case map_of rewrite ref of None \<Rightarrow> ref | Some full \<Rightarrow> full)"

definition NamespaceChunkResponse :: "int \<Rightarrow> Response \<Rightarrow> NewSense list \<Rightarrow> sem_error + Response" where
  "NamespaceChunkResponse i response prior =
     (if list_ex (\<lambda>s. ns_ref s = []) prior then Inl ''prior sense has an empty ref''
      else bind_res (namespace_senses i (ns_ref ` set prior) [] (rs_senses response)) (\<lambda>(rewrite, senses).
        Inr (response\<lparr>rs_senses := senses,
          rs_tokens := map (\<lambda>t. t\<lparr>tr_new := rewriteRef rewrite (tr_new t)\<rparr>) (rs_tokens response),
          rs_constructions := map (\<lambda>c. c\<lparr>cn_new := rewriteRef rewrite (cn_new c)\<rparr>) (rs_constructions response)\<rparr>)))"

section \<open>Merging\<close>

record ChunkResult =
  cr_chunk :: PreparedChunk
  cr_response :: Response

fun merge_loop ::
  "text_env \<Rightarrow> (string \<Rightarrow> string) \<Rightarrow> PreparedArticle \<Rightarrow> nat \<Rightarrow> Response \<Rightarrow> NewSense list \<Rightarrow> ChunkResult list
   \<Rightarrow> sem_error + Response" where
  "merge_loop E hash input i merged prior [] = Inr merged"
| "merge_loop E hash input i merged prior (item # items) =
     (if blk_index (pc_block (cr_chunk item)) \<noteq> int i then Inl ''chunks must be in block order''
      else bind_res (PrepareChunk E hash input (int i) prior) (\<lambda>expected.
        if pc_input_hash (cr_chunk item) \<noteq> pc_input_hash expected
        then Inl ''chunk input hash does not match current carry-forward context''
        else bind_res (ValidateChunkResponse E hash expected (cr_response item)) (\<lambda>v.
          bind_res (NamespaceChunkResponse (int i) (vr_response v) prior) (\<lambda>n.
            merge_loop E hash input (Suc i)
              (merged\<lparr>rs_tokens := rs_tokens merged @ rs_tokens n, rs_senses := rs_senses merged @ rs_senses n,
                 rs_constructions := rs_constructions merged @ rs_constructions n\<rparr>)
              (prior @ rs_senses n) items))))"

definition MergeChunks ::
  "text_env \<Rightarrow> (string \<Rightarrow> string) \<Rightarrow> PreparedArticle \<Rightarrow> ChunkResult list \<Rightarrow> sem_error + Response" where
  "MergeChunks E hash input items =
     (if length items \<noteq> length (pa_blocks input) then Inl ''wrong number of chunks''
      else bind_res (merge_loop E hash input 0
          \<lparr>rs_version = AnalysisContractVersion, rs_tokens = [], rs_senses = [], rs_constructions = []\<rparr> [] items) (\<lambda>merged.
        bind_res (ValidateResponse E input merged) (\<lambda>_. Inr merged)))"

end
