(* ===== verification/Semantics_Stages.thy ===== *)
theory Semantics_Stages
  imports Semantics_Chunks
begin

text \<open>
  The two stages of the pipeline, internal/semantics/stages.go: a linguistic artifact and a translation
  artifact of one paragraph, their validators, and their merge into a response.  JSON decoding is not
  modelled; both artifacts are the decoded values.
\<close>

definition LinguisticContractVersion :: string where "LinguisticContractVersion = ''reader.linguistic.v1''"
definition TranslationContractVersion :: string where "TranslationContractVersion = ''reader.translation.v1''"

record LinguisticTokenResult =
  lt_token :: string
  lt_class :: string
  lt_kind :: string
  lt_sense :: string
  lt_new :: string
  lt_pron :: string
  lt_context :: string
  lt_confidence :: int

record LinguisticNewSense =
  ls_ref :: string
  ls_kind :: string
  ls_canonical :: string
  ls_form :: string
  ls_lemma :: string
  ls_pos :: string
  ls_discriminator :: string
  ls_meaning :: string
  ls_usage :: string
  ls_parts :: string
  ls_pron :: string

record LinguisticConstruction =
  lc_kind :: string
  lc_role :: string
  lc_sense :: string
  lc_new :: string
  lc_pron :: string
  lc_context :: string
  lc_confidence :: int
  lc_tokens :: "string list"
  lc_spans :: "SpanRef list"

record LinguisticArtifact =
  la_version :: string
  la_tokens :: "LinguisticTokenResult list"
  la_senses :: "LinguisticNewSense list"
  la_constructions :: "LinguisticConstruction list"

record ValidatedLinguisticConstruction =
  vc_id :: string
  vc_construction :: LinguisticConstruction
  vc_spans :: "ResolvedSpan list"

record ValidatedLinguistic =
  vl_version :: string
  vl_tokens :: "LinguisticTokenResult list"
  vl_senses :: "LinguisticNewSense list"
  vl_constructions :: "ValidatedLinguisticConstruction list"

record TranslationTokenResult =
  tt_token :: string
  tt_shadow :: string

record TranslationNewSense =
  ts_ref :: string
  ts_primary :: string
  ts_alternatives :: "string list"
  ts_literal :: string

record TranslationConstruction =
  tc_id :: string
  tc_shadow :: string

record TranslationArtifact =
  ta_version :: string
  ta_tokens :: "TranslationTokenResult list"
  ta_senses :: "TranslationNewSense list"
  ta_constructions :: "TranslationConstruction list"

section \<open>The linguistic stage\<close>

definition linguistic_fields :: "LinguisticNewSense \<Rightarrow> (bool \<times> nat \<times> string) list" where
  "linguistic_fields s =
     [(True, MaxNoteScalars, ls_canonical s), (True, MaxNoteScalars, ls_form s), (True, MaxNoteScalars, ls_discriminator s),
      (False, MaxNoteScalars, ls_meaning s), (False, MaxNoteScalars, ls_usage s), (False, MaxNoteScalars, ls_parts s),
      (False, MaxPronunciationScalars, ls_pron s)]"

definition validateLinguisticNewSense :: "text_env \<Rightarrow> LinguisticNewSense \<Rightarrow> sem_error + unit" where
  "validateLinguisticNewSense E s =
     (if \<not> kind_valid (ls_kind s) then Inl ''invalid kind''
      else if \<not> list_all field_ok (linguistic_fields s) then Inl ''invalid sense field''
      else check_forms E (ls_canonical s) (ls_form s))"

text \<open>A prior sense as the map of the linguistic stage holds it (its reference and notes are left empty).\<close>

definition linguistic_of_prior :: "NewSense \<Rightarrow> LinguisticNewSense" where
  "linguistic_of_prior s = \<lparr>ls_ref = [], ls_kind = ns_kind s, ls_canonical = ns_canonical s, ls_form = ns_form s,
     ls_lemma = ns_lemma s, ls_pos = ns_pos s, ls_discriminator = ns_discriminator s, ls_meaning = [], ls_usage = [],
     ls_parts = [], ls_pron = ns_pron s\<rparr>"

definition collect_prior :: "NewSense list \<Rightarrow> (string \<rightharpoonup> LinguisticNewSense) \<Rightarrow> sem_error + (string \<rightharpoonup> LinguisticNewSense)" where
  "collect_prior = fill_refs ns_ref (\<lambda>_. Inr ()) linguistic_of_prior"

definition collect_linguistic ::
  "text_env \<Rightarrow> LinguisticNewSense list \<Rightarrow> (string \<rightharpoonup> LinguisticNewSense) \<Rightarrow> sem_error + (string \<rightharpoonup> LinguisticNewSense)" where
  "collect_linguistic E = fill_refs ls_ref (validateLinguisticNewSense E) (\<lambda>s. s)"

definition validateLinguisticSenseReference ::
  "string \<Rightarrow> string \<Rightarrow> string \<Rightarrow> string \<Rightarrow> string \<Rightarrow> (string \<rightharpoonup> SenseCandidate) \<Rightarrow> (string \<rightharpoonup> LinguisticNewSense)
   \<Rightarrow> sem_error + unit" where
  "validateLinguisticSenseReference sid ref kind source target candidates senses =
     (if sid = [] \<and> ref = [] then Inr ()
      else if sid \<noteq> [] then
        (case candidates sid of
           None \<Rightarrow> Inl ''semantic sense was not supplied as a candidate''
         | Some c \<Rightarrow> if cd_kind c \<noteq> kind then Inl ''semantic sense has another kind''
             else if cd_source_lang c \<noteq> source \<or> cd_target_lang c \<noteq> target
             then Inl ''semantic sense does not match article language'' else Inr ())
      else (case senses ref of
           None \<Rightarrow> Inl ''new sense ref is not defined''
         | Some s \<Rightarrow> if ls_kind s \<noteq> kind then Inl ''new sense ref has another kind'' else Inr ()))"

definition validateLinguisticConstructionReference ::
  "string \<Rightarrow> string \<Rightarrow> string \<Rightarrow> (string \<rightharpoonup> SenseCandidate) \<Rightarrow> (string \<rightharpoonup> LinguisticNewSense) \<Rightarrow> sem_error + unit" where
  "validateLinguisticConstructionReference sid ref kind candidates senses =
     (if sid = [] \<and> ref = [] then Inr ()
      else if sid \<noteq> [] then
        (case candidates sid of
           None \<Rightarrow> Inl ''construction semantic sense was not supplied as a candidate''
         | Some c \<Rightarrow> if cd_kind c \<noteq> kind then Inl ''construction semantic sense has another kind'' else Inr ())
      else (case senses ref of
           None \<Rightarrow> Inl ''construction new sense ref is not defined''
         | Some s \<Rightarrow> if ls_kind s \<noteq> kind then Inl ''construction new sense ref has another kind'' else Inr ()))"

definition validateLinguisticTokenResult ::
  "LinguisticTokenResult \<Rightarrow> string \<Rightarrow> string \<Rightarrow> (string \<rightharpoonup> SenseCandidate) \<Rightarrow> (string \<rightharpoonup> LinguisticNewSense)
   \<Rightarrow> sem_error + unit" where
  "validateLinguisticTokenResult r source target candidates senses =
     (if lt_class r = [] then Inl ''classification is required''
      else bind_res (safeProviderText (lt_class r) MaxNoteScalars) (\<lambda>_.
      if \<not> kind_valid (lt_kind r) then Inl ''invalid kind''
      else if lt_confidence r < 0 \<or> lt_confidence r > 1000 then Inl ''confidence is outside 0..1000''
      else bind_res (safeProviderText (lt_pron r) MaxPronunciationScalars) (\<lambda>_.
      bind_res (safeProviderText (lt_context r) MaxPronunciationScalars) (\<lambda>_.
      if lt_sense r \<noteq> [] \<and> lt_new r \<noteq> [] then Inl ''semantic_sense_id and new_sense_ref are mutually exclusive''
      else if lt_class r = ''unchanged'' then Inl ''unchanged is not accepted for a word''
      else if lt_sense r = [] \<and> lt_new r = [] \<and> \<not> special_class (lt_class r)
      then Inl ''a semantic sense reference is required''
      else validateLinguisticSenseReference (lt_sense r) (lt_new r) (lt_kind r) source target candidates senses))))"

fun linguistic_tokens ::
  "string \<Rightarrow> string \<Rightarrow> (string \<rightharpoonup> Token) \<Rightarrow> (string \<rightharpoonup> SenseCandidate) \<Rightarrow> (string \<rightharpoonup> LinguisticNewSense)
   \<Rightarrow> string list \<Rightarrow> LinguisticTokenResult list \<Rightarrow> sem_error + unit" where
  "linguistic_tokens source target tokens candidates senses seen [] = Inr ()"
| "linguistic_tokens source target tokens candidates senses seen (r # rs) =
     (if tokens (lt_token r) = None then Inl ''linguistic token is unknown''
      else if lt_token r \<in> set seen then Inl ''linguistic token appears more than once''
      else bind_res (validateLinguisticTokenResult r source target candidates senses) (\<lambda>_.
        linguistic_tokens source target tokens candidates senses (lt_token r # seen) rs))"

record linguisticResolvedConstruction =
  lr_construction :: LinguisticConstruction
  lr_spans :: "ResolvedSpan list"
  lr_members :: "Token list"

definition linguistic_construction ::
  "PreparedArticle \<Rightarrow> ResolvedSentence list \<Rightarrow> (string \<rightharpoonup> LinguisticNewSense) \<Rightarrow> LinguisticConstruction
   \<Rightarrow> sem_error + linguisticResolvedConstruction" where
  "linguistic_construction input anchors senses c =
     (if lc_role c \<noteq> contiguous \<and> lc_role c \<noteq> discontinuous then Inl ''construction has invalid role''
      else if \<not> kind_valid (lc_kind c) \<or> lc_kind c = SemKindWord then Inl ''construction has invalid kind''
      else if lc_sense c \<noteq> [] \<and> lc_new c \<noteq> [] then Inl ''construction has two sense references''
      else bind_res (validateLinguisticConstructionReference (lc_sense c) (lc_new c) (lc_kind c)
                       (candidate_map (pa_candidates input)) senses) (\<lambda>_.
      bind_res (safeProviderText (lc_pron c) MaxPronunciationScalars) (\<lambda>_.
      bind_res (safeProviderText (lc_context c) MaxPronunciationScalars) (\<lambda>_.
      if lc_confidence c < 0 \<or> lc_confidence c > 1000 then Inl ''confidence is outside 0..1000''
      else bind_res (validate_shape input anchors (lc_role c) (lc_tokens c) (lc_spans c)) (\<lambda>(spans, members).
        Inr \<lparr>lr_construction = c, lr_spans = spans, lr_members = members\<rparr>)))))"

fun linguistic_overlap_free :: "linguisticResolvedConstruction list \<Rightarrow> bool" where
  "linguistic_overlap_free [] = True"
| "linguistic_overlap_free (c # cs) \<longleftrightarrow>
     (lc_role (lr_construction c) = contiguous \<and> length (lr_spans c) = 1 \<longrightarrow>
       list_all (\<lambda>d. lc_role (lr_construction d) = contiguous \<and> length (lr_spans d) = 1 \<longrightarrow>
         \<not> spanOverlap (hd (lr_spans c)) (hd (lr_spans d))) cs) \<and> linguistic_overlap_free cs"

text \<open>\<open>strings.Join(parts, "\x00")\<close>, and the key that \<open>constructionSortLess\<close> compares field by field.\<close>

fun join_zero :: "string list \<Rightarrow> string" where
  "join_zero [] = []"
| "join_zero [p] = p"
| "join_zero (p # ps) = p @ CHR 0x00 # join_zero ps"

definition construction_key :: "linguisticResolvedConstruction \<Rightarrow> int \<times> int \<times> string \<times> string \<times> string \<times> string" where
  "construction_key c =
     (tok_index (hd (lr_members c)), tok_index (List.last (lr_members c)), lc_role (lr_construction c),
      lc_kind (lr_construction c), join_zero (lc_tokens (lr_construction c)), join_zero (map sp_text (lr_spans c)))"

definition construction_name :: "int \<Rightarrow> nat \<Rightarrow> string" where
  "construction_name b n = ''b'' @ decimal (nat b) @ '':c'' @ decimal n"

definition number_constructions :: "int \<Rightarrow> linguisticResolvedConstruction list \<Rightarrow> ValidatedLinguisticConstruction list" where
  "number_constructions b cs =
     map (\<lambda>(n, c). \<lparr>vc_id = construction_name b n, vc_construction = lr_construction c, vc_spans = lr_spans c\<rparr>) (enumerate 0 cs)"

definition ValidateLinguistic :: "text_env \<Rightarrow> PreparedChunk \<Rightarrow> LinguisticArtifact \<Rightarrow> sem_error + ValidatedLinguistic" where
  "ValidateLinguistic E chunk artifact =
     (let input = chunkAsPrepared chunk in
      if la_version artifact \<noteq> LinguisticContractVersion then Inl ''unsupported linguistic artifact version''
      else if length (la_tokens artifact) \<noteq> length (pa_tokens input) then Inl ''linguistic token coverage''
      else bind_res (collect_prior (pc_prior chunk) Map.empty) (\<lambda>known.
      bind_res (collect_linguistic E (la_senses artifact) known) (\<lambda>senses.
      bind_res (linguistic_tokens (pa_source_lang input) (pa_target_lang input) (token_map (pa_tokens input))
                  (candidate_map (pa_candidates input)) senses [] (la_tokens artifact)) (\<lambda>_.
      if \<not> list_all (\<lambda>t. tok_id t \<in> set (map lt_token (la_tokens artifact))) (pa_tokens input)
      then Inl ''linguistic token is missing from the artifact''
      else bind_res (validateSourceSentenceAnchors input) (\<lambda>anchors.
      if list_ex (\<lambda>t. sentenceForToken anchors t < 0) (pa_tokens input)
      then Inl ''linguistic token is outside the supplied source sentence anchors''
      else bind_res (map_res (linguistic_construction input anchors senses) (la_constructions artifact)) (\<lambda>cs.
      if \<not> linguistic_overlap_free cs then Inl ''linguistic contiguous constructions overlap''
      else Inr \<lparr>vl_version = LinguisticContractVersion, vl_tokens = la_tokens artifact, vl_senses = la_senses artifact,
                vl_constructions = number_constructions (blk_index (pc_block chunk)) (sort_key construction_key cs)\<rparr>))))))"

section \<open>The translation stage\<close>

definition validateTranslatedSubtitle :: "text_env \<Rightarrow> string \<Rightarrow> string \<Rightarrow> string \<Rightarrow> string \<Rightarrow> sem_error + unit" where
  "validateTranslatedSubtitle E class source shadow translation =
     bind_res (normalized_shadow E shadow) (\<lambda>sh.
       if class = ''unchanged'' then
         (if sh \<noteq> [] \<and> (case NormalizeForm E source of Inl _ \<Rightarrow> False | Inr n \<Rightarrow> sh \<noteq> n)
          then Inl ''an unchanged token shadow_text must be empty or match the source text'' else Inr ())
       else if special_class class then Inr ()
       else if sh = [] then Inl ''shadow_text is required for translated token''
       else if NormalizeForm E source = Inr sh \<and> \<not> sameSpellingSense E translation sh
       then Inl ''shadow_text copies the Dutch source text'' else Inr ())"

definition validateTranslatedSense :: "TranslationNewSense \<Rightarrow> sem_error + unit" where
  "validateTranslatedSense t =
     (if blank (ts_primary t) then Inl ''primary_translation must not be empty''
      else bind_res (safeProviderText (ts_primary t) MaxNoteScalars) (\<lambda>_.
      bind_res (safeProviderText (ts_literal t) MaxNoteScalars) (\<lambda>_.
      if length (ts_alternatives t) > MaxAlternatives then Inl ''too many alternatives''
      else check_alternatives [] (ts_alternatives t))))"

definition translation_of_sense ::
  "PreparedChunk \<Rightarrow> TranslationArtifact \<Rightarrow> string \<Rightarrow> string \<Rightarrow> string" where
  "translation_of_sense chunk artifact sid ref =
     (if sid \<noteq> [] then (case candidate_map (pc_candidates chunk) sid of None \<Rightarrow> [] | Some c \<Rightarrow> cd_primary c)
      else case last_by ts_ref (ta_senses artifact) ref of
          Some t \<Rightarrow> ts_primary t
        | None \<Rightarrow> (case last_by ns_ref (filter (\<lambda>s. ns_ref s \<noteq> []) (pc_prior chunk)) ref of
             Some s \<Rightarrow> ns_primary s | None \<Rightarrow> []))"

definition canonical_of_sense :: "PreparedChunk \<Rightarrow> ValidatedLinguistic \<Rightarrow> string \<Rightarrow> string \<Rightarrow> string" where
  "canonical_of_sense chunk l sid ref =
     (case (if sid \<noteq> [] then candidate_map (pc_candidates chunk) sid else None) of
        Some c \<Rightarrow> cd_canonical c
      | None \<Rightarrow>
          if ref = [] then []
          else (case last_by ls_ref (vl_senses l) ref of
             Some s \<Rightarrow> ls_canonical s
           | None \<Rightarrow> (case last_by ns_ref (filter (\<lambda>s. ns_ref s \<noteq> []) (pc_prior chunk)) ref of
                Some s \<Rightarrow> ns_canonical s | None \<Rightarrow> [])))"

definition source_of :: "PreparedChunk \<Rightarrow> string \<Rightarrow> string" where
  "source_of chunk tid = (case token_map (pc_tokens chunk) tid of None \<Rightarrow> [] | Some t \<Rightarrow> tok_text t)"

fun translated_tokens ::
  "text_env \<Rightarrow> PreparedChunk \<Rightarrow> ValidatedLinguistic \<Rightarrow> TranslationArtifact \<Rightarrow> string list
   \<Rightarrow> TranslationTokenResult list \<Rightarrow> sem_error + unit" where
  "translated_tokens E chunk l artifact seen [] = Inr ()"
| "translated_tokens E chunk l artifact seen (r # rs) =
     (if tt_token r \<in> set seen then Inl ''translation repeats token''
      else case last_by lt_token (vl_tokens l) (tt_token r) of
        None \<Rightarrow> Inl ''translation references unknown token''
      | Some t \<Rightarrow>
          bind_res (safeProviderText (tt_shadow r) MaxShadowScalars) (\<lambda>_.
          bind_res (validateTranslatedSubtitle E (lt_class t) (source_of chunk (tt_token r)) (tt_shadow r)
                      (translation_of_sense chunk artifact (lt_sense t) (lt_new t))) (\<lambda>_.
          translated_tokens E chunk l artifact (tt_token r # seen) rs)))"

fun translated_senses :: "ValidatedLinguistic \<Rightarrow> string list \<Rightarrow> TranslationNewSense list \<Rightarrow> sem_error + unit" where
  "translated_senses l seen [] = Inr ()"
| "translated_senses l seen (t # ts) =
     (if ts_ref t \<in> set seen then Inl ''translation repeats ref''
      else if ts_ref t \<notin> set (map ls_ref (vl_senses l)) then Inl ''translation references unknown ref''
      else bind_res (validateTranslatedSense t) (\<lambda>_. translated_senses l (ts_ref t # seen) ts))"

fun translated_constructions ::
  "text_env \<Rightarrow> PreparedChunk \<Rightarrow> ValidatedLinguistic \<Rightarrow> string list \<Rightarrow> TranslationConstruction list \<Rightarrow> sem_error + unit" where
  "translated_constructions E chunk l seen [] = Inr ()"
| "translated_constructions E chunk l seen (t # ts) =
     (if tc_id t \<in> set seen then Inl ''translation repeats construction_id''
      else case find (\<lambda>c. vc_id c = tc_id t) (vl_constructions l) of
        None \<Rightarrow> Inl ''translation references unknown construction_id''
      | Some c \<Rightarrow>
          if blank (tc_shadow t) then Inl ''translation construction has a blank shadow_text''
          else bind_res (safeProviderText (tc_shadow t) MaxShadowScalars) (\<lambda>_.
            bind_res (validateConstructionSubtitle E (tc_shadow t)
                ([canonical_of_sense chunk l (lc_sense (vc_construction c)) (lc_new (vc_construction c)),
                  join_spaces (map (source_of chunk) (lc_tokens (vc_construction c)))] @ map sp_text (vc_spans c))) (\<lambda>_.
              translated_constructions E chunk l (tc_id t # seen) ts)))"

definition ValidateTranslation ::
  "text_env \<Rightarrow> PreparedChunk \<Rightarrow> ValidatedLinguistic option \<Rightarrow> TranslationArtifact \<Rightarrow> sem_error + unit" where
  "ValidateTranslation E chunk linguistic artifact =
     (if ta_version artifact \<noteq> TranslationContractVersion then Inl ''unsupported translation artifact version''
      else case linguistic of
        None \<Rightarrow> Inl ''translation requires a validated linguistic artifact''
      | Some l \<Rightarrow>
          if vl_tokens l = [] then Inl ''translation requires a validated linguistic artifact''
          else if length (ta_tokens artifact) \<noteq> length (vl_tokens l) then Inl ''translation token coverage''
          else bind_res (translated_tokens E chunk l artifact [] (ta_tokens artifact)) (\<lambda>_.
          if \<not> list_all (\<lambda>t. lt_token t \<in> set (map tt_token (ta_tokens artifact))) (vl_tokens l) then Inl ''translation omits token''
          else if length (ta_senses artifact) \<noteq> length (vl_senses l) then Inl ''translation new sense coverage''
          else bind_res (translated_senses l [] (ta_senses artifact)) (\<lambda>_.
          if \<not> list_all (\<lambda>s. ls_ref s \<in> set (map ts_ref (ta_senses artifact))) (vl_senses l) then Inl ''translation omits new sense ref''
          else if length (ta_constructions artifact) \<noteq> length (vl_constructions l) then Inl ''translation construction coverage''
          else bind_res (translated_constructions E chunk l [] (ta_constructions artifact)) (\<lambda>_.
          if \<not> list_all (\<lambda>c. vc_id c \<in> set (map tc_id (ta_constructions artifact))) (vl_constructions l)
          then Inl ''translation omits construction'' else Inr ()))))"

section \<open>The merge\<close>

definition merge_token :: "TranslationArtifact \<Rightarrow> LinguisticTokenResult \<Rightarrow> sem_error + TokenResult" where
  "merge_token artifact t =
     (case last_by tt_token (ta_tokens artifact) (lt_token t) of
        None \<Rightarrow> Inl ''merge: translation omits token''
      | Some r \<Rightarrow> Inr \<lparr>tr_token = lt_token t, tr_class = lt_class t, tr_kind = lt_kind t, tr_sense = lt_sense t,
          tr_new = lt_new t, tr_shadow = tt_shadow r, tr_pron = lt_pron t, tr_context = lt_context t,
          tr_confidence = lt_confidence t\<rparr>)"

definition merge_sense :: "TranslationArtifact \<Rightarrow> LinguisticNewSense \<Rightarrow> sem_error + NewSense" where
  "merge_sense artifact s =
     (case last_by ts_ref (ta_senses artifact) (ls_ref s) of
        None \<Rightarrow> Inl ''merge: translation omits new sense ref''
      | Some t \<Rightarrow> Inr \<lparr>ns_ref = ls_ref s, ns_kind = ls_kind s, ns_canonical = ls_canonical s, ns_form = ls_form s,
          ns_lemma = ls_lemma s, ns_pos = ls_pos s, ns_discriminator = ls_discriminator s, ns_primary = ts_primary t,
          ns_alternatives = ts_alternatives t, ns_literal = ts_literal t, ns_meaning = ls_meaning s,
          ns_usage = ls_usage s, ns_parts = ls_parts s, ns_pron = ls_pron s\<rparr>)"

definition merge_construction :: "TranslationArtifact \<Rightarrow> ValidatedLinguisticConstruction \<Rightarrow> sem_error + Construction" where
  "merge_construction artifact c =
     (case last_by tc_id (ta_constructions artifact) (vc_id c) of
        None \<Rightarrow> Inl ''merge: translation omits construction''
      | Some t \<Rightarrow> (let k = vc_construction c in
          Inr \<lparr>cn_kind = lc_kind k, cn_role = lc_role k, cn_sense = lc_sense k, cn_new = lc_new k,
            cn_shadow = tc_shadow t, cn_pron = lc_pron k, cn_context = lc_context k, cn_confidence = lc_confidence k,
            cn_tokens = lc_tokens k, cn_spans = lc_spans k\<rparr>))"

definition MergeLinguisticTranslation ::
  "ValidatedLinguistic option \<Rightarrow> TranslationArtifact \<Rightarrow> sem_error + Response" where
  "MergeLinguisticTranslation linguistic artifact =
     (case linguistic of
        None \<Rightarrow> Inl ''merge requires a validated linguistic artifact''
      | Some l \<Rightarrow>
          bind_res (map_res (merge_token artifact) (vl_tokens l)) (\<lambda>ts.
          bind_res (map_res (merge_sense artifact) (vl_senses l)) (\<lambda>ss.
          bind_res (map_res (merge_construction artifact) (vl_constructions l)) (\<lambda>cs.
            Inr \<lparr>rs_version = AnalysisContractVersion, rs_tokens = ts, rs_senses = ss, rs_constructions = cs\<rparr>))))"

end
