(* ===== verification/Semantics_Facts.thy ===== *)
theory Semantics_Facts
  imports Semantics_Stages
begin

text \<open>
  What the loops of the semantic validators accept, each as one equivalence: the facts that the properties
  of theories Semantics_Sound and Semantics_Compose share.
\<close>

section \<open>Lookups\<close>

lemma last_by_SomeD: "last_by key xs k = Some x \<Longrightarrow> x \<in> set xs \<and> key x = k"
  by (auto simp: last_by_def dest!: map_of_SomeD)

lemma last_by_None: "last_by key xs k = None \<longleftrightarrow> k \<notin> key ` set xs"
  by (force simp: last_by_def map_of_eq_None_iff image_iff)

lemma last_by_distinct:
  assumes "distinct (map key xs)" and "x \<in> set xs"
  shows "last_by key xs (key x) = Some x"
proof -
  have "distinct (map fst (rev (map (\<lambda>x. (key x, x)) xs)))"
    using assms(1) by (simp add: rev_map[symmetric] comp_def)
  with assms(2) show ?thesis by (simp add: last_by_def)
qed

lemma last_by_mem: "k \<in> key ` set xs \<Longrightarrow> \<exists>x \<in> set xs. last_by key xs k = Some x \<and> key x = k"
  using last_by_None[of key xs k] last_by_SomeD[of key xs k] by (cases "last_by key xs k") auto

lemma map_res_total: "(\<And>x. x \<in> set xs \<Longrightarrow> f x = Inr (g x)) \<Longrightarrow> map_res f xs = Inr (map g xs)"
  by (induction xs) simp_all

lemma map_res_all: "map_res f xs = Inr ys \<Longrightarrow> x \<in> set xs \<Longrightarrow> \<exists>y \<in> set ys. f x = Inr y"
  by (induction xs arbitrary: ys) (auto simp: bind_res_Inr_conv)

section \<open>References\<close>

lemma fill_refs_Inr:
  "fill_refs ref valid entry ss m = Inr m' \<longleftrightarrow>
     (\<forall>s \<in> set ss. ref s \<noteq> [] \<and> safeProviderText (ref s) 120 = Inr () \<and> m (ref s) = None \<and> valid s = Inr ()) \<and>
     distinct (map ref ss) \<and> m' = m ++ map_of (map (\<lambda>s. (ref s, entry s)) ss)"
proof (induction ss arbitrary: m)
  case Nil
  then show ?case by auto
next
  case (Cons s ss)
  show ?case
  proof (cases "ref s \<in> ref ` set ss")
    case True
    then obtain s' where s': "s' \<in> set ss" "ref s' = ref s" by auto
    have "fill_refs ref valid entry ss (m(ref s \<mapsto> entry s)) \<noteq> Inr m'"
    proof
      assume "fill_refs ref valid entry ss (m(ref s \<mapsto> entry s)) = Inr m'"
      then have "\<forall>s' \<in> set ss. (m(ref s \<mapsto> entry s)) (ref s') = None"
        using Cons[of "m(ref s \<mapsto> entry s)"] by metis
      with s' show False by auto
    qed
    with True show ?thesis by (simp add: bind_res_Inr_conv)
  next
    case False
    define M where "M = map_of (map (\<lambda>s. (ref s, entry s)) (s # ss))"
    have "map_of (map (\<lambda>s. (ref s, entry s)) ss) (ref s) = None" using False by (auto simp: map_of_eq_None_iff)
    then have "m(ref s \<mapsto> entry s) ++ map_of (map (\<lambda>s. (ref s, entry s)) ss) =
        m ++ M"
      by (auto simp: M_def fun_eq_iff map_add_def split: option.splits)
    moreover have "(m(ref s \<mapsto> entry s)) (ref s') = m (ref s')" if "s' \<in> set ss" for s'
      using that False by (metis fun_upd_other image_eqI)
    ultimately have "fill_refs ref valid entry ss (m(ref s \<mapsto> entry s)) = Inr m' \<longleftrightarrow>
       (\<forall>s \<in> set ss. ref s \<noteq> [] \<and> safeProviderText (ref s) 120 = Inr () \<and> m (ref s) = None \<and> valid s = Inr ()) \<and>
       distinct (map ref ss) \<and> m' = m ++ M"
      unfolding Cons by (metis (no_types, lifting))
    with False show ?thesis unfolding M_def[symmetric] by (auto simp: bind_res_Inr_conv)
  qed
qed

section \<open>Tokens\<close>

lemma validate_tokens_Inr:
  "validate_tokens E source target tokens candidates senses seen rs = Inr out \<longleftrightarrow>
     distinct (map tr_token rs) \<and> set (map tr_token rs) \<inter> set seen = {} \<and>
     (\<forall>r \<in> set rs. \<exists>t. tokens (tr_token r) = Some t \<and>
        validateTokenResult E r t source target candidates senses = Inr ()) \<and>
     out = map (\<lambda>r. \<lparr>rt_token = the (tokens (tr_token r)), rt_result = r\<rparr>) rs"
proof (induction rs arbitrary: seen out)
  case Nil
  then show ?case by auto
next
  case (Cons r rs)
  show ?case
  proof (cases "tokens (tr_token r)")
    case None
    then show ?thesis by simp
  next
    case (Some t)
    then show ?thesis by (auto simp: bind_res_Inr_conv Cons)
  qed
qed

lemma linguistic_tokens_Inr:
  "linguistic_tokens source target tokens candidates senses seen rs = Inr () \<longleftrightarrow>
     distinct (map lt_token rs) \<and> set (map lt_token rs) \<inter> set seen = {} \<and>
     (\<forall>r \<in> set rs. tokens (lt_token r) \<noteq> None \<and>
        validateLinguisticTokenResult r source target candidates senses = Inr ())"
  by (induction rs arbitrary: seen) (auto simp: bind_res_Inr_conv)

lemma translated_tokens_Inr:
  "translated_tokens E chunk l artifact seen rs = Inr () \<longleftrightarrow>
     distinct (map tt_token rs) \<and> set (map tt_token rs) \<inter> set seen = {} \<and>
     (\<forall>r \<in> set rs. \<exists>t. last_by lt_token (vl_tokens l) (tt_token r) = Some t \<and>
        safeProviderText (tt_shadow r) MaxShadowScalars = Inr () \<and>
        validateTranslatedSubtitle E (lt_class t) (source_of chunk (tt_token r)) (tt_shadow r)
          (translation_of_sense chunk artifact (lt_sense t) (lt_new t)) = Inr ())"
proof (induction rs arbitrary: seen)
  case Nil
  then show ?case by simp
next
  case (Cons r rs)
  show ?case
  proof (cases "last_by lt_token (vl_tokens l) (tt_token r)")
    case None
    then show ?thesis by simp
  next
    case (Some t)
    then show ?thesis by (auto simp: bind_res_Inr_conv Cons)
  qed
qed

lemma translated_senses_Inr:
  "translated_senses l seen ts = Inr () \<longleftrightarrow>
     distinct (map ts_ref ts) \<and> set (map ts_ref ts) \<inter> set seen = {} \<and>
     (\<forall>t \<in> set ts. ts_ref t \<in> ls_ref ` set (vl_senses l) \<and> validateTranslatedSense t = Inr ())"
  by (induction ts arbitrary: seen) (auto simp: bind_res_Inr_conv)

lemma translated_constructions_Inr:
  "translated_constructions E chunk l seen ts = Inr () \<longleftrightarrow>
     distinct (map tc_id ts) \<and> set (map tc_id ts) \<inter> set seen = {} \<and>
     (\<forall>t \<in> set ts. \<exists>c. find (\<lambda>c. vc_id c = tc_id t) (vl_constructions l) = Some c \<and>
        \<not> blank (tc_shadow t) \<and> safeProviderText (tc_shadow t) MaxShadowScalars = Inr () \<and>
        validateConstructionSubtitle E (tc_shadow t)
          ([canonical_of_sense chunk l (lc_sense (vc_construction c)) (lc_new (vc_construction c)),
            join_spaces (map (source_of chunk) (lc_tokens (vc_construction c)))] @ map sp_text (vc_spans c)) = Inr ())"
proof (induction ts arbitrary: seen)
  case Nil
  then show ?case by simp
next
  case (Cons t ts)
  show ?case
  proof (cases "find (\<lambda>c. vc_id c = tc_id t) (vl_constructions l)")
    case None
    then show ?thesis by simp
  next
    case (Some c)
    then show ?thesis by (auto simp: bind_res_Inr_conv Cons)
  qed
qed

section \<open>Subtitles\<close>

lemma validateConstructionSubtitle_Inr:
  "validateConstructionSubtitle E shadow forbids = Inr () \<longleftrightarrow>
     (\<exists>sh. NormalizeForm E shadow = Inr sh \<and> (sh \<noteq> [] \<longrightarrow> (\<forall>f \<in> set forbids. NormalizeForm E f \<noteq> Inr sh)))"
  by (auto simp: validateConstructionSubtitle_def bind_res_Inr_conv list_ex_iff split: sum.splits)

end
