(* ===== verification/Semantics_Identity.thy ===== *)
theory Semantics_Identity
  imports Semantics_Facts
begin

text \<open>
  The content identity of internal/semantics/types.go read back, and the renaming of new senses by
  \<open>NamespaceChunkResponse\<close> of internal/semantics/chunks.go.
\<close>

section \<open>Reading back\<close>

text \<open>The reader of a length-prefixed value, of an index, and of a whole encoding of an article.\<close>

definition read_part :: "string \<Rightarrow> (string \<times> string) option" where
  "read_part s =
     (let n = big_endian_value (take 8 s); t = drop 8 s in
      if length s < 8 \<or> length t < n then None else Some (take n t, drop n t))"

definition read_index :: "string \<Rightarrow> (int \<times> string) option" where
  "read_index s =
     (if length s < 8 then None
      else let n = int (big_endian_value (take 8 s)) in Some (if n < 2 ^ 63 then n else n - 2 ^ 64, drop 8 s))"

fun read_blocks :: "nat \<Rightarrow> string \<Rightarrow> Block list option" where
  "read_blocks fuel [] = Some []"
| "read_blocks 0 s = None"
| "read_blocks (Suc fuel) s =
     (case read_index s of None \<Rightarrow> None
      | Some (i, t) \<Rightarrow> (case read_part t of None \<Rightarrow> None
          | Some (x, u) \<Rightarrow> map_option ((#) \<lparr>blk_index = i, blk_text = x\<rparr>) (read_blocks fuel u)))"

definition read_content :: "string \<Rightarrow> (string \<times> string \<times> string \<times> Block list) option" where
  "read_content s =
     (case read_part s of None \<Rightarrow> None | Some (version, s1) \<Rightarrow>
       if version \<noteq> ''doublangu.article-content.v1'' then None else
       case read_part s1 of None \<Rightarrow> None | Some (ttl, s2) \<Rightarrow>
       case read_part s2 of None \<Rightarrow> None | Some (source, s3) \<Rightarrow>
       case read_part s3 of None \<Rightarrow> None | Some (target, s4) \<Rightarrow>
       map_option (\<lambda>bs. (ttl, source, target, bs)) (read_blocks (length s4) s4))"

lemma read_part_writePart: "length x < 2 ^ 64 \<Longrightarrow> read_part (writePart x @ s) = Some (x, s)"
  by (simp add: read_part_def writePart_def put_uint64_value Let_def)

lemma read_index_put_int: "- (2 ^ 63) \<le> i \<Longrightarrow> i < 2 ^ 63 \<Longrightarrow> read_index (put_int i @ s) = Some (i, s)"
proof -
  assume i: "- (2 ^ 63) \<le> i" "i < 2 ^ 63"
  have "nat (i mod 2 ^ 64) < 2 ^ 64" by (simp add: nat_less_iff)
  then have "big_endian_value (put_uint64 (nat (i mod 2 ^ 64))) = nat (i mod 2 ^ 64)" by (rule put_uint64_value)
  moreover have "i mod 2 ^ 64 = (if 0 \<le> i then i else i + 2 ^ 64)"
    using i by (auto intro: mod_pos_pos_trivial simp: mod_pos_pos_trivial[of "i + 2 ^ 64" "2 ^ 64", simplified])
  ultimately show ?thesis using i by (auto simp: read_index_def put_int_def Let_def)
qed

definition block_fits :: "Block \<Rightarrow> bool" where
  "block_fits b \<longleftrightarrow> - (2 ^ 63) \<le> blk_index b \<and> blk_index b < 2 ^ 63 \<and> length (blk_text b) < 2 ^ 64"

lemma read_blocks_step:
  "read_blocks (Suc f) (put_int i @ s) =
     (case read_index (put_int i @ s) of None \<Rightarrow> None
      | Some (i, t) \<Rightarrow> (case read_part t of None \<Rightarrow> None
          | Some (x, u) \<Rightarrow> map_option ((#) \<lparr>blk_index = i, blk_text = x\<rparr>) (read_blocks f u)))"
proof -
  have "length (put_int i) = 8" by (simp add: put_int_def)
  then obtain c t where "put_int i @ s = c # t" by (cases "put_int i @ s") auto
  then show ?thesis by (simp only: read_blocks.simps)
qed

lemma read_blocks_back:
  "\<forall>b \<in> set bs. block_fits b \<Longrightarrow> length bs \<le> fuel \<Longrightarrow>
   read_blocks fuel (concat (map (\<lambda>b. put_int (blk_index b) @ writePart (blk_text b)) bs)) = Some bs"
proof (induction bs arbitrary: fuel)
  case Nil
  then show ?case by simp
next
  case (Cons b bs)
  then obtain f where "fuel = Suc f" by (cases fuel) auto
  with Cons show ?case by (simp add: read_blocks_step block_fits_def read_index_put_int read_part_writePart)
qed

lemma content_length: "length bs \<le> length (concat (map (\<lambda>b. put_int (blk_index b) @ writePart (blk_text b)) bs))"
  by (induction bs) (auto simp: put_int_def)

text \<open>The content identity encodes the article without loss.  From the bytes that are hashed, the title, the two
  languages and the blocks with their indexes can be read back, so two articles with the same bytes are the same,
  for all lengths and indexes that fit the eight bytes Go writes.\<close>
theorem content_bytes_roundtrip:
  assumes "length ttl < 2 ^ 64" and "length source < 2 ^ 64" and "length target < 2 ^ 64" and "\<forall>b \<in> set bs. block_fits b"
  shows "read_content (content_bytes ttl source target bs) = Some (ttl, source, target, bs)"
  using assms read_blocks_back[OF assms(4) content_length]
  by (simp add: read_content_def content_bytes_def read_part_writePart)

theorem content_bytes_roundtrip_witness:
  "read_content (content_bytes ''T'' ''nl'' ''en'' [\<lparr>blk_index = - 1, blk_text = ''Ja''\<rparr>]) =
     Some (''T'', ''nl'', ''en'', [\<lparr>blk_index = - 1, blk_text = ''Ja''\<rparr>])"
  by (rule content_bytes_roundtrip) (simp_all add: block_fits_def)

text \<open>The carried senses, in contrast, are not delimited: the number of alternatives of a sense is not written.\<close>

definition empty_sense :: "nat \<Rightarrow> NewSense" where
  "empty_sense n = \<lparr>ns_ref = [], ns_kind = [], ns_canonical = [], ns_form = [], ns_lemma = [], ns_pos = [], ns_discriminator = [],
     ns_primary = [], ns_alternatives = replicate n [], ns_literal = [], ns_meaning = [], ns_usage = [], ns_parts = [], ns_pron = []\<rparr>"

lemma carry_bytes_ambiguous:
  "carry_bytes [empty_sense 3, empty_sense 0] = carry_bytes [empty_sense 0, empty_sense 3] \<and>
   [empty_sense 3, empty_sense 0] \<noteq> [empty_sense 0, empty_sense 3]"
  by (simp add: carry_bytes_def writeSenseHash_def empty_sense_def numeral_3_eq_3)

section \<open>Namespaces\<close>

lemma namespaced_inj [simp]: "namespaced i r = namespaced i r' \<longleftrightarrow> r = r'"
  by (simp add: namespaced_def)

lemma namespace_senses_Inr:
  "namespace_senses i P rw ss = Inr (rw', ss') \<Longrightarrow>
     ss' = map (\<lambda>s. s\<lparr>ns_ref := namespaced i (ns_ref s)\<rparr>) ss \<and>
     rw' = rev (map (\<lambda>s. (ns_ref s, namespaced i (ns_ref s))) ss) @ rw \<and>
     (\<forall>s \<in> set ss. ns_ref s \<notin> P \<and> ns_ref s \<noteq> [] \<and> namespaced i (ns_ref s) \<notin> P \<and>
        length (runes (namespaced i (ns_ref s))) \<le> 120 \<and> namespaced i (ns_ref s) \<notin> snd ` set rw) \<and>
     distinct (map ns_ref ss)"
proof (induction ss arbitrary: rw rw' ss')
  case Nil
  then show ?case by simp
next
  case (Cons s ss)
  then obtain rest where r: "namespace_senses i P ((ns_ref s, namespaced i (ns_ref s)) # rw) ss = Inr (rw', rest)"
    and here: "ns_ref s \<notin> P" "ns_ref s \<noteq> []" "namespaced i (ns_ref s) \<notin> P" "length (runes (namespaced i (ns_ref s))) \<le> 120"
      "namespaced i (ns_ref s) \<notin> snd ` set rw"
    and ss': "ss' = s\<lparr>ns_ref := namespaced i (ns_ref s)\<rparr> # rest"
    by (auto simp: Let_def bind_res_Inr_conv not_less split: if_splits prod.splits)
  from Cons.IH[OF r] here ss' show ?case by auto
qed

text \<open>The new name of a reference.\<close>

definition renamed :: "int \<Rightarrow> NewSense list \<Rightarrow> string \<Rightarrow> string" where
  "renamed i senses r = (if r \<in> ns_ref ` set senses then namespaced i r else r)"

lemma map_of_rev_pairs: "map_of (rev (map (\<lambda>s. (f s, g (f s))) ss)) r = (if r \<in> f ` set ss then Some (g r) else None)"
  by (induction ss) (auto simp: map_add_def split: option.splits if_splits)

lemma last_by_append: "last_by key (xs @ ys) = last_by key xs ++ last_by key ys"
  by (simp add: last_by_def)

lemma last_by_renamed:
  "last_by ns_ref (map (\<lambda>s. s\<lparr>ns_ref := namespaced i (ns_ref s)\<rparr>) ss) (namespaced i r) =
     map_option (\<lambda>s. s\<lparr>ns_ref := namespaced i r\<rparr>) (last_by ns_ref ss r)"
  by (induction ss) (auto simp: last_by_def map_add_def split: option.splits)

lemma NamespaceChunkResponse_resolves_all:
  assumes "NamespaceChunkResponse i response prior = Inr n"
  shows "rs_senses n = map (\<lambda>s. s\<lparr>ns_ref := namespaced i (ns_ref s)\<rparr>) (rs_senses response)"
    and "distinct (map ns_ref (rs_senses n))" and "ns_ref ` set (rs_senses n) \<inter> ns_ref ` set prior = {}"
    and "rs_tokens n = map (\<lambda>t. t\<lparr>tr_new := renamed i (rs_senses response) (tr_new t)\<rparr>) (rs_tokens response)"
    and "rs_constructions n = map (\<lambda>c. c\<lparr>cn_new := renamed i (rs_senses response) (cn_new c)\<rparr>) (rs_constructions response)"
    and "last_by ns_ref (prior @ rs_senses response) r = Some s \<Longrightarrow>
      last_by ns_ref (prior @ rs_senses n) (renamed i (rs_senses response) r) = Some (s\<lparr>ns_ref := renamed i (rs_senses response) r\<rparr>)"
proof -
  let ?new = "\<lambda>s. s\<lparr>ns_ref := namespaced i (ns_ref s)\<rparr>"
  from assms obtain rw senses where
    loop: "namespace_senses i (ns_ref ` set prior) [] (rs_senses response) = Inr (rw, senses)"
    and n: "n = response\<lparr>rs_senses := senses,
          rs_tokens := map (\<lambda>t. t\<lparr>tr_new := rewriteRef rw (tr_new t)\<rparr>) (rs_tokens response),
          rs_constructions := map (\<lambda>c. c\<lparr>cn_new := rewriteRef rw (cn_new c)\<rparr>) (rs_constructions response)\<rparr>"
    by (auto simp: NamespaceChunkResponse_def bind_res_Inr_conv split: if_splits)
  note l = namespace_senses_Inr[OF loop]
  have senses: "senses = map ?new (rs_senses response)" using l by blast
  have rw: "rewriteRef rw = renamed i (rs_senses response)"
    using l by (auto simp: rewriteRef_def renamed_def fun_eq_iff map_of_rev_pairs)
  show s: "rs_senses n = map ?new (rs_senses response)" by (simp add: n senses)
  have refs: "map ns_ref (map ?new ss) = map (namespaced i) (map ns_ref ss)" for ss :: "NewSense list" by simp
  show "distinct (map ns_ref (rs_senses n))"
    unfolding s refs using l by (simp add: distinct_map inj_on_def)
  show dis: "ns_ref ` set (rs_senses n) \<inter> ns_ref ` set prior = {}" using l by (auto simp: s)
  show "rs_tokens n = map (\<lambda>t. t\<lparr>tr_new := renamed i (rs_senses response) (tr_new t)\<rparr>) (rs_tokens response)"
    "rs_constructions n = map (\<lambda>c. c\<lparr>cn_new := renamed i (rs_senses response) (cn_new c)\<rparr>) (rs_constructions response)"
    by (simp_all add: n rw)
  assume r: "last_by ns_ref (prior @ rs_senses response) r = Some s"
  show "last_by ns_ref (prior @ rs_senses n) (renamed i (rs_senses response) r) = Some (s\<lparr>ns_ref := renamed i (rs_senses response) r\<rparr>)"
  proof (cases "r \<in> ns_ref ` set (rs_senses response)")
    case True
    then obtain s' where s': "last_by ns_ref (rs_senses response) r = Some s'"
      using last_by_None[of ns_ref "rs_senses response" r] by auto
    then have "s' = s" using r by (simp add: last_by_append)
    then show ?thesis using s' True unfolding s by (simp add: last_by_append renamed_def last_by_renamed)
  next
    case False
    then have none: "last_by ns_ref (rs_senses response) r = None" by (simp add: last_by_None)
    with r have p: "last_by ns_ref prior r = Some s" by (simp add: last_by_append map_add_def)
    then have sr: "s \<in> set prior" "ns_ref s = r" using last_by_SomeD by fastforce+
    then have "last_by ns_ref (rs_senses n) r = None" using dis by (auto simp: last_by_None)
    then show ?thesis using p False sr(2) by (simp add: last_by_append map_add_def renamed_def)
  qed
qed

text \<open>Namespacing renames without capture.  A response that the function accepts keeps its senses and results up to
  the names; the new names are pairwise different and different from those of the earlier paragraphs; and a
  reference that denoted a sense of this response or of an earlier paragraph denotes the same sense afterwards.\<close>
theorem NamespaceChunkResponse_resolves:
  assumes "NamespaceChunkResponse i response prior = Inr n"
  shows "rs_senses n = map (\<lambda>s. s\<lparr>ns_ref := namespaced i (ns_ref s)\<rparr>) (rs_senses response) \<and>
    distinct (map ns_ref (rs_senses n)) \<and> ns_ref ` set (rs_senses n) \<inter> ns_ref ` set prior = {} \<and>
    rs_tokens n = map (\<lambda>t. t\<lparr>tr_new := renamed i (rs_senses response) (tr_new t)\<rparr>) (rs_tokens response) \<and>
    rs_constructions n = map (\<lambda>c. c\<lparr>cn_new := renamed i (rs_senses response) (cn_new c)\<rparr>) (rs_constructions response) \<and>
    (\<forall>r s. last_by ns_ref (prior @ rs_senses response) r = Some s \<longrightarrow>
      last_by ns_ref (prior @ rs_senses n) (renamed i (rs_senses response) r) = Some (s\<lparr>ns_ref := renamed i (rs_senses response) r\<rparr>))"
  by (intro conjI allI impI NamespaceChunkResponse_resolves_all[OF assms])

theorem NamespaceChunkResponse_resolves_witness:
  "\<exists>n. NamespaceChunkResponse 0 \<lparr>rs_version = [], rs_tokens = [], rs_senses = [empty_sense 0\<lparr>ns_ref := ''r''\<rparr>], rs_constructions = []\<rparr> [] =
      Inr n \<and> last_by ns_ref (rs_senses n) (namespaced 0 ''r'') = Some (empty_sense 0\<lparr>ns_ref := namespaced 0 ''r''\<rparr>)"
proof -
  let ?r = "\<lparr>rs_version = [], rs_tokens = [], rs_senses = [empty_sense 0\<lparr>ns_ref := ''r''\<rparr>], rs_constructions = []\<rparr>"
  have "length (runes (namespaced 0 ''r'')) \<le> 120"
  proof -
    have "\<forall>c \<in> set (namespaced 0 ''r''). byte c < 0x80"
      by (simp add: namespaced_def decimal.simps byte_digit) (simp add: byte_def)
    then show ?thesis by (simp add: ascii_runes) (simp add: namespaced_def decimal.simps)
  qed
  then have "\<exists>n. NamespaceChunkResponse 0 ?r [] = Inr n" by (simp add: NamespaceChunkResponse_def Let_def)
  then obtain n where n: "NamespaceChunkResponse 0 ?r [] = Inr n" ..
  have "last_by ns_ref ([] @ rs_senses ?r) ''r'' = Some (empty_sense 0\<lparr>ns_ref := ''r''\<rparr>)" by (simp add: last_by_def)
  from NamespaceChunkResponse_resolves[OF n, THEN conjunct2, THEN conjunct2, THEN conjunct2, THEN conjunct2, THEN conjunct2] this n
  show ?thesis by (fastforce simp: renamed_def)
qed
end
