(* ===== verification/Speech_Types.thy ===== *)
theory Speech_Types
  imports Semantics_Identity Reader_Article Jobs
begin

text \<open>
  Speech units, profiles and artifacts, internal/speech/types.go: their validation and the request hash, and the payload
  of a speech job (internal/speech/store.go).  SHA-256 (\<open>sp_sha\<close>), NFC normalization (\<open>nfc\<close>) and \<open>strings.ToLower\<close>
  with its Unicode tables (\<open>lower\<close>) are parameters.
\<close>

record speech_env =
  sp_sha :: "string \<Rightarrow> string"
  nfc :: "string \<Rightarrow> string"
  lower :: "string \<Rightarrow> string"

definition Speech_Protocol :: string where "Speech_Protocol = ''speech-worker.v1''"
definition AVSpeechEngine :: string where "AVSpeechEngine = ''avspeech''"
definition ChatterboxEngine :: string where "ChatterboxEngine = ''chatterbox''"
definition UnitWord :: string where "UnitWord = ''word''"
definition UnitPhrase :: string where "UnitPhrase = ''phrase''"
definition UnitSentence :: string where "UnitSentence = ''sentence''"
definition AudioMIME :: string where "AudioMIME = ''audio/mp4''"
definition AudioCodec :: string where "AudioCodec = ''aac-lc''"
definition AudioSampleRate :: int where "AudioSampleRate = 24000"
definition AudioChannels :: int where "AudioChannels = 1"
definition AudioNormalizationVersion :: string where "AudioNormalizationVersion = ''audio-normalization.v1''"

record speech_unit =
  un_id :: string
  un_language :: string
  un_kind :: string
  un_text :: string
  un_text_hash :: string
  un_context :: string
  un_sense :: "string option"
  un_created :: string

record speech_profile =
  pf_id :: string
  pf_engine :: string
  pf_model :: string
  pf_language :: string
  pf_voice :: string
  pf_reference :: string
  pf_speed :: int
  pf_pitch :: int
  pf_mapping :: string
  pf_mime :: string
  pf_codec :: string
  pf_rate :: int
  pf_channels :: int
  pf_active :: bool
  pf_created :: string
  pf_updated :: string

record artifact_metadata =
  am_request :: string
  am_sha :: string
  am_size :: int
  am_mime :: string
  am_codec :: string
  am_rate :: int
  am_channels :: int
  am_duration :: int

record audio_limits =
  al_bytes :: int
  al_duration :: int

type_synonym speech_error = string

definition Limits :: "string \<Rightarrow> audio_limits" where
  "Limits kind =
     (if kind = UnitSentence then \<lparr>al_bytes = 64 * 2 ^ 20, al_duration = 180000\<rparr>
      else if kind = UnitPhrase then \<lparr>al_bytes = 2 * 2 ^ 20, al_duration = 30000\<rparr>
      else \<lparr>al_bytes = 2 * 2 ^ 20, al_duration = 15000\<rparr>)"

definition ValidateProfile :: "speech_profile \<Rightarrow> speech_error + unit" where
  "ValidateProfile p =
     (if pf_engine p \<noteq> AVSpeechEngine \<and> pf_engine p \<noteq> ChatterboxEngine then Inl ''unsupported speech engine''
      else if pf_language p = [] \<or> pf_model p = [] \<or> pf_voice p = [] \<or> pf_mapping p = [] then Inl ''profile identity is incomplete''
      else if pf_speed p \<le> 0 \<or> pf_rate p \<le> 0 \<or> pf_channels p \<le> 0 \<or> pf_mime p = [] \<or> pf_codec p = []
      then Inl ''invalid media settings''
      else if pf_mime p \<noteq> AudioMIME \<or> pf_codec p \<noteq> AudioCodec \<or> pf_rate p \<noteq> AudioSampleRate \<or> pf_channels p \<noteq> AudioChannels
      then Inl ''profile must be mono 24kHz AAC-LC M4A''
      else Inr ())"

text \<open>\<open>strings.Fields\<close>: the maximal runs of chunks that are not white space.\<close>

fun field_runs :: "string \<Rightarrow> (nat \<times> string) list \<Rightarrow> string list" where
  "field_runs w [] = (if w = [] then [] else [w])"
| "field_runs w (c # cs) =
     (if is_space (fst c) then (if w = [] then field_runs [] cs else w # field_runs [] cs) else field_runs (w @ snd c) cs)"

definition str_fields :: "string \<Rightarrow> string list" where
  "str_fields s = field_runs [] (chunks s)"

fun join_with :: "string \<Rightarrow> string list \<Rightarrow> string" where
  "join_with sep [] = []"
| "join_with sep [x] = x"
| "join_with sep (x # y # xs) = x @ sep @ join_with sep (y # xs)"

definition NormalizeTextHash :: "speech_env \<Rightarrow> string \<Rightarrow> speech_error + string" where
  "NormalizeTextHash E v =
     (if \<not> valid_utf8 v \<or> blank v then Inl ''spoken text must be non-empty valid UTF-8''
      else Inr (sp_sha E (nfc E (join_with '' '' (str_fields v)))))"

definition request_bytes :: "speech_unit \<Rightarrow> speech_profile \<Rightarrow> string" where
  "request_bytes u p =
     writePart ''doublangu.audio-request.v1'' @ writePart (un_text u) @ writePart (un_language u) @ writePart (un_kind u) @
     writePart (un_context u) @ writePart (pf_engine p) @ writePart (pf_model p) @ writePart (pf_language p) @
     writePart (pf_voice p) @ writePart (pf_reference p) @ put_int (pf_speed p) @ put_int (pf_pitch p) @
     writePart (pf_mapping p) @ writePart (pf_codec p) @ writePart (pf_mime p) @ put_int (pf_rate p) @
     put_int (pf_channels p) @ writePart AudioNormalizationVersion"

definition RequestHash :: "speech_env \<Rightarrow> speech_unit \<Rightarrow> speech_profile \<Rightarrow> string" where
  "RequestHash E u p = sp_sha E (request_bytes u p)"

definition ValidateArtifact :: "speech_env \<Rightarrow> artifact_metadata \<Rightarrow> int \<Rightarrow> string \<Rightarrow> string \<Rightarrow> string \<Rightarrow> speech_error + unit" where
  "ValidateArtifact E m dataSize signature expected kind =
     (if am_request m \<noteq> expected then Inl ''audio request hash does not match job''
      else if length (am_sha m) \<noteq> 64 then Inl ''audio sha256 must be a lowercase SHA-256 digest''
      else if lower E (am_sha m) \<noteq> am_sha m then Inl ''audio sha256 must be lowercase''
      else if am_size m \<le> 0 \<or> dataSize \<noteq> am_size m then Inl ''declared size does not match upload''
      else if am_mime m \<noteq> AudioMIME \<or> am_codec m \<noteq> AudioCodec \<or> am_rate m \<noteq> AudioSampleRate \<or> am_channels m \<noteq> AudioChannels
      then Inl ''audio metadata is not mono 24kHz AAC-LC M4A''
      else if length signature < 8 \<or> take 4 (drop 4 signature) \<noteq> ''ftyp'' then Inl ''not an ISO-BMFF file''
      else if dataSize > al_bytes (Limits kind) \<or> am_duration m \<le> 0 \<or> am_duration m > al_duration (Limits kind)
      then Inl ''audio exceeds unit limits''
      else Inr ())"

end
