(* ===== verification/Localworker.thy ===== *)
theory Localworker
  imports LLM_Codec Auth_Handlers Speech_Types
begin

text \<open>
  The transport contract of the universal worker, internal/localworker: request bodies and their strict decoding, the
  validation of every request, the payload envelope, and the mapping to the product's job types and failure codes.
  A request that may be nil is an option.  Parsing and printing of times is left to the standard library.
\<close>

section \<open>Constants and errors\<close>

definition LW_Protocol :: string where "LW_Protocol = ''ailocals.v1''"
definition CapabilityACE :: string where "CapabilityACE = ''music.ace-step.v1''"
definition CapabilityAppleSpeech :: string where "CapabilityAppleSpeech = ''tts.apple-speech.v1''"
definition CapabilityChatterbox :: string where "CapabilityChatterbox = ''tts.chatterbox.v3''"
definition CapabilityRelay :: string where "CapabilityRelay = ''llm.openai-relay.v1''"
definition PollMaxSeconds :: int where "PollMaxSeconds = 25"
definition PayloadMaxBytes :: nat where "PayloadMaxBytes = 2097152"
definition ResultMaxBytes :: nat where "ResultMaxBytes = 2097152"
definition LeaseResponseMaxBytes :: nat where "LeaseResponseMaxBytes = 3 * 2 ^ 20"
definition MaxWorkerNameScalars :: nat where "MaxWorkerNameScalars = 120"
definition LW_MaxCapabilities :: nat where "LW_MaxCapabilities = 32"

datatype lw_code =
    CodeUnauthorized | CodeEnrollmentInvalid | CodeProtocolUnsupported | CodeInvalidRequest | CodeUnsupportedCap
  | CodeWorkerBusy | CodeClientAlreadyEnrolled | CodeLeaseLost | CodeResultConflict | CodePayloadTooLarge | CodeRateLimited
  | CodeInternalError

definition HTTPStatus :: "lw_code \<Rightarrow> int" where
  "HTTPStatus c = (case c of
       CodeUnauthorized \<Rightarrow> 401 | CodeEnrollmentInvalid \<Rightarrow> 401
     | CodeWorkerBusy \<Rightarrow> 409 | CodeClientAlreadyEnrolled \<Rightarrow> 409 | CodeLeaseLost \<Rightarrow> 409 | CodeResultConflict \<Rightarrow> 409
     | CodePayloadTooLarge \<Rightarrow> 413 | CodeRateLimited \<Rightarrow> 429 | CodeInternalError \<Rightarrow> 503
     | _ \<Rightarrow> 400)"

type_synonym lw_error = "lw_code \<times> string"

definition NewError :: "lw_code \<Rightarrow> string \<Rightarrow> lw_error" where
  "NewError code message =
     (let m = take 256 (trim_space message) in (code, if m = [] then ''request rejected'' else m))"

abbreviation bad :: "string \<Rightarrow> lw_error + 'a" where
  "bad m \<equiv> Inl (NewError CodeInvalidRequest m)"

section \<open>Formats\<close>

definition word_char :: "char \<Rightarrow> bool" where
  "word_char c \<longleftrightarrow> (byte CHR ''A'' \<le> byte c \<and> byte c \<le> byte CHR ''Z'') \<or> (byte CHR ''a'' \<le> byte c \<and> byte c \<le> byte CHR ''z'')
     \<or> is_digit c \<or> c = CHR ''_'' \<or> c = CHR ''-''"

definition LW_ValidIdentifier :: "string \<Rightarrow> bool" where
  "LW_ValidIdentifier v \<longleftrightarrow> 1 \<le> length v \<and> length v \<le> 128 \<and> list_all word_char v"

definition ValidToken :: "string \<Rightarrow> bool" where
  "ValidToken v \<longleftrightarrow> length v = 43 \<and> list_all word_char v"

definition ValidSHA256 :: "string \<Rightarrow> bool" where
  "ValidSHA256 v \<longleftrightarrow> length v = 64 \<and>
     list_all (\<lambda>c. is_digit c \<or> (byte CHR ''a'' \<le> byte c \<and> byte c \<le> byte CHR ''f'')) v"

definition ValidServiceKind :: "string \<Rightarrow> bool" where
  "ValidServiceKind v \<longleftrightarrow> 1 \<le> length v \<and> length v \<le> 64 \<and>
     list_all (\<lambda>c. (byte CHR ''a'' \<le> byte c \<and> byte c \<le> byte CHR ''z'') \<or> is_digit c \<or> c = CHR ''_'' \<or> c = CHR ''-'') v"

definition software_version_ok :: "string \<Rightarrow> bool" where
  "software_version_ok v \<longleftrightarrow> 1 \<le> length v \<and> length v \<le> 64 \<and> list_all (\<lambda>c. 0x20 \<le> byte c \<and> byte c \<le> 0x7E) v"

section \<open>Request bodies\<close>

record ace_params =
  ace_schema :: int
  ace_revision :: string
  ace_manifest :: string
  ace_accelerator :: string
  ace_formats :: "string list"

record speech_capability =
  sc_engine :: string
  sc_languages :: "string list"
  sc_kinds :: "string list"
  sc_bytes :: int
  sc_duration :: int

record relay_params =
  ry_bytes :: int
  ry_operations :: "string list"

datatype cap_params = AceParams ace_params | TtsParams speech_capability | RelayParams relay_params | OtherParams

record capability_entry =
  ce_id :: string
  ce_category :: string
  ce_params :: cap_params

record enroll_request =
  er_protocol :: string
  er_name :: string
  er_software :: string
  er_capabilities :: "capability_entry list"

record presence_entry =
  pe_id :: string
  pe_state :: string
  pe_accepting :: bool
  pe_active :: int
  pe_reason :: "string option"

record presence_request =
  pr_protocol :: string
  pr_capabilities :: "presence_entry list option"

record lease_request =
  lr_protocol :: string
  lr_capability :: string
  lr_wait :: int

record heartbeat_request =
  hr_protocol :: string
  hr_attempt :: int
  hr_progress :: int

record fail_request =
  fr_protocol :: string
  fr_attempt :: int
  fr_code :: string
  fr_retryable :: bool

record complete_metadata =
  cm_protocol :: string
  cm_attempt :: int
  cm_sha :: string

section \<open>Strict decoding\<close>

text \<open>The walk over the tokens of the first value that rejects an object with the same key twice.\<close>

fun no_duplicates :: "json \<Rightarrow> bool" where
  "no_duplicates (JObj ms) = (distinct (map (unquote \<circ> fst) ms) \<and> list_all (\<lambda>m. no_duplicates (snd m)) ms)"
| "no_duplicates (JArr js) = list_all no_duplicates js"
| "no_duplicates j = True"

text \<open>
  \<open>DecodeStrictJSON\<close>: the second call of the decoder is only asked whether it succeeds, so bytes behind the first value
  that are not JSON pass.
\<close>

definition DecodeStrictJSON :: "'r decoder \<Rightarrow> 'r \<Rightarrow> string \<Rightarrow> 'r option" where
  "DecodeStrictJSON dec zero data =
     (case json_read data of
        None \<Rightarrow> None
      | Some (j, rest) \<Rightarrow>
          if \<not> no_duplicates j then None
          else case dec zero j of None \<Rightarrow> None | Some v \<Rightarrow> if json_read rest = None then Some v else None)"

definition tts_fields :: "speech_capability field list" where
  "tts_fields = [field ''engine'' sc_engine (\<lambda>v r. r\<lparr>sc_engine := v\<rparr>) dec_string,
     field ''languages'' sc_languages (\<lambda>v r. r\<lparr>sc_languages := v\<rparr>) (dec_list [] dec_string),
     field ''unit_kinds'' sc_kinds (\<lambda>v r. r\<lparr>sc_kinds := v\<rparr>) (dec_list [] dec_string),
     field ''max_bytes'' sc_bytes (\<lambda>v r. r\<lparr>sc_bytes := v\<rparr>) dec_int,
     field ''max_duration_ms'' sc_duration (\<lambda>v r. r\<lparr>sc_duration := v\<rparr>) dec_int]"

definition ace_fields :: "ace_params field list" where
  "ace_fields = [field ''worker_schema'' ace_schema (\<lambda>v r. r\<lparr>ace_schema := v\<rparr>) dec_int,
     field ''model_bundle_revision'' ace_revision (\<lambda>v r. r\<lparr>ace_revision := v\<rparr>) dec_string,
     field ''manifest_sha256'' ace_manifest (\<lambda>v r. r\<lparr>ace_manifest := v\<rparr>) dec_string,
     field ''accelerator'' ace_accelerator (\<lambda>v r. r\<lparr>ace_accelerator := v\<rparr>) dec_string,
     field ''formats'' ace_formats (\<lambda>v r. r\<lparr>ace_formats := v\<rparr>) (dec_list [] dec_string)]"

definition relay_fields :: "relay_params field list" where
  "relay_fields = [field ''max_completion_bytes'' ry_bytes (\<lambda>v r. r\<lparr>ry_bytes := v\<rparr>) dec_int,
     field ''operations'' ry_operations (\<lambda>v r. r\<lparr>ry_operations := v\<rparr>) (dec_list [] dec_string)]"

text \<open>\<open>CapabilityEntry.UnmarshalJSON\<close>: a lenient head, then the parameters of the capability, strictly; \<open>null\<close> and an
  unknown capability leave the parameters to a map that nothing reads.\<close>

record entry_head =
  eh_id :: string
  eh_category :: string
  eh_params :: "json option"

definition head_fields :: "entry_head field list" where
  "head_fields = [field ''id'' eh_id (\<lambda>v r. r\<lparr>eh_id := v\<rparr>) dec_string,
     field ''category'' eh_category (\<lambda>v r. r\<lparr>eh_category := v\<rparr>) dec_string,
     field ''parameters'' eh_params (\<lambda>v r. r\<lparr>eh_params := v\<rparr>) (\<lambda>_ j. Some (Some j))]"

definition dec_params :: "entry_head \<Rightarrow> cap_params option" where
  "dec_params h =
     (if eh_id h = CapabilityACE then
        map_option AceParams (Option.bind (eh_params h) (dec_struct True ace_fields
          \<lparr>ace_schema = 0, ace_revision = [], ace_manifest = [], ace_accelerator = [], ace_formats = []\<rparr>))
      else if eh_id h = CapabilityAppleSpeech \<or> eh_id h = CapabilityChatterbox then
        map_option TtsParams (Option.bind (eh_params h) (dec_struct True tts_fields
          \<lparr>sc_engine = [], sc_languages = [], sc_kinds = [], sc_bytes = 0, sc_duration = 0\<rparr>))
      else if eh_id h = CapabilityRelay then
        map_option RelayParams (Option.bind (eh_params h) (dec_struct True relay_fields \<lparr>ry_bytes = 0, ry_operations = []\<rparr>))
      else Some OtherParams)"

definition dec_entry :: "capability_entry decoder" where
  "dec_entry old j =
     Option.bind (dec_struct False head_fields \<lparr>eh_id = [], eh_category = [], eh_params = None\<rparr> j) (\<lambda>h.
       map_option (\<lambda>p. \<lparr>ce_id = eh_id h, ce_category = eh_category h, ce_params = p\<rparr>) (dec_params h))"

definition enroll_fields :: "enroll_request field list" where
  "enroll_fields = [field ''protocol_version'' er_protocol (\<lambda>v r. r\<lparr>er_protocol := v\<rparr>) dec_string,
     field ''worker_name'' er_name (\<lambda>v r. r\<lparr>er_name := v\<rparr>) dec_string,
     field ''software_version'' er_software (\<lambda>v r. r\<lparr>er_software := v\<rparr>) dec_string,
     field ''capabilities'' er_capabilities (\<lambda>v r. r\<lparr>er_capabilities := v\<rparr>)
       (dec_list \<lparr>ce_id = [], ce_category = [], ce_params = OtherParams\<rparr> dec_entry)]"

definition zero_presence :: presence_entry where
  "zero_presence = \<lparr>pe_id = [], pe_state = [], pe_accepting = False, pe_active = 0, pe_reason = None\<rparr>"

definition presence_fields :: "presence_entry field list" where
  "presence_fields = [field ''id'' pe_id (\<lambda>v r. r\<lparr>pe_id := v\<rparr>) dec_string,
     field ''state'' pe_state (\<lambda>v r. r\<lparr>pe_state := v\<rparr>) dec_string,
     field ''accepting'' pe_accepting (\<lambda>v r. r\<lparr>pe_accepting := v\<rparr>) dec_bool,
     field ''active_jobs'' pe_active (\<lambda>v r. r\<lparr>pe_active := v\<rparr>) dec_int,
     field ''reason'' pe_reason (\<lambda>v r. r\<lparr>pe_reason := v\<rparr>) (dec_pointer [] dec_string)]"

definition fail_fields :: "fail_request field list" where
  "fail_fields = [field ''protocol_version'' fr_protocol (\<lambda>v r. r\<lparr>fr_protocol := v\<rparr>) dec_string,
     field ''attempt'' fr_attempt (\<lambda>v r. r\<lparr>fr_attempt := v\<rparr>) dec_int,
     field ''code'' fr_code (\<lambda>v r. r\<lparr>fr_code := v\<rparr>) dec_string,
     field ''retryable'' fr_retryable (\<lambda>v r. r\<lparr>fr_retryable := v\<rparr>) dec_bool]"

section \<open>Validation\<close>

definition validateProtocolVersion :: "string \<Rightarrow> lw_error + unit" where
  "validateProtocolVersion v =
     (if v \<noteq> LW_Protocol then Inl (NewError CodeProtocolUnsupported ''unsupported protocol version'') else Inr ())"

definition validCapabilityID :: "string \<Rightarrow> bool" where
  "validCapabilityID i \<longleftrightarrow> i \<in> {CapabilityACE, CapabilityAppleSpeech, CapabilityChatterbox, CapabilityRelay}"

definition capabilityCategory :: "string \<Rightarrow> string option" where
  "capabilityCategory i =
     (if i = CapabilityACE then Some ''music''
      else if i = CapabilityAppleSpeech \<or> i = CapabilityChatterbox then Some ''tts''
      else if i = CapabilityRelay then Some ''llm''
      else None)"

definition validateAceParameters :: "ace_params \<Rightarrow> lw_error + unit" where
  "validateAceParameters p =
     (if ace_schema p \<noteq> 2 then bad ''worker_schema must be 2''
      else if ace_revision p = [] \<or> length (ace_revision p) > 128 then bad ''model_bundle_revision length is out of bounds''
      else if \<not> ValidSHA256 (ace_manifest p) then bad ''manifest_sha256 format is invalid''
      else if ace_accelerator p \<noteq> ''mps'' then bad ''accelerator must be mps''
      else if length (ace_formats p) < 1 \<or> length (ace_formats p) > 3 then bad ''formats must hold 1..3 entries''
      else if \<exists>f \<in> set (ace_formats p). f \<notin> {''mp3'', ''flac'', ''wav''} then bad ''formats entries are invalid''
      else Inr ())"

definition validateTtsParameters :: "string \<Rightarrow> speech_capability \<Rightarrow> lw_error + unit" where
  "validateTtsParameters i p =
     (if sc_engine p \<noteq> (if i = CapabilityChatterbox then ''chatterbox'' else ''avspeech'')
      then bad ''capability parameters do not match''
      else if length (sc_languages p) < 1 \<or> length (sc_languages p) > 32 then bad ''languages must hold 1..32 entries''
      else if [] \<in> set (sc_languages p) then bad ''languages entries must be strings''
      else if length (sc_kinds p) < 1 \<or> length (sc_kinds p) > 8 then bad ''unit_kinds must hold 1..8 entries''
      else if \<exists>k \<in> set (sc_kinds p). k \<notin> {''word'', ''phrase'', ''sentence'', ''*''} then bad ''unit_kinds entries are invalid''
      else if sc_bytes p < 0 \<or> sc_duration p < 0 then bad ''capability limits must be nonnegative''
      else Inr ())"

fun check_operations :: "string list \<Rightarrow> string list \<Rightarrow> lw_error + unit" where
  "check_operations seen [] = Inr ()"
| "check_operations seen (p # ps) =
     (if p \<noteq> ''chat_completion'' \<and> p \<noteq> ''list_models'' then bad ''operations entries are invalid''
      else if p \<in> set seen then bad ''operations entries must be unique''
      else check_operations (p # seen) ps)"

definition validateRelayParameters :: "relay_params \<Rightarrow> lw_error + unit" where
  "validateRelayParameters p =
     (if ry_bytes p < 1 \<or> ry_bytes p > int PayloadMaxBytes then bad ''max_completion_bytes is out of range''
      else if length (ry_operations p) < 1 \<or> length (ry_operations p) > 2 then bad ''operations must hold 1..2 entries''
      else check_operations [] (ry_operations p))"

definition validateCapabilityEntry :: "capability_entry \<Rightarrow> lw_error + unit" where
  "validateCapabilityEntry e =
     (if \<not> validCapabilityID (ce_id e) then Inl (NewError CodeUnsupportedCap ''capability is not supported'')
      else if capabilityCategory (ce_id e) \<noteq> Some (ce_category e) then bad ''capability category does not match''
      else if ce_id e = CapabilityACE then
        (case ce_params e of AceParams p \<Rightarrow> validateAceParameters p | _ \<Rightarrow> bad ''capability parameters do not match'')
      else if ce_id e = CapabilityAppleSpeech \<or> ce_id e = CapabilityChatterbox then
        (case ce_params e of TtsParams p \<Rightarrow> validateTtsParameters (ce_id e) p | _ \<Rightarrow> bad ''capability parameters do not match'')
      else if ce_id e = CapabilityRelay then
        (case ce_params e of RelayParams p \<Rightarrow> validateRelayParameters p | _ \<Rightarrow> bad ''capability parameters do not match'')
      else Inl (NewError CodeUnsupportedCap ''capability is not supported''))"

fun check_entries :: "string list \<Rightarrow> capability_entry list \<Rightarrow> lw_error + unit" where
  "check_entries seen [] = Inr ()"
| "check_entries seen (e # es) =
     bind_res (validateCapabilityEntry e) (\<lambda>_.
       if ce_id e \<in> set seen then bad ''capability entries must be unique'' else check_entries (ce_id e # seen) es)"

definition ValidateEnrollRequest :: "enroll_request option \<Rightarrow> lw_error + unit" where
  "ValidateEnrollRequest req = (case req of
       None \<Rightarrow> bad ''enroll body is required''
     | Some r \<Rightarrow> bind_res (validateProtocolVersion (er_protocol r)) (\<lambda>_.
         if er_name r = [] \<or> length (runes (er_name r)) > MaxWorkerNameScalars then bad ''worker_name length is out of bounds''
         else if \<not> software_version_ok (er_software r) then bad ''software_version format is invalid''
         else if length (er_capabilities r) < 1 \<or> length (er_capabilities r) > LW_MaxCapabilities
         then bad ''capabilities must hold 1..32 entries''
         else check_entries [] (er_capabilities r)))"

definition resource_reasons :: "string list" where
  "resource_reasons = [''slot_busy'', ''memory_pressure'', ''insufficient_memory'', ''storage_unavailable'',
     ''local_service_unreachable'']"

definition validateReason :: "presence_entry \<Rightarrow> lw_error + unit" where
  "validateReason e =
     (if \<exists>r. pe_reason e = Some r \<and> r \<notin> set ([[], ''setup_missing'', ''user_paused''] @ resource_reasons)
      then bad ''presence reason is invalid''
      else if pe_state e = ''ready'' then
        (if \<not> pe_accepting e \<or> pe_active e \<noteq> 0 \<or> pe_reason e \<noteq> None then bad ''ready state is inconsistent'' else Inr ())
      else if pe_state e = ''busy'' then
        (if pe_active e = 1 then (if pe_reason e \<noteq> None then bad ''busy running reason must be null'' else Inr ())
         else if pe_accepting e \<or> (case pe_reason e of None \<Rightarrow> True | Some r \<Rightarrow> r \<notin> set resource_reasons)
         then bad ''busy waiting requires a resource reason'' else Inr ())
      else if pe_state e \<in> {''paused'', ''setup_required'', ''error''} then
        (if pe_accepting e then bad ''state must not accept work'' else Inr ())
      else bad ''presence state is invalid'')"

fun check_presence :: "string list \<Rightarrow> presence_entry list \<Rightarrow> lw_error + unit" where
  "check_presence seen [] = Inr ()"
| "check_presence seen (e # es) =
     (if \<not> validCapabilityID (pe_id e) then Inl (NewError CodeUnsupportedCap ''capability is not supported'')
      else if pe_id e \<in> set seen then bad ''presence entries must be unique''
      else if pe_active e < 0 \<or> pe_active e > 1 then bad ''active_jobs must be 0 or 1''
      else bind_res (validateReason e) (\<lambda>_. check_presence (pe_id e # seen) es))"

definition nil_list :: "'a list option \<Rightarrow> 'a list" where
  "nil_list v = (case v of None \<Rightarrow> [] | Some xs \<Rightarrow> xs)"

definition ValidatePresenceRequest :: "presence_request option \<Rightarrow> lw_error + unit" where
  "ValidatePresenceRequest req = (case req of
       None \<Rightarrow> bad ''presence body is required''
     | Some r \<Rightarrow> bind_res (validateProtocolVersion (pr_protocol r)) (\<lambda>_.
         if length (nil_list (pr_capabilities r)) > LW_MaxCapabilities then bad ''capabilities must hold at most 32 entries''
         else check_presence [] (nil_list (pr_capabilities r))))"

definition ValidateLeaseRequest :: "lease_request option \<Rightarrow> lw_error + unit" where
  "ValidateLeaseRequest req = (case req of
       None \<Rightarrow> bad ''lease body is required''
     | Some r \<Rightarrow> bind_res (validateProtocolVersion (lr_protocol r)) (\<lambda>_.
         if \<not> validCapabilityID (lr_capability r) then Inl (NewError CodeUnsupportedCap ''capability is not supported'')
         else if lr_wait r < 0 \<or> lr_wait r > PollMaxSeconds then bad ''wait_seconds is out of range''
         else Inr ()))"

definition ValidateHeartbeatRequest :: "heartbeat_request option \<Rightarrow> lw_error + unit" where
  "ValidateHeartbeatRequest req = (case req of
       None \<Rightarrow> bad ''heartbeat body is required''
     | Some r \<Rightarrow> bind_res (validateProtocolVersion (hr_protocol r)) (\<lambda>_.
         if hr_attempt r < 1 then bad ''attempt must be positive''
         else if hr_progress r < 0 \<or> hr_progress r > 100 then bad ''progress_percent is out of range''
         else Inr ()))"

definition failure_codes :: "string list" where
  "failure_codes = [''canceled'', ''interrupted'', ''resource_exhausted'', ''invalid_payload'', ''setup_required'',
     ''execution_failed'', ''relay_unreachable'', ''relay_auth'', ''relay_invalid_response'', ''relay_model_unknown'']"

definition ValidFailureCode :: "string \<Rightarrow> bool" where
  "ValidFailureCode c \<longleftrightarrow> c \<in> set failure_codes"

definition ValidateFailRequest :: "fail_request option \<Rightarrow> lw_error + unit" where
  "ValidateFailRequest req = (case req of
       None \<Rightarrow> bad ''fail body is required''
     | Some r \<Rightarrow> bind_res (validateProtocolVersion (fr_protocol r)) (\<lambda>_.
         if fr_attempt r < 1 then bad ''attempt must be positive''
         else if \<not> ValidFailureCode (fr_code r) then bad ''failure code is not allowlisted''
         else Inr ()))"

definition ValidateCompleteMetadata :: "complete_metadata option \<Rightarrow> lw_error + unit" where
  "ValidateCompleteMetadata req = (case req of
       None \<Rightarrow> bad ''completion metadata is required''
     | Some r \<Rightarrow> bind_res (validateProtocolVersion (cm_protocol r)) (\<lambda>_.
         if cm_attempt r < 1 then bad ''attempt must be positive''
         else if \<not> ValidSHA256 (cm_sha r) then bad ''result_sha256 format is invalid''
         else Inr ()))"

section \<open>The payload envelope\<close>

text \<open>Standard base64 with padding; its groups of digits are those of theory Auth_Handlers.\<close>

definition std_char :: "char \<Rightarrow> char" where
  "std_char c = (if c = CHR ''-'' then CHR ''+'' else if c = CHR ''_'' then CHR ''/'' else c)"

definition std_value :: "char \<Rightarrow> nat option" where
  "std_value c =
     (if c = CHR ''+'' then Some 62 else if c = CHR ''/'' then Some 63
      else if c = CHR ''-'' \<or> c = CHR ''_'' then None else b64_value c)"

fun std_values :: "string \<Rightarrow> nat list option" where
  "std_values [] = Some []"
| "std_values (c # s) = (case std_value c of None \<Rightarrow> None | Some v \<Rightarrow> map_option ((#) v) (std_values s))"

definition std_padding :: "nat \<Rightarrow> string" where
  "std_padding n = (if n mod 3 = 1 then ''=='' else if n mod 3 = 2 then ''='' else [])"

definition std_encode :: "string \<Rightarrow> string" where
  "std_encode s = map std_char (b64_encode s) @ std_padding (length s)"

text \<open>The pattern \<open>base64Canonical\<close>: groups of four digits, the last one perhaps padded.\<close>

definition base64Canonical :: "string \<Rightarrow> bool" where
  "base64Canonical s \<longleftrightarrow>
     length s mod 4 = 0 \<and> std_values (takeWhile (\<lambda>c. c \<noteq> CHR ''='') s) \<noteq> None \<and>
     dropWhile (\<lambda>c. c \<noteq> CHR ''='') s \<in> {[], ''='', ''==''}"

definition std_decode :: "string \<Rightarrow> string option" where
  "std_decode s = Option.bind (std_values (takeWhile (\<lambda>c. c \<noteq> CHR ''='') s)) b64_groups"

definition DecodePayload :: "(string \<Rightarrow> string) \<Rightarrow> string \<Rightarrow> string \<Rightarrow> lw_error + string" where
  "DecodePayload hash b64 h =
     (if \<not> base64Canonical b64 then bad ''payload_base64 is not canonical base64''
      else if length b64 > LeaseResponseMaxBytes then Inl (NewError CodePayloadTooLarge ''encoded payload exceeds 3 MiB'')
      else case std_decode b64 of
        None \<Rightarrow> bad ''payload_base64 is malformed''
      | Some d \<Rightarrow>
          if d = [] then bad ''payload must not be empty''
          else if length d > PayloadMaxBytes then Inl (NewError CodePayloadTooLarge ''payload exceeds the byte bound'')
          else if hash d \<noteq> h then bad ''payload hash does not match''
          else Inr d)"

definition EncodePayload :: "(string \<Rightarrow> string) \<Rightarrow> string \<Rightarrow> lw_error + string \<times> string" where
  "EncodePayload hash p =
     (if p = [] then bad ''payload must not be empty''
      else if length p > PayloadMaxBytes then Inl (NewError CodePayloadTooLarge ''payload exceeds the byte bound'')
      else Inr (std_encode p, hash p))"

section \<open>Mapping to the product\<close>

definition JobTypeForCapability :: "string \<Rightarrow> lw_error + string" where
  "JobTypeForCapability i =
     (if i = CapabilityAppleSpeech then Inr AVSpeechJobType
      else if i = CapabilityChatterbox then Inr ChatterboxJobType
      else if i = CapabilityRelay then Inr LLMRelayJobType
      else Inl (NewError CodeUnsupportedCap ''capability is not supported''))"

definition relay_failures :: "(string \<times> string) list" where
  "relay_failures = [(''canceled'', ''v1.relay_canceled''), (''relay_unreachable'', ''v1.relay_unreachable''),
     (''relay_auth'', ''v1.relay_auth''), (''relay_invalid_response'', ''v1.relay_invalid_response''),
     (''relay_model_unknown'', ''v1.relay_model_unknown''), (''interrupted'', ''v1.interrupted''),
     (''resource_exhausted'', ''v1.resource_exhausted''), (''invalid_payload'', ''v1.invalid_payload''),
     (''execution_failed'', ''v1.execution_failed'')]"

definition speech_failures :: "(string \<times> string) list" where
  "speech_failures = [(''canceled'', ''v1.canceled''), (''interrupted'', ''v1.interrupted''),
     (''resource_exhausted'', ''v1.resource_exhausted''), (''invalid_payload'', ''v1.invalid_payload''),
     (''setup_required'', ''v1.setup_required''), (''execution_failed'', ''v1.execution_failed'')]"

definition MapFailureToProductCode :: "string \<Rightarrow> bool \<Rightarrow> lw_error + string" where
  "MapFailureToProductCode code isRelay =
     (if \<not> ValidFailureCode code then bad ''failure code is not allowlisted''
      else case map_of (if isRelay then relay_failures else speech_failures) code of
        Some c \<Rightarrow> Inr c
      | None \<Rightarrow>
          if \<not> isRelay \<and> code \<in> {''relay_unreachable'', ''relay_auth'', ''relay_invalid_response'', ''relay_model_unknown''}
          then bad ''relay failure code is not valid for this workload''
          else bad ''failure code is not allowlisted'')"

record relay_envelope =
  re_protocol :: string
  re_operation :: string
  re_request :: string

definition envelope_fields :: "relay_envelope field list" where
  "envelope_fields = [field ''protocol_version'' re_protocol (\<lambda>v r. r\<lparr>re_protocol := v\<rparr>) dec_string,
     field ''operation'' re_operation (\<lambda>v r. r\<lparr>re_operation := v\<rparr>) dec_string,
     field ''request_id'' re_request (\<lambda>v r. r\<lparr>re_request := v\<rparr>) dec_string]"

text \<open>Only the first value is read and unknown fields pass.\<close>

definition LW_DecodeRelayPayload :: "string \<Rightarrow> lw_error + relay_envelope" where
  "LW_DecodeRelayPayload payload =
     (case Option.bind (json_read payload)
             (\<lambda>(j, _). dec_struct False envelope_fields \<lparr>re_protocol = [], re_operation = [], re_request = []\<rparr> j) of
        None \<Rightarrow> bad ''relay payload is not JSON''
      | Some e \<Rightarrow>
          if re_operation e \<noteq> ''chat_completion'' \<and> re_operation e \<noteq> ''list_models'' then bad ''relay operation is not supported''
          else if re_protocol e \<noteq> Speech_Protocol then bad ''relay payload version is unsupported''
          else if re_request e = [] \<or> length (re_request e) > 256 then bad ''relay request_id is invalid''
          else Inr e)"

text \<open>The common payload of a speech lease; an empty context key or reference hash becomes \<open>null\<close>.\<close>

definition null_if_empty :: "string \<Rightarrow> json" where
  "null_if_empty s = (if s = [] then JNull else json_str s)"

definition omit_empty :: "string \<Rightarrow> string \<Rightarrow> (string \<times> json) list" where
  "omit_empty k s = (if s = [] then [] else [(k, json_str s)])"

definition tts_profile_json :: "speech_profile \<Rightarrow> json" where
  "tts_profile_json p = obj ([(''id'', json_str (ulid_string (pf_id p))), (''engine'', json_str (pf_engine p)),
     (''model_revision'', json_str (pf_model p)), (''language'', json_str (pf_language p)),
     (''voice_identifier'', json_str (pf_voice p)), (''reference_audio_hash'', null_if_empty (pf_reference p)),
     (''speed_milli'', json_of_int (pf_speed p)), (''pitch_cents'', json_of_int (pf_pitch p)),
     (''mapping_version'', json_str (pf_mapping p)), (''mime_type'', json_str (pf_mime p)), (''codec'', json_str (pf_codec p)),
     (''sample_rate_hz'', json_of_int (pf_rate p)), (''channels'', json_of_int (pf_channels p)),
     (''active'', JBool (pf_active p))] @ omit_empty ''created_at'' (pf_created p) @ omit_empty ''updated_at'' (pf_updated p))"

definition TtsPayloadFromLeaseDomain ::
  "string \<Rightarrow> string \<Rightarrow> string \<Rightarrow> string \<Rightarrow> string \<Rightarrow> string \<Rightarrow> string \<Rightarrow> speech_profile \<Rightarrow> audio_limits \<Rightarrow> lw_error + string" where
  "TtsPayloadFromLeaseDomain render request unit language kind spoken ctx p lims =
     (let encoded = json_text (obj [(''render_id'', json_str render), (''request_hash'', json_str request),
            (''speech_unit_id'', json_str unit), (''language'', json_str language), (''unit_kind'', json_str kind),
            (''spoken_text'', json_str spoken), (''context_pronunciation_key'', null_if_empty ctx),
            (''profile'', tts_profile_json p),
            (''limits'', obj [(''max_bytes'', json_of_int (al_bytes lims)), (''max_duration_ms'', json_of_int (al_duration lims))])])
      in if length encoded > PayloadMaxBytes then Inl (NewError CodePayloadTooLarge ''payload exceeds the byte bound'')
         else Inr encoded)"

end
