(* ===== verification/LLM_Relay.thy ===== *)
theory LLM_Relay
  imports LLM_Codec Reader_Article
begin

text \<open>
  The relay service, internal/llmrelay/service.go and adapter.go: enqueueing, the presence of workers, the durable wait,
  the results and their atomic completion, and the two calls the provider makes.  The database holds the scheduler's
  tables, the results, the workers and the enrollments; operations that span them take it whole, so a store that has
  more tables extends the record.

  A wait runs beside other processes: one iteration of its loop is a \<open>poll\<close>, with the clock it reads, whether the
  context is done, and what the others do to the database before each of the iteration's own calls.
\<close>

section \<open>Data\<close>

record relay_svc = relay_env +
  ulid_parse :: "string \<Rightarrow> string option"

record relay_row =
  rr_job :: string
  rr_input_hash :: string
  rr_operation :: string
  rr_json :: string
  rr_hash :: string
  rr_created :: timestamp

record worker_row =
  wk_id :: string
  wk_name :: string
  wk_protocol :: string
  wk_token_hash :: string
  wk_revoked :: timestamp
  wk_seen :: timestamp
  wk_capabilities :: string
  wk_software :: string
  wk_relay_capabilities :: string
  wk_relay_seen :: timestamp
  wk_presence :: string
  wk_created :: timestamp
  wk_updated :: timestamp

record enrollment_row =
  en_id :: string
  en_token_hash :: string
  en_expires :: timestamp
  en_used :: timestamp

record hub_db =
  hub_jobs :: jobs_db
  hub_results :: "relay_row list"
  hub_workers :: "worker_row list"
  hub_enrollments :: "enrollment_row list"

datatype ctx_error = CtxCanceled | CtxDeadline

datatype relay_fault =
    RelayMessage string
  | RelayJobs job_error
  | TerminalError string string
  | RelayError string
  | NondeterministicError string
  | WaitCanceled ctx_error
  | ResultMissing
  | ResultIdentity

record stored_result =
  sr_job :: string
  sr_operation :: string
  sr_json :: string

text \<open>A call on the scheduler's tables inside the larger database.\<close>

definition on_jobs :: "(jobs_db \<Rightarrow> 'r \<times> jobs_db) \<Rightarrow> 'z hub_db_scheme \<Rightarrow> 'r \<times> 'z hub_db_scheme" where
  "on_jobs f db = (case f (hub_jobs db) of (r, j) \<Rightarrow> (r, db\<lparr>hub_jobs := j\<rparr>))"

definition lift_jobs :: "(job_error + 'a) \<times> 's \<Rightarrow> (relay_fault + 'a) \<times> 's" where
  "lift_jobs r = (case r of (Inl e, s) \<Rightarrow> (Inl (RelayJobs e), s) | (Inr x, s) \<Rightarrow> (Inr x, s))"

section \<open>Presence\<close>

definition PresenceWindow :: nat where "PresenceWindow = 2 * 60 * 1000"

definition seen_within :: "timestamp \<Rightarrow> nat \<Rightarrow> bool" where
  "seen_within t now = (case t of None \<Rightarrow> False | Some x \<Rightarrow> now < x + PresenceWindow)"

text \<open>\<open>json_extract(x, '$.k') = s\<close> on a text value.\<close>

definition json_member :: "string \<Rightarrow> json \<Rightarrow> json option" where
  "json_member k j = (case j of JObj ms \<Rightarrow> map_option snd (find (\<lambda>m. unquote (fst m) = k) ms) | _ \<Rightarrow> None)"

definition json_text_is :: "string \<Rightarrow> string list \<Rightarrow> json \<Rightarrow> bool" where
  "json_text_is k vs j = (case json_member k j of Some (JStr b) \<Rightarrow> unquote b \<in> set vs | _ \<Rightarrow> False)"

text \<open>\<open>json_each\<close> of a member: the elements of an array, the values of an object, nothing when it is absent.\<close>

definition json_each :: "string \<Rightarrow> json \<Rightarrow> json list" where
  "json_each k j = (case json_member k j of Some (JArr js) \<Rightarrow> js | Some (JObj ms) \<Rightarrow> map snd ms | _ \<Rightarrow> [])"

definition legacy_present :: "nat \<Rightarrow> worker_row \<Rightarrow> bool" where
  "legacy_present now w \<longleftrightarrow> wk_revoked w = None \<and> wk_relay_capabilities w \<noteq> ''[]'' \<and> seen_within (wk_relay_seen w) now"

definition common_present :: "nat \<Rightarrow> worker_row \<Rightarrow> bool" where
  "common_present now w \<longleftrightarrow> wk_revoked w = None \<and> seen_within (wk_seen w) now \<and>
     (case json_parse (wk_presence w) of None \<Rightarrow> False
      | Some j \<Rightarrow> json_text_is ''protocol'' [''ailocals.v1''] j \<and>
          (\<exists>ce \<in> set (json_each ''capabilities'' j). json_text_is ''id'' [''llm.openai-relay.v1''] ce \<and>
             json_text_is ''state'' [''ready'', ''busy''] ce))"

text \<open>A row whose presence column is not JSON makes the second query fail, which counts as absent.\<close>

definition Available :: "nat \<Rightarrow> 'z hub_db_scheme \<Rightarrow> bool" where
  "Available now db \<longleftrightarrow>
     (\<exists>w \<in> set (hub_workers db). legacy_present now w) \<or>
     ((\<forall>w \<in> set (hub_workers db). wk_revoked w = None \<longrightarrow> json_parse (wk_presence w) \<noteq> None) \<and>
      (\<exists>w \<in> set (hub_workers db). common_present now w))"

section \<open>Requests and results in the database\<close>

definition json_valid :: "string \<Rightarrow> bool" where
  "json_valid s \<longleftrightarrow> json_parse s \<noteq> None"

definition relay_spec :: "string \<Rightarrow> string \<Rightarrow> string \<Rightarrow> job_spec" where
  "relay_spec payload h request =
     \<lparr>spec_id = [], spec_job_type = LLMRelayJobType, spec_target = TargetMacOS, spec_owner_type = OwnerType,
      spec_owner_id = request, spec_key = IdempotencyKey h, spec_input_hash = h, spec_payload = payload,
      spec_priority = 0, spec_max_attempts = 3, spec_available_at = None\<rparr>"

definition Relay_Enqueue ::
  "string \<Rightarrow> nat \<times> nat \<times> nat \<Rightarrow> string \<Rightarrow> string \<Rightarrow> string \<Rightarrow> 'z hub_db_scheme \<Rightarrow> (relay_fault + job) \<times> 'z hub_db_scheme" where
  "Relay_Enqueue fresh clocks payload h request db =
     (if payload = [] \<or> length payload > PayloadLimitBytes then (Inl (RelayMessage ''payload size''), db)
      else if request = [] \<or> h = [] then (Inl (RelayMessage ''request id and input hash are required''), db)
      else lift_jobs (on_jobs (Enqueue json_valid fresh clocks (relay_spec payload h request)) db))"

definition GetResult :: "relay_svc \<Rightarrow> string \<Rightarrow> 'z hub_db_scheme \<Rightarrow> relay_fault + stored_result" where
  "GetResult E jid db =
     (if ulid_is_zero jid then Inl (RelayMessage ''nil database'')
      else case find_by rr_job (ulid_string jid) (hub_results db) of
        None \<Rightarrow> Inl ResultMissing
      | Some r \<Rightarrow> (case ParseULID (ulid_parse E) (rr_job r) of
            Inl _ \<Rightarrow> Inl ResultIdentity
          | Inr u \<Rightarrow> Inr \<lparr>sr_job = u, sr_operation = rr_operation r, sr_json = rr_json r\<rparr>))"

text \<open>The result of a worker against the job's payload: the operation and the canonical bytes.\<close>

definition canonical_result :: "relay_svc \<Rightarrow> RelayPayload \<Rightarrow> string \<Rightarrow> relay_error + string \<times> string" where
  "canonical_result E p result =
     (if rp_operation p = OperationChatCompletion then
        bind_res (DecodeChatResult (relay_env.truncate E) result (rp_request p) (lim_bytes (rp_limits p))) (\<lambda>r.
        bind_res (CanonicalChatResult r) (\<lambda>c. Inr (OperationChatCompletion, c)))
      else if rp_operation p = OperationListModels then
        bind_res (DecodeListModelsResult result (rp_request p) (lim_bytes (rp_limits p))) (\<lambda>r.
        Inr (OperationListModels, CanonicalListModelsResult r))
      else Inl ''unsupported operation'')"

text \<open>The body of a transaction; \<open>now\<close> stamps the row, the last three clocks are those of \<open>jobs.CompleteTx\<close>.\<close>

definition Relay_CompleteTx ::
  "relay_svc \<Rightarrow> job \<Rightarrow> int \<Rightarrow> string \<Rightarrow> string \<Rightarrow> nat \<Rightarrow> nat \<Rightarrow> nat \<Rightarrow> 'z hub_db_scheme \<Rightarrow>
     (relay_fault + unit) \<times> 'z hub_db_scheme" where
  "Relay_CompleteTx E j attempt token result now live_clk retry_clk db =
     (if job_type j \<noteq> LLMRelayJobType then (Inl (RelayMessage ''cannot complete job type''), db)
      else if owner_type j \<noteq> OwnerType \<or> owner_id j = [] then (Inl (RelayMessage ''invalid relay owner''), db)
      else if int (length result) > ResultLimitBytes then (Inl (RelayMessage ''result exceeds the hard limit''), db)
      else case DecodeRelayPayload (payload_json j) of
        Inl e \<Rightarrow> (Inl (RelayMessage e), db)
      | Inr p \<Rightarrow>
          if lim_bytes (rp_limits p) \<le> 0 \<or> lim_bytes (rp_limits p) > ResultLimitBytes
          then (Inl (RelayMessage ''job bound exceeds the hard limit''), db)
          else case canonical_result E p result of
            Inl e \<Rightarrow> (Inl (RelayMessage e), db)
          | Inr (operation, canonical) \<Rightarrow>
              (case find_by rr_job (ulid_string (job_id j)) (hub_results db) of
                 Some r \<Rightarrow>
                   if rr_hash r \<noteq> sha E canonical then (Inl (NondeterministicError (ulid_string (job_id j))), db)
                   else lift_jobs (on_jobs (CompleteTx (sha E) (job_id j) attempt token now live_clk retry_clk) db)
               | None \<Rightarrow>
                   let db' = db\<lparr>hub_results := hub_results db @ [\<lparr>rr_job = ulid_string (job_id j), rr_input_hash = input_hash j,
                       rr_operation = operation, rr_json = canonical, rr_hash = sha E canonical, rr_created = Some now\<rparr>]\<rparr>
                   in lift_jobs (on_jobs (CompleteTx (sha E) (job_id j) attempt token now live_clk retry_clk) db')))"

section \<open>The durable wait\<close>

record 'd poll =
  pl_ctx :: "ctx_error option"
  pl_world :: "'d \<Rightarrow> 'd"
  pl_world2 :: "'d \<Rightarrow> 'd"
  pl_world3 :: "'d \<Rightarrow> 'd"
  pl_now :: nat

text \<open>One iteration: \<open>None\<close> when the loop goes on.\<close>

definition wait_poll ::
  "relay_svc \<Rightarrow> string \<Rightarrow> 'z hub_db_scheme poll \<Rightarrow> 'z hub_db_scheme \<Rightarrow>
     (relay_fault + stored_result) option \<times> 'z hub_db_scheme" where
  "wait_poll E jid p db0 =
     (let db = pl_world p db0 in
      case pl_ctx p of
        Some e \<Rightarrow> (Some (Inl (WaitCanceled e)), snd (on_jobs (Cancel jid CodeParentCanceled (pl_now p)) db))
      | None \<Rightarrow>
          (case Get jid (hub_jobs db) of
             Inl e \<Rightarrow> (Some (Inl (RelayJobs e)), db)
           | Inr j \<Rightarrow>
               let db2 = pl_world2 p db in
               (case job_state j of
                  Succeeded \<Rightarrow> (Some (GetResult E jid db2), db2)
                | Failed \<Rightarrow> (Some (Inl (TerminalError jid (error_code j))), db2)
                | Canceled \<Rightarrow> (Some (Inl (TerminalError jid (error_code j))), db2)
                | Queued \<Rightarrow>
                    if Available (pl_now p) db2 then (None, db2)
                    else (Some (Inl (RelayError CodeUnavailable)),
                          snd (on_jobs (Cancel jid CodeParentCanceled (pl_now p)) (pl_world3 p db2)))
                | _ \<Rightarrow>
                    (case RecoverExpiredJob None (\<lambda>_. pl_now p) (pl_now p) jid (hub_jobs db2, ()) of
                       (Inl e, (jb, _)) \<Rightarrow> (Some (Inl (RelayJobs e)), db2\<lparr>hub_jobs := jb\<rparr>)
                     | (Inr _, (jb, _)) \<Rightarrow> (None, db2\<lparr>hub_jobs := jb\<rparr>)))))"

text \<open>The loop over the polls that happen; \<open>None\<close>: it still waits when they are used up.\<close>

fun wait_loop ::
  "relay_svc \<Rightarrow> string \<Rightarrow> 'z hub_db_scheme poll list \<Rightarrow> 'z hub_db_scheme \<Rightarrow>
     (relay_fault + stored_result) option \<times> 'z hub_db_scheme" where
  "wait_loop E jid [] db = (None, db)"
| "wait_loop E jid (p # ps) db =
     (case wait_poll E jid p db of (None, db') \<Rightarrow> wait_loop E jid ps db' | (Some r, db') \<Rightarrow> (Some r, db'))"

definition Wait ::
  "relay_svc \<Rightarrow> string \<Rightarrow> 'z hub_db_scheme poll list \<Rightarrow> 'z hub_db_scheme \<Rightarrow>
     (relay_fault + stored_result) option \<times> 'z hub_db_scheme" where
  "Wait E jid polls db =
     (if ulid_is_zero jid then (Some (Inl (RelayMessage ''nil database'')), db) else wait_loop E jid polls db)"

section \<open>The provider's calls\<close>

definition AnnUnavailable :: string where "AnnUnavailable = ''v1.annotator_unavailable''"
definition AnnNotAuthenticated :: string where "AnnNotAuthenticated = ''v1.enrichment_not_authenticated''"
definition AnnTimeout :: string where "AnnTimeout = ''v1.enrichment_timeout''"
definition AnnProtocol :: string where "AnnProtocol = ''v1.enrichment_protocol_error''"
definition AnnInvalidOutput :: string where "AnnInvalidOutput = ''v1.enrichment_invalid_output''"
definition AnnProviderFailure :: string where "AnnProviderFailure = ''v1.enrichment_provider_failure''"
definition AnnInvalidInput :: string where "AnnInvalidInput = ''v1.enrichment_invalid_input''"

record RelayChatParams =
  cp_model :: string
  cp_messages :: "Message list"
  cp_schema :: string
  cp_temperature :: int
  cp_max_tokens :: int

record RelayChatOutcome =
  co_text :: string
  co_reported_model :: string
  co_provider_request :: string
  co_finish :: string
  co_usage :: string
  co_timing :: string
  co_job :: string
  co_request :: string
  co_model :: string

text \<open>The code of the \<open>annotator.Error\<close>; \<open>ctx\<close> is what \<open>ctx.Err\<close> says when the wait is over.\<close>

definition mapWaitError :: "ctx_error option \<Rightarrow> relay_fault \<Rightarrow> string" where
  "mapWaitError ctx e =
     (if ctx = Some CtxCanceled then AnnProviderFailure
      else if ctx = Some CtxDeadline then AnnTimeout
      else case e of
        TerminalError _ code \<Rightarrow>
          if code = CodeAuth then AnnNotAuthenticated
          else if code = CodeInvalidResponse then AnnInvalidOutput
          else if code \<in> {CodeUnreachable, CodeModelUnknown, LeaseExpiredErrorCode, CodeParentCanceled, CodeCanceled}
          then AnnUnavailable
          else AnnProviderFailure
      | RelayError code \<Rightarrow> if code = CodeUnavailable then AnnUnavailable else AnnProviderFailure
      | WaitCanceled CtxDeadline \<Rightarrow> AnnTimeout
      | _ \<Rightarrow> AnnProviderFailure)"

text \<open>What a call meets: fresh identifiers, the clocks of its queries, the polls of its wait and the context at the end.\<close>

record 'd call_world =
  cw_request :: string
  cw_fresh :: string
  cw_now :: nat
  cw_clocks :: "nat \<times> nat \<times> nat"
  cw_world :: "'d \<Rightarrow> 'd"
  cw_polls :: "'d poll list"
  cw_ctx :: "ctx_error option"

text \<open>Availability, enqueue and wait of one built request; the result is what the wait stored.\<close>

definition relay_call ::
  "relay_svc \<Rightarrow> 'z hub_db_scheme call_world \<Rightarrow> string \<times> string \<Rightarrow> 'z hub_db_scheme \<Rightarrow>
     (string + string \<times> stored_result) option \<times> 'z hub_db_scheme" where
  "relay_call E w built db =
     (if \<not> Available (cw_now w) db then (Some (Inl AnnUnavailable), db)
      else case Relay_Enqueue (cw_fresh w) (cw_clocks w) (fst built) (snd built) (ulid_string (cw_request w)) (cw_world w db) of
        (Inl e, db1) \<Rightarrow> (Some (Inl AnnProviderFailure), db1)
      | (Inr j, db1) \<Rightarrow>
          (case Wait E (job_id j) (cw_polls w) db1 of
             (None, db2) \<Rightarrow> (None, db2)
           | (Some (Inl e), db2) \<Rightarrow> (Some (Inl (mapWaitError (cw_ctx w) e)), db2)
           | (Some (Inr s), db2) \<Rightarrow> (Some (Inr (job_id j, s)), db2)))"

definition finish_call ::
  "(string \<times> stored_result \<Rightarrow> string + 'a) \<Rightarrow> (string + string \<times> stored_result) option \<times> 'd \<Rightarrow> (string + 'a) option \<times> 'd" where
  "finish_call f r = (case r of
       (None, db) \<Rightarrow> (None, db) | (Some (Inl e), db) \<Rightarrow> (Some (Inl e), db) | (Some (Inr s), db) \<Rightarrow> (Some (f s), db))"

definition ChatCompletion ::
  "relay_svc \<Rightarrow> 'z hub_db_scheme call_world \<Rightarrow> RelayChatParams \<Rightarrow> 'z hub_db_scheme \<Rightarrow>
     (string + RelayChatOutcome) option \<times> 'z hub_db_scheme" where
  "ChatCompletion E w params db =
     (case BuildChatCompletion (relay_env.truncate E) (cw_request w) (cp_model params) (cp_messages params) (cp_schema params)
             (cp_temperature params) (cp_max_tokens params) of
        Inl e \<Rightarrow> (Some (Inl AnnInvalidInput), db)
      | Inr built \<Rightarrow> finish_call (\<lambda>(jid, s).
          if sr_operation s \<noteq> OperationChatCompletion then Inl AnnProtocol
          else case DecodeChatResult (relay_env.truncate E) (sr_json s) (ulid_string (cw_request w)) MaxCompletionBytes of
            Inl e \<Rightarrow> Inl AnnInvalidOutput
          | Inr r \<Rightarrow> Inr \<lparr>co_text = cr_content r, co_reported_model = cr_model r, co_provider_request = cr_provider r,
              co_finish = cr_finish r, co_usage = cr_usage_json r, co_timing = cr_timing_json r, co_job = ulid_string jid,
              co_request = ulid_string (cw_request w), co_model = cp_model params\<rparr>) (relay_call E w built db))"

definition ListRelayModels ::
  "relay_svc \<Rightarrow> 'z hub_db_scheme call_world \<Rightarrow> 'z hub_db_scheme \<Rightarrow> (string + string list) option \<times> 'z hub_db_scheme" where
  "ListRelayModels E w db =
     (case BuildListModels (relay_env.truncate E) (cw_request w) of
        Inl e \<Rightarrow> (Some (Inl AnnProtocol), db)
      | Inr built \<Rightarrow> finish_call (\<lambda>(jid, s).
          if sr_operation s \<noteq> OperationListModels then Inl AnnProtocol
          else case DecodeListModelsResult (sr_json s) (ulid_string (cw_request w)) MaxCompletionBytes of
            Inl e \<Rightarrow> Inl AnnInvalidOutput
          | Inr r \<Rightarrow> Inr (mr_models r)) (relay_call E w built db))"

end
