(* ===== verification/Speech_Store.thy ===== *)
theory Speech_Store
  imports Localworker LLM_Relay
begin

text \<open>
  The speech store, internal/speech/store.go: units, profiles, renders, their jobs, the audio bindings of articles and the
  narration status.  The database of the relay service is extended by the speech tables and the article tables the store
  reads.  New identifiers come from a stream (\<open>ulids\<close>), one per \<open>NewULID\<close>; \<open>sd_drawn\<close> counts them.  The clock shows
  one time (\<open>now\<close>) during a transaction; \<open>clock_text\<close> is its printed form.
\<close>

record speech_svc = speech_env +
  ulids :: "nat \<Rightarrow> string"
  clock_text :: "nat \<Rightarrow> string"

definition RetentionLexical :: string where "RetentionLexical = ''lexical_permanent''"
definition RetentionNarration :: string where "RetentionNarration = ''article_narration''"

datatype render_state = RenderQueued | RenderGenerating | RenderReady | RenderFailed | RenderPurged

datatype narration_status =
    NarrationNotRequested | NarrationQueued | NarrationGenerating | NarrationPartial | NarrationReady
  | NarrationFailed | NarrationPurged

record render =
  rn_id :: string
  rn_unit :: string
  rn_profile :: string
  rn_hash :: string
  rn_retention :: string
  rn_state :: render_state
  rn_error :: string
  rn_duration :: int
  rn_size :: int
  rn_created :: timestamp
  rn_updated :: timestamp
  rn_ready :: timestamp

record article_row =
  at_id :: string
  at_language :: string
  at_narration :: narration_status
  at_error :: string
  at_updated :: timestamp

record block_row =
  bl_id :: string
  bl_article :: string
  bl_index :: int

record sentence_row =
  se_id :: string
  se_block :: string
  se_index :: int
  se_text :: string

text \<open>An occurrence with the texts of its spans in the order of their index.\<close>

record occurrence_row =
  oc_id :: string
  oc_block :: string
  oc_kind :: string
  oc_role :: string
  oc_sense :: "string option"
  oc_spans :: "string list"
  oc_context :: string

record sentence_audio =
  sa_article :: string
  sa_sentence :: string
  sa_render :: string
  sa_sequence :: nat

record occurrence_audio =
  oa_occurrence :: string
  oa_render :: string
  oa_preferred :: bool

record speech_db = hub_db +
  sd_units :: "speech_unit list"
  sd_profiles :: "speech_profile list"
  sd_renders :: "render list"
  sd_blobs :: "(string \<times> string) list"
  sd_articles :: "article_row list"
  sd_blocks :: "block_row list"
  sd_sentences :: "sentence_row list"
  sd_occurrences :: "occurrence_row list"
  sd_narration :: "sentence_audio list"
  sd_pronunciation :: "occurrence_audio list"
  sd_drawn :: nat

datatype speech_fault =
    SpeechMessage string
  | SpeechNoRows
  | SpeechConstraint
  | SpeechJobs job_error
  | NondeterministicResult string string string

type_synonym ('a, 'z) speech_op = "'z speech_db_scheme \<Rightarrow> (speech_fault + 'a) \<times> 'z speech_db_scheme"

text \<open>Sequencing with early return, and the lift of the value checks.\<close>

definition seq :: "('e + 'a) \<times> 's \<Rightarrow> ('a \<Rightarrow> 's \<Rightarrow> ('e + 'b) \<times> 's) \<Rightarrow> ('e + 'b) \<times> 's" where
  "seq m f = (case m of (Inl e, s) \<Rightarrow> (Inl e, s) | (Inr x, s) \<Rightarrow> f x s)"

definition checked :: "speech_error + 'a \<Rightarrow> speech_fault + 'a" where
  "checked r = (case r of Inl e \<Rightarrow> Inl (SpeechMessage e) | Inr x \<Rightarrow> Inr x)"

section \<open>Units\<close>

record unit_input =
  ui_language :: string
  ui_kind :: string
  ui_text :: string
  ui_context :: string
  ui_sense :: "string option"

definition unit_key :: "speech_unit \<Rightarrow> string \<times> string \<times> string \<times> string" where
  "unit_key u = (un_language u, un_kind u, un_text_hash u, un_context u)"

definition getUnit :: "string \<Rightarrow> 'z speech_db_scheme \<Rightarrow> speech_fault + speech_unit" where
  "getUnit uid db = (case find_by un_id uid (sd_units db) of None \<Rightarrow> Inl SpeechNoRows | Some u \<Rightarrow> Inr u)"

text \<open>\<open>ON CONFLICT DO NOTHING\<close> covers the primary key and the identity index, not the check on the text's length, which SQLite
  counts up to the first NUL.\<close>

definition EnsureUnitTx :: "speech_svc \<Rightarrow> nat \<Rightarrow> unit_input \<Rightarrow> (speech_unit, 'z) speech_op" where
  "EnsureUnitTx E now i db =
     (if ui_kind i \<notin> {UnitWord, UnitPhrase, UnitSentence} then (Inl (SpeechMessage ''unsupported speech unit kind''), db)
      else if blank (ui_language i) then (Inl (SpeechMessage ''speech unit language is required''), db)
      else case NormalizeTextHash (speech_env.truncate E) (ui_text i) of
        Inl e \<Rightarrow> (Inl (SpeechMessage e), db)
      | Inr h \<Rightarrow>
          let key = (ui_language i, ui_kind i, h, ui_context i) in
          (case find_by unit_key key (sd_units db) of
             Some u \<Rightarrow> (getUnit (un_id u) db, db)
           | None \<Rightarrow>
               let new = ulids E (sd_drawn db); db' = db\<lparr>sd_drawn := Suc (sd_drawn db)\<rparr> in
               if hd (ui_text i) = CHR 0x00 then (Inl SpeechConstraint, db')
               else if new \<in> un_id ` set (sd_units db) then (Inl SpeechNoRows, db')
               else let db'' = db'\<lparr>sd_units := sd_units db @ [\<lparr>un_id = new, un_language = ui_language i, un_kind = ui_kind i,
                      un_text = ui_text i, un_text_hash = h, un_context = ui_context i,
                      un_sense = (case ui_sense i of Some s \<Rightarrow> if ulid_is_zero s then None else Some (ulid_string s) | None \<Rightarrow> None),
                      un_created = clock_text E now\<rparr>]\<rparr>
                    in (getUnit new db'', db'')))"

section \<open>Profiles\<close>

definition profile_key :: "speech_profile \<Rightarrow> string list \<times> int list" where
  "profile_key p = ([pf_engine p, pf_model p, pf_language p, pf_voice p, pf_reference p, pf_mapping p, pf_mime p, pf_codec p],
     [pf_speed p, pf_pitch p, pf_rate p, pf_channels p])"

definition getProfileTx :: "string \<Rightarrow> 'z speech_db_scheme \<Rightarrow> speech_fault + speech_profile" where
  "getProfileTx pid db = (case find_by pf_id pid (sd_profiles db) of None \<Rightarrow> Inl SpeechNoRows | Some p \<Rightarrow> Inr p)"

text \<open>\<open>ORDER BY created_at DESC, id DESC LIMIT 1\<close>: the last in ascending order.\<close>

definition newest :: "('r \<Rightarrow> 'k::linorder) \<Rightarrow> 'r list \<Rightarrow> 'r option" where
  "newest k rs = (case rev (sort_key k rs) of [] \<Rightarrow> None | r # _ \<Rightarrow> Some r)"

definition ensureProfileTx :: "speech_svc \<Rightarrow> nat \<Rightarrow> speech_profile \<Rightarrow> (speech_profile, 'z) speech_op" where
  "ensureProfileTx E now p db =
     (case ValidateProfile p of
        Inl e \<Rightarrow> (Inl (SpeechMessage e), db)
      | Inr _ \<Rightarrow>
          (case newest (\<lambda>q. (pf_created q, pf_id q)) (filter (\<lambda>q. profile_key q = profile_key p \<and> pf_active q) (sd_profiles db)) of
             Some q \<Rightarrow> (getProfileTx (pf_id q) db, db)
           | None \<Rightarrow>
               let new = ulids E (sd_drawn db); db' = db\<lparr>sd_drawn := Suc (sd_drawn db)\<rparr> in
               if new \<in> pf_id ` set (sd_profiles db) then (Inl SpeechConstraint, db')
               else let db'' = db'\<lparr>sd_profiles := sd_profiles db @ [p\<lparr>pf_id := new, pf_active := True,
                      pf_created := clock_text E now, pf_updated := clock_text E now\<rparr>]\<rparr>
                    in (getProfileTx new db'', db'')))"

definition canonicalSpeechLanguage :: "speech_svc \<Rightarrow> string \<Rightarrow> speech_fault + string" where
  "canonicalSpeechLanguage E l =
     (let c = lower E (trim_space l) in
      if c = ''nl'' \<or> has_prefix ''nl-'' c then Inr ''nl'' else Inl (SpeechMessage ''speech profiles are only available for Dutch''))"

definition default_profile :: "string \<Rightarrow> string \<Rightarrow> string \<Rightarrow> string \<Rightarrow> string \<Rightarrow> speech_profile" where
  "default_profile engine model voice reference mapping =
     \<lparr>pf_id = [], pf_engine = engine, pf_model = model, pf_language = ''nl'', pf_voice = voice, pf_reference = reference,
      pf_speed = 1000, pf_pitch = 0, pf_mapping = mapping, pf_mime = AudioMIME, pf_codec = AudioCodec,
      pf_rate = AudioSampleRate, pf_channels = AudioChannels, pf_active = True, pf_created = [], pf_updated = []\<rparr>"

definition avspeech_default :: speech_profile where
  "avspeech_default = default_profile AVSpeechEngine ''macos-15.7.9-build-24G830'' ''com.apple.voice.compact.nl-NL.Xander'' []
     ''avspeech-rate-postprocess.v1''"

definition chatterbox_default :: speech_profile where
  "chatterbox_default = default_profile ChatterboxEngine ''03565773edd72e949572557597af8063bb49a18a'' ''doublangu-nl-reference-v1''
     ''1dd25cc2ea1aa8314af2ce2f062eb44beeb662482516177e098f58f6b6ce10f5'' ''mlx-audio-chatterbox.v1''"

definition DefaultProfilesTx :: "speech_svc \<Rightarrow> nat \<Rightarrow> string \<Rightarrow> (speech_profile \<times> speech_profile, 'z) speech_op" where
  "DefaultProfilesTx E now language db =
     (case canonicalSpeechLanguage E language of
        Inl e \<Rightarrow> (Inl e, db)
      | Inr _ \<Rightarrow> seq (ensureProfileTx E now avspeech_default db) (\<lambda>av db1.
          seq (ensureProfileTx E now chatterbox_default db1) (\<lambda>cb db2. (Inr (av, cb), db2))))"

section \<open>Renders\<close>

definition getRender :: "string \<Rightarrow> 'z speech_db_scheme \<Rightarrow> speech_fault + render \<times> string" where
  "getRender rid db = (case find_by rn_id rid (sd_renders db) of
       None \<Rightarrow> Inl SpeechNoRows
     | Some r \<Rightarrow> Inr (r, case map_of (sd_blobs db) rid of None \<Rightarrow> [] | Some d \<Rightarrow> d))"

definition requeue_render :: "nat \<Rightarrow> render \<Rightarrow> render" where
  "requeue_render now r = r\<lparr>rn_state := RenderQueued, rn_error := [], rn_ready := None, rn_updated := Some now\<rparr>"

definition new_render :: "string \<Rightarrow> nat \<Rightarrow> speech_unit \<Rightarrow> speech_profile \<Rightarrow> string \<Rightarrow> string \<Rightarrow> render" where
  "new_render rid now u p h retention =
     \<lparr>rn_id = rid, rn_unit = ulid_string (un_id u), rn_profile = ulid_string (pf_id p), rn_hash = h, rn_retention = retention,
      rn_state = RenderQueued, rn_error = [], rn_duration = 0, rn_size = 0, rn_created = Some now, rn_updated = Some now, rn_ready = None\<rparr>"

definition EnsureRenderTx ::
  "speech_svc \<Rightarrow> nat \<Rightarrow> speech_unit \<Rightarrow> speech_profile \<Rightarrow> string \<Rightarrow> bool \<Rightarrow> (render, 'z) speech_op" where
  "EnsureRenderTx E now u p retention reactivatePurged db =
     (if retention \<noteq> RetentionLexical \<and> retention \<noteq> RetentionNarration then (Inl (SpeechMessage ''invalid audio retention class''), db)
      else
        (let h = RequestHash (speech_env.truncate E) u p in
         case find_by rn_hash h (sd_renders db) of
           None \<Rightarrow>
             (let new = ulids E (sd_drawn db); db' = db\<lparr>sd_drawn := Suc (sd_drawn db)\<rparr> in
              if new \<in> rn_id ` set (sd_renders db) \<or> ulid_string (un_id u) \<notin> un_id ` set (sd_units db)
                 \<or> ulid_string (pf_id p) \<notin> pf_id ` set (sd_profiles db)
              then (Inl SpeechConstraint, db')
              else let db'' = db'\<lparr>sd_renders := sd_renders db @ [new_render new now u p h retention]\<rparr>
                   in (map_sum id fst (getRender new db''), db''))
         | Some r \<Rightarrow>
             if rn_unit r \<noteq> ulid_string (un_id u) \<or> rn_profile r \<noteq> ulid_string (pf_id p) \<or> rn_retention r \<noteq> retention
             then (Inl (SpeechMessage ''audio request hash collision with different render identity''), db)
             else if rn_state r = RenderFailed \<or> (reactivatePurged \<and> rn_state r = RenderPurged)
             then let db' = db\<lparr>sd_renders := update_where (\<lambda>q. rn_id q = rn_id r \<and> (rn_state q = RenderPurged \<or> rn_state q = RenderFailed))
                        (requeue_render now) (sd_renders db)\<rparr>
                  in (map_sum id fst (getRender (rn_id r) db'), db')
             else (map_sum id fst (getRender (rn_id r) db), db)))"

section \<open>Jobs of renders\<close>

record job_payload =
  jp_protocol :: string
  jp_render :: string
  jp_request :: string
  jp_unit :: string
  jp_type :: string
  jp_language :: string
  jp_kind :: string
  jp_text :: string
  jp_context :: string
  jp_profile :: speech_profile
  jp_limits :: audio_limits
  jp_expires :: string

definition profile_json :: "speech_profile \<Rightarrow> json" where
  "profile_json p = obj [(''id'', json_str (pf_id p)), (''engine'', json_str (pf_engine p)),
     (''model_revision'', json_str (pf_model p)), (''language'', json_str (pf_language p)),
     (''voice_identifier'', json_str (pf_voice p)), (''reference_audio_hash'', json_str (pf_reference p)),
     (''speed_milli'', json_of_int (pf_speed p)), (''pitch_cents'', json_of_int (pf_pitch p)),
     (''mapping_version'', json_str (pf_mapping p)), (''mime_type'', json_str (pf_mime p)), (''codec'', json_str (pf_codec p)),
     (''sample_rate_hz'', json_of_int (pf_rate p)), (''channels'', json_of_int (pf_channels p)),
     (''active'', JBool (pf_active p)), (''created_at'', json_str (pf_created p)), (''updated_at'', json_str (pf_updated p))]"

definition payload_json_of :: "job_payload \<Rightarrow> json" where
  "payload_json_of j = obj ([(''protocol_version'', json_str (jp_protocol j)), (''render_id'', json_str (jp_render j)),
     (''request_hash'', json_str (jp_request j)), (''speech_unit_id'', json_str (jp_unit j)), (''job_type'', json_str (jp_type j)),
     (''language'', json_str (jp_language j)), (''unit_kind'', json_str (jp_kind j)), (''spoken_text'', json_str (jp_text j)),
     (''context_pronunciation_key'', json_str (jp_context j)), (''profile'', profile_json (jp_profile j)),
     (''limits'', obj [(''max_bytes'', json_of_int (al_bytes (jp_limits j))), (''max_duration_ms'', json_of_int (al_duration (jp_limits j)))])]
     @ omit_empty ''expires_at'' (jp_expires j))"

definition speech_payload :: "render \<Rightarrow> speech_unit \<Rightarrow> speech_profile \<Rightarrow> string \<Rightarrow> job_payload" where
  "speech_payload r u p jtype =
     \<lparr>jp_protocol = Speech_Protocol, jp_render = ulid_string (rn_id r), jp_request = rn_hash r, jp_unit = ulid_string (un_id u),
      jp_type = jtype, jp_language = un_language u, jp_kind = un_kind u, jp_text = un_text u, jp_context = un_context u,
      jp_profile = p, jp_limits = Speech_Types.Limits (un_kind u), jp_expires = []\<rparr>"

definition speech_job_key :: "string \<Rightarrow> string" where
  "speech_job_key h = ''speech.render:'' @ h"

definition speech_spec :: "render \<Rightarrow> speech_unit \<Rightarrow> speech_profile \<Rightarrow> string \<Rightarrow> int \<Rightarrow> job_spec" where
  "speech_spec r u p jtype prio =
     \<lparr>spec_id = [], spec_job_type = jtype, spec_target = TargetMacOS, spec_owner_type = ''audio_render'',
      spec_owner_id = ulid_string (rn_id r), spec_key = speech_job_key (rn_hash r), spec_input_hash = rn_hash r,
      spec_payload = json_text (payload_json_of (speech_payload r u p jtype)), spec_priority = prio, spec_max_attempts = 0,
      spec_available_at = None\<rparr>"

definition requeue_job :: "nat \<Rightarrow> job \<Rightarrow> job" where
  "requeue_job now j = j\<lparr>job_state := Queued, attempt_count := 0, error_code := [], available_at := Some now, lease_owner := [],
     lease_token_hash := [], lease_expires_at := None, completed_at := None, updated_at := Some now\<rparr>"

text \<open>The \<open>UPDATE\<close> on the job table, outside the scheduler's own calls.\<close>

definition ensureSpeechJobTx ::
  "speech_svc \<Rightarrow> nat \<Rightarrow> render \<Rightarrow> speech_unit \<Rightarrow> speech_profile \<Rightarrow> string \<Rightarrow> int \<Rightarrow> (unit, 'z) speech_op" where
  "ensureSpeechJobTx E now r u p jtype prio db =
     (let hit = (\<lambda>j. idempotency_key j = speech_job_key (rn_hash r) \<and>
            (job_state j = Canceled \<or> job_state j = Failed \<or> (job_state j = Succeeded \<and> rn_state r = RenderQueued)));
          jb = (hub_jobs db)\<lparr>job_table := update_where hit (requeue_job now) (job_table (hub_jobs db))\<rparr>;
          fresh = ulids E (sd_drawn db);
          (res, jb') = EnqueueTx json_valid fresh (now, now, now) (speech_spec r u p jtype prio) jb
      in (map_sum SpeechJobs (\<lambda>_. ()) res, db\<lparr>hub_jobs := jb', sd_drawn := Suc (sd_drawn db)\<rparr>))"

section \<open>Queueing\<close>

definition source_language :: "speech_svc \<Rightarrow> string \<Rightarrow> 'z speech_db_scheme \<Rightarrow> speech_fault + string" where
  "source_language E aid db = (case find_by at_id aid (sd_articles db) of
       None \<Rightarrow> Inl SpeechNoRows | Some a \<Rightarrow> canonicalSpeechLanguage E (at_language a))"

text \<open>The rows of a table whose block belongs to the article, in the order of the blocks and a key of the row.\<close>

definition in_article :: "string \<Rightarrow> ('r \<Rightarrow> string) \<Rightarrow> ('r \<Rightarrow> 'k::linorder) \<Rightarrow> 'r list \<Rightarrow> 'z speech_db_scheme \<Rightarrow> 'r list" where
  "in_article aid blk key rows db =
     map snd (sort_key (\<lambda>(b, r). (bl_index b, key r))
       (concat (map (\<lambda>r. map (\<lambda>b. (b, r)) (filter (\<lambda>b. bl_id b = blk r \<and> bl_article b = aid) (sd_blocks db))) rows)))"

definition article_sentences :: "string \<Rightarrow> 'z speech_db_scheme \<Rightarrow> sentence_row list" where
  "article_sentences aid db = in_article aid se_block se_index (sd_sentences db) db"

text \<open>\<open>INSERT .. ON CONFLICT(article_sentence_id, purpose) DO UPDATE\<close>, with the unique index on article and sequence and the
  reference to the render.\<close>

definition bind_narration :: "sentence_audio \<Rightarrow> (unit, 'z) speech_op" where
  "bind_narration row db =
     (if sa_render row \<notin> rn_id ` set (sd_renders db) \<or>
         (\<exists>a \<in> set (sd_narration db). sa_sentence a \<noteq> sa_sentence row \<and> sa_article a = sa_article row \<and> sa_sequence a = sa_sequence row)
      then (Inl SpeechConstraint, db)
      else if sa_sentence row \<in> sa_sentence ` set (sd_narration db)
      then (Inr (), db\<lparr>sd_narration := update_where (\<lambda>a. sa_sentence a = sa_sentence row) (\<lambda>_. row) (sd_narration db)\<rparr>)
      else (Inr (), db\<lparr>sd_narration := sd_narration db @ [row]\<rparr>))"

definition narrate_sentence ::
  "speech_svc \<Rightarrow> nat \<Rightarrow> string \<Rightarrow> string \<Rightarrow> speech_profile \<Rightarrow> bool \<Rightarrow> nat \<Rightarrow> sentence_row \<Rightarrow> (unit, 'z) speech_op" where
  "narrate_sentence E now aid language p reactivatePurged n s db =
     seq (EnsureUnitTx E now \<lparr>ui_language = language, ui_kind = UnitSentence, ui_text = se_text s, ui_context = [], ui_sense = None\<rparr> db) (\<lambda>u db1.
     seq (EnsureRenderTx E now u p RetentionNarration reactivatePurged db1) (\<lambda>r db2.
     seq (ensureSpeechJobTx E now r u p ChatterboxJobType (if n = 0 then 70 else 50) db2) (\<lambda>_ db3.
     bind_narration \<lparr>sa_article = aid, sa_sentence = se_id s, sa_render = ulid_string (rn_id r), sa_sequence = n\<rparr> db3)))"

fun narrate_sentences ::
  "speech_svc \<Rightarrow> nat \<Rightarrow> string \<Rightarrow> string \<Rightarrow> speech_profile \<Rightarrow> bool \<Rightarrow> nat \<Rightarrow> sentence_row list \<Rightarrow> (unit, 'z) speech_op" where
  "narrate_sentences E now aid language p reactivatePurged n [] db = (Inr (), db)"
| "narrate_sentences E now aid language p reactivatePurged n (s # ss) db =
     seq (narrate_sentence E now aid language p reactivatePurged n s db)
       (\<lambda>_. narrate_sentences E now aid language p reactivatePurged (Suc n) ss)"

text \<open>The renders an article's narration is bound to.\<close>

definition narration_renders :: "string \<Rightarrow> 'z speech_db_scheme \<Rightarrow> render list" where
  "narration_renders aid db = concat (map (\<lambda>a. filter (\<lambda>r. rn_id r = sa_render a) (sd_renders db))
     (filter (\<lambda>a. sa_article a = aid) (sd_narration db)))"

definition narration_summary :: "string \<Rightarrow> 'z speech_db_scheme \<Rightarrow> narration_status \<times> string" where
  "narration_summary aid db =
     (let rs = narration_renders aid db;
          n = (\<lambda>st. count_where (\<lambda>r. rn_state r = st) rs);
          ready = n RenderReady; failed = n RenderFailed; queued = n RenderQueued; generating = n RenderGenerating
      in if rs = [] then (NarrationNotRequested, [])
         else (if ready = length rs then NarrationReady
               else if failed > 0 \<and> ready = 0 \<and> queued = 0 \<and> generating = 0 then NarrationFailed
               else if ready > 0 then NarrationPartial
               else NarrationQueued,
               if failed > 0 then
                 (case newest (\<lambda>r. (rn_updated r, rn_id r)) (filter (\<lambda>r. rn_state r = RenderFailed \<and> rn_error r \<noteq> []) rs) of
                    None \<Rightarrow> [] | Some r \<Rightarrow> rn_error r)
               else []))"

definition recomputeNarrationStatusTx :: "nat \<Rightarrow> string \<Rightarrow> 'z speech_db_scheme \<Rightarrow> 'z speech_db_scheme" where
  "recomputeNarrationStatusTx now aid db =
     (case narration_summary aid db of (status, code) \<Rightarrow>
        db\<lparr>sd_articles := update_where (\<lambda>a. at_id a = aid)
              (\<lambda>a. a\<lparr>at_narration := status, at_error := code, at_updated := Some now\<rparr>) (sd_articles db)\<rparr>)"

definition RecomputeNarrationStatus :: "nat \<Rightarrow> string \<Rightarrow> (unit, 'z) speech_op" where
  "RecomputeNarrationStatus now article db =
     with_transaction (\<lambda>s. (Inr (), recomputeNarrationStatusTx now (ulid_string article) s)) db"

definition QueueArticleNarrationTx :: "speech_svc \<Rightarrow> nat \<Rightarrow> string \<Rightarrow> bool \<Rightarrow> (unit, 'z) speech_op" where
  "QueueArticleNarrationTx E now article reactivatePurged db =
     (let aid = ulid_string article in
      case source_language E aid db of
        Inl e \<Rightarrow> (Inl e, db)
      | Inr language \<Rightarrow>
          seq (DefaultProfilesTx E now language db) (\<lambda>(_, p) db1.
          seq (narrate_sentences E now aid language p reactivatePurged 0 (article_sentences aid db1) db1) (\<lambda>_ db2.
            (Inr (), recomputeNarrationStatusTx now aid
               (db2\<lparr>sd_articles := update_where (\<lambda>a. at_id a = aid) (\<lambda>a. a\<lparr>at_error := [], at_updated := Some now\<rparr>) (sd_articles db2)\<rparr>)))))"

section \<open>Pronunciations\<close>

text \<open>\<open>GROUP_CONCAT\<close> of no span is NULL, which the scan into a string refuses.\<close>

definition occurrence_text :: "occurrence_row \<Rightarrow> speech_fault + string" where
  "occurrence_text o' = (if oc_spans o' = [] then Inl (SpeechMessage ''scan'') else Inr (join_with '' '' (oc_spans o')))"

definition scoped_occurrences :: "string \<Rightarrow> string \<Rightarrow> 'z speech_db_scheme \<Rightarrow> occurrence_row list" where
  "scoped_occurrences aid scope db =
     in_article aid oc_block oc_id
       (filter (\<lambda>o'. oc_role o' \<in> {''token'', ''contiguous_construction''} \<and> (scope = [] \<or> oc_block o' = scope)) (sd_occurrences db)) db"

definition bind_pronunciation :: "string \<Rightarrow> string \<Rightarrow> (unit, 'z) speech_op" where
  "bind_pronunciation occ rid db =
     (let cleared = update_where (\<lambda>a. oa_occurrence a = occ) (\<lambda>a. a\<lparr>oa_preferred := False\<rparr>) (sd_pronunciation db)
      in if rid \<notin> rn_id ` set (sd_renders db) then (Inl SpeechConstraint, db\<lparr>sd_pronunciation := cleared\<rparr>)
         else (Inr (), db\<lparr>sd_pronunciation :=
           (if \<exists>a \<in> set cleared. oa_occurrence a = occ \<and> oa_render a = rid
            then update_where (\<lambda>a. oa_occurrence a = occ \<and> oa_render a = rid) (\<lambda>a. a\<lparr>oa_preferred := True\<rparr>) cleared
            else cleared @ [\<lparr>oa_occurrence = occ, oa_render = rid, oa_preferred = True\<rparr>])\<rparr>))"

text \<open>A phrase of more than eighty scalars or eight words is skipped.\<close>

definition pronounce_occurrence ::
  "speech_svc \<Rightarrow> nat \<Rightarrow> string \<Rightarrow> speech_profile \<Rightarrow> occurrence_row \<times> string \<Rightarrow> (unit, 'z) speech_op" where
  "pronounce_occurrence E now language p ot db =
     (let (o', text) = ot;
          phrase = (oc_role o' = ''contiguous_construction'');
          kind = (if phrase then UnitPhrase else UnitWord);
          prio = (if phrase then 90 else 100)
      in if phrase \<and> (length (runes text) > 80 \<or> length (str_fields text) > 8) then (Inr (), db)
         else seq (EnsureUnitTx E now \<lparr>ui_language = language, ui_kind = kind, ui_text = text, ui_context = oc_context o',
                     ui_sense = oc_sense o'\<rparr> db) (\<lambda>u db1.
              seq (EnsureRenderTx E now u p RetentionLexical False db1) (\<lambda>r db2.
              seq (ensureSpeechJobTx E now r u p AVSpeechJobType prio db2) (\<lambda>_ db3.
                bind_pronunciation (oc_id o') (ulid_string (rn_id r)) db3))))"

fun pronounce_occurrences ::
  "speech_svc \<Rightarrow> nat \<Rightarrow> string \<Rightarrow> speech_profile \<Rightarrow> (occurrence_row \<times> string) list \<Rightarrow> (unit, 'z) speech_op" where
  "pronounce_occurrences E now language p [] db = (Inr (), db)"
| "pronounce_occurrences E now language p (o' # os) db =
     seq (pronounce_occurrence E now language p o' db) (\<lambda>_. pronounce_occurrences E now language p os)"

definition queuePronunciationsTx :: "speech_svc \<Rightarrow> nat \<Rightarrow> string \<Rightarrow> string \<Rightarrow> (unit, 'z) speech_op" where
  "queuePronunciationsTx E now aid scope db =
     (case source_language E aid db of
        Inl e \<Rightarrow> (Inl e, db)
      | Inr language \<Rightarrow>
          seq (DefaultProfilesTx E now language db) (\<lambda>(p, _) db1.
            case map_res (\<lambda>o'. map_sum id (Pair o') (occurrence_text o')) (scoped_occurrences aid scope db1) of
              Inl e \<Rightarrow> (Inl e, db1)
            | Inr os \<Rightarrow> pronounce_occurrences E now language p os db1))"

definition QueueBlockPronunciationsTx :: "speech_svc \<Rightarrow> nat \<Rightarrow> string \<Rightarrow> string \<Rightarrow> (unit, 'z) speech_op" where
  "QueueBlockPronunciationsTx E now article block db =
     (case source_language E (ulid_string article) db of
        Inl e \<Rightarrow> (Inl e, db)
      | Inr language \<Rightarrow>
          seq (DefaultProfilesTx E now language db) (\<lambda>_ db1.
            queuePronunciationsTx E now (ulid_string article) (ulid_string block) db1))"

definition QueueArticleAudioTx :: "speech_svc \<Rightarrow> nat \<Rightarrow> string \<Rightarrow> bool \<Rightarrow> (unit, 'z) speech_op" where
  "QueueArticleAudioTx E now article reactivatePurged db =
     seq (QueueArticleNarrationTx E now article reactivatePurged db) (\<lambda>_. queuePronunciationsTx E now (ulid_string article) [])"

definition QueueArticleAudio :: "speech_svc \<Rightarrow> nat \<Rightarrow> string \<Rightarrow> bool \<Rightarrow> (unit, 'z) speech_op" where
  "QueueArticleAudio E now article reactivatePurged db =
     with_transaction (QueueArticleAudioTx E now article reactivatePurged) db"

section \<open>Render states\<close>

definition update_render :: "string \<Rightarrow> (render \<Rightarrow> bool) \<Rightarrow> (render \<Rightarrow> render) \<Rightarrow> 'z speech_db_scheme \<Rightarrow> 'z speech_db_scheme" where
  "update_render rid P f db = db\<lparr>sd_renders := update_where (\<lambda>r. rn_id r = rid \<and> P r) f (sd_renders db)\<rparr>"

definition SetRenderGenerating :: "nat \<Rightarrow> string \<Rightarrow> (unit, 'z) speech_op" where
  "SetRenderGenerating now renderID db =
     (let rid = ulid_string renderID; P = (\<lambda>r. rn_state r \<in> {RenderQueued, RenderFailed, RenderGenerating}) in
      if count_where (\<lambda>r. rn_id r = rid \<and> P r) (sd_renders db) \<noteq> 0
      then (Inr (), update_render rid P (\<lambda>r. r\<lparr>rn_state := RenderGenerating, rn_error := [], rn_updated := Some now\<rparr>) db)
      else case find_by rn_id rid (sd_renders db) of
        None \<Rightarrow> (Inl SpeechNoRows, db)
      | Some r \<Rightarrow> if rn_state r = RenderReady then (Inr (), db) else (Inl (SpeechMessage ''audio render is not queueable''), db))"

definition validSpeechErrorCode :: "string \<Rightarrow> bool" where
  "validSpeechErrorCode code \<longleftrightarrow> has_prefix ''v1.'' code \<and> length code \<le> 120 \<and>
     (\<forall>r \<in> set (runes code). byte CHR ''a'' \<le> r \<and> r \<le> byte CHR ''z'' \<or> byte CHR ''0'' \<le> r \<and> r \<le> byte CHR ''9'' \<or>
        r \<in> {byte CHR ''.'', byte CHR ''_'', byte CHR ''-''})"

definition fail_render :: "nat \<Rightarrow> string \<Rightarrow> string \<Rightarrow> 'z speech_db_scheme \<Rightarrow> 'z speech_db_scheme" where
  "fail_render now rid code = update_render rid (\<lambda>r. rn_state r \<in> {RenderQueued, RenderGenerating})
     (\<lambda>r. r\<lparr>rn_state := RenderFailed, rn_error := code, rn_updated := Some now\<rparr>)"

definition MarkRenderFailed :: "nat \<Rightarrow> string \<Rightarrow> string \<Rightarrow> (unit, 'z) speech_op" where
  "MarkRenderFailed now renderID code db =
     (if \<not> validSpeechErrorCode code then (Inl (SpeechMessage ''invalid speech error code''), db)
      else (Inr (), fail_render now (ulid_string renderID) code db))"

definition ready_row :: "nat \<Rightarrow> artifact_metadata \<Rightarrow> bool \<Rightarrow> render \<Rightarrow> render" where
  "ready_row now m keep r = r\<lparr>rn_state := RenderReady, rn_error := [], rn_duration := am_duration m, rn_size := am_size m,
     rn_ready := (if keep \<and> rn_ready r \<noteq> None then rn_ready r else Some now), rn_updated := Some now\<rparr>"

text \<open>\<open>audio_blob_reference\<close> has the render as its key; the blob row exists, the media store wrote it before.  SQLite's
  checks refuse negative durations and sizes.\<close>

definition MarkRenderReadyTx :: "nat \<Rightarrow> string \<Rightarrow> string \<Rightarrow> string \<Rightarrow> artifact_metadata \<Rightarrow> (unit, 'z) speech_op" where
  "MarkRenderReadyTx now renderID request digest m db =
     (let rid = ulid_string renderID in
      if am_request m \<noteq> request then (Inl (SpeechMessage ''audio request hash mismatch''), db)
      else case find_by rn_id rid (sd_renders db) of
        None \<Rightarrow> (Inl SpeechNoRows, db)
      | Some r \<Rightarrow>
          if rn_hash r \<noteq> request then (Inl (SpeechMessage ''audio render request identity mismatch''), db)
          else case map_of (sd_blobs db) rid of
            Some old \<Rightarrow>
              if old \<noteq> digest then (Inl (NondeterministicResult renderID old digest), db)
              else if rn_state r = RenderReady then (Inr (), db)
              else if am_duration m < 0 \<or> am_size m < 0 then (Inl SpeechConstraint, db)
              else (Inr (), update_render rid (\<lambda>q. rn_hash q = request) (ready_row now m True) db)
          | None \<Rightarrow>
              if rn_state r = RenderReady then (Inl (SpeechMessage ''ready audio render has no blob reference''), db)
              else
                (let db' = db\<lparr>sd_blobs := sd_blobs db @ [(rid, digest)]\<rparr> in
                 if rn_state r \<in> {RenderQueued, RenderGenerating} \<and> (am_duration m < 0 \<or> am_size m < 0) then (Inl SpeechConstraint, db')
                 else (Inr (), update_render rid (\<lambda>q. rn_hash q = request \<and> rn_state q \<in> {RenderQueued, RenderGenerating, RenderReady})
                        (ready_row now m False) db')))"

section \<open>Terminal failures and the narration status\<close>

definition bound_articles :: "string \<Rightarrow> 'z speech_db_scheme \<Rightarrow> string list" where
  "bound_articles rid db = remdups (map sa_article (filter (\<lambda>a. sa_render a = rid) (sd_narration db)))"

definition ReconcileTerminalJobTx :: "nat \<Rightarrow> job \<Rightarrow> 'z speech_db_scheme \<Rightarrow> 'z speech_db_scheme" where
  "ReconcileTerminalJobTx now j db =
     (if job_state j \<noteq> Failed \<or> owner_type j \<noteq> ''audio_render'' \<or> (job_type j \<noteq> AVSpeechJobType \<and> job_type j \<noteq> ChatterboxJobType)
      then db
      else fold (recomputeNarrationStatusTx now) (bound_articles (owner_id j) db)
             (fail_render now (owner_id j) (if validSpeechErrorCode (error_code j) then error_code j else LeaseExpiredErrorCode) db))"

text \<open>The recovery callback of the worker service's scheduler; it leaves the scheduler's own tables to the scheduler.\<close>

definition speech_recovery :: "nat \<Rightarrow> 'z speech_db_scheme recovery" where
  "speech_recovery now = Some (\<lambda>j db. Inr (ReconcileTerminalJobTx now j db))"

definition Speech_RecoverExpired :: "nat \<Rightarrow> 'z speech_db_scheme \<Rightarrow> (job_error + nat) \<times> 'z speech_db_scheme" where
  "Speech_RecoverExpired now db =
     (case RecoverExpired (speech_recovery now) (\<lambda>_. now) now (hub_jobs db, db) of
        (r, (jb, db')) \<Rightarrow> (r, db'\<lparr>hub_jobs := jb\<rparr>))"

section \<open>Clearing and reading narration\<close>

record clear_result =
  cr_sentences :: nat
  cr_reclaimed :: int
  cr_retained :: int
  cr_purged :: nat
  cr_digests :: "string list"

definition purge_render :: "nat \<Rightarrow> string \<times> int \<times> string \<Rightarrow> 'z speech_db_scheme \<Rightarrow> clear_result \<Rightarrow>
     (speech_fault + clear_result) \<times> 'z speech_db_scheme" where
  "purge_render now info db res =
     (let (rid, size, digest) = info in
      if \<exists>a \<in> set (sd_narration db). sa_render a = rid then (Inr (res\<lparr>cr_retained := cr_retained res + size\<rparr>), db)
      else (case CancelOwnerJobsTx ''audio_render'' rid ChatterboxJobType ''v1.narration_cleared'' now (hub_jobs db) of
              (Inl e, jb) \<Rightarrow> (Inl (SpeechJobs e), db\<lparr>hub_jobs := jb\<rparr>)
            | (Inr _, jb) \<Rightarrow>
                (let db1 = db\<lparr>hub_jobs := jb\<rparr>;
                     db2 = (if digest \<noteq> [] then db1\<lparr>sd_blobs := filter (\<lambda>b. fst b \<noteq> rid) (sd_blobs db1)\<rparr> else db1)
                 in (Inr (res\<lparr>cr_reclaimed := cr_reclaimed res + size, cr_purged := Suc (cr_purged res),
                            cr_digests := (if digest \<noteq> [] then cr_digests res @ [digest] else cr_digests res)\<rparr>),
                     update_render rid (\<lambda>_. True) (\<lambda>r. r\<lparr>rn_state := RenderPurged, rn_error := [], rn_updated := Some now\<rparr>) db2))))"

fun purge_renders :: "nat \<Rightarrow> (string \<times> int \<times> string) list \<Rightarrow> clear_result \<Rightarrow>
     'z speech_db_scheme \<Rightarrow> (speech_fault + clear_result) \<times> 'z speech_db_scheme" where
  "purge_renders now [] res db = (Inr res, db)"
| "purge_renders now (i # is) res db = seq (purge_render now i db res) (purge_renders now is)"

definition clear_infos :: "string \<Rightarrow> 'z speech_db_scheme \<Rightarrow> (string \<times> int \<times> string) list" where
  "clear_infos aid db = remdups (map (\<lambda>r. (rn_id r, rn_size r, case map_of (sd_blobs db) (rn_id r) of None \<Rightarrow> [] | Some d \<Rightarrow> d))
     (filter (\<lambda>r. rn_retention r = RetentionNarration) (narration_renders aid db)))"

definition clearNarrationBody :: "nat \<Rightarrow> string \<Rightarrow> (clear_result, 'z) speech_op" where
  "clearNarrationBody now aid db =
     (if aid \<notin> at_id ` set (sd_articles db) then (Inl SpeechNoRows, db)
      else
        (let infos = clear_infos aid db;
             res = \<lparr>cr_sentences = count_where (\<lambda>a. sa_article a = aid) (sd_narration db), cr_reclaimed = 0, cr_retained = 0,
                    cr_purged = 0, cr_digests = []\<rparr>;
             db1 = db\<lparr>sd_narration := filter (\<lambda>a. sa_article a \<noteq> aid) (sd_narration db)\<rparr>
         in seq (purge_renders now infos res db1) (\<lambda>res' db2.
              (Inr res', db2\<lparr>sd_articles := update_where (\<lambda>a. at_id a = aid)
                 (\<lambda>a. a\<lparr>at_narration := NarrationPurged, at_error := [], at_updated := Some now\<rparr>) (sd_articles db2)\<rparr>))))"

definition ClearNarration :: "nat \<Rightarrow> string \<Rightarrow> (clear_result, 'z) speech_op" where
  "ClearNarration now article db = with_transaction (clearNarrationBody now (ulid_string article)) db"

record audio_ref =
  ad_render :: string
  ad_ready :: bool
  ad_duration :: int
  ad_size :: int
  ad_error :: string

record narration =
  nr_status :: narration_status
  nr_error :: string
  nr_clips :: "(string \<times> nat \<times> audio_ref option) list"
  nr_ready :: nat
  nr_duration :: int
  nr_size :: int
  nr_reclaimable :: int

text \<open>The left joins give one clip per sentence: the primary key admits one narration binding of a sentence.\<close>

definition clip_audio :: "string \<Rightarrow> 'z speech_db_scheme \<Rightarrow> sentence_row \<Rightarrow> audio_ref option" where
  "clip_audio aid db s =
     (case find (\<lambda>a. sa_sentence a = se_id s \<and> sa_article a = aid) (sd_narration db) of
        None \<Rightarrow> None
      | Some a \<Rightarrow> (case find_by rn_id (sa_render a) (sd_renders db) of
            None \<Rightarrow> None
          | Some r \<Rightarrow> Some \<lparr>ad_render = rn_id r, ad_ready = (rn_state r = RenderReady), ad_duration = rn_duration r,
                ad_size = rn_size r, ad_error = rn_error r\<rparr>))"

definition reclaimable :: "string \<Rightarrow> 'z speech_db_scheme \<Rightarrow> render list" where
  "reclaimable aid db = remdups (filter (\<lambda>r. rn_retention r = RetentionNarration \<and> rn_state r = RenderReady \<and>
     \<not> (\<exists>a \<in> set (sd_narration db). sa_render a = rn_id r \<and> sa_article a \<noteq> aid)) (narration_renders aid db))"

definition GetNarration :: "string \<Rightarrow> 'z speech_db_scheme \<Rightarrow> speech_fault + narration" where
  "GetNarration article db =
     (let aid = ulid_string article in
      case find_by at_id aid (sd_articles db) of
        None \<Rightarrow> Inl SpeechNoRows
      | Some a \<Rightarrow>
          (let ss = article_sentences aid db;
               clips = map (\<lambda>(n, s). (se_id s, n, clip_audio aid db s)) (enumerate 0 ss);
               ready = filter ad_ready (concat (map (\<lambda>(_, _, c). case c of None \<Rightarrow> [] | Some x \<Rightarrow> [x]) clips))
           in Inr \<lparr>nr_status = at_narration a, nr_error = at_error a, nr_clips = clips, nr_ready = length ready,
                nr_duration = sum_list (map ad_duration ready), nr_size = sum_list (map ad_size ready),
                nr_reclaimable = sum_list (map rn_size (reclaimable aid db))\<rparr>))"

end
