(* ===== verification/Media.thy ===== *)
theory Media
  imports Speech_Store
begin

text \<open>
  The media store, internal/media/media.go: content-addressed files beside the rows that record them.  The two
  directories, the database and the prepared writes of the process are a \<open>world\<close>; every call of the operating system or
  of SQLite asks \<open>me_fault\<close> for its outcome: it works, it fails without effect (a write may leave a part of its data), or
  the process ends there.  A commit may also fail with its effect (\<open>FailsLate\<close>); for every other call that is a failure.
  A process that ends keeps files and committed rows only.  The fields that a test may replace (\<open>rename\<close>, \<open>remove\<close>,
  \<open>commit\<close>, the hooks around the lock) are nil.  Calls on one digest exclude each other by its lease (theory Media_Lease).
\<close>

section \<open>Names\<close>

definition lower_hex :: "char \<Rightarrow> bool" where
  "lower_hex c \<longleftrightarrow> (48 \<le> byte c \<and> byte c \<le> 57) \<or> (97 \<le> byte c \<and> byte c \<le> 102)"

definition validDigest :: "string \<Rightarrow> bool" where
  "validDigest d \<longleftrightarrow> length d = 64 \<and> list_all lower_hex d"

text \<open>\<open>None\<close> is the empty digest; the flag tells a cleanup artifact.\<close>

definition tempArtifact :: "string \<Rightarrow> (string \<times> bool) option" where
  "tempArtifact name =
     (if length name \<le> 64 \<or> \<not> validDigest (take 64 name) \<or> name ! 64 \<noteq> CHR ''.'' \<or> \<not> has_prefix (rev ''.tmp'') (rev name) then None
      else if has_prefix ''cleanup-'' (drop 65 name) then Some (take 64 name, True)
      else if has_prefix ''write-'' (drop 65 name) then Some (take 64 name, False)
      else None)"

section \<open>The world\<close>

datatype fpath = InTemp string | InBlobs string

datatype call =
    CreateTemp string | WriteFile fpath | SyncFile fpath | CloseFile fpath | OpenFile fpath | StatFile fpath | ReadFile fpath
  | RenameFile fpath fpath | RemoveFile fpath | ReadDir string | BeginTx | RollbackTx | CommitTx | Sql string

datatype outcome = Works | Fails | FailsLate | Crashes

record media_env =
  me_self :: nat
  me_sha :: "string \<Rightarrow> string"
  me_fault :: "nat \<Rightarrow> call \<Rightarrow> outcome"
  me_num :: "nat \<Rightarrow> nat"
  me_ulid :: "nat \<Rightarrow> string"
  me_time :: "nat \<Rightarrow> string"

record blob_row =
  br_digest :: string
  br_size :: int
  br_mime :: string

record blob_reference =
  bf_id :: string
  bf_asset :: string
  bf_digest :: string
  bf_created :: string

record media_db = speech_db +
  md_blobs :: "blob_row list"
  md_refs :: "blob_reference list"
  md_assets :: "string list"

datatype prepared_status = Prepared | Finalizing | Finalized

record prepared_write =
  pw_store :: nat
  pw_digest :: string
  pw_size :: int
  pw_temp :: string
  pw_lease :: "(nat \<times> string) option"
  pw_status :: prepared_status

record 'd world =
  wd_temp :: "(string \<times> string) list"
  wd_blobs :: "(string \<times> string) list"
  wd_db :: 'd
  wd_writes :: "prepared_write list"
  wd_leases :: "string list"
  wd_tick :: nat

datatype 'e media_fault =
    ErrInvalidPreparedWrite | ErrFinalizedPreparedWrite | MediaError string | MediaMissing string | MediaNoRows string
  | MediaConflict string | CallbackError 'e | Joined "'e media_fault" "'e media_fault"

definition joinFailure :: "'e media_fault option \<Rightarrow> 'e media_fault option \<Rightarrow> 'e media_fault option" where
  "joinFailure primary cleanup =
     (case primary of None \<Rightarrow> cleanup | Some p \<Rightarrow> (case cleanup of None \<Rightarrow> Some p | Some c \<Rightarrow> Some (Joined p c)))"

text \<open>A run: \<open>None\<close> when the process ended in it.\<close>

type_synonym ('a, 'd) run = "'a option \<times> 'd world"

definition next_io :: "('a, 'd) run \<Rightarrow> ('a \<Rightarrow> 'd world \<Rightarrow> ('b, 'd) run) \<Rightarrow> ('b, 'd) run" where
  "next_io m f = (case m of (None, w) \<Rightarrow> (None, w) | (Some x, w) \<Rightarrow> f x w)"

definition tick :: "'d world \<Rightarrow> 'd world" where
  "tick w = w\<lparr>wd_tick := Suc (wd_tick w)\<rparr>"

definition act :: "media_env \<Rightarrow> call \<Rightarrow> ('d world \<Rightarrow> 'a \<times> 'd world) \<Rightarrow> 'a \<Rightarrow> 'd world \<Rightarrow> ('a, 'd) run" where
  "act E c works failed w =
     (case me_fault E (wd_tick w) c of
        Works \<Rightarrow> (let (x, w') = works (tick w) in (Some x, w'))
      | Crashes \<Rightarrow> (None, tick w)
      | _ \<Rightarrow> (Some failed, tick w))"

section \<open>File operations\<close>

datatype io_error = NotExist | IoError

fun content :: "fpath \<Rightarrow> 'd world \<Rightarrow> string option" where
  "content (InTemp n) w = map_of (wd_temp w) n"
| "content (InBlobs n) w = map_of (wd_blobs w) n"

definition without :: "'k \<Rightarrow> ('k \<times> 'v) list \<Rightarrow> ('k \<times> 'v) list" where
  "without k xs = filter (\<lambda>e. fst e \<noteq> k) xs"

fun drop_file :: "fpath \<Rightarrow> 'd world \<Rightarrow> 'd world" where
  "drop_file (InTemp n) w = w\<lparr>wd_temp := without n (wd_temp w)\<rparr>"
| "drop_file (InBlobs n) w = w\<lparr>wd_blobs := without n (wd_blobs w)\<rparr>"

fun put_file :: "fpath \<Rightarrow> string \<Rightarrow> 'd world \<Rightarrow> 'd world" where
  "put_file (InTemp n) b w = w\<lparr>wd_temp := (n, b) # without n (wd_temp w)\<rparr>"
| "put_file (InBlobs n) b w = w\<lparr>wd_blobs := (n, b) # without n (wd_blobs w)\<rparr>"

text \<open>\<open>os.CreateTemp\<close> settles on a number; a name that is in use is the failure of all its tries.\<close>

definition create_temp :: "media_env \<Rightarrow> string \<Rightarrow> 'd world \<Rightarrow> (string option, 'd) run" where
  "create_temp E prefix w =
     (let name = prefix @ decimal (me_num E (wd_tick w)) @ ''.tmp'' in
      act E (CreateTemp prefix)
        (\<lambda>w. if content (InTemp name) w \<noteq> None then (None, w) else (Some name, put_file (InTemp name) [] w)) None w)"

text \<open>A write that fails, and one in which the process ends, leaves a part.\<close>

definition write_file :: "media_env \<Rightarrow> fpath \<Rightarrow> string \<Rightarrow> 'd world \<Rightarrow> (bool, 'd) run" where
  "write_file E p data w =
     (let part = put_file p (take (me_num E (wd_tick w)) data) (tick w) in
      case me_fault E (wd_tick w) (WriteFile p) of
        Works \<Rightarrow> (Some True, put_file p data (tick w))
      | Crashes \<Rightarrow> (None, part)
      | _ \<Rightarrow> (Some False, part))"

definition simple_call :: "media_env \<Rightarrow> call \<Rightarrow> 'd world \<Rightarrow> (bool, 'd) run" where
  "simple_call E c = act E c (\<lambda>w. (True, w)) False"

definition removeFile :: "media_env \<Rightarrow> fpath \<Rightarrow> 'd world \<Rightarrow> (io_error option, 'd) run" where
  "removeFile E p = act E (RemoveFile p) (\<lambda>w. if content p w = None then (Some NotExist, w) else (None, drop_file p w)) (Some IoError)"

definition renameFile :: "media_env \<Rightarrow> fpath \<Rightarrow> fpath \<Rightarrow> 'd world \<Rightarrow> (io_error option, 'd) run" where
  "renameFile E p q = act E (RenameFile p q)
     (\<lambda>w. case content p w of None \<Rightarrow> (Some NotExist, w) | Some b \<Rightarrow> (None, put_file q b (drop_file p w))) (Some IoError)"

definition stat_file :: "media_env \<Rightarrow> fpath \<Rightarrow> 'd world \<Rightarrow> (io_error + bool, 'd) run" where
  "stat_file E p = act E (StatFile p) (\<lambda>w. (Inr (content p w \<noteq> None), w)) (Inl IoError)"

definition read_file :: "media_env \<Rightarrow> fpath \<Rightarrow> 'd world \<Rightarrow> (io_error + string, 'd) run" where
  "read_file E p = act E (ReadFile p) (\<lambda>w. (case content p w of None \<Rightarrow> Inl NotExist | Some b \<Rightarrow> Inr b, w)) (Inl IoError)"

text \<open>The errors of a removal that count: a file that is not there does not.\<close>

definition remove_error :: "string \<Rightarrow> io_error option \<Rightarrow> 'e media_fault option" where
  "remove_error msg r = (case r of Some IoError \<Rightarrow> Some (MediaError msg) | _ \<Rightarrow> None)"

definition remove_quiet :: "media_env \<Rightarrow> fpath \<Rightarrow> string \<Rightarrow> 'd world \<Rightarrow> ('e media_fault option, 'd) run" where
  "remove_quiet E p msg w = next_io (removeFile E p w) (\<lambda>r w. (Some (remove_error msg r), w))"

definition blobPath :: "string \<Rightarrow> fpath" where
  "blobPath digest = InBlobs digest"

definition BlobPath :: "string \<Rightarrow> fpath" where
  "BlobPath digest = blobPath digest"

definition verifyFile :: "media_env \<Rightarrow> fpath \<Rightarrow> string \<Rightarrow> int \<Rightarrow> 'd world \<Rightarrow> ('e media_fault option, 'd) run" where
  "verifyFile E p digest n w =
     next_io (act E (OpenFile p) (\<lambda>w. (content p w, w)) None w) (\<lambda>data w. case data of
       None \<Rightarrow> (Some (Some (MediaError ''open for verify'')), w)
     | Some b \<Rightarrow> next_io (simple_call E (StatFile p) w) (\<lambda>there w.
         if \<not> there then (Some (Some (MediaError ''stat for verify'')), w)
         else if int (length b) \<noteq> n then (Some (Some (MediaError ''size mismatch'')), w)
         else next_io (simple_call E (ReadFile p) w) (\<lambda>ok w.
           if \<not> ok then (Some (Some (MediaError ''hash for verify'')), w)
           else if me_sha E b \<noteq> digest then (Some (Some (MediaError ''digest mismatch'')), w)
           else (Some None, w))))"

section \<open>Prepared writes\<close>

definition lease_digest :: "string \<Rightarrow> 'd world \<Rightarrow> 'd world" where
  "lease_digest digest w = w\<lparr>wd_leases := digest # wd_leases w\<rparr>"

definition release_digest :: "string \<Rightarrow> 'd world \<Rightarrow> 'd world" where
  "release_digest digest w = w\<lparr>wd_leases := remove1 digest (wd_leases w)\<rparr>"

definition Digest :: "nat option \<Rightarrow> 'd world \<Rightarrow> string" where
  "Digest h w = (case h of Some i \<Rightarrow> if i < length (wd_writes w) then pw_digest (wd_writes w ! i) else [] | None \<Rightarrow> [])"

definition Size :: "nat option \<Rightarrow> 'd world \<Rightarrow> int" where
  "Size h w = (case h of Some i \<Rightarrow> if i < length (wd_writes w) then pw_size (wd_writes w ! i) else 0 | None \<Rightarrow> 0)"

definition set_status :: "nat \<Rightarrow> prepared_status \<Rightarrow> 'd world \<Rightarrow> 'd world" where
  "set_status i st w = w\<lparr>wd_writes := (wd_writes w)[i := (wd_writes w ! i)\<lparr>pw_status := st\<rparr>]\<rparr>"

definition begin_write :: "media_env \<Rightarrow> nat option \<Rightarrow> 'd world \<Rightarrow> ('e media_fault + nat) \<times> 'd world" where
  "begin_write E h w =
     (case h of
        None \<Rightarrow> (Inl ErrInvalidPreparedWrite, w)
      | Some i \<Rightarrow>
          if length (wd_writes w) \<le> i then (Inl ErrInvalidPreparedWrite, w)
          else let p = wd_writes w ! i in
            if pw_store p \<noteq> me_self E \<or> pw_lease p \<noteq> Some (me_self E, pw_digest p) then (Inl ErrInvalidPreparedWrite, w)
            else if pw_status p \<noteq> Prepared then (Inl ErrFinalizedPreparedWrite, w)
            else (Inr i, set_status i Finalizing w))"

definition finish_write :: "nat \<Rightarrow> 'd world \<Rightarrow> 'd world" where
  "finish_write i w = release_digest (pw_digest (wd_writes w ! i)) (set_status i Finalized w)"

text \<open>What is deferred runs when the process goes on.\<close>

definition deferred :: "('d world \<Rightarrow> 'd world) \<Rightarrow> ('a, 'd) run \<Rightarrow> ('a, 'd) run" where
  "deferred f m = (case m of (None, w) \<Rightarrow> (None, w) | (Some x, w) \<Rightarrow> (Some x, f w))"

definition failPrepare ::
  "media_env \<Rightarrow> string \<Rightarrow> string \<Rightarrow> 'e media_fault \<Rightarrow> bool \<Rightarrow> 'd world \<Rightarrow> ('e media_fault + nat, 'd) run" where
  "failPrepare E digest temp primary opened w =
     next_io (if opened then next_io (simple_call E (CloseFile (InTemp temp)) w)
         (\<lambda>ok w. (Some (if ok then None else Some (MediaError ''close'')), w)) else (Some None, w)) (\<lambda>cleanup w.
       next_io (remove_quiet E (InTemp temp) ''remove'' w) (\<lambda>e w.
         (Some (Inl (the (joinFailure (Some primary) (joinFailure cleanup e)))), release_digest digest w)))"

definition PrepareWrite :: "media_env \<Rightarrow> string \<Rightarrow> 'd world \<Rightarrow> ('e media_fault + nat, 'd) run" where
  "PrepareWrite E data w0 =
     (let digest = me_sha E data; w1 = lease_digest digest w0 in
      next_io (create_temp E (digest @ ''.write-'') w1) (\<lambda>created w2. case created of
        None \<Rightarrow> (Some (Inl (MediaError ''create temp'')), release_digest digest w2)
      | Some temp \<Rightarrow>
          next_io (write_file E (InTemp temp) data w2) (\<lambda>ok w3.
            if \<not> ok then failPrepare E digest temp (MediaError ''write temp'') True w3
            else next_io (simple_call E (SyncFile (InTemp temp)) w3) (\<lambda>ok w4.
              if \<not> ok then failPrepare E digest temp (MediaError ''sync temp'') True w4
              else next_io (simple_call E (CloseFile (InTemp temp)) w4) (\<lambda>ok w5.
                if \<not> ok then failPrepare E digest temp (MediaError ''close temp'') False w5
                else next_io (verifyFile E (InTemp temp) digest (int (length data)) w5) (\<lambda>bad w6. case bad of
                  Some e \<Rightarrow> failPrepare E digest temp e False w6
                | None \<Rightarrow>
                    (Some (Inr (length (wd_writes w6))), w6\<lparr>wd_writes := wd_writes w6 @
                       [\<lparr>pw_store = me_self E, pw_digest = digest, pw_size = int (length data), pw_temp = temp,
                         pw_lease = Some (me_self E, digest), pw_status = Prepared\<rparr>]\<rparr>)))))))"

section \<open>Publication\<close>

type_synonym ('e, 'z) reference_commit = "'z media_db_scheme \<Rightarrow> string \<Rightarrow> int \<Rightarrow> ('e + unit) \<times> 'z media_db_scheme"

definition recorded :: "string \<Rightarrow> 'z media_db_scheme \<Rightarrow> bool" where
  "recorded digest db \<longleftrightarrow> digest \<in> br_digest ` set (md_blobs db)"

definition insert_blob :: "string \<Rightarrow> int \<Rightarrow> string \<Rightarrow> 'z media_db_scheme \<Rightarrow> 'z media_db_scheme" where
  "insert_blob digest n mime db =
     (if recorded digest db then db
      else db\<lparr>md_blobs := md_blobs db @ [\<lparr>br_digest = digest, br_size = n, br_mime = mime\<rparr>]\<rparr>)"

text \<open>Rolling back never leaves an effect; its failure joins the error. After a failed commit the transaction is over.\<close>

definition roll_back :: "media_env \<Rightarrow> 'e media_fault + 'a \<Rightarrow> 'd world \<Rightarrow> ('e media_fault + 'a, 'd) run" where
  "roll_back E r w = next_io (simple_call E RollbackTx w) (\<lambda>ok w.
     (Some (if ok then r else Inl (case r of Inl e \<Rightarrow> Joined e (MediaError ''rollback'') | Inr _ \<Rightarrow> MediaError ''rollback'')), w))"

definition commitTransaction :: "media_env \<Rightarrow> 'd \<Rightarrow> 'd world \<Rightarrow> (bool, 'd) run" where
  "commitTransaction E tx w =
     (case me_fault E (wd_tick w) CommitTx of
        Works \<Rightarrow> (Some True, (tick w)\<lparr>wd_db := tx\<rparr>)
      | Fails \<Rightarrow> (Some False, tick w)
      | FailsLate \<Rightarrow> (Some False, (tick w)\<lparr>wd_db := tx\<rparr>)
      | Crashes \<Rightarrow> (None, tick w))"

definition cleanupAttempt :: "media_env \<Rightarrow> prepared_write \<Rightarrow> 'e media_fault option \<Rightarrow> 'd world \<Rightarrow> ('e media_fault option, 'd) run" where
  "cleanupAttempt E p primary w =
     next_io (remove_quiet E (InTemp (pw_temp p)) ''remove temp'' w) (\<lambda>e w. (Some (joinFailure primary e), w))"

definition abort_attempt :: "media_env \<Rightarrow> prepared_write \<Rightarrow> 'e media_fault \<Rightarrow> 'd world \<Rightarrow> ('e media_fault + 'a, 'd) run" where
  "abort_attempt E p primary w =
     next_io (cleanupAttempt E p (Some primary) w) (\<lambda>e w. roll_back E (Inl (the e)) w)"

definition verifiedWinner :: "media_env \<Rightarrow> prepared_write \<Rightarrow> 'd world \<Rightarrow> ('e media_fault + bool, 'd) run" where
  "verifiedWinner E p w =
     (let path = blobPath (pw_digest p) in
      next_io (stat_file E path w) (\<lambda>r w. case r of
        Inl _ \<Rightarrow> (Some (Inl (MediaError ''stat existing blob'')), w)
      | Inr False \<Rightarrow> (Some (Inr False), w)
      | Inr True \<Rightarrow> next_io (verifyFile E path (pw_digest p) (pw_size p) w) (\<lambda>bad w.
          (Some (case bad of Some e \<Rightarrow> Inl e | None \<Rightarrow> Inr True), w))))"

definition count_blob :: "media_env \<Rightarrow> string \<Rightarrow> 'z media_db_scheme world \<Rightarrow> (nat option, 'z media_db_scheme) run" where
  "count_blob E digest = act E (Sql ''count blob'') (\<lambda>w. (Some (count_where (\<lambda>b. br_digest b = digest) (md_blobs (wd_db w))), w)) None"

definition restoreAfterGenericCommitFailure ::
  "media_env \<Rightarrow> prepared_write \<Rightarrow> bool \<Rightarrow> 'z media_db_scheme world \<Rightarrow> ('e media_fault option, 'z media_db_scheme) run" where
  "restoreAfterGenericCommitFailure E p published w =
     (if \<not> published then cleanupAttempt E p None w
      else next_io (count_blob E (pw_digest p) w) (\<lambda>n w. case n of
        None \<Rightarrow> (Some (Some (MediaError ''verify failed generic commit parity'')), w)
      | Some n \<Rightarrow> if 0 < n then (Some None, w) else remove_quiet E (blobPath (pw_digest p)) ''remove uncommitted blob'' w))"

definition publish_attempt ::
  "media_env \<Rightarrow> prepared_write \<Rightarrow> bool \<Rightarrow> 'z media_db_scheme \<Rightarrow> 'z media_db_scheme world \<Rightarrow> ('e media_fault + string, 'z media_db_scheme) run" where
  "publish_attempt E p winner tx w =
     next_io (if winner then (Some None, w) else renameFile E (InTemp (pw_temp p)) (blobPath (pw_digest p)) w) (\<lambda>moved w.
       if moved \<noteq> None then abort_attempt E p (MediaError ''promote'') w
       else next_io (commitTransaction E tx w) (\<lambda>ok w.
         if \<not> ok then next_io (restoreAfterGenericCommitFailure E p (\<not> winner) w)
           (\<lambda>parity w. (Some (Inl (the (joinFailure (Some (MediaError ''commit transaction'')) parity))), w))
         else if winner then next_io (remove_quiet E (InTemp (pw_temp p)) ''discard duplicate temp after commit'' w)
           (\<lambda>e w. (Some (case e of Some x \<Rightarrow> Inl x | None \<Rightarrow> Inr (pw_digest p)), w))
         else (Some (Inr (pw_digest p)), w)))"

definition commit_attempt ::
  "media_env \<Rightarrow> string \<Rightarrow> prepared_write \<Rightarrow> ('e, 'z) reference_commit \<Rightarrow> 'z media_db_scheme world \<Rightarrow>
     ('e media_fault + string, 'z media_db_scheme) run" where
  "commit_attempt E mime p f w =
     next_io (simple_call E BeginTx w) (\<lambda>ok w.
       if \<not> ok then next_io (cleanupAttempt E p (Some (MediaError ''begin transaction'')) w) (\<lambda>e w. (Some (Inl (the e)), w))
       else next_io (verifiedWinner E p w) (\<lambda>r w. case r of
         Inl e \<Rightarrow> abort_attempt E p e w
       | Inr winner \<Rightarrow>
           next_io (simple_call E (Sql ''insert blob'') w) (\<lambda>ok w.
             if \<not> ok then abort_attempt E p (MediaError ''insert blob'') w
             else case f (insert_blob (pw_digest p) (pw_size p) mime (wd_db w)) (pw_digest p) (pw_size p) of
               (Inl e, _) \<Rightarrow> abort_attempt E p (CallbackError e) w
             | (Inr _, tx) \<Rightarrow> publish_attempt E p winner tx w)))"

definition CommitPrepared ::
  "media_env \<Rightarrow> string \<Rightarrow> nat option \<Rightarrow> ('e, 'z) reference_commit \<Rightarrow> 'z media_db_scheme world \<Rightarrow>
     ('e media_fault + string, 'z media_db_scheme) run" where
  "CommitPrepared E mime h f w =
     (case begin_write E h w of
        (Inl e, w) \<Rightarrow> (Some (Inl e), w)
      | (Inr i, w) \<Rightarrow> deferred (finish_write i) (commit_attempt E mime (wd_writes w ! i) f w))"

definition storeDB :: "string \<Rightarrow> string \<Rightarrow> string \<Rightarrow> (string, 'z) reference_commit" where
  "storeDB ref now asset tx digest n =
     (if asset \<notin> set (md_assets tx) \<or> \<not> recorded digest tx then (Inl ''upsert blob reference: conflict'', tx)
      else case find_by bf_asset asset (md_refs tx) of
        Some _ \<Rightarrow> (Inr (), tx\<lparr>md_refs := update_where (\<lambda>r. bf_asset r = asset) (\<lambda>r. r\<lparr>bf_digest := digest\<rparr>) (md_refs tx)\<rparr>)
      | None \<Rightarrow>
          if ref \<in> bf_id ` set (md_refs tx) then (Inl ''upsert blob reference: conflict'', tx)
          else (Inr (), tx\<lparr>md_refs := md_refs tx @ [\<lparr>bf_id = ref, bf_asset = asset, bf_digest = digest, bf_created = now\<rparr>]\<rparr>))"

definition CommitWrite ::
  "media_env \<Rightarrow> string \<Rightarrow> string \<Rightarrow> nat option \<Rightarrow> 'z media_db_scheme world \<Rightarrow> (string media_fault + string, 'z media_db_scheme) run" where
  "CommitWrite E asset mime h w = CommitPrepared E mime h (storeDB (me_ulid E (wd_tick w)) (me_time E (wd_tick w)) asset) w"

definition StoreDB ::
  "media_env \<Rightarrow> string \<Rightarrow> string \<Rightarrow> nat option \<Rightarrow> 'z media_db_scheme world \<Rightarrow> (string media_fault + string, 'z media_db_scheme) run" where
  "StoreDB = CommitWrite"

definition Media_Write ::
  "media_env \<Rightarrow> string \<Rightarrow> string \<Rightarrow> string \<Rightarrow> 'z media_db_scheme world \<Rightarrow> (string media_fault + string, 'z media_db_scheme) run" where
  "Media_Write E asset mime data w =
     next_io (PrepareWrite E data w) (\<lambda>r w. case r of Inl e \<Rightarrow> (Some (Inl e), w) | Inr i \<Rightarrow> CommitWrite E asset mime (Some i) w)"

definition AbandonWrite :: "media_env \<Rightarrow> nat option \<Rightarrow> 'd world \<Rightarrow> ('e media_fault + unit, 'd) run" where
  "AbandonWrite E h w =
     (case begin_write E h w of
        (Inl e, w) \<Rightarrow> (Some (Inl e), w)
      | (Inr i, w) \<Rightarrow> deferred (finish_write i)
          (next_io (remove_quiet E (InTemp (pw_temp (wd_writes w ! i))) ''abandon remove temp'' w)
            (\<lambda>e w. (Some (case e of Some x \<Rightarrow> Inl x | None \<Rightarrow> Inr ()), w))))"

text \<open>The parity check of an earlier commit path, which nothing calls any more.\<close>

definition restoreAfterCommitFailure ::
  "media_env \<Rightarrow> string \<Rightarrow> prepared_write \<Rightarrow> bool \<Rightarrow> 'z media_db_scheme world \<Rightarrow> ('e media_fault option, 'z media_db_scheme) run" where
  "restoreAfterCommitFailure E asset p published w =
     (if \<not> published then cleanupAttempt E p None w
      else next_io (act E (Sql ''count reference'')
          (\<lambda>w. (Some (count_where (\<lambda>r. bf_asset r = asset \<and> bf_digest r = pw_digest p) (md_refs (wd_db w))), w)) None w) (\<lambda>n w. case n of
        None \<Rightarrow> (Some (Some (MediaError ''verify failed commit parity'')), w)
      | Some n \<Rightarrow> if 0 < n then (Some None, w) else remove_quiet E (blobPath (pw_digest p)) ''remove uncommitted blob'' w))"

section \<open>Reading and references\<close>

definition Read :: "media_env \<Rightarrow> string \<Rightarrow> 'd world \<Rightarrow> ('e media_fault + string, 'd) run" where
  "Read E digest w =
     (if \<not> validDigest digest then (Some (Inl (MediaError ''read: invalid digest'')), w)
      else deferred (release_digest digest) (next_io (read_file E (blobPath digest) (lease_digest digest w)) (\<lambda>r w.
        (Some (case r of Inr b \<Rightarrow> Inr b | Inl NotExist \<Rightarrow> Inl (MediaMissing ''blob'') | Inl IoError \<Rightarrow> Inl (MediaError ''read blob'')), w))))"

definition GetReference :: "string \<Rightarrow> 'z media_db_scheme \<Rightarrow> 'e media_fault + blob_reference" where
  "GetReference asset tx = (case find_by bf_asset asset (md_refs tx) of None \<Rightarrow> Inl (MediaNoRows ''reference'') | Some r \<Rightarrow> Inr r)"

definition RemoveReference :: "string \<Rightarrow> 'z media_db_scheme \<Rightarrow> ('e media_fault + string) \<times> 'z media_db_scheme" where
  "RemoveReference asset tx =
     (case find_by bf_asset asset (md_refs tx) of
        None \<Rightarrow> (Inl (MediaNoRows ''reference''), tx)
      | Some r \<Rightarrow> (Inr (bf_digest r), tx\<lparr>md_refs := filter (\<lambda>r. bf_asset r \<noteq> asset) (md_refs tx)\<rparr>))"

definition references :: "string \<Rightarrow> 'z media_db_scheme \<Rightarrow> nat" where
  "references digest db = count_where (\<lambda>r. bf_digest r = digest) (md_refs db) + count_where (\<lambda>b. snd b = digest) (sd_blobs db)"

definition delete_blob :: "string \<Rightarrow> 'z media_db_scheme \<Rightarrow> 'z media_db_scheme" where
  "delete_blob digest db = db\<lparr>md_blobs := filter (\<lambda>b. br_digest b \<noteq> digest) (md_blobs db)\<rparr>"

text \<open>Both reference tables restrict the deletion of a blob.\<close>

definition DeleteBlobRecord :: "string \<Rightarrow> 'z media_db_scheme \<Rightarrow> ('e media_fault + unit) \<times> 'z media_db_scheme" where
  "DeleteBlobRecord digest tx =
     (if recorded digest tx \<and> 0 < references digest tx then (Inl (MediaConflict ''blob has references''), tx)
      else if \<not> recorded digest tx then (Inl (MediaError ''blob not found''), tx)
      else (Inr (), delete_blob digest tx))"

definition ListOrphanDigests :: "'z media_db_scheme \<Rightarrow> string list" where
  "ListOrphanDigests tx = sort (filter (\<lambda>d. references d tx = 0) (map br_digest (md_blobs tx)))"

section \<open>Removal of orphans\<close>

definition newCleanupPath :: "media_env \<Rightarrow> string \<Rightarrow> 'd world \<Rightarrow> ('e media_fault + fpath, 'd) run" where
  "newCleanupPath E digest w =
     next_io (create_temp E (digest @ ''.cleanup-'') w) (\<lambda>created w. case created of
       None \<Rightarrow> (Some (Inl (MediaError ''create orphan cleanup path'')), w)
     | Some name \<Rightarrow> next_io (simple_call E (CloseFile (InTemp name)) w) (\<lambda>ok w.
         if ok then (Some (Inr (InTemp name)), w)
         else next_io (removeFile E (InTemp name) w) (\<lambda>e w.
           (Some (Inl (case e of None \<Rightarrow> MediaError ''close orphan cleanup path''
              | Some _ \<Rightarrow> Joined (MediaError ''close orphan cleanup path'') (MediaError ''remove''))), w))))"

definition restoreCleanupPath ::
  "media_env \<Rightarrow> fpath \<Rightarrow> fpath option \<Rightarrow> 'e media_fault option \<Rightarrow> 'd world \<Rightarrow> ('e media_fault option, 'd) run" where
  "restoreCleanupPath E blob cleanup primary w =
     (case cleanup of
        None \<Rightarrow> (Some primary, w)
      | Some p \<Rightarrow> next_io (renameFile E p blob w) (\<lambda>e w.
          (Some (if e = None then primary else joinFailure primary (Some (MediaError ''restore orphan''))), w)))"

definition moved_aside :: "media_env \<Rightarrow> string \<Rightarrow> 'd world \<Rightarrow> ('e media_fault + fpath option, 'd) run" where
  "moved_aside E digest w =
     next_io (stat_file E (blobPath digest) w) (\<lambda>r w. case r of
       Inl _ \<Rightarrow> (Some (Inl (MediaError ''stat orphan'')), w)
     | Inr False \<Rightarrow> (Some (Inr None), w)
     | Inr True \<Rightarrow> next_io (newCleanupPath E digest w) (\<lambda>r w. case r of
         Inl e \<Rightarrow> (Some (Inl e), w)
       | Inr p \<Rightarrow> next_io (renameFile E (blobPath digest) p w) (\<lambda>e w.
           if e = None then (Some (Inr (Some p)), w)
           else next_io (remove_quiet E p ''remove orphan cleanup placeholder'' w) (\<lambda>e w.
             (Some (Inl (the (joinFailure (Some (MediaError ''move orphan aside'')) e))), w)))))"

definition result_of :: "'a \<Rightarrow> 'e media_fault option \<Rightarrow> 'e media_fault + 'a" where
  "result_of x e = (case e of Some f \<Rightarrow> Inl f | None \<Rightarrow> Inr x)"

definition delete_orphan ::
  "media_env \<Rightarrow> string \<Rightarrow> fpath option \<Rightarrow> 'z media_db_scheme world \<Rightarrow> ('e media_fault + bool, 'z media_db_scheme) run" where
  "delete_orphan E digest cleanup w =
     (let blob = blobPath digest; restored = (\<lambda>primary w. next_io (restoreCleanupPath E blob cleanup primary w)
           (\<lambda>e w. roll_back E (result_of False e) w)) in
      next_io (simple_call E (Sql ''delete blob'') w) (\<lambda>ok w.
        if \<not> ok then restored (Some (MediaError ''delete blob'')) w
        else if \<not> recorded digest (wd_db w) then restored None w
        else next_io (commitTransaction E (delete_blob digest (wd_db w)) w) (\<lambda>ok w.
          if ok then next_io (case cleanup of None \<Rightarrow> (Some None, w) | Some p \<Rightarrow> remove_quiet E p ''remove committed orphan'' w)
            (\<lambda>e w. (Some (result_of True e), w))
          else next_io (count_blob E digest w) (\<lambda>n w. case n of
            None \<Rightarrow> (Some (Inl (Joined (MediaError ''orphan commit'') (MediaError ''verify orphan commit''))), w)
          | Some n \<Rightarrow>
              if n = 0 then next_io (case cleanup of None \<Rightarrow> (Some None, w) | Some p \<Rightarrow> remove_quiet E p ''remove durably deleted orphan'' w)
                (\<lambda>e w. (Some (result_of False (joinFailure (Some (MediaError ''orphan commit'')) e)), w))
              else next_io (restoreCleanupPath E blob cleanup (Some (MediaError ''orphan commit'')) w)
                (\<lambda>e w. (Some (result_of False e), w))))))"

definition cleanup_body :: "media_env \<Rightarrow> string \<Rightarrow> 'z media_db_scheme world \<Rightarrow> ('e media_fault + bool, 'z media_db_scheme) run" where
  "cleanup_body E digest w =
     next_io (simple_call E BeginTx w) (\<lambda>ok w.
       if \<not> ok then (Some (Inl (MediaError ''orphan begin transaction'')), w)
       else next_io (act E (Sql ''count references'') (\<lambda>w. (Some (references digest (wd_db w)), w)) None w) (\<lambda>n w. case n of
         None \<Rightarrow> roll_back E (Inl (MediaError ''count references'')) w
       | Some n \<Rightarrow>
           if 0 < n then roll_back E (Inr False) w
           else next_io (moved_aside E digest w) (\<lambda>r w. case r of
             Inl e \<Rightarrow> roll_back E (Inl e) w
           | Inr cleanup \<Rightarrow> delete_orphan E digest cleanup w)))"

definition CleanupOrphan :: "media_env \<Rightarrow> string \<Rightarrow> 'z media_db_scheme world \<Rightarrow> ('e media_fault + bool, 'z media_db_scheme) run" where
  "CleanupOrphan E digest w =
     (if \<not> validDigest digest then (Some (Inl (MediaError ''orphan cleanup: invalid digest'')), w)
      else deferred (release_digest digest) (cleanup_body E digest (lease_digest digest w)))"

section \<open>Recovery\<close>

definition recoverCleanupArtifact ::
  "media_env \<Rightarrow> string \<Rightarrow> fpath \<Rightarrow> 'z media_db_scheme world \<Rightarrow> ('e media_fault option, 'z media_db_scheme) run" where
  "recoverCleanupArtifact E digest cleanup w =
     next_io (count_blob E digest w) (\<lambda>n w. case n of
       None \<Rightarrow> (Some (Some (MediaError ''recover cleanup query'')), w)
     | Some n \<Rightarrow>
         if n = 0 then remove_quiet E cleanup ''recover committed cleanup'' w
         else next_io (stat_file E (blobPath digest) w) (\<lambda>r w. case r of
           Inl _ \<Rightarrow> (Some (Some (MediaError ''stat recovery blob'')), w)
         | Inr True \<Rightarrow> remove_quiet E cleanup ''remove duplicate cleanup'' w
         | Inr False \<Rightarrow> next_io (renameFile E cleanup (blobPath digest) w) (\<lambda>e w.
             (Some (if e = None then None else Some (MediaError ''recover orphan'')), w))))"

definition problem :: "'e media_fault option \<Rightarrow> 'e media_fault list \<Rightarrow> 'e media_fault list" where
  "problem e ps = (case e of None \<Rightarrow> ps | Some x \<Rightarrow> ps @ [x])"

text \<open>The loops over the entries of the two directories, as they were read.\<close>

fun recover_temps ::
  "media_env \<Rightarrow> string list \<Rightarrow> 'e media_fault list \<Rightarrow> 'z media_db_scheme world \<Rightarrow> ('e media_fault list, 'z media_db_scheme) run" where
  "recover_temps E [] ps w = (Some ps, w)"
| "recover_temps E (name # names) ps w =
     (case tempArtifact name of
        None \<Rightarrow> recover_temps E names ps w
      | Some (digest, cleanup) \<Rightarrow>
          next_io (deferred (release_digest digest)
              (if cleanup then recoverCleanupArtifact E digest (InTemp name) (lease_digest digest w)
               else remove_quiet E (InTemp name) ''recover stale temp'' (lease_digest digest w)))
            (\<lambda>e w. recover_temps E names (problem e ps) w))"

definition recover_blob :: "media_env \<Rightarrow> string \<Rightarrow> 'z media_db_scheme world \<Rightarrow> ('e media_fault option, 'z media_db_scheme) run" where
  "recover_blob E digest w =
     next_io (count_blob E digest w) (\<lambda>n w. case n of
       None \<Rightarrow> (Some (Some (MediaError ''recover query blob'')), w)
     | Some n \<Rightarrow> if n = 0 then remove_quiet E (blobPath digest) ''recover provisional blob'' w else (Some None, w))"

fun recover_blobs ::
  "media_env \<Rightarrow> string list \<Rightarrow> 'e media_fault list \<Rightarrow> 'z media_db_scheme world \<Rightarrow> ('e media_fault list, 'z media_db_scheme) run" where
  "recover_blobs E [] ps w = (Some ps, w)"
| "recover_blobs E (name # names) ps w =
     (if \<not> validDigest name then recover_blobs E names ps w
      else next_io (deferred (release_digest name) (recover_blob E name (lease_digest name w)))
        (\<lambda>e w. recover_blobs E names (problem e ps) w))"

definition read_dir :: "media_env \<Rightarrow> string \<Rightarrow> ('d world \<Rightarrow> (string \<times> string) list) \<Rightarrow> 'd world \<Rightarrow> (string list option, 'd) run" where
  "read_dir E dir files = act E (ReadDir dir) (\<lambda>w. (Some (sort (map fst (files w))), w)) None"

text \<open>The problems that were met; the empty list is the nil error.\<close>

definition Recover :: "media_env \<Rightarrow> 'z media_db_scheme world \<Rightarrow> ('e media_fault list, 'z media_db_scheme) run" where
  "Recover E w =
     next_io (read_dir E ''temp'' wd_temp w) (\<lambda>names w. case names of
       None \<Rightarrow> (Some [MediaError ''read temp directory''], w)
     | Some names \<Rightarrow> next_io (recover_temps E names [] w) (\<lambda>ps w.
         next_io (read_dir E ''blobs'' wd_blobs w) (\<lambda>blobs w. case blobs of
           None \<Rightarrow> (Some (ps @ [MediaError ''read blob directory'']), w)
         | Some blobs \<Rightarrow> recover_blobs E blobs ps w)))"

text \<open>A new process over the files and the database that are there.\<close>

definition restarted :: "'d world \<Rightarrow> 'd world" where
  "restarted w = w\<lparr>wd_writes := [], wd_leases := []\<rparr>"

end
