(* ===== verification/Media_Props.thy ===== *)
theory Media_Props
  imports Media
begin

text \<open>
  What the media store keeps through failures and crashes: the bytes of every recorded digest are on disk, and recovery
  brings files and rows back together.  \<open>ends C Q m\<close> says that a run \<open>m\<close> meets \<open>C\<close> when the process ends in it and \<open>Q\<close> when
  it goes on; \<open>disk_ok\<close> holds between the operations of a running process, \<open>crash_ok\<close> in every state a process leaves.
\<close>

section \<open>Runs\<close>

definition ends :: "('d world \<Rightarrow> bool) \<Rightarrow> ('a \<Rightarrow> 'd world \<Rightarrow> bool) \<Rightarrow> ('a, 'd) run \<Rightarrow> bool" where
  "ends C Q m \<longleftrightarrow> (case m of (None, w) \<Rightarrow> C w | (Some x, w) \<Rightarrow> Q x w)"

lemma ends_simps [simp]: "ends C Q (None, w) = C w" "ends C Q (Some x, w) = Q x w"
  by (simp_all add: ends_def)

lemma ends_next: "ends C P m \<Longrightarrow> (\<And>x w. P x w \<Longrightarrow> ends C Q (f x w)) \<Longrightarrow> ends C Q (next_io m f)"
proof -
  assume m: "ends C P m" and f: "\<And>x w. P x w \<Longrightarrow> ends C Q (f x w)"
  obtain r w where e: "m = (r, w)" by (cases m)
  show "ends C Q (next_io m f)" using m f[of _ w] unfolding e by (cases r) (simp_all add: ends_def next_io_def)
qed

lemma ends_weaken: "ends C P m \<Longrightarrow> (\<And>x w. P x w \<Longrightarrow> Q x w) \<Longrightarrow> ends C Q m"
  by (auto simp: ends_def split: prod.splits option.splits)

lemma ends_deferred: "ends C (\<lambda>x w. Q x (f w)) m \<Longrightarrow> ends C Q (deferred f m)"
  by (auto simp: ends_def deferred_def split: prod.splits option.splits)

lemma ends_act:
  "(\<And>x w'. works (tick w) = (x, w') \<Longrightarrow> Q x w') \<Longrightarrow> Q failed (tick w) \<Longrightarrow> C (tick w) \<Longrightarrow> ends C Q (act E c works failed w)"
  by (auto simp: act_def split: outcome.splits prod.splits)

lemma ends_simple: "Q True (tick w) \<Longrightarrow> Q False (tick w) \<Longrightarrow> C (tick w) \<Longrightarrow> ends C Q (simple_call E c w)"
  unfolding simple_call_def by (rule ends_act) auto

section \<open>Files\<close>

lemma map_of_without [simp]: "map_of (without k xs) = (map_of xs)(k := None)"
  by (induction xs) (auto simp: without_def fun_eq_iff)

lemma without_absent: "map_of xs k = None \<Longrightarrow> without k xs = xs"
  by (auto simp: without_def filter_id_conv map_of_eq_None_iff image_iff)

lemma drop_absent: "content p w = None \<Longrightarrow> drop_file p w = w"
  by (cases p) (simp_all add: without_absent)

lemma content_tick [simp]: "content p (tick w) = content p w" "content p (w\<lparr>wd_tick := n\<rparr>) = content p w"
  by (cases p; simp add: tick_def)+

lemma world_tick [simp]: "wd_temp (tick w) = wd_temp w" "wd_blobs (tick w) = wd_blobs w" "wd_db (tick w) = wd_db w"
  "wd_writes (tick w) = wd_writes w" "wd_leases (tick w) = wd_leases w"
  by (simp_all add: tick_def)

lemma ends_remove:
  assumes "Q None (drop_file p (tick w))" and "content p w = None \<Longrightarrow> Q (Some NotExist) (tick w)"
    and "Q (Some IoError) (tick w)" and "C (tick w)"
  shows "ends C Q (removeFile E p w)"
  unfolding removeFile_def using assms by (intro ends_act) (auto split: if_splits)

lemma ends_remove_quiet:
  assumes "Q None (drop_file p (tick w))" and "Q (Some (MediaError msg)) (tick w)" and "C (tick w)"
  shows "ends C Q (remove_quiet E p msg w)"
  unfolding remove_quiet_def
  by (rule ends_next[OF ends_remove[where Q = "\<lambda>r w. Q (remove_error msg r) w"]])
    (use assms in \<open>auto simp: remove_error_def drop_absent\<close>)

text \<open>A removal that does not fail.\<close>

definition removes :: "media_env \<Rightarrow> fpath \<Rightarrow> bool" where
  "removes E p \<longleftrightarrow> (\<forall>n. me_fault E n (RemoveFile p) \<in> {Works, Crashes})"

lemma ends_removes:
  assumes "removes E p" and "content p w \<noteq> None \<Longrightarrow> Q None (drop_file p (tick w))"
    and "content p w = None \<Longrightarrow> Q (Some NotExist) (tick w)" and "C (tick w)"
  shows "ends C Q (removeFile E p w)"
proof -
  have "me_fault E (wd_tick w) (RemoveFile p) \<in> {Works, Crashes}" using assms(1) by (simp add: removes_def)
  then show ?thesis using assms(2-4) by (auto simp: removeFile_def act_def)
qed

lemma ends_removes_quiet:
  assumes "removes E p" and "Q None (drop_file p (tick w))" and "C (tick w)"
  shows "ends C Q (remove_quiet E p msg w)"
  unfolding remove_quiet_def
  by (rule ends_next[OF ends_removes[OF assms(1), where Q = "\<lambda>r w. Q (remove_error msg r) w"]])
    (use assms in \<open>auto simp: remove_error_def drop_absent\<close>)

lemma ends_rename:
  assumes "\<And>b. content p w = Some b \<Longrightarrow> Q None (put_file q b (drop_file p (tick w)))"
    and "\<And>e. Q (Some e) (tick w)" and "C (tick w)"
  shows "ends C Q (renameFile E p q w)"
  unfolding renameFile_def using assms by (intro ends_act) (auto split: option.splits)

lemma ends_stat:
  assumes "\<And>e. Q (Inl e) (tick w)" and "Q (Inr (content p w \<noteq> None)) (tick w)" and "C (tick w)"
  shows "ends C Q (stat_file E p w)"
  unfolding stat_file_def using assms by (intro ends_act) auto

text \<open>Calls that only look at the world.\<close>

lemma ends_verify:
  assumes "\<And>n e. Q (Some e) (w\<lparr>wd_tick := n\<rparr>)" and "\<And>n. C (w\<lparr>wd_tick := n\<rparr>)"
    and "\<And>n b. content p w = Some b \<Longrightarrow> me_sha E b = digest \<Longrightarrow> int (length b) = k \<Longrightarrow> Q None (w\<lparr>wd_tick := n\<rparr>)"
  shows "ends C Q (verifyFile E p digest k w)"
  unfolding verifyFile_def next_io_def act_def simple_call_def tick_def
  using assms by (auto split: outcome.splits option.splits)

section \<open>The invariants\<close>

definition ref_digests :: "'z media_db_scheme \<Rightarrow> string set" where
  "ref_digests db = bf_digest ` set (md_refs db) \<union> snd ` set (sd_blobs db)"

definition tables_ok :: "'z media_db_scheme \<Rightarrow> bool" where
  "tables_ok db \<longleftrightarrow> distinct (map br_digest (md_blobs db)) \<and> ref_digests db \<subseteq> br_digest ` set (md_blobs db)"

definition blobs_good :: "media_env \<Rightarrow> 'd world \<Rightarrow> bool" where
  "blobs_good E w \<longleftrightarrow> (\<forall>d b. content (InBlobs d) w = Some b \<longrightarrow> me_sha E b = d)"

definition artifact :: "string \<Rightarrow> string \<Rightarrow> 'd world \<Rightarrow> bool" where
  "artifact d n w \<longleftrightarrow> tempArtifact n = Some (d, True) \<and> content (InTemp n) w \<noteq> None"

definition artifacts_good :: "media_env \<Rightarrow> string \<Rightarrow> 'd world \<Rightarrow> bool" where
  "artifacts_good E d w \<longleftrightarrow>
     (\<forall>n b. tempArtifact n = Some (d, True) \<and> content (InTemp n) w = Some b \<longrightarrow> me_sha E b = d)"

definition crash_ok :: "media_env \<Rightarrow> 'z media_db_scheme world \<Rightarrow> bool" where
  "crash_ok E w \<longleftrightarrow> tables_ok (wd_db w) \<and> blobs_good E w \<and>
     (\<forall>d. recorded d (wd_db w) \<longrightarrow> content (InBlobs d) w \<noteq> None \<or> (\<exists>n. artifact d n w) \<and> artifacts_good E d w)"

definition write_ok :: "media_env \<Rightarrow> 'd world \<Rightarrow> prepared_write \<Rightarrow> bool" where
  "write_ok E w p \<longleftrightarrow> tempArtifact (pw_temp p) = Some (pw_digest p, False) \<and>
     (\<exists>b. content (InTemp (pw_temp p)) w = Some b \<and> me_sha E b = pw_digest p)"

definition writes_ok :: "media_env \<Rightarrow> 'd world \<Rightarrow> bool" where
  "writes_ok E w \<longleftrightarrow>
     (\<forall>i < length (wd_writes w). pw_status (wd_writes w ! i) = Prepared \<longrightarrow> write_ok E w (wd_writes w ! i)) \<and>
     (\<forall>i < length (wd_writes w). \<forall>j < length (wd_writes w). i \<noteq> j \<and> pw_status (wd_writes w ! i) = Prepared \<and>
        pw_status (wd_writes w ! j) = Prepared \<longrightarrow> pw_temp (wd_writes w ! i) \<noteq> pw_temp (wd_writes w ! j))"

definition disk_ok :: "media_env \<Rightarrow> 'z media_db_scheme world \<Rightarrow> bool" where
  "disk_ok E w \<longleftrightarrow> tables_ok (wd_db w) \<and> blobs_good E w \<and> (\<forall>d. artifacts_good E d w) \<and>
     (\<forall>d. recorded d (wd_db w) \<longrightarrow> content (InBlobs d) w \<noteq> None \<or> (\<exists>n. artifact d n w)) \<and> writes_ok E w"

lemma disk_crash: "disk_ok E w \<Longrightarrow> crash_ok E w"
  by (auto simp: disk_ok_def crash_ok_def)

text \<open>The parts of the world the invariants read.\<close>

definition same_disk :: "'d world \<Rightarrow> 'd world \<Rightarrow> bool" where
  "same_disk v w \<longleftrightarrow> wd_temp v = wd_temp w \<and> wd_blobs v = wd_blobs w \<and> wd_db v = wd_db w"

lemma crash_ok_same: "same_disk v w \<Longrightarrow> crash_ok E v = crash_ok E w"
  by (simp add: same_disk_def crash_ok_def blobs_good_def artifact_def artifacts_good_def)

lemma disk_ok_same: "same_disk v w \<Longrightarrow> wd_writes v = wd_writes w \<Longrightarrow> disk_ok E v = disk_ok E w"
  by (simp add: same_disk_def disk_ok_def blobs_good_def artifact_def artifacts_good_def writes_ok_def write_ok_def)

lemma oks_simps [simp]:
  "disk_ok E (tick w) = disk_ok E w" "crash_ok E (tick w) = crash_ok E w"
  "disk_ok E (w\<lparr>wd_tick := n\<rparr>) = disk_ok E w" "crash_ok E (w\<lparr>wd_tick := n\<rparr>) = crash_ok E w"
  "disk_ok E (lease_digest d w) = disk_ok E w" "crash_ok E (lease_digest d w) = crash_ok E w"
  "disk_ok E (release_digest d w) = disk_ok E w" "crash_ok E (release_digest d w) = crash_ok E w"
  by (rule disk_ok_same crash_ok_same; simp add: same_disk_def lease_digest_def release_digest_def)+

lemma content_put [simp]: "content q (put_file p b w) = (if q = p then Some b else content q w)"
  by (cases p; cases q) auto

lemma content_drop [simp]: "content q (drop_file p w) = (if q = p then None else content q w)"
  by (cases p; cases q) auto

lemma file_frame [simp]:
  "wd_db (put_file p b w) = wd_db w" "wd_writes (put_file p b w) = wd_writes w"
  "wd_db (drop_file p w) = wd_db w" "wd_writes (drop_file p w) = wd_writes w"
  by (cases p; simp)+

declare content.simps [simp del] put_file.simps [simp del] drop_file.simps [simp del]

text \<open>A temporary name that is neither a cleanup artifact nor the file of a write that can still be committed.\<close>

definition scratch :: "string \<Rightarrow> 'd world \<Rightarrow> bool" where
  "scratch n w \<longleftrightarrow> (\<forall>d. tempArtifact n \<noteq> Some (d, True)) \<and>
     (\<forall>i < length (wd_writes w). pw_status (wd_writes w ! i) = Prepared \<longrightarrow> pw_temp (wd_writes w ! i) \<noteq> n)"

lemma scratch_simps [simp]: "scratch n (tick w) = scratch n w" "scratch n (put_file p b w) = scratch n w"
  "scratch n (drop_file p w) = scratch n w" "scratch n (w\<lparr>wd_tick := k\<rparr>) = scratch n w"
  "scratch n (lease_digest d w) = scratch n w" "scratch n (release_digest d w) = scratch n w"
  by (simp_all add: scratch_def lease_digest_def release_digest_def)

lemmas oks_defs = disk_ok_def blobs_good_def artifact_def artifacts_good_def writes_ok_def write_ok_def

text \<open>What a change of files has to respect.\<close>

definition covered :: "string \<Rightarrow> 'd world \<Rightarrow> bool" where
  "covered d w \<longleftrightarrow> content (InBlobs d) w \<noteq> None \<or> (\<exists>n. artifact d n w)"

lemma covered_blob: "content (InBlobs d) w \<noteq> None \<Longrightarrow> covered d w"
  by (simp add: covered_def)

lemma covered_artifact: "tempArtifact n = Some (d, True) \<Longrightarrow> content (InTemp n) w \<noteq> None \<Longrightarrow> covered d w"
  unfolding covered_def artifact_def by blast

lemma covered_keep:
  assumes "covered d w" and "content (InBlobs d) w \<noteq> None \<Longrightarrow> covered d w'"
    and "\<And>n. tempArtifact n = Some (d, True) \<Longrightarrow> content (InTemp n) w \<noteq> None \<Longrightarrow> content (InTemp n) w' \<noteq> None"
  shows "covered d w'"
  using assms covered_artifact unfolding covered_def artifact_def by blast

lemma disk_ok_change:
  assumes "disk_ok E w" and "wd_db w' = wd_db w" and "wd_writes w' = wd_writes w"
    and "\<And>d b. content (InBlobs d) w' = Some b \<Longrightarrow> content (InBlobs d) w = Some b \<or> me_sha E b = d"
    and "\<And>n d b. tempArtifact n = Some (d, True) \<Longrightarrow> content (InTemp n) w' = Some b \<Longrightarrow> content (InTemp n) w = Some b \<or> me_sha E b = d"
    and "\<And>d. recorded d (wd_db w) \<Longrightarrow> covered d w \<Longrightarrow> covered d w'"
    and "\<And>n. (\<forall>d. tempArtifact n \<noteq> Some (d, True)) \<Longrightarrow> \<not> scratch n w \<Longrightarrow> content (InTemp n) w' = content (InTemp n) w"
  shows "disk_ok E w'"
proof -
  have b: "me_sha E b = d" if "content (InBlobs d) w = Some b" for d b using assms(1) that by (simp add: disk_ok_def blobs_good_def)
  have a: "me_sha E b = d" if "tempArtifact n = Some (d, True)" "content (InTemp n) w = Some b" for n d b
    using assms(1) that by (simp add: disk_ok_def artifacts_good_def)
  have c: "covered d w" if "recorded d (wd_db w)" for d using assms(1) that by (simp add: disk_ok_def covered_def)
  have s: "\<not> scratch (pw_temp (wd_writes w ! i)) w" if "i < length (wd_writes w)" "pw_status (wd_writes w ! i) = Prepared" for i
    using that unfolding scratch_def by blast
  have wr: "write_ok E w (wd_writes w ! i)" if "i < length (wd_writes w)" "pw_status (wd_writes w ! i) = Prepared" for i
    using assms(1) that by (simp add: disk_ok_def writes_ok_def)
  have "write_ok E w' (wd_writes w ! i)" if h: "i < length (wd_writes w)" "pw_status (wd_writes w ! i) = Prepared" for i
    using wr[OF h] assms(7)[OF _ s[OF h]] by (simp add: write_ok_def)
  then have "writes_ok E w'" using assms(1) by (simp add: disk_ok_def writes_ok_def assms(3))
  moreover have "blobs_good E w'" unfolding blobs_good_def using assms(4) b by blast
  moreover have "\<forall>d. artifacts_good E d w'" unfolding artifacts_good_def using assms(5) a by blast
  moreover have "\<forall>d. recorded d (wd_db w') \<longrightarrow> covered d w'" using assms(2,6) c by auto
  moreover have "tables_ok (wd_db w')" using assms(1,2) by (simp add: disk_ok_def)
  ultimately show ?thesis by (simp add: disk_ok_def covered_def)
qed

lemma drop_scratch: "disk_ok E w \<Longrightarrow> scratch n w \<Longrightarrow> disk_ok E (drop_file (InTemp n) w)"
  by (erule disk_ok_change) (auto simp: scratch_def covered_def artifact_def split: if_splits)

lemma put_scratch: "disk_ok E w \<Longrightarrow> scratch n w \<Longrightarrow> disk_ok E (put_file (InTemp n) b w)"
  by (erule disk_ok_change) (auto simp: scratch_def covered_def artifact_def split: if_splits)

lemma put_blob: "disk_ok E w \<Longrightarrow> me_sha E b = d \<Longrightarrow> disk_ok E (put_file (InBlobs d) b w)"
  by (erule disk_ok_change) (auto simp: covered_def artifact_def split: if_splits)

lemma drop_blob: "disk_ok E w \<Longrightarrow> \<not> recorded d (wd_db w) \<Longrightarrow> disk_ok E (drop_file (InBlobs d) w)"
  by (erule disk_ok_change) (auto simp: covered_def artifact_def split: if_splits)

lemma restore_artifact:
  assumes "disk_ok E w" and "tempArtifact n = Some (d, True)" and "content (InTemp n) w = Some b"
  shows "disk_ok E (put_file (InBlobs d) b (drop_file (InTemp n) w))"
proof (rule disk_ok_change[OF assms(1)])
  have "me_sha E b = d" using assms by (simp add: disk_ok_def artifacts_good_def)
  then show "content (InBlobs e) (put_file (InBlobs d) b (drop_file (InTemp n) w)) = Some c \<Longrightarrow>
      content (InBlobs e) w = Some c \<or> me_sha E c = e" for e c by (auto split: if_splits)
  show "covered e (put_file (InBlobs d) b (drop_file (InTemp n) w))" if "covered e w" for e
  proof (cases "e = d")
    case True
    then show ?thesis by (simp add: covered_blob)
  next
    case False
    show ?thesis by (rule covered_keep[OF that]) (use assms(2) False in \<open>auto intro: covered_blob\<close>)
  qed
qed (use assms(2) in \<open>auto split: if_splits\<close>)

lemma drop_artifact:
  assumes "disk_ok E w" and "tempArtifact n = Some (d, True)" and "\<not> recorded d (wd_db w) \<or> content (InBlobs d) w \<noteq> None"
  shows "disk_ok E (drop_file (InTemp n) w)"
proof (rule disk_ok_change[OF assms(1)])
  show "covered e (drop_file (InTemp n) w)" if "recorded e (wd_db w)" "covered e w" for e
  proof (cases "e = d")
    case True
    then show ?thesis using that(1) assms(3) by (auto intro: covered_blob)
  next
    case False
    show ?thesis by (rule covered_keep[OF that(2)]) (use assms(2) False in \<open>auto intro: covered_blob\<close>)
  qed
qed (use assms(2) in \<open>auto split: if_splits\<close>)

lemma aside_artifact:
  assumes "disk_ok E (drop_file (InTemp n) w)" and "tempArtifact n = Some (d, True)" and "content (InBlobs d) w = Some b"
  shows "disk_ok E (put_file (InTemp n) b (drop_file (InBlobs d) w))"
proof (rule disk_ok_change[OF assms(1)])
  have "me_sha E b = d" using assms(1,3) by (simp add: disk_ok_def blobs_good_def)
  then show "tempArtifact m = Some (e, True) \<Longrightarrow> content (InTemp m) (put_file (InTemp n) b (drop_file (InBlobs d) w)) = Some c \<Longrightarrow>
      content (InTemp m) (drop_file (InTemp n) w) = Some c \<or> me_sha E c = e" for m e c using assms(2) by (auto split: if_splits)
  show "covered e (put_file (InTemp n) b (drop_file (InBlobs d) w))" if "covered e (drop_file (InTemp n) w)" for e
  proof (cases "e = d")
    case True
    show ?thesis unfolding True by (rule covered_artifact[OF assms(2)]) simp
  next
    case False
    show ?thesis by (rule covered_keep[OF that]) (use assms(2) False in \<open>auto intro: covered_blob\<close>)
  qed
qed (use assms(2) in \<open>auto split: if_splits\<close>)

lemma placeholder_crash:
  assumes "disk_ok E (drop_file (InTemp n) w)" and "tempArtifact n = Some (d, True)" and "content (InBlobs d) w \<noteq> None"
  shows "crash_ok E w"
proof -
  let ?v = "drop_file (InTemp n) w"
  have ok: "tables_ok (wd_db w)" "blobs_good E w" using assms(1) by (simp_all add: disk_ok_def blobs_good_def)
  have "content (InBlobs e) w \<noteq> None \<or> (\<exists>m. artifact e m w) \<and> artifacts_good E e w" if r: "recorded e (wd_db w)" for e
  proof (cases "e = d")
    case False
    have "covered e ?v" "artifacts_good E e ?v" using assms(1) r by (simp_all add: disk_ok_def covered_def)
    moreover have other: "m \<noteq> n" if "tempArtifact m = Some (e, True)" for m using False assms(2) that by auto
    then have "artifact e m ?v \<longleftrightarrow> artifact e m w" for m by (auto simp: artifact_def)
    moreover have "artifacts_good E e ?v \<longleftrightarrow> artifacts_good E e w" unfolding artifacts_good_def using other by auto
    ultimately show ?thesis by (auto simp: covered_def)
  qed (use assms(3) in simp)
  then show ?thesis using ok by (simp add: crash_ok_def)
qed

section \<open>Names\<close>

lemma digest_parts:
  assumes "validDigest d"
  shows "length d = 64" "take 64 (d @ x) = d" "(d @ CHR ''.'' # x) ! 64 = CHR ''.''" "drop 65 (d @ CHR ''.'' # x) = x"
  using assms by (simp_all add: validDigest_def nth_append)

lemma temp_names:
  assumes "validDigest d"
  shows "tempArtifact (d @ ''.write-'' @ k @ ''.tmp'') = Some (d, False)"
    and "tempArtifact (d @ ''.cleanup-'' @ k @ ''.tmp'') = Some (d, True)"
proof -
  have s: "has_prefix (rev ''.tmp'') (rev (x @ ''.tmp''))" for x by (simp add: has_prefix_def)
  have w: "d @ ''.write-'' @ k @ ''.tmp'' = (d @ ''.write-'' @ k) @ ''.tmp''" "d @ ''.cleanup-'' @ k @ ''.tmp'' = (d @ ''.cleanup-'' @ k) @ ''.tmp''"
    by simp_all
  show "tempArtifact (d @ ''.write-'' @ k @ ''.tmp'') = Some (d, False)"
    using s[of "d @ ''.write-'' @ k", folded w] digest_parts[OF assms] assms by (simp add: tempArtifact_def has_prefix_def)
  show "tempArtifact (d @ ''.cleanup-'' @ k @ ''.tmp'') = Some (d, True)"
    using s[of "d @ ''.cleanup-'' @ k", folded w] digest_parts[OF assms] assms by (simp add: tempArtifact_def has_prefix_def)
qed

lemma ends_create:
  assumes "\<And>k. content (InTemp (prefix @ k @ ''.tmp'')) w = None \<Longrightarrow>
      Q (Some (prefix @ k @ ''.tmp'')) (put_file (InTemp (prefix @ k @ ''.tmp'')) [] (tick w))"
    and "Q None (tick w)" and "C (tick w)"
  shows "ends C Q (create_temp E prefix w)"
  unfolding create_temp_def Let_def using assms by (intro ends_act) (auto split: if_splits)

lemma content_lease [simp]: "content p (lease_digest d w) = content p w" "content p (release_digest d w) = content p w"
  by (cases p; simp add: lease_digest_def release_digest_def content.simps)+

lemma world_lease [simp]: "wd_writes (lease_digest d w) = wd_writes w" "wd_writes (release_digest d w) = wd_writes w"
  "wd_db (lease_digest d w) = wd_db w" "wd_db (release_digest d w) = wd_db w"
  by (simp_all add: lease_digest_def release_digest_def)

lemma fresh_scratch:
  assumes "disk_ok E w" and "content (InTemp n) w = None" and "tempArtifact n = Some (d, False)"
  shows "scratch n w"
  using assms unfolding scratch_def disk_ok_def writes_ok_def write_ok_def by fastforce

lemma ends_create_write:
  assumes "disk_ok E w" and "validDigest d" and "Q None (tick w)" and "C (tick w)"
    and "\<And>n. scratch n w \<Longrightarrow> tempArtifact n = Some (d, False) \<Longrightarrow> Q (Some n) (put_file (InTemp n) [] (tick w))"
  shows "ends C Q (create_temp E (d @ ''.write-'') w)"
  by (rule ends_create) (use assms(3-5) temp_names(1)[OF assms(2)] fresh_scratch[OF assms(1)] in simp_all)

lemma ends_create_cleanup:
  assumes "validDigest d" and "Q None (tick w)" and "C (tick w)"
    and "\<And>n. content (InTemp n) w = None \<Longrightarrow> tempArtifact n = Some (d, True) \<Longrightarrow> Q (Some n) (put_file (InTemp n) [] (tick w))"
  shows "ends C Q (create_temp E (d @ ''.cleanup-'') w)"
  by (rule ends_create) (use assms(2-4) temp_names(2)[OF assms(1)] in simp_all)

lemma ends_write:
  assumes "Q True (put_file p data (tick w))" and "\<And>k. Q False (put_file p (take k data) (tick w))" and "\<And>k. C (put_file p (take k data) (tick w))"
  shows "ends C Q (write_file E p data w)"
  using assms by (auto simp: write_file_def Let_def split: outcome.splits)

section \<open>Every operation keeps the invariants\<close>

text \<open>The calls one after the other, each with the world it leaves.\<close>

lemma ends_bind: "ends C (\<lambda>x w. ends C Q (f x w)) m \<Longrightarrow> ends C Q (next_io m f)"
  by (rule ends_next)

lemmas calls = ends_bind ends_write ends_simple ends_remove_quiet ends_rename ends_stat ends_verify

lemma ends_failPrepare:
  assumes "disk_ok E w" and "scratch temp w"
  shows "ends (crash_ok E) (\<lambda>r. disk_ok E) (failPrepare E digest temp primary opened w)"
  unfolding failPrepare_def using assms
  by (cases opened) (auto intro!: calls simp: drop_scratch disk_crash)

lemma add_write:
  assumes "disk_ok E w" and "write_ok E w p" and "scratch (pw_temp p) w"
  shows "disk_ok E (w\<lparr>wd_writes := wd_writes w @ [p]\<rparr>)"
proof -
  let ?w = "w\<lparr>wd_writes := wd_writes w @ [p]\<rparr>"
  have same: "content q ?w = content q w" for q by (cases q) (simp_all add: content.simps)
  have "writes_ok E ?w"
    using assms by (auto simp: disk_ok_def writes_ok_def write_ok_def same nth_append scratch_def less_Suc_eq)
  then show ?thesis using assms(1) by (simp add: disk_ok_def blobs_good_def artifacts_good_def artifact_def same)
qed

lemma add_write_later:
  assumes "disk_ok E w" and "write_ok E w p" and "scratch (pw_temp p) w" and "ws = wd_writes w"
  shows "disk_ok E (w\<lparr>wd_tick := k, wd_writes := ws @ [p]\<rparr>)"
  using add_write[of E "w\<lparr>wd_tick := k\<rparr>" p] assms by (simp add: write_ok_def)

lemma ends_PrepareWrite:
  assumes "disk_ok E w" and "\<And>b. validDigest (me_sha E b)"
  shows "ends (crash_ok E) (\<lambda>r. disk_ok E) (PrepareWrite E data w)"
  unfolding PrepareWrite_def Let_def
  by (auto intro!: calls ends_create_write ends_failPrepare add_write_later simp: assms put_scratch disk_crash write_ok_def)

text \<open>A write that has begun: it can no longer be committed by another call, and its file is scratch.\<close>

definition begun :: "media_env \<Rightarrow> prepared_write \<Rightarrow> 'z media_db_scheme world \<Rightarrow> bool" where
  "begun E p w \<longleftrightarrow> disk_ok E w \<and> scratch (pw_temp p) w \<and> write_ok E w p"

lemma begun_simps [simp]: "begun E p (tick w) = begun E p w" "begun E p (w\<lparr>wd_tick := n\<rparr>) = begun E p w"
  by (simp_all add: begun_def write_ok_def)

lemma begun_ok:
  assumes "begun E p w"
  shows "disk_ok E w" "crash_ok E w" "disk_ok E (drop_file (InTemp (pw_temp p)) (tick w))"
  using assms by (auto simp: begun_def disk_crash drop_scratch)

lemma write_ok_writes [simp]: "write_ok E (w\<lparr>wd_writes := ws\<rparr>) p = write_ok E w p"
proof -
  have "content q (w\<lparr>wd_writes := ws\<rparr>) = content q w" for q by (cases q) (simp_all add: content.simps)
  then show ?thesis by (simp add: write_ok_def)
qed

lemma set_status_ok:
  assumes "disk_ok E w" and "st \<noteq> Prepared"
  shows "disk_ok E (set_status i st w)"
proof -
  have same: "content q (set_status i st w) = content q w" for q by (cases q) (simp_all add: content.simps set_status_def)
  have "writes_ok E (set_status i st w)"
    using assms unfolding set_status_def disk_ok_def writes_ok_def
    by (cases "i < length (wd_writes w)") (auto simp: nth_list_update)
  then show ?thesis using assms(1) by (simp add: disk_ok_def blobs_good_def artifacts_good_def artifact_def same)
      (simp add: set_status_def)
qed

lemma finish_write_ok: "disk_ok E w \<Longrightarrow> disk_ok E (finish_write i w)"
  by (simp add: finish_write_def set_status_ok)

lemma begin_write_begun:
  assumes "begin_write E h w = (Inr i, w')" and "disk_ok E w"
  shows "begun E (wd_writes w' ! i) w'"
proof -
  from assms(1) have i: "i < length (wd_writes w)" "pw_status (wd_writes w ! i) = Prepared" and w': "w' = set_status i Finalizing w"
    by (auto simp: begin_write_def Let_def split: option.splits if_splits)
  have p: "wd_writes w' ! i = (wd_writes w ! i)\<lparr>pw_status := Finalizing\<rparr>" using i by (simp add: w' set_status_def)
  have ok: "write_ok E w (wd_writes w ! i)" and "\<And>j. j < length (wd_writes w) \<Longrightarrow> j \<noteq> i \<Longrightarrow> pw_status (wd_writes w ! j) = Prepared \<Longrightarrow>
      pw_temp (wd_writes w ! j) \<noteq> pw_temp (wd_writes w ! i)"
    using assms(2) i unfolding disk_ok_def writes_ok_def by auto
  then have "scratch (pw_temp (wd_writes w ! i)) w'"
    by (auto simp: scratch_def w' set_status_def nth_list_update i(1) write_ok_def split: if_splits)
  then show ?thesis using ok set_status_ok[OF assms(2), of Finalizing i] unfolding begun_def p w'
    by (simp add: write_ok_def set_status_def content.simps i(1))
qed

lemma begin_write_Inl: "begin_write E h w = (Inl e, w') \<Longrightarrow> w' = w"
  by (auto simp: begin_write_def Let_def split: option.splits if_splits)

lemma ends_cleanupAttempt:
  assumes "begun E p w"
  shows "ends (crash_ok E) (\<lambda>r. disk_ok E) (cleanupAttempt E p primary w)"
  using assms unfolding cleanupAttempt_def by (auto intro!: calls simp: begun_def drop_scratch disk_crash)

lemma ends_roll_back: "disk_ok E w \<Longrightarrow> ends (crash_ok E) (\<lambda>r. disk_ok E) (roll_back E r w)"
  unfolding roll_back_def by (auto intro!: calls simp: disk_crash)

lemma ends_abort:
  assumes "begun E p w"
  shows "ends (crash_ok E) (\<lambda>r. disk_ok E) (abort_attempt E p e w)"
  unfolding abort_attempt_def by (rule ends_next[OF ends_cleanupAttempt[OF assms]]) (rule ends_roll_back)

text \<open>A callback that only adds references to the digest it is given.\<close>

definition own_reference :: "('e, 'z) reference_commit \<Rightarrow> bool" where
  "own_reference f \<longleftrightarrow> (\<forall>tx d n r tx'. f tx d n = (r, tx') \<longrightarrow>
     md_blobs tx' = md_blobs tx \<and> ref_digests tx' \<subseteq> insert d (ref_digests tx))"

lemma insert_blob_tables:
  assumes "tables_ok db"
  shows "tables_ok (insert_blob d n mime db)" "recorded e (insert_blob d n mime db) \<longleftrightarrow> recorded e db \<or> e = d"
  using assms by (auto simp: insert_blob_def tables_ok_def ref_digests_def recorded_def)

lemma callback_tables:
  assumes "own_reference f" and "tables_ok db" and "f (insert_blob d n mime db) d k = (r, tx)"
  shows "tables_ok tx" "recorded e tx \<longleftrightarrow> recorded e db \<or> e = d"
proof -
  let ?db = "insert_blob d n mime db"
  have b: "md_blobs tx = md_blobs ?db" "ref_digests tx \<subseteq> insert d (ref_digests ?db)"
    using assms(1,3) unfolding own_reference_def by blast+
  have "d \<in> br_digest ` set (md_blobs ?db)" using insert_blob_tables(2)[OF assms(2), of d] by (simp add: recorded_def)
  then show "tables_ok tx" using insert_blob_tables(1)[OF assms(2), of d n mime] b by (auto simp: tables_ok_def)
  show "recorded e tx \<longleftrightarrow> recorded e db \<or> e = d" using insert_blob_tables(2)[OF assms(2), of e d] b(1) by (simp add: recorded_def)
qed

lemma content_db [simp]: "content p (w\<lparr>wd_db := tx\<rparr>) = content p w"
  by (cases p) (simp_all add: content.simps)

lemma covered_db [simp]: "covered d (w\<lparr>wd_db := tx\<rparr>) = covered d w" "covered d (tick w) = covered d w"
  by (simp_all add: covered_def artifact_def)

lemma disk_ok_covered: "disk_ok E w \<Longrightarrow> recorded d (wd_db w) \<Longrightarrow> covered d w"
  by (simp add: disk_ok_def covered_def)

lemma commit_ok:
  assumes "disk_ok E w" and "tables_ok tx" and "\<And>d. recorded d tx \<Longrightarrow> covered d w"
  shows "disk_ok E (w\<lparr>wd_db := tx\<rparr>)"
  using assms by (simp add: disk_ok_def blobs_good_def artifacts_good_def artifact_def writes_ok_def write_ok_def covered_def)

lemma ends_commit:
  assumes "Q True ((tick w)\<lparr>wd_db := tx\<rparr>)" and "Q False (tick w)" and "Q False ((tick w)\<lparr>wd_db := tx\<rparr>)" and "C (tick w)"
  shows "ends C Q (commitTransaction E tx w)"
  using assms by (auto simp: commitTransaction_def split: outcome.splits)

lemma ends_count:
  assumes "Q None (tick w)" and "\<And>n. 0 < n \<longleftrightarrow> recorded d (wd_db w) \<Longrightarrow> Q (Some n) (tick w)" and "C (tick w)"
  shows "ends C Q (count_blob E d w)"
proof -
  have "0 < count_where (\<lambda>b. br_digest b = d) (md_blobs (wd_db w)) \<longleftrightarrow> recorded d (wd_db w)"
    using count_where_0[of "\<lambda>b. br_digest b = d" "md_blobs (wd_db w)"] by (auto simp: recorded_def)
  then show ?thesis unfolding count_blob_def using assms by (intro ends_act) auto
qed

lemma begun_db:
  assumes "begun E p w" and "tables_ok tx" and "\<And>d. recorded d tx \<Longrightarrow> covered d w"
  shows "begun E p (w\<lparr>wd_db := tx\<rparr>)"
  using assms commit_ok[OF _ assms(2,3)] by (simp add: begun_def write_ok_def scratch_def)

lemma ends_restore:
  assumes "\<not> published \<Longrightarrow> begun E p w" and "disk_ok E w"
  shows "ends (crash_ok E) (\<lambda>r. disk_ok E) (restoreAfterGenericCommitFailure E p published w)"
  unfolding restoreAfterGenericCommitFailure_def using assms
  by (cases published) (auto intro!: ends_cleanupAttempt calls ends_count simp: drop_blob disk_crash blobPath_def)

lemma ends_publish:
  assumes "begun E p w" and "winner \<Longrightarrow> content (InBlobs (pw_digest p)) w \<noteq> None" and "tables_ok tx"
    and "\<And>d. recorded d tx \<Longrightarrow> recorded d (wd_db w) \<or> d = pw_digest p"
  shows "ends (crash_ok E) (\<lambda>r. disk_ok E) (publish_attempt E p winner tx w)"
proof (cases winner)
  case True
  then have cov: "covered d w" if "recorded d tx" for d
    using assms(1,2,4) that by (auto simp: begun_def intro: covered_blob disk_ok_covered)
  have tx: "begun E p (w\<lparr>wd_db := tx\<rparr>)" by (rule begun_db[OF assms(1,3) cov])
  have tx': "begun E p ((tick w)\<lparr>wd_db := tx\<rparr>)" using begun_db[of E p "tick w" tx] assms(1,3) cov by simp
  show ?thesis unfolding publish_attempt_def using True assms(1) tx' begun_ok[OF assms(1)] begun_ok[OF tx']
    by (auto intro!: calls ends_commit ends_restore)
next
  case False
  obtain b where b: "content (InTemp (pw_temp p)) w = Some b" "me_sha E b = pw_digest p" using assms(1) by (auto simp: begun_def write_ok_def)
  let ?v = "put_file (InBlobs (pw_digest p)) b (drop_file (InTemp (pw_temp p)) (tick w))"
  have v: "disk_ok E ?v" using assms(1) b(2) by (simp add: begun_def put_blob drop_scratch)
  have cov: "covered d ?v" if "recorded d tx" for d
    using assms(4)[OF that] disk_ok_covered[OF v] by (auto intro: covered_blob)
  have tx: "disk_ok E ((tick ?v)\<lparr>wd_db := tx\<rparr>)" by (rule commit_ok) (use v assms(3) cov in simp_all)
  show ?thesis unfolding publish_attempt_def
  proof (rule ends_next[where P = "\<lambda>m u. if m = None then u = ?v else begun E p u"])
    show "ends (crash_ok E) (\<lambda>m u. if m = None then u = ?v else begun E p u)
        (if winner then (Some None, w) else renameFile E (InTemp (pw_temp p)) (blobPath (pw_digest p)) w)"
      using False assms(1) b(1) begun_ok[OF assms(1)] by (auto intro!: ends_rename simp: blobPath_def)
    fix m u assume u: "if m = None then u = ?v else begun E p u"
    show "ends (crash_ok E) (\<lambda>r. disk_ok E) (if m \<noteq> None then abort_attempt E p (MediaError ''promote'') u
        else next_io (commitTransaction E tx u) (\<lambda>ok w. if \<not> ok then next_io (restoreAfterGenericCommitFailure E p (\<not> winner) w)
           (\<lambda>parity w. (Some (Inl (the (joinFailure (Some (MediaError ''commit transaction'')) parity))), w))
         else if winner then next_io (remove_quiet E (InTemp (pw_temp p)) ''discard duplicate temp after commit'' w)
           (\<lambda>e w. (Some (case e of Some x \<Rightarrow> Inl x | None \<Rightarrow> Inr (pw_digest p)), w))
         else (Some (Inr (pw_digest p)), w)))"
      using u False v tx by (auto intro!: ends_abort ends_bind ends_commit ends_restore simp: disk_crash)
  qed
qed

lemma ends_winner:
  assumes "begun E p w"
  shows "ends (crash_ok E) (\<lambda>r v. begun E p v \<and> crash_ok E v \<and> wd_db v = wd_db w \<and> (r = Inr True \<longrightarrow> content (InBlobs (pw_digest p)) v \<noteq> None))
    (verifiedWinner E p w)"
proof (cases "content (InBlobs (pw_digest p)) w = None")
  case True
  then show ?thesis unfolding verifiedWinner_def Let_def blobPath_def using assms begun_ok[OF assms] by (auto intro!: calls)
next
  case False
  then show ?thesis unfolding verifiedWinner_def Let_def blobPath_def using assms begun_ok[OF assms] by (auto intro!: calls)
qed

lemma ends_attempt:
  assumes "begun E p w" and "own_reference f"
  shows "ends (crash_ok E) (\<lambda>r. disk_ok E) (commit_attempt E mime p f w)"
proof -
  have tabs: "tables_ok (wd_db w)" using assms(1) by (simp add: begun_def disk_ok_def)
  have go: "ends (crash_ok E) (\<lambda>r. disk_ok E)
      (case f (insert_blob (pw_digest p) (pw_size p) mime (wd_db w)) (pw_digest p) (pw_size p) of
         (Inl e, _) \<Rightarrow> abort_attempt E p (CallbackError e) u
       | (Inr _, tx) \<Rightarrow> publish_attempt E p winner tx u)"
    if u: "begun E p u" "wd_db u = wd_db w" "winner \<Longrightarrow> content (InBlobs (pw_digest p)) u \<noteq> None" for u winner
  proof -
    obtain r tx where ftx: "f (insert_blob (pw_digest p) (pw_size p) mime (wd_db w)) (pw_digest p) (pw_size p) = (r, tx)" by fastforce
    show ?thesis using u callback_tables[OF assms(2) tabs ftx] ftx by (auto intro!: ends_abort ends_publish split: sum.split)
  qed
  show ?thesis unfolding commit_attempt_def
    using assms(1) begun_ok[OF assms(1)]
    by (auto intro!: ends_bind ends_simple ends_cleanupAttempt ends_weaken[OF ends_winner] ends_abort go split: sum.split)
qed

lemma ends_CommitPrepared:
  assumes "disk_ok E w" and "own_reference f"
  shows "ends (crash_ok E) (\<lambda>r. disk_ok E) (CommitPrepared E mime h f w)"
proof (cases "begin_write E h w :: ('b media_fault + nat) \<times> 'a media_db_scheme world")
  case (Pair r v)
  show ?thesis
  proof (cases r)
    case (Inl e)
    then have "v = w" using begin_write_Inl Pair by metis
    then show ?thesis using assms Pair Inl by (simp add: CommitPrepared_def)
  next
    case (Inr i)
    then have b: "begun E (wd_writes v ! i) v" using begin_write_begun[of E h w i v] Pair assms by simp
    show ?thesis unfolding CommitPrepared_def Pair Inr prod.case sum.case
      by (rule ends_deferred) (rule ends_weaken[OF ends_attempt[OF b assms(2)]], rule finish_write_ok)
  qed
qed

lemma ends_AbandonWrite:
  assumes "disk_ok E w"
  shows "ends (crash_ok E) (\<lambda>r. disk_ok E) (AbandonWrite E h w :: ('e media_fault + unit, 'z media_db_scheme) run)"
proof (cases "begin_write E h w :: ('e media_fault + nat) \<times> 'z media_db_scheme world")
  case (Pair r v)
  show ?thesis
  proof (cases r)
    case (Inl e)
    then have "v = w" using begin_write_Inl Pair by metis
    then show ?thesis using assms Pair Inl by (simp add: AbandonWrite_def)
  next
    case (Inr i)
    then have b: "begun E (wd_writes v ! i) v" using begin_write_begun[of E h w i v] Pair assms by simp
    show ?thesis using begun_ok[OF b] unfolding AbandonWrite_def Pair Inr
      by (auto intro!: ends_deferred calls simp: finish_write_ok)
  qed
qed

section \<open>Removal of orphans\<close>

text \<open>Placeholders are always removed when they cannot be used.\<close>

definition cleanups_removed :: "media_env \<Rightarrow> bool" where
  "cleanups_removed E \<longleftrightarrow> (\<forall>n d. tempArtifact n = Some (d, True) \<longrightarrow> removes E (InTemp n))"

definition placed :: "media_env \<Rightarrow> string \<Rightarrow> fpath \<Rightarrow> 'z media_db_scheme world \<Rightarrow> bool" where
  "placed E d p w \<longleftrightarrow> (\<exists>n. p = InTemp n \<and> tempArtifact n = Some (d, True)) \<and> disk_ok E (drop_file p w) \<and> content (InBlobs d) w \<noteq> None"

lemma drop_tick [simp]: "disk_ok E (drop_file p (tick w)) = disk_ok E (drop_file p w)"
proof -
  have "drop_file p (tick w) = tick (drop_file p w)" by (cases p) (simp_all add: drop_file.simps tick_def)
  then show ?thesis by simp
qed

lemma placed_ok:
  assumes "placed E d p w"
  shows "crash_ok E w" "disk_ok E (drop_file p w)" "placed E d p (tick w)" "cleanups_removed E \<Longrightarrow> removes E p"
  using assms placeholder_crash[of E _ w d] by (auto simp: placed_def cleanups_removed_def)

lemma without_put: "without k ((k, b) # xs) = without k xs"
  by (simp add: without_def)

lemma drop_put:
  assumes "content p w = None"
  shows "drop_file p (put_file p b w) = w"
  using assms by (cases p) (simp_all add: content.simps drop_file.simps put_file.simps without_put without_absent)

lemma ends_newCleanupPath:
  assumes "disk_ok E w" and "content (InBlobs d) w \<noteq> None" and "validDigest d" and "cleanups_removed E"
  shows "ends (crash_ok E) (\<lambda>r v. case r of Inl _ \<Rightarrow> disk_ok E v | Inr p \<Rightarrow> placed E d p v) (newCleanupPath E d w)"
proof -
  have new: "placed E d (InTemp n) (put_file (InTemp n) [] (tick w))" if "content (InTemp n) w = None" "tempArtifact n = Some (d, True)" for n
    using that assms(1,2) drop_put[of "InTemp n" "tick w" "[]"] by (simp add: placed_def)
  note facts = placed_ok[OF new] assms(1) disk_crash[OF assms(1)]
  show ?thesis unfolding newCleanupPath_def
    by (auto intro!: ends_bind ends_create_cleanup[OF assms(3)] ends_simple ends_removes simp: facts new assms(4))
qed

lemma ends_moved_aside:
  assumes "disk_ok E w" and "validDigest d" and "cleanups_removed E"
  shows "ends (crash_ok E) (\<lambda>r v. disk_ok E v \<and> (\<forall>p. r = Inr (Some p) \<longrightarrow> (\<exists>n. p = InTemp n \<and> tempArtifact n = Some (d, True)))) (moved_aside E d w)"
    (is "ends _ ?Q _")
proof (cases "content (InBlobs d) w = None")
  case True
  then show ?thesis unfolding moved_aside_def blobPath_def using assms(1) by (auto intro!: calls simp: disk_crash)
next
  case False
  have aside: "ends (crash_ok E) ?Q (next_io (renameFile E (InBlobs d) p v) (\<lambda>e w.
           if e = None then (Some (Inr (Some p)), w)
           else next_io (remove_quiet E p ''remove orphan cleanup placeholder'' w) (\<lambda>e w.
             (Some (Inl (the (joinFailure (Some (MediaError ''move orphan aside'')) e))), w))))"
    if v: "placed E d p v" for p v
  proof -
    obtain n where n: "p = InTemp n" "tempArtifact n = Some (d, True)" using v by (auto simp: placed_def)
    have m: "disk_ok E (put_file p b (drop_file (InBlobs d) (tick v)))" if "content (InBlobs d) v = Some b" for b
      using aside_artifact[of E n "tick v" d b] v that n by (simp add: placed_def)
    show ?thesis using placed_ok[OF v] n assms(3)
      by (auto intro!: ends_bind ends_rename ends_removes_quiet m[unfolded n(1)])
  qed
  show ?thesis unfolding moved_aside_def blobPath_def using assms(1) False
    by (auto intro!: ends_bind ends_stat ends_weaken[OF ends_newCleanupPath] aside assms(2,3) simp: disk_crash split: sum.splits)
qed

lemma ends_conj: "ends C P m \<Longrightarrow> ends (\<lambda>_. True) Q m \<Longrightarrow> ends C (\<lambda>r w. P r w \<and> Q r w) m"
  by (auto simp: ends_def split: prod.splits option.splits)

lemma moved_aside_db: "ends (\<lambda>_. True) (\<lambda>r v. wd_db v = wd_db w) (moved_aside E d w)"
  unfolding moved_aside_def newCleanupPath_def
  by (cases "content (InBlobs d) w = None") (auto intro!: calls ends_create ends_remove simp: blobPath_def)

text \<open>What a cleanup may have put aside.\<close>

definition aside :: "string \<Rightarrow> fpath option \<Rightarrow> bool" where
  "aside d cleanup \<longleftrightarrow> (\<forall>p. cleanup = Some p \<longrightarrow> (\<exists>n. p = InTemp n \<and> tempArtifact n = Some (d, True)))"

lemma ends_restoreCleanup:
  assumes "disk_ok E w" and "aside d cleanup"
  shows "ends (crash_ok E) (\<lambda>r. disk_ok E) (restoreCleanupPath E (InBlobs d) cleanup primary w)"
proof (cases cleanup)
  case (Some p)
  then obtain n where n: "p = InTemp n" "tempArtifact n = Some (d, True)" using assms(2) by (auto simp: aside_def)
  show ?thesis unfolding restoreCleanupPath_def Some n(1) using assms(1) restore_artifact[of E "tick w" n d] n(2)
    by (auto intro!: ends_bind ends_rename simp: disk_crash)
qed (use assms in \<open>simp add: restoreCleanupPath_def\<close>)

lemma ends_drop_aside:
  assumes "disk_ok E w" and "aside d cleanup" and "\<not> recorded d (wd_db w)"
  shows "ends (crash_ok E) (\<lambda>r. disk_ok E) (case cleanup of None \<Rightarrow> (Some None, w) | Some p \<Rightarrow> remove_quiet E p msg w)"
proof (cases cleanup)
  case (Some p)
  then obtain n where n: "p = InTemp n" "tempArtifact n = Some (d, True)" using assms(2) by (auto simp: aside_def)
  show ?thesis unfolding Some n(1) option.case using assms(1,3) drop_artifact[of E "tick w" n d] n(2)
    by (auto intro!: ends_remove_quiet simp: disk_crash)
qed (use assms in simp)

lemma delete_blob_tables:
  assumes "tables_ok db" and "d \<notin> ref_digests db"
  shows "tables_ok (delete_blob d db)" "recorded e (delete_blob d db) \<longleftrightarrow> recorded e db \<and> e \<noteq> d"
proof -
  have i: "br_digest ` set (md_blobs (delete_blob d db)) = br_digest ` set (md_blobs db) - {d}" by (auto simp: delete_blob_def)
  then show "recorded e (delete_blob d db) \<longleftrightarrow> recorded e db \<and> e \<noteq> d" by (simp add: recorded_def)
  have "ref_digests (delete_blob d db) = ref_digests db" by (simp add: delete_blob_def ref_digests_def)
  moreover have "distinct (map br_digest (md_blobs (delete_blob d db)))"
    using assms(1) by (simp add: tables_ok_def delete_blob_def distinct_map_filter)
  ultimately show "tables_ok (delete_blob d db)" using assms unfolding tables_ok_def i by blast
qed

lemma ends_delete_orphan:
  assumes "disk_ok E w" and "aside d cleanup" and "d \<notin> ref_digests (wd_db w)"
  shows "ends (crash_ok E) (\<lambda>r. disk_ok E) (delete_orphan E d cleanup w)"
proof -
  have tabs: "tables_ok (wd_db w)" using assms(1) by (simp add: disk_ok_def)
  note del = delete_blob_tables[OF tabs assms(3)]
  have c: "disk_ok E (v\<lparr>wd_db := delete_blob d (wd_db w)\<rparr>)" if "disk_ok E v" "wd_db v = wd_db w" for v
    by (rule commit_ok[OF that(1) del(1)]) (use del(2) that(2) disk_ok_covered[OF that(1)] in auto)
  have undo: "ends (crash_ok E) (\<lambda>r. disk_ok E) (next_io (restoreCleanupPath E (InBlobs d) cleanup primary v) (\<lambda>e w. roll_back E (result_of False e) w))"
    if "disk_ok E v" for primary v
    by (rule ends_next[OF ends_restoreCleanup[OF that assms(2)]]) (rule ends_roll_back)
  show ?thesis unfolding delete_orphan_def blobPath_def Let_def using assms(1)
    by (auto intro!: ends_bind ends_simple undo ends_commit ends_count ends_weaken[OF ends_drop_aside[OF _ assms(2)]]
        ends_weaken[OF ends_restoreCleanup[OF _ assms(2)]] c disk_crash[OF c] simp: disk_crash del)
qed

lemma references_0: "references d db = 0 \<longleftrightarrow> d \<notin> ref_digests db"
  by (auto simp: references_def ref_digests_def count_where_0)

lemma ends_CleanupOrphan:
  assumes "disk_ok E w" and "cleanups_removed E"
  shows "ends (crash_ok E) (\<lambda>r. disk_ok E) (CleanupOrphan E d w :: ('e media_fault + bool, 'z media_db_scheme) run)"
proof (cases "validDigest d")
  case True
  have body: "ends (crash_ok E) (\<lambda>r u. ends (crash_ok E) (\<lambda>r. disk_ok E)
      ((case r of Inl e \<Rightarrow> roll_back E (Inl e) u | Inr cleanup \<Rightarrow> delete_orphan E d cleanup u) :: ('e media_fault + bool, 'z media_db_scheme) run))
      (moved_aside E d v)" if v: "disk_ok E v" "references d (wd_db v) = 0" for v
  proof (rule ends_weaken[OF ends_conj[OF ends_moved_aside[OF v(1) True assms(2)] moved_aside_db]])
    fix r :: "'e media_fault + fpath option" and u :: "'z media_db_scheme world"
    assume u: "(disk_ok E u \<and> (\<forall>p. r = Inr (Some p) \<longrightarrow> (\<exists>n. p = InTemp n \<and> tempArtifact n = Some (d, True)))) \<and> wd_db u = wd_db v"
    show "ends (crash_ok E) (\<lambda>r. disk_ok E)
      ((case r of Inl e \<Rightarrow> roll_back E (Inl e) u | Inr cleanup \<Rightarrow> delete_orphan E d cleanup u) :: ('e media_fault + bool, 'z media_db_scheme) run)"
      using u v(2) by (cases r) (auto intro!: ends_roll_back ends_delete_orphan simp: aside_def references_0)
  qed
  show ?thesis unfolding CleanupOrphan_def cleanup_body_def using True assms(1)
    by (auto intro!: ends_deferred ends_bind ends_simple ends_act ends_weaken[OF ends_roll_back] body simp: disk_crash)
qed (use assms in \<open>simp add: CleanupOrphan_def\<close>)

section \<open>Recovery\<close>

lemma crash_change:
  assumes "crash_ok E w" and "wd_db w' = wd_db w"
    and "\<And>d b. content (InBlobs d) w' = Some b \<Longrightarrow> content (InBlobs d) w = Some b \<or> me_sha E b = d"
    and "\<And>d. recorded d (wd_db w) \<Longrightarrow> content (InBlobs d) w \<noteq> None \<Longrightarrow> content (InBlobs d) w' \<noteq> None"
    and "\<And>d n. recorded d (wd_db w) \<Longrightarrow> content (InBlobs d) w = None \<Longrightarrow> tempArtifact n = Some (d, True) \<Longrightarrow>
       content (InTemp n) w' = content (InTemp n) w \<or> content (InBlobs d) w' \<noteq> None"
  shows "crash_ok E w'"
proof -
  have b: "me_sha E b = d" if "content (InBlobs d) w = Some b" for d b using assms(1) that by (simp add: crash_ok_def blobs_good_def)
  then have "blobs_good E w'" unfolding blobs_good_def using assms(3) by blast
  moreover have "content (InBlobs d) w' \<noteq> None \<or> (\<exists>n. artifact d n w') \<and> artifacts_good E d w'" if r: "recorded d (wd_db w)" for d
  proof (cases "content (InBlobs d) w' = None")
    case True
    then have n: "content (InBlobs d) w = None" using assms(4)[OF r] by blast
    have same: "content (InTemp n) w' = content (InTemp n) w" if "tempArtifact n = Some (d, True)" for n using assms(5)[OF r n that] True by blast
    have "content (InBlobs d) w \<noteq> None \<or> (\<exists>n. artifact d n w) \<and> artifacts_good E d w" using assms(1) r unfolding crash_ok_def by blast
    then have "(\<exists>n. artifact d n w) \<and> artifacts_good E d w" using n by simp
    then show ?thesis using same by (auto simp: artifact_def artifacts_good_def)
  qed simp
  ultimately show ?thesis using assms(1,2) by (simp add: crash_ok_def)
qed

lemma crash_drop_temp:
  assumes "crash_ok E w" and "\<And>d. tempArtifact n = Some (d, True) \<Longrightarrow> \<not> recorded d (wd_db w) \<or> content (InBlobs d) w \<noteq> None"
  shows "crash_ok E (drop_file (InTemp n) w)"
  by (rule crash_change[OF assms(1)]) (use assms(2) in \<open>auto split: if_splits\<close>)

lemma crash_drop_blob: "crash_ok E w \<Longrightarrow> \<not> recorded d (wd_db w) \<Longrightarrow> crash_ok E (drop_file (InBlobs d) w)"
  by (erule crash_change) (auto split: if_splits)

lemma crash_promote:
  assumes "crash_ok E w" and "tempArtifact n = Some (d, True)" and "content (InTemp n) w = Some b"
    and "recorded d (wd_db w)" and "content (InBlobs d) w = None"
  shows "crash_ok E (put_file (InBlobs d) b (drop_file (InTemp n) w))"
proof -
  have "me_sha E b = d" using assms by (auto simp: crash_ok_def artifacts_good_def)
  then show ?thesis by (intro crash_change[OF assms(1)]) (use assms(2) in \<open>auto split: if_splits\<close>)
qed

definition fewer :: "(string \<Rightarrow> fpath) \<Rightarrow> 'd world \<Rightarrow> 'd world \<Rightarrow> bool" where
  "fewer k v w \<longleftrightarrow> (\<forall>m b. content (k m) v = Some b \<longrightarrow> content (k m) w = Some b)"

lemma fewer_trans: "fewer k u v \<Longrightarrow> fewer k v w \<Longrightarrow> fewer k u w"
  by (simp add: fewer_def)

lemma fewer_gone: "fewer k u v \<Longrightarrow> content (k n) v = None \<Longrightarrow> content (k n) u = None"
  by (cases "content (k n) u") (auto simp: fewer_def)

lemma fewerD: "fewer k u v \<Longrightarrow> content (k n) u = Some b \<Longrightarrow> content (k n) v = Some b"
  by (simp add: fewer_def)

lemma fewer_steps [simp]: "fewer k w w" "fewer k w (tick w)" "fewer k (tick w) w" "fewer k (drop_file p (tick w)) w"
  "fewer k (release_digest d v) w = fewer k v w" "fewer k v (lease_digest d w) = fewer k v w" "fewer k (tick v) w = fewer k v w"
  "fewer k v (tick w) = fewer k v w" "fewer k (lease_digest d v) w = fewer k v w" "fewer InTemp (put_file (InBlobs d) b v) w = fewer InTemp v w"
  by (auto simp: fewer_def split: if_splits)

lemma fewer_drop [simp]: "fewer k v w \<Longrightarrow> fewer k (drop_file p v) w"
  by (auto simp: fewer_def split: if_splits)

text \<open>One entry of the directory: without a problem it is gone.\<close>

lemma ends_recoverCleanup:
  assumes "crash_ok E w" and "tempArtifact n = Some (d, True)"
  shows "ends (crash_ok E) (\<lambda>e v. crash_ok E v \<and> wd_writes v = wd_writes w \<and> wd_db v = wd_db w \<and>
      fewer InTemp v w \<and>
      (e = None \<longrightarrow> content (InTemp n) v = None)) (recoverCleanupArtifact E d (InTemp n) w)"
proof -
  have d: "crash_ok E (drop_file (InTemp n) (tick v))" if "crash_ok E v" "\<not> recorded d (wd_db v) \<or> content (InBlobs d) v \<noteq> None" for v
    by (rule crash_drop_temp) (use that assms(2) in auto)
  have pr: "crash_ok E (put_file (InBlobs d) b (drop_file (InTemp n) (tick (tick (tick w)))))"
    if "content (InTemp n) w = Some b" "recorded d (wd_db w)" "content (InBlobs d) w = None" for b
    by (rule crash_promote) (use that assms in auto)
  show ?thesis
  proof (cases "content (InBlobs d) w = None")
    case True
    then show ?thesis unfolding recoverCleanupArtifact_def blobPath_def using assms(1)
      by (auto intro!: calls ends_count d pr split: if_splits)
  next
    case False
    then show ?thesis unfolding recoverCleanupArtifact_def blobPath_def using assms(1)
      by (auto intro!: calls ends_count d split: if_splits)
  qed
qed

lemma ends_recover_temps:
  fixes ps :: "'e media_fault list"
  assumes "crash_ok E w"
  shows "ends (crash_ok E) (\<lambda>qs v. crash_ok E v \<and> wd_writes v = wd_writes w \<and> wd_db v = wd_db w \<and>
      fewer InTemp v w \<and>
      (qs = [] \<longrightarrow> ps = [] \<and> (\<forall>n \<in> set names. tempArtifact n \<noteq> None \<longrightarrow> content (InTemp n) v = None)))
    (recover_temps E names ps w)"
  using assms
proof (induction names arbitrary: ps w)
  case Nil
  then show ?case by simp
next
  case (Cons n names)
  show ?case
  proof (cases "tempArtifact n")
    case None
    then show ?thesis using Cons.IH[OF Cons.prems, of ps] by (auto elim!: ends_weaken)
  next
    case (Some dc)
    obtain d c where dc: "dc = (d, c)" by fastforce
    let ?Q = "\<lambda>e v. crash_ok E v \<and> wd_writes v = wd_writes w \<and> wd_db v = wd_db w \<and>
      fewer InTemp v w \<and> (e = None \<longrightarrow> content (InTemp n) v = None)"
    have one: "ends (crash_ok E) ?Q (deferred (release_digest d)
       (if c then recoverCleanupArtifact E d (InTemp n) (lease_digest d w) else remove_quiet E (InTemp n) ''recover stale temp'' (lease_digest d w)))"
    proof (cases c)
      case True
      then show ?thesis using ends_recoverCleanup[of E "lease_digest d w" n d] Cons.prems Some dc
        by (auto intro!: ends_deferred elim!: ends_weaken)
    next
      case False
      have "crash_ok E (drop_file (InTemp n) (tick (lease_digest d w)))"
        by (rule crash_drop_temp) (use Cons.prems Some dc False in auto)
      then show ?thesis using False Cons.prems
        by (auto intro!: ends_deferred ends_remove_quiet split: if_splits)
    qed
    show ?thesis unfolding recover_temps.simps Some dc option.case prod.case
    proof (rule ends_next[OF one])
      fix e :: "'e media_fault option" and v assume v: "?Q e v"
      show "ends (crash_ok E) (\<lambda>qs v. crash_ok E v \<and> wd_writes v = wd_writes w \<and> wd_db v = wd_db w \<and>
         fewer InTemp v w \<and>
         (qs = [] \<longrightarrow> ps = [] \<and> (\<forall>n \<in> set (n # names). tempArtifact n \<noteq> None \<longrightarrow> content (InTemp n) v = None)))
        (recover_temps E names (problem e ps) v)"
        by (rule ends_weaken[OF Cons.IH]) (use v in \<open>auto simp: problem_def split: option.splits intro: fewer_trans fewer_gone dest: fewerD\<close>)
    qed
  qed
qed

lemma ends_recover_blob:
  assumes "crash_ok E w"
  shows "ends (crash_ok E) (\<lambda>e v. crash_ok E v \<and> wd_writes v = wd_writes w \<and> wd_db v = wd_db w \<and>
      (\<forall>m. content (InTemp m) v = content (InTemp m) w) \<and> fewer InBlobs v w \<and>
      (e = None \<longrightarrow> recorded d (wd_db w) \<or> content (InBlobs d) v = None)) (recover_blob E d w)"
  unfolding recover_blob_def blobPath_def using assms
  by (auto intro!: calls ends_count crash_drop_blob split: if_splits)

lemma ends_recover_blobs:
  fixes ps :: "'e media_fault list"
  assumes "crash_ok E w"
  shows "ends (crash_ok E) (\<lambda>qs v. crash_ok E v \<and> wd_writes v = wd_writes w \<and> wd_db v = wd_db w \<and>
      (\<forall>m. content (InTemp m) v = content (InTemp m) w) \<and> fewer InBlobs v w \<and>
      (qs = [] \<longrightarrow> ps = [] \<and> (\<forall>n \<in> set names. validDigest n \<longrightarrow> recorded n (wd_db w) \<or> content (InBlobs n) v = None)))
    (recover_blobs E names ps w)"
  using assms
proof (induction names arbitrary: ps w)
  case Nil
  then show ?case by simp
next
  case (Cons n names)
  show ?case
  proof (cases "validDigest n")
    case False
    then show ?thesis using Cons.IH[OF Cons.prems, of ps] by (auto elim!: ends_weaken)
  next
    case True
    let ?Q = "\<lambda>e v. crash_ok E v \<and> wd_writes v = wd_writes w \<and> wd_db v = wd_db w \<and>
      (\<forall>m. content (InTemp m) v = content (InTemp m) w) \<and> fewer InBlobs v w \<and>
      (e = None \<longrightarrow> recorded n (wd_db w) \<or> content (InBlobs n) v = None)"
    have one: "ends (crash_ok E) ?Q (deferred (release_digest n) (recover_blob E n (lease_digest n w)))"
      using ends_recover_blob[of E "lease_digest n w" n] Cons.prems by (auto intro!: ends_deferred elim!: ends_weaken)
    have "ends (crash_ok E) (\<lambda>qs v. crash_ok E v \<and> wd_writes v = wd_writes w \<and> wd_db v = wd_db w \<and>
         (\<forall>m. content (InTemp m) v = content (InTemp m) w) \<and> fewer InBlobs v w \<and>
         (qs = [] \<longrightarrow> ps = [] \<and> (\<forall>n \<in> set (n # names). validDigest n \<longrightarrow> recorded n (wd_db w) \<or> content (InBlobs n) v = None)))
        (recover_blobs E names (problem e ps) v)" if v: "?Q e v" for e :: "'e media_fault option" and v
      by (rule ends_weaken[OF Cons.IH]) (use v in \<open>auto simp: problem_def split: option.splits intro: fewer_trans fewer_gone dest: fewerD\<close>)
    then show ?thesis unfolding recover_blobs.simps using True by (auto intro: ends_next[OF one])
  qed
qed

lemma listed: "n \<in> set (sort (map fst xs)) \<longleftrightarrow> map_of xs n \<noteq> None"
  by (simp add: map_of_eq_None_iff)

text \<open>Without a problem recovery leaves the files and rows of one another, and nothing temporary.\<close>

definition parity :: "media_env \<Rightarrow> 'z media_db_scheme world \<Rightarrow> bool" where
  "parity E w \<longleftrightarrow> (\<forall>d. recorded d (wd_db w) \<longrightarrow> (\<exists>b. content (InBlobs d) w = Some b \<and> me_sha E b = d)) \<and>
     (\<forall>d. validDigest d \<and> content (InBlobs d) w \<noteq> None \<longrightarrow> recorded d (wd_db w)) \<and>
     (\<forall>n. tempArtifact n \<noteq> None \<longrightarrow> content (InTemp n) w = None)"

lemma recovered_ok:
  assumes "crash_ok E w" and "\<And>n. tempArtifact n \<noteq> None \<Longrightarrow> content (InTemp n) w = None" and "wd_writes w = []"
  shows "disk_ok E w"
proof -
  have n: "content (InTemp n) w = None" if "tempArtifact n = Some x" for n x using assms(2) that by simp
  then show ?thesis using assms(1,3) by (auto simp: crash_ok_def disk_ok_def artifact_def artifacts_good_def writes_ok_def n)
qed

lemma ends_Recover:
  assumes "crash_ok E w"
  shows "ends (crash_ok E) (\<lambda>qs v. crash_ok E v \<and> wd_db v = wd_db w \<and> (qs = [] \<and> wd_writes w = [] \<longrightarrow> disk_ok E v \<and> parity E v))
    (Recover E w :: ('e media_fault list, 'z media_db_scheme) run)"
proof -
  have cT: "content (InTemp n) v = map_of (wd_temp v) n" and cB: "content (InBlobs n) v = map_of (wd_blobs v) n" for n and v :: "'z media_db_scheme world"
    by (simp_all add: content.simps)
  let ?T = "\<lambda>names v. crash_ok E v \<and> wd_writes v = wd_writes w \<and> wd_db v = wd_db w \<and> (\<forall>n. tempArtifact n \<noteq> None \<longrightarrow> content (InTemp n) v = None)"
  let ?names = "sort (map fst (wd_temp w))"
  have blobs: "ends (crash_ok E) (\<lambda>qs v. crash_ok E v \<and> wd_db v = wd_db w \<and> (qs = [] \<and> wd_writes w = [] \<longrightarrow> disk_ok E v \<and> parity E v))
      (recover_blobs E (sort (map fst (wd_blobs u))) ps (tick u))"
    if u: "crash_ok E u" "wd_writes u = wd_writes w" "wd_db u = wd_db w" "ps = [] \<Longrightarrow> (\<forall>n. tempArtifact n \<noteq> None \<longrightarrow> content (InTemp n) u = None)" for u and ps :: "'e media_fault list"
  proof (rule ends_weaken[OF ends_recover_blobs])
    fix qs :: "'e media_fault list" and v
    assume v: "crash_ok E v \<and> wd_writes v = wd_writes (tick u) \<and> wd_db v = wd_db (tick u) \<and>
      (\<forall>m. content (InTemp m) v = content (InTemp m) (tick u)) \<and> fewer InBlobs v (tick u) \<and>
      (qs = [] \<longrightarrow> ps = [] \<and> (\<forall>n \<in> set (sort (map fst (wd_blobs u))). validDigest n \<longrightarrow> recorded n (wd_db (tick u)) \<or> content (InBlobs n) v = None))"
    have "disk_ok E v \<and> parity E v" if q: "qs = []" "wd_writes w = []"
    proof -
      have t: "content (InTemp n) v = None" if "tempArtifact n \<noteq> None" for n using v u(4) q(1) that by simp
      have ok: "disk_ok E v" by (rule recovered_ok) (use v u(2) q(2) t in auto)
      have "recorded d (wd_db v)" if d: "validDigest d" "content (InBlobs d) v \<noteq> None" for d
      proof -
        have f: "fewer InBlobs v u" using v by simp
        obtain y where "content (InBlobs d) v = Some y" using d(2) by blast
        then have "content (InBlobs d) u \<noteq> None" using fewerD[OF f] by simp
        then have "d \<in> set (sort (map fst (wd_blobs u)))" unfolding listed cB .
        then show ?thesis using v q(1) d by auto
      qed
      moreover have "\<exists>b. content (InBlobs d) v = Some b \<and> me_sha E b = d" if r: "recorded d (wd_db v)" for d
      proof -
        have "content (InBlobs d) v \<noteq> None" using disk_ok_covered[OF ok r] t unfolding covered_def artifact_def by (metis option.distinct(1))
        then show ?thesis using ok by (auto simp: disk_ok_def blobs_good_def)
      qed
      ultimately show ?thesis using ok t unfolding parity_def by blast
    qed
    then show "crash_ok E v \<and> wd_db v = wd_db w \<and> (qs = [] \<and> wd_writes w = [] \<longrightarrow> disk_ok E v \<and> parity E v)" using v u(3) by simp
  qed (use u(1) in simp)
  have temps: "ends (crash_ok E) (\<lambda>ps v. crash_ok E v \<and> wd_writes v = wd_writes w \<and> wd_db v = wd_db w \<and>
      (ps = [] \<longrightarrow> (\<forall>n. tempArtifact n \<noteq> None \<longrightarrow> content (InTemp n) v = None)))
      (recover_temps E ?names [] (tick w) :: ('e media_fault list, 'z media_db_scheme) run)"
  proof (rule ends_weaken[OF ends_recover_temps])
    fix qs :: "'e media_fault list" and v
    assume v: "crash_ok E v \<and> wd_writes v = wd_writes (tick w) \<and> wd_db v = wd_db (tick w) \<and> fewer InTemp v (tick w) \<and>
      (qs = [] \<longrightarrow> [] = ([] :: 'e media_fault list) \<and> (\<forall>n \<in> set ?names. tempArtifact n \<noteq> None \<longrightarrow> content (InTemp n) v = None))"
    have "content (InTemp n) v = None" if q: "qs = []" "tempArtifact n \<noteq> None" for n
    proof (cases "content (InTemp n) w = None")
      case True
      then show ?thesis using v fewer_gone[of InTemp v w n] by simp
    next
      case False
      then have "n \<in> set ?names" unfolding listed cT .
      then show ?thesis using v q by blast
    qed
    then show "crash_ok E v \<and> wd_writes v = wd_writes w \<and> wd_db v = wd_db w \<and> (qs = [] \<longrightarrow> (\<forall>n. tempArtifact n \<noteq> None \<longrightarrow> content (InTemp n) v = None))"
      using v by simp
  qed (use assms in simp)
  show ?thesis unfolding Recover_def read_dir_def using assms
    by (auto intro!: ends_bind ends_act ends_weaken[OF temps] blobs simp: disk_crash)
qed

section \<open>Processes that end and start again\<close>

text \<open>The flag tells whether a process serves requests; it does after a recovery without problems only.\<close>

inductive media_step ::
  "media_env \<Rightarrow> ('e, 'z) reference_commit set \<Rightarrow> bool \<times> 'z media_db_scheme world \<Rightarrow> bool \<times> 'z media_db_scheme world \<Rightarrow> bool"
  for E :: media_env and fs :: "('e, 'z) reference_commit set" where
  prepare: "PrepareWrite E data w = (r :: ('e media_fault + nat) option, w') \<Longrightarrow> media_step E fs (True, w) (r \<noteq> None, w')"
| commit: "f \<in> fs \<Longrightarrow> CommitPrepared E mime h f w = (r, w') \<Longrightarrow> media_step E fs (True, w) (r \<noteq> None, w')"
| abandon: "AbandonWrite E h w = (r :: ('e media_fault + unit) option, w') \<Longrightarrow> media_step E fs (True, w) (r \<noteq> None, w')"
| cleanup: "CleanupOrphan E d w = (r :: ('e media_fault + bool) option, w') \<Longrightarrow> media_step E fs (True, w) (r \<noteq> None, w')"
| elsewhere: "md_blobs db' = md_blobs (wd_db w) \<Longrightarrow> ref_digests db' \<subseteq> ref_digests (wd_db w) \<Longrightarrow>
    media_step E fs (True, w) (True, w\<lparr>wd_db := db'\<rparr>)"
| killed: "media_step E fs (True, w) (False, w)"
| start: "Recover E (restarted w) = (Some ([] :: 'e media_fault list), w') \<Longrightarrow> media_step E fs (False, w) (True, w')"
| start_fails: "Recover E (restarted w) = (r :: 'e media_fault list option, w') \<Longrightarrow> r \<noteq> Some [] \<Longrightarrow> media_step E fs (False, w) (False, w')"

definition media_fresh :: "bool \<times> 'z media_db_scheme world \<Rightarrow> bool" where
  "media_fresh s \<longleftrightarrow> \<not> fst s \<and> wd_temp (snd s) = [] \<and> wd_blobs (snd s) = [] \<and> md_blobs (wd_db (snd s)) = [] \<and>
     ref_digests (wd_db (snd s)) = {}"

definition media_inv :: "media_env \<Rightarrow> bool \<times> 'z media_db_scheme world \<Rightarrow> bool" where
  "media_inv E s \<longleftrightarrow> (if fst s then disk_ok E (snd s) else crash_ok E (snd s))"

definition env_ok :: "media_env \<Rightarrow> ('e, 'z) reference_commit set \<Rightarrow> bool" where
  "env_ok E fs \<longleftrightarrow> (\<forall>b. validDigest (me_sha E b)) \<and> cleanups_removed E \<and> (\<forall>f \<in> fs. own_reference f)"

lemma ends_run: "ends C (\<lambda>r. Q) m \<Longrightarrow> m = (r, w) \<Longrightarrow> if r \<noteq> None then Q w else C w"
  by (cases r) (auto simp: ends_def)

lemma crash_ok_restarted [simp]: "crash_ok E (restarted w) = crash_ok E w"
  by (rule crash_ok_same) (simp add: same_disk_def restarted_def)

lemma media_step_inv:
  fixes fs :: "('e, 'z) reference_commit set"
  assumes "media_step E fs s t" and "env_ok E fs" and "media_inv E s"
  shows "media_inv E t"
  using assms(1,3)
proof (induction rule: media_step.induct)
  case (prepare data w r w')
  then show ?case using ends_run[OF ends_PrepareWrite prepare(1)] assms(2) by (auto simp: media_inv_def env_ok_def split: if_splits)
next
  case (commit f mime h w r w')
  then show ?case using ends_run[OF ends_CommitPrepared commit(2)] assms(2) by (auto simp: media_inv_def env_ok_def split: if_splits)
next
  case (abandon h w r w')
  then show ?case using ends_run[OF ends_AbandonWrite abandon(1)] by (auto simp: media_inv_def split: if_splits)
next
  case (cleanup d w r w')
  then show ?case using ends_run[OF ends_CleanupOrphan cleanup(1)] assms(2) by (auto simp: media_inv_def env_ok_def split: if_splits)
next
  case (elsewhere db' w)
  have ok: "disk_ok E w" using elsewhere(3) by (simp add: media_inv_def)
  have "disk_ok E (w\<lparr>wd_db := db'\<rparr>)"
  proof (rule commit_ok[OF ok])
    show "tables_ok db'" using ok elsewhere(1,2) by (auto simp: disk_ok_def tables_ok_def)
    show "covered d w" if "recorded d db'" for d
      using disk_ok_covered[OF ok] that elsewhere(1) by (simp add: recorded_def)
  qed
  then show ?case by (simp add: media_inv_def)
next
  case (killed w)
  then show ?case by (simp add: media_inv_def disk_crash)
next
  case (start w w')
  have "crash_ok E (restarted w)" using start(2) by (simp add: media_inv_def)
  from ends_Recover[OF this, where 'e = 'e] show ?case using start(1) by (simp add: ends_def media_inv_def restarted_def)
next
  case (start_fails w r w')
  have "crash_ok E (restarted w)" using start_fails(3) by (simp add: media_inv_def)
  from ends_Recover[OF this, where 'e = 'e] show ?case using start_fails(1) by (cases r) (simp_all add: ends_def media_inv_def)
qed

lemma media_fresh_inv: "media_fresh s \<Longrightarrow> media_inv E s"
  by (simp add: media_fresh_def media_inv_def crash_ok_def tables_ok_def blobs_good_def recorded_def content.simps)

interpretation media: invariant_system media_fresh "media_step E fs" "\<lambda>s. env_ok E fs \<longrightarrow> media_inv E s"
  for E :: media_env and fs :: "('e, 'z) reference_commit set"
proof
  show "env_ok E fs \<longrightarrow> media_inv E s" if "media_fresh s" for s :: "bool \<times> 'z media_db_scheme world" using media_fresh_inv[OF that] by blast
  show "env_ok E fs \<longrightarrow> media_inv E t" if "env_ok E fs \<longrightarrow> media_inv E s" "media_step E fs s t" for s t
    using media_step_inv[OF that(2)] that(1) by blast
qed

end
