(* ===== verification/Workers.thy ===== *)
theory Workers
  imports Speech_Store
begin

text \<open>
  The worker service, internal/workers/service.go: enrollment and credentials, the two lease lanes, heartbeats, failures and
  completions of the legacy protocol.  Every call reads one clock (\<open>now\<close>); a lease loop reads it once per poll.  Random
  tokens are arguments, ULID parsing, the language tables, SHA-256 and NFC are the parameters of the packages that use them.
  The media store appears as the outcomes of its file operations (\<open>media_io\<close>) around the transaction that publishes a
  digest.
\<close>

section \<open>Data\<close>

record worker_svc =
  ws_relay :: relay_svc
  ws_speech :: speech_svc
  ws_tag :: "string \<Rightarrow> bool \<times> string"
  ws_root :: "string \<Rightarrow> bool"

abbreviation ws_sha :: "worker_svc \<Rightarrow> string \<Rightarrow> string" where
  "ws_sha E \<equiv> sha (ws_relay E)"

datatype worker_fault =
    ErrWorkerActive | ErrUnauthorized | ErrProtocol | NoWork | ErrMalformedJob | ErrNondeterministic | ErrUploadRejected
  | ErrRelayRejected
  | CapabilitiesRequired | BadStoredJSON | WorkerConstraint | MediaFailed
  | WorkerJobs job_error | WorkerSpeech speech_fault | WorkerRelay relay_fault | WorkerLocal lw_error | WorkerCtx ctx_error

record worker =
  wv_id :: string
  wv_name :: string
  wv_protocol :: string
  wv_revoked :: timestamp
  wv_seen :: timestamp
  wv_capabilities :: "speech_capability list"
  wv_software :: string
  wv_created :: timestamp
  wv_updated :: timestamp
  wv_relay :: "RelayCapability list"
  wv_relay_seen :: timestamp

record enroll_input =
  ei_name :: string
  ei_protocol :: string
  ei_capabilities :: "speech_capability list"
  ei_software :: string
  ei_relay :: "RelayCapability list"

record worker_lease_request =
  wl_protocol :: string
  wl_capabilities :: "speech_capability list"
  wl_relay :: "RelayCapability list"

record lease_response =
  lo_job :: string
  lo_attempt :: int
  lo_token :: string
  lo_expires :: timestamp
  lo_type :: string
  lo_render :: string
  lo_request :: string
  lo_unit :: string
  lo_language :: string
  lo_kind :: string
  lo_text :: string
  lo_context :: string
  lo_profile :: "speech_profile option"
  lo_limits :: audio_limits
  lo_operation :: string
  lo_relay :: string

record heartbeat_response =
  ho_cancel :: bool
  ho_expires :: timestamp
  ho_progress :: int

type_synonym ('a, 'z) worker_op = "'z speech_db_scheme \<Rightarrow> (worker_fault + 'a) \<times> 'z speech_db_scheme"

text \<open>Calls of the scheduler and the speech store inside the service.\<close>

definition sched :: "(jobs_db \<Rightarrow> (job_error + 'a) \<times> jobs_db) \<Rightarrow> ('a, 'z) worker_op" where
  "sched f db = (case on_jobs f db of (r, db') \<Rightarrow> (map_sum WorkerJobs id r, db'))"

definition speech_call :: "('a, 'z) speech_op \<Rightarrow> ('a, 'z) worker_op" where
  "speech_call f db = (case f db of (r, db') \<Rightarrow> (map_sum WorkerSpeech id r, db'))"

definition update_worker :: "string \<Rightarrow> (worker_row \<Rightarrow> worker_row) \<Rightarrow> 'z hub_db_scheme \<Rightarrow> 'z hub_db_scheme" where
  "update_worker wid f db =
     db\<lparr>hub_workers := update_where (\<lambda>w. wk_id w = wid \<and> wk_revoked w = None) f (hub_workers db)\<rparr>"

section \<open>Stored capabilities\<close>

definition caps_json :: "speech_capability list \<Rightarrow> string" where
  "caps_json cs = json_text (JArr (map (\<lambda>c. obj [(''engine'', json_str (sc_engine c)),
     (''languages'', JArr (map json_str (sc_languages c))), (''unit_kinds'', JArr (map json_str (sc_kinds c))),
     (''max_bytes'', json_of_int (sc_bytes c)), (''max_duration_ms'', json_of_int (sc_duration c))]) cs))"

definition relay_caps_json :: "RelayCapability list \<Rightarrow> string" where
  "relay_caps_json cs = json_text (JArr (map (\<lambda>c. obj [(''max_completion_bytes'', json_of_int (rc_bytes c))]) cs))"

definition zero_capability :: speech_capability where
  "zero_capability = \<lparr>sc_engine = [], sc_languages = [], sc_kinds = [], sc_bytes = 0, sc_duration = 0\<rparr>"

definition unmarshal_caps :: "string \<Rightarrow> worker_fault + speech_capability list" where
  "unmarshal_caps s = (case Option.bind (json_parse s) (dec_list zero_capability (dec_struct False tts_fields) []) of
       None \<Rightarrow> Inl BadStoredJSON | Some cs \<Rightarrow> Inr cs)"

definition unmarshalRelayCapabilities :: "string \<Rightarrow> worker_fault + RelayCapability list" where
  "unmarshalRelayCapabilities raw =
     (let t = trim_space raw in
      if t \<in> {'''', ''[]'', ''null''} then Inr []
      else case Option.bind (json_parse t) (dec_list \<lparr>rc_bytes = 0\<rparr> (dec_struct False capability_fields) []) of
        None \<Rightarrow> Inl BadStoredJSON | Some cs \<Rightarrow> Inr cs)"

section \<open>Validation\<close>

definition MaxWorkerName :: nat where "MaxWorkerName = 120"
definition MaxCapabilities :: nat where "MaxCapabilities = 32"

definition language_ok :: "worker_svc \<Rightarrow> string \<Rightarrow> bool" where
  "language_ok E l \<longleftrightarrow> l = ''*'' \<or> ParseBCP47 (ws_tag E) (ws_root E) l = Inr l"

definition capability_ok :: "worker_svc \<Rightarrow> speech_capability \<Rightarrow> bool" where
  "capability_ok E c \<longleftrightarrow> sc_engine c \<in> {AVSpeechEngine, ChatterboxEngine} \<and>
     sc_languages c \<noteq> [] \<and> length (sc_languages c) \<le> 32 \<and> sc_kinds c \<noteq> [] \<and> length (sc_kinds c) \<le> 8 \<and>
     0 \<le> sc_bytes c \<and> 0 \<le> sc_duration c \<and>
     list_all (language_ok E) (sc_languages c) \<and> set (sc_kinds c) \<subseteq> {''*'', UnitWord, UnitPhrase, UnitSentence}"

definition validateCapabilities :: "worker_svc \<Rightarrow> speech_capability list \<Rightarrow> worker_fault + unit" where
  "validateCapabilities E cs =
     (if cs = [] \<or> length cs > MaxCapabilities then Inl CapabilitiesRequired
      else if list_all (capability_ok E) cs then Inr () else Inl ErrProtocol)"

definition validateEnrollInput :: "worker_svc \<Rightarrow> enroll_input \<Rightarrow> worker_fault + unit" where
  "validateEnrollInput E i =
     (if ei_protocol i \<noteq> Speech_Protocol \<or> blank (ei_name i) \<or> length (runes (ei_name i)) > MaxWorkerName then Inl ErrProtocol
      else validateCapabilities E (ei_capabilities i))"

definition validateRelayEnrollCapabilities :: "RelayCapability list \<Rightarrow> worker_fault + unit" where
  "validateRelayEnrollCapabilities cs =
     (if length cs > 1 \<or> (\<exists>c \<in> set cs. rc_bytes c \<noteq> RelayCapabilityBytes) then Inl ErrProtocol else Inr ())"

definition boundedCapacity :: "int \<Rightarrow> int \<Rightarrow> bool" where
  "boundedCapacity requested enrolled \<longleftrightarrow> enrolled = 0 \<or> (requested > 0 \<and> requested \<le> enrolled)"

definition listSubset :: "string list \<Rightarrow> string list \<Rightarrow> bool" where
  "listSubset requested enrolled \<longleftrightarrow> (\<forall>w \<in> set requested. \<exists>h \<in> set enrolled. h = ''*'' \<or> h = w)"

definition capabilitiesSubset :: "speech_capability list \<Rightarrow> speech_capability list \<Rightarrow> bool" where
  "capabilitiesSubset requested enrolled \<longleftrightarrow>
     (\<forall>w \<in> set requested. \<exists>h \<in> set enrolled. sc_engine h = sc_engine w \<and> boundedCapacity (sc_bytes w) (sc_bytes h) \<and>
        boundedCapacity (sc_duration w) (sc_duration h) \<and> listSubset (sc_languages w) (sc_languages h) \<and>
        listSubset (sc_kinds w) (sc_kinds h))"

definition validWorkerErrorCode :: "string \<Rightarrow> bool" where
  "validWorkerErrorCode code \<longleftrightarrow> code \<noteq> [] \<and> validSpeechErrorCode code"

section \<open>Enrollment and credentials\<close>

definition EnrollmentLifetime :: nat where "EnrollmentLifetime = 30 * 60 * 1000"

definition CreateEnrollment :: "worker_svc \<Rightarrow> nat \<Rightarrow> string \<Rightarrow> (string \<times> string \<times> nat, 'z) worker_op" where
  "CreateEnrollment E now token db =
     (let new = ulids (ws_speech E) (sd_drawn db); db' = db\<lparr>sd_drawn := Suc (sd_drawn db)\<rparr>;
          h = ws_sha E token; expires = now + EnrollmentLifetime
      in if ulid_string new \<in> en_id ` set (hub_enrollments db) \<or> h \<in> en_token_hash ` set (hub_enrollments db)
         then (Inl WorkerConstraint, db')
         else (Inr (new, token, expires), db'\<lparr>hub_enrollments := hub_enrollments db @
                [\<lparr>en_id = ulid_string new, en_token_hash = h, en_expires = Some expires, en_used = None\<rparr>]\<rparr>))"

text \<open>The enrollment a token opens: the first that is unused, not expired and has the token's hash.\<close>

definition open_enrollment :: "worker_svc \<Rightarrow> nat \<Rightarrow> string \<Rightarrow> enrollment_row \<Rightarrow> bool" where
  "open_enrollment E now token e \<longleftrightarrow> en_used e = None \<and> (case en_expires e of None \<Rightarrow> False | Some x \<Rightarrow> now < x) \<and>
     constantTokenMatch (ws_sha E) token (en_token_hash e)"

definition use_enrollment :: "nat \<Rightarrow> string \<Rightarrow> 'z hub_db_scheme \<Rightarrow> 'z hub_db_scheme" where
  "use_enrollment now eid db =
     db\<lparr>hub_enrollments := update_where (\<lambda>e. en_id e = eid \<and> en_used e = None) (\<lambda>e. e\<lparr>en_used := Some now\<rparr>) (hub_enrollments db)\<rparr>"

definition insert_worker :: "worker_row \<Rightarrow> (unit, 'z) worker_op" where
  "insert_worker w db =
     (if wk_id w \<in> wk_id ` set (hub_workers db) \<or> wk_token_hash w \<in> wk_token_hash ` set (hub_workers db)
      then (Inl WorkerConstraint, db) else (Inr (), db\<lparr>hub_workers := hub_workers db @ [w]\<rparr>))"

definition enrollBody :: "worker_svc \<Rightarrow> nat \<Rightarrow> string \<Rightarrow> string \<Rightarrow> enroll_input \<Rightarrow> (worker, 'z) worker_op" where
  "enrollBody E now token secret i db =
     (case find (open_enrollment E now token) (hub_enrollments db) of
        None \<Rightarrow> (Inl ErrUnauthorized, db)
      | Some e \<Rightarrow>
          (let new = ulids (ws_speech E) (sd_drawn db); db' = db\<lparr>sd_drawn := Suc (sd_drawn db)\<rparr>;
               w = \<lparr>wv_id = new, wv_name = trim_space (ei_name i), wv_protocol = ei_protocol i, wv_revoked = None, wv_seen = None,
                    wv_capabilities = ei_capabilities i, wv_software = trim_space (ei_software i), wv_created = Some now,
                    wv_updated = Some now, wv_relay = ei_relay i, wv_relay_seen = None\<rparr>;
               row = \<lparr>wk_id = ulid_string new, wk_name = wv_name w, wk_protocol = wv_protocol w, wk_token_hash = ws_sha E secret,
                      wk_revoked = None, wk_seen = None, wk_capabilities = caps_json (ei_capabilities i), wk_software = wv_software w,
                      wk_relay_capabilities = (if ei_relay i = [] then ''[]'' else relay_caps_json (ei_relay i)),
                      wk_relay_seen = None, wk_presence = ''{}'', wk_created = Some now, wk_updated = Some now\<rparr>
           in seq (insert_worker row db') (\<lambda>_ db''. (Inr w, use_enrollment now (en_id e) db''))))"

definition Enroll :: "worker_svc \<Rightarrow> nat \<Rightarrow> string \<Rightarrow> string \<Rightarrow> enroll_input \<Rightarrow> (worker \<times> string, 'z) worker_op" where
  "Enroll E now token secret i db =
     (case bind_res (validateEnrollInput E i) (\<lambda>_. validateRelayEnrollCapabilities (ei_relay i)) of
        Inl e \<Rightarrow> (Inl e, db)
      | Inr _ \<Rightarrow> if blank token then (Inl ErrUnauthorized, db)
                 else seq (with_transaction (enrollBody E now token secret i) db) (\<lambda>w db'. (Inr (w, secret), db')))"

definition worker_of_row :: "worker_row \<Rightarrow> worker_fault + worker" where
  "worker_of_row r =
     bind_res (unmarshal_caps (wk_capabilities r)) (\<lambda>cs.
     bind_res (unmarshalRelayCapabilities (wk_relay_capabilities r)) (\<lambda>rs.
       Inr \<lparr>wv_id = wk_id r, wv_name = wk_name r, wv_protocol = wk_protocol r, wv_revoked = wk_revoked r, wv_seen = wk_seen r,
            wv_capabilities = cs, wv_software = wk_software r, wv_created = wk_created r, wv_updated = wk_updated r,
            wv_relay = rs, wv_relay_seen = wk_relay_seen r\<rparr>))"

text \<open>The scan of \<open>Authenticate\<close>: every matching row is decoded, the last one counts.\<close>

definition Authenticate :: "worker_svc \<Rightarrow> nat \<Rightarrow> string \<Rightarrow> (worker, 'z) worker_op" where
  "Authenticate E now token db =
     (if blank token then (Inl ErrUnauthorized, db)
      else case map_res worker_of_row (filter (\<lambda>w. wk_revoked w = None \<and> constantTokenMatch (ws_sha E) token (wk_token_hash w)) (hub_workers db)) of
        Inl e \<Rightarrow> (Inl e, db)
      | Inr ws \<Rightarrow>
          if ws = [] then (Inl ErrUnauthorized, db)
          else (let w = last ws in
                (Inr (w\<lparr>wv_seen := Some now, wv_updated := Some now\<rparr>),
                 update_worker (ulid_string (wv_id w)) (\<lambda>r. r\<lparr>wk_seen := Some now, wk_updated := Some now\<rparr>) db)))"

definition revoke_job :: "nat \<Rightarrow> job \<Rightarrow> job" where
  "revoke_job now j = j\<lparr>job_state := Queued, lease_owner := [], lease_token_hash := [], lease_expires_at := None,
     error_code := ''v1.worker_revoked'', updated_at := Some now\<rparr>"

text \<open>Two statements outside any transaction; the second writes the job table directly.\<close>

definition Revoke :: "nat \<Rightarrow> string \<Rightarrow> 'z hub_db_scheme \<Rightarrow> 'z hub_db_scheme" where
  "Revoke now wid db =
     (let db' = update_worker (ulid_string wid) (\<lambda>w. w\<lparr>wk_revoked := Some now, wk_updated := Some now\<rparr>) db
      in db'\<lparr>hub_jobs := (hub_jobs db')\<lparr>job_table := update_where (\<lambda>j. lease_owner j = ulid_string wid \<and> active j)
            (revoke_job now) (job_table (hub_jobs db'))\<rparr>\<rparr>)"

definition deleteRevokedBody :: "string \<Rightarrow> (unit, 'z) worker_op" where
  "deleteRevokedBody wid db =
     (case find_by wk_id (ulid_string wid) (hub_workers db) of
        None \<Rightarrow> (Inr (), db)
      | Some w \<Rightarrow> if wk_revoked w = None then (Inl ErrWorkerActive, db)
                  else (Inr (), db\<lparr>hub_workers := filter (\<lambda>w. \<not> (wk_id w = ulid_string wid \<and> wk_revoked w \<noteq> None)) (hub_workers db)\<rparr>))"

definition DeleteRevoked :: "string \<Rightarrow> (unit, 'z) worker_op" where
  "DeleteRevoked wid db = with_transaction (deleteRevokedBody wid) db"

definition touchRelayPresence :: "nat \<Rightarrow> string \<Rightarrow> 'z hub_db_scheme \<Rightarrow> 'z hub_db_scheme" where
  "touchRelayPresence now wid db = update_worker wid (\<lambda>w. w\<lparr>wk_relay_seen := Some now, wk_updated := Some now\<rparr>) db"

section \<open>Speech payloads\<close>

definition zero_profile :: speech_profile where
  "zero_profile = \<lparr>pf_id = [], pf_engine = [], pf_model = [], pf_language = [], pf_voice = [], pf_reference = [], pf_speed = 0,
     pf_pitch = 0, pf_mapping = [], pf_mime = [], pf_codec = [], pf_rate = 0, pf_channels = 0, pf_active = False,
     pf_created = [], pf_updated = []\<rparr>"

definition profile_fields :: "speech_profile field list" where
  "profile_fields = [field ''id'' pf_id (\<lambda>v r. r\<lparr>pf_id := v\<rparr>) dec_string,
     field ''engine'' pf_engine (\<lambda>v r. r\<lparr>pf_engine := v\<rparr>) dec_string,
     field ''model_revision'' pf_model (\<lambda>v r. r\<lparr>pf_model := v\<rparr>) dec_string,
     field ''language'' pf_language (\<lambda>v r. r\<lparr>pf_language := v\<rparr>) dec_string,
     field ''voice_identifier'' pf_voice (\<lambda>v r. r\<lparr>pf_voice := v\<rparr>) dec_string,
     field ''reference_audio_hash'' pf_reference (\<lambda>v r. r\<lparr>pf_reference := v\<rparr>) dec_string,
     field ''speed_milli'' pf_speed (\<lambda>v r. r\<lparr>pf_speed := v\<rparr>) dec_int,
     field ''pitch_cents'' pf_pitch (\<lambda>v r. r\<lparr>pf_pitch := v\<rparr>) dec_int,
     field ''mapping_version'' pf_mapping (\<lambda>v r. r\<lparr>pf_mapping := v\<rparr>) dec_string,
     field ''mime_type'' pf_mime (\<lambda>v r. r\<lparr>pf_mime := v\<rparr>) dec_string,
     field ''codec'' pf_codec (\<lambda>v r. r\<lparr>pf_codec := v\<rparr>) dec_string,
     field ''sample_rate_hz'' pf_rate (\<lambda>v r. r\<lparr>pf_rate := v\<rparr>) dec_int,
     field ''channels'' pf_channels (\<lambda>v r. r\<lparr>pf_channels := v\<rparr>) dec_int,
     field ''active'' pf_active (\<lambda>v r. r\<lparr>pf_active := v\<rparr>) dec_bool,
     field ''created_at'' pf_created (\<lambda>v r. r\<lparr>pf_created := v\<rparr>) dec_string,
     field ''updated_at'' pf_updated (\<lambda>v r. r\<lparr>pf_updated := v\<rparr>) dec_string]"

definition audio_limit_fields :: "audio_limits field list" where
  "audio_limit_fields = [field ''max_bytes'' al_bytes (\<lambda>v r. r\<lparr>al_bytes := v\<rparr>) dec_int,
     field ''max_duration_ms'' al_duration (\<lambda>v r. r\<lparr>al_duration := v\<rparr>) dec_int]"

definition zero_payload :: job_payload where
  "zero_payload = \<lparr>jp_protocol = [], jp_render = [], jp_request = [], jp_unit = [], jp_type = [], jp_language = [], jp_kind = [],
     jp_text = [], jp_context = [], jp_profile = zero_profile, jp_limits = \<lparr>al_bytes = 0, al_duration = 0\<rparr>, jp_expires = []\<rparr>"

definition payload_fields :: "job_payload field list" where
  "payload_fields = [field ''protocol_version'' jp_protocol (\<lambda>v r. r\<lparr>jp_protocol := v\<rparr>) dec_string,
     field ''render_id'' jp_render (\<lambda>v r. r\<lparr>jp_render := v\<rparr>) dec_string,
     field ''request_hash'' jp_request (\<lambda>v r. r\<lparr>jp_request := v\<rparr>) dec_string,
     field ''speech_unit_id'' jp_unit (\<lambda>v r. r\<lparr>jp_unit := v\<rparr>) dec_string,
     field ''job_type'' jp_type (\<lambda>v r. r\<lparr>jp_type := v\<rparr>) dec_string,
     field ''language'' jp_language (\<lambda>v r. r\<lparr>jp_language := v\<rparr>) dec_string,
     field ''unit_kind'' jp_kind (\<lambda>v r. r\<lparr>jp_kind := v\<rparr>) dec_string,
     field ''spoken_text'' jp_text (\<lambda>v r. r\<lparr>jp_text := v\<rparr>) dec_string,
     field ''context_pronunciation_key'' jp_context (\<lambda>v r. r\<lparr>jp_context := v\<rparr>) dec_string,
     field ''profile'' jp_profile (\<lambda>v r. r\<lparr>jp_profile := v\<rparr>) (dec_struct True profile_fields),
     field ''limits'' jp_limits (\<lambda>v r. r\<lparr>jp_limits := v\<rparr>) (dec_struct True audio_limit_fields),
     field ''expires_at'' jp_expires (\<lambda>v r. r\<lparr>jp_expires := v\<rparr>) dec_string]"

definition decode_payload :: "string \<Rightarrow> job_payload option" where
  "decode_payload s = (case decodeStrict (dec_struct True payload_fields) zero_payload s of Inl _ \<Rightarrow> None | Inr p \<Rightarrow> Some p)"

definition isLowerHexDigest :: "string \<Rightarrow> bool" where
  "isLowerHexDigest v \<longleftrightarrow> length v = 64 \<and> list_all (\<lambda>c. CHR ''0'' \<le> c \<and> c \<le> CHR ''9'' \<or> CHR ''a'' \<le> c \<and> c \<le> CHR ''f'') v"

text \<open>The parsed identifier, unless it is malformed or zero.\<close>

definition ulid_nonzero :: "worker_svc \<Rightarrow> string \<Rightarrow> bool" where
  "ulid_nonzero E s \<longleftrightarrow> (case ParseULID (ulid_parse (ws_relay E)) s of Inl _ \<Rightarrow> False | Inr u \<Rightarrow> \<not> ulid_is_zero u)"

definition validateJobPayload :: "worker_svc \<Rightarrow> job \<Rightarrow> job_payload \<Rightarrow> bool" where
  "validateJobPayload E j p \<longleftrightarrow>
     job_type j = jp_type p \<and> execution_target j = TargetMacOS \<and> owner_type j = ''audio_render'' \<and> owner_id j = jp_render p \<and>
     jp_protocol p = Speech_Protocol \<and> jp_request p = input_hash j \<and> isLowerHexDigest (jp_request p) \<and>
     jp_type p \<in> {AVSpeechJobType, ChatterboxJobType} \<and>
     pf_engine (jp_profile p) = (if jp_type p = ChatterboxJobType then ChatterboxEngine else AVSpeechEngine) \<and>
     pf_language (jp_profile p) = jp_language p \<and>
     ulid_nonzero E (jp_render p) \<and> ulid_nonzero E (jp_unit p) \<and> ulid_nonzero E (ulid_string (pf_id (jp_profile p))) \<and>
     ParseBCP47 (ws_tag E) (ws_root E) (jp_language p) = Inr (jp_language p) \<and>
     jp_kind p \<in> {UnitWord, UnitPhrase, UnitSentence} \<and> jp_limits p = Speech_Types.Limits (jp_kind p) \<and>
     0 < al_bytes (jp_limits p) \<and> 0 < al_duration (jp_limits p) \<and> \<not> blank (jp_text p) \<and>
     \<not> isl (NormalizeTextHash (speech_env.truncate (ws_speech E)) (jp_text p)) \<and>
     ValidateProfile (jp_profile p) = Inr ()"

definition capability_serves :: "job_payload \<Rightarrow> speech_capability \<Rightarrow> bool" where
  "capability_serves p c \<longleftrightarrow> sc_engine c = pf_engine (jp_profile p) \<and>
     \<not> (sc_bytes c > 0 \<and> sc_bytes c < al_bytes (jp_limits p)) \<and> \<not> (sc_duration c > 0 \<and> sc_duration c < al_duration (jp_limits p)) \<and>
     (jp_language p \<in> set (sc_languages c) \<or> ''*'' \<in> set (sc_languages c)) \<and> (jp_kind p \<in> set (sc_kinds c) \<or> ''*'' \<in> set (sc_kinds c))"

definition supportsJob :: "worker_svc \<Rightarrow> speech_capability list \<Rightarrow> job \<Rightarrow> bool" where
  "supportsJob E cs j = (case decode_payload (payload_json j) of
       None \<Rightarrow> False | Some p \<Rightarrow> validateJobPayload E j p \<and> (\<exists>c \<in> set cs. capability_serves p c))"

section \<open>Lease responses\<close>

definition relayJobMatches :: "worker_svc \<Rightarrow> job \<Rightarrow> bool" where
  "relayJobMatches E j \<longleftrightarrow>
     job_type j = LLMRelayJobType \<and> execution_target j = TargetMacOS \<and> owner_type j = OwnerType \<and> owner_id j \<noteq> [] \<and>
     (case DecodeRelayPayload (payload_json j) of Inl _ \<Rightarrow> False | Inr p \<Rightarrow> rp_request p = owner_id j) \<and>
     HashRequest (relay_env.truncate (ws_relay E)) (payload_json j) = input_hash j"

definition blank_response :: "lease \<Rightarrow> lease_response" where
  "blank_response l = \<lparr>lo_job = job_id (lease_job l), lo_attempt = attempt_count (lease_job l), lo_token = Jobs.lease_token l,
     lo_expires = lease_expires_at (lease_job l), lo_type = job_type (lease_job l), lo_render = [], lo_request = [], lo_unit = [],
     lo_language = [], lo_kind = [], lo_text = [], lo_context = [], lo_profile = None, lo_limits = \<lparr>al_bytes = 0, al_duration = 0\<rparr>,
     lo_operation = [], lo_relay = []\<rparr>"

text \<open>The members of the request but two, sorted and compacted.\<close>

definition trimmed_request :: "string \<Rightarrow> string option" where
  "trimmed_request s = map_option (\<lambda>raw. json_text (obj_sorted (map (\<lambda>(k, j). (k, json_compact j))
       (filter (\<lambda>(k, _). k \<noteq> ''protocol_version'' \<and> k \<noteq> ''operation'') raw))))
     (Option.bind (json_parse s) (dec_map Some []))"

definition relayLeaseResponse :: "worker_svc \<Rightarrow> lease \<Rightarrow> worker_fault + lease_response" where
  "relayLeaseResponse E l =
     (let j = lease_job l in
      case DecodeRelayPayload (payload_json j) of
        Inl _ \<Rightarrow> Inl ErrMalformedJob
      | Inr p \<Rightarrow>
          if rp_request p \<noteq> owner_id j \<or> HashRequest (relay_env.truncate (ws_relay E)) (payload_json j) \<noteq> input_hash j then Inl ErrMalformedJob
          else (case trimmed_request (payload_json j) of
                  None \<Rightarrow> Inl ErrMalformedJob
                | Some t \<Rightarrow> Inr ((blank_response l)\<lparr>lo_operation := rp_operation p, lo_relay := t\<rparr>)))"

definition leaseResponse :: "worker_svc \<Rightarrow> lease \<Rightarrow> 'z speech_db_scheme \<Rightarrow> worker_fault + lease_response" where
  "leaseResponse E l db =
     (let j = lease_job l in
      if job_type j = LLMRelayJobType then relayLeaseResponse E l
      else case decode_payload (payload_json j) of
        None \<Rightarrow> Inl ErrMalformedJob
      | Some p \<Rightarrow>
          if \<not> validateJobPayload E j p then Inl ErrMalformedJob
          else case (ParseULID (ulid_parse (ws_relay E)) (jp_render p), ParseULID (ulid_parse (ws_relay E)) (jp_unit p)) of
            (Inr rid, Inr uid) \<Rightarrow>
              (case find_by rn_id (jp_render p) (sd_renders db) of
                 None \<Rightarrow> Inl ErrMalformedJob
               | Some r \<Rightarrow>
                   if rn_unit r \<noteq> jp_unit p \<or> rn_profile r \<noteq> ulid_string (pf_id (jp_profile p)) \<or> rn_hash r \<noteq> jp_request p \<or>
                      rn_state r \<notin> {RenderQueued, RenderFailed, RenderGenerating} then Inl ErrMalformedJob
                   else Inr ((blank_response l)\<lparr>lo_render := rid, lo_request := jp_request p, lo_unit := uid, lo_language := jp_language p,
                     lo_kind := jp_kind p, lo_text := jp_text p, lo_context := jp_context p, lo_profile := Some (jp_profile p),
                     lo_limits := jp_limits p\<rparr>))
          | _ \<Rightarrow> Inl ErrMalformedJob)"

text \<open>Effects whose errors the code drops.\<close>

definition recomputeRenderArticles :: "nat \<Rightarrow> string \<Rightarrow> 'z speech_db_scheme \<Rightarrow> 'z speech_db_scheme" where
  "recomputeRenderArticles now rid db =
     fold (\<lambda>aid. recomputeNarrationStatusTx now (ulid_string aid)) (bound_articles (ulid_string rid) db) db"

definition drop_render :: "nat \<Rightarrow> string \<Rightarrow> string \<Rightarrow> 'z speech_db_scheme \<Rightarrow> 'z speech_db_scheme" where
  "drop_render now rid code db = recomputeRenderArticles now rid (snd (MarkRenderFailed now rid code db))"

definition fail_job :: "worker_svc \<Rightarrow> nat \<Rightarrow> string \<Rightarrow> int \<Rightarrow> string \<Rightarrow> string \<Rightarrow> bool \<Rightarrow> (unit, 'z) worker_op" where
  "fail_job E now jid attempt token code retry = sched (Jobs.Fail (ws_sha E) jid attempt token code retry now now now)"

text \<open>The render of a job's payload, when the payload decodes and names one.\<close>

definition payload_render :: "worker_svc \<Rightarrow> string \<Rightarrow> string option" where
  "payload_render E s = (case decode_payload s of None \<Rightarrow> None
     | Some p \<Rightarrow> (case ParseULID (ulid_parse (ws_relay E)) (jp_render p) of
          Inl _ \<Rightarrow> None | Inr rid \<Rightarrow> if ulid_is_zero rid then None else Some rid))"

definition rejectMalformedLease :: "worker_svc \<Rightarrow> nat \<Rightarrow> lease \<Rightarrow> 'z speech_db_scheme \<Rightarrow> 'z speech_db_scheme" where
  "rejectMalformedLease E now l db =
     (let j = lease_job l;
          db' = (if job_type j = LLMRelayJobType then db
                 else case payload_render E (payload_json j) of
                   None \<Rightarrow> db | Some rid \<Rightarrow> drop_render now rid ''v1.worker_malformed_job'' db)
      in snd (fail_job E now (job_id j) (attempt_count j) (Jobs.lease_token l) ''v1.worker_malformed_job'' False db'))"

section \<open>Leasing\<close>

text \<open>One poll of a lease: what other processes did before it, its clock, the random lease token, and whether the request's
  context ends while the poll's timer runs.\<close>

record 'd lease_poll =
  lp_world :: "'d \<Rightarrow> 'd"
  lp_now :: nat
  lp_token :: string
  lp_ctx :: "ctx_error option"

definition LongPollLifetime :: nat where "LongPollLifetime = 25 * 1000"

text \<open>The loop over the polls that happen; \<open>None\<close>: it still polls when they are used up.\<close>

fun claim_polls ::
  "('z speech_db_scheme lease_poll \<Rightarrow> 'z speech_db_scheme \<Rightarrow> (job_error + lease) \<times> 'z speech_db_scheme) \<Rightarrow> (nat \<Rightarrow> bool) \<Rightarrow>
     'z speech_db_scheme lease_poll list \<Rightarrow> 'z speech_db_scheme \<Rightarrow> (worker_fault + nat \<times> lease) option \<times> 'z speech_db_scheme" where
  "claim_polls claim over [] db = (None, db)"
| "claim_polls claim over (p # ps) db =
     (case claim p (lp_world p db) of
        (Inr l, db') \<Rightarrow> (Some (Inr (lp_now p, l)), db')
      | (Inl e, db') \<Rightarrow>
          if e \<noteq> ErrNoWork then (Some (Inl (WorkerJobs e)), db')
          else if over (lp_now p) then (Some (Inl NoWork), db')
          else (case lp_ctx p of Some c \<Rightarrow> (Some (Inl (WorkerCtx c)), db') | None \<Rightarrow> claim_polls claim over ps db'))"

definition claim_match :: "worker_svc \<Rightarrow> string \<Rightarrow> (job \<Rightarrow> bool) \<Rightarrow>
    'z speech_db_scheme lease_poll \<Rightarrow> 'z speech_db_scheme \<Rightarrow> (job_error + lease) \<times> 'z speech_db_scheme" where
  "claim_match E wid m p = on_jobs (ClaimMatching (ws_sha E) (Some m) TargetMacOS wid (lp_token p) (lp_now p) (lp_now p))"

definition answer_lease :: "worker_svc \<Rightarrow> (worker_fault + nat \<times> lease) option \<times> 'z speech_db_scheme \<Rightarrow>
    (worker_fault + lease_response) option \<times> 'z speech_db_scheme" where
  "answer_lease E r = (case r of
       (None, db) \<Rightarrow> (None, db)
     | (Some (Inl e), db) \<Rightarrow> (Some (Inl e), db)
     | (Some (Inr (now, l)), db) \<Rightarrow>
         (case leaseResponse E l db of
            Inl e \<Rightarrow> (Some (Inl e), rejectMalformedLease E now l db)
          | Inr out \<Rightarrow> (Some (Inr out), db)))"

definition lane :: "worker_svc \<Rightarrow> nat \<Rightarrow> string \<Rightarrow> (job \<Rightarrow> bool) \<Rightarrow> 'z speech_db_scheme lease_poll list \<Rightarrow> 'z speech_db_scheme \<Rightarrow>
    (worker_fault + lease_response) option \<times> 'z speech_db_scheme" where
  "lane E now wid m ps db =
     (case Speech_RecoverExpired now db of
        (Inl e, db') \<Rightarrow> (Some (Inl (WorkerJobs e)), db')
      | (Inr _, db') \<Rightarrow> answer_lease E (claim_polls (claim_match E wid m) (\<lambda>t. now + LongPollLifetime < t) ps db'))"

definition leaseRelay :: "worker_svc \<Rightarrow> nat \<Rightarrow> worker \<Rightarrow> worker_lease_request \<Rightarrow> 'z speech_db_scheme lease_poll list \<Rightarrow>
    'z speech_db_scheme \<Rightarrow> (worker_fault + lease_response) option \<times> 'z speech_db_scheme" where
  "leaseRelay E now w req ps db =
     (if length (wl_relay req) \<noteq> 1 \<or> rc_bytes (hd (wl_relay req)) \<noteq> RelayCapabilityBytes then (Some (Inl ErrProtocol), db)
      else if \<not> RelayCapabilitySubset (wl_relay req) (wv_relay w) then (Some (Inl ErrProtocol), db)
      else lane E now (ulid_string (wv_id w)) (relayJobMatches E) ps (touchRelayPresence now (ulid_string (wv_id w)) db))"

definition Lease :: "worker_svc \<Rightarrow> nat \<Rightarrow> worker \<Rightarrow> worker_lease_request \<Rightarrow> 'z speech_db_scheme lease_poll list \<Rightarrow>
    'z speech_db_scheme \<Rightarrow> (worker_fault + lease_response) option \<times> 'z speech_db_scheme" where
  "Lease E now w req ps db =
     (if wv_revoked w \<noteq> None then (Some (Inl ErrUnauthorized), db)
      else if wl_protocol req \<noteq> Speech_Protocol then (Some (Inl ErrProtocol), db)
      else if (wl_capabilities req \<noteq> []) = (wl_relay req \<noteq> []) then (Some (Inl ErrProtocol), db)
      else if wl_relay req \<noteq> [] then leaseRelay E now w req ps db
      else case validateCapabilities E (wl_capabilities req) of
        Inl e \<Rightarrow> (Some (Inl e), db)
      | Inr _ \<Rightarrow>
          if wv_capabilities w = [] \<or> \<not> capabilitiesSubset (wl_capabilities req) (wv_capabilities w) then (Some (Inl ErrProtocol), db)
          else lane E now (ulid_string (wv_id w)) (supportsJob E (wl_capabilities req)) ps db)"

section \<open>Working on a lease\<close>

definition verify :: "worker_svc \<Rightarrow> nat \<Rightarrow> string \<Rightarrow> int \<Rightarrow> string \<Rightarrow> string \<Rightarrow> 'z hub_db_scheme \<Rightarrow> worker_fault + job" where
  "verify E now jid attempt token wid db = map_sum WorkerJobs id (VerifyLease (ws_sha E) jid attempt token wid now (hub_jobs db))"

record heartbeat_input =
  hi_protocol :: string
  hi_attempt :: int
  hi_progress :: int

definition Worker_Heartbeat ::
  "worker_svc \<Rightarrow> nat \<Rightarrow> worker \<Rightarrow> string \<Rightarrow> string \<Rightarrow> heartbeat_input \<Rightarrow> (heartbeat_response, 'z) worker_op" where
  "Worker_Heartbeat E now w jid token i db =
     (if hi_protocol i \<noteq> Speech_Protocol then (Inl ErrUnauthorized, db)
      else case verify E now jid (hi_attempt i) token (ulid_string (wv_id w)) db of
        Inl e \<Rightarrow> (Inl e, db)
      | Inr j \<Rightarrow>
          (let db' = (if job_type j = LLMRelayJobType then touchRelayPresence now (ulid_string (wv_id w)) db else db)
           in seq (sched (Heartbeat (ws_sha E) jid (hi_attempt i) token (hi_progress i) now now now) db') (\<lambda>r db''.
                (Inr \<lparr>ho_cancel = cancel_requested r, ho_expires = lease_expires_at (heartbeat_job r),
                      ho_progress = progress_percent (heartbeat_job r)\<rparr>, db''))))"

record fail_input =
  fi_protocol :: string
  fi_attempt :: int
  fi_code :: string
  fi_retry :: bool

definition failRelay :: "worker_svc \<Rightarrow> nat \<Rightarrow> worker \<Rightarrow> job \<Rightarrow> string \<Rightarrow> fail_input \<Rightarrow> (unit, 'z) worker_op" where
  "failRelay E now w j token i db =
     (case ValidateFailure (fi_code i) (fi_retry i) of
        Inl _ \<Rightarrow> (Inl ErrRelayRejected, db)
      | Inr _ \<Rightarrow> fail_job E now (job_id j) (fi_attempt i) token (fi_code i) (fi_retry i) (touchRelayPresence now (ulid_string (wv_id w)) db))"

definition Worker_Fail :: "worker_svc \<Rightarrow> nat \<Rightarrow> worker \<Rightarrow> string \<Rightarrow> string \<Rightarrow> fail_input \<Rightarrow> (unit, 'z) worker_op" where
  "Worker_Fail E now w jid token i db =
     (if fi_protocol i \<noteq> Speech_Protocol \<or> \<not> validWorkerErrorCode (fi_code i) then (Inl ErrUploadRejected, db)
      else case verify E now jid (fi_attempt i) token (ulid_string (wv_id w)) db of
        Inl e \<Rightarrow> (Inl e, db)
      | Inr j \<Rightarrow>
          if job_type j = LLMRelayJobType then failRelay E now w j token i db
          else seq (fail_job E now jid (fi_attempt i) token (fi_code i) (fi_retry i) db) (\<lambda>_ db'.
            if fi_retry i then (Inr (), db')
            else (Inr (), case Get jid (hub_jobs db') of
                    Inl _ \<Rightarrow> db'
                  | Inr k \<Rightarrow> (case payload_render E (payload_json k) of None \<Rightarrow> db' | Some rid \<Rightarrow> drop_render now rid (fi_code i) db'))))"

section \<open>Completion\<close>

text \<open>The file operations around a publication: preparing the verified temporary file, looking at a file that is there already,
  promoting the file and committing, and whether an error is returned although the commit took effect (theory Media_Workers
  relates them to the calls of the media store).\<close>

record media_io =
  io_prepare :: bool
  io_winner :: bool
  io_publish :: bool
  io_late :: bool

record worker_metadata =
  wm_protocol :: string
  wm_attempt :: int
  wm_token :: string
  wm_artifact :: "artifact_metadata option"

text \<open>\<open>CommitPrepared\<close> as the transaction of its callback.\<close>

definition commit_prepared :: "media_io \<Rightarrow> ('z speech_db_scheme \<Rightarrow> (worker_fault + unit) \<times> 'z speech_db_scheme) \<Rightarrow> (unit, 'z) worker_op" where
  "commit_prepared io f db =
     (if \<not> io_winner io then (Inl MediaFailed, db)
      else (case with_transaction (\<lambda>s. seq (f s) (\<lambda>_ s'. if io_publish io then (Inr (), s') else (Inl MediaFailed, s'))) db of
        (Inr _, db') \<Rightarrow> (if io_late io then Inl MediaFailed else Inr (), db')
      | (Inl e, db') \<Rightarrow> (Inl e, db')))"

text \<open>Marking the render and completing the job in one transaction; a digest that differs from the accepted one is nondeterministic.\<close>

definition publish :: "worker_svc \<Rightarrow> nat \<Rightarrow> string \<Rightarrow> string \<Rightarrow> string \<Rightarrow> artifact_metadata \<Rightarrow> string \<Rightarrow> int \<Rightarrow> string \<Rightarrow> (unit, 'z) worker_op" where
  "publish E now rid request digest m jid attempt token db =
     (case MarkRenderReadyTx now rid request digest m db of
        (Inl (NondeterministicResult r old new), db') \<Rightarrow> (Inl ErrNondeterministic, db')
      | (Inl e, db') \<Rightarrow> (Inl (WorkerSpeech e), db')
      | (Inr _, db') \<Rightarrow> sched (CompleteTx (ws_sha E) jid attempt token now now now) db')"

text \<open>The render is marked failed and the job failed; errors of either are dropped.\<close>

definition give_up :: "worker_svc \<Rightarrow> nat \<Rightarrow> string \<Rightarrow> job \<Rightarrow> int \<Rightarrow> string \<Rightarrow> string \<Rightarrow> bool \<Rightarrow> 'z speech_db_scheme \<Rightarrow> 'z speech_db_scheme" where
  "give_up E now rid j attempt token code retry db =
     snd (fail_job E now (job_id j) attempt token code retry (snd (MarkRenderFailed now rid code db)))"

definition completeSpeech :: "worker_svc \<Rightarrow> media_io \<Rightarrow> nat \<Rightarrow> job \<Rightarrow> worker_metadata \<Rightarrow> string \<Rightarrow> (unit, 'z) worker_op" where
  "completeSpeech E io now j md data db =
     (case wm_artifact md of
        None \<Rightarrow> (Inl ErrUploadRejected, db)
      | Some a \<Rightarrow>
          (case decode_payload (payload_json j) of
             None \<Rightarrow> (Inl ErrMalformedJob, db)
           | Some p \<Rightarrow>
               let digest = ws_sha E data in
               if am_request a \<noteq> jp_request p \<or> input_hash j \<noteq> jp_request p then (Inl ErrUploadRejected, db)
               else if int (length data) \<noteq> am_size a \<or> data = [] then (Inl ErrUploadRejected, db)
               else if digest \<noteq> am_sha a then (Inl ErrUploadRejected, db)
               else if isl (ValidateArtifact (speech_env.truncate (ws_speech E)) a (int (length data)) data (jp_request p) (jp_kind p))
               then (Inl ErrUploadRejected, db)
               else (case ParseULID (ulid_parse (ws_relay E)) (jp_render p) of
                  Inl _ \<Rightarrow> (Inl ErrMalformedJob, db)
                | Inr rid \<Rightarrow>
                    seq (speech_call (SetRenderGenerating now rid) db) (\<lambda>_ db1.
                      if \<not> io_prepare io
                      then (Inl MediaFailed, give_up E now rid j (wm_attempt md) (wm_token md) ''v1.audio_upload_failed'' True db1)
                      else (case commit_prepared io (publish E now rid (jp_request p) digest a (job_id j) (wm_attempt md) (wm_token md)) db1 of
                        (Inr _, db2) \<Rightarrow> (Inr (), recomputeRenderArticles now rid db2)
                      | (Inl e, db2) \<Rightarrow> (Inl e,
                          if e = ErrNondeterministic
                          then give_up E now rid j (wm_attempt md) (wm_token md) ''v1.audio_nondeterministic_result'' False db2
                          else give_up E now rid j (wm_attempt md) (wm_token md) ''v1.audio_upload_failed'' True db2))))))"

definition relay_complete :: "worker_svc \<Rightarrow> nat \<Rightarrow> job \<Rightarrow> int \<Rightarrow> string \<Rightarrow> string \<Rightarrow> 'z hub_db_scheme \<Rightarrow> (relay_fault + unit) \<times> 'z hub_db_scheme" where
  "relay_complete E now j attempt token result = Relay_CompleteTx (ws_relay E) j attempt token result now now now"

definition completeRelay :: "worker_svc \<Rightarrow> nat \<Rightarrow> worker \<Rightarrow> job \<Rightarrow> worker_metadata \<Rightarrow> string \<Rightarrow> string \<Rightarrow> (unit, 'z) worker_op" where
  "completeRelay E now w j md audio result db =
     (if wm_artifact md \<noteq> None \<or> audio \<noteq> [] \<or> result = [] then (Inl ErrRelayRejected, db)
      else (let db1 = touchRelayPresence now (ulid_string (wv_id w)) db in
        case with_transaction (relay_complete E now j (wm_attempt md) (wm_token md) result) db1 of
          (Inr _, db2) \<Rightarrow> (Inr (), db2)
        | (Inl (NondeterministicError n), db2) \<Rightarrow>
            (Inl (WorkerRelay (NondeterministicError n)),
             snd (fail_job E now (job_id j) (wm_attempt md) (wm_token md) CodeNondeterministic False db2))
        | (Inl (RelayJobs e), db2) \<Rightarrow>
            (Inl (if e = ErrLeaseLost \<or> e = ErrLeaseExpired then WorkerJobs e else ErrRelayRejected), db2)
        | (Inl _, db2) \<Rightarrow> (Inl ErrRelayRejected, db2)))"

definition Worker_Complete ::
  "worker_svc \<Rightarrow> media_io \<Rightarrow> nat \<Rightarrow> worker \<Rightarrow> string \<Rightarrow> worker_metadata \<Rightarrow> string \<Rightarrow> string \<Rightarrow> (unit, 'z) worker_op" where
  "Worker_Complete E io now w jid md audio result db =
     (if wm_protocol md \<noteq> Speech_Protocol then (Inl ErrUnauthorized, db)
      else case verify E now jid (wm_attempt md) (wm_token md) (ulid_string (wv_id w)) db of
        Inl e \<Rightarrow> (Inl e, db)
      | Inr j \<Rightarrow>
          if job_state j = Canceled then (Inl (WorkerJobs ErrLeaseLost), db)
          else if job_type j = LLMRelayJobType then completeRelay E now w j md audio result db
          else completeSpeech E io now j md audio db)"

end
