(* ===== verification/Workers_Common.thy ===== *)
theory Workers_Common
  imports Workers
begin

text \<open>
  The common worker protocol over the same service, internal/workers/ailocals.go: the single common enrollment with its
  granted capabilities, presence snapshots, leases for one capability, and completions with their result digest.
\<close>

section \<open>Presence snapshots\<close>

record ailocals_presence =
  ap_protocol :: string
  ap_ids :: "string list option"
  ap_time :: string
  ap_capabilities :: "presence_entry list option"

definition nullable_json :: "('a \<Rightarrow> json) \<Rightarrow> 'a list option \<Rightarrow> json" where
  "nullable_json f xs = (case xs of None \<Rightarrow> JNull | Some ys \<Rightarrow> JArr (map f ys))"

definition entry_json :: "presence_entry \<Rightarrow> json" where
  "entry_json e = obj [(''id'', json_str (pe_id e)), (''state'', json_str (pe_state e)), (''accepting'', JBool (pe_accepting e)),
     (''active_jobs'', json_of_int (pe_active e)), (''reason'', case pe_reason e of None \<Rightarrow> JNull | Some r \<Rightarrow> json_str r)]"

definition presence_json :: "ailocals_presence \<Rightarrow> json" where
  "presence_json p = obj [(''protocol'', json_str (ap_protocol p)), (''enrolled_capability_ids'', nullable_json json_str (ap_ids p)),
     (''server_time'', json_str (ap_time p)), (''capabilities'', nullable_json entry_json (ap_capabilities p))]"

definition snapshot_fields :: "ailocals_presence field list" where
  "snapshot_fields = [field ''protocol'' ap_protocol (\<lambda>v r. r\<lparr>ap_protocol := v\<rparr>) dec_string,
     field ''enrolled_capability_ids'' ap_ids (\<lambda>v r. r\<lparr>ap_ids := v\<rparr>) (\<lambda>old. dec_slice [] dec_string old),
     field ''server_time'' ap_time (\<lambda>v r. r\<lparr>ap_time := v\<rparr>) dec_string,
     field ''capabilities'' ap_capabilities (\<lambda>v r. r\<lparr>ap_capabilities := v\<rparr>) (\<lambda>old. dec_slice zero_presence (dec_struct False presence_fields) old)]"

definition zero_snapshot :: ailocals_presence where
  "zero_snapshot = \<lparr>ap_protocol = [], ap_ids = None, ap_time = [], ap_capabilities = None\<rparr>"

definition read_presence :: "string \<Rightarrow> ailocals_presence option" where
  "read_presence s = Option.bind (json_parse s) (dec_struct False snapshot_fields zero_snapshot)"

definition ailocalsProtocolMarker :: string where
  "ailocalsProtocolMarker = quote_char # ''protocol'' @ [quote_char, CHR '':'', quote_char] @ LW_Protocol @ [quote_char]"

text \<open>\<open>LIKE '%marker%'\<close>: SQLite folds the case of ASCII letters.\<close>

definition fold_ascii :: "char \<Rightarrow> char" where
  "fold_ascii c = (if CHR ''A'' \<le> c \<and> c \<le> CHR ''Z'' then char_of (byte c + 32) else c)"

definition common_row :: "worker_row \<Rightarrow> bool" where
  "common_row w \<longleftrightarrow> index_of (map fold_ascii ailocalsProtocolMarker) (map fold_ascii (wk_presence w)) \<noteq> None"

definition ailocalsPresence :: "string \<Rightarrow> 'z hub_db_scheme \<Rightarrow> worker_fault + ailocals_presence option" where
  "ailocalsPresence wid db = (case find_by wk_id (ulid_string wid) (hub_workers db) of
       None \<Rightarrow> Inl (WorkerLocal (NewError CodeUnauthorized ''worker credential is not valid''))
     | Some w \<Rightarrow> Inr (read_presence (wk_presence w)))"

text \<open>\<open>ListWorkers\<close> reports the snapshot of the workers that carry the marker.\<close>

definition listed :: "worker_row \<Rightarrow> worker_fault + worker \<times> ailocals_presence option" where
  "listed w = bind_res (worker_of_row w) (\<lambda>v. Inr (v,
     if index_of ailocalsProtocolMarker (wk_presence w) \<noteq> None then
       (case read_presence (wk_presence w) of Some p \<Rightarrow> if ap_protocol p = LW_Protocol then Some p else None | None \<Rightarrow> None)
     else None))"

definition ListWorkers :: "'z hub_db_scheme \<Rightarrow> worker_fault + (worker \<times> ailocals_presence option) list" where
  "ListWorkers db = map_res listed (sort_key (\<lambda>w. (wk_created w, wk_id w)) (hub_workers db))"

section \<open>Enrollment\<close>

text \<open>One granted entry: the speech or relay capability it maps to.\<close>

definition grant_entry :: "capability_entry \<Rightarrow> worker_fault + speech_capability list \<times> RelayCapability list" where
  "grant_entry e =
     (if ce_id e = CapabilityAppleSpeech \<or> ce_id e = CapabilityChatterbox then
        (case ce_params e of TtsParams c \<Rightarrow> Inr ([c], [])
         | _ \<Rightarrow> Inl (WorkerLocal (NewError CodeInvalidRequest ''capability parameters do not match'')))
      else if ce_id e = CapabilityRelay then
        (case ce_params e of RelayParams r \<Rightarrow>
            if ry_bytes r \<noteq> RelayCapabilityBytes then Inl (WorkerLocal (NewError CodeInvalidRequest ''max_completion_bytes is not supported''))
            else Inr ([], [\<lparr>rc_bytes = ry_bytes r\<rparr>])
         | _ \<Rightarrow> Inl (WorkerLocal (NewError CodeInvalidRequest ''capability parameters do not match'')))
      else Inl (WorkerLocal (NewError CodeUnsupportedCap ''capability is not supported'')))"

definition enrollAilocalsBody ::
  "worker_svc \<Rightarrow> nat \<Rightarrow> string \<Rightarrow> string \<Rightarrow> enroll_request \<Rightarrow> speech_capability list \<Rightarrow> RelayCapability list \<Rightarrow> (worker, 'z) worker_op" where
  "enrollAilocalsBody E now token secret req speech relay db =
     (if \<exists>w \<in> set (hub_workers db). wk_revoked w = None \<and> common_row w
      then (Inl (WorkerLocal (NewError CodeClientAlreadyEnrolled ''a universal worker is already enrolled; revoke it before re-enrolling'')), db)
      else case find (open_enrollment E now token) (hub_enrollments db) of
        None \<Rightarrow> (Inl (WorkerLocal (NewError CodeEnrollmentInvalid ''enrollment token is invalid or expired'')), db)
      | Some e \<Rightarrow>
          (let new = ulids (ws_speech E) (sd_drawn db); db' = db\<lparr>sd_drawn := Suc (sd_drawn db)\<rparr>;
               grant = \<lparr>ap_protocol = LW_Protocol, ap_ids = Some (map ce_id (er_capabilities req)), ap_time = [], ap_capabilities = Some []\<rparr>;
               w = \<lparr>wv_id = new, wv_name = trim_space (er_name req), wv_protocol = Speech_Protocol, wv_revoked = None, wv_seen = None,
                    wv_capabilities = speech, wv_software = trim_space (er_software req), wv_created = Some now,
                    wv_updated = Some now, wv_relay = relay, wv_relay_seen = None\<rparr>;
               row = \<lparr>wk_id = ulid_string new, wk_name = wv_name w, wk_protocol = wv_protocol w, wk_token_hash = ws_sha E secret,
                      wk_revoked = None, wk_seen = None, wk_capabilities = caps_json speech, wk_software = wv_software w,
                      wk_relay_capabilities = (if relay = [] then ''[]'' else relay_caps_json relay),
                      wk_relay_seen = None, wk_presence = json_text (presence_json grant), wk_created = Some now, wk_updated = Some now\<rparr>
           in seq (insert_worker row db') (\<lambda>_ db''. (Inr w, use_enrollment now (en_id e) db''))))"

definition EnrollAilocals ::
  "worker_svc \<Rightarrow> nat \<Rightarrow> string \<Rightarrow> string \<Rightarrow> enroll_request option \<Rightarrow> (worker \<times> string, 'z) worker_op" where
  "EnrollAilocals E now token secret request db =
     (case request of
        None \<Rightarrow> (Inl (WorkerLocal (NewError CodeInvalidRequest ''enroll body is required'')), db)
      | Some req \<Rightarrow>
          if blank token then (Inl (WorkerLocal (NewError CodeUnauthorized ''enrollment token is required'')), db)
          else case ValidateEnrollRequest request of
            Inl e \<Rightarrow> (Inl (WorkerLocal e), db)
          | Inr _ \<Rightarrow>
              (case map_res grant_entry (er_capabilities req) of
                 Inl e \<Rightarrow> (Inl e, db)
               | Inr gs \<Rightarrow>
                   seq (with_transaction (enrollAilocalsBody E now token secret req (concat (map fst gs)) (concat (map snd gs))) db)
                     (\<lambda>w db'. (Inr (w, secret), db'))))"

definition unauthorized :: "worker_fault + 'a" where
  "unauthorized = Inl (WorkerLocal (NewError CodeUnauthorized ''worker credential is not valid''))"

definition AuthenticateAilocals :: "worker_svc \<Rightarrow> nat \<Rightarrow> string \<Rightarrow> (worker, 'z) worker_op" where
  "AuthenticateAilocals E now token db =
     (case Authenticate E now token db of
        (Inl e, db') \<Rightarrow> (if e = ErrUnauthorized then unauthorized else Inl e, db')
      | (Inr w, db') \<Rightarrow>
          (case ailocalsPresence (wv_id w) db' of
             Inl e \<Rightarrow> (Inl e, db')
           | Inr None \<Rightarrow> (unauthorized, db')
           | Inr (Some p) \<Rightarrow> (if ap_protocol p = LW_Protocol then Inr w else unauthorized, db')))"

section \<open>Presence\<close>

definition relay_ready :: "presence_entry list \<Rightarrow> bool" where
  "relay_ready es \<longleftrightarrow> (\<exists>e \<in> set es. pe_id e = CapabilityRelay \<and> pe_state e \<in> {''ready'', ''busy''})"

definition PresenceAilocals :: "worker_svc \<Rightarrow> nat \<Rightarrow> worker \<Rightarrow> presence_request option \<Rightarrow> (string, 'z) worker_op" where
  "PresenceAilocals E now w request db =
     (if wv_revoked w \<noteq> None then (unauthorized, db)
      else case request of
        None \<Rightarrow> (Inl (WorkerLocal (NewError CodeInvalidRequest ''presence body is required'')), db)
      | Some req \<Rightarrow>
          (case bind_res (map_sum WorkerLocal id (ValidatePresenceRequest request)) (\<lambda>_. ailocalsPresence (wv_id w) db) of
             Inl e \<Rightarrow> (Inl e, db)
           | Inr None \<Rightarrow> (unauthorized, db)
           | Inr (Some p) \<Rightarrow>
               let es = nil_list (pr_capabilities req) in
               if \<exists>e \<in> set es. pe_id e \<notin> set (nil_list (ap_ids p))
               then (Inl (WorkerLocal (NewError CodeUnsupportedCap ''presence advertises a capability outside the enrollment'')), db)
               else
                 (let t = clock_text (ws_speech E) now;
                      snapshot = \<lparr>ap_protocol = LW_Protocol, ap_ids = ap_ids p, ap_time = t, ap_capabilities = pr_capabilities req\<rparr>;
                      wid = ulid_string (wv_id w)
                  in if count_where (\<lambda>r. wk_id r = wid \<and> wk_revoked r = None) (hub_workers db) \<noteq> 1 then (unauthorized, db)
                     else (Inr t, update_worker wid (\<lambda>r. r\<lparr>wk_presence := json_text (presence_json snapshot), wk_seen := Some now,
                            wk_relay_seen := (if relay_ready es then Some now else None), wk_updated := Some now\<rparr>) db))))"

section \<open>Leasing one capability\<close>

record common_lease =
  cl_job :: string
  cl_attempt :: int
  cl_token :: string
  cl_expires :: timestamp
  cl_capability :: string
  cl_payload :: string
  cl_sha :: string

definition newAilocalsLeaseResponse :: "worker_svc \<Rightarrow> string \<Rightarrow> lease \<Rightarrow> string \<Rightarrow> worker_fault + common_lease" where
  "newAilocalsLeaseResponse E cap l payload =
     (case EncodePayload (ws_sha E) payload of
        Inl e \<Rightarrow> Inl (WorkerLocal e)
      | Inr (b, h) \<Rightarrow> Inr \<lparr>cl_job = ulid_string (job_id (lease_job l)), cl_attempt = attempt_count (lease_job l),
            cl_token = Jobs.lease_token l, cl_expires = lease_expires_at (lease_job l), cl_capability = cap, cl_payload = b, cl_sha = h\<rparr>)"

definition ailocalsLeaseResponse :: "worker_svc \<Rightarrow> string \<Rightarrow> lease \<Rightarrow> 'z speech_db_scheme \<Rightarrow> worker_fault + common_lease" where
  "ailocalsLeaseResponse E cap l db =
     (if job_type (lease_job l) = LLMRelayJobType then
        (if isl (LW_DecodeRelayPayload (payload_json (lease_job l))) then Inl ErrMalformedJob
         else newAilocalsLeaseResponse E cap l (payload_json (lease_job l)))
      else bind_res (leaseResponse E l db) (\<lambda>r.
        bind_res (map_sum WorkerLocal id (TtsPayloadFromLeaseDomain (ulid_string (lo_render r)) (lo_request r) (ulid_string (lo_unit r))
            (lo_language r) (lo_kind r) (lo_text r) (lo_context r) (case lo_profile r of Some p \<Rightarrow> p | None \<Rightarrow> zero_profile) (lo_limits r)))
          (newAilocalsLeaseResponse E cap l)))"

definition ailocalsActiveLeases :: "string \<Rightarrow> string \<Rightarrow> 'z hub_db_scheme \<Rightarrow> nat" where
  "ailocalsActiveLeases owner jtype db = count_where (\<lambda>j. lease_owner j = owner \<and> job_type j = jtype \<and> active j) (job_table (hub_jobs db))"

definition claim_capability :: "worker_svc \<Rightarrow> string \<Rightarrow> string \<Rightarrow>
    'z speech_db_scheme lease_poll \<Rightarrow> 'z speech_db_scheme \<Rightarrow> (job_error + lease) \<times> 'z speech_db_scheme" where
  "claim_capability E wid jtype p = on_jobs (ClaimMatchingCapability (ws_sha E) TargetMacOS wid jtype (lp_token p) (lp_now p) (lp_now p))"

text \<open>No work is an answer without a lease.\<close>

definition answer_common :: "worker_svc \<Rightarrow> string \<Rightarrow> (worker_fault + nat \<times> lease) option \<times> 'z speech_db_scheme \<Rightarrow>
    (worker_fault + common_lease option) option \<times> 'z speech_db_scheme" where
  "answer_common E cap r = (case r of
       (None, db) \<Rightarrow> (None, db)
     | (Some (Inl NoWork), db) \<Rightarrow> (Some (Inr None), db)
     | (Some (Inl e), db) \<Rightarrow> (Some (Inl e), db)
     | (Some (Inr (now, l)), db) \<Rightarrow>
         (case ailocalsLeaseResponse E cap l db of
            Inl e \<Rightarrow> (Some (Inl e), rejectMalformedLease E now l db)
          | Inr out \<Rightarrow> (Some (Inr (Some out)), db)))"

definition lease_check :: "worker \<Rightarrow> lease_request option \<Rightarrow> 'z hub_db_scheme \<Rightarrow> worker_fault + lease_request \<times> string" where
  "lease_check w request db =
     (if wv_revoked w \<noteq> None then unauthorized
      else case request of
        None \<Rightarrow> Inl (WorkerLocal (NewError CodeInvalidRequest ''lease body is required''))
      | Some req \<Rightarrow>
          bind_res (map_sum WorkerLocal id (ValidateLeaseRequest request)) (\<lambda>_.
          bind_res (ailocalsPresence (wv_id w) db) (\<lambda>presence. case presence of
            None \<Rightarrow> unauthorized
          | Some p \<Rightarrow>
              if lr_capability req \<notin> set (nil_list (ap_ids p))
              then Inl (WorkerLocal (NewError CodeUnsupportedCap ''capability is outside this connection's enrollment''))
              else bind_res (map_sum WorkerLocal id (JobTypeForCapability (lr_capability req))) (\<lambda>jtype.
                if ailocalsActiveLeases (ulid_string (wv_id w)) jtype db > 0
                then Inl (WorkerLocal (NewError CodeWorkerBusy ''a second active lease for the same capability is not allowed''))
                else Inr (req, jtype)))))"

definition LeaseAilocals :: "worker_svc \<Rightarrow> nat \<Rightarrow> worker \<Rightarrow> lease_request option \<Rightarrow> 'z speech_db_scheme lease_poll list \<Rightarrow>
    'z speech_db_scheme \<Rightarrow> (worker_fault + common_lease option) option \<times> 'z speech_db_scheme" where
  "LeaseAilocals E now w request ps db =
     (case lease_check w request db of
        Inl e \<Rightarrow> (Some (Inl e), db)
      | Inr (req, jtype) \<Rightarrow>
          (case Speech_RecoverExpired now db of
             (Inl e, db') \<Rightarrow> (Some (Inl (WorkerJobs e)), db')
           | (Inr _, db') \<Rightarrow>
               answer_common E (lr_capability req) (claim_polls (claim_capability E (ulid_string (wv_id w)) jtype)
                 (\<lambda>t. lr_wait req = 0 \<or> int now + lr_wait req * 1000 < int t) ps db')))"

section \<open>Heartbeats and failures\<close>

definition mapJobsError :: "worker_fault \<Rightarrow> worker_fault" where
  "mapJobsError e = (if e = WorkerJobs ErrLeaseLost \<or> e = WorkerJobs ErrLeaseExpired
     then WorkerLocal (NewError CodeLeaseLost ''lease is no longer valid'') else e)"

definition HeartbeatAilocals ::
  "worker_svc \<Rightarrow> nat \<Rightarrow> worker \<Rightarrow> string \<Rightarrow> string \<Rightarrow> heartbeat_request option \<Rightarrow> (timestamp \<times> bool, 'z) worker_op" where
  "HeartbeatAilocals E now w jid token request db =
     (case ValidateHeartbeatRequest request of
        Inl e \<Rightarrow> (Inl (WorkerLocal e), db)
      | Inr _ \<Rightarrow>
          (case Worker_Heartbeat E now w jid token \<lparr>hi_protocol = Speech_Protocol, hi_attempt = hr_attempt (the request),
                  hi_progress = hr_progress (the request)\<rparr> db of
             (Inl e, db') \<Rightarrow> (Inl (mapJobsError e), db')
           | (Inr r, db') \<Rightarrow> (Inr (ho_expires r, ho_cancel r), db')))"

definition FailAilocals :: "worker_svc \<Rightarrow> nat \<Rightarrow> worker \<Rightarrow> string \<Rightarrow> string \<Rightarrow> fail_request option \<Rightarrow> (unit, 'z) worker_op" where
  "FailAilocals E now w jid token request db =
     (case ValidateFailRequest request of
        Inl e \<Rightarrow> (Inl (WorkerLocal e), db)
      | Inr _ \<Rightarrow>
          (case Get jid (hub_jobs db) of
             Inl e \<Rightarrow> (Inl (WorkerJobs e), db)
           | Inr j \<Rightarrow>
               (case MapFailureToProductCode (fr_code (the request)) (job_type j = LLMRelayJobType) of
                  Inl e \<Rightarrow> (Inl (WorkerLocal e), db)
                | Inr code \<Rightarrow>
                    (case Worker_Fail E now w jid token \<lparr>fi_protocol = Speech_Protocol, fi_attempt = fr_attempt (the request),
                            fi_code = code, fi_retry = fr_retryable (the request)\<rparr> db of
                       (Inl e, db') \<Rightarrow> (Inl (mapJobsError e), db')
                     | (Inr _, db') \<Rightarrow> (Inr (), db')))))"

section \<open>Completion\<close>

definition result_error :: "string \<Rightarrow> worker_fault" where
  "result_error m = WorkerLocal (NewError CodeInvalidRequest m)"

definition conflict :: worker_fault where
  "conflict = WorkerLocal (NewError CodeResultConflict ''result conflicts with acceptance'')"

definition artifact_fields :: "artifact_metadata field list" where
  "artifact_fields = [field ''request_hash'' am_request (\<lambda>v r. r\<lparr>am_request := v\<rparr>) dec_string,
     field ''sha256'' am_sha (\<lambda>v r. r\<lparr>am_sha := v\<rparr>) dec_string,
     field ''size_bytes'' am_size (\<lambda>v r. r\<lparr>am_size := v\<rparr>) dec_int,
     field ''mime_type'' am_mime (\<lambda>v r. r\<lparr>am_mime := v\<rparr>) dec_string,
     field ''codec'' am_codec (\<lambda>v r. r\<lparr>am_codec := v\<rparr>) dec_string,
     field ''sample_rate_hz'' am_rate (\<lambda>v r. r\<lparr>am_rate := v\<rparr>) dec_int,
     field ''channels'' am_channels (\<lambda>v r. r\<lparr>am_channels := v\<rparr>) dec_int,
     field ''duration_ms'' am_duration (\<lambda>v r. r\<lparr>am_duration := v\<rparr>) dec_int]"

definition zero_artifact :: artifact_metadata where
  "zero_artifact = \<lparr>am_request = [], am_sha = [], am_size = 0, am_mime = [], am_codec = [], am_rate = 0, am_channels = 0, am_duration = 0\<rparr>"

text \<open>The first value of the result part, with the single member \<open>artifact\<close>.\<close>

definition decodeAilocalsTtsResult :: "string \<Rightarrow> worker_fault + artifact_metadata" where
  "decodeAilocalsTtsResult result =
     (if result = [] \<or> length result > ResultMaxBytes then Inl (WorkerLocal (NewError CodePayloadTooLarge ''result part exceeds the bound''))
      else case Option.bind (json_read result) (\<lambda>(j, _). dec_struct True
             [field ''artifact'' (\<lambda>r. r) (\<lambda>v r. v) (dec_pointer zero_artifact (dec_struct True artifact_fields))] None j) of
        None \<Rightarrow> Inl (result_error ''result part is not valid TTS metadata'')
      | Some None \<Rightarrow> Inl (result_error ''result part is missing the artifact'')
      | Some (Some a) \<Rightarrow> Inr a)"

definition writeAilocalsDigestTx :: "string \<Rightarrow> string \<Rightarrow> 'z hub_db_scheme \<Rightarrow> 'z hub_db_scheme" where
  "writeAilocalsDigestTx jid digest db =
     db\<lparr>hub_jobs := (hub_jobs db)\<lparr>job_table := update_where (\<lambda>j. job_id j = ulid_string jid)
        (\<lambda>j. j\<lparr>ailocals_result_sha256 := digest\<rparr>) (job_table (hub_jobs db))\<rparr>\<rparr>"

text \<open>A retried relay result: decoded under the common bound, canonicalized, and compared with the stored hash.\<close>

definition repeated_relay :: "worker_svc \<Rightarrow> job \<Rightarrow> string \<Rightarrow> 'z hub_db_scheme \<Rightarrow> bool" where
  "repeated_relay E j result db \<longleftrightarrow> result \<noteq> [] \<and>
     (case LW_DecodeRelayPayload (payload_json j) of
        Inl _ \<Rightarrow> False
      | Inr p \<Rightarrow>
          (case (if re_operation p = OperationChatCompletion
                 then bind_res (DecodeChatResult (relay_env.truncate (ws_relay E)) result (re_request p) (int ResultMaxBytes)) CanonicalChatResult
                 else bind_res (DecodeListModelsResult result (re_request p) (int ResultMaxBytes)) (\<lambda>r. Inr (CanonicalListModelsResult r))) of
             Inl _ \<Rightarrow> False
           | Inr canonical \<Rightarrow>
               (case find_by rr_job (ulid_string (job_id j)) (hub_results db) of
                  None \<Rightarrow> False | Some r \<Rightarrow> rr_hash r = ws_sha E canonical)))"

definition repeated_speech :: "worker_svc \<Rightarrow> job \<Rightarrow> string \<Rightarrow> string \<Rightarrow> 'z speech_db_scheme \<Rightarrow> bool" where
  "repeated_speech E j artifact result db =
     (case decodeAilocalsTtsResult result of
        Inl _ \<Rightarrow> False
      | Inr a \<Rightarrow> int (length artifact) = am_size a \<and> ws_sha E artifact = am_sha a \<and>
          (case find_by rn_hash (input_hash j) (sd_renders db) of
             None \<Rightarrow> False
           | Some r \<Rightarrow> (case map_of (sd_blobs db) (rn_id r) of None \<Rightarrow> [] | Some d \<Rightarrow> d) = am_sha a \<and> rn_size r = am_size a))"

definition verifyAilocalsRepeatedCompletion ::
  "worker_svc \<Rightarrow> job \<Rightarrow> string \<Rightarrow> string \<Rightarrow> string \<Rightarrow> 'z speech_db_scheme \<Rightarrow> worker_fault + unit" where
  "verifyAilocalsRepeatedCompletion E j digest artifact result db =
     (if ailocals_result_sha256 j \<noteq> digest then Inl conflict
      else if (if job_type j = LLMRelayJobType then repeated_relay E j result db else repeated_speech E j artifact result db)
      then Inr () else Inl conflict)"

definition completeRelayCommon :: "worker_svc \<Rightarrow> nat \<Rightarrow> job \<Rightarrow> int \<Rightarrow> string \<Rightarrow> string \<Rightarrow> string \<Rightarrow> (unit, 'z) worker_op" where
  "completeRelayCommon E now j attempt token result digest db =
     (if result = [] \<or> length result > ResultMaxBytes then (Inl (result_error ''result part exceeds the bound''), db)
      else case with_transaction (\<lambda>s. seq (relay_complete E now j attempt token result s)
             (\<lambda>_ s'. (Inr (), writeAilocalsDigestTx (job_id j) digest s'))) db of
        (Inr _, db') \<Rightarrow> (Inr (), db')
      | (Inl (NondeterministicError n), db') \<Rightarrow>
          (Inl conflict, snd (fail_job E now (job_id j) attempt token CodeNondeterministic False db'))
      | (Inl (RelayJobs e), db') \<Rightarrow>
          (Inl (if e = ErrLeaseLost \<or> e = ErrLeaseExpired then mapJobsError (WorkerJobs e)
                else result_error ''completion could not be committed''), db')
      | (Inl _, db') \<Rightarrow> (Inl (result_error ''completion could not be committed''), db'))"

text \<open>The failed preparation fails the job with an empty lease token, as the code does.\<close>

definition completeSpeechCommon ::
  "worker_svc \<Rightarrow> media_io \<Rightarrow> nat \<Rightarrow> job \<Rightarrow> artifact_metadata \<Rightarrow> int \<Rightarrow> string \<Rightarrow> string \<Rightarrow> string \<Rightarrow> (unit, 'z) worker_op" where
  "completeSpeechCommon E io now j a attempt audio digest token db =
     (case decode_payload (payload_json j) of
        None \<Rightarrow> (Inl (result_error ''job payload is malformed''), db)
      | Some p \<Rightarrow>
          if am_request a \<noteq> jp_request p \<or> input_hash j \<noteq> jp_request p
          then (Inl (result_error ''artifact does not match the leased request''), db)
          else if int (length audio) \<noteq> am_size a \<or> audio = [] then (Inl (result_error ''artifact does not match its metadata''), db)
          else if isl (ValidateArtifact (speech_env.truncate (ws_speech E)) a (int (length audio)) audio (jp_request p) (jp_kind p))
          then (Inl (result_error ''artifact metadata is invalid''), db)
          else (case ParseULID (ulid_parse (ws_relay E)) (jp_render p) of
             Inl _ \<Rightarrow> (Inl (result_error ''job payload is malformed''), db)
           | Inr rid \<Rightarrow>
               seq (speech_call (SetRenderGenerating now rid) db) (\<lambda>_ db1.
                 if \<not> io_prepare io
                 then (Inl MediaFailed, give_up E now rid j attempt [] ''v1.audio_upload_failed'' True db1)
                 else (case commit_prepared io (\<lambda>s. seq (publish E now rid (jp_request p) (ws_sha E audio) a (job_id j) attempt token s)
                         (\<lambda>_ s'. (Inr (), writeAilocalsDigestTx (job_id j) digest s'))) db1 of
                   (Inr _, db2) \<Rightarrow> (Inr (), recomputeRenderArticles now rid db2)
                 | (Inl _, db2) \<Rightarrow> (Inl (result_error ''completion could not be committed''),
                     snd (MarkRenderFailed now rid ''v1.audio_upload_failed'' db2))))))"

definition CompleteAilocals ::
  "worker_svc \<Rightarrow> media_io \<Rightarrow> nat \<Rightarrow> worker \<Rightarrow> string \<Rightarrow> string \<Rightarrow> complete_metadata option \<Rightarrow> string option \<Rightarrow> string \<Rightarrow> (unit, 'z) worker_op" where
  "CompleteAilocals E io now w jid token request artifact result db =
     (case ValidateCompleteMetadata request of
        Inl e \<Rightarrow> (Inl (WorkerLocal e), db)
      | Inr _ \<Rightarrow>
          (let md = the request; digest = cm_sha md; bytes = (case artifact of None \<Rightarrow> [] | Some b \<Rightarrow> b) in
           case Get jid (hub_jobs db) of
             Inl e \<Rightarrow> (Inl (WorkerJobs e), db)
           | Inr j \<Rightarrow>
               if job_state j = Succeeded then (verifyAilocalsRepeatedCompletion E j digest bytes result db, db)
               else if \<not> active j then (Inl (mapJobsError (WorkerJobs ErrLeaseLost)), db)
               else (case verify E now jid (cm_attempt md) token (ulid_string (wv_id w)) db of
                  Inl e \<Rightarrow> (Inl (mapJobsError e), db)
                | Inr _ \<Rightarrow>
                    if job_type j = LLMRelayJobType then
                      (if artifact \<noteq> None then (Inl (result_error ''artifact parts are not accepted''), db)
                       else completeRelayCommon E now j (cm_attempt md) token result digest db)
                    else (case decodeAilocalsTtsResult result of
                       Inl e \<Rightarrow> (Inl e, db)
                     | Inr a \<Rightarrow> completeSpeechCommon E io now j a (cm_attempt md) bytes digest token db))))"

end
