(* ===== verification/Media_Workers.thy ===== *)
theory Media_Workers
  imports Media_Props Workers_Common
begin

text \<open>
  The media store under its clients: what a publication does to the database is the transaction of its callback, as the
  worker service takes it (\<open>commit_prepared\<close> of theory Workers), and the callbacks in use add references to the published
  digest only.
\<close>

section \<open>Callbacks\<close>

lemma storeDB_own: "own_reference (storeDB ref now asset)"
  by (auto simp: own_reference_def storeDB_def ref_digests_def set_update_where split: if_splits option.splits)

lemma publish_frame:
  fixes tx :: "'z media_db_scheme"
  assumes "publish E now rid request digest m jid attempt token tx = (r, tx')"
  shows "md_blobs tx' = md_blobs tx" "md_refs tx' = md_refs tx" "snd ` set (sd_blobs tx') \<subseteq> insert digest (snd ` set (sd_blobs tx))"
  using assms
  by (auto simp: publish_def MarkRenderReadyTx_def sched_def on_jobs_def update_render_def Let_def split: if_splits option.splits sum.splits prod.splits speech_fault.splits)

lemma publish_own:
  fixes f :: "(worker_fault, 'z) reference_commit"
  assumes "f = (\<lambda>tx digest _. publish E now rid request digest m jid attempt token tx)"
  shows "own_reference f"
  unfolding own_reference_def assms
proof (intro allI impI)
  fix tx :: "'z media_db_scheme" and d n r tx'
  assume p: "publish E now rid request d m jid attempt token tx = (r, tx')"
  show "md_blobs tx' = md_blobs tx \<and> ref_digests tx' \<subseteq> insert d (ref_digests tx)"
    using publish_frame[OF p] by (auto simp: ref_digests_def)
qed

lemma publish_common_own:
  fixes f :: "(worker_fault, 'z) reference_commit"
  assumes "f = (\<lambda>tx digest _. seq (publish E now rid request digest m jid attempt token tx) (\<lambda>_ s. (Inr (), writeAilocalsDigestTx jid' result s)))"
  shows "own_reference f"
  unfolding own_reference_def assms
proof (intro allI impI)
  fix tx :: "'z media_db_scheme" and d n r tx'
  assume "seq (publish E now rid request d m jid attempt token tx) (\<lambda>_ s. (Inr (), writeAilocalsDigestTx jid' result s)) = (r, tx')"
  then obtain q v where p: "publish E now rid request d m jid attempt token tx = (q, v)" and
      v: "tx' = v \<or> tx' = writeAilocalsDigestTx jid' result v"
    by (auto simp: seq_def split: prod.splits sum.splits)
  have "md_blobs tx' = md_blobs v" "ref_digests tx' = ref_digests v" using v by (auto simp: writeAilocalsDigestTx_def ref_digests_def)
  then show "md_blobs tx' = md_blobs tx \<and> ref_digests tx' \<subseteq> insert d (ref_digests tx)"
    using publish_frame[OF p] by (auto simp: ref_digests_def)
qed

section \<open>A publication as one transaction\<close>

text \<open>\<open>errors.Is\<close> finds the error of the callback behind the failures that were joined to it.\<close>

fun cause :: "'e media_fault \<Rightarrow> 'e option" where
  "cause (CallbackError e) = Some e"
| "cause (Joined a b) = (case cause a of Some e \<Rightarrow> Some e | None \<Rightarrow> cause b)"
| "cause _ = None"

definition worker_result :: "worker_fault media_fault + string \<Rightarrow> worker_fault + unit" where
  "worker_result r = (case r of Inr _ \<Rightarrow> Inr () | Inl e \<Rightarrow> Inl (case cause e of Some x \<Rightarrow> x | None \<Rightarrow> MediaFailed))"

text \<open>What the worker service sees of a run over a database: the result, and the rows.\<close>

definition as_transaction ::
  "('z media_db_scheme \<Rightarrow> (worker_fault + unit) \<times> 'z media_db_scheme) \<Rightarrow> 'z media_db_scheme \<Rightarrow> worker_fault media_fault + string \<Rightarrow>
     'z media_db_scheme world \<Rightarrow> bool" where
  "as_transaction f db r v \<longleftrightarrow> (\<exists>io. commit_prepared io f db = (worker_result r, wd_db v))"

lemma commit_refused: "commit_prepared \<lparr>io_prepare = True, io_winner = False, io_publish = False, io_late = False\<rparr> f db = (Inl MediaFailed, db)"
  by (simp add: commit_prepared_def)

lemma refused: "cause e = None \<Longrightarrow> wd_db v = db \<Longrightarrow> as_transaction f db (Inl e) v"
  unfolding as_transaction_def worker_result_def
  by (rule exI[of _ "\<lparr>io_prepare = True, io_winner = False, io_publish = False, io_late = False\<rparr>"]) (simp add: commit_refused)

lemma failed_callback: "f db = (Inl x, tx) \<Longrightarrow> cause e = Some x \<Longrightarrow> wd_db v = db \<Longrightarrow> as_transaction f db (Inl e) v"
  unfolding as_transaction_def worker_result_def
  by (rule exI[of _ "\<lparr>io_prepare = True, io_winner = True, io_publish = False, io_late = False\<rparr>"])
    (simp add: commit_prepared_def with_transaction_def seq_def)

lemma committed: "f db = (Inr (), wd_db v) \<Longrightarrow> as_transaction f db (Inr d) v"
  unfolding as_transaction_def worker_result_def
  by (rule exI[of _ "\<lparr>io_prepare = True, io_winner = True, io_publish = True, io_late = False\<rparr>"])
    (simp add: commit_prepared_def with_transaction_def seq_def)

lemma committed_late: "f db = (Inr (), wd_db v) \<Longrightarrow> cause e = None \<Longrightarrow> as_transaction f db (Inl e) v"
  unfolding as_transaction_def worker_result_def
  by (rule exI[of _ "\<lparr>io_prepare = True, io_winner = True, io_publish = True, io_late = True\<rparr>"])
    (simp add: commit_prepared_def with_transaction_def seq_def)

abbreviation db_stays :: "'d \<Rightarrow> ('a \<Rightarrow> bool) \<Rightarrow> 'a \<Rightarrow> 'd world \<Rightarrow> bool" where
  "db_stays db P r v \<equiv> wd_db v = db \<and> P r"

lemma stays_cleanup: "wd_db w = db \<Longrightarrow> ends (\<lambda>_. True) (db_stays db (\<lambda>e. e = primary \<or>
     (\<exists>m. e = joinFailure primary (Some (MediaError m))))) (cleanupAttempt E p primary w)"
  unfolding cleanupAttempt_def by (auto intro!: calls simp: joinFailure_def split: option.splits)

lemma stays_abort: "wd_db w = db \<Longrightarrow> ends (\<lambda>_. True) (db_stays db (\<lambda>r. \<exists>e. r = Inl e \<and> cause e = cause primary)) (abort_attempt E p primary w)"
  unfolding abort_attempt_def roll_back_def
  by (rule ends_next[OF stays_cleanup], assumption) (auto intro!: calls simp: joinFailure_def split: option.splits)

lemma stays_restore: "wd_db w = db \<Longrightarrow> ends (\<lambda>_. True) (db_stays db (\<lambda>e. e = None \<or> (\<exists>m. e = Some (MediaError m))))
    (restoreAfterGenericCommitFailure E p published w)"
  unfolding restoreAfterGenericCommitFailure_def
  by (cases published) (auto intro!: calls ends_count ends_weaken[OF stays_cleanup] simp: joinFailure_def)

lemma verify_errors: "wd_db w = db \<Longrightarrow> ends (\<lambda>_. True) (db_stays db (\<lambda>e. \<forall>x. e = Some x \<longrightarrow> cause x = None)) (verifyFile E p digest k w)"
  unfolding verifyFile_def by (auto intro!: ends_bind ends_act ends_simple split: option.split)

lemma winner_errors: "wd_db w = db \<Longrightarrow> ends (\<lambda>_. True) (db_stays db (\<lambda>r. \<forall>x. r = Inl x \<longrightarrow> cause x = None)) (verifiedWinner E p w)"
  unfolding verifiedWinner_def Let_def
  by (cases "content (blobPath (pw_digest p)) w = None")
    (auto intro!: ends_bind ends_stat ends_weaken[OF verify_errors] split: option.split)

lemma publish_transaction:
  fixes w :: "'z media_db_scheme world"
  assumes "f (wd_db w) = (Inr (), tx)"
  shows "ends (\<lambda>_. True) (as_transaction f (wd_db w)) (publish_attempt E p winner tx w)"
proof -
  let ?db = "wd_db w"
  have fail: "ends (\<lambda>_. True) (as_transaction f ?db) (next_io (restoreAfterGenericCommitFailure E p q u)
      (\<lambda>parity w. (Some (Inl (the (joinFailure (Some (MediaError ''commit transaction'')) parity))), w)))"
    if "wd_db u = ?db \<or> wd_db u = tx" for u q
  proof (rule ends_next[OF stays_restore[OF refl]])
    fix e :: "worker_fault media_fault option" and v :: "'z media_db_scheme world"
    assume e: "db_stays (wd_db u) (\<lambda>e. e = None \<or> (\<exists>m. e = Some (MediaError m))) e v"
    let ?x = "the (joinFailure (Some (MediaError ''commit transaction'')) e)"
    have x: "cause ?x = None" using e by (auto simp: joinFailure_def)
    have "as_transaction f ?db (Inl ?x) v" using that e refused[OF x] committed_late[OF _ x, of f ?db v] assms by metis
    then show "ends (\<lambda>_. True) (as_transaction f ?db) (Some (Inl ?x), v)" by simp
  qed
  have go: "ends (\<lambda>_. True) (as_transaction f ?db) (next_io (commitTransaction E tx u) (\<lambda>ok w.
         if \<not> ok then next_io (restoreAfterGenericCommitFailure E p (\<not> winner) w)
           (\<lambda>parity w. (Some (Inl (the (joinFailure (Some (MediaError ''commit transaction'')) parity))), w))
         else if winner then next_io (remove_quiet E (InTemp (pw_temp p)) ''discard duplicate temp after commit'' w)
           (\<lambda>e w. (Some (case e of Some x \<Rightarrow> Inl x | None \<Rightarrow> Inr (pw_digest p)), w))
         else (Some (Inr (pw_digest p)), w)))"
    if "wd_db u = ?db" for u
  proof (rule ends_next[OF ends_commit[where Q = "\<lambda>ok v. if ok then wd_db v = tx else wd_db v = ?db \<or> wd_db v = tx"]])
    fix ok and v :: "'z media_db_scheme world" assume v: "if ok then wd_db v = tx else wd_db v = ?db \<or> wd_db v = tx"
    show "ends (\<lambda>_. True) (as_transaction f ?db) (if \<not> ok then next_io (restoreAfterGenericCommitFailure E p (\<not> winner) v)
           (\<lambda>parity w. (Some (Inl (the (joinFailure (Some (MediaError ''commit transaction'')) parity))), w))
         else if winner then next_io (remove_quiet E (InTemp (pw_temp p)) ''discard duplicate temp after commit'' v)
           (\<lambda>e w. (Some (case e of Some x \<Rightarrow> Inl x | None \<Rightarrow> Inr (pw_digest p)), w))
         else (Some (Inr (pw_digest p)), v))"
    proof (cases ok)
      case True
      then show ?thesis using v assms by (auto intro!: ends_bind ends_remove_quiet committed committed_late)
    next
      case False
      then show ?thesis using fail[of v "\<not> winner"] v by simp
    qed
  qed (use that in simp_all)
  have stop: "ends (\<lambda>_. True) (as_transaction f ?db) (abort_attempt E p (MediaError m) u)" if "wd_db u = ?db" for u m
    by (rule ends_weaken[OF stays_abort[OF that]]) (auto intro: refused)
  show ?thesis unfolding publish_attempt_def
    by (rule ends_next[where P = "\<lambda>e v. wd_db v = ?db"]) (auto intro!: go stop ends_rename)
qed

lemma attempt_transaction:
  fixes w :: "'z media_db_scheme world"
  assumes "wd_db w = db"
  shows "ends (\<lambda>_. True) (as_transaction (\<lambda>tx. f (insert_blob (pw_digest p) (pw_size p) mime tx) (pw_digest p) (pw_size p)) db) (commit_attempt E mime p f w)"
    (is "ends _ (as_transaction ?f db) _")
proof -
  have stop: "ends (\<lambda>_. True) (as_transaction ?f db) (abort_attempt E p e u)" if "wd_db u = db" "cause e = None" for u e
    by (rule ends_weaken[OF stays_abort[OF that(1)]]) (use that(2) in \<open>auto intro: refused\<close>)
  have stop': "ends (\<lambda>_. True) (as_transaction ?f db) (abort_attempt E p (CallbackError x) u)" if "wd_db u = db" "?f db = (Inl x, tx)" for u x tx
    by (rule ends_weaken[OF stays_abort[OF that(1)]]) (use that(2) in \<open>auto intro: failed_callback\<close>)
  show ?thesis unfolding commit_attempt_def
  proof (rule ends_next[OF ends_simple[where Q = "\<lambda>ok v. wd_db v = db"]])
    fix ok and v :: "'z media_db_scheme world" assume v: "wd_db v = db"
    have begin_failed: "ends (\<lambda>_. True) (as_transaction ?f db) (next_io (cleanupAttempt E p (Some (MediaError m)) v) (\<lambda>e w. (Some (Inl (the e)), w)))" for m
      by (rule ends_next[OF stays_cleanup[OF v]]) (auto intro!: refused simp: joinFailure_def)
    have go: "ends (\<lambda>_. True) (as_transaction ?f db) (next_io (simple_call E (Sql ''insert blob'') u) (\<lambda>ok u.
             if \<not> ok then abort_attempt E p (MediaError ''insert blob'') u
             else case f (insert_blob (pw_digest p) (pw_size p) mime (wd_db u)) (pw_digest p) (pw_size p) of
               (Inl e, _) \<Rightarrow> abort_attempt E p (CallbackError e) u
             | (Inr _, tx) \<Rightarrow> publish_attempt E p winner tx u))" if "wd_db u = db" for u winner
    proof (rule ends_next[OF ends_simple[where Q = "\<lambda>ok v. wd_db v = db"]])
      fix ok and u :: "'z media_db_scheme world" assume u: "wd_db u = db"
      obtain r tx where ftx: "?f db = (r, tx)" by fastforce
      have pub: "r = Inr () \<Longrightarrow> ends (\<lambda>_. True) (as_transaction ?f db) (publish_attempt E p winner tx u)"
        using publish_transaction[of ?f u tx E p winner] ftx u by simp
      show "ends (\<lambda>_. True) (as_transaction ?f db) (if \<not> ok then abort_attempt E p (MediaError ''insert blob'') u
             else case f (insert_blob (pw_digest p) (pw_size p) mime (wd_db u)) (pw_digest p) (pw_size p) of
               (Inl e, _) \<Rightarrow> abort_attempt E p (CallbackError e) u
             | (Inr _, tx) \<Rightarrow> publish_attempt E p winner tx u)"
        using stop[OF u] stop'[OF u] pub ftx by (cases ok; cases r) (simp_all add: u)
    qed (use that in simp_all)
    show "ends (\<lambda>_. True) (as_transaction ?f db) (if \<not> ok then next_io (cleanupAttempt E p (Some (MediaError ''begin transaction'')) v) (\<lambda>e w. (Some (Inl (the e)), w))
       else next_io (verifiedWinner E p v) (\<lambda>r w. case r of
         Inl e \<Rightarrow> abort_attempt E p e w
       | Inr winner \<Rightarrow>
           next_io (simple_call E (Sql ''insert blob'') w) (\<lambda>ok w.
             if \<not> ok then abort_attempt E p (MediaError ''insert blob'') w
             else case f (insert_blob (pw_digest p) (pw_size p) mime (wd_db w)) (pw_digest p) (pw_size p) of
               (Inl e, _) \<Rightarrow> abort_attempt E p (CallbackError e) w
             | (Inr _, tx) \<Rightarrow> publish_attempt E p winner tx w)))"
    proof (cases ok)
      case True
      have "ends (\<lambda>_. True) (as_transaction ?f db) (next_io (verifiedWinner E p v) (\<lambda>r w. case r of
         Inl e \<Rightarrow> abort_attempt E p e w
       | Inr winner \<Rightarrow>
           next_io (simple_call E (Sql ''insert blob'') w) (\<lambda>ok w.
             if \<not> ok then abort_attempt E p (MediaError ''insert blob'') w
             else case f (insert_blob (pw_digest p) (pw_size p) mime (wd_db w)) (pw_digest p) (pw_size p) of
               (Inl e, _) \<Rightarrow> abort_attempt E p (CallbackError e) w
             | (Inr _, tx) \<Rightarrow> publish_attempt E p winner tx w)))"
      proof (rule ends_next[OF winner_errors[OF v]])
        fix r :: "worker_fault media_fault + bool" and u :: "'z media_db_scheme world"
        assume r: "db_stays db (\<lambda>r. \<forall>x. r = Inl x \<longrightarrow> cause x = None) r u"
        then show "ends (\<lambda>_. True) (as_transaction ?f db) (case r of Inl e \<Rightarrow> abort_attempt E p e u
           | Inr winner \<Rightarrow> next_io (simple_call E (Sql ''insert blob'') u) (\<lambda>ok w.
             if \<not> ok then abort_attempt E p (MediaError ''insert blob'') w
             else case f (insert_blob (pw_digest p) (pw_size p) mime (wd_db w)) (pw_digest p) (pw_size p) of
               (Inl e, _) \<Rightarrow> abort_attempt E p (CallbackError e) w
             | (Inr _, tx) \<Rightarrow> publish_attempt E p winner tx w))"
          using stop[of u] go[of u] by (cases r) simp_all
      qed
      then show ?thesis using True by simp
    qed (use begin_failed in simp)
  qed (use assms in simp_all)
qed

end
