(* ===== verification/Media_Recovery.thy ===== *)
theory Media_Recovery
  imports Media_Workers
begin

text \<open>
  What the media store promises across failures and restarts, with a run as the witness: a server starts on empty
  directories, prepares and publishes a blob, ends, and starts again.
\<close>

section \<open>A run\<close>

definition some_digest :: string where "some_digest = replicate 64 CHR ''0''"

definition calm :: media_env where
  "calm = \<lparr>me_self = 0, me_sha = (\<lambda>_. some_digest), me_fault = (\<lambda>_ _. Works), me_num = (\<lambda>_. 7), me_ulid = (\<lambda>_. ''r''), me_time = (\<lambda>_. ''t'')\<rparr>"

definition plain_db :: "blob_row list \<Rightarrow> blob_reference list \<Rightarrow> media_db" where
  "plain_db bs rs = \<lparr>hub_jobs = \<lparr>job_table = [], job_deps = []\<rparr>, hub_results = [], hub_workers = [], hub_enrollments = [],
     sd_units = [], sd_profiles = [], sd_renders = [], sd_blobs = [], sd_articles = [], sd_blocks = [], sd_sentences = [],
     sd_occurrences = [], sd_narration = [], sd_pronunciation = [], sd_drawn = 0, md_blobs = bs, md_refs = rs, md_assets = [''a'']\<rparr>"

definition plain_world :: "(string \<times> string) list \<Rightarrow> (string \<times> string) list \<Rightarrow> media_db \<Rightarrow> prepared_write list \<Rightarrow> string list \<Rightarrow> nat \<Rightarrow> media_db world" where
  "plain_world ts bs db ws ls n = \<lparr>wd_temp = ts, wd_blobs = bs, wd_db = db, wd_writes = ws, wd_leases = ls, wd_tick = n\<rparr>"

definition some_temp :: string where "some_temp = some_digest @ ''.write-7.tmp''"

definition some_write :: "prepared_status \<Rightarrow> prepared_write" where
  "some_write st = \<lparr>pw_store = 0, pw_digest = some_digest, pw_size = 2, pw_temp = some_temp, pw_lease = Some (0, some_digest), pw_status = st\<rparr>"

lemma decimal_7: "decimal 7 = ''7''" by code_simp

lemmas run_defs = calm_def plain_world_def next_io_def act_def tick_def simple_call_def read_dir_def remove_quiet_def removeFile_def
  renameFile_def stat_file_def content.simps put_file.simps drop_file.simps without_def

lemma run_start: "(Recover calm (restarted (plain_world [] [] (plain_db [] []) [] [] 0)) :: ('e media_fault list, media_db) run) =
   (Some [], plain_world [] [] (plain_db [] []) [] [] 2)"
  by (simp add: Recover_def run_defs restarted_def)

lemma run_prepare: "(PrepareWrite calm ''ja'' (plain_world [] [] (plain_db [] []) [] [] 2) :: ('e media_fault + nat, media_db) run) =
   (Some (Inr 0), plain_world [(some_temp, ''ja'')] [] (plain_db [] []) [some_write Prepared] [some_digest] 9)"
  by (simp add: PrepareWrite_def run_defs create_temp_def Let_def write_file_def verifyFile_def lease_digest_def decimal_7 some_temp_def some_write_def)

lemma run_commit: "CommitPrepared calm ''m'' (Some 0) (storeDB ''r'' ''t'' ''a'')
     (plain_world [(some_temp, ''ja'')] [] (plain_db [] []) [some_write Prepared] [some_digest] 9) =
   (Some (Inr some_digest), plain_world [] [(some_digest, ''ja'')]
      (plain_db [\<lparr>br_digest = some_digest, br_size = 2, br_mime = ''m''\<rparr>] [\<lparr>bf_id = ''r'', bf_asset = ''a'', bf_digest = some_digest, bf_created = ''t''\<rparr>])
      [some_write Finalized] [] 14)"
  by (simp add: CommitPrepared_def begin_write_def commit_attempt_def verifiedWinner_def publish_attempt_def run_defs some_write_def
     set_status_def deferred_def finish_write_def release_digest_def storeDB_def insert_blob_def recorded_def plain_db_def blobPath_def
     commitTransaction_def find_by_def)

definition done_world :: "media_db world" where
  "done_world = plain_world [] [(some_digest, ''ja'')]
      (plain_db [\<lparr>br_digest = some_digest, br_size = 2, br_mime = ''m''\<rparr>] [\<lparr>bf_id = ''r'', bf_asset = ''a'', bf_digest = some_digest, bf_created = ''t''\<rparr>])
      [some_write Finalized] [] 14"

definition asset_commits :: "(string, unit) reference_commit set" where
  "asset_commits = {storeDB ''r'' ''t'' ''a''}"

lemma some_valid: "validDigest some_digest"
  by (simp add: validDigest_def some_digest_def lower_hex_def byte_def list_all_iff)

lemma calm_ok: "env_ok calm asset_commits"
  using some_valid by (simp add: env_ok_def asset_commits_def storeDB_own cleanups_removed_def removes_def calm_def)

lemma media_run: "reach media_fresh (media_step calm asset_commits) (True, done_world)"
proof -
  have "reach media_fresh (media_step calm asset_commits) (False, plain_world [] [] (plain_db [] []) [] [] 0)"
    by (rule reach_init) (simp add: media_fresh_def plain_world_def plain_db_def ref_digests_def)
  then have "reach media_fresh (media_step calm asset_commits) (True, plain_world [] [] (plain_db [] []) [] [] 2)"
    by (rule reach_step) (rule media_step.start[OF run_start])
  then have "reach media_fresh (media_step calm asset_commits) (Some (Inr 0 :: string media_fault + nat) \<noteq> None,
      plain_world [(some_temp, ''ja'')] [] (plain_db [] []) [some_write Prepared] [some_digest] 9)"
    by (rule reach_step) (rule media_step.prepare[OF run_prepare])
  then have "reach media_fresh (media_step calm asset_commits) (Some (Inr some_digest :: string media_fault + string) \<noteq> None, done_world)"
    unfolding done_world_def by (rule reach_step) (simp, rule media_step.commit[OF _ run_commit, simplified], simp add: asset_commits_def)
  then show ?thesis by simp
qed

section \<open>The properties\<close>

text \<open>C5: recorded media survives failures and crashes.  In every state reached from empty directories by preparing, publishing,
  abandoning and removing blobs, changes of other rows, process ends at any point and restarts with recovery, whatever file
  operations or commits fail save the removal of a cleanup file: every reference points to a recorded digest, every recorded
  digest has its bytes in its blob file or in a cleanup file of that digest, and no blob file holds other bytes than its name says.
  Digests are taken to be 64 lower-case hexadecimal digits, callbacks to change no blob rows and to add references to the digest
  they publish only.\<close>
theorem media_bytes_kept:
  assumes "reach media_fresh (media_step E fs) (running, w)" and "env_ok E fs"
  shows "(\<forall>d \<in> ref_digests (wd_db w). recorded d (wd_db w)) \<and>
    (\<forall>d. recorded d (wd_db w) \<longrightarrow> (\<exists>b. me_sha E b = d \<and>
       (content (InBlobs d) w = Some b \<or> (\<exists>n. tempArtifact n = Some (d, True) \<and> content (InTemp n) w = Some b)))) \<and>
    (\<forall>d b. content (InBlobs d) w = Some b \<longrightarrow> me_sha E b = d)"
proof -
  have "media_inv E (running, w)" using media.reach_inv[OF assms(1)] assms(2) by blast
  then have ok: "crash_ok E w" using disk_crash by (auto simp: media_inv_def split: if_splits)
  have "\<exists>b. me_sha E b = d \<and> (content (InBlobs d) w = Some b \<or> (\<exists>n. tempArtifact n = Some (d, True) \<and> content (InTemp n) w = Some b))"
    if r: "recorded d (wd_db w)" for d
  proof (cases "content (InBlobs d) w")
    case None
    then have "(\<exists>n. artifact d n w) \<and> artifacts_good E d w" using ok r unfolding crash_ok_def by auto
    then show ?thesis unfolding artifact_def artifacts_good_def by blast
  next
    case (Some b)
    then show ?thesis using ok unfolding crash_ok_def blobs_good_def by blast
  qed
  then show ?thesis using ok by (auto simp: crash_ok_def blobs_good_def tables_ok_def recorded_def)
qed

theorem media_bytes_kept_witness:
  "\<exists>b. content (InBlobs some_digest) done_world = Some b \<or> (\<exists>n. tempArtifact n = Some (some_digest, True) \<and> content (InTemp n) done_world = Some b)"
proof -
  have "recorded some_digest (wd_db done_world)" by (simp add: recorded_def done_world_def plain_world_def plain_db_def)
  then show ?thesis using media_bytes_kept[OF media_run calm_ok] by blast
qed

text \<open>C19: recovery restores parity.  Take a run from empty directories as for \<open>media_bytes_kept\<close>, under the same three conditions on
  the surroundings: digests are 64 lower-case hexadecimal digits; a callback changes no blob rows and only adds references to the
  digest it publishes (other changes of rows in between add none); and the removal of a cleanup file (a blob moved aside, or the empty
  placeholder for one) never returns an error, though the process may end in it.  Wherever the last process ended, when
  \<open>Recover\<close> reports no problem the database is as it was, every recorded digest has its blob file with bytes of that digest, every blob
  file with a valid name is recorded, and no temporary file of a write or a cleanup is left.  The third condition is needed:
  the lemma \<open>placeholder_loses_bytes\<close> below runs a removal of a placeholder that fails, after which recovery puts the empty placeholder
  in the place of the bytes.\<close>
theorem recovery_restores_parity:
  fixes fs :: "('e, 'z) reference_commit set"
  assumes "reach media_fresh (media_step E fs) (False, w)" and "env_ok E fs"
    and "Recover E (restarted w) = (Some ([] :: 'e media_fault list), w')"
  shows "wd_db w' = wd_db w \<and> (\<forall>d. recorded d (wd_db w) \<longrightarrow> (\<exists>b. content (InBlobs d) w' = Some b \<and> me_sha E b = d)) \<and>
    (\<forall>d. validDigest d \<and> content (InBlobs d) w' \<noteq> None \<longrightarrow> recorded d (wd_db w)) \<and>
    (\<forall>n. tempArtifact n \<noteq> None \<longrightarrow> content (InTemp n) w' = None)"
proof -
  have "media_inv E (False, w)" using media.reach_inv[OF assms(1)] assms(2) by blast
  then have "crash_ok E (restarted w)" by (simp add: media_inv_def)
  from ends_Recover[OF this, where 'e = 'e] assms(3) have "wd_db w' = wd_db w \<and> parity E w'" by (simp add: ends_def restarted_def)
  then show ?thesis by (auto simp: parity_def)
qed

lemma run_restart: "(Recover calm (restarted done_world) :: (string media_fault list, media_db) run) =
   (Some [], restarted done_world\<lparr>wd_tick := 17\<rparr>)"
  using some_valid by (simp add: Recover_def run_defs restarted_def done_world_def recover_blob_def count_blob_def deferred_def
      lease_digest_def release_digest_def plain_db_def count_where_def problem_def)

theorem recovery_restores_parity_witness:
  "wd_db (snd (Recover calm (restarted done_world) :: (string media_fault list, media_db) run)) = wd_db done_world"
proof -
  have "reach media_fresh (media_step calm asset_commits) (False, done_world)"
    by (rule reach_step[OF media_run]) (rule media_step.killed)
  from recovery_restores_parity[OF this calm_ok run_restart] show ?thesis unfolding run_restart by simp
qed

lemma commit_transaction:
  assumes "CommitPrepared E mime (Some i) f w = (Some r, w')" and "i < length (wd_writes w)"
  shows "\<exists>io. commit_prepared io (\<lambda>tx. f (insert_blob (pw_digest (wd_writes w ! i)) (pw_size (wd_writes w ! i)) mime tx)
      (pw_digest (wd_writes w ! i)) (pw_size (wd_writes w ! i))) (wd_db w) = (worker_result r, wd_db w')"
    (is "\<exists>io. commit_prepared io ?f _ = _")
proof (cases "begin_write E (Some i) w :: (worker_fault media_fault + nat) \<times> 'a media_db_scheme world")
  case (Pair q v)
  show ?thesis
  proof (cases q)
    case (Inl e)
    then have "cause e = None" "v = w" using Pair by (auto simp: begin_write_def Let_def split: if_splits)
    then show ?thesis using assms(1) Pair Inl refused[of e w "wd_db w" ?f] by (auto simp: CommitPrepared_def as_transaction_def)
  next
    case (Inr k)
    then have v: "k = i" "v = set_status i Finalizing w" using Pair by (auto simp: begin_write_def Let_def split: if_splits)
    let ?p = "wd_writes v ! i"
    have p: "pw_digest ?p = pw_digest (wd_writes w ! i)" "pw_size ?p = pw_size (wd_writes w ! i)" "wd_db v = wd_db w"
      using assms(2) by (simp_all add: v(2) set_status_def)
    obtain u where u: "commit_attempt E mime ?p f v = (Some r, u)" "w' = finish_write i u"
      using assms(1) Pair Inr v(1) by (auto simp: CommitPrepared_def deferred_def split: prod.splits option.splits)
    have "as_transaction ?f (wd_db w) r u" using attempt_transaction[of v "wd_db w" f ?p mime E] u(1) p by simp
    then show ?thesis unfolding as_transaction_def u(2) by (simp add: finish_write_def release_digest_def set_status_def)
  qed
qed

text \<open>A write the store accepts, over files that are as they should be: the handle is this store's, leased and not yet finished,
  its temporary file is there, and a blob that is already there has the digest and the size of the write.\<close>

definition publishable :: "media_env \<Rightarrow> prepared_write \<Rightarrow> 'd world \<Rightarrow> bool" where
  "publishable E p w \<longleftrightarrow> pw_store p = me_self E \<and> pw_lease p = Some (me_self E, pw_digest p) \<and> pw_status p = Prepared \<and>
     content (InTemp (pw_temp p)) w \<noteq> None \<and>
     (\<forall>b. content (InBlobs (pw_digest p)) w = Some b \<longrightarrow> me_sha E b = pw_digest p \<and> int (length b) = pw_size p)"

text \<open>Every call works, but for the removals of files and the rollbacks.\<close>

definition mostly_works :: "media_env \<Rightarrow> bool" where
  "mostly_works E \<longleftrightarrow> (\<forall>n c. (\<forall>p. c \<noteq> RemoveFile p) \<and> c \<noteq> RollbackTx \<longrightarrow> me_fault E n c = Works)"

lemma act_works: "me_fault E (wd_tick w) c = Works \<Longrightarrow> act E c f b w = (Some (fst (f (tick w))), snd (f (tick w)))"
  by (simp add: act_def split: prod.splits)

lemma same_files: "content p (tick w) = content p w" "wd_db (tick w) = wd_db w"
  by (cases p, simp_all add: tick_def content.simps)

lemma works_begin:
  assumes "publishable E (wd_writes w ! i) w" and "i < length (wd_writes w)"
  shows "begin_write E (Some i) w = (Inr i, set_status i Finalizing w)"
  using assms by (simp add: begin_write_def publishable_def Let_def)

lemma works_winner:
  assumes "mostly_works E" and "\<forall>b. content (InBlobs (pw_digest p)) w = Some b \<longrightarrow> me_sha E b = pw_digest p \<and> int (length b) = pw_size p"
  shows "\<exists>winner v. verifiedWinner E p w = (Some (Inr winner), v) \<and> wd_db v = wd_db w \<and> (\<forall>q. content q v = content q w)"
proof (cases "content (InBlobs (pw_digest p)) w")
  case None
  then show ?thesis using assms(1) unfolding mostly_works_def
    by (intro exI[of _ False]) (simp add: verifiedWinner_def blobPath_def Let_def stat_file_def act_works same_files next_io_def
        del: content.simps)
next
  case (Some b)
  then show ?thesis using assms unfolding mostly_works_def
    by (intro exI[of _ True]) (simp add: verifiedWinner_def blobPath_def Let_def stat_file_def act_works same_files next_io_def
        verifyFile_def simple_call_def del: content.simps)
qed

text \<open>What comes before the callback works, and the callback runs once, on the rows with the blob's row.\<close>

lemma works_attempt:
  fixes f :: "('e, 'z) reference_commit"
  assumes "mostly_works E" and "\<forall>b. content (InBlobs (pw_digest p)) w = Some b \<longrightarrow> me_sha E b = pw_digest p \<and> int (length b) = pw_size p"
  shows "\<exists>winner v. commit_attempt E mime p f w =
      (case f (insert_blob (pw_digest p) (pw_size p) mime (wd_db w)) (pw_digest p) (pw_size p) of
         (Inl e, _) \<Rightarrow> abort_attempt E p (CallbackError e) v
       | (Inr _, tx) \<Rightarrow> publish_attempt E p winner tx v) \<and> wd_db v = wd_db w \<and> (\<forall>q. content q v = content q w)"
proof -
  have w: "me_fault E n BeginTx = Works" "me_fault E n (Sql q) = Works" for n q using assms(1) by (simp_all add: mostly_works_def)
  obtain winner v where v: "verifiedWinner E p (tick w) = (Some (Inr winner :: 'e media_fault + bool), v)" "wd_db v = wd_db w" "\<forall>q. content q v = content q w"
    using works_winner[OF assms(1), of p "tick w"] assms(2) by (auto simp: same_files simp del: content.simps)
  show ?thesis
    by (rule exI[of _ winner], rule exI[of _ "tick v"])
      (simp add: commit_attempt_def simple_call_def[abs_def] act_works w next_io_def v[unfolded next_io_def] same_files
        del: content.simps)
qed

lemma works_publish:
  fixes w :: "'z media_db_scheme world"
  assumes "\<forall>n c. me_fault E n c = Works" and "content (InTemp (pw_temp p)) w \<noteq> None"
  shows "\<exists>v. publish_attempt E p winner tx w = (Some (Inr (pw_digest p)), v) \<and> wd_db v = tx"
proof (cases winner)
  case True
  then show ?thesis using assms
    by (auto simp: publish_attempt_def next_io_def commitTransaction_def remove_quiet_def removeFile_def act_works remove_error_def
        tick_def split: option.splits if_splits)
next
  case False
  then show ?thesis using assms
    by (auto simp: publish_attempt_def next_io_def commitTransaction_def renameFile_def act_works tick_def split: option.splits)
qed

text \<open>C18: a publication is one transaction for its client.  Whatever file operations or commits fail, when \<open>CommitPrepared\<close> returns the
  database and the result are those of \<open>commit_prepared\<close>, the model the worker service uses, for some outcomes of its
  file operations: the callback's changes with the blob's row are there as a whole or not at all, and success means they are.
  The callback's own error is not lost: for a write the store accepts, over files that are as they should be, when every call but
  removals and rollbacks works, a callback that fails makes the publication fail with that error, as it is or joined with the failures
  of the cleaning up, and the database stays as it was.  When no call fails, a callback that succeeds makes the publication succeed
  with its changes.\<close>
theorem CommitPrepared_refines:
  assumes "CommitPrepared E mime (Some i) f w = (Some r, w')" and "i < length (wd_writes w)"
  shows "(\<exists>io. commit_prepared io (\<lambda>tx. f (insert_blob (pw_digest (wd_writes w ! i)) (pw_size (wd_writes w ! i)) mime tx)
      (pw_digest (wd_writes w ! i)) (pw_size (wd_writes w ! i))) (wd_db w) = (worker_result r, wd_db w')) \<and>
    (\<forall>x tx. publishable E (wd_writes w ! i) w \<and> mostly_works E \<and>
      f (insert_blob (pw_digest (wd_writes w ! i)) (pw_size (wd_writes w ! i)) mime (wd_db w))
        (pw_digest (wd_writes w ! i)) (pw_size (wd_writes w ! i)) = (Inl x, tx) \<longrightarrow>
      (\<exists>e. r = Inl e \<and> cause e = Some x) \<and> wd_db w' = wd_db w) \<and>
    (\<forall>tx. publishable E (wd_writes w ! i) w \<and> (\<forall>n c. me_fault E n c = Works) \<and>
      f (insert_blob (pw_digest (wd_writes w ! i)) (pw_size (wd_writes w ! i)) mime (wd_db w))
        (pw_digest (wd_writes w ! i)) (pw_size (wd_writes w ! i)) = (Inr (), tx) \<longrightarrow>
      r = Inr (pw_digest (wd_writes w ! i)) \<and> wd_db w' = tx)"
proof (intro conjI allI impI)
  let ?w = "set_status i Finalizing w" and ?p = "wd_writes w ! i"
  let ?q = "wd_writes ?w ! i"
  have q: "pw_digest ?q = pw_digest ?p" "pw_size ?q = pw_size ?p" "pw_temp ?q = pw_temp ?p" "wd_db ?w = wd_db w"
    using assms(2) by (simp_all add: set_status_def)
  have files: "content a ?w = content a w" for a by (cases a) (simp_all add: set_status_def content.simps)
  have run: "\<exists>u. commit_attempt E mime ?q f ?w = (Some r, u) \<and> wd_db w' = wd_db u" if "publishable E ?p w"
    using assms(1)
    by (auto simp: CommitPrepared_def works_begin[OF that assms(2)] deferred_def finish_write_def release_digest_def set_status_def
        split: prod.splits option.splits)
  have exact: "\<forall>b. content (InBlobs (pw_digest ?q)) ?w = Some b \<longrightarrow> me_sha E b = pw_digest ?q \<and> int (length b) = pw_size ?q"
    if "publishable E ?p w" using that unfolding publishable_def q files by blast
  show "\<exists>io. commit_prepared io (\<lambda>tx. f (insert_blob (pw_digest ?p) (pw_size ?p) mime tx) (pw_digest ?p) (pw_size ?p)) (wd_db w) =
      (worker_result r, wd_db w')" by (rule commit_transaction[OF assms])
  show "\<exists>e. r = Inl e \<and> cause e = Some x" "wd_db w' = wd_db w" if h: "publishable E ?p w \<and> mostly_works E \<and>
      f (insert_blob (pw_digest ?p) (pw_size ?p) mime (wd_db w)) (pw_digest ?p) (pw_size ?p) = (Inl x, tx)" for x tx
  proof -
    obtain v where v: "commit_attempt E mime ?q f ?w = abort_attempt E ?q (CallbackError x) v" "wd_db v = wd_db w"
      using works_attempt[of E ?q ?w mime f] h exact by (auto simp: q)
    obtain u where u: "commit_attempt E mime ?q f ?w = (Some r, u)" "wd_db w' = wd_db u" using run h by blast
    have "ends (\<lambda>_. True) (db_stays (wd_db w) (\<lambda>r. \<exists>e. r = Inl e \<and> cause e = cause (CallbackError x))) (Some r, u)"
      unfolding u(1)[symmetric] v(1) by (rule stays_abort[OF v(2)])
    then show "\<exists>e. r = Inl e \<and> cause e = Some x" "wd_db w' = wd_db w" using u(2) by simp_all
  qed
  show "r = Inr (pw_digest ?p)" "wd_db w' = tx" if h: "publishable E ?p w \<and> (\<forall>n c. me_fault E n c = Works) \<and>
      f (insert_blob (pw_digest ?p) (pw_size ?p) mime (wd_db w)) (pw_digest ?p) (pw_size ?p) = (Inr (), tx)" for tx
  proof -
    have m: "mostly_works E" using h by (simp add: mostly_works_def)
    obtain winner v where v: "commit_attempt E mime ?q f ?w = publish_attempt E ?q winner tx v" "content (InTemp (pw_temp ?q)) v \<noteq> None"
    proof -
      obtain winner v where "commit_attempt E mime ?q f ?w = publish_attempt E ?q winner tx v" "\<forall>a. content a v = content a ?w"
        using works_attempt[OF m exact, of mime f] h by (auto simp: q)
      moreover have "content (InTemp (pw_temp ?q)) ?w \<noteq> None" using h by (simp add: q files publishable_def)
      ultimately show thesis using that by simp
    qed
    obtain u where u: "commit_attempt E mime ?q f ?w = (Some r, u)" "wd_db w' = wd_db u" using run h by blast
    obtain x where x: "publish_attempt E ?q winner tx v = (Some (Inr (pw_digest ?q) :: worker_fault media_fault + string), x)" "wd_db x = tx"
      using works_publish[OF conjunct1[OF conjunct2[OF h]] v(2)] by blast
    have "(Some r, u) = (Some (Inr (pw_digest ?q)), x)" unfolding u(1)[symmetric] v(1) x(1) ..
    then show "r = Inr (pw_digest ?p)" "wd_db w' = tx" using x(2) u(2) by (simp_all only: prod.inject option.inject q)
  qed
qed

definition audio_commit :: "(worker_fault, unit) reference_commit" where
  "audio_commit tx digest n = (Inr (), tx\<lparr>sd_blobs := [(''q'', digest)]\<rparr>)"

lemma run_audio_commit: "CommitPrepared calm ''m'' (Some 0) audio_commit
     (plain_world [(some_temp, ''ja'')] [] (plain_db [] []) [some_write Prepared] [some_digest] 9) =
   (Some (Inr some_digest), plain_world [] [(some_digest, ''ja'')]
      ((plain_db [\<lparr>br_digest = some_digest, br_size = 2, br_mime = ''m''\<rparr>] [])\<lparr>sd_blobs := [(''q'', some_digest)]\<rparr>) [some_write Finalized] [] 14)"
  by (simp add: CommitPrepared_def begin_write_def commit_attempt_def verifiedWinner_def publish_attempt_def run_defs some_write_def
     set_status_def deferred_def finish_write_def release_digest_def audio_commit_def insert_blob_def recorded_def plain_db_def blobPath_def
     commitTransaction_def)

text \<open>The same write when the lease of its job is lost: the error comes back although the temporary file and the transaction cannot be
  cleaned up.\<close>

definition lost_commit :: "(worker_fault, unit) reference_commit" where
  "lost_commit tx digest n = (Inl (WorkerJobs ErrLeaseLost), tx\<lparr>sd_blobs := [(''q'', digest)]\<rparr>)"

definition clumsy :: media_env where
  "clumsy = calm\<lparr>me_fault := (\<lambda>_ c. case c of RemoveFile _ \<Rightarrow> Fails | RollbackTx \<Rightarrow> Fails | _ \<Rightarrow> Works)\<rparr>"

lemma run_lost_commit: "CommitPrepared clumsy ''m'' (Some 0) lost_commit
     (plain_world [(some_temp, ''ja'')] [] (plain_db [] []) [some_write Prepared] [some_digest] 9) =
   (Some (Inl (Joined (Joined (CallbackError (WorkerJobs ErrLeaseLost)) (MediaError ''remove temp'')) (MediaError ''rollback''))),
    plain_world [(some_temp, ''ja'')] [] (plain_db [] []) [some_write Finalized] [] 14)"
  by (simp add: CommitPrepared_def begin_write_def commit_attempt_def verifiedWinner_def abort_attempt_def cleanupAttempt_def roll_back_def
     joinFailure_def remove_error_def clumsy_def run_defs some_write_def set_status_def deferred_def finish_write_def release_digest_def
     lost_commit_def blobPath_def)

theorem CommitPrepared_refines_witness:
  "(\<exists>io. commit_prepared io (\<lambda>tx. audio_commit (insert_blob some_digest 2 ''m'' tx) some_digest 2) (plain_db [] []) =
     (Inr (), (plain_db [\<lparr>br_digest = some_digest, br_size = 2, br_mime = ''m''\<rparr>] [])\<lparr>sd_blobs := [(''q'', some_digest)]\<rparr>)) \<and>
   cause (Joined (Joined (CallbackError (WorkerJobs ErrLeaseLost)) (MediaError ''remove temp'')) (MediaError ''rollback'')) =
     Some (WorkerJobs ErrLeaseLost)"
proof
  show "\<exists>io. commit_prepared io (\<lambda>tx. audio_commit (insert_blob some_digest 2 ''m'' tx) some_digest 2) (plain_db [] []) =
     (Inr (), (plain_db [\<lparr>br_digest = some_digest, br_size = 2, br_mime = ''m''\<rparr>] [])\<lparr>sd_blobs := [(''q'', some_digest)]\<rparr>)"
    using conjunct1[OF CommitPrepared_refines[OF run_audio_commit]] by (simp add: plain_world_def some_write_def worker_result_def)
  let ?w = "plain_world [(some_temp, ''ja'')] [] (plain_db [] []) [some_write Prepared] [some_digest] 9"
  have "publishable clumsy (some_write Prepared) ?w" "mostly_works clumsy"
    by (auto simp: publishable_def mostly_works_def clumsy_def calm_def some_write_def plain_world_def content.simps split: call.splits)
  then show "cause (Joined (Joined (CallbackError (WorkerJobs ErrLeaseLost)) (MediaError ''remove temp'')) (MediaError ''rollback'')) =
     Some (WorkerJobs ErrLeaseLost)"
    using conjunct1[OF conjunct2[OF CommitPrepared_refines[OF run_lost_commit]]] by (simp add: plain_world_def lost_commit_def)
qed

section \<open>Two failures that lose bytes\<close>

text \<open>When moving a blob aside fails and the empty placeholder cannot be removed either, a process that ends in the next removal of
  the same digest leaves two cleanup files; recovery promotes the placeholder, the first by name, and deletes the bytes.\<close>

definition other_digest :: string where "other_digest = replicate 64 CHR ''1''"

definition unlucky :: media_env where
  "unlucky = \<lparr>me_self = 0, me_sha = (\<lambda>b. if b = [] then other_digest else some_digest),
     me_fault = (\<lambda>n _. if n = 5 \<or> n = 6 then Fails else if n = 14 then Crashes else Works),
     me_num = (\<lambda>n. if n = 3 then 1 else 2), me_ulid = (\<lambda>_. ''r''), me_time = (\<lambda>_. ''t'')\<rparr>"

definition orphan_db :: media_db where
  "orphan_db = plain_db [\<lparr>br_digest = some_digest, br_size = 2, br_mime = ''m''\<rparr>] []"

definition cleanup_name :: "string \<Rightarrow> string" where
  "cleanup_name k = some_digest @ ''.cleanup-'' @ k @ ''.tmp''"

lemmas unlucky_defs = unlucky_def run_defs CleanupOrphan_def cleanup_body_def moved_aside_def newCleanupPath_def create_temp_def Let_def
  deferred_def lease_digest_def release_digest_def references_def count_where_def orphan_db_def plain_db_def blobPath_def roll_back_def
  remove_error_def joinFailure_def delete_orphan_def count_blob_def recoverCleanupArtifact_def problem_def recorded_def

lemma decimal_12: "decimal 1 = ''1''" "decimal (Suc 0) = ''1''" "decimal 2 = ''2''" by code_simp+

lemma first_cleanup: "snd (CleanupOrphan unlucky some_digest (plain_world [] [(some_digest, ''ja'')] orphan_db [] [] 0) :: (string media_fault + bool, media_db) run) =
   plain_world [(cleanup_name ''1'', [])] [(some_digest, ''ja'')] orphan_db [] [] 8"
  using some_valid by (simp add: unlucky_defs decimal_12 cleanup_name_def)

lemma second_cleanup: "snd (CleanupOrphan unlucky some_digest (plain_world [(cleanup_name ''1'', [])] [(some_digest, ''ja'')] orphan_db [] [] 8) :: (string media_fault + bool, media_db) run) =
   plain_world [(cleanup_name ''2'', ''ja''), (cleanup_name ''1'', [])] [] orphan_db [] [some_digest] 15"
  using some_valid by (simp add: unlucky_defs decimal_12 cleanup_name_def)

lemma cleanup_names: "tempArtifact (cleanup_name ''1'') = Some (some_digest, True)" "tempArtifact (cleanup_name ''2'') = Some (some_digest, True)"
  unfolding cleanup_name_def by (rule temp_names(2)[OF some_valid])+

lemma cleanup_distinct: "cleanup_name ''1'' \<noteq> cleanup_name ''2''" "cleanup_name ''2'' \<noteq> cleanup_name ''1''"
  by (simp_all add: cleanup_name_def)

lemma cleanup_sorted: "sort [cleanup_name ''2'', cleanup_name ''1''] = [cleanup_name ''1'', cleanup_name ''2'']"
  by code_simp

lemma placeholder_loses_bytes:
  "content (InBlobs some_digest) (snd (Recover unlucky (restarted (plain_world [(cleanup_name ''2'', ''ja''), (cleanup_name ''1'', [])] [] orphan_db [] [some_digest] 15))
     :: (string media_fault list, media_db) run)) = Some []"
  using some_valid
  by (simp add: Recover_def restarted_def unlucky_defs recover_blob_def cleanup_sorted[simplified] cleanup_names cleanup_distinct)

end
