(* ===== verification/Media_Lease.thy ===== *)
theory Media_Lease
  imports Go_Prelude
begin

text \<open>
  The digest leases of internal/media/media.go at the grain of their locks: a counted mutex per digest in a map that the
  store's own mutex guards.  A section under that mutex is one step; any number of callers interleave.  A caller that has
  unlocked the digest's mutex still counts until it has entered the store's mutex again.
\<close>

datatype phase = Outside | Waiting string nat | Leased string nat | Leaving string nat

text \<open>The mutexes are numbered in the order of their creation.\<close>

record lease_state =
  ls_locks :: "string \<Rightarrow> nat option"
  ls_count :: "nat \<Rightarrow> nat"
  ls_held :: "nat \<Rightarrow> bool"
  ls_next :: nat
  ls_phase :: "nat \<Rightarrow> phase"

text \<open>\<open>lockDigest\<close>: under the store's mutex the digest's mutex is found or made, and counted; then it is locked.\<close>

definition enter_digest :: "nat \<Rightarrow> string \<Rightarrow> lease_state \<Rightarrow> lease_state" where
  "enter_digest i d s =
     (case ls_locks s d of
        Some l \<Rightarrow> s\<lparr>ls_count := (ls_count s)(l := Suc (ls_count s l)), ls_phase := (ls_phase s)(i := Waiting d l)\<rparr>
      | None \<Rightarrow> let l = ls_next s in
          s\<lparr>ls_locks := (ls_locks s)(d := Some l), ls_next := Suc l, ls_held := (ls_held s)(l := False),
            ls_count := (ls_count s)(l := 1), ls_phase := (ls_phase s)(i := Waiting d l)\<rparr>)"

definition acquire_digest :: "nat \<Rightarrow> string \<Rightarrow> nat \<Rightarrow> lease_state \<Rightarrow> lease_state option" where
  "acquire_digest i d l s =
     (if ls_held s l then None
      else Some (s\<lparr>ls_held := (ls_held s)(l := True), ls_phase := (ls_phase s)(i := Leased d l)\<rparr>))"

text \<open>\<open>release\<close>: the digest's mutex is unlocked; then, under the store's mutex, its count sinks and the last caller deletes the entry.\<close>

definition unlock_digest :: "nat \<Rightarrow> string \<Rightarrow> nat \<Rightarrow> lease_state \<Rightarrow> lease_state" where
  "unlock_digest i d l s = s\<lparr>ls_held := (ls_held s)(l := False), ls_phase := (ls_phase s)(i := Leaving d l)\<rparr>"

definition leave_digest :: "nat \<Rightarrow> string \<Rightarrow> nat \<Rightarrow> lease_state \<Rightarrow> lease_state" where
  "leave_digest i d l s =
     (let n = ls_count s l - 1 in
      s\<lparr>ls_count := (ls_count s)(l := n), ls_locks := (if n = 0 then (ls_locks s)(d := None) else ls_locks s),
        ls_phase := (ls_phase s)(i := Outside)\<rparr>)"

inductive lease_step :: "lease_state \<Rightarrow> lease_state \<Rightarrow> bool" where
  enter: "ls_phase s i = Outside \<Longrightarrow> lease_step s (enter_digest i d s)"
| acquire: "ls_phase s i = Waiting d l \<Longrightarrow> acquire_digest i d l s = Some t \<Longrightarrow> lease_step s t"
| unlock: "ls_phase s i = Leased d l \<Longrightarrow> lease_step s (unlock_digest i d l s)"
| leave: "ls_phase s i = Leaving d l \<Longrightarrow> lease_step s (leave_digest i d l s)"

definition no_leases :: "lease_state \<Rightarrow> bool" where
  "no_leases s \<longleftrightarrow> ls_locks s = (\<lambda>_. None) \<and> ls_phase s = (\<lambda>_. Outside) \<and> (\<forall>l. ls_count s l = 0) \<and> (\<forall>l. \<not> ls_held s l)"

section \<open>The invariant\<close>

fun at_lock :: "string \<Rightarrow> nat \<Rightarrow> phase \<Rightarrow> bool" where
  "at_lock d l Outside \<longleftrightarrow> False"
| "at_lock d l (Waiting e k) \<longleftrightarrow> e = d \<and> k = l"
| "at_lock d l (Leased e k) \<longleftrightarrow> e = d \<and> k = l"
| "at_lock d l (Leaving e k) \<longleftrightarrow> e = d \<and> k = l"

definition users :: "nat \<Rightarrow> lease_state \<Rightarrow> nat set" where
  "users l s = {i. \<exists>d. at_lock d l (ls_phase s i)}"

definition lease_ok :: "lease_state \<Rightarrow> bool" where
  "lease_ok s \<longleftrightarrow>
     (\<forall>l. finite (users l s) \<and> ls_count s l = card (users l s)) \<and>
     (\<forall>i d l. at_lock d l (ls_phase s i) \<longrightarrow> ls_locks s d = Some l) \<and>
     (\<forall>d l. ls_locks s d = Some l \<longrightarrow> l < ls_next s \<and> users l s \<noteq> {}) \<and>
     (\<forall>d e l. ls_locks s d = Some l \<and> ls_locks s e = Some l \<longrightarrow> d = e) \<and>
     (\<forall>l. ls_held s l \<longleftrightarrow> (\<exists>i d. ls_phase s i = Leased d l)) \<and>
     (\<forall>i j d e l. ls_phase s i = Leased d l \<and> ls_phase s j = Leased e l \<longrightarrow> i = j)"

lemma at_phase: "ls_phase s i \<in> {Waiting d l, Leased d l, Leaving d l} \<Longrightarrow> at_lock d l (ls_phase s i)"
  by auto

lemma users_set:
  "users k (s\<lparr>ls_phase := (ls_phase s)(i := p)\<rparr>) = (if \<exists>d. at_lock d k p then insert i (users k s) else users k s - {i})"
  by (auto simp: users_def)

lemma lease_parts:
  assumes "lease_ok s"
  shows "finite (users l s)" "ls_count s l = card (users l s)"
    and "at_lock d l (ls_phase s i) \<Longrightarrow> ls_locks s d = Some l"
    and "ls_locks s d = Some l \<Longrightarrow> l < ls_next s" "ls_locks s d = Some l \<Longrightarrow> users l s \<noteq> {}"
    and "ls_locks s d = Some l \<Longrightarrow> ls_locks s e = Some l \<Longrightarrow> d = e"
    and "ls_held s l \<longleftrightarrow> (\<exists>i d. ls_phase s i = Leased d l)"
    and "ls_phase s i = Leased d l \<Longrightarrow> ls_phase s j = Leased e l \<Longrightarrow> i = j"
  using assms unfolding lease_ok_def by blast+

lemma lease_okI:
  assumes "\<And>l. finite (users l s)" and "\<And>l. ls_count s l = card (users l s)"
    and "\<And>i d l. at_lock d l (ls_phase s i) \<Longrightarrow> ls_locks s d = Some l"
    and "\<And>d l. ls_locks s d = Some l \<Longrightarrow> l < ls_next s" and "\<And>d l. ls_locks s d = Some l \<Longrightarrow> users l s \<noteq> {}"
    and "\<And>d e l. ls_locks s d = Some l \<Longrightarrow> ls_locks s e = Some l \<Longrightarrow> d = e"
    and "\<And>l. ls_held s l \<longleftrightarrow> (\<exists>i d. ls_phase s i = Leased d l)"
    and "\<And>i j d e l. ls_phase s i = Leased d l \<Longrightarrow> ls_phase s j = Leased e l \<Longrightarrow> i = j"
  shows "lease_ok s"
  using assms unfolding lease_ok_def by blast

lemma at_unique: "lease_ok s \<Longrightarrow> at_lock d l (ls_phase s i) \<Longrightarrow> at_lock e l (ls_phase s j) \<Longrightarrow> d = e"
  by (rule lease_parts(6)[OF _ lease_parts(3) lease_parts(3)])

text \<open>A caller that stays at its mutex.\<close>

lemma move_ok:
  assumes ok: "lease_ok s" and a: "at_lock d l (ls_phase s i)" and p: "p = Leased d l \<or> p = Leaving d l"
    and free: "p = Leased d l \<Longrightarrow> \<not> ls_held s l" and mine: "p = Leaving d l \<Longrightarrow> ls_phase s i = Leased d l"
  shows "lease_ok (s\<lparr>ls_held := (ls_held s)(l := (p = Leased d l)), ls_phase := (ls_phase s)(i := p)\<rparr>)" (is "lease_ok ?t")
proof -
  have at: "at_lock e k (ls_phase ?t j) \<longleftrightarrow> at_lock e k (ls_phase s j)" for e k j using a p by (cases "ls_phase s i") auto
  then have u: "users k ?t = users k s" for k by (simp add: users_def)
  have other: "ls_phase s j \<noteq> Leased e l" if "j \<noteq> i" for j e
    using p free mine lease_parts(7)[OF ok, of l] lease_parts(8)[OF ok, of j e l i d] that by auto
  have "\<forall>k. ls_held ?t k \<longleftrightarrow> (\<exists>j e. ls_phase ?t j = Leased e k)"
  proof
    fix k
    show "ls_held ?t k \<longleftrightarrow> (\<exists>j e. ls_phase ?t j = Leased e k)"
    proof (cases "k = l")
      case True
      then show ?thesis using p other by auto
    next
      case False
      have "(\<exists>e. ls_phase s i = Leased e k) = False" using a False by (cases "ls_phase s i") auto
      then have "(\<exists>j e. ls_phase ?t j = Leased e k) \<longleftrightarrow> (\<exists>j e. ls_phase s j = Leased e k)" using p False by auto
      then show ?thesis using lease_parts(7)[OF ok, of k] False by simp
    qed
  qed
  moreover have "j = m" if h: "ls_phase ?t j = Leased e k" "ls_phase ?t m = Leased f k" for j m e f k
  proof (cases "k = l")
    case True
    then show ?thesis using h other[of j e] other[of m f] by (cases "j = i"; cases "m = i") simp_all
  next
    case False
    then have "ls_phase s j = Leased e k" "ls_phase s m = Leased f k" using h p a by (auto split: if_splits)
    then show ?thesis by (rule lease_parts(8)[OF ok])
  qed
  moreover have "finite (users k ?t)" "ls_count ?t k = card (users k ?t)" "ls_locks ?t e = Some k \<Longrightarrow> users k ?t \<noteq> {}" for k e
    unfolding u using lease_parts(1,2,5)[OF ok] by simp_all
  moreover have "at_lock e k (ls_phase ?t j) \<Longrightarrow> ls_locks ?t e = Some k" for e k j unfolding at using lease_parts(3)[OF ok] by simp
  moreover have "ls_locks ?t e = Some k \<Longrightarrow> k < ls_next ?t" "ls_locks ?t e = Some k \<Longrightarrow> ls_locks ?t f = Some k \<Longrightarrow> e = f" for e f k
    using lease_parts(4,6)[OF ok] by simp_all
  ultimately show ?thesis by (intro lease_okI) blast+
qed

lemma acquire_ok: "lease_ok s \<Longrightarrow> ls_phase s i = Waiting d l \<Longrightarrow> acquire_digest i d l s = Some t \<Longrightarrow> lease_ok t"
  using move_ok[of s d l i "Leased d l"] by (auto simp: acquire_digest_def split: if_splits)

lemma unlock_ok: "lease_ok s \<Longrightarrow> ls_phase s i = Leased d l \<Longrightarrow> lease_ok (unlock_digest i d l s)"
  using move_ok[of s d l i "Leaving d l"] by (auto simp: unlock_digest_def)

lemma enter_ok:
  assumes ok: "lease_ok s" and i: "ls_phase s i = Outside"
  shows "lease_ok (enter_digest i d s)"
proof -
  have out: "i \<notin> users l s" for l using i by (simp add: users_def)
  show ?thesis
  proof (cases "ls_locks s d")
    case (Some l)
    let ?t = "s\<lparr>ls_count := (ls_count s)(l := Suc (ls_count s l)), ls_phase := (ls_phase s)(i := Waiting d l)\<rparr>"
    have u: "users k ?t = (if k = l then insert i (users k s) else users k s)" for k using out i by (auto simp: users_def)
    have at: "at_lock e k (ls_phase ?t j) \<longrightarrow> ls_locks s e = Some k" for e k j using Some lease_parts(3)[OF ok] by auto
    have le: "ls_phase ?t j = Leased e k \<longleftrightarrow> ls_phase s j = Leased e k" for j e k using i by auto
    have "lease_ok ?t"
    proof (rule lease_okI)
      show "finite (users k ?t)" "ls_count ?t k = card (users k ?t)" for k unfolding u using out lease_parts(1,2)[OF ok] by simp_all
      show "ls_held ?t k \<longleftrightarrow> (\<exists>j e. ls_phase ?t j = Leased e k)" for k unfolding le using lease_parts(7)[OF ok, of k] by simp
      show "j = m" if "ls_phase ?t j = Leased e k" "ls_phase ?t m = Leased f k" for j m e f k
        using that unfolding le by (rule lease_parts(8)[OF ok])
      show "users k ?t \<noteq> {}" if "ls_locks ?t e = Some k" for e k using lease_parts(5)[OF ok, of e k] that unfolding u by auto
    qed (use at lease_parts(4,6)[OF ok] in simp_all)
    then show ?thesis by (simp add: enter_digest_def Some)
  next
    case None
    let ?l = "ls_next s"
    let ?t = "s\<lparr>ls_locks := (ls_locks s)(d := Some ?l), ls_next := Suc ?l, ls_held := (ls_held s)(?l := False),
            ls_count := (ls_count s)(?l := 1), ls_phase := (ls_phase s)(i := Waiting d ?l)\<rparr>"
    have new: "\<not> at_lock e ?l (ls_phase s j)" for e j using lease_parts(3,4)[OF ok] by fastforce
    then have none: "users ?l s = {}" by (simp add: users_def)
    have u: "users k ?t = (if k = ?l then {i} else users k s)" for k using new i by (auto simp: users_def)
    have old: "ls_locks s e \<noteq> Some ?l" for e using lease_parts(5)[OF ok] none by blast
    have at: "at_lock e k (ls_phase ?t j) \<longrightarrow> ls_locks ?t e = Some k" for e k j using None lease_parts(3)[OF ok, of e k j] by auto
    have le: "ls_phase ?t j = Leased e k \<longleftrightarrow> ls_phase s j = Leased e k" for j e k using i by auto
    have nl: "ls_phase s j \<noteq> Leased e ?l" for j e using new[of e j] by auto
    have lt: "ls_locks s e = Some k \<Longrightarrow> k < Suc ?l" for e k using lease_parts(4)[OF ok] less_Suc_eq by blast
    have "lease_ok ?t"
    proof (rule lease_okI)
      show "finite (users k ?t)" "ls_count ?t k = card (users k ?t)" for k unfolding u using lease_parts(1,2)[OF ok] by simp_all
      show "ls_locks ?t e = Some k" if "at_lock e k (ls_phase ?t j)" for j e k using at that by blast
      show "k < ls_next ?t" if "ls_locks ?t e = Some k" for e k using that lt by (simp split: if_splits)
      show "users k ?t \<noteq> {}" if "ls_locks ?t e = Some k" for e k
        using lease_parts(5)[OF ok, of e k] that unfolding u by (simp split: if_splits)
      show "e = f" if "ls_locks ?t e = Some k" "ls_locks ?t f = Some k" for e f k
        using that old lease_parts(6)[OF ok, of e k f] by (simp split: if_splits)
      show "ls_held ?t k \<longleftrightarrow> (\<exists>j e. ls_phase ?t j = Leased e k)" for k unfolding le using lease_parts(7)[OF ok, of k] nl by simp
      show "j = m" if "ls_phase ?t j = Leased e k" "ls_phase ?t m = Leased f k" for j m e f k
        using that unfolding le by (rule lease_parts(8)[OF ok])
    qed
    then show ?thesis by (simp add: enter_digest_def None Let_def)
  qed
qed

lemma leave_ok:
  assumes ok: "lease_ok s" and i: "ls_phase s i = Leaving d l"
  shows "lease_ok (leave_digest i d l s)"
proof -
  let ?t = "leave_digest i d l s"
  have a: "at_lock d l (ls_phase s i)" using i by simp
  have mem: "i \<in> users l s" using a by (auto simp: users_def)
  have ph: "ls_phase ?t = (ls_phase s)(i := Outside)" by (simp add: leave_digest_def Let_def)
  have u: "users k ?t = users k s - {i}" for k unfolding users_def ph by auto
  have u': "users k ?t = users k s" if "k \<noteq> l" for k using that i unfolding users_def ph by auto
  have c: "ls_count ?t k = card (users k ?t)" for k
    using lease_parts(1,2)[OF ok] mem u[of l] u'[of k] by (cases "k = l") (simp_all add: leave_digest_def Let_def)
  have zero: "ls_count s l - 1 = 0 \<longleftrightarrow> users l ?t = {}"
  proof -
    have k: "ls_count s l - 1 = ls_count ?t l" by (simp add: leave_digest_def Let_def)
    have f: "finite (users l ?t)" using lease_parts(1)[OF ok, of l] unfolding u by simp
    show ?thesis unfolding k c using f by (rule card_0_eq)
  qed
  have locks: "ls_locks ?t = (if users l ?t = {} then (ls_locks s)(d := None) else ls_locks s)"
    using zero by (simp add: leave_digest_def Let_def)
  have dl: "ls_locks s d = Some l" by (rule lease_parts(3)[OF ok a])
  have at: "ls_locks ?t e = Some k" if h: "at_lock e k (ls_phase ?t j)" for e k j
  proof -
    have s: "at_lock e k (ls_phase s j)" using h unfolding ph by (auto split: if_splits)
    have e: "ls_locks s e = Some k" by (rule lease_parts(3)[OF ok s])
    have "users k ?t \<noteq> {}" using h by (auto simp: users_def)
    then show ?thesis using e dl by (auto simp: locks)
  qed
  have sub: "ls_locks s e = Some k" if "ls_locks ?t e = Some k" for e k using that by (auto simp: locks split: if_splits)
  have live: "users k ?t \<noteq> {}" if h: "ls_locks ?t e = Some k" for e k
  proof (cases "k = l")
    case True
    then have "e = d" using lease_parts(6)[OF ok sub[OF h]] dl by simp
    then show ?thesis using h True by (auto simp: locks split: if_splits)
  next
    case False
    then show ?thesis using lease_parts(5)[OF ok sub[OF h]] u' by simp
  qed
  have le: "ls_phase ?t j = Leased e k \<longleftrightarrow> ls_phase s j = Leased e k" for j e k using i unfolding ph by auto
  have frame: "ls_next ?t = ls_next s" "ls_held ?t = ls_held s" by (simp_all add: leave_digest_def Let_def)
  show ?thesis
  proof (rule lease_okI)
    show "finite (users k ?t)" for k using lease_parts(1)[OF ok, of k] unfolding u by simp
    show "ls_held ?t k \<longleftrightarrow> (\<exists>i d. ls_phase ?t i = Leased d k)" for k unfolding frame le by (rule lease_parts(7)[OF ok])
    show "k < ls_next ?t" if "ls_locks ?t e = Some k" for e k unfolding frame by (rule lease_parts(4)[OF ok sub[OF that]])
    show "e = f" if "ls_locks ?t e = Some k" "ls_locks ?t f = Some k" for e f k
      by (rule lease_parts(6)[OF ok sub[OF that(1)] sub[OF that(2)]])
    show "j = m" if "ls_phase ?t j = Leased e k" "ls_phase ?t m = Leased f k" for j m e f k
      using that unfolding le by (rule lease_parts(8)[OF ok])
  qed (rule c, rule at, assumption, rule live, assumption)
qed

lemma lease_step_ok: "lease_step s t \<Longrightarrow> lease_ok s \<Longrightarrow> lease_ok t"
  by (induction rule: lease_step.induct) (auto intro: enter_ok acquire_ok unlock_ok leave_ok)

lemma no_leases_ok: "no_leases s \<Longrightarrow> lease_ok s"
  by (simp add: no_leases_def lease_ok_def users_def)

interpretation leases: invariant_system no_leases lease_step lease_ok
  by unfold_locales (auto intro: no_leases_ok lease_step_ok)

section \<open>The properties\<close>

text \<open>C20: digest leases exclude each other, and none is forgotten.  However any number of callers interleave, two of them never hold a
  lease of the same digest at a time; a caller that waits for a digest nobody holds can take it; and when everyone has left, the
  map of mutexes is empty.\<close>
theorem lease_exclusive:
  assumes "reach no_leases lease_step s"
  shows "(\<forall>i j d l k. ls_phase s i = Leased d l \<and> ls_phase s j = Leased d k \<longrightarrow> i = j) \<and>
    (\<forall>i d l. ls_phase s i = Waiting d l \<and> (\<forall>j k. ls_phase s j \<noteq> Leased d k) \<longrightarrow> acquire_digest i d l s \<noteq> None) \<and>
    ((\<forall>i. ls_phase s i = Outside) \<longrightarrow> (\<forall>d. ls_locks s d = None))"
proof -
  have ok: "lease_ok s" by (rule leases.reach_inv[OF assms])
  have one: "i = j" if h: "ls_phase s i = Leased d l" "ls_phase s j = Leased d k" for i j d l k
  proof -
    have "l = k" using lease_parts(3)[OF ok, of d l i] lease_parts(3)[OF ok, of d k j] h by simp
    then show ?thesis using lease_parts(8)[OF ok, of i d k j d] h by simp
  qed
  have free: "acquire_digest i d l s \<noteq> None" if h: "ls_phase s i = Waiting d l" "\<forall>j k. ls_phase s j \<noteq> Leased d k" for i d l
  proof -
    have "\<not> ls_held s l"
    proof
      assume "ls_held s l"
      then obtain j e where j: "ls_phase s j = Leased e l" using lease_parts(7)[OF ok, of l] by blast
      then have "e = d" using at_unique[OF ok, of e l j d i] h(1) by simp
      then show False using j h(2) by blast
    qed
    then show ?thesis by (simp add: acquire_digest_def)
  qed
  have gone: "ls_locks s d = None" if h: "\<forall>i. ls_phase s i = Outside" for d
  proof (rule ccontr)
    assume "ls_locks s d \<noteq> None"
    then obtain l where "ls_locks s d = Some l" by blast
    then have "users l s \<noteq> {}" by (rule lease_parts(5)[OF ok])
    then show False using h by (simp add: users_def)
  qed
  show ?thesis
  proof (intro conjI allI impI)
    show "i = j" if "ls_phase s i = Leased d l \<and> ls_phase s j = Leased d k" for i j d l k
      by (rule one[OF conjunct1[OF that] conjunct2[OF that]])
    show "acquire_digest i d l s \<noteq> None" if "ls_phase s i = Waiting d l \<and> (\<forall>j k. ls_phase s j \<noteq> Leased d k)" for i d l
      by (rule free[OF conjunct1[OF that] conjunct2[OF that]])
  qed (rule gone)
qed

text \<open>Two callers of one digest: the first holds it, the second waits.\<close>

definition idle_leases :: lease_state where
  "idle_leases = \<lparr>ls_locks = (\<lambda>_. None), ls_count = (\<lambda>_. 0), ls_held = (\<lambda>_. False), ls_next = 0, ls_phase = (\<lambda>_. Outside)\<rparr>"

definition busy_leases :: lease_state where
  "busy_leases = \<lparr>ls_locks = (\<lambda>_. None)(''d'' := Some 0), ls_count = (\<lambda>_. 0)(0 := 2), ls_held = (\<lambda>_. False)(0 := True), ls_next = 1,
     ls_phase = (\<lambda>_. Outside)(0 := Leased ''d'' 0, 1 := Waiting ''d'' 0)\<rparr>"

theorem lease_exclusive_witness: "\<not> (\<exists>i. i \<noteq> 0 \<and> (\<exists>k. ls_phase busy_leases i = Leased ''d'' k))"
proof -
  have "reach no_leases lease_step idle_leases" by (rule reach_init) (simp add: no_leases_def idle_leases_def)
  then have "reach no_leases lease_step (enter_digest 0 ''d'' idle_leases)"
    by (rule reach_step) (rule enter, simp add: idle_leases_def)
  then have "reach no_leases lease_step (enter_digest 1 ''d'' (enter_digest 0 ''d'' idle_leases))"
    by (rule reach_step) (rule enter, simp add: idle_leases_def enter_digest_def)
  then have "reach no_leases lease_step busy_leases"
    by (rule reach_step) (rule acquire[of _ 0 "''d''" 0];
      simp add: idle_leases_def busy_leases_def enter_digest_def acquire_digest_def fun_eq_iff)
  from conjunct1[OF lease_exclusive[OF this]] have one: "ls_phase busy_leases i = Leased ''d'' k \<Longrightarrow>
      ls_phase busy_leases 0 = Leased ''d'' 0 \<Longrightarrow> i = 0" for i k by blast
  have "ls_phase busy_leases 0 = Leased ''d'' 0" by (simp add: busy_leases_def)
  then show ?thesis using one by blast
qed

end
