(* ===== verification/Jobs_Lifecycle.thy ===== *)
theory Jobs_Lifecycle
  imports Jobs
begin

text \<open>
  The abstract specification of the scheduler and its refinement.  \<open>lifecycle\<close> is the state
  machine of one job row; every operation of theory Jobs moves every row along it and may append
  fresh queued rows (\<open>grows\<close>).  From this follow the row invariant \<open>job_ok\<close>, the database
  invariant \<open>db_ok\<close>, the growth of attempt counts and the finality of terminal states, in every
  state reachable by the step relation \<open>job_step\<close>.
\<close>

section \<open>The lifecycle of one job\<close>

definition terminal :: "job \<Rightarrow> bool" where
  "terminal j \<longleftrightarrow> job_state j = Succeeded \<or> job_state j = Failed \<or> job_state j = Canceled"

definition retry_state :: "job \<Rightarrow> job_state \<Rightarrow> bool" where
  "retry_state j st \<longleftrightarrow> st = Failed \<or> (st = Queued \<and> attempt_count j < max_attempts j)"

definition beat_row :: "nat \<Rightarrow> int \<Rightarrow> nat \<Rightarrow> job \<Rightarrow> job" where
  "beat_row expires progress now j =
     j\<lparr>job_state := Running, lease_expires_at := Some expires, progress_percent := progress,
       updated_at := Some now\<rparr>"

inductive lifecycle :: "job \<Rightarrow> job \<Rightarrow> bool" where
  claim: "job_state j = Queued \<Longrightarrow> attempt_count j < max_attempts j \<Longrightarrow> \<not> blank owner \<Longrightarrow>
     thash \<noteq> [] \<Longrightarrow> lifecycle j (lease_row owner thash now expires j)"
| beat: "active j \<Longrightarrow> 0 \<le> progress \<Longrightarrow> progress \<le> 100 \<Longrightarrow>
     lifecycle j (beat_row expires progress now j)"
| succeed: "active j \<Longrightarrow> lifecycle j (succeed_row now j)"
| fail: "active j \<Longrightarrow> retry_state j st \<Longrightarrow> lifecycle j (fail_row st available code now j)"
| expire: "active j \<Longrightarrow> retry_state j st \<Longrightarrow> lifecycle j (expire_row st available now j)"
| cancel_queued: "job_state j = Queued \<Longrightarrow> lifecycle j (cancel_queued_row code now j)"
| cancel_active: "active j \<Longrightarrow> lifecycle j (cancel_active_row code now j)"
| dependency: "job_state j = Queued \<Longrightarrow> lifecycle j (fail_dependency now j)"

lemmas row_defs = lease_row_def beat_row_def succeed_row_def fail_row_def expire_row_def
  cancel_queued_row_def cancel_active_row_def fail_dependency_def

lemmas state_defs = active_def terminal_def retry_state_def

text \<open>What no transition changes.\<close>

definition same_identity :: "job \<Rightarrow> job \<Rightarrow> bool" where
  "same_identity j k \<longleftrightarrow>
     job_id k = job_id j \<and> job_type k = job_type j \<and> execution_target k = execution_target j \<and>
     owner_type k = owner_type j \<and> owner_id k = owner_id j \<and> idempotency_key k = idempotency_key j \<and>
     input_hash k = input_hash j \<and> payload_json k = payload_json j \<and> priority k = priority j \<and>
     max_attempts k = max_attempts j \<and> created_at k = created_at j"

lemma lifecycle_identity: "lifecycle j k \<Longrightarrow> same_identity j k"
  by (cases rule: lifecycle.cases) (auto simp: row_defs same_identity_def)

lemma lifecycle_attempts:
  "lifecycle j k \<Longrightarrow> attempt_count k = attempt_count j \<or>
     (attempt_count k = attempt_count j + 1 \<and> job_state j = Queued \<and> job_state k = Leased)"
  by (cases rule: lifecycle.cases) (auto simp: row_defs)

lemma terminal_not_active: "terminal j \<Longrightarrow> \<not> active j \<and> job_state j \<noteq> Queued"
  by (auto simp: state_defs)

lemma lifecycle_not_terminal: "lifecycle j k \<Longrightarrow> \<not> terminal j"
  by (cases rule: lifecycle.cases) (auto simp: state_defs)

lemma lifecycle_rtrancl_identity: "lifecycle\<^sup>*\<^sup>* j k \<Longrightarrow> same_identity j k"
proof (induction rule: rtranclp_induct)
  case base
  then show ?case by (simp add: same_identity_def)
next
  case (step k l)
  then show ?case using lifecycle_identity[of k l] by (simp add: same_identity_def)
qed

lemma lifecycle_rtrancl_terminal: "lifecycle\<^sup>*\<^sup>* j k \<Longrightarrow> terminal j \<Longrightarrow> k = j"
  by (erule converse_rtranclpE) (auto dest: lifecycle_not_terminal)

lemma lifecycle_rtrancl_attempts: "lifecycle\<^sup>*\<^sup>* j k \<Longrightarrow> attempt_count j \<le> attempt_count k"
proof (induction rule: rtranclp_induct)
  case base
  then show ?case by simp
next
  case (step k l)
  then show ?case using lifecycle_attempts[of k l] by auto
qed

section \<open>The row invariant\<close>

definition job_ok :: "job \<Rightarrow> bool" where
  "job_ok j \<longleftrightarrow>
     job_id j \<noteq> [] \<and> job_type j \<in> set job_types \<and>
     (execution_target j = TargetServer \<or> execution_target j = TargetMacOS) \<and>
     1 \<le> max_attempts j \<and> max_attempts j \<le> 3 \<and>
     0 \<le> attempt_count j \<and> attempt_count j \<le> max_attempts j \<and>
     0 \<le> progress_percent j \<and> progress_percent j \<le> 100 \<and>
     (active j \<longrightarrow> lease_token_hash j \<noteq> [] \<and> lease_expires_at j \<noteq> None \<and> \<not> blank (lease_owner j)
         \<and> 1 \<le> attempt_count j) \<and>
     (job_state j = Queued \<longrightarrow> lease_expires_at j = None) \<and>
     (job_state j = Succeeded \<longrightarrow>
         progress_percent j = 100 \<and> error_code j = [] \<and> lease_expires_at j = None) \<and>
     (terminal j \<longleftrightarrow> completed_at j \<noteq> None) \<and>
     (started_at j = None \<longleftrightarrow> attempt_count j = 0) \<and>
     (attempt_count j = 0 \<longrightarrow> lease_token_hash j = [] \<and> lease_owner j = [])"

definition new_row :: "job \<Rightarrow> bool" where
  "new_row j \<longleftrightarrow> job_ok j \<and> job_state j = Queued \<and> attempt_count j = 0"

lemma lifecycle_job_ok: "lifecycle j k \<Longrightarrow> job_ok j \<Longrightarrow> job_ok k"
proof (induction rule: lifecycle.induct)
  case (claim j owner thash now expires)
  then show ?case by (auto simp: job_ok_def lease_row_def state_defs)
next
  case (beat j progress expires now)
  then show ?case by (auto simp: job_ok_def beat_row_def state_defs)
next
  case (succeed j now)
  then show ?case by (auto simp: job_ok_def succeed_row_def state_defs)
next
  case (fail j st available code now)
  then show ?case by (auto simp: job_ok_def fail_row_def state_defs)
next
  case (expire j st available now)
  then show ?case by (auto simp: job_ok_def expire_row_def state_defs)
next
  case (cancel_queued j code now)
  then show ?case by (auto simp: job_ok_def cancel_queued_row_def state_defs)
next
  case (cancel_active j code now)
  then show ?case by (auto simp: job_ok_def cancel_active_row_def state_defs)
next
  case (dependency j now)
  then show ?case by (auto simp: job_ok_def fail_dependency_def state_defs)
qed

lemma lifecycle_rtrancl_job_ok: "lifecycle\<^sup>*\<^sup>* j k \<Longrightarrow> job_ok j \<Longrightarrow> job_ok k"
  by (induction rule: rtranclp_induct) (auto intro: lifecycle_job_ok)

section \<open>The lifecycle of the table\<close>

text \<open>A row is \<open>born\<close> when it descends from a freshly enqueued one.\<close>

definition born :: "job \<Rightarrow> bool" where
  "born j \<longleftrightarrow> (\<exists>n. new_row n \<and> lifecycle\<^sup>*\<^sup>* n j)"

definition grows :: "job list \<Rightarrow> job list \<Rightarrow> bool" where
  "grows rows rows' \<longleftrightarrow>
     (\<exists>old fresh. rows' = old @ fresh \<and> list_all2 lifecycle\<^sup>*\<^sup>* rows old \<and> (\<forall>r \<in> set fresh. born r))"

lemma list_all2_rtranclp_refl: "list_all2 R\<^sup>*\<^sup>* xs xs"
  by (simp add: list_all2_refl)

lemma grows_refl [simp]: "grows rows rows"
  unfolding grows_def by (rule exI[of _ rows], rule exI[of _ "[]"]) (simp add: list_all2_rtranclp_refl)

lemma grows_append: "new_row r \<Longrightarrow> grows rows (rows @ [r])"
  unfolding grows_def born_def
  by (rule exI[of _ rows], rule exI[of _ "[r]"]) (auto simp: list_all2_rtranclp_refl)

lemma born_lifecycle: "born j \<Longrightarrow> lifecycle\<^sup>*\<^sup>* j k \<Longrightarrow> born k"
  by (auto simp: born_def intro: rtranclp_trans)

lemma list_all2_rtranclp_trans:
  "list_all2 R\<^sup>*\<^sup>* xs ys \<Longrightarrow> list_all2 R\<^sup>*\<^sup>* ys zs \<Longrightarrow> list_all2 R\<^sup>*\<^sup>* xs zs"
  by (rule list_all2_trans[of "R\<^sup>*\<^sup>*" "R\<^sup>*\<^sup>*"]) (auto intro: rtranclp_trans)

lemma grows_trans:
  assumes "grows a b" and "grows b c"
  shows "grows a c"
proof -
  obtain o1 f1 where 1: "b = o1 @ f1" "list_all2 lifecycle\<^sup>*\<^sup>* a o1" "\<forall>r \<in> set f1. born r"
    using assms(1) by (auto simp: grows_def)
  obtain o2 f2 where 2: "c = o2 @ f2" "list_all2 lifecycle\<^sup>*\<^sup>* b o2" "\<forall>r \<in> set f2. born r"
    using assms(2) by (auto simp: grows_def)
  from 2(2) 1(1) obtain p q where o2: "o2 = p @ q" "list_all2 lifecycle\<^sup>*\<^sup>* o1 p" "list_all2 lifecycle\<^sup>*\<^sup>* f1 q"
    by (auto simp: list_all2_append1)
  have "\<forall>r \<in> set q. born r"
    using o2(3) 1(3)
    by (auto simp: list_all2_conv_all_nth in_set_conv_nth[of _ q]) (metis born_lifecycle nth_mem)
  with 2(3) have "\<forall>r \<in> set (q @ f2). born r" by auto
  moreover have "list_all2 lifecycle\<^sup>*\<^sup>* a p"
    by (rule list_all2_rtranclp_trans[OF 1(2) o2(2)])
  ultimately show ?thesis
    using 2(1) o2(1) unfolding grows_def by (intro exI[of _ p] exI[of _ "q @ f2"]) simp
qed

lemma grows_update_where:
  assumes "\<And>r. r \<in> set rows \<Longrightarrow> P r \<Longrightarrow> lifecycle r (f r)"
  shows "grows rows (update_where P f rows)"
proof -
  have "list_all2 lifecycle\<^sup>*\<^sup>* rows (update_where P f rows)"
    using assms by (auto simp: update_where_def list_all2_conv_all_nth)
  then show ?thesis unfolding grows_def by (intro exI[of _ "update_where P f rows"] exI[of _ "[]"]) simp
qed

lemma born_job_ok: "born j \<Longrightarrow> job_ok j"
  by (auto simp: born_def new_row_def intro: lifecycle_rtrancl_job_ok)

lemma grows_job_ok:
  assumes "grows a b" and "\<forall>j \<in> set a. job_ok j"
  shows "\<forall>j \<in> set b. job_ok j"
proof -
  obtain old fresh where b: "b = old @ fresh" "list_all2 lifecycle\<^sup>*\<^sup>* a old" "\<forall>r \<in> set fresh. born r"
    using assms(1) by (auto simp: grows_def)
  have "\<forall>j \<in> set old. job_ok j"
    using b(2) assms(2)
    by (auto simp: list_all2_conv_all_nth in_set_conv_nth) (metis lifecycle_rtrancl_job_ok nth_mem)
  with b(1,3) show ?thesis by (auto intro: born_job_ok)
qed

lemma grows_ids:
  assumes "grows a b"
  shows "\<exists>new. map job_id b = map job_id a @ new"
proof -
  obtain old fresh where b: "b = old @ fresh" "list_all2 lifecycle\<^sup>*\<^sup>* a old"
    using assms by (auto simp: grows_def)
  have "map job_id old = map job_id a"
    using b(2)
    by (intro nth_equalityI)
      (auto simp: list_all2_conv_all_nth dest!: lifecycle_rtrancl_identity simp: same_identity_def)
  with b(1) show ?thesis by auto
qed

text \<open>Following one job by its id through a growing table.\<close>

lemma grows_find:
  assumes "grows a b" and "find_by job_id v a = Some j"
  shows "\<exists>k. find_by job_id v b = Some k \<and> lifecycle\<^sup>*\<^sup>* j k"
proof -
  obtain old fresh where b: "b = old @ fresh" "list_all2 lifecycle\<^sup>*\<^sup>* a old"
    using assms(1) by (auto simp: grows_def)
  have "\<exists>k. find_by job_id v old = Some k \<and> lifecycle\<^sup>*\<^sup>* j k"
    using b(2) assms(2)
  proof (induction rule: list_all2_induct)
    case Nil
    then show ?case by (simp add: find_by_def)
  next
    case (Cons x xs y ys)
    have "job_id y = job_id x"
      using lifecycle_rtrancl_identity[OF Cons(1)] by (simp add: same_identity_def)
    with Cons show ?case by (auto simp: find_by_def split: if_splits)
  qed
  with b(1) show ?thesis by (auto simp: find_by_append)
qed

end
