(* ===== verification/Jobs_Steps.thy ===== *)
theory Jobs_Steps
  imports Jobs_Lifecycle
begin

text \<open>
  Every operation of theory Jobs refines the lifecycle, and the database invariant \<open>db_ok\<close>
  holds in every state reachable by \<open>job_step\<close>.
\<close>

section \<open>The database invariant\<close>

definition job_ids :: "jobs_db \<Rightarrow> string set" where
  "job_ids db = job_id ` set (job_table db)"

definition db_ok :: "jobs_db \<Rightarrow> bool" where
  "db_ok db \<longleftrightarrow>
     distinct (map job_id (job_table db)) \<and> distinct (map idempotency_key (job_table db)) \<and>
     (\<forall>j \<in> set (job_table db). job_ok j) \<and>
     (\<forall>e \<in> set (job_deps db). fst e \<in> job_ids db \<and> snd e \<in> job_ids db) \<and>
     acyclic (set (job_deps db))"

text \<open>A change of the table that only moves existing rows along their lifecycle.\<close>

definition table_step :: "jobs_db \<Rightarrow> jobs_db \<Rightarrow> bool" where
  "table_step db db' \<longleftrightarrow>
     job_deps db' = job_deps db \<and> list_all2 lifecycle\<^sup>*\<^sup>* (job_table db) (job_table db')"

lemma table_step_refl [simp]: "table_step db db"
  by (simp add: table_step_def list_all2_rtranclp_refl)

lemma table_step_trans: "table_step a b \<Longrightarrow> table_step b c \<Longrightarrow> table_step a c"
  by (auto simp: table_step_def intro: list_all2_rtranclp_trans)

lemma table_step_grows: "table_step a b \<Longrightarrow> grows (job_table a) (job_table b)"
  unfolding table_step_def grows_def by (intro exI[of _ "job_table b"] exI[of _ "[]"]) simp

lemma table_step_update:
  assumes "\<And>r. r \<in> set (job_table db) \<Longrightarrow> P r \<Longrightarrow> lifecycle r (f r)"
  shows "table_step db (db\<lparr>job_table := update_where P f (job_table db)\<rparr>)"
  using assms by (auto simp: table_step_def update_where_def list_all2_conv_all_nth)

lemma list_all2_map_eq:
  assumes "list_all2 R xs ys" and "\<And>x y. R x y \<Longrightarrow> f y = f x"
  shows "map f ys = map f xs"
  using assms by (induction rule: list_all2_induct) auto

lemma table_step_keys:
  assumes "table_step a b"
  shows "map job_id (job_table b) = map job_id (job_table a)"
    and "map idempotency_key (job_table b) = map idempotency_key (job_table a)"
    and "job_ids b = job_ids a"
proof -
  have l: "list_all2 lifecycle\<^sup>*\<^sup>* (job_table a) (job_table b)" using assms by (simp add: table_step_def)
  show ids: "map job_id (job_table b) = map job_id (job_table a)"
    by (rule list_all2_map_eq[OF l]) (auto dest: lifecycle_rtrancl_identity simp: same_identity_def)
  show "map idempotency_key (job_table b) = map idempotency_key (job_table a)"
    by (rule list_all2_map_eq[OF l]) (auto dest: lifecycle_rtrancl_identity simp: same_identity_def)
  show "job_ids b = job_ids a"
    using arg_cong[OF ids, of set] by (simp add: job_ids_def)
qed

lemma db_ok_table_step: "table_step a b \<Longrightarrow> db_ok a \<Longrightarrow> db_ok b"
  using table_step_keys[of a b] grows_job_ok[OF table_step_grows, of a b]
  by (simp add: db_ok_def table_step_def)

section \<open>Operations on existing rows\<close>

lemma reconcile_table_step: "table_step db (reconcileDependencyFailuresTx now db)"
proof (induction now db rule: reconcileDependencyFailuresTx.induct)
  case (1 now db)
  have "table_step db (reconcile_pass now db)"
    unfolding reconcile_pass_def
    by (rule table_step_update) (auto simp: dep_failed_def intro: lifecycle.dependency)
  with 1 show ?case
    by (auto simp: reconcileDependencyFailuresTx.simps[of now db] intro: table_step_trans)
qed

lemma take_lease_table_step:
  assumes "take_lease guard owner token thash now expires jid db = (r, db')"
    and "\<And>j. guard j \<Longrightarrow> job_state j = Queued \<and> attempt_count j < max_attempts j"
    and "\<not> blank owner" and "thash \<noteq> []"
  shows "table_step db db'"
proof -
  let ?hit = "\<lambda>j. job_id j = jid \<and> guard j"
  have "db' = db\<lparr>job_table := update_where ?hit (lease_row owner thash now expires) (job_table db)\<rparr>"
    using assms(1) by (auto simp: take_lease_def Let_def split: if_splits option.splits)
  moreover have "table_step db
      (db\<lparr>job_table := update_where ?hit (lease_row owner thash now expires) (job_table db)\<rparr>)"
    by (rule table_step_update) (use assms(2-4) in \<open>auto intro: lifecycle.claim\<close>)
  ultimately show ?thesis by simp
qed

lemma claim_result_snd: "claim_result x = (r, db') \<Longrightarrow> \<exists>q. x = (q, db')"
  by (auto simp: claim_result_def split: prod.splits sum.splits option.splits)

lemma with_transaction_table_step:
  assumes "with_transaction body s = (r, t)" and "\<And>r s'. body s = (r, s') \<Longrightarrow> table_step s s'"
  shows "table_step s t"
  using assms by (auto simp: with_transaction_def split: prod.splits sum.splits)

lemma ClaimMatching_table_step:
  assumes "ClaimMatching hash matches target owner token now clk db = (r, db')"
    and "\<And>t. hash t \<noteq> []"
  shows "table_step db db'"
proof (cases "(target \<noteq> TargetServer \<and> target \<noteq> TargetMacOS) \<or> blank owner")
  case True
  then show ?thesis using assms(1) by (simp add: ClaimMatching_def)
next
  case False
  have "table_step db s'" if b: "claimMatchingBody hash matches target owner token now clk db = (q, s')" for q s'
  proof -
    let ?db = "reconcileDependencyFailuresTx now db"
    have "table_step ?db s'"
      using b False assms(2)
      by (auto simp: claimMatchingBody_def Let_def claimable_def split: option.splits
          intro: take_lease_table_step)
    then show ?thesis using reconcile_table_step table_step_trans by blast
  qed
  then show ?thesis
    using assms(1) False
    by (auto simp: ClaimMatching_def dest!: claim_result_snd intro: with_transaction_table_step)
qed

lemma ClaimMatchingCapability_table_step:
  assumes "ClaimMatchingCapability hash target owner jtype token now clk db = (r, db')"
    and "\<And>t. hash t \<noteq> []"
  shows "table_step db db'"
proof (cases "(target \<noteq> TargetServer \<and> target \<noteq> TargetMacOS) \<or> blank owner")
  case True
  then show ?thesis using assms(1) by (simp add: ClaimMatchingCapability_def)
next
  case False
  have "table_step db s'" if b: "claimCapabilityBody hash target owner jtype token now clk db = (q, s')" for q s'
  proof -
    let ?db = "reconcileDependencyFailuresTx now db"
    have "table_step ?db s'"
      using b False assms(2)
      by (auto simp: claimCapabilityBody_def Let_def capability_guard_def split: list.splits
          intro: take_lease_table_step)
    then show ?thesis using reconcile_table_step table_step_trans by blast
  qed
  then show ?thesis
    using assms(1) False
    by (auto simp: ClaimMatchingCapability_def dest!: claim_result_snd intro: with_transaction_table_step)
qed

lemma Heartbeat_table_step:
  assumes "Heartbeat hash jid attempt token progress now clk live_clk db = (r, db')"
  shows "table_step db db'"
proof (cases "progress < 0 \<or> progress > 100 \<or> token = []")
  case True
  then show ?thesis using assms by (simp add: Heartbeat_def)
next
  case False
  let ?f = "\<lambda>e r. r\<lparr>job_state := Running, lease_expires_at := Some e, progress_percent := progress,
      updated_at := Some now\<rparr>"
  have upd: "table_step db (db\<lparr>job_table := update_where (attempt_row hash jid attempt token) (?f e) (job_table db)\<rparr>)" for e
    by (rule table_step_update)
      (use False in \<open>auto simp: attempt_row_def beat_row_def[symmetric] intro: lifecycle.beat\<close>)
  have "table_step db s'" if b: "heartbeatBody hash jid attempt token progress now e live_clk db = (q, s')" for q s' e
    using b upd by (auto simp: heartbeatBody_def Let_def split: option.splits if_splits)
  then show ?thesis
    using assms False by (auto simp: Heartbeat_def intro: with_transaction_table_step)
qed

lemma succeed_attempt_step:
  "table_step db
     (db\<lparr>job_table := update_where (attempt_row hash jid attempt token) (succeed_row now) (job_table db)\<rparr>)"
  by (rule table_step_update) (auto simp: attempt_row_def intro: lifecycle.succeed)

lemma fail_attempt_step:
  assumes ok: "distinct (map job_id (job_table db))"
    and j: "find_by job_id (ulid_string jid) (job_table db) = Some j"
    and st: "st = Failed \<or> (st = Queued \<and> attempt < max_attempts j)"
  shows "table_step db
    (db\<lparr>job_table := update_where (attempt_row hash jid attempt token) (fail_row st av code now) (job_table db)\<rparr>)"
proof (rule table_step_update)
  fix x assume x: "x \<in> set (job_table db)" "attempt_row hash jid attempt token x"
  then have "find_by job_id (job_id x) (job_table db) = Some x" by (intro find_by_unique ok)
  with x j have "x = j" by (simp add: attempt_row_def)
  with x st show "lifecycle x (fail_row st av code now x)"
    by (intro lifecycle.fail) (auto simp: attempt_row_def retry_state_def)
qed

lemma finishTx_table_step:
  assumes "finishTx hash jid attempt token success failure now live_clk retry_clk db = (r, db')"
    and "distinct (map job_id (job_table db))"
  shows "table_step db db'"
  using assms
  by (auto simp: finishTx_def Let_def split: option.splits if_splits
      intro: succeed_attempt_step fail_attempt_step)

lemma finish_table_step:
  assumes "finish hash jid attempt token success failure now live_clk retry_clk db = (r, db')"
    and "distinct (map job_id (job_table db))"
  shows "table_step db db'"
proof (cases "token = []")
  case True
  then show ?thesis using assms by (simp add: finish_def)
next
  case False
  then have "with_transaction
      (finishTx hash jid attempt token success failure now live_clk retry_clk) db = (r, db')"
    using assms(1) by (simp add: finish_def)
  then show ?thesis
    by (rule with_transaction_table_step) (rule finishTx_table_step[OF _ assms(2)])
qed

lemma Complete_table_step:
  "Complete hash jid attempt token now live_clk retry_clk db = (r, db') \<Longrightarrow>
   distinct (map job_id (job_table db)) \<Longrightarrow> table_step db db'"
  unfolding Complete_def by (rule finish_table_step)

lemma CompleteTx_table_step:
  "CompleteTx hash jid attempt token now live_clk retry_clk db = (r, db') \<Longrightarrow>
   distinct (map job_id (job_table db)) \<Longrightarrow> table_step db db'"
  unfolding CompleteTx_def by (rule finishTx_table_step)

lemma Fail_table_step:
  "Fail hash jid attempt token code retry now live_clk retry_clk db = (r, db') \<Longrightarrow>
   distinct (map job_id (job_table db)) \<Longrightarrow> table_step db db'"
  by (auto simp: Fail_def split: if_splits intro: finish_table_step)

lemma cancel_queued_step:
  "(\<And>j. P j \<Longrightarrow> job_state j = Queued) \<Longrightarrow>
   table_step db (db\<lparr>job_table := update_where P (cancel_queued_row code now) (job_table db)\<rparr>)"
  by (rule table_step_update) (auto intro: lifecycle.cancel_queued)

lemma cancel_active_step:
  "(\<And>j. P j \<Longrightarrow> active j) \<Longrightarrow>
   table_step db (db\<lparr>job_table := update_where P (cancel_active_row code now) (job_table db)\<rparr>)"
  by (rule table_step_update) (auto intro: lifecycle.cancel_active)

lemma cancel_both_step:
  assumes "\<And>j. P j \<Longrightarrow> job_state j = Queued" and "\<And>j. Q j \<Longrightarrow> active j"
  shows "table_step db (db\<lparr>job_table := update_where Q (cancel_active_row code now)
      (update_where P (cancel_queued_row code now) (job_table db))\<rparr>)"
proof -
  let ?db1 = "db\<lparr>job_table := update_where P (cancel_queued_row code now) (job_table db)\<rparr>"
  have "table_step db ?db1" by (rule cancel_queued_step) (rule assms(1))
  moreover have "table_step ?db1 (?db1\<lparr>job_table := update_where Q (cancel_active_row code now) (job_table ?db1)\<rparr>)"
    by (rule cancel_active_step) (rule assms(2))
  ultimately show ?thesis by (auto intro: table_step_trans)
qed

lemma CancelTx_table_step: "CancelTx jid code now db = (r, db') \<Longrightarrow> table_step db db'"
  by (auto simp: CancelTx_def Let_def split: if_splits option.splits
      intro: cancel_queued_step cancel_both_step)

lemma Cancel_table_step:
  "Cancel jid code now db = (r, db') \<Longrightarrow> table_step db db'"
  by (auto simp: Cancel_def split: if_splits
      intro: with_transaction_table_step CancelTx_table_step)

lemma CancelOwnerJobsTx_table_step:
  "CancelOwnerJobsTx otype oid jtype code now db = (r, db') \<Longrightarrow> table_step db db'"
  by (auto simp: CancelOwnerJobsTx_def Let_def split: if_splits intro: cancel_both_step)

lemma CancelOwnerJobs_table_step:
  "CancelOwnerJobs otype oid jtype code now db = (r, db') \<Longrightarrow> table_step db db'"
  by (auto simp: CancelOwnerJobs_def split: if_splits
      intro: with_transaction_table_step CancelOwnerJobsTx_table_step)

section \<open>Recovery\<close>

abbreviation expire_hit :: "job \<Rightarrow> nat \<Rightarrow> job \<Rightarrow> bool" where
  "expire_hit item now j \<equiv> job_id j = job_id item \<and> active j \<and> ts_le_now (lease_expires_at j) now"

abbreviation expire_state :: "job \<Rightarrow> job_state" where
  "expire_state item \<equiv> (if attempt_count item < max_attempts item then Queued else Failed)"

lemma recover_item_Inr:
  assumes "recover_item cb clk now item (db, d) = Inr (n, (db', d'))"
  shows "\<exists>available. db' = db\<lparr>job_table := update_where (expire_hit item now)
      (expire_row (expire_state item) available now) (job_table db)\<rparr>"
    and "n = count_where (expire_hit item now) (job_table db)"
  using assms by (auto simp: recover_item_def Let_def bind_res_Inr_conv split: option.splits if_splits)

lemma recover_item_table_step:
  assumes "recover_item cb clk now item (db, d) = Inr (n, (db', d'))"
    and "distinct (map job_id (job_table db))" and "item \<in> set (job_table db)"
  shows "table_step db db'"
proof -
  obtain av where db': "db' = db\<lparr>job_table := update_where (expire_hit item now)
      (expire_row (expire_state item) av now) (job_table db)\<rparr>"
    using recover_item_Inr(1)[OF assms(1)] by blast
  show ?thesis
    unfolding db'
  proof (rule table_step_update)
    fix r assume r: "r \<in> set (job_table db)" "expire_hit item now r"
    then have "r = item"
      using assms(2,3) by (metis distinct_map inj_onD)
    with r show "lifecycle r (expire_row (expire_state item) av now r)"
      by (intro lifecycle.expire) (auto simp: retry_state_def)
  qed
qed

lemma recover_item_others:
  assumes "recover_item cb clk now item (db, d) = Inr (n, (db', d'))"
    and "x \<in> set (job_table db)" and "job_id x \<noteq> job_id item"
  shows "x \<in> set (job_table db')"
  using recover_item_Inr(1)[OF assms(1)] assms(2,3)
  by (auto simp: set_update_where image_iff intro!: bexI[of _ x])

lemma recover_items_table_step:
  assumes "recover_items cb clk now items (db, d) = Inr (n, (db', d'))"
    and "distinct (map job_id (job_table db))" and "distinct (map job_id items)"
    and "set items \<subseteq> set (job_table db)"
  shows "table_step db db'"
  using assms
proof (induction items arbitrary: db d n)
  case Nil
  then show ?case by simp
next
  case (Cons item items)
  obtain n1 db1 d1 n2 where
      1: "recover_item cb clk now item (db, d) = Inr (n1, (db1, d1))"
    and 2: "recover_items cb clk now items (db1, d1) = Inr (n2, (db', d'))"
    using Cons.prems(1) by (auto simp: bind_res_Inr_conv)
  have s1: "table_step db db1"
    using recover_item_table_step[OF 1] Cons.prems(2,4) by simp
  have "set items \<subseteq> set (job_table db1)"
  proof
    fix x assume x: "x \<in> set items"
    then have "job_id x \<noteq> job_id item" using Cons.prems(3) by (auto simp: image_iff)
    with x show "x \<in> set (job_table db1)"
      using recover_item_others[OF 1] Cons.prems(4) by auto
  qed
  then have "table_step db1 db'"
    using Cons.IH[OF 2] Cons.prems(2,3) table_step_keys(1)[OF s1] by simp
  with s1 show ?case by (rule table_step_trans)
qed

lemma distinct_map_filter: "distinct (map f xs) \<Longrightarrow> distinct (map f (filter P xs))"
  by (induction xs) auto

lemma recoverExpiredBody_table_step:
  assumes "recoverExpiredBody cb clk now (db, d) = (r, (db', d'))"
    and "distinct (map job_id (job_table db))"
  shows "table_step db db'"
  using assms recover_items_table_step[of cb clk now "filter (expired_lease now) (job_table db)" db d]
    reconcile_table_step
  by (auto simp: recoverExpiredBody_def distinct_map_filter split: sum.splits prod.splits
      intro: table_step_trans)

lemma RecoverExpired_table_step:
  assumes "RecoverExpired cb clk now (db, d) = (r, (db', d'))"
    and "distinct (map job_id (job_table db))"
  shows "table_step db db'"
  using assms(1) recoverExpiredBody_table_step[OF _ assms(2)]
  by (auto simp: RecoverExpired_def with_transaction_def split: prod.splits sum.splits)

lemma recoverExpiredJobBody_table_step:
  assumes "recoverExpiredJobBody cb clk now jid (db, d) = (r, (db', d'))"
    and "distinct (map job_id (job_table db))"
  shows "table_step db db'"
  using assms reconcile_table_step
  by (auto simp: recoverExpiredJobBody_def split: option.splits if_splits sum.splits prod.splits
      dest!: find_by_Some dest: recover_item_table_step intro: table_step_trans)

lemma RecoverExpiredJob_table_step:
  assumes "RecoverExpiredJob cb clk now jid (db, d) = (r, (db', d'))"
    and "distinct (map job_id (job_table db))"
  shows "table_step db db'"
  using assms(1) recoverExpiredJobBody_table_step[OF _ assms(2)]
  by (auto simp: RecoverExpiredJob_def with_transaction_def split: prod.splits sum.splits if_splits)

section \<open>Enqueue\<close>

lemma ulid_string_nonempty [simp]: "ulid_string u \<noteq> []"
  by (simp add: ulid_string_def zeroULID_def)

lemma validateSpec_Inr:
  assumes "validateSpec json_ok spec = Inr spec'"
  shows "spec_job_type spec' \<in> set job_types"
    and "spec_target spec' = TargetServer \<or> spec_target spec' = TargetMacOS"
    and "1 \<le> spec_max_attempts spec' \<and> spec_max_attempts spec' \<le> 3"
    and "spec_key spec' = spec_key spec"
  using assms by (auto simp: validateSpec_def split: if_splits)

lemma row_of_spec_new:
  assumes "spec_job_type spec \<in> set job_types"
    and "spec_target spec = TargetServer \<or> spec_target spec = TargetMacOS"
    and "1 \<le> spec_max_attempts spec" "spec_max_attempts spec \<le> 3"
  shows "new_row (row_of_spec spec a b)"
  using assms by (auto simp: new_row_def job_ok_def row_of_spec_def state_defs)

text \<open>Enqueuing leaves the table alone or appends one fresh row with a new id and key.\<close>

definition enqueued :: "jobs_db \<Rightarrow> jobs_db \<Rightarrow> bool" where
  "enqueued db db' \<longleftrightarrow>
     db' = db \<or> (\<exists>row. new_row row \<and> db' = db\<lparr>job_table := job_table db @ [row]\<rparr> \<and>
        job_id row \<notin> job_ids db \<and> idempotency_key row \<notin> idempotency_key ` set (job_table db))"

lemma enqueueTx_enqueued:
  assumes "enqueueTx fresh clocks spec db = (r, db')"
    and "spec_job_type spec \<in> set job_types"
    and "spec_target spec = TargetServer \<or> spec_target spec = TargetMacOS"
    and "1 \<le> spec_max_attempts spec \<and> spec_max_attempts spec \<le> 3"
  shows "enqueued db db'"
proof -
  obtain a b c where clocks: "clocks = (a, b, c)" by (cases clocks)
  define s1 where "s1 = (if ulid_is_zero (spec_id spec) then spec\<lparr>spec_id := fresh\<rparr> else spec)"
  define s2 where "s2 = (if spec_available_at s1 = None then s1\<lparr>spec_available_at := Some a\<rparr> else s1)"
  have eq: "enqueueTx fresh clocks spec db =
      (case insert_job (row_of_spec s2 b c) db of Inl e \<Rightarrow> (Inl e, db)
       | Inr db' \<Rightarrow> (getTx (spec_key s2) db', db'))"
    using assms(4) by (auto simp: enqueueTx_def clocks Let_def s1_def s2_def split: sum.split)
  have "new_row (row_of_spec s2 b c)"
    by (rule row_of_spec_new) (use assms(2-4) in \<open>auto simp: s1_def s2_def\<close>)
  then show ?thesis
    using assms(1) unfolding eq
    by (auto simp: enqueued_def insert_job_def job_ids_def split: if_splits)
qed

lemma EnqueueTx_enqueued: "EnqueueTx json_ok fresh clocks spec db = (r, db') \<Longrightarrow> enqueued db db'"
  by (auto simp: EnqueueTx_def enqueued_def split: sum.splits
      dest: validateSpec_Inr enqueueTx_enqueued[unfolded enqueued_def])

lemma Enqueue_enqueued: "Enqueue json_ok fresh clocks spec db = (r, db') \<Longrightarrow> enqueued db db'"
  by (auto simp: Enqueue_def enqueued_def with_transaction_def split: sum.splits prod.splits
      dest: validateSpec_Inr enqueueTx_enqueued[unfolded enqueued_def])

lemma db_ok_enqueued: "enqueued db db' \<Longrightarrow> db_ok db \<Longrightarrow> db_ok db'"
  by (auto simp: enqueued_def db_ok_def job_ids_def new_row_def; fastforce)

lemma enqueued_grows: "enqueued db db' \<Longrightarrow> grows (job_table db) (job_table db')"
  by (auto simp: enqueued_def intro: grows_append)

section \<open>Dependencies\<close>

lemma ancestors_from_set:
  "set (ancestors_from E S) = {y. \<exists>x \<in> set S. (x, y) \<in> (set E)\<^sup>*}"
proof (induction E S rule: ancestors_from.induct)
  case (1 E S)
  let ?new = "filter (\<lambda>d. d \<notin> set S) (deps_of E (set S))"
  show ?case
  proof (cases "?new = []")
    case True
    then have closed: "y \<in> set S" if "x \<in> set S" "(x, y) \<in> set E" for x y
      using that by (force simp: filter_empty_conv deps_of_def)
    have "y \<in> set S" if "(x, y) \<in> (set E)\<^sup>*" "x \<in> set S" for x y
      using that by (induction rule: rtrancl_induct) (auto intro: closed)
    with True show ?thesis by (auto simp: ancestors_from.simps[of E S])
  next
    case False
    have "\<exists>x \<in> set S. (x, y) \<in> (set E)\<^sup>*" if x: "x \<in> set (S @ ?new)" and xy: "(x, y) \<in> (set E)\<^sup>*" for x y
    proof (cases "x \<in> set S")
      case False
      then obtain z where "z \<in> set S" "(z, x) \<in> set E"
        using x by (auto simp: deps_of_def)
      then show ?thesis using xy by (blast intro: converse_rtrancl_into_rtrancl)
    qed (use xy in blast)
    then have "{y. \<exists>x \<in> set (S @ ?new). (x, y) \<in> (set E)\<^sup>*} = {y. \<exists>x \<in> set S. (x, y) \<in> (set E)\<^sup>*}"
      by auto
    with False 1 show ?thesis by (simp add: ancestors_from.simps[of E S])
  qed
qed

lemma ancestors_set: "set (ancestors E x) = {y. (x, y) \<in> (set E)\<^sup>+}"
  by (force simp: ancestors_def ancestors_from_set deps_of_def trancl_unfold_left)

lemma count_two_ids:
  assumes "distinct (map job_id rows)" and "count_where (\<lambda>j. job_id j = a \<or> job_id j = b) rows = 2"
  shows "a \<in> job_id ` set rows" "b \<in> job_id ` set rows"
proof -
  have le: "count_where (\<lambda>j. job_id j = v) rows \<le> 1" for v
    by (rule count_where_distinct_key[OF assms(1)]) simp
  have "count_where (\<lambda>j. job_id j = a \<or> job_id j = b) rows
      \<le> count_where (\<lambda>j. job_id j = a) rows + count_where (\<lambda>j. job_id j = b) rows" for rows
    by (induction rows) (auto simp: count_where_def)
  from this[of rows] le[of a] le[of b] assms(2)
  have "count_where (\<lambda>j. job_id j = a) rows \<noteq> 0" "count_where (\<lambda>j. job_id j = b) rows \<noteq> 0" by linarith+
  then show "a \<in> job_id ` set rows" "b \<in> job_id ` set rows" by (auto simp: count_where_0)
qed

lemma addDependencyBody_ok:
  assumes "addDependencyBody jid did db = (r, db')" and "db_ok db"
    and "ulid_string jid \<noteq> ulid_string did"
  shows "db_ok db' \<and> job_table db' = job_table db"
proof -
  let ?e = "(ulid_string jid, ulid_string did)"
  show ?thesis
  proof (cases "r = Inr ()")
    case False
    with assms show ?thesis by (auto simp: addDependencyBody_def split: if_splits)
  next
    case True
    then have c: "count_where (\<lambda>j. job_id j = fst ?e \<or> job_id j = snd ?e) (job_table db) = 2"
      and a: "fst ?e \<notin> set (ancestors (job_deps db) (snd ?e))"
      and db': "db' = db\<lparr>job_deps := List.insert ?e (job_deps db)\<rparr>"
      using assms(1) by (auto simp: addDependencyBody_def split: if_splits)
    have "(snd ?e, fst ?e) \<notin> (set (job_deps db))\<^sup>*"
      using a assms(3) by (auto simp: ancestors_set rtrancl_eq_or_trancl)
    then have "acyclic (insert ?e (set (job_deps db)))"
      using assms(2) by (simp add: db_ok_def acyclic_insert)
    moreover have "fst ?e \<in> job_ids db" "snd ?e \<in> job_ids db"
      using count_two_ids[OF _ c] assms(2) by (auto simp: db_ok_def job_ids_def)
    ultimately show ?thesis
      using assms(2) unfolding db' by (simp add: db_ok_def job_ids_def)
  qed
qed

lemma ulid_string_inj: "\<not> ulid_is_zero a \<Longrightarrow> \<not> ulid_is_zero b \<Longrightarrow> ulid_string a = ulid_string b \<longleftrightarrow> a = b"
  by (auto simp: ulid_string_def ulid_is_zero_def)

lemma AddDependency_ok:
  assumes r: "AddDependency jid did db = (r, db')" and ok: "db_ok db"
  shows "db_ok db' \<and> job_table db' = job_table db"
proof (cases "ulid_is_zero jid \<or> ulid_is_zero did \<or> jid = did")
  case True
  then show ?thesis using r ok by (simp add: AddDependency_def)
next
  case False
  then have ne: "ulid_string jid \<noteq> ulid_string did" using ulid_string_inj by blast
  obtain q s' where b: "addDependencyBody jid did db = (q, s')" by fastforce
  have "db' = db \<or> db' = s'"
    using r False b by (cases q) (auto simp: AddDependency_def with_transaction_def)
  then show ?thesis using addDependencyBody_ok[OF b ok ne] ok by blast
qed

section \<open>Reachable databases\<close>

text \<open>
  One call of one operation by some process; \<open>'d\<close> is the state of the package that owns the
  recovery callback, which that package may also change on its own (\<open>domain\<close>).
\<close>

inductive job_step ::
  "(string \<Rightarrow> string) \<Rightarrow> (string \<Rightarrow> bool) \<Rightarrow> 'd recovery \<Rightarrow> jobs_db \<times> 'd \<Rightarrow> jobs_db \<times> 'd \<Rightarrow> bool"
  for hash :: "string \<Rightarrow> string" and json_ok :: "string \<Rightarrow> bool" and cb :: "'d recovery" where
  enqueue: "Enqueue json_ok fresh clocks spec db = (r, db') \<Longrightarrow> job_step hash json_ok cb (db, d) (db', d)"
| enqueue_tx: "EnqueueTx json_ok fresh clocks spec db = (r, db') \<Longrightarrow> job_step hash json_ok cb (db, d) (db', d)"
| dependency: "AddDependency jid did db = (r, db') \<Longrightarrow> job_step hash json_ok cb (db, d) (db', d)"
| claim: "ClaimMatching hash matches target owner token now clk db = (rl, db') \<Longrightarrow>
    job_step hash json_ok cb (db, d) (db', d)"
| claim_capability: "ClaimMatchingCapability hash target owner jtype token now clk db = (rl, db') \<Longrightarrow>
    job_step hash json_ok cb (db, d) (db', d)"
| heartbeat: "Heartbeat hash jid attempt token progress now clk live_clk db = (rh, db') \<Longrightarrow>
    job_step hash json_ok cb (db, d) (db', d)"
| complete: "Complete hash jid attempt token now live_clk retry_clk db = (ru, db') \<Longrightarrow>
    job_step hash json_ok cb (db, d) (db', d)"
| complete_tx: "CompleteTx hash jid attempt token now live_clk retry_clk db = (ru, db') \<Longrightarrow>
    job_step hash json_ok cb (db, d) (db', d)"
| fail: "Fail hash jid attempt token code retry now live_clk retry_clk db = (ru, db') \<Longrightarrow>
    job_step hash json_ok cb (db, d) (db', d)"
| cancel: "Cancel jid code now db = (ru, db') \<Longrightarrow> job_step hash json_ok cb (db, d) (db', d)"
| cancel_tx: "CancelTx jid code now db = (ru, db') \<Longrightarrow> job_step hash json_ok cb (db, d) (db', d)"
| cancel_owner: "CancelOwnerJobs otype oid jtype code now db = (rn, db') \<Longrightarrow>
    job_step hash json_ok cb (db, d) (db', d)"
| cancel_owner_tx: "CancelOwnerJobsTx otype oid jtype code now db = (rn, db') \<Longrightarrow>
    job_step hash json_ok cb (db, d) (db', d)"
| recover: "RecoverExpired cb clkf now (db, d) = (rn, (db', d')) \<Longrightarrow>
    job_step hash json_ok cb (db, d) (db', d')"
| recover_job: "RecoverExpiredJob cb clkf now jid (db, d) = (rb, (db', d')) \<Longrightarrow>
    job_step hash json_ok cb (db, d) (db', d')"
| domain: "job_step hash json_ok cb (db, d) (db, d')"

inductive_cases job_stepE: "job_step hash json_ok cb (db, d) (db', d')"

text \<open>Every call is one of three kinds of change.\<close>

lemma job_step_kinds:
  assumes "job_step hash json_ok cb s t" and "db_ok (fst s)" and "\<And>x. hash x \<noteq> []"
  shows "table_step (fst s) (fst t) \<or> enqueued (fst s) (fst t) \<or>
    (db_ok (fst t) \<and> job_table (fst t) = job_table (fst s))"
proof -
  have dist: "distinct (map job_id (job_table (fst s)))" using assms(2) by (simp add: db_ok_def)
  from assms(1) show ?thesis
  proof (cases rule: job_step.cases)
    case (dependency jid did db r db' d)
    then show ?thesis using AddDependency_ok[of jid did db r db'] assms(2) by simp
  qed (use dist assms(3) in \<open>auto dest: Enqueue_enqueued EnqueueTx_enqueued ClaimMatching_table_step
      ClaimMatchingCapability_table_step Heartbeat_table_step Complete_table_step
      CompleteTx_table_step Fail_table_step Cancel_table_step CancelTx_table_step
      CancelOwnerJobs_table_step CancelOwnerJobsTx_table_step RecoverExpired_table_step
      RecoverExpiredJob_table_step\<close>)
qed

lemma job_step_db_ok:
  "job_step hash json_ok cb s t \<Longrightarrow> db_ok (fst s) \<Longrightarrow> (\<And>x. hash x \<noteq> []) \<Longrightarrow> db_ok (fst t)"
  using job_step_kinds[of hash json_ok cb s t] db_ok_table_step db_ok_enqueued by blast

lemma job_step_grows:
  "job_step hash json_ok cb s t \<Longrightarrow> db_ok (fst s) \<Longrightarrow> (\<And>x. hash x \<noteq> []) \<Longrightarrow>
   grows (job_table (fst s)) (job_table (fst t))"
  using job_step_kinds[of hash json_ok cb s t] table_step_grows enqueued_grows grows_refl by metis

lemma job_steps_grow:
  assumes "(job_step hash json_ok cb)\<^sup>*\<^sup>* s t" and "db_ok (fst s)" and "\<And>x. hash x \<noteq> []"
  shows "db_ok (fst t) \<and> grows (job_table (fst s)) (job_table (fst t))"
  using assms(1)
proof (induction rule: rtranclp_induct)
  case base
  then show ?case using assms(2) by simp
next
  case (step u v)
  then show ?case using assms(3) job_step_db_ok job_step_grows grows_trans by metis
qed

end
