(* ===== verification/Jobs_Props.thy ===== *)
theory Jobs_Props
  imports Jobs_Steps
begin

text \<open>
  The properties of the scheduler: the reachable-state invariant, finality of terminal states,
  fencing of stale leases, the choice a claim makes, exclusivity of capability lanes, the exact
  effect of dependency reconciliation, cycle rejection, recovery of expired leases, idempotent
  enqueue and the outcome of a failure report.
\<close>

section \<open>Reachable databases are well formed\<close>

definition empty_db :: jobs_db where
  "empty_db = \<lparr>job_table = [], job_deps = []\<rparr>"

definition hash_total :: "(string \<Rightarrow> string) \<Rightarrow> bool" where
  "hash_total hash \<longleftrightarrow> (\<forall>t. length (hash t) = 64)"

lemma hash_total_nonempty: "hash_total hash \<Longrightarrow> hash t \<noteq> []"
  by (auto simp: hash_total_def dest!: spec[of _ t])

interpretation jobs: invariant_system "\<lambda>s. fst s = empty_db" "job_step hash json_ok cb"
    "\<lambda>s. hash_total hash \<longrightarrow> db_ok (fst s)"
  for hash :: "string \<Rightarrow> string" and json_ok :: "string \<Rightarrow> bool" and cb :: "'d recovery"
proof unfold_locales
  show "hash_total hash \<longrightarrow> db_ok (fst s)" if "fst s = empty_db" for s :: "jobs_db \<times> 'd"
    using that by (simp add: empty_db_def db_ok_def acyclic_def)
  show "hash_total hash \<longrightarrow> db_ok (fst t)"
    if "hash_total hash \<longrightarrow> db_ok (fst s)" "job_step hash json_ok cb s t" for s t :: "jobs_db \<times> 'd"
    using that job_step_db_ok hash_total_nonempty by blast
qed

text \<open>A small database reached from the empty one, for the witnesses.\<close>

definition hash64 :: "string \<Rightarrow> string" where
  "hash64 t = take 64 (t @ replicate 64 CHR ''0'')"

lemma hash64_total: "hash_total hash64"
  by (auto simp: hash_total_def hash64_def min_def)

lemma job_types_mem:
  "AVSpeechJobType \<in> set job_types" "ChatterboxJobType \<in> set job_types"
  "AnalysisJobType \<in> set job_types"
  by (simp_all add: job_types_def)

definition sample_job :: "string \<Rightarrow> job" where
  "sample_job jid =
     \<lparr>job_id = jid, job_type = AVSpeechJobType, execution_target = TargetMacOS, owner_type = ''u'',
      owner_id = ''o'', idempotency_key = jid, input_hash = ''h'', payload_json = ''1'',
      job_state = Queued, priority = 0, attempt_count = 0, max_attempts = 3, available_at = Some 5,
      lease_owner = [], lease_token_hash = [], lease_expires_at = None, progress_percent = 0,
      error_code = [], created_at = Some 5, updated_at = Some 5, started_at = None,
      completed_at = None, ailocals_result_sha256 = []\<rparr>"

lemma sample_job_new: "jid \<noteq> [] \<Longrightarrow> new_row (sample_job jid)"
  by (simp add: new_row_def job_ok_def sample_job_def state_defs job_types_mem)

definition sample_db :: "string list \<Rightarrow> (string \<times> string) list \<Rightarrow> jobs_db" where
  "sample_db ids deps = \<lparr>job_table = map sample_job ids, job_deps = deps\<rparr>"

lemma sample_job_keys [simp]:
  "job_id (sample_job jid) = jid" "idempotency_key (sample_job jid) = jid"
  by (simp_all add: sample_job_def)

lemma sample_db_ok:
  assumes "distinct ids" and "[] \<notin> set ids"
    and "\<forall>e \<in> set deps. fst e \<in> set ids \<and> snd e \<in> set ids" and "acyclic (set deps)"
  shows "db_ok (sample_db ids deps)"
proof -
  have "\<forall>j \<in> set (map sample_job ids). job_ok j"
  proof
    fix j assume "j \<in> set (map sample_job ids)"
    then obtain i where "i \<in> set ids" "j = sample_job i" by auto
    with assms(2) have "new_row j" by (auto intro: sample_job_new)
    then show "job_ok j" by (simp add: new_row_def)
  qed
  with assms show ?thesis by (simp add: db_ok_def sample_db_def job_ids_def o_def image_image)
qed


definition sample_spec :: job_spec where
  "sample_spec =
     \<lparr>spec_id = ''a'', spec_job_type = AVSpeechJobType, spec_target = TargetMacOS,
      spec_owner_type = ''u'', spec_owner_id = ''o'', spec_key = ''k'', spec_input_hash = ''h'',
      spec_payload = ''1'', spec_priority = 0, spec_max_attempts = 0, spec_available_at = None\<rparr>"


lemma sample_not_blank:
  "\<not> blank ''u''" "\<not> blank ''o''" "\<not> blank ''k''" "\<not> blank ''h''" "\<not> blank ''1''" "\<not> blank ''w''"
  by (simp_all add: ascii_blank byte_def is_space_def)

lemma sample_spec_valid:
  "validateSpec (\<lambda>_. True) sample_spec = Inr (sample_spec\<lparr>spec_max_attempts := 3\<rparr>)"
  by (simp add: validateSpec_def sample_spec_def job_types_mem sample_not_blank)

definition sample_row :: job where
  "sample_row = row_of_spec (sample_spec\<lparr>spec_max_attempts := 3, spec_available_at := Some 1\<rparr>) 2 3"

lemma sample_enqueue:
  "Enqueue (\<lambda>_. True) ''f'' (1, 2, 3) sample_spec empty_db =
     (Inr sample_row, \<lparr>job_table = [sample_row], job_deps = []\<rparr>)"
  unfolding Enqueue_def sample_spec_valid
  by (simp add: with_transaction_def enqueueTx_def insert_job_def getTx_def find_by_def empty_db_def
      row_of_spec_def sample_row_def sample_spec_def ulid_is_zero_def zeroULID_def Let_def)

lemma reconcile_none:
  "\<forall>j \<in> set (job_table db). \<not> dep_failed db j \<Longrightarrow> reconcileDependencyFailuresTx now db = db"
  by (simp add: reconcileDependencyFailuresTx.simps count_where_0)

lemmas claim_eval = ClaimMatching_def claimMatchingBody_def ClaimMatchingCapability_def
  claimCapabilityBody_def capability_guard_def owner_busy_def claim_result_def with_transaction_def
  reconcile_none claim_order_def claimable_def take_lease_def count_where_def update_where_def
  find_by_def ts_le_now_def deps_satisfied_def dep_in_state_def dep_failed_def sample_db_def
  sample_job_def claim_key_def Let_def sample_not_blank lease_duration_def ulid_string_def
  lease_row_def state_defs

text \<open>Single-row databases: a job whose first attempt is leased, and one that has succeeded.\<close>

definition leased_job :: job where
  "leased_job = lease_row ''w'' (hash64 ''t'') 6 90006 (sample_job ''a'')"

definition done_job :: job where
  "done_job = succeed_row 7 leased_job"

definition one_db :: "job \<Rightarrow> jobs_db" where
  "one_db j = \<lparr>job_table = [j], job_deps = []\<rparr>"

lemma one_db_ok: "job_ok j \<Longrightarrow> db_ok (one_db j)"
  by (simp add: db_ok_def one_db_def acyclic_def)

lemma leased_job_ok: "job_ok leased_job" "active leased_job"
proof -
  have "lifecycle (sample_job ''a'') leased_job"
    unfolding leased_job_def
    by (rule lifecycle.claim)
      (simp_all add: sample_job_def sample_not_blank hash_total_nonempty[OF hash64_total])
  then show "job_ok leased_job"
    using sample_job_new[of "''a''"] lifecycle_job_ok by (simp add: new_row_def)
  show "active leased_job" by (simp add: leased_job_def lease_row_def active_def)
qed

lemma done_job_ok: "job_ok done_job" "terminal done_job"
  using lifecycle_job_ok[OF lifecycle.succeed] leased_job_ok
  by (auto simp: done_job_def succeed_row_def terminal_def)

text \<open>C3: in every database reachable from the empty one by any sequence of scheduler calls, ids
  and idempotency keys are unique, every row satisfies the row invariant (attempts within their
  bound, an active row carries a token and an expiry, a completion time exactly in terminal
  states), every dependency edge joins existing jobs, and the dependencies are acyclic.\<close>
theorem reachable_db_ok:
  fixes s :: "jobs_db \<times> 'd"
  assumes "hash_total hash" and "reach (\<lambda>s. fst s = empty_db) (job_step hash json_ok cb) s"
  shows "db_ok (fst s)"
  using jobs.reach_inv[OF assms(2)] assms(1) by simp

theorem reachable_db_ok_witness:
  "\<exists>s :: jobs_db \<times> unit. reach (\<lambda>s. fst s = empty_db) (job_step hash64 (\<lambda>_. True) None) s
     \<and> job_table (fst s) = [sample_row] \<and> db_ok (fst s)"
proof -
  let ?s = "(\<lparr>job_table = [sample_row], job_deps = []\<rparr>, ()) :: jobs_db \<times> unit"
  have "job_step hash64 (\<lambda>_. True) None (empty_db, ()) ?s"
    using sample_enqueue by (rule job_step.enqueue)
  then have r: "reach (\<lambda>s. fst s = empty_db) (job_step hash64 (\<lambda>_. True) None) ?s"
    by (rule reach_step[rotated]) (simp add: reach_init)
  with reachable_db_ok[OF hash64_total r] show ?thesis by (intro exI[of _ ?s]) simp
qed

lemma grows_terminal:
  assumes "grows a b" and "j \<in> set a" and "terminal j"
  shows "j \<in> set b"
proof -
  obtain old fresh where b: "b = old @ fresh" "list_all2 lifecycle\<^sup>*\<^sup>* a old"
    using assms(1) by (auto simp: grows_def)
  from assms(2) obtain i where i: "i < length a" "j = a ! i" by (auto simp: in_set_conv_nth)
  with b(2) have "lifecycle\<^sup>*\<^sup>* j (old ! i)" "i < length old" by (auto simp: list_all2_conv_all_nth)
  with assms(3) have "j = old ! i" using lifecycle_rtrancl_terminal by fastforce
  with b(1) \<open>i < length old\<close> show ?thesis by (auto intro: nth_mem)
qed

text \<open>A job that has succeeded, failed or been canceled is final: whatever calls follow, its
  row is still in the table, unchanged in every column.\<close>
theorem terminal_rows_final:
  fixes s t :: "jobs_db \<times> 'd"
  assumes "hash_total hash" and "db_ok (fst s)" and "(job_step hash json_ok cb)\<^sup>*\<^sup>* s t"
    and "j \<in> set (job_table (fst s))" and "terminal j"
  shows "j \<in> set (job_table (fst t))"
  using job_steps_grow[OF assms(3,2) hash_total_nonempty[OF assms(1)]] assms(4,5) grows_terminal
  by blast

theorem terminal_rows_final_witness:
  "\<exists>db' :: jobs_db. \<exists>r. RecoverExpired None (\<lambda>_. 0) 7 (one_db done_job, ()) = (r, (db', ()))
     \<and> done_job \<in> set (job_table db')"
proof -
  obtain r db' where r: "RecoverExpired None (\<lambda>_. 0) 7 (one_db done_job, ()) = (r, (db', ()))"
    by (metis prod.collapse unit.exhaust)
  then have "job_step hash64 (\<lambda>_. True) None (one_db done_job, ()) (db', ())" by (rule job_step.recover)
  then have "(job_step hash64 (\<lambda>_. True) None)\<^sup>*\<^sup>* (one_db done_job, ()) (db', ())" by blast
  then have "done_job \<in> set (job_table db')"
    using terminal_rows_final[OF hash64_total, where j = done_job] one_db_ok done_job_ok
    by (fastforce simp: one_db_def)
  with r show ?thesis by blast
qed

section \<open>Claiming\<close>

text \<open>What \<open>take_lease\<close> does when it hits.\<close>

lemma take_lease_Some:
  assumes "take_lease guard owner token thash now expires jid db = (Inr (Some L), db')"
    and "distinct (map job_id (job_table db))" and "c \<in> set (job_table db)" and "job_id c = jid"
  shows "guard c" and "lease_token L = token" and "lease_job L = lease_row owner thash now expires c"
    and "db' = db\<lparr>job_table := update_where (\<lambda>j. job_id j = jid) (lease_row owner thash now expires) (job_table db)\<rparr>"
proof -
  let ?hit = "\<lambda>j. job_id j = jid \<and> guard j"
  have one: "x = c" if "x \<in> set (job_table db)" "job_id x = jid" for x
    using that assms(2-4) by (metis distinct_map inj_onD)
  have cnt: "count_where ?hit (job_table db) = 1"
    and db': "db' = db\<lparr>job_table := update_where ?hit (lease_row owner thash now expires) (job_table db)\<rparr>"
    and L: "find_by job_id jid (job_table db') = Some (lease_job L)" "lease_token L = token"
    using assms(1) by (auto simp: take_lease_def Let_def split: if_splits option.splits)
  from cnt have "count_where ?hit (job_table db) \<noteq> 0" by simp
  then show g: "guard c" using one by (auto simp: count_where_0)
  show "lease_token L = token" by (rule L(2))
  have "find_by job_id jid (job_table db) = Some c" using find_by_unique assms(2-4) by metis
  then show "lease_job L = lease_row owner thash now expires c"
    using L(1) g assms(4) unfolding db' by (simp add: find_by_update_where lease_row_def)
  have "update_where ?hit (lease_row owner thash now expires) (job_table db) =
      update_where (\<lambda>j. job_id j = jid) (lease_row owner thash now expires) (job_table db)"
    unfolding update_where_def using one g by (intro map_cong) auto
  then show "db' = db\<lparr>job_table := update_where (\<lambda>j. job_id j = jid) (lease_row owner thash now expires) (job_table db)\<rparr>"
    using db' by simp
qed

lemma take_lease_hits:
  assumes "distinct (map job_id (job_table db))" and "c \<in> set (job_table db)" and "job_id c = jid"
    and "guard c"
  shows "\<exists>L db'. take_lease guard owner token thash now expires jid db = (Inr (Some L), db')"
proof -
  let ?hit = "\<lambda>j. job_id j = jid \<and> guard j"
  have "count_where ?hit (job_table db) \<le> 1"
    by (rule count_where_distinct_key[OF assms(1)]) simp
  moreover have "count_where ?hit (job_table db) \<noteq> 0" using assms by (auto simp: count_where_0)
  ultimately have cnt: "count_where ?hit (job_table db) = 1" by linarith
  have "find_by job_id jid (job_table db) = Some c" using find_by_unique assms(1-3) by metis
  then show ?thesis using cnt
    by (simp add: take_lease_def Let_def find_by_update_where lease_row_def)
qed

lemma claim_order_first:
  assumes "find P (claim_order js) = Some c"
  shows "c \<in> set js" "P c" "\<forall>x \<in> set js. P x \<longrightarrow> claim_key c \<le> claim_key x"
proof -
  obtain i where i: "i < length (claim_order js)" "P (claim_order js ! i)" "c = claim_order js ! i"
    and first: "\<forall>k < i. \<not> P (claim_order js ! k)"
    using assms by (auto simp: find_Some_iff)
  have sorted: "sorted (map claim_key (claim_order js))" by (simp add: claim_order_def)
  show "P c" using i by simp
  show "c \<in> set js" using i nth_mem[of i "claim_order js"] by (simp add: claim_order_def)
  show "\<forall>x \<in> set js. P x \<longrightarrow> claim_key c \<le> claim_key x"
  proof (intro ballI impI)
    fix x assume "x \<in> set js" "P x"
    then obtain k where k: "k < length (claim_order js)" "x = claim_order js ! k"
      by (metis claim_order_def in_set_conv_nth set_sort)
    with first \<open>P x\<close> have "i \<le> k" by (meson not_le)
    with k i show "claim_key c \<le> claim_key x"
      using sorted_nth_mono[OF sorted, of i k] by simp
  qed
qed

text \<open>The body of a claim that returns a lease, over the reconciled database.\<close>

lemma claimMatchingBody_Some:
  assumes b: "claimMatchingBody hash matches target owner token now clk db = (Inr (Some L), db')"
    and ok: "db_ok db" and R: "R = reconcileDependencyFailuresTx now db"
    and M: "M = (case matches of None \<Rightarrow> (\<lambda>_. True) | Some m \<Rightarrow> m)"
  shows "\<exists>c \<in> set (job_table R). claimable R target now c \<and> M c \<and>
    (\<forall>x \<in> set (job_table R). claimable R target now x \<and> M x \<longrightarrow> claim_key c \<le> claim_key x) \<and>
    L = \<lparr>lease_job = lease_row owner (hash token) now (clk + lease_duration) c, lease_token = token\<rparr> \<and>
    db' = R\<lparr>job_table := update_where (\<lambda>j. job_id j = job_id c)
              (lease_row owner (hash token) now (clk + lease_duration)) (job_table R)\<rparr>"
proof -
  have okR: "db_ok R" using ok reconcile_table_step db_ok_table_step R by blast
  obtain c where c: "find M (claim_order (filter (claimable R target now) (job_table R))) = Some c"
    and t: "take_lease (claimable R target now) owner token (hash token) now (clk + lease_duration)
      (ulid_string (job_id c)) R = (Inr (Some L), db')"
    using b by (auto simp: claimMatchingBody_def Let_def R M split: option.splits)
  note first = claim_order_first[OF c]
  have cin: "c \<in> set (job_table R)" using first(1) by simp
  then have "job_id c \<noteq> []" using okR by (auto simp: db_ok_def job_ok_def)
  then have "ulid_string (job_id c) = job_id c" by (simp add: ulid_string_def)
  note t = t[unfolded this]
  have d: "distinct (map job_id (job_table R))" using okR by (simp add: db_ok_def)
  note tl = take_lease_Some[OF t d cin refl]
  show ?thesis
    using first cin tl by (intro bexI[of _ c] conjI) auto
qed

lemma ClaimMatching_Inr:
  "ClaimMatching hash matches target owner token now clk db = (Inr L, db') \<Longrightarrow>
   claimMatchingBody hash matches target owner token now clk db = (Inr (Some L), db')"
  by (auto simp: ClaimMatching_def claim_result_def with_transaction_def
      split: if_splits prod.splits sum.splits option.splits)

text \<open>A successful claim takes, on the database after dependency reconciliation, a queued job
  of the requested target that is due, has attempts left, whose dependencies have all succeeded
  and that the predicate accepts; no other such job has a higher priority, or the same priority and
  an older creation time (ids break ties).  Exactly this row changes: it becomes leased with the
  hash of the token, one more attempt and an expiry 90 seconds after the claim.\<close>
theorem claim_takes_first:
  assumes "db_ok db" and "ClaimMatching hash matches target owner token now clk db = (Inr L, db')"
  shows "\<exists>c \<in> set (job_table (reconcileDependencyFailuresTx now db)).
    claimable (reconcileDependencyFailuresTx now db) target now c \<and>
    (case matches of None \<Rightarrow> True | Some m \<Rightarrow> m c) \<and>
    (\<forall>x \<in> set (job_table (reconcileDependencyFailuresTx now db)).
       claimable (reconcileDependencyFailuresTx now db) target now x \<and>
       (case matches of None \<Rightarrow> True | Some m \<Rightarrow> m x) \<longrightarrow> claim_key c \<le> claim_key x) \<and>
    L = \<lparr>lease_job = lease_row owner (hash token) now (clk + 90000) c, lease_token = token\<rparr> \<and>
    db' = (reconcileDependencyFailuresTx now db)
      \<lparr>job_table := update_where (\<lambda>j. job_id j = job_id c)
         (lease_row owner (hash token) now (clk + 90000)) (job_table (reconcileDependencyFailuresTx now db))\<rparr>"
  using claimMatchingBody_Some[OF ClaimMatching_Inr[OF assms(2)] assms(1) refl refl]
  by (cases matches) (simp_all add: lease_duration_def)

lemma sample_claim:
  "ClaimMatching hash64 None TargetMacOS ''w'' ''t'' 10 20 (sample_db [''a'', ''b''] [(''a'', ''b'')]) =
   (Inr \<lparr>lease_job = lease_row ''w'' (hash64 ''t'') 10 90020 (sample_job ''b''), lease_token = ''t''\<rparr>,
    \<lparr>job_table = [sample_job ''a'', lease_row ''w'' (hash64 ''t'') 10 90020 (sample_job ''b'')],
     job_deps = [(''a'', ''b'')]\<rparr>)"
  by (simp add: claim_eval)

lemma sample_ab_ok: "db_ok (sample_db [''a'', ''b''] [(''a'', ''b'')])"
  by (rule sample_db_ok) (simp_all add: acyclic_def trancl_insert)

theorem claim_takes_first_witness:
  "\<exists>c \<in> set (job_table (reconcileDependencyFailuresTx 10 (sample_db [''a'', ''b''] [(''a'', ''b'')]))).
     lease_row ''w'' (hash64 ''t'') 10 90020 (sample_job ''b'') = lease_row ''w'' (hash64 ''t'') 10 (20 + 90000) c"
  using claim_takes_first[OF sample_ab_ok sample_claim] by force

text \<open>With a valid target and owner, a claim reports that there is no work exactly when no
  row of the reconciled database is claimable for the target and accepted by the predicate; the
  only change it leaves behind is the reconciliation.\<close>
theorem claim_no_work_iff:
  assumes "db_ok db" and "target = TargetServer \<or> target = TargetMacOS" and "\<not> blank owner"
  shows "ClaimMatching hash matches target owner token now clk db =
      (Inl ErrNoWork, reconcileDependencyFailuresTx now db) \<longleftrightarrow>
    \<not> (\<exists>j \<in> set (job_table (reconcileDependencyFailuresTx now db)).
        claimable (reconcileDependencyFailuresTx now db) target now j \<and>
        (case matches of None \<Rightarrow> True | Some m \<Rightarrow> m j))"
proof -
  define R where "R = reconcileDependencyFailuresTx now db"
  define M where "M = (case matches of None \<Rightarrow> (\<lambda>_. True) | Some m \<Rightarrow> m)"
  have M: "(case matches of None \<Rightarrow> True | Some m \<Rightarrow> m j) = M j" for j
    by (simp add: M_def split: option.split)
  have okR: "db_ok R" unfolding R_def using assms(1) reconcile_table_step db_ok_table_step by blast
  let ?rows = "claim_order (filter (claimable R target now) (job_table R))"
  have C: "ClaimMatching hash matches target owner token now clk db =
      claim_result (with_transaction (claimMatchingBody hash matches target owner token now clk) db)"
    using assms(2,3) by (auto simp: ClaimMatching_def)
  have B: "claimMatchingBody hash matches target owner token now clk db =
      (case find M ?rows of None \<Rightarrow> (Inr None, R)
       | Some c \<Rightarrow> take_lease (claimable R target now) owner token (hash token) now
           (clk + lease_duration) (ulid_string (job_id c)) R)"
    unfolding claimMatchingBody_def Let_def R_def M_def ..
  show ?thesis
  proof (cases "find M ?rows")
    case None
    then have "ClaimMatching hash matches target owner token now clk db = (Inl ErrNoWork, R)"
      by (simp add: C B with_transaction_def claim_result_def)
    moreover have "\<not> (\<exists>j \<in> set (job_table R). claimable R target now j \<and> M j)"
      using None by (auto simp: find_None_iff claim_order_def)
    ultimately show ?thesis by (simp add: M flip: R_def)
  next
    case (Some c)
    note first = claim_order_first[OF Some]
    then have c: "c \<in> set (job_table R)" "claimable R target now c" "M c" by auto
    then have "job_id c \<noteq> []" using okR by (auto simp: db_ok_def job_ok_def)
    then have u: "ulid_string (job_id c) = job_id c" by (simp add: ulid_string_def)
    have d: "distinct (map job_id (job_table R))" using okR by (simp add: db_ok_def)
    obtain L db' where "take_lease (claimable R target now) owner token (hash token) now
        (clk + lease_duration) (job_id c) R = (Inr (Some L), db')"
      using take_lease_hits[OF d c(1) refl, of "claimable R target now"] c(2) by blast
    then have "ClaimMatching hash matches target owner token now clk db = (Inr L, db')"
      using Some u by (simp add: C B with_transaction_def claim_result_def)
    with c show ?thesis by (auto simp: M simp flip: R_def)
  qed
qed

theorem claim_no_work_iff_witness:
  "ClaimMatching hash64 (Some (\<lambda>j. job_type j = AnalysisJobType)) TargetMacOS ''w'' ''t'' 10 20
     (sample_db [''a'', ''b''] [(''a'', ''b'')]) =
   (Inl ErrNoWork, reconcileDependencyFailuresTx 10 (sample_db [''a'', ''b''] [(''a'', ''b'')]))"
proof -
  let ?db = "sample_db [''a'', ''b''] [(''a'', ''b'')]"
  have "reconcileDependencyFailuresTx 10 ?db = ?db" by (simp add: claim_eval)
  moreover have "\<forall>j \<in> set (job_table ?db). job_type j \<noteq> AnalysisJobType"
    by (simp add: sample_db_def sample_job_def AVSpeechJobType_def AnalysisJobType_def)
  ultimately show ?thesis
    by (intro iffD2[OF claim_no_work_iff[OF sample_ab_ok]]) (auto simp: sample_not_blank)
qed

section \<open>Fencing of stale leases\<close>

lemma ClaimMatchingCapability_Inr:
  "ClaimMatchingCapability hash target owner jtype token now clk db = (Inr L, db') \<Longrightarrow>
   claimCapabilityBody hash target owner jtype token now clk db = (Inr (Some L), db')"
  by (auto simp: ClaimMatchingCapability_def claim_result_def with_transaction_def
      split: if_splits prod.splits sum.splits option.splits)

text \<open>Both claims lease a row of the reconciled table.\<close>

lemma claimed_row:
  assumes "db_ok db" and "ClaimMatching hash matches target owner token now clk db = (Inr L, db') \<or>
      ClaimMatchingCapability hash target owner jtype token now clk db = (Inr L, db')"
    and R: "R = reconcileDependencyFailuresTx now db"
  shows "\<exists>c \<in> set (job_table R). lease_job L = lease_row owner (hash token) now (clk + lease_duration) c \<and>
    db' = R\<lparr>job_table := update_where (\<lambda>j. job_id j = job_id c)
      (lease_row owner (hash token) now (clk + lease_duration)) (job_table R)\<rparr>"
  using assms(2)
proof
  assume "ClaimMatching hash matches target owner token now clk db = (Inr L, db')"
  from claimMatchingBody_Some[OF ClaimMatching_Inr[OF this] assms(1) R refl] show ?thesis by auto
next
  assume cl: "ClaimMatchingCapability hash target owner jtype token now clk db = (Inr L, db')"
  have okR: "db_ok R" unfolding R using assms(1) reconcile_table_step db_ok_table_step by blast
  let ?lane = "\<lambda>j. claimable R target now j \<and> job_type j = jtype \<and> \<not> owner_busy R owner jtype"
  obtain c cs where rows: "claim_order (filter ?lane (job_table R)) = c # cs"
    and t: "take_lease (capability_guard R target owner jtype now (ulid_string (job_id c))) owner token
      (hash token) now (clk + lease_duration) (ulid_string (job_id c)) R = (Inr (Some L), db')"
    using ClaimMatchingCapability_Inr[OF cl]
    by (auto simp: claimCapabilityBody_def Let_def split: list.splits simp flip: R)
  have "c \<in> set (claim_order (filter ?lane (job_table R)))" using rows by simp
  then have c: "c \<in> set (job_table R)" by (simp add: claim_order_def)
  have "job_id c \<noteq> []" using okR c by (auto simp: db_ok_def job_ok_def)
  then have u: "ulid_string (job_id c) = job_id c" by (simp add: ulid_string_def)
  have d: "distinct (map job_id (job_table R))" using okR by (simp add: db_ok_def)
  from take_lease_Some(3,4)[OF t[unfolded u] d c refl] c show ?thesis by blast
qed

lemma claim_bumps:
  assumes "db_ok db" and "ClaimMatching hash matches target owner token now clk db = (Inr L, db') \<or>
      ClaimMatchingCapability hash target owner jtype token now clk db = (Inr L, db')"
    and "find_by job_id (job_id (lease_job L)) (job_table db) = Some j"
  shows "\<exists>k. find_by job_id (job_id (lease_job L)) (job_table db') = Some k \<and> attempt_count j < attempt_count k"
proof -
  define R where "R = reconcileDependencyFailuresTx now db"
  obtain c where c: "c \<in> set (job_table R)"
    and L: "lease_job L = lease_row owner (hash token) now (clk + lease_duration) c"
    and db': "db' = R\<lparr>job_table := update_where (\<lambda>j. job_id j = job_id c)
              (lease_row owner (hash token) now (clk + lease_duration)) (job_table R)\<rparr>"
    using claimed_row[OF assms(1,2) R_def] by auto
  have step: "table_step db R" unfolding R_def by (rule reconcile_table_step)
  then have "db_ok R" using assms(1) db_ok_table_step by blast
  then have fc: "find_by job_id (job_id c) (job_table R) = Some c"
    using c find_by_unique by (fastforce simp: db_ok_def)
  have idc: "job_id (lease_job L) = job_id c" by (simp add: L lease_row_def)
  have "lifecycle\<^sup>*\<^sup>* j c"
    using grows_find[OF table_step_grows[OF step] assms(3)] fc idc by simp
  then have "attempt_count j \<le> attempt_count c" by (rule lifecycle_rtrancl_attempts)
  moreover have "find_by job_id (job_id c) (job_table db') =
      Some (lease_row owner (hash token) now (clk + lease_duration) c)"
    unfolding db' using fc by (simp add: find_by_update_where lease_row_def)
  ultimately show ?thesis using idc by (simp add: lease_row_def)
qed

text \<open>Every call of a live attempt refuses an attempt number that is not the row's.\<close>

lemma wrong_attempt_refused:
  assumes "find_by job_id (ulid_string jid) (job_table db) = Some k" and "attempt_count k \<noteq> attempt"
  shows "Complete hash jid attempt token now c1 c2 db = (Inl ErrLeaseLost, db)"
    and "validErrorCode code \<Longrightarrow> Fail hash jid attempt token code retry now c1 c2 db = (Inl ErrLeaseLost, db)"
    and "token \<noteq> [] \<Longrightarrow> 0 \<le> progress \<Longrightarrow> progress \<le> 100 \<Longrightarrow>
      Heartbeat hash jid attempt token progress now c1 c2 db = (Inl ErrLeaseLost, db)"
    and "VerifyLease hash jid attempt token owner c1 db = Inl ErrLeaseLost"
  using assms
  by (simp_all add: Complete_def Fail_def finish_def finishTx_def with_transaction_def Heartbeat_def
      heartbeatBody_def VerifyLease_def Get_def)

text \<open>Every call of a live attempt refuses a token whose digest is not the row's, whatever the
  attempt number.\<close>

lemma wrong_token_refused:
  assumes "find_by job_id (ulid_string jid) (job_table db) = Some k"
    and "\<not> constantTokenMatch hash token (lease_token_hash k)"
  shows "Complete hash jid attempt token now c1 c2 db = (Inl ErrLeaseLost, db)"
    and "validErrorCode code \<Longrightarrow> Fail hash jid attempt token code retry now c1 c2 db = (Inl ErrLeaseLost, db)"
    and "token \<noteq> [] \<Longrightarrow> 0 \<le> progress \<Longrightarrow> progress \<le> 100 \<Longrightarrow>
      Heartbeat hash jid attempt token progress now c1 c2 db = (Inl ErrLeaseLost, db)"
    and "VerifyLease hash jid attempt token owner c1 db = Inl ErrLeaseLost"
  using assms
  by (simp_all add: Complete_def Fail_def finish_def finishTx_def with_transaction_def Heartbeat_def
      heartbeatBody_def VerifyLease_def Get_def)

text \<open>C1: fencing.  Take a well-formed job table, any job in it and the attempt count the job has.
  If after any scheduler calls a claim of either kind hands out the same job, then in every state reached from that
  claim by scheduler calls (the calls of internal/jobs, in any order) the old attempt number can no
  longer complete, fail, extend or verify its lease, whatever token it presents: each call reports
  the lease as lost and changes nothing.  Statements outside internal/jobs are not scheduler calls:
  ensureSpeechJobTx (speech/store.go) and the reader's analysis queue (reader/v2_store.go) set the
  attempt count of a job that has ended back to 0, after which an old number can be handed out anew (a
  worker's revocation, in workers/service.go, keeps the count).
  For those the second part holds of every table whatever, however it was written: as long as the row
  does not carry the digest of the presented token, the calls are refused under every attempt number.
  The token digest is assumed to have 64 characters for every token, as SHA-256 in hex has.\<close>
theorem stale_lease_fenced:
  fixes s t u :: "jobs_db \<times> 'd"
  assumes "hash_total hash" and "db_ok (fst s)"
    and "find_by job_id (ulid_string jid) (job_table (fst s)) = Some j"
    and "(job_step hash json_ok cb)\<^sup>*\<^sup>* s t"
    and "ClaimMatching hash matches target owner token now clk (fst t) = (Inr L, db') \<or>
      ClaimMatchingCapability hash target owner jtype token now clk (fst t) = (Inr L, db')"
    and "job_id (lease_job L) = ulid_string jid"
    and "(job_step hash json_ok cb)\<^sup>*\<^sup>* (db', snd t) u"
  shows "Complete hash jid (attempt_count j) tok n c1 c2 (fst u) = (Inl ErrLeaseLost, fst u) \<and>
    (validErrorCode code \<longrightarrow>
      Fail hash jid (attempt_count j) tok code retry n c1 c2 (fst u) = (Inl ErrLeaseLost, fst u)) \<and>
    (tok \<noteq> [] \<and> 0 \<le> progress \<and> progress \<le> 100 \<longrightarrow>
      Heartbeat hash jid (attempt_count j) tok progress n c1 c2 (fst u) = (Inl ErrLeaseLost, fst u)) \<and>
    VerifyLease hash jid (attempt_count j) tok worker c1 (fst u) = Inl ErrLeaseLost \<and>
    (\<forall>v k a. find_by job_id (ulid_string jid) (job_table v) = Some k \<longrightarrow>
      \<not> constantTokenMatch hash tok (lease_token_hash k) \<longrightarrow>
      Complete hash jid a tok n c1 c2 v = (Inl ErrLeaseLost, v) \<and>
      (validErrorCode code \<longrightarrow> Fail hash jid a tok code retry n c1 c2 v = (Inl ErrLeaseLost, v)) \<and>
      (tok \<noteq> [] \<and> 0 \<le> progress \<and> progress \<le> 100 \<longrightarrow>
        Heartbeat hash jid a tok progress n c1 c2 v = (Inl ErrLeaseLost, v)) \<and>
      VerifyLease hash jid a tok worker c1 v = Inl ErrLeaseLost)"
proof -
  note total = hash_total_nonempty[OF assms(1)]
  note st = job_steps_grow[OF assms(4,2) total]
  obtain k where k: "find_by job_id (ulid_string jid) (job_table (fst t)) = Some k" "lifecycle\<^sup>*\<^sup>* j k"
    using grows_find[OF conjunct2[OF st] assms(3)] by blast
  obtain l where l: "find_by job_id (ulid_string jid) (job_table db') = Some l"
      "attempt_count k < attempt_count l"
    using claim_bumps[OF conjunct1[OF st] assms(5)] k(1) assms(6) by auto
  have "table_step (fst t) db'"
    using assms(5) by (elim disjE) (rule ClaimMatching_table_step ClaimMatchingCapability_table_step, assumption, rule total)+
  then have "db_ok db'" using db_ok_table_step st by blast
  then have "grows (job_table db') (job_table (fst u))" using job_steps_grow[OF assms(7) _ total] by simp
  then obtain m where m: "find_by job_id (ulid_string jid) (job_table (fst u)) = Some m" "lifecycle\<^sup>*\<^sup>* l m"
    using grows_find l(1) by blast
  have "attempt_count m \<noteq> attempt_count j"
    using lifecycle_rtrancl_attempts[OF k(2)] lifecycle_rtrancl_attempts[OF m(2)] l(2) by linarith
  note old = wrong_attempt_refused[OF m(1) this]
  show ?thesis by (simp add: old wrong_token_refused)
qed

text \<open>Job a is leased as attempt 1 and its worker vanishes.  The recovery sweep at the expiry of the
  lease queues it again, and another worker leases it as attempt 2.  The first worker comes back
  with the token it was given.\<close>

definition requeued_job :: job where
  "requeued_job = expire_row Queued 105000 90006 leased_job"

definition taken_over :: job where
  "taken_over = lease_row ''x'' (hash64 ''u'') 105000 195000 requeued_job"

lemma lost_lease_recovers:
  "RecoverExpired None (\<lambda>_. 100000) 90006 (one_db leased_job, ()) = (Inr 1, (one_db requeued_job, ()))"
  by (simp add: RecoverExpired_def with_transaction_def recoverExpiredBody_def one_db_def leased_job_def
      lease_row_def sample_job_def expired_lease_def active_def ts_le_now_def recover_item_def Let_def
      count_where_def update_where_def expire_row_def backoffForAttempt_def retry_backoff_def
      reconcile_none dep_failed_def dep_in_state_def requeued_job_def)

lemma taken_over_claim:
  "ClaimMatching hash64 None TargetMacOS ''x'' ''u'' 105000 105000 (one_db requeued_job) =
     (Inr \<lparr>lease_job = taken_over, lease_token = ''u''\<rparr>, one_db taken_over)"
  by (simp add: claim_eval one_db_def taken_over_def requeued_job_def leased_job_def expire_row_def
      ascii_blank byte_def is_space_def)

theorem stale_lease_fenced_witness:
  "attempt_count leased_job = 1 \<and> attempt_count taken_over = 2 \<and>
   VerifyLease hash64 ''a'' 1 ''t'' ''w'' 106000 (one_db leased_job) = Inl ErrLeaseExpired \<and>
   Complete hash64 ''a'' 1 ''t'' 106000 106000 106000 (one_db taken_over) =
     (Inl ErrLeaseLost, one_db taken_over)"
proof -
  have rec: "(job_step hash64 (\<lambda>_. True) None)\<^sup>*\<^sup>* (one_db leased_job, ()) (one_db requeued_job, ())"
    using job_step.recover[OF lost_lease_recovers] by blast
  have ok: "db_ok (fst (one_db leased_job, ()))" by (simp add: one_db_ok leased_job_ok(1))
  have f: "find_by job_id (ulid_string ''a'') (job_table (fst (one_db leased_job, ()))) = Some leased_job"
    by (simp add: ulid_string_def one_db_def find_by_def leased_job_def lease_row_def sample_job_def)
  have c: "ClaimMatching hash64 None TargetMacOS ''x'' ''u'' 105000 105000 (fst (one_db requeued_job, ())) =
      (Inr \<lparr>lease_job = taken_over, lease_token = ''u''\<rparr>, one_db taken_over)"
    using taken_over_claim by simp
  have "Complete hash64 ''a'' (attempt_count leased_job) ''t'' 106000 106000 106000 (fst (one_db taken_over, ())) =
      (Inl ErrLeaseLost, fst (one_db taken_over, ()))"
    by (rule conjunct1[OF stale_lease_fenced[OF hash64_total ok f rec disjI1[OF c]]])
      (simp_all add: ulid_string_def taken_over_def requeued_job_def expire_row_def
        leased_job_def lease_row_def sample_job_def)
  moreover have "attempt_count leased_job = 1"
    by (simp add: leased_job_def lease_row_def sample_job_def)
  moreover have "attempt_count taken_over = 2"
    by (simp add: taken_over_def requeued_job_def expire_row_def leased_job_def lease_row_def sample_job_def)
  moreover have "VerifyLease hash64 ''a'' 1 ''t'' ''w'' 106000 (one_db leased_job) = Inl ErrLeaseExpired"
    by (simp add: VerifyLease_def Get_def one_db_def find_by_def ulid_is_zero_def zeroULID_def ulid_string_def
        leased_job_def lease_row_def sample_job_def sample_not_blank active_def constantTokenMatch_def
        hash64_def)
  ultimately show ?thesis by simp
qed

section \<open>Capability lanes\<close>

text \<open>C29: after a worker has claimed a job through a capability lane, that job has the lane's
  type and is the only job of the type that the worker holds a lease on.\<close>
theorem capability_lane_exclusive:
  assumes ok: "db_ok db"
    and cl: "ClaimMatchingCapability hash target owner jtype token now clk db = (Inr L, db')"
  shows "\<forall>a. a \<in> set (job_table db') \<and> active a \<and> lease_owner a = owner \<and> job_type a = jtype
    \<longleftrightarrow> a = lease_job L"
proof -
  define R where "R = reconcileDependencyFailuresTx now db"
  have okR: "db_ok R" unfolding R_def using ok reconcile_table_step db_ok_table_step by blast
  let ?lane = "\<lambda>j. claimable R target now j \<and> job_type j = jtype \<and> \<not> owner_busy R owner jtype"
  obtain c cs where rows: "claim_order (filter ?lane (job_table R)) = c # cs"
    and t: "take_lease (capability_guard R target owner jtype now (ulid_string (job_id c))) owner token
      (hash token) now (clk + lease_duration) (ulid_string (job_id c)) R = (Inr (Some L), db')"
    using ClaimMatchingCapability_Inr[OF cl]
    by (auto simp: claimCapabilityBody_def Let_def split: list.splits simp flip: R_def)
  have "c \<in> set (claim_order (filter ?lane (job_table R)))" using rows by simp
  then have c: "c \<in> set (job_table R)" "job_type c = jtype" "\<not> owner_busy R owner jtype"
    by (auto simp: claim_order_def)
  have "job_id c \<noteq> []" using okR c(1) by (auto simp: db_ok_def job_ok_def)
  then have u: "ulid_string (job_id c) = job_id c" by (simp add: ulid_string_def)
  have d: "distinct (map job_id (job_table R))" using okR by (simp add: db_ok_def)
  note tl = take_lease_Some[OF t[unfolded u] d c(1) refl]
  have same: "x = c" if "x \<in> set (job_table R)" "job_id x = job_id c" for x
    using that c(1) d by (metis distinct_map inj_onD)
  show ?thesis
  proof (intro allI iffI)
    fix a assume a: "a \<in> set (job_table db') \<and> active a \<and> lease_owner a = owner \<and> job_type a = jtype"
    then obtain r where r: "r \<in> set (job_table R)"
      "a = (if job_id r = job_id c then lease_row owner (hash token) now (clk + lease_duration) r else r)"
      using tl(4) by (auto simp: set_update_where)
    with a c(3) have "job_id r = job_id c" by (auto simp: owner_busy_def split: if_splits)
    moreover from this have "r = c" using r(1) same by blast
    ultimately show "a = lease_job L" using r(2) tl(3) by simp
  next
    fix a assume "a = lease_job L"
    then show "a \<in> set (job_table db') \<and> active a \<and> lease_owner a = owner \<and> job_type a = jtype"
      using tl(3,4) c(1,2) by (auto simp: set_update_where lease_row_def active_def)
  qed
qed

lemma sample_capability:
  "ClaimMatchingCapability hash64 TargetMacOS ''w'' AVSpeechJobType ''t'' 10 20 (sample_db [''a''] []) =
   (Inr \<lparr>lease_job = lease_row ''w'' (hash64 ''t'') 10 90020 (sample_job ''a''), lease_token = ''t''\<rparr>,
    \<lparr>job_table = [lease_row ''w'' (hash64 ''t'') 10 90020 (sample_job ''a'')], job_deps = []\<rparr>)"
  by (simp add: claim_eval)

theorem capability_lane_exclusive_witness:
  "lease_row ''w'' (hash64 ''t'') 10 90020 (sample_job ''a'') \<in>
    {a \<in> set (job_table \<lparr>job_table = [lease_row ''w'' (hash64 ''t'') 10 90020 (sample_job ''a'')], job_deps = []\<rparr>).
      active a \<and> lease_owner a = ''w''}"
  using capability_lane_exclusive[OF sample_db_ok[of "[''a'']" "[]"] sample_capability, THEN spec,
      of "lease_row ''w'' (hash64 ''t'') 10 90020 (sample_job ''a'')"]
  by (simp add: acyclic_def)

section \<open>Dependency failures\<close>

text \<open>A queued job is doomed when a chain of dependencies through queued jobs leads from it to a
  job that has failed or been canceled.\<close>

inductive doomed :: "jobs_db \<Rightarrow> job \<Rightarrow> bool" for db :: jobs_db where
  doomed_direct: "dep_failed db j \<Longrightarrow> doomed db j"
| doomed_chain: "job_state j = Queued \<Longrightarrow> (job_id j, job_id d) \<in> set (job_deps db) \<Longrightarrow>
    d \<in> set (job_table db) \<Longrightarrow> doomed db d \<Longrightarrow> doomed db j"

inductive_simps doomed_unfold: "doomed db j"

lemma doomed_queued: "doomed db j \<Longrightarrow> job_state j = Queued"
  by (auto simp: doomed_unfold[of db j] dep_failed_def)

definition fail_rows :: "(job \<Rightarrow> bool) \<Rightarrow> nat \<Rightarrow> jobs_db \<Rightarrow> jobs_db" where
  "fail_rows Q now db = db\<lparr>job_table := update_where Q (fail_dependency now) (job_table db)\<rparr>"

lemma fail_rows_map:
  "fail_rows Q now db = db\<lparr>job_table := map (\<lambda>r. if Q r then fail_dependency now r else r) (job_table db)\<rparr>"
  by (simp add: fail_rows_def update_where_def)

lemma fail_rows_pass:
  assumes "\<forall>r. Q r \<longrightarrow> doomed db r"
  shows "\<exists>Q'. (\<forall>r. Q' r \<longrightarrow> doomed db r) \<and> reconcile_pass now (fail_rows Q now db) = fail_rows Q' now db"
proof -
  let ?E = "fail_rows Q now db"
  let ?Q' = "\<lambda>r. Q r \<or> dep_failed ?E r"
  have "doomed db r" if df: "dep_failed ?E r" for r
  proof -
    obtain e d' where e: "e \<in> set (job_deps db)" "fst e = job_id r" "d' \<in> set (job_table ?E)"
        "job_id d' = snd e" "job_state d' = Failed \<or> job_state d' = Canceled"
      and q: "job_state r = Queued"
      using df by (auto simp: dep_failed_def dep_in_state_def fail_rows_def)
    obtain d where d: "d \<in> set (job_table db)" "d' = (if Q d then fail_dependency now d else d)"
      using e(3) by (auto simp: fail_rows_def set_update_where)
    have edge: "(job_id r, job_id d) \<in> set (job_deps db)"
    proof -
      have "e = (job_id r, job_id d)"
        using e(2,4) d(2) by (intro prod_eqI) (auto simp: fail_dependency_def split: if_splits)
      with e(1) show ?thesis by simp
    qed
    show ?thesis
    proof (cases "Q d")
      case True
      then show ?thesis using doomed_chain[OF q edge d(1)] assms by blast
    next
      case False
      with d(2) have "job_state d = Failed \<or> job_state d = Canceled" using e(5) by simp
      then have "dep_failed db r"
        using q edge d(1) by (auto simp: dep_failed_def dep_in_state_def intro!: bexI[OF _ edge])
      then show ?thesis by (rule doomed_direct)
    qed
  qed
  moreover have "reconcile_pass now ?E = fail_rows ?Q' now db"
  proof -
    have step: "(if dep_failed ?E (if Q r then fail_dependency now r else r)
        then fail_dependency now (if Q r then fail_dependency now r else r)
        else (if Q r then fail_dependency now r else r)) = (if ?Q' r then fail_dependency now r else r)" for r
      by (auto simp: dep_failed_def fail_dependency_def)
    have rows: "job_table ?E = map (\<lambda>r. if Q r then fail_dependency now r else r) (job_table db)"
      and upd: "?E\<lparr>job_table := x\<rparr> = db\<lparr>job_table := x\<rparr>" for x
      by (simp_all add: fail_rows_def update_where_def)
    have eq: "update_where (dep_failed ?E) (fail_dependency now) (job_table ?E) =
        map (\<lambda>r. if ?Q' r then fail_dependency now r else r) (job_table db)"
      unfolding rows update_where_def map_map o_def step ..
    have "reconcile_pass now ?E =
        db\<lparr>job_table := map (\<lambda>r. if ?Q' r then fail_dependency now r else r) (job_table db)\<rparr>"
      unfolding reconcile_pass_def upd eq ..
    also have "\<dots> = fail_rows ?Q' now db" by (rule fail_rows_map[symmetric])
    finally show ?thesis .
  qed
  ultimately show ?thesis
    by (intro exI[of _ ?Q'] conjI) (use assms in \<open>simp_all\<close>)
qed

lemma reconcile_fails_doomed:
  "\<forall>r. Q r \<longrightarrow> doomed db r \<Longrightarrow> cur = fail_rows Q now db \<Longrightarrow>
   \<exists>Q'. (\<forall>r. Q' r \<longrightarrow> doomed db r) \<and> reconcileDependencyFailuresTx now cur = fail_rows Q' now db
     \<and> (\<forall>j \<in> set (job_table (fail_rows Q' now db)). \<not> dep_failed (fail_rows Q' now db) j)"
proof (induction now cur arbitrary: Q rule: reconcileDependencyFailuresTx.induct)
  case (1 now cur)
  show ?case
  proof (cases "count_where (dep_failed cur) (job_table cur) = 0")
    case True
    then have "\<forall>j \<in> set (job_table cur). \<not> dep_failed cur j" by (simp add: count_where_0)
    note none = this[unfolded 1(3)]
    show ?thesis
      unfolding 1(3) using 1(2) none reconcile_none[OF none, of now] by (intro exI[of _ Q]) simp
  next
    case False
    obtain Q' where Q': "\<forall>r. Q' r \<longrightarrow> doomed db r" "reconcile_pass now cur = fail_rows Q' now db"
      using fail_rows_pass[OF 1(2)] 1(3) by blast
    show ?thesis
      using 1(1)[OF False Q'] False by (simp add: reconcileDependencyFailuresTx.simps[of now cur])
  qed
qed

lemma doomed_all_failed:
  assumes "\<forall>r. Q r \<longrightarrow> doomed db r"
    and stable: "\<forall>j \<in> set (job_table (fail_rows Q now db)). \<not> dep_failed (fail_rows Q now db) j"
    and "doomed db j" and "j \<in> set (job_table db)"
  shows "Q j"
  using assms(3,4)
proof (induction rule: doomed.induct)
  case (doomed_direct j)
  then obtain e d where e: "e \<in> set (job_deps db)" "fst e = job_id j" "d \<in> set (job_table db)"
      "job_id d = snd e" "job_state d = Failed \<or> job_state d = Canceled" "job_state j = Queued"
    by (auto simp: dep_failed_def dep_in_state_def)
  show ?case
  proof (rule ccontr)
    assume nq: "\<not> Q j"
    have "\<not> Q d" using assms(1) e(5) doomed_queued by fastforce
    then have "d \<in> set (job_table (fail_rows Q now db))"
      using e(3) by (force simp: fail_rows_def set_update_where)
    then have "dep_failed (fail_rows Q now db) j"
      using e by (auto simp: dep_failed_def dep_in_state_def fail_rows_def)
    moreover have "j \<in> set (job_table (fail_rows Q now db))"
      using doomed_direct(2) nq by (force simp: fail_rows_def set_update_where)
    ultimately show False using stable by blast
  qed
next
  case (doomed_chain j d)
  show ?case
  proof (rule ccontr)
    assume nq: "\<not> Q j"
    have "Q d" using doomed_chain by blast
    then have "fail_dependency now d \<in> set (job_table (fail_rows Q now db))"
      using doomed_chain(3) by (force simp: fail_rows_def set_update_where)
    moreover have "(job_id j, job_id d) \<in> set (job_deps (fail_rows Q now db))"
      using doomed_chain(2) by (simp add: fail_rows_def)
    ultimately have "dep_failed (fail_rows Q now db) j"
      using doomed_chain(1) unfolding dep_failed_def dep_in_state_def
      by (intro conjI bexI[of _ "(job_id j, job_id d)"] bexI[of _ "fail_dependency now d"])
        (simp_all add: fail_dependency_def)
    moreover have "j \<in> set (job_table (fail_rows Q now db))"
      using doomed_chain.prems nq by (force simp: fail_rows_def set_update_where)
    ultimately show False using stable by blast
  qed
qed

text \<open>C11: reconciliation fails exactly the doomed jobs.  The loop of conditional updates, run until
  it changes nothing, fails every queued job that depends, directly or through other queued jobs,
  on a failed or canceled one, with the dependency error code, and leaves all other rows and every
  edge as they were.\<close>
theorem reconcile_exact:
  "reconcileDependencyFailuresTx now db =
     db\<lparr>job_table := map (\<lambda>j. if doomed db j then fail_dependency now j else j) (job_table db)\<rparr>"
proof -
  have "db = fail_rows (\<lambda>_. False) now db" by (simp add: fail_rows_def update_where_def)
  then obtain Q where Q: "\<forall>r. Q r \<longrightarrow> doomed db r"
    and r: "reconcileDependencyFailuresTx now db = fail_rows Q now db"
    and none: "\<forall>j \<in> set (job_table (fail_rows Q now db)). \<not> dep_failed (fail_rows Q now db) j"
    using reconcile_fails_doomed[of "\<lambda>_. False" db db now] by blast
  have "Q j \<longleftrightarrow> doomed db j" if "j \<in> set (job_table db)" for j
    using that Q doomed_all_failed[OF Q none] by blast
  then show ?thesis unfolding r fail_rows_def update_where_def by simp
qed

section \<open>Dependency cycles\<close>

lemma count_two_distinct:
  assumes "distinct (map job_id rows)" and "a \<in> job_id ` set rows" "b \<in> job_id ` set rows" "a \<noteq> b"
  shows "count_where (\<lambda>j. job_id j = a \<or> job_id j = b) rows = 2"
proof -
  have one: "count_where (\<lambda>j. job_id j = v) rows = 1" if "v \<in> job_id ` set rows" for v
    using that count_where_distinct_key[OF assms(1), of "\<lambda>j. job_id j = v" v]
      count_where_0[of "\<lambda>j. job_id j = v" rows] by fastforce
  have "count_where (\<lambda>j. job_id j = a \<or> job_id j = b) rows
      = count_where (\<lambda>j. job_id j = a) rows + count_where (\<lambda>j. job_id j = b) rows" for rows
    using assms(4) by (induction rows) (auto simp: count_where_def)
  from this[of rows] one[OF assms(2)] one[OF assms(3)] show ?thesis by linarith
qed

text \<open>C30: a dependency between two existing jobs is recorded exactly when the dependency graph stays
  acyclic with it; otherwise the call reports a cycle and changes nothing.\<close>
theorem AddDependency_iff_acyclic:
  assumes "db_ok db" and "\<not> ulid_is_zero jid" and "\<not> ulid_is_zero did"
    and "jid \<in> job_ids db" and "did \<in> job_ids db"
  shows "AddDependency jid did db =
    (if acyclic (insert (jid, did) (set (job_deps db)))
     then (Inr (), db\<lparr>job_deps := List.insert (jid, did) (job_deps db)\<rparr>)
     else (Inl (JobError ''add dependency'' (if jid = did then ''validation'' else ''conflict'') ErrCycle), db))"
proof -
  have u: "ulid_string jid = jid" "ulid_string did = did"
    using assms(2,3) by (auto simp: ulid_string_def ulid_is_zero_def)
  show ?thesis
  proof (cases "jid = did")
    case True
    then have "\<not> acyclic (insert (jid, did) (set (job_deps db)))" by (auto simp: acyclic_def)
    with True show ?thesis by (simp add: AddDependency_def)
  next
    case False
    have "count_where (\<lambda>j. job_id j = jid \<or> job_id j = did) (job_table db) = 2"
      using assms False by (intro count_two_distinct) (auto simp: db_ok_def job_ids_def)
    moreover have "jid \<in> set (ancestors (job_deps db) did) \<longleftrightarrow>
        \<not> acyclic (insert (jid, did) (set (job_deps db)))"
      using assms(1) False by (auto simp: ancestors_set acyclic_insert db_ok_def rtrancl_eq_or_trancl)
    ultimately show ?thesis
      using False assms(2,3) by (simp add: AddDependency_def addDependencyBody_def u with_transaction_def)
  qed
qed

theorem AddDependency_iff_acyclic_witness:
  "AddDependency ''b'' ''a'' (sample_db [''a'', ''b''] [(''a'', ''b'')]) =
     (Inl (JobError ''add dependency'' ''conflict'' ErrCycle), sample_db [''a'', ''b''] [(''a'', ''b'')])"
proof -
  have "\<not> acyclic (insert (''b'', ''a'') {(''a'', ''b'')})"
    unfolding acyclic_def by (auto intro!: exI[of _ "''a''"] trancl.trancl_into_trancl[OF trancl.r_into_trancl])
  then show ?thesis
    using AddDependency_iff_acyclic[OF sample_ab_ok, of "''b''" "''a''"]
    by (simp add: sample_db_def job_ids_def ulid_is_zero_def zeroULID_def)
qed

section \<open>Recovery\<close>

text \<open>One expired lease: requeued with backoff while attempts remain, else failed.\<close>

definition expire_one :: "(string \<Rightarrow> nat) \<Rightarrow> nat \<Rightarrow> job \<Rightarrow> job" where
  "expire_one clk now j =
     (if attempt_count j < max_attempts j
      then expire_row Queued (clk (job_id j) + backoffForAttempt (attempt_count j)) now j
      else expire_row Failed now now j)"

lemma recover_item_update:
  assumes "recover_item cb clk now item (db, d) = Inr (n, (db', d'))"
    and "distinct (map job_id (job_table db))" and "item \<in> set (job_table db)" and "expired_lease now item"
  shows "n = 1" and "db' = db\<lparr>job_table := update_where (\<lambda>j. job_id j = job_id item) (expire_one clk now) (job_table db)\<rparr>"
proof -
  have one: "x = item" if "x \<in> set (job_table db)" "job_id x = job_id item" for x
    using that assms(2,3) by (metis distinct_map inj_onD)
  have hit: "expire_hit item now item" using assms(4) by (simp add: expired_lease_def)
  define available where "available =
    (if attempt_count item < max_attempts item then clk (job_id item) + backoffForAttempt (attempt_count item) else now)"
  have db': "db' = db\<lparr>job_table := update_where (expire_hit item now)
      (expire_row (expire_state item) available now) (job_table db)\<rparr>"
    and n: "n = count_where (expire_hit item now) (job_table db)"
    using assms(1) by (auto simp: recover_item_def Let_def bind_res_Inr_conv available_def
        split: option.splits if_splits)
  have "count_where (expire_hit item now) (job_table db) \<le> 1"
    by (rule count_where_distinct_key[OF assms(2)]) simp
  moreover have "count_where (expire_hit item now) (job_table db) \<noteq> 0"
    using assms(3) hit unfolding count_where_0 by blast
  ultimately show "n = 1" using n by linarith
  have "update_where (expire_hit item now) (expire_row (expire_state item) available now) (job_table db) =
      update_where (\<lambda>j. job_id j = job_id item) (expire_one clk now) (job_table db)"
    unfolding update_where_def
  proof (intro map_cong refl)
    fix x assume x: "x \<in> set (job_table db)"
    show "(if expire_hit item now x then expire_row (expire_state item) available now x else x) =
        (if job_id x = job_id item then expire_one clk now x else x)"
      using one[OF x] hit by (auto simp: expire_one_def available_def)
  qed
  then show "db' = db\<lparr>job_table := update_where (\<lambda>j. job_id j = job_id item) (expire_one clk now) (job_table db)\<rparr>"
    using db' by simp
qed

lemma update_where_twice:
  assumes "\<And>r. P r \<Longrightarrow> \<not> Q (f r)" and "\<And>r. P r \<Longrightarrow> \<not> Q r"
  shows "update_where Q f (update_where P f rows) = update_where (\<lambda>r. P r \<or> Q r) f rows"
  using assms by (auto simp: update_where_def)

lemma expire_one_id [simp]: "job_id (expire_one clk now j) = job_id j"
  by (simp add: expire_one_def expire_row_def)

lemma recover_items_update:
  assumes "recover_items cb clk now items (db, d) = Inr (n, (db', d'))"
    and "distinct (map job_id (job_table db))" and "distinct (map job_id items)"
    and "\<forall>x \<in> set items. x \<in> set (job_table db) \<and> expired_lease now x"
  shows "n = length items \<and>
    db' = db\<lparr>job_table := update_where (\<lambda>j. job_id j \<in> job_id ` set items) (expire_one clk now) (job_table db)\<rparr>"
  using assms
proof (induction items arbitrary: db d n)
  case Nil
  then show ?case by (simp add: update_where_none)
next
  case (Cons item items)
  obtain n1 db1 d1 n2 where
      1: "recover_item cb clk now item (db, d) = Inr (n1, (db1, d1))"
    and 2: "recover_items cb clk now items (db1, d1) = Inr (n2, (db', d'))" and n: "n = n1 + n2"
    using Cons.prems(1) by (auto simp: bind_res_Inr_conv)
  have item: "n1 = 1" "db1 = db\<lparr>job_table := update_where (\<lambda>j. job_id j = job_id item) (expire_one clk now) (job_table db)\<rparr>"
    using recover_item_update[OF 1 Cons.prems(2)] Cons.prems(4) by simp_all
  have others: "x \<in> set (job_table db1) \<and> expired_lease now x" if x: "x \<in> set items" for x
  proof -
    have "job_id x \<noteq> job_id item" using x Cons.prems(3) by (auto simp: image_iff)
    with x show ?thesis using recover_item_others[OF 1] Cons.prems(4) by auto
  qed
  have keys: "map job_id (job_table db1) = map job_id (job_table db)"
    unfolding item(2) by (simp add: map_update_where_key)
  have tail: "n2 = length items \<and> db' = db1\<lparr>job_table := update_where (\<lambda>j. job_id j \<in> job_id ` set items)
      (expire_one clk now) (job_table db1)\<rparr>"
    using Cons.IH[OF 2] Cons.prems(2,3) keys others by simp
  have fresh: "job_id item \<notin> job_id ` set items" using Cons.prems(3) by simp
  have rows: "job_table db1 = update_where (\<lambda>j. job_id j = job_id item) (expire_one clk now) (job_table db)"
    using item(2) by simp
  have "update_where (\<lambda>j. job_id j \<in> job_id ` set items) (expire_one clk now) (job_table db1) =
      update_where (\<lambda>j. job_id j = job_id item \<or> job_id j \<in> job_id ` set items) (expire_one clk now) (job_table db)"
    unfolding rows by (rule update_where_twice) (use fresh in auto)
  with tail n item(1) show ?case by (simp add: item(2))
qed

text \<open>C31: a committed recovery sweep counts and rewrites exactly the rows whose lease has expired:
  each goes back to the queue with the backoff of its attempt, or fails when no attempt is left,
  and loses its lease; dependent jobs of the failed ones are then failed, and every other row is
  untouched.\<close>
theorem RecoverExpired_exact:
  assumes "db_ok db" and "RecoverExpired cb clk now (db, d) = (Inr n, (db', d'))"
  shows "n = count_where (expired_lease now) (job_table db) \<and>
    db' = reconcileDependencyFailuresTx now
      (db\<lparr>job_table := update_where (expired_lease now) (expire_one clk now) (job_table db)\<rparr>)"
proof -
  let ?items = "filter (expired_lease now) (job_table db)"
  have dist: "distinct (map job_id (job_table db))" using assms(1) by (simp add: db_ok_def)
  obtain db1 where r: "recover_items cb clk now ?items (db, d) = Inr (n, (db1, d'))"
    and db': "db' = reconcileDependencyFailuresTx now db1"
    using assms(2) by (auto simp: RecoverExpired_def with_transaction_Inr recoverExpiredBody_def
        split: sum.splits prod.splits)
  have up: "n = length ?items \<and> db1 = db\<lparr>job_table := update_where (\<lambda>j. job_id j \<in> job_id ` set ?items)
      (expire_one clk now) (job_table db)\<rparr>"
    by (rule recover_items_update[OF r dist]) (auto intro: distinct_map_filter[OF dist])
  have "job_id j \<in> job_id ` set ?items \<longleftrightarrow> expired_lease now j" if j: "j \<in> set (job_table db)" for j
  proof
    assume "job_id j \<in> job_id ` set ?items"
    then obtain x where x: "x \<in> set (job_table db)" "expired_lease now x" "job_id j = job_id x" by auto
    with j have "j = x" using dist by (metis distinct_map inj_onD)
    with x show "expired_lease now j" by simp
  qed (use j in auto)
  then have "update_where (\<lambda>j. job_id j \<in> job_id ` set ?items) (expire_one clk now) (job_table db) =
      update_where (expired_lease now) (expire_one clk now) (job_table db)"
    unfolding update_where_def by (intro map_cong) auto
  with up db' show ?thesis by (simp add: count_where_def)
qed

theorem RecoverExpired_exact_witness:
  "(1::nat) = count_where (expired_lease 90006) (job_table (one_db leased_job)) \<and>
   one_db (expire_row Queued 105000 90006 leased_job) = reconcileDependencyFailuresTx 90006
     ((one_db leased_job)\<lparr>job_table := update_where (expired_lease 90006) (expire_one (\<lambda>_. 100000) 90006)
        (job_table (one_db leased_job))\<rparr>)"
  by (rule RecoverExpired_exact[OF one_db_ok[OF leased_job_ok(1)] lost_lease_recovers[unfolded requeued_job_def]])

section \<open>Enqueue is idempotent\<close>

lemma enqueueTx_existing:
  assumes "find_by idempotency_key (spec_key spec) (job_table db) = Some k"
  shows "enqueueTx fresh clocks spec db = (Inr k, db)"
proof -
  have "spec_key spec \<in> idempotency_key ` set (job_table db)"
    using find_by_Some[OF assms] by force
  then show ?thesis
    using assms by (cases clocks) (simp add: enqueueTx_def Let_def insert_job_def row_of_spec_def getTx_def)
qed

lemma grows_find_key:
  assumes "grows a b" and "find_by idempotency_key v a = Some j"
  shows "\<exists>k. find_by idempotency_key v b = Some k \<and> lifecycle\<^sup>*\<^sup>* j k"
proof -
  obtain old fresh where b: "b = old @ fresh" "list_all2 lifecycle\<^sup>*\<^sup>* a old"
    using assms(1) by (auto simp: grows_def)
  have "\<exists>k. find_by idempotency_key v old = Some k \<and> lifecycle\<^sup>*\<^sup>* j k"
    using b(2) assms(2)
  proof (induction rule: list_all2_induct)
    case Nil
    then show ?case by (simp add: find_by_def)
  next
    case (Cons x xs y ys)
    have "idempotency_key y = idempotency_key x"
      using lifecycle_rtrancl_identity[OF Cons(1)] by (simp add: same_identity_def)
    with Cons show ?case by (auto simp: find_by_def split: if_splits)
  qed
  with b(1) show ?thesis by (auto simp: find_by_append)
qed

lemma Enqueue_Inr_find:
  assumes "Enqueue json_ok fresh clocks spec db = (Inr j, db')"
  shows "find_by idempotency_key (spec_key spec) (job_table db') = Some j"
proof -
  obtain spec' where v: "validateSpec json_ok spec = Inr spec'"
    and e: "enqueueTx fresh clocks spec' db = (Inr j, db')"
    using assms by (auto simp: Enqueue_def with_transaction_Inr split: sum.splits)
  have "getTx (spec_key spec') db' = Inr j"
    using e by (cases clocks) (auto simp: enqueueTx_def Let_def split: sum.splits if_splits)
  then show ?thesis using validateSpec_Inr(4)[OF v] by (simp add: getTx_def split: option.splits)
qed

text \<open>Enqueuing is idempotent over time.  Once a job has been enqueued under a key, enqueuing any
  valid specification with that key later, after whatever other calls, adds nothing and returns the
  current row of that same job, a descendant of the one first returned.\<close>
theorem Enqueue_idempotent:
  fixes d :: 'd
  assumes "hash_total hash" and "db_ok db"
    and "Enqueue json_ok fresh clocks spec db = (Inr j, db1)"
    and "(job_step hash json_ok cb)\<^sup>*\<^sup>* (db1, d) t"
    and "validateSpec json_ok again = Inr spec'" and "spec_key again = spec_key spec"
  shows "\<exists>k. Enqueue json_ok fresh' clocks' again (fst t) = (Inr k, fst t) \<and> lifecycle\<^sup>*\<^sup>* j k"
proof -
  have "db_ok (fst (db1, d))" using Enqueue_enqueued[OF assms(3)] db_ok_enqueued assms(2) by simp
  then have g: "grows (job_table db1) (job_table (fst t))"
    using job_steps_grow[OF assms(4) _ hash_total_nonempty[OF assms(1)]] by simp
  obtain k where k: "find_by idempotency_key (spec_key spec) (job_table (fst t)) = Some k" "lifecycle\<^sup>*\<^sup>* j k"
    using grows_find_key[OF g Enqueue_Inr_find[OF assms(3)]] by blast
  have "find_by idempotency_key (spec_key spec') (job_table (fst t)) = Some k"
    using k(1) assms(6) validateSpec_Inr(4)[OF assms(5)] by simp
  then show ?thesis
    using k(2) assms(5) enqueueTx_existing by (auto simp: Enqueue_def with_transaction_def)
qed

theorem Enqueue_idempotent_witness:
  "\<exists>k. Enqueue (\<lambda>_. True) ''g'' (7, 8, 9) sample_spec \<lparr>job_table = [sample_row], job_deps = []\<rparr> =
     (Inr k, \<lparr>job_table = [sample_row], job_deps = []\<rparr>)"
proof -
  have "db_ok empty_db" by (simp add: empty_db_def db_ok_def acyclic_def)
  from Enqueue_idempotent[where cb = None and d = "()" and fresh' = "''g''" and clocks' = "(7, 8, 9)",
      OF hash64_total this sample_enqueue rtranclp.rtrancl_refl sample_spec_valid refl]
  show ?thesis by auto
qed

section \<open>Reporting a failure\<close>

lemma validErrorCode_no_nul:
  assumes "validErrorCode code"
  shows "CHR 0x00 \<notin> set code"
proof -
  have rs: "\<forall>r \<in> set (runes code). 0 < r \<and> r < 0x80"
    using assms by (auto simp: validErrorCode_def byte_def)
  then have "\<forall>c \<in> set code. byte c < 0x80" by (intro low_runes_ascii) simp
  then have "runes code = map byte code" by (rule ascii_runes)
  with rs show ?thesis by (force simp: byte_def)
qed

definition fail_outcome :: "bool \<Rightarrow> string \<Rightarrow> nat \<Rightarrow> nat \<Rightarrow> job \<Rightarrow> job" where
  "fail_outcome retry code now retry_clk j =
     (if retry \<and> attempt_count j < max_attempts j
      then fail_row Queued (retry_clk + backoffForAttempt (attempt_count j)) code now j
      else fail_row Failed now code now j)"

text \<open>When the holder of an active lease reports a failure with a valid code, the call succeeds
  and rewrites that row only: back to the queue with the backoff of the attempt (5, 30, 120
  seconds) when a retry is asked for and attempts remain, otherwise failed; the code is stored and the
  expiry cleared.\<close>
theorem Fail_outcome:
  assumes "db_ok db" and "find_by job_id (ulid_string jid) (job_table db) = Some j" and "active j"
    and "lease_token_hash j = hash token" and "token \<noteq> []" and "validErrorCode code"
  shows "Fail hash jid (attempt_count j) token code retry now live_clk retry_clk db =
    (Inr (), db\<lparr>job_table := update_where (\<lambda>r. job_id r = job_id j)
        (fail_outcome retry code now retry_clk) (job_table db)\<rparr>)"
proof -
  let ?m = "if retry then ''true'' else ''false''"
  let ?again = "retry \<and> attempt_count j < max_attempts j"
  have j: "j \<in> set (job_table db)" "job_id j = ulid_string jid" using find_by_Some[OF assms(2)] by auto
  have dist: "distinct (map job_id (job_table db))" using assms(1) by (simp add: db_ok_def)
  have one: "r = j" if "r \<in> set (job_table db)" "job_id r = job_id j" for r
    using that j dist by (metis distinct_map inj_onD)
  have "hash token \<noteq> []" using assms(1,3,4) j(1) by (auto simp: db_ok_def job_ok_def)
  then have tok: "constantTokenMatch hash token (lease_token_hash j)"
    using assms(4,5) by (simp add: constantTokenMatch_def)
  have split: "split_first (CHR 0x00) (code @ CHR 0x00 # ?m) = [code, ?m]"
    by (rule split_first_hit) (rule validErrorCode_no_nul[OF assms(6)])
  have st: "job_state j \<noteq> Failed" "job_state j \<noteq> Canceled" "job_state j \<noteq> Queued"
    using assms(3) by (auto simp: active_def)
  have row: "update_where (attempt_row hash jid (attempt_count j) token)
      (fail_row (if ?again then Queued else Failed)
        (if ?again then retry_clk + backoffForAttempt (attempt_count j) else now) code now) (job_table db) =
    update_where (\<lambda>r. job_id r = job_id j) (fail_outcome retry code now retry_clk) (job_table db)"
    unfolding update_where_def
  proof (intro map_cong refl)
    fix r assume r: "r \<in> set (job_table db)"
    have "attempt_row hash jid (attempt_count j) token r \<longleftrightarrow> job_id r = job_id j"
      using one[OF r] j assms(3,4) by (auto simp: attempt_row_def)
    then show "(if attempt_row hash jid (attempt_count j) token r
        then fail_row (if ?again then Queued else Failed)
          (if ?again then retry_clk + backoffForAttempt (attempt_count j) else now) code now r else r) =
      (if job_id r = job_id j then fail_outcome retry code now retry_clk r else r)"
      using one[OF r] by (cases "job_id r = job_id j") (simp_all add: fail_outcome_def)
  qed
  have r: "(length [code, ?m] = 2 \<and> [code, ?m] ! 1 = ''true'') = retry" by simp
  have "finishTx hash jid (attempt_count j) token False (code @ CHR 0x00 # ?m) now live_clk retry_clk db =
    (Inr (), db\<lparr>job_table := update_where (attempt_row hash jid (attempt_count j) token)
      (fail_row (if ?again then Queued else Failed)
        (if ?again then retry_clk + backoffForAttempt (attempt_count j) else now) code now) (job_table db)\<rparr>)"
    unfolding finishTx_def Let_def split r using assms(2,5) tok st by simp
  then show ?thesis
    unfolding row using assms(5,6) by (simp add: Fail_def finish_def with_transaction_def)
qed

lemma sample_code: "validErrorCode ''v1.x''"
  by (simp add: validErrorCode_def has_prefix_def ascii_runes byte_def)

theorem Fail_outcome_witness:
  "Fail hash64 ''a'' 1 ''t'' ''v1.x'' True 7 8 9 (one_db leased_job) =
     (Inr (), one_db (fail_row Queued (9 + 5000) ''v1.x'' 7 leased_job))"
proof -
  have "find_by job_id (ulid_string ''a'') (job_table (one_db leased_job)) = Some leased_job"
    by (simp add: one_db_def find_by_def leased_job_def lease_row_def ulid_string_def)
  moreover have "lease_token_hash leased_job = hash64 ''t''" "attempt_count leased_job = 1"
      "max_attempts leased_job = 3"
    by (simp_all add: leased_job_def lease_row_def sample_job_def)
  ultimately show ?thesis
    using Fail_outcome[OF one_db_ok[OF leased_job_ok(1)], where j = leased_job and jid = "''a''"
        and hash = hash64 and token = "''t''" and code = "''v1.x''" and retry = True and now = 7
        and live_clk = 8 and retry_clk = 9] leased_job_ok(2) sample_code
    by (simp add: one_db_def update_where_def fail_outcome_def backoffForAttempt_def retry_backoff_def)
qed

end
