(* ===== verification/LLM_Wait.thy ===== *)
theory LLM_Wait
  imports LLM_Relay Jobs_Props
begin

text \<open>
  The durable wait ends: when no process touches the waited job or the workers any more, the lease runs out, the presence
  of every worker runs out, and the loop returns.
\<close>

section \<open>Worlds that leave a job alone\<close>

abbreviation job_row :: "string \<Rightarrow> 'z hub_db_scheme \<Rightarrow> job option" where
  "job_row jid db \<equiv> find_by job_id (ulid_string jid) (job_table (hub_jobs db))"

definition leaves_alone :: "string \<Rightarrow> ('z hub_db_scheme \<Rightarrow> 'z hub_db_scheme) \<Rightarrow> bool" where
  "leaves_alone jid f \<longleftrightarrow>
     (\<forall>db. hub_workers (f db) = hub_workers db \<and> job_row jid (f db) = job_row jid db \<and>
        (db_ok (hub_jobs db) \<longrightarrow> db_ok (hub_jobs (f db))))"

definition quiet_poll :: "string \<Rightarrow> 'z hub_db_scheme poll \<Rightarrow> bool" where
  "quiet_poll jid p \<longleftrightarrow> pl_ctx p = None \<and> leaves_alone jid (pl_world p) \<and> leaves_alone jid (pl_world2 p)"

lemma leaves_aloneD:
  assumes "leaves_alone jid f"
  shows "hub_workers (f db) = hub_workers db" "job_row jid (f db) = job_row jid db"
    "db_ok (hub_jobs db) \<Longrightarrow> db_ok (hub_jobs (f db))"
  using assms by (simp_all add: leaves_alone_def)

section \<open>Presence runs out\<close>

definition seen_by :: "nat \<Rightarrow> 'z hub_db_scheme \<Rightarrow> bool" where
  "seen_by t db \<longleftrightarrow> (\<forall>w \<in> set (hub_workers db). \<forall>x. wk_relay_seen w = Some x \<or> wk_seen w = Some x \<longrightarrow> x \<le> t)"

lemma Available_out:
  assumes "seen_by t db" and "t + PresenceWindow \<le> now"
  shows "\<not> Available now db"
proof -
  have "\<not> seen_within (wk_relay_seen w) now \<and> \<not> seen_within (wk_seen w) now" if "w \<in> set (hub_workers db)" for w
    using assms that by (fastforce simp: seen_by_def seen_within_def split: option.splits)
  then show ?thesis by (auto simp: Available_def legacy_present_def common_present_def)
qed

section \<open>Recovery of the waited job\<close>

lemma reconcile_find:
  assumes "find_by job_id v (job_table db) = Some j"
  shows "\<exists>k. find_by job_id v (job_table (reconcileDependencyFailuresTx now db)) = Some k \<and> (k = j \<or> k = fail_dependency now j)"
proof -
  have "db = fail_rows (\<lambda>_. False) now db" by (simp add: fail_rows_def update_where_def)
  then obtain Q where r: "reconcileDependencyFailuresTx now db = fail_rows Q now db"
    using reconcile_fails_doomed[of "\<lambda>_. False" db db now] by blast
  have "find_by job_id v (job_table (fail_rows Q now db)) =
      map_option (\<lambda>r. if Q r then fail_dependency now r else r) (find_by job_id v (job_table db))"
    unfolding fail_rows_def by (simp add: find_by_update_where fail_dependency_def)
  then show ?thesis using assms r by auto
qed

lemma recover_waited:
  assumes "db_ok db" and "find_by job_id (ulid_string jid) (job_table db) = Some j" and "active j"
    and "\<not> ulid_is_zero jid" and "RecoverExpiredJob None (\<lambda>_. now) now jid (db, ()) = (r, (db', u))"
  shows "(db' = db \<and> r = Inr False \<and> \<not> ts_le_now (lease_expires_at j) now) \<or>
    (r = Inr True \<and> (\<exists>k. find_by job_id (ulid_string jid) (job_table db') = Some k \<and> \<not> active k))"
proof (cases "ts_le_now (lease_expires_at j) now")
  case False
  then show ?thesis
    using assms by (auto simp: RecoverExpiredJob_def with_transaction_def recoverExpiredJobBody_def)
next
  case True
  have mem: "j \<in> set (job_table db)" "job_id j = ulid_string jid" using find_by_Some[OF assms(2)] by auto
  have "job_ok j" using assms(1) mem(1) by (simp add: db_ok_def)
  then have e: "lease_expires_at j \<noteq> None" using assms(3) by (auto simp: job_ok_def)
  have x: "expired_lease now j" using assms(3) True e by (simp add: expired_lease_def)
  have dist: "distinct (map job_id (job_table db))" using assms(1) by (simp add: db_ok_def)
  obtain n db1 where ri: "recover_item None (\<lambda>_. now) now j (db, ()) = Inr (n, (db1, ()))"
    by (auto simp: recover_item_def Let_def)
  note up = recover_item_update[OF ri dist mem(1) x]
  have f1: "find_by job_id (ulid_string jid) (job_table db1) = Some (expire_one (\<lambda>_. now) now j)"
    unfolding up(2) using assms(2) mem(2) by (simp add: find_by_update_where)
  have na: "\<not> active (expire_one (\<lambda>_. now) now j)" by (simp add: expire_one_def expire_row_def active_def)
  obtain k where k: "find_by job_id (ulid_string jid) (job_table (reconcileDependencyFailuresTx now db1)) = Some k"
      "k = expire_one (\<lambda>_. now) now j \<or> k = fail_dependency now (expire_one (\<lambda>_. now) now j)"
    using reconcile_find[OF f1] by blast
  have "\<not> active k" using k(2) na by (auto simp: fail_dependency_def active_def)
  moreover have "r = Inr True \<and> db' = reconcileDependencyFailuresTx now db1"
    using assms(2-5) True e ri up(1)
    by (simp add: RecoverExpiredJob_def with_transaction_def recoverExpiredJobBody_def)
  ultimately show ?thesis using k(1) by blast
qed

section \<open>The loop\<close>

definition waits :: "string \<Rightarrow> nat \<Rightarrow> 'z hub_db_scheme \<Rightarrow> bool" where
  "waits jid t db \<longleftrightarrow> db_ok (hub_jobs db) \<and> seen_by t db \<and>
     (\<forall>j. job_row jid db = Some j \<longrightarrow> active j \<longrightarrow> (\<exists>e. lease_expires_at j = Some e \<and> e \<le> t + PresenceWindow))"

definition holds_lease :: "string \<Rightarrow> 'z hub_db_scheme \<Rightarrow> bool" where
  "holds_lease jid db \<longleftrightarrow> (\<exists>j. job_row jid db = Some j \<and> active j)"

lemma poll_goes_on:
  assumes "wait_poll E jid p db = (None, db')" and "quiet_poll jid p" and "waits jid t db" and "\<not> ulid_is_zero jid"
  shows "waits jid t db'" and "holds_lease jid db' \<Longrightarrow> holds_lease jid db"
    and "t + PresenceWindow \<le> pl_now p \<Longrightarrow> holds_lease jid db \<and> \<not> holds_lease jid db'"
proof -
  let ?a = "pl_world p db" and ?b = "pl_world2 p (pl_world p db)"
  have q: "pl_ctx p = None" "leaves_alone jid (pl_world p)" "leaves_alone jid (pl_world2 p)"
    using assms(2) by (auto simp: quiet_poll_def)
  note w1 = leaves_aloneD[OF q(2)] and w2 = leaves_aloneD[OF q(3)]
  have okb: "db_ok (hub_jobs ?b)" using assms(3) w1(3) w2(3) by (simp add: waits_def)
  have rowb: "job_row jid ?b = job_row jid db" "hub_workers ?b = hub_workers db" using w1 w2 by simp_all
  then have wb: "waits jid t ?b" using assms(3) okb by (simp add: waits_def seen_by_def)
  obtain j where j: "job_row jid db = Some j"
    using assms(1) q(1) w1(2) by (auto simp: wait_poll_def Get_def Let_def split: option.splits)
  have g: "Get jid (hub_jobs ?a) = Inr j" using j w1(2) by (simp add: Get_def)
  have step: "(job_state j = Queued \<and> Available (pl_now p) ?b \<and> db' = ?b) \<or>
      (active j \<and> (\<exists>r jb. RecoverExpiredJob None (\<lambda>_. pl_now p) (pl_now p) jid (hub_jobs ?b, ()) = (Inr r, (jb, ())) \<and>
          db' = ?b\<lparr>hub_jobs := jb\<rparr>))"
    using assms(1) q(1) g
    by (auto simp: wait_poll_def Let_def active_def split: job_state.splits if_splits sum.splits prod.splits)
  have "waits jid t db' \<and> (holds_lease jid db' \<longrightarrow> holds_lease jid db) \<and>
      (t + PresenceWindow \<le> pl_now p \<longrightarrow> holds_lease jid db \<and> \<not> holds_lease jid db')"
    using step
  proof (elim disjE conjE exE)
    assume s: "job_state j = Queued" "Available (pl_now p) ?b" "db' = ?b"
    have "\<not> t + PresenceWindow \<le> pl_now p" using Available_out[of t ?b "pl_now p"] s(2) wb by (auto simp: waits_def)
    moreover have "\<not> holds_lease jid ?b" using rowb(1) j s(1) by (auto simp: holds_lease_def active_def)
    ultimately show ?thesis using s(3) wb by simp
  next
    fix r jb assume s: "active j" "RecoverExpiredJob None (\<lambda>_. pl_now p) (pl_now p) jid (hub_jobs ?b, ()) = (Inr r, (jb, ()))"
      and db': "db' = ?b\<lparr>hub_jobs := jb\<rparr>"
    have fb: "find_by job_id (ulid_string jid) (job_table (hub_jobs ?b)) = Some j" using rowb(1) j by simp
    have h: "holds_lease jid db" using j s(1) by (simp add: holds_lease_def)
    have okj: "db_ok jb" using RecoverExpiredJob_table_step[OF s(2)] okb db_ok_table_step by (auto simp: db_ok_def)
    from recover_waited[OF okb fb s(1) assms(4) s(2)] show ?thesis
    proof (elim disjE conjE exE)
      assume x: "jb = hub_jobs ?b" "\<not> ts_le_now (lease_expires_at j) (pl_now p)"
      then have "db' = ?b" using db' by simp
      moreover obtain e where "lease_expires_at j = Some e" "e \<le> t + PresenceWindow" using wb fb s(1) by (auto simp: waits_def)
      ultimately show ?thesis using wb h x(2) by (auto simp: ts_le_now_def)
    next
      fix k assume k: "find_by job_id (ulid_string jid) (job_table jb) = Some k" "\<not> active k"
      have "\<not> holds_lease jid db'" using k db' by (simp add: holds_lease_def)
      moreover have "waits jid t db'" using wb okj k db' by (simp add: waits_def seen_by_def)
      ultimately show ?thesis using h by simp
    qed
  qed
  then show "waits jid t db'" and "holds_lease jid db' \<Longrightarrow> holds_lease jid db"
    and "t + PresenceWindow \<le> pl_now p \<Longrightarrow> holds_lease jid db \<and> \<not> holds_lease jid db'" by blast+
qed

lemma wait_loop_returns:
  assumes "\<forall>p \<in> set ps. quiet_poll jid p" and "waits jid t db" and "\<not> ulid_is_zero jid"
    and "(if holds_lease jid db then 2 else 1) \<le> length (filter (\<lambda>p. t + PresenceWindow \<le> pl_now p) ps)"
  shows "fst (wait_loop E jid ps db) \<noteq> None"
  using assms(1,2,4)
proof (induction ps arbitrary: db)
  case Nil
  then show ?case by (simp split: if_splits)
next
  case (Cons p ps)
  obtain r db' where w: "wait_poll E jid p db = (r, db')" by (cases "wait_poll E jid p db")
  show ?case
  proof (cases r)
    case (Some x)
    then show ?thesis using w by simp
  next
    case None
    note w = w[unfolded None]
    have q: "quiet_poll jid p" using Cons.prems(1) by simp
    note g = poll_goes_on[OF w q Cons.prems(2) assms(3)]
    have "(if holds_lease jid db' then 2 else 1) \<le> length (filter (\<lambda>p. t + PresenceWindow \<le> pl_now p) ps)"
      using Cons.prems(3) g(2,3) by (cases "t + PresenceWindow \<le> pl_now p"; cases "holds_lease jid db'"; cases "holds_lease jid db") auto
    then have "fst (wait_loop E jid ps db') \<noteq> None" using Cons.IH[OF _ g(1)] Cons.prems(1) by simp
    then show ?thesis using w by simp
  qed
qed

definition PollInterval :: nat where "PollInterval = 250"

lemma late_polls:
  assumes "\<forall>i < length ps. t + PollInterval * i \<le> pl_now (ps ! i)" and "482 \<le> length ps"
  shows "2 \<le> length (filter (\<lambda>p. t + PresenceWindow \<le> pl_now p) ps)"
proof -
  let ?P = "\<lambda>p. t + PresenceWindow \<le> pl_now p"
  have late: "?P (ps ! i)" if "480 \<le> i" "i < length ps" for i
    using assms(1) that by (fastforce simp: PollInterval_def PresenceWindow_def)
  have "\<forall>p \<in> set (drop 480 ps). ?P p"
  proof
    fix p assume "p \<in> set (drop 480 ps)"
    then obtain i where "i < length ps - 480" "p = ps ! (480 + i)" by (auto simp: in_set_conv_nth)
    then show "?P p" using late[of "480 + i"] by simp
  qed
  then have "filter ?P (drop 480 ps) = drop 480 ps" by simp
  then have "length ps - 480 \<le> length (filter ?P ps)"
    by (metis append_take_drop_id filter_append length_append length_drop le_add2)
  then show ?thesis using assms(2) by simp
qed

text \<open>C17: the durable wait of internal/llmrelay ends.  From a moment \<open>t\<close> on, let no process touch the waited job or the
  workers any more (each iteration may still meet any other change of the database), let the lease the job may hold have
  been taken by then and no worker have been seen later; the context is not done.  Then the wait returns within 482
  iterations that are 250 milliseconds apart, two minutes and two polls, whatever state the job is in.\<close>
theorem Wait_returns:
  assumes "db_ok (hub_jobs db)" and "seen_by t db"
    and "\<forall>j e. job_row jid db = Some j \<and> lease_expires_at j = Some e \<longrightarrow> e \<le> t + lease_duration"
    and "\<forall>p \<in> set polls. quiet_poll jid p" and "\<forall>i < length polls. t + PollInterval * i \<le> pl_now (polls ! i)"
    and "482 \<le> length polls"
  shows "fst (Wait E jid polls db) \<noteq> None"
proof (cases "ulid_is_zero jid")
  case True
  then show ?thesis by (simp add: Wait_def)
next
  case False
  have "waits jid t db"
    unfolding waits_def
  proof (intro conjI allI impI assms(1,2))
    fix j assume j: "job_row jid db = Some j" "active j"
    have "job_ok j" using find_by_Some[OF j(1)] assms(1) by (simp add: db_ok_def)
    then obtain e where "lease_expires_at j = Some e" using j(2) by (auto simp: job_ok_def)
    moreover from this have "e \<le> t + lease_duration" using assms(3) j(1) by blast
    ultimately show "\<exists>e. lease_expires_at j = Some e \<and> e \<le> t + PresenceWindow"
      by (auto simp: lease_duration_def PresenceWindow_def)
  qed
  moreover have "(if holds_lease jid db then 2 else 1) \<le> length (filter (\<lambda>p. t + PresenceWindow \<le> pl_now p) polls)"
    using late_polls[OF assms(5,6)] by simp
  ultimately show ?thesis using wait_loop_returns[OF assms(4) _ False] False by (simp add: Wait_def)
qed

definition idle_poll :: "nat \<Rightarrow> hub_db poll" where
  "idle_poll now = \<lparr>pl_ctx = None, pl_world = id, pl_world2 = id, pl_world3 = id, pl_now = now\<rparr>"

definition leased_hub :: hub_db where
  "leased_hub = \<lparr>hub_jobs = one_db leased_job, hub_results = [], hub_workers = [], hub_enrollments = []\<rparr>"

definition sample_svc :: relay_svc where
  "sample_svc = \<lparr>sha = (\<lambda>_. replicate 64 CHR ''0''), float_text = Some, ulid_parse = Some\<rparr>"

lemma leased_hub_row: "job_row jid leased_hub = Some j \<Longrightarrow> j = leased_job"
  by (auto simp: leased_hub_def one_db_def find_by_def split: if_splits)

lemma leased_hub_lease: "lease_expires_at leased_job = Some e \<Longrightarrow> e \<le> 10 + lease_duration"
  by (simp add: leased_job_def lease_row_def lease_duration_def)

theorem Wait_returns_witness:
  "fst (Wait sample_svc (job_id leased_job) (map (\<lambda>i. idle_poll (10 + 250 * i)) [0..<482]) leased_hub) \<noteq> None"
proof (rule Wait_returns)
  show "db_ok (hub_jobs leased_hub)" by (simp add: leased_hub_def one_db_ok leased_job_ok)
  show "seen_by 10 leased_hub" by (simp add: seen_by_def leased_hub_def)
  show "\<forall>j e. job_row (job_id leased_job) leased_hub = Some j \<and> lease_expires_at j = Some e \<longrightarrow> e \<le> 10 + lease_duration"
    using leased_hub_row leased_hub_lease by blast
qed (auto simp: quiet_poll_def leaves_alone_def idle_poll_def PollInterval_def)

end
