(* ===== verification/Go_Json_Compact.thy ===== *)
theory Go_Json_Compact
  imports Go_Json_Struct
begin

text \<open>
  Compaction and nesting: a value that was read is a well-formed tree within the depth limit, compaction keeps it
  well-formed and leaves what \<open>Marshal\<close> wrote unchanged, and a tree can be put deeper as long as the limit allows.
\<close>

section \<open>What is read is well-formed\<close>

lemma scan_string_body: "scan_string st s = Some (b, r) \<Longrightarrow> scan_string st (b @ [quote_char]) = Some (b, [])"
proof (induction st s arbitrary: b r rule: scan_string.induct)
  case (1 st)
  then show ?case by simp
next
  case (2 st c s)
  show ?case
  proof (cases "st = InStr \<and> c = quote_char")
    case True
    then show ?thesis using 2(2) by (simp add: scan_string.simps(2))
  next
    case False
    then obtain st' where n: "str_next st c = Some st'" using 2(2) by (auto simp: scan_string.simps(2) split: option.splits if_splits)
    then obtain b' where b: "scan_string st' s = Some (b', r)" "b = c # b'"
      using 2(2) False by (auto simp: scan_string.simps(2))
    show ?thesis using 2(1)[OF False n b(1)] False n b(2) by (auto simp: scan_string.simps(2))
  qed
qed

lemma scan_string_ok: "scan_string InStr s = Some (b, r) \<Longrightarrow> body_ok b"
  by (simp add: body_ok_def scan_string_body)

lemma digits_self: "digits s = Some (d, r) \<Longrightarrow> digits d = Some (d, []) \<and> d \<noteq> [] \<and> list_all is_digit d"
proof -
  assume "digits s = Some (d, r)"
  then have d: "d = takeWhile is_digit s" "d \<noteq> []" by (auto simp: digits_def split: if_splits)
  then have "list_all is_digit d" by (auto simp: list_all_iff dest: set_takeWhileD)
  then show ?thesis using d(2) digits_all by blast
qed

definition no_digit :: "string \<Rightarrow> bool" where
  "no_digit t \<longleftrightarrow> (case t of [] \<Rightarrow> True | c # u \<Rightarrow> \<not> is_digit c)"

lemma digits_before:
  assumes "digits d = Some (d, [])" and "no_digit t"
  shows "digits (d @ t) = Some (d, t)"
proof -
  have d: "takeWhile is_digit d = d" "d \<noteq> []" using assms(1) by (auto simp: digits_def split: if_splits)
  have t: "takeWhile is_digit t = []" "dropWhile is_digit t = t" using assms(2) by (auto simp: no_digit_def split: list.splits)
  have all: "\<forall>x \<in> set d. is_digit x" using d(1) takeWhile_eq_all_conv[of is_digit d] by blast
  have "takeWhile is_digit (d @ t) = d" "dropWhile is_digit (d @ t) = t" using all t by (simp_all add: takeWhile_append dropWhile_append)
  then show ?thesis using d(2) by (simp add: digits_def)
qed

lemma digits_selfD:
  assumes "digits s = Some (d, r)"
  shows "digits d = Some (d, [])" and "d \<noteq> []" and "is_digit (hd d)"
proof -
  show d: "digits d = Some (d, [])" "d \<noteq> []" using digits_self[OF assms] by simp_all
  show "is_digit (hd d)" using digits_self[OF assms] by (cases d) auto
qed

lemma scan_int_self:
  assumes "scan_int s = Some (i, r)" and "no_digit t"
  shows "scan_int (i @ t) = Some (i, t)"
proof -
  obtain c u where s: "s = c # u" using assms(1) by (cases s) (simp_all add: scan_int_def)
  show ?thesis
  proof (cases "c = CHR ''0''")
    case True
    then show ?thesis using assms(1) s by (auto simp: scan_int_def)
  next
    case False
    then have "digits s = Some (i, r)" using assms(1) s by (simp add: scan_int_def)
    note d = digits_selfD[OF this]
    have "hd i = c" using \<open>digits s = Some (i, r)\<close> s by (auto simp: digits_def split: if_splits)
    then obtain v where "i = c # v" using d(2) by (cases i) auto
    then show ?thesis using False digits_before[OF d(1) assms(2)] by (simp add: scan_int_def)
  qed
qed

lemma scan_frac_self:
  assumes "scan_frac s = Some (f, r)" and "no_digit t" and "t = [] \<or> hd t \<noteq> CHR ''.''"
  shows "scan_frac (f @ t) = Some (f, t)" and "no_digit (f @ t)"
proof -
  have "scan_frac (f @ t) = Some (f, t) \<and> no_digit (f @ t)"
  proof (cases "f = []")
    case True
    then show ?thesis using assms(2,3) by (cases t) (simp_all add: scan_frac_def)
  next
    case False
    then obtain u d where d: "s = CHR ''.'' # u" "digits u = Some (d, r)" "f = CHR ''.'' # d"
      using assms(1) by (auto simp: scan_frac_def split: list.splits if_splits)
    then show ?thesis using digits_before[OF digits_selfD(1)[OF d(2)] assms(2)]
      by (simp add: scan_frac_def no_digit_def is_digit_def byte_def)
  qed
  then show "scan_frac (f @ t) = Some (f, t)" "no_digit (f @ t)" by blast+
qed

lemma scan_exp_self:
  assumes "scan_exp s = Some (e, r)"
  shows "scan_exp e = Some (e, [])" and "no_digit e" and "e = [] \<or> hd e \<noteq> CHR ''.''"
proof -
  have "scan_exp e = Some (e, []) \<and> no_digit e \<and> (e = [] \<or> hd e \<noteq> CHR ''.'')"
  proof (cases "e = []")
    case True
    then show ?thesis by (simp add: scan_exp_def no_digit_def)
  next
    case False
    obtain c t where s: "s = c # t" using assms False by (cases s) (auto simp: scan_exp_def)
    have c: "c = CHR ''e'' \<or> c = CHR ''E''" using assms False s by (auto simp: scan_exp_def split: if_splits)
    obtain x u where t: "t = x # u" using assms s c by (cases t) (auto simp: scan_exp_def split: if_splits)
    have nd: "\<not> is_digit c" "c \<noteq> CHR ''.''" using c by (auto simp: is_digit_def byte_def)
    show ?thesis
    proof (cases "x = CHR ''+'' \<or> x = CHR ''-''")
      case True
      then obtain d where d: "digits u = Some (d, r)" "e = c # x # d" using assms s t c by (auto simp: scan_exp_def)
      then show ?thesis using c True digits_selfD(1)[OF d(1)] nd by (auto simp: scan_exp_def no_digit_def)
    next
      case False
      then obtain d where d: "digits t = Some (d, r)" "e = c # d" using assms s t c by (auto simp: scan_exp_def)
      have "hd d = x" "d \<noteq> []" using d(1) t by (auto simp: digits_def split: if_splits)
      then show ?thesis using c d(2) digits_selfD(1)[OF d(1)] nd False by (cases d) (auto simp: scan_exp_def no_digit_def)
    qed
  qed
  then show "scan_exp e = Some (e, [])" "no_digit e" "e = [] \<or> hd e \<noteq> CHR ''.''" by blast+
qed

lemma scan_number_okD:
  assumes "scan_number s = Some (n, r)"
  shows "num_ok n"
proof -
  obtain sg s1 where sg: "scan_sign s = (sg, s1)" by (cases "scan_sign s")
  then obtain i s2 f s3 e where p: "scan_int s1 = Some (i, s2)" "scan_frac s2 = Some (f, s3)" "scan_exp s3 = Some (e, r)"
    "n = sg @ i @ f @ e" using assms by (auto simp: scan_number_def split: option.splits)
  note e = scan_exp_self[OF p(3)]
  note f = scan_frac_self[OF p(2) e(2,3)]
  note i = scan_int_self[OF p(1) f(2)]
  have h: "i \<noteq> [] \<and> hd i \<noteq> CHR ''-''"
    using p(1) digits_selfD[of s1 i s2] by (auto simp: scan_int_def is_digit_def byte_def split: list.splits if_splits)
  have "sg = [] \<or> sg = ''-''" using sg by (auto simp: scan_sign_def split: list.splits if_splits)
  then have "scan_sign (sg @ i @ f @ e) = (sg, i @ f @ e)" using h by (cases i) (auto simp: scan_sign_def)
  then show ?thesis using i f(1) e(1) p(4) by (simp add: num_ok_def scan_number_def)
qed

lemma parse_scalar_ok: "parse_scalar s = Some (j, r) \<Longrightarrow> json_ok d j"
  by (auto simp: parse_scalar_def split: if_splits dest: scan_string_ok scan_number_okD)

lemma parse_ok:
  "parse_value f d s = Some (j, r) \<Longrightarrow> json_ok d j"
  "parse_elems f d s = Some (js, r) \<Longrightarrow> \<forall>j \<in> set js. json_ok d j"
  "parse_members f d s = Some (ms, r) \<Longrightarrow> \<forall>m \<in> set ms. body_ok (fst m) \<and> json_ok d (snd m)"
proof (induction f d s and f d s and f d s arbitrary: j r and js r and ms r
    rule: parse_value_parse_elems_parse_members.induct)
  case (2 f d s)
  show ?case
  proof (cases "expect CHR ''{'' s")
    case (Some t)
    then show ?thesis using 2(2)[OF Some] 2(3)
      by (auto simp: parse_value.simps(2) split: option.splits if_splits)
  next
    case no_brace: None
    show ?thesis
    proof (cases "expect CHR ''['' s")
      case (Some t)
      then show ?thesis using 2(1)[OF no_brace Some] 2(3) no_brace
        by (auto simp: parse_value.simps(2) split: option.splits if_splits)
    next
      case None
      then show ?thesis using 2(3) no_brace by (auto simp: parse_value.simps(2) dest: parse_scalar_ok)
    qed
  qed
next
  case (4 f d s)
  from 4(3) obtain j r' more t where p: "parse_value f d s = Some (j, r')" "next_sep CHR '']'' r' = Some (more, t)"
    "(if more then map_option (\<lambda>(js, r'). (j # js, r')) (parse_elems f d t) else Some ([j], t)) = Some (js, r)"
    by (auto simp: parse_elems.simps(2) bind_eq_Some_conv)
  show ?case using p(3) 4(1)[OF p(1)] 4(2)[OF p(1) refl p(2) refl] by (auto split: if_splits)
next
  case (6 f d s)
  from 6(3) obtain t1 k t2 t3 j r' more t where p: "expect quote_char s = Some t1" "scan_string InStr t1 = Some (k, t2)"
    "expect CHR '':'' t2 = Some t3" "parse_value f d t3 = Some (j, r')" "next_sep CHR ''}'' r' = Some (more, t)"
    "(if more then map_option (\<lambda>(ms, r'). ((k, j) # ms, r')) (parse_members f d t) else Some ([(k, j)], t)) = Some (ms, r)"
    by (auto simp: parse_members.simps(2) bind_eq_Some_conv)
  have k: "body_ok k" using p(2) by (rule scan_string_ok)
  show ?case using p(6) k 6(1)[OF p(1,2) refl p(3,4)] 6(2)[OF p(1,2) refl p(3,4) refl p(5) refl]
    by (fastforce split: if_splits)
qed (simp_all add: parse_value.simps(1) parse_elems.simps(1) parse_members.simps(1))

lemma json_parse_ok: "json_parse s = Some j \<Longrightarrow> json_ok 0 j"
  by (auto simp: json_parse_def json_read_def split: option.splits if_splits dest: parse_ok(1))

section \<open>Nesting\<close>

fun json_depth :: "json \<Rightarrow> nat" where
  "json_depth (JArr js) = Suc (foldr max (map json_depth js) 0)"
| "json_depth (JObj ms) = Suc (foldr max (map (\<lambda>(k, j). json_depth j) ms) 0)"
| "json_depth j = 0"

lemma foldr_max_le: "x \<in> set xs \<Longrightarrow> x \<le> foldr max xs (0 :: nat)"
  by (induction xs) auto

lemma json_ok_deeper:
  "json_ok d j \<Longrightarrow> e + json_depth j \<le> max_depth \<Longrightarrow> json_ok e j"
proof (induction j arbitrary: d e)
  case (JArr js)
  have "json_ok (Suc e) j" if "j \<in> set js" for j
    using JArr.IH[OF that, of "Suc d" "Suc e"] JArr.prems that foldr_max_le[of "json_depth j" "map json_depth js"] by simp
  then show ?case using JArr.prems by simp
next
  case (JObj ms)
  have "json_ok (Suc e) (snd m)" if m: "m \<in> set ms" for m
  proof -
    have "json_depth (snd m) \<le> foldr max (map (\<lambda>(k, j). json_depth j) ms) 0"
      by (rule foldr_max_le) (use m in \<open>force simp: split_def\<close>)
    then show ?thesis using JObj.IH[OF m, of "snd m" "Suc d" "Suc e"] JObj.prems m by (auto intro: snds.intros)
  qed
  then show ?case using JObj.prems by auto
qed simp_all

section \<open>Compaction\<close>

fun str_run :: "str_state \<Rightarrow> string \<Rightarrow> str_state option" where
  "str_run st [] = Some st"
| "str_run st (c # s) =
     (if st = InStr \<and> c = quote_char then None else Option.bind (str_next st c) (\<lambda>st'. str_run st' s))"

lemma str_run_append: "str_run st (a @ b) = Option.bind (str_run st a) (\<lambda>st'. str_run st' b)"
  by (induction st a rule: str_run.induct) (auto split: Option.bind_splits)

lemma scan_str_run: "scan_string st (b @ [quote_char]) = Some (b, []) \<longleftrightarrow> str_run st b = Some InStr"
proof (induction b arbitrary: st)
  case Nil
  then show ?case by (cases st) (auto simp: scan_string.simps(2) split: option.splits)
next
  case (Cons c b)
  show ?case
  proof (cases "st = InStr \<and> c = quote_char")
    case True
    then show ?thesis by simp
  next
    case False
    then show ?thesis using Cons by (auto simp: scan_string.simps(2) split: option.splits)
  qed
qed

lemma body_ok_run: "body_ok b \<longleftrightarrow> str_run InStr b = Some InStr"
  by (simp add: body_ok_def scan_str_run)

definition html_chunk :: "nat \<times> string \<Rightarrow> string" where
  "html_chunk c = (case c of (r, w) \<Rightarrow>
     if r = byte CHR ''<'' \<or> r = byte CHR ''>'' \<or> r = byte CHR ''&'' then
          [backslash, CHR ''u'', CHR ''0'', CHR ''0'', hex_digit (r div 16), hex_digit (r mod 16)]
     else if r = 0x2028 \<or> r = 0x2029 then backslash # ''u202'' @ [hex_digit (r mod 16)] else w)"

lemma esc_html_chunks: "esc_html s = concat (map html_chunk (chunks s))"
  unfolding esc_html_def by (intro arg_cong[where f = concat] map_cong refl) (simp add: html_chunk_def split_def)

lemma run_escape4:
  assumes "is_hex a" "is_hex b" "is_hex c" "is_hex d"
  shows "str_run InStr [backslash, CHR ''u'', a, b, c, d] = Some InStr"
proof -
  have "scan_string InStr (backslash # CHR ''u'' # a # b # c # d # [quote_char]) = Some ([backslash, CHR ''u'', a, b, c, d], [])"
    by (simp add: scan_escape4[OF assms])
  then show ?thesis using scan_str_run[of InStr "[backslash, CHR ''u'', a, b, c, d]"] by simp
qed

lemma run_high:
  assumes "\<forall>c \<in> set w. 0x80 \<le> byte c" and "w \<noteq> []" and "str_run st w = Some st'"
  shows "st = InStr \<and> st' = InStr"
proof -
  have nx: "str_next st c = (if st = InStr then Some InStr else None)" if "0x80 \<le> byte c" for st c
    using that by (auto simp: str_next_def is_hex_def is_digit_def byte_def quote_char_def backslash_def split: str_state.splits)
  have stay: "str_run InStr w = Some InStr" if "\<forall>c \<in> set w. 0x80 \<le> byte c" for w
    using that by (induction w) (auto simp: nx)
  obtain c u where w: "w = c # u" using assms(2) by (cases w) auto
  show ?thesis
  proof (cases "st = InStr")
    case True
    then show ?thesis using stay[OF assms(1)] assms(3) by simp
  next
    case False
    then show ?thesis using assms(1,3) w nx[of c st] by auto
  qed
qed

lemma html_chunk_run:
  assumes "text_chunk (r, w)" and "str_run st w = Some st'"
  shows "str_run st (html_chunk (r, w)) = Some st'"
proof (cases "r \<in> {60, 62, 38, 0x2028, 0x2029}")
  case False
  then show ?thesis using assms(2) by (simp add: html_chunk_def)
next
  case True
  then have good: "good_chunk (r, w)" using assms(1) by (auto simp: text_chunk_def rune_error_def)
  then show ?thesis
  proof (cases rule: good_chunk_cases)
    case (ascii c)
    then have r: "r \<in> {60, 62, 38}" using True by auto
    have c: "c = CHR ''<'' \<or> c = CHR ''>'' \<or> c = CHR ''&''"
      using r ascii(3) byte_inj[of c "CHR ''<''"] byte_inj[of c "CHR ''>''"] byte_inj[of c "CHR ''&''"] by auto
    then have "st = InStr \<and> st' = InStr" using assms(2) ascii(1)
      by (cases st) (auto simp: str_next_def is_hex_def is_digit_def backslash_def quote_char_def split: if_splits)
    moreover have "html_chunk (r, w) = [backslash, CHR ''u'', CHR ''0'', CHR ''0'', hex_digit (r div 16), hex_digit (r mod 16)]"
      using r by (auto simp: html_chunk_def)
    ultimately show ?thesis using r run_escape4[OF hex_letters(1,1) is_hex_digit is_hex_digit, of "r div 16" "r mod 16"] by auto
  next
    case multi
    have "st = InStr \<and> st' = InStr" 
      by (rule run_high[OF _ _ assms(2)]) (use multi_high[OF good multi(1)] multi(1) in auto)
    moreover have "r = 0x2028 \<or> r = 0x2029" using True good_multi_rune[OF good multi(1)] by auto
    ultimately show ?thesis using run_escape4[OF hex_letters(2,1,2) is_hex_digit, of "r mod 16"] by (auto simp: html_chunk_def)
  qed
qed

lemma body_ok_html:
  assumes "body_ok b"
  shows "body_ok (esc_html b)"
proof -
  have "str_run st (concat (map html_chunk cs)) = Some st'"
    if "\<forall>c \<in> set cs. text_chunk c" "str_run st (bytes_of cs) = Some st'" for cs st st'
    using that
  proof (induction cs arbitrary: st)
    case Nil
    then show ?case by simp
  next
    case (Cons c cs)
    obtain r w where c: "c = (r, w)" by (cases c)
    from Cons.prems(2) c obtain m where m: "str_run st w = Some m" "str_run m (bytes_of cs) = Some st'"
      by (auto simp: str_run_append bind_eq_Some_conv)
    have "str_run st (html_chunk (r, w)) = Some m" using html_chunk_run[of r w st m] Cons.prems(1) c m(1) by simp
    then show ?case using Cons.IH[OF _ m(2)] Cons.prems(1) c by (simp add: str_run_append)
  qed
  from this[of "chunks b" InStr InStr] show ?thesis
    using assms chunks_text by (simp add: body_ok_run esc_html_chunks)
qed

lemma json_ok_compact: "json_ok d j \<Longrightarrow> json_ok d (json_compact j)"
proof (induction j arbitrary: d)
  case (JObj ms)
  then show ?case by (fastforce simp: body_ok_html intro: snds.intros)
qed (auto simp: body_ok_html)

lemma json_depth_compact [simp]: "json_depth (json_compact j) = json_depth j"
proof (induction j)
  case (JArr js)
  then have "map (json_depth \<circ> json_compact) js = map json_depth js" by simp
  then show ?case by (simp del: map_eq_conv)
next
  case (JObj ms)
  have "map ((\<lambda>(k, j). json_depth j) \<circ> (\<lambda>(k, j). (esc_html k, json_compact j))) ms = map (\<lambda>(k, j). json_depth j) ms"
  proof (rule map_cong[OF refl])
    fix m assume "m \<in> set ms"
    then show "((\<lambda>(k, j). json_depth j) \<circ> (\<lambda>(k, j). (esc_html k, json_compact j))) m = (\<lambda>(k, j). json_depth j) m"
      using JObj[of m "snd m"] by (simp add: split_def snds.intros)
  qed
  then show ?case by (simp del: map_eq_conv)
qed simp_all

text \<open>What \<open>Marshal\<close> wrote is compact already.\<close>

lemma esc_html_append: "valid_utf8 a \<Longrightarrow> esc_html (a @ b) = esc_html a @ esc_html b"
  by (simp add: esc_html_chunks chunks_append)

lemma esc_html_plain:
  assumes "\<forall>c \<in> set s. byte c < 0x80 \<and> byte c \<notin> {60, 62, 38}"
  shows "esc_html s = s"
proof -
  have "chunks s = map (\<lambda>c. (byte c, [c])) s" using assms by (intro ascii_chunks) auto
  moreover have "map (html_chunk \<circ> (\<lambda>c. (byte c, [c]))) s = map (\<lambda>c. [c]) s"
    using assms by (intro map_cong) (auto simp: html_chunk_def)
  moreover have "concat (map (\<lambda>c. [c]) s) = s" by (induction s) simp_all
  ultimately show ?thesis by (simp add: esc_html_chunks del: map_eq_conv)
qed

lemma hex_digit_plain: "n < 16 \<Longrightarrow> byte (hex_digit n) < 0x80 \<and> byte (hex_digit n) \<notin> {60, 62, 38}"
  by (auto simp: hex_digit_def)

lemma esc_chunk_compact:
  assumes "good_chunk (r, w)"
  shows "valid_utf8 (esc_chunk (r, w))" and "esc_html (esc_chunk (r, w)) = esc_chunk (r, w)"
proof -
  have letters: "byte CHR ''u'' = 117" "byte CHR ''0'' = 48" "byte CHR ''2'' = 50" by (simp_all add: byte_def)
  have ascii: "valid_utf8 s \<and> esc_html s = s" if "\<forall>c \<in> set s. byte c < 0x80 \<and> byte c \<notin> {60, 62, 38}" for s
    using ascii_valid[of s] esc_html_plain[OF that] that by blast
  have "text_chunk (r, w)" using assms by (simp add: text_chunk_def)
  then have "valid_utf8 (esc_chunk (r, w)) \<and> esc_html (esc_chunk (r, w)) = esc_chunk (r, w)"
  proof (cases rule: esc_chunk_cases)
    case (short e)
    have "byte e < 0x80 \<and> byte e \<notin> {60, 62, 38}" using short(1) by (auto simp: quote_bytes) (simp_all add: byte_def)
    then show ?thesis unfolding short(2) by (intro ascii) auto
  next
    case low
    show ?thesis unfolding low(3) by (intro ascii) (use low(1) hex_digit_plain[of "r div 16"] hex_digit_plain[of "r mod 16"] letters in auto)
  next
    case bad
    then show ?thesis using assms by simp
  next
    case sep
    show ?thesis unfolding sep(3) by (intro ascii) (use hex_digit_plain[of "r mod 16"] letters in auto)
  next
    case plain
    have "chunks w = [(r, w)]" using chunks_of_good0[of "[(r, w)]"] assms by simp
    then show ?thesis using plain(2,5) valid_good[OF assms] by (simp add: esc_html_chunks html_chunk_def)
  qed
  then show "valid_utf8 (esc_chunk (r, w))" "esc_html (esc_chunk (r, w)) = esc_chunk (r, w)" by blast+
qed

lemma esc_html_escape:
  assumes "valid_utf8 s"
  shows "esc_html (escape s) = escape s"
proof -
  have "esc_html (concat (map esc_chunk cs)) = concat (map esc_chunk cs)" if "\<forall>c \<in> set cs. good_chunk c" for cs
    using that
  proof (induction cs)
    case Nil
    then show ?case by (simp add: esc_html_chunks)
  next
    case (Cons c cs)
    then show ?case by (cases c) (simp add: esc_html_append esc_chunk_compact)
  qed
  then show ?thesis using assms unfolding escape_def valid_chunks by blast
qed

lemma compact_str [simp]: "valid_utf8 s \<Longrightarrow> json_compact (json_str s) = json_str s"
  by (simp add: json_str_def esc_html_escape)

lemma compact_int [simp]: "json_compact (json_of_int i) = json_of_int i"
  by (simp add: json_of_int_def)

lemma compact_obj: "\<forall>m \<in> set ms. valid_utf8 (fst m) \<and> json_compact (snd m) = snd m \<Longrightarrow> json_compact (obj ms) = obj ms"
  by (auto simp: obj_def esc_html_escape)

end
