(* ===== verification/LLM_Codec_Facts.thy ===== *)
theory LLM_Codec_Facts
  imports LLM_Codec Go_Json_Compact
begin

text \<open>
  Round trips of the relay's wire format: a request that was built is accepted by the decoder of the payload and says the
  same, and the canonical text of a result that was accepted is accepted again and means the same result.
\<close>

section \<open>Field names\<close>

lemma ascii_name: "list_all (\<lambda>c. byte c < 0x80) k \<Longrightarrow> valid_utf8 k"
  by (rule ascii_valid) (simp add: list_all_iff)

lemma field_names [simp]:
  "valid_utf8 ''role''" "valid_utf8 ''content''" "valid_utf8 ''name''" "valid_utf8 ''strict''" "valid_utf8 ''schema''"
  "valid_utf8 ''type''" "valid_utf8 ''json_schema''" "valid_utf8 ''temperature_milli''" "valid_utf8 ''max_output_tokens''"
  "valid_utf8 ''max_completion_bytes''" "valid_utf8 ''protocol_version''" "valid_utf8 ''operation''"
  "valid_utf8 ''request_id''" "valid_utf8 ''model''" "valid_utf8 ''messages''" "valid_utf8 ''response_format''"
  "valid_utf8 ''options''" "valid_utf8 ''limits''" "valid_utf8 ''prompt_tokens''" "valid_utf8 ''completion_tokens''"
  "valid_utf8 ''total_tokens''" "valid_utf8 ''reported_model''" "valid_utf8 ''provider_request_id''"
  "valid_utf8 ''finish_reason''" "valid_utf8 ''usage''" "valid_utf8 ''timing''" "valid_utf8 ''models''"
  by (rule ascii_name, simp add: byte_def)+

lemma wire_values [simp]: "valid_utf8 ProtocolVersion" "valid_utf8 OperationChatCompletion" "valid_utf8 OperationListModels"
    "valid_utf8 ResponseSchemaName" "valid_utf8 ''json_schema''"
  by (rule ascii_name, simp add: byte_def ProtocolVersion_def OperationChatCompletion_def OperationListModels_def
      ResponseSchemaName_def)+

lemma dec_struct_obj: "dec_struct strict fs r (obj ms) = dec_members strict fs r (map (\<lambda>(k, j). (escape k, j)) ms)"
  by (simp add: dec_struct_def obj_def)

lemmas dec_simps = dec_struct_obj unquote_escape find_field_def dec_members.simps(2)

declare dec_members.simps(2) [simp del]

lemma dec_limits:
  assumes "- (2 ^ 63) \<le> lim_bytes l" and "lim_bytes l < 2 ^ 63"
  shows "dec_struct True limit_fields old (limits_json l) = Some l"
  using assms by (cases l) (simp add: limits_json_def limit_fields_def dec_simps)

lemma dec_message:
  assumes "valid_utf8 (msg_role m)" and "valid_utf8 (msg_content m)"
  shows "dec_struct True message_fields old (message_json m) = Some m"
  using assms by (cases m) (simp add: message_json_def message_fields_def dec_simps)


lemma dec_elems_map:
  assumes "\<And>x old. x \<in> set xs \<Longrightarrow> dec old (enc x) = Some x"
  shows "dec_elems zero dec old (map enc xs) = Some xs"
  using assms by (induction xs arbitrary: old) simp_all

lemma dec_list_map:
  assumes "\<And>x old. x \<in> set xs \<Longrightarrow> dec old (enc x) = Some x"
  shows "dec_list zero dec old (JArr (map enc xs)) = Some xs"
  using dec_elems_map[OF assms] by (simp add: dec_list_def dec_slice_def)

lemma dec_options:
  assumes "- (2 ^ 63) \<le> op_temperature r" "op_temperature r < 2 ^ 63" "- (2 ^ 63) \<le> op_max_tokens r" "op_max_tokens r < 2 ^ 63"
  shows "dec_struct True option_fields old
    (obj [(''temperature_milli'', json_of_int (op_temperature r)), (''max_output_tokens'', json_of_int (op_max_tokens r))]) = Some r"
  using assms by (cases r) (simp add: option_fields_def dec_simps)

lemma dec_format:
  assumes "valid_utf8 (rf_type f)" and "valid_utf8 (rf_name f)"
  shows "dec_struct True format_fields old (obj [(''type'', json_str (rf_type f)),
      (''json_schema'', obj [(''name'', json_str (rf_name f)), (''strict'', JBool (rf_strict f)), (''schema'', schema)])]) =
    Some (f\<lparr>rf_schema := json_text schema\<rparr>)"
  using assms by (cases f) (simp add: format_fields_def schema_fields_def dec_simps dec_raw_def)

text \<open>The fields that a request must have for its encoding to be faithful; every validated request has them.\<close>

lemma Validate_Inr:
  assumes "Validate r = Inr ()"
  shows "cc_version r = ProtocolVersion" "cc_operation r = OperationChatCompletion" "validIdentifier (cc_request r)"
    "validIdentifier (cc_model r)" "length (cc_messages r) \<noteq> 0" "length (cc_messages r) \<le> MaxMessages"
    "\<forall>m \<in> set (cc_messages r). validate_message m = Inr ()"
    "rf_type (cc_format r) = ''json_schema''" "rf_name (cc_format r) = ResponseSchemaName" "rf_strict (cc_format r)"
    "schema_object (rf_schema (cc_format r))" "0 \<le> op_temperature (cc_options r)" "op_temperature (cc_options r) \<le> 2000"
    "1024 \<le> op_max_tokens (cc_options r)" "op_max_tokens (cc_options r) \<le> 65536" "Limits_Validate (cc_limits r) = Inr ()"
  using assms by (auto simp: Validate_def res_simps split: if_splits)

lemma validIdentifier_valid: "validIdentifier v \<Longrightarrow> valid_utf8 v"
  by (simp add: validIdentifier_def)

lemma dec_chat:
  assumes "Validate r = Inr ()" and "chat_json r = Some j" and "json_parse (rf_schema (cc_format r)) = Some schema"
  shows "dec_struct True chat_fields zero_chat j =
    Some (r\<lparr>cc_format := (cc_format r)\<lparr>rf_schema := json_text (json_compact schema)\<rparr>\<rparr>)"
proof -
  note v = Validate_Inr[OF assms(1)]
  have ids: "valid_utf8 (cc_request r)" "valid_utf8 (cc_model r)" using v(3,4) validIdentifier_valid by blast+
  have roles: "valid_utf8 ''user''" "valid_utf8 ''assistant''" by (rule ascii_name, simp add: byte_def)+
  have ms: "valid_utf8 (msg_role m) \<and> valid_utf8 (msg_content m)" if "m \<in> set (cc_messages r)" for m
    using v(7) that roles by (fastforce simp: validate_message_def split: if_splits)
  have l: "- (2 ^ 63) \<le> lim_bytes (cc_limits r)" "lim_bytes (cc_limits r) < 2 ^ 63"
    using v(16) by (auto simp: Limits_Validate_def MaxCompletionBytes_def split: if_splits)
  have o': "- (2 ^ 63) \<le> op_temperature (cc_options r)" "op_temperature (cc_options r) < 2 ^ 63"
    "- (2 ^ 63) \<le> op_max_tokens (cc_options r)" "op_max_tokens (cc_options r) < 2 ^ 63" using v(12-15) by simp_all
  have dm: "dec_list zero_message (dec_struct True message_fields) old (JArr (map message_json (cc_messages r))) =
      Some (cc_messages r)" for old by (rule dec_list_map) (use ms dec_message in blast)
  have df: "dec_struct True format_fields old (obj [(''type'', json_str (rf_type (cc_format r))),
      (''json_schema'', obj [(''name'', json_str (rf_name (cc_format r))), (''strict'', JBool (rf_strict (cc_format r))),
         (''schema'', json_compact schema)])]) = Some ((cc_format r)\<lparr>rf_schema := json_text (json_compact schema)\<rparr>)" for old
    by (rule dec_format) (simp_all add: v(8,9))
  have j: "j = obj [(''protocol_version'', json_str (cc_version r)), (''operation'', json_str (cc_operation r)),
        (''request_id'', json_str (cc_request r)), (''model'', json_str (cc_model r)),
        (''messages'', JArr (map message_json (cc_messages r))),
        (''response_format'', obj [(''type'', json_str (rf_type (cc_format r))),
           (''json_schema'', obj [(''name'', json_str (rf_name (cc_format r))), (''strict'', JBool (rf_strict (cc_format r))),
              (''schema'', json_compact schema)])]),
        (''options'', obj [(''temperature_milli'', json_of_int (op_temperature (cc_options r))),
           (''max_output_tokens'', json_of_int (op_max_tokens (cc_options r)))]),
        (''limits'', limits_json (cc_limits r))]"
    using assms(2,3) by (simp add: chat_json_def)
  show ?thesis
    unfolding j chat_fields_def dec_struct_obj
    by (simp add: dec_members.simps(2) unquote_escape find_field_def ids v(1,2) dm df dec_options[OF o'] dec_limits[OF l])
qed


section \<open>A request that was built\<close>

abbreviation ascii_text :: "string \<Rightarrow> bool" where
  "ascii_text k \<equiv> list_all (\<lambda>c. byte c < 0x80) k"

lemma fold_length: "ascii_text k \<Longrightarrow> length (fold_name k) = length k"
  by (simp add: fold_name_def ascii_runes list_all_iff)

lemma fold_differs: "ascii_text a \<Longrightarrow> ascii_text b \<Longrightarrow> length a \<noteq> length b \<Longrightarrow> (fold_name a = fold_name b) = False"
  using fold_length[of a] fold_length[of b] by auto

lemma not_probed:
  assumes "k \<in> {''request_id'', ''model'', ''messages'', ''response_format'', ''options'', ''limits''}"
  shows "find_field probe_fields k = None"
proof -
  have "(fold_name ''protocol_version'' = fold_name k) = False" "(fold_name ''operation'' = fold_name k) = False"
    by (rule fold_differs; use assms in \<open>auto simp: byte_def\<close>)+
  then show ?thesis using assms by (auto simp: find_field_def probe_fields_def)
qed

lemma skip_member:
  assumes "valid_utf8 k" and "find_field fs k = None"
  shows "dec_members False fs r ((escape k, j) # ms) = dec_members False fs r ms"
  using assms by (simp add: unquote_escape dec_members.simps(2))

lemma probe_reads:
  assumes "valid_utf8 v" and "valid_utf8 p"
    and "\<forall>m \<in> set ms. fst m \<in> {''request_id'', ''model'', ''messages'', ''response_format'', ''options'', ''limits''}"
  shows "dec_struct False probe_fields \<lparr>pb_version = [], pb_operation = []\<rparr>
      (obj ((''protocol_version'', json_str v) # (''operation'', json_str p) # ms)) = Some \<lparr>pb_version = v, pb_operation = p\<rparr>"
proof -
  have skip: "dec_members False probe_fields r (map (\<lambda>(k, j). (escape k, j)) ms) = Some r" for r
    using assms(3)
  proof (induction ms)
    case Nil
    then show ?case by simp
  next
    case (Cons m ms)
    then have k: "fst m \<in> {''request_id'', ''model'', ''messages'', ''response_format'', ''options'', ''limits''}" by simp
    have "valid_utf8 (fst m)" using k by auto
    then show ?case using Cons not_probed[OF k] by (cases m) (simp add: skip_member)
  qed
  have f: "find_field probe_fields ''protocol_version'' = Some (probe_fields ! 0)" "find_field probe_fields ''operation'' = Some (probe_fields ! 1)"
    by (simp_all add: find_field_def probe_fields_def)
  show ?thesis
    by (simp add: dec_struct_obj dec_members.simps(2) unquote_escape f skip assms(1,2)) (simp add: probe_fields_def assms(1,2))
qed

lemma trim_space_ends:
  assumes "s = c # u" and "byte c < 0x80" and "\<not> is_space (byte c)" and "byte (last s) < 0x80" and "\<not> is_space (byte (last s))"
  shows "trim_space s = s"
proof -
  have l: "trim_left s = s" using assms(1-3) by (simp add: trim_left.simps)
  have n: "s \<noteq> []" using assms(1) by simp
  then have "decode_last_rune s = (byte (last s), 1)" using assms(4) unfolding last_conv_nth[OF n] decode_last_rune_def by simp
  then have "trim_right s = s" using assms(5) by (simp add: trim_right.simps)
  then show ?thesis using l by (simp add: trim_space_def)
qed

lemma dropWhile_idem: "dropWhile P (dropWhile P xs) = dropWhile P xs"
  by (induction xs) auto

lemma trim_space_idem:
  assumes "valid_utf8 s"
  shows "trim_space (trim_space s) = trim_space s"
proof (rule chunks_inj)
  let ?d = "dropWhile space_chunk"
  have head: "?d (rev (?d (rev (?d xs)))) = rev (?d (rev (?d xs)))" for xs
  proof (cases "?d xs")
    case Nil
    show ?thesis unfolding Nil by simp
  next
    case (Cons x ys)
    have "\<not> space_chunk x" using Cons by (metis hd_dropWhile list.sel(1) list.simps(3))
    then obtain zs where "?d (rev ys @ [x]) = zs @ [x]" by (induction "rev ys" arbitrary: ys) (auto simp: dropWhile_append3)
    then show ?thesis using Cons \<open>\<not> space_chunk x\<close> by simp
  qed
  show "chunks (trim_space (trim_space s)) = chunks (trim_space s)"
    unfolding trim_space_chunks[OF valid_trim_space[OF assms]] trim_space_chunks[OF assms] head
    by (simp add: dropWhile_idem)
qed

lemma object_first:
  assumes "json_parse s = Some t" and "hd s = CHR ''{''" and "s \<noteq> []"
  obtains ms where "t = JObj ms"
proof -
  obtain u where s: "s = CHR ''{'' # u" using assms(2,3) by (cases s) simp_all
  have "expect CHR ''{'' s = Some u" by (simp add: s expect_char)
  then show thesis using assms(1) that unfolding json_parse_def json_read_def
    by (auto simp: s parse_value.simps(2) split: option.splits if_splits)
qed

lemma schema_compact:
  assumes "json_ok 0 t" and "t = JObj ms"
  shows "schema_object (json_text (json_compact t))"
proof -
  let ?s = "json_text (json_compact t)"
  obtain u where s: "?s = CHR ''{'' # u @ ''}''" by (auto simp: assms(2))
  have "trim_space ?s = ?s"
    unfolding s by (rule trim_space_ends[OF refl]) (simp_all add: byte_def is_space_def)
  moreover have "json_parse ?s = Some (json_compact t)" by (rule json_text_parse, rule json_ok_compact, rule assms(1))
  ultimately show ?thesis by (simp add: schema_object_def Let_def s)
qed

lemma json_ok_messages: "json_ok d (message_json m) \<longleftrightarrow> d < max_depth"
  by (auto simp: message_json_def json_ok_obj)

lemma chat_payload:
  assumes "BuildChatCompletion E request model messages schema temperature tokens = Inr (payload, h)"
  shows "h = HashRequest E payload" and "length payload \<le> PayloadLimitBytes" and "payload \<noteq> []"
    and "\<And>t. json_parse (trim_space schema) = Some t \<Longrightarrow> 3 + json_depth t \<le> max_depth \<Longrightarrow> valid_utf8 schema \<Longrightarrow>
      DecodeRelayPayload payload = Inr \<lparr>rp_operation = OperationChatCompletion, rp_request = ulid_string request,
        rp_limits = \<lparr>lim_bytes = MaxCompletionBytes\<rparr>\<rparr>"
proof -
  let ?r = "build_request request model messages schema temperature tokens"
  from assms obtain j where b: "Validate ?r = Inr ()" "chat_json ?r = Some j" "payload = json_text j"
    "length payload \<le> PayloadLimitBytes" "h = HashRequest E payload"
    by (auto simp: BuildChatCompletion_def Let_def bind_res_Inr_conv split: if_splits option.splits)
  show "h = HashRequest E payload" "length payload \<le> PayloadLimitBytes" by (rule b)+
  obtain ms where "j = JObj ms" using b(2) by (auto simp: chat_json_def obj_def)
  then show "payload \<noteq> []" using b(3) by simp
  fix t assume t: "json_parse (trim_space schema) = Some t" and depth: "3 + json_depth t \<le> max_depth"
    and valid: "valid_utf8 schema"
  have sc: "rf_schema (cc_format ?r) = trim_space schema" by (simp add: build_request_def)
  have ok: "json_ok 0 t" by (rule json_parse_ok[OF t])
  have ok3: "json_ok 3 (json_compact t)" by (rule json_ok_compact, rule json_ok_deeper[OF ok depth])
  have "trim_space schema \<noteq> [] \<and> hd (trim_space schema) = CHR ''{''"
    using Validate_Inr(11)[OF b(1)] sc by (simp add: schema_object_def Let_def trim_space_idem[OF valid])
  then obtain ms where obj: "t = JObj ms" using object_first[OF t] by blast
  let ?r' = "?r\<lparr>cc_format := (cc_format ?r)\<lparr>rf_schema := json_text (json_compact t)\<rparr>\<rparr>"
  have dec: "dec_struct True chat_fields zero_chat j = Some ?r'" by (rule dec_chat[OF b(1,2)]) (simp add: sc t)
  have "Validate ?r' = Inr ()" using b(1) schema_compact[OF ok obj] by (simp add: Validate_def bind_res_Inr_conv split: if_splits)
  have jj: "json_ok 0 j"
    using b(2) ok3 by (auto simp: chat_json_def sc t json_ok_obj limits_json_def json_ok_messages eval_nat_numeral)
  then have parse: "json_parse payload = Some j" using b(3) by (simp add: json_text_parse)
  have "DecodeChatCompletionRequest payload = Inr ?r'"
    using parse dec \<open>Validate ?r' = Inr ()\<close> by (simp add: DecodeChatCompletionRequest_def decodeStrict_def)
  moreover have "dec_struct False probe_fields \<lparr>pb_version = [], pb_operation = []\<rparr> j =
      Some \<lparr>pb_version = ProtocolVersion, pb_operation = OperationChatCompletion\<rparr>"
  proof -
    have "j = obj ((''protocol_version'', json_str (cc_version ?r)) # (''operation'', json_str (cc_operation ?r)) #
        [(''request_id'', json_str (cc_request ?r)), (''model'', json_str (cc_model ?r)),
        (''messages'', JArr (map message_json (cc_messages ?r))),
        (''response_format'', obj [(''type'', json_str (rf_type (cc_format ?r))),
           (''json_schema'', obj [(''name'', json_str (rf_name (cc_format ?r))), (''strict'', JBool (rf_strict (cc_format ?r))),
              (''schema'', json_compact t)])]),
        (''options'', obj [(''temperature_milli'', json_of_int (op_temperature (cc_options ?r))),
           (''max_output_tokens'', json_of_int (op_max_tokens (cc_options ?r)))]),
        (''limits'', limits_json (cc_limits ?r))])"
      using b(2) by (simp add: chat_json_def sc t)
    then show ?thesis using probe_reads[of "cc_version ?r" "cc_operation ?r"] by (simp add: build_request_def)
  qed
  ultimately show "DecodeRelayPayload payload = Inr \<lparr>rp_operation = OperationChatCompletion, rp_request = ulid_string request,
        rp_limits = \<lparr>lim_bytes = MaxCompletionBytes\<rparr>\<rparr>"
    by (simp add: DecodeRelayPayload_def parse) (simp add: build_request_def)
qed

lemma dec_map_members_obj:
  assumes "\<forall>m \<in> set ms. valid_utf8 (fst m)" and "distinct (map fst ms)" and "fst ` set ms \<inter> fst ` set acc = {}"
  shows "dec_map_members Some acc (map (\<lambda>(k, j). (escape k, j)) ms) = Some (rev ms @ acc)"
  using assms
proof (induction ms arbitrary: acc)
  case Nil
  then show ?case by simp
next
  case (Cons m ms)
  obtain k j where m: "m = (k, j)" by (cases m)
  have "filter (\<lambda>e. fst e \<noteq> k) acc = acc" using Cons.prems(3) m by (auto simp: filter_id_conv)
  moreover have "dec_map_members Some ((k, j) # acc) (map (\<lambda>(k, j). (escape k, j)) ms) = Some (rev ms @ (k, j) # acc)"
    using Cons.prems m by (intro Cons.IH) auto
  ultimately show ?case using Cons.prems(1) m by (simp add: unquote_escape)
qed

lemma dec_map_obj:
  "\<forall>m \<in> set ms. valid_utf8 (fst m) \<Longrightarrow> distinct (map fst ms) \<Longrightarrow> dec_map Some old (obj ms) = dec_map_members Some old (map (\<lambda>(k, j). (escape k, j)) ms)"
  by (simp add: dec_map_def obj_def)

lemma list_payload:
  assumes "BuildListModels E request = Inr (payload, h)" and "valid_utf8 request" and "length request \<le> 256"
  shows "h = HashRequest E payload" and "length payload \<le> PayloadLimitBytes" and "payload \<noteq> []"
    and "DecodeRelayPayload payload = Inr \<lparr>rp_operation = OperationListModels, rp_request = ulid_string request,
        rp_limits = \<lparr>lim_bytes = MaxCompletionBytes\<rparr>\<rparr>"
proof -
  let ?r = "\<lparr>lm_version = ProtocolVersion, lm_operation = OperationListModels, lm_request = ulid_string request,
    lm_limits = \<lparr>lim_bytes = MaxCompletionBytes\<rparr>\<rparr>"
  have z: "request \<noteq> []" "ulid_string request = request" using assms(1) by (auto simp: BuildListModels_def ulid_is_zero_def ulid_string_def split: if_splits)
  from assms(1) have b: "payload = json_text (list_json ?r)" "length payload \<le> PayloadLimitBytes" "h = HashRequest E payload"
    by (auto simp: BuildListModels_def Let_def split: if_splits)
  show "h = HashRequest E payload" "length payload \<le> PayloadLimitBytes" by (rule b)+
  show "payload \<noteq> []" by (simp add: b(1) list_json_def obj_def)
  let ?ms = "[(''protocol_version'', json_str ProtocolVersion), (''operation'', json_str OperationListModels),
     (''request_id'', json_str request), (''limits'', limits_json \<lparr>lim_bytes = MaxCompletionBytes\<rparr>)]"
  have lj: "list_json ?r = obj ?ms" by (simp add: list_json_def z)
  have "json_ok 0 (obj ?ms)" by (simp add: json_ok_obj limits_json_def)
  then have parse: "json_parse payload = Some (obj ?ms)" unfolding b(1) lj by (rule json_text_parse)
  have raw: "dec_map Some [] (obj ?ms) = Some (rev ?ms)"
  proof -
    have "\<forall>m \<in> set ?ms. valid_utf8 (fst m)" and "distinct (map fst ?ms)" by simp_all
    then have "dec_map Some [] (obj ?ms) = dec_map_members Some [] (map (\<lambda>(k, j). (escape k, j)) ?ms)" by (rule dec_map_obj)
    also have "\<dots> = Some (rev ?ms @ [])" by (rule dec_map_members_obj) simp_all
    finally show ?thesis by (simp only: append_Nil2)
  qed
  have cm: "json_compact (limits_json l) = limits_json l" for l unfolding limits_json_def by (rule compact_obj) simp
  let ?so = "[(''limits'', limits_json \<lparr>lim_bytes = MaxCompletionBytes\<rparr>), (''operation'', json_str OperationListModels),
     (''protocol_version'', json_str ProtocolVersion), (''request_id'', json_str request)]"
  have sorted: "obj_sorted (map (\<lambda>(k, j). (k, json_compact j)) (rev ?ms)) = obj ?so"
    by (simp add: obj_sorted_def cm assms(2) less_char_def)
  have ok2: "json_ok 0 (obj ?so)" by (simp add: json_ok_obj limits_json_def)
  have "dec_struct True list_fields zero_list_models (obj ?so) = Some ?r"
    unfolding dec_struct_obj list_fields_def
    by (simp add: dec_members.simps(2) unquote_escape find_field_def assms(2) dec_limits MaxCompletionBytes_def z zero_list_models_def)
  moreover have "Limits_Validate \<lparr>lim_bytes = MaxCompletionBytes\<rparr> = Inr ()"
    by (simp add: Limits_Validate_def MaxCompletionBytes_def)
  moreover have "validIdentifier request" using assms(2,3) z by (simp add: validIdentifier_def MaxIdentifierBytes_def)
  moreover have "decodeStrict (dec_map Some) [] payload = Inr (rev ?ms)" unfolding decodeStrict_def parse by (simp only: bind.simps raw option.case)
  moreover have "\<not> (\<exists>k \<in> {''model'', ''messages'', ''response_format'', ''options''}. k \<in> fst ` set (rev ?ms))" by simp
  ultimately have dec: "DecodeListModelsRequest payload = Inr ?r"
    unfolding DecodeListModelsRequest_def
    by (simp only: bind_res_simps if_False sorted) (simp add: z decodeStrict_def json_text_parse[OF ok2])
  have "dec_struct False probe_fields \<lparr>pb_version = [], pb_operation = []\<rparr> (obj ?ms) =
      Some \<lparr>pb_version = ProtocolVersion, pb_operation = OperationListModels\<rparr>"
    by (rule probe_reads) simp_all
  then show "DecodeRelayPayload payload = Inr \<lparr>rp_operation = OperationListModels, rp_request = ulid_string request,
        rp_limits = \<lparr>lim_bytes = MaxCompletionBytes\<rparr>\<rparr>"
    using dec z by (simp add: DecodeRelayPayload_def parse OperationListModels_def OperationChatCompletion_def)
qed

end
