(* ===== verification/LLM_Results.thy ===== *)
theory LLM_Results
  imports LLM_Codec_Facts
begin

text \<open>
  Results of the relay: what the decoders accept is well formed, its canonical text is accepted again and says the same.
\<close>

section \<open>What a struct decoder keeps\<close>

lemma dec_members_keep:
  assumes "dec_members strict fs r ms = Some r'" and "P r"
    and "\<And>f r j r'. f \<in> set fs \<Longrightarrow> P r \<Longrightarrow> snd f r j = Some r' \<Longrightarrow> P r'"
  shows "P r'"
  using assms(1,2)
proof (induction ms arbitrary: r)
  case Nil
  then show ?case by simp
next
  case (Cons m ms)
  obtain k j where m: "m = (k, j)" by (cases m)
  show ?case
  proof (cases "find_field fs (unquote k)")
    case None
    then show ?thesis using Cons m by (simp add: dec_members.simps(2) split: if_splits)
  next
    case (Some f)
    then have "f \<in> set fs" by (auto simp: find_field_def find_Some_iff split: option.splits)
    moreover obtain r1 where "snd f r j = Some r1" "dec_members strict fs r1 ms = Some r'"
      using Cons.prems(1) m Some by (auto simp: dec_members.simps(2) bind_eq_Some_conv)
    ultimately show ?thesis using Cons.IH Cons.prems(2) assms(3) by blast
  qed
qed

lemma dec_struct_keep:
  assumes "dec_struct strict fs r j = Some r'" and "P r"
    and "\<And>f r j r'. f \<in> set fs \<Longrightarrow> P r \<Longrightarrow> snd f r j = Some r' \<Longrightarrow> P r'"
  shows "P r'"
  using assms dec_members_keep[of strict fs r _ r' P] by (auto simp: dec_struct_def split: json.splits)

definition int64 :: "int \<Rightarrow> bool" where
  "int64 i \<longleftrightarrow> - (2 ^ 63) \<le> i \<and> i < 2 ^ 63"

lemma dec_int_int64: "dec_int old j = Some i \<Longrightarrow> int64 old \<Longrightarrow> int64 i"
  by (auto simp: dec_int_def json_int_def int64_def Let_def split: json.splits prod.splits if_splits)

lemma dec_map_keys:
  assumes "dec_map dec m j = Some m'" and "distinct (map fst m)"
  shows "distinct (map fst m')"
proof -
  have "dec_map_members dec m ms = Some m' \<Longrightarrow> distinct (map fst m) \<Longrightarrow> distinct (map fst m')" for ms
  proof (induction ms arbitrary: m)
    case (Cons e ms)
    obtain k v where e: "e = (k, v)" by (cases e)
    have "distinct (map fst (filter (\<lambda>e. fst e \<noteq> unquote k) m))" using Cons.prems(2) by (simp add: distinct_map_filter)
    then show ?case using Cons e by (fastforce simp: bind_eq_Some_conv)
  qed simp
  then show ?thesis using assms by (auto simp: dec_map_def split: json.splits)
qed

lemma decodeStrict_Inr: "decodeStrict dec zero data = Inr r \<longleftrightarrow> (\<exists>j. json_parse data = Some j \<and> dec zero j = Some r)"
  by (auto simp: decodeStrict_def bind_eq_Some_conv split: option.splits)

section \<open>Model lists\<close>

lemma check_models_ok: "check_models seen ms = Inr () \<longleftrightarrow> (\<forall>m \<in> set ms. validIdentifier m) \<and> distinct ms \<and> set ms \<inter> set seen = {}"
  by (induction ms arbitrary: seen) auto

lemma raw_models_valid:
  assumes "decodeStrict (dec_struct True models_fields) \<lparr>rm_request = [], rm_models = None\<rparr> data = Inr raw"
  shows "valid_utf8 (rm_request raw)"
proof -
  obtain j where "dec_struct True models_fields \<lparr>rm_request = [], rm_models = None\<rparr> j = Some raw"
    using assms by (auto simp: decodeStrict_Inr)
  then show ?thesis
    by (rule dec_struct_keep) (auto simp: models_fields_def dec_string_valid)
qed

lemma models_accepted:
  assumes "valid_utf8 request" and "length ms \<le> MaxModels" and "check_models [] ms = Inr ()"
    and "int (length (CanonicalListModelsResult \<lparr>mr_request = request, mr_models = ms\<rparr>)) \<le> bound"
  shows "DecodeListModelsResult (CanonicalListModelsResult \<lparr>mr_request = request, mr_models = ms\<rparr>) request bound =
    Inr \<lparr>mr_request = request, mr_models = ms\<rparr>"
proof -
  have vs: "\<forall>x \<in> set ms. valid_utf8 x" using assms(3) by (simp add: check_models_ok validIdentifier_def)
  let ?j = "obj [(''request_id'', json_str request), (''models'', JArr (map json_str ms))]"
  have "json_ok 0 ?j" by (auto simp: json_ok_obj)
  then have p: "json_parse (json_text ?j) = Some ?j" by (rule json_text_parse)
  have "dec_elems [] dec_string [] (map json_str ms) = Some ms" by (rule dec_elems_map) (simp add: vs)
  then have "dec_struct True models_fields \<lparr>rm_request = [], rm_models = None\<rparr> ?j = Some \<lparr>rm_request = request, rm_models = Some ms\<rparr>"
    using assms(1) by (simp add: models_fields_def dec_simps dec_slice_def)
  then have "decodeStrict (dec_struct True models_fields) \<lparr>rm_request = [], rm_models = None\<rparr> (json_text ?j) =
      Inr \<lparr>rm_request = request, rm_models = Some ms\<rparr>" using p by (simp add: decodeStrict_Inr)
  then show ?thesis using assms(2-4) by (simp add: DecodeListModelsResult_def CanonicalListModelsResult_def)
qed

lemma models_roundtrip:
  assumes "DecodeListModelsResult data request bound = Inr r" and "int (length (CanonicalListModelsResult r)) \<le> bound'"
  shows "DecodeListModelsResult (CanonicalListModelsResult r) request bound' = Inr r"
proof -
  obtain raw ms where raw: "decodeStrict (dec_struct True models_fields) \<lparr>rm_request = [], rm_models = None\<rparr> data = Inr raw"
    and m: "rm_request raw = request" "rm_models raw = Some ms" "length ms \<le> MaxModels" "check_models [] ms = Inr ()"
    and r: "r = \<lparr>mr_request = request, mr_models = ms\<rparr>"
    using assms(1) by (auto simp: DecodeListModelsResult_def bind_res_Inr_conv split: if_splits option.splits)
  have "valid_utf8 request" using raw_models_valid[OF raw] m(1) by simp
  then show ?thesis using models_accepted[OF _ m(3,4)] assms(2) r by simp
qed

section \<open>Chat results\<close>

definition raw_ok :: "raw_chat \<Rightarrow> bool" where
  "raw_ok r \<longleftrightarrow> valid_utf8 (rw_request r) \<and> valid_utf8 (rw_content r) \<and> valid_utf8 (rw_model r) \<and> valid_utf8 (rw_provider r) \<and>
     valid_utf8 (rw_finish r) \<and> int64 (us_prompt (rw_usage r)) \<and> int64 (us_completion (rw_usage r)) \<and>
     int64 (us_total (rw_usage r)) \<and> distinct (map fst (rw_timing r))"

lemma dec_usage_int64:
  assumes "dec_struct True usage_fields u j = Some u'" and "int64 (us_prompt u) \<and> int64 (us_completion u) \<and> int64 (us_total u)"
  shows "int64 (us_prompt u') \<and> int64 (us_completion u') \<and> int64 (us_total u')"
  using assms by (rule dec_struct_keep) (auto simp: usage_fields_def dec_int_int64)

lemma raw_ok_decoded:
  assumes "decodeStrict (dec_struct True raw_fields) zero_raw data = Inr raw"
  shows "raw_ok raw"
proof -
  obtain j where "dec_struct True raw_fields zero_raw j = Some raw" using assms by (auto simp: decodeStrict_Inr)
  then show ?thesis
    by (rule dec_struct_keep)
      (auto simp: raw_fields_def raw_ok_def zero_raw_def dec_string_valid dec_map_keys int64_def dest!: dec_usage_int64)
qed

text \<open>What the code relies on of float64 texts: they are JSON numbers and are read back as the same float64.\<close>

definition float_ok :: "relay_env \<Rightarrow> bool" where
  "float_ok E \<longleftrightarrow> (\<forall>n t. float_text E n = Some t \<longrightarrow> num_ok t \<and> float_text E t = Some t)"

lemma known_key_valid: "k \<in> set knownTimingKeys \<Longrightarrow> valid_utf8 k"
  by (rule ascii_name) (auto simp: knownTimingKeys_def byte_def)

definition timing_ok :: "relay_env \<Rightarrow> (string \<times> json) list \<Rightarrow> bool" where
  "timing_ok E ts \<longleftrightarrow> distinct (map fst ts) \<and>
     (\<forall>e \<in> set ts. fst e \<in> set knownTimingKeys \<and> (\<exists>t. snd e = JNum t \<and> num_ok t \<and> float_text E t = Some t))"

lemma timing_decoded:
  assumes "map_res (timing_entry E) raw = Inr ts" and "distinct (map fst raw)" and "float_ok E"
  shows "timing_ok E ts"
proof -
  have "map fst ts = map fst raw \<and> (\<forall>e \<in> set ts. fst e \<in> set knownTimingKeys \<and>
      (\<exists>t. snd e = JNum t \<and> num_ok t \<and> float_text E t = Some t))"
    using assms(1)
  proof (induction raw arbitrary: ts)
    case (Cons e raw)
    then obtain e' ts' where e: "timing_entry E e = Inr e'" "map_res (timing_entry E) raw = Inr ts'" "ts = e' # ts'"
      by (auto simp: bind_res_Inr_conv)
    have "fst e' = fst e \<and> fst e' \<in> set knownTimingKeys \<and> (\<exists>t. snd e' = JNum t \<and> num_ok t \<and> float_text E t = Some t)"
      using e(1) assms(3) by (auto simp: timing_entry_def float_ok_def split: if_splits json.splits option.splits)
    moreover note Cons.IH[OF e(2)]
    ultimately show ?case using e(3) by (metis list.simps(9) set_ConsD)
  qed simp
  then show ?thesis using assms(2) by (simp add: timing_ok_def)
qed

lemma timing_again: "timing_ok E ts \<Longrightarrow> map_res (timing_entry E) ts = Inr ts"
  by (induction ts) (auto simp: timing_ok_def timing_entry_def)

lemma timing_rev_sort: "timing_ok E ts \<Longrightarrow> timing_ok E (rev (sort_key fst ts))"
  by (auto simp: timing_ok_def rev_map distinct_map inj_on_def)

lemma sort_key_rev_sort:
  assumes "distinct (map fst ts)"
  shows "sort_key fst (rev (sort_key fst ts)) = sort_key fst ts"
proof (rule map_sorted_distinct_set_unique[where f = fst])
  have d: "distinct ts" "inj_on fst (set ts)" using assms by (simp_all add: distinct_map)
  show "inj_on fst (set (sort_key fst (rev (sort_key fst ts))) \<union> set (sort_key fst ts))" using d(2) by simp
  show "distinct (map fst (sort_key fst (rev (sort_key fst ts))))" "distinct (map fst (sort_key fst ts))"
    using d by (simp_all add: distinct_map)
qed simp_all

lemma timing_json_ok: "timing_ok E ts \<Longrightarrow> d < max_depth \<Longrightarrow> json_ok d (obj_sorted ts)"
  by (auto simp: timing_ok_def obj_sorted_def json_ok_obj)

lemma timing_compact:
  assumes "timing_ok E ts"
  shows "json_compact (obj_sorted ts) = obj_sorted ts"
  unfolding obj_sorted_def
proof (rule compact_obj, rule ballI)
  fix m assume "m \<in> set (sort_key fst ts)"
  then show "valid_utf8 (fst m) \<and> json_compact (snd m) = snd m" using assms known_key_valid by (auto simp: timing_ok_def)
qed

lemma timing_dec:
  assumes "timing_ok E ts"
  shows "dec_map Some [] (obj_sorted ts) = Some (rev (sort_key fst ts))"
proof -
  have v: "\<forall>m \<in> set (sort_key fst ts). valid_utf8 (fst m)" using assms known_key_valid by (auto simp: timing_ok_def)
  have d: "distinct (map fst (sort_key fst ts))" using assms by (simp add: timing_ok_def distinct_map)
  show ?thesis unfolding obj_sorted_def dec_map_obj[OF v d] by (subst dec_map_members_obj[OF v d]) simp_all
qed

lemma json_parse_Nil: "json_parse [] = None"
  by code_simp

lemma raw_or_text:
  assumes "json_ok 0 j" and "json_compact j = j"
  shows "raw_or (json_text j) d = Inr j"
proof -
  have p: "json_parse (json_text j) = Some j" by (rule json_text_parse[OF assms(1)])
  then have "json_text j \<noteq> []" using json_parse_Nil by (metis option.distinct(1))
  then show ?thesis using p assms(2) by (simp add: raw_or_def)
qed

lemma timing_canonical:
  assumes "timing_ok E ts"
  shows "raw_or (if ts = [] then [] else json_text (obj_sorted ts)) (JObj []) = Inr (obj_sorted ts)"
proof -
  have "json_ok 0 (obj_sorted ts)" by (rule timing_json_ok[OF assms]) simp
  then have "raw_or (json_text (obj_sorted ts)) (JObj []) = Inr (obj_sorted ts)" using timing_compact[OF assms] by (rule raw_or_text)
  moreover have "raw_or [] (JObj []) = Inr (obj_sorted [])" by (simp add: raw_or_def obj_sorted_def obj_def)
  ultimately show ?thesis by simp
qed

lemma usage_canonical:
  assumes "int64 (us_prompt u)" and "int64 (us_completion u)" and "int64 (us_total u)"
  shows "raw_or (json_text (usage_json u)) d = Inr (usage_json u)"
    and "dec_struct True usage_fields old (usage_json u) = Some u"
proof -
  have ok: "json_ok 0 (usage_json u)" by (simp add: usage_json_def json_ok_obj)
  have "json_compact (usage_json u) = usage_json u" unfolding usage_json_def by (rule compact_obj) simp
  then show "raw_or (json_text (usage_json u)) d = Inr (usage_json u)" by (rule raw_or_text[OF ok])
  show "dec_struct True usage_fields old (usage_json u) = Some u"
    using assms by (cases u) (simp add: usage_json_def usage_fields_def dec_simps int64_def)
qed

definition result_json :: "raw_chat \<Rightarrow> (string \<times> json) list \<Rightarrow> json" where
  "result_json raw ts = obj [(''request_id'', json_str (rw_request raw)), (''content'', json_str (rw_content raw)),
     (''reported_model'', json_str (rw_model raw)), (''provider_request_id'', json_str (rw_provider raw)),
     (''finish_reason'', json_str (rw_finish raw)), (''usage'', usage_json (rw_usage raw)), (''timing'', obj_sorted ts)]"

lemma decode_result_json:
  assumes "raw_ok raw" and "timing_ok E ts"
  shows "decodeStrict (dec_struct True raw_fields) zero_raw (json_text (result_json raw ts)) =
    Inr (raw\<lparr>rw_timing := rev (sort_key fst ts)\<rparr>)"
proof -
  have j1: "json_ok (Suc 0) (obj_sorted ts)" "json_ok (Suc 0) (usage_json u)" for u
    using timing_json_ok[OF assms(2), of 1] by (simp_all add: usage_json_def json_ok_obj)
  have "json_ok 0 (result_json raw ts)" unfolding result_json_def by (simp add: json_ok_obj j1)
  then have p: "json_parse (json_text (result_json raw ts)) = Some (result_json raw ts)" by (rule json_text_parse)
  have "dec_struct True raw_fields zero_raw (result_json raw ts) = Some (raw\<lparr>rw_timing := rev (sort_key fst ts)\<rparr>)"
    using assms(1) usage_canonical(2)[of "rw_usage raw"] unfolding raw_ok_def
    by (cases raw) (simp add: result_json_def raw_fields_def zero_raw_def dec_simps timing_dec[OF assms(2)])
  then show ?thesis using p by (simp add: decodeStrict_Inr)
qed

lemma chat_canonical:
  assumes "DecodeChatResult E data request bound = Inr r" and "float_ok E"
  shows "\<exists>c. CanonicalChatResult r = Inr c \<and> (int (length c) \<le> bound' \<longrightarrow> DecodeChatResult E c request bound' = Inr r)"
proof -
  obtain raw ts where raw: "decodeStrict (dec_struct True raw_fields) zero_raw data = Inr raw"
    and req: "rw_request raw = request"
    and c: "rw_content raw \<noteq> []" "length (rw_content raw) \<le> ContentLimitBytes"
    and m: "length (rw_model raw) \<le> MaxIdentifierBytes" "length (rw_provider raw) \<le> MaxIdentifierBytes"
    and f: "rw_finish raw = ''stop'' \<or> rw_finish raw = []"
    and u: "0 \<le> us_prompt (rw_usage raw)" "0 \<le> us_completion (rw_usage raw)" "0 \<le> us_total (rw_usage raw)"
    and ts: "map_res (timing_entry E) (rw_timing raw) = Inr ts"
    and size: "length (json_text (usage_json (rw_usage raw))) \<le> MaxStructuredBytes"
      "length (if ts = [] then [] else json_text (obj_sorted ts)) \<le> MaxStructuredBytes"
    and r: "r = \<lparr>cr_request = rw_request raw, cr_content = rw_content raw, cr_model = rw_model raw,
             cr_provider = rw_provider raw, cr_finish = rw_finish raw, cr_usage = rw_usage raw,
             cr_usage_json = json_text (usage_json (rw_usage raw)),
             cr_timing_json = (if ts = [] then [] else json_text (obj_sorted ts))\<rparr>"
    using assms(1) by (auto simp: DecodeChatResult_def bind_res_Inr_conv Let_def not_less split: if_splits)
  have ok: "raw_ok raw" by (rule raw_ok_decoded[OF raw])
  have t: "timing_ok E ts" by (rule timing_decoded[OF ts _ assms(2)]) (use ok in \<open>simp add: raw_ok_def\<close>)
  have u64: "int64 (us_prompt (rw_usage raw))" "int64 (us_completion (rw_usage raw))" "int64 (us_total (rw_usage raw))"
    using ok by (simp_all add: raw_ok_def)
  let ?c = "json_text (result_json raw ts)"
  have can: "CanonicalChatResult r = Inr ?c"
    unfolding CanonicalChatResult_def r ChatResult.select_convs timing_canonical[OF t] usage_canonical(1)[OF u64] bind_res_simps
      result_json_def ..
  have s: "obj_sorted (rev (sort_key fst ts)) = obj_sorted ts" unfolding obj_sorted_def using sort_key_rev_sort t
    by (metis timing_ok_def)
  have e: "sort_key fst ts = [] \<longleftrightarrow> ts = []" by (metis length_0_conv length_sort)
  have "DecodeChatResult E ?c request bound' = Inr r" if "int (length ?c) \<le> bound'"
    using that decode_result_json[OF ok t] timing_again[OF timing_rev_sort[OF t]] req c m f u size ok
    by (auto simp: DecodeChatResult_def Let_def s e r raw_ok_def)
  with can show ?thesis by blast
qed

end
