(* ===== verification/LLM_Samples.thy ===== *)
theory LLM_Samples
  imports LLM_Wait LLM_Results
begin

text \<open>
  A run of the relay on a small database, for the witnesses: a model list is requested, leased and completed.
\<close>

section \<open>Lengths of encoded text\<close>

lemma esc_chunk_length: "length w \<noteq> 0 \<Longrightarrow> length (esc_chunk (r, w)) \<le> 6 * length w"
  by (cases "length w") (auto simp: esc_chunk_def)

lemma length_bytes_of: "length (bytes_of cs) = sum_list (map (\<lambda>c. length (snd c)) cs)"
  by (induction cs) simp_all

lemma chunks_parts: "c \<in> set (chunks s) \<Longrightarrow> snd c \<noteq> []"
proof (induction s rule: measure_induct_rule[where f = length])
  case (less s)
  then have "s \<noteq> []" by auto
  then show ?case using less.prems less.IH[of "drop (rune_size s) s"] rune_size_pos[of s] chunks_nonempty[of s] by auto
qed

lemma escape_length: "length (escape s) \<le> 6 * length s"
proof -
  have "length (concat (map esc_chunk cs)) \<le> 6 * length (bytes_of cs)" if "\<forall>c \<in> set cs. snd c \<noteq> []" for cs
    using that
  proof (induction cs)
    case (Cons c cs)
    then show ?case using esc_chunk_length[of "snd c" "fst c"] by simp
  qed simp
  moreover have "\<forall>c \<in> set (chunks s). snd c \<noteq> []" by (auto dest: chunks_parts)
  ultimately show ?thesis using bytes_of_chunks[of s] unfolding escape_def by metis
qed

lemma json_str_length: "length (json_text (json_str s)) \<le> 6 * length s + 2"
  using escape_length[of s] by (simp add: json_str_def)

section \<open>A request for the models\<close>

definition sample_list :: ListModelsRequest where
  "sample_list = \<lparr>lm_version = ProtocolVersion, lm_operation = OperationListModels, lm_request = ''r'',
     lm_limits = \<lparr>lim_bytes = MaxCompletionBytes\<rparr>\<rparr>"

definition sample_payload :: string where
  "sample_payload = json_text (list_json sample_list)"

lemma obj_text: "json_text (obj ms) = CHR ''{'' # commas (map (\<lambda>(k, j). quote_char # escape k @ quote_char # CHR '':'' # json_text j) ms) @ ''}''"
  by (simp add: obj_def comp_def split_def)

lemma sample_payload_length: "length sample_payload \<le> 2000"
proof -
  have n: "length (json_text (json_of_int 2097152)) \<le> 100" by (simp add: json_of_int_def decimal.simps)
  show ?thesis
    using escape_length[of "''protocol_version''"] escape_length[of "''operation''"] escape_length[of "''request_id''"]
      escape_length[of "''limits''"] escape_length[of "''max_completion_bytes''"] json_str_length[of "''speech-worker.v1''"]
      json_str_length[of "''list_models''"] json_str_length[of "''r''"] n
    by (simp add: sample_payload_def list_json_def sample_list_def limits_json_def obj_text commas_Cons ProtocolVersion_def
        OperationListModels_def MaxCompletionBytes_def)
qed

lemma sample_built: "BuildListModels E ''r'' = Inr (sample_payload, HashRequest E sample_payload)"
  using sample_payload_length
  by (simp add: BuildListModels_def ulid_is_zero_def zeroULID_def ulid_string_def sample_payload_def sample_list_def
      PayloadLimitBytes_def Let_def)

lemma r_valid: "valid_utf8 ''r''"
  by (rule ascii_name) (simp add: byte_def)

lemma sample_decoded:
  "DecodeRelayPayload sample_payload = Inr \<lparr>rp_operation = OperationListModels, rp_request = ''r'', rp_limits = \<lparr>lim_bytes = MaxCompletionBytes\<rparr>\<rparr>"
  using list_payload(4)[OF sample_built r_valid] by (simp add: ulid_string_def)

lemma sample_json: "json_valid sample_payload"
  using sample_decoded by (cases "json_parse sample_payload") (simp_all add: DecodeRelayPayload_def json_valid_def)

lemma sample_payload_ends: "\<exists>u. sample_payload = CHR ''{'' # u @ ''}''"
  by (simp add: sample_payload_def list_json_def obj_text)

lemma sample_payload_nonblank: "\<not> blank sample_payload"
proof -
  obtain u where u: "sample_payload = CHR ''{'' # u @ ''}''" using sample_payload_ends by blast
  have "trim_space sample_payload = sample_payload"
    by (rule trim_space_ends[OF u]) (simp_all add: u byte_def is_space_def)
  then show ?thesis by (simp add: blank_def u)
qed

definition sample_result :: string where
  "sample_result = CanonicalListModelsResult \<lparr>mr_request = ''r'', mr_models = []\<rparr>"

lemma sample_result_length: "length sample_result \<le> 200"
  using escape_length[of "''request_id''"] escape_length[of "''models''"] json_str_length[of "''r''"]
  by (simp add: sample_result_def CanonicalListModelsResult_def obj_text)

lemma sample_canonical:
  "canonical_result sample_svc \<lparr>rp_operation = OperationListModels, rp_request = ''r'', rp_limits = \<lparr>lim_bytes = MaxCompletionBytes\<rparr>\<rparr>
     sample_result = Inr (OperationListModels, sample_result)"
  using models_accepted[of "''r''" "[]" MaxCompletionBytes] r_valid sample_result_length
  by (simp add: canonical_result_def OperationListModels_def OperationChatCompletion_def sample_result_def MaxModels_def
      MaxCompletionBytes_def)

section \<open>The run\<close>

definition queued_row :: job where
  "queued_row = row_of_spec ((relay_spec sample_payload (replicate 64 CHR ''0'') ''r'')\<lparr>spec_id := ''f'', spec_available_at := Some 1\<rparr>) 2 3"

definition relay_leased :: job where
  "relay_leased = lease_row ''w'' (replicate 64 CHR ''0'') 6 90006 queued_row"

definition hub_with :: "job list \<Rightarrow> relay_row list \<Rightarrow> hub_db" where
  "hub_with js rs = \<lparr>hub_jobs = \<lparr>job_table = js, job_deps = []\<rparr>, hub_results = rs, hub_workers = [], hub_enrollments = []\<rparr>"

definition accepted_row :: relay_row where
  "accepted_row = \<lparr>rr_job = ''f'', rr_input_hash = replicate 64 CHR ''0'', rr_operation = OperationListModels,
     rr_json = sample_result, rr_hash = replicate 64 CHR ''0'', rr_created = Some 7\<rparr>"

lemma zeros_nonblank: "\<not> blank (replicate 64 CHR ''0'')" "\<not> blank (IdempotencyKey (replicate 64 CHR ''0''))" "\<not> blank OwnerType" "\<not> blank ''r''"
  by (simp_all add: ascii_blank byte_def is_space_def IdempotencyKey_def OwnerType_def)

lemma run_enqueue:
  "Relay_Enqueue ''f'' (1, 2, 3) sample_payload (replicate 64 CHR ''0'') ''r'' (hub_with [] []) = (Inr queued_row, hub_with [queued_row] [])"
proof -
  have v: "validateSpec json_valid (relay_spec sample_payload (replicate 64 CHR ''0'') ''r'') = Inr (relay_spec sample_payload (replicate 64 CHR ''0'') ''r'')"
    by (simp add: validateSpec_def relay_spec_def job_types_def zeros_nonblank sample_payload_nonblank sample_json)
  have "sample_payload \<noteq> []" using sample_payload_ends by auto
  then show ?thesis using sample_payload_length v
    by (simp add: Relay_Enqueue_def PayloadLimitBytes_def lift_jobs_def on_jobs_def hub_with_def Enqueue_def with_transaction_def
        enqueueTx_def insert_job_def getTx_def find_by_def Let_def ulid_is_zero_def)
      (simp add: relay_spec_def queued_row_def row_of_spec_def)
qed

lemma queued_row_simps [simp]:
  "job_id queued_row = ''f''" "job_state queued_row = Queued" "attempt_count queued_row = 0" "max_attempts queued_row = 3"
  "execution_target queued_row = TargetMacOS" "available_at queued_row = Some 1" "job_type queued_row = LLMRelayJobType"
  "owner_type queued_row = OwnerType" "owner_id queued_row = ''r''" "payload_json queued_row = sample_payload"
  "input_hash queued_row = replicate 64 CHR ''0''" "started_at queued_row = None"
  by (simp_all add: queued_row_def row_of_spec_def relay_spec_def ulid_string_def)

lemma run_claim:
  "ClaimMatching (sha sample_svc) None TargetMacOS ''w'' ''t'' 6 6 (hub_jobs (hub_with [queued_row] [])) =
     (Inr \<lparr>lease_job = relay_leased, lease_token = ''t''\<rparr>, hub_jobs (hub_with [relay_leased] []))"
  by (simp add: claim_eval hub_with_def sample_svc_def relay_leased_def)

lemma relay_leased_simps [simp]:
  "job_id relay_leased = ''f''" "job_state relay_leased = Leased" "attempt_count relay_leased = 1"
  "job_type relay_leased = LLMRelayJobType" "owner_type relay_leased = OwnerType" "owner_id relay_leased = ''r''"
  "payload_json relay_leased = sample_payload" "input_hash relay_leased = replicate 64 CHR ''0''"
  "lease_token_hash relay_leased = replicate 64 CHR ''0''" "lease_expires_at relay_leased = Some 90006"
  by (simp_all add: relay_leased_def lease_row_def)

lemma sha_sample [simp]: "sha sample_svc x = replicate 64 CHR ''0''"
  by (simp add: sample_svc_def)

lemma hub_with_simps [simp]:
  "hub_jobs (hub_with js rs) = \<lparr>job_table = js, job_deps = []\<rparr>" "hub_results (hub_with js rs) = rs"
  "(hub_with js rs)\<lparr>hub_jobs := \<lparr>job_table = js', job_deps = []\<rparr>\<rparr> = hub_with js' rs"
  "(hub_with js rs)\<lparr>hub_results := rs'\<rparr> = hub_with js rs'"
  by (simp_all add: hub_with_def)

lemma run_complete:
  "with_transaction (Relay_CompleteTx sample_svc relay_leased 1 ''t'' sample_result 7 7 7) (hub_with [relay_leased] []) =
     (Inr (), hub_with [succeed_row 7 relay_leased] [accepted_row])"
proof -
  have "CompleteTx (sha sample_svc) ''f'' 1 ''t'' 7 7 7 (hub_jobs (hub_with [relay_leased] [])) =
      (Inr (), hub_jobs (hub_with [succeed_row 7 relay_leased] []))"
    by (simp add: CompleteTx_def finishTx_def hub_with_def find_by_def ulid_string_def constantTokenMatch_def
        active_def jobLeaseLive_def update_where_def attempt_row_def)
  moreover have "0 < MaxCompletionBytes" "MaxCompletionBytes \<le> ResultLimitBytes" "int (length sample_result) \<le> ResultLimitBytes"
    using sample_result_length by (simp_all add: MaxCompletionBytes_def ResultLimitBytes_def)
  ultimately show ?thesis
    by (simp add: with_transaction_def Relay_CompleteTx_def sample_decoded sample_canonical lift_jobs_def on_jobs_def Let_def
        find_by_def ulid_string_def accepted_row_def)
qed

end
