(* ===== verification/LLM_Relay_Props.thy ===== *)
theory LLM_Relay_Props
  imports LLM_Samples
begin

text \<open>
  What the relay's tables promise in every reachable state: a relay job has succeeded exactly when it has a result row,
  there is one such row, and rows stay as they were accepted.
\<close>

section \<open>Operations that let no job succeed\<close>

definition no_success :: "jobs_db \<Rightarrow> jobs_db \<Rightarrow> bool" where
  "no_success a b \<longleftrightarrow> (\<forall>k \<in> set (job_table b). job_state k = Succeeded \<longrightarrow> k \<in> set (job_table a))"

lemma no_success_refl [simp]: "no_success a a"
  by (simp add: no_success_def)

lemma no_success_trans: "no_success a b \<Longrightarrow> no_success b c \<Longrightarrow> no_success a c"
  by (auto simp: no_success_def)

lemma no_success_update:
  assumes "\<And>r. job_state (f r) \<noteq> Succeeded"
  shows "no_success a (a\<lparr>job_table := update_where P f (job_table a)\<rparr>)"
  using assms by (auto simp: no_success_def set_update_where split: if_splits)

lemma no_success_tx: "with_transaction body s = (r, t) \<Longrightarrow> (\<And>r' t'. body s = (r', t') \<Longrightarrow> no_success s t') \<Longrightarrow> no_success s t"
  by (auto simp: with_transaction_def split: prod.splits sum.splits)

lemma no_success_row [simp]:
  "job_state (lease_row owner thash now expires j) \<noteq> Succeeded" "job_state (fail_dependency now j) \<noteq> Succeeded"
  "job_state (cancel_queued_row code now j) \<noteq> Succeeded" "job_state (cancel_active_row code now j) \<noteq> Succeeded"
  "st \<noteq> Succeeded \<Longrightarrow> job_state (fail_row st available code now j) \<noteq> Succeeded"
  "st \<noteq> Succeeded \<Longrightarrow> job_state (expire_row st available now j) \<noteq> Succeeded"
  by (simp_all add: row_defs)

lemma no_success_reconcile: "no_success db (reconcileDependencyFailuresTx now db)"
proof (induction now db rule: reconcileDependencyFailuresTx.induct)
  case (1 now db)
  have "no_success db (reconcile_pass now db)" unfolding reconcile_pass_def by (rule no_success_update) simp
  with 1 show ?case by (auto simp: reconcileDependencyFailuresTx.simps[of now db] intro: no_success_trans)
qed

lemma no_success_take_lease:
  "take_lease guard owner token thash now expires jid db = (r, db') \<Longrightarrow> no_success db db'"
  by (auto simp: take_lease_def Let_def split: if_splits option.splits intro: no_success_update)

lemma no_success_claim: "ClaimMatching hash matches target owner token now clk db = (r, db') \<Longrightarrow> no_success db db'"
  unfolding ClaimMatching_def claimMatchingBody_def
  by (auto split: if_splits option.splits simp: Let_def dest!: claim_result_snd elim!: no_success_tx
      intro: no_success_reconcile no_success_trans[OF no_success_reconcile no_success_take_lease])

lemma no_success_capability:
  "ClaimMatchingCapability hash target owner jtype token now clk db = (r, db') \<Longrightarrow> no_success db db'"
  unfolding ClaimMatchingCapability_def claimCapabilityBody_def
  by (auto split: if_splits list.splits simp: Let_def dest!: claim_result_snd elim!: no_success_tx
      intro: no_success_reconcile no_success_trans[OF no_success_reconcile no_success_take_lease])

lemma no_success_beat:
  "no_success db (db\<lparr>job_table := update_where P (\<lambda>r. r\<lparr>job_state := Running, lease_expires_at := e,
     progress_percent := p, updated_at := n\<rparr>) (job_table db)\<rparr>)"
  by (rule no_success_update) simp

lemma no_success_heartbeat: "Heartbeat hash jid attempt token progress now clk live_clk db = (r, db') \<Longrightarrow> no_success db db'"
  unfolding Heartbeat_def heartbeatBody_def
  by (auto split: if_splits option.splits simp: Let_def elim!: no_success_tx intro: no_success_beat)

lemma no_success_fail_rows:
  "no_success db (db\<lparr>job_table := update_where P (fail_row Queued available code now) (job_table db)\<rparr>)"
  "no_success db (db\<lparr>job_table := update_where P (fail_row Failed available code now) (job_table db)\<rparr>)"
  by (rule no_success_update, simp)+

lemma no_success_cancel_rows:
  "no_success db (db\<lparr>job_table := update_where P (cancel_queued_row code now) (job_table db)\<rparr>)"
  "no_success db (db\<lparr>job_table := update_where P (cancel_active_row code now) (job_table db)\<rparr>)"
  by (rule no_success_update, simp)+

lemma no_success_fail: "Fail hash jid attempt token code retry now live_clk retry_clk db = (r, db') \<Longrightarrow> no_success db db'"
  unfolding Fail_def finish_def finishTx_def
  by (auto split: if_splits option.splits simp: Let_def elim!: no_success_tx intro: no_success_fail_rows)

lemma no_success_both:
  "no_success db (db\<lparr>job_table := update_where A (cancel_active_row code now)
      (update_where Q (cancel_queued_row code now) (job_table db))\<rparr>)"
  by (auto simp: no_success_def set_update_where split: if_splits)

lemma no_success_cancel_tx: "CancelTx jid code now db = (r, db') \<Longrightarrow> no_success db db'"
  unfolding CancelTx_def
  by (auto split: if_splits option.splits simp: Let_def intro: no_success_cancel_rows no_success_both)

lemma no_success_cancel: "Cancel jid code now db = (r, db') \<Longrightarrow> no_success db db'"
  unfolding Cancel_def by (auto split: if_splits elim!: no_success_tx intro: no_success_cancel_tx)

lemma no_success_cancel_owner: "CancelOwnerJobs otype oid jtype code now db = (r, db') \<Longrightarrow> no_success db db'"
  unfolding CancelOwnerJobs_def CancelOwnerJobsTx_def
  by (auto split: if_splits simp: Let_def elim!: no_success_tx intro: no_success_both)

lemma no_success_recover_item: "recover_item cb clk now item (db, d) = Inr (n, (db', d')) \<Longrightarrow> no_success db db'"
  by (auto dest!: recover_item_Inr(1) intro!: no_success_update)

lemma no_success_recover_items: "recover_items cb clk now items (db, d) = Inr (n, (db', d')) \<Longrightarrow> no_success db db'"
proof (induction items arbitrary: db d n)
  case (Cons item items)
  then show ?case by (fastforce simp: bind_res_Inr_conv intro: no_success_trans dest: no_success_recover_item)
qed simp

lemma no_success_recover: "RecoverExpired cb clk now (db, d) = (r, (db', d')) \<Longrightarrow> no_success db db'"
  by (auto simp: RecoverExpired_def with_transaction_def recoverExpiredBody_def split: prod.splits sum.splits
      intro: no_success_trans[OF no_success_recover_items no_success_reconcile])

lemma no_success_recover_job: "RecoverExpiredJob cb clk now jid (db, d) = (r, (db', d')) \<Longrightarrow> no_success db db'"
  by (auto simp: RecoverExpiredJob_def with_transaction_def recoverExpiredJobBody_def
      split: prod.splits sum.splits option.splits if_splits
      intro: no_success_recover_item no_success_trans[OF no_success_recover_item no_success_reconcile])

lemma no_success_insert: "insert_job (row_of_spec spec a b) db = Inr db' \<Longrightarrow> no_success db db'"
  by (auto simp: insert_job_def row_of_spec_def no_success_def split: if_splits)

lemma no_success_enqueue_tx: "enqueueTx fresh clocks spec db = (r, db') \<Longrightarrow> no_success db db'"
  unfolding enqueueTx_def Let_def
  by (cases clocks) (auto split: sum.splits dest: no_success_insert)

lemma no_success_enqueue: "Enqueue valid fresh clocks spec db = (r, db') \<Longrightarrow> no_success db db'"
  unfolding Enqueue_def by (auto split: sum.splits elim!: no_success_tx intro: no_success_enqueue_tx)

section \<open>Steps of the whole database\<close>

definition relay_done :: "jobs_db \<Rightarrow> job \<Rightarrow> bool" where
  "relay_done jb k \<longleftrightarrow> k \<in> set (job_table jb) \<and> job_type k = LLMRelayJobType \<and> job_state k = Succeeded"

definition quiet :: "jobs_db \<Rightarrow> jobs_db \<Rightarrow> bool" where
  "quiet a b \<longleftrightarrow> (\<forall>k. relay_done b k \<longrightarrow> k \<in> set (job_table a))"

lemma no_success_quiet: "no_success a b \<Longrightarrow> quiet a b"
  by (auto simp: no_success_def quiet_def relay_done_def)

text \<open>
  A plain \<open>Complete\<close> or \<open>CompleteTx\<close> of a job of another type lets no relay job succeed either.  The scheduler
  itself does not look at the type: completing a relay job by \<open>jobs.Complete\<close> would let it succeed without a result.
  Nothing in the program does: the callers of \<open>jobs.Complete\<close> are the runners of analyses, dictionary entries and
  sentence translations, which claim jobs of their own type, and the two completions of speech jobs, and the one
  caller with a relay job is \<open>Relay_CompleteTx\<close>.
\<close>

lemma quiet_other_completion:
  assumes "Complete hash jid attempt token now live_clk retry_clk db = (r, db') \<or>
      CompleteTx hash jid attempt token now live_clk retry_clk db = (r, db')"
    and "\<And>k. k \<in> set (job_table db) \<Longrightarrow> job_id k = ulid_string jid \<Longrightarrow> job_type k \<noteq> LLMRelayJobType"
  shows "quiet db db'"
proof -
  let ?body = "finishTx hash jid attempt token True [] now live_clk retry_clk"
  have body: "quiet db t" if "?body db = (x, t)" for x t
    using that assms(2) unfolding finishTx_def quiet_def relay_done_def
    by (auto simp: Let_def set_update_where attempt_row_def succeed_row_def split: if_splits option.splits)
  have same: "quiet db db" by (simp add: quiet_def relay_done_def)
  have "quiet db t" if "with_transaction ?body db = (x, t)" for x t
    using that body same by (auto simp: with_transaction_def split: prod.splits sum.splits)
  then show ?thesis using assms(1) body same
    by (auto simp: Complete_def finish_def CompleteTx_def split: if_splits)
qed

text \<open>
  The steps: any call on the scheduler that lets no relay job succeed (by the lemmas above, every call but a completion,
  and the completion of any other job; the condition \<open>quiet\<close> excludes just a plain completion of a relay job), the
  relay's completion with a job read earlier, and any change of workers.
\<close>

inductive hub_step :: "relay_svc \<Rightarrow> hub_db \<Rightarrow> hub_db \<Rightarrow> bool" for E :: relay_svc where
  scheduler: "job_step (sha E) json_valid None (hub_jobs db, ()) (jb, ()) \<Longrightarrow> quiet (hub_jobs db) jb \<Longrightarrow>
     hub_step E db (db\<lparr>hub_jobs := jb\<rparr>)"
| complete: "k \<in> set (job_table (hub_jobs db)) \<Longrightarrow> same_identity k j \<Longrightarrow>
     with_transaction (Relay_CompleteTx E j attempt token result now live_clk retry_clk) db = (r, db') \<Longrightarrow> hub_step E db db'"
| workers: "hub_step E db (db\<lparr>hub_workers := ws, hub_enrollments := es\<rparr>)"

definition row_justified :: "relay_svc \<Rightarrow> jobs_db \<Rightarrow> relay_row \<Rightarrow> bool" where
  "row_justified E jb r \<longleftrightarrow>
     (\<exists>j p. relay_done jb j \<and> job_id j = rr_job r \<and> rr_input_hash r = input_hash j \<and> rr_hash r = sha E (rr_json r) \<and>
        DecodeRelayPayload (payload_json j) = Inr p \<and> (\<exists>result. canonical_result E p result = Inr (rr_operation r, rr_json r)))"

definition hub_ok :: "relay_svc \<Rightarrow> hub_db \<Rightarrow> bool" where
  "hub_ok E db \<longleftrightarrow> db_ok (hub_jobs db) \<and> distinct (map rr_job (hub_results db)) \<and>
     (\<forall>r \<in> set (hub_results db). row_justified E (hub_jobs db) r) \<and>
     (\<forall>j. relay_done (hub_jobs db) j \<longrightarrow> job_id j \<in> rr_job ` set (hub_results db))"

lemma relay_done_keep:
  assumes "grows (job_table a) (job_table b)" and "db_ok a" and "relay_done a j"
  shows "relay_done b j"
proof -
  have "distinct (map job_id (job_table a))" "j \<in> set (job_table a)" using assms(2,3) by (auto simp: db_ok_def relay_done_def)
  then have "find_by job_id (job_id j) (job_table a) = Some j" by (rule find_by_unique)
  then obtain k where k: "find_by job_id (job_id j) (job_table b) = Some k" "lifecycle\<^sup>*\<^sup>* j k"
    using grows_find[OF assms(1)] by blast
  have "k = j" using lifecycle_rtrancl_terminal[OF k(2)] assms(3) by (simp add: relay_done_def terminal_def)
  then show ?thesis using k(1) assms(3) find_by_Some by (fastforce simp: relay_done_def)
qed

lemma row_justified_keep:
  "row_justified E a r \<Longrightarrow> grows (job_table a) (job_table b) \<Longrightarrow> db_ok a \<Longrightarrow> row_justified E b r"
  unfolding row_justified_def using relay_done_keep by blast

lemma CompleteTx_effect:
  assumes "CompleteTx hash jid attempt token now live_clk retry_clk db = (Inr (), db')"
  shows "\<exists>j. find_by job_id (ulid_string jid) (job_table db) = Some j \<and>
    ((job_state j = Succeeded \<and> db' = db) \<or>
     (attempt_row hash jid attempt token j \<and>
        db' = db\<lparr>job_table := update_where (attempt_row hash jid attempt token) (succeed_row now) (job_table db)\<rparr>))"
  using assms find_by_Some
  by (fastforce simp: CompleteTx_def finishTx_def constantTokenMatch_def attempt_row_def split: if_splits option.splits)

lemma complete_done:
  assumes "CompleteTx hash jid attempt token now live_clk retry_clk db = (Inr (), db')"
    and "relay_done db' k"
  shows "k \<in> set (job_table db) \<or> job_id k = ulid_string jid"
proof -
  from CompleteTx_effect[OF assms(1)] consider "db' = db"
    | "db' = db\<lparr>job_table := update_where (attempt_row hash jid attempt token) (succeed_row now) (job_table db)\<rparr>" by blast
  then show ?thesis
  proof cases
    case 1
    then show ?thesis using assms(2) by (simp add: relay_done_def)
  next
    case 2
    then show ?thesis using assms(2)
      by (auto simp: relay_done_def set_update_where attempt_row_def succeed_row_def split: if_splits)
  qed
qed

lemma completed_row:
  assumes "CompleteTx hash jid attempt token now live_clk retry_clk db = (Inr (), db')"
    and "find_by job_id (ulid_string jid) (job_table db) = Some j" and "job_state j \<noteq> Succeeded"
  shows "succeed_row now j \<in> set (job_table db')"
  using CompleteTx_effect[OF assms(1)] assms(2,3) by (auto simp: set_update_where dest!: find_by_Some)

text \<open>What a committed completion did.\<close>

lemma Relay_CompleteTx_Inr:
  assumes "Relay_CompleteTx E j attempt token result now live_clk retry_clk db = (Inr (), db')"
  shows "\<exists>p operation canonical jb. job_type j = LLMRelayJobType \<and> DecodeRelayPayload (payload_json j) = Inr p \<and>
    canonical_result E p result = Inr (operation, canonical) \<and>
    CompleteTx (sha E) (job_id j) attempt token now live_clk retry_clk (hub_jobs db) = (Inr (), jb) \<and>
    (case find_by rr_job (ulid_string (job_id j)) (hub_results db) of
       Some r \<Rightarrow> rr_hash r = sha E canonical \<and> db' = db\<lparr>hub_jobs := jb\<rparr>
     | None \<Rightarrow> db' = db\<lparr>hub_results := hub_results db @ [\<lparr>rr_job = ulid_string (job_id j), rr_input_hash = input_hash j,
         rr_operation = operation, rr_json = canonical, rr_hash = sha E canonical, rr_created = Some now\<rparr>], hub_jobs := jb\<rparr>)"
  using assms
  by (auto simp: Relay_CompleteTx_def Let_def lift_jobs_def on_jobs_def split: if_splits sum.splits prod.splits option.splits)

lemma hub_step_ok:
  assumes "hub_step E db db'" and "hub_ok E db" and hash: "\<And>x. sha E x \<noteq> []"
  shows "hub_ok E db'"
  using assms(1)
proof cases
  case (scheduler jb)
  have dbok: "db_ok (hub_jobs db)" using assms(2) by (simp add: hub_ok_def)
  have "db_ok jb" using job_step_db_ok[OF scheduler(2)] dbok hash by simp
  moreover have g: "grows (job_table (hub_jobs db)) (job_table jb)" using job_step_grows[OF scheduler(2)] dbok hash by simp
  moreover have "relay_done (hub_jobs db) k" if "relay_done jb k" for k
    using that scheduler(3) by (auto simp: quiet_def relay_done_def)
  ultimately show ?thesis using assms(2) row_justified_keep[OF _ g dbok] scheduler(1) by (auto simp: hub_ok_def)
next
  case (complete k j attempt token result now live_clk retry_clk r)
  show ?thesis
  proof (cases r)
    case (Inl e)
    have "db' = db" by (rule with_transaction_Inl[OF complete(3)[unfolded Inl]])
    then show ?thesis using assms(2) by simp
  next
    case (Inr u)
    have dbok: "db_ok (hub_jobs db)" using assms(2) by (simp add: hub_ok_def)
    have body: "Relay_CompleteTx E j attempt token result now live_clk retry_clk db = (Inr (), db')"
      using complete(3) Inr by (simp add: with_transaction_Inr)
    obtain p operation canonical jb where c: "job_type j = LLMRelayJobType" "DecodeRelayPayload (payload_json j) = Inr p"
      "canonical_result E p result = Inr (operation, canonical)"
      "CompleteTx (sha E) (job_id j) attempt token now live_clk retry_clk (hub_jobs db) = (Inr (), jb)"
      and e: "case find_by rr_job (ulid_string (job_id j)) (hub_results db) of
        Some r \<Rightarrow> rr_hash r = sha E canonical \<and> db' = db\<lparr>hub_jobs := jb\<rparr>
      | None \<Rightarrow> db' = db\<lparr>hub_results := hub_results db @ [\<lparr>rr_job = ulid_string (job_id j), rr_input_hash = input_hash j,
         rr_operation = operation, rr_json = canonical, rr_hash = sha E canonical, rr_created = Some now\<rparr>], hub_jobs := jb\<rparr>"
      using Relay_CompleteTx_Inr[OF body] by blast
    have dist: "distinct (map job_id (job_table (hub_jobs db)))" using dbok unfolding db_ok_def by blast
    have step: "table_step (hub_jobs db) jb" by (rule CompleteTx_table_step[OF c(4) dist])
    have g: "grows (job_table (hub_jobs db)) (job_table jb)" by (rule table_step_grows[OF step])
    have ok: "db_ok jb" by (rule db_ok_table_step[OF step dbok])
    have kid: "job_id k = job_id j" "ulid_string (job_id j) = job_id j"
      using complete(1,2) dbok by (auto simp: same_identity_def ulid_string_def db_ok_def job_ok_def)
    have done_: "job_id m \<in> rr_job ` set (hub_results db) \<or> job_id m = job_id j" if m: "relay_done jb m" for m
    proof -
      have "relay_done (hub_jobs db) m \<or> job_id m = job_id j"
        using complete_done[OF c(4) m] kid(2) m by (auto simp: relay_done_def)
      then show ?thesis using assms(2) by (auto simp: hub_ok_def)
    qed
    show ?thesis
    proof (cases "find_by rr_job (ulid_string (job_id j)) (hub_results db)")
      case (Some r0)
      then have "job_id j \<in> rr_job ` set (hub_results db)" using kid(2) by (metis find_by_Some image_eqI)
      then have all: "\<forall>m. relay_done jb m \<longrightarrow> job_id m \<in> rr_job ` set (hub_results db)" using done_ by metis
      have "db' = db\<lparr>hub_jobs := jb\<rparr>" using Some e by simp
      then show ?thesis using ok assms(2) row_justified_keep[OF _ g dbok] all by (simp add: hub_ok_def)
    next
      case None
      let ?row = "\<lparr>rr_job = ulid_string (job_id j), rr_input_hash = input_hash j, rr_operation = operation,
        rr_json = canonical, rr_hash = sha E canonical, rr_created = Some now\<rparr>"
      have new: "job_id j \<notin> rr_job ` set (hub_results db)" using None kid(2) by (auto simp: find_by_None)
      have fk: "find_by job_id (ulid_string (job_id j)) (job_table (hub_jobs db)) = Some k"
        using find_by_unique[OF dist complete(1)] kid by simp
      have sk: "job_type k = LLMRelayJobType" "input_hash k = input_hash j" "payload_json k = payload_json j"
        using complete(2) c(1) by (auto simp: same_identity_def)
      have "job_state k \<noteq> Succeeded"
        using assms(2) new complete(1) sk(1) kid(1) unfolding hub_ok_def relay_done_def by metis
      then have "succeed_row now k \<in> set (job_table jb)" using completed_row[OF c(4) fk] by blast
      then have "relay_done jb (succeed_row now k)" using sk(1) by (simp add: relay_done_def succeed_row_def)
      then have "row_justified E jb ?row"
        unfolding row_justified_def using c(2,3) sk kid
        by (intro exI[of _ "succeed_row now k"] exI[of _ p]) (auto simp: succeed_row_def)
      moreover have "db' = db\<lparr>hub_results := hub_results db @ [?row], hub_jobs := jb\<rparr>" using e None by simp
      moreover have "\<forall>m. relay_done jb m \<longrightarrow> job_id m \<in> insert (job_id j) (rr_job ` set (hub_results db))" using done_ by blast
      ultimately show ?thesis using ok assms(2) row_justified_keep[OF _ g dbok] new kid(2) by (simp add: hub_ok_def)
    qed
  qed
next
  case (workers ws es)
  then show ?thesis using assms(2) by (simp add: hub_ok_def)
qed

definition empty_hub :: hub_db where
  "empty_hub = \<lparr>hub_jobs = empty_db, hub_results = [], hub_workers = [], hub_enrollments = []\<rparr>"

interpretation hub: invariant_system "\<lambda>db. db = empty_hub" "hub_step E" "\<lambda>db. hash_total (sha E) \<longrightarrow> hub_ok E db"
  for E :: relay_svc
proof unfold_locales
  show "hash_total (sha E) \<longrightarrow> hub_ok E db" if "db = empty_hub" for db
    using that by (simp add: empty_hub_def hub_ok_def empty_db_def db_ok_def acyclic_def relay_done_def)
  show "hash_total (sha E) \<longrightarrow> hub_ok E t" if "hash_total (sha E) \<longrightarrow> hub_ok E s" "hub_step E s t" for s t
    using that hub_step_ok hash_total_nonempty by blast
qed

lemma filter_key_one:
  assumes "distinct (map f xs)"
  shows "length (filter (\<lambda>x. f x = v) xs) = (if v \<in> f ` set xs then 1 else 0)"
  using assms by (induction xs) auto

text \<open>C2: exactly-once results.  In every database reached from the empty one by changes of workers, relay completions and
  those scheduler calls by which no relay job succeeds (every call but a completion, and completions of jobs of other
  types), a relay job that has succeeded has exactly one result row, and any other job has none.  The condition on the
  scheduler calls is needed: jobs.Complete does not look at the job's type, and a plain completion of a relay job would
  let it succeed without a result; in the program relay jobs are completed through the relay's completion only.\<close>
theorem relay_result_exactly_once:
  assumes "reach (\<lambda>db. db = empty_hub) (hub_step E) db" and "hash_total (sha E)" and "j \<in> set (job_table (hub_jobs db))"
  shows "length (filter (\<lambda>r. rr_job r = job_id j) (hub_results db)) =
    (if job_type j = LLMRelayJobType \<and> job_state j = Succeeded then 1 else 0)"
proof -
  have ok: "hub_ok E db" using hub.reach_inv[OF assms(1)] assms(2) by blast
  have "job_id j \<in> rr_job ` set (hub_results db) \<longleftrightarrow> relay_done (hub_jobs db) j"
  proof
    assume "job_id j \<in> rr_job ` set (hub_results db)"
    then obtain r where "r \<in> set (hub_results db)" "rr_job r = job_id j" by auto
    then obtain k where k: "relay_done (hub_jobs db) k" "job_id k = job_id j" using ok by (auto simp: hub_ok_def row_justified_def)
    have "k = j" using k assms(3) ok by (auto simp: hub_ok_def db_ok_def relay_done_def distinct_map inj_on_def)
    then show "relay_done (hub_jobs db) j" using k(1) by simp
  qed (use ok in \<open>auto simp: hub_ok_def\<close>)
  then show ?thesis using filter_key_one[of rr_job "hub_results db" "job_id j"] ok assms(3)
    by (simp add: hub_ok_def relay_done_def)
qed

lemma run_reached:
  "reach (\<lambda>db. db = empty_hub) (hub_step sample_svc) (hub_with [succeed_row 7 relay_leased] [accepted_row])"
proof -
  have e: "empty_hub = hub_with [] []" by (simp add: empty_hub_def hub_with_def empty_db_def)
  have q: "Enqueue json_valid ''f'' (1, 2, 3) (relay_spec sample_payload (replicate 64 CHR ''0'') ''r'') (hub_jobs (hub_with [] [])) =
      (Inr queued_row, hub_jobs (hub_with [queued_row] []))"
    using run_enqueue sample_payload_length
    by (auto simp: Relay_Enqueue_def lift_jobs_def on_jobs_def hub_with_def split: prod.splits sum.splits if_splits)
  have s1: "hub_step sample_svc (hub_with [] []) ((hub_with [] [])\<lparr>hub_jobs := hub_jobs (hub_with [queued_row] [])\<rparr>)"
    by (rule hub_step.scheduler[OF job_step.enqueue[OF q] no_success_quiet[OF no_success_enqueue[OF q]]])
  have s2: "hub_step sample_svc (hub_with [queued_row] [])
      ((hub_with [queued_row] [])\<lparr>hub_jobs := hub_jobs (hub_with [relay_leased] [])\<rparr>)"
    by (rule hub_step.scheduler[OF job_step.claim[OF run_claim] no_success_quiet[OF no_success_claim[OF run_claim]]])
  have s3: "hub_step sample_svc (hub_with [relay_leased] []) (hub_with [succeed_row 7 relay_leased] [accepted_row])"
    by (rule hub_step.complete[where k = relay_leased, OF _ _ run_complete]) (simp_all add: same_identity_def)
  have r: "reach (\<lambda>db. db = empty_hub) (hub_step sample_svc) (hub_with [] [])" unfolding e by (rule reach_init) (rule refl)
  show ?thesis by (rule reach_step[OF reach_step[OF reach_step[OF r s1[unfolded hub_with_simps]] s2[unfolded hub_with_simps]] s3])
qed

theorem relay_result_exactly_once_witness:
  "length (filter (\<lambda>r. rr_job r = ''f'') [accepted_row]) = 1"
  using relay_result_exactly_once[OF run_reached, of "succeed_row 7 relay_leased"]
  by (simp add: hub_with_def hash_total_def sample_svc_def succeed_row_def)

text \<open>Accepted rows stay: the results table only grows at its end.\<close>

lemma hub_step_results:
  assumes "hub_step E a b"
  shows "\<exists>new. hub_results b = hub_results a @ new"
  using assms
proof cases
  case (complete k j attempt token result now live_clk retry_clk r)
  show ?thesis
  proof (cases r)
    case (Inl e)
    have "b = a" by (rule with_transaction_Inl[OF complete(3)[unfolded Inl]])
    then show ?thesis by simp
  next
    case (Inr u)
    then have "Relay_CompleteTx E j attempt token result now live_clk retry_clk a = (Inr (), b)"
      using complete(3) by (simp add: with_transaction_Inr)
    from Relay_CompleteTx_Inr[OF this] show ?thesis by (auto split: option.splits)
  qed
qed auto

lemma hub_steps_results: "(hub_step E)\<^sup>*\<^sup>* a b \<Longrightarrow> \<exists>new. hub_results b = hub_results a @ new"
proof (induction rule: rtranclp_induct)
  case (step b c)
  then show ?case using hub_step_results[of E b c] by auto
qed simp

text \<open>C24: an accepted relay result is final and repetition is harmless.  Once a job has a result row, a further completion
  whose canonical bytes hash differently is refused as nondeterministic and one with the same hash is accepted exactly
  when it presents the attempt and token of the finished lease; either way the database stays as it is.\<close>
theorem relay_completion_idempotent:
  assumes "hub_ok E db" and "k \<in> set (job_table (hub_jobs db))" and "same_identity k j"
    and "find_by rr_job (job_id j) (hub_results db) = Some r" and "job_type j = LLMRelayJobType"
    and "owner_type j = OwnerType" and "owner_id j \<noteq> []" and "int (length result) \<le> ResultLimitBytes"
    and "DecodeRelayPayload (payload_json j) = Inr p" and "0 < lim_bytes (rp_limits p)"
    and "lim_bytes (rp_limits p) \<le> ResultLimitBytes" and "canonical_result E p result = Inr (operation, canonical)"
  shows "with_transaction (Relay_CompleteTx E j attempt token result now live_clk retry_clk) db =
    (if sha E canonical \<noteq> rr_hash r then Inl (NondeterministicError (job_id j))
     else if token \<noteq> [] \<and> attempt_count k = attempt \<and> constantTokenMatch (sha E) token (lease_token_hash k) then Inr ()
     else Inl (RelayJobs ErrLeaseLost), db)"
proof -
  have jid: "ulid_string (job_id j) = job_id j" "job_id k = job_id j"
    using assms(1-3) by (auto simp: same_identity_def ulid_string_def hub_ok_def db_ok_def job_ok_def)
  obtain k' where k': "relay_done (hub_jobs db) k'" "job_id k' = job_id j"
    using assms(1,4) find_by_Some[OF assms(4)] by (auto simp: hub_ok_def row_justified_def)
  have dist: "distinct (map job_id (job_table (hub_jobs db)))" using assms(1) by (simp add: hub_ok_def db_ok_def)
  have "k' = k" using k' dist assms(2) jid(2) by (auto simp: relay_done_def distinct_map inj_on_def)
  then have st: "job_state k = Succeeded" using k'(1) by (simp add: relay_done_def)
  have f: "find_by job_id (job_id j) (job_table (hub_jobs db)) = Some k"
    using find_by_unique[OF dist assms(2)] jid(2) by simp
  have fin: "CompleteTx (sha E) (job_id j) attempt token now live_clk retry_clk (hub_jobs db) =
    (if token \<noteq> [] \<and> attempt_count k = attempt \<and> constantTokenMatch (sha E) token (lease_token_hash k) then Inr ()
     else Inl ErrLeaseLost, hub_jobs db)"
    using st f jid(1) by (simp add: CompleteTx_def finishTx_def)
  show ?thesis
    using assms(4-12) fin jid(1)
    by (simp add: with_transaction_def Relay_CompleteTx_def lift_jobs_def on_jobs_def)
qed

theorem relay_completion_idempotent_witness:
  "with_transaction (Relay_CompleteTx sample_svc (succeed_row 7 relay_leased) 1 ''t'' sample_result 8 8 8)
     (hub_with [succeed_row 7 relay_leased] [accepted_row]) = (Inr (), hub_with [succeed_row 7 relay_leased] [accepted_row])"
proof -
  let ?db = "hub_with [succeed_row 7 relay_leased] [accepted_row]" and ?j = "succeed_row 7 relay_leased"
  have h: "hash_total (sha sample_svc)" by (simp add: hash_total_def sample_svc_def)
  have ok: "hub_ok sample_svc ?db" using hub.reach_inv[OF run_reached] h by blast
  have s: "job_id ?j = ''f''" "job_type ?j = LLMRelayJobType" "owner_type ?j = OwnerType" "owner_id ?j = ''r''"
    "payload_json ?j = sample_payload" by (simp_all add: succeed_row_def)
  have "with_transaction (Relay_CompleteTx sample_svc ?j 1 ''t'' sample_result 8 8 8) ?db =
    (if sha sample_svc sample_result \<noteq> rr_hash accepted_row then Inl (NondeterministicError (job_id ?j))
     else if ''t'' \<noteq> [] \<and> attempt_count ?j = 1 \<and> constantTokenMatch (sha sample_svc) ''t'' (lease_token_hash ?j) then Inr ()
     else Inl (RelayJobs ErrLeaseLost), ?db)"
  proof (rule relay_completion_idempotent[OF ok _ _ _ s(2,3)])
    show "?j \<in> set (job_table (hub_jobs ?db))" "same_identity ?j ?j" by (simp_all add: hub_with_def same_identity_def)
    show "find_by rr_job (job_id ?j) (hub_results ?db) = Some accepted_row"
      by (simp add: s hub_with_def find_by_def accepted_row_def)
    show "DecodeRelayPayload (payload_json ?j) =
        Inr \<lparr>rp_operation = OperationListModels, rp_request = ''r'', rp_limits = \<lparr>lim_bytes = MaxCompletionBytes\<rparr>\<rparr>"
      by (simp add: s sample_decoded)
    show "int (length sample_result) \<le> ResultLimitBytes" using sample_result_length by (simp add: ResultLimitBytes_def)
  qed (simp_all add: s sample_canonical, simp_all add: MaxCompletionBytes_def ResultLimitBytes_def)
  then show ?thesis by (simp add: sample_svc_def accepted_row_def succeed_row_def constantTokenMatch_def)
qed

end
