(* ===== verification/Localworker_Props.thy ===== *)
theory Localworker_Props
  imports Localworker
begin

text \<open>
  The payload envelope decodes to what was encoded, and three places where the contract's comments and its code part: the
  base64 pattern, the strict decoder, and the failure codes of relay jobs.
\<close>

section \<open>The payload envelope\<close>

lemma std_char_eq [simp]: "n < 64 \<Longrightarrow> std_value (std_char (b64_char n)) = Some n"
  "n < 64 \<Longrightarrow> std_char (b64_char n) \<noteq> CHR ''=''"
proof -
  assume n: "n < 64"
  consider "n < 26" | "26 \<le> n" "n < 52" | "52 \<le> n" "n < 62" | "n = 62" | "n = 63" using n by linarith
  then show "std_value (std_char (b64_char n)) = Some n" "std_char (b64_char n) \<noteq> CHR ''=''"
    by (cases; auto simp: std_value_def std_char_def byte_inj[symmetric] byte_b64_char, auto simp: byte_def b64_char_def)+
qed

lemma std_values_map:
  assumes "set t \<subseteq> b64_char ` {n. n < 64}"
  shows "std_values (map std_char t) = b64_values t" and "CHR ''='' \<notin> set (map std_char t)"
  using assms by (induction t) (auto dest: std_char_eq(2)[THEN not_sym])

lemma b64_encode_set: "set (b64_encode s) \<subseteq> b64_char ` {n. n < 64}"
  using b64_plain by blast

lemma b64_encode_groups: "\<exists>vs. b64_values (b64_encode s) = Some vs \<and> b64_groups vs = Some s"
  by (induction s rule: b64_encode.induct) auto

lemma b64_encode_length: "length (b64_encode s) + length (std_padding (length s)) = 4 * ((length s + 2) div 3)"
proof (induction s rule: b64_encode.induct)
  case (4 x y z r)
  have "std_padding (length (x # y # z # r)) = std_padding (length r)" by (simp add: std_padding_def)
  moreover have "(length (x # y # z # r) + 2) div 3 = Suc ((length r + 2) div 3)"
    using div_add_self2[of 3 "length r + 2"] by (simp only: list.size add_Suc_right add_0_right numeral_eq_Suc) simp
  ultimately show ?case using 4 by simp
qed (simp_all add: std_padding_def)

lemma std_parts:
  shows "takeWhile (\<lambda>c. c \<noteq> CHR ''='') (std_encode s) = map std_char (b64_encode s)"
    and "dropWhile (\<lambda>c. c \<noteq> CHR ''='') (std_encode s) = std_padding (length s)"
proof -
  have a: "c \<noteq> CHR ''=''" if "c \<in> set (map std_char (b64_encode s))" for c
    using std_values_map(2)[OF b64_encode_set] that by fastforce
  have "takeWhile (\<lambda>c. c \<noteq> CHR ''='') (std_padding n) = []" "dropWhile (\<lambda>c. c \<noteq> CHR ''='') (std_padding n) = std_padding n" for n
    by (simp_all add: std_padding_def)
  note b = this
  show "takeWhile (\<lambda>c. c \<noteq> CHR ''='') (std_encode s) = map std_char (b64_encode s)"
    unfolding std_encode_def by (subst takeWhile_append2) (use a b in auto)
  show "dropWhile (\<lambda>c. c \<noteq> CHR ''='') (std_encode s) = std_padding (length s)"
    unfolding std_encode_def by (subst dropWhile_append2) (use a b in auto)
qed

lemma decode_encode:
  assumes "EncodePayload hash p = Inr (b, h)"
  shows "DecodePayload hash b h = Inr p"
proof -
  have p: "p \<noteq> []" "length p \<le> PayloadMaxBytes" "b = std_encode p" "h = hash p"
    using assms by (auto simp: EncodePayload_def split: if_splits)
  obtain vs where vs: "b64_values (b64_encode p) = Some vs" "b64_groups vs = Some p" using b64_encode_groups by blast
  have v: "std_values (map std_char (b64_encode p)) = Some vs" using std_values_map(1)[OF b64_encode_set] vs(1) by simp
  have len: "length b = 4 * ((length p + 2) div 3)" using b64_encode_length[of p] p(3) by (simp add: std_encode_def)
  have canon: "base64Canonical b"
    using len v std_parts[of p] p(3) by (auto simp: base64Canonical_def std_padding_def)
  have d: "std_decode b = Some p" using v vs(2) std_parts(1)[of p] p(3) by (simp add: std_decode_def)
  have "length b \<le> LeaseResponseMaxBytes" using len p(2) by (simp add: LeaseResponseMaxBytes_def PayloadMaxBytes_def)
  then show ?thesis using canon d p by (simp add: DecodePayload_def)
qed

text \<open>The lease envelope is a round trip.  What \<open>EncodePayload\<close> writes is canonical, within the response bound, and
  \<open>DecodePayload\<close> returns exactly the payload's bytes for it.\<close>
theorem EncodePayload_roundtrip:
  assumes "EncodePayload hash p = Inr (b, h)"
  shows "DecodePayload hash b h = Inr p"
  by (rule decode_encode[OF assms])

theorem EncodePayload_roundtrip_witness:
  "DecodePayload (\<lambda>x. x) (std_encode ''ja'') ''ja'' = Inr ''ja''"
  by (rule EncodePayload_roundtrip) (simp add: EncodePayload_def PayloadMaxBytes_def)

text \<open>The pattern called canonical admits several texts for the same bytes: the bits behind the last byte may be anything.\<close>

lemma std_samples: "base64Canonical ''QQ==''" "base64Canonical ''QR==''" "std_decode ''QQ=='' = Some ''A''" "std_decode ''QR=='' = Some ''A''"
  by code_simp+

lemma base64_not_canonical:
  "DecodePayload hash ''QQ=='' (hash ''A'') = Inr ''A'' \<and> DecodePayload hash ''QR=='' (hash ''A'') = Inr ''A''"
  by (simp add: DecodePayload_def std_samples PayloadMaxBytes_def LeaseResponseMaxBytes_def)

section \<open>Trailing data\<close>

text \<open>C39: strict decoding lets bytes through that are no JSON.  Whatever value \<open>DecodeStrictJSON\<close> accepts, it accepts again
  with a space and a capital letter behind it, although trailing data is documented to be rejected.\<close>
theorem DecodeStrictJSON_trailing:
  assumes "json_ok 0 j" and "no_duplicates j" and "dec zero j = Some v"
  shows "DecodeStrictJSON dec zero (json_text j @ '' X'') = Some v"
proof -
  have "num_stop '' X''" by (simp add: num_stop_def is_digit_def byte_def)
  from json_text_read[OF assms(1) this] have r: "json_read (json_text j @ '' X'') = Some (j, '' X'')" .
  have "json_read '' X'' = None" by code_simp
  then show ?thesis using assms(2,3) r by (simp add: DecodeStrictJSON_def)
qed

theorem DecodeStrictJSON_trailing_witness:
  "DecodeStrictJSON (\<lambda>_ _. Some ()) () (json_text (JObj []) @ '' X'') = Some ()"
  by (rule DecodeStrictJSON_trailing) simp_all

section \<open>Failure codes of relay jobs\<close>

text \<open>The mapped failure codes of relay jobs are not all admitted.  For a relay job exactly the relay codes and
  cancellation map to a code that \<open>ValidateFailure\<close> of internal/llmrelay accepts, and these only without a retry, save for
  an unreachable relay; the other codes of the contract (interrupted, exhausted resources, an invalid payload, a failed
  execution) map to codes it refuses, and a required setup does not map at all.\<close>
theorem relay_failures_admitted_iff:
  "(\<exists>mapped. MapFailureToProductCode code True = Inr mapped \<and> ValidateFailure mapped retry = Inr ()) \<longleftrightarrow>
     code = ''relay_unreachable'' \<or>
     (code \<in> {''canceled'', ''relay_auth'', ''relay_invalid_response'', ''relay_model_unknown''} \<and> \<not> retry)"
proof (cases "ValidFailureCode code")
  case False
  then show ?thesis by (auto simp: MapFailureToProductCode_def ValidFailureCode_def failure_codes_def)
next
  case True
  then show ?thesis unfolding ValidFailureCode_def failure_codes_def
    by (auto simp: MapFailureToProductCode_def ValidFailureCode_def failure_codes_def relay_failures_def ValidateFailure_def
        CodeUnreachable_def CodeAuth_def CodeInvalidResponse_def CodeModelUnknown_def CodeCanceled_def)
qed

end
