(* ===== verification/Speech_Props.thy ===== *)
theory Speech_Props
  imports Speech_Store
begin

text \<open>
  What the speech store keeps: ready renders have their audio, request hashes are unique, and accepted audio is only given
  up by clearing the narration of its last article.  Every operation is shown to respect \<open>audio_ok\<close> and \<open>kept\<close>, a preorder on
  databases, through its elementary updates.
\<close>

section \<open>The invariant and the preorder\<close>

definition audio_ok :: "'z speech_db_scheme \<Rightarrow> bool" where
  "audio_ok db \<longleftrightarrow> distinct (map rn_id (sd_renders db)) \<and> distinct (map rn_hash (sd_renders db)) \<and>
     distinct (map fst (sd_blobs db)) \<and>
     (\<forall>r \<in> set (sd_renders db). rn_state r = RenderReady \<longrightarrow> rn_id r \<in> fst ` set (sd_blobs db)) \<and>
     distinct (map sa_sentence (sd_narration db)) \<and>
     (\<forall>a \<in> set (sd_narration db). sa_render a \<in> rn_id ` set (sd_renders db))"

definition keeps_row :: "bool \<Rightarrow> render \<Rightarrow> render \<Rightarrow> bool" where
  "keeps_row b r r' \<longleftrightarrow> rn_id r' = rn_id r \<and> rn_hash r' = rn_hash r \<and> rn_retention r' = rn_retention r \<and>
     (rn_state r = RenderReady \<longrightarrow> r' = r) \<and> (rn_state r = RenderPurged \<and> \<not> b \<longrightarrow> rn_state r' = RenderPurged)"

text \<open>\<open>b\<close>: purged renders may be taken up again.\<close>

definition kept :: "bool \<Rightarrow> 'z speech_db_scheme \<Rightarrow> 'z speech_db_scheme \<Rightarrow> bool" where
  "kept b db db' \<longleftrightarrow> (\<forall>r \<in> set (sd_renders db). \<exists>r' \<in> set (sd_renders db'). keeps_row b r r') \<and> set (sd_blobs db) \<subseteq> set (sd_blobs db')"

definition fine :: "bool \<Rightarrow> 'z speech_db_scheme \<Rightarrow> 'z speech_db_scheme \<Rightarrow> bool" where
  "fine b db db' \<longleftrightarrow> (audio_ok db \<longrightarrow> audio_ok db' \<and> kept b db db')"

lemma keeps_row_refl [simp]: "keeps_row b r r"
  by (simp add: keeps_row_def)

lemma keeps_row_trans: "keeps_row b r s \<Longrightarrow> keeps_row b s t \<Longrightarrow> keeps_row b r t"
  by (auto simp: keeps_row_def)

lemma kept_refl [simp]: "kept b db db"
  by (auto simp: kept_def intro: keeps_row_refl)

lemma kept_trans: "kept b x y \<Longrightarrow> kept b y z \<Longrightarrow> kept b x z"
  unfolding kept_def by (meson keeps_row_trans subset_trans)

lemma kept_weaken: "kept False x y \<Longrightarrow> kept b x y"
  by (fastforce simp: kept_def keeps_row_def)

lemma fine_refl [simp]: "fine b db db"
  by (simp add: fine_def)

lemma fine_trans: "fine b x y \<Longrightarrow> fine b y z \<Longrightarrow> fine b x z"
  unfolding fine_def by (meson kept_trans)

lemma fine_weaken: "fine False x y \<Longrightarrow> fine b x y"
  unfolding fine_def by (auto intro: kept_weaken)

lemma seq_fine:
  assumes "fine b db (snd m)" and "\<And>x s. m = (Inr x, s) \<Longrightarrow> fine b s (snd (f x s))"
  shows "fine b db (snd (seq m f))"
  using assms by (cases m; cases "fst m") (auto simp: seq_def intro: fine_trans)

lemma transaction_fine: "fine b db (snd (f db)) \<Longrightarrow> fine b db (snd (with_transaction f db))"
  by (cases "f db"; cases "fst (f db)") (auto simp: with_transaction_def)

text \<open>Changes elsewhere.\<close>

lemma fine_same:
  assumes "sd_renders db' = sd_renders db" and "sd_blobs db' = sd_blobs db" and "sd_narration db' = sd_narration db"
  shows "fine b db db'"
  using assms by (auto simp: fine_def audio_ok_def kept_def intro: keeps_row_refl)

text \<open>The elementary updates.\<close>

lemma fine_append:
  assumes "sd_renders db' = sd_renders db @ [r]" and "sd_blobs db' = sd_blobs db" and "sd_narration db' = sd_narration db"
    and "rn_id r \<notin> rn_id ` set (sd_renders db)" and "rn_hash r \<notin> rn_hash ` set (sd_renders db)" and "rn_state r = RenderQueued"
  shows "fine b db db'"
  using assms by (auto simp: fine_def audio_ok_def kept_def intro: keeps_row_refl)

lemma fine_update:
  assumes "sd_renders db' = update_where P f (sd_renders db)" and "sd_blobs db' = sd_blobs db" and "sd_narration db' = sd_narration db"
    and "\<And>r. P r \<Longrightarrow> keeps_row b r (f r)" and "\<And>r. P r \<Longrightarrow> rn_state (f r) \<noteq> RenderReady"
  shows "fine b db db'"
proof -
  have ids: "map rn_id (sd_renders db') = map rn_id (sd_renders db)" "map rn_hash (sd_renders db') = map rn_hash (sd_renders db)"
    using assms(1,4) by (auto simp: update_where_def keeps_row_def)
  then have "rn_id ` set (sd_renders db') = rn_id ` set (sd_renders db)" by (metis list.set_map)
  moreover have "\<forall>r' \<in> set (sd_renders db'). rn_state r' = RenderReady \<longrightarrow> r' \<in> set (sd_renders db)"
    using assms(1,5) by (auto simp: set_update_where)
  moreover have "kept b db db'" unfolding kept_def
  proof (intro conjI ballI)
    fix r assume "r \<in> set (sd_renders db)"
    then have "(if P r then f r else r) \<in> set (sd_renders db')" using assms(1) by (auto simp: set_update_where)
    moreover have "keeps_row b r (if P r then f r else r)" using assms(4) by simp
    ultimately show "\<exists>r' \<in> set (sd_renders db'). keeps_row b r r'" by blast
  qed (use assms(2) in simp)
  ultimately show ?thesis using assms(2,3) ids by (auto simp: fine_def audio_ok_def)
qed


section \<open>The operations\<close>

lemma fine_unit: "fine b db (snd (EnsureUnitTx E now i db))"
  by (rule fine_same) (auto simp: EnsureUnitTx_def Let_def split: sum.splits option.splits)

lemma fine_profile: "fine b db (snd (ensureProfileTx E now p db))"
  by (rule fine_same) (auto simp: ensureProfileTx_def Let_def split: sum.splits option.splits)

lemma fine_profiles: "fine b db (snd (DefaultProfilesTx E now l db))"
  unfolding DefaultProfilesTx_def by (auto split: sum.split intro!: seq_fine fine_profile)

lemma fine_render: "fine b db (snd (EnsureRenderTx E now u p retention b db))"
proof (cases "retention \<noteq> RetentionLexical \<and> retention \<noteq> RetentionNarration")
  case True
  then show ?thesis by (simp add: EnsureRenderTx_def)
next
  case False
  note v = this
  let ?h = "RequestHash (speech_env.truncate E) u p"
  let ?new = "ulids E (sd_drawn db)" and ?db = "db\<lparr>sd_drawn := Suc (sd_drawn db)\<rparr>"
  let ?row = "new_render ?new now u p ?h retention"
  show ?thesis
  proof (cases "find_by rn_hash ?h (sd_renders db)")
    case None
    then have "?h \<notin> rn_hash ` set (sd_renders db)" by (auto simp: find_by_None)
    then have "?new \<notin> rn_id ` set (sd_renders db) \<Longrightarrow> fine b db (?db\<lparr>sd_renders := sd_renders db @ [?row]\<rparr>)"
      by (intro fine_append) (auto simp: new_render_def)
    moreover have "fine b db ?db" by (rule fine_same) simp_all
    ultimately show ?thesis using None v by (auto simp: EnsureRenderTx_def Let_def)
  next
    case (Some r)
    have "fine b db (db\<lparr>sd_renders := update_where (\<lambda>q. rn_id q = rn_id r \<and> (rn_state q = RenderPurged \<or> rn_state q = RenderFailed))
            (requeue_render now) (sd_renders db)\<rparr>)" (is "fine b db ?db2")
      if "rn_state r = RenderFailed \<or> b \<and> rn_state r = RenderPurged"
    proof (cases "audio_ok db")
      case True
      have "r \<in> set (sd_renders db)" using find_by_Some[OF Some] by blast
      then have same: "q = r" if "q \<in> set (sd_renders db)" "rn_id q = rn_id r" for q
        using True that by (auto simp: audio_ok_def distinct_map dest: inj_onD)
      let ?Q = "\<lambda>q. q = r"
      have "update_where (\<lambda>q. rn_id q = rn_id r \<and> (rn_state q = RenderPurged \<or> rn_state q = RenderFailed)) (requeue_render now) (sd_renders db) =
          update_where ?Q (requeue_render now) (sd_renders db)"
        unfolding update_where_def using same \<open>rn_state r = RenderFailed \<or> b \<and> rn_state r = RenderPurged\<close> by (intro map_cong) auto
      then show ?thesis using \<open>rn_state r = RenderFailed \<or> b \<and> rn_state r = RenderPurged\<close>
        by (intro fine_update[where P = ?Q and f = "requeue_render now"]) (auto simp: keeps_row_def requeue_render_def)
    qed (simp add: fine_def)
    then show ?thesis using Some v by (auto simp: EnsureRenderTx_def Let_def)
  qed
qed

lemma fine_job: "fine b db (snd (ensureSpeechJobTx E now r u p jtype prio db))"
  by (rule fine_same) (auto simp: ensureSpeechJobTx_def Let_def split: prod.splits)

lemma fine_bind: "fine b db (snd (bind_narration row db))"
  by (auto simp: bind_narration_def fine_def kept_def audio_ok_def set_update_where map_update_where_key
      intro: keeps_row_refl)

lemma fine_pronunciation: "fine b db (snd (bind_pronunciation occ rid db))"
  by (rule fine_same) (auto simp: bind_pronunciation_def Let_def)

lemma fine_recompute: "fine b db (recomputeNarrationStatusTx now aid db)"
  by (rule fine_same) (auto simp: recomputeNarrationStatusTx_def split: prod.splits)

lemma fine_narrate: "fine b db (snd (narrate_sentences E now aid l p b n ss db))"
proof (induction ss arbitrary: n db)
  case (Cons s ss)
  have "fine b db (snd (narrate_sentence E now aid l p b n s db))"
    unfolding narrate_sentence_def by (intro seq_fine fine_unit fine_render fine_job fine_bind)
  then show ?case using Cons by (auto intro!: seq_fine)
qed simp

lemma fine_narration: "fine b db (snd (QueueArticleNarrationTx E now article b db))"
proof -
  have "fine b db2 (recomputeNarrationStatusTx now aid (db2\<lparr>sd_articles := x\<rparr>))" for db2 :: "'a speech_db_scheme" and aid x
    by (rule fine_trans[OF fine_same fine_recompute]) simp_all
  then show ?thesis unfolding QueueArticleNarrationTx_def Let_def
    by (auto split: sum.split prod.split intro!: seq_fine fine_profiles fine_narrate)
qed

lemma fine_pronounce: "fine b db (snd (pronounce_occurrences E now l p os db))"
proof (induction os arbitrary: db)
  case (Cons o' os)
  have "fine b db (snd (pronounce_occurrence E now l p o' db))"
    unfolding pronounce_occurrence_def Let_def
    by (auto split: prod.split intro!: seq_fine fine_unit fine_job fine_pronunciation intro: fine_weaken fine_render)
  then show ?case using Cons by (auto intro!: seq_fine)
qed simp

lemma fine_pronunciations: "fine b db (snd (queuePronunciationsTx E now aid scope db))"
  unfolding queuePronunciationsTx_def by (auto split: sum.split prod.split intro!: seq_fine fine_profiles fine_pronounce)

lemma fine_audio: "fine b db (snd (QueueArticleAudio E now article b db))"
  unfolding QueueArticleAudio_def QueueArticleAudioTx_def
  by (auto intro!: transaction_fine seq_fine fine_narration fine_pronunciations)

lemma fine_block: "fine b db (snd (QueueBlockPronunciationsTx E now article block db))"
  unfolding QueueBlockPronunciationsTx_def by (auto split: sum.split intro!: seq_fine fine_profiles fine_pronunciations)

lemma fine_update_render:
  assumes "\<And>r. P r \<Longrightarrow> keeps_row b r (f r)" and "\<And>r. P r \<Longrightarrow> rn_state (f r) \<noteq> RenderReady"
  shows "fine b db (update_render rid P f db)"
  using assms by (intro fine_update[where P = "\<lambda>r. rn_id r = rid \<and> P r" and f = f]) (auto simp: update_render_def)

lemma fine_generating: "fine b db (snd (SetRenderGenerating now rid db))"
  unfolding SetRenderGenerating_def Let_def
  by (auto split: option.split simp: keeps_row_def intro!: fine_update_render)

lemma fine_fail_render: "fine b db (fail_render now rid code db)"
  unfolding fail_render_def by (auto simp: keeps_row_def intro!: fine_update_render)

lemma fine_failed: "fine b db (snd (MarkRenderFailed now rid code db))"
  by (simp add: MarkRenderFailed_def fine_fail_render)

text \<open>A render becomes ready together with its digest.\<close>

lemma fine_mark:
  assumes "sd_renders db' = update_where (\<lambda>r. rn_id r = rid \<and> P r) f (sd_renders db)" and "sd_narration db' = sd_narration db"
    and "sd_blobs db' = sd_blobs db \<and> rid \<in> fst ` set (sd_blobs db) \<or> sd_blobs db' = sd_blobs db @ [(rid, d)] \<and> rid \<notin> fst ` set (sd_blobs db)"
    and "\<And>r. r \<in> set (sd_renders db) \<Longrightarrow> rn_id r = rid \<Longrightarrow> P r \<Longrightarrow> keeps_row b r (f r)"
  shows "fine b db db'"
proof -
  let ?P = "\<lambda>r. rn_id r = rid \<and> P r"
  have row: "rn_id (if ?P r then f r else r) = rn_id r \<and> rn_hash (if ?P r then f r else r) = rn_hash r" if "r \<in> set (sd_renders db)" for r
    using assms(4) that by (auto simp: keeps_row_def)
  then have ids: "map rn_id (sd_renders db') = map rn_id (sd_renders db)" "map rn_hash (sd_renders db') = map rn_hash (sd_renders db)"
    unfolding assms(1) update_where_def by simp_all
  then have img: "rn_id ` set (sd_renders db') = rn_id ` set (sd_renders db)" by (metis list.set_map)
  have ready: "rn_id r' \<in> fst ` set (sd_blobs db')" if "audio_ok db" "r' \<in> set (sd_renders db')" "rn_state r' = RenderReady" for r'
  proof (cases "r' \<in> set (sd_renders db)")
    case True
    then show ?thesis using that(1,3) assms(3) by (auto simp: audio_ok_def)
  next
    case False
    note mem = that(2)
    from False obtain r where "r \<in> set (sd_renders db)" "r' = f r" "?P r" using mem assms(1) by (auto simp: set_update_where)
    then have "rn_id r' = rid" using assms(4) by (auto simp: keeps_row_def)
    then show ?thesis using assms(3) by auto
  qed
  have "kept b db db'" unfolding kept_def
  proof (intro conjI ballI)
    fix r assume r: "r \<in> set (sd_renders db)"
    then have "(if ?P r then f r else r) \<in> set (sd_renders db')" using assms(1) by (auto simp: set_update_where)
    moreover have "keeps_row b r (if ?P r then f r else r)" using assms(4) r by simp
    ultimately show "\<exists>r' \<in> set (sd_renders db'). keeps_row b r r'" by blast
  qed (use assms(3) in auto)
  moreover have "distinct (map fst (sd_blobs db'))" if "audio_ok db" using that assms(3) by (auto simp: audio_ok_def)
  ultimately show ?thesis using ids img ready assms(2) unfolding fine_def
    by (auto simp: audio_ok_def)
qed

lemma same_id:
  "audio_ok db \<Longrightarrow> q \<in> set (sd_renders db) \<Longrightarrow> r \<in> set (sd_renders db) \<Longrightarrow> rn_id q = rn_id r \<Longrightarrow> q = r"
  by (auto simp: audio_ok_def distinct_map dest: inj_onD)

lemma fine_ready_tx:
  assumes "b \<or> (\<forall>r \<in> set (sd_renders db). rn_id r = ulid_string renderID \<longrightarrow> rn_state r \<noteq> RenderPurged)"
  shows "fine b db (snd (MarkRenderReadyTx now renderID request digest m db))"
proof (cases "audio_ok db")
  case True
  note ok = this
  let ?rid = "ulid_string renderID"
  show ?thesis
  proof (cases "find_by rn_id ?rid (sd_renders db)")
    case None
    then show ?thesis by (simp add: MarkRenderReadyTx_def Let_def)
  next
    case (Some r)
    have r: "r \<in> set (sd_renders db)" "rn_id r = ?rid" using find_by_Some[OF Some] by simp_all
    have row: "keeps_row b q (ready_row now m keep q)" if "q \<in> set (sd_renders db)" "rn_id q = ?rid" "rn_state r \<noteq> RenderReady" for q keep
    proof -
      have "q = r" using same_id[OF ok that(1) r(1)] that(2) r(2) by simp
      then show ?thesis using that(3) assms r by (auto simp: keeps_row_def ready_row_def)
    qed
    have old: "fine b db (update_render ?rid (\<lambda>q. rn_hash q = request) (ready_row now m True) db)"
      if "map_of (sd_blobs db) ?rid = Some d" "rn_state r \<noteq> RenderReady" for d
    proof (rule fine_mark[where d = d and P = "\<lambda>q. rn_hash q = request" and f = "ready_row now m True"])
      have "?rid \<in> fst ` set (sd_blobs db)" using that(1) by (auto dest: map_of_SomeD intro: rev_image_eqI)
      then show "sd_blobs (update_render ?rid (\<lambda>q. rn_hash q = request) (ready_row now m True) db) = sd_blobs db \<and> ?rid \<in> fst ` set (sd_blobs db) \<or>
        sd_blobs (update_render ?rid (\<lambda>q. rn_hash q = request) (ready_row now m True) db) = sd_blobs db @ [(?rid, d)] \<and> ?rid \<notin> fst ` set (sd_blobs db)"
        by (simp add: update_render_def)
    qed (use row that in \<open>simp_all add: update_render_def\<close>)
    have new: "fine b db (update_render ?rid P (ready_row now m False) (db\<lparr>sd_blobs := sd_blobs db @ [(?rid, digest)]\<rparr>))"
      if "map_of (sd_blobs db) ?rid = None" "rn_state r \<noteq> RenderReady" for P
    proof (rule fine_mark[where d = digest and P = P and f = "ready_row now m False"])
      have "?rid \<notin> fst ` set (sd_blobs db)" using that(1) by (simp add: map_of_eq_None_iff)
      then show "sd_blobs (update_render ?rid P (ready_row now m False) (db\<lparr>sd_blobs := sd_blobs db @ [(?rid, digest)]\<rparr>)) = sd_blobs db \<and> ?rid \<in> fst ` set (sd_blobs db) \<or>
        sd_blobs (update_render ?rid P (ready_row now m False) (db\<lparr>sd_blobs := sd_blobs db @ [(?rid, digest)]\<rparr>)) = sd_blobs db @ [(?rid, digest)] \<and> ?rid \<notin> fst ` set (sd_blobs db)"
        by (simp add: update_render_def)
    qed (use row that in \<open>simp_all add: update_render_def\<close>)
    have blob: "fine b db (db\<lparr>sd_blobs := sd_blobs db @ [(?rid, digest)]\<rparr>)" if "map_of (sd_blobs db) ?rid = None"
      using that by (auto simp: fine_def audio_ok_def kept_def map_of_eq_None_iff intro: keeps_row_refl)
    show ?thesis
      using Some old new blob by (auto simp: MarkRenderReadyTx_def Let_def split: option.splits)
  qed
qed (simp add: fine_def)

lemma fine_reconcile: "fine b db (ReconcileTerminalJobTx now j db)"
proof -
  have "fine b x (fold (recomputeNarrationStatusTx now) as x)" for as and x :: "'a speech_db_scheme"
    by (induction as arbitrary: x) (auto intro: fine_trans fine_recompute)
  then have "fine b db (fold (recomputeNarrationStatusTx now) as (fail_render now rid code db))" for as rid code
    using fine_trans[OF fine_fail_render] by blast
  then show ?thesis unfolding ReconcileTerminalJobTx_def by simp
qed

lemma recover_callback:
  assumes "\<And>j d. fine b d (f j d)" and "recover_items (Some (\<lambda>j d. Inr (f j d))) clk now is (db, d) = Inr (n, (db', d'))"
  shows "fine b d d'"
  using assms(2)
proof (induction "is" arbitrary: db d n)
  case (Cons i "is")
  show ?case
  proof (cases "recover_item (Some (\<lambda>j d. Inr (f j d))) clk now i (db, d)")
    case (Inl e)
    then show ?thesis using Cons.prems by simp
  next
    case (Inr y)
    obtain n1 db1 d1 where y: "y = (n1, (db1, d1))" by (cases y) (metis surj_pair)
    have "fine b d d1" using Inr y assms(1) by (auto simp: recover_item_def Let_def split: if_splits)
    moreover obtain n2 where "recover_items (Some (\<lambda>j d. Inr (f j d))) clk now is (db1, d1) = Inr (n2, (db', d'))"
      using Cons.prems Inr y by (auto simp: bind_res_Inr_conv)
    ultimately show ?thesis using Cons.IH fine_trans by blast
  qed
qed simp

lemma fine_recover: "fine b db (snd (Speech_RecoverExpired now db))"
proof -
  have hub: "fine b x y \<Longrightarrow> fine b x (y\<lparr>hub_jobs := jb\<rparr>)" for x y :: "'a speech_db_scheme" and jb
    by (rule fine_trans[OF _ fine_same]) simp_all
  let ?r = "recover_items (speech_recovery now) (\<lambda>_. now) now (filter (expired_lease now) (job_table (hub_jobs db))) (hub_jobs db, db)"
  show ?thesis
  proof (cases ?r)
    case (Inl e)
    have "fine b db (db\<lparr>hub_jobs := hub_jobs db\<rparr>)" by (rule hub) simp
    then show ?thesis using Inl by (simp add: Speech_RecoverExpired_def RecoverExpired_def with_transaction_def recoverExpiredBody_def)
  next
    case (Inr y)
    obtain n jb d' where y: "y = (n, (jb, d'))" by (cases y) (metis surj_pair)
    have "fine b db d'"
      by (rule recover_callback[where f = "\<lambda>j d. ReconcileTerminalJobTx now j d", OF fine_reconcile])
         (use Inr y in \<open>simp add: speech_recovery_def\<close>)
    then show ?thesis using Inr y
      by (simp add: Speech_RecoverExpired_def RecoverExpired_def with_transaction_def recoverExpiredBody_def hub)
  qed
qed

section \<open>Clearing\<close>

definition bound :: "'z speech_db_scheme \<Rightarrow> render \<Rightarrow> bool" where
  "bound db r \<longleftrightarrow> rn_id r \<in> sa_render ` set (sd_narration db)"

definition purged_row :: "render \<Rightarrow> render \<Rightarrow> bool" where
  "purged_row r r' \<longleftrightarrow> rn_id r' = rn_id r \<and> rn_hash r' = rn_hash r \<and> rn_retention r' = rn_retention r \<and> rn_state r' = RenderPurged"

definition stays :: "'z speech_db_scheme \<Rightarrow> 'z speech_db_scheme \<Rightarrow> render \<Rightarrow> bool" where
  "stays db db' r \<longleftrightarrow> r \<in> set (sd_renders db') \<and> (\<forall>d. (rn_id r, d) \<in> set (sd_blobs db) \<longrightarrow> (rn_id r, d) \<in> set (sd_blobs db'))"

definition purged :: "'z speech_db_scheme \<Rightarrow> render \<Rightarrow> bool" where
  "purged db' r \<longleftrightarrow> (\<exists>r' \<in> set (sd_renders db'). purged_row r r')"

text \<open>Of the renders with an identifier in \<open>I\<close> those without a binding are purged, all others stay with their digest.\<close>

definition purges :: "string set \<Rightarrow> 'z speech_db_scheme \<Rightarrow> 'z speech_db_scheme \<Rightarrow> bool" where
  "purges I db db' \<longleftrightarrow> sd_narration db' = sd_narration db \<and>
     (\<forall>r \<in> set (sd_renders db). if rn_id r \<in> I \<and> \<not> bound db r then purged db' r else stays db db' r)"

lemma purged_trans: "purged_row r s \<Longrightarrow> purged db t \<Longrightarrow> t = s \<Longrightarrow> purged db r"
  by (auto simp: purged_def purged_row_def)

lemma purges_trans:
  assumes "purges I x y" and "purges J y z"
  shows "purges (I \<union> J) x z"
  unfolding purges_def
proof (intro conjI ballI)
  have n: "sd_narration y = sd_narration x" "sd_narration z = sd_narration y" using assms by (simp_all add: purges_def)
  then have b: "bound y = bound x" by (auto simp: bound_def)
  show "sd_narration z = sd_narration x" using n by simp
  fix r assume r: "r \<in> set (sd_renders x)"
  have one: "if rn_id r \<in> I \<and> \<not> bound x r then purged y r else stays x y r" using assms(1) r by (simp add: purges_def)
  have two: "if rn_id s \<in> J \<and> \<not> bound x s then purged z s else stays y z s" if "s \<in> set (sd_renders y)" for s
    using assms(2) that b by (simp add: purges_def)
  show "if rn_id r \<in> I \<union> J \<and> \<not> bound x r then purged z r else stays x z r"
  proof (cases "rn_id r \<in> I \<and> \<not> bound x r")
    case True
    then obtain s where s: "s \<in> set (sd_renders y)" "purged_row r s" using one by (auto simp: purged_def)
    then have "purged z r" using two[OF s(1)] by (auto simp: purged_def purged_row_def stays_def split: if_splits)
    then show ?thesis using True by simp
  next
    case False
    then have st: "stays x y r" using one by simp
    then have "r \<in> set (sd_renders y)" by (simp add: stays_def)
    then show ?thesis using two[of r] st False by (auto simp: stays_def split: if_splits)
  qed
qed

lemma purges_empty [simp]: "purges {} db db"
  by (simp add: purges_def stays_def)

lemma purge_render_ok:
  assumes ok: "audio_ok db" and eq: "purge_render now (rid, sz, digest) db res = (Inr res', db')"
  shows "audio_ok db' \<and> purges {rid} db db'"
proof (cases "\<exists>a \<in> set (sd_narration db). sa_render a = rid")
  case True
  then have "db' = db" using eq by (simp add: purge_render_def)
  moreover have "purges {rid} db db" using True by (auto simp: purges_def stays_def bound_def)
  ultimately show ?thesis using ok by simp
next
  case False
  let ?f = "\<lambda>r :: render. r\<lparr>rn_state := RenderPurged, rn_error := [], rn_updated := Some now\<rparr>"
  let ?rows = "update_where (\<lambda>r. rn_id r = rid) ?f (sd_renders db)"
  have shape: "sd_renders db' = ?rows" "sd_narration db' = sd_narration db"
    and blobs: "sd_blobs db' = sd_blobs db \<or> sd_blobs db' = filter (\<lambda>b. fst b \<noteq> rid) (sd_blobs db)"
    using eq False by (auto simp: purge_render_def Let_def update_render_def split: prod.splits sum.splits if_splits)
  have ids: "map rn_id ?rows = map rn_id (sd_renders db)" "map rn_hash ?rows = map rn_hash (sd_renders db)"
    by (simp_all add: update_where_def)
  then have img: "rn_id ` set ?rows = rn_id ` set (sd_renders db)" by (metis list.set_map)
  have other: "(v, d) \<in> set (sd_blobs db')" if "(v, d) \<in> set (sd_blobs db)" "v \<noteq> rid" for v d
    using blobs that by (elim disjE) simp_all
  have "rn_id r' \<in> fst ` set (sd_blobs db')" if mem: "r' \<in> set ?rows" and st: "rn_state r' = RenderReady" for r'
  proof -
    obtain q where q: "q \<in> set (sd_renders db)" "r' = (if rn_id q = rid then ?f q else q)"
      using mem unfolding set_update_where by blast
    have "rn_id q \<noteq> rid"
    proof
      assume "rn_id q = rid"
      then have "rn_state r' = RenderPurged" using q(2) by simp
      then show False using st by simp
    qed
    then have "r' \<in> set (sd_renders db)" "rn_id r' \<noteq> rid" using q by simp_all
    then obtain d where "(rn_id r', d) \<in> set (sd_blobs db)" using ok st by (auto simp: audio_ok_def)
    then have "(rn_id r', d) \<in> set (sd_blobs db')" using other \<open>rn_id r' \<noteq> rid\<close> by blast
    then show ?thesis by (rule rev_image_eqI) simp
  qed
  moreover have "distinct (map fst (sd_blobs db'))" using ok blobs by (auto simp: audio_ok_def distinct_map_filter)
  ultimately have "audio_ok db'" using ok ids img shape unfolding audio_ok_def by simp
  moreover have "purges {rid} db db'" unfolding purges_def
  proof (intro conjI ballI)
    fix r assume r: "r \<in> set (sd_renders db)"
    have up: "(if rn_id r = rid then ?f r else r) \<in> set (sd_renders db')" using r shape(1) by (auto simp: set_update_where)
    show "if rn_id r \<in> {rid} \<and> \<not> bound db r then purged db' r else stays db db' r"
    proof (cases "rn_id r = rid")
      case True
      then have "\<not> bound db r" using False by (auto simp: bound_def)
      moreover have "purged_row r (?f r)" by (simp add: purged_row_def)
      ultimately show ?thesis using up True by (auto simp: purged_def)
    qed (use up other in \<open>auto simp: stays_def\<close>)
  qed (rule shape(2))
  ultimately show ?thesis ..
qed

lemma purge_renders_ok:
  assumes "audio_ok db" and "purge_renders now is res db = (Inr res', db')"
  shows "audio_ok db' \<and> purges (fst ` set is) db db'"
  using assms
proof (induction "is" arbitrary: db res)
  case (Cons i "is")
  obtain rid sz digest where i: "i = (rid, sz, digest)" by (cases i)
  obtain x db1 where one: "purge_render now i db res = (x, db1)" by fastforce
  then obtain res1 where x: "x = Inr res1" "purge_renders now is res1 db1 = (Inr res', db')"
    using Cons.prems(2) by (cases x) (simp_all add: seq_def)
  have ok1: "audio_ok db1 \<and> purges {rid} db db1" using purge_render_ok[OF Cons.prems(1)] one x(1) i by simp
  then have "audio_ok db' \<and> purges (fst ` set is) db1 db'" using Cons.IH x(2) by blast
  then show ?case using purges_trans[of "{rid}" db db1] ok1 i by simp
qed simp

lemma clear_infos_ids:
  "fst ` set (clear_infos aid db) =
     {rn_id r | r. r \<in> set (sd_renders db) \<and> rn_retention r = RetentionNarration \<and>
        (\<exists>a \<in> set (sd_narration db). sa_article a = aid \<and> sa_render a = rn_id r)}"
  by (auto simp: clear_infos_def narration_renders_def image_iff) metis+

lemma clear_body:
  assumes ok: "audio_ok db" and eq: "clearNarrationBody now aid db = (Inr res, db')"
  shows "audio_ok db' \<and> sd_narration db' = filter (\<lambda>a. sa_article a \<noteq> aid) (sd_narration db) \<and>
    (\<forall>r \<in> set (sd_renders db). if rn_id r \<in> fst ` set (clear_infos aid db) \<and> \<not> bound db' r then purged db' r else stays db db' r)"
proof -
  let ?db1 = "db\<lparr>sd_narration := filter (\<lambda>a. sa_article a \<noteq> aid) (sd_narration db)\<rparr>"
  obtain res0 res' db2 where run: "purge_renders now (clear_infos aid db) res0 ?db1 = (Inr res', db2)"
    and same: "sd_renders db' = sd_renders db2" "sd_blobs db' = sd_blobs db2" "sd_narration db' = sd_narration db2"
    using eq by (auto simp: clearNarrationBody_def Let_def seq_def split: if_splits prod.splits sum.splits)
  have "audio_ok ?db1" using ok by (auto simp: audio_ok_def distinct_map_filter)
  from purge_renders_ok[OF this run] have p: "audio_ok db2" "purges (fst ` set (clear_infos aid db)) ?db1 db2" by simp_all
  have "audio_ok db'" using p(1) same by (simp add: audio_ok_def)
  moreover have n: "sd_narration db' = filter (\<lambda>a. sa_article a \<noteq> aid) (sd_narration db)" using p(2) same by (simp add: purges_def)
  moreover have "if rn_id r \<in> fst ` set (clear_infos aid db) \<and> \<not> bound db' r then purged db' r else stays db db' r"
    if r: "r \<in> set (sd_renders db)" for r
  proof -
    have "if rn_id r \<in> fst ` set (clear_infos aid db) \<and> \<not> bound ?db1 r then purged db2 r else stays ?db1 db2 r"
      using p(2) r unfolding purges_def by simp
    moreover have "bound db' r = bound ?db1 r" "purged db' r = purged db2 r" "stays db db' r = stays ?db1 db2 r"
      using n same by (simp_all add: bound_def purged_def stays_def)
    ultimately show ?thesis by simp
  qed
  ultimately show ?thesis by blast
qed

section \<open>Steps\<close>

text \<open>
  The steps of the store.  \<open>b\<close>: the step may take up purged renders again.  A completion reaches \<open>MarkRenderReadyTx\<close> only
  after \<open>SetRenderGenerating\<close>, which refuses a purged render, and a clearing in between cancels the job the same transaction
  completes; so a calm step does not mark a purged render.  \<open>elsewhere\<close> stands for the scheduler, the workers and edits of
  articles, which may remove bindings with their sentences.
\<close>

inductive audio_step :: "speech_svc \<Rightarrow> bool \<Rightarrow> speech_db \<Rightarrow> speech_db \<Rightarrow> bool" for E :: speech_svc and b :: bool where
  audio: "QueueArticleAudio E now article c db = (r, db') \<Longrightarrow> c \<longrightarrow> b \<Longrightarrow> audio_step E b db db'"
| narration: "with_transaction (QueueArticleNarrationTx E now article c) db = (r, db') \<Longrightarrow> c \<longrightarrow> b \<Longrightarrow> audio_step E b db db'"
| block: "with_transaction (QueueBlockPronunciationsTx E now article blk) db = (r, db') \<Longrightarrow> audio_step E b db db'"
| generating: "SetRenderGenerating now rid db = (r, db') \<Longrightarrow> audio_step E b db db'"
| failed: "MarkRenderFailed now rid code db = (r, db') \<Longrightarrow> audio_step E b db db'"
| ready: "with_transaction (MarkRenderReadyTx now rid request digest m) db = (r, db') \<Longrightarrow>
     b \<or> (\<forall>q \<in> set (sd_renders db). rn_id q = ulid_string rid \<longrightarrow> rn_state q \<noteq> RenderPurged) \<Longrightarrow> audio_step E b db db'"
| recompute: "audio_step E b db (recomputeNarrationStatusTx now aid db)"
| recover: "Speech_RecoverExpired now db = (r, db') \<Longrightarrow> audio_step E b db db'"
| elsewhere: "sd_renders db' = sd_renders db \<Longrightarrow> sd_blobs db' = sd_blobs db \<Longrightarrow> sd_narration db' = filter P (sd_narration db) \<Longrightarrow>
     audio_step E b db db'"

inductive speech_step :: "speech_svc \<Rightarrow> speech_db \<Rightarrow> speech_db \<Rightarrow> bool" for E :: speech_svc where
  work: "audio_step E True db db' \<Longrightarrow> speech_step E db db'"
| clear: "ClearNarration now article db = (r, db') \<Longrightarrow> speech_step E db db'"

lemma fine_snd: "fine b db (snd x) \<Longrightarrow> x = (r, db') \<Longrightarrow> fine b db db'"
  by simp

lemma fine_flag: "fine c db (snd x) \<Longrightarrow> x = (r, db') \<Longrightarrow> c \<longrightarrow> b \<Longrightarrow> fine b db db'"
  by (cases c) (auto intro: fine_weaken)

lemma audio_step_fine: "audio_step E b db db' \<Longrightarrow> fine b db db'"
proof (induction rule: audio_step.induct)
  case (audio now article c db r db')
  then show ?case by (rule fine_flag[OF fine_audio])
next
  case (narration now article c db r db')
  then show ?case by (rule fine_flag[OF transaction_fine[OF fine_narration]])
next
  case (block now article blk db r db')
  then show ?case by (rule fine_snd[OF transaction_fine[OF fine_block]])
next
  case (generating now rid db r db')
  then show ?case by (rule fine_snd[OF fine_generating])
next
  case (failed now rid code db r db')
  then show ?case by (rule fine_snd[OF fine_failed])
next
  case (ready now rid request digest m db r db')
  from transaction_fine[of b db "MarkRenderReadyTx now rid request digest m", OF fine_ready_tx[OF ready(2)]]
  show ?case by (rule fine_snd) (rule ready(1))
next
  case (recompute db now aid)
  then show ?case by (rule fine_recompute)
next
  case (recover now db r db')
  then show ?case by (rule fine_snd[OF fine_recover])
next
  case (elsewhere db' db P)
  then show ?case by (auto simp: fine_def audio_ok_def kept_def distinct_map_filter intro: keeps_row_refl)
qed

lemma clear_ok: "audio_ok db \<Longrightarrow> ClearNarration now article db = (r, db') \<Longrightarrow> audio_ok db'"
proof (cases r)
  case (Inl e)
  then show "ClearNarration now article db = (r, db') \<Longrightarrow> audio_ok db \<Longrightarrow> audio_ok db'"
    using with_transaction_Inl[of "clearNarrationBody now (ulid_string article)" db e db'] by (simp add: ClearNarration_def)
next
  case (Inr res)
  then show "ClearNarration now article db = (r, db') \<Longrightarrow> audio_ok db \<Longrightarrow> audio_ok db'"
    using clear_body[of db now "ulid_string article" res db'] by (simp add: ClearNarration_def with_transaction_Inr)
qed

definition empty_speech :: "speech_db \<Rightarrow> bool" where
  "empty_speech db \<longleftrightarrow> sd_renders db = [] \<and> sd_blobs db = [] \<and> sd_narration db = []"

interpretation speech: invariant_system empty_speech "speech_step E" audio_ok for E
proof
  show "empty_speech s \<Longrightarrow> audio_ok s" for s by (simp add: empty_speech_def audio_ok_def)
  show "audio_ok s \<Longrightarrow> speech_step E s t \<Longrightarrow> audio_ok t" for s t
    by (auto elim!: speech_step.cases dest: audio_step_fine clear_ok simp: fine_def)
qed

text \<open>A ready render that is lexical or bound after the step keeps its row and digest.\<close>

lemma step_stays:
  assumes ok: "audio_ok db" and st: "speech_step E db db'" and r: "r \<in> set (sd_renders db)" "rn_state r = RenderReady"
    and l: "rn_retention r = RetentionLexical \<or> bound db' r"
  shows "stays db db' r"
  using st
proof cases
  case work
  then have "kept True db db'" using audio_step_fine ok by (auto simp: fine_def)
  then show ?thesis using r by (auto simp: kept_def keeps_row_def stays_def)
next
  case (clear now article x)
  show ?thesis
  proof (cases x)
    case (Inl e)
    then have "db' = db" using with_transaction_Inl[OF clear[unfolded ClearNarration_def Inl]] by simp
    then show ?thesis using r by (simp add: stays_def)
  next
    case (Inr res)
    then have "clearNarrationBody now (ulid_string article) db = (Inr res, db')"
      using clear by (simp add: ClearNarration_def with_transaction_Inr)
    from clear_body[OF ok this] have
      "if rn_id r \<in> fst ` set (clear_infos (ulid_string article) db) \<and> \<not> bound db' r then purged db' r else stays db db' r"
      using r(1) by blast
    moreover have "rn_id r \<in> fst ` set (clear_infos (ulid_string article) db) \<Longrightarrow> rn_retention r = RetentionNarration"
      using same_id[OF ok _ r(1)] by (auto simp: clear_infos_ids)
    ultimately show ?thesis using l by (auto simp: RetentionLexical_def RetentionNarration_def split: if_splits)
  qed
qed

end
