(* ===== verification/Speech_Audio.thy ===== *)
theory Speech_Audio
  imports Speech_Props LLM_Samples
begin

text \<open>
  What the preservation results give, with a run of the store as their witness: an article is narrated, its audio completed
  and then cleared, and a second article with the same sentence is created.
\<close>

section \<open>A run\<close>

definition run_env :: speech_svc where
  "run_env = \<lparr>sp_sha = (\<lambda>_. ''h''), nfc = (\<lambda>s. s), lower = (\<lambda>s. s), ulids = (\<lambda>n. replicate (Suc n) CHR ''x''), clock_text = (\<lambda>_. ''t'')\<rparr>"

definition run_av :: speech_profile where
  "run_av = avspeech_default\<lparr>pf_id := ''x'', pf_created := ''t'', pf_updated := ''t''\<rparr>"

definition run_cb :: speech_profile where
  "run_cb = chatterbox_default\<lparr>pf_id := ''xx'', pf_created := ''t'', pf_updated := ''t''\<rparr>"

definition run_unit :: speech_unit where
  "run_unit = \<lparr>un_id = ''xxx'', un_language = ''nl'', un_kind = UnitSentence, un_text = ''ja'', un_text_hash = ''h'',
     un_context = [], un_sense = None, un_created = ''t''\<rparr>"

definition run_render :: render where
  "run_render = new_render ''xxxx'' 1 run_unit run_cb ''h'' RetentionNarration"

definition run_spec :: job_spec where
  "run_spec = speech_spec run_render run_unit run_cb ChatterboxJobType 70"

definition run_job :: job where
  "run_job = row_of_spec (run_spec\<lparr>spec_id := ''xxxxx'', spec_available_at := Some 1, spec_max_attempts := 3\<rparr>) 1 1"

definition run_db :: "job list \<Rightarrow> speech_unit list \<Rightarrow> speech_profile list \<Rightarrow> render list \<Rightarrow> (string \<times> string) list \<Rightarrow> sentence_audio list \<Rightarrow>
    article_row list \<Rightarrow> nat \<Rightarrow> speech_db" where
  "run_db js us ps rs bs ns as n = \<lparr>hub_jobs = \<lparr>job_table = js, job_deps = []\<rparr>, hub_results = [], hub_workers = [], hub_enrollments = [],
     sd_units = us, sd_profiles = ps, sd_renders = rs, sd_blobs = bs, sd_articles = as,
     sd_blocks = [\<lparr>bl_id = ''k'', bl_article = ''a'', bl_index = 0\<rparr>, \<lparr>bl_id = ''l'', bl_article = ''b'', bl_index = 0\<rparr>],
     sd_sentences = [\<lparr>se_id = ''s'', se_block = ''k'', se_index = 0, se_text = ''ja''\<rparr>, \<lparr>se_id = ''u'', se_block = ''l'', se_index = 0, se_text = ''ja''\<rparr>],
     sd_occurrences = [], sd_narration = ns, sd_pronunciation = [], sd_drawn = n\<rparr>"

definition run_article :: "string \<Rightarrow> narration_status \<Rightarrow> timestamp \<Rightarrow> article_row" where
  "run_article aid st t = \<lparr>at_id = aid, at_language = ''nl'', at_narration = st, at_error = [], at_updated = t\<rparr>"

definition run_bind :: "string \<Rightarrow> string \<Rightarrow> sentence_audio" where
  "run_bind aid s = \<lparr>sa_article = aid, sa_sentence = s, sa_render = ''xxxx'', sa_sequence = 0\<rparr>"

definition run0 :: speech_db where
  "run0 = run_db [] [] [] [] [] [] [run_article ''a'' NarrationNotRequested None, run_article ''b'' NarrationNotRequested None] 0"

definition run1 :: speech_db where
  "run1 = run_db [run_job] [run_unit] [run_av, run_cb] [run_render] [] [run_bind ''a'' ''s'']
     [run_article ''a'' NarrationQueued (Some 1), run_article ''b'' NarrationNotRequested None] 5"

lemma payload_ok: "json_ok 0 (payload_json_of j)"
  by (simp add: payload_json_of_def profile_json_def json_ok_obj omit_empty_def)

lemma payload_text:
  "json_valid (json_text (payload_json_of j))" "\<not> blank (json_text (payload_json_of j))"
proof -
  show "json_valid (json_text (payload_json_of j))" using json_text_parse[OF payload_ok] by (simp add: json_valid_def)
  obtain u where u: "json_text (payload_json_of j) = CHR ''{'' # u @ ''}''" by (simp add: payload_json_of_def obj_text)
  have "trim_space (json_text (payload_json_of j)) = json_text (payload_json_of j)"
    by (rule trim_space_ends[OF u]) (simp_all add: u byte_def is_space_def)
  then show "\<not> blank (json_text (payload_json_of j))" by (simp add: blank_def u)
qed

lemma run_trim: "trim_space ''nl'' = ''nl''" "valid_utf8 ''ja''" "\<not> blank ''ja''" "\<not> blank ''nl''"
proof -
  show "trim_space ''nl'' = ''nl''"
    by (rule trim_space_ends[of _ "CHR ''n''" "''l''"]) (simp_all add: byte_def is_space_def)
  show "valid_utf8 ''ja''" by (rule ascii_name) (simp add: byte_def)
qed (simp_all add: ascii_blank byte_def is_space_def)

lemma run_language: "canonicalSpeechLanguage run_env ''nl'' = Inr ''nl''"
  by (simp add: canonicalSpeechLanguage_def run_env_def run_trim)

lemma run_text: "NormalizeTextHash (speech_env.truncate run_env) ''ja'' = Inr ''h''"
  by (simp add: NormalizeTextHash_def run_trim run_env_def speech_env.truncate_def)

lemma run_hash: "RequestHash (speech_env.truncate run_env) u p = ''h''"
  by (simp add: RequestHash_def run_env_def speech_env.truncate_def)

lemma run_profiles_valid: "ValidateProfile avspeech_default = Inr ()" "ValidateProfile chatterbox_default = Inr ()"
  by code_simp+

lemma run_ulids: "ulids run_env n = replicate (Suc n) CHR ''x''" "clock_text run_env t = ''t''"
  by (simp_all add: run_env_def)

lemma run_profile_keys: "profile_key run_av = profile_key avspeech_default" "profile_key run_cb = profile_key chatterbox_default"
  "profile_key chatterbox_default \<noteq> profile_key avspeech_default" "pf_active run_av" "pf_active run_cb" "pf_id run_av = ''x''" "pf_id run_cb = ''xx''"
  by (simp_all add: profile_key_def run_av_def run_cb_def avspeech_default_def chatterbox_default_def default_profile_def
      AVSpeechEngine_def ChatterboxEngine_def)

lemmas run_profile_keys' = run_profile_keys run_profile_keys(3)[symmetric]

lemma run_ensure_av:
  "ensureProfileTx run_env t avspeech_default (run_db js us [] rs bs ns as 0) = (Inr run_av, run_db js us [run_av] rs bs ns as (Suc 0))"
  by (simp add: ensureProfileTx_def run_profiles_valid newest_def run_db_def Let_def getProfileTx_def find_by_def run_ulids)
     (simp add: run_av_def avspeech_default_def default_profile_def)

lemma run_ensure_cb:
  "ensureProfileTx run_env t chatterbox_default (run_db js us [run_av] rs bs ns as (Suc 0)) = (Inr run_cb, run_db js us [run_av, run_cb] rs bs ns as (Suc (Suc 0)))"
  by (simp add: ensureProfileTx_def run_profiles_valid newest_def run_db_def Let_def getProfileTx_def find_by_def run_ulids run_profile_keys')
     (simp add: run_cb_def chatterbox_default_def default_profile_def)

lemma run_default_profiles:
  "DefaultProfilesTx run_env t ''nl'' (run_db js us [] rs bs ns as 0) = (Inr (run_av, run_cb), run_db js us [run_av, run_cb] rs bs ns as (Suc (Suc 0)))"
  by (simp add: DefaultProfilesTx_def run_language seq_def run_ensure_av run_ensure_cb)

lemma run_found: "sd_profiles db = [run_av, run_cb] \<Longrightarrow> ensureProfileTx run_env t avspeech_default db = (Inr run_av, db)"
  "sd_profiles db = [run_av, run_cb] \<Longrightarrow> ensureProfileTx run_env t chatterbox_default db = (Inr run_cb, db)"
  by (simp_all add: ensureProfileTx_def run_profiles_valid newest_def getProfileTx_def find_by_def run_profile_keys')

lemma run_default_profiles2:
  "DefaultProfilesTx run_env t ''nl'' (run_db js us [run_av, run_cb] rs bs ns as n) = (Inr (run_av, run_cb), run_db js us [run_av, run_cb] rs bs ns as n)"
  by (simp add: DefaultProfilesTx_def run_language seq_def run_found run_db_def)

lemma run_unit_new:
  "EnsureUnitTx run_env t \<lparr>ui_language = ''nl'', ui_kind = UnitSentence, ui_text = ''ja'', ui_context = [], ui_sense = None\<rparr>
     (run_db js [] ps rs bs ns as (Suc (Suc 0))) = (Inr run_unit, run_db js [run_unit] ps rs bs ns as (Suc (Suc (Suc 0))))"
  by (simp add: EnsureUnitTx_def run_text run_trim run_db_def Let_def getUnit_def find_by_def run_ulids run_unit_def)

lemma run_unit_found:
  "EnsureUnitTx run_env t \<lparr>ui_language = ''nl'', ui_kind = UnitSentence, ui_text = ''ja'', ui_context = [], ui_sense = None\<rparr>
     (run_db js [run_unit] ps rs bs ns as n) = (Inr run_unit, run_db js [run_unit] ps rs bs ns as n)"
  by (simp add: EnsureUnitTx_def run_text run_trim run_db_def Let_def getUnit_def find_by_def run_unit_def unit_key_def)

lemma run_render_new:
  "EnsureRenderTx run_env 1 run_unit run_cb RetentionNarration b (run_db js [run_unit] [run_av, run_cb] [] bs ns as (Suc (Suc (Suc 0)))) =
     (Inr run_render, run_db js [run_unit] [run_av, run_cb] [run_render] bs ns as (Suc (Suc (Suc (Suc 0)))))"
  by (simp add: EnsureRenderTx_def run_hash run_db_def Let_def getRender_def find_by_def run_ulids RetentionNarration_def ulid_string_def
      run_profile_keys') (simp add: run_render_def new_render_def run_unit_def run_cb_def ulid_string_def RetentionNarration_def)

lemma run_job_new:
  "ensureSpeechJobTx run_env 1 run_render run_unit run_cb ChatterboxJobType 70 (run_db [] us ps rs bs ns as (Suc (Suc (Suc (Suc 0))))) =
     (Inr (), run_db [run_job] us ps rs bs ns as (Suc (Suc (Suc (Suc (Suc 0))))))"
proof -
  have v: "validateSpec json_valid run_spec = Inr (run_spec\<lparr>spec_max_attempts := 3\<rparr>)"
    by (simp add: validateSpec_def run_spec_def speech_spec_def job_types_def payload_text run_render_def new_render_def speech_job_key_def
        ulid_string_def ascii_blank byte_def is_space_def)
  show ?thesis
    by (simp add: ensureSpeechJobTx_def run_db_def update_where_def run_spec_def[symmetric] EnqueueTx_def v enqueueTx_def insert_job_def
        getTx_def find_by_def Let_def run_ulids)
      (simp add: run_spec_def speech_spec_def run_job_def row_of_spec_def ulid_is_zero_def)
qed

lemma run_sentences:
  "article_sentences ''a'' (run_db js us ps rs bs ns as n) = [\<lparr>se_id = ''s'', se_block = ''k'', se_index = 0, se_text = ''ja''\<rparr>]"
  "article_sentences ''b'' (run_db js us ps rs bs ns as n) = [\<lparr>se_id = ''u'', se_block = ''l'', se_index = 0, se_text = ''ja''\<rparr>]"
  by (simp_all add: article_sentences_def in_article_def run_db_def)

lemma run_bind_new:
  "rn_id r = ''xxxx'' \<Longrightarrow> bind_narration (run_bind aid s) (run_db js us ps [r] bs [] as n) = (Inr (), run_db js us ps [r] bs [run_bind aid s] as n)"
  by (simp add: bind_narration_def run_db_def run_bind_def)

lemma run_row: "rn_id run_render = ''xxxx''" "rn_state run_render = RenderQueued" "rn_hash run_render = ''h''"
  "rn_retention run_render = RetentionNarration" "ulid_string ''xxxx'' = ''xxxx''" "ulid_string ''a'' = ''a''" "ulid_string ''b'' = ''b''"
  by (simp_all add: run_render_def new_render_def ulid_string_def)

lemma run_summary:
  assumes "rn_id r = ''xxxx''" and "rn_state r = RenderQueued \<or> rn_state r = RenderPurged"
  shows "narration_summary aid (run_db js us ps [r] bs [run_bind aid s] as n) = (NarrationQueued, [])"
  using assms by (auto simp: narration_summary_def narration_renders_def run_db_def run_bind_def count_where_def Let_def)

lemma run_queue: "QueueArticleNarrationTx run_env 1 ''a'' False run0 = (Inr (), run1)"
proof -
  have l: "source_language run_env ''a'' run0 = Inr ''nl''"
    by (simp add: source_language_def run0_def run_db_def find_by_def run_article_def run_language)
  have n: "narrate_sentences run_env 1 ''a'' ''nl'' run_cb False 0 [\<lparr>se_id = ''s'', se_block = ''k'', se_index = 0, se_text = ''ja''\<rparr>]
      (run_db [] [] [run_av, run_cb] [] [] [] as (Suc (Suc 0))) =
      (Inr (), run_db [run_job] [run_unit] [run_av, run_cb] [run_render] [] [run_bind ''a'' ''s''] as (Suc (Suc (Suc (Suc (Suc 0))))))" for as
    using run_bind_new[of run_render "''a''" "''s''"]
    by (simp add: narrate_sentence_def seq_def run_unit_new run_render_new[simplified] run_job_new[simplified] run_row run_bind_def)
  have u: "(run_db js us ps rs bs ns as m)\<lparr>sd_articles := as'\<rparr> = run_db js us ps rs bs ns as' m" for js us ps rs bs ns as as' m
    by (simp add: run_db_def)
  have a: "sd_articles (run_db js us ps rs bs ns as m) = as" for js us ps rs bs ns as m by (simp add: run_db_def)
  show ?thesis
    by (simp add: QueueArticleNarrationTx_def run_row l seq_def)
       (simp add: run0_def run_default_profiles run_sentences n[simplified] u a recomputeNarrationStatusTx_def run_summary run_row
         run1_def update_where_def run_article_def eval_nat_numeral Let_def)
qed

text \<open>The completion of the render, the clearing of the first article and the queueing of the second.\<close>

definition run_audio :: artifact_metadata where
  "run_audio = \<lparr>am_request = ''h'', am_sha = [], am_size = 9, am_mime = [], am_codec = [], am_rate = 0, am_channels = 0, am_duration = 8\<rparr>"

definition run2 :: speech_db where
  "run2 = run_db [run_job] [run_unit] [run_av, run_cb] [ready_row 2 run_audio False run_render] [(''xxxx'', ''d'')] [run_bind ''a'' ''s'']
     [run_article ''a'' NarrationQueued (Some 1), run_article ''b'' NarrationNotRequested None] 5"

lemma run_ready: "with_transaction (MarkRenderReadyTx 2 ''xxxx'' ''h'' ''d'' run_audio) run1 = (Inr (), run2)"
  by (simp add: with_transaction_def MarkRenderReadyTx_def run1_def run_db_def run_row find_by_def Let_def run_audio_def update_render_def
      update_where_def run2_def)

definition run_purged :: render where
  "run_purged = (ready_row 2 run_audio False run_render)\<lparr>rn_state := RenderPurged, rn_error := [], rn_updated := Some 3\<rparr>"

definition run3 :: speech_db where
  "run3 = run_db [cancel_queued_row ''v1.narration_cleared'' 3 run_job] [run_unit] [run_av, run_cb] [run_purged] [] []
     [run_article ''a'' NarrationPurged (Some 3), run_article ''b'' NarrationNotRequested None] 5"

lemma run_clear:
  "ClearNarration 3 ''a'' run2 = (Inr \<lparr>cr_sentences = 1, cr_reclaimed = 9, cr_retained = 0, cr_purged = 1, cr_digests = [''d'']\<rparr>, run3)"
proof -
  have j: "job_state run_job = Queued" "owner_type run_job = ''audio_render''" "owner_id run_job = ''xxxx''" "job_type run_job = ChatterboxJobType"
    by (simp_all add: run_job_def row_of_spec_def run_spec_def speech_spec_def run_row)
  have c: "CancelOwnerJobsTx ''audio_render'' ''xxxx'' ChatterboxJobType ''v1.narration_cleared'' 3 \<lparr>job_table = [run_job], job_deps = []\<rparr> =
      (Inr 1, \<lparr>job_table = [cancel_queued_row ''v1.narration_cleared'' 3 run_job], job_deps = []\<rparr>)"
    by (simp add: CancelOwnerJobsTx_def ascii_blank byte_def is_space_def ChatterboxJobType_def)
       (use j in \<open>simp add: Let_def update_where_def count_where_def validErrorCode_def ascii_runes has_prefix_def byte_def ChatterboxJobType_def cancel_queued_row_def active_def\<close>)
  show ?thesis
    by (simp add: ClearNarration_def with_transaction_def clearNarrationBody_def run_row)
       (simp add: run2_def run3_def run_db_def run_article_def Let_def clear_infos_def narration_renders_def run_bind_def ready_row_def
         run_row run_audio_def count_where_def purge_render_def c seq_def update_render_def update_where_def run_purged_def)
qed

definition run4 :: speech_db where
  "run4 = run_db [requeue_job 4 (cancel_queued_row ''v1.narration_cleared'' 3 run_job)] [run_unit] [run_av, run_cb] [run_purged] []
     [run_bind ''b'' ''u''] [run_article ''a'' NarrationPurged (Some 3), run_article ''b'' NarrationQueued (Some 4)] 6"

lemma run_purged_row: "rn_id run_purged = ''xxxx''" "rn_state run_purged = RenderPurged" "rn_hash run_purged = ''h''"
  "rn_retention run_purged = RetentionNarration" "rn_unit run_purged = ''xxx''" "rn_profile run_purged = ''xx''"
  by (simp_all add: run_purged_def ready_row_def run_row) (simp_all add: run_render_def new_render_def run_unit_def run_cb_def ulid_string_def)

lemma run_queue_again: "QueueArticleNarrationTx run_env 4 ''b'' False run3 = (Inr (), run4)"
proof -
  let ?j = "cancel_queued_row ''v1.narration_cleared'' 3 run_job"
  have l: "source_language run_env ''b'' run3 = Inr ''nl''"
    by (simp add: source_language_def run3_def run_db_def find_by_def run_article_def run_language)
  have u: "ulid_string (un_id run_unit) = ''xxx''" "ulid_string (pf_id run_cb) = ''xx''" by (simp_all add: run_unit_def run_cb_def ulid_string_def)
  have r: "EnsureRenderTx run_env 4 run_unit run_cb RetentionNarration False (run_db js us ps [run_purged] bs ns as n) =
      (Inr run_purged, run_db js us ps [run_purged] bs ns as n)" for js us ps bs ns as n
    by (simp add: EnsureRenderTx_def run_hash run_db_def find_by_def run_purged_row u Let_def getRender_def)
  let ?s = "speech_spec run_purged run_unit run_cb ChatterboxJobType 70"
  have v: "validateSpec json_valid ?s = Inr (?s\<lparr>spec_max_attempts := 3\<rparr>)"
    by (simp add: validateSpec_def speech_spec_def job_types_def payload_text run_purged_row speech_job_key_def
        ulid_string_def ascii_blank byte_def is_space_def)
  have k: "idempotency_key ?j = speech_job_key ''h''" "job_state ?j = Canceled"
    by (simp_all add: cancel_queued_row_def run_job_def row_of_spec_def run_spec_def speech_spec_def run_row)
  then have k2: "idempotency_key (requeue_job 4 ?j) = speech_job_key ''h''" by (simp add: requeue_job_def)
  have j: "ensureSpeechJobTx run_env 4 run_purged run_unit run_cb ChatterboxJobType 70 (run_db [?j] us ps rs bs ns as 5) =
      (Inr (), run_db [requeue_job 4 ?j] us ps rs bs ns as 6)" for us ps rs bs ns as
    unfolding ensureSpeechJobTx_def EnqueueTx_def v
    by (simp add: run_db_def update_where_def k k2 run_purged_row Let_def enqueueTx_def insert_job_def row_of_spec_def getTx_def find_by_def)
       (simp add: speech_spec_def run_purged_row k2)
  have n: "narrate_sentences run_env 4 ''b'' ''nl'' run_cb False 0 [\<lparr>se_id = ''u'', se_block = ''l'', se_index = 0, se_text = ''ja''\<rparr>]
      (run_db [?j] [run_unit] [run_av, run_cb] [run_purged] [] [] as 5) =
      (Inr (), run_db [requeue_job 4 ?j] [run_unit] [run_av, run_cb] [run_purged] [] [run_bind ''b'' ''u''] as 6)" for as
    using run_bind_new[of run_purged "''b''" "''u''"]
    by (simp add: narrate_sentence_def seq_def run_unit_found r j run_purged_row run_row run_bind_def)
  have w: "(run_db js us ps rs bs ns as m)\<lparr>sd_articles := as'\<rparr> = run_db js us ps rs bs ns as' m" for js us ps rs bs ns as as' m
    by (simp add: run_db_def)
  have a: "sd_articles (run_db js us ps rs bs ns as m) = as" for js us ps rs bs ns as m by (simp add: run_db_def)
  show ?thesis
    by (simp add: QueueArticleNarrationTx_def run_row l seq_def)
       (simp add: run3_def run_default_profiles2 run_sentences n w a recomputeNarrationStatusTx_def run_summary run_purged_row
         run4_def update_where_def run_article_def Let_def del: narrate_sentences.simps)
qed

section \<open>Properties\<close>

text \<open>C4: accepted audio is consistent.  In every state of the speech tables reached from empty ones by queueing, completing,
  failing, recovering, clearing and edits elsewhere, a ready render has exactly one stored digest, no two renders share a
  request hash, and every narrated sentence is bound to exactly one render, which exists.\<close>
theorem ready_renders_have_audio:
  assumes "reach empty_speech (speech_step E) db"
  shows "(\<forall>r \<in> set (sd_renders db). rn_state r = RenderReady \<longrightarrow> (\<exists>!d. (rn_id r, d) \<in> set (sd_blobs db))) \<and>
    (\<forall>q \<in> set (sd_renders db). \<forall>r \<in> set (sd_renders db). rn_hash q = rn_hash r \<longrightarrow> q = r) \<and>
    (\<forall>a \<in> set (sd_narration db). \<forall>b \<in> set (sd_narration db). sa_sentence a = sa_sentence b \<longrightarrow> a = b) \<and>
    (\<forall>a \<in> set (sd_narration db). \<exists>r \<in> set (sd_renders db). rn_id r = sa_render a)"
proof -
  have ok: "audio_ok db" by (rule speech.reach_inv[OF assms])
  then have "\<exists>!d. (rn_id r, d) \<in> set (sd_blobs db)" if "r \<in> set (sd_renders db)" "rn_state r = RenderReady" for r
  proof -
    have "rn_id r \<in> fst ` set (sd_blobs db)" and dist: "distinct (map fst (sd_blobs db))" using ok that by (simp_all add: audio_ok_def)
    then obtain d where d: "(rn_id r, d) \<in> set (sd_blobs db)" by auto
    then show ?thesis using eq_key_imp_eq_value[OF dist d] by blast
  qed
  moreover have "\<exists>r \<in> set (sd_renders db). rn_id r = sa_render a" if "a \<in> set (sd_narration db)" for a
  proof -
    have "sa_render a \<in> rn_id ` set (sd_renders db)" using ok that by (simp add: audio_ok_def)
    then show ?thesis by auto
  qed
  moreover have "q = r" if "q \<in> set (sd_renders db)" "r \<in> set (sd_renders db)" "rn_hash q = rn_hash r" for q r
    using ok that by (auto simp: audio_ok_def distinct_map dest: inj_onD)
  moreover have "a = b" if "a \<in> set (sd_narration db)" "b \<in> set (sd_narration db)" "sa_sentence a = sa_sentence b" for a b
    using ok that by (auto simp: audio_ok_def distinct_map dest: inj_onD)
  ultimately show ?thesis by blast
qed

lemma audio_reached: "reach empty_speech (speech_step run_env) run2"
proof -
  have "reach empty_speech (speech_step run_env) run0"
    by (rule reach_init) (simp add: empty_speech_def run0_def run_db_def)
  then have "reach empty_speech (speech_step run_env) run1"
    by (rule reach_step) (rule work, rule narration[where c = False and now = 1 and article = "''a''" and r = "Inr ()"],
        simp_all add: with_transaction_Inr run_queue[simplified])
  then show ?thesis
    by (rule reach_step) (rule work, rule ready[OF run_ready], simp)
qed

theorem ready_renders_have_audio_witness:
  "\<exists>r \<in> set (sd_renders run2). rn_state r = RenderReady \<and> (\<exists>!d. (rn_id r, d) \<in> set (sd_blobs run2))"
proof -
  let ?r = "ready_row 2 run_audio False run_render"
  have "?r \<in> set (sd_renders run2)" "rn_state ?r = RenderReady" by (simp_all add: run2_def run_db_def ready_row_def)
  then show ?thesis using ready_renders_have_audio[OF audio_reached] by blast
qed

text \<open>C9: audio is given up only by clearing its last narration.  A ready render keeps its row and its digest through every
  step when it is lexical, and when it is a narration render as long as a sentence of any article is bound to it.\<close>
theorem accepted_audio_kept:
  assumes "reach empty_speech (speech_step E) db" and "speech_step E db db'" and "r \<in> set (sd_renders db)" and "rn_state r = RenderReady"
    and "rn_retention r = RetentionLexical \<or> (\<exists>a \<in> set (sd_narration db'). sa_render a = rn_id r)" and "(rn_id r, d) \<in> set (sd_blobs db)"
  shows "r \<in> set (sd_renders db') \<and> (rn_id r, d) \<in> set (sd_blobs db')"
proof -
  have "rn_retention r = RetentionLexical \<or> bound db' r" using assms(5) by (auto simp: bound_def intro: rev_image_eqI)
  then have "stays db db' r" using step_stays[OF speech.reach_inv[OF assms(1)] assms(2-4)] by blast
  then show ?thesis using assms(6) by (simp add: stays_def)
qed

lemma run_generating: "SetRenderGenerating 5 ''xxxx'' run2 = (Inr (), run2)"
  by (simp add: SetRenderGenerating_def run_row run2_def run_db_def find_by_def ready_row_def Let_def count_where_def)

theorem accepted_audio_kept_witness:
  "ready_row 2 run_audio False run_render \<in> set (sd_renders run2) \<and> (''xxxx'', ''d'') \<in> set (sd_blobs run2)"
  using accepted_audio_kept[OF audio_reached work[OF generating[OF run_generating]], of "ready_row 2 run_audio False run_render" "''d''"]
  by (simp add: run2_def run_db_def ready_row_def run_row run_bind_def)

text \<open>C25: clearing removes an article's narration only.  \<open>ClearNarration\<close> deletes exactly the article's bindings; every
  narration render that was bound by it and by no other article is purged, and every other render, each lexical one
  included, keeps its row and its digest.\<close>
theorem ClearNarration_exact:
  assumes "reach empty_speech (speech_step E) db" and "ClearNarration now article db = (Inr res, db')" and "r \<in> set (sd_renders db)"
  shows "sd_narration db' = filter (\<lambda>a. sa_article a \<noteq> ulid_string article) (sd_narration db) \<and>
    (if rn_retention r = RetentionNarration \<and> (\<exists>a \<in> set (sd_narration db). sa_render a = rn_id r \<and> sa_article a = ulid_string article) \<and>
         \<not> (\<exists>a \<in> set (sd_narration db). sa_render a = rn_id r \<and> sa_article a \<noteq> ulid_string article)
     then \<exists>r' \<in> set (sd_renders db'). rn_id r' = rn_id r \<and> rn_hash r' = rn_hash r \<and> rn_state r' = RenderPurged
     else r \<in> set (sd_renders db') \<and> (\<forall>d. (rn_id r, d) \<in> set (sd_blobs db) \<longrightarrow> (rn_id r, d) \<in> set (sd_blobs db')))"
proof -
  let ?aid = "ulid_string article"
  have ok: "audio_ok db" by (rule speech.reach_inv[OF assms(1)])
  have run: "clearNarrationBody now ?aid db = (Inr res, db')" using assms(2) by (simp add: ClearNarration_def with_transaction_Inr)
  from clear_body[OF ok run] have n: "sd_narration db' = filter (\<lambda>a. sa_article a \<noteq> ?aid) (sd_narration db)"
    and c: "if rn_id r \<in> fst ` set (clear_infos ?aid db) \<and> \<not> bound db' r then purged db' r else stays db db' r" using assms(3) by blast+
  have b: "bound db' r \<longleftrightarrow> (\<exists>a \<in> set (sd_narration db). sa_render a = rn_id r \<and> sa_article a \<noteq> ?aid)"
    unfolding bound_def n by (auto intro: rev_image_eqI)
  have i: "rn_id r \<in> fst ` set (clear_infos ?aid db) \<longleftrightarrow>
      rn_retention r = RetentionNarration \<and> (\<exists>a \<in> set (sd_narration db). sa_render a = rn_id r \<and> sa_article a = ?aid)"
    unfolding clear_infos_ids using same_id[OF ok _ assms(3)] assms(3) by auto
  show ?thesis using n c unfolding b i by (auto simp: purged_def purged_row_def stays_def split: if_splits)
qed

theorem ClearNarration_exact_witness: "\<exists>r' \<in> set (sd_renders run3). rn_id r' = ''xxxx'' \<and> rn_state r' = RenderPurged"
  using ClearNarration_exact[OF audio_reached run_clear, of "ready_row 2 run_audio False run_render"]
  by (auto simp: run2_def run_db_def ready_row_def run_row run_bind_def)

text \<open>
  A purged render stays purged under calm steps, also under clearing.
\<close>

definition purged_id :: "string \<Rightarrow> 'z speech_db_scheme \<Rightarrow> bool" where
  "purged_id rid db \<longleftrightarrow> audio_ok db \<and> (\<exists>r \<in> set (sd_renders db). rn_id r = rid \<and> rn_state r = RenderPurged)"

lemma purged_id_fine: "fine False db db' \<Longrightarrow> purged_id rid db \<Longrightarrow> purged_id rid db'"
  unfolding purged_id_def fine_def kept_def keeps_row_def by metis

lemma purged_id_steps: "(audio_step E False)\<^sup>*\<^sup>* db db' \<Longrightarrow> purged_id rid db \<Longrightarrow> purged_id rid db'"
  by (induction rule: rtranclp_induct) (auto intro: purged_id_fine audio_step_fine)

lemma purged_not_ready:
  assumes "purged_id rid db" and "a \<in> set (sd_narration db)" and "sa_article a = aid" and "sa_render a = rid"
  shows "fst (narration_summary aid db) \<noteq> NarrationReady"
proof -
  obtain r where r: "r \<in> set (sd_renders db)" "rn_id r = rid" "rn_state r = RenderPurged" using assms(1) by (auto simp: purged_id_def)
  let ?rs = "narration_renders aid db"
  have m: "r \<in> set ?rs" using r assms(2-4) by (auto simp: narration_renders_def)
  have "filter (\<lambda>r. rn_state r = RenderReady) ?rs \<noteq> ?rs"
  proof
    assume "filter (\<lambda>r. rn_state r = RenderReady) ?rs = ?rs"
    then have "r \<in> set (filter (\<lambda>r. rn_state r = RenderReady) ?rs)" using m by simp
    then show False using r(3) by simp
  qed
  then have "count_where (\<lambda>r. rn_state r = RenderReady) ?rs \<noteq> length ?rs"
    unfolding count_where_def by (metis filter_id_conv length_filter_less less_irrefl)
  then show ?thesis by (auto simp: narration_summary_def Let_def)
qed

lemma purged_not_queueable:
  assumes "purged_id rid db" and "ulid_string renderID = rid"
  shows "SetRenderGenerating now renderID db = (Inl (SpeechMessage ''audio render is not queueable''), db)"
proof -
  obtain r where r: "r \<in> set (sd_renders db)" "rn_id r = rid" "rn_state r = RenderPurged" and ok: "audio_ok db"
    using assms(1) by (auto simp: purged_id_def)
  have only: "q = r" if "q \<in> set (sd_renders db)" "rn_id q = rid" for q using same_id[OF ok that(1) r(1)] that(2) r(2) by simp
  have "count_where (\<lambda>q. rn_id q = rid \<and> rn_state q \<in> {RenderQueued, RenderFailed, RenderGenerating}) (sd_renders db) = 0"
    using only r(3) by (fastforce simp: count_where_0)
  moreover have "find_by rn_id rid (sd_renders db) = Some r"
  proof (cases "find_by rn_id rid (sd_renders db)")
    case None
    then show ?thesis using r(1,2) by (simp add: find_by_None)
  next
    case (Some q)
    then show ?thesis using only[of q] find_by_Some[OF Some] by simp
  qed
  ultimately show ?thesis using assms(2) r(3) by (simp add: SetRenderGenerating_def Let_def)
qed

text \<open>C26: queueing without reactivation binds cleared renders for good.  The creation of an article queues its narration without
  taking up purged renders: when one of its sentences is bound to a render that a clearing had purged, then in every later
  state reached by further queueing of that kind, renders set to generating or failed, recoveries, recomputations, edits of articles and completions of
  renders that are not purged, as long as the binding is there, the render is still purged, the article's narration status cannot
  become ready, and SetRenderGenerating refuses the render as not queueable.  The last part is why completions of purged renders
  are left out of the steps: MarkRenderReadyTx itself has no such guard and would make the render ready again, but the two
  completions of the worker service reach it only after that check, and a clearing in between cancels the job that the same
  transaction has to complete.\<close>
theorem cleared_sentence_stuck:
  assumes "reach empty_speech (speech_step E) db" and "QueueArticleNarrationTx E now article False db = (Inr (), db1)"
    and "p \<in> set (sd_renders db)" and "rn_state p = RenderPurged"
    and "(audio_step E False)\<^sup>*\<^sup>* db1 db2"
    and "a \<in> set (sd_narration db2)" and "sa_article a = ulid_string article" and "sa_render a = rn_id p"
  shows "(\<exists>r \<in> set (sd_renders db2). rn_id r = rn_id p \<and> rn_state r = RenderPurged) \<and>
    fst (narration_summary (ulid_string article) db2) \<noteq> NarrationReady \<and>
    (\<forall>t rid. ulid_string rid = rn_id p \<longrightarrow>
       SetRenderGenerating t rid db2 = (Inl (SpeechMessage ''audio render is not queueable''), db2))"
proof -
  have "purged_id (rn_id p) db" using speech.reach_inv[OF assms(1)] assms(3,4) by (auto simp: purged_id_def)
  then have "purged_id (rn_id p) db1"
    using purged_id_fine fine_snd[OF fine_narration assms(2)] by blast
  then have p: "purged_id (rn_id p) db2" using purged_id_steps assms(5) by blast
  then have "\<exists>r \<in> set (sd_renders db2). rn_id r = rn_id p \<and> rn_state r = RenderPurged" by (simp add: purged_id_def)
  then show ?thesis using purged_not_ready[OF p assms(6-8)] purged_not_queueable[OF p] by blast
qed

theorem cleared_sentence_stuck_witness:
  "run_purged \<in> set (sd_renders run4) \<and> fst (narration_summary ''b'' run4) \<noteq> NarrationReady \<and>
   fst (SetRenderGenerating 9 (rn_id run_purged) run4) \<noteq> Inr ()"
proof -
  have "reach empty_speech (speech_step run_env) run3"
    by (rule reach_step[OF audio_reached]) (rule clear[OF run_clear])
  moreover have "run_purged \<in> set (sd_renders run3)" "run_bind ''b'' ''u'' \<in> set (sd_narration run4)"
    by (simp_all add: run3_def run4_def run_db_def)
  moreover have "ulid_string (rn_id run_purged) = rn_id run_purged" by (simp add: run_purged_row ulid_string_def)
  ultimately have "fst (narration_summary ''b'' run4) \<noteq> NarrationReady" "fst (SetRenderGenerating 9 (rn_id run_purged) run4) \<noteq> Inr ()"
    using cleared_sentence_stuck[OF _ run_queue_again _ run_purged_row(2), of run4 "run_bind ''b'' ''u''"] run_row(7)
    by (simp_all add: run_bind_def run_purged_row)
  then show ?thesis by (simp add: run4_def run_db_def)
qed

end
