(* ===== verification/Workers_Relay.thy ===== *)
theory Workers_Relay
  imports Workers_Common LLM_Relay_Props Localworker_Props Speech_Audio
begin

text \<open>
  Relay jobs through the worker service: what the relay lane claims always has a lease response, requests the adapter builds
  are claimed by it, and the common lease carries their exact bytes; lease loops end.
\<close>

section \<open>The payload of a claimed relay job\<close>

lemma dec_map_members_some: "dec_map_members Some acc ms \<noteq> None"
  by (induction "Some :: json \<Rightarrow> json option" acc ms rule: dec_map_members.induct) auto

lemma probe_object:
  assumes "DecodeRelayPayload s = Inr p"
  shows "\<exists>ms. json_parse s = Some (JObj ms)"
proof -
  from assms obtain j where j: "json_parse s = Some j"
    by (cases "json_parse s") (auto simp: DecodeRelayPayload_def)
  show ?thesis
  proof (cases j)
    case JNull
    then show ?thesis using assms j
      by (simp add: DecodeRelayPayload_def dec_struct_def OperationChatCompletion_def OperationListModels_def)
  qed (use assms j in \<open>auto simp: DecodeRelayPayload_def dec_struct_def\<close>)
qed

lemma trimmed_some: "DecodeRelayPayload s = Inr p \<Longrightarrow> trimmed_request s \<noteq> None"
  using probe_object[of s p] dec_map_members_some by (auto simp: trimmed_request_def dec_map_def)

lemma relay_response:
  assumes "relayJobMatches E (lease_job l)"
  shows "\<exists>out. leaseResponse E l db = Inr out \<and> lo_render out = [] \<and> lo_profile out = None"
proof -
  from assms obtain p where p: "job_type (lease_job l) = LLMRelayJobType" "DecodeRelayPayload (payload_json (lease_job l)) = Inr p"
    "rp_request p = owner_id (lease_job l)"
    "HashRequest (relay_env.truncate (ws_relay E)) (payload_json (lease_job l)) = input_hash (lease_job l)"
    by (auto simp: relayJobMatches_def split: sum.splits)
  obtain t where t: "trimmed_request (payload_json (lease_job l)) = Some t" using trimmed_some[OF p(2)] by auto
  show ?thesis using p t by (simp add: leaseResponse_def relayLeaseResponse_def Let_def blank_response_def)
qed

section \<open>Requests built by the adapter\<close>

text \<open>
  The request parts the adapter hands over: a payload with its hash, for a chat completion or for the list of models.  The
  request id is valid UTF-8 of at most 256 bytes (the program's ids are ULIDs of 26 ASCII characters).  Of a chat
  completion's schema the builder only checks that it is JSON; here it is also valid UTF-8, and nested so that it can
  still be read inside the payload, three levels further down: a decoder stops at 10000 levels, so the payload of a
  schema of more than 9997 levels is accepted by the builder and read by nobody (the program's own schemas have a few).
\<close>

definition built :: "worker_svc \<Rightarrow> string \<Rightarrow> string \<Rightarrow> string \<Rightarrow> bool" where
  "built E request payload h \<longleftrightarrow> valid_utf8 request \<and> length request \<le> 256 \<and>
     (BuildListModels (relay_env.truncate (ws_relay E)) request = Inr (payload, h) \<or>
      (\<exists>model messages schema temperature tokens t.
         BuildChatCompletion (relay_env.truncate (ws_relay E)) request model messages schema temperature tokens = Inr (payload, h) \<and>
         json_parse (trim_space schema) = Some t \<and> 3 + json_depth t \<le> max_depth \<and> valid_utf8 schema))"

lemma not_enveloped:
  assumes "k \<in> {''model'', ''messages'', ''response_format'', ''options'', ''limits''}"
  shows "find_field envelope_fields k = None"
proof -
  have "(fold_name ''protocol_version'' = fold_name k) = False" "(fold_name ''operation'' = fold_name k) = False"
    "(fold_name ''request_id'' = fold_name k) = False"
    by (rule fold_differs; use assms in \<open>auto simp: byte_def\<close>)+
  then show ?thesis using assms by (auto simp: find_field_def envelope_fields_def)
qed

lemma envelope_reads:
  assumes "valid_utf8 v" and "valid_utf8 p" and "valid_utf8 q"
    and "\<forall>m \<in> set ms. fst m \<in> {''model'', ''messages'', ''response_format'', ''options'', ''limits''}"
  shows "dec_struct False envelope_fields \<lparr>re_protocol = [], re_operation = [], re_request = []\<rparr>
      (obj ((''protocol_version'', json_str v) # (''operation'', json_str p) # (''request_id'', json_str q) # ms)) =
      Some \<lparr>re_protocol = v, re_operation = p, re_request = q\<rparr>"
proof -
  have skip: "dec_members False envelope_fields r (map (\<lambda>(k, j). (escape k, j)) ms) = Some r" for r
    using assms(4)
  proof (induction ms)
    case Nil
    then show ?case by simp
  next
    case (Cons m ms)
    then have k: "fst m \<in> {''model'', ''messages'', ''response_format'', ''options'', ''limits''}" by simp
    have "valid_utf8 (fst m)" using k by auto
    then show ?case using Cons not_enveloped[OF k] by (cases m) (simp add: skip_member del: dec_members.simps)
  qed
  have f: "find_field envelope_fields ''protocol_version'' = Some (envelope_fields ! 0)"
    "find_field envelope_fields ''operation'' = Some (envelope_fields ! 1)"
    "find_field envelope_fields ''request_id'' = Some (envelope_fields ! 2)"
    by (simp_all add: find_field_def envelope_fields_def)
  show ?thesis
    by (simp add: dec_struct_obj dec_members.simps(2) unquote_escape f skip assms(1-3)) (simp add: envelope_fields_def assms(1-3))
qed

lemma chat_text:
  assumes "BuildChatCompletion E request model messages schema temperature tokens = Inr (payload, h)"
    and "json_parse (trim_space schema) = Some t" and "3 + json_depth t \<le> max_depth"
  shows "\<exists>ms. payload = json_text (obj ((''protocol_version'', json_str ProtocolVersion) # (''operation'', json_str OperationChatCompletion) #
      (''request_id'', json_str (ulid_string request)) # ms)) \<and>
    json_ok 0 (obj ((''protocol_version'', json_str ProtocolVersion) # (''operation'', json_str OperationChatCompletion) #
      (''request_id'', json_str (ulid_string request)) # ms)) \<and>
    (\<forall>m \<in> set ms. fst m \<in> {''model'', ''messages'', ''response_format'', ''options'', ''limits''})"
proof -
  let ?r = "build_request request model messages schema temperature tokens"
  from assms(1) obtain j where b: "chat_json ?r = Some j" "payload = json_text j"
    by (auto simp: BuildChatCompletion_def Let_def bind_res_Inr_conv split: if_splits option.splits)
  have sc: "rf_schema (cc_format ?r) = trim_space schema" by (simp add: build_request_def)
  have ok3: "json_ok 3 (json_compact t)" by (rule json_ok_compact, rule json_ok_deeper[OF json_parse_ok[OF assms(2)] assms(3)])
  let ?ms = "[(''model'', json_str (cc_model ?r)), (''messages'', JArr (map message_json (cc_messages ?r))),
        (''response_format'', obj [(''type'', json_str (rf_type (cc_format ?r))),
           (''json_schema'', obj [(''name'', json_str (rf_name (cc_format ?r))), (''strict'', JBool (rf_strict (cc_format ?r))),
              (''schema'', json_compact t)])]),
        (''options'', obj [(''temperature_milli'', json_of_int (op_temperature (cc_options ?r))),
           (''max_output_tokens'', json_of_int (op_max_tokens (cc_options ?r)))]),
        (''limits'', limits_json (cc_limits ?r))]"
  have j: "j = obj ((''protocol_version'', json_str ProtocolVersion) # (''operation'', json_str OperationChatCompletion) #
      (''request_id'', json_str (ulid_string request)) # ?ms)"
    using b(1) by (simp add: chat_json_def sc assms(2)) (simp add: build_request_def)
  have "json_ok 0 j" unfolding j using ok3 by (auto simp: json_ok_obj limits_json_def json_ok_messages eval_nat_numeral)
  then show ?thesis using j b(2) by (intro exI[of _ ?ms]) auto
qed

lemma built_facts:
  assumes "built E request payload h"
  shows "h = HashRequest (relay_env.truncate (ws_relay E)) payload" and "payload \<noteq> []" and "length payload \<le> PayloadLimitBytes"
    and "\<exists>p. DecodeRelayPayload payload = Inr p \<and> rp_request p = ulid_string request"
    and "\<exists>e. LW_DecodeRelayPayload payload = Inr e \<and> re_request e = ulid_string request"
proof -
  let ?env = "relay_env.truncate (ws_relay E)"
  have v: "valid_utf8 request" "length request \<le> 256" using assms by (simp_all add: built_def)
  have vr: "valid_utf8 (ulid_string request)" "ulid_string request \<noteq> []" "length (ulid_string request) \<le> 256"
    using v ascii_name[of zeroULID] by (simp_all add: ulid_string_def zeroULID_def byte_def)
  have lw: "LW_DecodeRelayPayload payload = Inr \<lparr>re_protocol = ProtocolVersion, re_operation = operation, re_request = ulid_string request\<rparr>"
    if t: "payload = json_text (obj ((''protocol_version'', json_str ProtocolVersion) # (''operation'', json_str operation) #
      (''request_id'', json_str (ulid_string request)) # ms))"
    and ok: "json_ok 0 (obj ((''protocol_version'', json_str ProtocolVersion) # (''operation'', json_str operation) #
      (''request_id'', json_str (ulid_string request)) # ms))"
    and ks: "\<forall>m \<in> set ms. fst m \<in> {''model'', ''messages'', ''response_format'', ''options'', ''limits''}"
    and op: "operation \<in> {OperationChatCompletion, OperationListModels}" for operation ms
  proof -
    have "num_stop []" by (simp add: num_stop_def)
    from json_text_read[OF ok this] have r: "json_read payload = Some (obj ((''protocol_version'', json_str ProtocolVersion) #
      (''operation'', json_str operation) # (''request_id'', json_str (ulid_string request)) # ms), [])" by (simp add: t)
    have "valid_utf8 operation" "valid_utf8 ProtocolVersion"
      using op by auto
    then show ?thesis using envelope_reads[OF _ _ vr(1) ks] vr op
      by (auto simp: LW_DecodeRelayPayload_def r OperationChatCompletion_def OperationListModels_def ProtocolVersion_def Speech_Protocol_def)
  qed
  consider (models) "BuildListModels ?env request = Inr (payload, h)"
    | (chat) model messages schema temperature tokens t where
        "BuildChatCompletion ?env request model messages schema temperature tokens = Inr (payload, h)"
        "json_parse (trim_space schema) = Some t" "3 + json_depth t \<le> max_depth" "valid_utf8 schema"
    using assms by (auto simp: built_def)
  then have "(h = HashRequest ?env payload \<and> payload \<noteq> [] \<and> length payload \<le> PayloadLimitBytes) \<and>
    (\<exists>p. DecodeRelayPayload payload = Inr p \<and> rp_request p = ulid_string request) \<and>
    (\<exists>e. LW_DecodeRelayPayload payload = Inr e \<and> re_request e = ulid_string request)"
  proof cases
    case models
    let ?ms = "[(''limits'', limits_json \<lparr>lim_bytes = MaxCompletionBytes\<rparr>)]"
    have t: "payload = json_text (obj ((''protocol_version'', json_str ProtocolVersion) # (''operation'', json_str OperationListModels) #
      (''request_id'', json_str (ulid_string request)) # ?ms))"
      using models by (auto simp: BuildListModels_def Let_def list_json_def split: if_splits)
    have "LW_DecodeRelayPayload payload = Inr \<lparr>re_protocol = ProtocolVersion, re_operation = OperationListModels, re_request = ulid_string request\<rparr>"
      by (rule lw[OF t]) (simp_all add: json_ok_obj limits_json_def)
    then show ?thesis using list_payload[OF models v] by simp
  next
    case chat
    from chat_text[OF chat(1-3)] obtain ms where ms: "payload = json_text (obj ((''protocol_version'', json_str ProtocolVersion) #
        (''operation'', json_str OperationChatCompletion) # (''request_id'', json_str (ulid_string request)) # ms))"
      "json_ok 0 (obj ((''protocol_version'', json_str ProtocolVersion) # (''operation'', json_str OperationChatCompletion) #
        (''request_id'', json_str (ulid_string request)) # ms))"
      "\<forall>m \<in> set ms. fst m \<in> {''model'', ''messages'', ''response_format'', ''options'', ''limits''}" by blast
    have "LW_DecodeRelayPayload payload = Inr \<lparr>re_protocol = ProtocolVersion, re_operation = OperationChatCompletion, re_request = ulid_string request\<rparr>"
      by (rule lw[OF ms]) simp
    then show ?thesis using chat_payload[OF chat(1)] chat(2-4) by simp
  qed
  then show "h = HashRequest ?env payload" "payload \<noteq> []" "length payload \<le> PayloadLimitBytes"
    "\<exists>p. DecodeRelayPayload payload = Inr p \<and> rp_request p = ulid_string request"
    "\<exists>e. LW_DecodeRelayPayload payload = Inr e \<and> re_request e = ulid_string request" by blast+
qed

lemma enqueued_row:
  assumes "enqueueTx fresh (a, b, c) spec db = (Inr j, db')" and "find_by idempotency_key (spec_key spec) (job_table db) = None"
  shows "job_type j = spec_job_type spec \<and> execution_target j = spec_target spec \<and> owner_type j = spec_owner_type spec \<and>
    owner_id j = spec_owner_id spec \<and> payload_json j = spec_payload spec \<and> input_hash j = spec_input_hash spec"
proof -
  define s1 where "s1 = (if ulid_is_zero (spec_id spec) then spec\<lparr>spec_id := fresh\<rparr> else spec)"
  define s2 where "s2 = (if spec_available_at s1 = None then s1\<lparr>spec_available_at := Some a\<rparr> else s1)"
  define s3 where "s3 = (if spec_max_attempts s2 = 0 then s2\<lparr>spec_max_attempts := 3\<rparr> else s2)"
  have s: "spec_job_type s3 = spec_job_type spec" "spec_target s3 = spec_target spec" "spec_owner_type s3 = spec_owner_type spec"
    "spec_owner_id s3 = spec_owner_id spec" "spec_payload s3 = spec_payload spec" "spec_input_hash s3 = spec_input_hash spec"
    "spec_key s3 = spec_key spec"
    by (simp_all add: s3_def s2_def s1_def)
  have new: "idempotency_key j' \<noteq> spec_key spec" if "j' \<in> set (job_table db)" for j'
    using assms(2) that by (auto simp: find_by_None)
  have e: "(case insert_job (row_of_spec s3 b c) db of Inl e \<Rightarrow> (Inl e, db) | Inr d \<Rightarrow> (getTx (spec_key s3) d, d)) = (Inr j, db')"
    using assms(1) unfolding enqueueTx_def s3_def s2_def s1_def by (simp only: Let_def prod.case)
  have k: "idempotency_key (row_of_spec s3 b c) = spec_key spec" by (simp add: row_of_spec_def s)
  have ins: "insert_job (row_of_spec s3 b c) db = Inr (db\<lparr>job_table := job_table db @ [row_of_spec s3 b c]\<rparr>)"
  proof -
    have "idempotency_key (row_of_spec s3 b c) \<notin> idempotency_key ` set (job_table db)" using new k by force
    then show ?thesis using e by (auto simp: insert_job_def split: if_splits)
  qed
  have "find_by idempotency_key (spec_key spec) (job_table db @ [row_of_spec s3 b c]) = Some (row_of_spec s3 b c)"
    unfolding find_by_append assms(2) using k by (simp add: find_by_def)
  then have "j = row_of_spec s3 b c" using e by (simp add: ins getTx_def s)
  then show ?thesis by (simp add: row_of_spec_def s)
qed

lemma enqueued_spec:
  assumes "Relay_Enqueue fresh clocks payload h request db = (Inr j, db')"
    and "find_by idempotency_key (IdempotencyKey h) (job_table (hub_jobs db)) = None"
  shows "job_type j = LLMRelayJobType" and "execution_target j = TargetMacOS" and "owner_type j = OwnerType"
    and "owner_id j = request" and "payload_json j = payload" and "input_hash j = h" and "request \<noteq> []"
proof -
  obtain a b c where cl: "clocks = (a, b, c)" by (cases clocks)
  from assms(1) obtain jb where e: "Enqueue json_valid fresh clocks (relay_spec payload h request) (hub_jobs db) = (Inr j, jb)"
    and r: "request \<noteq> []"
    by (auto simp: Relay_Enqueue_def lift_jobs_def on_jobs_def split: if_splits sum.splits prod.splits)
  have v: "validateSpec json_valid (relay_spec payload h request) = Inr s \<Longrightarrow> s = relay_spec payload h request" for s
    by (auto simp: validateSpec_def relay_spec_def split: if_splits)
  have "\<exists>d. enqueueTx fresh (a, b, c) (relay_spec payload h request) (hub_jobs db) = (Inr j, d)"
    using e v unfolding Enqueue_def cl
    by (auto simp: with_transaction_def split: sum.splits prod.splits)
  then obtain d where "enqueueTx fresh (a, b, c) (relay_spec payload h request) (hub_jobs db) = (Inr j, d)" by blast
  from enqueued_row[OF this] assms(2) r
  show "job_type j = LLMRelayJobType" "execution_target j = TargetMacOS" "owner_type j = OwnerType"
    "owner_id j = request" "payload_json j = payload" "input_hash j = h" "request \<noteq> []"
    by (simp_all add: relay_spec_def)
qed

text \<open>C16: a request the adapter builds is served on both protocols, if its request id is valid UTF-8 of at most 256 bytes
  and, for a chat completion, its schema is valid UTF-8 and nested at most 9997 levels (three less than a JSON decoder
  reads; BuildChatCompletion itself demands neither of these).  When its payload is enqueued as a new relay job,
  every later row of that job is admitted to the relay lane and has a lease response; a common lease for it carries, in
  its base64 envelope, exactly the payload's bytes.\<close>
theorem built_request_served:
  assumes "built E request payload h"
    and "Relay_Enqueue fresh clocks payload h request db = (Inr j, db')"
    and "find_by idempotency_key (IdempotencyKey h) (job_table (hub_jobs db)) = None"
    and "same_identity j (lease_job l)"
  shows "relayJobMatches E (lease_job l) \<and> (\<exists>out. leaseResponse E l sdb = Inr out) \<and>
    (\<exists>r. ailocalsLeaseResponse E cap l sdb = Inr r \<and> DecodePayload (ws_sha E) (cl_payload r) (cl_sha r) = Inr payload)"
proof -
  note s = enqueued_spec[OF assms(2,3)] and b = built_facts[OF assms(1)]
  have l: "job_type (lease_job l) = LLMRelayJobType" "execution_target (lease_job l) = TargetMacOS"
    "owner_type (lease_job l) = OwnerType" "owner_id (lease_job l) = request" "payload_json (lease_job l) = payload"
    "input_hash (lease_job l) = h" using s assms(4) by (simp_all add: same_identity_def)
  have m: "relayJobMatches E (lease_job l)"
    using l b(1,4) s(7) by (auto simp: relayJobMatches_def ulid_string_def)
  have "EncodePayload (ws_sha E) payload = Inr (std_encode payload, ws_sha E payload)"
    using b(2,3) by (simp add: EncodePayload_def PayloadMaxBytes_def PayloadLimitBytes_def)
  then have "\<exists>r. ailocalsLeaseResponse E cap l sdb = Inr r \<and> DecodePayload (ws_sha E) (cl_payload r) (cl_sha r) = Inr payload"
    using l b(5) decode_encode by (auto simp: ailocalsLeaseResponse_def newAilocalsLeaseResponse_def)
  then show ?thesis using m relay_response[OF m] by blast
qed

definition sample_worker_svc :: worker_svc where
  "sample_worker_svc = \<lparr>ws_relay = sample_svc, ws_speech = run_env, ws_tag = (\<lambda>_. (False, [])), ws_root = (\<lambda>_. False)\<rparr>"

theorem built_request_served_witness:
  "relayJobMatches sample_worker_svc relay_leased \<and>
   (\<exists>r. ailocalsLeaseResponse sample_worker_svc CapabilityRelay \<lparr>lease_job = relay_leased, lease_token = ''t''\<rparr> run0 = Inr r \<and>
      DecodePayload (sha sample_svc) (cl_payload r) (cl_sha r) = Inr sample_payload)"
proof -
  have e: "ws_relay sample_worker_svc = sample_svc" by (simp add: sample_worker_svc_def)
  have h: "HashRequest (relay_env.truncate sample_svc) sample_payload = replicate 64 CHR ''0''"
    by (simp add: HashRequest_def sample_svc_def relay_env.defs)
  have "built sample_worker_svc ''r'' sample_payload (replicate 64 CHR ''0'')"
    using sample_built[of "relay_env.truncate sample_svc"] r_valid by (simp add: built_def e h)
  moreover have "find_by idempotency_key (IdempotencyKey (replicate 64 CHR ''0'')) (job_table (hub_jobs (hub_with [] []))) = None"
    by (simp add: hub_with_def find_by_def)
  moreover have "same_identity queued_row (lease_job \<lparr>lease_job = relay_leased, lease_token = ''t''\<rparr>)"
    by (simp add: same_identity_def relay_leased_def lease_row_def)
  ultimately show ?thesis using built_request_served[OF _ run_enqueue] e by fastforce
qed

section \<open>Lease loops end\<close>

lemma claim_polls_end: "\<exists>p \<in> set ps. over (lp_now p) \<Longrightarrow> fst (claim_polls claim over ps db) \<noteq> None"
proof (induction ps arbitrary: db)
  case (Cons p ps)
  then show ?case by (auto split: prod.splits sum.splits option.splits)
qed simp

lemma answer_lease_none: "fst (answer_lease E r) = None \<longleftrightarrow> fst r = None"
  by (auto simp: answer_lease_def split: prod.splits option.splits sum.splits)

lemma answer_common_none: "fst (answer_common E cap r) = None \<longleftrightarrow> fst r = None"
  by (auto simp: answer_common_def split: prod.splits option.splits sum.splits worker_fault.splits)

text \<open>The timer of a poll runs 250 milliseconds, so the clocks of the polls are at least that far apart.\<close>

definition timed_polls :: "nat \<Rightarrow> 'd lease_poll list \<Rightarrow> bool" where
  "timed_polls now ps \<longleftrightarrow> (\<forall>i < length ps. now + 250 * i \<le> lp_now (ps ! i))"

lemma timed_over:
  assumes "timed_polls now ps" and "now + k < now + 250 * i" and "i < length ps"
  shows "\<exists>p \<in> set ps. now + k < lp_now p"
  using assms nth_mem[OF assms(3)] unfolding timed_polls_def by (meson le_trans less_le_trans)

lemma lane_ends:
  assumes "timed_polls now ps" and "102 \<le> length ps"
  shows "fst (lane E now wid m ps db) \<noteq> None"
proof -
  have over: "\<exists>p \<in> set ps. now + LongPollLifetime < lp_now p"
    by (rule timed_over[OF assms(1), of _ 101]) (use assms(2) in \<open>simp_all add: LongPollLifetime_def\<close>)
  have "fst (answer_lease E (claim_polls (claim_match E wid m) (\<lambda>t. now + LongPollLifetime < t) ps db')) \<noteq> None" for db'
    unfolding answer_lease_none by (rule claim_polls_end[OF over])
  then show ?thesis unfolding lane_def by (simp split: prod.splits sum.splits del: not_None_eq)
qed

lemma common_ends:
  assumes "timed_polls now ps" and "102 \<le> length ps"
  shows "fst (LeaseAilocals E now w request ps db) \<noteq> None"
proof (cases "lease_check w request db")
  case (Inl e)
  then show ?thesis by (simp add: LeaseAilocals_def)
next
  case (Inr c)
  obtain req jtype where c: "c = (req, jtype)" by (cases c)
  have "lr_wait req \<le> PollMaxSeconds"
    using Inr c by (auto simp: lease_check_def unauthorized_def ValidateLeaseRequest_def bind_res_Inr_conv map_sum_def
        split: if_splits option.splits sum.splits)
  then have w: "lr_wait req \<le> 25" by (simp add: PollMaxSeconds_def)
  have "\<exists>p \<in> set ps. now + 25000 < lp_now p"
    by (rule timed_over[OF assms(1), of _ 101]) (use assms(2) in simp_all)
  then have over: "\<exists>p \<in> set ps. lr_wait req = 0 \<or> int now + lr_wait req * 1000 < int (lp_now p)" using w by force
  have "fst (answer_common E cap (claim_polls claim (\<lambda>t. lr_wait req = 0 \<or> int now + lr_wait req * 1000 < int t) ps db')) \<noteq> None"
    for cap claim db'
    unfolding answer_common_none by (rule claim_polls_end[OF over])
  then show ?thesis unfolding LeaseAilocals_def Inr c by (simp split: prod.splits sum.splits del: not_None_eq)
qed

text \<open>C27: a lease request is answered.  With the quarter of a second between two polls, both lease calls return after at
  most 102 polls, that is within about 25 seconds, whatever other processes do to the database between the polls and whichever
  jobs it holds: the legacy call because of its deadline, the common one because the wait a client may ask for is bounded.\<close>
theorem lease_calls_return:
  assumes "timed_polls now ps" and "102 \<le> length ps"
  shows "fst (Lease E now w req ps db) \<noteq> None \<and> fst (LeaseAilocals E now w request ps db) \<noteq> None"
  using lane_ends[OF assms] common_ends[OF assms]
  by (auto simp: Lease_def leaseRelay_def split: sum.splits)

theorem lease_calls_return_witness:
  "\<forall>w req. fst (Lease sample_worker_svc 0 w req (map (\<lambda>i. \<lparr>lp_world = id, lp_now = 250 * i, lp_token = ''t'', lp_ctx = None\<rparr>) [0..<102]) run1) \<noteq> None"
proof (intro allI)
  fix w req
  let ?ps = "map (\<lambda>i. \<lparr>lp_world = id, lp_now = 250 * i, lp_token = ''t'', lp_ctx = None\<rparr>) [0..<102]"
  have "timed_polls 0 ?ps" "102 \<le> length ?ps" by (simp_all add: timed_polls_def)
  from lease_calls_return[OF this] show "fst (Lease sample_worker_svc 0 w req ?ps run1) \<noteq> None" by blast
qed

end
