(* ===== verification/Workers_Props.thy ===== *)
theory Workers_Props
  imports Workers_Relay
begin

text \<open>
  What the worker service promises: enrollments and credentials, and what happens to a revoked worker's jobs.
\<close>

section \<open>Revoking a worker on the last attempt\<close>

lemma revoke_job_ok: "job_ok j \<Longrightarrow> active j \<Longrightarrow> job_ok (revoke_job now j)"
  by (auto simp: job_ok_def revoke_job_def state_defs)

lemma Revoke_table:
  "hub_jobs (Revoke now wid db) = (hub_jobs db)\<lparr>job_table := update_where (\<lambda>j. lease_owner j = ulid_string wid \<and> active j)
     (revoke_job now) (job_table (hub_jobs db))\<rparr>"
  by (simp add: Revoke_def update_worker_def Let_def)

lemma Revoke_db_ok:
  assumes "db_ok (hub_jobs db)"
  shows "db_ok (hub_jobs (Revoke now wid db))"
proof -
  have k: "job_id (revoke_job now j) = job_id j" "idempotency_key (revoke_job now j) = idempotency_key j" for j
    by (simp_all add: revoke_job_def)
  have "job_ids (hub_jobs (Revoke now wid db)) = job_ids (hub_jobs db)"
  proof -
    have "map job_id (job_table (hub_jobs (Revoke now wid db))) = map job_id (job_table (hub_jobs db))"
      by (simp add: Revoke_table map_update_where_key k)
    from arg_cong[OF this, of set] show ?thesis by (simp add: job_ids_def)
  qed
  then show ?thesis using assms revoke_job_ok
    by (auto simp: db_ok_def Revoke_table map_update_where_key k set_update_where split: if_splits)
qed

lemma spent_queued:
  assumes "lifecycle\<^sup>*\<^sup>* r k" and "job_state r = Queued" and "attempt_count r = max_attempts r"
  shows "k = r \<or> (\<exists>code t. k = cancel_queued_row code t r) \<or> (\<exists>t. k = fail_dependency t r)"
  using assms(1)
proof (induction rule: rtranclp_induct)
  case (step k l)
  then show ?case
  proof (elim disjE)
    assume "k = r"
    with step(2) have "lifecycle r l" by simp
    then show ?thesis using assms(2,3) by (cases rule: lifecycle.cases) (auto simp: active_def)
  qed (auto dest!: lifecycle_not_terminal simp: terminal_def cancel_queued_row_def fail_dependency_def)
qed simp

text \<open>C10: revoking a worker strands its jobs on their last attempt.  A job the worker holds with all attempts used is put
  back into the queue; whatever the scheduler is asked afterwards, the row stays exactly that, queued and never claimable,
  unless it is canceled or a dependency fails: it is neither leased again nor failed by the recovery of expired leases.\<close>
theorem revoked_last_attempt_stranded:
  assumes "db_ok (hub_jobs db)" and "\<And>x. hash x \<noteq> []" and "j \<in> set (job_table (hub_jobs db))"
    and "active j" and "lease_owner j = ulid_string wid" and "attempt_count j = max_attempts j"
    and "(job_step hash valid cb)\<^sup>*\<^sup>* (hub_jobs (Revoke now wid db), d) (jb, d')"
    and "k \<in> set (job_table jb)" and "job_id k = job_id j"
  shows "(k = revoke_job now j \<and> \<not> claimable jb target t k) \<or>
    (\<exists>code t. k = cancel_queued_row code t (revoke_job now j)) \<or> (\<exists>t. k = fail_dependency t (revoke_job now j))"
proof -
  let ?r = "revoke_job now j"
  have ok: "db_ok (hub_jobs (Revoke now wid db))" by (rule Revoke_db_ok[OF assms(1)])
  have "?r \<in> set (job_table (hub_jobs (Revoke now wid db)))"
    using assms(3-5) by (auto simp: Revoke_table set_update_where)
  then have f: "find_by job_id (job_id j) (job_table (hub_jobs (Revoke now wid db))) = Some ?r"
    using find_by_unique[of job_id "job_table (hub_jobs (Revoke now wid db))" ?r] ok by (simp add: db_ok_def revoke_job_def)
  have steps: "db_ok jb" "grows (job_table (hub_jobs (Revoke now wid db))) (job_table jb)"
    using job_steps_grow[OF assms(7)] ok assms(2) by auto
  obtain k' where k': "find_by job_id (job_id j) (job_table jb) = Some k'" "lifecycle\<^sup>*\<^sup>* ?r k'"
    using grows_find[OF steps(2) f] by blast
  have "find_by job_id (job_id k) (job_table jb) = Some k"
    by (rule find_by_unique[OF _ assms(8)]) (use steps(1) in \<open>simp add: db_ok_def\<close>)
  then have "k' = k" using k'(1) assms(9) by simp
  with spent_queued[OF k'(2)] assms(6) show ?thesis by (auto simp: revoke_job_def claimable_def)
qed

definition spent_job :: job where
  "spent_job = leased_job\<lparr>attempt_count := max_attempts leased_job\<rparr>"

definition spent_hub :: hub_db where
  "spent_hub = \<lparr>hub_jobs = one_db spent_job, hub_results = [], hub_workers = [], hub_enrollments = []\<rparr>"

lemma spent_job_ok: "job_ok spent_job" "active spent_job" "lease_owner spent_job = ulid_string ''w''"
proof -
  have l: "attempt_count leased_job = 1" "started_at leased_job \<noteq> None" "lease_owner leased_job = ''w''"
    by (simp_all add: leased_job_def lease_row_def sample_job_def)
  show "active spent_job" "lease_owner spent_job = ulid_string ''w''"
    using leased_job_ok(2) l by (simp_all add: spent_job_def active_def ulid_string_def)
  show "job_ok spent_job" using leased_job_ok l by (auto simp: spent_job_def job_ok_def active_def terminal_def)
qed

theorem revoked_last_attempt_stranded_witness:
  "\<not> claimable (hub_jobs (Revoke 7 ''w'' spent_hub)) TargetMacOS 9 (revoke_job 7 spent_job) \<and> job_state (revoke_job 7 spent_job) = Queued"
proof -
  have t: "job_table (hub_jobs (Revoke 7 ''w'' spent_hub)) = [revoke_job 7 spent_job]"
    using spent_job_ok(2,3) by (simp add: Revoke_table spent_hub_def one_db_def update_where_def)
  have "(revoke_job 7 spent_job = revoke_job 7 spent_job \<and> \<not> claimable (hub_jobs (Revoke 7 ''w'' spent_hub)) TargetMacOS 9 (revoke_job 7 spent_job)) \<or>
    (\<exists>code t. revoke_job 7 spent_job = cancel_queued_row code t (revoke_job 7 spent_job)) \<or>
    (\<exists>t. revoke_job 7 spent_job = fail_dependency t (revoke_job 7 spent_job))"
  proof (rule revoked_last_attempt_stranded[where hash = hash64 and valid = json_valid and cb = None and d = "()" and d' = "()"])
    show "db_ok (hub_jobs spent_hub)" using one_db_ok[OF spent_job_ok(1)] by (simp add: spent_hub_def)
    show "hash64 x \<noteq> []" for x by (rule hash_total_nonempty[OF hash64_total])
    show "spent_job \<in> set (job_table (hub_jobs spent_hub))" by (simp add: spent_hub_def one_db_def)
    show "attempt_count spent_job = max_attempts spent_job" by (simp add: spent_job_def)
    show "(job_step hash64 json_valid None)\<^sup>*\<^sup>* (hub_jobs (Revoke 7 ''w'' spent_hub), ()) (hub_jobs (Revoke 7 ''w'' spent_hub), ())" by simp
    show "revoke_job 7 spent_job \<in> set (job_table (hub_jobs (Revoke 7 ''w'' spent_hub)))" by (simp add: t)
    show "job_id (revoke_job 7 spent_job) = job_id spent_job" by (simp add: revoke_job_def)
  qed (rule spent_job_ok)+
  moreover have "job_state (revoke_job 7 spent_job) = Queued" by (simp add: revoke_job_def)
  ultimately show ?thesis by (auto dest!: arg_cong[of _ _ job_state] simp: cancel_queued_row_def fail_dependency_def)
qed

section \<open>One universal worker\<close>

definition plain_char :: "char \<Rightarrow> bool" where
  "plain_char c \<longleftrightarrow> 0x20 \<le> byte c \<and> byte c < 0x80 \<and> byte c \<notin> {byte quote_char, byte backslash, byte CHR ''<'', byte CHR ''>'', byte CHR ''&''}"

lemma escape_plain: "list_all plain_char s \<Longrightarrow> escape s = s"
proof (induction s)
  case (Cons c s)
  then have "escape s = s" and c: "plain_char c" by simp_all
  have "esc_chunk (byte c, [c]) = [c]" using c by (auto simp: esc_chunk_def plain_char_def rune_error_def)
  then show ?case using \<open>escape s = s\<close> c by (simp add: escape_def ascii_chunk plain_char_def)
qed (simp add: escape_def)

lemma marker_text:
  assumes "ap_protocol p = LW_Protocol"
  shows "\<exists>u. json_text (presence_json p) = CHR ''{'' # ailocalsProtocolMarker @ u"
proof -
  have e: "escape ''protocol'' = ''protocol''" "escape LW_Protocol = LW_Protocol"
    by (rule escape_plain, simp add: plain_char_def byte_def LW_Protocol_def quote_char_def backslash_def)+
  show ?thesis
    by (simp add: presence_json_def obj_def commas_Cons assms ailocalsProtocolMarker_def e json_str_def)
qed

lemma index_of_infix: "index_of p (u @ p @ v) \<noteq> None"
proof (induction u)
  case Nil
  have "has_prefix p (p @ v)" by (simp add: has_prefix_def)
  then show ?case by (cases "p @ v") auto
qed simp

lemma presence_common:
  assumes "ap_protocol p = LW_Protocol"
  shows "common_row (w\<lparr>wk_presence := json_text (presence_json p)\<rparr>)"
proof -
  obtain u where "json_text (presence_json p) = [CHR ''{''] @ ailocalsProtocolMarker @ u" using marker_text[OF assms] by auto
  then show ?thesis unfolding common_row_def
    using index_of_infix[of "map fold_ascii ailocalsProtocolMarker" "map fold_ascii [CHR ''{'']" "map fold_ascii u"] by simp
qed

lemma legacy_presence: "wk_presence w = ''{}'' \<Longrightarrow> \<not> common_row w" "read_presence ''{}'' = Some zero_snapshot"
proof -
  show "read_presence ''{}'' = Some zero_snapshot" by code_simp
  have "index_of (map fold_ascii ailocalsProtocolMarker) (map fold_ascii ''{}'') = None" by code_simp
  then show "\<not> common_row w" if "wk_presence w = ''{}''" using that by (simp add: common_row_def)
qed

definition presence_ok :: "string \<Rightarrow> bool" where
  "presence_ok s \<longleftrightarrow> s = ''{}'' \<or> (\<exists>p. s = json_text (presence_json p) \<and> ap_protocol p = LW_Protocol)"

definition live_common :: "worker_row \<Rightarrow> bool" where
  "live_common w \<longleftrightarrow> wk_revoked w = None \<and> common_row w"

definition enrollment_used :: "enrollment_row \<Rightarrow> bool" where
  "enrollment_used e \<longleftrightarrow> en_used e \<noteq> None"

definition workers_ok :: "'z hub_db_scheme \<Rightarrow> bool" where
  "workers_ok db \<longleftrightarrow> distinct (map wk_id (hub_workers db)) \<and>
     (\<forall>w \<in> set (hub_workers db). wk_id w \<noteq> [] \<and> presence_ok (wk_presence w)) \<and>
     count_where live_common (hub_workers db) \<le> 1 \<and>
     length (hub_workers db) \<le> count_where enrollment_used (hub_enrollments db)"

text \<open>What the rest of the service leaves alone: the identity, the revocation and the presence of every worker, and the
  enrollments.\<close>

definition same_workers :: "'z hub_db_scheme \<Rightarrow> 'z hub_db_scheme \<Rightarrow> bool" where
  "same_workers db db' \<longleftrightarrow> hub_enrollments db' = hub_enrollments db \<and>
     map (\<lambda>w. (wk_id w, wk_revoked w, wk_presence w)) (hub_workers db') =
     map (\<lambda>w. (wk_id w, wk_revoked w, wk_presence w)) (hub_workers db)"

lemma same_workers_refl [simp]: "same_workers db db"
  by (simp add: same_workers_def)

lemma same_workers_trans: "same_workers a b \<Longrightarrow> same_workers b c \<Longrightarrow> same_workers a c"
  by (simp add: same_workers_def)

lemma live_common_columns: "live_common w \<longleftrightarrow> (case (wk_id w, wk_revoked w, wk_presence w) of (i, r, p) \<Rightarrow>
    r = None \<and> index_of (map fold_ascii ailocalsProtocolMarker) (map fold_ascii p) \<noteq> None)"
  by (simp add: live_common_def common_row_def)

lemma count_where_map: "(\<And>x. P x \<longleftrightarrow> Q (f x)) \<Longrightarrow> map f xs = map f ys \<Longrightarrow> count_where P xs = count_where P ys"
proof (induction xs arbitrary: ys)
  case Nil
  then show ?case by simp
next
  case (Cons x xs)
  then obtain y zs where "ys = y # zs" "f x = f y" "map f xs = map f zs" by (cases ys) auto
  then show ?case using Cons.IH[of zs] Cons.prems(1) by (simp add: count_where_def)
qed

lemma same_workers_ok:
  assumes "same_workers db db'" and "workers_ok db"
  shows "workers_ok db'"
proof -
  let ?f = "\<lambda>w. (wk_id w, wk_revoked w, wk_presence w)"
  have m: "map ?f (hub_workers db') = map ?f (hub_workers db)" using assms(1) by (simp add: same_workers_def)
  have "count_where live_common (hub_workers db') = count_where live_common (hub_workers db)"
    by (rule count_where_map[where f = ?f and P = live_common, OF live_common_columns m])
  moreover have "map wk_id (hub_workers db') = map wk_id (hub_workers db)" using arg_cong[OF m, of "map fst"] by (simp add: comp_def)
  moreover have "\<forall>w \<in> set (hub_workers db'). wk_id w \<noteq> [] \<and> presence_ok (wk_presence w)"
  proof
    fix w assume "w \<in> set (hub_workers db')"
    then have "?f w \<in> set (map ?f (hub_workers db))" unfolding m[symmetric] by simp
    then show "wk_id w \<noteq> [] \<and> presence_ok (wk_presence w)" using assms(2) by (auto simp: workers_ok_def)
  qed
  moreover have "length (hub_workers db') = length (hub_workers db)" using arg_cong[OF m, of length] by simp
  ultimately show ?thesis using assms by (simp add: workers_ok_def same_workers_def)
qed

lemma touch_same: "(\<And>w. wk_id (f w) = wk_id w \<and> wk_revoked (f w) = wk_revoked w \<and> wk_presence (f w) = wk_presence w) \<Longrightarrow>
    same_workers db (update_worker wid f db)"
  by (simp add: same_workers_def update_worker_def update_where_def)

lemma count_where_update_le:
  assumes "\<And>x. x \<in> set xs \<Longrightarrow> Q x \<Longrightarrow> P (f x) \<Longrightarrow> P x"
  shows "count_where P (update_where Q f xs) \<le> count_where P xs"
  using assms by (induction xs) (auto simp: count_where_def update_where_def)

lemma count_where_update_more:
  assumes "x \<in> set xs" and "Q x" and "\<not> P x" and "\<And>y. P (f y)"
  shows "count_where P xs < count_where P (update_where Q f xs)"
  using assms(1)
proof (induction xs)
  case (Cons y ys)
  have le: "count_where P ys \<le> count_where P (update_where Q f ys)"
    by (induction ys) (auto simp: count_where_def update_where_def assms(4))
  show ?case
  proof (cases "x \<in> set ys")
    case True
    then show ?thesis using Cons.IH by (auto simp: count_where_def update_where_def assms(4))
  next
    case False
    then have "y = x" using Cons.prems by simp
    then show ?thesis using le assms(2-4) by (simp add: count_where_def update_where_def)
  qed
qed simp

text \<open>Inserting a worker and using its enrollment.\<close>

lemma enrolled_ok:
  assumes ok: "workers_ok db" and e: "e \<in> set (hub_enrollments db)" "en_used e = None"
    and ins: "insert_worker row db = (Inr u, db')" and new: "wk_id row \<noteq> []" "presence_ok (wk_presence row)"
    and common: "live_common row \<Longrightarrow> count_where live_common (hub_workers db) = 0"
  shows "workers_ok (use_enrollment now (en_id e) db')"
proof -
  have d: "wk_id row \<notin> wk_id ` set (hub_workers db)" "db' = db\<lparr>hub_workers := hub_workers db @ [row]\<rparr>"
    using ins by (auto simp: insert_worker_def split: if_splits)
  have "count_where enrollment_used (hub_enrollments db) < count_where enrollment_used
      (update_where (\<lambda>x. en_id x = en_id e \<and> en_used x = None) (\<lambda>x. x\<lparr>en_used := Some now\<rparr>) (hub_enrollments db))"
    by (rule count_where_update_more[OF e(1)]) (simp_all add: e(2) enrollment_used_def)
  then have "length (hub_workers db) < count_where enrollment_used
      (update_where (\<lambda>x. en_id x = en_id e \<and> en_used x = None) (\<lambda>x. x\<lparr>en_used := Some now\<rparr>) (hub_enrollments db))"
    using ok by (simp add: workers_ok_def)
  moreover have "count_where live_common (hub_workers db @ [row]) \<le> 1"
    using ok common by (cases "live_common row") (simp_all add: count_where_def workers_ok_def)
  ultimately show ?thesis using ok d new by (auto simp: workers_ok_def use_enrollment_def)
qed

lemma Enroll_ok:
  assumes "Enroll E now token secret i db = (r, db')" and "workers_ok db"
  shows "workers_ok db'"
proof (cases r)
  case (Inl e)
  then have "db' = db" using assms(1)
    by (auto simp: Enroll_def seq_def split: sum.splits if_splits prod.splits dest: with_transaction_Inl)
  then show ?thesis using assms(2) by simp
next
  case (Inr x)
  then obtain w where "enrollBody E now token secret i db = (Inr w, db')"
    using assms(1) by (auto simp: Enroll_def seq_def with_transaction_Inr split: sum.splits if_splits prod.splits)
  then obtain e row u db1 where e: "find (open_enrollment E now token) (hub_enrollments db) = Some e"
    and ins: "insert_worker row (db\<lparr>sd_drawn := Suc (sd_drawn db)\<rparr>) = (Inr u, db1)"
    and row: "wk_id row = ulid_string (ulids (ws_speech E) (sd_drawn db))" "wk_presence row = ''{}''"
    and db': "db' = use_enrollment now (en_id e) db1"
    by (fastforce simp: enrollBody_def seq_def Let_def split: option.splits prod.splits sum.splits)
  have mem: "e \<in> set (hub_enrollments db)" "en_used e = None"
    using e by (auto simp: find_Some_iff open_enrollment_def)
  have ok: "workers_ok (db\<lparr>sd_drawn := Suc (sd_drawn db)\<rparr>)" using assms(2) by (simp add: workers_ok_def)
  show ?thesis unfolding db'
    by (rule enrolled_ok[OF ok _ mem(2) ins])
      (use mem(1) row legacy_presence(1)[OF row(2)] in \<open>auto simp: ulid_string_def zeroULID_def presence_ok_def live_common_def\<close>)
qed

lemma EnrollAilocals_ok:
  assumes "EnrollAilocals E now token secret request db = (r, db')" and "workers_ok db"
  shows "workers_ok db'"
proof (cases r)
  case (Inl e)
  then have "db' = db" using assms(1)
    by (auto simp: EnrollAilocals_def seq_def split: sum.splits if_splits prod.splits option.splits dest: with_transaction_Inl)
  then show ?thesis using assms(2) by simp
next
  case (Inr x)
  then obtain req cs rs w where b: "enrollAilocalsBody E now token secret req cs rs db = (Inr w, db')"
    using assms(1) by (auto simp: EnrollAilocals_def seq_def with_transaction_Inr split: sum.splits if_splits prod.splits option.splits)
  then have none: "\<not> (\<exists>w \<in> set (hub_workers db). wk_revoked w = None \<and> common_row w)"
    by (auto simp: enrollAilocalsBody_def split: if_splits)
  define grant where "grant = \<lparr>ap_protocol = LW_Protocol, ap_ids = Some (map ce_id (er_capabilities req)), ap_time = [], ap_capabilities = Some []\<rparr>"
  from b none obtain e row u db1 where e: "find (open_enrollment E now token) (hub_enrollments db) = Some e"
    and ins: "insert_worker row (db\<lparr>sd_drawn := Suc (sd_drawn db)\<rparr>) = (Inr u, db1)"
    and row: "wk_id row = ulid_string (ulids (ws_speech E) (sd_drawn db))" "wk_presence row = json_text (presence_json grant)"
    and db': "db' = use_enrollment now (en_id e) db1"
    by (fastforce simp: enrollAilocalsBody_def seq_def Let_def grant_def split: option.splits prod.splits sum.splits)
  have mem: "e \<in> set (hub_enrollments db)" "en_used e = None"
    using e by (auto simp: find_Some_iff open_enrollment_def)
  have ok: "workers_ok (db\<lparr>sd_drawn := Suc (sd_drawn db)\<rparr>)" using assms(2) by (simp add: workers_ok_def)
  have zero: "count_where live_common (hub_workers (db\<lparr>sd_drawn := Suc (sd_drawn db)\<rparr>)) = 0"
    using none by (auto simp: count_where_def live_common_def filter_empty_conv)
  have g: "ap_protocol grant = LW_Protocol" by (simp add: grant_def)
  show ?thesis unfolding db'
    by (rule enrolled_ok[OF ok _ mem(2) ins])
      (use mem(1) row zero g in \<open>auto simp: ulid_string_def zeroULID_def presence_ok_def\<close>)
qed

lemma CreateEnrollment_ok:
  assumes "CreateEnrollment E now token db = (r, db')" and "workers_ok db"
  shows "workers_ok db'"
  using assms
  by (auto simp: CreateEnrollment_def Let_def workers_ok_def count_where_def split: if_splits)

lemma Authenticate_same:
  assumes "Authenticate E now token db = (r, db')"
  shows "same_workers db db'"
  using assms by (auto simp: Authenticate_def Let_def split: if_splits sum.splits intro!: touch_same)

lemma AuthenticateAilocals_same:
  assumes "AuthenticateAilocals E now token db = (r, db')"
  shows "same_workers db db'"
  using assms
  by (auto simp: AuthenticateAilocals_def split: if_splits sum.splits option.splits prod.splits dest: Authenticate_same)

text \<open>A worker that authenticates on the common routes has a row with the marker.\<close>

lemma AuthenticateAilocals_common:
  assumes "AuthenticateAilocals E now token db = (Inr w, db')" and "workers_ok db"
  shows "\<exists>row \<in> set (hub_workers db'). wk_id row = ulid_string (wv_id w) \<and> common_row row"
proof -
  from assms(1) obtain p where a: "ailocalsPresence (wv_id w) db' = Inr (Some p)" "ap_protocol p = LW_Protocol"
    by (auto simp: AuthenticateAilocals_def unauthorized_def split: if_splits sum.splits option.splits prod.splits)
  have ok: "workers_ok db'" by (rule same_workers_ok[OF AuthenticateAilocals_same[OF assms(1)] assms(2)])
  from a(1) obtain row where row: "find_by wk_id (ulid_string (wv_id w)) (hub_workers db') = Some row" "read_presence (wk_presence row) = Some p"
    by (auto simp: ailocalsPresence_def split: option.splits)
  have mem: "row \<in> set (hub_workers db')" "wk_id row = ulid_string (wv_id w)" using find_by_Some[OF row(1)] by auto
  then consider "wk_presence row = ''{}''" | q where "wk_presence row = json_text (presence_json q)" "ap_protocol q = LW_Protocol"
    using ok by (auto simp: workers_ok_def presence_ok_def)
  then have "common_row row"
  proof cases
    case 1
    then have "p = zero_snapshot" using row(2) legacy_presence(2) by simp
    then show ?thesis using a(2) by (simp add: zero_snapshot_def LW_Protocol_def)
  next
    case 2
    then show ?thesis using presence_common[of q row] by (simp add: common_row_def)
  qed
  then show ?thesis using mem by blast
qed

lemma PresenceAilocals_effect:
  assumes "PresenceAilocals E now w request db = (r, db')"
  shows "db' = db \<or> (\<exists>p seen. ap_protocol p = LW_Protocol \<and> db' = update_worker (ulid_string (wv_id w))
      (\<lambda>q. q\<lparr>wk_presence := json_text (presence_json p), wk_seen := Some now, wk_relay_seen := seen, wk_updated := Some now\<rparr>) db)"
  using assms
  by (force simp: PresenceAilocals_def Let_def split: if_splits option.splits sum.splits)

lemma PresenceAilocals_ok:
  assumes "PresenceAilocals E now w request db = (r, db')" and "workers_ok db"
    and "\<exists>row \<in> set (hub_workers db). wk_id row = ulid_string (wv_id w) \<and> common_row row"
  shows "workers_ok db'"
proof (cases "db' = db")
  case False
  then obtain p seen where p: "ap_protocol p = LW_Protocol" and d: "db' = update_worker (ulid_string (wv_id w))
      (\<lambda>q. q\<lparr>wk_presence := json_text (presence_json p), wk_seen := Some now, wk_relay_seen := seen, wk_updated := Some now\<rparr>) db"
    using PresenceAilocals_effect[OF assms(1)] by blast
  let ?Q = "\<lambda>q. wk_id q = ulid_string (wv_id w) \<and> wk_revoked q = None"
  let ?f = "\<lambda>q. q\<lparr>wk_presence := json_text (presence_json p), wk_seen := Some now, wk_relay_seen := seen, wk_updated := Some now\<rparr>"
  obtain row where row: "row \<in> set (hub_workers db)" "wk_id row = ulid_string (wv_id w)" "common_row row" using assms(3) by blast
  have one: "x = row" if "x \<in> set (hub_workers db)" "?Q x" for x
    using that row assms(2) by (auto simp: workers_ok_def distinct_map inj_on_def)
  have h: "hub_workers db' = update_where ?Q ?f (hub_workers db)" "hub_enrollments db' = hub_enrollments db"
    by (simp_all add: d update_worker_def)
  have "count_where live_common (update_where ?Q ?f (hub_workers db)) \<le> count_where live_common (hub_workers db)"
    by (rule count_where_update_le) (use one row(3) in \<open>auto simp: live_common_def\<close>)
  moreover have "map wk_id (hub_workers db') = map wk_id (hub_workers db)" unfolding h(1) by (rule map_update_where_key) simp
  moreover have "presence_ok (json_text (presence_json p))" using p by (auto simp: presence_ok_def)
  ultimately show ?thesis using assms(2) h by (auto simp: workers_ok_def set_update_where)
qed (use assms(2) in simp)

lemma Revoke_ok:
  assumes "workers_ok db"
  shows "workers_ok (Revoke now wid db)"
proof -
  let ?Q = "\<lambda>q. wk_id q = ulid_string wid \<and> wk_revoked q = None"
  let ?f = "\<lambda>q. q\<lparr>wk_revoked := Some now, wk_updated := Some now\<rparr>"
  have h: "hub_workers (Revoke now wid db) = update_where ?Q ?f (hub_workers db)"
    "hub_enrollments (Revoke now wid db) = hub_enrollments db" by (simp_all add: Revoke_def update_worker_def Let_def)
  have "count_where live_common (update_where ?Q ?f (hub_workers db)) \<le> count_where live_common (hub_workers db)"
    by (rule count_where_update_le) (simp add: live_common_def)
  moreover have "map wk_id (update_where ?Q ?f (hub_workers db)) = map wk_id (hub_workers db)" by (rule map_update_where_key) simp
  ultimately show ?thesis using assms h by (auto simp: workers_ok_def set_update_where)
qed

lemma DeleteRevoked_ok:
  assumes "DeleteRevoked wid db = (r, db')" and "workers_ok db"
  shows "workers_ok db'"
proof -
  obtain P where "db' = db\<lparr>hub_workers := filter P (hub_workers db)\<rparr>"
    using assms(1)
    by (auto simp: DeleteRevoked_def deleteRevokedBody_def with_transaction_def intro: that[of "\<lambda>_. True"] split: option.splits if_splits)
  moreover have "count_where live_common (filter P xs) \<le> count_where live_common xs" for xs
    by (induction xs) (auto simp: count_where_def)
  moreover have "length (filter P (hub_workers db)) \<le> count_where enrollment_used (hub_enrollments db)"
    using assms(2) by (intro le_trans[OF length_filter_le]) (simp add: workers_ok_def)
  ultimately show ?thesis using assms(2) by (auto simp: workers_ok_def distinct_map_filter intro: le_trans)
qed

text \<open>Heartbeats, failures and claims of both protocols leave the workers alone.\<close>

lemma on_jobs_same: "on_jobs f db = (r, db') \<Longrightarrow> same_workers db db'"
  by (auto simp: on_jobs_def same_workers_def split: prod.splits)

lemma sched_same: "sched f db = (r, db') \<Longrightarrow> same_workers db db'"
  by (auto simp: sched_def split: prod.splits dest: on_jobs_same)

lemma touchRelayPresence_same [simp]: "same_workers db (touchRelayPresence now wid db)"
  unfolding touchRelayPresence_def by (rule touch_same) simp

lemma recompute_same: "same_workers db (recomputeRenderArticles now rid db)"
proof -
  have "same_workers db (fold (\<lambda>aid. recomputeNarrationStatusTx now (ulid_string aid)) as db)" for as
  proof (induction as arbitrary: db)
    case (Cons a as)
    have "same_workers db (recomputeNarrationStatusTx now (ulid_string a) db)"
      by (simp add: recomputeNarrationStatusTx_def same_workers_def Let_def split: prod.splits)
    then show ?case using Cons.IH same_workers_trans by simp blast
  qed simp
  then show ?thesis by (simp add: recomputeRenderArticles_def)
qed

lemma drop_render_same: "same_workers db (drop_render now rid code db)"
proof -
  have "same_workers db (snd (MarkRenderFailed now rid code db))"
    by (simp add: MarkRenderFailed_def fail_render_def update_render_def same_workers_def)
  then show ?thesis unfolding drop_render_def by (rule same_workers_trans[OF _ recompute_same])
qed

lemma Worker_Heartbeat_same: "Worker_Heartbeat E now w jid token i db = (r, db') \<Longrightarrow> same_workers db db'"
  by (auto simp: Worker_Heartbeat_def seq_def Let_def split: if_splits sum.splits prod.splits dest: sched_same
      intro: same_workers_trans[OF touchRelayPresence_same])

lemma Worker_Fail_same: "Worker_Fail E now w jid token i db = (r, db') \<Longrightarrow> same_workers db db'"
  by (auto simp: Worker_Fail_def failRelay_def fail_job_def seq_def Let_def split: if_splits sum.splits prod.splits option.splits
      dest: sched_same intro: same_workers_trans[OF touchRelayPresence_same] same_workers_trans[OF sched_same drop_render_same])

lemma HeartbeatAilocals_same: "HeartbeatAilocals E now w jid token request db = (r, db') \<Longrightarrow> same_workers db db'"
  by (auto simp: HeartbeatAilocals_def split: sum.splits prod.splits dest: Worker_Heartbeat_same)

lemma FailAilocals_same: "FailAilocals E now w jid token request db = (r, db') \<Longrightarrow> same_workers db db'"
  by (auto simp: FailAilocals_def split: sum.splits prod.splits dest: Worker_Fail_same)

text \<open>
  The calls on workers and enrollments.  A common client authenticates and then reports its presence; in between, and at any
  other time, operations that leave the workers alone may happen.
\<close>

inductive worker_step :: "worker_svc \<Rightarrow> speech_db \<Rightarrow> speech_db \<Rightarrow> bool" for E :: worker_svc where
  create: "CreateEnrollment E now token db = (rc, db') \<Longrightarrow> worker_step E db db'"
| enroll: "Enroll E now token secret i db = (re, db') \<Longrightarrow> worker_step E db db'"
| enroll_common: "EnrollAilocals E now token secret request db = (re, db') \<Longrightarrow> worker_step E db db'"
| authenticate: "Authenticate E now token db = (rw, db') \<Longrightarrow> worker_step E db db'"
| presence: "AuthenticateAilocals E now token db = (Inr w, db1) \<Longrightarrow> same_workers db1 db2 \<Longrightarrow>
    PresenceAilocals E t w snapshot db2 = (rp, db') \<Longrightarrow> worker_step E db db'"
| revoke: "worker_step E db (Revoke now wid db)"
| delete: "DeleteRevoked wid db = (ru, db') \<Longrightarrow> worker_step E db db'"
| other: "same_workers db db' \<Longrightarrow> worker_step E db db'"

lemma same_workers_common:
  assumes "same_workers a b" and "\<exists>row \<in> set (hub_workers a). wk_id row = i \<and> common_row row"
  shows "\<exists>row \<in> set (hub_workers b). wk_id row = i \<and> common_row row"
proof -
  let ?f = "\<lambda>w. (wk_id w, wk_revoked w, wk_presence w)"
  obtain row where row: "row \<in> set (hub_workers a)" "wk_id row = i" "common_row row" using assms(2) by blast
  have "?f row \<in> set (map ?f (hub_workers b))" using row(1) assms(1) by (simp add: same_workers_def)
  then show ?thesis using row(2,3) by (auto simp: common_row_def)
qed

lemma worker_step_ok:
  assumes "worker_step E db db'" and "workers_ok db"
  shows "workers_ok db'"
  using assms(1)
proof cases
  case (presence now token w db1 db2 t snapshot rp)
  have "workers_ok db1" by (rule same_workers_ok[OF AuthenticateAilocals_same[OF presence(1)] assms(2)])
  then have "workers_ok db2" by (rule same_workers_ok[OF presence(2)])
  then show ?thesis
    by (rule PresenceAilocals_ok[OF presence(3) _ same_workers_common[OF presence(2) AuthenticateAilocals_common[OF presence(1) assms(2)]]])
next
  case create
  then show ?thesis using assms(2) by (rule CreateEnrollment_ok)
next
  case enroll
  then show ?thesis using assms(2) by (rule Enroll_ok)
next
  case enroll_common
  then show ?thesis using assms(2) by (rule EnrollAilocals_ok)
next
  case authenticate
  then show ?thesis by (rule same_workers_ok[OF Authenticate_same assms(2)])
next
  case revoke
  then show ?thesis using Revoke_ok[OF assms(2)] by simp
next
  case delete
  then show ?thesis using assms(2) by (rule DeleteRevoked_ok)
next
  case other
  then show ?thesis using assms(2) by (rule same_workers_ok)
qed

definition no_workers :: "speech_db \<Rightarrow> bool" where
  "no_workers db \<longleftrightarrow> hub_workers db = []"

interpretation workers: invariant_system no_workers "worker_step E" workers_ok for E
proof
  show "no_workers s \<Longrightarrow> workers_ok s" for s by (simp add: no_workers_def workers_ok_def count_where_def)
  show "workers_ok s \<Longrightarrow> worker_step E s t \<Longrightarrow> workers_ok t" for s t by (rule worker_step_ok)
qed

text \<open>C8: one universal worker and one worker per enrollment.  In every database reached from one without workers by
  enrolling, authenticating, reporting presence, revoking and deleting, whatever the other operations do in between, at most
  one worker that is not revoked carries the marker of the common protocol, and there are at most as many workers as
  enrollments that were used.\<close>
theorem one_universal_worker:
  assumes "reach no_workers (worker_step E) db"
  shows "length (filter (\<lambda>w. wk_revoked w = None \<and> common_row w) (hub_workers db)) \<le> 1 \<and>
    length (hub_workers db) \<le> length (filter (\<lambda>e. en_used e \<noteq> None) (hub_enrollments db))"
proof -
  have e: "live_common = (\<lambda>w. wk_revoked w = None \<and> common_row w)" "enrollment_used = (\<lambda>e. en_used e \<noteq> None)"
    by (auto simp: live_common_def enrollment_used_def)
  show ?thesis using workers.reach_inv[OF assms] by (simp add: workers_ok_def count_where_def e)
qed

text \<open>An enrollment of a relay worker.\<close>

definition sample_enroll :: enroll_request where
  "sample_enroll = \<lparr>er_protocol = LW_Protocol, er_name = ''m'', er_software = ''1'', er_capabilities =
     [\<lparr>ce_id = CapabilityRelay, ce_category = ''llm'', ce_params = RelayParams \<lparr>ry_bytes = RelayCapabilityBytes, ry_operations = [''list_models'']\<rparr>\<rparr>]\<rparr>"

definition open_db :: speech_db where
  "open_db = run0\<lparr>sd_drawn := 1, hub_enrollments := [\<lparr>en_id = ''x'', en_token_hash = replicate 64 CHR ''0'', en_expires = Some 1800000, en_used = None\<rparr>]\<rparr>"

definition sample_grant :: ailocals_presence where
  "sample_grant = \<lparr>ap_protocol = LW_Protocol, ap_ids = Some [CapabilityRelay], ap_time = [], ap_capabilities = Some []\<rparr>"

definition sample_row :: worker_row where
  "sample_row = \<lparr>wk_id = ''xx'', wk_name = ''m'', wk_protocol = Speech_Protocol, wk_token_hash = replicate 64 CHR ''0'', wk_revoked = None,
     wk_seen = None, wk_capabilities = caps_json [], wk_software = ''1'', wk_relay_capabilities = relay_caps_json [\<lparr>rc_bytes = RelayCapabilityBytes\<rparr>],
     wk_relay_seen = None, wk_presence = json_text (presence_json sample_grant), wk_created = Some 1, wk_updated = Some 1\<rparr>"

definition enrolled_db :: speech_db where
  "enrolled_db = run0\<lparr>sd_drawn := 2, hub_workers := [sample_row],
     hub_enrollments := [\<lparr>en_id = ''x'', en_token_hash = replicate 64 CHR ''0'', en_expires = Some 1800000, en_used = Some 1\<rparr>]\<rparr>"

lemma sample_svc_parts: "ws_sha sample_worker_svc x = replicate 64 CHR ''0''" "ulids (ws_speech sample_worker_svc) n = replicate (Suc n) CHR ''x''"
  by (simp_all add: sample_worker_svc_def sample_svc_def run_env_def)

lemma open_reached: "CreateEnrollment sample_worker_svc 0 ''e'' run0 = (Inr (''x'', ''e'', 1800000), open_db)"
  by (simp add: CreateEnrollment_def Let_def sample_svc_parts open_db_def run0_def run_db_def EnrollmentLifetime_def ulid_string_def)

lemma sample_enroll_valid: "ValidateEnrollRequest (Some sample_enroll) = Inr ()"
  by (simp add: ValidateEnrollRequest_def sample_enroll_def validateProtocolVersion_def ascii_runes byte_def software_version_ok_def
      MaxWorkerNameScalars_def LW_MaxCapabilities_def validateCapabilityEntry_def validCapabilityID_def capabilityCategory_def
      CapabilityRelay_def CapabilityACE_def CapabilityAppleSpeech_def CapabilityChatterbox_def validateRelayParameters_def
      RelayCapabilityBytes_def MaxCompletionBytes_def PayloadMaxBytes_def)

lemma sample_trim: "trim_space ''m'' = ''m''" "trim_space ''1'' = ''1''" "\<not> blank ''e''"
  by (rule trim_space_ends, rule refl, simp_all add: byte_def is_space_def, rule trim_space_ends, rule refl)
    (simp_all add: byte_def is_space_def ascii_blank)

lemma enroll_reached: "snd (EnrollAilocals sample_worker_svc 1 ''e'' ''c'' (Some sample_enroll) open_db) = enrolled_db"
proof -
  have g: "map_res grant_entry (er_capabilities sample_enroll) = Inr [([], [\<lparr>rc_bytes = RelayCapabilityBytes\<rparr>])]"
    by (simp add: sample_enroll_def grant_entry_def CapabilityRelay_def CapabilityAppleSpeech_def CapabilityChatterbox_def)
  have b: "enrollAilocalsBody sample_worker_svc 1 ''e'' ''c'' sample_enroll [] [\<lparr>rc_bytes = RelayCapabilityBytes\<rparr>] open_db =
     (Inr \<lparr>wv_id = ''xx'', wv_name = ''m'', wv_protocol = Speech_Protocol, wv_revoked = None, wv_seen = None,
        wv_capabilities = [], wv_software = ''1'', wv_created = Some 1, wv_updated = Some 1, wv_relay = [\<lparr>rc_bytes = RelayCapabilityBytes\<rparr>],
        wv_relay_seen = None\<rparr>, enrolled_db)"
    by (simp add: enrollAilocalsBody_def open_db_def run0_def run_db_def open_enrollment_def constantTokenMatch_def sample_svc_parts
        Let_def seq_def insert_worker_def use_enrollment_def enrolled_db_def sample_row_def sample_grant_def sample_enroll_def
        ulid_string_def sample_trim update_where_def numeral_2_eq_2)
  show ?thesis by (simp add: EnrollAilocals_def sample_trim sample_enroll_valid g seq_def with_transaction_def b del: One_nat_def)
qed

lemma enrolled_reached: "reach no_workers (worker_step sample_worker_svc) enrolled_db"
proof -
  have r: "reach no_workers (worker_step sample_worker_svc) run0"
    by (rule reach_init) (simp add: no_workers_def run0_def run_db_def)
  have s: "worker_step sample_worker_svc open_db enrolled_db"
    by (rule worker_step.enroll_common[where token = "''e''" and secret = "''c''" and request = "Some sample_enroll" and now = 1])
      (use enroll_reached in \<open>simp add: prod_eq_iff\<close>)
  show ?thesis by (rule reach_step[OF reach_step[OF r worker_step.create[OF open_reached]] s])
qed

theorem one_universal_worker_witness:
  "length (filter (\<lambda>w. wk_revoked w = None \<and> common_row w) (hub_workers enrolled_db)) \<le> 1 \<and> length (hub_workers enrolled_db) = 1"
  using one_universal_worker[OF enrolled_reached] by (simp add: enrolled_db_def)

end
