(* ===== verification/Workers_Speech.thy ===== *)
theory Workers_Speech
  imports Workers_Props
begin

text \<open>
  Speech jobs through the worker service: the payload the speech store writes is read back by the service, what is queued is
  served to a capable worker, and what becomes of a completion that is sent again.
\<close>

section \<open>The payload of a speech job\<close>

definition int64 :: "int \<Rightarrow> bool" where
  "int64 i \<longleftrightarrow> - (2 ^ 63) \<le> i \<and> i < 2 ^ 63"

lemma dec_int_of_int64 [simp]: "int64 i \<Longrightarrow> dec_int old (json_of_int i) = Some i"
  by (simp add: int64_def)

definition profile_fits :: "speech_profile \<Rightarrow> bool" where
  "profile_fits p \<longleftrightarrow> list_all valid_utf8 [pf_id p, pf_engine p, pf_model p, pf_language p, pf_voice p, pf_reference p, pf_mapping p,
     pf_mime p, pf_codec p, pf_created p, pf_updated p] \<and> list_all int64 [pf_speed p, pf_pitch p, pf_rate p, pf_channels p]"

definition payload_fits :: "job_payload \<Rightarrow> bool" where
  "payload_fits j \<longleftrightarrow> list_all valid_utf8 [jp_protocol j, jp_render j, jp_request j, jp_unit j, jp_type j, jp_language j, jp_kind j,
     jp_text j, jp_context j, jp_expires j] \<and> profile_fits (jp_profile j) \<and>
     int64 (al_bytes (jp_limits j)) \<and> int64 (al_duration (jp_limits j))"

lemma payload_names [simp]:
  "valid_utf8 ''id''" "valid_utf8 ''engine''" "valid_utf8 ''model_revision''" "valid_utf8 ''language''" "valid_utf8 ''voice_identifier''"
  "valid_utf8 ''reference_audio_hash''" "valid_utf8 ''speed_milli''" "valid_utf8 ''pitch_cents''" "valid_utf8 ''mapping_version''"
  "valid_utf8 ''mime_type''" "valid_utf8 ''codec''" "valid_utf8 ''sample_rate_hz''" "valid_utf8 ''channels''" "valid_utf8 ''active''"
  "valid_utf8 ''created_at''" "valid_utf8 ''updated_at''" "valid_utf8 ''render_id''" "valid_utf8 ''request_hash''"
  "valid_utf8 ''speech_unit_id''" "valid_utf8 ''job_type''" "valid_utf8 ''unit_kind''" "valid_utf8 ''spoken_text''"
  "valid_utf8 ''context_pronunciation_key''" "valid_utf8 ''profile''" "valid_utf8 ''max_bytes''" "valid_utf8 ''max_duration_ms''"
  "valid_utf8 ''expires_at''"
  by (rule ascii_name, simp add: byte_def)+

lemma dec_profile:
  assumes "profile_fits p"
  shows "dec_struct True profile_fields old (profile_json p) = Some p"
  using assms by (cases p) (simp add: profile_fits_def profile_json_def profile_fields_def dec_simps)

lemma dec_audio_limits:
  assumes "int64 (al_bytes l)" and "int64 (al_duration l)"
  shows "dec_struct True audio_limit_fields old (obj [(''max_bytes'', json_of_int (al_bytes l)), (''max_duration_ms'', json_of_int (al_duration l))]) = Some l"
  using assms by (cases l) (simp add: audio_limit_fields_def dec_simps)

lemma dec_payload:
  assumes "payload_fits j"
  shows "dec_struct True payload_fields zero_payload (payload_json_of j) = Some j"
proof -
  define L where "L = obj [(''max_bytes'', json_of_int (al_bytes (jp_limits j))), (''max_duration_ms'', json_of_int (al_duration (jp_limits j)))]"
  have l: "dec_struct True audio_limit_fields old L = Some (jp_limits j)" for old
    unfolding L_def by (rule dec_audio_limits) (use assms in \<open>simp_all add: payload_fits_def\<close>)
  have p: "dec_struct True profile_fields old (profile_json (jp_profile j)) = Some (jp_profile j)" for old
    by (rule dec_profile) (use assms in \<open>simp add: payload_fits_def\<close>)
  show ?thesis
    unfolding payload_json_of_def L_def[symmetric] using assms l p
    by (cases "jp_expires j = []"; cases j)
      (simp add: payload_fits_def payload_fields_def dec_struct_obj unquote_escape find_field_def dec_members.simps(2) zero_payload_def omit_empty_def)+
qed

lemma decode_written: "payload_fits j \<Longrightarrow> decode_payload (json_text (payload_json_of j)) = Some j"
  using dec_payload json_text_parse[OF payload_ok] by (simp add: decode_payload_def decodeStrict_def)

text \<open>C36: the payload of a speech job is read back as it was written.  The worker service decodes the text the speech store
  puts into the job table to exactly the values it was written from, when its strings are UTF-8 and its numbers are int64.\<close>
theorem speech_payload_roundtrip:
  assumes "payload_fits j"
  shows "decode_payload (json_text (payload_json_of j)) = Some j"
  by (rule decode_written[OF assms])

section \<open>A failed completion\<close>

lemma render_calls_keep_jobs [simp]:
  "hub_jobs (snd (SetRenderGenerating now rid db)) = hub_jobs db" "hub_jobs (snd (MarkRenderFailed now rid code db)) = hub_jobs db"
  by (auto simp: SetRenderGenerating_def MarkRenderFailed_def fail_render_def update_render_def Let_def split: if_splits option.splits)

lemma tokenless_fail: "fail_job E now jid attempt [] code retry db = (r, db') \<Longrightarrow> db' = db"
  by (auto simp: fail_job_def sched_def on_jobs_def Jobs.Fail_def finish_def split: if_splits)

lemma give_up_tokenless: "hub_jobs (give_up E now rid j attempt [] code retry db) = hub_jobs db"
  unfolding give_up_def
  by (cases "fail_job E now (job_id j) attempt [] code retry (snd (MarkRenderFailed now rid code db))")
    (auto dest!: tokenless_fail)

lemma commit_prepared_Inl: "commit_prepared io f db = (Inl e, db') \<Longrightarrow> \<not> io_late io \<Longrightarrow> db' = db"
  by (auto simp: commit_prepared_def dest: with_transaction_Inl split: if_splits prod.splits sum.splits)

text \<open>C28: a failed speech completion of the common protocol leaves the job leased.  Whenever it returns an error, unless the
  commit took effect all the same, the jobs are exactly as before: the failure meant to be recorded when the audio cannot be prepared carries no lease token and is
  refused, and when the commit fails only the render is marked.\<close>
theorem failed_common_completion_keeps_lease:
  assumes "completeSpeechCommon E io now j a attempt audio digest token db = (Inl e, db')" and "\<not> io_late io"
  shows "hub_jobs db' = hub_jobs db"
proof -
  have mark: "hub_jobs s = hub_jobs db" if "SetRenderGenerating now rid db = (r, s)" for rid r s
    using arg_cong[OF that, of "hub_jobs \<circ> snd"] by simp
  from assms show ?thesis
    by (auto simp: completeSpeechCommon_def seq_def speech_call_def give_up_tokenless
        split: if_splits option.splits sum.splits prod.splits dest!: commit_prepared_Inl mark)
qed

section \<open>A completion that is sent again\<close>

text \<open>What a successful publication did: the digest is bound to the render of the request, and the job's row succeeded with the
  digest of the result.\<close>

lemma MarkRenderReadyTx_effect:
  assumes "MarkRenderReadyTx now rid request digest m db = (Inr (), db')" and "audio_ok db"
    and "\<forall>r. find_by rn_id (ulid_string rid) (sd_renders db) = Some r \<and> rn_hash r = request \<longrightarrow> rn_state r \<in> {RenderQueued, RenderGenerating}"
  shows "map_of (sd_blobs db') (ulid_string rid) = Some digest"
    and "\<exists>r. find_by rn_hash request (sd_renders db') = Some r \<and> rn_id r = ulid_string rid \<and> rn_size r = am_size m"
    and "hub_jobs db' = hub_jobs db"
proof -
  let ?rid = "ulid_string rid"
  from assms(1) obtain r where r: "find_by rn_id ?rid (sd_renders db) = Some r" "rn_hash r = request"
    by (auto simp: MarkRenderReadyTx_def Let_def split: if_splits option.splits)
  have mem: "r \<in> set (sd_renders db)" "rn_id r = ?rid" using find_by_Some[OF r(1)] by auto
  have st: "rn_state r \<in> {RenderQueued, RenderGenerating}" using assms(3) r by blast
  obtain P keep where P: "sd_renders db' = update_where (\<lambda>q. rn_id q = ?rid \<and> P q) (ready_row now m keep) (sd_renders db)" "P r"
    and b: "map_of (sd_blobs db') ?rid = Some digest" and j: "hub_jobs db' = hub_jobs db"
    using assms(1) st r
    by (auto simp: MarkRenderReadyTx_def Let_def update_render_def map_add_def split: if_splits option.splits
        intro: that[of "\<lambda>q. rn_hash q = request" True] that[of "\<lambda>q. rn_hash q = request \<and> rn_state q \<in> {RenderQueued, RenderGenerating, RenderReady}" False])
  show "map_of (sd_blobs db') ?rid = Some digest" "hub_jobs db' = hub_jobs db" by (rule b, rule j)
  have "find_by rn_hash request (sd_renders db) = Some r"
    using find_by_unique[of rn_hash "sd_renders db" r] assms(2) mem(1) r(2) by (simp add: audio_ok_def)
  then have "find_by rn_hash request (sd_renders db') = Some (ready_row now m keep r)"
    unfolding P(1) by (subst find_by_update_where) (simp_all add: ready_row_def P(2) mem(2))
  then show "\<exists>q. find_by rn_hash request (sd_renders db') = Some q \<and> rn_id q = ?rid \<and> rn_size q = am_size m"
    by (simp add: ready_row_def mem(2))
qed

lemma map_sum_Inr_conv: "map_sum f id x = Inr y \<longleftrightarrow> x = Inr y"
  by (cases x) auto

lemma publish_effect:
  assumes "publish E now rid request digest m jid attempt token db = (Inr (), db')" and "audio_ok db"
    and "\<forall>r. find_by rn_id (ulid_string rid) (sd_renders db) = Some r \<and> rn_hash r = request \<longrightarrow> rn_state r \<in> {RenderQueued, RenderGenerating}"
    and "find_by job_id (ulid_string jid) (job_table (hub_jobs db)) = Some j" and "job_state j \<noteq> Succeeded"
  shows "map_of (sd_blobs db') (ulid_string rid) = Some digest"
    and "\<exists>r. find_by rn_hash request (sd_renders db') = Some r \<and> rn_id r = ulid_string rid \<and> rn_size r = am_size m"
    and "find_by job_id (ulid_string jid) (job_table (hub_jobs db')) = Some (succeed_row now j)"
proof -
  from assms(1) obtain dm where mark: "MarkRenderReadyTx now rid request digest m db = (Inr (), dm)"
    and c: "sched (CompleteTx (ws_sha E) jid attempt token now now now) dm = (Inr (), db')"
    by (auto simp: publish_def split: sum.splits prod.splits speech_fault.splits)
  note eff = MarkRenderReadyTx_effect[OF mark assms(2,3)]
  from c obtain jb where ct: "CompleteTx (ws_sha E) jid attempt token now now now (hub_jobs dm) = (Inr (), jb)" and db': "db' = dm\<lparr>hub_jobs := jb\<rparr>"
    by (auto simp: sched_def on_jobs_def map_sum_Inr_conv split: prod.splits)
  show "map_of (sd_blobs db') (ulid_string rid) = Some digest"
    "\<exists>r. find_by rn_hash request (sd_renders db') = Some r \<and> rn_id r = ulid_string rid \<and> rn_size r = am_size m"
    using eff(1,2) db' by simp_all
  have jb: "jb = (hub_jobs dm)\<lparr>job_table := update_where (attempt_row (ws_sha E) jid attempt token) (succeed_row now) (job_table (hub_jobs dm))\<rparr>"
    "attempt_row (ws_sha E) jid attempt token j"
    using CompleteTx_effect[OF ct] assms(4,5) eff(3) by auto
  have "find_by job_id (ulid_string jid) (job_table jb) = Some (succeed_row now j)"
    using assms(4) eff(3) jb(2) unfolding jb(1)
    by simp (subst find_by_update_where, simp_all add: succeed_row_def)
  then show "find_by job_id (ulid_string jid) (job_table (hub_jobs db')) = Some (succeed_row now j)" by (simp add: db')
qed

lemma recompute_keeps:
  "hub_jobs (recomputeRenderArticles now rid db) = hub_jobs db \<and> sd_renders (recomputeRenderArticles now rid db) = sd_renders db \<and>
   sd_blobs (recomputeRenderArticles now rid db) = sd_blobs db"
proof -
  have "hub_jobs (fold (\<lambda>aid. recomputeNarrationStatusTx now (ulid_string aid)) as db) = hub_jobs db \<and>
    sd_renders (fold (\<lambda>aid. recomputeNarrationStatusTx now (ulid_string aid)) as db) = sd_renders db \<and>
    sd_blobs (fold (\<lambda>aid. recomputeNarrationStatusTx now (ulid_string aid)) as db) = sd_blobs db" for as
    by (induction as arbitrary: db) (simp_all add: recomputeNarrationStatusTx_def split: prod.split)
  then show ?thesis by (simp add: recomputeRenderArticles_def)
qed

lemma generating_state:
  assumes "SetRenderGenerating now rid db = (Inr (), db')" and "audio_ok db"
    and "find_by rn_id (ulid_string rid) (sd_renders db') = Some r"
  shows "rn_state r = RenderGenerating \<or> (rn_state r = RenderReady \<and> db' = db)"
proof -
  let ?P = "\<lambda>r. rn_state r \<in> {RenderQueued, RenderFailed, RenderGenerating}"
  let ?f = "\<lambda>r. r\<lparr>rn_state := RenderGenerating, rn_error := [], rn_updated := Some now\<rparr>"
  show ?thesis
  proof (cases "count_where (\<lambda>r. rn_id r = ulid_string rid \<and> ?P r) (sd_renders db) = 0")
    case True
    then show ?thesis using assms(1,3) by (auto simp: SetRenderGenerating_def Let_def split: if_splits option.splits)
  next
    case False
    then have d: "sd_renders db' = update_where (\<lambda>r. rn_id r = ulid_string rid \<and> ?P r) ?f (sd_renders db)"
      using assms(1) by (auto simp: SetRenderGenerating_def update_render_def Let_def)
    obtain q where q: "q \<in> set (sd_renders db)" "rn_id q = ulid_string rid" "?P q" using False unfolding count_where_0 by blast
    have "find_by rn_id (ulid_string rid) (sd_renders db) = Some q"
      using find_by_unique[of rn_id "sd_renders db" q] q assms(2) by (simp add: audio_ok_def)
    then have "find_by rn_id (ulid_string rid) (sd_renders db') = Some (?f q)"
      unfolding d by (subst find_by_update_where) (use q in auto)
    then show ?thesis using assms(3) by auto
  qed
qed

lemma generating_jobs: "SetRenderGenerating now rid db = (r, db') \<Longrightarrow> hub_jobs db' = hub_jobs db"
  by (auto simp: SetRenderGenerating_def update_render_def Let_def split: if_splits option.splits)

text \<open>C15: the identical retry of an accepted speech completion.  After the first success for a render that had no audio yet,
  the same call with the same parts succeeds again without effect if the artifact's metadata declares the digest of the bytes,
  and is refused as conflicting with the accepted result otherwise; the first call does not compare the two.\<close>
theorem speech_completion_retry:
  assumes "CompleteAilocals E io now w jid token (Some md) artifact result db = (Inr (), db')"
    and "Get jid (hub_jobs db) = Inr j" and "job_state j \<noteq> Succeeded" and "job_type j \<noteq> LLMRelayJobType"
    and "decodeAilocalsTtsResult result = Inr a" and "audio_ok db"
    and "\<forall>r \<in> set (sd_renders db). rn_hash r = am_request a \<longrightarrow> rn_state r \<noteq> RenderReady"
  shows "CompleteAilocals E io' now' w' jid token' (Some md) artifact result db' =
    (if ws_sha E (case artifact of None \<Rightarrow> [] | Some b \<Rightarrow> b) = am_sha a then Inr () else Inl conflict, db')"
proof -
  define audio where "audio = (case artifact of None \<Rightarrow> [] | Some b \<Rightarrow> b)"
  have valid: "ValidateCompleteMetadata (Some md) = Inr ()"
    using assms(1) by (cases "ValidateCompleteMetadata (Some md)") (auto simp: CompleteAilocals_def)
  from assms(1-5) have first: "completeSpeechCommon E io now j a (cm_attempt md) audio (cm_sha md) token db = (Inr (), db')"
    by (auto simp: CompleteAilocals_def Let_def audio_def valid split: if_splits sum.splits)
  then obtain p rid db1 db2 where p: "decode_payload (payload_json j) = Some p" "am_request a = jp_request p" "input_hash j = jp_request p"
      "int (length audio) = am_size a"
    and gen: "SetRenderGenerating now rid db = (Inr (), db1)"
    and commit: "commit_prepared io (\<lambda>s. seq (publish E now rid (jp_request p) (ws_sha E audio) a (job_id j) (cm_attempt md) token s)
         (\<lambda>_ s'. (Inr (), writeAilocalsDigestTx (job_id j) (cm_sha md) s'))) db1 = (Inr (), db2)"
    and db': "db' = recomputeRenderArticles now rid db2"
    by (auto simp: completeSpeechCommon_def seq_def speech_call_def map_sum_Inr_conv split: if_splits option.splits sum.splits prod.splits)
  from commit obtain s where pub: "publish E now rid (jp_request p) (ws_sha E audio) a (job_id j) (cm_attempt md) token db1 = (Inr (), s)"
    and db2: "db2 = writeAilocalsDigestTx (job_id j) (cm_sha md) s"
    by (auto simp: commit_prepared_def with_transaction_Inr seq_def split: if_splits sum.splits prod.splits)
  have j: "find_by job_id (ulid_string jid) (job_table (hub_jobs db)) = Some j" "job_id j = ulid_string jid"
    using assms(2) by (auto simp: Get_def split: option.splits dest: find_by_Some)
  have jid: "ulid_string (job_id j) = ulid_string jid" using j(2) by (simp add: ulid_string_def zeroULID_def)
  have ok1: "audio_ok db1" using fine_generating[of False db now rid] gen assms(6) by (simp add: fine_def)
  have st: "\<forall>r. find_by rn_id (ulid_string rid) (sd_renders db1) = Some r \<and> rn_hash r = jp_request p \<longrightarrow>
      rn_state r \<in> {RenderQueued, RenderGenerating}"
    using generating_state[OF gen assms(6)] assms(7) p(2) by (auto dest: find_by_Some)
  have j1: "find_by job_id (ulid_string (job_id j)) (job_table (hub_jobs db1)) = Some j"
    using j(1) jid generating_jobs[OF gen] by simp
  note eff = publish_effect[OF pub ok1 st j1 assms(3)]
  let ?k = "(succeed_row now j)\<lparr>ailocals_result_sha256 := cm_sha md\<rparr>"
  have "find_by job_id (ulid_string jid) (job_table (hub_jobs db2)) = Some ?k"
    using eff(3) jid unfolding db2 writeAilocalsDigestTx_def
    by simp (subst find_by_update_where, simp_all add: succeed_row_def j(2))
  then have get: "Get jid (hub_jobs db') = Inr ?k" by (simp add: Get_def db' recompute_keeps)
  obtain r where r: "find_by rn_hash (jp_request p) (sd_renders db') = Some r" "rn_id r = ulid_string rid" "rn_size r = am_size a"
    using eff(2) by (auto simp: db' recompute_keeps db2 writeAilocalsDigestTx_def)
  have b: "map_of (sd_blobs db') (ulid_string rid) = Some (ws_sha E audio)"
    using eff(1) by (simp add: db' recompute_keeps db2 writeAilocalsDigestTx_def)
  have k: "job_state ?k = Succeeded" "ailocals_result_sha256 ?k = cm_sha md" "job_type ?k = job_type j" "input_hash ?k = jp_request p"
    by (simp_all add: succeed_row_def p(3))
  have v: "verifyAilocalsRepeatedCompletion E ?k (cm_sha md) audio result db' =
      (if ws_sha E audio = am_sha a then Inr () else Inl conflict)"
    using k assms(4,5) r b p(4) by (simp add: verifyAilocalsRepeatedCompletion_def repeated_speech_def)
  show ?thesis using get k(1) v by (simp add: CompleteAilocals_def valid audio_def)
qed

section \<open>An upload\<close>

definition up_id :: string where "up_id = replicate 26 CHR ''A''"

definition up_render :: render where
  "up_render = new_render up_id 1 run_unit run_cb ''h'' RetentionNarration"

definition up_payload :: job_payload where
  "up_payload = speech_payload up_render run_unit run_cb ChatterboxJobType"

definition up_job :: job where
  "up_job = lease_row ''w'' (replicate 64 CHR ''0'') 2 90002
     (row_of_spec ((speech_spec up_render run_unit run_cb ChatterboxJobType 70)\<lparr>spec_id := ''j'', spec_available_at := Some 1, spec_max_attempts := 3\<rparr>) 1 1)"

definition up_db :: speech_db where
  "up_db = run_db [up_job] [run_unit] [run_av, run_cb] [up_render] [] [] [] 5"

definition up_audio :: string where "up_audio = ''xxxxftyp''"

text \<open>The artifact declares a digest that is not the one of its bytes.\<close>

definition up_artifact :: artifact_metadata where
  "up_artifact = \<lparr>am_request = ''h'', am_sha = replicate 64 CHR ''1'', am_size = 8, am_mime = AudioMIME, am_codec = AudioCodec,
     am_rate = AudioSampleRate, am_channels = AudioChannels, am_duration = 1\<rparr>"

definition artifact_json :: "artifact_metadata \<Rightarrow> json" where
  "artifact_json a = obj [(''request_hash'', json_str (am_request a)), (''sha256'', json_str (am_sha a)), (''size_bytes'', json_of_int (am_size a)),
     (''mime_type'', json_str (am_mime a)), (''codec'', json_str (am_codec a)), (''sample_rate_hz'', json_of_int (am_rate a)),
     (''channels'', json_of_int (am_channels a)), (''duration_ms'', json_of_int (am_duration a))]"

definition up_result :: string where
  "up_result = json_text (obj [(''artifact'', artifact_json up_artifact)])"

lemma artifact_names [simp]: "valid_utf8 ''artifact''" "valid_utf8 ''sha256''" "valid_utf8 ''size_bytes''" "valid_utf8 ''duration_ms''"
  by (rule ascii_name, simp add: byte_def)+

lemma dec_artifact:
  assumes "list_all valid_utf8 [am_request a, am_sha a, am_mime a, am_codec a]" and "list_all int64 [am_size a, am_rate a, am_channels a, am_duration a]"
  shows "dec_struct True artifact_fields old (artifact_json a) = Some a"
  using assms by (cases a) (simp add: artifact_json_def artifact_fields_def dec_simps)

lemma up_artifact_text: "valid_utf8 ''h''" "valid_utf8 (replicate 64 CHR ''1'')" "valid_utf8 AudioMIME" "valid_utf8 AudioCodec"
  by (rule ascii_name, simp add: byte_def AudioMIME_def AudioCodec_def list_all_iff)+

lemma up_result_length: "length up_result \<le> 3000"
proof -
  have n: "length (json_text (json_of_int 8)) \<le> 9" "length (json_text (json_of_int 24000)) \<le> 9" "length (json_text (json_of_int 1)) \<le> 9"
    by (simp_all add: json_of_int_def decimal.simps)
  show ?thesis
    using escape_length[of "''artifact''"] escape_length[of "''request_hash''"] escape_length[of "''sha256''"] escape_length[of "''size_bytes''"]
      escape_length[of "''mime_type''"] escape_length[of "''codec''"] escape_length[of "''sample_rate_hz''"] escape_length[of "''channels''"]
      escape_length[of "''duration_ms''"] json_str_length[of "''h''"] json_str_length[of "replicate 64 CHR ''1''"] json_str_length[of "''audio/mp4''"]
      json_str_length[of "''aac-lc''"] n
    by (simp add: up_result_def artifact_json_def up_artifact_def obj_text commas_Cons AudioMIME_def AudioCodec_def AudioSampleRate_def
        AudioChannels_def)
qed

lemma up_decoded: "decodeAilocalsTtsResult up_result = Inr up_artifact"
proof -
  let ?j = "obj [(''artifact'', artifact_json up_artifact)]"
  have d: "dec_struct True artifact_fields old (artifact_json up_artifact) = Some up_artifact" for old
    by (rule dec_artifact) (simp_all add: up_artifact_def up_artifact_text int64_def AudioSampleRate_def AudioChannels_def)
  have nn: "\<exists>ms. artifact_json up_artifact = JObj ms" by (simp add: artifact_json_def obj_def)
  have "json_ok 0 ?j" by (simp add: json_ok_obj artifact_json_def)
  moreover have "num_stop []" by (simp add: num_stop_def)
  ultimately have r: "json_read up_result = Some (?j, [])" using json_text_read[of ?j "[]"] by (simp add: up_result_def)
  have s: "dec_struct True [field ''artifact'' (\<lambda>r. r) (\<lambda>v r. v) (dec_pointer zero_artifact (dec_struct True artifact_fields))] None ?j = Some (Some up_artifact)"
    using d nn by (auto simp: dec_simps dec_pointer_def)
  have "up_result \<noteq> []" by (simp add: up_result_def obj_def)
  then show ?thesis using up_result_length r s by (simp add: decodeAilocalsTtsResult_def ResultMaxBytes_def)
qed

lemma up_texts:
  "valid_utf8 ''nl''" "valid_utf8 ''ja''" "valid_utf8 ''xx''" "valid_utf8 ''xxx''" "valid_utf8 ''t''" "valid_utf8 up_id"
  "valid_utf8 Speech_Protocol" "valid_utf8 ChatterboxJobType" "valid_utf8 UnitSentence" "valid_utf8 ChatterboxEngine"
  "valid_utf8 ''03565773edd72e949572557597af8063bb49a18a''" "valid_utf8 ''doublangu-nl-reference-v1''"
  "valid_utf8 ''1dd25cc2ea1aa8314af2ce2f062eb44beeb662482516177e098f58f6b6ce10f5''" "valid_utf8 ''mlx-audio-chatterbox.v1''"
  by (rule ascii_name, simp add: byte_def up_id_def Speech_Protocol_def ChatterboxJobType_def UnitSentence_def ChatterboxEngine_def list_all_iff)+

lemma up_payload_fits: "payload_fits up_payload"
  by (simp add: payload_fits_def profile_fits_def up_payload_def speech_payload_def up_render_def new_render_def run_unit_def run_cb_def
      chatterbox_default_def default_profile_def up_texts up_artifact_text int64_def Speech_Types.Limits_def AudioSampleRate_def
      AudioChannels_def ulid_string_def) (simp add: up_id_def)

lemma up_job_parts [simp]:
  "job_id up_job = ''j''" "job_type up_job = ChatterboxJobType" "input_hash up_job = ''h''" "job_state up_job = Leased"
  "payload_json up_job = json_text (payload_json_of up_payload)" "attempt_count up_job = 1" "lease_owner up_job = ''w''"
  "lease_token_hash up_job = replicate 64 CHR ''0''" "lease_expires_at up_job = Some 90002"
  by (simp_all add: up_job_def lease_row_def row_of_spec_def speech_spec_def up_payload_def up_render_def new_render_def ulid_string_def)

lemma up_payload_parts [simp]: "jp_request up_payload = ''h''" "jp_render up_payload = up_id" "jp_kind up_payload = UnitSentence"
  by (simp_all add: up_payload_def speech_payload_def up_render_def new_render_def run_unit_def ulid_string_def up_id_def)

lemma up_parse: "ParseULID (ulid_parse (ws_relay sample_worker_svc)) up_id = Inr up_id"
proof -
  have "up_id = CHR ''A'' # replicate 25 CHR ''A''" by (simp add: up_id_def numeral_eq_Suc)
  from trim_space_ends[OF this] have "trim_space up_id = up_id" by (simp add: up_id_def byte_def is_space_def)
  moreover have "\<not> has_lowercase up_id" by (simp add: up_id_def has_lowercase_def byte_def)
  ultimately show ?thesis by (simp add: ParseULID_def sample_worker_svc_def sample_svc_def) (simp add: up_id_def)
qed

lemma up_valid: "ValidateArtifact (speech_env.truncate (ws_speech sample_worker_svc)) up_artifact 8 up_audio ''h'' UnitSentence = Inr ()"
  by (simp add: ValidateArtifact_def up_artifact_def sample_worker_svc_def run_env_def speech_env.truncate_def up_audio_def
      Speech_Types.Limits_def AudioMIME_def AudioCodec_def AudioSampleRate_def AudioChannels_def)

lemma up_sizes [simp]: "am_request up_artifact = ''h''" "am_size up_artifact = 8" "length up_audio = 8" "up_audio \<noteq> []"
    "am_sha up_artifact = replicate 64 CHR ''1''" "am_duration up_artifact = 1"
  by (simp_all add: up_artifact_def up_audio_def)

definition up_db1 :: speech_db where
  "up_db1 = up_db\<lparr>sd_renders := [up_render\<lparr>rn_state := RenderGenerating, rn_error := [], rn_updated := Some 5\<rparr>]\<rparr>"

lemma up_render_parts [simp]: "rn_id up_render = up_id" "rn_state up_render = RenderQueued" "rn_hash up_render = ''h''"
  by (simp_all add: up_render_def new_render_def)

lemma up_ulid [simp]: "ulid_string up_id = up_id"
  by (simp add: ulid_string_def up_id_def)

lemma up_generating: "SetRenderGenerating 5 up_id up_db = (Inr (), up_db1)"
  by (simp add: SetRenderGenerating_def up_db_def run_db_def count_where_def update_render_def update_where_def Let_def up_db1_def)

lemma up_common:
  "completeSpeechCommon sample_worker_svc io 5 up_job up_artifact 1 up_audio digest ''t'' up_db =
    (if \<not> io_prepare io then (Inl MediaFailed, give_up sample_worker_svc 5 up_id up_job 1 [] ''v1.audio_upload_failed'' True up_db1)
     else (case commit_prepared io (\<lambda>s. seq (publish sample_worker_svc 5 up_id ''h'' (ws_sha sample_worker_svc up_audio) up_artifact ''j'' 1 ''t'' s)
              (\<lambda>_ s'. (Inr (), writeAilocalsDigestTx ''j'' digest s'))) up_db1 of
            (Inr _, db2) \<Rightarrow> (Inr (), recomputeRenderArticles 5 up_id db2)
          | (Inl _, db2) \<Rightarrow> (Inl (result_error ''completion could not be committed''),
              snd (MarkRenderFailed 5 up_id ''v1.audio_upload_failed'' db2))))"
  using decode_written[OF up_payload_fits] up_valid
  by (simp add: completeSpeechCommon_def up_parse seq_def speech_call_def up_generating)

text \<open>Preparing the audio fails: the job stays leased.\<close>

theorem failed_common_completion_keeps_lease_witness:
  "hub_jobs (snd (completeSpeechCommon sample_worker_svc \<lparr>io_prepare = False, io_winner = True, io_publish = True, io_late = False\<rparr> 5 up_job up_artifact 1
     up_audio ''d'' ''t'' up_db)) = \<lparr>job_table = [up_job], job_deps = []\<rparr>"
proof -
  have "completeSpeechCommon sample_worker_svc \<lparr>io_prepare = False, io_winner = True, io_publish = True, io_late = False\<rparr> 5 up_job up_artifact 1
      up_audio ''d'' ''t'' up_db = (Inl MediaFailed, give_up sample_worker_svc 5 up_id up_job 1 [] ''v1.audio_upload_failed'' True up_db1)"
    by (simp add: up_common[simplified])
  from failed_common_completion_keeps_lease[OF this] this show ?thesis by (simp add: up_db_def run_db_def)
qed

text \<open>The upload succeeds, and its retry is refused.\<close>

lemma up_published:
  "\<exists>db2. publish sample_worker_svc 5 up_id ''h'' d up_artifact ''j'' 1 ''t'' up_db1 = (Inr (), db2)"
proof -
  have m: "\<exists>dm. MarkRenderReadyTx 5 up_id ''h'' d up_artifact up_db1 = (Inr (), dm) \<and> hub_jobs dm = \<lparr>job_table = [up_job], job_deps = []\<rparr>"
    by (simp add: MarkRenderReadyTx_def up_db1_def up_db_def run_db_def find_by_def Let_def update_render_def)
  then obtain dm where dm: "MarkRenderReadyTx 5 up_id ''h'' d up_artifact up_db1 = (Inr (), dm)" "hub_jobs dm = \<lparr>job_table = [up_job], job_deps = []\<rparr>"
    by blast
  have "\<exists>jb. CompleteTx (ws_sha sample_worker_svc) ''j'' 1 ''t'' 5 5 5 (hub_jobs dm) = (Inr (), jb)"
    by (simp add: dm(2) CompleteTx_def finishTx_def find_by_def ulid_string_def constantTokenMatch_def sample_svc_parts active_def
        count_where_def attempt_row_def jobLeaseLive_def)
  then show ?thesis using dm(1) by (auto simp: publish_def sched_def on_jobs_def split: prod.splits)
qed

definition up_metadata :: complete_metadata where
  "up_metadata = \<lparr>cm_protocol = LW_Protocol, cm_attempt = 1, cm_sha = replicate 64 CHR ''0''\<rparr>"

definition up_worker :: worker where
  "up_worker = \<lparr>wv_id = ''w'', wv_name = ''m'', wv_protocol = Speech_Protocol, wv_revoked = None, wv_seen = None, wv_capabilities = [],
     wv_software = [], wv_created = None, wv_updated = None, wv_relay = [], wv_relay_seen = None\<rparr>"

definition io_ok :: media_io where
  "io_ok = \<lparr>io_prepare = True, io_winner = True, io_publish = True, io_late = False\<rparr>"

lemma up_completed:
  "\<exists>db'. CompleteAilocals sample_worker_svc io_ok 5 up_worker ''j'' ''t'' (Some up_metadata) (Some up_audio) up_result up_db = (Inr (), db')"
proof -
  obtain db2 where db2: "publish sample_worker_svc 5 up_id ''h'' (ws_sha sample_worker_svc up_audio) up_artifact ''j'' 1 ''t'' up_db1 = (Inr (), db2)"
    using up_published by blast
  have c: "\<exists>db'. completeSpeechCommon sample_worker_svc io_ok 5 up_job up_artifact 1 up_audio digest ''t'' up_db = (Inr (), db')" for digest
    unfolding up_common by (simp add: io_ok_def commit_prepared_def with_transaction_def seq_def db2)
  have v: "ValidateCompleteMetadata (Some up_metadata) = Inr ()"
    by (simp add: ValidateCompleteMetadata_def up_metadata_def validateProtocolVersion_def ValidSHA256_def is_digit_def byte_def list_all_iff)
  have g: "Get ''j'' (hub_jobs up_db) = Inr up_job" by (simp add: Get_def up_db_def run_db_def find_by_def ulid_string_def)
  have l: "verify sample_worker_svc 5 ''j'' 1 ''t'' ''w'' up_db = Inr up_job"
    using g by (simp add: verify_def VerifyLease_def ulid_is_zero_def zeroULID_def constantTokenMatch_def sample_svc_parts active_def
        ascii_blank byte_def is_space_def)
  have md: "cm_attempt up_metadata = 1" "ulid_string (wv_id up_worker) = ''w''"
    by (simp_all add: up_metadata_def up_worker_def ulid_string_def)
  show ?thesis using c g l up_decoded
    by (simp add: CompleteAilocals_def v Let_def md active_def ChatterboxJobType_def LLMRelayJobType_def)
qed

theorem speech_completion_retry_witness:
  "\<exists>db'. CompleteAilocals sample_worker_svc io_ok 5 up_worker ''j'' ''t'' (Some up_metadata) (Some up_audio) up_result up_db = (Inr (), db') \<and>
     CompleteAilocals sample_worker_svc io_ok 6 up_worker ''j'' ''t'' (Some up_metadata) (Some up_audio) up_result db' = (Inl conflict, db')"
proof -
  obtain db' where c: "CompleteAilocals sample_worker_svc io_ok 5 up_worker ''j'' ''t'' (Some up_metadata) (Some up_audio) up_result up_db = (Inr (), db')"
    using up_completed by blast
  have "CompleteAilocals sample_worker_svc io_ok 6 up_worker ''j'' ''t'' (Some up_metadata) (Some up_audio) up_result db' =
    (if ws_sha sample_worker_svc (case Some up_audio of None \<Rightarrow> [] | Some b \<Rightarrow> b) = am_sha up_artifact then Inr () else Inl conflict, db')"
  proof (rule speech_completion_retry[OF c _ _ _ up_decoded])
    show "Get ''j'' (hub_jobs up_db) = Inr up_job" by (simp add: Get_def up_db_def run_db_def find_by_def ulid_string_def)
    show "audio_ok up_db" by (simp add: audio_ok_def up_db_def run_db_def)
    show "\<forall>r \<in> set (sd_renders up_db). rn_hash r = am_request up_artifact \<longrightarrow> rn_state r \<noteq> RenderReady" by (simp add: up_db_def run_db_def)
  qed (simp_all add: ChatterboxJobType_def LLMRelayJobType_def)
  moreover have "ws_sha sample_worker_svc up_audio \<noteq> am_sha up_artifact" by (simp add: sample_svc_parts)
  ultimately show ?thesis using c by simp
qed

theorem speech_payload_roundtrip_witness: "decode_payload (json_text (payload_json_of up_payload)) = Some up_payload"
  by (rule speech_payload_roundtrip[OF up_payload_fits])

end
