(* ===== verification/LLM_Loss.thy ===== *)
theory LLM_Loss
  imports LLM_Samples
begin

text \<open>
  The bound of a result is checked on the worker's bytes, but the canonical text that is stored escapes the characters
  that HTML reserves: a result can be accepted that the provider's call refuses to read back.
\<close>

lemma unquote_plain: "\<forall>c \<in> set s. byte c < 0x80 \<and> c \<noteq> backslash \<Longrightarrow> unquote s = s"
proof (induction s)
  case (Cons c s)
  then have a: "byte c < 0x80" "c \<noteq> backslash" "unquote s = s" by simp_all
  then have "decode_rune (c # s) = (byte c, 1)" by (simp add: decode_rune_def)
  then show ?case using a by (simp add: unquote.simps(2) bad_rune_def rune_error_def)
qed simp

lemma body_ok_plain: "list_all plain_char w \<Longrightarrow> body_ok w"
  by (simp add: body_ok_def scan_plain)

lemma lt_neq [simp]: "CHR ''<'' \<noteq> quote_char" "CHR ''<'' \<noteq> backslash"
  by (simp_all add: byte_inj[symmetric])

definition lt_text :: string where
  "lt_text = replicate 400000 CHR ''<''"

lemma lt_length [simp]: "length lt_text = 400000"
  by (simp add: lt_text_def)

lemma lt_set: "c \<in> set lt_text \<Longrightarrow> c = CHR ''<''"
  by (simp add: lt_text_def)

lemma lt_body [simp]: "body_ok lt_text" "unquote lt_text = lt_text" "valid_utf8 lt_text" "lt_text \<noteq> []"
proof -
  show "body_ok lt_text" by (rule body_ok_plain) (auto simp: list_all_iff plain_char_def dest!: lt_set)
  show "unquote lt_text = lt_text" by (rule unquote_plain) (auto dest!: lt_set)
  show "valid_utf8 lt_text" by (rule ascii_valid) (auto dest!: lt_set)
  show "lt_text \<noteq> []" using lt_length by fastforce
qed

lemma lt_escape: "escape lt_text = concat (replicate 400000 (backslash # ''u003c''))"
proof -
  have "chunks lt_text = map (\<lambda>c. (byte c, [c])) lt_text" by (rule ascii_chunks) (auto dest!: lt_set)
  then have "escape lt_text = concat (map (\<lambda>c. esc_chunk (byte c, [c])) lt_text)" by (simp add: escape_def comp_def)
  also have "\<dots> = concat (map (\<lambda>c. esc_chunk (60, ''<'')) lt_text)"
    by (rule arg_cong[where f = concat], rule map_cong[OF refl]) (auto dest!: lt_set)
  also have "\<dots> = concat (replicate 400000 (esc_chunk (60, ''<'')))" by (simp add: map_replicate_const)
  also have "esc_chunk (60, ''<'') = backslash # ''u003c''" by code_simp
  finally show ?thesis .
qed

lemma lt_escaped: "length (escape lt_text) = 2400000"
  by (simp add: lt_escape length_concat sum_list_replicate)

definition wide_json :: json where
  "wide_json = JObj [(''request_id'', JStr ''r''), (''content'', JStr lt_text)]"

lemma field_bodies: "body_ok ''request_id''" "body_ok ''content''" "body_ok ''r''" "unquote ''request_id'' = ''request_id''"
    "unquote ''content'' = ''content''" "unquote ''r'' = ''r''"
  by ((rule body_ok_plain, simp add: plain_char_def byte_def byte_inj[symmetric] quote_char_def backslash_def) |
    (rule unquote_plain, simp add: byte_def byte_inj[symmetric] backslash_def))+

definition wide_result :: string where
  "wide_result = json_text wide_json"

lemma wide_length: "length wide_result \<le> 400100"
  by (simp add: wide_result_def wide_json_def)

definition wide_raw :: raw_chat where
  "wide_raw = zero_raw\<lparr>rw_request := ''r'', rw_content := lt_text\<rparr>"

lemma wide_decoded: "decodeStrict (dec_struct True raw_fields) zero_raw wide_result = Inr wide_raw"
proof -
  have "json_ok 0 wide_json" by (simp add: wide_json_def field_bodies)
  then have "json_parse wide_result = Some wide_json" unfolding wide_result_def by (rule json_text_parse)
  moreover have "dec_struct True raw_fields zero_raw wide_json = Some wide_raw"
    by (simp add: wide_json_def wide_raw_def dec_struct_def raw_fields_def dec_members.simps(2) find_field_def field_bodies
        dec_string_def zero_raw_def)
  ultimately show ?thesis by (simp add: decodeStrict_Inr)
qed

definition wide_chat :: ChatResult where
  "wide_chat = \<lparr>cr_request = ''r'', cr_content = lt_text, cr_model = [], cr_provider = [], cr_finish = [],
     cr_usage = \<lparr>us_prompt = 0, us_completion = 0, us_total = 0\<rparr>,
     cr_usage_json = json_text (usage_json \<lparr>us_prompt = 0, us_completion = 0, us_total = 0\<rparr>), cr_timing_json = []\<rparr>"

lemma wide_accepted: "DecodeChatResult E wide_result ''r'' MaxCompletionBytes = Inr wide_chat"
proof -
  have u: "length (json_text (usage_json \<lparr>us_prompt = 0, us_completion = 0, us_total = 0\<rparr>)) \<le> MaxStructuredBytes"
    using escape_length[of "''prompt_tokens''"] escape_length[of "''completion_tokens''"] escape_length[of "''total_tokens''"]
    by (simp add: usage_json_def obj_text json_of_int_def decimal.simps MaxStructuredBytes_def)
  show ?thesis using wide_length u unfolding DecodeChatResult_def wide_decoded
    by (simp add: MaxCompletionBytes_def wide_raw_def zero_raw_def ContentLimitBytes_def MaxIdentifierBytes_def wide_chat_def)
qed

definition wide_text :: string where
  "wide_text = json_text (obj [(''request_id'', json_str ''r''), (''content'', json_str lt_text), (''reported_model'', json_str []),
     (''provider_request_id'', json_str []), (''finish_reason'', json_str []),
     (''usage'', usage_json \<lparr>us_prompt = 0, us_completion = 0, us_total = 0\<rparr>), (''timing'', JObj [])])"

lemma wide_canonical: "CanonicalChatResult wide_chat = Inr wide_text"
proof -
  have "raw_or (json_text (usage_json u)) d = Inr (usage_json u)" if "u = \<lparr>us_prompt = 0, us_completion = 0, us_total = 0\<rparr>" for u d
    by (rule usage_canonical(1)) (simp_all add: int64_def that)
  then show ?thesis by (simp add: CanonicalChatResult_def wide_chat_def raw_or_def wide_text_def)
qed

text \<open>C34: an accepted chat result survives storage.  The canonical text of a result that was decoded is, under a bound that
  admits its length, decoded to the same result: content, identifiers, usage and the exact texts of usage and timing.\<close>
theorem chat_result_roundtrip:
  assumes "DecodeChatResult E data request bound = Inr r" and "float_ok E" and "CanonicalChatResult r = Inr c"
    and "int (length c) \<le> bound'"
  shows "DecodeChatResult E c request bound' = Inr r"
  using chat_canonical[OF assms(1,2), of bound'] assms(3,4) by simp

definition sample_env :: relay_env where
  "sample_env = \<lparr>sha = (\<lambda>_. replicate 64 CHR ''0''), float_text = (\<lambda>n. if num_ok n then Some n else None)\<rparr>"

theorem chat_result_roundtrip_witness:
  "DecodeChatResult sample_env wide_text ''r'' (int (length wide_text)) = Inr wide_chat"
proof (rule chat_result_roundtrip[OF wide_accepted _ wide_canonical])
  show "float_ok sample_env" by (simp add: float_ok_def sample_env_def)
qed simp

lemma wide_text_escaped: "\<exists>a b. wide_text = a @ concat (replicate 400000 (backslash # ''u003c'')) @ b"
proof -
  let ?a = "CHR ''{'' # (quote_char # escape ''request_id'' @ quote_char # CHR '':'' # json_text (json_str ''r'')) @ CHR '','' #
    quote_char # escape ''content'' @ [quote_char, CHR '':'', quote_char]"
  have "\<exists>b. wide_text = ?a @ escape lt_text @ b" by (simp add: wide_text_def obj_text json_str_def)
  then show ?thesis unfolding lt_escape by blast
qed

text \<open>C35: some accepted results cannot be read back.  There is a completion of at most 400100 bytes, a fifth of the bound, whose
  content is 400000 less-than signs; \<open>DecodeChatResult\<close> accepts it, and its canonical encoding, the text that is stored, writes each
  of the signs as the six bytes of a Unicode escape, so it is longer than the bound: decoding the stored text under the same bound,
  as the provider's call does, fails.\<close>
theorem accepted_result_unreadable:
  "\<exists>data r c a b. length data \<le> 400100 \<and> int (5 * length data) \<le> MaxCompletionBytes \<and>
     DecodeChatResult E data ''r'' MaxCompletionBytes = Inr r \<and> cr_content r = replicate 400000 CHR ''<'' \<and>
     CanonicalChatResult r = Inr c \<and> c = a @ concat (replicate 400000 (backslash # ''u003c'')) @ b \<and>
     MaxCompletionBytes < int (length c) \<and>
     DecodeChatResult E c ''r'' MaxCompletionBytes = Inl ''result exceeds the job bound''"
proof -
  obtain a b where w: "wide_text = a @ concat (replicate 400000 (backslash # ''u003c'')) @ b" using wide_text_escaped by blast
  have "2400000 \<le> length wide_text" using lt_escaped by (simp add: wide_text_def obj_text json_str_def)
  then have l: "MaxCompletionBytes < int (length wide_text)" by (simp add: MaxCompletionBytes_def)
  then have "DecodeChatResult E wide_text ''r'' MaxCompletionBytes = Inl ''result exceeds the job bound''"
    by (simp add: DecodeChatResult_def)
  moreover have "cr_content wide_chat = replicate 400000 CHR ''<''" unfolding wide_chat_def lt_text_def by simp
  moreover have "int (5 * length wide_result) \<le> MaxCompletionBytes" using wide_length by (simp add: MaxCompletionBytes_def)
  ultimately show ?thesis using wide_accepted wide_canonical wide_length w l by blast
qed

end
