(* ===== verification/Reader_Sentences.thy ===== *)
theory Reader_Sentences
  imports Reader_Text
begin

text \<open>
  The sentence splitter, internal/reader/sentences.go.  Loops over a text are functions on byte
  offsets, as in the code; \<open>U\<close> holds the Unicode letter, number and upper case tables.
\<close>

record sentence_span =
  StartUTF16 :: nat
  EndUTF16 :: nat
  SourceText :: string

definition sentenceAbbreviations :: "string list" where
  "sentenceAbbreviations =
     [''dhr'', ''mevr'', ''dr'', ''mr'', ''prof'', ''ir'', ''ing'', ''st'', ''etc'',
      ''bijv'', ''ca'', ''nr'', ''fig'', ''m.a.w'', ''o.a'', ''t.a.v'']"

definition isTerminatorPunctuation :: "nat \<Rightarrow> bool" where
  "isTerminatorPunctuation r \<longleftrightarrow>
     r = byte CHR ''.'' \<or> r = byte CHR ''?'' \<or> r = byte CHR ''!'' \<or> r = 0x2026"

definition isClosingQuoteOrBracket :: "nat \<Rightarrow> bool" where
  "isClosingQuoteOrBracket r \<longleftrightarrow>
     r \<in> {byte CHR '')'', byte CHR '']'', byte CHR ''}'', 0x201D, 0xBB, byte CHR 0x22, 0x2019}"

definition isOpeningQuoteOrBracket :: "nat \<Rightarrow> bool" where
  "isOpeningQuoteOrBracket r \<longleftrightarrow>
     r \<in> {byte CHR ''('', byte CHR ''['', byte CHR ''{'', 0x201E, 0xAB, 0x201C, 0x2018, byte CHR 0x22}"

section \<open>Scanning forward\<close>

text \<open>The loops that step over the runes at \<open>i\<close> that satisfy a test.\<close>

function skip_while :: "(nat \<Rightarrow> bool) \<Rightarrow> string \<Rightarrow> nat \<Rightarrow> nat" where
  "skip_while P text i =
     (if i < length text \<and> P (rune_of (drop i text))
      then skip_while P text (i + rune_size (drop i text)) else i)"
  by pat_completeness auto
termination
  by (relation "measure (\<lambda>(P, text, i). length text - i)") (auto intro!: diff_less_mono2 simp: rune_size_pos)

declare skip_while.simps [simp del]

section \<open>Periods\<close>

text \<open>\<open>dottedTokenBefore\<close>: letters and periods directly before the period, an index of the text (so
  that the text is not empty).\<close>

function token_start :: "unicode_tables \<Rightarrow> string \<Rightarrow> nat \<Rightarrow> nat" where
  "token_start U text e =
     (if 0 < e \<and> 0 < length text \<and>
         (let r = fst (decode_last_rune (take e text)) in r = byte CHR ''.'' \<or> is_letter U r)
      then token_start U text (e - snd (decode_last_rune (take e text))) else e)"
  by pat_completeness auto
termination
  by (relation "measure (\<lambda>(U, text, e). e)") (auto intro!: diff_less decode_last_rune_pos)

declare token_start.simps [simp del]

definition dottedTokenBefore :: "unicode_tables \<Rightarrow> string \<Rightarrow> nat \<Rightarrow> string" where
  "dottedTokenBefore U text dotIndex = slice text (token_start U text dotIndex) dotIndex"

text \<open>
  \<open>strings.EqualFold\<close> against an abbreviation, which is lower case ASCII: a rune matches a letter
  when it is that letter, its capital, or one of the two other runes that fold to an ASCII letter.
\<close>

definition fold_matches :: "nat \<Rightarrow> nat \<Rightarrow> bool" where
  "fold_matches r a \<longleftrightarrow> r = a
     \<or> (byte CHR ''a'' \<le> a \<and> a \<le> byte CHR ''z'' \<and> r + 32 = a)
     \<or> (a = byte CHR ''s'' \<and> r = 0x17F) \<or> (a = byte CHR ''k'' \<and> r = 0x212A)"

definition EqualFold :: "string \<Rightarrow> string \<Rightarrow> bool" where
  "EqualFold token abbreviation = list_all2 fold_matches (runes token) (runes abbreviation)"

text \<open>\<open>strings.Split(s, ".")\<close>.\<close>

fun split_dots :: "string \<Rightarrow> string list" where
  "split_dots [] = [[]]"
| "split_dots (c # s) =
     (if c = CHR ''.'' then [] # split_dots s
      else (case split_dots s of [] \<Rightarrow> [[c]] | p # ps \<Rightarrow> (c # p) # ps))"

definition repeated_initialism :: "string \<Rightarrow> bool" where
  "repeated_initialism token \<longleftrightarrow>
     (let parts = filter (\<lambda>p. p \<noteq> []) (split_dots token)
      in 2 \<le> length parts \<and> (\<forall>p \<in> set parts. length (runes p) = 1))"

definition dottedWordStopsSentence :: "unicode_tables \<Rightarrow> string \<Rightarrow> nat \<Rightarrow> bool" where
  "dottedWordStopsSentence U text dotIndex =
     (let token = dottedTokenBefore U text dotIndex in
      if token \<noteq> [] \<and> (\<exists>a \<in> set sentenceAbbreviations. EqualFold token a) then True
      else if token \<noteq> [] \<and> repeated_initialism token then True
      else (let next_ix = skip_while is_space text (dotIndex + 1) in
        next_ix < length text \<and> is_letter U (rune_of (drop next_ix text)) \<and>
        (let after = skip_while is_space text (next_ix + rune_size (drop next_ix text)) in
          after < length text \<and> rune_of (drop after text) = byte CHR ''.'')))"

definition periodEndsSentence :: "unicode_tables \<Rightarrow> string \<Rightarrow> nat \<Rightarrow> bool" where
  "periodEndsSentence U text dotIndex =
     (if 0 < dotIndex \<and> dotIndex + 1 < length text
         \<and> is_number U (fst (decode_last_rune (take dotIndex text)))
         \<and> is_number U (rune_of (drop (dotIndex + 1) text)) then False
      else if dottedWordStopsSentence U text dotIndex then False
      else
        (let next_ix = skip_while is_space text (skip_while isClosingQuoteOrBracket text (dotIndex + 1)) in
         if length text \<le> next_ix then True
         else (let r = rune_of (drop next_ix text)
               in is_upper U r \<or> is_number U r \<or> isOpeningQuoteOrBracket r)))"

section \<open>Sentences\<close>

text \<open>The end of a sentence: repeated terminators and closing quotes after the terminator.  A
  typographic apostrophe directly before a letter is not a closing quote.\<close>

definition closes :: "unicode_tables \<Rightarrow> string \<Rightarrow> nat \<Rightarrow> bool" where
  "closes U text e =
     (let r = rune_of (drop e text); e' = e + rune_size (drop e text)
      in isTerminatorPunctuation r \<or>
         (isClosingQuoteOrBracket r \<and>
          \<not> (r = 0x2019 \<and> e' < length text \<and> 0 < rune_size (drop e' text)
             \<and> is_letter U (rune_of (drop e' text)))))"

function sentence_end :: "unicode_tables \<Rightarrow> string \<Rightarrow> nat \<Rightarrow> nat" where
  "sentence_end U text e =
     (if e < length text \<and> closes U text e
      then sentence_end U text (e + rune_size (drop e text)) else e)"
  by pat_completeness auto
termination
  by (relation "measure (\<lambda>(U, text, e). length text - e)") (auto intro!: diff_less_mono2 simp: rune_size_pos)

declare sentence_end.simps [simp del]

text \<open>\<open>flush\<close>: the unit from \<open>unitStart\<close> to \<open>e\<close> without the white space at its edges.\<close>

function unit_first :: "string \<Rightarrow> nat \<Rightarrow> nat \<Rightarrow> nat" where
  "unit_first text start e =
     (if start < e \<and> is_space (rune_of (drop start text))
      then unit_first text (start + rune_size (drop start text)) e else start)"
  by pat_completeness auto
termination
proof (relation "measure (\<lambda>(text, start, e). e - start)", goal_cases)
  case (2 t start e)
  then have "drop start t \<noteq> []" by (auto simp: is_space_def rune_error_def simp del: drop_eq_Nil)
  then show ?case using 2 rune_size_pos[of "drop start t"] by auto
qed simp

declare unit_first.simps [simp del]

function unit_last :: "string \<Rightarrow> nat \<Rightarrow> nat \<Rightarrow> nat" where
  "unit_last text start trailing =
     (if start < trailing \<and> is_space (fst (decode_last_rune (slice text start trailing)))
      then unit_last text start (trailing - snd (decode_last_rune (slice text start trailing))) else trailing)"
  by pat_completeness auto
termination
proof (relation "measure (\<lambda>(text, start, trailing). trailing)", goal_cases)
  case (2 t start trailing)
  then have "slice t start trailing \<noteq> []"
    by (auto simp: decode_last_rune_def is_space_def rune_error_def)
  then show ?case using 2 decode_last_rune_pos[of "slice t start trailing"] by simp
qed simp

declare unit_last.simps [simp del]

definition flush :: "string \<Rightarrow> nat \<Rightarrow> nat \<Rightarrow> (nat \<times> nat) list \<Rightarrow> (nat \<times> nat) list" where
  "flush text unitStart e spans =
     (let start = unit_first text unitStart e;
          trailing = unit_last text start e
      in if start < trailing then spans @ [(start, trailing)] else spans)"

text \<open>The main loop; \<open>saw\<close> is \<open>sawNonWhitespace\<close>.  The value is the list of raw spans after the
  final flush.\<close>

lemma sentence_end_ge: "e \<le> sentence_end U t e"
proof (induction U t e rule: sentence_end.induct)
  case (1 U t e)
  then show ?case by (auto simp: sentence_end.simps[of U t e] intro: add_leD1)
qed

lemma skip_while_ge: "i \<le> skip_while P t i"
proof (induction P t i rule: skip_while.induct)
  case (1 P t i)
  then show ?case by (auto simp: skip_while.simps[of P t i] intro: add_leD1)
qed

function segment_loop ::
  "unicode_tables \<Rightarrow> string \<Rightarrow> nat \<Rightarrow> nat \<Rightarrow> bool \<Rightarrow> (nat \<times> nat) list \<Rightarrow> (nat \<times> nat) list" where
  "segment_loop U text i unitStart saw spans =
     (if i < length text then
        (let r = rune_of (drop i text); size = rune_size (drop i text) in
         if is_space r then segment_loop U text (i + size) unitStart saw spans
         else if \<not> isTerminatorPunctuation r then segment_loop U text (i + size) unitStart True spans
         else if \<not> saw then segment_loop U text (i + size) unitStart True spans
         else if \<not> (if r = byte CHR ''.'' then periodEndsSentence U text i else True)
         then segment_loop U text (i + size) unitStart saw spans
         else
           (let e = sentence_end U text (i + size)
            in segment_loop U text (skip_while is_space text e) e False (flush text unitStart e spans)))
      else flush text unitStart (length text) spans)"
  by pat_completeness auto
termination
proof (relation "measure (\<lambda>(U, text, i, _, _, _). length text - i)", goal_cases)
  case 1
  then show ?case by simp
next
  case (6 U t i unitStart saw spans r size e)
  have "i < i + size" using 6 by (simp add: rune_size_pos)
  also have "\<dots> \<le> e" unfolding 6 by (rule sentence_end_ge)
  also have "\<dots> \<le> skip_while is_space t e" by (rule skip_while_ge)
  finally show ?case using 6(1) by (simp add: diff_less_mono2)
qed (auto intro!: diff_less_mono2 simp: rune_size_pos)

declare segment_loop.simps [simp del]

definition span_of :: "string \<Rightarrow> nat \<times> nat \<Rightarrow> sentence_span" where
  "span_of text s =
     (let startUTF16 = UTF16Len (take (fst s) text);
          endUTF16 = startUTF16 + UTF16Len (slice text (fst s) (snd s))
      in \<lparr>StartUTF16 = startUTF16, EndUTF16 = endUTF16, SourceText = slice text (fst s) (snd s)\<rparr>)"

definition SegmentSentences :: "unicode_tables \<Rightarrow> string \<Rightarrow> text_error + sentence_span list" where
  "SegmentSentences U text =
     (if \<not> valid_utf8 text then Inl NotUTF8
      else Inr (map (span_of text) (segment_loop U text 0 0 False [])))"

section \<open>Loops stay on rune boundaries\<close>

lemma rune_cutI: "valid_utf8 s \<Longrightarrow> i \<le> length s \<Longrightarrow> valid_utf8 (take i s) \<Longrightarrow> rune_cut s i"
  using valid_append_iff[of "take i s" "drop i s"] by (simp add: rune_cut_def)

lemma skip_while_cut:
  "rune_cut t i \<Longrightarrow> rune_cut t (skip_while P t i)"
proof (induction P t i rule: skip_while.induct)
  case (1 P t i)
  then show ?case by (auto simp: skip_while.simps[of P t i] intro: cut_next)
qed

lemma sentence_end_cut:
  "rune_cut t e \<Longrightarrow> rune_cut t (sentence_end U t e)"
proof (induction U t e rule: sentence_end.induct)
  case (1 U t e)
  then show ?case by (auto simp: sentence_end.simps[of U t e] intro: cut_next)
qed

text \<open>A boundary inside the text: the next rune ends at or before any later boundary.\<close>

lemma next_cut_le:
  assumes "rune_cut s i" and "rune_cut s j" and "i < j"
  shows "i + rune_size (drop i s) \<le> j" and "rune_of (drop i s) = rune_of (slice s i j)"
    and "slice s i j \<noteq> []" and "rune_size (drop i s) = rune_size (slice s i j)"
proof -
  have le: "j \<le> length s" using assms(2) by (simp add: rune_cut_def)
  have v: "valid_utf8 (slice s i j)" using cut_slice assms by simp
  show ne: "slice s i j \<noteq> []" using slice_length[of i j s] assms(3) le by auto
  have "decode_rune (slice s i j @ drop j s) = decode_rune (slice s i j)"
    using v ne by (intro decode_rune_append) (auto simp: valid_utf8.simps[of "slice s i j"] split: if_splits)
  then have d: "decode_rune (drop i s) = decode_rune (slice s i j)"
    using slice_drop[of i j s] assms(3) by simp
  then show "rune_of (drop i s) = rune_of (slice s i j)" "rune_size (drop i s) = rune_size (slice s i j)"
    by simp_all
  have "rune_size (drop i s) \<le> j - i"
    using d rune_size_le[of "slice s i j"] slice_length[of i j s] assms(3) le by simp
  then show "i + rune_size (drop i s) \<le> j" using assms(3) by simp
qed

lemma blank_rune:
  assumes "valid_utf8 s" and "s \<noteq> []" and "is_space (rune_of s)"
  shows "blank (take (rune_size s) s)"
proof -
  have g: "good_chunk (rune_of s, take (rune_size s) s)" by (rule valid_head(1)[OF assms(1,2)])
  have "runes (take (rune_size s) s) = [rune_of s]"
    using chunks_of_good0[of "[(rune_of s, take (rune_size s) s)]"] g by (simp add: runes_def)
  then show ?thesis using valid_head(2)[OF assms(1,2)] assms(3) by (simp add: blank_valid)
qed

lemma unit_first_props:
  "rune_cut t i \<Longrightarrow> rune_cut t e \<Longrightarrow> i \<le> e \<Longrightarrow>
   rune_cut t (unit_first t i e) \<and> i \<le> unit_first t i e \<and> unit_first t i e \<le> e \<and>
   blank (slice t i (unit_first t i e)) \<and>
   (unit_first t i e < e \<longrightarrow> \<not> is_space (rune_of (drop (unit_first t i e) t)))"
proof (induction t i e rule: unit_first.induct)
  case (1 t i e)
  show ?case
  proof (cases "i < e \<and> is_space (rune_of (drop i t))")
    case False
    then show ?thesis using 1 by (auto simp: unit_first.simps[of t i e] slice_def)
  next
    case True
    let ?j = "i + rune_size (drop i t)"
    have le: "?j \<le> e" using next_cut_le(1)[OF "1.prems"(1,2)] True by simp
    have lt: "i < length t" using True "1.prems"(2) by (simp add: rune_cut_def)
    have c: "rune_cut t ?j" by (rule cut_next[OF "1.prems"(1) lt])
    have IH: "rune_cut t (unit_first t ?j e) \<and> ?j \<le> unit_first t ?j e \<and> unit_first t ?j e \<le> e \<and>
        blank (slice t ?j (unit_first t ?j e)) \<and>
        (unit_first t ?j e < e \<longrightarrow> \<not> is_space (rune_of (drop (unit_first t ?j e) t)))"
      by (rule "1.IH"[OF True c "1.prems"(2) le])
    have "slice t i ?j = take (rune_size (drop i t)) (drop i t)"
      by (simp add: slice_def take_drop add.commute)
    then have "blank (slice t i ?j)"
      using blank_rune[of "drop i t"] True "1.prems"(1) lt by (simp add: rune_cut_def)
    moreover have "slice t i (unit_first t ?j e) = slice t i ?j @ slice t ?j (unit_first t ?j e)"
      using IH by (intro slice_join) auto
    ultimately have "blank (slice t i (unit_first t ?j e))"
      using IH c "1.prems"(1) cut_slice by (simp add: blank_append)
    then show ?thesis using True IH by (simp add: unit_first.simps[of t i e])
  qed
qed

lemma valid_drop_last:
  assumes "valid_utf8 s" and "s \<noteq> []"
  shows "valid_utf8 (take (length s - snd (decode_last_rune s)) s)"
    and "snd (decode_last_rune s) \<le> length s"
    and "is_space (fst (decode_last_rune s)) \<Longrightarrow> blank (drop (length s - snd (decode_last_rune s)) s)"
    and "valid_utf8 (drop (length s - snd (decode_last_rune s)) s)"
proof -
  let ?cs = "chunks s"
  have ne: "?cs \<noteq> []" using assms(2) by simp
  have g: "\<forall>c \<in> set ?cs. good_chunk c" using assms(1) by (simp add: valid_chunks)
  have d: "decode_last_rune s = (fst (last ?cs), length (snd (last ?cs)))"
    by (rule decode_last_rune_valid[OF assms])
  have s: "s = bytes_of (butlast ?cs) @ snd (last ?cs)"
  proof -
    have "bytes_of (butlast ?cs @ [last ?cs]) = s" unfolding append_butlast_last_id[OF ne] by simp
    then show ?thesis by simp
  qed
  define B where "B = bytes_of (butlast ?cs)"
  define L where "L = snd (last ?cs)"
  have BL: "s = B @ L" using s by (simp add: B_def L_def)
  have n: "snd (decode_last_rune s) = length L" using d by (simp add: L_def)
  have t: "take (length s - snd (decode_last_rune s)) s = B" "drop (length s - snd (decode_last_rune s)) s = L"
    unfolding n by (simp_all add: BL)
  show "valid_utf8 (take (length s - snd (decode_last_rune s)) s)"
    unfolding t B_def using g by (intro valid_bytes_of) (auto dest: in_set_butlastD)
  show "snd (decode_last_rune s) \<le> length s" unfolding n by (simp add: BL)
  have gl: "good_chunk (last ?cs)" using g ne by simp
  have v: "valid_utf8 L" and r: "runes L = [fst (last ?cs)]"
    using valid_bytes_of[of "[last ?cs]"] chunks_of_good0[of "[last ?cs]"] gl by (simp_all add: runes_def L_def)
  show "valid_utf8 (drop (length s - snd (decode_last_rune s)) s)" unfolding t by (rule v)
  show "is_space (fst (decode_last_rune s)) \<Longrightarrow> blank (drop (length s - snd (decode_last_rune s)) s)"
    unfolding t using v r d by (simp add: blank_valid)
qed

lemma slice_split:
  assumes "i \<le> k" and "k \<le> e" and "e \<le> length t"
  shows "slice t i k = take (k - i) (slice t i e)" and "slice t k e = drop (k - i) (slice t i e)"
  using slice_join[OF assms(1,2), of t] slice_length[OF assms(1), of t] assms(2,3) by simp_all

lemma unit_last_props:
  "rune_cut t i \<Longrightarrow> rune_cut t e \<Longrightarrow> i \<le> e \<Longrightarrow>
   rune_cut t (unit_last t i e) \<and> i \<le> unit_last t i e \<and> unit_last t i e \<le> e \<and>
   blank (slice t (unit_last t i e) e) \<and>
   (i < unit_last t i e \<longrightarrow> \<not> is_space (fst (decode_last_rune (slice t i (unit_last t i e)))))"
proof (induction t i e rule: unit_last.induct)
  case (1 t i e)
  let ?w = "slice t i e"
  show ?case
  proof (cases "i < e \<and> is_space (fst (decode_last_rune ?w))")
    case False
    then show ?thesis using 1 by (auto simp: unit_last.simps[of t i e] slice_def)
  next
    case True
    let ?n = "snd (decode_last_rune ?w)"
    have e: "e \<le> length t" using "1.prems"(2) by (simp add: rune_cut_def)
    have len: "length ?w = e - i" using slice_length True e by simp
    have v: "valid_utf8 ?w" "?w \<noteq> []"
      using cut_slice[OF "1.prems"] next_cut_le(3)[OF "1.prems"(1,2)] True by auto
    note dl = valid_drop_last[OF v]
    have n: "?n \<le> e - i" using dl(2) len by simp
    have le: "i \<le> e - ?n" "e - ?n \<le> e" using n True by auto
    have sl: "slice t i (e - ?n) = take (length ?w - ?n) ?w" "slice t (e - ?n) e = drop (length ?w - ?n) ?w"
      using slice_split[OF le e] len le n by (simp_all add: add.commute)
    have "valid_utf8 (take (e - ?n) t)"
      using take_slice[OF le(1), of t] "1.prems"(1) dl(1) sl(1) by (simp add: rune_cut_def valid_append)
    then have c: "rune_cut t (e - ?n)"
      using e cut_valid[OF "1.prems"(1)] by (intro rune_cutI) auto
    have IH: "rune_cut t (unit_last t i (e - ?n)) \<and> i \<le> unit_last t i (e - ?n) \<and>
        unit_last t i (e - ?n) \<le> e - ?n \<and> blank (slice t (unit_last t i (e - ?n)) (e - ?n)) \<and>
        (i < unit_last t i (e - ?n) \<longrightarrow>
          \<not> is_space (fst (decode_last_rune (slice t i (unit_last t i (e - ?n))))))"
      by (rule "1.IH"[OF True "1.prems"(1) c le(1)])
    have "slice t (unit_last t i (e - ?n)) e = slice t (unit_last t i (e - ?n)) (e - ?n) @ slice t (e - ?n) e"
      using IH le by (intro slice_join) auto
    moreover have "blank (slice t (e - ?n) e)" unfolding sl(2) using dl(3) True by blast
    ultimately have "blank (slice t (unit_last t i (e - ?n)) e)"
      using IH c "1.prems"(2) cut_slice le by (simp add: blank_append)
    moreover have "unit_last t i (e - ?n) \<le> e" using IH le(2) le_trans by blast
    ultimately show ?thesis using True IH by (simp add: unit_last.simps[of t i e])
  qed
qed

text \<open>The invariant of the main loop: the spans so far cover the text up to the unit's start.\<close>

definition span_ok :: "string \<Rightarrow> nat \<Rightarrow> nat \<times> nat \<Rightarrow> bool" where
  "span_ok t n s \<longleftrightarrow> rune_cut t (fst s) \<and> rune_cut t (snd s) \<and> fst s < snd s \<and> snd s \<le> n \<and>
     \<not> is_space (rune_of (slice t (fst s) (snd s))) \<and>
     \<not> is_space (fst (decode_last_rune (slice t (fst s) (snd s))))"

definition spans_ok :: "string \<Rightarrow> nat \<Rightarrow> (nat \<times> nat) list \<Rightarrow> bool" where
  "spans_ok t n spans \<longleftrightarrow> rune_cut t n \<and> kept (take n t) (map (\<lambda>s. slice t (fst s) (snd s)) spans) \<and>
     (\<forall>s \<in> set spans. span_ok t n s) \<and> sorted_wrt (\<lambda>a b. snd a \<le> fst b) spans"

lemma flush_ok:
  assumes "spans_ok t u spans" and "rune_cut t e" and "u \<le> e"
  shows "spans_ok t e (flush t u e spans)"
proof -
  define f where "f = unit_first t u e"
  define l where "l = unit_last t f e"
  have cu: "rune_cut t u" using assms(1) by (simp add: spans_ok_def)
  note F = unit_first_props[OF cu assms(2,3), folded f_def]
  have cf: "rune_cut t f" "f \<le> e" using F by auto
  note L = unit_last_props[OF cf(1) assms(2) cf(2), folded l_def]
  have kf: "kept (take f t) (map (\<lambda>s. slice t (fst s) (snd s)) spans)"
    using assms(1) F take_slice[of u f t] kept_gap cut_slice[OF cu cf(1)] by (auto simp: spans_ok_def)
  have old: "\<forall>s \<in> set spans. span_ok t e s \<and> snd s \<le> f"
    using assms(1,3) F by (fastforce simp: spans_ok_def span_ok_def)
  show ?thesis
  proof (cases "f < l")
    case True
    have "kept (take l t) (map (\<lambda>s. slice t (fst s) (snd s)) (spans @ [(f, l)]))"
      using kept_piece[OF kf, of "slice t f l"] take_slice[of f l t] True by simp
    then have "kept (take e t) (map (\<lambda>s. slice t (fst s) (snd s)) (spans @ [(f, l)]))"
      using kept_gap[of "take l t" _ "slice t l e"] L take_slice[of l e t] cut_slice[of t l e] assms(2) by simp
    moreover have "span_ok t e (f, l)"
      using True F L cf next_cut_le(2)[of t f l] by (simp add: span_ok_def)
    moreover have "flush t u e spans = spans @ [(f, l)]"
      using True by (simp add: flush_def f_def l_def Let_def)
    ultimately show ?thesis
      using old assms(1,2) by (auto simp: spans_ok_def sorted_wrt_append)
  next
    case False
    then have "l = f" using L by simp
    then have "kept (take e t) (map (\<lambda>s. slice t (fst s) (snd s)) spans)"
      using kept_gap[OF kf, of "slice t f e"] L take_slice[OF cf(2), of t] cut_slice[OF cf(1) assms(2) cf(2)] by simp
    moreover have "flush t u e spans = spans"
      using False by (simp add: flush_def f_def l_def Let_def)
    ultimately show ?thesis using old assms(1,2) by (auto simp: spans_ok_def)
  qed
qed

lemma segment_loop_ok:
  "spans_ok t u spans \<Longrightarrow> rune_cut t i \<Longrightarrow> u \<le> i \<Longrightarrow> i \<le> length t \<Longrightarrow>
   spans_ok t (length t) (segment_loop U t i u saw spans)"
proof (induction U t i u saw spans rule: segment_loop.induct)
  case (1 U t i u saw spans)
  show ?case
  proof (cases "i < length t")
    case False
    then have "spans_ok t (length t) (flush t u (length t) spans)"
      using "1.prems" cut_valid cut_length by (intro flush_ok) auto
    with False show ?thesis by (simp add: segment_loop.simps[of U t i])
  next
    case True
    let ?r = "rune_of (drop i t)" and ?n = "rune_size (drop i t)"
    let ?e = "sentence_end U t (i + ?n)"
    have c: "rune_cut t (i + ?n)" by (rule cut_next[OF "1.prems"(2) True])
    then have le: "u \<le> i + ?n" "i + ?n \<le> length t" using "1.prems"(3) by (auto simp: rune_cut_def)
    note IH = "1.IH"[OF True refl refl]
    consider (space) "is_space ?r" | (plain) "\<not> is_space ?r" "\<not> isTerminatorPunctuation ?r"
      | (lead) "\<not> is_space ?r" "isTerminatorPunctuation ?r" "\<not> saw"
      | (inside) "\<not> is_space ?r" "isTerminatorPunctuation ?r" "saw"
          "\<not> (if ?r = byte CHR ''.'' then periodEndsSentence U t i else True)"
      | (stop) "\<not> is_space ?r" "isTerminatorPunctuation ?r" "saw"
          "(if ?r = byte CHR ''.'' then periodEndsSentence U t i else True)" by blast
    then show ?thesis
    proof cases
      case space
      have "segment_loop U t i u saw spans = segment_loop U t (i + ?n) u saw spans"
        using True space by (simp add: segment_loop.simps[of U t i])
      then show ?thesis using IH(1)[OF space "1.prems"(1) c le] by simp
    next
      case plain
      have "segment_loop U t i u saw spans = segment_loop U t (i + ?n) u True spans"
        using True plain by (simp add: segment_loop.simps[of U t i])
      then show ?thesis using IH(2)[OF plain "1.prems"(1) c le] by simp
    next
      case lead
      have "segment_loop U t i u saw spans = segment_loop U t (i + ?n) u True spans"
        using True lead by (simp add: segment_loop.simps[of U t i])
      then show ?thesis using IH(3)[OF lead(1) _ lead(3) "1.prems"(1) c le] lead(2) by simp
    next
      case inside
      have "segment_loop U t i u saw spans = segment_loop U t (i + ?n) u saw spans"
        using True inside by (simp add: segment_loop.simps[of U t i])
      then show ?thesis using IH(4)[OF inside(1) _ _ inside(4) "1.prems"(1) c le] inside(2,3) by simp
    next
      case stop
      have ce: "rune_cut t ?e" by (rule sentence_end_cut[OF c])
      have ue: "u \<le> ?e" using le(1) sentence_end_ge le_trans by blast
      have cs: "rune_cut t (skip_while is_space t ?e)" by (rule skip_while_cut[OF ce])
      have ok: "spans_ok t ?e (flush t u ?e spans)" by (rule flush_ok[OF "1.prems"(1) ce ue])
      have "segment_loop U t i u saw spans =
          segment_loop U t (skip_while is_space t ?e) ?e False (flush t u ?e spans)"
        using True stop by (simp add: segment_loop.simps[of U t i] Let_def)
      moreover have "spans_ok t (length t)
          (segment_loop U t (skip_while is_space t ?e) ?e False (flush t u ?e spans))"
        using IH(5)[OF stop(1) _ _ _ refl ok cs skip_while_ge] stop(2-4) cs by (simp add: rune_cut_def)
      ultimately show ?thesis by simp
    qed
  qed
qed

text \<open>C14: a valid paragraph is split without losing or changing a character other than white space:
  the sentences occur in the text in order, with only white space around and between them.  Each is not
  empty, neither starts nor ends with white space, is exactly what the reader extracts from its UTF-16
  span, and the spans are ordered and disjoint.\<close>
theorem SegmentSentences_partition:
  assumes "SegmentSentences U t = Inr sentences"
  shows "kept t (map SourceText sentences) \<and>
    (\<forall>s \<in> set sentences. SourceText s \<noteq> [] \<and> \<not> is_space (rune_of (SourceText s)) \<and>
       \<not> is_space (fst (decode_last_rune (SourceText s))) \<and>
       TextForUTF16Span t (int (StartUTF16 s)) (int (EndUTF16 s)) = Inr (SourceText s)) \<and>
    sorted_wrt (\<lambda>a b. EndUTF16 a \<le> StartUTF16 b) sentences"
proof -
  let ?spans = "segment_loop U t 0 0 False []"
  have v: "valid_utf8 t" and r: "sentences = map (span_of t) ?spans"
    using assms by (auto simp: SegmentSentences_def split: if_splits)
  have ok: "spans_ok t (length t) ?spans"
    using v by (intro segment_loop_ok) (auto simp: spans_ok_def cut_0)
  have sp: "SourceText (span_of t s) = slice t (fst s) (snd s)" for s
    by (simp add: span_of_def Let_def)
  have units: "StartUTF16 (span_of t s) = UTF16Len (take (fst s) t)"
      "EndUTF16 (span_of t s) = UTF16Len (take (snd s) t)" if "span_ok t n s" for s n
    using that take_slice[of "fst s" "snd s" t]
    by (simp_all add: span_of_def Let_def span_ok_def rune_cut_def UTF16Len_append)
  have "kept t (map SourceText sentences)"
    using ok by (simp add: spans_ok_def r o_def sp)
  moreover have "SourceText s \<noteq> [] \<and> \<not> is_space (rune_of (SourceText s)) \<and>
       \<not> is_space (fst (decode_last_rune (SourceText s))) \<and>
       TextForUTF16Span t (int (StartUTF16 s)) (int (EndUTF16 s)) = Inr (SourceText s)"
    if "s \<in> set sentences" for s
  proof -
    from that r obtain p where p: "p \<in> set ?spans" "s = span_of t p" by auto
    then have k: "span_ok t (length t) p" using ok by (simp add: spans_ok_def)
    then show ?thesis
      using TextForUTF16Span_slice[OF v, of "fst p" "snd p"] next_cut_le(3)[of t "fst p" "snd p"]
      by (simp add: p(2) sp units[OF k] span_ok_def)
  qed
  moreover have "sorted_wrt (\<lambda>a b. EndUTF16 a \<le> StartUTF16 b) sentences"
  proof -
    have mono: "UTF16Len (take i t) \<le> UTF16Len (take j t)" if "rune_cut t i" "i \<le> j" for i j
      using that take_slice[of i j t] by (simp add: rune_cut_def UTF16Len_append)
    have le: "EndUTF16 (span_of t a) \<le> StartUTF16 (span_of t b)"
      if "span_ok t n a" "span_ok t n b" "snd a \<le> fst b" for a b n
      using that units[of n a] units[of n b] mono[of "snd a" "fst b"] by (simp add: span_ok_def)
    have "sorted_wrt (\<lambda>a b. snd a \<le> fst b) ?spans" "\<forall>s \<in> set ?spans. span_ok t (length t) s"
      using ok by (simp_all add: spans_ok_def)
    then show ?thesis
      unfolding r sorted_wrt_map by (elim sorted_wrt_mono_rel[rotated]) (blast intro: le)
  qed
  ultimately show ?thesis by blast
qed

lemma sample_sentences:
  "SegmentSentences ascii_tables ''Ja! Nu'' =
     Inr [\<lparr>StartUTF16 = 0, EndUTF16 = 3, SourceText = ''Ja!''\<rparr>,
          \<lparr>StartUTF16 = 4, EndUTF16 = 6, SourceText = ''Nu''\<rparr>]"
proof -
  let ?t = "''Ja! Nu''"
  have e: "sentence_end ascii_tables ?t (Suc (Suc (Suc 0))) = 3" "skip_while is_space ?t 3 = 4"
    by (simp_all add: sentence_end.simps closes_def skip_while.simps byte_def is_space_def
        isTerminatorPunctuation_def isClosingQuoteOrBracket_def Let_def)
  have f: "flush ?t 0 3 [] = [(0, 3)]" "flush ?t 3 (Suc (Suc (Suc (Suc (Suc (Suc 0)))))) [(0, 3)] = [(0, 3), (4, 6)]"
    by (simp_all add: flush_def unit_first.simps unit_last.simps slice_def decode_last_rune_def byte_def
        is_space_def Let_def)
  have "segment_loop ascii_tables ?t 0 0 False [] = [(0, 3), (4, 6)]"
    by (simp add: segment_loop.simps byte_def is_space_def isTerminatorPunctuation_def e f Let_def)
  then show ?thesis
    by (simp add: SegmentSentences_def ascii_valid span_of_def Let_def UTF16Len_def ascii_runes rune_units_def
        slice_def byte_def)
qed

theorem SegmentSentences_partition_witness:
  "kept ''Ja! Nu'' [''Ja!'', ''Nu''] \<and> TextForUTF16Span ''Ja! Nu'' 4 6 = Inr ''Nu''"
  using SegmentSentences_partition[OF sample_sentences] by simp

end
