(* ===== verification/Go_Lists.thy ===== *)
theory Go_Lists
  imports Go_Prelude "HOL-Library.Multiset"
begin

text \<open>Facts on lists up to the order of their elements.\<close>

text \<open>Pairwise compatibility does not depend on the order of the list.\<close>

lemma pairwise_mset:
  assumes "\<And>x y. P x y = P y x"
  shows "sorted_wrt P xs \<longleftrightarrow> (\<forall>x \<in># mset xs. \<forall>y \<in># mset xs - {#x#}. P x y)"
proof (induction xs)
  case (Cons x xs)
  have "(\<forall>z \<in># mset (x # xs). \<forall>y \<in># mset (x # xs) - {#z#}. P z y) \<longleftrightarrow>
      (\<forall>y \<in> set xs. P x y) \<and> (\<forall>z \<in># mset xs. \<forall>y \<in># mset xs - {#z#}. P z y)"
  proof (intro iffI conjI ballI)
    fix z y assume all: "\<forall>z \<in># mset (x # xs). \<forall>y \<in># mset (x # xs) - {#z#}. P z y"
      and z: "z \<in># mset xs" and y: "y \<in># mset xs - {#z#}"
    have "mset (x # xs) - {#z#} = add_mset x (mset xs - {#z#})" using z by simp
    with all z y show "P z y" by auto
  next
    fix z y
    assume all: "(\<forall>y \<in> set xs. P x y) \<and> (\<forall>z \<in># mset xs. \<forall>y \<in># mset xs - {#z#}. P z y)"
      and z: "z \<in># mset (x # xs)" and y: "y \<in># mset (x # xs) - {#z#}"
    show "P z y"
    proof (cases "z \<in># mset xs")
      case True
      then have "mset (x # xs) - {#z#} = add_mset x (mset xs - {#z#})" by simp
      with all y True show ?thesis using assms by auto
    next
      case False
      with z y all show ?thesis by auto
    qed
  qed (auto dest: bspec[of _ _ x])
  with Cons show ?case by simp
qed simp

lemma pairwise_permute:
  assumes "\<And>x y. P x y = P y x" and "mset xs = mset ys"
  shows "sorted_wrt P xs \<longleftrightarrow> sorted_wrt P ys"
  using assms by (simp add: pairwise_mset)

end
