(* ===== verification/Reader_Annotations.thy ===== *)
theory Reader_Annotations
  imports Reader_Article Go_Lists
begin

text \<open>
  Annotation candidates, internal/reader/annotations.go: validation of provider candidates, their
  resolution to UTF-16 spans, removal of overlaps, and the density budgets.  \<open>U\<close> holds the Unicode
  tables, \<open>nfc\<close> and \<open>foldcase\<close> are the normalizations of theory Reader_Text.
\<close>

section \<open>Data\<close>

definition KindWord :: string where "KindWord = ''word''"

definition annotation_kinds :: "string list" where
  "annotation_kinds = [KindWord, ''phrase'', ''idiom'', ''expression'', ''proverb'']"

record candidate =
  cand_block :: int
  cand_source :: string
  cand_occurrence :: int
  cand_kind :: string
  cand_key :: string
  cand_translation :: string
  cand_alternatives :: "string list"
  cand_literal :: string
  cand_meaning :: string
  cand_usage :: string
  cand_parts :: string
  cand_shadow :: bool

text \<open>\<open>Annotation\<close>, its fields that the normalization sets (the id, learning state and \<open>ShowShadow\<close>
  keep their zero values here).\<close>

record annotation =
  ann_block :: string
  ann_start :: nat
  ann_end :: nat
  ann_source :: string
  ann_kind :: string
  ann_key :: string
  ann_translation :: string
  ann_alternatives :: "string list"
  ann_literal :: string
  ann_meaning :: string
  ann_usage :: string
  ann_parts :: string
  ann_shadow :: bool

record candidate_span =
  span_ann :: annotation
  span_block :: nat
  span_provider :: nat

record diagnostic =
  InputCandidates :: nat
  ValidCandidates :: nat
  AcceptedCandidates :: nat
  RetainedCandidates :: nat
  DroppedCandidates :: nat
  OverlapsDropped :: nat
  ShadowSuppressed :: nat
  AnnotationBudget :: nat
  ShadowBudget :: nat
  BudgetExceeded :: bool

record normalization_result =
  result_annotations :: "annotation list"
  result_diagnostic :: diagnostic

datatype candidate_error =
    FieldNotUTF8 | EmptySource | NegativeOccurrence | InvalidKind | KeyError text_error | NoTranslation
  | TooManyAlternatives | EmptyAlternative | DuplicateAlternative | FieldControl
  | BlockOutOfRange | OccurrenceNotFound | SpanError text_error

datatype annotation_error = InvalidArticle article_error | InvalidCandidate nat candidate_error | NoInputBlocks

section \<open>One candidate\<close>

fun distinct_trimmed :: "string list \<Rightarrow> string list \<Rightarrow> candidate_error + unit" where
  "distinct_trimmed seen [] = Inr ()"
| "distinct_trimmed seen (a # as) =
     (let t = trim_space a in
      if t = [] then Inl EmptyAlternative
      else if t \<in> set seen then Inl DuplicateAlternative
      else distinct_trimmed (t # seen) as)"

definition plain_text :: "string \<Rightarrow> bool" where
  "plain_text s \<longleftrightarrow> (\<forall>r \<in> set (runes s). is_control r \<longrightarrow> r = 10 \<or> r = 13 \<or> r = 9)"

text \<open>The two loops over a Go map of fields visit them in any order; which field an error names is
  not modelled.\<close>

definition validateCandidateFields ::
  "(string \<Rightarrow> string) \<Rightarrow> (string \<Rightarrow> string) \<Rightarrow> candidate \<Rightarrow> candidate_error + unit" where
  "validateCandidateFields nfc foldcase c =
     (if \<not> (valid_utf8 (cand_source c) \<and> valid_utf8 (cand_key c) \<and> valid_utf8 (cand_translation c)
           \<and> valid_utf8 (cand_literal c) \<and> valid_utf8 (cand_meaning c) \<and> valid_utf8 (cand_usage c)
           \<and> valid_utf8 (cand_parts c)) then Inl FieldNotUTF8
      else if cand_source c = [] then Inl EmptySource
      else if cand_occurrence c < 0 then Inl NegativeOccurrence
      else if cand_kind c \<notin> set annotation_kinds then Inl InvalidKind
      else case NormalizeLearningKey nfc foldcase (cand_key c) of
        Inl e \<Rightarrow> Inl (KeyError e)
      | Inr _ \<Rightarrow>
          if blank (cand_translation c) then Inl NoTranslation
          else if length (cand_alternatives c) > 3 then Inl TooManyAlternatives
          else bind_res (distinct_trimmed [] (cand_alternatives c)) (\<lambda>_.
            if \<not> (plain_text (cand_source c) \<and> plain_text (cand_translation c)
                 \<and> plain_text (cand_literal c) \<and> plain_text (cand_meaning c)
                 \<and> plain_text (cand_usage c) \<and> plain_text (cand_parts c)) then Inl FieldControl
            else Inr ()))"

text \<open>\<open>occurrenceByteOffset\<close>; \<open>n\<close> counts the occurrences still to skip.\<close>

fun occurrence_from :: "string \<Rightarrow> string \<Rightarrow> nat \<Rightarrow> nat \<Rightarrow> nat option" where
  "occurrence_from s needle start n =
     (case index_of needle (drop start s) of
        None \<Rightarrow> None
      | Some relative \<Rightarrow>
          (case n of
             0 \<Rightarrow> Some (start + relative)
           | Suc m \<Rightarrow> occurrence_from s needle (start + relative + length needle) m))"

declare occurrence_from.simps [simp del]

definition occurrenceByteOffset :: "string \<Rightarrow> string \<Rightarrow> int \<Rightarrow> candidate_error + nat" where
  "occurrenceByteOffset s needle occurrence =
     (if occurrence < 0 then Inl OccurrenceNotFound
      else case occurrence_from s needle 0 (nat occurrence) of
        None \<Rightarrow> Inl OccurrenceNotFound | Some i \<Rightarrow> Inr i)"

definition offset_of :: "string \<Rightarrow> nat \<Rightarrow> candidate_error + nat" where
  "offset_of s i = (case UTF16Offset s (int i) of Inl e \<Rightarrow> Inl (SpanError e) | Inr u \<Rightarrow> Inr u)"

definition normalizeCandidate ::
  "(string \<Rightarrow> string) \<Rightarrow> (string \<Rightarrow> string) \<Rightarrow> article \<Rightarrow> candidate \<Rightarrow> nat \<Rightarrow> candidate_error + candidate_span" where
  "normalizeCandidate nfc foldcase a c provider =
     (if cand_block c < 0 \<or> cand_block c \<ge> int (length (blocks a)) then Inl BlockOutOfRange
      else bind_res (validateCandidateFields nfc foldcase c) (\<lambda>_.
        (let block = blocks a ! nat (cand_block c) in
         bind_res (occurrenceByteOffset (block_text block) (cand_source c) (cand_occurrence c)) (\<lambda>byteStart.
         bind_res (offset_of (block_text block) byteStart) (\<lambda>startUTF16.
         bind_res (offset_of (block_text block) (byteStart + length (cand_source c))) (\<lambda>endUTF16.
           (case NormalizeLearningKey nfc foldcase (cand_key c) of
              Inl e \<Rightarrow> Inl (KeyError e)
            | Inr key \<Rightarrow>
                Inr \<lparr>span_ann =
                      \<lparr>ann_block = block_id block, ann_start = startUTF16, ann_end = endUTF16,
                       ann_source = cand_source c, ann_kind = cand_kind c, ann_key = key,
                       ann_translation = trim_space (cand_translation c),
                       ann_alternatives = map trim_space (cand_alternatives c),
                       ann_literal = trim_space (cand_literal c), ann_meaning = trim_space (cand_meaning c),
                       ann_usage = trim_space (cand_usage c), ann_parts = trim_space (cand_parts c),
                       ann_shadow = cand_shadow c\<rparr>,
                     span_block = nat (cand_block c), span_provider = provider\<rparr>)))))))"

fun normalize_all ::
  "(string \<Rightarrow> string) \<Rightarrow> (string \<Rightarrow> string) \<Rightarrow> article \<Rightarrow> nat \<Rightarrow> candidate list
     \<Rightarrow> annotation_error + candidate_span list" where
  "normalize_all nfc foldcase a i [] = Inr []"
| "normalize_all nfc foldcase a i (c # cs) =
     (case normalizeCandidate nfc foldcase a c i of
        Inl e \<Rightarrow> Inl (InvalidCandidate i e)
      | Inr s \<Rightarrow> bind_res (normalize_all nfc foldcase a (Suc i) cs) (\<lambda>ss. Inr (s # ss)))"

section \<open>Overlaps\<close>

definition groupPriority :: "string \<Rightarrow> nat" where
  "groupPriority kind = (if kind = KindWord then 1 else 0)"

text \<open>The first stable sort: groups before words, then longer, earlier, as provided.\<close>

definition priority_key :: "candidate_span \<Rightarrow> nat \<times> int \<times> nat \<times> nat" where
  "priority_key s =
     (groupPriority (ann_kind (span_ann s)),
      - (int (ann_end (span_ann s)) - int (ann_start (span_ann s))),
      ann_start (span_ann s), span_provider s)"

definition spansOverlap :: "annotation \<Rightarrow> annotation \<Rightarrow> bool" where
  "spansOverlap l r \<longleftrightarrow> ann_start l < ann_end r \<and> ann_start r < ann_end l"

definition clashes :: "candidate_span \<Rightarrow> candidate_span \<Rightarrow> bool" where
  "clashes s e \<longleftrightarrow> span_block s = span_block e \<and> spansOverlap (span_ann s) (span_ann e)"

text \<open>The greedy loop: accepted spans in order, and the number dropped.\<close>

fun accept_loop :: "candidate_span list \<Rightarrow> candidate_span list \<Rightarrow> nat \<Rightarrow> candidate_span list \<times> nat" where
  "accept_loop accepted [] dropped = (accepted, dropped)"
| "accept_loop accepted (s # ss) dropped =
     (if \<exists>e \<in> set accepted. clashes s e then accept_loop accepted ss (Suc dropped)
      else accept_loop (accepted @ [s]) ss dropped)"

definition position_key :: "candidate_span \<Rightarrow> nat \<times> nat \<times> nat" where
  "position_key s = (span_block s, ann_start (span_ann s), ann_end (span_ann s))"

section \<open>Budgets\<close>

fun count_words :: "unicode_tables \<Rightarrow> nat list \<Rightarrow> bool \<Rightarrow> nat" where
  "count_words U [] in_word = 0"
| "count_words U (r # rs) in_word =
     (let word = (is_letter U r \<or> is_number U r)
      in (if word \<and> \<not> in_word then 1 else 0) + count_words U rs word)"

definition countWords :: "unicode_tables \<Rightarrow> string \<Rightarrow> nat" where
  "countWords U s = count_words U (runes s) False"

definition countArticleWords :: "unicode_tables \<Rightarrow> article \<Rightarrow> nat" where
  "countArticleWords U a =
     (let n = sum_list (map (\<lambda>b. countWords U (block_text b)) (blocks a))
      in if n = 0 then 1 else n)"

text \<open>The retain loop: \<open>kept_anns\<close> and \<open>shadows\<close> are the accumulators, \<open>dropped\<close> and \<open>suppressed\<close> the
  diagnostic counters.\<close>

fun retain_loop ::
  "nat \<Rightarrow> nat \<Rightarrow> candidate_span list \<Rightarrow> annotation list \<Rightarrow> nat \<Rightarrow> nat \<Rightarrow> nat \<Rightarrow> annotation list \<times> nat \<times> nat" where
  "retain_loop budget shadow_budget [] kept_anns shadows dropped suppressed = (kept_anns, dropped, suppressed)"
| "retain_loop budget shadow_budget (s # ss) kept_anns shadows dropped suppressed =
     (if length kept_anns \<ge> budget
      then retain_loop budget shadow_budget ss kept_anns shadows (Suc dropped) suppressed
      else if ann_shadow (span_ann s) then
        (if shadows \<ge> shadow_budget
         then retain_loop budget shadow_budget ss (kept_anns @ [(span_ann s)\<lparr>ann_shadow := False\<rparr>])
                shadows dropped (Suc suppressed)
         else retain_loop budget shadow_budget ss (kept_anns @ [span_ann s]) (Suc shadows) dropped suppressed)
      else retain_loop budget shadow_budget ss (kept_anns @ [span_ann s]) shadows dropped suppressed)"

definition retain_order :: "candidate_span list \<Rightarrow> candidate_span list" where
  "retain_order accepted =
     filter (\<lambda>s. ann_kind (span_ann s) \<noteq> KindWord) accepted
     @ filter (\<lambda>s. ann_kind (span_ann s) = KindWord \<and> ann_shadow (span_ann s)) accepted
     @ filter (\<lambda>s. ann_kind (span_ann s) = KindWord \<and> \<not> ann_shadow (span_ann s)) accepted"

definition NormalizeCandidates ::
  "unicode_tables \<Rightarrow> (string \<Rightarrow> string) \<Rightarrow> (string \<Rightarrow> string) \<Rightarrow> parsers \<Rightarrow> article \<Rightarrow> candidate list
     \<Rightarrow> annotation_error + normalization_result" where
  "NormalizeCandidates U nfc foldcase Z a0 candidates =
     (case Validate Z a0 of
        Inl e \<Rightarrow> Inl (InvalidArticle e)
      | Inr a \<Rightarrow>
          bind_res (normalize_all nfc foldcase a 0 candidates) (\<lambda>spans.
            (let (greedy, overlaps) = accept_loop [] (sort_key priority_key spans) 0;
                 accepted = sort_key position_key greedy;
                 buckets = max 1 ((countArticleWords U a + 149) div 150);
                 budget = buckets * MaxAnnotationsPer150Words;
                 shadow_budget = buckets * MaxShadowsPer150Words;
                 (retained, dropped, suppressed) =
                   retain_loop budget shadow_budget (retain_order accepted) [] 0 0 0
             in Inr \<lparr>result_annotations = retained,
                     result_diagnostic =
                       \<lparr>InputCandidates = length candidates, ValidCandidates = length spans,
                        AcceptedCandidates = length accepted, RetainedCandidates = length retained,
                        DroppedCandidates = dropped, OverlapsDropped = overlaps,
                        ShadowSuppressed = suppressed, AnnotationBudget = budget,
                        ShadowBudget = shadow_budget, BudgetExceeded = (length accepted > budget)\<rparr>\<rparr>)))"

text \<open>\<open>ValidateCandidates\<close>, which a provider adapter calls before the full normalization.\<close>

fun validate_candidates_loop ::
  "(string \<Rightarrow> string) \<Rightarrow> (string \<Rightarrow> string) \<Rightarrow> article_input \<Rightarrow> nat \<Rightarrow> candidate list \<Rightarrow> annotation_error + unit" where
  "validate_candidates_loop nfc foldcase input i [] = Inr ()"
| "validate_candidates_loop nfc foldcase input i (c # cs) =
     (if cand_block c < 0 \<or> cand_block c \<ge> int (length (input_blocks input))
      then Inl (InvalidCandidate i BlockOutOfRange)
      else case validateCandidateFields nfc foldcase c of
        Inl e \<Rightarrow> Inl (InvalidCandidate i e)
      | Inr _ \<Rightarrow>
          (case occurrenceByteOffset (input_text (input_blocks input ! nat (cand_block c)))
                  (cand_source c) (cand_occurrence c) of
             Inl e \<Rightarrow> Inl (InvalidCandidate i e)
           | Inr _ \<Rightarrow> validate_candidates_loop nfc foldcase input (Suc i) cs))"

definition ValidateCandidates ::
  "(string \<Rightarrow> string) \<Rightarrow> (string \<Rightarrow> string) \<Rightarrow> article_input \<Rightarrow> candidate list \<Rightarrow> annotation_error + unit" where
  "ValidateCandidates nfc foldcase input candidates =
     (if input_blocks input = [] then Inl NoInputBlocks
      else validate_candidates_loop nfc foldcase input 0 candidates)"

section \<open>Greedy acceptance\<close>

lemma clashes_sym: "clashes s e = clashes e s"
  by (auto simp: clashes_def spansOverlap_def)

lemma accept_loop_parts:
  "accept_loop acc ss d = (acc', d') \<Longrightarrow>
   \<exists>ys. acc' = acc @ ys \<and> set ys \<subseteq> set ss \<and> d + length ss = d' + length ys"
proof (induction acc ss d rule: accept_loop.induct)
  case (1 acc d)
  then show ?case by simp
next
  case (2 acc s ss d)
  show ?case
  proof (cases "\<exists>e \<in> set acc. clashes s e")
    case True
    with 2(1)[OF True] 2(3) obtain ys where
      "acc' = acc @ ys" "set ys \<subseteq> set ss" "Suc d + length ss = d' + length ys" by auto
    then show ?thesis by (intro exI[of _ ys]) auto
  next
    case False
    with 2(2)[OF False] 2(3) obtain ys where
      "acc' = acc @ s # ys" "set ys \<subseteq> set ss" "d + length ss = d' + length ys" by auto
    then show ?thesis by (intro exI[of _ "s # ys"]) auto
  qed
qed

lemma accept_loop_disjoint:
  "accept_loop acc ss d = (acc', d') \<Longrightarrow> sorted_wrt (\<lambda>x y. \<not> clashes x y) acc \<Longrightarrow>
   sorted_wrt (\<lambda>x y. \<not> clashes x y) acc'"
proof (induction acc ss d rule: accept_loop.induct)
  case (2 acc s ss d)
  show ?case
  proof (cases "\<exists>e \<in> set acc. clashes s e")
    case True
    with 2 show ?thesis by simp
  next
    case False
    then have "sorted_wrt (\<lambda>x y. \<not> clashes x y) (acc @ [s])"
      using 2(4) clashes_sym by (auto simp: sorted_wrt_append)
    with 2(2)[OF False] 2(3) False show ?thesis by simp
  qed
qed simp

lemma accept_loop_greedy:
  "accept_loop acc ss d = (acc', d') \<Longrightarrow>
   \<forall>e \<in> set acc. \<forall>s \<in> set ss. k e \<le> k s \<Longrightarrow> sorted (map k ss) \<Longrightarrow> s \<in> set ss \<Longrightarrow>
   s \<in> set acc' \<or> (\<exists>e \<in> set acc'. clashes s e \<and> k e \<le> (k s :: 'k :: linorder))"
proof (induction acc ss d rule: accept_loop.induct)
  case (2 acc t ss d)
  obtain ys where ys: "accept_loop acc (t # ss) d = (acc @ ys, d')"
    using accept_loop_parts[OF 2(3)] 2(3) by auto
  then have sub: "set acc \<subseteq> set acc'" using 2(3) by auto
  show ?case
  proof (cases "\<exists>e \<in> set acc. clashes t e")
    case True
    then have step: "accept_loop acc ss (Suc d) = (acc', d')" using 2(3) by simp
    show ?thesis
    proof (cases "s = t")
      case True
      then show ?thesis
        using \<open>\<exists>e \<in> set acc. clashes t e\<close> 2(4) sub by auto
    next
      case False
      then show ?thesis using 2(1)[OF True step] 2(4-6) by auto
    qed
  next
    case False
    then have step: "accept_loop (acc @ [t]) ss d = (acc', d')" using 2(3) by simp
    show ?thesis
    proof (cases "s = t")
      case True
      then show ?thesis using accept_loop_parts[OF step] by auto
    next
      case no: False
      then show ?thesis using 2(2)[OF False step] 2(4-6) by auto
    qed
  qed
qed simp

text \<open>Overlap removal is the greedy choice by priority.  Of any list of spans, the accepted ones do not
  clash pairwise, are spans of the input, and every span left out clashes with an accepted one that
  is at least as good (a group before a word, then the longer, the earlier, the one offered first); the
  counter says how many were left out.\<close>
theorem accept_loop_priority:
  assumes "accept_loop [] (sort_key priority_key spans) 0 = (accepted, dropped)"
  shows "sorted_wrt (\<lambda>x y. \<not> clashes x y) accepted \<and> set accepted \<subseteq> set spans \<and>
    length accepted + dropped = length spans \<and>
    (\<forall>s \<in> set spans. s \<in> set accepted \<or>
       (\<exists>e \<in> set accepted. clashes s e \<and> priority_key e \<le> priority_key s))"
proof -
  have "sorted_wrt (\<lambda>x y. \<not> clashes x y) accepted"
    using accept_loop_disjoint[OF assms] by simp
  moreover have "set accepted \<subseteq> set spans \<and> length accepted + dropped = length spans"
    using accept_loop_parts[OF assms] by auto
  moreover have "s \<in> set accepted \<or> (\<exists>e \<in> set accepted. clashes s e \<and> priority_key e \<le> priority_key s)"
    if "s \<in> set spans" for s
    using accept_loop_greedy[OF assms, of priority_key s] that by simp
  ultimately show ?thesis by blast
qed

section \<open>Retention\<close>

definition same_text :: "candidate_span \<Rightarrow> annotation \<Rightarrow> bool" where
  "same_text s x \<longleftrightarrow> x = span_ann s \<or> x = (span_ann s)\<lparr>ann_shadow := False\<rparr>"

abbreviation shadow_count :: "annotation list \<Rightarrow> nat" where
  "shadow_count xs \<equiv> length (filter ann_shadow xs)"

lemma retain_loop_props:
  "retain_loop B S ss kp sh dr su = (out, dr', su') \<Longrightarrow> shadow_count kp = sh \<Longrightarrow> sh \<le> S \<Longrightarrow>
   length kp \<le> B \<Longrightarrow>
   (\<exists>ys. out = kp @ ys \<and> list_all2 same_text (take (B - length kp) ss) ys) \<and>
   shadow_count out \<le> S \<and> dr' = dr + (length ss - (B - length kp))"
proof (induction B S ss kp sh dr su rule: retain_loop.induct)
  case (1 B S kp sh dr su)
  then show ?case by simp
next
  case (2 B S s ss kp sh dr su)
  show ?case
  proof (cases "B \<le> length kp")
    case True
    then have "retain_loop B S ss kp sh (Suc dr) su = (out, dr', su')" using "2.prems"(1) by simp
    from "2.IH"(1)[OF True this] "2.prems"(2-4) True show ?thesis by simp
  next
    case False
    define x where "x = (if ann_shadow (span_ann s) \<and> S \<le> sh
      then (span_ann s)\<lparr>ann_shadow := False\<rparr> else span_ann s)"
    define sh2 where "sh2 = (if ann_shadow (span_ann s) \<and> \<not> S \<le> sh then Suc sh else sh)"
    have tk: "take (B - length kp) (s # ss) = s # take (B - length (kp @ [x])) ss"
    proof -
      have "B - length kp = Suc (B - length (kp @ [x]))" using False by simp
      then show ?thesis by simp
    qed
    have x: "same_text s x" "shadow_count (kp @ [x]) = sh2" "sh2 \<le> S" "length (kp @ [x]) \<le> B"
      using "2.prems"(2,3) False by (auto simp: x_def sh2_def same_text_def)
    have "(\<exists>ys. out = (kp @ [x]) @ ys \<and> list_all2 same_text (take (B - length (kp @ [x])) ss) ys) \<and>
        shadow_count out \<le> S \<and> dr' = dr + (length ss - (B - length (kp @ [x])))"
    proof (cases "ann_shadow (span_ann s)")
      case True
      show ?thesis
      proof (cases "S \<le> sh")
        case s: True
        then have "retain_loop B S ss (kp @ [x]) sh dr (Suc su) = (out, dr', su')"
          using "2.prems"(1) False True by (simp add: x_def)
        then show ?thesis using "2.IH"(2)[OF False True s] x s by (simp add: x_def True sh2_def)
      next
        case s: False
        then have "retain_loop B S ss (kp @ [x]) (Suc sh) dr su = (out, dr', su')"
          using "2.prems"(1) False True by (simp add: x_def)
        then show ?thesis using "2.IH"(3)[OF False True s] x s by (simp add: x_def True sh2_def)
      qed
    next
      case no: False
      then have "retain_loop B S ss (kp @ [x]) sh dr su = (out, dr', su')"
        using "2.prems"(1) False by (simp add: x_def)
      then show ?thesis using "2.IH"(4)[OF False no] x by (simp add: x_def no sh2_def)
    qed
    then obtain ys where ys: "out = kp @ x # ys" "list_all2 same_text (take (B - length (kp @ [x])) ss) ys"
        "shadow_count out \<le> S" "dr' = dr + (length ss - (B - length (kp @ [x])))" by auto
    have "list_all2 same_text (take (B - length kp) (s # ss)) (x # ys)"
      unfolding tk using ys(2) x(1) by simp
    moreover have "dr' = dr + (length (s # ss) - (B - length kp))" using ys(4) False by simp
    ultimately show ?thesis using ys(1,3) by blast
  qed
qed

section \<open>The result of normalization\<close>

lemma slice_take: "slice s i (i + n) = take n (drop i s)"
  by (simp add: slice_def take_drop add.commute)

lemma index_of_append:
  assumes "index_of p s = Some i"
  shows "i + length p \<le> length s" and "take (length p) (drop i s) = p"
proof -
  show p: "take (length p) (drop i s) = p" using index_of_Some[OF assms] by simp
  have "min (length s - i) (length p) = length p" using arg_cong[OF p, of length] by simp
  then show "i + length p \<le> length s" using index_of_Some[OF assms] by linarith
qed

lemma occurrence_from_slice:
  "occurrence_from s needle start n = Some i \<Longrightarrow> start \<le> length s \<Longrightarrow>
   i + length needle \<le> length s \<and> slice s i (i + length needle) = needle"
proof (induction s needle start n rule: occurrence_from.induct)
  case (1 s needle start n)
  obtain rel where r: "index_of needle (drop start s) = Some rel"
    using 1(2) by (auto simp: occurrence_from.simps[of s] split: option.splits)
  note ix = index_of_append[OF r]
  have sl: "slice s (start + rel) (start + rel + length needle) = needle"
    unfolding slice_take using ix(2) by (simp add: add.commute)
  have le: "start + rel + length needle \<le> length s" using ix(1) 1(3) by simp
  show ?case
  proof (cases n)
    case 0
    then show ?thesis using 1(2) r sl le by (simp add: occurrence_from.simps[of s])
  next
    case (Suc m)
    then have "occurrence_from s needle (start + rel + length needle) m = Some i"
      using 1(2) r by (simp add: occurrence_from.simps[of s _ start])
    then show ?thesis using 1(1)[OF r Suc] le by simp
  qed
qed

text \<open>A normalized candidate is exactly its source text in its block.\<close>

definition resolved :: "article \<Rightarrow> nat \<Rightarrow> annotation \<Rightarrow> bool" where
  "resolved a k x \<longleftrightarrow> k < length (blocks a) \<and> ann_block x = block_id (blocks a ! k) \<and>
     TextForUTF16Span (block_text (blocks a ! k)) (int (ann_start x)) (int (ann_end x)) = Inr (ann_source x)"

lemma normalizeCandidate_resolved:
  assumes "normalizeCandidate nfc foldcase a c i = Inr s" and "\<forall>b \<in> set (blocks a). valid_utf8 (block_text b)"
  shows "resolved a (span_block s) (span_ann s)"
proof -
  let ?b = "blocks a ! nat (cand_block c)"
  have v: "validateCandidateFields nfc foldcase c = Inr ()"
    using assms(1) by (auto simp: normalizeCandidate_def bind_res_Inr_conv split: if_splits)
  then obtain key where key: "NormalizeLearningKey nfc foldcase (cand_key c) = Inr key"
    by (auto simp: validateCandidateFields_def split: if_splits sum.splits)
  obtain j where k: "nat (cand_block c) < length (blocks a)"
    and o: "occurrenceByteOffset (block_text ?b) (cand_source c) (cand_occurrence c) = Inr j"
    and st: "offset_of (block_text ?b) j = Inr (ann_start (span_ann s))"
    and en: "offset_of (block_text ?b) (j + length (cand_source c)) = Inr (ann_end (span_ann s))"
    and s: "span_block s = nat (cand_block c)" "ann_block (span_ann s) = block_id ?b"
      "ann_source (span_ann s) = cand_source c"
    using assms(1) by (auto simp: normalizeCandidate_def Let_def bind_res_Inr_conv key split: if_splits)
  have vb: "valid_utf8 (block_text ?b)" using assms(2) k by simp
  have ne: "cand_source c \<noteq> []" using v by (auto simp: validateCandidateFields_def split: if_splits)
  have sl: "slice (block_text ?b) j (j + length (cand_source c)) = cand_source c"
    using o occurrence_from_slice[of "block_text ?b" "cand_source c" 0]
    by (auto simp: occurrenceByteOffset_def split: if_splits option.splits)
  have cuts: "rune_cut (block_text ?b) j" "rune_cut (block_text ?b) (j + length (cand_source c))"
    "ann_start (span_ann s) = UTF16Len (take j (block_text ?b))"
    "ann_end (span_ann s) = UTF16Len (take (j + length (cand_source c)) (block_text ?b))"
    using st en UTF16Offset_cut[OF vb, of j] UTF16Offset_cut[OF vb, of "j + length (cand_source c)"]
    by (auto simp: offset_of_def split: sum.splits)
  show ?thesis
    using TextForUTF16Span_slice[OF vb cuts(1,2)] ne k s sl cuts(3,4) by (simp add: resolved_def)
qed

lemma normalize_all_resolved:
  assumes "normalize_all nfc foldcase a i cs = Inr spans" and "\<forall>b \<in> set (blocks a). valid_utf8 (block_text b)"
  shows "length spans = length cs \<and> (\<forall>s \<in> set spans. resolved a (span_block s) (span_ann s))"
  using assms(1)
proof (induction cs arbitrary: i spans)
  case (Cons c cs)
  then obtain s ss where "normalizeCandidate nfc foldcase a c i = Inr s"
    "normalize_all nfc foldcase a (Suc i) cs = Inr ss" "spans = s # ss"
    by (auto simp: bind_res_Inr_conv split: sum.splits)
  with Cons.IH normalizeCandidate_resolved[OF _ assms(2)] show ?case by auto
qed simp

lemma validate_blocks_utf8:
  "validate_blocks Z aid i n bs = Inr bs' \<Longrightarrow> \<forall>b \<in> set bs'. valid_utf8 (block_text b)"
  by (induction Z aid i n bs arbitrary: bs' rule: validate_blocks.induct)
    (auto simp: bind_res_Inr_conv split: if_splits sum.splits)

lemma Validate_utf8: "Validate Z a0 = Inr a \<Longrightarrow> \<forall>b \<in> set (blocks a). valid_utf8 (block_text b)"
  by (auto simp: Validate_def Let_def bind_res_Inr_conv split: sum.splits if_splits
      dest!: validate_blocks_utf8)

lemma mset_retain_order: "mset (retain_order xs) = mset xs"
  by (induction xs) (auto simp: retain_order_def)

lemma sorted_wrt_take: "sorted_wrt P xs \<Longrightarrow> sorted_wrt P (take n xs)"
  by (metis append_take_drop_id sorted_wrt_append)

lemma same_text_resolved:
  "same_text s x \<Longrightarrow> resolved a k (span_ann s) \<Longrightarrow> resolved a k x"
  by (auto simp: same_text_def resolved_def)

lemma same_text_overlap:
  "same_text s x \<Longrightarrow> same_text t y \<Longrightarrow> spansOverlap x y \<longleftrightarrow> spansOverlap (span_ann s) (span_ann t)"
  by (auto simp: same_text_def spansOverlap_def)

text \<open>C13: what normalization returns.  For an article that validates, the annotations stay within the
  budgets of the article's length: at most 16 of them, and at most 8 shadow subtitles, for each started
  150 words of the article (an article without words counts as one started); the diagnostic reports just these two
  budgets.  Each annotation belongs to a block of the article and
  its UTF-16 span extracts exactly its source text there; no two of one block overlap; and the
  diagnostic accounts for every candidate, as retained, dropped over budget or dropped for an overlap.\<close>
theorem NormalizeCandidates_sound:
  assumes "NormalizeCandidates U nfc foldcase Z a0 candidates = Inr res" and "Validate Z a0 = Inr a"
  shows "length (result_annotations res) \<le> max 1 ((countArticleWords U a + 149) div 150) * 16 \<and>
    length (filter ann_shadow (result_annotations res)) \<le> max 1 ((countArticleWords U a + 149) div 150) * 8 \<and>
    AnnotationBudget (result_diagnostic res) = max 1 ((countArticleWords U a + 149) div 150) * 16 \<and>
    ShadowBudget (result_diagnostic res) = max 1 ((countArticleWords U a + 149) div 150) * 8 \<and>
    InputCandidates (result_diagnostic res) = length (result_annotations res)
      + DroppedCandidates (result_diagnostic res) + OverlapsDropped (result_diagnostic res) \<and>
    (\<exists>ks. length ks = length (result_annotations res) \<and>
      (\<forall>i < length ks. resolved a (ks ! i) (result_annotations res ! i)) \<and>
      (\<forall>j < length ks. \<forall>i < j. ks ! i = ks ! j \<longrightarrow>
         \<not> spansOverlap (result_annotations res ! i) (result_annotations res ! j)))"
proof -
  define B where "B = max 1 ((countArticleWords U a + 149) div 150) * MaxAnnotationsPer150Words"
  define S where "S = max 1 ((countArticleWords U a + 149) div 150) * MaxShadowsPer150Words"
  obtain spans where n: "normalize_all nfc foldcase a 0 candidates = Inr spans"
    using assms by (auto simp: NormalizeCandidates_def bind_res_Inr_conv)
  obtain greedy overlaps where g: "accept_loop [] (sort_key priority_key spans) 0 = (greedy, overlaps)"
    by (cases "accept_loop [] (sort_key priority_key spans) 0")
  define order where "order = retain_order (sort_key position_key greedy)"
  obtain anns dropped suppressed where r: "retain_loop B S order [] 0 0 0 = (anns, dropped, suppressed)"
    by (cases "retain_loop B S order [] 0 0 0")
  have res: "result_annotations res = anns" "DroppedCandidates (result_diagnostic res) = dropped"
    "OverlapsDropped (result_diagnostic res) = overlaps" "AnnotationBudget (result_diagnostic res) = B"
    "ShadowBudget (result_diagnostic res) = S" "InputCandidates (result_diagnostic res) = length candidates"
    using assms g r n by (auto simp: NormalizeCandidates_def B_def S_def order_def Let_def)
  have rl: "list_all2 same_text (take B order) anns" "shadow_count anns \<le> S" "dropped = length order - B"
    using retain_loop_props[OF r] by auto
  have m: "mset order = mset greedy" by (simp add: order_def mset_retain_order)
  have acc: "sorted_wrt (\<lambda>x y. \<not> clashes x y) greedy" "set greedy \<subseteq> set spans"
    "length greedy + overlaps = length spans"
    using accept_loop_disjoint[OF g] accept_loop_parts[OF g] by auto
  have "sorted_wrt (\<lambda>x y. \<not> clashes x y) order"
    using acc(1) m by (simp add: pairwise_mset clashes_sym)
  then have pw: "sorted_wrt (\<lambda>x y. \<not> clashes x y) (take B order)" by (rule sorted_wrt_take)
  have lo: "length order = length greedy" using m by (metis size_mset)
  have la: "length anns = length (take B order)" using list_all2_lengthD[OF rl(1)] by simp
  note all = normalize_all_resolved[OF n Validate_utf8[OF assms(2)]]
  have rs: "resolved a (span_block s) (span_ann s)" if "s \<in> set (take B order)" for s
    using that all acc(2) m in_set_takeD by (metis mset_eq_setD subsetD)
  have st: "same_text (take B order ! i) (anns ! i)" if "i < length anns" for i
    using rl(1) that la by (simp add: list_all2_conv_all_nth)
  define ks where "ks = map span_block (take B order)"
  have ks: "length ks = length anns" using la by (simp add: ks_def)
  have kr: "resolved a (ks ! i) (anns ! i)" if i: "i < length ks" for i
  proof -
    have j: "i < length (take B order)" using i by (simp add: ks_def)
    then have k: "ks ! i = span_block (take B order ! i)" by (simp only: ks_def nth_map)
    show ?thesis
      unfolding k by (rule same_text_resolved[OF st rs[OF nth_mem[OF j]]]) (use i ks in simp)
  qed
  have ko: "\<not> spansOverlap (anns ! i) (anns ! j)" if j: "j < length ks" "i < j" "ks ! i = ks ! j" for i j
  proof -
    have l: "j < length (take B order)" "i < length (take B order)" using j by (auto simp: ks_def)
    then have "span_block (take B order ! i) = span_block (take B order ! j)"
      using j(3) by (simp only: ks_def nth_map)
    moreover have "\<not> clashes (take B order ! i) (take B order ! j)"
      using pw l(1) j(2) sorted_wrt_nth_less by blast
    ultimately show ?thesis
      using same_text_overlap[OF st st, of i j] j ks by (simp add: clashes_def)
  qed
  have "length anns \<le> B" using la by simp
  moreover have "length candidates = length anns + dropped + overlaps"
    using all acc(3) lo la rl(3) by auto
  moreover have "B = max 1 ((countArticleWords U a + 149) div 150) * 16"
    "S = max 1 ((countArticleWords U a + 149) div 150) * 8"
    by (simp_all add: B_def S_def MaxAnnotationsPer150Words_def MaxShadowsPer150Words_def)
  ultimately show ?thesis
    using rl(2) ks kr ko unfolding res by (intro conjI exI[of _ ks]) auto
qed

text \<open>An article of one paragraph and a candidate in it.\<close>

definition sample_art :: article where
  "sample_art = \<lparr>article_id = sample_fresh 0, title = ''Dag'', source_language = ''nl'',
     target_language = ''en'', enrichment_status = ''draft'', analysis_status = ''needs_analysis'',
     narration_status = ''not_requested'', blocks = [new_block sample_fresh (0, ''Ja'')]\<rparr>"

definition sample_candidate :: candidate where
  "sample_candidate = \<lparr>cand_block = 0, cand_source = ''Ja'', cand_occurrence = 0, cand_kind = KindWord,
     cand_key = ''ja'', cand_translation = ''yes'', cand_alternatives = [], cand_literal = [],
     cand_meaning = [], cand_usage = [], cand_parts = [], cand_shadow = True\<rparr>"

lemma sample_art_valid: "Validate sample_parsers sample_art = Inr sample_art"
proof -
  have tag: "tag_characters ''Dag''" "tag_characters ''nl''" "tag_characters ''en''"
    by (rule tag_characters_letters, simp add: ascii_letter_def byte_def)+
  have t: "trim_space ''Dag'' = ''Dag''" "trim_space ''nl'' = ''nl''" "trim_space ''en'' = ''en''"
    by (rule trim_space_tag, rule tag)+
  have f: "ParseULID (parse_strict sample_parsers) (sample_fresh i) = Inr (sample_fresh i)"
    "\<not> ULID_IsZero (sample_fresh i)" "sample_fresh i \<noteq> []" for i
    using sample_parsers_ok(1) by (auto simp: ulid_supply_def ULID_IsZero_def)
  show ?thesis
    by (simp add: Validate_def sample_art_def new_block_def ULID_String_def f t scalarCount_def ascii_runes
        byte_def MaxArticleTitleScalars_def MaxArticleBodyBytes_def ascii_valid enrichment_statuses_def
        language_of_def ParseBCP47_def sample_parsers_def[THEN arg_cong, of parse_tag]
        sample_parsers_def[THEN arg_cong, of is_root] tag Let_def ascii_blank is_space_def)
qed

lemma sample_candidate_spans:
  "normalize_all (\<lambda>s. s) (\<lambda>s. s) sample_art 0 [sample_candidate] =
     Inr [\<lparr>span_ann = \<lparr>ann_block = sample_fresh 1, ann_start = 0, ann_end = 2, ann_source = ''Ja'',
            ann_kind = KindWord, ann_key = ''ja'', ann_translation = trim_space ''yes'',
            ann_alternatives = [], ann_literal = trim_space [], ann_meaning = trim_space [],
            ann_usage = trim_space [], ann_parts = trim_space [], ann_shadow = True\<rparr>,
          span_block = 0, span_provider = 0\<rparr>]"
proof -
  have key: "NormalizeLearningKey (\<lambda>s. s) (\<lambda>s. s) ''ja'' = Inr ''ja''"
    by (simp add: NormalizeLearningKey_def ascii_valid ascii_chunks byte_def is_space_def is_control_def
        write_rune_def rune_error_def)
  have occ: "occurrence_from ''Ja'' ''Ja'' 0 0 = Some 0"
    by (simp add: occurrence_from.simps has_prefix_def)
  have off: "UTF16Offset ''Ja'' 0 = Inr 0" "UTF16Offset ''Ja'' 2 = Inr 2"
    by (simp_all add: UTF16Offset_def isRuneBoundary_def UTF16Len_def ascii_runes byte_def rune_units_def)
  show ?thesis
    by (simp add: normalizeCandidate_def sample_art_def sample_candidate_def new_block_def
        validateCandidateFields_def ascii_valid byte_def annotation_kinds_def key ascii_blank is_space_def
        plain_text_def ascii_runes is_control_def occurrenceByteOffset_def occ offset_of_def off Let_def)
qed

theorem NormalizeCandidates_sound_witness:
  "\<exists>res. NormalizeCandidates ascii_tables (\<lambda>s. s) (\<lambda>s. s) sample_parsers sample_art [sample_candidate] = Inr res
     \<and> length (result_annotations res) \<le> max 1 ((countArticleWords ascii_tables sample_art + 149) div 150) * 16"
proof -
  have "\<exists>res. NormalizeCandidates ascii_tables (\<lambda>s. s) (\<lambda>s. s) sample_parsers sample_art [sample_candidate] = Inr res"
    unfolding NormalizeCandidates_def sample_art_valid sum.case sample_candidate_spans bind_res_simps Let_def
    by (simp split: prod.split)
  then obtain res where r:
    "NormalizeCandidates ascii_tables (\<lambda>s. s) (\<lambda>s. s) sample_parsers sample_art [sample_candidate] = Inr res" ..
  from NormalizeCandidates_sound[OF r sample_art_valid] r show ?thesis by blast
qed

definition sample_span :: "string \<Rightarrow> nat \<Rightarrow> nat \<Rightarrow> candidate_span" where
  "sample_span kind st en =
     \<lparr>span_ann = \<lparr>ann_block = ''b'', ann_start = st, ann_end = en, ann_source = [], ann_kind = kind,
        ann_key = [], ann_translation = [], ann_alternatives = [], ann_literal = [], ann_meaning = [],
        ann_usage = [], ann_parts = [], ann_shadow = False\<rparr>, span_block = 0, span_provider = 0\<rparr>"

theorem accept_loop_priority_witness:
  "accept_loop [] (sort_key priority_key [sample_span KindWord 2 4, sample_span ''phrase'' 0 5]) 0 =
     ([sample_span ''phrase'' 0 5], 1) \<and>
   (\<exists>e \<in> set [sample_span ''phrase'' 0 5]. clashes (sample_span KindWord 2 4) e)"
proof -
  have a: "accept_loop [] (sort_key priority_key [sample_span KindWord 2 4, sample_span ''phrase'' 0 5]) 0 =
     ([sample_span ''phrase'' 0 5], 1)"
    by (simp add: sample_span_def priority_key_def groupPriority_def clashes_def spansOverlap_def KindWord_def)
  have "sample_span KindWord 2 4 \<notin> set [sample_span ''phrase'' 0 5]"
    by (simp add: sample_span_def KindWord_def)
  with accept_loop_priority[OF a] a show ?thesis by auto
qed

end
