(* ===== verification/Plugin_Registry.thy ===== *)
theory Plugin_Registry
  imports Go_Text "HOL-Library.Multiset"
begin

text \<open>
  Plugin registration, internal/plugins/pending.go and registry.go, over the registration types of
  pkg/pluginapi/v1/registration.go.  A transaction collects the registrations of one
  \<open>Plugin.Register\<close> call and the registry publishes all of them or none.  Handlers are opaque values
  of the type \<open>'h\<close>; mutexes make every method one atomic step.  A Go map is a map; a map of slices
  is a function with the empty list for a missing key.
\<close>

section \<open>Registrations\<close>

record 'h ProviderRegistration =
  pr_id :: string
  pr_capability :: string
  pr_name :: string
  pr_priority :: int
  pr_provider :: 'h

record 'h TransformerRegistration =
  tr_id :: string
  tr_capability :: string
  tr_priority :: int
  tr_transformer :: 'h

record 'h ValidatorRegistration =
  vr_id :: string
  vr_capability :: string
  vr_validator :: 'h

record 'h ObserverRegistration =
  or_id :: string
  or_event_types :: "string list"
  or_observer :: 'h

record 'h JobHandlerRegistration =
  jr_job_type :: string
  jr_handler :: 'h

record 'h EventHandlerRegistration =
  er_event_types :: "string list"
  er_handler :: 'h

record 'h CommandRegistration =
  cr_id :: string
  cr_label :: string
  cr_description :: string
  cr_category :: string
  cr_handler :: 'h

record UIRegistration =
  ur_id :: string
  ur_label :: string
  ur_type :: string
  ur_container :: string
  ur_priority :: int
  ur_icon :: string
  ur_source_url :: string

text \<open>The private entry types: the registration with the plugin that owns it.\<close>

record 'h providerEntry =
  p_plugin :: string
  p_reg :: "'h ProviderRegistration"

record 'h transformerEntry =
  t_plugin :: string
  t_reg :: "'h TransformerRegistration"

record 'h validatorEntry =
  v_plugin :: string
  v_reg :: "'h ValidatorRegistration"

record 'h observerEntry =
  o_plugin :: string
  o_reg :: "'h ObserverRegistration"

record 'h jobHandlerEntry =
  j_plugin :: string
  j_reg :: "'h JobHandlerRegistration"

record 'h eventHandlerEntry =
  e_plugin :: string
  e_types :: "string list"
  e_key :: string
  e_handler :: 'h

record 'h commandEntry =
  c_plugin :: string
  c_reg :: "'h CommandRegistration"

record uiEntry =
  u_plugin :: string
  u_reg :: UIRegistration

section \<open>Transactions\<close>

datatype transactionState = TxOpen | TxCommitted | TxRolledBack

datatype reg_error =
    EmptyPluginID | TransactionIs transactionState | EmptyRegistrationID
  | DuplicateInTransaction string | EmptyEventType | RepeatedEventType string
  | DuplicateCommitted string | NilPlugin | RegisterFailed | RegisterPanicked | NotFound string

record 'h pending =
  pt_plugin :: string
  pt_state :: transactionState
  pt_err :: "reg_error option"
  pt_providers :: "'h providerEntry list"
  pt_transformers :: "'h transformerEntry list"
  pt_validators :: "'h validatorEntry list"
  pt_observers :: "'h observerEntry list"
  pt_jobs :: "'h jobHandlerEntry list"
  pt_events :: "'h eventHandlerEntry list"
  pt_commands :: "'h commandEntry list"
  pt_uis :: "uiEntry list"

definition clearLocked :: "'h pending \<Rightarrow> 'h pending" where
  "clearLocked pt =
     pt\<lparr>pt_providers := [], pt_transformers := [], pt_validators := [], pt_observers := [],
        pt_jobs := [], pt_events := [], pt_commands := [], pt_uis := []\<rparr>"

text \<open>The first error stays; the transaction is rolled back.\<close>

definition failLocked :: "reg_error \<Rightarrow> 'h pending \<Rightarrow> (reg_error + unit) \<times> 'h pending" where
  "failLocked e pt =
     (let e' = (case pt_err pt of None \<Rightarrow> e | Some old \<Rightarrow> old)
      in (Inl e', (clearLocked pt)\<lparr>pt_err := Some e', pt_state := TxRolledBack\<rparr>))"

definition requireOpenLocked :: "'h pending \<Rightarrow> (reg_error + unit) \<times> 'h pending" where
  "requireOpenLocked pt =
     (case pt_err pt of
        Some e \<Rightarrow> (Inl e, pt)
      | None \<Rightarrow>
          if pt_state pt \<noteq> TxOpen then (Inl (TransactionIs (pt_state pt)), pt)
          else if pt_plugin pt = [] then failLocked EmptyPluginID pt
          else (Inr (), pt))"

text \<open>The common frame of the \<open>Add\<close> methods and \<open>Commit\<close>.\<close>

definition when_open ::
  "('h pending \<Rightarrow> (reg_error + unit) \<times> 'h pending) \<Rightarrow> 'h pending \<Rightarrow> (reg_error + unit) \<times> 'h pending" where
  "when_open body pt = (case requireOpenLocked pt of (Inl e, pt') \<Rightarrow> (Inl e, pt') | (Inr _, pt') \<Rightarrow> body pt')"

definition AddProvider :: "'h ProviderRegistration \<Rightarrow> 'h pending \<Rightarrow> (reg_error + unit) \<times> 'h pending" where
  "AddProvider reg = when_open (\<lambda>pt.
     if pr_id reg = [] then failLocked EmptyRegistrationID pt
     else if \<exists>x \<in> set (pt_providers pt). pr_id (p_reg x) = pr_id reg
     then failLocked (DuplicateInTransaction (pr_id reg)) pt
     else (Inr (), pt\<lparr>pt_providers := pt_providers pt @ [\<lparr>p_plugin = pt_plugin pt, p_reg = reg\<rparr>]\<rparr>))"

definition AddTransformer :: "'h TransformerRegistration \<Rightarrow> 'h pending \<Rightarrow> (reg_error + unit) \<times> 'h pending" where
  "AddTransformer reg = when_open (\<lambda>pt.
     if tr_id reg = [] then failLocked EmptyRegistrationID pt
     else if \<exists>x \<in> set (pt_transformers pt). t_plugin x = pt_plugin pt \<and> tr_id (t_reg x) = tr_id reg
     then failLocked (DuplicateInTransaction (tr_id reg)) pt
     else (Inr (), pt\<lparr>pt_transformers := pt_transformers pt @ [\<lparr>t_plugin = pt_plugin pt, t_reg = reg\<rparr>]\<rparr>))"

definition AddValidator :: "'h ValidatorRegistration \<Rightarrow> 'h pending \<Rightarrow> (reg_error + unit) \<times> 'h pending" where
  "AddValidator reg = when_open (\<lambda>pt.
     if vr_id reg = [] then failLocked EmptyRegistrationID pt
     else if \<exists>x \<in> set (pt_validators pt). v_plugin x = pt_plugin pt \<and> vr_id (v_reg x) = vr_id reg
     then failLocked (DuplicateInTransaction (vr_id reg)) pt
     else (Inr (), pt\<lparr>pt_validators := pt_validators pt @ [\<lparr>v_plugin = pt_plugin pt, v_reg = reg\<rparr>]\<rparr>))"

definition AddObserver :: "'h ObserverRegistration \<Rightarrow> 'h pending \<Rightarrow> (reg_error + unit) \<times> 'h pending" where
  "AddObserver reg = when_open (\<lambda>pt.
     if or_id reg = [] then failLocked EmptyRegistrationID pt
     else if \<exists>x \<in> set (pt_observers pt). o_plugin x = pt_plugin pt \<and> or_id (o_reg x) = or_id reg
     then failLocked (DuplicateInTransaction (or_id reg)) pt
     else (Inr (), pt\<lparr>pt_observers := pt_observers pt @ [\<lparr>o_plugin = pt_plugin pt, o_reg = reg\<rparr>]\<rparr>))"

definition AddJobHandler :: "'h JobHandlerRegistration \<Rightarrow> 'h pending \<Rightarrow> (reg_error + unit) \<times> 'h pending" where
  "AddJobHandler reg = when_open (\<lambda>pt.
     if jr_job_type reg = [] then failLocked EmptyRegistrationID pt
     else if \<exists>x \<in> set (pt_jobs pt). jr_job_type (j_reg x) = jr_job_type reg
     then failLocked (DuplicateInTransaction (jr_job_type reg)) pt
     else (Inr (), pt\<lparr>pt_jobs := pt_jobs pt @ [\<lparr>j_plugin = pt_plugin pt, j_reg = reg\<rparr>]\<rparr>))"

text \<open>Event types sorted, none empty and none repeated; the key joins them with a NUL.\<close>

definition allEventsKey :: string where
  "allEventsKey = CHR 0x00 # ''all-events''"

fun join_nul :: "string list \<Rightarrow> string" where
  "join_nul [] = []"
| "join_nul [s] = s"
| "join_nul (s # ss) = s @ CHR 0x00 # join_nul ss"

fun check_types :: "string option \<Rightarrow> string list \<Rightarrow> reg_error option" where
  "check_types prev [] = None"
| "check_types prev (s # ss) =
     (if s = [] then Some EmptyEventType
      else if prev = Some s then Some (RepeatedEventType s)
      else check_types (Some s) ss)"

definition canonicalEventTypes :: "string list \<Rightarrow> reg_error + string list \<times> string" where
  "canonicalEventTypes types =
     (if types = [] then Inr ([], allEventsKey)
      else case check_types None (sort types) of
             Some e \<Rightarrow> Inl e
           | None \<Rightarrow> Inr (sort types, ''set:'' @ join_nul (sort types)))"

definition AddEventHandler :: "'h EventHandlerRegistration \<Rightarrow> 'h pending \<Rightarrow> (reg_error + unit) \<times> 'h pending" where
  "AddEventHandler reg = when_open (\<lambda>pt.
     case canonicalEventTypes (er_event_types reg) of
       Inl e \<Rightarrow> failLocked e pt
     | Inr (types, key) \<Rightarrow>
         if \<exists>x \<in> set (pt_events pt). e_plugin x = pt_plugin pt \<and> e_key x = key
         then failLocked (DuplicateInTransaction key) pt
         else (Inr (), pt\<lparr>pt_events := pt_events pt @
                 [\<lparr>e_plugin = pt_plugin pt, e_types = types, e_key = key, e_handler = er_handler reg\<rparr>]\<rparr>))"

definition AddCommand :: "'h CommandRegistration \<Rightarrow> 'h pending \<Rightarrow> (reg_error + unit) \<times> 'h pending" where
  "AddCommand reg = when_open (\<lambda>pt.
     if cr_id reg = [] then failLocked EmptyRegistrationID pt
     else if \<exists>x \<in> set (pt_commands pt). cr_id (c_reg x) = cr_id reg
     then failLocked (DuplicateInTransaction (cr_id reg)) pt
     else (Inr (), pt\<lparr>pt_commands := pt_commands pt @ [\<lparr>c_plugin = pt_plugin pt, c_reg = reg\<rparr>]\<rparr>))"

definition AddUI :: "UIRegistration \<Rightarrow> 'h pending \<Rightarrow> (reg_error + unit) \<times> 'h pending" where
  "AddUI reg = when_open (\<lambda>pt.
     if ur_id reg = [] then failLocked EmptyRegistrationID pt
     else if \<exists>x \<in> set (pt_uis pt). ur_id (u_reg x) = ur_id reg
     then failLocked (DuplicateInTransaction (ur_id reg)) pt
     else (Inr (), pt\<lparr>pt_uis := pt_uis pt @ [\<lparr>u_plugin = pt_plugin pt, u_reg = reg\<rparr>]\<rparr>))"

definition Rollback :: "'h pending \<Rightarrow> 'h pending" where
  "Rollback pt = (if pt_state pt \<noteq> TxOpen then pt else (clearLocked pt)\<lparr>pt_state := TxRolledBack\<rparr>)"

section \<open>The registry\<close>

type_synonym observer_tuple = "string \<times> string \<times> string"

record 'h registry =
  r_providers :: "string \<rightharpoonup> 'h providerEntry"
  r_transformers :: "'h transformerEntry list"
  r_validators :: "string \<Rightarrow> 'h validatorEntry list"
  r_observers :: "'h observerEntry list"
  r_jobs :: "string \<rightharpoonup> 'h jobHandlerEntry"
  r_events :: "'h eventHandlerEntry list"
  r_commands :: "string \<rightharpoonup> 'h commandEntry"
  r_uis :: "string \<rightharpoonup> uiEntry"
  r_capabilities :: "string list"
  r_completed :: "observer_tuple set"
  r_delivering :: "observer_tuple set"

definition NewRegistry :: "'h registry" where
  "NewRegistry = \<lparr>r_providers = Map.empty, r_transformers = [], r_validators = (\<lambda>_. []),
     r_observers = [], r_jobs = Map.empty, r_events = [], r_commands = Map.empty,
     r_uis = Map.empty, r_capabilities = [], r_completed = {}, r_delivering = {}\<rparr>"

definition BeginTx :: "string \<Rightarrow> 'h pending" where
  "BeginTx plugin = \<lparr>pt_plugin = plugin, pt_state = TxOpen, pt_err = None, pt_providers = [],
     pt_transformers = [], pt_validators = [], pt_observers = [], pt_jobs = [], pt_events = [],
     pt_commands = [], pt_uis = []\<rparr>"

text \<open>
  \<open>sort.Slice\<close> by the entries' identifying fields.  The keys of two committed entries differ
  (\<open>registry_ok\<close> below), so the sorted list is determined by its elements.
\<close>

definition transformer_key :: "'h transformerEntry \<Rightarrow> int \<times> string \<times> string" where
  "transformer_key x = (tr_priority (t_reg x), t_plugin x, tr_id (t_reg x))"

definition sortTransformers :: "'h transformerEntry list \<Rightarrow> 'h transformerEntry list" where
  "sortTransformers xs = sort_key transformer_key xs"

definition validator_key :: "'h validatorEntry \<Rightarrow> string \<times> string" where
  "validator_key x = (v_plugin x, vr_id (v_reg x))"

definition sortValidatorEntries :: "'h validatorEntry list \<Rightarrow> 'h validatorEntry list" where
  "sortValidatorEntries xs = sort_key validator_key xs"

definition all_validators :: "'h registry \<Rightarrow> 'h validatorEntry list" where
  "all_validators r = concat (map (r_validators r) (r_capabilities r))"

text \<open>
  \<open>commitLocked\<close>: the checks of all eight surfaces come before the first change.  Each check
  reports its first conflicting entry.
\<close>

definition first_conflict :: "('x \<Rightarrow> bool) \<Rightarrow> ('x \<Rightarrow> string) \<Rightarrow> 'x list \<Rightarrow> reg_error option" where
  "first_conflict taken name xs = map_option (\<lambda>x. DuplicateCommitted (name x)) (find taken xs)"

definition commit_conflicts :: "'h pending \<Rightarrow> 'h registry \<Rightarrow> reg_error option list" where
  "commit_conflicts pt r =
     [first_conflict (\<lambda>x. r_providers r (pr_id (p_reg x)) \<noteq> None) (\<lambda>x. pr_id (p_reg x)) (pt_providers pt),
      first_conflict (\<lambda>x. \<exists>y \<in> set (r_transformers r). t_plugin y = t_plugin x \<and> tr_id (t_reg y) = tr_id (t_reg x))
        (\<lambda>x. tr_id (t_reg x)) (pt_transformers pt),
      first_conflict (\<lambda>x. \<exists>y \<in> set (all_validators r). v_plugin y = v_plugin x \<and> vr_id (v_reg y) = vr_id (v_reg x))
        (\<lambda>x. vr_id (v_reg x)) (pt_validators pt),
      first_conflict (\<lambda>x. \<exists>y \<in> set (r_observers r). o_plugin y = o_plugin x \<and> or_id (o_reg y) = or_id (o_reg x))
        (\<lambda>x. or_id (o_reg x)) (pt_observers pt),
      first_conflict (\<lambda>x. r_jobs r (jr_job_type (j_reg x)) \<noteq> None) (\<lambda>x. jr_job_type (j_reg x)) (pt_jobs pt),
      first_conflict (\<lambda>x. \<exists>y \<in> set (r_events r). e_plugin y = e_plugin x \<and> e_key y = e_key x) e_key (pt_events pt),
      first_conflict (\<lambda>x. r_commands r (cr_id (c_reg x)) \<noteq> None) (\<lambda>x. cr_id (c_reg x)) (pt_commands pt),
      first_conflict (\<lambda>x. r_uis r (ur_id (u_reg x)) \<noteq> None) (\<lambda>x. ur_id (u_reg x)) (pt_uis pt)]"

fun first_error :: "reg_error option list \<Rightarrow> reg_error option" where
  "first_error [] = None"
| "first_error (None # es) = first_error es"
| "first_error (Some e # es) = Some e"

text \<open>The loops that publish: map stores, and appends to the slice of a capability.\<close>

definition put_all :: "('x \<Rightarrow> string) \<Rightarrow> 'x list \<Rightarrow> (string \<rightharpoonup> 'x) \<Rightarrow> (string \<rightharpoonup> 'x)" where
  "put_all key xs m = foldl (\<lambda>m x. m(key x \<mapsto> x)) m xs"

definition put_validators ::
  "'h validatorEntry list \<Rightarrow> (string \<Rightarrow> 'h validatorEntry list) \<Rightarrow> string \<Rightarrow> 'h validatorEntry list" where
  "put_validators xs f =
     foldl (\<lambda>f x. f(vr_capability (v_reg x) := f (vr_capability (v_reg x)) @ [x])) f xs"

definition add_keys :: "string list \<Rightarrow> string list \<Rightarrow> string list" where
  "add_keys ks known = foldl (\<lambda>known k. if k \<in> set known then known else known @ [k]) known ks"

definition commitLocked :: "'h pending \<Rightarrow> 'h registry \<Rightarrow> (reg_error + unit) \<times> 'h registry" where
  "commitLocked pt r =
     (case first_error (commit_conflicts pt r) of
        Some e \<Rightarrow> (Inl e, r)
      | None \<Rightarrow>
          (Inr (), r\<lparr>
             r_providers := put_all (\<lambda>x. pr_id (p_reg x)) (pt_providers pt) (r_providers r),
             r_transformers := sortTransformers (r_transformers r @ pt_transformers pt),
             r_validators := (\<lambda>c. sortValidatorEntries (put_validators (pt_validators pt) (r_validators r) c)),
             r_capabilities := add_keys (map (\<lambda>x. vr_capability (v_reg x)) (pt_validators pt)) (r_capabilities r),
             r_observers := r_observers r @ pt_observers pt,
             r_jobs := put_all (\<lambda>x. jr_job_type (j_reg x)) (pt_jobs pt) (r_jobs r),
             r_events := r_events r @ pt_events pt,
             r_commands := put_all (\<lambda>x. cr_id (c_reg x)) (pt_commands pt) (r_commands r),
             r_uis := put_all (\<lambda>x. ur_id (u_reg x)) (pt_uis pt) (r_uis r)\<rparr>))"

definition Commit :: "'h pending \<Rightarrow> 'h registry \<Rightarrow> (reg_error + unit) \<times> 'h pending \<times> 'h registry" where
  "Commit pt r =
     (case requireOpenLocked pt of
        (Inl e, pt') \<Rightarrow> (Inl e, pt', r)
      | (Inr _, pt') \<Rightarrow>
          (case commitLocked pt' r of
             (Inl e, r') \<Rightarrow> (case failLocked e pt' of (res, pt'') \<Rightarrow> (res, pt'', r'))
           | (Inr _, r') \<Rightarrow> (Inr (), (clearLocked pt')\<lparr>pt_state := TxCommitted\<rparr>, r')))"

section \<open>Registering a plugin\<close>

text \<open>
  A plugin's \<open>Register\<close> is code outside the program: what it does to the host is the sequence of its
  calls, and it returns, fails or panics.  Its calls may use what the host answered; the sequence is
  what it ended up calling.
\<close>

datatype 'h host_call =
    RegisterProvider "'h ProviderRegistration"
  | RegisterTransformer "'h TransformerRegistration"
  | RegisterValidator "'h ValidatorRegistration"
  | RegisterObserver "'h ObserverRegistration"
  | RegisterJobHandler "'h JobHandlerRegistration"
  | RegisterEventHandler "'h EventHandlerRegistration"
  | RegisterCommand "'h CommandRegistration"
  | RegisterUI UIRegistration

datatype plugin_outcome = Returned | Errored | Panicked

fun host_step :: "'h host_call \<Rightarrow> 'h pending \<Rightarrow> (reg_error + unit) \<times> 'h pending" where
  "host_step (RegisterProvider reg) pt = AddProvider reg pt"
| "host_step (RegisterTransformer reg) pt = AddTransformer reg pt"
| "host_step (RegisterValidator reg) pt = AddValidator reg pt"
| "host_step (RegisterObserver reg) pt = AddObserver reg pt"
| "host_step (RegisterJobHandler reg) pt = AddJobHandler reg pt"
| "host_step (RegisterEventHandler reg) pt = AddEventHandler reg pt"
| "host_step (RegisterCommand reg) pt = AddCommand reg pt"
| "host_step (RegisterUI reg) pt = AddUI reg pt"

fun host_calls :: "'h host_call list \<Rightarrow> 'h pending \<Rightarrow> (reg_error + unit) list \<times> 'h pending" where
  "host_calls [] pt = ([], pt)"
| "host_calls (c # cs) pt =
     (let (res, pt') = host_step c pt; (ress, pt'') = host_calls cs pt' in (res # ress, pt''))"

definition RegisterPlugin ::
  "string \<Rightarrow> ('h host_call list \<times> plugin_outcome) option \<Rightarrow> 'h registry
   \<Rightarrow> (reg_error + unit) \<times> 'h pending \<times> 'h registry" where
  "RegisterPlugin plugin code r =
     (case code of
        None \<Rightarrow> (Inl NilPlugin, BeginTx plugin, r)
      | Some (calls, outcome) \<Rightarrow>
          (let pt = snd (host_calls calls (BeginTx plugin))
           in case outcome of
                Panicked \<Rightarrow> (Inl RegisterPanicked, Rollback pt, r)
              | Errored \<Rightarrow> (Inl RegisterFailed, Rollback pt, r)
              | Returned \<Rightarrow>
                  (case Commit pt r of
                     (Inl e, pt', r') \<Rightarrow> (Inl e, Rollback pt', r')
                   | (Inr _, pt', r') \<Rightarrow> (Inr (), pt', r'))))"

end
