(* ===== verification/Plugin_Commit.thy ===== *)
theory Plugin_Commit
  imports Plugin_Registry
begin

text \<open>
  What a plugin registration publishes: the accepted calls described without the transaction's
  state, the transaction as a refinement of that description, all-or-nothing publication, and the
  invariant of the registry (unique identifiers, sorted lists) over every registration history.
\<close>

section \<open>What a list of calls asks for\<close>

definition providers_of :: "string \<Rightarrow> 'h host_call list \<Rightarrow> 'h providerEntry list" where
  "providers_of p cs = concat (map (\<lambda>c. case c of RegisterProvider g \<Rightarrow> [\<lparr>p_plugin = p, p_reg = g\<rparr>] | _ \<Rightarrow> []) cs)"

definition transformers_of :: "string \<Rightarrow> 'h host_call list \<Rightarrow> 'h transformerEntry list" where
  "transformers_of p cs = concat (map (\<lambda>c. case c of RegisterTransformer g \<Rightarrow> [\<lparr>t_plugin = p, t_reg = g\<rparr>] | _ \<Rightarrow> []) cs)"

definition validators_of :: "string \<Rightarrow> 'h host_call list \<Rightarrow> 'h validatorEntry list" where
  "validators_of p cs = concat (map (\<lambda>c. case c of RegisterValidator g \<Rightarrow> [\<lparr>v_plugin = p, v_reg = g\<rparr>] | _ \<Rightarrow> []) cs)"

definition observers_of :: "string \<Rightarrow> 'h host_call list \<Rightarrow> 'h observerEntry list" where
  "observers_of p cs = concat (map (\<lambda>c. case c of RegisterObserver g \<Rightarrow> [\<lparr>o_plugin = p, o_reg = g\<rparr>] | _ \<Rightarrow> []) cs)"

definition jobs_of :: "string \<Rightarrow> 'h host_call list \<Rightarrow> 'h jobHandlerEntry list" where
  "jobs_of p cs = concat (map (\<lambda>c. case c of RegisterJobHandler g \<Rightarrow> [\<lparr>j_plugin = p, j_reg = g\<rparr>] | _ \<Rightarrow> []) cs)"

definition event_entry :: "string \<Rightarrow> 'h EventHandlerRegistration \<Rightarrow> 'h eventHandlerEntry list" where
  "event_entry p g = (case canonicalEventTypes (er_event_types g) of
     Inl _ \<Rightarrow> [] | Inr (types, key) \<Rightarrow> [\<lparr>e_plugin = p, e_types = types, e_key = key, e_handler = er_handler g\<rparr>])"

definition events_of :: "string \<Rightarrow> 'h host_call list \<Rightarrow> 'h eventHandlerEntry list" where
  "events_of p cs = concat (map (\<lambda>c. case c of RegisterEventHandler g \<Rightarrow> event_entry p g | _ \<Rightarrow> []) cs)"

definition commands_of :: "string \<Rightarrow> 'h host_call list \<Rightarrow> 'h commandEntry list" where
  "commands_of p cs = concat (map (\<lambda>c. case c of RegisterCommand g \<Rightarrow> [\<lparr>c_plugin = p, c_reg = g\<rparr>] | _ \<Rightarrow> []) cs)"

definition uis_of :: "string \<Rightarrow> 'h host_call list \<Rightarrow> uiEntry list" where
  "uis_of p cs = concat (map (\<lambda>c. case c of RegisterUI g \<Rightarrow> [\<lparr>u_plugin = p, u_reg = g\<rparr>] | _ \<Rightarrow> []) cs)"

lemmas of_defs = providers_of_def transformers_of_def validators_of_def observers_of_def jobs_of_def
  events_of_def commands_of_def uis_of_def

definition pending_of :: "string \<Rightarrow> 'h host_call list \<Rightarrow> 'h pending" where
  "pending_of p cs = \<lparr>pt_plugin = p, pt_state = TxOpen, pt_err = None, pt_providers = providers_of p cs,
     pt_transformers = transformers_of p cs, pt_validators = validators_of p cs,
     pt_observers = observers_of p cs, pt_jobs = jobs_of p cs, pt_events = events_of p cs,
     pt_commands = commands_of p cs, pt_uis = uis_of p cs\<rparr>"

text \<open>Non-empty identifiers, each used once; event subscriptions well-formed and different.\<close>

definition names_ok :: "string list \<Rightarrow> bool" where
  "names_ok ns \<longleftrightarrow> [] \<notin> set ns \<and> distinct ns"

definition well_typed :: "'h host_call \<Rightarrow> bool" where
  "well_typed c = (case c of RegisterEventHandler g \<Rightarrow> (\<exists>x. canonicalEventTypes (er_event_types g) = Inr x) | _ \<Rightarrow> True)"

definition calls_ok :: "string \<Rightarrow> 'h host_call list \<Rightarrow> bool" where
  "calls_ok p cs \<longleftrightarrow>
     names_ok (map (pr_id \<circ> p_reg) (providers_of p cs)) \<and> names_ok (map (tr_id \<circ> t_reg) (transformers_of p cs)) \<and>
     names_ok (map (vr_id \<circ> v_reg) (validators_of p cs)) \<and> names_ok (map (or_id \<circ> o_reg) (observers_of p cs)) \<and>
     names_ok (map (jr_job_type \<circ> j_reg) (jobs_of p cs)) \<and> names_ok (map (cr_id \<circ> c_reg) (commands_of p cs)) \<and>
     names_ok (map (ur_id \<circ> u_reg) (uis_of p cs)) \<and> distinct (map e_key (events_of p cs)) \<and>
     (\<forall>c \<in> set cs. well_typed c)"

section \<open>The transaction implements it\<close>

lemma names_ok_snoc: "names_ok (ns @ [n]) \<longleftrightarrow> names_ok ns \<and> n \<noteq> [] \<and> n \<notin> set ns"
  by (auto simp: names_ok_def)

lemma of_Nil [simp]:
  "providers_of p [] = []" "transformers_of p [] = []" "validators_of p [] = []" "observers_of p [] = []"
  "jobs_of p [] = []" "events_of p [] = []" "commands_of p [] = []" "uis_of p [] = []"
  by (simp_all add: of_defs)

lemma of_snoc [simp]:
  "providers_of p (cs @ [c]) = providers_of p cs @ providers_of p [c]"
  "transformers_of p (cs @ [c]) = transformers_of p cs @ transformers_of p [c]"
  "validators_of p (cs @ [c]) = validators_of p cs @ validators_of p [c]"
  "observers_of p (cs @ [c]) = observers_of p cs @ observers_of p [c]"
  "jobs_of p (cs @ [c]) = jobs_of p cs @ jobs_of p [c]"
  "events_of p (cs @ [c]) = events_of p cs @ events_of p [c]"
  "commands_of p (cs @ [c]) = commands_of p cs @ commands_of p [c]"
  "uis_of p (cs @ [c]) = uis_of p cs @ uis_of p [c]"
  by (simp_all add: of_defs)

lemma plugin_of_entries:
  "x \<in> set (transformers_of p cs) \<Longrightarrow> t_plugin x = p" "y \<in> set (validators_of p cs) \<Longrightarrow> v_plugin y = p"
  "z \<in> set (observers_of p cs) \<Longrightarrow> o_plugin z = p" "e \<in> set (events_of p cs) \<Longrightarrow> e_plugin e = p"
  by (auto simp: of_defs event_entry_def split: host_call.splits sum.splits)

lemma same_plugin [simp]:
  "(\<exists>x \<in> set (transformers_of p cs). t_plugin x = p \<and> P x) \<longleftrightarrow> (\<exists>x \<in> set (transformers_of p cs). P x)"
  "(\<exists>y \<in> set (validators_of p cs). v_plugin y = p \<and> Q y) \<longleftrightarrow> (\<exists>y \<in> set (validators_of p cs). Q y)"
  "(\<exists>z \<in> set (observers_of p cs). o_plugin z = p \<and> R z) \<longleftrightarrow> (\<exists>z \<in> set (observers_of p cs). R z)"
  "(\<exists>e \<in> set (events_of p cs). e_plugin e = p \<and> S e) \<longleftrightarrow> (\<exists>e \<in> set (events_of p cs). S e)"
  by (auto dest: plugin_of_entries)

lemma pending_of_Nil: "pending_of p [] = BeginTx p"
  by (simp add: pending_of_def BeginTx_def)

lemma pending_of_parts [simp]:
  "pt_plugin (pending_of p cs) = p" "pt_state (pending_of p cs) = TxOpen" "pt_err (pending_of p cs) = None"
  "pt_providers (pending_of p cs) = providers_of p cs" "pt_transformers (pending_of p cs) = transformers_of p cs"
  "pt_validators (pending_of p cs) = validators_of p cs" "pt_observers (pending_of p cs) = observers_of p cs"
  "pt_jobs (pending_of p cs) = jobs_of p cs" "pt_events (pending_of p cs) = events_of p cs"
  "pt_commands (pending_of p cs) = commands_of p cs" "pt_uis (pending_of p cs) = uis_of p cs"
  by (simp_all add: pending_of_def)

lemma when_open_pending_of [simp]: "p \<noteq> [] \<Longrightarrow> when_open body (pending_of p cs) = body (pending_of p cs)"
  by (simp add: when_open_def requireOpenLocked_def)

lemma when_open_err: "pt_err pt = Some e \<Longrightarrow> when_open body pt = (Inl e, pt)"
  by (simp add: when_open_def requireOpenLocked_def)

definition rolled_back :: "reg_error \<Rightarrow> string \<Rightarrow> 'h pending" where
  "rolled_back e p = (BeginTx p)\<lparr>pt_err := Some e, pt_state := TxRolledBack\<rparr>"

lemma failLocked_pending_of [simp]: "failLocked e (pending_of p cs) = (Inl e, rolled_back e p)"
  by (simp add: failLocked_def clearLocked_def pending_of_def rolled_back_def BeginTx_def)

text \<open>One call on the transaction that has accepted \<open>cs\<close>: accepted exactly when the calls stay well-formed.\<close>

lemmas add_defs = AddProvider_def AddTransformer_def AddValidator_def AddObserver_def AddJobHandler_def
  AddCommand_def AddUI_def AddEventHandler_def

lemma of_single [simp]:
  "providers_of p [c] = (case c of RegisterProvider g \<Rightarrow> [\<lparr>p_plugin = p, p_reg = g\<rparr>] | _ \<Rightarrow> [])"
  "transformers_of p [c] = (case c of RegisterTransformer g \<Rightarrow> [\<lparr>t_plugin = p, t_reg = g\<rparr>] | _ \<Rightarrow> [])"
  "validators_of p [c] = (case c of RegisterValidator g \<Rightarrow> [\<lparr>v_plugin = p, v_reg = g\<rparr>] | _ \<Rightarrow> [])"
  "observers_of p [c] = (case c of RegisterObserver g \<Rightarrow> [\<lparr>o_plugin = p, o_reg = g\<rparr>] | _ \<Rightarrow> [])"
  "jobs_of p [c] = (case c of RegisterJobHandler g \<Rightarrow> [\<lparr>j_plugin = p, j_reg = g\<rparr>] | _ \<Rightarrow> [])"
  "events_of p [c] = (case c of RegisterEventHandler g \<Rightarrow> event_entry p g | _ \<Rightarrow> [])"
  "commands_of p [c] = (case c of RegisterCommand g \<Rightarrow> [\<lparr>c_plugin = p, c_reg = g\<rparr>] | _ \<Rightarrow> [])"
  "uis_of p [c] = (case c of RegisterUI g \<Rightarrow> [\<lparr>u_plugin = p, u_reg = g\<rparr>] | _ \<Rightarrow> [])"
  by (simp_all add: of_defs)

lemma pending_of_snoc:
  "pending_of p (cs @ [RegisterProvider gp]) = (pending_of p cs)\<lparr>pt_providers := providers_of p cs @ providers_of p [RegisterProvider gp]\<rparr>"
  "pending_of p (cs @ [RegisterTransformer gt]) = (pending_of p cs)\<lparr>pt_transformers := transformers_of p cs @ transformers_of p [RegisterTransformer gt]\<rparr>"
  "pending_of p (cs @ [RegisterValidator gv]) = (pending_of p cs)\<lparr>pt_validators := validators_of p cs @ validators_of p [RegisterValidator gv]\<rparr>"
  "pending_of p (cs @ [RegisterObserver go]) = (pending_of p cs)\<lparr>pt_observers := observers_of p cs @ observers_of p [RegisterObserver go]\<rparr>"
  "pending_of p (cs @ [RegisterJobHandler gj]) = (pending_of p cs)\<lparr>pt_jobs := jobs_of p cs @ jobs_of p [RegisterJobHandler gj]\<rparr>"
  "pending_of p (cs @ [RegisterCommand gc]) = (pending_of p cs)\<lparr>pt_commands := commands_of p cs @ commands_of p [RegisterCommand gc]\<rparr>"
  "pending_of p (cs @ [RegisterUI gu]) = (pending_of p cs)\<lparr>pt_uis := uis_of p cs @ uis_of p [RegisterUI gu]\<rparr>"
  by (simp_all add: pending_of_def)

lemma host_step_pending_of:
  assumes "p \<noteq> []" and "calls_ok p cs"
  shows "if calls_ok p (cs @ [c]) then host_step c (pending_of p cs) = (Inr (), pending_of p (cs @ [c]))
         else \<exists>e. host_step c (pending_of p cs) = (Inl e, rolled_back e p)"
proof (cases c)
  case (RegisterEventHandler g)
  show ?thesis
  proof (cases "canonicalEventTypes (er_event_types g)")
    case (Inl e)
    with RegisterEventHandler assms show ?thesis by (simp add: add_defs calls_ok_def well_typed_def)
  next
    case (Inr tk)
    obtain types key where tk: "tk = (types, key)" by fastforce
    let ?x = "\<lparr>e_plugin = p, e_types = types, e_key = key, e_handler = er_handler g\<rparr>"
    have ev: "event_entry p g = [?x]" using Inr tk by (simp add: event_entry_def)
    have ok: "calls_ok p (cs @ [c]) \<longleftrightarrow> key \<notin> e_key ` set (events_of p cs)"
      using assms RegisterEventHandler Inr by (auto simp: calls_ok_def well_typed_def ev)
    have pend: "pending_of p (cs @ [c]) = (pending_of p cs)\<lparr>pt_events := events_of p cs @ [?x]\<rparr>"
      by (simp add: pending_of_def RegisterEventHandler ev)
    show ?thesis unfolding ok pend
      using RegisterEventHandler Inr tk assms by (auto simp: add_defs)
  qed
qed (insert assms, auto simp: add_defs calls_ok_def names_ok_snoc well_typed_def pending_of_snoc intro: rev_image_eqI)

lemma host_step_err: "pt_err pt = Some e \<Longrightarrow> host_step c pt = (Inl e, pt)"
  by (cases c) (simp_all add: add_defs when_open_err)

lemma host_calls_append:
  "host_calls (cs @ ds) pt =
     (fst (host_calls cs pt) @ fst (host_calls ds (snd (host_calls cs pt))), snd (host_calls ds (snd (host_calls cs pt))))"
  by (induction cs arbitrary: pt) (simp_all add: split_beta Let_def)

text \<open>The whole run: either every call is accepted, or the transaction is rolled back for good.\<close>

lemma calls_ok_Nil: "calls_ok p []"
  by (simp add: calls_ok_def names_ok_def)

lemma calls_ok_prefix: "calls_ok p (cs @ [c]) \<Longrightarrow> calls_ok p cs"
  by (auto simp: calls_ok_def names_ok_def)

lemma host_calls_run:
  assumes "p \<noteq> []"
  shows "(calls_ok p cs \<longrightarrow> host_calls cs (BeginTx p) = (replicate (length cs) (Inr ()), pending_of p cs)) \<and>
    (\<not> calls_ok p cs \<longrightarrow> (\<exists>e. snd (host_calls cs (BeginTx p)) = rolled_back e p \<and> Inl e \<in> set (fst (host_calls cs (BeginTx p)))))"
proof (induction cs rule: rev_induct)
  case Nil
  then show ?case by (simp add: calls_ok_Nil pending_of_Nil)
next
  case (snoc c cs)
  show ?case
  proof (cases "calls_ok p cs")
    case True
    with snoc.IH have "host_calls cs (BeginTx p) = (replicate (length cs) (Inr ()), pending_of p cs)" by blast
    with host_step_pending_of[OF assms True, of c] show ?thesis
      by (auto simp: host_calls_append replicate_append_same split: if_splits)
  next
    case False
    with snoc.IH obtain e where e: "snd (host_calls cs (BeginTx p)) = rolled_back e p" "Inl e \<in> set (fst (host_calls cs (BeginTx p)))" by blast
    have "host_step c (rolled_back e p) = (Inl e, rolled_back e p)"
      by (rule host_step_err) (simp add: rolled_back_def)
    with e False show ?thesis by (auto simp: host_calls_append dest: calls_ok_prefix)
  qed
qed

text \<open>An empty plugin identifier fails at the first call, or at the commit.\<close>

lemma host_calls_anonymous:
  "\<exists>s e. snd (host_calls cs (BeginTx [])) = (BeginTx [])\<lparr>pt_err := e, pt_state := s\<rparr> \<and>
     (s = TxOpen \<and> e = None \<or> s = TxRolledBack \<and> e = Some EmptyPluginID)"
proof (induction cs rule: rev_induct)
  case Nil
  show ?case by (rule exI[of _ TxOpen], rule exI[of _ None]) (simp add: BeginTx_def)
next
  case (snoc c cs)
  have first: "host_step c (BeginTx []) = (Inl EmptyPluginID, rolled_back EmptyPluginID [])"
    by (cases c) (simp_all add: add_defs when_open_def requireOpenLocked_def BeginTx_def failLocked_def clearLocked_def rolled_back_def)
  have "host_step c (rolled_back EmptyPluginID []) = (Inl EmptyPluginID, rolled_back EmptyPluginID [])"
    by (rule host_step_err) (simp add: rolled_back_def)
  with snoc first show ?case
    by (auto simp: host_calls_append rolled_back_def BeginTx_def)
qed

section \<open>Commit\<close>

text \<open>No identifier of the pending entries is taken in the registry.\<close>

definition no_conflict :: "string \<Rightarrow> 'h host_call list \<Rightarrow> 'h registry \<Rightarrow> bool" where
  "no_conflict p cs r \<longleftrightarrow>
     (\<forall>x \<in> set (providers_of p cs). r_providers r (pr_id (p_reg x)) = None) \<and>
     (\<forall>x \<in> set (transformers_of p cs). \<forall>y \<in> set (r_transformers r). (t_plugin y, tr_id (t_reg y)) \<noteq> (p, tr_id (t_reg x))) \<and>
     (\<forall>x \<in> set (validators_of p cs). \<forall>y \<in> set (all_validators r). (v_plugin y, vr_id (v_reg y)) \<noteq> (p, vr_id (v_reg x))) \<and>
     (\<forall>x \<in> set (observers_of p cs). \<forall>y \<in> set (r_observers r). (o_plugin y, or_id (o_reg y)) \<noteq> (p, or_id (o_reg x))) \<and>
     (\<forall>x \<in> set (jobs_of p cs). r_jobs r (jr_job_type (j_reg x)) = None) \<and>
     (\<forall>x \<in> set (events_of p cs). \<forall>y \<in> set (r_events r). (e_plugin y, e_key y) \<noteq> (p, e_key x)) \<and>
     (\<forall>x \<in> set (commands_of p cs). r_commands r (cr_id (c_reg x)) = None) \<and>
     (\<forall>x \<in> set (uis_of p cs). r_uis r (ur_id (u_reg x)) = None)"

lemma first_error_None: "first_error es = None \<longleftrightarrow> (\<forall>e \<in> set es. e = None)"
  by (induction es rule: first_error.induct) auto

lemma first_conflict_None: "first_conflict taken name xs = None \<longleftrightarrow> (\<forall>x \<in> set xs. \<not> taken x)"
  by (auto simp: first_conflict_def find_None_iff)

lemma first_error_conflicts:
  "first_error (commit_conflicts (pending_of p cs) r) = None \<longleftrightarrow> no_conflict p cs r"
  unfolding first_error_None commit_conflicts_def no_conflict_def
  by (simp add: first_conflict_None plugin_of_entries cong: ball_cong)

text \<open>What a successful registration leaves, surface by surface.\<close>

definition published :: "string \<Rightarrow> 'h host_call list \<Rightarrow> 'h registry \<Rightarrow> 'h registry \<Rightarrow> bool" where
  "published p cs r r' \<longleftrightarrow>
     r_providers r' = r_providers r ++ map_of (map (\<lambda>x. (pr_id (p_reg x), x)) (providers_of p cs)) \<and>
     mset (r_transformers r') = mset (r_transformers r) + mset (transformers_of p cs) \<and>
     (\<forall>c. mset (r_validators r' c) =
        mset (r_validators r c) + mset (filter (\<lambda>x. vr_capability (v_reg x) = c) (validators_of p cs))) \<and>
     r_observers r' = r_observers r @ observers_of p cs \<and>
     r_jobs r' = r_jobs r ++ map_of (map (\<lambda>x. (jr_job_type (j_reg x), x)) (jobs_of p cs)) \<and>
     r_events r' = r_events r @ events_of p cs \<and>
     r_commands r' = r_commands r ++ map_of (map (\<lambda>x. (cr_id (c_reg x), x)) (commands_of p cs)) \<and>
     r_uis r' = r_uis r ++ map_of (map (\<lambda>x. (ur_id (u_reg x), x)) (uis_of p cs)) \<and>
     r_completed r' = r_completed r \<and> r_delivering r' = r_delivering r"

lemma put_all_map_of:
  assumes "distinct (map key xs)"
  shows "put_all key xs m = m ++ map_of (map (\<lambda>x. (key x, x)) xs)"
  using assms
proof (induction xs arbitrary: m)
  case Nil
  then show ?case by (simp add: put_all_def)
next
  case (Cons x xs)
  then have "map_of (map (\<lambda>x. (key x, x)) xs) (key x) = None" by (auto simp: map_of_eq_None_iff)
  with Cons show ?case by (auto simp: put_all_def map_add_def fun_eq_iff split: option.splits)
qed

lemma put_validators_append:
  "put_validators xs f c = f c @ filter (\<lambda>x. vr_capability (v_reg x) = c) xs"
  by (induction xs arbitrary: f) (auto simp: put_validators_def)

lemma set_add_keys: "set (add_keys ks known) = set known \<union> set ks"
  by (induction ks arbitrary: known) (auto simp: add_keys_def)

lemma distinct_add_keys: "distinct known \<Longrightarrow> distinct (add_keys ks known)"
  by (induction ks arbitrary: known) (auto simp: add_keys_def)

lemma commitLocked_published:
  assumes "calls_ok p cs" and "no_conflict p cs r"
  shows "\<exists>r'. commitLocked (pending_of p cs) r = (Inr (), r') \<and> published p cs r r'"
  using assms first_error_conflicts[of p cs r]
  by (auto simp: commitLocked_def published_def calls_ok_def names_ok_def sortTransformers_def
      sortValidatorEntries_def put_validators_append put_all_map_of comp_def)

lemma commitLocked_conflict:
  "\<not> no_conflict p cs r \<Longrightarrow> \<exists>e. commitLocked (pending_of p cs) r = (Inl e, r)"
  using first_error_conflicts[of p cs r] by (auto simp: commitLocked_def)

lemma Commit_pending_of:
  assumes "p \<noteq> []" and "calls_ok p cs"
  shows "if no_conflict p cs r
    then \<exists>r' pt'. Commit (pending_of p cs) r = (Inr (), pt', r') \<and> pt_state pt' = TxCommitted \<and>
      commitLocked (pending_of p cs) r = (Inr (), r')
    else \<exists>e. Commit (pending_of p cs) r = (Inl e, rolled_back e p, r)"
proof -
  have "requireOpenLocked (pending_of p cs) = (Inr (), pending_of p cs)"
    using assms(1) by (simp add: requireOpenLocked_def)
  then show ?thesis
    using commitLocked_conflict[of p cs r] commitLocked_published[OF assms(2), of r]
    by (auto simp: Commit_def)
qed

lemma Commit_rolled_back [simp]: "Commit (rolled_back e p) r = (Inl e, rolled_back e p, r)"
  by (simp add: Commit_def requireOpenLocked_def rolled_back_def)

lemma Commit_anonymous:
  assumes "pt = (BeginTx [])\<lparr>pt_err := e, pt_state := s\<rparr>"
    and "s = TxOpen \<and> e = None \<or> s = TxRolledBack \<and> e = Some EmptyPluginID"
  shows "Commit pt r = (Inl EmptyPluginID, rolled_back EmptyPluginID [], r)"
  using assms
  by (auto simp: Commit_def requireOpenLocked_def rolled_back_def failLocked_def clearLocked_def BeginTx_def)

lemma Rollback_rolled_back [simp]:
  "Rollback (rolled_back e p) = rolled_back e p" "pt_state (rolled_back e p) = TxRolledBack"
  by (simp_all add: rolled_back_def Rollback_def)

lemma calls_state: "pt_state (snd (host_calls cs (BeginTx p))) \<in> {TxOpen, TxRolledBack}"
proof (cases "p = []")
  case True
  with host_calls_anonymous[of cs] show ?thesis by auto
next
  case False
  with host_calls_run[OF False, of cs] show ?thesis by (cases "calls_ok p cs") auto
qed

text \<open>A transaction that is over takes no further call.\<close>

lemma when_open_closed: "pt_state pt \<noteq> TxOpen \<Longrightarrow> \<exists>e. when_open body pt = (Inl e, pt)"
  by (auto simp: when_open_def requireOpenLocked_def split: option.splits)

lemma host_step_closed: "pt_state pt \<noteq> TxOpen \<Longrightarrow> \<exists>e. host_step c pt = (Inl e, pt)"
  by (cases c) (simp_all add: add_defs when_open_closed)

lemma host_calls_closed:
  assumes "pt_state pt \<noteq> TxOpen"
  shows "snd (host_calls cs pt) = pt \<and> (\<forall>x \<in> set (fst (host_calls cs pt)). isl x)"
proof (induction cs)
  case Nil
  then show ?case by simp
next
  case (Cons c cs)
  from host_step_closed[OF assms, of c] obtain e where "host_step c pt = (Inl e, pt)" by blast
  with Cons show ?case by (auto simp: Let_def split_beta)
qed

lemma Commit_closed: "pt_state pt \<noteq> TxOpen \<Longrightarrow> \<exists>e. Commit pt r = (Inl e, pt, r)"
  by (auto simp: Commit_def requireOpenLocked_def split: option.splits)

text \<open>Every way a registration can go.\<close>

lemma RegisterPlugin_cases:
  assumes "RegisterPlugin p (Some (cs, outcome)) r = (res, pt, r')"
  shows "if outcome = Returned \<and> p \<noteq> [] \<and> calls_ok p cs \<and> no_conflict p cs r
    then res = Inr () \<and> pt_state pt = TxCommitted \<and> commitLocked (pending_of p cs) r = (Inr (), r')
    else (\<exists>e. res = Inl e) \<and> r' = r \<and> pt_state pt = TxRolledBack"
proof (cases outcome)
  case Returned
  show ?thesis
  proof (cases "p = []")
    case True
    from host_calls_anonymous obtain s e where
      "snd (host_calls cs (BeginTx [])) = (BeginTx [])\<lparr>pt_err := e, pt_state := s\<rparr>"
      "s = TxOpen \<and> e = None \<or> s = TxRolledBack \<and> e = Some EmptyPluginID" by blast
    from Commit_anonymous[OF this] assms Returned True show ?thesis
      by (auto simp: RegisterPlugin_def)
  next
    case False
    note run = host_calls_run[OF False, of cs]
    show ?thesis
    proof (cases "calls_ok p cs")
      case True
      with run Commit_pending_of[OF False True, of r] assms Returned False show ?thesis
        by (auto simp: RegisterPlugin_def Rollback_def rolled_back_def split: if_splits)
    next
      case bad: False
      with run obtain e where "snd (host_calls cs (BeginTx p)) = rolled_back e p" by blast
      with assms Returned have "res = Inl e" "r' = r" "pt = rolled_back e p"
        by (simp_all add: RegisterPlugin_def)
      with bad show ?thesis by simp
    qed
  qed
next
  case Errored
  with assms calls_state[of cs p] show ?thesis by (auto simp: RegisterPlugin_def Rollback_def)
next
  case Panicked
  with assms calls_state[of cs p] show ?thesis by (auto simp: RegisterPlugin_def Rollback_def)
qed

section \<open>The invariant of the registry\<close>

definition map_ok :: "('x \<Rightarrow> string) \<Rightarrow> (string \<rightharpoonup> 'x) \<Rightarrow> bool" where
  "map_ok key m \<longleftrightarrow> (\<forall>k x. m k = Some x \<longrightarrow> key x = k \<and> k \<noteq> [])"

definition registry_ok :: "'h registry \<Rightarrow> bool" where
  "registry_ok r \<longleftrightarrow>
     map_ok (\<lambda>x. pr_id (p_reg x)) (r_providers r) \<and> map_ok (\<lambda>x. jr_job_type (j_reg x)) (r_jobs r) \<and>
     map_ok (\<lambda>x. cr_id (c_reg x)) (r_commands r) \<and> map_ok (\<lambda>x. ur_id (u_reg x)) (r_uis r) \<and>
     sorted (map transformer_key (r_transformers r)) \<and>
     distinct (map (\<lambda>x. (t_plugin x, tr_id (t_reg x))) (r_transformers r)) \<and>
     distinct (map (\<lambda>x. (o_plugin x, or_id (o_reg x))) (r_observers r)) \<and>
     distinct (map (\<lambda>x. (e_plugin x, e_key x)) (r_events r)) \<and>
     distinct (r_capabilities r) \<and> distinct (map validator_key (all_validators r)) \<and>
     (\<forall>c. sorted (map validator_key (r_validators r c)) \<and> (r_validators r c \<noteq> [] \<longleftrightarrow> c \<in> set (r_capabilities r)) \<and>
        (\<forall>x \<in> set (r_validators r c). vr_capability (v_reg x) = c))"

lemma NewRegistry_ok: "registry_ok NewRegistry"
  by (simp add: registry_ok_def NewRegistry_def map_ok_def all_validators_def)

lemma map_ok_put_all:
  assumes "map_ok key m" and "\<And>x. x \<in> set xs \<Longrightarrow> key x \<noteq> []"
  shows "map_ok key (put_all key xs m)"
  using assms
proof (induction xs arbitrary: m)
  case Nil
  then show ?case by (simp add: put_all_def)
next
  case (Cons x xs)
  have "map_ok key (m(key x \<mapsto> x))" using Cons.prems by (auto simp: map_ok_def)
  then have "map_ok key (put_all key xs (m(key x \<mapsto> x)))" using Cons by simp
  then show ?case by (simp add: put_all_def)
qed

lemma distinct_append_keys:
  assumes "distinct (map k xs)" and "distinct (map n ys)" and "\<And>y. y \<in> set ys \<Longrightarrow> k y = (p, n y)"
    and "\<And>x y. x \<in> set xs \<Longrightarrow> y \<in> set ys \<Longrightarrow> k x \<noteq> (p, n y)"
  shows "distinct (map k (xs @ ys))"
proof -
  have "map k ys = map (Pair p) (map n ys)" using assms(3) by simp
  then have "distinct (map k ys)" using assms(2) by (simp add: distinct_map inj_on_def)
  moreover have "k ` set xs \<inter> k ` set ys = {}" using assms(3,4) by fastforce
  ultimately show ?thesis using assms(1) by simp
qed

text \<open>Appending to the slices of a map of slices adds just the new elements, in all.\<close>

lemma mset_concat_distinct: "distinct ks \<Longrightarrow> mset (concat (map f ks)) = (\<Sum>c \<in> set ks. mset (f c))"
  by (induction ks) auto

lemma sum_filter_mset:
  assumes "finite C" and "cap ` set ys \<subseteq> C"
  shows "(\<Sum>c \<in> C. mset (filter (\<lambda>y. cap y = c) ys)) = mset ys"
  using assms(2)
proof (induction ys)
  case Nil
  then show ?case by simp
next
  case (Cons y ys)
  have "(\<Sum>c \<in> C. mset (filter (\<lambda>z. cap z = c) (y # ys))) =
    (\<Sum>c \<in> C. (if c = cap y then {#y#} else {#}) + mset (filter (\<lambda>z. cap z = c) ys))"
    by (rule sum.cong) auto
  also have "\<dots> = {#y#} + mset ys"
    using Cons assms(1) by (simp add: sum.distrib sum.delta')
  finally show ?case by simp
qed

lemma mset_concat_insert:
  assumes "distinct ks" and "distinct ks'" and "set ks' = set ks \<union> cap ` set ys"
    and "\<And>c. c \<notin> set ks \<Longrightarrow> f c = []"
    and "\<And>c. mset (g c) = mset (f c) + mset (filter (\<lambda>y. cap y = c) ys)"
  shows "mset (concat (map g ks')) = mset (concat (map f ks)) + mset ys"
proof -
  have "mset (concat (map g ks')) = (\<Sum>c \<in> set ks'. mset (f c)) + (\<Sum>c \<in> set ks'. mset (filter (\<lambda>y. cap y = c) ys))"
    using assms(2,5) by (simp add: mset_concat_distinct sum.distrib)
  also have "(\<Sum>c \<in> set ks'. mset (f c)) = (\<Sum>c \<in> set ks. mset (f c))"
    by (rule sum.mono_neutral_right) (use assms(3,4) in auto)
  also have "(\<Sum>c \<in> set ks'. mset (filter (\<lambda>y. cap y = c) ys)) = mset ys"
    by (rule sum_filter_mset) (use assms(3) in auto)
  finally show ?thesis using assms(1) by (simp add: mset_concat_distinct)
qed

lemma distinct_map_sort_key: "distinct (map k (sort_key g xs)) \<longleftrightarrow> distinct (map k xs)"
  by (rule mset_eq_imp_distinct_iff) simp

lemma commitLocked_ok:
  assumes ok: "registry_ok r" and calls: "calls_ok p cs"
    and commit: "commitLocked (pending_of p cs) r = (Inr (), r')"
  shows "registry_ok r'"
proof -
  have free: "no_conflict p cs r"
    using commit first_error_conflicts[of p cs r] by (auto simp: commitLocked_def split: option.splits)
  define f where "f = put_validators (validators_of p cs) (r_validators r)"
  have r': "r' = r\<lparr>
     r_providers := put_all (\<lambda>x. pr_id (p_reg x)) (providers_of p cs) (r_providers r),
     r_transformers := sortTransformers (r_transformers r @ transformers_of p cs),
     r_validators := (\<lambda>c. sortValidatorEntries (f c)),
     r_capabilities := add_keys (map (\<lambda>x. vr_capability (v_reg x)) (validators_of p cs)) (r_capabilities r),
     r_observers := r_observers r @ observers_of p cs,
     r_jobs := put_all (\<lambda>x. jr_job_type (j_reg x)) (jobs_of p cs) (r_jobs r),
     r_events := r_events r @ events_of p cs,
     r_commands := put_all (\<lambda>x. cr_id (c_reg x)) (commands_of p cs) (r_commands r),
     r_uis := put_all (\<lambda>x. ur_id (u_reg x)) (uis_of p cs) (r_uis r)\<rparr>"
    using commit by (simp add: commitLocked_def f_def split: option.splits)
  have maps: "map_ok (\<lambda>x. pr_id (p_reg x)) (r_providers r')" "map_ok (\<lambda>x. jr_job_type (j_reg x)) (r_jobs r')"
     "map_ok (\<lambda>x. cr_id (c_reg x)) (r_commands r')" "map_ok (\<lambda>x. ur_id (u_reg x)) (r_uis r')"
    unfolding r' using ok calls
    by (auto simp: registry_ok_def calls_ok_def names_ok_def image_iff intro!: map_ok_put_all)
  have "distinct (map (\<lambda>x. (t_plugin x, tr_id (t_reg x))) (r_transformers r @ transformers_of p cs))"
    by (rule distinct_append_keys[where p = p and n = "\<lambda>x. tr_id (t_reg x)"])
      (use ok calls free in \<open>auto simp: registry_ok_def calls_ok_def names_ok_def no_conflict_def comp_def dest: plugin_of_entries\<close>)
  then have ts: "distinct (map (\<lambda>x. (t_plugin x, tr_id (t_reg x))) (r_transformers r'))"
    unfolding r' by (simp add: sortTransformers_def distinct_map_sort_key del: map_append)
  have os: "distinct (map (\<lambda>x. (o_plugin x, or_id (o_reg x))) (r_observers r @ observers_of p cs))"
    by (rule distinct_append_keys[where p = p and n = "\<lambda>x. or_id (o_reg x)"])
      (use ok calls free in \<open>auto simp: registry_ok_def calls_ok_def names_ok_def no_conflict_def comp_def dest: plugin_of_entries\<close>)
  have es: "distinct (map (\<lambda>x. (e_plugin x, e_key x)) (r_events r @ events_of p cs))"
    by (rule distinct_append_keys[where p = p and n = e_key])
      (use ok calls free in \<open>auto simp: registry_ok_def calls_ok_def no_conflict_def dest: plugin_of_entries\<close>)
  have caps: "set (r_capabilities r') = set (r_capabilities r) \<union> (\<lambda>x. vr_capability (v_reg x)) ` set (validators_of p cs)"
    "distinct (r_capabilities r')"
    using ok by (simp_all add: r' set_add_keys registry_ok_def distinct_add_keys)
  have slice: "r_validators r' c = sortValidatorEntries (r_validators r c @ filter (\<lambda>x. vr_capability (v_reg x) = c) (validators_of p cs))" for c
    by (simp add: r' f_def put_validators_append)
  have all: "mset (all_validators r') = mset (all_validators r @ validators_of p cs)"
    unfolding all_validators_def mset_append
    by (rule mset_concat_insert[where cap = "\<lambda>x. vr_capability (v_reg x)"])
      (use ok caps in \<open>auto simp: slice registry_ok_def sortValidatorEntries_def\<close>)
  have "distinct (map validator_key (all_validators r @ validators_of p cs))"
    by (rule distinct_append_keys[where p = p and n = "\<lambda>x. vr_id (v_reg x)"])
      (use ok calls free in \<open>auto simp: registry_ok_def calls_ok_def names_ok_def no_conflict_def validator_key_def comp_def dest: plugin_of_entries\<close>)
  then have vs: "distinct (map validator_key (all_validators r'))"
    using mset_eq_imp_distinct_iff[of "map validator_key (all_validators r')" "map validator_key (all_validators r @ validators_of p cs)"] all
    by (simp del: map_append)
  have slices: "sorted (map validator_key (r_validators r' c)) \<and> (r_validators r' c \<noteq> [] \<longleftrightarrow> c \<in> set (r_capabilities r')) \<and>
      (\<forall>x \<in> set (r_validators r' c). vr_capability (v_reg x) = c)" for c
  proof -
    have elems: "set (r_validators r' c) = set (r_validators r c) \<union> {x \<in> set (validators_of p cs). vr_capability (v_reg x) = c}"
      by (auto simp: slice sortValidatorEntries_def)
    have old: "set (r_validators r c) \<noteq> {} \<longleftrightarrow> c \<in> set (r_capabilities r)" "\<forall>x \<in> set (r_validators r c). vr_capability (v_reg x) = c"
      using ok by (simp_all add: registry_ok_def)
    have "set (r_validators r' c) \<noteq> {} \<longleftrightarrow> c \<in> set (r_capabilities r')"
      unfolding elems caps(1) using old(1) by auto
    moreover have "sorted (map validator_key (r_validators r' c))" by (simp add: slice sortValidatorEntries_def)
    moreover have "\<forall>x \<in> set (r_validators r' c). vr_capability (v_reg x) = c" unfolding elems using old(2) by auto
    ultimately show ?thesis by simp
  qed
  have os': "distinct (map (\<lambda>x. (o_plugin x, or_id (o_reg x))) (r_observers r'))" using os by (simp add: r')
  have es': "distinct (map (\<lambda>x. (e_plugin x, e_key x)) (r_events r'))" using es by (simp add: r')
  have "sorted (map transformer_key (r_transformers r'))" by (simp add: r' sortTransformers_def)
  then show ?thesis unfolding registry_ok_def
    using maps ts os' es' vs slices caps(2) by (intro conjI allI) (assumption | blast)+
qed

lemma RegisterPlugin_ok:
  assumes "registry_ok r" and "RegisterPlugin p code r = (res, pt, r')"
  shows "registry_ok r'"
proof (cases code)
  case None
  with assms show ?thesis by (simp add: RegisterPlugin_def)
next
  case (Some a)
  obtain cs outcome where a: "a = (cs, outcome)" by fastforce
  from RegisterPlugin_cases[OF assms(2)[unfolded Some a]] assms(1) commitLocked_ok[OF assms(1), of p cs r']
  show ?thesis by (auto split: if_splits)
qed

section \<open>All or nothing\<close>

text \<open>C6: registering a plugin is all or nothing.  It succeeds exactly when the plugin's code returns
  normally, the plugin has an identifier, every call it made was well-formed and no identifier is
  taken; then exactly the requested entries are added to each surface of the registry.  In every other
  case, ignored errors and panics included, the registry is unchanged.  Either way the transaction is
  over: a host the plugin has kept accepts no later call and no later commit.\<close>
theorem RegisterPlugin_atomic:
  assumes "RegisterPlugin p (Some (cs, outcome)) r = (res, pt, r')"
  shows "(res = Inr () \<longleftrightarrow> outcome = Returned \<and> p \<noteq> [] \<and> calls_ok p cs \<and> no_conflict p cs r) \<and>
    (res = Inr () \<longrightarrow> published p cs r r') \<and> (res \<noteq> Inr () \<longrightarrow> r' = r) \<and>
    (\<forall>later r2. snd (host_calls later pt) = pt \<and> (\<forall>x \<in> set (fst (host_calls later pt)). isl x) \<and>
       (\<exists>e. Commit pt r2 = (Inl e, pt, r2)))"
proof -
  note c = RegisterPlugin_cases[OF assms]
  then have "pt_state pt \<noteq> TxOpen" by (auto split: if_splits)
  note closed = host_calls_closed[OF this] Commit_closed[OF this]
  from c closed commitLocked_published[of p cs r] show ?thesis by (auto split: if_splits)
qed

definition sample_calls :: "unit host_call list" where
  "sample_calls =
     [RegisterProvider \<lparr>pr_id = ''asr'', pr_capability = ''speech'', pr_name = ''n'', pr_priority = 10, pr_provider = ()\<rparr>,
      RegisterValidator \<lparr>vr_id = ''v'', vr_capability = ''text'', vr_validator = ()\<rparr>,
      RegisterEventHandler \<lparr>er_event_types = [''b'', ''a''], er_handler = ()\<rparr>]"

theorem RegisterPlugin_atomic_witness:
  "fst (RegisterPlugin ''p'' (Some (sample_calls, Returned)) NewRegistry) = Inr () \<and>
   (let r' = snd (snd (RegisterPlugin ''p'' (Some (sample_calls, Returned)) NewRegistry))
    in published ''p'' sample_calls NewRegistry r')"
proof -
  have ok: "calls_ok ''p'' sample_calls" "no_conflict ''p'' sample_calls NewRegistry"
    by (simp_all add: sample_calls_def calls_ok_def no_conflict_def names_ok_def of_defs event_entry_def
        well_typed_def canonicalEventTypes_def NewRegistry_def all_validators_def)
  obtain res pt r' where run: "RegisterPlugin ''p'' (Some (sample_calls, Returned)) NewRegistry = (res, pt, r')"
    by (cases "RegisterPlugin ''p'' (Some (sample_calls, Returned)) NewRegistry") auto
  from RegisterPlugin_atomic[OF run] ok run show ?thesis by simp
qed

end
