(* ===== verification/Plugin_Dispatch.thy ===== *)
theory Plugin_Dispatch
  imports Plugin_Commit
begin

text \<open>
  Reading the registry: lookups, lists, validation and event dispatch (internal/plugins/registry.go),
  over the event types of pkg/pluginapi/v1/event.go.  A callback is code outside the program: what
  it returns is a parameter.  Dispatch is modelled twice, as the loop one call runs and as a step
  relation in which any number of dispatches and registrations interleave between their critical
  sections.
\<close>

section \<open>Lookups and lists\<close>

definition ResolveProvider :: "string \<Rightarrow> 'h registry \<Rightarrow> reg_error + 'h providerEntry" where
  "ResolveProvider name r = (case r_providers r name of None \<Rightarrow> Inl (NotFound name) | Some x \<Rightarrow> Inr x)"

definition ResolveJobHandler :: "string \<Rightarrow> 'h registry \<Rightarrow> reg_error + 'h jobHandlerEntry" where
  "ResolveJobHandler ty r = (case r_jobs r ty of None \<Rightarrow> Inl (NotFound ty) | Some x \<Rightarrow> Inr x)"

definition ProviderCount :: "'h registry \<Rightarrow> nat" where "ProviderCount r = card (dom (r_providers r))"
definition TransformerCount :: "'h registry \<Rightarrow> nat" where "TransformerCount r = length (r_transformers r)"
definition ValidatorCount :: "'h registry \<Rightarrow> nat" where
  "ValidatorCount r = sum_list (map (\<lambda>c. length (r_validators r c)) (r_capabilities r))"
definition ObserverCount :: "'h registry \<Rightarrow> nat" where "ObserverCount r = length (r_observers r)"
definition ObservedEventCount :: "'h registry \<Rightarrow> nat" where "ObservedEventCount r = card (r_completed r)"
definition JobHandlerCount :: "'h registry \<Rightarrow> nat" where "JobHandlerCount r = card (dom (r_jobs r))"
definition EventHandlerCount :: "'h registry \<Rightarrow> nat" where "EventHandlerCount r = length (r_events r)"
definition CommandCount :: "'h registry \<Rightarrow> nat" where "CommandCount r = card (dom (r_commands r))"
definition UICount :: "'h registry \<Rightarrow> nat" where "UICount r = card (dom (r_uis r))"

definition ListTransformers :: "'h registry \<Rightarrow> 'h transformerEntry list" where
  "ListTransformers r = r_transformers r"

definition ListEventHandlers :: "'h registry \<Rightarrow> 'h eventHandlerEntry list" where
  "ListEventHandlers r = r_events r"

text \<open>\<open>order\<close> is the order in which Go happens to range over the map of validators.\<close>

definition ListValidators :: "string list \<Rightarrow> string \<Rightarrow> 'h registry \<Rightarrow> 'h validatorEntry list" where
  "ListValidators order capability r =
     (if capability \<noteq> [] then r_validators r capability
      else sortValidatorEntries (concat (map (r_validators r) order)))"

record ValidationResult =
  ValidatorID :: string
  PluginID :: string
  Severity :: string
  Message :: string
  Span :: "(int \<times> int) option"

definition result_key :: "ValidationResult \<Rightarrow> string \<times> string" where
  "result_key x = (PluginID x, ValidatorID x)"

definition sortValidationResults :: "ValidationResult list \<Rightarrow> ValidationResult list" where
  "sortValidationResults xs = sort_key result_key xs"

text \<open>The loop over the validators: findings stamped with their source, errors in order.\<close>

fun validate_loop ::
  "('h \<Rightarrow> string \<Rightarrow> ValidationResult list \<times> 'e option) \<Rightarrow> string \<Rightarrow> 'h validatorEntry list
   \<Rightarrow> ValidationResult list \<times> (string \<times> string \<times> 'e) list" where
  "validate_loop run input [] = ([], [])"
| "validate_loop run input (v # vs) =
     (let (result, err) = run (vr_validator (v_reg v)) input;
          found = map (\<lambda>f. f\<lparr>PluginID := v_plugin v, ValidatorID := vr_id (v_reg v)\<rparr>) result;
          failed = (case err of None \<Rightarrow> [] | Some e \<Rightarrow> [(vr_id (v_reg v), v_plugin v, e)]);
          (fs, es) = validate_loop run input vs
      in (found @ fs, failed @ es))"

definition Validate ::
  "('h \<Rightarrow> string \<Rightarrow> ValidationResult list \<times> 'e option) \<Rightarrow> string list \<Rightarrow> string \<Rightarrow> string \<Rightarrow> 'h registry
   \<Rightarrow> ValidationResult list \<times> (string \<times> string \<times> 'e) list" where
  "Validate run order capability input r =
     (let (fs, es) = validate_loop run input (ListValidators order capability r)
      in (sortValidationResults fs, es))"

section \<open>Dispatching an event\<close>

record event =
  ev_id :: string
  ev_type :: string
  ev_source :: string
  ev_timestamp :: int
  ev_payload :: string

definition matchesEventType :: "string list \<Rightarrow> string \<Rightarrow> bool" where
  "matchesEventType types ty \<longleftrightarrow> types = [] \<or> ty \<in> set types"

definition observer_tuple :: "'h observerEntry \<Rightarrow> event \<Rightarrow> observer_tuple" where
  "observer_tuple x ev = (o_plugin x, or_id (o_reg x), ev_id ev)"

definition reserveObserverDelivery :: "observer_tuple \<Rightarrow> 'h registry \<Rightarrow> bool \<times> 'h registry" where
  "reserveObserverDelivery tuple r =
     (if tuple \<in> r_completed r \<or> tuple \<in> r_delivering r then (False, r)
      else (True, r\<lparr>r_delivering := insert tuple (r_delivering r)\<rparr>))"

definition releaseObserverDelivery :: "observer_tuple \<Rightarrow> 'h registry \<Rightarrow> 'h registry" where
  "releaseObserverDelivery tuple r = r\<lparr>r_delivering := r_delivering r - {tuple}\<rparr>"

definition completeObserverDelivery :: "observer_tuple \<Rightarrow> 'h registry \<Rightarrow> 'h registry" where
  "completeObserverDelivery tuple r =
     r\<lparr>r_delivering := r_delivering r - {tuple}, r_completed := insert tuple (r_completed r)\<rparr>"

text \<open>
  The loop of one dispatch running alone.  \<open>OnEvent\<close> says whether the observer's callback succeeds; the
  trace is the list of callbacks made.
\<close>

fun dispatch_loop ::
  "('h observerEntry \<Rightarrow> event \<Rightarrow> bool) \<Rightarrow> event \<Rightarrow> 'h observerEntry list \<Rightarrow> 'h registry
   \<Rightarrow> ('h observerEntry + unit) \<times> 'h observerEntry list \<times> 'h registry" where
  "dispatch_loop OnEvent ev [] r = (Inr (), [], r)"
| "dispatch_loop OnEvent ev (x # xs) r =
     (if \<not> matchesEventType (or_event_types (o_reg x)) (ev_type ev) then dispatch_loop OnEvent ev xs r
      else case reserveObserverDelivery (observer_tuple x ev) r of
        (False, r') \<Rightarrow> dispatch_loop OnEvent ev xs r'
      | (True, r') \<Rightarrow>
          if OnEvent x ev
          then (case dispatch_loop OnEvent ev xs (completeObserverDelivery (observer_tuple x ev) r') of
                  (res, called, r'') \<Rightarrow> (res, x # called, r''))
          else (Inl x, [x], releaseObserverDelivery (observer_tuple x ev) r'))"

definition DispatchEvent ::
  "('h observerEntry \<Rightarrow> event \<Rightarrow> bool) \<Rightarrow> event \<Rightarrow> 'h registry
   \<Rightarrow> ('h observerEntry + unit) \<times> 'h observerEntry list \<times> 'h registry" where
  "DispatchEvent OnEvent ev r = dispatch_loop OnEvent ev (r_observers r) r"

section \<open>Concurrent dispatches\<close>

text \<open>
  A running dispatch: its event, the observers of its snapshot still to visit, and the reservation
  whose callback is running.  The trace of the system lists the callbacks that have returned success.
  A callback that panics ends its dispatch with the reservation still taken.
\<close>

record 'h dispatch =
  d_event :: event
  d_rest :: "'h observerEntry list"
  d_call :: "observer_tuple option"

record 'h plugin_system =
  s_registry :: "'h registry"
  s_dispatches :: "'h dispatch list"
  s_delivered :: "observer_tuple list"

inductive plugin_step :: "'h plugin_system \<Rightarrow> 'h plugin_system \<Rightarrow> bool" where
  register: "RegisterPlugin p code (s_registry s) = (res, pt, r') \<Longrightarrow> plugin_step s (s\<lparr>s_registry := r'\<rparr>)"
| start: "plugin_step s (s\<lparr>s_dispatches := s_dispatches s @
      [\<lparr>d_event = ev, d_rest = r_observers (s_registry s), d_call = None\<rparr>]\<rparr>)"
| skip: "i < length (s_dispatches s) \<Longrightarrow> d = s_dispatches s ! i \<Longrightarrow> d_call d = None \<Longrightarrow> d_rest d = x # xs \<Longrightarrow>
      \<not> matchesEventType (or_event_types (o_reg x)) (ev_type (d_event d)) \<Longrightarrow>
      plugin_step s (s\<lparr>s_dispatches := (s_dispatches s)[i := d\<lparr>d_rest := xs\<rparr>]\<rparr>)"
| refused: "i < length (s_dispatches s) \<Longrightarrow> d = s_dispatches s ! i \<Longrightarrow> d_call d = None \<Longrightarrow> d_rest d = x # xs \<Longrightarrow>
      matchesEventType (or_event_types (o_reg x)) (ev_type (d_event d)) \<Longrightarrow>
      reserveObserverDelivery (observer_tuple x (d_event d)) (s_registry s) = (False, r') \<Longrightarrow>
      plugin_step s (s\<lparr>s_registry := r', s_dispatches := (s_dispatches s)[i := d\<lparr>d_rest := xs\<rparr>]\<rparr>)"
| reserve: "i < length (s_dispatches s) \<Longrightarrow> d = s_dispatches s ! i \<Longrightarrow> d_call d = None \<Longrightarrow> d_rest d = x # xs \<Longrightarrow>
      matchesEventType (or_event_types (o_reg x)) (ev_type (d_event d)) \<Longrightarrow>
      reserveObserverDelivery (observer_tuple x (d_event d)) (s_registry s) = (True, r') \<Longrightarrow>
      plugin_step s (s\<lparr>s_registry := r', s_dispatches :=
        (s_dispatches s)[i := d\<lparr>d_rest := xs, d_call := Some (observer_tuple x (d_event d))\<rparr>]\<rparr>)"
| delivered: "i < length (s_dispatches s) \<Longrightarrow> d = s_dispatches s ! i \<Longrightarrow> d_call d = Some tuple \<Longrightarrow>
      plugin_step s (s\<lparr>s_registry := completeObserverDelivery tuple (s_registry s),
        s_dispatches := (s_dispatches s)[i := d\<lparr>d_call := None\<rparr>], s_delivered := s_delivered s @ [tuple]\<rparr>)"
| failed: "i < length (s_dispatches s) \<Longrightarrow> d = s_dispatches s ! i \<Longrightarrow> d_call d = Some tuple \<Longrightarrow>
      plugin_step s (s\<lparr>s_registry := releaseObserverDelivery tuple (s_registry s),
        s_dispatches := (s_dispatches s)[i := d\<lparr>d_rest := [], d_call := None\<rparr>]\<rparr>)"
| panicked: "i < length (s_dispatches s) \<Longrightarrow> d = s_dispatches s ! i \<Longrightarrow> d_call d = Some tuple \<Longrightarrow>
      plugin_step s (s\<lparr>s_dispatches := (s_dispatches s)[i := d\<lparr>d_rest := [], d_call := None\<rparr>]\<rparr>)"

inductive_cases plugin_stepE: "plugin_step s t"

section \<open>The dispatch loop\<close>

definition to_visit :: "event \<Rightarrow> 'h observerEntry list \<Rightarrow> 'h registry \<Rightarrow> 'h observerEntry list" where
  "to_visit ev xs r = filter (\<lambda>x. matchesEventType (or_event_types (o_reg x)) (ev_type ev) \<and>
     observer_tuple x ev \<notin> r_completed r \<and> observer_tuple x ev \<notin> r_delivering r) xs"

lemma to_visit_completed:
  assumes "\<forall>y \<in> set xs. observer_tuple y ev \<noteq> t"
  shows "to_visit ev xs (r\<lparr>r_completed := insert t (r_completed r)\<rparr>) = to_visit ev xs r"
  using assms by (auto simp: to_visit_def intro!: filter_cong)

lemma dispatch_loop_exact:
  assumes "distinct (map (\<lambda>x. observer_tuple x ev) xs)"
  shows "dispatch_loop OnEvent ev xs r =
    (case dropWhile (\<lambda>x. OnEvent x ev) (to_visit ev xs r) of [] \<Rightarrow> Inr () | x # _ \<Rightarrow> Inl x,
     takeWhile (\<lambda>x. OnEvent x ev) (to_visit ev xs r) @ take 1 (dropWhile (\<lambda>x. OnEvent x ev) (to_visit ev xs r)),
     r\<lparr>r_completed := r_completed r \<union> (\<lambda>x. observer_tuple x ev) ` set (takeWhile (\<lambda>x. OnEvent x ev) (to_visit ev xs r))\<rparr>)"
  using assms
proof (induction xs arbitrary: r)
  case Nil
  then show ?case by (simp add: to_visit_def)
next
  case (Cons x xs)
  let ?t = "observer_tuple x ev"
  show ?case
  proof (cases "matchesEventType (or_event_types (o_reg x)) (ev_type ev) \<and> ?t \<notin> r_completed r \<and> ?t \<notin> r_delivering r")
    case False
    then have "to_visit ev (x # xs) r = to_visit ev xs r" by (auto simp: to_visit_def)
    moreover have "dispatch_loop OnEvent ev (x # xs) r = dispatch_loop OnEvent ev xs r"
      using False by (auto simp: reserveObserverDelivery_def)
    ultimately show ?thesis using Cons by simp
  next
    case True
    then have visit: "to_visit ev (x # xs) r = x # to_visit ev xs r" by (simp add: to_visit_def)
    have res: "reserveObserverDelivery ?t r = (True, r\<lparr>r_delivering := insert ?t (r_delivering r)\<rparr>)"
      using True by (simp add: reserveObserverDelivery_def)
    have undo: "releaseObserverDelivery ?t (r\<lparr>r_delivering := insert ?t (r_delivering r)\<rparr>) = r"
      "completeObserverDelivery ?t (r\<lparr>r_delivering := insert ?t (r_delivering r)\<rparr>) = r\<lparr>r_completed := insert ?t (r_completed r)\<rparr>"
      using True by (simp_all add: releaseObserverDelivery_def completeObserverDelivery_def)
    have rest: "to_visit ev xs (r\<lparr>r_completed := insert ?t (r_completed r)\<rparr>) = to_visit ev xs r"
      by (rule to_visit_completed) (use Cons.prems in \<open>auto simp: image_iff\<close>)
    have IH: "dispatch_loop OnEvent ev xs (r\<lparr>r_completed := insert ?t (r_completed r)\<rparr>) =
     (case dropWhile (\<lambda>x. OnEvent x ev) (to_visit ev xs r) of [] \<Rightarrow> Inr () | x # _ \<Rightarrow> Inl x,
      takeWhile (\<lambda>x. OnEvent x ev) (to_visit ev xs r) @ take 1 (dropWhile (\<lambda>x. OnEvent x ev) (to_visit ev xs r)),
      r\<lparr>r_completed := insert ?t (r_completed r) \<union> (\<lambda>x. observer_tuple x ev) ` set (takeWhile (\<lambda>x. OnEvent x ev) (to_visit ev xs r))\<rparr>)"
      using Cons.IH[of "r\<lparr>r_completed := insert ?t (r_completed r)\<rparr>"] Cons.prems by (simp add: rest)
    have ins: "{y. y = x \<or> y \<in> B} = insert x B" for B by auto
    show ?thesis
      using True by (simp add: visit res undo IH ins)
  qed
qed

text \<open>One dispatch visits, in the order of registration, the observers that subscribe to the event and
  have neither received it nor are receiving it, up to and including the first whose callback fails;
  it reports that observer.  Exactly the deliveries before it are recorded as completed and no
  reservation is left, so dispatching the event again starts with the observer that failed.\<close>
theorem DispatchEvent_exact:
  assumes "registry_ok r"
  shows "let todo = to_visit ev (r_observers r) r;
           good = takeWhile (\<lambda>x. OnEvent x ev) todo;
           bad = dropWhile (\<lambda>x. OnEvent x ev) todo;
           r' = r\<lparr>r_completed := r_completed r \<union> (\<lambda>x. observer_tuple x ev) ` set good\<rparr>
       in DispatchEvent OnEvent ev r =
            (case bad of [] \<Rightarrow> Inr () | x # _ \<Rightarrow> Inl x, good @ take 1 bad, r') \<and>
          to_visit ev (r_observers r) r' = bad"
proof -
  have d: "distinct (map (\<lambda>x. observer_tuple x ev) (r_observers r))"
    using assms by (auto simp: registry_ok_def distinct_map inj_on_def observer_tuple_def)
  let ?todo = "to_visit ev (r_observers r) r"
  let ?good = "takeWhile (\<lambda>x. OnEvent x ev) ?todo"
  let ?r' = "r\<lparr>r_completed := r_completed r \<union> (\<lambda>x. observer_tuple x ev) ` set ?good\<rparr>"
  have dt: "distinct (map (\<lambda>x. observer_tuple x ev) ?todo)" using d by (simp add: to_visit_def distinct_map_filter)
  have "to_visit ev (r_observers r) ?r' = filter (\<lambda>x. observer_tuple x ev \<notin> (\<lambda>x. observer_tuple x ev) ` set ?good) ?todo"
    by (auto simp: to_visit_def intro!: filter_cong)
  also have "\<dots> = dropWhile (\<lambda>x. OnEvent x ev) ?todo"
  proof -
    have "filter (\<lambda>x. f x \<notin> f ` set (takeWhile P xs)) xs = dropWhile P xs" if "distinct (map f xs)" for f :: "'a observerEntry \<Rightarrow> observer_tuple" and P xs
    proof -
      have "filter (\<lambda>x. f x \<notin> f ` set (takeWhile P xs)) (takeWhile P xs @ dropWhile P xs) = dropWhile P xs"
        using that by (subst (asm) takeWhile_dropWhile_id[of P xs, symmetric], unfold map_append distinct_append filter_append)
          (auto simp: filter_empty_conv filter_id_conv)
      then show ?thesis by simp
    qed
    from this[OF dt] show ?thesis .
  qed
  finally show ?thesis using dispatch_loop_exact[OF d, of OnEvent r] by (simp add: DispatchEvent_def Let_def)
qed

definition sample_event :: event where
  "sample_event = \<lparr>ev_id = ''e'', ev_type = ''t'', ev_source = [], ev_timestamp = 0, ev_payload = []\<rparr>"

definition sample_observer :: "string \<Rightarrow> unit observerEntry" where
  "sample_observer n = \<lparr>o_plugin = ''p'', o_reg = \<lparr>or_id = n, or_event_types = [], or_observer = ()\<rparr>\<rparr>"

definition sample_registry :: "unit registry" where
  "sample_registry = NewRegistry\<lparr>r_observers := map sample_observer [''a'', ''b'', ''c'']\<rparr>"

lemma sample_to_visit: "to_visit sample_event (r_observers sample_registry) sample_registry = map sample_observer [''a'', ''b'', ''c'']"
  by (simp add: to_visit_def sample_registry_def NewRegistry_def matchesEventType_def sample_observer_def)

theorem DispatchEvent_exact_witness:
  "\<exists>r'. DispatchEvent (\<lambda>x ev. or_id (o_reg x) \<noteq> ''b'') sample_event sample_registry =
     (Inl (sample_observer ''b''), [sample_observer ''a'', sample_observer ''b''], r')"
proof -
  have "registry_ok sample_registry"
    by (simp add: registry_ok_def sample_registry_def sample_observer_def NewRegistry_def map_ok_def all_validators_def)
  note t = DispatchEvent_exact[OF this, of sample_event "\<lambda>x ev. or_id (o_reg x) \<noteq> ''b''", unfolded Let_def sample_to_visit, THEN conjunct1]
  show ?thesis unfolding t by (simp add: sample_observer_def)
qed

section \<open>At most one successful delivery\<close>

definition plugin_start :: "'h plugin_system \<Rightarrow> bool" where
  "plugin_start s \<longleftrightarrow> s = \<lparr>s_registry = NewRegistry, s_dispatches = [], s_delivered = []\<rparr>"

text \<open>The reservations held by running callbacks.\<close>

definition holds :: "'h plugin_system \<Rightarrow> nat \<Rightarrow> observer_tuple \<Rightarrow> bool" where
  "holds s i t \<longleftrightarrow> i < length (s_dispatches s) \<and> d_call (s_dispatches s ! i) = Some t"

definition plugin_inv :: "'h plugin_system \<Rightarrow> bool" where
  "plugin_inv s \<longleftrightarrow>
     registry_ok (s_registry s) \<and> distinct (s_delivered s) \<and> set (s_delivered s) = r_completed (s_registry s) \<and>
     r_completed (s_registry s) \<inter> r_delivering (s_registry s) = {} \<and>
     (\<forall>i t. holds s i t \<longrightarrow> t \<in> r_delivering (s_registry s)) \<and>
     (\<forall>i j t. holds s i t \<longrightarrow> holds s j t \<longrightarrow> i = j)"

lemma registry_ok_marks [simp]:
  "registry_ok (r\<lparr>r_delivering := D, r_completed := C\<rparr>) = registry_ok r"
  "registry_ok (r\<lparr>r_delivering := D\<rparr>) = registry_ok r"
  by (simp_all add: registry_ok_def all_validators_def)

lemma RegisterPlugin_marks:
  assumes "RegisterPlugin p code r = (res, pt, r')"
  shows "r_completed r' = r_completed r \<and> r_delivering r' = r_delivering r"
proof (cases code)
  case None
  with assms show ?thesis by (simp add: RegisterPlugin_def)
next
  case (Some a)
  obtain cs outcome where a: "a = (cs, outcome)" by fastforce
  have "commitLocked (pending_of p cs) r = (Inr (), r') \<Longrightarrow> ?thesis"
    by (auto simp: commitLocked_def split: option.splits)
  with RegisterPlugin_cases[OF assms[unfolded Some a]] show ?thesis by (auto split: if_splits)
qed

lemma holds_update:
  assumes "i < length (s_dispatches s)"
  shows "holds (s\<lparr>s_dispatches := (s_dispatches s)[i := d]\<rparr>) j t \<longleftrightarrow>
    (if j = i then d_call d = Some t else holds s j t)"
  using assms by (auto simp: holds_def nth_list_update)

lemma holds_other [simp]:
  "holds (s\<lparr>s_registry := r\<rparr>) = holds s" "holds (s\<lparr>s_registry := r, s_dispatches := ds\<rparr>) = holds (s\<lparr>s_dispatches := ds\<rparr>)"
  "holds (s\<lparr>s_registry := r, s_dispatches := ds, s_delivered := l\<rparr>) = holds (s\<lparr>s_dispatches := ds\<rparr>)"
  by (simp_all add: holds_def fun_eq_iff)

lemma holds_start: "holds (s\<lparr>s_dispatches := s_dispatches s @ [\<lparr>d_event = ev, d_rest = xs, d_call = None\<rparr>]\<rparr>) = holds s"
  by (auto simp: holds_def fun_eq_iff nth_append less_Suc_eq)

interpretation plugins: invariant_system plugin_start plugin_step plugin_inv
proof
  fix s :: "'h plugin_system"
  assume "plugin_start s"
  then show "plugin_inv s" by (simp add: plugin_start_def plugin_inv_def NewRegistry_ok holds_def) (simp add: NewRegistry_def)
next
  fix s t :: "'h plugin_system"
  assume inv: "plugin_inv s" and "plugin_step s t"
  from this(2) show "plugin_inv t"
  proof cases
    case (register p code res pt r')
    from RegisterPlugin_marks[OF register(2)] RegisterPlugin_ok[OF _ register(2)] inv register(1)
    show ?thesis by (simp add: plugin_inv_def)
  next
    case (start ev)
    with inv show ?thesis by (simp add: plugin_inv_def holds_start)
  next
    case (skip i d x xs)
    then show ?thesis using inv by (auto simp: plugin_inv_def holds_update simp del: split_paired_All split: if_splits)
  next
    case (refused i d x xs r')
    then show ?thesis using inv
      by (auto simp: plugin_inv_def holds_update reserveObserverDelivery_def simp del: split_paired_All split: if_splits)
  next
    case (reserve i d x xs r')
    let ?t = "observer_tuple x (d_event d)"
    from reserve have new: "?t \<notin> r_completed (s_registry s)" "?t \<notin> r_delivering (s_registry s)"
      "r' = (s_registry s)\<lparr>r_delivering := insert ?t (r_delivering (s_registry s))\<rparr>"
      by (auto simp: reserveObserverDelivery_def split: if_splits)
    have "\<not> holds s j ?t" for j using inv new(2) unfolding plugin_inv_def by blast
    with reserve(1,2) inv new show ?thesis by (auto simp: plugin_inv_def holds_update simp del: split_paired_All split: if_splits)
  next
    case (delivered i d tuple)
    then have h: "holds s i tuple" by (simp add: holds_def)
    with inv have "tuple \<in> r_delivering (s_registry s)" "tuple \<notin> r_completed (s_registry s)" "\<And>j. holds s j tuple \<Longrightarrow> j = i"
      unfolding plugin_inv_def by blast+
    with delivered inv show ?thesis
      by (auto simp: plugin_inv_def holds_update completeObserverDelivery_def simp del: split_paired_All split: if_splits)
  next
    case (failed i d tuple)
    then have h: "holds s i tuple" by (simp add: holds_def)
    with inv have "\<And>j. holds s j tuple \<Longrightarrow> j = i" unfolding plugin_inv_def by blast
    with failed inv show ?thesis
      by (auto simp: plugin_inv_def holds_update releaseObserverDelivery_def simp del: split_paired_All split: if_splits)
  next
    case (panicked i d tuple)
    then show ?thesis using inv by (auto simp: plugin_inv_def holds_update simp del: split_paired_All split: if_splits)
  qed
qed

text \<open>C12: under any interleaving of registrations and dispatches, failing and panicking callbacks
  included, an observer's callback succeeds at most once for an event and runs at most once at a time,
  never after it has succeeded; and the registry stays well-formed: identifiers unique on every
  surface, transformers and validators in the documented order.\<close>
theorem observer_delivered_once:
  assumes "reach plugin_start plugin_step s"
  shows "registry_ok (s_registry s) \<and> distinct (s_delivered s) \<and>
    (\<forall>i t. holds s i t \<longrightarrow> t \<notin> set (s_delivered s) \<and> (\<forall>j. holds s j t \<longrightarrow> j = i))"
  using plugins.reach_inv[OF assms] unfolding plugin_inv_def by blast

definition sample_register :: "unit host_call list" where
  "sample_register = [RegisterObserver \<lparr>or_id = ''a'', or_event_types = [], or_observer = ()\<rparr>]"

theorem observer_delivered_once_witness:
  "\<exists>s :: unit plugin_system. reach plugin_start plugin_step s \<and> s_delivered s = [(''p'', ''a'', ''e'')] \<and>
     distinct (s_delivered s)"
proof -
  let ?s0 = "\<lparr>s_registry = NewRegistry, s_dispatches = [], s_delivered = []\<rparr> :: unit plugin_system"
  obtain res pt r1 where run: "RegisterPlugin ''p'' (Some (sample_register, Returned)) NewRegistry = (res, pt, r1)"
    by (cases "RegisterPlugin ''p'' (Some (sample_register, Returned)) NewRegistry") auto
  then have obs: "r_observers r1 = [sample_observer ''a''] \<and> r_completed r1 = {} \<and> r_delivering r1 = {}"
    by (auto simp: RegisterPlugin_def sample_register_def sample_observer_def add_defs when_open_def requireOpenLocked_def
        BeginTx_def Commit_def commitLocked_def commit_conflicts_def first_conflict_def NewRegistry_def)
  let ?s1 = "?s0\<lparr>s_registry := r1\<rparr>"
  have 0: "reach plugin_start plugin_step ?s0" by (rule reach_init) (simp add: plugin_start_def)
  have "plugin_step ?s0 ?s1"
    using plugin_step.register[of "''p''" "Some (sample_register, Returned)" ?s0 res pt r1] run by simp
  then have 1: "reach plugin_start plugin_step ?s1" using 0 by (rule reach_step[rotated])
  let ?s2 = "?s1\<lparr>s_dispatches := [\<lparr>d_event = sample_event, d_rest = [sample_observer ''a''], d_call = None\<rparr>]\<rparr>"
  have 2: "reach plugin_start plugin_step ?s2"
    using reach_step[OF 1 plugin_step.start[where ev = sample_event]] obs by simp
  let ?t = "(''p'', ''a'', ''e'')"
  let ?s3 = "?s2\<lparr>s_registry := r1\<lparr>r_delivering := {?t}\<rparr>, s_dispatches := [\<lparr>d_event = sample_event, d_rest = [], d_call = Some ?t\<rparr>]\<rparr>"
  have "plugin_step ?s2 ?s3"
    using plugin_step.reserve[of 0 ?s2 "s_dispatches ?s2 ! 0" "sample_observer ''a''" "[]" "r1\<lparr>r_delivering := {?t}\<rparr>"] obs
    by (simp add: matchesEventType_def sample_observer_def observer_tuple_def sample_event_def reserveObserverDelivery_def)
  then have 3: "reach plugin_start plugin_step ?s3" using 2 by (rule reach_step[rotated])
  let ?s4 = "?s3\<lparr>s_registry := completeObserverDelivery ?t (s_registry ?s3),
     s_dispatches := [\<lparr>d_event = sample_event, d_rest = [], d_call = None\<rparr>], s_delivered := [?t]\<rparr>"
  have "plugin_step ?s3 ?s4" using plugin_step.delivered[of 0 ?s3 "s_dispatches ?s3 ! 0" ?t] by simp
  then have 4: "reach plugin_start plugin_step ?s4" using 3 by (rule reach_step[rotated])
  from 4 observer_delivered_once[OF 4] show ?thesis by (intro exI[of _ ?s4] conjI) simp_all
qed

section \<open>Validation\<close>

lemma sort_key_unique:
  assumes "mset xs = mset ys" and "distinct (map k xs)"
  shows "sort_key k xs = sort_key k ys"
proof -
  have "distinct (map k ys)" using assms mset_eq_imp_distinct_iff[of "map k xs" "map k ys"] by simp
  moreover have "set xs = set ys" using assms(1) by (rule mset_eq_setD)
  ultimately show ?thesis using assms(2)
    by (intro map_sorted_distinct_set_unique[of k]) (simp_all add: distinct_map_sort_key distinct_map)
qed

lemma sort_key_sorted: "sorted (map k xs) \<Longrightarrow> sort_key k xs = xs"
  by (rule properties_for_sort_key) simp_all

definition stamped :: "'h validatorEntry \<Rightarrow> ValidationResult list \<Rightarrow> ValidationResult list" where
  "stamped v fs = map (\<lambda>f. f\<lparr>PluginID := v_plugin v, ValidatorID := vr_id (v_reg v)\<rparr>) fs"

definition failure_of :: "'h validatorEntry \<Rightarrow> 'e option \<Rightarrow> (string \<times> string \<times> 'e) list" where
  "failure_of v err = (case err of None \<Rightarrow> [] | Some e \<Rightarrow> [(vr_id (v_reg v), v_plugin v, e)])"

lemma validate_loop_concat:
  "validate_loop run input vs =
     (concat (map (\<lambda>v. stamped v (fst (run (vr_validator (v_reg v)) input))) vs),
      concat (map (\<lambda>v. failure_of v (snd (run (vr_validator (v_reg v)) input))) vs))"
  by (induction vs) (simp_all add: stamped_def failure_of_def split_beta Let_def)

lemma sorted_stamped:
  assumes "sorted (map validator_key vs)"
  shows "sorted (map result_key (concat (map (\<lambda>v. stamped v (f v)) vs)))"
  using assms
proof (induction vs)
  case Nil
  then show ?case by simp
next
  case (Cons v vs)
  have keys: "map result_key (stamped v fs) = replicate (length fs) (validator_key v)" for v :: "'a validatorEntry" and fs
    by (simp add: stamped_def result_key_def validator_key_def map_replicate_const comp_def)
  have "result_key ` set (concat (map (\<lambda>v. stamped v (f v)) vs)) \<subseteq> validator_key ` set vs"
    by (auto simp: stamped_def result_key_def validator_key_def)
  moreover have "\<forall>k \<in> validator_key ` set vs. validator_key v \<le> k" using Cons.prems by simp
  ultimately have "\<forall>x \<in> set (concat (map (\<lambda>v. stamped v (f v)) vs)). validator_key v \<le> result_key x" by blast
  moreover have "sorted (map result_key (concat (map (\<lambda>v. stamped v (f v)) vs)))" using Cons by simp
  ultimately show ?case unfolding list.map concat.simps map_append keys sorted_append
    by (simp del: concat.simps)
qed

text \<open>Validation runs every requested validator once, in the order of plugin and validator
  identifiers whatever the iteration order of Go's map, keeps every finding, stamped with its
  validator, and every execution error, and returns both in that order.\<close>
theorem Validate_exact:
  assumes "registry_ok r" and "mset order = mset (r_capabilities r)"
  shows "let vs = (if capability = [] then sortValidatorEntries (all_validators r) else r_validators r capability)
    in Validate run order capability input r =
         (concat (map (\<lambda>v. stamped v (fst (run (vr_validator (v_reg v)) input))) vs),
          concat (map (\<lambda>v. failure_of v (snd (run (vr_validator (v_reg v)) input))) vs)) \<and>
       sorted (map validator_key vs) \<and> distinct (map validator_key vs)"
proof -
  define vs where "vs = (if capability = [] then sortValidatorEntries (all_validators r) else r_validators r capability)"
  have dist: "distinct (map validator_key (all_validators r))" using assms(1) by (simp add: registry_ok_def)
  have "mset (concat xss) = sum_mset (image_mset mset (mset xss))" for xss :: "'a validatorEntry list list"
    by (induction xss) simp_all
  then have "mset (concat (map (r_validators r) order)) = mset (all_validators r)"
    using assms(2) by (simp add: all_validators_def)
  then have "sortValidatorEntries (concat (map (r_validators r) order)) = sortValidatorEntries (all_validators r)"
    unfolding sortValidatorEntries_def using sort_key_unique[OF sym dist] by metis
  then have list: "ListValidators order capability r = vs" by (simp add: ListValidators_def vs_def)
  have sorted: "sorted (map validator_key vs)"
    using assms(1) by (simp add: vs_def sortValidatorEntries_def registry_ok_def)
  have "distinct (map validator_key vs)"
  proof (cases "capability = []")
    case True
    then show ?thesis using dist by (simp add: vs_def sortValidatorEntries_def distinct_map_sort_key)
  next
    case named: False
    show ?thesis
    proof (cases "capability \<in> set (r_capabilities r)")
      case True
      then obtain as bs where "r_capabilities r = as @ capability # bs" by (meson split_list)
      with dist named show ?thesis by (simp add: vs_def all_validators_def)
    next
      case False
      with named have "vs = []" using assms(1) by (auto simp: vs_def registry_ok_def)
      then show ?thesis by simp
    qed
  qed
  with sorted show ?thesis
    unfolding vs_def[symmetric] Let_def
    by (simp add: Validate_def list validate_loop_concat sortValidationResults_def sort_key_sorted sorted_stamped)
qed

definition sample_validators :: "unit registry" where
  "sample_validators = snd (snd (RegisterPlugin ''p'' (Some
     ([RegisterValidator \<lparr>vr_id = ''w'', vr_capability = ''c'', vr_validator = ()\<rparr>,
       RegisterValidator \<lparr>vr_id = ''v'', vr_capability = ''d'', vr_validator = ()\<rparr>], Returned)) NewRegistry))"

theorem Validate_exact_witness:
  "map result_key (fst (Validate (\<lambda>_ _. ([\<lparr>ValidatorID = [], PluginID = [], Severity = ''info'', Message = [], Span = None\<rparr>], Some ()))
     [''d'', ''c''] [] ''text'' sample_validators)) = [(''p'', ''v''), (''p'', ''w'')]"
proof -
  have ok: "registry_ok sample_validators"
    unfolding sample_validators_def by (rule RegisterPlugin_ok[OF NewRegistry_ok]) (rule surjective_pairing[THEN trans], rule arg_cong[OF surjective_pairing])
  have caps: "r_capabilities sample_validators = [''c'', ''d'']"
    "r_validators sample_validators ''c'' = [\<lparr>v_plugin = ''p'', v_reg = \<lparr>vr_id = ''w'', vr_capability = ''c'', vr_validator = ()\<rparr>\<rparr>]"
    "r_validators sample_validators ''d'' = [\<lparr>v_plugin = ''p'', v_reg = \<lparr>vr_id = ''v'', vr_capability = ''d'', vr_validator = ()\<rparr>\<rparr>]"
    by (simp_all add: sample_validators_def RegisterPlugin_def add_defs when_open_def requireOpenLocked_def
        BeginTx_def Commit_def commitLocked_def commit_conflicts_def first_conflict_def NewRegistry_def
        put_validators_def add_keys_def all_validators_def sortValidatorEntries_def)
  then have ord: "mset [''d'', ''c''] = mset (r_capabilities sample_validators)" by simp
  show ?thesis
    using Validate_exact[OF ok ord, of "[]" "\<lambda>_ _. ([\<lparr>ValidatorID = [], PluginID = [], Severity = ''info'', Message = [], Span = None\<rparr>], Some ())" "''text''", unfolded Let_def]
    by (simp add: all_validators_def caps sortValidatorEntries_def validator_key_def stamped_def result_key_def)
qed

end
