(* ===== verification/Semantics_Tokens.thy ===== *)
theory Semantics_Tokens
  imports Semantics_Types
begin

text \<open>
  The tokenizer of internal/semantics/types.go as maximal munch, and what \<open>Prepare\<close> promises about the tokens of an
  article.
\<close>

section \<open>Widths of runes\<close>

lemma rune_len_good:
  assumes "good_chunk (r, w)"
  shows "rune_len r = length w"
proof -
  have ne: "w \<noteq> []" and nb: "\<not> bad_rune w" and d: "decode_rune w = (r, length w)"
    using assms by (auto simp: good_chunk_def)
  let ?b = "byte (w ! 0)"
  show ?thesis
  proof (cases "?b < 0x80")
    case True
    then show ?thesis using d ne by (auto simp: decode_rune_def rune_len_def)
  next
    case False
    show ?thesis
    proof (cases "lead_info ?b")
      case None
      then show ?thesis using nb ne False by (simp add: bad_rune_def decode_rune_def)
    next
      case (Some p)
      obtain sz lo hi where p: "p = (sz, lo, hi)" by (cases p)
      have i: "sz = 2 \<and> 0xC2 \<le> ?b \<and> ?b < 0xE0 \<or> sz = 3 \<and> ?b = 0xE0 \<and> lo = 0xA0 \<and> hi = 0xBF
          \<or> sz = 3 \<and> 0xE1 \<le> ?b \<and> ?b < 0xF0 \<or> sz = 4 \<and> ?b = 0xF0 \<and> lo = 0x90 \<and> hi = 0xBF
          \<or> sz = 4 \<and> 0xF1 \<le> ?b \<and> ?b < 0xF5"
        using Some p False by (auto simp: lead_info_def split: if_splits)
      define x where "x = ?b mod 32"
      define y where "y = ?b mod 16"
      define z where "z = ?b mod 8"
      define k where "k = cont_bits (w ! 1)"
      define k2 where "k2 = cont_bits (w ! 2)"
      define k3 where "k3 = cont_bits (w ! 3)"
      have small: "x < 32" "y < 16" "z < 8" "k < 64" "k2 < 64" "k3 < 64"
        by (simp_all add: x_def y_def z_def k_def k2_def k3_def cont_bits_def)
      have k: "32 \<le> k" if "0xA0 \<le> byte (w ! 1)" "byte (w ! 1) \<le> 0xBF"
        using that mod_window[of 64 2 "byte (w ! 1)"] by (simp add: k_def cont_bits_def)
      have k': "16 \<le> k" if "0x90 \<le> byte (w ! 1)" "byte (w ! 1) \<le> 0xBF"
        using that mod_window[of 64 2 "byte (w ! 1)"] by (simp add: k_def cont_bits_def)
      have x: "2 \<le> x" if "0xC2 \<le> ?b" "?b < 0xE0" using that mod_window[of 32 6 ?b] by (simp add: x_def)
      have y: "1 \<le> y" if "0xE1 \<le> ?b" "?b < 0xF0" using that mod_window[of 16 14 ?b] by (simp add: y_def)
      have z: "1 \<le> z" if "0xF1 \<le> ?b" "?b < 0xF5" using that mod_window[of 8 30 ?b] by (simp add: z_def)
      have r: "lo \<le> byte (w ! 1) \<and> byte (w ! 1) \<le> hi \<and> length w = sz \<and>
          (sz = 2 \<and> r = x * 64 + k \<or> sz = 3 \<and> r = y * 4096 + k * 64 + k2 \<or>
           sz = 4 \<and> r = z * 262144 + k * 4096 + k2 * 64 + k3)"
        using d nb ne False Some p lead_info_size[of ?b sz lo hi]
        unfolding bad_rune_def decode_rune_def Let_def x_def[symmetric] y_def[symmetric] z_def[symmetric]
          k_def[symmetric] k2_def[symmetric] k3_def[symmetric]
        by (simp split del: if_split split: if_splits)
      consider "sz = 2" "128 \<le> r" "r < 0x800" | "sz = 3" "0x800 \<le> r" "r < 0x10000" | "sz = 4" "0x10000 \<le> r"
        using i r small k k' x y z by (elim disjE conjE) simp_all
      then show ?thesis using r by cases (simp_all add: rune_len_def)
    qed
  qed
qed

section \<open>Maximal munch\<close>

text \<open>
  What a token is: a word rune and the longest run after it of word runes, marks, and joiners with a word rune
  behind them.  The reference splits the runes of a text that way, front to back; the result lists byte ranges.
\<close>

fun munch :: "unicode_tables \<Rightarrow> (nat \<times> string) list \<Rightarrow> (nat \<times> string) list" where
  "munch U [] = []"
| "munch U (c # cs) =
     (if isWordRune U (fst c) \<or> is_mark U (fst c) \<or> isJoiner (fst c) \<and> cs \<noteq> [] \<and> isWordRune U (fst (hd cs))
      then c # munch U cs else [])"

function word_spans :: "unicode_tables \<Rightarrow> (nat \<times> string) list \<Rightarrow> nat \<Rightarrow> (nat \<times> nat) list" where
  "word_spans U [] pos = []"
| "word_spans U (c # cs) pos =
     (if isWordRune U (fst c)
      then (pos, pos + length (bytes_of (munch U (c # cs)))) #
        word_spans U (drop (length (munch U (c # cs))) (c # cs)) (pos + length (bytes_of (munch U (c # cs))))
      else word_spans U cs (pos + length (snd c)))"
  by pat_completeness auto
termination
  by (relation "measure (\<lambda>(U, cs, pos). length cs)") auto

declare word_spans.simps(2) [simp del]

lemma munch_prefix: "munch U cs @ drop (length (munch U cs)) cs = cs"
  by (induction cs) auto

lemma word_spans_gap: "\<not> isWordRune U (fst c) \<Longrightarrow> word_spans U (c # cs) pos = word_spans U cs (pos + length (snd c))"
  by (simp add: word_spans.simps)

lemma hasWordAfter_next:
  assumes "\<forall>c \<in> set cs. good_chunk c" and "s = p @ bytes_of cs"
  shows "hasWordAfter U s (length p) \<longleftrightarrow> cs \<noteq> [] \<and> isWordRune U (fst (hd cs))"
proof (cases cs)
  case Nil
  then show ?thesis using assms(2) by (simp add: hasWordAfter_def)
next
  case (Cons c cs')
  obtain r w where c: "c = (r, w)" by (cases c)
  with assms Cons have "good_chunk (r, w)" by simp
  then have "decode_rune (w @ bytes_of cs') = (r, length w)" "w \<noteq> []"
    by (simp_all add: good_chunk_append) (simp add: good_chunk_def)
  then show ?thesis using assms(2) Cons c by (simp add: hasWordAfter_def)
qed

text \<open>The loop: without an open token it is the reference, with one it completes it to the longest run.\<close>

lemma token_loop_munch:
  assumes "\<forall>c \<in> set cs. good_chunk c" and "s = p @ bytes_of cs"
  shows "token_loop U s cs (length p) None = word_spans U cs (length p) \<and>
    (\<forall>start stop. stop = length p \<or> cs \<noteq> [] \<and> isWordRune U (fst (hd cs)) \<longrightarrow>
      token_loop U s cs (length p) (Some (start, stop)) =
        (start, length p + length (bytes_of (munch U cs))) #
        word_spans U (drop (length (munch U cs)) cs) (length p + length (bytes_of (munch U cs))))"
  using assms
proof (induction cs arbitrary: p)
  case Nil
  then show ?case by simp
next
  case (Cons c cs)
  obtain r w where c: "c = (r, w)" by (cases c)
  have g: "\<forall>c \<in> set cs. good_chunk c" and len: "rune_len r = length w"
    using Cons.prems(1) c rune_len_good by auto
  have s: "s = (p @ w) @ bytes_of cs" using Cons.prems(2) c by simp
  note IH = Cons.IH[OF g s]
  have after: "hasWordAfter U s (length p + length w) \<longleftrightarrow> cs \<noteq> [] \<and> isWordRune U (fst (hd cs))"
    using hasWordAfter_next[OF g s] by simp
  show ?case
  proof (cases "isWordRune U r")
    case True
    then show ?thesis
      using IH by (auto simp: c len word_spans.simps(2) algebra_simps)
  next
    case nw: False
    show ?thesis
    proof (intro conjI allI impI)
      show "token_loop U s (c # cs) (length p) None = word_spans U (c # cs) (length p)"
        using nw IH by (simp add: c word_spans_gap)
      fix start stop
      assume "stop = length p \<or> c # cs \<noteq> [] \<and> isWordRune U (fst (hd (c # cs)))"
      with nw c have stop: "stop = length p" by simp
      show "token_loop U s (c # cs) (length p) (Some (start, stop)) =
        (start, length p + length (bytes_of (munch U (c # cs)))) #
        word_spans U (drop (length (munch U (c # cs))) (c # cs)) (length p + length (bytes_of (munch U (c # cs))))"
        using nw stop IH after by (auto simp: c len word_spans_gap algebra_simps)
    qed
  qed
qed

text \<open>Where the words are: each span is a run of whole runes that starts with a word rune, they are in order with
  something between them, and together they hold every word rune.\<close>

lemma munch_stops: "drop (length (munch U cs)) cs = d # ds \<Longrightarrow> \<not> isWordRune U (fst d)"
  by (induction cs) (auto split: if_splits)

lemma word_spans_runs:
  "(a, b) \<in> set (word_spans U cs pos) \<Longrightarrow>
   \<exists>pre tok post. cs = pre @ tok @ post \<and> a = pos + length (bytes_of pre) \<and> b = a + length (bytes_of tok) \<and>
     tok \<noteq> [] \<and> isWordRune U (fst (hd tok))"
proof (induction U cs pos rule: word_spans.induct)
  case (1 U pos)
  then show ?case by simp
next
  case (2 U c cs pos)
  show ?case
  proof (cases "isWordRune U (fst c)")
    case True
    define m where "m = munch U (c # cs)"
    have m: "c # cs = m @ drop (length m) (c # cs)" using munch_prefix[of U "c # cs"] by (simp add: m_def)
    have h: "m \<noteq> []" "hd m = c" using True by (simp_all add: m_def)
    consider "a = pos" "b = pos + length (bytes_of m)"
      | "(a, b) \<in> set (word_spans U (drop (length m) (c # cs)) (pos + length (bytes_of m)))"
      using 2(3) True by (auto simp: word_spans.simps(2) m_def)
    then show ?thesis
    proof cases
      case 1
      then show ?thesis using m h True by (intro exI[of _ "[]"] exI[of _ m] exI[of _ "drop (length m) (c # cs)"]) simp
    next
      case 2
      from "2.IH"(1)[OF True] this obtain pre tok post where
        "drop (length m) (c # cs) = pre @ tok @ post" "a = pos + length (bytes_of m) + length (bytes_of pre)"
        "b = a + length (bytes_of tok)" "tok \<noteq> []" "isWordRune U (fst (hd tok))"
        unfolding m_def by blast
      then show ?thesis using m by (intro exI[of _ "m @ pre"] exI[of _ tok] exI[of _ post]) simp
    qed
  next
    case False
    with 2(3) have "(a, b) \<in> set (word_spans U cs (pos + length (snd c)))" by (simp add: word_spans_gap)
    from "2.IH"(2)[OF False this] obtain pre tok post where
      "cs = pre @ tok @ post" "a = pos + length (snd c) + length (bytes_of pre)"
      "b = a + length (bytes_of tok)" "tok \<noteq> []" "isWordRune U (fst (hd tok))" by blast
    then show ?thesis by (intro exI[of _ "c # pre"] exI[of _ tok] exI[of _ post]) simp
  qed
qed

lemma word_spans_from: "p \<in> set (word_spans U cs pos) \<Longrightarrow> pos \<le> fst p"
  using word_spans_runs[of "fst p" "snd p" U cs pos] by auto

lemma word_spans_ordered:
  assumes "\<forall>c \<in> set cs. snd c \<noteq> []"
  shows "sorted_wrt (\<lambda>p q. snd p < fst q) (word_spans U cs pos)"
  using assms
proof (induction U cs pos rule: word_spans.induct)
  case (1 U pos)
  then show ?case by simp
next
  case (2 U c cs pos)
  show ?case
  proof (cases "isWordRune U (fst c)")
    case True
    let ?m = "munch U (c # cs)"
    let ?r = "drop (length ?m) (c # cs)"
    let ?p = "pos + length (bytes_of ?m)"
    have sub: "\<forall>d \<in> set ?r. snd d \<noteq> []" using 2(3) by (meson in_set_dropD)
    have "?p < fst q" if "q \<in> set (word_spans U ?r ?p)" for q
    proof (cases ?r)
      case Nil
      then show ?thesis using that by simp
    next
      case (Cons d ds)
      have "\<not> isWordRune U (fst d)" by (rule munch_stops[OF Cons])
      then have "q \<in> set (word_spans U ds (?p + length (snd d)))" using that Cons by (simp add: word_spans_gap)
      then have "?p + length (snd d) \<le> fst q" by (rule word_spans_from)
      moreover have "0 < length (snd d)" using sub unfolding Cons by simp
      ultimately show ?thesis by linarith
    qed
    then show ?thesis using "2.IH"(1)[OF True sub] True by (simp add: word_spans.simps(2))
  next
    case False
    then show ?thesis using "2.IH"(2)[OF False] 2(3) by (simp add: word_spans_gap)
  qed
qed

lemma word_spans_cover:
  "cs = pre @ (r, w) # post \<Longrightarrow> isWordRune U r \<Longrightarrow>
   \<exists>(a, b) \<in> set (word_spans U cs pos). a \<le> pos + length (bytes_of pre) \<and> pos + length (bytes_of pre) + length w \<le> b"
proof (induction U cs pos arbitrary: pre rule: word_spans.induct)
  case (1 U pos)
  then show ?case by simp
next
  case (2 U c cs pos)
  show ?case
  proof (cases "isWordRune U (fst c)")
    case True
    define m where "m = munch U (c # cs)"
    have m: "m @ drop (length m) (c # cs) = pre @ (r, w) # post"
      using munch_prefix[of U "c # cs"] 2(3) by (simp add: m_def)
    show ?thesis
    proof (cases "length pre < length m")
      case True
      then have "take (length m) (pre @ (r, w) # post) = pre @ (r, w) # take (length m - Suc (length pre)) post"
        by (simp add: take_Cons')
      then have "m = pre @ (r, w) # take (length m - Suc (length pre)) post"
        using m by (metis append_eq_conv_conj)
      then have "length (bytes_of pre) + length w \<le> length (bytes_of m)"
        by (metis (no_types, lifting) concat.simps(2) concat_append length_append le_add1 list.simps(9) map_append snd_conv add.assoc)
      then show ?thesis using \<open>isWordRune U (fst c)\<close> by (simp add: word_spans.simps(2) m_def)
    next
      case False
      define pre' where "pre' = drop (length m) pre"
      have "drop (length m) (c # cs) = pre' @ (r, w) # post"
        using arg_cong[OF m, of "drop (length m)"] False by (simp add: pre'_def)
      moreover have "pre = m @ pre'"
        using m False by (metis append_eq_append_conv_if append_take_drop_id pre'_def not_less)
      ultimately show ?thesis
        using "2.IH"(1)[OF True, of pre'] 2(4) True unfolding m_def
        by (auto simp: word_spans.simps(2) add.assoc)
    qed
  next
    case False
    with 2(3,4) obtain pre' where "pre = c # pre'" "cs = pre' @ (r, w) # post" by (cases pre) auto
    then show ?thesis
      using "2.IH"(2)[OF False, of pre'] 2(4) False by (simp add: word_spans_gap add.assoc)
  qed
qed

section \<open>Tokens\<close>

lemma tokenize_munch:
  "valid_utf8 s \<Longrightarrow> tokenize E bi s = map (makeToken E bi s) (word_spans (tables E) (chunks s) 0)"
  using token_loop_munch[of "chunks s" s "[]" "tables E"] by (simp add: tokenize_def valid_chunks)

lemma word_spans_cut:
  assumes "valid_utf8 s" and "(a, b) \<in> set (word_spans U (chunks s) 0)"
  shows "rune_cut s a \<and> rune_cut s b \<and> a < b"
proof -
  obtain pre tok post where c: "chunks s = pre @ tok @ post" and ab: "a = length (bytes_of pre)"
    "b = a + length (bytes_of tok)" and t: "tok \<noteq> []"
    using word_spans_runs[OF assms(2)] by auto
  have g: "\<forall>c \<in> set (pre @ tok @ post). good_chunk c" using assms(1) c by (simp add: valid_chunks)
  have s: "s = bytes_of pre @ bytes_of tok @ bytes_of post" using bytes_of_chunks[of s] c by simp
  have "bytes_of tok \<noteq> []" using t g by (cases tok) (auto simp: good_chunk_def)
  moreover have "valid_utf8 (bytes_of pre)" "valid_utf8 (bytes_of tok)" "valid_utf8 (bytes_of post)"
    using g by (auto intro!: valid_bytes_of)
  ultimately show ?thesis using s ab by (simp add: rune_cut_def valid_append)
qed

lemma units_strict:
  assumes "rune_cut s i" and "rune_cut s j" and "i < j"
  shows "utf16Len (take i s) < utf16Len (take j s)"
proof -
  have "slice s i j \<noteq> []"
    using assms slice_length[of i j s] by (auto simp: rune_cut_def)
  then show ?thesis
    using take_slice[of i j s] assms UTF16Len_pos[of "slice s i j"]
    by (simp add: rune_cut_def UTF16Len_append utf16Len_def)
qed

lemma units_mono: "rune_cut s i \<Longrightarrow> rune_cut s j \<Longrightarrow> i \<le> j \<Longrightarrow> utf16Len (take i s) \<le> utf16Len (take j s)"
  using units_strict[of s i j] by (cases "i = j") auto

lemma byteOffset_cut: "valid_utf8 s \<Longrightarrow> rune_cut s i \<Longrightarrow> byteOffsetForUTF16 s (utf16Len (take i s)) = Inr i"
  using of_units_cut[of s i]
  by (auto simp: byteOffsetForUTF16_def ByteOffsetFromUTF16_def utf16Len_def split: sum.splits if_splits)

lemma sliceForUTF16_cut:
  "valid_utf8 s \<Longrightarrow> rune_cut s i \<Longrightarrow> rune_cut s j \<Longrightarrow> i < j \<Longrightarrow>
   sliceForUTF16 s (utf16Len (take i s)) (utf16Len (take j s)) = Inr (slice s i j)"
  by (simp add: sliceForUTF16_def byteOffset_cut)

lemma makeToken_end:
  "rune_cut s a \<Longrightarrow> a < b \<Longrightarrow> tok_end (makeToken E bi s (a, b)) = utf16Len (take b s)"
  using take_slice[of a b s] by (simp add: makeToken_def Let_def rune_cut_def UTF16Len_append utf16Len_def)

lemma makeToken_fields [simp]:
  "tok_start (makeToken E bi s p) = utf16Len (take (fst p) s)" "tok_text (makeToken E bi s p) = slice s (fst p) (snd p)"
  "tok_block (makeToken E bi s p) = bi"
  by (simp_all add: makeToken_def Let_def)

text \<open>A token of a block: where it stands and what it says.\<close>

definition token_of :: "text_env \<Rightarrow> nat \<Rightarrow> Block \<Rightarrow> Token \<Rightarrow> bool" where
  "token_of E i b t \<longleftrightarrow> (\<exists>p \<in> set (word_spans (tables E) (chunks (blk_text b)) 0).
     tok_block t = int i \<and> tok_text t = slice (blk_text b) (fst p) (snd p) \<and>
     tok_start t = utf16Len (take (fst p) (blk_text b)) \<and> tok_end t = utf16Len (take (snd p) (blk_text b)))"

definition token_before :: "Token \<Rightarrow> Token \<Rightarrow> bool" where
  "token_before t u \<longleftrightarrow> tok_block t < tok_block u \<or> tok_block t = tok_block u \<and> tok_end t < tok_start u"

lemma token_before_number [simp]:
  "token_before (t\<lparr>tok_index := i, tok_id := x\<rparr>) (u\<lparr>tok_index := j, tok_id := y\<rparr>) = token_before t u"
  by (simp add: token_before_def)

lemma tokenize_ordered:
  assumes "valid_utf8 s"
  shows "sorted_wrt token_before (tokenize E bi s)"
proof -
  have ne: "\<forall>c \<in> set (chunks s). snd c \<noteq> []" using assms by (auto simp: valid_chunks good_chunk_def)
  have "sorted_wrt (\<lambda>p q. token_before (makeToken E bi s p) (makeToken E bi s q)) (word_spans (tables E) (chunks s) 0)"
  proof (rule sorted_wrt_mono_rel[OF _ word_spans_ordered[OF ne]])
    fix p q
    assume p: "p \<in> set (word_spans (tables E) (chunks s) 0)" and q: "q \<in> set (word_spans (tables E) (chunks s) 0)"
      and l: "snd p < fst q"
    from word_spans_cut[OF assms, of "fst p" "snd p" "tables E"] p
    have pc: "rune_cut s (fst p)" "rune_cut s (snd p)" "fst p < snd p" by simp_all
    from word_spans_cut[OF assms, of "fst q" "snd q" "tables E"] q have "rune_cut s (fst q)" by simp
    with pc l makeToken_end[OF pc(1,3), of E bi] show "token_before (makeToken E bi s p) (makeToken E bi s q)"
      by (simp add: token_before_def units_strict)
  qed
  then show ?thesis by (simp add: tokenize_munch[OF assms] sorted_wrt_map)
qed

lemma token_of_tokenize:
  assumes "valid_utf8 (blk_text b)"
  shows "t \<in> set (tokenize E (int i) (blk_text b)) \<Longrightarrow> token_of E i b t"
proof -
  assume "t \<in> set (tokenize E (int i) (blk_text b))"
  then obtain p where p: "p \<in> set (word_spans (tables E) (chunks (blk_text b)) 0)" "t = makeToken E (int i) (blk_text b) p"
    by (auto simp: tokenize_munch[OF assms])
  moreover from word_spans_cut[OF assms, of "fst p" "snd p" "tables E"] p(1)
  have "rune_cut (blk_text b) (fst p)" "fst p < snd p" by simp_all
  ultimately show ?thesis using makeToken_end[of "blk_text b" "fst p" "snd p" E "int i"]
    by (auto simp: token_of_def intro!: bexI[of _ p])
qed

lemma token_of_number [simp]: "token_of E i b (t\<lparr>tok_index := k, tok_id := x\<rparr>) = token_of E i b t"
  by (simp add: token_of_def)

lemma number_tokens_simps [simp]:
  "length (number_tokens b n ts) = length ts"
  "map tok_index (number_tokens b n ts) = map int [n..<n + length ts]"
  "map tok_id (number_tokens b n ts) = map (token_name b) [n..<n + length ts]"
  by (simp_all add: number_tokens_def comp_def split_def flip: map_map[of _ fst, unfolded comp_def])

lemma number_tokens_set: "t \<in> set (number_tokens b n ts) \<Longrightarrow> \<exists>u \<in> set ts. \<exists>k. t = u\<lparr>tok_index := int k, tok_id := token_name b k\<rparr>"
  by (auto simp: number_tokens_def enumerate_eq_zip dest: set_zip_rightD)

lemma number_tokens_ordered: "sorted_wrt token_before (number_tokens b n ts) = sorted_wrt token_before ts"
proof -
  have "sorted_wrt token_before (number_tokens b n ts) = sorted_wrt token_before (map snd (enumerate n ts))"
    by (simp add: number_tokens_def sorted_wrt_map split_def del: map_snd_enumerate)
  then show ?thesis by simp
qed

lemma number_tokens_mem: "u \<in> set ts \<Longrightarrow> \<exists>k. u\<lparr>tok_index := int k, tok_id := token_name b k\<rparr> \<in> set (number_tokens b n ts)"
proof -
  assume "u \<in> set ts"
  then have "u \<in> set (map snd (enumerate n ts))" by simp
  then obtain k where "(k, u) \<in> set (enumerate n ts)" by (auto simp del: map_snd_enumerate)
  then show ?thesis by (force simp: number_tokens_def)
qed

section \<open>A prepared article\<close>

lemma token_name_inj [simp]: "token_name b m = token_name c n \<longleftrightarrow> b = c \<and> m = n"
proof
  have no: "c \<noteq> CHR '':''" if "c \<in> set (decimal n)" for c n
    using decimal_digits[OF that] by (auto simp: byte_def)
  have split: "decimal b = takeWhile (\<lambda>c. c \<noteq> CHR '':'') (tl (token_name b m)) \<and>
      decimal m = drop 2 (dropWhile (\<lambda>c. c \<noteq> CHR '':'') (tl (token_name b m)))" for b m
    using no by (auto simp: token_name_def takeWhile_append dropWhile_append)
  assume "token_name b m = token_name c n"
  then have "decimal b = decimal c" "decimal m = decimal n" using split[of b m] split[of c n] by simp_all
  then show "b = c \<and> m = n" by simp
qed simp

lemma prepare_blocks_spec:
  "prepare_blocks E i n bs = Inr ts \<Longrightarrow>
   map tok_index ts = map int [n..<n + length ts] \<and>
   (\<forall>j < length bs. blk_index (bs ! j) = int (i + j) \<and> valid_utf8 (blk_text (bs ! j))) \<and>
   (\<forall>t \<in> set ts. \<exists>j < length bs. \<exists>k. token_of E (i + j) (bs ! j) t \<and> tok_index t = int k \<and> tok_id t = token_name (i + j) k) \<and>
   sorted_wrt token_before ts \<and>
   (\<forall>j < length bs. \<forall>p \<in> set (word_spans (tables E) (chunks (blk_text (bs ! j))) 0). \<exists>t \<in> set ts.
      tok_block t = int (i + j) \<and> tok_start t = utf16Len (take (fst p) (blk_text (bs ! j))) \<and>
      tok_end t = utf16Len (take (snd p) (blk_text (bs ! j))))"
proof (induction bs arbitrary: i n ts)
  case Nil
  then show ?case by simp
next
  case (Cons b bs)
  define us where "us = number_tokens i n (tokenize E (int i) (blk_text b))"
  obtain rest where b: "blk_index b = int i" "valid_utf8 (blk_text b)"
    and r: "prepare_blocks E (Suc i) (n + length us) bs = Inr rest" and ts: "ts = us @ rest"
    using Cons.prems by (auto simp: us_def Let_def bind_res_Inr_conv split: if_splits)
  note IH = Cons.IH[OF r]
  have here: "token_of E i b t \<and> (\<exists>k. tok_index t = int k \<and> tok_id t = token_name i k)" if "t \<in> set us" for t
    using number_tokens_set[OF that[unfolded us_def]] token_of_tokenize[OF b(2)] by auto
  have cover: "\<exists>t \<in> set us. tok_block t = int i \<and> tok_start t = utf16Len (take (fst p) (blk_text b)) \<and>
      tok_end t = utf16Len (take (snd p) (blk_text b))" if p: "p \<in> set (word_spans (tables E) (chunks (blk_text b)) 0)" for p
  proof -
    have "makeToken E (int i) (blk_text b) p \<in> set (tokenize E (int i) (blk_text b))"
      using p by (simp add: tokenize_munch[OF b(2)])
    then obtain k where k: "(makeToken E (int i) (blk_text b) p)\<lparr>tok_index := int k, tok_id := token_name i k\<rparr> \<in> set us"
      unfolding us_def using number_tokens_mem by blast
    from word_spans_cut[OF b(2), of "fst p" "snd p" "tables E"] p
    have "tok_end (makeToken E (int i) (blk_text b) p) = utf16Len (take (snd p) (blk_text b))"
      using makeToken_end[of "blk_text b" "fst p" "snd p" E "int i"] by simp
    with k show ?thesis by (intro bexI[OF _ k]) simp
  qed
  have later: "int i < tok_block t" if "t \<in> set rest" for t
    using IH that by (auto simp: token_of_def)
  have early: "tok_block t = int i" if "t \<in> set us" for t using here[OF that] by (auto simp: token_of_def)
  have "sorted_wrt token_before us" by (simp add: us_def number_tokens_ordered tokenize_ordered[OF b(2)])
  moreover have "sorted_wrt token_before rest" using IH by blast
  moreover have "\<forall>t \<in> set us. \<forall>u \<in> set rest. token_before t u" using early later by (simp add: token_before_def)
  ultimately have "sorted_wrt token_before ts" unfolding ts sorted_wrt_append by blast
  moreover have "map tok_index ts = map int [n..<n + length ts]"
  proof -
    have "map tok_index us = map int [n..<n + length us]" by (simp add: us_def)
    moreover have "map tok_index rest = map int [n + length us..<n + length us + length rest]" using IH by blast
    moreover have "[n..<n + length ts] = [n..<n + length us] @ [n + length us..<n + length us + length rest]"
      unfolding ts length_append add.assoc[symmetric] by (rule upt_add_eq_append) simp
    ultimately show ?thesis unfolding ts by (simp only: map_append)
  qed
  moreover have "\<exists>j < length (b # bs). \<exists>k. token_of E (i + j) ((b # bs) ! j) t \<and> tok_index t = int k \<and> tok_id t = token_name (i + j) k"
    if "t \<in> set ts" for t
  proof (cases "t \<in> set us")
    case True
    then show ?thesis using here by (intro exI[of _ 0]) auto
  next
    case False
    then have "t \<in> set rest" using that ts by simp
    then obtain j k where "j < length bs" "token_of E (Suc i + j) (bs ! j) t" "tok_index t = int k" "tok_id t = token_name (Suc i + j) k"
      using IH by blast
    then show ?thesis by (intro exI[of _ "Suc j"]) auto
  qed
  moreover have "blk_index ((b # bs) ! j) = int (i + j) \<and> valid_utf8 (blk_text ((b # bs) ! j))" if "j < length (b # bs)" for j
    using that IH b by (cases j) auto
  moreover have "\<exists>t \<in> set ts. tok_block t = int (i + j) \<and> tok_start t = utf16Len (take (fst p) (blk_text ((b # bs) ! j))) \<and>
      tok_end t = utf16Len (take (snd p) (blk_text ((b # bs) ! j)))"
    if "j < length (b # bs)" "p \<in> set (word_spans (tables E) (chunks (blk_text ((b # bs) ! j))) 0)" for j p
  proof (cases j)
    case 0
    then show ?thesis using cover[of p] that ts by auto
  next
    case (Suc j')
    then have "j' < length bs" "p \<in> set (word_spans (tables E) (chunks (blk_text (bs ! j'))) 0)" using that by simp_all
    with IH obtain t where "t \<in> set rest" "tok_block t = int (Suc i + j')" "tok_start t = utf16Len (take (fst p) (blk_text (bs ! j')))"
      "tok_end t = utf16Len (take (snd p) (blk_text (bs ! j')))" by blast
    then show ?thesis using Suc ts by (intro bexI[of _ t]) auto
  qed
  ultimately show ?case by blast
qed

text \<open>C32: the tokenizer is maximal munch.  On a valid text the loop with its two indexes cuts exactly the words of the
  reference: each starts at a word rune (letter or number) that is not yet in a word and takes the longest run of
  word runes, combining marks, and apostrophes or hyphens that have a word rune behind them.\<close>
theorem tokenize_maximal_munch:
  assumes "valid_utf8 s"
  shows "tokenize E bi s = map (makeToken E bi s) (word_spans (tables E) (chunks s) 0)"
  by (rule tokenize_munch[OF assms])

lemma Prepare_tokens_all:
  assumes "Prepare E Z hash ttl source target bs candidates = Inr a"
  shows "pa_blocks a = bs" and "map tok_index (pa_tokens a) = map int [0..<length (pa_tokens a)]"
    and "distinct (map tok_id (pa_tokens a))" and "sorted_wrt token_before (pa_tokens a)"
    and "\<forall>t \<in> set (pa_tokens a). 0 \<le> tok_block t \<and> nat (tok_block t) < length bs \<and>
      sliceForUTF16 (blk_text (bs ! nat (tok_block t))) (tok_start t) (tok_end t) = Inr (tok_text t)"
    and "\<forall>i < length bs. \<forall>pre r w post. chunks (blk_text (bs ! i)) = pre @ (r, w) # post \<and> isWordRune (tables E) r \<longrightarrow>
      (\<exists>t \<in> set (pa_tokens a). tok_block t = int i \<and> tok_start t \<le> utf16Len (bytes_of pre) \<and>
        utf16Len (bytes_of pre @ w) \<le> tok_end t)"
proof -
  have a: "pa_blocks a = bs" "prepare_blocks E 0 0 bs = Inr (pa_tokens a)"
    using assms by (auto simp: Prepare_def bind_res_Inr_conv split: if_splits sum.splits)
  note spec = prepare_blocks_spec[OF a(2), simplified]
  show "pa_blocks a = bs" by (rule a(1))
  show idx: "map tok_index (pa_tokens a) = map int [0..<length (pa_tokens a)]" using spec by simp
  show "sorted_wrt token_before (pa_tokens a)" using spec by blast
  have ids: "\<exists>i k. tok_index t = int k \<and> tok_id t = token_name i k" if "t \<in> set (pa_tokens a)" for t
    using spec[THEN conjunct2, THEN conjunct2, THEN conjunct1] that by blast
  show "distinct (map tok_id (pa_tokens a))"
  proof -
    have "distinct (map tok_index (pa_tokens a))" unfolding idx by (simp add: distinct_map)
    moreover have "tok_index t = tok_index u"
      if "t \<in> set (pa_tokens a)" "u \<in> set (pa_tokens a)" "tok_id t = tok_id u" for t u
      using ids[OF that(1)] ids[OF that(2)] that(3) by auto
    ultimately show ?thesis unfolding distinct_map inj_on_def by blast
  qed
  show "\<forall>t \<in> set (pa_tokens a). 0 \<le> tok_block t \<and> nat (tok_block t) < length bs \<and>
      sliceForUTF16 (blk_text (bs ! nat (tok_block t))) (tok_start t) (tok_end t) = Inr (tok_text t)"
  proof
    fix t assume "t \<in> set (pa_tokens a)"
    then obtain j where j: "j < length bs" "token_of E j (bs ! j) t" using spec by blast
    have v: "valid_utf8 (blk_text (bs ! j))" using spec j(1) by blast
    from j(2) obtain p where p: "p \<in> set (word_spans (tables E) (chunks (blk_text (bs ! j))) 0)" "tok_block t = int j"
      "tok_text t = slice (blk_text (bs ! j)) (fst p) (snd p)" "tok_start t = utf16Len (take (fst p) (blk_text (bs ! j)))"
      "tok_end t = utf16Len (take (snd p) (blk_text (bs ! j)))" by (auto simp: token_of_def)
    from word_spans_cut[OF v, of "fst p" "snd p" "tables E"] p(1)
    show "0 \<le> tok_block t \<and> nat (tok_block t) < length bs \<and>
      sliceForUTF16 (blk_text (bs ! nat (tok_block t))) (tok_start t) (tok_end t) = Inr (tok_text t)"
      using p j(1) v by (simp add: sliceForUTF16_cut)
  qed
  show "\<forall>i < length bs. \<forall>pre r w post. chunks (blk_text (bs ! i)) = pre @ (r, w) # post \<and> isWordRune (tables E) r \<longrightarrow>
      (\<exists>t \<in> set (pa_tokens a). tok_block t = int i \<and> tok_start t \<le> utf16Len (bytes_of pre) \<and>
        utf16Len (bytes_of pre @ w) \<le> tok_end t)"
  proof (intro allI impI)
    fix i pre r w post
    assume i: "i < length bs" and c: "chunks (blk_text (bs ! i)) = pre @ (r, w) # post \<and> isWordRune (tables E) r"
    let ?s = "blk_text (bs ! i)"
    have v: "valid_utf8 ?s" using spec i by blast
    obtain p where p: "p \<in> set (word_spans (tables E) (chunks ?s) 0)" and in_p: "fst p \<le> length (bytes_of pre)"
      "length (bytes_of pre) + length w \<le> snd p"
      using word_spans_cover[of "chunks ?s" pre r w post "tables E" 0] c by fastforce
    obtain t where t: "t \<in> set (pa_tokens a)" "tok_block t = int i" "tok_start t = utf16Len (take (fst p) ?s)"
      "tok_end t = utf16Len (take (snd p) ?s)" using spec i p by blast
    have s: "?s = bytes_of pre @ w @ bytes_of post" using bytes_of_chunks[of ?s] c by simp
    have g: "\<forall>x \<in> set (pre @ (r, w) # post). good_chunk x" using v c by (simp add: valid_chunks)
    have cut: "rune_cut ?s (length (bytes_of pre))" "rune_cut ?s (length (bytes_of pre) + length w)"
      using valid_bytes_of[of pre] valid_bytes_of[of "[(r, w)]"] valid_bytes_of[of post] g
      by (simp_all add: rune_cut_def s valid_append)
    from word_spans_cut[OF v, of "fst p" "snd p" "tables E"] p
    have pc: "rune_cut ?s (fst p)" "rune_cut ?s (snd p)" by simp_all
    have "utf16Len (bytes_of pre) = utf16Len (take (length (bytes_of pre)) ?s)"
      "utf16Len (bytes_of pre @ w) = utf16Len (take (length (bytes_of pre) + length w) ?s)" by (simp_all add: s)
    then show "\<exists>t \<in> set (pa_tokens a). tok_block t = int i \<and> tok_start t \<le> utf16Len (bytes_of pre) \<and>
        utf16Len (bytes_of pre @ w) \<le> tok_end t"
      using t units_mono[OF pc(1) cut(1) in_p(1)] units_mono[OF cut(2) pc(2) in_p(2)] by (intro bexI[OF _ t(1)]) simp
  qed
qed

text \<open>The tokens of a prepared article.  Tokens are numbered through the article and have different
  identifiers; the text of each is the slice of its block between its two UTF-16 offsets, so the offsets are
  good for the browser; they stand in source order without touching; and every letter or digit of every block
  is inside a token.\<close>
theorem Prepare_tokens:
  assumes "Prepare E Z hash ttl source target bs candidates = Inr a"
  shows "pa_blocks a = bs \<and> map tok_index (pa_tokens a) = map int [0..<length (pa_tokens a)] \<and>
    distinct (map tok_id (pa_tokens a)) \<and> sorted_wrt token_before (pa_tokens a) \<and>
    (\<forall>t \<in> set (pa_tokens a). 0 \<le> tok_block t \<and> nat (tok_block t) < length bs \<and>
      sliceForUTF16 (blk_text (bs ! nat (tok_block t))) (tok_start t) (tok_end t) = Inr (tok_text t)) \<and>
    (\<forall>i < length bs. \<forall>pre r w post. chunks (blk_text (bs ! i)) = pre @ (r, w) # post \<and> isWordRune (tables E) r \<longrightarrow>
      (\<exists>t \<in> set (pa_tokens a). tok_block t = int i \<and> tok_start t \<le> utf16Len (bytes_of pre) \<and>
        utf16Len (bytes_of pre @ w) \<le> tok_end t))"
  by (intro conjI Prepare_tokens_all[OF assms])

text \<open>An example: ASCII text, where both normalizations are the identity.\<close>

definition plain_env :: text_env where
  "plain_env = \<lparr>tables = ascii_tables, nfc = (\<lambda>s. s), foldCase = (\<lambda>s. s)\<rparr>"

definition example_text :: string where
  "example_text = ''it'' @ [CHR 0x27] @ ''s 4x-''"

lemma example_ascii: "\<forall>c \<in> set example_text. byte c < 0x80"
  by (simp add: example_text_def byte_def)

theorem tokenize_maximal_munch_witness:
  "map tok_text (tokenize plain_env 0 example_text) = [''it'' @ [CHR 0x27] @ ''s'', ''4x'']"
proof -
  have "word_spans ascii_tables (chunks example_text) 0 = [(0, 4), (5, 7)]"
    unfolding ascii_chunks[OF example_ascii]
    by (simp add: example_text_def byte_def word_spans.simps(2) isWordRune_def isJoiner_def ascii_tables_def)
  then show ?thesis
    unfolding tokenize_maximal_munch[OF ascii_valid[OF example_ascii]]
    by (simp add: plain_env_def example_text_def slice_def)
qed

theorem Prepare_tokens_witness:
  "\<exists>a. Prepare plain_env sample_parsers (\<lambda>s. []) ''T'' ''nl'' ''en'' [\<lparr>blk_index = 0, blk_text = example_text\<rparr>] [] = Inr a \<and>
     distinct (map tok_id (pa_tokens a)) \<and> sorted_wrt token_before (pa_tokens a)"
proof -
  have tag: "tag_characters ''nl''" "tag_characters ''en''"
    by (rule tag_characters_letters, simp add: ascii_letter_def byte_def)+
  have t: "trim_space ''nl'' = ''nl''" "trim_space ''en'' = ''en''" by (rule trim_space_tag, rule tag)+
  have v: "valid_utf8 example_text" "example_text \<noteq> []"
    using ascii_valid[OF example_ascii] by (simp_all add: example_text_def)
  have "\<exists>a. Prepare plain_env sample_parsers (\<lambda>s. []) ''T'' ''nl'' ''en'' [\<lparr>blk_index = 0, blk_text = example_text\<rparr>] [] = Inr a"
    by (simp add: Prepare_def ParseBCP47_def t tag v Let_def ascii_blank is_space_def byte_def ascii_valid
        sample_parsers_def[THEN arg_cong, of parse_tag] sample_parsers_def[THEN arg_cong, of is_root])
  then obtain a where a: "Prepare plain_env sample_parsers (\<lambda>s. []) ''T'' ''nl'' ''en'' [\<lparr>blk_index = 0, blk_text = example_text\<rparr>] [] = Inr a" ..
  from Prepare_tokens[OF a] a show ?thesis by blast
qed
end
