(* ===== verification/Semantics_Compose.thy ===== *)
theory Semantics_Compose
  imports Semantics_Tokens Semantics_Facts Go_Lists
begin

text \<open>
  The two pipeline stages composed: what the linguistic and the translation validators accept merges
  without loss, and the merged response passes the response validator.
\<close>

section \<open>The pieces of the merge\<close>

definition merged_token :: "TranslationArtifact \<Rightarrow> LinguisticTokenResult \<Rightarrow> TokenResult" where
  "merged_token artifact t =
     \<lparr>tr_token = lt_token t, tr_class = lt_class t, tr_kind = lt_kind t, tr_sense = lt_sense t, tr_new = lt_new t,
      tr_shadow = tt_shadow (the (last_by tt_token (ta_tokens artifact) (lt_token t))), tr_pron = lt_pron t,
      tr_context = lt_context t, tr_confidence = lt_confidence t\<rparr>"

definition merged_sense :: "LinguisticNewSense \<Rightarrow> TranslationNewSense \<Rightarrow> NewSense" where
  "merged_sense s t =
     \<lparr>ns_ref = ls_ref s, ns_kind = ls_kind s, ns_canonical = ls_canonical s, ns_form = ls_form s, ns_lemma = ls_lemma s,
      ns_pos = ls_pos s, ns_discriminator = ls_discriminator s, ns_primary = ts_primary t,
      ns_alternatives = ts_alternatives t, ns_literal = ts_literal t, ns_meaning = ls_meaning s, ns_usage = ls_usage s,
      ns_parts = ls_parts s, ns_pron = ls_pron s\<rparr>"

definition merged_construction :: "TranslationArtifact \<Rightarrow> ValidatedLinguisticConstruction \<Rightarrow> Construction" where
  "merged_construction artifact c =
     (let k = vc_construction c in
      \<lparr>cn_kind = lc_kind k, cn_role = lc_role k, cn_sense = lc_sense k, cn_new = lc_new k,
       cn_shadow = tc_shadow (the (last_by tc_id (ta_constructions artifact) (vc_id c))), cn_pron = lc_pron k,
       cn_context = lc_context k, cn_confidence = lc_confidence k, cn_tokens = lc_tokens k, cn_spans = lc_spans k\<rparr>)"

lemma merged_sense_valid:
  assumes "validateLinguisticNewSense E s = Inr ()" and "validateTranslatedSense t = Inr ()"
  shows "validateSense E (merged_sense s t) = Inr ()"
  using assms
  by (simp add: validateLinguisticNewSense_def validateTranslatedSense_def validateSense_def merged_sense_def
      linguistic_fields_def sense_fields_def field_ok_def bind_res_Inr_conv)

text \<open>The two maps of senses agree on kinds.\<close>

definition same_kinds :: "(string \<rightharpoonup> LinguisticNewSense) \<Rightarrow> (string \<rightharpoonup> NewSense) \<Rightarrow> bool" where
  "same_kinds lm m \<longleftrightarrow> (\<forall>k. map_option ls_kind (lm k) = map_option ns_kind (m k))"

lemma same_kindsD: "same_kinds lm m \<Longrightarrow> lm k = Some s \<Longrightarrow> \<exists>n. m k = Some n \<and> ns_kind n = ls_kind s"
  by (cases "m k") (auto simp: same_kinds_def dest!: spec[of _ k])

lemma sense_reference_transfer:
  assumes "same_kinds lm m" and "validateLinguisticSenseReference sid ref kind source target candidates lm = Inr ()"
  shows "validateSenseReference sid ref kind source target candidates m = Inr ()"
  using assms(2) same_kindsD[OF assms(1), of ref]
  by (auto simp: validateLinguisticSenseReference_def validateSenseReference_def split: if_splits option.splits)

lemma merged_token_valid:
  assumes "validateLinguisticTokenResult t source target candidates lm = Inr ()" and "same_kinds lm m"
    and "tr_token r = lt_token t" "tr_class r = lt_class t" "tr_kind r = lt_kind t" "tr_sense r = lt_sense t"
      "tr_new r = lt_new t" "tr_pron r = lt_pron t" "tr_context r = lt_context t" "tr_confidence r = lt_confidence t"
    and "safeProviderText (tr_shadow r) MaxShadowScalars = Inr ()"
    and "validateTranslatedSubtitle E (lt_class t) (tok_text token) (tr_shadow r) (referenced_translation r candidates m) = Inr ()"
  shows "validateTokenResult E r token source target candidates m = Inr ()"
proof -
  have ref: "validateSenseReference (lt_sense t) (lt_new t) (lt_kind t) source target candidates m = Inr ()"
    by (rule sense_reference_transfer[OF assms(2)])
      (use assms(1) in \<open>auto simp: validateLinguisticTokenResult_def bind_res_Inr_conv\<close>)
  have nu: "lt_class t \<noteq> ''unchanged''"
    using assms(1) by (auto simp: validateLinguisticTokenResult_def bind_res_Inr_conv)
  from assms(12) nu obtain sh where sh: "normalized_shadow E (tr_shadow r) = Inr sh"
    "special_class (lt_class t) \<or> sh \<noteq> [] \<and>
      (NormalizeForm E (tok_text token) = Inr sh \<longrightarrow> sameSpellingSense E (referenced_translation r candidates m) sh)"
    by (auto simp: validateTranslatedSubtitle_def bind_res_Inr_conv split: if_splits)
  have "special_class (lt_class t) \<or> \<not> blank (tr_shadow r)"
    using sh by (auto simp: normalized_shadow_def)
  with assms ref sh show ?thesis
    by (auto simp: validateLinguisticTokenResult_def validateTokenResult_def bind_res_Inr_conv Let_def)
qed

section \<open>Constructions\<close>

lemma resolve_members_texts:
  assumes "resolve_members tokens anchors spans seen prev owner tids = Inr ms"
  shows "map (\<lambda>tid. case tokens tid of None \<Rightarrow> [] | Some t \<Rightarrow> tok_text t) tids = map tok_text ms"
  using assms
proof (induction tids arbitrary: seen prev owner ms)
  case Nil
  then show ?case by simp
next
  case (Cons tid tids)
  then show ?case by (cases "tokens tid") (auto simp: bind_res_Inr_conv)
qed

lemma merged_construction_valid:
  assumes lin: "linguistic_construction input anchors lm c = Inr lc" and kinds: "same_kinds lm m"
    and lang: "\<forall>d \<in> set (pa_candidates input). cd_source_lang d = pa_source_lang input \<and> cd_target_lang d = pa_target_lang input"
    and k: "cn_kind k = lc_kind c" "cn_role k = lc_role c" "cn_sense k = lc_sense c" "cn_new k = lc_new c"
      "cn_pron k = lc_pron c" "cn_context k = lc_context c" "cn_confidence k = lc_confidence c"
      "cn_tokens k = lc_tokens c" "cn_spans k = lc_spans c"
    and shadow: "\<not> blank (cn_shadow k)" "safeProviderText (cn_shadow k) MaxShadowScalars = Inr ()"
    and copy: "\<And>members :: Token list. map tok_text members =
        map (\<lambda>tid. case token_map (pa_tokens input) tid of None \<Rightarrow> [] | Some t \<Rightarrow> tok_text t) (lc_tokens c) \<Longrightarrow>
      validateConstructionSubtitle E (cn_shadow k)
        (constructionSubtitleForbids k (map tok_text members) (lr_spans lc) (candidate_map (pa_candidates input)) m) = Inr ()"
  shows "validate_construction E input anchors m k = Inr \<lparr>rc_construction = k, rc_spans = lr_spans lc\<rparr>"
proof -
  from lin obtain spans members where
    shape: "validate_shape input anchors (lc_role c) (lc_tokens c) (lc_spans c) = Inr (spans, members)"
    and lc: "lc = \<lparr>lr_construction = c, lr_spans = spans, lr_members = members\<rparr>"
    by (auto simp: linguistic_construction_def bind_res_Inr_conv)
  from shape have "resolve_members (token_map (pa_tokens input)) anchors spans [] None (- 1) (lc_tokens c) = Inr members"
    by (auto simp: validate_shape_def bind_res_Inr_conv)
  note sub = copy[OF resolve_members_texts[OF this, symmetric]]
  have "validateSenseReference (lc_sense c) (lc_new c) (lc_kind c) (pa_source_lang input) (pa_target_lang input)
      (candidate_map (pa_candidates input)) m = Inr ()"
  proof -
    have "validateLinguisticConstructionReference (lc_sense c) (lc_new c) (lc_kind c) (candidate_map (pa_candidates input)) lm = Inr ()"
      using lin by (auto simp: linguistic_construction_def bind_res_Inr_conv)
    then show ?thesis using same_kindsD[OF kinds, of "lc_new c"] lang
      by (auto simp: validateLinguisticConstructionReference_def validateSenseReference_def candidate_map_def
          dest!: last_by_SomeD split: if_splits option.splits)
  qed
  with lin shape lc sub k shadow show ?thesis
    by (auto simp: linguistic_construction_def validate_construction_def bind_res_Inr_conv Let_def)
qed

text \<open>Freedom of overlap does not depend on the order of the constructions.\<close>

definition apart :: "ResolvedConstruction \<Rightarrow> ResolvedConstruction \<Rightarrow> bool" where
  "apart c d \<longleftrightarrow> \<not> (cn_role (rc_construction c) = contiguous \<and> length (rc_spans c) = 1 \<and>
     cn_role (rc_construction d) = contiguous \<and> length (rc_spans d) = 1 \<and> spanOverlap (hd (rc_spans c)) (hd (rc_spans d)))"

lemma overlap_free_sorted_wrt: "overlap_free cs \<longleftrightarrow> sorted_wrt apart cs"
  by (induction cs) (auto simp: apart_def list_all_iff)

lemma apart_sym: "apart c d \<longleftrightarrow> apart d c"
  by (auto simp: apart_def spanOverlap_def)

section \<open>Composition\<close>

definition source_token :: "TokenResult \<Rightarrow> LinguisticTokenResult" where
  "source_token r = \<lparr>lt_token = tr_token r, lt_class = tr_class r, lt_kind = tr_kind r, lt_sense = tr_sense r,
     lt_new = tr_new r, lt_pron = tr_pron r, lt_context = tr_context r, lt_confidence = tr_confidence r\<rparr>"

definition source_sense :: "NewSense \<Rightarrow> LinguisticNewSense" where
  "source_sense s = \<lparr>ls_ref = ns_ref s, ls_kind = ns_kind s, ls_canonical = ns_canonical s, ls_form = ns_form s,
     ls_lemma = ns_lemma s, ls_pos = ns_pos s, ls_discriminator = ns_discriminator s, ls_meaning = ns_meaning s,
     ls_usage = ns_usage s, ls_parts = ns_parts s, ls_pron = ns_pron s\<rparr>"

definition source_construction :: "Construction \<Rightarrow> LinguisticConstruction" where
  "source_construction c = \<lparr>lc_kind = cn_kind c, lc_role = cn_role c, lc_sense = cn_sense c, lc_new = cn_new c,
     lc_pron = cn_pron c, lc_context = cn_context c, lc_confidence = cn_confidence c, lc_tokens = cn_tokens c,
     lc_spans = cn_spans c\<rparr>"

lemmas source_defs = source_token_def source_sense_def source_construction_def

definition merged_response :: "ValidatedLinguistic \<Rightarrow> TranslationArtifact \<Rightarrow> Response" where
  "merged_response l ta = \<lparr>rs_version = AnalysisContractVersion, rs_tokens = map (merged_token ta) (vl_tokens l),
     rs_senses = map (\<lambda>s. merged_sense s (the (last_by ts_ref (ta_senses ta) (ls_ref s)))) (vl_senses l),
     rs_constructions = map (merged_construction ta) (vl_constructions l)\<rparr>"

text \<open>What an accepted translation covers.\<close>

lemma translation_covers:
  assumes "ValidateTranslation E chunk (Some l) ta = Inr ()"
  shows "\<forall>t \<in> set (vl_tokens l). \<exists>r. last_by tt_token (ta_tokens ta) (lt_token t) = Some r"
    and "\<forall>s \<in> set (vl_senses l). \<exists>t. last_by ts_ref (ta_senses ta) (ls_ref s) = Some t \<and> validateTranslatedSense t = Inr ()"
    and "\<forall>c \<in> set (vl_constructions l). \<exists>t. last_by tc_id (ta_constructions ta) (vc_id c) = Some t"
proof -
  have c: "\<forall>t \<in> set (vl_tokens l). lt_token t \<in> tt_token ` set (ta_tokens ta)"
    "\<forall>s \<in> set (vl_senses l). ls_ref s \<in> ts_ref ` set (ta_senses ta)"
    "\<forall>c \<in> set (vl_constructions l). vc_id c \<in> tc_id ` set (ta_constructions ta)"
    "\<forall>t \<in> set (ta_senses ta). validateTranslatedSense t = Inr ()"
    using assms by (auto simp: ValidateTranslation_def bind_res_Inr_conv list_all_iff translated_senses_Inr)
  show "\<forall>t \<in> set (vl_tokens l). \<exists>r. last_by tt_token (ta_tokens ta) (lt_token t) = Some r"
    using c(1) last_by_mem by metis
  show "\<forall>s \<in> set (vl_senses l). \<exists>t. last_by ts_ref (ta_senses ta) (ls_ref s) = Some t \<and> validateTranslatedSense t = Inr ()"
    using c(2,4) last_by_mem by metis
  show "\<forall>c \<in> set (vl_constructions l). \<exists>t. last_by tc_id (ta_constructions ta) (vc_id c) = Some t"
    using c(3) last_by_mem by metis
qed

lemma merge_is_merged_response:
  assumes "ValidateTranslation E chunk (Some l) ta = Inr ()"
  shows "MergeLinguisticTranslation (Some l) ta = Inr (merged_response l ta)"
proof -
  note c = translation_covers[OF assms]
  have "map_res (merge_token ta) (vl_tokens l) = Inr (map (merged_token ta) (vl_tokens l))"
    by (rule map_res_total) (use c(1) in \<open>force simp: merge_token_def merged_token_def\<close>)
  moreover have "map_res (merge_sense ta) (vl_senses l) =
      Inr (map (\<lambda>s. merged_sense s (the (last_by ts_ref (ta_senses ta) (ls_ref s)))) (vl_senses l))"
    by (rule map_res_total) (use c(2) in \<open>force simp: merge_sense_def merged_sense_def\<close>)
  moreover have "map_res (merge_construction ta) (vl_constructions l) = Inr (map (merged_construction ta) (vl_constructions l))"
    by (rule map_res_total) (use c(3) in \<open>force simp: merge_construction_def merged_construction_def Let_def\<close>)
  ultimately show ?thesis by (simp add: MergeLinguisticTranslation_def merged_response_def)
qed

lemma merged_source:
  "map source_token (rs_tokens (merged_response l ta)) = vl_tokens l"
  "map source_sense (rs_senses (merged_response l ta)) = vl_senses l"
  "map source_construction (rs_constructions (merged_response l ta)) = map vc_construction (vl_constructions l)"
  by (simp_all add: merged_response_def source_defs merged_token_def merged_sense_def merged_construction_def Let_def
      map_idI comp_def)

text \<open>What an accepted linguistic artifact consists of.\<close>

lemma linguistic_parts:
  assumes "ValidateLinguistic E chunk la = Inr l"
  obtains cs anchors lm where
    "la_version la = LinguisticContractVersion" "length (la_tokens la) = length (pc_tokens chunk)"
    "vl_tokens l = la_tokens la" "vl_senses l = la_senses la"
    "collect_linguistic E (la_senses la) (map_of (map (\<lambda>s. (ns_ref s, linguistic_of_prior s)) (pc_prior chunk))) = Inr lm"
    "collect_prior (pc_prior chunk) Map.empty = Inr (map_of (map (\<lambda>s. (ns_ref s, linguistic_of_prior s)) (pc_prior chunk)))"
    "linguistic_tokens (pc_source_lang chunk) (pc_target_lang chunk) (token_map (pc_tokens chunk))
       (candidate_map (pc_candidates chunk)) lm [] (la_tokens la) = Inr ()"
    "list_all (\<lambda>t. tok_id t \<in> set (map lt_token (la_tokens la))) (pc_tokens chunk)"
    "validateSourceSentenceAnchors (chunkAsPrepared chunk) = Inr anchors"
    "\<not> list_ex (\<lambda>t. sentenceForToken anchors t < 0) (pc_tokens chunk)"
    "map_res (linguistic_construction (chunkAsPrepared chunk) anchors lm) (la_constructions la) = Inr cs"
    "linguistic_overlap_free cs"
    "vl_constructions l = number_constructions (blk_index (pc_block chunk)) (sort_key construction_key cs)"
proof -
  have p: "pa_tokens (chunkAsPrepared chunk) = pc_tokens chunk" "pa_candidates (chunkAsPrepared chunk) = pc_candidates chunk"
    "pa_source_lang (chunkAsPrepared chunk) = pc_source_lang chunk" "pa_target_lang (chunkAsPrepared chunk) = pc_target_lang chunk"
    by (simp_all add: chunkAsPrepared_def)
  from assms[unfolded ValidateLinguistic_def Let_def p] obtain known lm anchors cs where
    v: "la_version la = LinguisticContractVersion" "length (la_tokens la) = length (pc_tokens chunk)" and
    k: "collect_prior (pc_prior chunk) Map.empty = Inr known" and c: "collect_linguistic E (la_senses la) known = Inr lm" and
    t: "linguistic_tokens (pc_source_lang chunk) (pc_target_lang chunk) (token_map (pc_tokens chunk))
       (candidate_map (pc_candidates chunk)) lm [] (la_tokens la) = Inr ()"
    "list_all (\<lambda>t. tok_id t \<in> set (map lt_token (la_tokens la))) (pc_tokens chunk)" and
    a: "validateSourceSentenceAnchors (chunkAsPrepared chunk) = Inr anchors"
    "\<not> list_ex (\<lambda>t. sentenceForToken anchors t < 0) (pc_tokens chunk)" and
    n: "map_res (linguistic_construction (chunkAsPrepared chunk) anchors lm) (la_constructions la) = Inr cs"
    "linguistic_overlap_free cs" and
    l: "l = \<lparr>vl_version = LinguisticContractVersion, vl_tokens = la_tokens la, vl_senses = la_senses la,
                vl_constructions = number_constructions (blk_index (pc_block chunk)) (sort_key construction_key cs)\<rparr>"
    by (auto simp: bind_res_Inr_conv)
  have known: "known = map_of (map (\<lambda>s. (ns_ref s, linguistic_of_prior s)) (pc_prior chunk))"
    using k by (simp add: collect_prior_def fill_refs_Inr)
  show thesis
    by (rule that[of lm anchors cs]) (use v k c t a n l known in simp_all)
qed

text \<open>Maps of senses by reference.\<close>

lemma map_of_rev_distinct:
  assumes "distinct (map fst xs)"
  shows "map_of (rev xs) = map_of xs"
proof
  fix k
  have "distinct (map fst (rev xs))" using assms by (simp add: rev_map[symmetric])
  then have "map_of (rev xs) k = Some v \<longleftrightarrow> map_of xs k = Some v" for v
    using assms by simp
  then show "map_of (rev xs) k = map_of xs k"
    by (metis not_Some_eq)
qed

lemma map_res_map: "map_res f (map g xs) = map_res (f \<circ> g) xs"
  by (induction xs) simp_all

definition by_ref :: "('x \<Rightarrow> string) \<Rightarrow> 'x list \<Rightarrow> string \<rightharpoonup> 'x" where
  "by_ref ref xs = map_of (map (\<lambda>x. (ref x, x)) xs)"

lemma last_by_by_ref: "distinct (map ref xs) \<Longrightarrow> last_by ref xs = by_ref ref xs"
  by (simp add: last_by_def by_ref_def map_of_rev_distinct comp_def)

lemma map_of_option: "map_of (map (\<lambda>x. (key x, f (g x))) xs) k = map_option f (map_of (map (\<lambda>x. (key x, g x)) xs) k)"
  by (induction xs) auto

lemma map_option_add: "map_option f ((a ++ b) k) = ((\<lambda>k. map_option f (a k)) ++ (\<lambda>k. map_option f (b k))) k"
  by (auto simp: map_add_def split: option.splits)

lemma by_ref_source:
  "map_option f (by_ref ls_ref (map source_sense ms) k) = map_option (\<lambda>s. f (source_sense s)) (by_ref ns_ref ms k)"
  by (induction ms) (auto simp: by_ref_def source_sense_def)

lemma by_ref_SomeI: "distinct (map ref xs) \<Longrightarrow> x \<in> set xs \<Longrightarrow> by_ref ref xs (ref x) = Some x"
  by (metis last_by_by_ref last_by_distinct)

lemma by_ref_None: "by_ref ref xs k = None \<longleftrightarrow> k \<notin> ref ` set xs"
  by (force simp: by_ref_def map_of_eq_None_iff image_iff)

section \<open>Numbered constructions\<close>

lemma construction_name_inj: "construction_name b m = construction_name b n \<longleftrightarrow> m = n"
  by (simp add: construction_name_def)

lemma number_constructions_ids: "distinct (map vc_id (number_constructions b cs))"
proof -
  have "map vc_id (number_constructions b cs) = map (construction_name b) [0..<length cs]"
    by (rule nth_equalityI) (simp_all add: number_constructions_def nth_enumerate_eq)
  then show ?thesis by (simp add: distinct_map inj_on_def construction_name_inj)
qed

lemma number_constructions_pairs:
  "map (\<lambda>c. (vc_construction c, vc_spans c)) (number_constructions b cs) = map (\<lambda>c. (lr_construction c, lr_spans c)) cs"
  by (rule nth_equalityI) (simp_all add: number_constructions_def nth_enumerate_eq)

definition pair_apart :: "LinguisticConstruction \<times> ResolvedSpan list \<Rightarrow> LinguisticConstruction \<times> ResolvedSpan list \<Rightarrow> bool" where
  "pair_apart c d \<longleftrightarrow> \<not> (lc_role (fst c) = contiguous \<and> length (snd c) = 1 \<and>
     lc_role (fst d) = contiguous \<and> length (snd d) = 1 \<and> spanOverlap (hd (snd c)) (hd (snd d)))"

lemma pair_apart_sym: "pair_apart c d = pair_apart d c"
  by (auto simp: pair_apart_def spanOverlap_def)

lemma linguistic_overlap_free_pairs:
  "linguistic_overlap_free cs \<longleftrightarrow> sorted_wrt pair_apart (map (\<lambda>c. (lr_construction c, lr_spans c)) cs)"
  by (induction cs) (auto simp: pair_apart_def list_all_iff)

lemma merged_overlap_free:
  assumes "linguistic_overlap_free cs" and "vcs = number_constructions b (sort_key construction_key cs)"
  shows "overlap_free (map (\<lambda>c. \<lparr>rc_construction = merged_construction ta c, rc_spans = vc_spans c\<rparr>) vcs)"
proof -
  have "sorted_wrt pair_apart (map (\<lambda>c. (lr_construction c, lr_spans c)) (sort_key construction_key cs))"
    using assms(1) pairwise_permute[of pair_apart "map (\<lambda>c. (lr_construction c, lr_spans c)) (sort_key construction_key cs)"
        "map (\<lambda>c. (lr_construction c, lr_spans c)) cs"] pair_apart_sym
    by (simp add: linguistic_overlap_free_pairs)
  then have "sorted_wrt pair_apart (map (\<lambda>c. (vc_construction c, vc_spans c)) vcs)"
    by (simp add: assms(2) number_constructions_pairs)
  then show ?thesis
    unfolding overlap_free_sorted_wrt sorted_wrt_map
    by (rule sorted_wrt_mono_rel[rotated]) (simp add: pair_apart_def apart_def merged_construction_def Let_def)
qed

section \<open>The senses of the merged response\<close>

definition stage_senses :: "PreparedChunk \<Rightarrow> ValidatedLinguistic \<Rightarrow> TranslationArtifact \<Rightarrow> string \<rightharpoonup> NewSense" where
  "stage_senses chunk l ta = by_ref ns_ref (pc_prior chunk) ++ by_ref ns_ref (rs_senses (merged_response l ta))"

lemma prior_refs:
  assumes "ValidateLinguistic E chunk la = Inr l"
  shows "distinct (map ns_ref (pc_prior chunk)) \<and> (\<forall>s \<in> set (pc_prior chunk). ns_ref s \<noteq> [] \<and> safeProviderText (ns_ref s) 120 = Inr ())"
  by (rule linguistic_parts[OF assms]) (simp add: collect_prior_def fill_refs_Inr)

lemma new_refs:
  assumes "ValidateLinguistic E chunk la = Inr l"
  shows "distinct (map ls_ref (vl_senses l)) \<and> (\<forall>s \<in> set (vl_senses l). ls_ref s \<noteq> [] \<and> safeProviderText (ls_ref s) 120 = Inr ()
     \<and> ls_ref s \<notin> ns_ref ` set (pc_prior chunk) \<and> validateLinguisticNewSense E s = Inr ())"
proof -
  obtain lm where
    c: "collect_linguistic E (la_senses la) (map_of (map (\<lambda>s. (ns_ref s, linguistic_of_prior s)) (pc_prior chunk))) = Inr lm"
    and v: "vl_senses l = la_senses la" by (rule linguistic_parts[OF assms]) blast
  have "map_of (map (\<lambda>s. (ns_ref s, linguistic_of_prior s)) (pc_prior chunk)) k = None \<Longrightarrow> k \<notin> ns_ref ` set (pc_prior chunk)" for k
    by (force simp: map_of_eq_None_iff image_iff)
  with c show ?thesis unfolding v collect_linguistic_def fill_refs_Inr by blast
qed

lemma merged_refs: "map ns_ref (rs_senses (merged_response l ta)) = map ls_ref (vl_senses l)"
  by (simp add: merged_response_def merged_sense_def)

lemma stage_collect:
  assumes "ValidateLinguistic E chunk la = Inr l" and "ValidateTranslation E chunk (Some l) ta = Inr ()"
    and "\<forall>s \<in> set (pc_prior chunk). validateSense E s = Inr ()"
  shows "collect_senses E (pc_prior chunk) Map.empty = Inr (by_ref ns_ref (pc_prior chunk))"
    and "collect_senses E (rs_senses (merged_response l ta)) (by_ref ns_ref (pc_prior chunk)) = Inr (stage_senses chunk l ta)"
proof -
  note p = prior_refs[OF assms(1)] and n = new_refs[OF assms(1)]
  show "collect_senses E (pc_prior chunk) Map.empty = Inr (by_ref ns_ref (pc_prior chunk))"
    unfolding collect_senses_def fill_refs_Inr using p assms(3) by (simp add: by_ref_def)
  have "validateSense E s = Inr ()" if "s \<in> set (rs_senses (merged_response l ta))" for s
  proof -
    from that obtain x where x: "x \<in> set (vl_senses l)" "s = merged_sense x (the (last_by ts_ref (ta_senses ta) (ls_ref x)))"
      by (auto simp: merged_response_def)
    obtain t where "last_by ts_ref (ta_senses ta) (ls_ref x) = Some t" "validateTranslatedSense t = Inr ()"
      using translation_covers(2)[OF assms(2)] x(1) by blast
    with n x show ?thesis by (simp add: merged_sense_valid)
  qed
  moreover have "ns_ref ` set (rs_senses (merged_response l ta)) = ls_ref ` set (vl_senses l)"
    using merged_refs[of l ta] by (metis set_map)
  then have "ns_ref s \<noteq> [] \<and> safeProviderText (ns_ref s) 120 = Inr () \<and> by_ref ns_ref (pc_prior chunk) (ns_ref s) = None"
    if "s \<in> set (rs_senses (merged_response l ta))" for s
    using that n unfolding by_ref_None by (metis (no_types, lifting) image_iff)
  moreover have "distinct (map ns_ref (rs_senses (merged_response l ta)))" using n by (simp add: merged_refs)
  ultimately show "collect_senses E (rs_senses (merged_response l ta)) (by_ref ns_ref (pc_prior chunk)) = Inr (stage_senses chunk l ta)"
    unfolding collect_senses_def fill_refs_Inr by (simp add: stage_senses_def by_ref_def)
qed

lemma stage_same_kinds:
  assumes "collect_linguistic E (vl_senses l) (map_of (map (\<lambda>s. (ns_ref s, linguistic_of_prior s)) (pc_prior chunk))) = Inr lm"
  shows "same_kinds lm (stage_senses chunk l ta)"
proof -
  have lm: "lm = map_of (map (\<lambda>s. (ns_ref s, linguistic_of_prior s)) (pc_prior chunk)) ++ by_ref ls_ref (vl_senses l)"
    using assms by (simp add: collect_linguistic_def fill_refs_Inr by_ref_def)
  have old: "map_option ls_kind (map_of (map (\<lambda>s. (ns_ref s, linguistic_of_prior s)) ps) k) = map_option ns_kind (by_ref ns_ref ps k)"
    for ps k by (induction ps) (auto simp: by_ref_def linguistic_of_prior_def)
  have new: "map_option ls_kind (by_ref ls_ref (vl_senses l) k) = map_option ns_kind (by_ref ns_ref (rs_senses (merged_response l ta)) k)" for k
    using by_ref_source[of ls_kind "rs_senses (merged_response l ta)" k] merged_source(2)[of l ta] by (simp add: source_sense_def)
  show ?thesis unfolding same_kinds_def lm stage_senses_def map_option_add old new by simp
qed

text \<open>Translations and canonical forms looked up by the two validators agree.\<close>

lemma stage_lookup:
  assumes "ValidateLinguistic E chunk la = Inr l" and "ValidateTranslation E chunk (Some l) ta = Inr ()"
  shows "translation_of_sense chunk ta [] ref = (case stage_senses chunk l ta ref of None \<Rightarrow> [] | Some s \<Rightarrow> ns_primary s)"
    and "ref \<noteq> [] \<Longrightarrow> canonical_of_sense chunk l [] ref = (case stage_senses chunk l ta ref of None \<Rightarrow> [] | Some s \<Rightarrow> ns_canonical s)"
proof -
  note p = prior_refs[OF assms(1)] and n = new_refs[OF assms(1)]
  have f: "filter (\<lambda>s. ns_ref s \<noteq> []) (pc_prior chunk) = pc_prior chunk" using p by (simp add: filter_id_conv)
  have old: "last_by ns_ref (filter (\<lambda>s. ns_ref s \<noteq> []) (pc_prior chunk)) = by_ref ns_ref (pc_prior chunk)"
    unfolding f using p by (simp add: last_by_by_ref)
  let ?ms = "rs_senses (merged_response l ta)"
  have sub: "ts_ref ` set (ta_senses ta) \<subseteq> ls_ref ` set (vl_senses l)"
    using assms(2) by (auto simp: ValidateTranslation_def bind_res_Inr_conv translated_senses_Inr)
  have "translation_of_sense chunk ta [] ref = (case stage_senses chunk l ta ref of None \<Rightarrow> [] | Some s \<Rightarrow> ns_primary s) \<and>
    (ref \<noteq> [] \<longrightarrow> canonical_of_sense chunk l [] ref = (case stage_senses chunk l ta ref of None \<Rightarrow> [] | Some s \<Rightarrow> ns_canonical s))"
  proof (cases "ref \<in> ls_ref ` set (vl_senses l)")
    case True
    then obtain x where x: "x \<in> set (vl_senses l)" "ref = ls_ref x" by blast
    obtain t where t: "last_by ts_ref (ta_senses ta) ref = Some t" using translation_covers(2)[OF assms(2)] x by blast
    have "by_ref ns_ref ?ms (ns_ref (merged_sense x t)) = Some (merged_sense x t)"
    proof (rule by_ref_SomeI)
      show "distinct (map ns_ref ?ms)" using n by (simp add: merged_refs)
      show "merged_sense x t \<in> set ?ms" using x t by (force simp: merged_response_def)
    qed
    moreover have "last_by ls_ref (vl_senses l) ref = Some x" using n x by (simp add: last_by_distinct)
    ultimately show ?thesis using x t
      by (simp add: translation_of_sense_def canonical_of_sense_def stage_senses_def merged_sense_def map_add_def)
  next
    case False
    then have "last_by ts_ref (ta_senses ta) ref = None" "last_by ls_ref (vl_senses l) ref = None"
      using sub by (auto simp: last_by_None)
    moreover have "by_ref ns_ref ?ms ref = None"
      using False merged_refs[of l ta] by (metis by_ref_None set_map)
    ultimately show ?thesis
      by (simp add: translation_of_sense_def canonical_of_sense_def stage_senses_def map_add_def old)
  qed
  then show "translation_of_sense chunk ta [] ref = (case stage_senses chunk l ta ref of None \<Rightarrow> [] | Some s \<Rightarrow> ns_primary s)"
    and "ref \<noteq> [] \<Longrightarrow> canonical_of_sense chunk l [] ref = (case stage_senses chunk l ta ref of None \<Rightarrow> [] | Some s \<Rightarrow> ns_canonical s)"
    by blast+
qed

section \<open>The response validator on the merge\<close>

lemma prepared_parts [simp]:
  "pa_tokens (chunkAsPrepared c) = pc_tokens c" "pa_candidates (chunkAsPrepared c) = pc_candidates c"
  "pa_source_lang (chunkAsPrepared c) = pc_source_lang c" "pa_target_lang (chunkAsPrepared c) = pc_target_lang c"
  by (simp_all add: chunkAsPrepared_def)

lemma stage_token_valid:
  assumes lin: "ValidateLinguistic E chunk la = Inr l" and tra: "ValidateTranslation E chunk (Some l) ta = Inr ()"
    and t: "t \<in> set (vl_tokens l)"
    and ok: "token_map (pc_tokens chunk) (lt_token t) = Some token"
      "validateLinguisticTokenResult t source target (candidate_map (pc_candidates chunk)) lm = Inr ()"
      "same_kinds lm (stage_senses chunk l ta)" "distinct (map lt_token (vl_tokens l))"
  shows "validateTokenResult E (merged_token ta t) token source target (candidate_map (pc_candidates chunk)) (stage_senses chunk l ta) = Inr ()"
proof -
  obtain r where r: "last_by tt_token (ta_tokens ta) (lt_token t) = Some r"
    using translation_covers(1)[OF tra] t by blast
  then have "r \<in> set (ta_tokens ta)" "tt_token r = lt_token t" by (auto dest: last_by_SomeD)
  moreover have "last_by lt_token (vl_tokens l) (lt_token t) = Some t" using ok(4) t by (rule last_by_distinct)
  ultimately have v: "safeProviderText (tt_shadow r) MaxShadowScalars = Inr ()"
    "validateTranslatedSubtitle E (lt_class t) (source_of chunk (lt_token t)) (tt_shadow r)
       (translation_of_sense chunk ta (lt_sense t) (lt_new t)) = Inr ()"
    using tra by (auto simp: ValidateTranslation_def bind_res_Inr_conv translated_tokens_Inr)
  have eq: "translation_of_sense chunk ta (lt_sense t) (lt_new t) =
      referenced_translation (merged_token ta t) (candidate_map (pc_candidates chunk)) (stage_senses chunk l ta)"
  proof (cases "lt_sense t = []")
    case False
    then show ?thesis by (simp add: translation_of_sense_def referenced_translation_def merged_token_def)
  next
    case True
    have "stage_senses chunk l ta [] = None"
      using prior_refs[OF lin] new_refs[OF lin] merged_refs[of l ta]
      by (simp add: stage_senses_def map_add_None by_ref_None) (metis (no_types, lifting) image_iff set_map)
    with True stage_lookup(1)[OF lin tra, of "lt_new t"] show ?thesis
      by (simp add: referenced_translation_def merged_token_def)
  qed
  show ?thesis
    by (rule merged_token_valid[OF ok(2,3)])
      (use r v eq ok(1) in \<open>simp_all add: merged_token_def source_of_def\<close>)
qed

lemma stage_construction_valid:
  assumes lin: "ValidateLinguistic E chunk la = Inr l" and tra: "ValidateTranslation E chunk (Some l) ta = Inr ()"
    and langs: "\<forall>d \<in> set (pc_candidates chunk). cd_source_lang d = pc_source_lang chunk \<and> cd_target_lang d = pc_target_lang chunk"
    and vc: "vc \<in> set (vl_constructions l)" and ids: "distinct (map vc_id (vl_constructions l))"
    and lc: "linguistic_construction (chunkAsPrepared chunk) anchors lm (vc_construction vc) = Inr lc" "lr_spans lc = vc_spans vc"
    and kinds: "same_kinds lm (stage_senses chunk l ta)"
  shows "validate_construction E (chunkAsPrepared chunk) anchors (stage_senses chunk l ta) (merged_construction ta vc) =
    Inr \<lparr>rc_construction = merged_construction ta vc, rc_spans = vc_spans vc\<rparr>"
proof -
  obtain t where t: "last_by tc_id (ta_constructions ta) (vc_id vc) = Some t"
    using translation_covers(3)[OF tra] vc by blast
  then have "t \<in> set (ta_constructions ta)" "tc_id t = vc_id vc" by (auto dest: last_by_SomeD)
  moreover have "find (\<lambda>c. vc_id c = vc_id vc) (vl_constructions l) = Some vc"
    using find_by_unique[OF ids vc] by (simp add: find_by_def)
  ultimately have v: "\<not> blank (tc_shadow t)" "safeProviderText (tc_shadow t) MaxShadowScalars = Inr ()"
    "validateConstructionSubtitle E (tc_shadow t)
       ([canonical_of_sense chunk l (lc_sense (vc_construction vc)) (lc_new (vc_construction vc)),
         join_spaces (map (source_of chunk) (lc_tokens (vc_construction vc)))] @ map sp_text (vc_spans vc)) = Inr ()"
    using tra by (auto simp: ValidateTranslation_def bind_res_Inr_conv translated_constructions_Inr)
  have one: "lc_sense (vc_construction vc) = [] \<or> lc_new (vc_construction vc) = []"
    and cand: "lc_sense (vc_construction vc) \<noteq> [] \<longrightarrow> candidate_map (pc_candidates chunk) (lc_sense (vc_construction vc)) \<noteq> None"
    using lc(1) by (auto simp: linguistic_construction_def validateLinguisticConstructionReference_def bind_res_Inr_conv split: if_splits option.splits)
  let ?k = "merged_construction ta vc"
  have shadow: "cn_shadow ?k = tc_shadow t" using t by (simp add: merged_construction_def Let_def)
  have forbids: "set (constructionSubtitleForbids ?k texts (vc_spans vc) (candidate_map (pc_candidates chunk)) (stage_senses chunk l ta)) \<subseteq>
      set ([canonical_of_sense chunk l (lc_sense (vc_construction vc)) (lc_new (vc_construction vc)), join_spaces texts] @ map sp_text (vc_spans vc))"
    for texts
  proof (cases "lc_sense (vc_construction vc) = []")
    case False
    with cand obtain d where "candidate_map (pc_candidates chunk) (lc_sense (vc_construction vc)) = Some d" by blast
    with False one show ?thesis
      by (simp add: constructionSubtitleForbids_def merged_construction_def Let_def canonical_of_sense_def subset_iff)
  next
    case True
    show ?thesis
    proof (cases "lc_new (vc_construction vc) = [] \<or> stage_senses chunk l ta (lc_new (vc_construction vc)) = None")
      case none: True
      with True show ?thesis
        by (cases "lc_new (vc_construction vc) = []")
          (simp_all add: constructionSubtitleForbids_def merged_construction_def Let_def subset_iff)
    next
      case False
      then obtain n where "stage_senses chunk l ta (lc_new (vc_construction vc)) = Some n" by blast
      with False True stage_lookup(2)[OF lin tra, of "lc_new (vc_construction vc)"] show ?thesis
        by (simp add: constructionSubtitleForbids_def merged_construction_def Let_def subset_iff)
    qed
  qed
  have source: "source_of chunk = (\<lambda>tid. case token_map (pc_tokens chunk) tid of None \<Rightarrow> [] | Some t \<Rightarrow> tok_text t)"
    by (rule ext) (simp add: source_of_def)
  show ?thesis
    unfolding lc(2)[symmetric]
  proof (rule merged_construction_valid[OF lc(1) kinds])
    show "validateConstructionSubtitle E (cn_shadow ?k)
        (constructionSubtitleForbids ?k (map tok_text members) (lr_spans lc) (candidate_map (pa_candidates (chunkAsPrepared chunk))) (stage_senses chunk l ta)) = Inr ()"
      if "map tok_text members = map (\<lambda>tid. case token_map (pa_tokens (chunkAsPrepared chunk)) tid of None \<Rightarrow> [] | Some t \<Rightarrow> tok_text t) (lc_tokens (vc_construction vc))"
      for members :: "Token list"
      using v(3) forbids[of "map tok_text members"] that unfolding validateConstructionSubtitle_Inr shadow source lc(2)
      by simp blast
  qed (use langs v shadow in \<open>simp_all add: merged_construction_def Let_def\<close>)
qed

text \<open>C7: the two stages compose.  When the linguistic validator has accepted an artifact and the translation
  validator a translation of it, the merge succeeds, gives back exactly the linguistic tokens, senses and
  constructions (the translation can change none of them), and the merged response passes the response
  validator, provided that the carried senses are valid and the candidates are of the article's languages.\<close>
theorem stages_compose:
  assumes "ValidateLinguistic E chunk la = Inr l" and "ValidateTranslation E chunk (Some l) ta = Inr ()"
    and "\<forall>s \<in> set (pc_prior chunk). validateSense E s = Inr ()"
    and "\<forall>d \<in> set (pc_candidates chunk). cd_source_lang d = pc_source_lang chunk \<and> cd_target_lang d = pc_target_lang chunk"
  shows "\<exists>response. MergeLinguisticTranslation (Some l) ta = Inr response \<and>
    map source_token (rs_tokens response) = la_tokens la \<and> map source_sense (rs_senses response) = la_senses la \<and>
    mset (map source_construction (rs_constructions response)) = mset (la_constructions la) \<and>
    (\<exists>v. ValidateResponseWithPrior E (chunkAsPrepared chunk) response (pc_prior chunk) = Inr v)"
proof -
  obtain cs anchors lm where parts:
    "length (la_tokens la) = length (pc_tokens chunk)" "vl_tokens l = la_tokens la" "vl_senses l = la_senses la"
    "collect_linguistic E (la_senses la) (map_of (map (\<lambda>s. (ns_ref s, linguistic_of_prior s)) (pc_prior chunk))) = Inr lm"
    "linguistic_tokens (pc_source_lang chunk) (pc_target_lang chunk) (token_map (pc_tokens chunk))
       (candidate_map (pc_candidates chunk)) lm [] (la_tokens la) = Inr ()"
    "list_all (\<lambda>t. tok_id t \<in> set (map lt_token (la_tokens la))) (pc_tokens chunk)"
    "validateSourceSentenceAnchors (chunkAsPrepared chunk) = Inr anchors"
    "\<not> list_ex (\<lambda>t. sentenceForToken anchors t < 0) (pc_tokens chunk)"
    "map_res (linguistic_construction (chunkAsPrepared chunk) anchors lm) (la_constructions la) = Inr cs"
    "linguistic_overlap_free cs"
    "vl_constructions l = number_constructions (blk_index (pc_block chunk)) (sort_key construction_key cs)"
    by (rule linguistic_parts[OF assms(1)]) (rule that; assumption)
  let ?resp = "merged_response l ta"
  have kinds: "same_kinds lm (stage_senses chunk l ta)" using stage_same_kinds parts(3,4) by metis
  note toks = parts(5)[unfolded linguistic_tokens_Inr]
  have tokens: "validate_tokens E (pc_source_lang chunk) (pc_target_lang chunk) (token_map (pc_tokens chunk))
      (candidate_map (pc_candidates chunk)) (stage_senses chunk l ta) [] (rs_tokens ?resp) =
      Inr (map (\<lambda>r. \<lparr>rt_token = the (token_map (pc_tokens chunk) (tr_token r)), rt_result = r\<rparr>) (rs_tokens ?resp))"
    unfolding validate_tokens_Inr
  proof (intro conjI ballI)
    have ids: "map tr_token (rs_tokens ?resp) = map lt_token (la_tokens la)"
      by (simp add: merged_response_def merged_token_def parts(2))
    show "distinct (map tr_token (rs_tokens ?resp))" using toks unfolding ids by blast
    fix r assume "r \<in> set (rs_tokens ?resp)"
    then obtain t where t: "t \<in> set (vl_tokens l)" "r = merged_token ta t" by (auto simp: merged_response_def)
    with toks parts(2) obtain token where token: "token_map (pc_tokens chunk) (lt_token t) = Some token" by auto
    with t toks parts(2) stage_token_valid[OF assms(1,2) t(1) token _ kinds]
    show "\<exists>token. token_map (pc_tokens chunk) (tr_token r) = Some token \<and>
        validateTokenResult E r token (pc_source_lang chunk) (pc_target_lang chunk) (candidate_map (pc_candidates chunk)) (stage_senses chunk l ta) = Inr ()"
      by (intro exI[of _ token]) (auto simp: merged_token_def)
  qed simp_all
  have lr: "lr_construction c = x" if "linguistic_construction input anchors lm x = Inr c" for x c input
    using that by (auto simp: linguistic_construction_def bind_res_Inr_conv)
  have cons: "map_res (validate_construction E (chunkAsPrepared chunk) anchors (stage_senses chunk l ta)) (rs_constructions ?resp) =
      Inr (map (\<lambda>vc. \<lparr>rc_construction = merged_construction ta vc, rc_spans = vc_spans vc\<rparr>) (vl_constructions l))"
  proof -
    have "validate_construction E (chunkAsPrepared chunk) anchors (stage_senses chunk l ta) (merged_construction ta vc) =
        Inr \<lparr>rc_construction = merged_construction ta vc, rc_spans = vc_spans vc\<rparr>" if vc: "vc \<in> set (vl_constructions l)" for vc
    proof -
      have "(vc_construction vc, vc_spans vc) \<in> set (map (\<lambda>c. (vc_construction c, vc_spans c)) (vl_constructions l))" using vc by simp
      then obtain lc where lc: "lc \<in> set cs" "vc_construction vc = lr_construction lc" "vc_spans vc = lr_spans lc"
        unfolding parts(11) number_constructions_pairs by auto
      from map_res_Inr_set[OF parts(9) lc(1)] lr lc(2)
      have "linguistic_construction (chunkAsPrepared chunk) anchors lm (vc_construction vc) = Inr lc" by metis
      from stage_construction_valid[OF assms(1,2,4) vc _ this _ kinds] lc(3) show ?thesis
        by (simp add: parts(11) number_constructions_ids)
    qed
    then have "map_res (validate_construction E (chunkAsPrepared chunk) anchors (stage_senses chunk l ta) \<circ> merged_construction ta) (vl_constructions l) =
        Inr (map (\<lambda>vc. \<lparr>rc_construction = merged_construction ta vc, rc_spans = vc_spans vc\<rparr>) (vl_constructions l))"
      by (intro map_res_total) simp
    then show ?thesis by (simp add: merged_response_def map_res_map)
  qed
  have "\<exists>v. ValidateResponseWithPrior E (chunkAsPrepared chunk) ?resp (pc_prior chunk) = Inr v"
    using stage_collect[OF assms(1-3)] tokens cons parts(1,2,6-8) merged_overlap_free[OF parts(10,11), of ta]
    by (simp add: ValidateResponseWithPrior_def validateResponse_def merged_response_def merged_token_def image_image comp_def)
  moreover have "mset (map source_construction (rs_constructions ?resp)) = mset (la_constructions la)"
  proof -
    have "map lr_construction cs = map (\<lambda>x. x) (la_constructions la)"
      by (rule map_res_Inr_map[OF parts(9)]) (rule lr)
    moreover have "map vc_construction (vl_constructions l) = map lr_construction (sort_key construction_key cs)"
      using arg_cong[OF number_constructions_pairs, of "map fst"] parts(11) by (simp add: comp_def)
    ultimately show ?thesis unfolding merged_source(3) by simp (metis mset_map mset_sort)
  qed
  ultimately show ?thesis
    using merge_is_merged_response[OF assms(2)] merged_source(1,2)[of l ta] parts(2,3) by auto
qed

section \<open>An example\<close>

text \<open>ASCII without spaces and markup, where the normalizations of the example environment change nothing.\<close>

definition plain :: "string \<Rightarrow> bool" where
  "plain s \<longleftrightarrow> list_all (\<lambda>c. 0x20 < byte c \<and> byte c < 0x7F \<and> c \<noteq> CHR ''<'' \<and> c \<noteq> CHR ''>'') s"

lemma plain_ascii: "plain s \<Longrightarrow> c \<in> set s \<Longrightarrow> byte c < 0x80 \<and> \<not> is_space (byte c) \<and> \<not> is_control (byte c)"
proof -
  assume "plain s" and "c \<in> set s"
  then have "0x20 < byte c" and "byte c < 0x7F" by (simp_all add: plain_def list_all_iff)
  then show ?thesis by (simp add: is_space_def is_control_def)
qed

lemma plain_low: "plain s \<Longrightarrow> \<forall>c \<in> set s. byte c < 0x80"
  using plain_ascii by blast

lemma plain_key_loop: "plain s \<Longrightarrow> key_loop (map (\<lambda>c. (byte c, [c])) s) b False = Inr (b @ s)"
proof (induction s arbitrary: b)
  case Nil
  then show ?case by simp
next
  case (Cons c s)
  then have "plain s" by (simp add: plain_def)
  with Cons plain_ascii[OF Cons.prems, of c] show ?case by (simp add: write_rune_def rune_error_def)
qed

lemma plain_form: "plain s \<Longrightarrow> s \<noteq> [] \<Longrightarrow> NormalizeForm plain_env s = Inr s"
  using plain_low[of s] plain_key_loop[of s "[]"]
  by (simp add: NormalizeForm_def plain_env_def ascii_valid ascii_chunks)

lemma plain_safe: "plain s \<Longrightarrow> length s \<le> n \<Longrightarrow> safeProviderText s n = Inr ()"
proof -
  assume p: "plain s" and l: "length s \<le> n"
  have "\<not> is_control r" if "r \<in> set (runes s)" for r
    using that plain_low[OF p] plain_ascii[OF p] by (auto simp: ascii_runes)
  moreover have "CHR ''<'' \<notin> set s" "CHR ''>'' \<notin> set s" using p by (auto simp: plain_def list_all_iff)
  ultimately show ?thesis
    using plain_low[OF p] l by (simp add: safeProviderText_def ascii_valid ascii_runes)
qed

lemma plain_blank: "plain s \<Longrightarrow> blank s \<longleftrightarrow> s = []"
  using plain_low[of s] plain_ascii[of s] by (cases s) (simp_all add: ascii_blank, blast)

lemma plain_units: "plain s \<Longrightarrow> UTF16Len s = length s"
proof -
  assume p: "plain s"
  have "map rune_units (runes s) = map (\<lambda>_. 1) s"
    using plain_low[OF p] by (simp add: ascii_runes rune_units_def) fastforce
  then show ?thesis by (simp add: UTF16Len_def map_replicate_const sum_list_replicate)
qed

definition sample_token :: Token where
  "sample_token = \<lparr>tok_id = ''b0:t0'', tok_block = 0, tok_index = 0, tok_start = 0, tok_end = 2, tok_text = ''Ja'',
     tok_form = ''ja'', tok_lemma = []\<rparr>"

definition sample_chunk :: PreparedChunk where
  "sample_chunk = \<lparr>pc_title = ''T'', pc_source_lang = ''nl'', pc_target_lang = ''en'', pc_hash = [],
     pc_block = \<lparr>blk_index = 0, blk_text = ''Ja''\<rparr>, pc_tokens = [sample_token], pc_candidates = [], pc_prior = [],
     pc_sentences = [\<lparr>st_index = 0, st_span = \<lparr>sp_block = 0, sp_start = 0, sp_end = 2, sp_text = ''Ja''\<rparr>\<rparr>], pc_input_hash = []\<rparr>"

definition sample_linguistic :: LinguisticArtifact where
  "sample_linguistic = \<lparr>la_version = LinguisticContractVersion,
     la_tokens = [\<lparr>lt_token = ''b0:t0'', lt_class = ''adverb'', lt_kind = ''word'', lt_sense = [], lt_new = ''r'', lt_pron = [],
        lt_context = [], lt_confidence = 900\<rparr>],
     la_senses = [\<lparr>ls_ref = ''r'', ls_kind = ''word'', ls_canonical = ''ja'', ls_form = ''ja'', ls_lemma = [], ls_pos = [],
        ls_discriminator = ''affirm'', ls_meaning = [], ls_usage = [], ls_parts = [], ls_pron = []\<rparr>],
     la_constructions = [\<lparr>lc_kind = ''phrase'', lc_role = contiguous, lc_sense = [], lc_new = [], lc_pron = [], lc_context = [],
        lc_confidence = 500, lc_tokens = [''b0:t0''], lc_spans = [\<lparr>sr_block = 0, sr_text = ''Ja'', sr_occurrence = 0\<rparr>]\<rparr>]\<rparr>"

definition sample_validated :: ValidatedLinguistic where
  "sample_validated = \<lparr>vl_version = LinguisticContractVersion, vl_tokens = la_tokens sample_linguistic,
     vl_senses = la_senses sample_linguistic, vl_constructions = [\<lparr>vc_id = ''b0:c0'',
        vc_construction = hd (la_constructions sample_linguistic),
        vc_spans = [\<lparr>sp_block = 0, sp_start = 0, sp_end = 2, sp_text = ''Ja''\<rparr>]\<rparr>]\<rparr>"

definition sample_translation :: TranslationArtifact where
  "sample_translation = \<lparr>ta_version = TranslationContractVersion,
     ta_tokens = [\<lparr>tt_token = ''b0:t0'', tt_shadow = ''yes''\<rparr>],
     ta_senses = [\<lparr>ts_ref = ''r'', ts_primary = ''yes'', ts_alternatives = [''yeah''], ts_literal = []\<rparr>],
     ta_constructions = [\<lparr>tc_id = ''b0:c0'', tc_shadow = ''yes''\<rparr>]\<rparr>"

lemma sample_anchors: "validateSourceSentenceAnchors (chunkAsPrepared sample_chunk) = Inr (pc_sentences sample_chunk)"
proof -
  have "sliceForUTF16 ''Ja'' 0 2 = Inr ''Ja''"
    by (simp add: sliceForUTF16_def byteOffsetForUTF16_def ascii_chunks byte_def rune_units_def slice_def)
  then show ?thesis
    by (simp add: validateSourceSentenceAnchors_def chunkAsPrepared_def sample_chunk_def check_anchor_def block_at_def)
qed

lemma sample_shape:
  "validate_shape (chunkAsPrepared sample_chunk) (pc_sentences sample_chunk) contiguous [''b0:t0'']
     [\<lparr>sr_block = 0, sr_text = ''Ja'', sr_occurrence = 0\<rparr>] =
   Inr ([\<lparr>sp_block = 0, sp_start = 0, sp_end = 2, sp_text = ''Ja''\<rparr>], [sample_token])"
proof -
  have "ResolveSpan \<lparr>blk_index = 0, blk_text = ''Ja''\<rparr> ''Ja'' 0 = Inr \<lparr>sp_block = 0, sp_start = 0, sp_end = 2, sp_text = ''Ja''\<rparr>"
    using plain_units[of "''Ja''"] plain_units[of "[]"]
    by (simp add: ResolveSpan_def find_occurrence.simps has_prefix_def utf16Len_def plain_def byte_def)
  then show ?thesis
    by (simp add: validate_shape_def contiguous_def discontinuous_def chunkAsPrepared_def sample_chunk_def block_at_def
        token_map_def last_by_def sample_token_def in_span_def sentenceForToken_def memberRunCount_def)
qed


lemma sample_tokens:
  "pc_tokens sample_chunk = [sample_token]" "pc_candidates sample_chunk = []" "pc_prior sample_chunk = []"
  "pc_source_lang sample_chunk = ''nl''" "pc_target_lang sample_chunk = ''en''" "blk_index (pc_block sample_chunk) = 0"
  "length (pa_tokens (chunkAsPrepared sample_chunk)) = 1" "pa_tokens (chunkAsPrepared sample_chunk) = [sample_token]"
  "pa_candidates (chunkAsPrepared sample_chunk) = []" "pa_source_lang (chunkAsPrepared sample_chunk) = ''nl''"
  "pa_target_lang (chunkAsPrepared sample_chunk) = ''en''"
  by (simp_all add: sample_chunk_def chunkAsPrepared_def)

lemma sample_sense_ok: "validateLinguisticNewSense plain_env (hd (la_senses sample_linguistic)) = Inr ()"
proof -
  have "safeProviderText [] n = Inr ()" for n using plain_safe[of "[]" n] by (simp add: plain_def)
  moreover have "plain ''ja''" "plain ''affirm''" by (simp_all add: plain_def byte_def)
  ultimately show ?thesis
    by (simp add: validateLinguisticNewSense_def sample_linguistic_def linguistic_fields_def field_ok_def check_forms_def
        kind_valid_def SemKindWord_def MaxNoteScalars_def plain_blank plain_safe plain_form)
qed

lemma sample_token_result_ok:
  "validateLinguisticTokenResult (hd (la_tokens sample_linguistic)) ''nl'' ''en'' c
     [''r'' \<mapsto> hd (la_senses sample_linguistic)] = Inr ()"
proof -
  have "safeProviderText [] n = Inr ()" for n using plain_safe[of "[]" n] by (simp add: plain_def)
  moreover have "plain ''adverb''" by (simp add: plain_def byte_def)
  ultimately show ?thesis
    by (simp add: validateLinguisticTokenResult_def sample_linguistic_def kind_valid_def SemKindWord_def
        MaxNoteScalars_def plain_safe special_class_def validateLinguisticSenseReference_def)
qed

lemma sample_construction_ok:
  "linguistic_construction (chunkAsPrepared sample_chunk) (pc_sentences sample_chunk) senses
     (hd (la_constructions sample_linguistic)) =
   Inr \<lparr>lr_construction = hd (la_constructions sample_linguistic),
     lr_spans = [\<lparr>sp_block = 0, sp_start = 0, sp_end = 2, sp_text = ''Ja''\<rparr>], lr_members = [sample_token]\<rparr>"
proof -
  have "safeProviderText [] n = Inr ()" for n using plain_safe[of "[]" n] by (simp add: plain_def)
  then show ?thesis
    using sample_shape
    by (simp add: linguistic_construction_def sample_linguistic_def kind_valid_def SemKindWord_def contiguous_def
        discontinuous_def validateLinguisticConstructionReference_def)
qed

lemma sample_linguistic_ok: "ValidateLinguistic plain_env sample_chunk sample_linguistic = Inr sample_validated"
proof -
  have t: "la_tokens sample_linguistic = [hd (la_tokens sample_linguistic)]"
    "la_senses sample_linguistic = [hd (la_senses sample_linguistic)]"
    "la_constructions sample_linguistic = [hd (la_constructions sample_linguistic)]"
    by (simp_all add: sample_linguistic_def)
  have u: "ls_ref (hd (la_senses sample_linguistic)) = ''r''" "lt_token (hd (la_tokens sample_linguistic)) = ''b0:t0''"
    "la_version sample_linguistic = LinguisticContractVersion"
    by (simp_all add: sample_linguistic_def)
  have p: "safeProviderText ''r'' 120 = Inr ()" by (rule plain_safe) (simp_all add: plain_def byte_def)
  have s: "sentenceForToken (pc_sentences sample_chunk) sample_token = 0"
    by (simp add: sentenceForToken_def in_span_def sample_chunk_def sample_token_def)
  have n: "construction_name 0 0 = ''b0:c0''"
    using char_of_char[of "CHR ''0''"] by (simp add: construction_name_def decimal.simps digit_def)
  have senses: "collect_linguistic plain_env (la_senses sample_linguistic) Map.empty = Inr [''r'' \<mapsto> hd (la_senses sample_linguistic)]"
    by (subst t) (simp add: collect_linguistic_def u p sample_sense_ok)
  have toks: "linguistic_tokens ''nl'' ''en'' (token_map [sample_token]) (candidate_map [])
      [''r'' \<mapsto> hd (la_senses sample_linguistic)] [] (la_tokens sample_linguistic) = Inr ()"
    by (subst t) (simp add: u sample_token_result_ok token_map_def last_by_def sample_token_def)
  have cs: "map_res (linguistic_construction (chunkAsPrepared sample_chunk) (pc_sentences sample_chunk) senses)
      (la_constructions sample_linguistic) = Inr [\<lparr>lr_construction = hd (la_constructions sample_linguistic),
     lr_spans = [\<lparr>sp_block = 0, sp_start = 0, sp_end = 2, sp_text = ''Ja''\<rparr>], lr_members = [sample_token]\<rparr>]" for senses
    by (subst t) (simp add: sample_construction_ok)
  have l: "length (la_tokens sample_linguistic) = 1" by (subst t) simp
  have m: "''b0:t0'' \<in> set (map lt_token (la_tokens sample_linguistic))" by (subst t) (simp add: u)
  have i: "tok_id sample_token = ''b0:t0''" by (simp add: sample_token_def)
  show ?thesis
    using l m
    by (simp add: ValidateLinguistic_def Let_def sample_tokens u senses toks cs sample_anchors collect_prior_def s i
        number_constructions_def n sample_validated_def)
qed

lemma sample_translation_ok: "ValidateTranslation plain_env sample_chunk (Some sample_validated) sample_translation = Inr ()"
proof -
  have p: "plain ''yes''" "plain ''yeah''" "plain ''Ja''" "plain ''ja''" by (simp_all add: plain_def byte_def)
  have e: "safeProviderText [] n = Inr ()" for n using plain_safe[of "[]" n] by (simp add: plain_def)
  have f: "NormalizeForm plain_env ''yes'' = Inr ''yes''" "NormalizeForm plain_env ''Ja'' = Inr ''Ja''" 
    "NormalizeForm plain_env ''ja'' = Inr ''ja''" using p by (simp_all add: plain_form)
  have f0: "NormalizeForm plain_env [] = Inl (text_message EmptyKey)"
    by (simp add: NormalizeForm_def plain_env_def chunks.simps[of "[]"])
  have src: "source_of sample_chunk ''b0:t0'' = ''Ja''"
    by (simp add: source_of_def sample_tokens token_map_def last_by_def sample_token_def)
  have tok: "translated_tokens plain_env sample_chunk sample_validated sample_translation []
      (ta_tokens sample_translation) = Inr ()"
    using p e f by (simp add: sample_translation_def sample_validated_def sample_linguistic_def last_by_def src plain_safe
        MaxShadowScalars_def validateTranslatedSubtitle_def normalized_shadow_def plain_blank special_class_def)
  have tr: "trim_space ''yeah'' \<noteq> []" using plain_blank[OF p(2)] by (simp add: blank_def)
  have sen: "translated_senses sample_validated [] (ta_senses sample_translation) = Inr ()"
    using p e tr by (simp add: sample_translation_def sample_validated_def sample_linguistic_def validateTranslatedSense_def
        plain_safe plain_blank MaxNoteScalars_def MaxAlternatives_def)
  have con: "translated_constructions plain_env sample_chunk sample_validated [] (ta_constructions sample_translation) = Inr ()"
    using p e f by (simp add: sample_translation_def sample_validated_def sample_linguistic_def src plain_safe plain_blank
        MaxShadowScalars_def validateConstructionSubtitle_def canonical_of_sense_def f0)
  show ?thesis
    by (simp add: ValidateTranslation_def tok sen con)
      (simp add: sample_translation_def sample_validated_def sample_linguistic_def)
qed

theorem stages_compose_witness:
  "\<exists>response v. MergeLinguisticTranslation (Some sample_validated) sample_translation = Inr response \<and>
     ValidateResponseWithPrior plain_env (chunkAsPrepared sample_chunk) response [] = Inr v \<and>
     map source_token (rs_tokens response) = la_tokens sample_linguistic"
  using stages_compose[OF sample_linguistic_ok sample_translation_ok] by (auto simp: sample_tokens)
end
