(* ===== verification/Semantics_Sound.thy ===== *)
theory Semantics_Sound
  imports Semantics_Compose
begin

text \<open>
  Soundness of the response validator of internal/semantics/types.go: what an accepted response promises of the tokens
  and of the constructions.
\<close>

section \<open>Tokens\<close>

text \<open>What a classified token promises: its confidence and kind are in range, and it refers to at most one sense, a
  candidate of the article's languages or a new sense of the response or of an earlier chunk, of the token's kind.
  A token that is no name, number or acronym has a sense and a subtitle, and the subtitle repeats the source word
  only where the sense is spelled like it.\<close>

definition token_sound :: "text_env \<Rightarrow> PreparedArticle \<Rightarrow> NewSense list \<Rightarrow> ResolvedToken \<Rightarrow> bool" where
  "token_sound E input senses x \<longleftrightarrow>
     (let r = rt_result x; t = rt_token x;
          candidate = (\<lambda>c. c \<in> set (pa_candidates input) \<and> cd_id c = tr_sense r);
          fresh = (\<lambda>s. s \<in> set senses \<and> ns_ref s = tr_new r) in
      tr_token r = tok_id t \<and> 0 \<le> tr_confidence r \<and> tr_confidence r \<le> 1000 \<and> kind_valid (tr_kind r) \<and>
      (tr_sense r = [] \<or> tr_new r = []) \<and>
      (tr_sense r \<noteq> [] \<longrightarrow> (\<exists>c. candidate c \<and> cd_kind c = tr_kind r \<and>
         cd_source_lang c = pa_source_lang input \<and> cd_target_lang c = pa_target_lang input)) \<and>
      (tr_new r \<noteq> [] \<longrightarrow> (\<exists>s. fresh s \<and> ns_kind s = tr_kind r)) \<and>
      (\<not> special_class (tr_class r) \<longrightarrow>
         (tr_sense r \<noteq> [] \<or> tr_new r \<noteq> []) \<and> \<not> blank (tr_shadow r) \<and>
         (\<forall>n. NormalizeForm E (tr_shadow r) = Inr n \<and> NormalizeForm E (tok_text t) = Inr n \<longrightarrow>
            (\<exists>c. candidate c \<and> NormalizeForm E (cd_primary c) = Inr n) \<or>
            (\<exists>s. fresh s \<and> NormalizeForm E (ns_primary s) = Inr n))))"

lemma candidate_map_SomeD: "candidate_map cs k = Some c \<Longrightarrow> c \<in> set cs \<and> cd_id c = k"
  by (auto simp: candidate_map_def dest!: last_by_SomeD)

lemma token_result_sound:
  assumes "validateTokenResult E r t (pa_source_lang input) (pa_target_lang input) (candidate_map (pa_candidates input)) m = Inr ()"
    and "\<And>k s. m k = Some s \<Longrightarrow> s \<in> set senses \<and> ns_ref s = k" and "tr_token r = tok_id t"
  shows "token_sound E input senses \<lparr>rt_token = t, rt_result = r\<rparr>"
proof -
  let ?cm = "candidate_map (pa_candidates input)"
  have v: "0 \<le> tr_confidence r \<and> tr_confidence r \<le> 1000 \<and> kind_valid (tr_kind r) \<and> (tr_sense r = [] \<or> tr_new r = [])"
    "validateSenseReference (tr_sense r) (tr_new r) (tr_kind r) (pa_source_lang input) (pa_target_lang input) ?cm m = Inr ()"
    "\<not> special_class (tr_class r) \<Longrightarrow> (tr_sense r \<noteq> [] \<or> tr_new r \<noteq> []) \<and> \<not> blank (tr_shadow r)"
    using assms(1) by (auto simp: validateTokenResult_def bind_res_Inr_conv Let_def)
  have copy: "sameSpellingSense E (referenced_translation r ?cm m) n"
    if "\<not> special_class (tr_class r)" "NormalizeForm E (tr_shadow r) = Inr n" "NormalizeForm E (tok_text t) = Inr n" for n
    using assms(1) that v(3)[OF that(1)]
    by (auto simp: validateTokenResult_def bind_res_Inr_conv Let_def normalized_shadow_def split: if_splits)
  have cand: "\<exists>c. c \<in> set (pa_candidates input) \<and> cd_id c = tr_sense r \<and> cd_kind c = tr_kind r \<and>
      cd_source_lang c = pa_source_lang input \<and> cd_target_lang c = pa_target_lang input" if "tr_sense r \<noteq> []"
    using v(2) that
    by (auto simp: validateSenseReference_def dest!: candidate_map_SomeD split: option.splits if_splits)
  have fresh: "\<exists>s. s \<in> set senses \<and> ns_ref s = tr_new r \<and> ns_kind s = tr_kind r" if "tr_new r \<noteq> []"
    using v(1,2) that
    by (auto simp: validateSenseReference_def dest!: assms(2) split: option.splits if_splits)
  have same: "(\<exists>c. c \<in> set (pa_candidates input) \<and> cd_id c = tr_sense r \<and> NormalizeForm E (cd_primary c) = Inr n) \<or>
      (\<exists>s. s \<in> set senses \<and> ns_ref s = tr_new r \<and> NormalizeForm E (ns_primary s) = Inr n)"
    if "\<not> special_class (tr_class r)" "NormalizeForm E (tr_shadow r) = Inr n" "NormalizeForm E (tok_text t) = Inr n" for n
    using copy[OF that] v(2) v(3)[OF that(1)]
    by (auto simp: sameSpellingSense_def referenced_translation_def validateSenseReference_def
        dest!: candidate_map_SomeD assms(2) split: if_splits option.splits)
  show ?thesis
    using v(1,3) cand fresh same assms(3) by (auto simp: token_sound_def Let_def)
qed

section \<open>The parts of an accepted response\<close>

lemma validateResponse_parts:
  assumes "validateResponse E input response prior = Inr v"
  obtains senses where "length (rs_tokens response) = length (pa_tokens input)"
    "\<forall>s \<in> set (prior @ rs_senses response). ns_ref s \<noteq> [] \<and> validateSense E s = Inr ()"
    "distinct (map ns_ref (prior @ rs_senses response))"
    "\<And>k s. senses k = Some s \<Longrightarrow> s \<in> set (prior @ rs_senses response) \<and> ns_ref s = k"
    "distinct (map tr_token (rs_tokens response))"
    "\<forall>r \<in> set (rs_tokens response). \<exists>t. token_map (pa_tokens input) (tr_token r) = Some t \<and>
       validateTokenResult E r t (pa_source_lang input) (pa_target_lang input) (candidate_map (pa_candidates input)) senses = Inr ()"
    "vr_tokens v = map (\<lambda>r. \<lparr>rt_token = the (token_map (pa_tokens input) (tr_token r)), rt_result = r\<rparr>) (rs_tokens response)"
    "validateSourceSentenceAnchors input = Inr (vr_sentences v)"
    "\<forall>t \<in> set (pa_tokens input). 0 \<le> sentenceForToken (vr_sentences v) t"
    "map_res (validate_construction E input (vr_sentences v) senses) (rs_constructions response) = Inr (vr_constructions v)"
    "overlap_free (vr_constructions v)" "vr_response v = response"
proof -
  from assms obtain known senses tokens anchors constructions where
    len: "length (rs_tokens response) = length (pa_tokens input)"
    and known: "collect_senses E prior Map.empty = Inr known"
    and senses: "collect_senses E (rs_senses response) known = Inr senses"
    and tokens: "validate_tokens E (pa_source_lang input) (pa_target_lang input) (token_map (pa_tokens input))
                  (candidate_map (pa_candidates input)) senses [] (rs_tokens response) = Inr tokens"
    and anchors: "validateSourceSentenceAnchors input = Inr anchors"
    and inside: "\<not> list_ex (\<lambda>t. sentenceForToken anchors t < 0) (pa_tokens input)"
    and con: "map_res (validate_construction E input anchors senses) (rs_constructions response) = Inr constructions"
    and free: "overlap_free constructions"
    and v: "v = \<lparr>vr_response = response, vr_sentences = anchors, vr_tokens = tokens, vr_constructions = constructions\<rparr>"
    by (auto simp: validateResponse_def bind_res_Inr_conv split: if_splits)
  have k: "known = map_of (map (\<lambda>s. (ns_ref s, s)) prior)" "distinct (map ns_ref prior)"
    "\<forall>s \<in> set prior. ns_ref s \<noteq> [] \<and> validateSense E s = Inr ()"
    using known by (auto simp: collect_senses_def fill_refs_Inr)
  have s: "senses = known ++ map_of (map (\<lambda>s. (ns_ref s, s)) (rs_senses response))" "distinct (map ns_ref (rs_senses response))"
    "\<forall>s \<in> set (rs_senses response). ns_ref s \<noteq> [] \<and> known (ns_ref s) = None \<and> validateSense E s = Inr ()"
    using senses by (auto simp: collect_senses_def fill_refs_Inr)
  have d: "distinct (map ns_ref (prior @ rs_senses response))"
  proof -
    have "ns_ref a \<noteq> ns_ref b" if "a \<in> set prior" "b \<in> set (rs_senses response)" for a b
    proof -
      have "map_of (map (\<lambda>s. (ns_ref s, s)) prior) (ns_ref b) = None" using s(3) that(2) k(1) by simp
      then show ?thesis using that(1) by (force simp: map_of_eq_None_iff image_iff)
    qed
    then show ?thesis unfolding map_append distinct_append using k(2) s(2) by auto
  qed
  have mem: "s' \<in> set (prior @ rs_senses response) \<and> ns_ref s' = r" if "senses r = Some s'" for r s'
    using that unfolding s(1) k(1) by (auto simp: map_add_Some_iff dest!: map_of_SomeD)
  have ok: "\<forall>s \<in> set (prior @ rs_senses response). ns_ref s \<noteq> [] \<and> validateSense E s = Inr ()" using k(3) s(3) by auto
  note t = tokens[unfolded validate_tokens_Inr]
  have r: "distinct (map tr_token (rs_tokens response))"
    "\<forall>r \<in> set (rs_tokens response). \<exists>t. token_map (pa_tokens input) (tr_token r) = Some t \<and>
       validateTokenResult E r t (pa_source_lang input) (pa_target_lang input) (candidate_map (pa_candidates input)) senses = Inr ()"
    "tokens = map (\<lambda>r. \<lparr>rt_token = the (token_map (pa_tokens input) (tr_token r)), rt_result = r\<rparr>) (rs_tokens response)"
    using t by blast+
  have i: "\<forall>t \<in> set (pa_tokens input). 0 \<le> sentenceForToken anchors t" using inside by (auto simp: list_ex_iff not_less)
  show thesis
    by (rule that[of senses]) (simp_all only: v ValidatedResponse.simps len d r(1,3) anchors con free mem, (rule ok r(2) i)+)
qed

lemma validateResponse_tokens_all:
  assumes "validateResponse E input response prior = Inr v" and "distinct (map tok_id (pa_tokens input))"
  shows "map rt_result (vr_tokens v) = rs_tokens response" and "mset (map rt_token (vr_tokens v)) = mset (pa_tokens input)"
    and "distinct (map ns_ref (prior @ rs_senses response))"
    and "\<forall>x \<in> set (vr_tokens v). token_sound E input (prior @ rs_senses response) x"
    and "\<forall>t \<in> set (pa_tokens input). \<exists>s \<in> set (vr_sentences v). in_span (st_span s) t"
proof -
  from assms(1) obtain senses where p: "length (rs_tokens response) = length (pa_tokens input)"
    "distinct (map ns_ref (prior @ rs_senses response))"
    "\<And>k s. senses k = Some s \<Longrightarrow> s \<in> set (prior @ rs_senses response) \<and> ns_ref s = k"
    "distinct (map tr_token (rs_tokens response))"
    "\<forall>r \<in> set (rs_tokens response). \<exists>t. token_map (pa_tokens input) (tr_token r) = Some t \<and>
       validateTokenResult E r t (pa_source_lang input) (pa_target_lang input) (candidate_map (pa_candidates input)) senses = Inr ()"
    "vr_tokens v = map (\<lambda>r. \<lparr>rt_token = the (token_map (pa_tokens input) (tr_token r)), rt_result = r\<rparr>) (rs_tokens response)"
    "\<forall>t \<in> set (pa_tokens input). 0 \<le> sentenceForToken (vr_sentences v) t"
    by (rule validateResponse_parts) blast
  show "map rt_result (vr_tokens v) = rs_tokens response" by (simp add: p(6) comp_def)
  show "distinct (map ns_ref (prior @ rs_senses response))" by (rule p(2))
  have tk: "t \<in> set (pa_tokens input) \<and> tok_id t = k" if "token_map (pa_tokens input) k = Some t" for k t
    using that unfolding token_map_def by (rule last_by_SomeD)
  have ids: "map tok_id (map rt_token (vr_tokens v)) = map tr_token (rs_tokens response)"
    using p(5) tk by (auto simp: p(6))
  have sub: "set (map rt_token (vr_tokens v)) \<subseteq> set (pa_tokens input)" using p(5) tk by (auto simp: p(6))
  have dis: "distinct (map rt_token (vr_tokens v))" using ids p(4) by (metis distinct_map)
  have "card (set (map rt_token (vr_tokens v))) = card (set (pa_tokens input))"
    using distinct_card[OF dis] distinct_card[of "pa_tokens input"] assms(2) p(1) by (simp add: p(6) distinct_map)
  then have "set (map rt_token (vr_tokens v)) = set (pa_tokens input)" by (intro card_subset_eq[OF _ sub]) simp_all
  then show "mset (map rt_token (vr_tokens v)) = mset (pa_tokens input)"
    using dis assms(2) by (subst set_eq_iff_mset_eq_distinct[symmetric]) (auto simp: distinct_map)
  show "\<forall>x \<in> set (vr_tokens v). token_sound E input (prior @ rs_senses response) x"
  proof
    fix x assume "x \<in> set (vr_tokens v)"
    then obtain r where r: "r \<in> set (rs_tokens response)" "x = \<lparr>rt_token = the (token_map (pa_tokens input) (tr_token r)), rt_result = r\<rparr>"
      by (auto simp: p(6))
    with p(5) obtain t where t: "token_map (pa_tokens input) (tr_token r) = Some t"
       "validateTokenResult E r t (pa_source_lang input) (pa_target_lang input) (candidate_map (pa_candidates input)) senses = Inr ()"
      by blast
    show "token_sound E input (prior @ rs_senses response) x"
      using token_result_sound[OF t(2) p(3)] tk[OF t(1)] r(2) t(1) by simp
  qed
  show "\<forall>t \<in> set (pa_tokens input). \<exists>s \<in> set (vr_sentences v). in_span (st_span s) t"
    using p(7) by (fastforce simp: sentenceForToken_def find_Some_iff split: option.splits)
qed

text \<open>C21: what an accepted response says of the tokens.  Every token of the article is classified exactly once, with the
  results of the response in their order; the references of new senses are all different, over the earlier chunks
  too; each result is sound for its token; and each token lies in one of the source sentences.\<close>
theorem validateResponse_tokens:
  assumes "validateResponse E input response prior = Inr v" and "distinct (map tok_id (pa_tokens input))"
  shows "map rt_result (vr_tokens v) = rs_tokens response \<and> mset (map rt_token (vr_tokens v)) = mset (pa_tokens input) \<and>
    distinct (map ns_ref (prior @ rs_senses response)) \<and>
    (\<forall>x \<in> set (vr_tokens v). token_sound E input (prior @ rs_senses response) x) \<and>
    (\<forall>t \<in> set (pa_tokens input). \<exists>s \<in> set (vr_sentences v). in_span (st_span s) t)"
  by (intro conjI validateResponse_tokens_all[OF assms])

section \<open>Constructions\<close>

definition next_token :: "Token \<Rightarrow> Token \<Rightarrow> bool" where
  "next_token t u \<longleftrightarrow> tok_block u = tok_block t \<and> tok_index u = tok_index t + 1"

definition later_token :: "Token \<Rightarrow> Token \<Rightarrow> bool" where
  "later_token t u \<longleftrightarrow> tok_block u = tok_block t \<and> tok_start t < tok_start u"

definition later_span :: "ResolvedSpan \<Rightarrow> ResolvedSpan \<Rightarrow> bool" where
  "later_span s s' \<longleftrightarrow> sp_block s' = sp_block s \<and> sp_end s \<le> sp_start s'"

text \<open>What a construction promises, given its member tokens.\<close>

definition construction_sound :: "PreparedArticle \<Rightarrow> ResolvedSentence list \<Rightarrow> ResolvedConstruction \<Rightarrow> Token list \<Rightarrow> bool" where
  "construction_sound input sentences c members \<longleftrightarrow>
     (let k = rc_construction c in
      map tok_id members = cn_tokens k \<and> members \<noteq> [] \<and> set members \<subseteq> set (pa_tokens input) \<and>
      sorted_wrt later_token members \<and>
      (\<forall>t \<in> set members. \<exists>s \<in> set (rc_spans c). in_span s t) \<and>
      (\<exists>n \<ge> 0. \<forall>t \<in> set members. sentenceForToken sentences t = n) \<and>
      length (rc_spans c) = length (cn_spans k) \<and> successively later_span (rc_spans c) \<and>
      (cn_role k = contiguous \<and> length (rc_spans c) = 1 \<and> successively next_token members \<and>
         set members = {t \<in> set (pa_tokens input). in_span (hd (rc_spans c)) t} \<or>
       cn_role k = discontinuous \<and> 2 \<le> length (rc_spans c) \<and> \<not> successively next_token members))"

lemma resolve_spans_ordered:
  "resolve_spans bs prev rs = Inr ss \<Longrightarrow> length ss = length rs \<and> successively later_span (case prev of None \<Rightarrow> ss | Some p \<Rightarrow> p # ss)"
proof (induction rs arbitrary: prev ss)
  case Nil
  then show ?case by (auto split: option.split)
next
  case (Cons r rs)
  then obtain s rest where "ss = s # rest" and rest: "resolve_spans bs (Some s) rs = Inr rest"
    and o: "\<not> (case prev of None \<Rightarrow> False | Some p \<Rightarrow> sp_block s \<noteq> sp_block p \<or> sp_start s < sp_end p)"
    by (auto simp: bind_res_Inr_conv split: option.splits if_splits)
  with Cons.IH[OF rest] show ?case by (auto simp: later_span_def split: option.splits)
qed

lemma resolve_members_sound:
  assumes "resolve_members tokens anchors spans seen prev owner tids = Inr ms"
    and "\<And>k t. tokens k = Some t \<Longrightarrow> tok_id t = k \<and> 0 \<le> tok_block t \<and> t \<in> T"
    and "case prev of None \<Rightarrow> owner < 0 | Some p \<Rightarrow> 0 \<le> tok_block p \<and> 0 \<le> owner"
  shows "map tok_id ms = tids \<and> set ms \<subseteq> T \<and> (\<forall>t \<in> set ms. \<exists>s \<in> set spans. in_span s t) \<and>
    successively later_token (case prev of None \<Rightarrow> ms | Some p \<Rightarrow> p # ms) \<and>
    (\<exists>n \<ge> 0. (0 \<le> owner \<longrightarrow> n = owner) \<and> (\<forall>t \<in> set ms. sentenceForToken anchors t = n))"
  using assms(1,3)
proof (induction tids arbitrary: seen prev owner ms)
  case Nil
  then show ?case by (auto split: option.splits intro: exI[of _ "max 0 owner"])
next
  case (Cons tid tids)
  then obtain t rest where t: "tokens tid = Some t" and ms: "ms = t # rest"
    and order: "\<not> (case prev of None \<Rightarrow> False
                   | Some p \<Rightarrow> tok_block p \<ge> 0 \<and> (tok_block t \<noteq> tok_block p \<or> tok_start t \<le> tok_start p))"
    and inside: "list_ex (\<lambda>s. in_span s t) spans" and sent: "0 \<le> sentenceForToken anchors t"
    and own: "\<not> (owner \<ge> 0 \<and> sentenceForToken anchors t \<noteq> owner)"
    and rest: "resolve_members tokens anchors spans (tid # seen) (Some t) (sentenceForToken anchors t) tids = Inr rest"
    by (auto simp: bind_res_Inr_conv not_less split: option.splits if_splits)
  have tk: "tok_id t = tid" "0 \<le> tok_block t" "t \<in> T" using assms(2)[OF t] by auto
  note IH = Cons.IH[OF rest, simplified, OF conjI[OF tk(2) sent]]
  have "later_token p t" if "prev = Some p" for p
    using order Cons.prems(2) that by (auto simp: later_token_def)
  then have "successively later_token (case prev of None \<Rightarrow> ms | Some p \<Rightarrow> p # ms)"
    using IH ms by (auto split: option.split)
  moreover have "\<exists>n \<ge> 0. (0 \<le> owner \<longrightarrow> n = owner) \<and> (\<forall>u \<in> set ms. sentenceForToken anchors u = n)"
    using IH own sent ms by (intro exI[of _ "sentenceForToken anchors t"]) auto
  ultimately show ?case using IH tk inside ms by (auto simp: list_ex_iff)
qed

lemma run_count_Some: "run_count (Some p) ts = 0 \<longleftrightarrow> successively next_token (p # ts)"
proof (induction ts arbitrary: p)
  case Nil
  then show ?case by simp
next
  case (Cons t ts)
  then show ?case by (auto simp: next_token_def)
qed

lemma memberRunCount_one: "ms \<noteq> [] \<Longrightarrow> memberRunCount ms = 1 \<longleftrightarrow> successively next_token ms"
  by (cases ms) (simp_all add: memberRunCount_def run_count_Some)

lemma memberRunCount_pos: "ms \<noteq> [] \<Longrightarrow> 1 \<le> memberRunCount ms"
  by (cases ms) (simp_all add: memberRunCount_def)

lemma later_token_trans: "successively later_token ms = sorted_wrt later_token ms"
  by (rule successively_iff_sorted_wrt_strong) (auto simp: later_token_def)

lemma validate_shape_sound:
  assumes "validate_shape input anchors role tids refs = Inr (spans, members)"
    and "role = contiguous \<or> role = discontinuous" and "cn_role k = role" "cn_tokens k = tids" "cn_spans k = refs"
    and ok: "distinct (map tok_id (pa_tokens input))" "\<forall>t \<in> set (pa_tokens input). 0 \<le> tok_block t"
  shows "construction_sound input anchors \<lparr>rc_construction = k, rc_spans = spans\<rparr> members"
proof -
  from assms(1) have v: "(if role = discontinuous then 2 else 1) \<le> length refs" "tids \<noteq> []"
    "role = contiguous \<Longrightarrow> length refs = 1" "resolve_spans (pa_blocks input) None refs = Inr spans"
    "resolve_members (token_map (pa_tokens input)) anchors spans [] None (- 1) tids = Inr members"
    "role = contiguous \<Longrightarrow> memberRunCount members = 1" "role = discontinuous \<Longrightarrow> 2 \<le> memberRunCount members"
    "role = contiguous \<Longrightarrow> \<forall>t \<in> set (pa_tokens input). in_span (hd spans) t \<longrightarrow> tok_id t \<in> set tids"
    by (auto simp: validate_shape_def bind_res_Inr_conv list_ex_iff not_less split: if_splits)
  note s = resolve_spans_ordered[OF v(4)]
  have "tok_id t = k \<and> 0 \<le> tok_block t \<and> t \<in> set (pa_tokens input)" if "token_map (pa_tokens input) k = Some t" for k t
    using last_by_SomeD[OF that[unfolded token_map_def]] ok(2) by auto
  note m = resolve_members_sound[OF v(5) this, simplified]
  have ne: "members \<noteq> []" using m v(2) by auto
  have all: "set members = {t \<in> set (pa_tokens input). in_span (hd spans) t}" if "role = contiguous"
  proof -
    have "length spans = 1" using s v(3)[OF that] by simp
    then obtain x where x: "spans = [x]" by (auto simp: length_Suc_conv)
    show ?thesis
    proof (rule set_eqI, rule iffI)
      fix t assume "t \<in> {t \<in> set (pa_tokens input). in_span (hd spans) t}"
      then have t: "t \<in> set (pa_tokens input)" "tok_id t \<in> set (map tok_id members)" using v(8)[OF that] m by auto
      then obtain u where "u \<in> set members" "tok_id u = tok_id t" by auto
      with t m ok(1) show "t \<in> set members" by (auto simp: distinct_map inj_on_def)
    qed (use m x in auto)
  qed
  have role: "role = contiguous \<and> length spans = 1 \<and> successively next_token members \<and>
         set members = {t \<in> set (pa_tokens input). in_span (hd spans) t} \<or>
       role = discontinuous \<and> 2 \<le> length spans \<and> \<not> successively next_token members"
    using assms(2)
  proof
    assume r: "role = contiguous"
    then show ?thesis using all s v(3,6) memberRunCount_one[OF ne] by simp
  next
    assume r: "role = discontinuous"
    then show ?thesis using s v(1,7) memberRunCount_one[OF ne] by auto
  qed
  show ?thesis
    using m s ne role assms(3-5) by (auto simp: construction_sound_def Let_def later_token_trans)
qed

lemma validate_construction_parts:
  assumes "validate_construction E input anchors senses k = Inr c"
  obtains members where "cn_role k = contiguous \<or> cn_role k = discontinuous" "rc_construction c = k"
    "validate_shape input anchors (cn_role k) (cn_tokens k) (cn_spans k) = Inr (rc_spans c, members)"
    "validateSenseReference (cn_sense k) (cn_new k) (cn_kind k) (pa_source_lang input) (pa_target_lang input)
       (candidate_map (pa_candidates input)) senses = Inr ()" "\<not> blank (cn_shadow k)"
  using assms by (auto simp: validate_construction_def bind_res_Inr_conv Let_def split: if_splits)

lemma validateResponse_constructions_all:
  assumes "validateResponse E input response prior = Inr v" and "distinct (map tok_id (pa_tokens input))"
    and "\<forall>t \<in> set (pa_tokens input). 0 \<le> tok_block t"
  shows "map rc_construction (vr_constructions v) = rs_constructions response"
    and "\<forall>c \<in> set (vr_constructions v). \<exists>members. construction_sound input (vr_sentences v) c members"
    and "i < j \<Longrightarrow> j < length (vr_constructions v) \<Longrightarrow>
      cn_role (rc_construction (vr_constructions v ! i)) = contiguous \<Longrightarrow>
      cn_role (rc_construction (vr_constructions v ! j)) = contiguous \<Longrightarrow>
      \<not> spanOverlap (hd (rc_spans (vr_constructions v ! i))) (hd (rc_spans (vr_constructions v ! j)))"
proof -
  from assms(1) obtain senses where
    con: "map_res (validate_construction E input (vr_sentences v) senses) (rs_constructions response) = Inr (vr_constructions v)"
    and free: "overlap_free (vr_constructions v)"
    by (rule validateResponse_parts) blast
  have nth: "length (vr_constructions v) = length (rs_constructions response) \<and>
      (\<forall>i < length (rs_constructions response). validate_construction E input (vr_sentences v) senses (rs_constructions response ! i) =
        Inr (vr_constructions v ! i))"
    using map_res_Inr_length[OF con] map_res_Inr_nth[OF con] by simp
  have each: "rc_construction (vr_constructions v ! n) = rs_constructions response ! n \<and>
      (\<exists>members. construction_sound input (vr_sentences v) (vr_constructions v ! n) members)"
    if "n < length (vr_constructions v)" for n
  proof -
    have "validate_construction E input (vr_sentences v) senses (rs_constructions response ! n) = Inr (vr_constructions v ! n)"
      using nth that by simp
    then obtain members where
      c: "cn_role (rs_constructions response ! n) = contiguous \<or> cn_role (rs_constructions response ! n) = discontinuous"
      "rc_construction (vr_constructions v ! n) = rs_constructions response ! n"
      "validate_shape input (vr_sentences v) (cn_role (rs_constructions response ! n)) (cn_tokens (rs_constructions response ! n))
         (cn_spans (rs_constructions response ! n)) = Inr (rc_spans (vr_constructions v ! n), members)"
      by (rule validate_construction_parts) blast
    have e: "\<lparr>rc_construction = rs_constructions response ! n, rc_spans = rc_spans (vr_constructions v ! n)\<rparr> = vr_constructions v ! n"
      using c(2) by (intro ResolvedConstruction.equality) simp_all
    show ?thesis using validate_shape_sound[OF c(3,1) refl refl refl assms(2,3)] c(2) unfolding e by blast
  qed
  have len: "length (vr_constructions v) = length (rs_constructions response)" using nth by blast
  show "map rc_construction (vr_constructions v) = rs_constructions response"
    by (rule nth_equalityI) (use len each in auto)
  show sound: "\<forall>c \<in> set (vr_constructions v). \<exists>members. construction_sound input (vr_sentences v) c members"
    using each by (auto simp: in_set_conv_nth)
  have single: "length (rc_spans (vr_constructions v ! n)) = 1"
    if "n < length (vr_constructions v)" "cn_role (rc_construction (vr_constructions v ! n)) = contiguous" for n
  proof -
    from sound nth_mem[OF that(1)]
    have "\<exists>members. construction_sound input (vr_sentences v) (vr_constructions v ! n) members" by blast
    then show ?thesis using that(2) by (auto simp: construction_sound_def Let_def contiguous_def discontinuous_def)
  qed
  assume ij: "i < j" "j < length (vr_constructions v)"
    "cn_role (rc_construction (vr_constructions v ! i)) = contiguous"
    "cn_role (rc_construction (vr_constructions v ! j)) = contiguous"
  have "apart (vr_constructions v ! i) (vr_constructions v ! j)"
    using free ij(1,2) by (simp add: overlap_free_sorted_wrt sorted_wrt_iff_nth_less)
  then show "\<not> spanOverlap (hd (rc_spans (vr_constructions v ! i))) (hd (rc_spans (vr_constructions v ! j)))"
    using ij single[of i] single[of j] by (auto simp: apart_def)
qed

text \<open>C22: what an accepted response says of the constructions, on an article whose tokens have different identifiers
  and real blocks.  Each construction of the response keeps its place; its members are tokens of the article in source
  order, in one block and one source sentence, inside its ordered spans; a contiguous one has a single span and
  its members are exactly the tokens of that span, consecutive in the text, a discontinuous one at least two spans and
  a gap between its members; and no two contiguous constructions overlap.\<close>
theorem validateResponse_constructions:
  assumes "validateResponse E input response prior = Inr v" and "distinct (map tok_id (pa_tokens input))"
    and "\<forall>t \<in> set (pa_tokens input). 0 \<le> tok_block t"
  shows "map rc_construction (vr_constructions v) = rs_constructions response \<and>
    (\<forall>c \<in> set (vr_constructions v). \<exists>members. construction_sound input (vr_sentences v) c members) \<and>
    (\<forall>i j. i < j \<and> j < length (vr_constructions v) \<and>
      cn_role (rc_construction (vr_constructions v ! i)) = contiguous \<and>
      cn_role (rc_construction (vr_constructions v ! j)) = contiguous \<longrightarrow>
      \<not> spanOverlap (hd (rc_spans (vr_constructions v ! i))) (hd (rc_spans (vr_constructions v ! j))))"
  using validateResponse_constructions_all[OF assms] by blast

section \<open>An example\<close>

definition sample_response :: Response where
  "sample_response = \<lparr>rs_version = AnalysisContractVersion,
     rs_tokens = [\<lparr>tr_token = ''b0:t0'', tr_class = ''adverb'', tr_kind = ''word'', tr_sense = [], tr_new = ''r'', tr_shadow = ''yes'',
        tr_pron = [], tr_context = [], tr_confidence = 900\<rparr>],
     rs_senses = [\<lparr>ns_ref = ''r'', ns_kind = ''word'', ns_canonical = ''ja'', ns_form = ''ja'', ns_lemma = [], ns_pos = [],
        ns_discriminator = ''affirm'', ns_primary = ''yes'', ns_alternatives = [], ns_literal = [], ns_meaning = [],
        ns_usage = [], ns_parts = [], ns_pron = []\<rparr>],
     rs_constructions = [\<lparr>cn_kind = ''phrase'', cn_role = contiguous, cn_sense = [], cn_new = [], cn_shadow = ''yes'', cn_pron = [],
        cn_context = [], cn_confidence = 500, cn_tokens = [''b0:t0''],
        cn_spans = [\<lparr>sr_block = 0, sr_text = ''Ja'', sr_occurrence = 0\<rparr>]\<rparr>]\<rparr>"

lemma sample_forms:
  "plain ''yes''" "plain ''Ja''" "plain ''ja''" "plain ''affirm''" "plain ''adverb''" "plain ''r''"
  "safeProviderText [] n = Inr ()" "NormalizeForm plain_env ''yes'' = Inr ''yes''" "NormalizeForm plain_env ''Ja'' = Inr ''Ja''"
  "NormalizeForm plain_env ''ja'' = Inr ''ja''"
proof -
  show p: "plain ''yes''" "plain ''Ja''" "plain ''ja''" "plain ''affirm''" "plain ''adverb''" "plain ''r''"
    by (simp_all add: plain_def byte_def)
  show "safeProviderText [] n = Inr ()" using plain_safe[of "[]" n] by (simp add: plain_def)
  show "NormalizeForm plain_env ''yes'' = Inr ''yes''" "NormalizeForm plain_env ''Ja'' = Inr ''Ja''"
    "NormalizeForm plain_env ''ja'' = Inr ''ja''" using p by (simp_all add: plain_form)
qed

lemma sample_response_ok: "\<exists>v. validateResponse plain_env (chunkAsPrepared sample_chunk) sample_response [] = Inr v \<and>
    length (vr_constructions v) = 1"
proof -
  let ?s = "hd (rs_senses sample_response)" and ?t = "hd (rs_tokens sample_response)" and ?c = "hd (rs_constructions sample_response)"
  have u: "rs_senses sample_response = [?s]" "rs_tokens sample_response = [?t]" "rs_constructions sample_response = [?c]"
    "rs_version sample_response = AnalysisContractVersion" "ns_ref ?s = ''r''" "tr_token ?t = ''b0:t0''"
    "cn_role ?c = contiguous" "tok_id sample_token = ''b0:t0''"
    by (simp_all add: sample_response_def sample_token_def)
  have sense: "validateSense plain_env ?s = Inr ()"
    by (simp add: validateSense_def sample_response_def sense_fields_def field_ok_def check_forms_def kind_valid_def
        SemKindWord_def MaxNoteScalars_def MaxAlternatives_def plain_blank plain_safe sample_forms)
  have token: "validateTokenResult plain_env ?t sample_token ''nl'' ''en'' c [''r'' \<mapsto> ?s] = Inr ()" for c
    by (simp add: validateTokenResult_def sample_response_def kind_valid_def SemKindWord_def MaxNoteScalars_def
        MaxShadowScalars_def plain_safe special_class_def plain_blank normalized_shadow_def sample_forms sample_token_def
        validateSenseReference_def)
  have con: "validate_construction plain_env (chunkAsPrepared sample_chunk) (pc_sentences sample_chunk) m ?c =
      Inr \<lparr>rc_construction = ?c, rc_spans = [\<lparr>sp_block = 0, sp_start = 0, sp_end = 2, sp_text = ''Ja''\<rparr>]\<rparr>" for m
    using sample_shape
    by (simp add: validate_construction_def sample_response_def contiguous_def discontinuous_def kind_valid_def SemKindWord_def
        validateSenseReference_def MaxShadowScalars_def plain_safe plain_blank sample_forms constructionSubtitleForbids_def
        validateConstructionSubtitle_def sample_token_def Let_def)
  have inside: "sentenceForToken (pc_sentences sample_chunk) sample_token = 0"
    by (simp add: sentenceForToken_def in_span_def sample_chunk_def sample_token_def)
  have senses: "collect_senses plain_env [?s] Map.empty = Inr [''r'' \<mapsto> ?s]"
    using plain_safe[of "''r''" 120] by (simp add: collect_senses_def u(5) sense sample_forms)
  have map: "token_map [sample_token] ''b0:t0'' = Some sample_token" by (simp add: token_map_def last_by_def u(8))
  have none: "collect_senses plain_env [] m = Inr m" for m by (simp add: collect_senses_def)
  have all: "collect_senses plain_env (rs_senses sample_response) Map.empty = Inr [''r'' \<mapsto> ?s]"
    by (subst u(1)) (rule senses)
  have toks: "\<exists>ts. validate_tokens plain_env ''nl'' ''en'' (token_map [sample_token]) (candidate_map []) [''r'' \<mapsto> ?s] []
      (rs_tokens sample_response) = Inr ts"
    by (subst u(2)) (simp add: u(6) map token)
  have cons: "map_res (validate_construction plain_env (chunkAsPrepared sample_chunk) (pc_sentences sample_chunk) m)
      (rs_constructions sample_response) =
      Inr [\<lparr>rc_construction = ?c, rc_spans = [\<lparr>sp_block = 0, sp_start = 0, sp_end = 2, sp_text = ''Ja''\<rparr>]\<rparr>]" for m
    by (subst u(3)) (simp add: con)
  have len: "length (rs_tokens sample_response) = 1" "''b0:t0'' \<in> set (map tr_token (rs_tokens sample_response))"
    by (subst u(2), simp add: u(6))+
  from toks obtain ts where "validate_tokens plain_env ''nl'' ''en'' (token_map [sample_token]) (candidate_map []) [''r'' \<mapsto> ?s] []
      (rs_tokens sample_response) = Inr ts" ..
  then show ?thesis
    using len by (simp add: validateResponse_def u(4,7,8) sample_tokens none all sample_anchors inside cons)
qed

theorem validateResponse_tokens_witness:
  "\<exists>v. validateResponse plain_env (chunkAsPrepared sample_chunk) sample_response [] = Inr v \<and>
     mset (map rt_token (vr_tokens v)) = mset (pa_tokens (chunkAsPrepared sample_chunk)) \<and>
     (\<forall>x \<in> set (vr_tokens v). token_sound plain_env (chunkAsPrepared sample_chunk) (rs_senses sample_response) x)"
proof -
  obtain v where v: "validateResponse plain_env (chunkAsPrepared sample_chunk) sample_response [] = Inr v"
    using sample_response_ok by blast
  have "distinct (map tok_id (pa_tokens (chunkAsPrepared sample_chunk)))" by (simp add: sample_tokens)
  from validateResponse_tokens[OF v this] v show ?thesis by auto
qed

theorem validateResponse_constructions_witness:
  "\<exists>v c members. validateResponse plain_env (chunkAsPrepared sample_chunk) sample_response [] = Inr v \<and>
     c \<in> set (vr_constructions v) \<and> construction_sound (chunkAsPrepared sample_chunk) (vr_sentences v) c members"
proof -
  obtain v where v: "validateResponse plain_env (chunkAsPrepared sample_chunk) sample_response [] = Inr v"
    "length (vr_constructions v) = 1"
    using sample_response_ok by blast
  have d: "distinct (map tok_id (pa_tokens (chunkAsPrepared sample_chunk)))"
    "\<forall>t \<in> set (pa_tokens (chunkAsPrepared sample_chunk)). 0 \<le> tok_block t" by (simp_all add: sample_tokens sample_token_def)
  have "vr_constructions v ! 0 \<in> set (vr_constructions v)" using v(2) by simp
  then show ?thesis using validateResponse_constructions[OF v(1) d] v(1) by blast
qed
end
