(* ===== verification/Spec2Isabelle.thy ===== *)
theory Spec2Isabelle
  imports Media_Recovery Media_Lease Workers_Speech LLM_Loss Jobs_Props Reader_Sentences Reader_Annotations Plugin_Dispatch Semantics_Sound Semantics_Identity Auth_Handlers
begin

text \<open>
  A verification development of the doublangu server, a Go program that stores articles in a foreign language, has
  them analysed by language models, narrated by speech workers, and served to a reader.  Package paths below are under
  src/, and internal/ or pkg/ where they say so.

  \<^bold>\<open>The program and its parts.\<close>  One process holds a SQLite database and a directory of audio files.  The durable
  scheduler (internal/jobs) is a table of jobs with dependencies, leases and attempts; everything slow is a job.  The
  reader (internal/reader) turns the text of an article into blocks, sentences and normalized annotations.  The semantic
  compiler (internal/semantics) prepares an article for a provider and validates what the provider answers, as a
  whole, by paragraph, or in a linguistic and a translation stage that are merged.  The speech store (internal/speech)
  queues renders of sentences and words as jobs and binds the accepted audio to articles.  The relay
  (internal/llmrelay) sends a provider call through a job to a worker on another machine and waits for its stored
  result.  The worker service (internal/workers, contract in internal/localworker) enrolls the single remote worker,
  leases jobs to it and takes its completions; it writes the scheduler's, the relay's and the speech tables in one
  transaction, and publishes audio through the media store (internal/media), whose transaction callback is the worker
  service's.  Plugins (internal/plugins, pkg/pluginapi/v1) register providers, commands and observers in one
  transaction.  A single owner logs in through internal/auth.

  \<^bold>\<open>Conventions.\<close>  A Go string is a byte list, so every length and index is in bytes unless a comment says UTF-16.
  An error is the left side of a sum; a call with several return values and an error is a sum over their tuple.  A
  table is the list of its rows; \<open>with_transaction\<close> keeps the old database on an error.  Every operation reads one
  clock, given as an argument, except loops, which are given one per iteration.  Go's \<open>int\<close> is \<open>int\<close> where the code's own
  checks keep the values small; the float64 counts of the login limiter are rational.  Not in the repository, and so
  parameters: SHA-256, HMAC, bcrypt, Unicode normalization, case mapping and the tables behind \<open>unicode.IsLetter\<close>,
  parsing of ULIDs, random tokens and new identifiers, the float64 texts of JSON timings, the operating system's answers.

  \<^bold>\<open>Theories.\<close>
  \<^item> Go_Prelude: results, tables, transactions, reachable states of a step relation and the locale
    \<open>invariant_system\<close> (an initial state, steps, an invariant every step keeps), which every component with state interprets
    on its own step relation.  Go_Text: UTF-8, runes, strings.  Go_Lists: order-independent facts.
  \<^item> Go_Json, Go_Json_Facts, Go_Json_Struct, Go_Json_Compact: what the program uses of encoding/json.  Reading takes fuel;
    \<open>2 * length + 1\<close> is always enough (\<open>parse_fuel\<close>).  Printing and reading back, decoding into structs field by field, compaction.
  \<^item> Jobs (internal/jobs/jobs.go, all operations); Jobs_Lifecycle, the states a job may pass through as a small relation;
    Jobs_Steps, that every operation refines it and keeps \<open>db_ok\<close>; Jobs_Props, fencing of stale leases, claims, capability lanes,
    reconciliation of failed dependencies against an inductive definition of doomed jobs, cycles, recovery.
  \<^item> Auth_Limiter (ratelimit.go), Auth_Sessions (session.go), Auth_Handlers (csrf.go, handler.go, password.go), internal/auth.
    The session store refines a partial map from tokens to expiries through the locale \<open>session_contract\<close>.
  \<^item> Reader_Text (normalize.go), with byte and UTF-16 offsets as an interpretation of the locale \<open>offset_codec\<close>; Reader_Article
    (types.go), Reader_Sentences (sentences.go), Reader_Annotations (annotations.go), internal/reader.
  \<^item> Plugin_Registry (pending.go, registry.go, registration.go): the transaction of one registration; Plugin_Commit: its
    refinement of the list of accepted calls; Plugin_Dispatch: lookups, and event dispatch as a step relation in which dispatches
    and registrations interleave between critical sections.
  \<^item> Semantics_Types, Semantics_Tokens, Semantics_Validate (internal/semantics/types.go), Semantics_Chunks (chunks.go),
    Semantics_Stages (stages.go); Semantics_Facts, Semantics_Compose, Semantics_Sound, Semantics_Identity: what an accepted
    response promises, and that stages validated apart merge into a response that is valid.
  \<^item> LLM_Codec (llmrelay.go), LLM_Relay (service.go, adapter.go), internal/llmrelay; LLM_Codec_Facts, LLM_Results, LLM_Samples,
    LLM_Relay_Props, LLM_Wait, LLM_Loss: round trips of results and the bytes a result can lose, exactly one result per completed
    job, idempotent completion, the durable wait.
  \<^item> Localworker (internal/localworker/protocol.go, mapping.go) and Localworker_Props: request bodies, strict decoding, validators.
  \<^item> Speech_Types, Speech_Store (internal/speech): units, profiles, renders, narration; Speech_Props: \<open>audio_ok\<close> and the preorder \<open>kept\<close>,
    which every operation respects through its elementary updates; Speech_Audio: what follows, with a run of the store.
  \<^item> Workers (internal/workers/service.go) and Workers_Common (ailocals.go): enrollment, credentials, lease lanes, completions;
    Workers_Relay, Workers_Props, Workers_Speech: what the service promises of relay jobs, of its workers and of speech jobs.
    A state of the worker service extends a state of the relay, which extends the scheduler's, by records and their schemes.
  \<^item> Media (internal/media/media.go) over a world of two directories, the database and the prepared writes of the process; every
    call of the operating system or the database works, fails, fails after it took effect, or ends the process, as an oracle says.
    Media_Props: \<open>ends C Q m\<close>, a Hoare triple with a postcondition for runs that end the process, and that every operation keeps
    \<open>disk_ok\<close>.  Media_Workers: that a publication is the transaction Workers takes it for.  Media_Recovery: bytes of recorded
    digests survive, recovery makes files and rows agree.  Media_Lease: the digest leases at the grain of their locks.

  \<^bold>\<open>How the models meet.\<close>  The relay's \<open>hub_step\<close> takes the scheduler's operations as they are, save a plain completion of a
  relay job, which no caller in the program makes and which would let the job succeed without a result.  \<open>workers.Revoke\<close>,
  \<open>ensureSpeechJobTx\<close>, the reader's analysis queue (v2_store.go) and \<open>writeAilocalsDigestTx\<close> write the job table with statements
  of their own, two of which reset the attempt count of a job that has ended; the reachable states of Jobs_Props are those of the
  scheduler's own calls, \<open>stale_lease_fenced\<close> says what the token still gives beyond them, and \<open>revoked_last_attempt_stranded\<close>
  shows what such a statement can do.  The calm steps of the audio store leave out completions of purged renders, which the
  worker service refuses first (\<open>cleared_sentence_stuck\<close>).  \<open>worker_step\<close> has a step for every call of the service on its workers and enrollments, and one for
  other changes of the database that leave these alone.  The outcomes of \<open>CommitPrepared\<close> are the parameter \<open>media_io\<close> in Workers;
  \<open>CommitPrepared_refines\<close> shows that every run of the media model has the outcome of one such parameter, and that an error of
  the callback comes back to the caller.

  \<^bold>\<open>Bounds.\<close>  A lease loop polls at most 102 times: every iteration but the last sleeps 250 ms and the deadline is
  25 s away (\<open>claim_polls\<close>, \<open>lease_calls_return\<close>).  A relay wait needs 482 polls of at least 250 ms once nobody touches
  its job or the workers any more: the lease (90 s) and the presence (30 s) run out (\<open>Wait_returns\<close>).
  A disk operation of the media store is atomic in Media, which the leases justify: operations on one digest exclude
  each other (\<open>lease_exclusive\<close>) and those on different digests touch different names.  The end of the process is modelled,
  a loss of power is not: what a completed rename or write did to the file system stays.  \<open>media_bytes_kept\<close> and
  \<open>recovery_restores_parity\<close> ask that removals of cleanup entries return no error; \<open>placeholder_loses_bytes\<close> shows that bytes
  can be lost otherwise.

  \<^bold>\<open>Not modelled.\<close>  Wiring, flags and the HTTP server (cmd/doublangu-server), routing and response encoding
  (internal/httpapi), configuration from the environment (internal/config): I/O around the services above.
  Goroutines that drive provider calls and the SQL bookkeeping of their history (internal/analysis, internal/dictionary,
  internal/sentencetranslation): their leases are the scheduler's, what they accept is validated by the semantic compiler.
  Sessions with language models over subprocesses and HTTP, prompts and their schemas (internal/annotator,
  internal/prompts).  SQL statements that save and read articles and collections (internal/reader/v2_store.go and store.go,
  internal/library/store.go, internal/semantics/store.go).  Loading of shared objects and reading of build information
  (internal/plugins/loader.go, fingerprint.go, manifest.go).  Of the modelled packages: errors of the SQL driver except
  those of constraints (and, in Media, of every call), the texts of error messages, log lines, JSON views that are plain data.
\<close>

end
